(* ===== verification/Prelude.thy ===== *)
theory Prelude
  imports Main "HOL-Library.Word" "HOL-Library.Char_ord" "HOL-Library.List_Lexorder"
begin

text \<open>
  The ground every component stands on: the Go types the models share, the part of
  Go's standard library (\<open>strings\<close>, \<open>strconv\<close>, \<open>slices\<close>) the source uses, written out as
  executable definitions on byte strings, and the generic lemmas about them.

  A Go \<open>string\<close> and a \<open>[]byte\<close> are both sequences of bytes: \<open>string\<close> (a \<open>char list\<close>; a
  \<open>char\<close> is a byte). A \<open>uint64\<close> is a \<open>64 word\<close>, so additions wrap; a Go \<open>int\<close> that only counts
  things held in memory is an \<open>int\<close> or a \<open>nat\<close>. A fallible function returns \<open>'e + 'a\<close>,
  \<open>Inl\<close> the error. A \<open>nil\<close>-able pointer is an \<open>option\<close>.
\<close>

named_theorems str_simps \<open>equations of the string functions\<close>
named_theorems inv_intros \<open>invariants kept by the operations\<close>

type_synonym u64 = "64 word"
type_synonym bytes = string

subsection \<open>Sums: errors as values\<close>

fun is_ok :: "'e + 'a \<Rightarrow> bool" where
  "is_ok (Inl _) = False"
| "is_ok (Inr _) = True"

text \<open>A loop that maps a fallible function over a slice and stops at the first error.\<close>

fun map_err :: "('a \<Rightarrow> 'e + 'b) \<Rightarrow> 'a list \<Rightarrow> 'e + 'b list" where
  "map_err f [] = Inr []"
| "map_err f (x # xs) =
     (case f x of Inl e \<Rightarrow> Inl e
      | Inr y \<Rightarrow> (case map_err f xs of Inl e \<Rightarrow> Inl e | Inr ys \<Rightarrow> Inr (y # ys)))"

text \<open>The same loop with a state threaded through it.\<close>

fun map_st :: "('a \<Rightarrow> 's \<Rightarrow> 'e + 'b \<times> 's) \<Rightarrow> 'a list \<Rightarrow> 's \<Rightarrow> 'e + 'b list \<times> 's" where
  "map_st f [] s = Inr ([], s)"
| "map_st f (x # xs) s =
     (case f x s of Inl e \<Rightarrow> Inl e
      | Inr (y, s1) \<Rightarrow>
          (case map_st f xs s1 of Inl e \<Rightarrow> Inl e | Inr (ys, s2) \<Rightarrow> Inr (y # ys, s2)))"

lemma map_err_length: "map_err f xs = Inr ys \<Longrightarrow> length ys = length xs"
  by (induction xs arbitrary: ys) (auto split: sum.splits)

lemma map_st_length: "map_st f xs s = Inr (ys, s') \<Longrightarrow> length ys = length xs"
  by (induction xs arbitrary: s ys) (auto split: sum.splits prod.splits)

text \<open>What every step keeps, the whole loop keeps.\<close>

lemma map_st_invariant:
  assumes "\<And>x s y s'. x \<in> set xs \<Longrightarrow> P s \<Longrightarrow> f x s = Inr (y, s') \<Longrightarrow> P s'"
    and "P s" and "map_st f xs s = Inr (ys, s')"
  shows "P s'"
  using assms
proof (induction xs arbitrary: s ys)
  case Nil
  then show ?case by simp
next
  case (Cons x xs)
  from Cons.prems(3) obtain y s1 ys1
    where step: "f x s = Inr (y, s1)" and rest: "map_st f xs s1 = Inr (ys1, s')"
    by (auto split: sum.splits prod.splits)
  have "P s1" using Cons.prems(1) [OF _ Cons.prems(2) step] by simp
  then show ?case
    using Cons.IH [OF _ _ rest] Cons.prems(1) by (meson list.set_intros(2))
qed

text \<open>A loop over a list that changes a state and stops at the first error.\<close>

fun fold_err :: "('i \<Rightarrow> 's \<Rightarrow> 'e + 's) \<Rightarrow> 'i list \<Rightarrow> 's \<Rightarrow> 'e + 's" where
  "fold_err h [] s = Inr s"
| "fold_err h (i # is) s = (case h i s of Inl e \<Rightarrow> Inl e | Inr s1 \<Rightarrow> fold_err h is s1)"

lemma fold_err_append:
  "fold_err h (xs @ ys) s = (case fold_err h xs s of Inl e \<Rightarrow> Inl e | Inr s1 \<Rightarrow> fold_err h ys s1)"
  by (induction xs arbitrary: s) (auto split: sum.splits)

lemma fold_err_invariant:
  assumes "\<And>i s s1. i \<in> set xs \<Longrightarrow> P s \<Longrightarrow> h i s = Inr s1 \<Longrightarrow> P s1"
    and "P s" and "fold_err h xs s = Inr s'"
  shows "P s'"
  using assms by (induction xs arbitrary: s) (auto split: sum.splits)

text \<open>The same for a predicate over the items handled so far.\<close>

lemma fold_err_run:
  assumes "fold_err h xs s = Inr s'" and "P pre s"
    and "\<And>pre i s s1. P pre s \<Longrightarrow> h i s = Inr s1 \<Longrightarrow> P (pre @ [i]) s1"
  shows "P (pre @ xs) s'"
  using assms(1,2)
proof (induction xs arbitrary: s pre)
  case (Cons i xs)
  from Cons.prems(1) obtain s1 where s1: "h i s = Inr s1" "fold_err h xs s1 = Inr s'"
    by (auto split: sum.splits)
  from Cons.IH [OF s1(2) assms(3) [OF Cons.prems(2) s1(1)]] show ?case by simp
qed simp

text \<open>
  Calls that thread a state and may fail, in sequence; \<open>keeps_inv P m\<close> says a call keeps \<open>P\<close>.
\<close>

type_synonym ('s, 'e, 'a) st = "'s \<Rightarrow> 'e + 'a \<times> 's"

definition st_ret :: "'a \<Rightarrow> ('s, 'e, 'a) st" where
  "st_ret a = (\<lambda>s. Inr (a, s))"

definition st_bind :: "('s, 'e, 'a) st \<Rightarrow> ('a \<Rightarrow> ('s, 'e, 'b) st) \<Rightarrow> ('s, 'e, 'b) st" where
  "st_bind m f = (\<lambda>s. case m s of Inl e \<Rightarrow> Inl e | Inr (a, s1) \<Rightarrow> f a s1)"

definition keeps_inv :: "('s \<Rightarrow> bool) \<Rightarrow> ('s, 'e, 'a) st \<Rightarrow> bool" where
  "keeps_inv P m \<longleftrightarrow> (\<forall>s a s1. P s \<longrightarrow> m s = Inr (a, s1) \<longrightarrow> P s1)"

lemma st_bind_Inr: "st_bind m f s = Inr (b, s2) \<longleftrightarrow> (\<exists>a s1. m s = Inr (a, s1) \<and> f a s1 = Inr (b, s2))"
  by (auto simp: st_bind_def split: sum.splits)

lemma st_ret_Inr [simp]: "st_ret a s = Inr (b, s1) \<longleftrightarrow> b = a \<and> s1 = s"
  by (auto simp: st_ret_def)

lemma keeps_invD: "keeps_inv P m \<Longrightarrow> P s \<Longrightarrow> m s = Inr (a, s1) \<Longrightarrow> P s1"
  by (auto simp: keeps_inv_def)

lemma keeps_inv_ret [inv_intros]: "keeps_inv P (st_ret a)"
  by (simp add: keeps_inv_def)

lemma keeps_inv_bind [inv_intros]:
  "keeps_inv P m \<Longrightarrow> (\<And>a. keeps_inv P (f a)) \<Longrightarrow> keeps_inv P (st_bind m f)"
  unfolding keeps_inv_def st_bind_Inr by blast

lemma keeps_inv_map_st [inv_intros]:
  assumes "\<And>a. keeps_inv P (f a)" shows "keeps_inv P (map_st f xs)"
proof -
  have "P s1" if "P s" "map_st f xs s = Inr (ys, s1)" for s ys s1
    using that by (rule map_st_invariant [where P = P and f = f and xs = xs, rotated])
      (rule keeps_invD [OF assms])
  then show ?thesis by (auto simp: keeps_inv_def)
qed

lemma keeps_inv_if [inv_intros]:
  "(b \<Longrightarrow> keeps_inv P m) \<Longrightarrow> (\<not> b \<Longrightarrow> keeps_inv P n) \<Longrightarrow> keeps_inv P (if b then m else n)"
  by simp

lemma keeps_inv_option [inv_intros]:
  "keeps_inv P m \<Longrightarrow> (\<And>a. keeps_inv P (f a)) \<Longrightarrow> keeps_inv P (case z of None \<Rightarrow> m | Some a \<Rightarrow> f a)"
  by (simp split: option.split)

subsection \<open>strings\<close>

definition has_prefix :: "string \<Rightarrow> string \<Rightarrow> bool" where
  "has_prefix s p \<longleftrightarrow> length p \<le> length s \<and> take (length p) s = p"

definition has_suffix :: "string \<Rightarrow> string \<Rightarrow> bool" where
  "has_suffix s p \<longleftrightarrow> length p \<le> length s \<and> drop (length s - length p) s = p"

text \<open>\<open>strings.CutPrefix\<close>: \<open>None\<close> is \<open>found = false\<close>.\<close>

definition cut_prefix :: "string \<Rightarrow> string \<Rightarrow> string option" where
  "cut_prefix s p = (if has_prefix s p then Some (drop (length p) s) else None)"

definition trim_prefix :: "string \<Rightarrow> string \<Rightarrow> string" where
  "trim_prefix s p = (if has_prefix s p then drop (length p) s else s)"

definition trim_suffix :: "string \<Rightarrow> string \<Rightarrow> string" where
  "trim_suffix s p = (if has_suffix s p then take (length s - length p) s else s)"

definition contains_any :: "string \<Rightarrow> string \<Rightarrow> bool" where
  "contains_any s cs \<longleftrightarrow> list_ex (\<lambda>c. c \<in> set cs) s"

fun contains_sub :: "string \<Rightarrow> string \<Rightarrow> bool" where
  "contains_sub [] p = (p = [])"
| "contains_sub (c # s) p = (has_prefix (c # s) p \<or> contains_sub s p)"

text \<open>\<open>strings.Split(s, sep)\<close> for a one byte separator, and \<open>strings.Join\<close>.\<close>

fun split_on :: "char \<Rightarrow> string \<Rightarrow> string list" where
  "split_on c [] = [[]]"
| "split_on c (x # xs) =
     (if x = c then [] # split_on c xs
      else (case split_on c xs of [] \<Rightarrow> [[x]] | t # ts \<Rightarrow> (x # t) # ts))"

fun join_with :: "string \<Rightarrow> string list \<Rightarrow> string" where
  "join_with sep [] = []"
| "join_with sep [t] = t"
| "join_with sep (t # u # ts) = t @ sep @ join_with sep (u # ts)"

text \<open>\<open>strings.Cut(s, sep)\<close> for a one byte separator.\<close>

fun cut_at :: "char \<Rightarrow> string \<Rightarrow> string \<times> string \<times> bool" where
  "cut_at c [] = ([], [], False)"
| "cut_at c (x # xs) =
     (if x = c then ([], xs, True)
      else (case cut_at c xs of (b, a, f) \<Rightarrow> (x # b, a, f)))"

text \<open>ASCII case folding (\<open>strings.ToLower\<close> and \<open>strings.EqualFold\<close> on ASCII text).\<close>

definition lower_char :: "char \<Rightarrow> char" where
  "lower_char c =
     (let n = (of_char c :: nat) in if 65 \<le> n \<and> n \<le> 90 then char_of (n + 32) else c)"

definition to_lower :: "string \<Rightarrow> string" where
  "to_lower s = map lower_char s"

definition equal_fold :: "string \<Rightarrow> string \<Rightarrow> bool" where
  "equal_fold s t \<longleftrightarrow> to_lower s = to_lower t"

lemma has_prefix_append [simp, str_simps]: "has_prefix (p @ s) p"
  by (simp add: has_prefix_def)

lemma cut_prefix_append [simp, str_simps]: "cut_prefix (p @ s) p = Some s"
  by (simp add: cut_prefix_def)

lemma trim_prefix_append [simp, str_simps]: "trim_prefix (p @ s) p = s"
  by (simp add: trim_prefix_def)

lemma cut_prefix_Some_iff: "cut_prefix s p = Some r \<longleftrightarrow> s = p @ r"
  by (auto simp: cut_prefix_def has_prefix_def split: if_splits) (metis append_take_drop_id)

lemma cut_prefix_None_iff: "cut_prefix s p = None \<longleftrightarrow> \<not> has_prefix s p"
  by (simp add: cut_prefix_def)

lemma has_prefix_iff: "has_prefix s p \<longleftrightarrow> (\<exists>r. s = p @ r)"
  by (auto simp: has_prefix_def) (metis append_take_drop_id)

lemma trim_prefix_neq_iff: "p \<noteq> [] \<Longrightarrow> trim_prefix s p \<noteq> s \<longleftrightarrow> has_prefix s p"
  by (auto simp: trim_prefix_def has_prefix_iff)

lemma split_on_nonempty [simp]: "split_on c s \<noteq> []"
  by (induction s) (auto split: list.splits)

lemma split_on_no_sep: "t \<in> set (split_on c s) \<Longrightarrow> c \<notin> set t"
proof (induction s arbitrary: t)
  case Nil
  then show ?case by simp
next
  case (Cons x s)
  then show ?case by (cases "split_on c s") (auto split: if_splits)
qed

lemma join_split [simp, str_simps]: "join_with [c] (split_on c s) = s"
proof (induction s)
  case Nil
  then show ?case by simp
next
  case (Cons x s)
  show ?case
  proof (cases "split_on c s")
    case Nil
    then show ?thesis by simp
  next
    case (Cons t ts)
    with Cons.IH show ?thesis by (cases ts) auto
  qed
qed

lemma split_on_append_sep:
  "c \<notin> set t \<Longrightarrow> split_on c (t @ c # s) = t # split_on c s"
  by (induction t) auto

lemma split_on_no_occ: "c \<notin> set t \<Longrightarrow> split_on c t = [t]"
  by (induction t) auto

lemma split_join [str_simps]:
  "ts \<noteq> [] \<Longrightarrow> \<forall>t \<in> set ts. c \<notin> set t \<Longrightarrow> split_on c (join_with [c] ts) = ts"
proof (induction "[c]" ts rule: join_with.induct)
  case 1
  then show ?case by simp
next
  case (2 t)
  then show ?case by (simp add: split_on_no_occ)
next
  case (3 t u ts)
  then show ?case by (simp add: split_on_append_sep)
qed

lemma join_with_snoc:
  "ts \<noteq> [] \<Longrightarrow> join_with sep (ts @ [u]) = join_with sep ts @ sep @ u"
  by (induction sep ts rule: join_with.induct) auto

lemma cut_at_found: "cut_at c s = (b, a, True) \<Longrightarrow> s = b @ c # a \<and> c \<notin> set b"
  by (induction s arbitrary: b) (auto split: if_splits prod.splits)

lemma cut_at_not_found: "cut_at c s = (b, a, False) \<Longrightarrow> b = s \<and> a = [] \<and> c \<notin> set s"
  by (induction s arbitrary: b) (auto split: if_splits prod.splits)

lemma cut_at_append: "c \<notin> set b \<Longrightarrow> cut_at c (b @ c # a) = (b, a, True)"
  by (induction b) auto

lemma cut_at_absent: "c \<notin> set b \<Longrightarrow> cut_at c b = (b, [], False)"
  by (induction b) auto

subsection \<open>strconv\<close>

definition digit_char :: "nat \<Rightarrow> char" where
  "digit_char d = char_of (48 + d)"

definition digit_val :: "char \<Rightarrow> nat option" where
  "digit_val c =
     (let n = (of_char c :: nat) in if 48 \<le> n \<and> n \<le> 57 then Some (n - 48) else None)"

fun itoa :: "nat \<Rightarrow> string" where
  "itoa n = (if n < 10 then [digit_char n] else itoa (n div 10) @ [digit_char (n mod 10)])"

declare itoa.simps [simp del]

fun digits_value :: "nat \<Rightarrow> string \<Rightarrow> nat option" where
  "digits_value acc [] = Some acc"
| "digits_value acc (c # cs) =
     (case digit_val c of None \<Rightarrow> None | Some d \<Rightarrow> digits_value (10 * acc + d) cs)"

text \<open>\<open>strconv.ParseUint(s, 10, 64)\<close>; \<open>None\<close> is the error return.\<close>

definition parse_uint :: "string \<Rightarrow> u64 option" where
  "parse_uint s =
     (if s = [] then None
      else case digits_value 0 s of
             None \<Rightarrow> None
           | Some n \<Rightarrow> if n < 2 ^ 64 then Some (of_nat n) else None)"

text \<open>\<open>strconv.Atoi\<close> and \<open>strconv.ParseInt(s, 10, 64)\<close> on a 64-bit platform.\<close>

definition atoi :: "string \<Rightarrow> int option" where
  "atoi s =
     (let (neg, ds) = (case s of [] \<Rightarrow> (False, [])
                       | c # cs \<Rightarrow> if c = CHR ''-'' then (True, cs)
                                  else if c = CHR ''+'' then (False, cs) else (False, s))
      in if ds = [] then None
         else case digits_value 0 ds of
                None \<Rightarrow> None
              | Some n \<Rightarrow>
                  if neg then (if n \<le> 2 ^ 63 then Some (- int n) else None)
                  else (if n < 2 ^ 63 then Some (int n) else None))"

definition format_uint :: "u64 \<Rightarrow> string" where
  "format_uint w = itoa (unat w)"

definition format_int :: "int \<Rightarrow> string" where
  "format_int i = (if i < 0 then CHR ''-'' # itoa (nat (- i)) else itoa (nat i))"

lemma digit_val_char [simp]: "d < 10 \<Longrightarrow> digit_val (digit_char d) = Some d"
  by (simp add: digit_val_def digit_char_def)

lemma digits_value_append:
  "digits_value acc (s @ t) =
     (case digits_value acc s of None \<Rightarrow> None | Some a \<Rightarrow> digits_value a t)"
  by (induction s arbitrary: acc) (auto split: option.splits)

lemma digits_value_itoa: "digits_value 0 (itoa n) = Some n"
proof (induction n rule: itoa.induct)
  case (1 n)
  show ?case
  proof (cases "n < 10")
    case True
    then show ?thesis by (subst itoa.simps) simp
  next
    case False
    with 1 have "digits_value 0 (itoa (n div 10)) = Some (n div 10)" by simp
    with False show ?thesis by (subst itoa.simps) (simp add: digits_value_append)
  qed
qed

lemma itoa_nonempty [simp]: "itoa n \<noteq> []"
  by (subst itoa.simps) simp

lemma parse_format_uint [simp]: "parse_uint (format_uint w) = Some w"
proof -
  have "unat w < 2 ^ 64" using unsigned_less [of w, where ?'a = nat] by simp
  then show ?thesis by (simp add: parse_uint_def format_uint_def digits_value_itoa)
qed

lemma itoa_digits: "c \<in> set (itoa n) \<Longrightarrow> \<exists>d < 10. c = digit_char d"
proof (induction n rule: itoa.induct)
  case (1 n)
  then show ?case
    by (subst (asm) itoa.simps) (auto split: if_splits intro: exI [of _ "n mod 10"])
qed

subsection \<open>Lists and maps\<close>

text \<open>The newest \<open>n\<close> elements of a history, oldest first.\<close>

definition last_n :: "nat \<Rightarrow> 'a list \<Rightarrow> 'a list" where
  "last_n n xs = drop (length xs - n) xs"

lemma length_last_n [simp]: "length (last_n n xs) = min n (length xs)"
  by (simp add: last_n_def)

lemma last_n_snoc_small: "length xs < n \<Longrightarrow> last_n n (xs @ [x]) = last_n n xs @ [x]"
  by (simp add: last_n_def)

lemma last_n_snoc_full:
  "n \<le> length xs \<Longrightarrow> 0 < n \<Longrightarrow> last_n n (xs @ [x]) = tl (last_n n xs) @ [x]"
  by (simp add: last_n_def tl_drop drop_Suc Suc_diff_le flip: drop_Suc)

lemma last_n_all: "length xs \<le> n \<Longrightarrow> last_n n xs = xs"
  by (simp add: last_n_def)

lemma set_last_n: "set (last_n n xs) \<subseteq> set xs"
  by (simp add: last_n_def set_drop_subset)

lemma last_n_map: "last_n n (map f xs) = map f (last_n n xs)"
  by (simp add: last_n_def drop_map)

lemma last_in_last_n: "0 < n \<Longrightarrow> xs \<noteq> [] \<Longrightarrow> last xs \<in> set (last_n n xs)"
  by (metis diff_less last_drop last_in_set last_n_def length_greater_0_conv drop_eq_Nil not_less)

text \<open>The concatenation of a map's values, each element under its key.\<close>

definition tagged :: "('v \<Rightarrow> 'b list) \<Rightarrow> ('k \<times> 'v) list \<Rightarrow> ('k \<times> 'b) list" where
  "tagged f al = concat (map (\<lambda>p. map (Pair (fst p)) (f (snd p))) al)"

lemma in_tagged_iff: "(k, x) \<in> set (tagged f al) \<longleftrightarrow> (\<exists>v. (k, v) \<in> set al \<and> x \<in> set (f v))"
  by (force simp: tagged_def)

lemma distinct_tagged:
  "distinct (map fst al) \<Longrightarrow> \<forall>p \<in> set al. distinct (f (snd p)) \<Longrightarrow> distinct (tagged f al)"
proof (induction al)
  case Nil
  then show ?case by (simp add: tagged_def)
next
  case (Cons p al)
  have "set (map (Pair (fst p)) (f (snd p))) \<inter> set (tagged f al) = {}"
    using Cons.prems(1) by (force simp: tagged_def)
  with Cons show ?case by (simp add: tagged_def distinct_map inj_on_def)
qed

lemma distinct_map_via: "distinct (map (\<lambda>x. g (f x)) xs) \<Longrightarrow> distinct (map f xs)"
  by (auto simp: distinct_map inj_on_def)

text \<open>Go's \<open>append(m[k], v)\<close> on a map of slices.\<close>

definition map_append :: "('k \<rightharpoonup> 'v list) \<Rightarrow> 'k \<Rightarrow> 'v \<Rightarrow> ('k \<rightharpoonup> 'v list)" where
  "map_append m k v = m(k \<mapsto> (case m k of None \<Rightarrow> [v] | Some vs \<Rightarrow> vs @ [v]))"

lemma sum_list_word_of_nat: "of_nat (sum_list ns) = sum_list (map (of_nat :: nat \<Rightarrow> u64) ns)"
  by (induction ns) auto

end
