(* ===== verification/Api_Enums.thy ===== *)
theory Api_Enums
  imports Prelude
begin

text \<open>
  The enumerations of \<open>api/streams.go\<close> and \<open>api/consumers.go\<close> with their string, JSON and
  YAML forms. Each is an \<open>int\<close> in Go, so a value outside the named constants exists: the
  constructor ending in \<open>Other\<close>, which carries it and takes the \<open>default\<close> branch of every
  switch. \<open>json.Marshal\<close> of a plain string of letters, digits and underscores is the string in
  quotes, as \<open>jsonString\<close> writes it. A decoded YAML scalar is its text (\<open>data.Value\<close>).
\<close>

datatype enum_error = CannotMarshal int | CannotUnmarshal string

definition jsonString :: "string \<Rightarrow> string" where
  "jsonString s = ''\"'' @ s @ ''\"''"

lemma jsonString_inject [simp]: "jsonString s = jsonString t \<longleftrightarrow> s = t"
  by (simp add: jsonString_def)

text \<open>
  A wire codec: what the encoder wrote, the decoder reads back. The enumerations provide it for
  their JSON and YAML forms.
\<close>

locale wire_codec =
  fixes enc :: "'a \<Rightarrow> 'e + string" and dec :: "string \<Rightarrow> 'e + 'a"
  assumes dec_enc: "enc p = Inr d \<Longrightarrow> dec d = Inr p"
begin

lemma enc_inj: "enc p = Inr d \<Longrightarrow> enc q = Inr d \<Longrightarrow> p = q"
  using dec_enc [of p d] dec_enc [of q d] by simp

lemma dec_enc_list: "map_err enc ps = Inr ds \<Longrightarrow> map_err dec ds = Inr ps"
  by (induction ps arbitrary: ds) (auto simp: dec_enc split: sum.splits)

end

subsection \<open>PersistModeType\<close>

datatype PersistModeType = DefaultPersistMode | AsyncPersistMode | PersistModeTypeOther int

fun PersistModeType_String :: "PersistModeType \<Rightarrow> string" where
  "PersistModeType_String DefaultPersistMode = ''Default''"
| "PersistModeType_String AsyncPersistMode = ''Async''"
| "PersistModeType_String (PersistModeTypeOther _) = ''Unknown Persist Mode Type''"

fun PersistModeType_MarshalJSON :: "PersistModeType \<Rightarrow> enum_error + string" where
  "PersistModeType_MarshalJSON DefaultPersistMode = Inr (jsonString ''default'')"
| "PersistModeType_MarshalJSON AsyncPersistMode = Inr (jsonString ''async'')"
| "PersistModeType_MarshalJSON (PersistModeTypeOther i) = Inl (CannotMarshal i)"

fun PersistModeType_MarshalYAML :: "PersistModeType \<Rightarrow> enum_error + string" where
  "PersistModeType_MarshalYAML DefaultPersistMode = Inr ''default''"
| "PersistModeType_MarshalYAML AsyncPersistMode = Inr ''async''"
| "PersistModeType_MarshalYAML (PersistModeTypeOther i) = Inl (CannotMarshal i)"

definition PersistModeType_UnmarshalJSON :: "string \<Rightarrow> enum_error + PersistModeType" where
  "PersistModeType_UnmarshalJSON data =
     (if data = jsonString ''default'' \<or> data = jsonString [] then Inr DefaultPersistMode
      else if data = jsonString ''async'' then Inr AsyncPersistMode
      else Inl (CannotUnmarshal data))"

definition PersistModeType_UnmarshalYAML :: "string \<Rightarrow> enum_error + PersistModeType" where
  "PersistModeType_UnmarshalYAML v =
     (if v = ''default'' \<or> v = [] then Inr DefaultPersistMode
      else if v = ''async'' then Inr AsyncPersistMode
      else Inl (CannotUnmarshal v))"

interpretation PersistModeType_json: wire_codec PersistModeType_MarshalJSON PersistModeType_UnmarshalJSON
  by (unfold_locales, erule PersistModeType_MarshalJSON.elims) (auto simp: PersistModeType_UnmarshalJSON_def)

interpretation PersistModeType_yaml: wire_codec PersistModeType_MarshalYAML PersistModeType_UnmarshalYAML
  by (unfold_locales, erule PersistModeType_MarshalYAML.elims) (auto simp: PersistModeType_UnmarshalYAML_def)

subsection \<open>DiscardPolicy\<close>

datatype DiscardPolicy = DiscardOld | DiscardNew | DiscardPolicyOther int

fun DiscardPolicy_String :: "DiscardPolicy \<Rightarrow> string" where
  "DiscardPolicy_String DiscardOld = ''Old''"
| "DiscardPolicy_String DiscardNew = ''New''"
| "DiscardPolicy_String (DiscardPolicyOther _) = ''Unknown Discard Policy''"

fun DiscardPolicy_MarshalJSON :: "DiscardPolicy \<Rightarrow> enum_error + string" where
  "DiscardPolicy_MarshalJSON DiscardOld = Inr (jsonString ''old'')"
| "DiscardPolicy_MarshalJSON DiscardNew = Inr (jsonString ''new'')"
| "DiscardPolicy_MarshalJSON (DiscardPolicyOther i) = Inl (CannotMarshal i)"

fun DiscardPolicy_MarshalYAML :: "DiscardPolicy \<Rightarrow> enum_error + string" where
  "DiscardPolicy_MarshalYAML DiscardOld = Inr ''old''"
| "DiscardPolicy_MarshalYAML DiscardNew = Inr ''new''"
| "DiscardPolicy_MarshalYAML (DiscardPolicyOther i) = Inl (CannotMarshal i)"

definition DiscardPolicy_UnmarshalJSON :: "string \<Rightarrow> enum_error + DiscardPolicy" where
  "DiscardPolicy_UnmarshalJSON data =
     (if data = jsonString ''old'' then Inr DiscardOld
      else if data = jsonString ''new'' then Inr DiscardNew
      else Inl (CannotUnmarshal data))"

definition DiscardPolicy_UnmarshalYAML :: "string \<Rightarrow> enum_error + DiscardPolicy" where
  "DiscardPolicy_UnmarshalYAML v =
     (if v = ''old'' then Inr DiscardOld
      else if v = ''new'' then Inr DiscardNew
      else Inl (CannotUnmarshal v))"

interpretation DiscardPolicy_json: wire_codec DiscardPolicy_MarshalJSON DiscardPolicy_UnmarshalJSON
  by (unfold_locales, erule DiscardPolicy_MarshalJSON.elims) (auto simp: DiscardPolicy_UnmarshalJSON_def)

interpretation DiscardPolicy_yaml: wire_codec DiscardPolicy_MarshalYAML DiscardPolicy_UnmarshalYAML
  by (unfold_locales, erule DiscardPolicy_MarshalYAML.elims) (auto simp: DiscardPolicy_UnmarshalYAML_def)

subsection \<open>StorageType\<close>

datatype StorageType = FileStorage | MemoryStorage | StorageTypeOther int

fun StorageType_String :: "StorageType \<Rightarrow> string" where
  "StorageType_String FileStorage = ''File''"
| "StorageType_String MemoryStorage = ''Memory''"
| "StorageType_String (StorageTypeOther _) = ''Unknown Storage Type''"

fun StorageType_MarshalJSON :: "StorageType \<Rightarrow> enum_error + string" where
  "StorageType_MarshalJSON FileStorage = Inr (jsonString ''file'')"
| "StorageType_MarshalJSON MemoryStorage = Inr (jsonString ''memory'')"
| "StorageType_MarshalJSON (StorageTypeOther i) = Inl (CannotMarshal i)"

fun StorageType_MarshalYAML :: "StorageType \<Rightarrow> enum_error + string" where
  "StorageType_MarshalYAML FileStorage = Inr ''file''"
| "StorageType_MarshalYAML MemoryStorage = Inr ''memory''"
| "StorageType_MarshalYAML (StorageTypeOther _) = Inr []"

definition StorageType_UnmarshalJSON :: "string \<Rightarrow> enum_error + StorageType" where
  "StorageType_UnmarshalJSON data =
     (if data = jsonString ''file'' then Inr FileStorage
      else if data = jsonString ''memory'' then Inr MemoryStorage
      else Inl (CannotUnmarshal data))"

definition StorageType_UnmarshalYAML :: "string \<Rightarrow> enum_error + StorageType" where
  "StorageType_UnmarshalYAML v =
     (if v = ''file'' then Inr FileStorage
      else if v = ''memory'' then Inr MemoryStorage
      else Inl (CannotUnmarshal v))"

interpretation StorageType_json: wire_codec StorageType_MarshalJSON StorageType_UnmarshalJSON
  by (unfold_locales, erule StorageType_MarshalJSON.elims) (auto simp: StorageType_UnmarshalJSON_def)

text \<open>
  \<open>MarshalYAML\<close> of a storage type returns \<open>"", nil\<close> for a value outside the constants, where every
  other enumeration returns an error: what it wrote cannot be read back.
\<close>

lemma StorageType_yaml_other:
  "StorageType_MarshalYAML (StorageTypeOther i) = Inr d \<and>
   StorageType_UnmarshalYAML d = Inl (CannotUnmarshal d) \<longleftrightarrow> d = []"
  by (auto simp: StorageType_UnmarshalYAML_def)

subsection \<open>RetentionPolicy\<close>

datatype RetentionPolicy = LimitsPolicy | InterestPolicy | WorkQueuePolicy | RetentionPolicyOther int

fun RetentionPolicy_String :: "RetentionPolicy \<Rightarrow> string" where
  "RetentionPolicy_String LimitsPolicy = ''Limits''"
| "RetentionPolicy_String InterestPolicy = ''Interest''"
| "RetentionPolicy_String WorkQueuePolicy = ''WorkQueue''"
| "RetentionPolicy_String (RetentionPolicyOther _) = ''Unknown Retention Policy''"

fun RetentionPolicy_MarshalJSON :: "RetentionPolicy \<Rightarrow> enum_error + string" where
  "RetentionPolicy_MarshalJSON LimitsPolicy = Inr (jsonString ''limits'')"
| "RetentionPolicy_MarshalJSON InterestPolicy = Inr (jsonString ''interest'')"
| "RetentionPolicy_MarshalJSON WorkQueuePolicy = Inr (jsonString ''workqueue'')"
| "RetentionPolicy_MarshalJSON (RetentionPolicyOther i) = Inl (CannotMarshal i)"

fun RetentionPolicy_MarshalYAML :: "RetentionPolicy \<Rightarrow> enum_error + string" where
  "RetentionPolicy_MarshalYAML LimitsPolicy = Inr ''limits''"
| "RetentionPolicy_MarshalYAML InterestPolicy = Inr ''interest''"
| "RetentionPolicy_MarshalYAML WorkQueuePolicy = Inr ''workqueue''"
| "RetentionPolicy_MarshalYAML (RetentionPolicyOther i) = Inl (CannotMarshal i)"

definition RetentionPolicy_UnmarshalJSON :: "string \<Rightarrow> enum_error + RetentionPolicy" where
  "RetentionPolicy_UnmarshalJSON data =
     (if data = jsonString ''limits'' then Inr LimitsPolicy
      else if data = jsonString ''interest'' then Inr InterestPolicy
      else if data = jsonString ''workqueue'' then Inr WorkQueuePolicy
      else Inl (CannotUnmarshal data))"

definition RetentionPolicy_UnmarshalYAML :: "string \<Rightarrow> enum_error + RetentionPolicy" where
  "RetentionPolicy_UnmarshalYAML v =
     (if v = ''limits'' then Inr LimitsPolicy
      else if v = ''interest'' then Inr InterestPolicy
      else if v = ''workqueue'' then Inr WorkQueuePolicy
      else Inl (CannotUnmarshal v))"

interpretation RetentionPolicy_json: wire_codec RetentionPolicy_MarshalJSON RetentionPolicy_UnmarshalJSON
  by (unfold_locales, erule RetentionPolicy_MarshalJSON.elims) (auto simp: RetentionPolicy_UnmarshalJSON_def)

interpretation RetentionPolicy_yaml: wire_codec RetentionPolicy_MarshalYAML RetentionPolicy_UnmarshalYAML
  by (unfold_locales, erule RetentionPolicy_MarshalYAML.elims) (auto simp: RetentionPolicy_UnmarshalYAML_def)

subsection \<open>Compression\<close>

datatype Compression = NoCompression | S2Compression | CompressionOther int

fun Compression_String :: "Compression \<Rightarrow> string" where
  "Compression_String NoCompression = ''None''"
| "Compression_String S2Compression = ''S2 Compression''"
| "Compression_String (CompressionOther _) = ''Unknown Compression''"

fun Compression_MarshalJSON :: "Compression \<Rightarrow> enum_error + string" where
  "Compression_MarshalJSON NoCompression = Inr (jsonString ''none'')"
| "Compression_MarshalJSON S2Compression = Inr (jsonString ''s2'')"
| "Compression_MarshalJSON (CompressionOther i) = Inl (CannotMarshal i)"

fun Compression_MarshalYAML :: "Compression \<Rightarrow> enum_error + string" where
  "Compression_MarshalYAML NoCompression = Inr ''none''"
| "Compression_MarshalYAML S2Compression = Inr ''s2''"
| "Compression_MarshalYAML (CompressionOther i) = Inl (CannotMarshal i)"

definition Compression_UnmarshalJSON :: "string \<Rightarrow> enum_error + Compression" where
  "Compression_UnmarshalJSON data =
     (if data = jsonString ''none'' \<or> data = jsonString [] then Inr NoCompression
      else if data = jsonString ''s2'' then Inr S2Compression
      else Inl (CannotUnmarshal data))"

definition Compression_UnmarshalYAML :: "string \<Rightarrow> enum_error + Compression" where
  "Compression_UnmarshalYAML v =
     (if v = ''none'' \<or> v = [] then Inr NoCompression
      else if v = ''s2'' then Inr S2Compression
      else Inl (CannotUnmarshal v))"

interpretation Compression_json: wire_codec Compression_MarshalJSON Compression_UnmarshalJSON
  by (unfold_locales, erule Compression_MarshalJSON.elims) (auto simp: Compression_UnmarshalJSON_def)

interpretation Compression_yaml: wire_codec Compression_MarshalYAML Compression_UnmarshalYAML
  by (unfold_locales, erule Compression_MarshalYAML.elims) (auto simp: Compression_UnmarshalYAML_def)

subsection \<open>AckPolicy\<close>

datatype AckPolicy = AckNone | AckAll | AckExplicit | AckFlowControl | AckPolicyOther int

fun AckPolicy_String :: "AckPolicy \<Rightarrow> string" where
  "AckPolicy_String AckNone = ''None''"
| "AckPolicy_String AckAll = ''All''"
| "AckPolicy_String AckExplicit = ''Explicit''"
| "AckPolicy_String AckFlowControl = ''Flow Control''"
| "AckPolicy_String (AckPolicyOther _) = ''Unknown Acknowledgement Policy''"

fun AckPolicy_MarshalJSON :: "AckPolicy \<Rightarrow> enum_error + string" where
  "AckPolicy_MarshalJSON AckNone = Inr (jsonString ''none'')"
| "AckPolicy_MarshalJSON AckAll = Inr (jsonString ''all'')"
| "AckPolicy_MarshalJSON AckExplicit = Inr (jsonString ''explicit'')"
| "AckPolicy_MarshalJSON AckFlowControl = Inr (jsonString ''flow_control'')"
| "AckPolicy_MarshalJSON (AckPolicyOther i) = Inl (CannotMarshal i)"

fun AckPolicy_MarshalYAML :: "AckPolicy \<Rightarrow> enum_error + string" where
  "AckPolicy_MarshalYAML AckNone = Inr ''none''"
| "AckPolicy_MarshalYAML AckAll = Inr ''all''"
| "AckPolicy_MarshalYAML AckExplicit = Inr ''explicit''"
| "AckPolicy_MarshalYAML AckFlowControl = Inr ''flow_control''"
| "AckPolicy_MarshalYAML (AckPolicyOther i) = Inl (CannotMarshal i)"

definition AckPolicy_UnmarshalJSON :: "string \<Rightarrow> enum_error + AckPolicy" where
  "AckPolicy_UnmarshalJSON data =
     (if data = jsonString ''none'' then Inr AckNone
      else if data = jsonString ''all'' then Inr AckAll
      else if data = jsonString ''explicit'' then Inr AckExplicit
      else if data = jsonString ''flow_control'' then Inr AckFlowControl
      else Inl (CannotUnmarshal data))"

definition AckPolicy_UnmarshalYAML :: "string \<Rightarrow> enum_error + AckPolicy" where
  "AckPolicy_UnmarshalYAML v =
     (if v = ''none'' then Inr AckNone
      else if v = ''all'' then Inr AckAll
      else if v = ''explicit'' then Inr AckExplicit
      else if v = ''flow_control'' then Inr AckFlowControl
      else Inl (CannotUnmarshal v))"

interpretation AckPolicy_json: wire_codec AckPolicy_MarshalJSON AckPolicy_UnmarshalJSON
  by (unfold_locales, erule AckPolicy_MarshalJSON.elims) (auto simp: AckPolicy_UnmarshalJSON_def)

interpretation AckPolicy_yaml: wire_codec AckPolicy_MarshalYAML AckPolicy_UnmarshalYAML
  by (unfold_locales, erule AckPolicy_MarshalYAML.elims) (auto simp: AckPolicy_UnmarshalYAML_def)

subsection \<open>ReplayPolicy\<close>

datatype ReplayPolicy = ReplayInstant | ReplayOriginal | ReplayPolicyOther int

fun ReplayPolicy_String :: "ReplayPolicy \<Rightarrow> string" where
  "ReplayPolicy_String ReplayInstant = ''Instant''"
| "ReplayPolicy_String ReplayOriginal = ''Original''"
| "ReplayPolicy_String (ReplayPolicyOther _) = ''Unknown Replay Policy''"

fun ReplayPolicy_MarshalJSON :: "ReplayPolicy \<Rightarrow> enum_error + string" where
  "ReplayPolicy_MarshalJSON ReplayInstant = Inr (jsonString ''instant'')"
| "ReplayPolicy_MarshalJSON ReplayOriginal = Inr (jsonString ''original'')"
| "ReplayPolicy_MarshalJSON (ReplayPolicyOther i) = Inl (CannotMarshal i)"

fun ReplayPolicy_MarshalYAML :: "ReplayPolicy \<Rightarrow> enum_error + string" where
  "ReplayPolicy_MarshalYAML ReplayInstant = Inr ''instant''"
| "ReplayPolicy_MarshalYAML ReplayOriginal = Inr ''original''"
| "ReplayPolicy_MarshalYAML (ReplayPolicyOther i) = Inl (CannotMarshal i)"

definition ReplayPolicy_UnmarshalJSON :: "string \<Rightarrow> enum_error + ReplayPolicy" where
  "ReplayPolicy_UnmarshalJSON data =
     (if data = jsonString ''instant'' then Inr ReplayInstant
      else if data = jsonString ''original'' then Inr ReplayOriginal
      else Inl (CannotUnmarshal data))"

definition ReplayPolicy_UnmarshalYAML :: "string \<Rightarrow> enum_error + ReplayPolicy" where
  "ReplayPolicy_UnmarshalYAML v =
     (if v = ''instant'' then Inr ReplayInstant
      else if v = ''original'' then Inr ReplayOriginal
      else Inl (CannotUnmarshal v))"

interpretation ReplayPolicy_json: wire_codec ReplayPolicy_MarshalJSON ReplayPolicy_UnmarshalJSON
  by (unfold_locales, erule ReplayPolicy_MarshalJSON.elims) (auto simp: ReplayPolicy_UnmarshalJSON_def)

interpretation ReplayPolicy_yaml: wire_codec ReplayPolicy_MarshalYAML ReplayPolicy_UnmarshalYAML
  by (unfold_locales, erule ReplayPolicy_MarshalYAML.elims) (auto simp: ReplayPolicy_UnmarshalYAML_def)

subsection \<open>DeliverPolicy\<close>

datatype DeliverPolicy = DeliverAll | DeliverLast | DeliverNew | DeliverByStartSequence | DeliverByStartTime | DeliverLastPerSubject | DeliverPolicyOther int

fun DeliverPolicy_String :: "DeliverPolicy \<Rightarrow> string" where
  "DeliverPolicy_String DeliverAll = ''All''"
| "DeliverPolicy_String DeliverLast = ''Last''"
| "DeliverPolicy_String DeliverNew = ''New''"
| "DeliverPolicy_String DeliverByStartSequence = ''By Start Sequence''"
| "DeliverPolicy_String DeliverByStartTime = ''By Start Time''"
| "DeliverPolicy_String DeliverLastPerSubject = ''Last Per Subject''"
| "DeliverPolicy_String (DeliverPolicyOther _) = ''Unknown Deliver Policy''"

fun DeliverPolicy_MarshalJSON :: "DeliverPolicy \<Rightarrow> enum_error + string" where
  "DeliverPolicy_MarshalJSON DeliverAll = Inr (jsonString ''all'')"
| "DeliverPolicy_MarshalJSON DeliverLast = Inr (jsonString ''last'')"
| "DeliverPolicy_MarshalJSON DeliverNew = Inr (jsonString ''new'')"
| "DeliverPolicy_MarshalJSON DeliverByStartSequence = Inr (jsonString ''by_start_sequence'')"
| "DeliverPolicy_MarshalJSON DeliverByStartTime = Inr (jsonString ''by_start_time'')"
| "DeliverPolicy_MarshalJSON DeliverLastPerSubject = Inr (jsonString ''last_per_subject'')"
| "DeliverPolicy_MarshalJSON (DeliverPolicyOther i) = Inl (CannotMarshal i)"

fun DeliverPolicy_MarshalYAML :: "DeliverPolicy \<Rightarrow> enum_error + string" where
  "DeliverPolicy_MarshalYAML DeliverAll = Inr ''all''"
| "DeliverPolicy_MarshalYAML DeliverLast = Inr ''last''"
| "DeliverPolicy_MarshalYAML DeliverNew = Inr ''new''"
| "DeliverPolicy_MarshalYAML DeliverByStartSequence = Inr ''by_start_sequence''"
| "DeliverPolicy_MarshalYAML DeliverByStartTime = Inr ''by_start_time''"
| "DeliverPolicy_MarshalYAML DeliverLastPerSubject = Inr ''last_per_subject''"
| "DeliverPolicy_MarshalYAML (DeliverPolicyOther i) = Inl (CannotMarshal i)"

definition DeliverPolicy_UnmarshalJSON :: "string \<Rightarrow> enum_error + DeliverPolicy" where
  "DeliverPolicy_UnmarshalJSON data =
     (if data = jsonString ''all'' \<or> data = jsonString ''undefined'' then Inr DeliverAll
      else if data = jsonString ''last'' then Inr DeliverLast
      else if data = jsonString ''new'' then Inr DeliverNew
      else if data = jsonString ''by_start_sequence'' then Inr DeliverByStartSequence
      else if data = jsonString ''by_start_time'' then Inr DeliverByStartTime
      else if data = jsonString ''last_per_subject'' then Inr DeliverLastPerSubject
      else Inl (CannotUnmarshal data))"

definition DeliverPolicy_UnmarshalYAML :: "string \<Rightarrow> enum_error + DeliverPolicy" where
  "DeliverPolicy_UnmarshalYAML v =
     (if v = ''all'' \<or> v = ''undefined'' then Inr DeliverAll
      else if v = ''last'' then Inr DeliverLast
      else if v = ''new'' then Inr DeliverNew
      else if v = ''by_start_sequence'' then Inr DeliverByStartSequence
      else if v = ''by_start_time'' then Inr DeliverByStartTime
      else if v = ''last_per_subject'' then Inr DeliverLastPerSubject
      else Inl (CannotUnmarshal v))"

interpretation DeliverPolicy_json: wire_codec DeliverPolicy_MarshalJSON DeliverPolicy_UnmarshalJSON
  by (unfold_locales, erule DeliverPolicy_MarshalJSON.elims) (auto simp: DeliverPolicy_UnmarshalJSON_def)

interpretation DeliverPolicy_yaml: wire_codec DeliverPolicy_MarshalYAML DeliverPolicy_UnmarshalYAML
  by (unfold_locales, erule DeliverPolicy_MarshalYAML.elims) (auto simp: DeliverPolicy_UnmarshalYAML_def)

subsection \<open>PriorityPolicy\<close>

datatype PriorityPolicy = PriorityNone | PriorityOverflow | PriorityPinnedClient | PriorityPrioritized | PriorityPolicyOther int

fun PriorityPolicy_String :: "PriorityPolicy \<Rightarrow> string" where
  "PriorityPolicy_String PriorityNone = ''None''"
| "PriorityPolicy_String PriorityOverflow = ''Overflow''"
| "PriorityPolicy_String PriorityPinnedClient = ''Pinned Client''"
| "PriorityPolicy_String PriorityPrioritized = ''Prioritized''"
| "PriorityPolicy_String (PriorityPolicyOther _) = ''None''"

fun PriorityPolicy_MarshalJSON :: "PriorityPolicy \<Rightarrow> enum_error + string" where
  "PriorityPolicy_MarshalJSON PriorityNone = Inr (jsonString ''none'')"
| "PriorityPolicy_MarshalJSON PriorityOverflow = Inr (jsonString ''overflow'')"
| "PriorityPolicy_MarshalJSON PriorityPinnedClient = Inr (jsonString ''pinned_client'')"
| "PriorityPolicy_MarshalJSON PriorityPrioritized = Inr (jsonString ''prioritized'')"
| "PriorityPolicy_MarshalJSON (PriorityPolicyOther i) = Inl (CannotMarshal i)"

fun PriorityPolicy_MarshalYAML :: "PriorityPolicy \<Rightarrow> enum_error + string" where
  "PriorityPolicy_MarshalYAML PriorityNone = Inr ''none''"
| "PriorityPolicy_MarshalYAML PriorityOverflow = Inr ''overflow''"
| "PriorityPolicy_MarshalYAML PriorityPinnedClient = Inr ''pinned_client''"
| "PriorityPolicy_MarshalYAML PriorityPrioritized = Inr ''prioritized''"
| "PriorityPolicy_MarshalYAML (PriorityPolicyOther i) = Inl (CannotMarshal i)"

definition PriorityPolicy_UnmarshalJSON :: "string \<Rightarrow> enum_error + PriorityPolicy" where
  "PriorityPolicy_UnmarshalJSON data =
     (if data = jsonString ''none'' then Inr PriorityNone
      else if data = jsonString ''overflow'' then Inr PriorityOverflow
      else if data = jsonString ''pinned_client'' then Inr PriorityPinnedClient
      else if data = jsonString ''prioritized'' then Inr PriorityPrioritized
      else Inl (CannotUnmarshal data))"

definition PriorityPolicy_UnmarshalYAML :: "string \<Rightarrow> enum_error + PriorityPolicy" where
  "PriorityPolicy_UnmarshalYAML v =
     (if v = ''none'' then Inr PriorityNone
      else if v = ''overflow'' then Inr PriorityOverflow
      else if v = ''pinned_client'' then Inr PriorityPinnedClient
      else if v = ''prioritized'' then Inr PriorityPrioritized
      else Inl (CannotUnmarshal v))"

interpretation PriorityPolicy_json: wire_codec PriorityPolicy_MarshalJSON PriorityPolicy_UnmarshalJSON
  by (unfold_locales, erule PriorityPolicy_MarshalJSON.elims) (auto simp: PriorityPolicy_UnmarshalJSON_def)

interpretation PriorityPolicy_yaml: wire_codec PriorityPolicy_MarshalYAML PriorityPolicy_UnmarshalYAML
  by (unfold_locales, erule PriorityPolicy_MarshalYAML.elims) (auto simp: PriorityPolicy_UnmarshalYAML_def)

subsection \<open>The property of the enumerations\<close>

text \<open>
  Every enumeration of the API survives the wire: if a value of one of the nine types
  marshals to JSON at all, unmarshalling what was written gives the same value back.
\<close>

theorem enum_json_roundtrip:
  "(PersistModeType_MarshalJSON pm = Inr d \<longrightarrow> PersistModeType_UnmarshalJSON d = Inr pm)
   \<and> (DiscardPolicy_MarshalJSON di = Inr d \<longrightarrow> DiscardPolicy_UnmarshalJSON d = Inr di)
   \<and> (StorageType_MarshalJSON st = Inr d \<longrightarrow> StorageType_UnmarshalJSON d = Inr st)
   \<and> (RetentionPolicy_MarshalJSON rt = Inr d \<longrightarrow> RetentionPolicy_UnmarshalJSON d = Inr rt)
   \<and> (Compression_MarshalJSON co = Inr d \<longrightarrow> Compression_UnmarshalJSON d = Inr co)
   \<and> (AckPolicy_MarshalJSON ap = Inr d \<longrightarrow> AckPolicy_UnmarshalJSON d = Inr ap)
   \<and> (ReplayPolicy_MarshalJSON ry = Inr d \<longrightarrow> ReplayPolicy_UnmarshalJSON d = Inr ry)
   \<and> (DeliverPolicy_MarshalJSON dl = Inr d \<longrightarrow> DeliverPolicy_UnmarshalJSON d = Inr dl)
   \<and> (PriorityPolicy_MarshalJSON pp = Inr d \<longrightarrow> PriorityPolicy_UnmarshalJSON d = Inr pp)"
  by (simp add: PersistModeType_json.dec_enc DiscardPolicy_json.dec_enc StorageType_json.dec_enc
      RetentionPolicy_json.dec_enc Compression_json.dec_enc AckPolicy_json.dec_enc
      ReplayPolicy_json.dec_enc DeliverPolicy_json.dec_enc PriorityPolicy_json.dec_enc)

theorem enum_json_roundtrip_witness:
  "RetentionPolicy_MarshalJSON WorkQueuePolicy = Inr (jsonString ''workqueue'') \<and>
   RetentionPolicy_UnmarshalJSON (jsonString ''workqueue'') = Inr WorkQueuePolicy"
  using enum_json_roundtrip [where rt = WorkQueuePolicy and d = "jsonString ''workqueue''"] by simp

end
