(* ===== verification/Api_Types.thy ===== *)
theory Api_Types
  imports Prelude Api_Enums
begin

text \<open>
  The configuration and state types of \<open>src/api/streams.go\<close> and \<open>src/api/consumers.go\<close>
  that the other components read and rewrite, field by field in the order of the structs.

  A \<open>time.Time\<close> is its \<open>UnixNano\<close> and a \<open>time.Duration\<close> its nanoseconds, both \<open>int\<close>;
  \<open>zeroTime\<close> is the zero \<open>time.Time\<close>. A pointer is an \<open>option\<close>. A slice is a list, a \<open>nil\<close>
  slice the empty one, except for \<open>PriorityGroups\<close>, where \<open>None\<close> is nil. A \<open>map\<close> that the code ranges over is an association list whose
  order is the order the range happens to take.
\<close>

type_synonym gotime = int
type_synonym duration = int
type_synonym ('k, 'v) gomap = "('k \<times> 'v) list"

text \<open>January 1, year 1, 00:00:00 UTC in nanoseconds from the epoch.\<close>

definition zeroTime :: gotime where
  "zeroTime = - 62135596800 * 1000000000"

definition IsZeroTime :: "gotime \<Rightarrow> bool" where
  "IsZeroTime t \<longleftrightarrow> t = zeroTime"

record SubjectTransformConfig =
  st_Source :: string
  st_Destination :: string

record RePublish =
  rp_Source :: string
  rp_Destination :: string
  rp_HeadersOnly :: bool

record ExternalStream =
  ex_ApiPrefix :: string
  ex_DeliverPrefix :: string

record StreamConsumerSource =
  scc_Name :: string
  scc_DeliverSubject :: string

record StreamSource =
  ss_Name :: string
  ss_OptStartSeq :: u64
  ss_OptStartTime :: "gotime option"
  ss_FilterSubject :: string
  ss_External :: "ExternalStream option"
  ss_SubjectTransforms :: "SubjectTransformConfig list"
  ss_Consumer :: "StreamConsumerSource option"

record Placement =
  pl_Cluster :: string
  pl_Tags :: "string list"
  pl_Preferred :: string

record StreamConsumerLimits =
  cl_InactiveThreshold :: duration
  cl_MaxAckPending :: int

record LostStreamData =
  lost_Msgs :: "u64 list"
  lost_Bytes :: u64

record StreamState =
  sst_Msgs :: u64
  sst_Bytes :: u64
  sst_FirstSeq :: u64
  sst_FirstTime :: gotime
  sst_LastSeq :: u64
  sst_LastTime :: gotime
  sst_NumDeleted :: int
  sst_Deleted :: "u64 list"
  sst_NumSubjects :: int
  sst_Subjects :: "(string, u64) gomap"
  sst_Lost :: "LostStreamData option"
  sst_Consumers :: int

text \<open>The zero \<open>api.StreamState\<close>.\<close>

definition zeroStreamState :: StreamState where
  "zeroStreamState = \<lparr> sst_Msgs = 0, sst_Bytes = 0, sst_FirstSeq = 0, sst_FirstTime = zeroTime,
     sst_LastSeq = 0, sst_LastTime = zeroTime, sst_NumDeleted = 0, sst_Deleted = [],
     sst_NumSubjects = 0, sst_Subjects = [], sst_Lost = None, sst_Consumers = 0 \<rparr>"

text \<open>The stream configuration: an \<open>int32\<close> or \<open>int64\<close> limit is an \<open>int\<close>, which the code only
  compares.\<close>

record StreamConfig =
  sc_Name :: string
  sc_Description :: string
  sc_Subjects :: "string list"
  sc_Retention :: RetentionPolicy
  sc_MaxConsumers :: int
  sc_MaxMsgsPer :: int
  sc_MaxMsgs :: int
  sc_MaxBytes :: int
  sc_MaxAge :: duration
  sc_MaxMsgSize :: int
  sc_Storage :: StorageType
  sc_Discard :: DiscardPolicy
  sc_Replicas :: int
  sc_NoAck :: bool
  sc_Duplicates :: duration
  sc_Placement :: "Placement option"
  sc_Mirror :: "StreamSource option"
  sc_Sources :: "StreamSource option list"
  sc_Compression :: Compression
  sc_SubjectTransform :: "SubjectTransformConfig option"
  sc_RePublish :: "RePublish option"
  sc_Sealed :: bool
  sc_DenyDelete :: bool
  sc_DenyPurge :: bool
  sc_RollupAllowed :: bool
  sc_AllowDirect :: bool
  sc_MirrorDirect :: bool
  sc_DiscardNewPer :: bool
  sc_FirstSeq :: u64
  sc_Metadata :: "(string, string) gomap"
  sc_AllowMsgTTL :: bool
  sc_SubjectDeleteMarkerTTL :: duration
  sc_ConsumerLimits :: StreamConsumerLimits
  sc_AllowAtomicPublish :: bool
  sc_AllowMsgCounter :: bool
  sc_AllowMsgSchedules :: bool
  sc_PersistMode :: PersistModeType
  sc_AllowBatchPublish :: bool

text \<open>The zero \<open>api.StreamConfig\<close> under a name.\<close>

definition zeroStreamConfig :: "string \<Rightarrow> StreamConfig" where
  "zeroStreamConfig name = \<lparr> sc_Name = name, sc_Description = [], sc_Subjects = [], sc_Retention = LimitsPolicy,
     sc_MaxConsumers = 0, sc_MaxMsgsPer = 0, sc_MaxMsgs = 0, sc_MaxBytes = 0, sc_MaxAge = 0, sc_MaxMsgSize = 0,
     sc_Storage = FileStorage, sc_Discard = DiscardOld, sc_Replicas = 0, sc_NoAck = False, sc_Duplicates = 0,
     sc_Placement = None, sc_Mirror = None, sc_Sources = [], sc_Compression = NoCompression,
     sc_SubjectTransform = None, sc_RePublish = None, sc_Sealed = False, sc_DenyDelete = False, sc_DenyPurge = False,
     sc_RollupAllowed = False, sc_AllowDirect = False, sc_MirrorDirect = False, sc_DiscardNewPer = False,
     sc_FirstSeq = 0, sc_Metadata = [], sc_AllowMsgTTL = False, sc_SubjectDeleteMarkerTTL = 0,
     sc_ConsumerLimits = \<lparr> cl_InactiveThreshold = 0, cl_MaxAckPending = 0 \<rparr>, sc_AllowAtomicPublish = False,
     sc_AllowMsgCounter = False, sc_AllowMsgSchedules = False, sc_PersistMode = DefaultPersistMode,
     sc_AllowBatchPublish = False \<rparr>"

record ConsumerConfig =
  cc_Description :: string
  cc_AckPolicy :: AckPolicy
  cc_AckWait :: duration
  cc_DeliverPolicy :: DeliverPolicy
  cc_DeliverSubject :: string
  cc_DeliverGroup :: string
  cc_Durable :: string
  cc_Name :: string
  cc_FilterSubject :: string
  cc_FilterSubjects :: "string list"
  cc_FlowControl :: bool
  cc_Heartbeat :: duration
  cc_MaxAckPending :: int
  cc_MaxDeliver :: int
  cc_BackOff :: "duration list"
  cc_MaxWaiting :: int
  cc_OptStartSeq :: u64
  cc_OptStartTime :: "gotime option"
  cc_RateLimit :: u64
  cc_ReplayPolicy :: ReplayPolicy
  cc_SampleFrequency :: string
  cc_HeadersOnly :: bool
  cc_MaxRequestBatch :: int
  cc_MaxRequestExpires :: duration
  cc_MaxRequestMaxBytes :: int
  cc_InactiveThreshold :: duration
  cc_Replicas :: int
  cc_MemoryStorage :: bool
  cc_Metadata :: "(string, string) gomap"
  cc_PauseUntil :: gotime
  cc_PriorityGroups :: "string list option"
  cc_PriorityPolicy :: PriorityPolicy
  cc_PinnedTTL :: duration
  cc_Direct :: bool
  cc_Sourcing :: bool

end
