(* ===== verification/Names.thy ===== *)
theory Names
  imports Prelude Api_Types
begin

text \<open>
  The pure functions of \<open>src/jsm.go\<close> on names, API subjects, responses, versions, backoff
  periods and metadata, the error types of \<open>src/api/jetstream.go\<close> they use, and
  \<open>NormalizeAPISubject\<close> of \<open>src/registry/subjects.go\<close>. The JSON decoding of a response is the
  parameter \<open>unm\<close>; the set of registered API verbs is the parameter \<open>known\<close>.
\<close>

subsection \<open>Names and subject prefixes\<close>

definition nameStopChars :: string where
  "nameStopChars = [CHR ''>'', CHR ''*'', CHR ''.'', CHR '' '', CHR ''/'', CHR 0x5C, CHR 0x00]"

definition IsValidName :: "string \<Rightarrow> bool" where
  "IsValidName n = (if n = [] then False else \<not> contains_any n nameStopChars)"

definition isValidSubjectPrefix :: "string \<Rightarrow> bool" where
  "isValidSubjectPrefix s = (if s = [] then False else list_all IsValidName (split_on (CHR ''.'') s))"

definition APISubject :: "string \<Rightarrow> string \<Rightarrow> string \<Rightarrow> string" where
  "APISubject subject pref domain =
     (if domain \<noteq> [] then
        (let trimmed = trim_prefix subject ''$JS.API''
         in if trimmed = subject then subject else ''$JS.'' @ domain @ ''.API'' @ trimmed)
      else if pref = [] then subject
      else
        (let trimmed = trim_prefix subject ''$JS.API''
         in if trimmed = subject then subject else pref @ trimmed))"

definition StripAPISubject :: "string \<Rightarrow> string \<Rightarrow> string \<Rightarrow> string" where
  "StripAPISubject subject pref domain =
     (if domain \<noteq> [] then
        (case cut_prefix subject ''$JS.'' of
           None \<Rightarrow> subject
         | Some r1 \<Rightarrow>
             (case cut_prefix r1 domain of
                None \<Rightarrow> subject
              | Some r2 \<Rightarrow>
                  (case cut_prefix r2 ''.API'' of
                     None \<Rightarrow> subject
                   | Some rest \<Rightarrow>
                       if rest \<noteq> [] \<and> hd rest \<noteq> CHR ''.'' then subject else ''$JS.API'' @ rest)))
      else if pref = [] then subject
      else
        (case cut_prefix subject pref of
           None \<Rightarrow> subject
         | Some rest \<Rightarrow> if rest \<noteq> [] \<and> hd rest \<noteq> CHR ''.'' then subject else ''$JS.API'' @ rest))"

definition EventSubject :: "string \<Rightarrow> string \<Rightarrow> string" where
  "EventSubject subject pref =
     (if pref = [] then subject
      else
        (let trimmed = trim_prefix subject ''$JS.EVENT''
         in if trimmed = subject then subject else pref @ trimmed))"

definition IsKVBucketStream :: "string \<Rightarrow> bool" where
  "IsKVBucketStream s = has_prefix s ''KV_''"

definition IsObjectBucketStream :: "string \<Rightarrow> bool" where
  "IsObjectBucketStream s = has_prefix s ''OBJ_''"

definition IsMQTTStateStream :: "string \<Rightarrow> bool" where
  "IsMQTTStateStream s = has_prefix s ''$MQTT_''"

definition IsInternalStream :: "string \<Rightarrow> bool" where
  "IsInternalStream s = (IsKVBucketStream s \<or> IsObjectBucketStream s \<or> IsMQTTStateStream s)"

subsection \<open>NormalizeAPISubject\<close>

definition apiPrefix :: string where "apiPrefix = ''$JS.API.''"

lemma cut_at_shorter: "(b, a, True) = cut_at c s \<Longrightarrow> length a < length s"
  using cut_at_found [of c s b a] by simp

text \<open>The loop that drops tokens from the front; \<open>found\<close> is the loop condition.\<close>

function (sequential) normalize_loop :: "(string \<Rightarrow> bool) \<Rightarrow> string \<Rightarrow> bool \<Rightarrow> string option" where
  "normalize_loop known rest found =
     (if \<not> found then None
      else case cut_at (CHR ''.'') rest of
             (verb, nxt, mr) \<Rightarrow>
               if verb = ''INFO'' \<and> mr then normalize_loop known nxt True
               else if known verb then Some (apiPrefix @ rest)
               else if mr then normalize_loop known nxt True else None)"
  by pat_completeness auto
termination
  by (relation "measure (\<lambda>(known, rest, found). length rest)") (auto dest: cut_at_shorter)

declare normalize_loop.simps [simp del]

definition NormalizeAPISubject :: "(string \<Rightarrow> bool) \<Rightarrow> string \<Rightarrow> string \<times> bool" where
  "NormalizeAPISubject known subject =
     (if has_prefix subject apiPrefix then (subject, True)
      else case cut_prefix subject ''$JS.'' of
        Some r \<Rightarrow>
          (case cut_prefix (fst (snd (cut_at (CHR ''.'') r))) ''API.'' of
             Some r2 \<Rightarrow> (apiPrefix @ r2, True)
           | None \<Rightarrow> (subject, False))
      | None \<Rightarrow>
          (case cut_at (CHR ''.'') subject of
             (_, rest, found) \<Rightarrow>
               (case normalize_loop known rest found of
                  Some n \<Rightarrow> (n, True)
                | None \<Rightarrow> (subject, False))))"

subsection \<open>Responses\<close>

record ApiError =
  ae_Code :: int
  ae_ErrCode :: nat
  ae_Description :: string

record JSApiResponse =
  r_Type :: string
  r_Error :: "ApiError option"

definition ApiError_Error :: "ApiError \<Rightarrow> string" where
  "ApiError_Error e =
     (if ae_Description e = [] \<and> ae_Code e = 0 then ''unknown JetStream Error''
      else if ae_Description e = [] \<and> ae_Code e > 0
        then ''unknown JetStream '' @ format_int (ae_Code e) @ '' Error ('' @ itoa (ae_ErrCode e) @ '')''
      else ae_Description e @ '' ('' @ itoa (ae_ErrCode e) @ '')'')"

definition NotFoundError :: "ApiError \<Rightarrow> bool" where
  "NotFoundError e \<longleftrightarrow> ae_Code e = 404"

definition ServerError :: "ApiError \<Rightarrow> bool" where
  "ServerError e \<longleftrightarrow> ae_Code e \<ge> 500 \<and> ae_Code e < 600"

definition UserError :: "ApiError \<Rightarrow> bool" where
  "UserError e \<longleftrightarrow> ae_Code e \<ge> 400 \<and> ae_Code e < 500"

definition ToError :: "'a JSApiResponse_scheme \<Rightarrow> ApiError option" where
  "ToError r = r_Error r"

definition IsError :: "'a JSApiResponse_scheme \<Rightarrow> bool" where
  "IsError r \<longleftrightarrow> r_Error r \<noteq> None"

text \<open>
  A \<open>*nats.Msg\<close> counts by its data (\<open>None\<close> is the nil message); \<open>unm\<close> is \<open>json.Unmarshal\<close> into a
  \<open>JSApiResponse\<close>.
\<close>

datatype resp_error = NoMessage | PlainError string | JsonError string | ApiErr ApiError

definition IsErrorResponse :: "(bytes \<Rightarrow> string + JSApiResponse) \<Rightarrow> bytes option \<Rightarrow> bool" where
  "IsErrorResponse unm m =
     (case m of
        None \<Rightarrow> False
      | Some d \<Rightarrow>
          if has_prefix d ''-ERR'' then True
          else (case unm d of Inl _ \<Rightarrow> False | Inr resp \<Rightarrow> IsError resp))"

definition ParseErrorResponse :: "(bytes \<Rightarrow> string + JSApiResponse) \<Rightarrow> bytes option \<Rightarrow> resp_error option" where
  "ParseErrorResponse unm m =
     (case m of
        None \<Rightarrow> Some NoMessage
      | Some d \<Rightarrow>
          if \<not> IsErrorResponse unm m then None
          else if has_prefix d ''-ERR'' then
            Some (PlainError (trim_suffix (trim_prefix (trim_prefix d ''-ERR'') ('' '' @ [CHR 0x27])) [CHR 0x27]))
          else (case unm d of
                  Inl e \<Rightarrow> Some (JsonError e)
                | Inr resp \<Rightarrow> map_option ApiErr (ToError resp)))"

definition IsOKResponse :: "(bytes \<Rightarrow> string + JSApiResponse) \<Rightarrow> bytes option \<Rightarrow> bool" where
  "IsOKResponse unm m =
     (case m of
        None \<Rightarrow> False
      | Some d \<Rightarrow>
          if has_prefix d ''+OK'' then True
          else (case unm d of Inl _ \<Rightarrow> False | Inr resp \<Rightarrow> \<not> IsError resp))"

definition ParsePubAck :: "(bytes \<Rightarrow> string + JSApiResponse) \<Rightarrow> (bytes \<Rightarrow> string + 'ack) \<Rightarrow>
    bytes option \<Rightarrow> resp_error + 'ack" where
  "ParsePubAck unm unmAck m =
     (case m of
        None \<Rightarrow> Inl NoMessage
      | Some d \<Rightarrow>
          (case ParseErrorResponse unm m of
             Some e \<Rightarrow> Inl e
           | None \<Rightarrow> (case unmAck d of Inl e \<Rightarrow> Inl (JsonError e) | Inr a \<Rightarrow> Inr a)))"

subsection \<open>Backoff periods\<close>

text \<open>
  \<open>Duration.Round\<close> for a duration \<open>d \<ge> 0\<close> and a multiple \<open>m > 0\<close>: half rounds away from zero, and
  a result beyond the largest duration is that.
\<close>

definition maxDuration :: int where "maxDuration = 2 ^ 63 - 1"

definition duration_Round :: "duration \<Rightarrow> duration \<Rightarrow> duration" where
  "duration_Round d m =
     (let r = d mod m
      in if r + r < m then d - r
         else if d + m - r \<le> maxDuration then d + m - r else maxDuration)"

definition Millisecond :: duration where "Millisecond = 1000000"

datatype backoff_error = StepsZero | MinZero | MaxZero | StepRangeTooSmall duration duration nat

text \<open>
  \<open>min\<close> and \<open>max\<close> are durations from 0 up, \<open>steps\<close> an unsigned \<open>uint\<close>: the difference and its
  multiples below it fit both types, so no conversion wraps.
\<close>

definition LinearBackoffPeriods :: "nat \<Rightarrow> duration \<Rightarrow> duration \<Rightarrow> backoff_error + duration list" where
  "LinearBackoffPeriods steps mn0 mx0 =
     (if steps = 0 then Inl StepsZero
      else if mn0 = 0 then Inl MinZero
      else if mx0 = 0 then Inl MaxZero
      else
        (let (mx, mn) = (if mx0 < mn0 then (mn0, mx0) else (mx0, mn0));
             stepSize = (mx - mn) div int steps
         in if mx \<noteq> mn \<and> stepSize = 0 then Inl (StepRangeTooSmall mn mx steps)
            else Inr (map (\<lambda>i. mn + duration_Round (int i * stepSize) Millisecond) [0..<steps])))"

subsection \<open>Versions\<close>

text \<open>
  \<open>strconv.ParseUint\<close> and \<open>strconv.ParseInt\<close> with the value they return beside the error: 0 on a
  syntax error, the bound on a range error; the flag is \<open>err != nil\<close>.
\<close>

fun parse_uint_loop :: "nat \<Rightarrow> string \<Rightarrow> nat \<times> bool" where
  "parse_uint_loop acc [] = (acc, False)"
| "parse_uint_loop acc (c # cs) =
     (case digit_val c of
        None \<Rightarrow> (0, True)
      | Some d \<Rightarrow> if 2 ^ 64 \<le> 10 * acc + d then (2 ^ 64 - 1, True) else parse_uint_loop (10 * acc + d) cs)"

definition ParseUint :: "string \<Rightarrow> nat \<times> bool" where
  "ParseUint s = (if s = [] then (0, True) else parse_uint_loop 0 s)"

definition ParseInt :: "string \<Rightarrow> int \<times> bool" where
  "ParseInt s =
     (if s = [] then (0, True)
      else
        (let neg = (hd s = CHR ''-'');
             ds = (if hd s = CHR ''-'' \<or> hd s = CHR ''+'' then tl s else s);
             (un, er) = ParseUint ds
         in if er \<and> un \<noteq> 2 ^ 64 - 1 then (0, True)
            else if \<not> neg \<and> 2 ^ 63 \<le> un then (2 ^ 63 - 1, True)
            else if neg \<and> 2 ^ 63 < un then (- (2 ^ 63), True)
            else ((if neg then - int un else int un), False)))"

definition is_digit :: "char \<Rightarrow> bool" where
  "is_digit c = (digit_val c \<noteq> None)"

text \<open>
  The expression \<open>\Av?([0-9]+)\.?([0-9]+)?\.?([0-9]+)?\<close>: each part takes the digits there are,
  and the parts after the first may be empty.
\<close>

definition skip_char :: "char \<Rightarrow> string \<Rightarrow> string" where
  "skip_char c s = (if s \<noteq> [] \<and> hd s = c then tl s else s)"

definition semVer_match :: "string \<Rightarrow> (string \<times> string \<times> string) option" where
  "semVer_match version =
     (let s1 = skip_char (CHR ''v'') version;
          m1 = takeWhile is_digit s1;
          s2 = skip_char (CHR ''.'') (dropWhile is_digit s1);
          m2 = takeWhile is_digit s2;
          s3 = skip_char (CHR ''.'') (dropWhile is_digit s2);
          m3 = takeWhile is_digit s3
      in if m1 = [] then None else Some (m1, m2, m3))"

definition versionComponents :: "string \<Rightarrow> (int \<times> int \<times> int) \<times> bool" where
  "versionComponents version =
     (case semVer_match version of
        None \<Rightarrow> ((0, 0, 0), True)
      | Some (m1, m2, m3) \<Rightarrow>
          if snd (ParseInt m1) then ((- 1, - 1, - 1), True)
          else if snd (ParseInt m2) then ((- 1, - 1, - 1), True)
          else if snd (ParseInt m3) then ((- 1, - 1, - 1), True)
          else ((fst (ParseInt m1), fst (ParseInt m2), fst (ParseInt m3)), False))"

definition versionIsAtLeast :: "string \<Rightarrow> int \<Rightarrow> int \<Rightarrow> int \<Rightarrow> bool" where
  "versionIsAtLeast version major minor patch =
     (case fst (versionComponents version) of
        (smajor, sminor, spatch) \<Rightarrow>
          if smajor < major \<or> smajor = major \<and> sminor < minor \<or>
             smajor = major \<and> sminor = minor \<and> spatch < patch
          then False else True)"

subsection \<open>Metadata\<close>

definition reservedMetadata :: "string list" where
  "reservedMetadata = [''_nats.ver'', ''_nats.level'', ''_nats.req.level'', ''_nats.mirror.stream'',
     ''_nats.mirror.domain'', ''_nats.mirror.acc'', ''_nats.src.stream'', ''_nats.src.domain'', ''_nats.src.acc'']"

definition FilterServerMetadata :: "(string, string) gomap option \<Rightarrow> (string, string) gomap option" where
  "FilterServerMetadata metadata =
     map_option (filter (\<lambda>(k, _). k \<notin> set reservedMetadata)) metadata"

subsection \<open>Subjects\<close>

lemma trim_prefix_eq_iff: "p \<noteq> [] \<Longrightarrow> trim_prefix s p = s \<longleftrightarrow> \<not> has_prefix s p"
  using trim_prefix_neq_iff by blast

text \<open>
  \<open>StripAPISubject\<close> undoes \<open>APISubject\<close>: for a subject that is \<open>$JS.API\<close> or continues it with
  a dot, adding a domain or prefix and stripping the same one gives the subject back.
\<close>

theorem strip_api_subject_roundtrip:
  assumes "subject = ''$JS.API'' \<or> has_prefix subject ''$JS.API.''"
  shows "StripAPISubject (APISubject subject pref domain) pref domain = subject"
proof -
  obtain rest where s: "subject = ''$JS.API'' @ rest" and r: "rest = [] \<or> hd rest = CHR ''.''"
    using assms by (auto simp: has_prefix_iff)
  have trim: "trim_prefix subject ''$JS.API'' = rest" by (simp only: s trim_prefix_append)
  have ne: "rest \<noteq> subject" by (simp add: s)
  have ap: "APISubject subject pref domain =
      (if domain \<noteq> [] then ''$JS.'' @ (domain @ (''.API'' @ rest))
       else if pref = [] then subject else pref @ rest)"
    using ne by (simp add: APISubject_def trim)
  have c: "cut_prefix (''$JS.'' @ (domain @ (''.API'' @ rest))) ''$JS.'' = Some (domain @ (''.API'' @ rest))"
    "cut_prefix (domain @ (''.API'' @ rest)) domain = Some (''.API'' @ rest)"
    "cut_prefix (''.API'' @ rest) ''.API'' = Some rest" "cut_prefix (pref @ rest) pref = Some rest"
    by (rule cut_prefix_append)+
  show ?thesis
  proof (cases "domain = []")
    case True
    have ap1: "APISubject subject pref domain = (if pref = [] then subject else pref @ rest)"
      using ap True by simp
    show ?thesis unfolding StripAPISubject_def ap1 using True r c(4) by (auto simp: s)
  next
    case False
    then have "APISubject subject pref domain = ''$JS.'' @ (domain @ (''.API'' @ rest))" by (simp add: ap)
    then have ap1: "APISubject subject pref domain = ''$JS.'' @ (domain @ (''.API'' @ rest))" .
    show ?thesis unfolding StripAPISubject_def ap1 using False r c(1-3) by (auto simp: s)
  qed
qed

theorem strip_api_subject_roundtrip_witness:
  "StripAPISubject (APISubject ''$JS.API.INFO'' ''p'' ''hub'') ''p'' ''hub'' = ''$JS.API.INFO''"
  by (rule strip_api_subject_roundtrip) (simp add: has_prefix_def)

text \<open>
  \<open>NormalizeAPISubject\<close> undoes \<open>APISubject\<close> without knowing the domain: a subject below
  \<open>$JS.API.\<close> put under a domain without a dot, or left as it is, is normalized to itself. The
  domain named \<open>API\<close> is the exception: its subjects start with \<open>$JS.API.\<close> already.
\<close>

theorem normalize_api_subject_domain:
  assumes "CHR ''.'' \<notin> set domain" and "domain \<noteq> ''API''"
  shows "NormalizeAPISubject known (APISubject (apiPrefix @ rest) [] domain) = (apiPrefix @ rest, True)"
proof -
  have t: "trim_prefix (apiPrefix @ rest) ''$JS.API'' = CHR ''.'' # rest"
    by (simp add: trim_prefix_def has_prefix_def apiPrefix_def)
  have ap: "APISubject (apiPrefix @ rest) [] domain =
      (if domain = [] then apiPrefix @ rest else ''$JS.'' @ domain @ ''.API.'' @ rest)"
    unfolding APISubject_def t by (simp add: Let_def apiPrefix_def)
  show ?thesis
  proof (cases "has_prefix (APISubject (apiPrefix @ rest) [] domain) apiPrefix")
    case True
    have "domain = []"
    proof (rule ccontr)
      assume c: "domain \<noteq> []"
      from True have "has_prefix (''$JS.'' @ domain @ ''.API.'' @ rest) apiPrefix"
        unfolding ap using c by simp
      then obtain r where "''$JS.'' @ domain @ ''.API.'' @ rest = ''$JS.API.'' @ r"
        by (auto simp: has_prefix_iff apiPrefix_def)
      then have "domain @ CHR ''.'' # (''API.'' @ rest) = ''API'' @ CHR ''.'' # r" by simp
      from arg_cong [OF this, of "cut_at (CHR ''.'')"] assms
      show False by (simp add: cut_at_append)
    qed
    with ap have eq: "APISubject (apiPrefix @ rest) [] domain = apiPrefix @ rest" by simp
    show ?thesis unfolding eq by (simp add: NormalizeAPISubject_def)
  next
    case False
    have d: "domain \<noteq> []" using False by (auto simp: ap)
    with ap have eq: "APISubject (apiPrefix @ rest) [] domain = ''$JS.'' @ (domain @ CHR ''.'' # (''API.'' @ rest))"
      by simp
    have cut: "cut_at (CHR ''.'') (domain @ CHR ''.'' # (''API.'' @ rest)) = (domain, ''API.'' @ rest, True)"
      by (rule cut_at_append [OF assms(1)])
    have cp: "cut_prefix (''$JS.'' @ (domain @ CHR ''.'' # (''API.'' @ rest))) ''$JS.'' = Some (domain @ CHR ''.'' # (''API.'' @ rest))"
      "cut_prefix (''API.'' @ rest) ''API.'' = Some rest"
      by (rule cut_prefix_append)+
    show ?thesis
      using False unfolding NormalizeAPISubject_def eq cp(1) by (simp only: cut cp option.case prod.sel if_False)
  qed
qed

theorem normalize_api_subject_domain_witness:
  "NormalizeAPISubject (\<lambda>_. False) (APISubject (apiPrefix @ ''STREAM.INFO.O'') [] ''hub'') =
     (apiPrefix @ ''STREAM.INFO.O'', True)"
  by (rule normalize_api_subject_domain) simp_all

text \<open>A prefix is dropped up to the first registered verb after its first token.\<close>

lemma normalize_loop_prefix:
  assumes "\<forall>t \<in> set ts. CHR ''.'' \<notin> set t \<and> \<not> known t \<and> t \<noteq> ''INFO''"
    "CHR ''.'' \<notin> set verb" "known verb" "verb \<noteq> ''INFO''" "r = [] \<or> hd r = CHR ''.''"
  shows "normalize_loop known (join_with ''.'' (ts @ [verb]) @ r) True = Some (apiPrefix @ verb @ r)"
  using assms(1)
proof (induction ts)
  case Nil
  have "cut_at (CHR ''.'') (verb @ r) = (verb, tl r, r \<noteq> [])"
    using assms(2,5) by (cases r) (simp_all add: cut_at_append cut_at_absent)
  then show ?case using assms(3,4) by (subst normalize_loop.simps) simp
next
  case (Cons t ts)
  have "join_with ''.'' ((t # ts) @ [verb]) @ r = t @ CHR ''.'' # (join_with ''.'' (ts @ [verb]) @ r)"
    by (cases "ts @ [verb]") simp_all
  moreover have "cut_at (CHR ''.'') (t @ CHR ''.'' # (join_with ''.'' (ts @ [verb]) @ r)) =
      (t, join_with ''.'' (ts @ [verb]) @ r, True)"
    using Cons.prems by (intro cut_at_append) simp
  ultimately show ?case using Cons by (subst normalize_loop.simps) simp
qed

text \<open>
  A subject under an unknown API prefix is normalized: with a prefix of one or more tokens,
  not starting with \<open>$JS\<close>, none of whose later tokens is a verb or \<open>INFO\<close>, what follows from the
  registered verb on is put under \<open>$JS.API\<close>.
\<close>

theorem normalize_api_subject_prefix:
  assumes "CHR ''.'' \<notin> set p" "p \<noteq> ''$JS''"
    "\<forall>t \<in> set ts. CHR ''.'' \<notin> set t \<and> \<not> known t \<and> t \<noteq> ''INFO''"
    "CHR ''.'' \<notin> set verb" "known verb" "verb \<noteq> ''INFO''" "r = [] \<or> hd r = CHR ''.''"
  shows "NormalizeAPISubject known (join_with ''.'' ((p # ts) @ [verb]) @ r) = (apiPrefix @ verb @ r, True)"
proof -
  define t where "t = join_with ''.'' (ts @ [verb]) @ r"
  have s: "join_with ''.'' ((p # ts) @ [verb]) @ r = p @ CHR ''.'' # t"
    by (cases "ts @ [verb]") (simp_all add: t_def)
  have cut: "cut_at (CHR ''.'') (p @ CHR ''.'' # t) = (p, t, True)" using assms(1) by (rule cut_at_append)
  have nojs: "\<not> has_prefix (p @ CHR ''.'' # t) ''$JS.''"
  proof
    assume "has_prefix (p @ CHR ''.'' # t) ''$JS.''"
    then obtain u where "p @ CHR ''.'' # t = ''$JS'' @ CHR ''.'' # u" by (auto simp: has_prefix_iff)
    from arg_cong [OF this, of "cut_at (CHR ''.'')"] cut assms(2) show False by (simp add: cut_at_append)
  qed
  moreover have "\<not> has_prefix (p @ CHR ''.'' # t) apiPrefix"
    using nojs by (auto simp: has_prefix_iff apiPrefix_def)
  moreover have "normalize_loop known t True = Some (apiPrefix @ verb @ r)"
    unfolding t_def by (rule normalize_loop_prefix [OF assms(3-7)])
  ultimately show ?thesis unfolding s by (simp add: NormalizeAPISubject_def cut_prefix_def cut)
qed

theorem normalize_api_subject_prefix_witness:
  "NormalizeAPISubject (\<lambda>v. v = ''STREAM'') ''JS.acc.API.STREAM.INFO.O'' = (''$JS.API.STREAM.INFO.O'', True)"
  using normalize_api_subject_prefix [of "''JS''" "[''acc'', ''API'']" "\<lambda>v. v = ''STREAM''" "''STREAM''" "''.INFO.O''"]
  by (simp add: apiPrefix_def)

subsection \<open>Backoff and versions\<close>

lemma duration_Round_bounds:
  assumes "0 \<le> d" "d \<le> maxDuration" "0 < m"
  shows "duration_Round d m \<le> d + m div 2 + 1" "d - m div 2 \<le> duration_Round d m" "0 \<le> duration_Round d m"
    "duration_Round d m \<le> maxDuration"
proof -
  have "0 \<le> d mod m" "d mod m < m" "d mod m \<le> d" using assms by (simp_all add: zmod_le_nonneg_dividend)
  with assms show "duration_Round d m \<le> d + m div 2 + 1" "d - m div 2 \<le> duration_Round d m"
    "0 \<le> duration_Round d m" "duration_Round d m \<le> maxDuration"
    by (auto simp: duration_Round_def Let_def)
qed

text \<open>
  \<open>LinearBackoffPeriods\<close> is bounded and starts at the minimum: on success for positive
  durations it returns exactly \<open>steps\<close> periods, the first is the smaller duration, and none is
  below it by more than or above the larger one by more than half a millisecond.
\<close>

theorem linear_backoff_bounds:
  assumes "LinearBackoffPeriods steps mn mx = Inr ps" "0 < mn" "0 < mx" "mn \<le> maxDuration" "mx \<le> maxDuration"
  shows "length ps = steps \<and> hd ps = min mn mx \<and>
    (\<forall>p \<in> set ps. min mn mx \<le> p \<and> p \<le> max mn mx + Millisecond div 2 + 1)"
proof -
  define lo hi step where "lo = min mn mx" and "hi = max mn mx" and "step = (hi - lo) div int steps"
  have steps: "steps \<noteq> 0"
  proof
    assume "steps = 0"
    with assms(1) show False by (simp add: LinearBackoffPeriods_def)
  qed
  have ps: "ps = map (\<lambda>i. lo + duration_Round (int i * step) Millisecond) [0..<steps]"
    using assms(1) by (auto simp: LinearBackoffPeriods_def Let_def lo_def hi_def step_def min_def max_def
        split: if_splits)
  have step0: "0 \<le> step" using steps by (simp add: step_def lo_def hi_def pos_imp_zdiv_nonneg_iff)
  have bnd: "lo \<le> lo + duration_Round (int i * step) Millisecond \<and>
      lo + duration_Round (int i * step) Millisecond \<le> hi + Millisecond div 2 + 1" if "i < steps" for i
  proof -
    have "int i * step \<le> int steps * step" using that step0 by (intro mult_right_mono) simp_all
    also have "\<dots> \<le> hi - lo"
      using steps mult_div_mod_eq [of "int steps" "hi - lo"] pos_mod_sign [of "int steps" "hi - lo"]
      unfolding step_def by linarith
    finally have le: "int i * step \<le> hi - lo" .
    moreover have "hi - lo \<le> maxDuration" using assms(2-5) by (auto simp: lo_def hi_def)
    moreover have "0 \<le> int i * step" using step0 by simp
    ultimately show ?thesis
      using duration_Round_bounds [of "int i * step" Millisecond] by (simp add: Millisecond_def)
  qed
  have "hd ps = lo" using steps by (simp add: ps hd_map upt_rec duration_Round_def Millisecond_def)
  with bnd show ?thesis by (auto simp: ps lo_def hi_def)
qed

theorem linear_backoff_bounds_witness:
  "hd [1000000000, 2000000000, 3000000000 :: int] = min 1000000000 4000000000"
proof -
  have "LinearBackoffPeriods 3 1000000000 4000000000 = Inr [1000000000, 2000000000, 3000000000]"
    by (simp add: LinearBackoffPeriods_def duration_Round_def Millisecond_def maxDuration_def upt_rec)
  from linear_backoff_bounds [OF this] show ?thesis by (simp add: maxDuration_def)
qed

lemma digits_value_mono: "digits_value acc s = Some n \<Longrightarrow> acc \<le> n"
  by (induction s arbitrary: acc) (fastforce split: option.splits)+

lemma parse_uint_loop_value:
  "digits_value acc s = Some n \<Longrightarrow> n < 2 ^ 64 \<Longrightarrow> parse_uint_loop acc s = (n, False)"
proof (induction s arbitrary: acc)
  case (Cons c s)
  then obtain d where d: "digit_val c = Some d" "digits_value (10 * acc + d) s = Some n"
    by (auto split: option.splits)
  with digits_value_mono [OF d(2)] Cons show ?case by simp
qed simp

lemma ParseUint_itoa [simp]: "n < 2 ^ 64 \<Longrightarrow> ParseUint (itoa n) = (n, False)"
  by (simp add: ParseUint_def parse_uint_loop_value digits_value_itoa)

lemma itoa_is_digit: "c \<in> set (itoa n) \<Longrightarrow> is_digit c"
  using itoa_digits by (fastforce simp: is_digit_def)

lemma hd_itoa: "\<not> is_digit c \<Longrightarrow> hd (itoa n) \<noteq> c"
  by (metis hd_in_set itoa_is_digit itoa_nonempty)

lemma not_digit_signs [simp]: "\<not> is_digit CHR ''-''" "\<not> is_digit CHR ''+''" "\<not> is_digit CHR ''.''"
  "\<not> is_digit CHR ''v''" "\<not> is_digit CHR ''_''" "\<not> is_digit CHR ''$''"
  by (simp_all add: is_digit_def digit_val_def)

lemma ParseInt_itoa [simp]: "n < 2 ^ 63 \<Longrightarrow> ParseInt (itoa n) = (int n, False)"
  by (simp add: ParseInt_def hd_itoa)

lemma takeWhile_itoa:
  "s = [] \<or> \<not> is_digit (hd s) \<Longrightarrow> takeWhile is_digit (itoa n @ s) = itoa n \<and> dropWhile is_digit (itoa n @ s) = s"
  by (cases s) (auto simp: itoa_is_digit takeWhile_append dropWhile_append)

text \<open>
  \<open>versionIsAtLeast\<close> compares lexicographically: for a version written \<open>a.b.c\<close>, with or
  without a leading \<open>v\<close> and with any suffix that does not start with a digit, it holds exactly
  when \<open>(a, b, c)\<close> is at least \<open>(major, minor, patch)\<close>.
\<close>

theorem version_at_least_lexicographic:
  assumes "v = [] \<or> v = ''v''" "suffix = [] \<or> \<not> is_digit (hd suffix)" "a < 2 ^ 63" "b < 2 ^ 63" "c < 2 ^ 63"
  shows "versionIsAtLeast (v @ itoa a @ ''.'' @ itoa b @ ''.'' @ itoa c @ suffix) major minor patch \<longleftrightarrow>
    major < int a \<or> major = int a \<and> (minor < int b \<or> minor = int b \<and> patch \<le> int c)"
proof -
  let ?s1 = "itoa a @ ''.'' @ itoa b @ ''.'' @ itoa c @ suffix"
  have 1: "skip_char (CHR ''v'') (v @ ?s1) = ?s1"
    using assms(1) hd_itoa [of "CHR ''v''" a] by (auto simp: skip_char_def)
  have 2: "takeWhile is_digit ?s1 = itoa a" "dropWhile is_digit ?s1 = ''.'' @ itoa b @ ''.'' @ itoa c @ suffix"
    using takeWhile_itoa [of "''.'' @ itoa b @ ''.'' @ itoa c @ suffix" a] by simp_all
  have 3: "takeWhile is_digit (itoa b @ ''.'' @ itoa c @ suffix) = itoa b"
      "dropWhile is_digit (itoa b @ ''.'' @ itoa c @ suffix) = ''.'' @ itoa c @ suffix"
    using takeWhile_itoa [of "''.'' @ itoa c @ suffix" b] by simp_all
  have 4: "takeWhile is_digit (itoa c @ suffix) = itoa c" using takeWhile_itoa [OF assms(2)] by simp
  have sk: "skip_char (CHR ''.'') (''.'' @ s) = s" for s by (simp add: skip_char_def)
  have "semVer_match (v @ ?s1) = Some (itoa a, itoa b, itoa c)"
    unfolding semVer_match_def 1 Let_def 2 sk 3 4 by simp
  with assms show ?thesis
    by (auto simp: versionIsAtLeast_def versionComponents_def)
qed

theorem version_at_least_lexicographic_witness:
  "versionIsAtLeast ''v2.15.0-preview.1'' 2 14 9"
proof -
  have i: "itoa 2 = ''2''" "itoa 15 = ''15''" "itoa 0 = ''0''" by code_simp+
  have "\<not> is_digit CHR ''-''" by simp
  then show ?thesis
    using version_at_least_lexicographic [of "''v''" "''-preview.1''" 2 15 0 2 14 9] by (simp add: i)
qed

end
