(* ===== verification/MsgMeta.thy ===== *)
theory MsgMeta
  imports Names
begin

text \<open>
  \<open>src/msginfo.go\<close>: the metadata a JetStream message carries in its reply subject or in the
  headers of a direct get. Errors of the number parsers that the source ignores leave the
  value the parser returns with the error; \<open>get\<close> is \<open>Header.Get\<close> on the message's headers
  (\<open>None\<close> when there are none) and \<open>parse_time\<close> is \<open>time.Parse(time.RFC3339, _)\<close>.
\<close>

record MsgInfo =
  mi_stream :: string
  mi_consumer :: string
  mi_sSeq :: nat
  mi_cSeq :: nat
  mi_delivered :: int
  mi_pending :: nat
  mi_ts :: gotime
  mi_domain :: string

datatype meta_error = NotAnAck string | NotAckShape | MetaParse string | UnknownMetadata | MessageNil

definition ParseJSMsgMetadataReply :: "string \<Rightarrow> meta_error + MsgInfo" where
  "ParseJSMsgMetadataReply reply =
     (if reply = [] then Inl (NotAnAck reply)
      else
        (let parts = split_on (CHR ''.'') reply; c = length parts
         in if c < 9 \<or> (c > 9 \<and> c < 11) then Inl NotAckShape
            else if parts ! 0 \<noteq> ''$JS'' \<or> parts ! 1 \<noteq> ''ACK'' then Inl NotAckShape
            else
              (let off = (if c \<ge> 11 then 2 else 0);
                   domain = (if c \<ge> 11 then (if parts ! 2 = ''_'' then [] else parts ! 2) else [])
               in Inr \<lparr> mi_stream = parts ! (2 + off), mi_consumer = parts ! (3 + off),
                        mi_sSeq = fst (ParseUint (parts ! (5 + off))),
                        mi_cSeq = fst (ParseUint (parts ! (6 + off))),
                        mi_delivered = fst (ParseInt (parts ! (4 + off))),
                        mi_pending = (case ParseUint (parts ! (8 + off)) of
                            (p, er) \<Rightarrow> if er then 2 ^ 64 - 1 else p),
                        mi_ts = fst (ParseInt (parts ! (7 + off))),
                        mi_domain = domain \<rparr>)))"

definition ParseJSMsgMetadataDirect :: "(string \<Rightarrow> string + gotime) \<Rightarrow> (string \<Rightarrow> string) \<Rightarrow> meta_error + MsgInfo" where
  "ParseJSMsgMetadataDirect parse_time get =
     (case ParseUint (get ''Nats-Sequence'') of
        (sq, er) \<Rightarrow>
          if er then Inl (MetaParse (get ''Nats-Sequence''))
          else
            (let pending = get ''Nats-Num-Pending'';
                 (pc, per) = (if pending \<noteq> [] then ParseUint pending else (0, False))
             in if per then Inl (MetaParse pending)
                else (case parse_time (get ''Nats-Time-Stamp'') of
                        Inl e \<Rightarrow> Inl (MetaParse e)
                      | Inr ts \<Rightarrow>
                          Inr \<lparr> mi_stream = get ''Nats-Stream'', mi_consumer = [], mi_sSeq = sq, mi_cSeq = 0,
                            mi_delivered = 0, mi_pending = pc, mi_ts = ts, mi_domain = [] \<rparr>)))"

text \<open>\<open>m\<close> is the message: its reply subject and the \<open>Get\<close> of its headers.\<close>

definition ParseJSMsgMetadata :: "(string \<Rightarrow> string + gotime) \<Rightarrow> (string \<times> (string \<Rightarrow> string)) option \<Rightarrow>
    meta_error + MsgInfo" where
  "ParseJSMsgMetadata parse_time m =
     (case m of
        None \<Rightarrow> Inl MessageNil
      | Some (reply, get) \<Rightarrow>
          if length reply > 0 then ParseJSMsgMetadataReply reply
          else if length (get ''Nats-Sequence'') > 0 then ParseJSMsgMetadataDirect parse_time get
          else Inl UnknownMetadata)"

subsection \<open>Reply subjects as the server writes them\<close>

definition ack_reply :: "string list \<Rightarrow> string \<Rightarrow> string \<Rightarrow> nat \<Rightarrow> nat \<Rightarrow> nat \<Rightarrow> nat \<Rightarrow> nat \<Rightarrow> string list \<Rightarrow> string" where
  "ack_reply dmn stream cons dlv sseq cseq ts pend rest =
     join_with ''.'' ([''$JS'', ''ACK''] @ dmn @ [stream, cons, itoa dlv, itoa sseq, itoa cseq, itoa ts, itoa pend] @ rest)"

lemma itoa_no_dot: "CHR ''.'' \<notin> set (itoa n)"
  using itoa_is_digit not_digit_signs(3) by blast

lemma split_ack_reply:
  assumes "\<forall>t \<in> set (dmn @ [stream, cons] @ rest). CHR ''.'' \<notin> set t"
  shows "split_on (CHR ''.'') (ack_reply dmn stream cons dlv sseq cseq ts pend rest) =
    [''$JS'', ''ACK''] @ dmn @ [stream, cons, itoa dlv, itoa sseq, itoa cseq, itoa ts, itoa pend] @ rest"
  unfolding ack_reply_def by (rule split_join) (use assms in \<open>auto simp: itoa_no_dot\<close>)

lemma ack_reply_nonempty: "ack_reply dmn stream cons dlv sseq cseq ts pend rest \<noteq> []"
  by (simp add: ack_reply_def)

text \<open>
  Parsing a reply subject gives back what it was written from, in both of the server's
  forms: without a domain (nine tokens) and with domain and account hash (eleven or more), where
  the domain \<open>_\<close> reads as none.
\<close>

theorem msg_metadata_reply_roundtrip:
  assumes "\<forall>t \<in> set ([dmn, acc, stream, cons] @ rest). CHR ''.'' \<notin> set t"
    and "dlv < 2 ^ 63" "ts < 2 ^ 63" "sseq < 2 ^ 64" "cseq < 2 ^ 64" "pend < 2 ^ 64"
  shows "ParseJSMsgMetadataReply (ack_reply [] stream cons dlv sseq cseq ts pend []) =
      Inr \<lparr> mi_stream = stream, mi_consumer = cons, mi_sSeq = sseq, mi_cSeq = cseq, mi_delivered = int dlv,
        mi_pending = pend, mi_ts = int ts, mi_domain = [] \<rparr> \<and>
    ParseJSMsgMetadataReply (ack_reply [dmn, acc] stream cons dlv sseq cseq ts pend rest) =
      Inr \<lparr> mi_stream = stream, mi_consumer = cons, mi_sSeq = sseq, mi_cSeq = cseq, mi_delivered = int dlv,
        mi_pending = pend, mi_ts = int ts, mi_domain = (if dmn = ''_'' then [] else dmn) \<rparr>"
  using assms
  by (intro conjI) (simp_all add: ParseJSMsgMetadataReply_def split_ack_reply ack_reply_nonempty Let_def)

theorem msg_metadata_reply_roundtrip_witness:
  "ParseJSMsgMetadataReply (ack_reply [] ''ORDERS'' ''C'' 1 22 33 44 5 []) =
      Inr \<lparr> mi_stream = ''ORDERS'', mi_consumer = ''C'', mi_sSeq = 22, mi_cSeq = 33, mi_delivered = 1,
        mi_pending = 5, mi_ts = 44, mi_domain = [] \<rparr>"
  using msg_metadata_reply_roundtrip [of "''d''" "''a''" "''ORDERS''" "''C''" "[]" 1 44 22 33 5] by simp

end
