(* ===== verification/Backup_Types.thy ===== *)
theory Backup_Types
  imports Prelude Api_Types
begin

text \<open>
  The data of \<open>src/backup/\<close>: archive entries and the reader the decoder reads them from,
  the items it yields, message headers, and the code outside the repository the package calls.

  The \<open>NATSARC1\<close> framing is \<open>archive.Reader\<close> and \<open>archive.Writer\<close> of nats-server: an archive
  is here the list of its entries, each a header and the bytes a read of its body yields, and
  the error that ends it. A body whose \<open>r_fail\<close> is set is one the file is cut short in: reads
  past the bytes fail, and so does the call that skips to the next entry.
  Header and payload sizes are not negative.
\<close>

record arc_header =
  h_Name :: string
  h_Timestamp :: int
  h_Sequence :: u64
  h_HeaderSize :: nat
  h_PayloadSize :: nat

text \<open>An \<open>io.Reader\<close>: what it yields, and the error after that (\<open>None\<close> is \<open>io.EOF\<close>).\<close>

record reader =
  r_data :: bytes
  r_fail :: "string option"

record arc_entry =
  ent_hdr :: arc_header
  ent_body :: reader

record archive =
  a_cur :: reader
  a_rest :: "arc_entry list"
  a_end :: string

definition arc_open :: "arc_entry list \<Rightarrow> string \<Rightarrow> archive" where
  "arc_open es end_err = \<lparr> a_cur = \<lparr> r_data = [], r_fail = None \<rparr>, a_rest = es, a_end = end_err \<rparr>"

definition arc_Next :: "archive \<Rightarrow> string + arc_header \<times> archive" where
  "arc_Next a =
     (case r_fail (a_cur a) of
        Some e \<Rightarrow> Inl e
      | None \<Rightarrow> (case a_rest a of
                   [] \<Rightarrow> Inl (a_end a)
                 | e # es \<Rightarrow> Inr (ent_hdr e, a\<lparr> a_cur := ent_body e, a_rest := es \<rparr>)))"

text \<open>\<open>io.ReadAll\<close>, \<open>io.ReadFull\<close> of \<open>n\<close> bytes and \<open>io.MultiReader\<close> of bytes and a reader.\<close>

definition ReadAll :: "reader \<Rightarrow> string + bytes" where
  "ReadAll r = (case r_fail r of None \<Rightarrow> Inr (r_data r) | Some e \<Rightarrow> Inl e)"

definition ReadFull :: "reader \<Rightarrow> nat \<Rightarrow> string + bytes \<times> reader" where
  "ReadFull r n =
     (if n \<le> length (r_data r) then Inr (take n (r_data r), r\<lparr> r_data := drop n (r_data r) \<rparr>)
      else Inl (case r_fail r of Some e \<Rightarrow> e
                | None \<Rightarrow> if r_data r = [] then ''EOF'' else ''unexpected EOF''))"

definition prepend_reader :: "bytes \<Rightarrow> reader \<Rightarrow> reader" where
  "prepend_reader bs r = r\<lparr> r_data := bs @ r_data r \<rparr>"

definition bytes_reader :: "bytes \<Rightarrow> reader" where
  "bytes_reader bs = \<lparr> r_data = bs, r_fail = None \<rparr>"

subsection \<open>Items\<close>

record State =
  s_Ts :: int
  s_State :: StreamState

record Consumer =
  c_Name :: string
  c_Ts :: int
  c_Data :: bytes

record Message =
  m_Subject :: string
  m_Seq :: u64
  m_Ts :: int
  m_HdrSize :: nat
  m_PayloadSize :: nat
  m_Body :: reader

datatype Item = StateItem State | ConsumerItem Consumer | MessageItem Message | End

record EntryRef =
  ref_Ordinal :: nat
  ref_Kind :: string
  ref_Name :: string
  ref_Seq :: u64

definition zeroEntryRef :: EntryRef where
  "zeroEntryRef = \<lparr> ref_Ordinal = 0, ref_Kind = [], ref_Name = [], ref_Seq = 0 \<rparr>"

definition EntryRef_String :: "EntryRef \<Rightarrow> string" where
  "EntryRef_String r =
     (if ref_Kind r = ''message'' then
        ''entry #'' @ itoa (ref_Ordinal r) @ '' message '' @ ref_Name r @ '' seq '' @ format_uint (ref_Seq r)
      else if ref_Kind r = '''' then ''no entries''
      else ''entry #'' @ itoa (ref_Ordinal r) @ '' '' @ ref_Kind r @ '' '' @ ref_Name r)"

definition stateEntry :: string where "stateEntry = ''state.json''"
definition consumerPrefix :: string where "consumerPrefix = ''consumers/''"

text \<open>The sums are \<open>int64\<close> additions of lengths, converted to \<open>uint64\<close>.\<close>

definition storedMsgSize :: "StorageType \<Rightarrow> nat \<Rightarrow> nat \<Rightarrow> nat \<Rightarrow> u64" where
  "storedMsgSize storage slen hlen mlen =
     (if storage = MemoryStorage then of_nat (slen + hlen + mlen + 16)
      else if hlen = 0 then of_nat (22 + slen + mlen + 8)
      else of_nat (22 + slen + 4 + hlen + mlen + 8))"

subsection \<open>Headers, and the code outside the repository\<close>

type_synonym header = "(string, string list) gomap"

text \<open>
  \<open>SnapshotConsumerState\<close> is nats-server's: the fields the obfuscator rewrites, and the rest
  of the configuration and the state as the bytes they are.
\<close>

record SnapConsumerConfig =
  sn_Durable :: string
  sn_Name :: string
  sn_FilterSubject :: string
  sn_FilterSubjects :: "string list"
  sn_DeliverSubject :: string
  sn_DeliverGroup :: string
  sn_PriorityGroups :: "string list"
  sn_Description :: string
  sn_Metadata :: "(string, string) gomap"
  sn_rest :: bytes

record SnapshotConsumerState =
  scs_ConsumerConfig :: "SnapConsumerConfig option"
  scs_ConsumerState :: "bytes option"

text \<open>
  The functions and constants of Go's and NATS' packages the code calls, as one record that
  every definition using them takes: the JSON codec on the two types, \<open>nats.DecodeHeadersMsg\<close>,
  \<open>Header.Get\<close>, \<open>server.SubjectsCollide\<close> and \<open>server.IsValidSubject\<close>, a compiled expression's
  \<open>Match\<close> by the expression's source text, the seeded \<open>maphash.String\<close>, \<open>time.Format\<close>, and the
  header names of nats-server: among them those whose values the obfuscator keeps and those
  whose values are subjects, as two lists. \<open>x_hmac\<close> is HMAC-SHA-256 under a key.
\<close>

record lib =
  x_unmarshalState :: "bytes \<Rightarrow> string + StreamState"
  x_marshalState :: "StreamState \<Rightarrow> bytes"
  x_unmarshalConsumer :: "bytes \<Rightarrow> string + SnapshotConsumerState"
  x_marshalConsumer :: "SnapshotConsumerState \<Rightarrow> bytes"
  x_decodeHeadersMsg :: "bytes \<Rightarrow> string + header"
  x_headerGet :: "header \<Rightarrow> string \<Rightarrow> string"
  x_subjectsCollide :: "string \<Rightarrow> string \<Rightarrow> bool"
  x_isValidSubject :: "string \<Rightarrow> bool"
  x_reMatch :: "string \<Rightarrow> bytes \<Rightarrow> bool"
  x_maphash :: "string \<Rightarrow> u64"
  x_formatTime :: "gotime \<Rightarrow> string"
  x_KVOperation :: string
  x_KVOperationValuePurge :: string
  x_JSMarkerReason :: string
  x_JSMarkerReasonMaxAge :: string
  x_JSMarkerReasonPurge :: string
  x_JSMarkerReasonRemove :: string
  x_verbatimHeaders :: "string list"
  x_subjectHeaders :: "string list"
  x_hmac :: "bytes \<Rightarrow> bytes \<Rightarrow> bytes"

text \<open>A library to evaluate examples with: it decodes nothing.\<close>

definition no_lib :: lib where
  "no_lib = \<lparr> x_unmarshalState = (\<lambda>_. Inl ''bad''), x_marshalState = (\<lambda>_. []),
     x_unmarshalConsumer = (\<lambda>_. Inl ''bad''), x_marshalConsumer = (\<lambda>_. []),
     x_decodeHeadersMsg = (\<lambda>_. Inl ''bad''), x_headerGet = (\<lambda>_ _. []),
     x_subjectsCollide = (=), x_isValidSubject = (\<lambda>s. s \<noteq> []), x_reMatch = (\<lambda>_ _. False),
     x_maphash = (\<lambda>s. of_nat (length s)), x_formatTime = format_int,
     x_KVOperation = ''KV-Operation'', x_KVOperationValuePurge = ''PURGE'',
     x_JSMarkerReason = ''Nats-Marker-Reason'', x_JSMarkerReasonMaxAge = ''MaxAge'',
     x_JSMarkerReasonPurge = ''Purge'', x_JSMarkerReasonRemove = ''Remove'',
     x_verbatimHeaders = [''KV-Operation'', ''Nats-Marker-Reason''], x_subjectHeaders = [''Nats-Schedule-Target''],
     x_hmac = (\<lambda>k m. take 32 (m @ k @ replicate 32 (CHR ''0''))) \<rparr>"

subsection \<open>Errors\<close>

datatype berr =
    NotV2Backup string
  | EndsBeforeSentinel EntryRef string
  | ExpectedStateFirst string
  | ReadingState string
  | StateJson string
  | NegativeConsumerCount int
  | ExpectedConsumerEntry int int string
  | ReadingConsumer string string
  | ConsumerJson string string
  | ConsumerMissingConfig string
  | ConsumerMissingState string
  | SequenceZero string EntryRef
  | FirstSeqZero u64
  | OutOfOrder u64 EntryRef
  | IoEOF
  | ReadingMessage string u64 string
  | MessageHeaders string u64 string
  | BodyShort string u64 nat nat
  | CopyBody string
  | CtxErr string
  | HeadTooLarge nat nat
  | RewindErr string
  | SourceChanged u64 u64 u64 u64
  | HashCollision string string
  | ObfConsumerJson string string
  | RecorderClosed
  | NoStreamSequence string
  | DirectHeaderMissing string string
  | DirectParse string string
  | NotKVBucket string "string list"
  | OtherErr string

end
