(* ===== verification/Backup_Decoder.thy ===== *)
theory Backup_Decoder
  imports Backup_Types
begin

text \<open>
  \<open>src/backup/decoder.go\<close>: the decoder that turns an archive into typed items while it checks
  what a restore relies on. \<open>wf_backup\<close> is the grammar of a complete backup; the theorem on
  acceptance says the decoder reaches the sentinel on exactly the archives of the grammar and
  yields exactly its items. \<open>for_items\<close> is the loop every user of the decoder is written as.
\<close>

datatype decodePhase = phaseState | phaseConsumers | phaseMessages | phaseDone

record decoder =
  d_r :: archive
  d_state :: "StreamState option"
  d_consumersLeft :: int
  d_phase :: decodePhase
  d_lastSeq :: u64
  d_ordinal :: nat
  d_last :: EntryRef
  d_err :: "berr option"

definition NewDecoder :: "archive \<Rightarrow> decoder" where
  "NewDecoder r = \<lparr> d_r = r, d_state = None, d_consumersLeft = 0, d_phase = phaseState,
     d_lastSeq = 0, d_ordinal = 0, d_last = zeroEntryRef, d_err = None \<rparr>"

definition LastGood :: "decoder \<Rightarrow> EntryRef" where
  "LastGood d = d_last d"

definition advance :: "string \<Rightarrow> string \<Rightarrow> u64 \<Rightarrow> decoder \<Rightarrow> decoder" where
  "advance kind name sq d =
     (let d1 = d\<lparr> d_ordinal := d_ordinal d + 1 \<rparr>
      in d1\<lparr> d_last := \<lparr> ref_Ordinal = d_ordinal d1, ref_Kind = kind, ref_Name = name, ref_Seq = sq \<rparr> \<rparr>)"

definition decodeState :: "lib \<Rightarrow> arc_header \<Rightarrow> decoder \<Rightarrow> (berr + Item) \<times> decoder" where
  "decodeState x hdr d =
     (if h_Name hdr \<noteq> stateEntry then (Inl (ExpectedStateFirst (h_Name hdr)), d)
      else case ReadAll (a_cur (d_r d)) of
        Inl e \<Rightarrow> (Inl (ReadingState e), d)
      | Inr data \<Rightarrow>
          (case x_unmarshalState x data of
             Inl e \<Rightarrow> (Inl (StateJson e), d)
           | Inr st \<Rightarrow>
               if sst_Consumers st < 0 then (Inl (NegativeConsumerCount (sst_Consumers st)), d)
               else
                 (let d1 = d\<lparr> d_state := Some st, d_consumersLeft := sst_Consumers st,
                             d_lastSeq := sst_FirstSeq st - 1, d_phase := phaseConsumers \<rparr>;
                      d2 = (if d_consumersLeft d1 = 0 then d1\<lparr> d_phase := phaseMessages \<rparr> else d1)
                  in (Inr (StateItem \<lparr> s_Ts = h_Timestamp hdr, s_State = st \<rparr>),
                      advance ''state'' stateEntry 0 d2))))"

definition decodeConsumer :: "lib \<Rightarrow> arc_header \<Rightarrow> decoder \<Rightarrow> (berr + Item) \<times> decoder" where
  "decodeConsumer x hdr d =
     (case cut_prefix (h_Name hdr) consumerPrefix of
        None \<Rightarrow> (Inl (ExpectedConsumerEntry (d_consumersLeft d)
                   (case d_state d of Some st \<Rightarrow> sst_Consumers st | None \<Rightarrow> 0) (h_Name hdr)), d)
      | Some name \<Rightarrow>
          (case ReadAll (a_cur (d_r d)) of
             Inl e \<Rightarrow> (Inl (ReadingConsumer name e), d)
           | Inr data \<Rightarrow>
               (case x_unmarshalConsumer x data of
                  Inl e \<Rightarrow> (Inl (ConsumerJson name e), d)
                | Inr scs \<Rightarrow>
                    if scs_ConsumerConfig scs = None then (Inl (ConsumerMissingConfig name), d)
                    else if scs_ConsumerState scs = None then (Inl (ConsumerMissingState name), d)
                    else
                      (let d1 = d\<lparr> d_consumersLeft := d_consumersLeft d - 1 \<rparr>;
                           d2 = (if d_consumersLeft d1 = 0 then d1\<lparr> d_phase := phaseMessages \<rparr> else d1)
                       in (Inr (ConsumerItem \<lparr> c_Name = name, c_Ts = h_Timestamp hdr, c_Data = data \<rparr>),
                           advance ''consumer'' name 0 d2)))))"

definition decodeMessage :: "arc_header \<Rightarrow> decoder \<Rightarrow> (berr + Item) \<times> decoder" where
  "decodeMessage hdr d =
     (if h_Sequence hdr = 0 then
        (if h_Timestamp hdr = 0 \<and> h_HeaderSize hdr = 0 \<and> h_PayloadSize hdr = 0
         then (Inr End, advance ''end'' '''' 0 (d\<lparr> d_phase := phaseDone \<rparr>))
         else (Inl (SequenceZero (h_Name hdr) (d_last d)), d))
      else if h_Sequence hdr \<le> d_lastSeq d then
        (if d_lastSeq d = - 1 then (Inl (FirstSeqZero (h_Sequence hdr)), d)
         else (Inl (OutOfOrder (h_Sequence hdr) (d_last d)), d))
      else
        (Inr (MessageItem \<lparr> m_Subject = h_Name hdr, m_Seq = h_Sequence hdr, m_Ts = h_Timestamp hdr,
                m_HdrSize = h_HeaderSize hdr, m_PayloadSize = h_PayloadSize hdr,
                m_Body = a_cur (d_r d) \<rparr>),
         advance ''message'' (h_Name hdr) (h_Sequence hdr) (d\<lparr> d_lastSeq := h_Sequence hdr \<rparr>)))"

definition next_item :: "lib \<Rightarrow> decoder \<Rightarrow> (berr + Item) \<times> decoder" where
  "next_item x d =
     (case arc_Next (d_r d) of
        Inl e \<Rightarrow> (Inl (if d_phase d = phaseState then NotV2Backup e
                       else EndsBeforeSentinel (d_last d) e), d)
      | Inr (hdr, r) \<Rightarrow>
          (let d1 = d\<lparr> d_r := r \<rparr>
           in case d_phase d1 of
                phaseState \<Rightarrow> decodeState x hdr d1
              | phaseConsumers \<Rightarrow> decodeConsumer x hdr d1
              | _ \<Rightarrow> decodeMessage hdr d1))"

definition Next :: "lib \<Rightarrow> decoder \<Rightarrow> (berr + Item) \<times> decoder" where
  "Next x d =
     (case d_err d of
        Some e \<Rightarrow> (Inl e, d)
      | None \<Rightarrow>
          if d_phase d = phaseDone then (Inl IoEOF, d)
          else (case next_item x d of
                  (Inl e, d1) \<Rightarrow> (Inl e, d1\<lparr> d_err := Some e \<rparr>)
                | (Inr it, d1) \<Rightarrow> (Inr it, d1)))"

subsection \<open>One step\<close>

lemmas decode_defs = decodeState_def decodeConsumer_def decodeMessage_def advance_def Let_def

lemma advance_simps [simp]:
  "d_r (advance k n q d) = d_r d" "d_state (advance k n q d) = d_state d"
  "d_consumersLeft (advance k n q d) = d_consumersLeft d" "d_phase (advance k n q d) = d_phase d"
  "d_lastSeq (advance k n q d) = d_lastSeq d" "d_err (advance k n q d) = d_err d"
  "d_ordinal (advance k n q d) = Suc (d_ordinal d)"
  by (simp_all add: advance_def)

lemma decode_keeps_reader:
  "decodeState x hdr d = (r, d') \<Longrightarrow> d_r d' = d_r d"
  "decodeConsumer x hdr d = (r, d') \<Longrightarrow> d_r d' = d_r d"
  "decodeMessage hdr d = (r, d') \<Longrightarrow> d_r d' = d_r d"
  by (auto simp: decodeState_def decodeConsumer_def decodeMessage_def Let_def
      split: sum.splits option.splits if_splits)

lemma arc_Next_rest: "arc_Next a = Inr (h, a') \<Longrightarrow> \<exists>e. a_rest a = e # a_rest a' \<and> h = ent_hdr e \<and> a_cur a' = ent_body e"
  by (auto simp: arc_Next_def split: option.splits list.splits)

lemma next_item_reader:
  "next_item x d = (Inr it, d') \<Longrightarrow> \<exists>h. arc_Next (d_r d) = Inr (h, d_r d')"
  by (auto simp: next_item_def Let_def split: sum.splits prod.splits decodePhase.splits
      dest!: decode_keeps_reader)

lemma Next_consumes:
  assumes "Next x d = (Inr it, d')"
  shows "length (a_rest (d_r d')) < length (a_rest (d_r d))"
proof -
  from assms have "next_item x d = (Inr it, d')"
    by (auto simp: Next_def split: option.splits if_splits prod.splits sum.splits)
  then show ?thesis by (auto dest!: next_item_reader arc_Next_rest)
qed

lemma Next_error_sticky:
  assumes "Next x d = (Inl e, d')" shows "Next x d' = (Inl e, d')"
  using assms by (auto simp: Next_def split: option.splits if_splits prod.splits sum.splits)

subsection \<open>The loop over the items\<close>

text \<open>
  Every caller ranges over the decoder the same way: check the context, take the next item,
  handle it, and return after \<open>End\<close>. \<open>ctx n\<close> is \<open>ctx.Err()\<close> before the \<open>n\<close>th item of the pass.
  On an error the loop returns it with the decoder and the caller's state at that point.
\<close>

function (sequential) for_items ::
  "lib \<Rightarrow> (nat \<Rightarrow> string option) \<Rightarrow> (Item \<Rightarrow> 's \<Rightarrow> berr + 's) \<Rightarrow> nat \<Rightarrow> decoder \<Rightarrow> 's \<Rightarrow>
     (berr \<times> decoder \<times> 's) + decoder \<times> 's" where
  "for_items x ctx h n d s =
     (case ctx n of
        Some e \<Rightarrow> Inl (CtxErr e, d, s)
      | None \<Rightarrow>
          (case Next x d of
             (Inl e, d1) \<Rightarrow> Inl (e, d1, s)
           | (Inr it, d1) \<Rightarrow>
               (case h it s of
                  Inl e \<Rightarrow> Inl (e, d1, s)
                | Inr s1 \<Rightarrow> if it = End then Inr (d1, s1) else for_items x ctx h (Suc n) d1 s1)))"
  by pat_completeness auto
termination
  by (relation "measure (\<lambda>(x, ctx, h, n, d, s). length (a_rest (d_r d)))")
    (auto dest: Next_consumes [OF sym])

declare for_items.simps [simp del]

text \<open>All items the decoder yields before its first error, the error, and the decoder then.\<close>

function (sequential) decode_all :: "lib \<Rightarrow> decoder \<Rightarrow> Item list \<times> berr \<times> decoder" where
  "decode_all x d =
     (case Next x d of
        (Inl e, d1) \<Rightarrow> ([], e, d1)
      | (Inr it, d1) \<Rightarrow> (case decode_all x d1 of (its, e, d2) \<Rightarrow> (it # its, e, d2)))"
  by pat_completeness auto
termination
  by (relation "measure (\<lambda>(x, d). length (a_rest (d_r d)))") (auto dest: Next_consumes [OF sym])

declare decode_all.simps [simp del]

text \<open>After \<open>End\<close> the decoder reports \<open>io.EOF\<close>, and \<open>io.EOF\<close> comes in no other way.\<close>

lemma Next_End_iff:
  assumes "Next x d = (Inr it, d')"
  shows "it = End \<longleftrightarrow> d_phase d' = phaseDone" and "d_err d' = None"
  using assms
  by (auto simp: Next_def next_item_def decodeState_def decodeConsumer_def decodeMessage_def Let_def
      split: option.splits if_splits sum.splits prod.splits decodePhase.splits)

lemma Next_done: "d_phase d = phaseDone \<Longrightarrow> d_err d = None \<Longrightarrow> Next x d = (Inl IoEOF, d)"
  by (simp add: Next_def)

lemma next_item_not_EOF: "next_item x d \<noteq> (Inl IoEOF, d')"
  by (auto simp: next_item_def decodeState_def decodeConsumer_def decodeMessage_def Let_def
      split: option.splits if_splits sum.splits prod.splits decodePhase.splits)

lemma Next_EOF: "Next x d = (Inl IoEOF, d') \<Longrightarrow> d_err d = None \<Longrightarrow> d_phase d = phaseDone \<and> d' = d"
  using next_item_not_EOF by (auto simp: Next_def split: option.splits if_splits sum.splits prod.splits)

subsection \<open>The grammar of a complete backup\<close>

definition valid_state :: "lib \<Rightarrow> arc_entry \<Rightarrow> StreamState \<Rightarrow> bool" where
  "valid_state x e st \<longleftrightarrow>
     h_Name (ent_hdr e) = stateEntry \<and> r_fail (ent_body e) = None \<and>
     x_unmarshalState x (r_data (ent_body e)) = Inr st \<and> 0 \<le> sst_Consumers st"

definition valid_consumer :: "lib \<Rightarrow> arc_entry \<Rightarrow> Consumer \<Rightarrow> bool" where
  "valid_consumer x e c \<longleftrightarrow>
     h_Name (ent_hdr e) = consumerPrefix @ c_Name c \<and> r_fail (ent_body e) = None \<and>
     c_Ts c = h_Timestamp (ent_hdr e) \<and> c_Data c = r_data (ent_body e) \<and>
     (case x_unmarshalConsumer x (c_Data c) of
        Inl _ \<Rightarrow> False
      | Inr scs \<Rightarrow> scs_ConsumerConfig scs \<noteq> None \<and> scs_ConsumerState scs \<noteq> None)"

definition message_of :: "arc_entry \<Rightarrow> Message" where
  "message_of e =
     \<lparr> m_Subject = h_Name (ent_hdr e), m_Seq = h_Sequence (ent_hdr e), m_Ts = h_Timestamp (ent_hdr e),
       m_HdrSize = h_HeaderSize (ent_hdr e), m_PayloadSize = h_PayloadSize (ent_hdr e),
       m_Body = ent_body e \<rparr>"

definition is_sentinel :: "arc_entry \<Rightarrow> bool" where
  "is_sentinel e \<longleftrightarrow> h_Sequence (ent_hdr e) = 0 \<and> h_Timestamp (ent_hdr e) = 0 \<and>
     h_HeaderSize (ent_hdr e) = 0 \<and> h_PayloadSize (ent_hdr e) = 0"

definition wf_messages :: "u64 \<Rightarrow> arc_entry list \<Rightarrow> bool" where
  "wf_messages lst ms \<longleftrightarrow> sorted_wrt (<) (lst # map (\<lambda>e. h_Sequence (ent_hdr e)) ms) \<and>
     (\<forall>e \<in> set ms. r_fail (ent_body e) = None)"

definition wf_backup :: "lib \<Rightarrow> arc_entry list \<Rightarrow> Item list \<Rightarrow> bool" where
  "wf_backup x es its \<longleftrightarrow>
     (\<exists>s st cs cons ms z rest.
        es = s # cs @ ms @ z # rest \<and> valid_state x s st \<and>
        int (length cs) = sst_Consumers st \<and> list_all2 (valid_consumer x) cs cons \<and>
        wf_messages (sst_FirstSeq st - 1) ms \<and> is_sentinel z \<and>
        its = StateItem \<lparr> s_Ts = h_Timestamp (ent_hdr s), s_State = st \<rparr>
              # map ConsumerItem cons @ map (\<lambda>e. MessageItem (message_of e)) ms @ [End])"

text \<open>What one call does in each phase.\<close>

definition ready :: "decodePhase \<Rightarrow> arc_entry list \<Rightarrow> decoder \<Rightarrow> bool" where
  "ready ph es d \<longleftrightarrow> d_phase d = ph \<and> d_err d = None \<and> a_rest (d_r d) = es \<and> r_fail (a_cur (d_r d)) = None"

text \<open>No further item can come: the archive ends here, or the body before was cut short.\<close>

lemma Next_stuck:
  assumes "d_phase d \<noteq> phaseDone" "d_err d = None" "a_rest (d_r d) = [] \<or> r_fail (a_cur (d_r d)) \<noteq> None"
  shows "\<exists>e d1. decode_all x d = ([], e, d1) \<and> e \<noteq> IoEOF"
  using assms by (subst decode_all.simps) (auto simp: Next_def next_item_def arc_Next_def split: option.splits)

lemma decode_all_step: "Next x d = (Inr it, d1) \<Longrightarrow>
    decode_all x d = (case decode_all x d1 of (its, e, d2) \<Rightarrow> (it # its, e, d2))"
  by (subst decode_all.simps) simp

lemma decode_all_error: "Next x d = (Inl e, d1) \<Longrightarrow> decode_all x d = ([], e, d1)"
  by (subst decode_all.simps) simp

lemma Next_sentinel:
  assumes "ready phaseMessages (e # es) d" "is_sentinel e"
  shows "\<exists>d1. Next x d = (Inr End, d1) \<and> d_phase d1 = phaseDone \<and> d_err d1 = None"
  using assms by (auto simp: ready_def is_sentinel_def Next_def next_item_def arc_Next_def decodeMessage_def)

lemma Next_bad_message:
  assumes "ready phaseMessages (e # es) d" "\<not> is_sentinel e" "\<not> d_lastSeq d < h_Sequence (ent_hdr e)"
  shows "\<exists>err d1. Next x d = (Inl err, d1) \<and> err \<noteq> IoEOF"
  using assms by (auto simp: ready_def is_sentinel_def Next_def next_item_def arc_Next_def decodeMessage_def Let_def)

lemma Next_message:
  assumes "ready phaseMessages (e # es) d" "d_lastSeq d < h_Sequence (ent_hdr e)"
  shows "\<exists>d1. Next x d = (Inr (MessageItem (message_of e)), d1) \<and> d_phase d1 = phaseMessages \<and>
     d_err d1 = None \<and> a_rest (d_r d1) = es \<and> a_cur (d_r d1) = ent_body e \<and>
     d_lastSeq d1 = h_Sequence (ent_hdr e)"
  using assms
  by (auto simp: ready_def message_of_def Next_def next_item_def arc_Next_def decodeMessage_def Let_def)

lemma wf_messages_Cons:
  "wf_messages lst (e # ms) \<longleftrightarrow> lst < h_Sequence (ent_hdr e) \<and> r_fail (ent_body e) = None \<and>
     wf_messages (h_Sequence (ent_hdr e)) ms"
  by (auto simp: wf_messages_def)

lemma wf_messages_Nil [simp]: "wf_messages lst []"
  by (simp add: wf_messages_def)

lemma sentinel_not_above: "is_sentinel e \<Longrightarrow> \<not> lst < h_Sequence (ent_hdr e)"
  by (simp add: is_sentinel_def)

definition wf_tail :: "u64 \<Rightarrow> arc_entry list \<Rightarrow> Item list \<Rightarrow> bool" where
  "wf_tail lst es its \<longleftrightarrow> (\<exists>ms z rest. es = ms @ z # rest \<and> wf_messages lst ms \<and> is_sentinel z \<and>
     its = map (\<lambda>e. MessageItem (message_of e)) ms @ [End])"

lemma wf_tail_Nil: "\<not> wf_tail lst [] its"
  by (simp add: wf_tail_def)

lemma wf_tail_Cons:
  "wf_tail lst (e # es) its \<longleftrightarrow>
     is_sentinel e \<and> its = [End] \<or>
     lst < h_Sequence (ent_hdr e) \<and> r_fail (ent_body e) = None \<and>
       (\<exists>its'. its = MessageItem (message_of e) # its' \<and> wf_tail (h_Sequence (ent_hdr e)) es its')"
  (is "?L \<longleftrightarrow> ?S \<or> ?M")
proof
  assume ?L
  then obtain ms z rest where a: "e # es = ms @ z # rest" "wf_messages lst ms" "is_sentinel z"
    "its = map (\<lambda>e. MessageItem (message_of e)) ms @ [End]" by (auto simp: wf_tail_def)
  then show "?S \<or> ?M" by (cases ms) (auto simp: wf_messages_Cons wf_tail_def)
next
  assume "?S \<or> ?M"
  then show ?L
  proof
    assume ?S
    then show ?L unfolding wf_tail_def by (intro exI [of _ "[]"] exI [of _ e] exI [of _ es]) simp
  next
    assume m: ?M
    then obtain ms z rest where "es = ms @ z # rest" "wf_messages (h_Sequence (ent_hdr e)) ms" "is_sentinel z"
      "its = MessageItem (message_of e) # map (\<lambda>e. MessageItem (message_of e)) ms @ [End]"
      by (auto simp: wf_tail_def)
    with m show ?L unfolding wf_tail_def
      by (intro exI [of _ "e # ms"] exI [of _ z] exI [of _ rest]) (simp add: wf_messages_Cons)
  qed
qed

lemma decode_messages_iff:
  assumes "ready phaseMessages es d"
  shows "(\<exists>d'. decode_all x d = (its, IoEOF, d')) \<longleftrightarrow> wf_tail (d_lastSeq d) es its"
  using assms
proof (induction es arbitrary: d its)
  case Nil
  then have "\<exists>e d1. decode_all x d = ([], e, d1) \<and> e \<noteq> IoEOF" by (intro Next_stuck) (auto simp: ready_def)
  then show ?case by (auto simp: wf_tail_Nil)
next
  case (Cons e es)
  consider (sent) "is_sentinel e" | (bad) "\<not> is_sentinel e" "\<not> d_lastSeq d < h_Sequence (ent_hdr e)"
    | (msg) "d_lastSeq d < h_Sequence (ent_hdr e)" using sentinel_not_above by blast
  then show ?case
  proof cases
    case sent
    from Next_sentinel [OF Cons.prems sent] obtain d1 where
      d1: "Next x d = (Inr End, d1)" "d_phase d1 = phaseDone" "d_err d1 = None" by blast
    have "decode_all x d = ([End], IoEOF, d1)"
      using decode_all_step [OF d1(1)] decode_all_error [OF Next_done [OF d1(2,3)]] by simp
    then show ?thesis using sent sentinel_not_above [OF sent] by (auto simp: wf_tail_Cons)
  next
    case bad
    from Next_bad_message [OF Cons.prems bad, of x] obtain er d1 where
      "Next x d = (Inl er, d1)" "er \<noteq> IoEOF" by blast
    then show ?thesis using bad by (simp add: decode_all_error wf_tail_Cons)
  next
    case msg
    from Next_message [OF Cons.prems msg] obtain d1 where d1:
      "Next x d = (Inr (MessageItem (message_of e)), d1)" "d_phase d1 = phaseMessages"
      "d_err d1 = None" "a_rest (d_r d1) = es" "a_cur (d_r d1) = ent_body e"
      "d_lastSeq d1 = h_Sequence (ent_hdr e)" by blast
    have R: "wf_tail (d_lastSeq d) (e # es) its \<longleftrightarrow> r_fail (ent_body e) = None \<and>
        (\<exists>its'. its = MessageItem (message_of e) # its' \<and> wf_tail (h_Sequence (ent_hdr e)) es its')"
      using msg sentinel_not_above by (auto simp: wf_tail_Cons)
    show ?thesis
    proof (cases "r_fail (ent_body e) = None")
      case True
      with d1 have "ready phaseMessages es d1" by (simp add: ready_def)
      from Cons.IH [OF this] d1(6)
      have IH: "(\<exists>d'. decode_all x d1 = (its1, IoEOF, d')) \<longleftrightarrow> wf_tail (h_Sequence (ent_hdr e)) es its1" for its1
        by simp
      obtain its1 er d2 where dec: "decode_all x d1 = (its1, er, d2)" by (cases "decode_all x d1")
      show ?thesis unfolding R decode_all_step [OF d1(1)] dec IH [symmetric] using True by auto
    next
      case False
      have "d_phase d1 \<noteq> phaseDone" "r_fail (a_cur (d_r d1)) \<noteq> None" using d1 False by simp_all
      with Next_stuck [of d1 x] d1(3) obtain er d2 where "decode_all x d1 = ([], er, d2)" "er \<noteq> IoEOF" by blast
      then show ?thesis unfolding R decode_all_step [OF d1(1)] using False by simp
    qed
  qed
qed

text \<open>The consumer phase: exactly \<open>n\<close> consumer entries, then the messages.\<close>

lemma Next_consumer:
  assumes "ready phaseConsumers (e # es) d" "valid_consumer x e c" "d_consumersLeft d = int (Suc n)"
  shows "\<exists>d1. Next x d = (Inr (ConsumerItem c), d1) \<and>
     d_phase d1 = (if n = 0 then phaseMessages else phaseConsumers) \<and> d_consumersLeft d1 = int n \<and>
     d_err d1 = None \<and> a_rest (d_r d1) = es \<and> a_cur (d_r d1) = ent_body e \<and> d_lastSeq d1 = d_lastSeq d"
proof -
  obtain nm ts dt where c: "c = \<lparr> c_Name = nm, c_Ts = ts, c_Data = dt \<rparr>" by (cases c)
  from assms(2) obtain scs where v: "h_Name (ent_hdr e) = consumerPrefix @ nm" "r_fail (ent_body e) = None"
      "h_Timestamp (ent_hdr e) = ts" "r_data (ent_body e) = dt" "x_unmarshalConsumer x dt = Inr scs"
      "scs_ConsumerConfig scs \<noteq> None" "scs_ConsumerState scs \<noteq> None"
    by (auto simp: valid_consumer_def c split: sum.splits)
  show ?thesis
    using assms(1,3) by (simp add: ready_def c v Next_def next_item_def arc_Next_def decodeConsumer_def
      ReadAll_def Let_def)
qed

lemma Next_bad_consumer:
  assumes "ready phaseConsumers (e # es) d" "\<not> (\<exists>c. valid_consumer x e c)"
  shows "\<exists>err d1. Next x d = (Inl err, d1) \<and> err \<noteq> IoEOF"
proof -
  have "\<exists>err. fst (decodeConsumer x (ent_hdr e) d1) = Inl err \<and> err \<noteq> IoEOF"
    if "a_cur (d_r d1) = ent_body e" for d1
  proof (cases "cut_prefix (h_Name (ent_hdr e)) consumerPrefix")
    case None
    then show ?thesis by (simp add: decodeConsumer_def)
  next
    case (Some n)
    from assms(2) have "\<not> valid_consumer x e
        \<lparr> c_Name = n, c_Ts = h_Timestamp (ent_hdr e), c_Data = r_data (ent_body e) \<rparr>" by blast
    with that Some show ?thesis
      by (auto simp: valid_consumer_def cut_prefix_Some_iff decodeConsumer_def ReadAll_def Let_def
          split: sum.splits option.splits)
  qed
  from this [of "d\<lparr> d_r := d_r d\<lparr> a_cur := ent_body e, a_rest := es \<rparr> \<rparr>"] assms(1) show ?thesis
    by (auto simp: ready_def Next_def next_item_def arc_Next_def Let_def split: prod.splits)
qed

lemma valid_consumer_fun: "valid_consumer x e c \<Longrightarrow> valid_consumer x e c' \<Longrightarrow> c = c'"
  by (cases c; cases c') (simp add: valid_consumer_def)

definition wf_body :: "lib \<Rightarrow> nat \<Rightarrow> u64 \<Rightarrow> arc_entry list \<Rightarrow> Item list \<Rightarrow> bool" where
  "wf_body x n lst es its \<longleftrightarrow> (\<exists>cs cons es' its'. es = cs @ es' \<and> its = map ConsumerItem cons @ its' \<and>
     length cs = n \<and> list_all2 (valid_consumer x) cs cons \<and> wf_tail lst es' its')"

lemma wf_body_0: "wf_body x 0 lst es its \<longleftrightarrow> wf_tail lst es its"
  by (fastforce simp: wf_body_def)

lemma wf_body_Nil: "\<not> wf_body x n lst [] its"
  by (simp add: wf_body_def wf_tail_Nil)

lemma wf_body_Suc:
  "wf_body x (Suc n) lst (e # es) its \<longleftrightarrow>
     (\<exists>c its1. valid_consumer x e c \<and> its = ConsumerItem c # its1 \<and> wf_body x n lst es its1)" (is "?L \<longleftrightarrow> ?R")
proof
  assume ?L
  then obtain cs cons es' its' where a: "e # es = cs @ es'" "its = map ConsumerItem cons @ its'"
      "length cs = Suc n" "list_all2 (valid_consumer x) cs cons" "wf_tail lst es' its'"
    by (auto simp: wf_body_def)
  from a(3,4) obtain e1 cs1 c cons1 where "cs = e1 # cs1" "cons = c # cons1" by (cases cs; cases cons) auto
  with a have b: "es = cs1 @ es'" "length cs1 = n" "valid_consumer x e c" "list_all2 (valid_consumer x) cs1 cons1"
    "its = ConsumerItem c # map ConsumerItem cons1 @ its'" by simp_all
  then have "wf_body x n lst es (map ConsumerItem cons1 @ its')" using a(5) unfolding wf_body_def by blast
  with b show ?R by blast
next
  assume ?R
  then obtain c cs cons es' its' where b: "valid_consumer x e c" "es = cs @ es'" "length cs = n"
    "its = ConsumerItem c # map ConsumerItem cons @ its'" "list_all2 (valid_consumer x) cs cons"
    "wf_tail lst es' its'" by (auto simp: wf_body_def)
  then show ?L unfolding wf_body_def
    by (intro exI [of _ "e # cs"] exI [of _ "c # cons"] exI [of _ es'] exI [of _ its']) simp
qed

lemma decode_consumers_iff:
  assumes "ready (if n = 0 then phaseMessages else phaseConsumers) es d" "d_consumersLeft d = int n"
  shows "(\<exists>d'. decode_all x d = (its, IoEOF, d')) \<longleftrightarrow> wf_body x n (d_lastSeq d) es its"
  using assms
proof (induction n arbitrary: es d its)
  case 0
  then have "ready phaseMessages es d" by simp
  from decode_messages_iff [OF this, of x its] show ?case by (simp add: wf_body_0)
next
  case (Suc n)
  show ?case
  proof (cases es)
    case Nil
    with Suc.prems have "\<exists>e d1. decode_all x d = ([], e, d1) \<and> e \<noteq> IoEOF"
      by (intro Next_stuck) (auto simp: ready_def)
    with Nil show ?thesis by (auto simp: wf_body_Nil)
  next
    case (Cons e es')
    have rdy: "ready phaseConsumers (e # es') d" using Suc.prems(1) Cons by simp
    show ?thesis
    proof (cases "\<exists>c. valid_consumer x e c")
      case False
      with Next_bad_consumer [OF rdy] obtain er d1 where "Next x d = (Inl er, d1)" "er \<noteq> IoEOF" by blast
      then show ?thesis using False by (simp add: Cons wf_body_Suc decode_all_error)
    next
      case True
      then obtain c where c: "valid_consumer x e c" by blast
      from Next_consumer [OF rdy c Suc.prems(2)] obtain d1 where d1:
        "Next x d = (Inr (ConsumerItem c), d1)" "d_phase d1 = (if n = 0 then phaseMessages else phaseConsumers)"
        "d_consumersLeft d1 = int n" "d_err d1 = None" "a_rest (d_r d1) = es'"
        "a_cur (d_r d1) = ent_body e" "d_lastSeq d1 = d_lastSeq d" by blast
      have R: "wf_body x (Suc n) (d_lastSeq d) es its \<longleftrightarrow>
          (\<exists>its1. its = ConsumerItem c # its1 \<and> wf_body x n (d_lastSeq d) es' its1)"
        unfolding Cons wf_body_Suc using c valid_consumer_fun [OF c] by blast
      have "ready (if n = 0 then phaseMessages else phaseConsumers) es' d1"
        using d1 c by (simp add: ready_def valid_consumer_def)
      from Suc.IH [OF this d1(3)] d1(7)
      have IH: "(\<exists>d'. decode_all x d1 = (its1, IoEOF, d')) \<longleftrightarrow> wf_body x n (d_lastSeq d) es' its1" for its1
        by simp
      obtain its1 er d2 where dec: "decode_all x d1 = (its1, er, d2)" by (cases "decode_all x d1")
      show ?thesis unfolding R decode_all_step [OF d1(1)] dec IH [symmetric] by auto
    qed
  qed
qed

text \<open>The whole archive.\<close>

lemma Next_state:
  assumes "ready phaseState (e # es) d" "valid_state x e st"
  shows "\<exists>d1. Next x d = (Inr (StateItem \<lparr> s_Ts = h_Timestamp (ent_hdr e), s_State = st \<rparr>), d1) \<and>
     d_consumersLeft d1 = sst_Consumers st \<and> d_lastSeq d1 = sst_FirstSeq st - 1 \<and>
     ready (if sst_Consumers st = 0 then phaseMessages else phaseConsumers) es d1"
  using assms
  by (auto simp: ready_def valid_state_def Next_def next_item_def arc_Next_def decodeState_def ReadAll_def Let_def)

lemma Next_bad_state:
  assumes "ready phaseState (e # es) d" "\<not> (\<exists>st. valid_state x e st)"
  shows "\<exists>err d1. Next x d = (Inl err, d1) \<and> err \<noteq> IoEOF"
  using assms
  by (auto simp: ready_def valid_state_def Next_def next_item_def arc_Next_def decodeState_def ReadAll_def Let_def
      split: sum.splits option.splits)

lemma valid_state_fun: "valid_state x e st \<Longrightarrow> valid_state x e st' \<Longrightarrow> st = st'"
  by (simp add: valid_state_def)

lemma wf_backup_Cons:
  "wf_backup x (e # es) its \<longleftrightarrow> (\<exists>st its1. valid_state x e st \<and>
     its = StateItem \<lparr> s_Ts = h_Timestamp (ent_hdr e), s_State = st \<rparr> # its1 \<and>
     wf_body x (nat (sst_Consumers st)) (sst_FirstSeq st - 1) es its1)" (is "?L \<longleftrightarrow> ?R")
proof
  assume ?L
  then obtain s st cs cons ms z rest where a: "e # es = s # cs @ ms @ z # rest" "valid_state x s st"
    "int (length cs) = sst_Consumers st" "list_all2 (valid_consumer x) cs cons"
    "wf_messages (sst_FirstSeq st - 1) ms" "is_sentinel z"
    "its = StateItem \<lparr> s_Ts = h_Timestamp (ent_hdr s), s_State = st \<rparr>
              # map ConsumerItem cons @ map (\<lambda>e. MessageItem (message_of e)) ms @ [End]"
    unfolding wf_backup_def by blast
  have "wf_tail (sst_FirstSeq st - 1) (ms @ z # rest) (map (\<lambda>e. MessageItem (message_of e)) ms @ [End])"
    using a(5,6) unfolding wf_tail_def by blast
  moreover have "length cs = nat (sst_Consumers st)" using a(3) by simp
  ultimately have "wf_body x (nat (sst_Consumers st)) (sst_FirstSeq st - 1) es
      (map ConsumerItem cons @ map (\<lambda>e. MessageItem (message_of e)) ms @ [End])"
    using a(1,4) unfolding wf_body_def by blast
  with a(1,2,7) show ?R by auto
next
  assume ?R
  then obtain st cs cons ms z rest where a: "valid_state x e st" "es = cs @ ms @ z # rest"
    "length cs = nat (sst_Consumers st)" "list_all2 (valid_consumer x) cs cons"
    "wf_messages (sst_FirstSeq st - 1) ms" "is_sentinel z"
    "its = StateItem \<lparr> s_Ts = h_Timestamp (ent_hdr e), s_State = st \<rparr>
              # map ConsumerItem cons @ map (\<lambda>e. MessageItem (message_of e)) ms @ [End]"
    unfolding wf_body_def wf_tail_def by blast
  moreover from a(1,3) have "int (length cs) = sst_Consumers st" by (simp add: valid_state_def)
  ultimately show ?L unfolding wf_backup_def by blast
qed

lemma decode_state_iff:
  assumes "ready phaseState es d"
  shows "(\<exists>d'. decode_all x d = (its, IoEOF, d')) \<longleftrightarrow> wf_backup x es its"
proof (cases es)
  case Nil
  with assms have "\<exists>e d1. decode_all x d = ([], e, d1) \<and> e \<noteq> IoEOF" by (intro Next_stuck) (auto simp: ready_def)
  with Nil show ?thesis by (auto simp: wf_backup_def)
next
  case (Cons e es')
  show ?thesis
  proof (cases "\<exists>st. valid_state x e st")
    case False
    with Next_bad_state assms Cons obtain er d1 where "Next x d = (Inl er, d1)" "er \<noteq> IoEOF" by blast
    then show ?thesis using False by (simp add: Cons wf_backup_Cons decode_all_error)
  next
    case True
    then obtain st where st: "valid_state x e st" by blast
    from Next_state [OF _ st] assms Cons obtain d1 where d1:
      "Next x d = (Inr (StateItem \<lparr> s_Ts = h_Timestamp (ent_hdr e), s_State = st \<rparr>), d1)"
      "d_consumersLeft d1 = sst_Consumers st" "d_lastSeq d1 = sst_FirstSeq st - 1"
      "ready (if sst_Consumers st = 0 then phaseMessages else phaseConsumers) es' d1" by blast
    have nn: "0 \<le> sst_Consumers st" using st by (simp add: valid_state_def)
    have R: "wf_backup x es its \<longleftrightarrow> (\<exists>its1. its = StateItem \<lparr> s_Ts = h_Timestamp (ent_hdr e), s_State = st \<rparr> # its1
        \<and> wf_body x (nat (sst_Consumers st)) (sst_FirstSeq st - 1) es' its1)"
      unfolding Cons wf_backup_Cons using st valid_state_fun [OF st] by blast
    have IH: "(\<exists>d'. decode_all x d1 = (its1, IoEOF, d')) \<longleftrightarrow>
        wf_body x (nat (sst_Consumers st)) (sst_FirstSeq st - 1) es' its1" for its1
      using decode_consumers_iff [of "nat (sst_Consumers st)" es' d1 x its1] d1 nn by simp
    obtain its1 er d2 where dec: "decode_all x d1 = (its1, er, d2)" by (cases "decode_all x d1")
    show ?thesis unfolding R decode_all_step [OF d1(1)] dec IH [symmetric] by auto
  qed
qed

text \<open>The loop is the fold of the handler over the decoded items.\<close>

lemma decode_all_done:
  assumes "Next x d = (Inr it, d1)" "decode_all x d1 = ([], IoEOF, d2)"
  shows "it = End \<and> d2 = d1"
proof -
  from assms(2) have "Next x d1 = (Inl IoEOF, d2)"
    by (subst (asm) decode_all.simps) (auto split: prod.splits sum.splits)
  from Next_EOF [OF this Next_End_iff(2) [OF assms(1)]] Next_End_iff(1) [OF assms(1)]
  show ?thesis by simp
qed

lemma decode_all_after_End:
  assumes "Next x d = (Inr End, d1)" shows "decode_all x d1 = ([], IoEOF, d1)"
  using Next_End_iff [OF assms] decode_all_error Next_done by simp

lemma for_items_Inr:
  assumes "for_items x ctx h n d s = Inr (d', s')"
  shows "\<exists>its. decode_all x d = (its, IoEOF, d') \<and> fold_err h its s = Inr s' \<and> its \<noteq> []"
  using assms
proof (induction x ctx h n d s rule: for_items.induct)
  case (1 x ctx h n d s)
  from "1.prems" obtain it d1 s1 where st: "ctx n = None" "Next x d = (Inr it, d1)" "h it s = Inr s1"
    "(if it = End then Inr (d1, s1) else for_items x ctx h (Suc n) d1 s1) = Inr (d', s')"
    by (subst (asm) for_items.simps) (auto split: option.splits prod.splits sum.splits)
  show ?case
  proof (cases "it = End")
    case True
    with st have "decode_all x d = ([End], IoEOF, d1)"
      by (simp add: decode_all_step decode_all_after_End)
    with st True show ?thesis by simp
  next
    case False
    with st have "for_items x ctx h (Suc n) d1 s1 = Inr (d', s')" by simp
    from "1.IH" [OF st(1) st(2) [symmetric] refl st(3) False this]
    obtain its where "decode_all x d1 = (its, IoEOF, d')" "fold_err h its s1 = Inr s'" by blast
    with st show ?thesis by (simp add: decode_all_step)
  qed
qed

lemma for_items_run:
  assumes "decode_all x d = (its, e, d')" "fold_err h its s = Inr s'"
    "its \<noteq> [] \<or> e \<noteq> IoEOF" "d_err d = None"
  shows "for_items x (\<lambda>_. None) h n d s = (if e = IoEOF then Inr (d', s') else Inl (e, d', s'))"
  using assms
proof (induction its arbitrary: n d s)
  case Nil
  then have "Next x d = (Inl e, d')"
    by (subst (asm) decode_all.simps) (auto split: prod.splits sum.splits)
  with Nil show ?case by (subst for_items.simps) simp
next
  case (Cons it its)
  from Cons.prems(1) obtain d1 where d1: "Next x d = (Inr it, d1)" "decode_all x d1 = (its, e, d')"
    by (subst (asm) decode_all.simps) (auto split: prod.splits sum.splits)
  from Cons.prems(2) obtain s1 where s1: "h it s = Inr s1" "fold_err h its s1 = Inr s'"
    by (auto split: sum.splits)
  show ?case
  proof (cases "it = End")
    case True
    with d1 decode_all_after_End [of x d d1] have "its = []" "e = IoEOF" "d' = d1" by simp_all
    with True d1 s1 show ?thesis by (subst for_items.simps) simp
  next
    case False
    have "its \<noteq> [] \<or> e \<noteq> IoEOF" using False d1 decode_all_done by blast
    from Cons.IH [OF d1(2) s1(2) this Next_End_iff(2) [OF d1(1)]] False d1 s1
    show ?thesis by (subst for_items.simps) simp
  qed
qed

text \<open>The ordinal of the last good entry counts the items.\<close>

lemma Next_ordinal:
  assumes "Next x d = (Inr it, d1)"
  shows "d_ordinal d1 = Suc (d_ordinal d) \<and> ref_Ordinal (d_last d1) = d_ordinal d1"
  using assms
  by (auto simp: Next_def next_item_def decodeState_def decodeConsumer_def decodeMessage_def Let_def advance_def
      split: option.splits if_splits sum.splits prod.splits decodePhase.splits)

lemma next_item_error_last:
  assumes "next_item x d = (Inl e, d1)" shows "d_last d1 = d_last d \<and> d_ordinal d1 = d_ordinal d"
  using assms
  by (auto simp: next_item_def decodeState_def decodeConsumer_def decodeMessage_def Let_def advance_def
      split: option.splits if_splits sum.splits prod.splits decodePhase.splits)

lemma Next_error_last:
  "Next x d = (Inl e, d1) \<Longrightarrow> d_last d1 = d_last d \<and> d_ordinal d1 = d_ordinal d"
  by (auto simp: Next_def dest: next_item_error_last split: option.splits if_splits prod.splits sum.splits)

lemma decode_all_ordinal:
  assumes "decode_all x d = (its, e, d')" "ref_Ordinal (d_last d) = d_ordinal d"
  shows "ref_Ordinal (d_last d') = d_ordinal d + length its"
  using assms
proof (induction its arbitrary: d)
  case Nil
  then have "Next x d = (Inl e, d')"
    by (subst (asm) decode_all.simps) (auto split: prod.splits sum.splits)
  from Next_error_last [OF this] Nil show ?case by simp
next
  case (Cons it its)
  from Cons.prems(1) obtain d1 where d1: "Next x d = (Inr it, d1)" "decode_all x d1 = (its, e, d')"
    by (subst (asm) decode_all.simps) (auto split: prod.splits sum.splits)
  from Cons.IH [OF d1(2)] Next_ordinal [OF d1(1)] show ?case by simp
qed

lemma decode_all_nonempty:
  "decode_all x (NewDecoder r) = (its, IoEOF, d) \<Longrightarrow> its \<noteq> []"
  by (subst (asm) decode_all.simps)
    (auto simp: NewDecoder_def dest!: Next_EOF split: prod.splits sum.splits)

lemma decoder_reaches_end:
  "(\<exists>d. decode_all x (NewDecoder (arc_open es end_err)) = (its, IoEOF, d)) \<longleftrightarrow> wf_backup x es its"
  by (rule decode_state_iff) (simp add: ready_def NewDecoder_def arc_open_def)

subsection \<open>A concrete library and archive\<close>

text \<open>\<open>demo_lib\<close> reads every state as that of an empty stream.\<close>

definition demo_lib :: lib where
  "demo_lib = no_lib\<lparr> x_unmarshalState := (\<lambda>_. Inr (zeroStreamState\<lparr> sst_FirstSeq := 1 \<rparr>)),
     x_marshalState := (\<lambda>st. ''{'' @ format_uint (sst_Msgs st) @ ''}''),
     x_decodeHeadersMsg := (\<lambda>bs. Inr [(''H'', [bs])]) \<rparr>"

definition mk_entry :: "string \<Rightarrow> int \<Rightarrow> u64 \<Rightarrow> nat \<Rightarrow> bytes \<Rightarrow> arc_entry" where
  "mk_entry name ts sq hlen data =
     \<lparr> ent_hdr = \<lparr> h_Name = name, h_Timestamp = ts, h_Sequence = sq, h_HeaderSize = hlen,
         h_PayloadSize = length data - hlen \<rparr>, ent_body = bytes_reader data \<rparr>"

definition demo_archive :: "arc_entry list" where
  "demo_archive = [mk_entry stateEntry 5 0 0 ''{}'', mk_entry ''a.b'' 6 3 0 ''xy'', mk_entry ''a.c'' 7 9 1 ''hz'',
     mk_entry [] 0 0 0 []]"

definition demo_items :: "Item list" where
  "demo_items = [StateItem \<lparr> s_Ts = 5, s_State = zeroStreamState\<lparr> sst_FirstSeq := 1 \<rparr> \<rparr>,
     MessageItem \<lparr> m_Subject = ''a.b'', m_Seq = 3, m_Ts = 6, m_HdrSize = 0, m_PayloadSize = 2, m_Body = bytes_reader ''xy'' \<rparr>,
     MessageItem \<lparr> m_Subject = ''a.c'', m_Seq = 9, m_Ts = 7, m_HdrSize = 1, m_PayloadSize = 1, m_Body = bytes_reader ''hz'' \<rparr>,
     End]"

lemmas demo_defs = demo_lib_def no_lib_def demo_archive_def demo_items_def mk_entry_def bytes_reader_def
  stateEntry_def zeroStreamState_def

lemma demo_wf: "wf_backup demo_lib demo_archive demo_items"
proof -
  have "\<exists>d. decode_all demo_lib (NewDecoder (arc_open demo_archive ''EOF'')) = (demo_items, IoEOF, d)"
    by (simp add: demo_defs decode_all.simps Next_def next_item_def arc_Next_def arc_open_def NewDecoder_def
        decodeState_def decodeMessage_def ReadAll_def Let_def)
  then show ?thesis by (simp add: decoder_reaches_end)
qed

text \<open>
  C2. The decoder accepts exactly the complete backups: decoding an archive runs to \<open>io.EOF\<close>
  with the items \<open>its\<close> if and only if the archive is a valid \<open>state.json\<close>, then exactly
  \<open>consumer_count\<close> consumer entries with configuration and state, then messages with strictly
  ascending sequences from \<open>first_seq\<close> on, none of them cut short, then the sentinel; and then
  \<open>its\<close> are those entries, decoded, in order, with \<open>End\<close> once and last.
\<close>

theorem decoder_accepts_iff:
  "(\<exists>d. decode_all x (NewDecoder (arc_open es end_err)) = (its, IoEOF, d)) \<longleftrightarrow> wf_backup x es its"
  by (rule decoder_reaches_end)

text \<open>
  The first error of a decoder is final: once \<open>Next\<close> has returned an error (\<open>io.EOF\<close>
  after the sentinel included), every later call returns the same error and changes nothing.
\<close>

theorem decoder_error_sticky:
  assumes "Next x d = (Inl e, d')" shows "((\<lambda>(_ :: berr + Item, s). Next x s) ^^ n) (Inl e, d') = (Inl e, d')"
  using Next_error_sticky [OF assms] by (induction n) simp_all

theorem decoder_error_sticky_witness:
  "((\<lambda>(_ :: berr + Item, s). Next no_lib s) ^^ 2) (Next no_lib (NewDecoder (arc_open [] ''EOF''))) =
     Next no_lib (NewDecoder (arc_open [] ''EOF''))"
proof -
  have *: "Next no_lib (NewDecoder (arc_open [] ''EOF'')) =
      (Inl (NotV2Backup ''EOF''), (NewDecoder (arc_open [] ''EOF''))\<lparr> d_err := Some (NotV2Backup ''EOF'') \<rparr>)"
    by (simp add: Next_def next_item_def arc_Next_def arc_open_def NewDecoder_def)
  show ?thesis using decoder_error_sticky [OF *, of 2] unfolding * .
qed

end
