(* ===== verification/Backup_SubjectState.thy ===== *)
theory Backup_SubjectState
  imports Prelude "HOL-Library.AList" "HOL-Library.Multiset"
begin

text \<open>
  \<open>src/backup/subjectstate.go\<close>: the hashed subject counter, and the two per-subject states a
  two-pass edit holds behind the interface \<open>subjectState\<close>. The interface is the locale
  \<open>subject_state\<close>: its law says which observed messages \<open>Keeps\<close> answers for and that
  \<open>Resolve\<close> totals exactly those. Both implementations are interpretations of it.
  A Go map is an association list without duplicate keys; a range over it takes its order.
\<close>

subsection \<open>subjectCounter\<close>

text \<open>\<open>maphash.String\<close> under the counter's seed is the parameter \<open>hash\<close>.\<close>

record subjectCounter =
  ctr_seen :: "u64 list"

definition newSubjectCounter :: subjectCounter where
  "newSubjectCounter = \<lparr> ctr_seen = [] \<rparr>"

definition counter_add :: "(string \<Rightarrow> u64) \<Rightarrow> string \<Rightarrow> subjectCounter \<Rightarrow> subjectCounter" where
  "counter_add hash subject c = c\<lparr> ctr_seen := List.insert (hash subject) (ctr_seen c) \<rparr>"

definition counter_count :: "subjectCounter \<Rightarrow> nat" where
  "counter_count c = length (ctr_seen c)"

lemma counter_run:
  "distinct (ctr_seen (fold (counter_add hash) ss newSubjectCounter)) \<and>
   set (ctr_seen (fold (counter_add hash) ss newSubjectCounter)) = hash ` set ss"
  by (induction ss rule: rev_induct) (auto simp: newSubjectCounter_def counter_add_def)

lemma counter_count_run:
  "counter_count (fold (counter_add hash) ss newSubjectCounter) = card (hash ` set ss)"
  using counter_run [of hash ss] by (simp add: counter_count_def distinct_card [symmetric])

subsection \<open>resolved\<close>

record resolved =
  res_msgs :: u64
  res_bytes :: u64
  res_subjects :: u64
  res_firstSeq :: u64

definition zeroResolved :: resolved where
  "zeroResolved = \<lparr> res_msgs = 0, res_bytes = 0, res_subjects = 0, res_firstSeq = 0 \<rparr>"

definition resolved_add :: "u64 \<Rightarrow> u64 \<Rightarrow> resolved \<Rightarrow> resolved" where
  "resolved_add seq sz r =
     r\<lparr> res_msgs := res_msgs r + 1,
        res_bytes := res_bytes r + sz,
        res_firstSeq := (if res_firstSeq r = 0 \<or> seq < res_firstSeq r then seq else res_firstSeq r) \<rparr>"

subsection \<open>kvCompactState\<close>

record kvSlot =
  slot_seq :: u64
  slot_size :: u64
  slot_tomb :: bool

record kvCompactState =
  kv_slots :: "(string \<times> kvSlot) list"
  kv_keyB :: u64

definition kv_new :: kvCompactState where
  "kv_new = \<lparr> kv_slots = [], kv_keyB = 0 \<rparr>"

definition kv_Observe :: "string \<Rightarrow> u64 \<Rightarrow> u64 \<Rightarrow> bool \<Rightarrow> kvCompactState \<Rightarrow> kvCompactState" where
  "kv_Observe subject seq sz tomb s =
     (let s1 = (if map_of (kv_slots s) subject = None
                then s\<lparr> kv_keyB := kv_keyB s + of_nat (length subject) \<rparr> else s)
      in s1\<lparr> kv_slots := AList.update subject
               \<lparr> slot_seq = seq, slot_size = sz, slot_tomb = tomb \<rparr> (kv_slots s1) \<rparr>)"

definition kv_Resolve :: "kvCompactState \<Rightarrow> resolved" where
  "kv_Resolve s =
     fold (\<lambda>(_, slot) res.
             if \<not> slot_tomb slot
             then (let r = resolved_add (slot_seq slot) (slot_size slot) res
                   in r\<lparr> res_subjects := res_subjects r + 1 \<rparr>)
             else res)
       (kv_slots s) zeroResolved"

definition kv_Keeps :: "kvCompactState \<Rightarrow> string \<Rightarrow> u64 \<Rightarrow> bool" where
  "kv_Keeps s subject seq =
     (case map_of (kv_slots s) subject of
        None \<Rightarrow> False
      | Some slot \<Rightarrow> \<not> slot_tomb slot \<and> slot_seq slot = seq)"

text \<open>\<open>unsafe.Sizeof(kvSlot{})\<close> is 24 and \<open>unsafe.Sizeof(ringEntry{})\<close> 16 on a 64-bit platform.\<close>

definition kv_Stats :: "kvCompactState \<Rightarrow> u64 \<times> u64" where
  "kv_Stats s = (of_nat (length (kv_slots s)), kv_keyB s + of_nat (length (kv_slots s)) * 24)"

subsection \<open>lastPerSubjectState\<close>

record ringEntry =
  re_seq :: u64
  re_size :: u64

record ring =
  ring_entries :: "ringEntry list"
  ring_next :: nat

definition zeroRing :: ring where
  "zeroRing = \<lparr> ring_entries = [], ring_next = 0 \<rparr>"

record lastPerSubjectState =
  lps_n :: nat
  lps_rings :: "(string \<times> ring) list"
  lps_keyB :: u64
  lps_slots :: u64

definition lps_new :: "nat \<Rightarrow> lastPerSubjectState" where
  "lps_new n = \<lparr> lps_n = n, lps_rings = [], lps_keyB = 0, lps_slots = 0 \<rparr>"

definition lps_Observe :: "string \<Rightarrow> u64 \<Rightarrow> u64 \<Rightarrow> bool \<Rightarrow> lastPerSubjectState \<Rightarrow> lastPerSubjectState" where
  "lps_Observe subject seq sz tomb s =
     (let (r, seen) = (case map_of (lps_rings s) subject of
                         None \<Rightarrow> (zeroRing, False) | Some r \<Rightarrow> (r, True));
          s1 = (if \<not> seen then s\<lparr> lps_keyB := lps_keyB s + of_nat (length subject) \<rparr> else s);
          e = \<lparr> re_seq = seq, re_size = sz \<rparr>;
          (r1, s2) =
            (if length (ring_entries r) < lps_n s1
             then (r\<lparr> ring_entries := ring_entries r @ [e] \<rparr>, s1\<lparr> lps_slots := lps_slots s1 + 1 \<rparr>)
             else (r\<lparr> ring_entries := (ring_entries r)[ring_next r := e],
                     ring_next := (ring_next r + 1) mod lps_n s1 \<rparr>, s1))
      in s2\<lparr> lps_rings := AList.update subject r1 (lps_rings s2) \<rparr>)"

definition lps_Resolve :: "lastPerSubjectState \<Rightarrow> resolved" where
  "lps_Resolve s =
     (fold (\<lambda>(_, r) res. fold (\<lambda>e. resolved_add (re_seq e) (re_size e)) (ring_entries r) res)
        (lps_rings s) zeroResolved)
     \<lparr> res_subjects := of_nat (length (lps_rings s)) \<rparr>"

definition lps_Keeps :: "lastPerSubjectState \<Rightarrow> string \<Rightarrow> u64 \<Rightarrow> bool" where
  "lps_Keeps s subject seq =
     (case map_of (lps_rings s) subject of
        None \<Rightarrow> False
      | Some r \<Rightarrow> list_ex (\<lambda>e. re_seq e = seq) (ring_entries r))"

definition lps_Stats :: "lastPerSubjectState \<Rightarrow> u64 \<times> u64" where
  "lps_Stats s = (of_nat (length (lps_rings s)), lps_keyB s + lps_slots s * 16)"

subsection \<open>The interface\<close>

datatype subjectState = KVState kvCompactState | LPSState lastPerSubjectState

fun Observe :: "string \<Rightarrow> u64 \<Rightarrow> u64 \<Rightarrow> bool \<Rightarrow> subjectState \<Rightarrow> subjectState" where
  "Observe subject seq sz tomb (KVState s) = KVState (kv_Observe subject seq sz tomb s)"
| "Observe subject seq sz tomb (LPSState s) = LPSState (lps_Observe subject seq sz tomb s)"

fun Resolve :: "subjectState \<Rightarrow> resolved" where
  "Resolve (KVState s) = kv_Resolve s"
| "Resolve (LPSState s) = lps_Resolve s"

fun Keeps :: "subjectState \<Rightarrow> string \<Rightarrow> u64 \<Rightarrow> bool" where
  "Keeps (KVState s) = kv_Keeps s"
| "Keeps (LPSState s) = lps_Keeps s"

fun Stats :: "subjectState \<Rightarrow> u64 \<times> u64" where
  "Stats (KVState s) = kv_Stats s"
| "Stats (LPSState s) = lps_Stats s"

text \<open>An observation, and a run of them.\<close>

record obs =
  ob_subject :: string
  ob_seq :: u64
  ob_size :: u64
  ob_tomb :: bool

text \<open>
  The law of the interface. \<open>sel\<close> says which observations of a history survive, as a list in
  the order of the history: \<open>Keeps\<close> answers for exactly those, and \<open>Resolve\<close> counts them, adds
  their sizes, counts their subjects and finds their lowest sequence.
\<close>

definition totals_of :: "obs list \<Rightarrow> resolved \<Rightarrow> bool" where
  "totals_of ks r \<longleftrightarrow>
     res_msgs r = of_nat (length ks) \<and> res_bytes r = sum_list (map ob_size ks) \<and>
     res_subjects r = of_nat (card (ob_subject ` set ks)) \<and>
     res_firstSeq r = (case ks of [] \<Rightarrow> 0 | k # _ \<Rightarrow> ob_seq k)"

definition ascending_obs :: "obs list \<Rightarrow> bool" where
  "ascending_obs bs \<longleftrightarrow> sorted_wrt (<) (0 # map ob_seq bs)"

definition observe_all ::
  "(string \<Rightarrow> u64 \<Rightarrow> u64 \<Rightarrow> bool \<Rightarrow> 's \<Rightarrow> 's) \<Rightarrow> obs list \<Rightarrow> 's \<Rightarrow> 's" where
  "observe_all f bs s = fold (\<lambda>b. f (ob_subject b) (ob_seq b) (ob_size b) (ob_tomb b)) bs s"

lemma observe_all_Nil [simp]: "observe_all f [] s = s"
  by (simp add: observe_all_def)

lemma observe_all_snoc [simp]:
  "observe_all f (bs @ [b]) s = f (ob_subject b) (ob_seq b) (ob_size b) (ob_tomb b) (observe_all f bs s)"
  by (simp add: observe_all_def)

locale subject_state =
  fixes init :: 's
    and observe :: "string \<Rightarrow> u64 \<Rightarrow> u64 \<Rightarrow> bool \<Rightarrow> 's \<Rightarrow> 's"
    and resolve :: "'s \<Rightarrow> resolved"
    and keeps :: "'s \<Rightarrow> string \<Rightarrow> u64 \<Rightarrow> bool"
    and sel :: "obs list \<Rightarrow> obs list"
  assumes keeps_sel: "ascending_obs bs \<Longrightarrow> b \<in> set bs \<Longrightarrow>
      keeps (observe_all observe bs init) (ob_subject b) (ob_seq b) \<longleftrightarrow> b \<in> set (sel bs)"
    and keeps_observed: "ascending_obs bs \<Longrightarrow> keeps (observe_all observe bs init) subj sq \<Longrightarrow>
      \<exists>b \<in> set bs. ob_subject b = subj \<and> ob_seq b = sq"
    and resolve_sel: "ascending_obs bs \<Longrightarrow>
      totals_of (sel bs) (resolve (observe_all observe bs init))"
    and sel_filter: "ascending_obs bs \<Longrightarrow> \<exists>P. sel bs = filter P bs"
begin

text \<open>A second pass over the observed messages keeps what was resolved, in order.\<close>

lemma second_pass:
  assumes "ascending_obs bs"
  shows "filter (\<lambda>b. keeps (observe_all observe bs init) (ob_subject b) (ob_seq b)) bs = sel bs"
proof -
  obtain P where P: "sel bs = filter P bs" using sel_filter [OF assms] by blast
  have "filter (\<lambda>b. keeps (observe_all observe bs init) (ob_subject b) (ob_seq b)) bs = filter P bs"
    by (rule filter_cong [OF refl]) (simp add: keeps_sel [OF assms] P)
  with P show ?thesis by simp
qed

lemma second_pass_totals:
  assumes "ascending_obs bs"
  shows "totals_of (filter (\<lambda>b. keeps (observe_all observe bs init) (ob_subject b) (ob_seq b)) bs)
           (resolve (observe_all observe bs init))"
  using second_pass [OF assms] resolve_sel [OF assms] by simp

end

subsection \<open>Histories\<close>

definition hist :: "string \<Rightarrow> obs list \<Rightarrow> obs list" where
  "hist subj bs = filter (\<lambda>b. ob_subject b = subj) bs"

definition kv_sel :: "obs list \<Rightarrow> obs list" where
  "kv_sel bs = filter (\<lambda>b. \<not> ob_tomb b \<and> last (hist (ob_subject b) bs) = b) bs"

definition lps_sel :: "nat \<Rightarrow> obs list \<Rightarrow> obs list" where
  "lps_sel n bs = filter (\<lambda>b. b \<in> set (last_n n (hist (ob_subject b) bs))) bs"

lemma hist_Nil [simp]: "hist subj [] = []"
  by (simp add: hist_def)

lemma hist_snoc [simp]:
  "hist subj (bs @ [b]) = (if ob_subject b = subj then hist subj bs @ [b] else hist subj bs)"
  by (simp add: hist_def)

lemma in_hist_iff: "b \<in> set (hist subj bs) \<longleftrightarrow> b \<in> set bs \<and> ob_subject b = subj"
  by (auto simp: hist_def)

lemma hist_nonempty: "b \<in> set bs \<Longrightarrow> hist (ob_subject b) bs \<noteq> []"
  using in_hist_iff [of b "ob_subject b" bs] by auto

lemma last_hist: "hist subj bs \<noteq> [] \<Longrightarrow> last (hist subj bs) \<in> set bs \<and> ob_subject (last (hist subj bs)) = subj"
  using in_hist_iff last_in_set by blast

lemma ascending_snoc:
  "ascending_obs (bs @ [b]) \<longleftrightarrow> ascending_obs bs \<and> 0 < ob_seq b \<and> (\<forall>b' \<in> set bs. ob_seq b' < ob_seq b)"
  by (auto simp: ascending_obs_def sorted_wrt_append)

lemma ascending_pos: "ascending_obs bs \<Longrightarrow> b \<in> set bs \<Longrightarrow> 0 < ob_seq b"
  by (auto simp: ascending_obs_def)

lemma sorted_lt_map_distinct: "sorted_wrt (<) (map (f :: 'a \<Rightarrow> 'b :: linorder) xs) \<Longrightarrow> distinct xs"
  by (induction xs) auto

lemma ascending_inj: "ascending_obs bs \<Longrightarrow> inj_on ob_seq (set bs)"
  by (simp add: ascending_obs_def strict_sorted_iff distinct_map)

lemma ascending_distinct: "ascending_obs bs \<Longrightarrow> distinct bs"
  using sorted_lt_map_distinct [of ob_seq bs] by (simp add: ascending_obs_def)

lemma ascending_filter: "ascending_obs bs \<Longrightarrow> ascending_obs (filter P bs)"
  by (induction bs rule: rev_induct) (auto simp: ascending_snoc)

subsection \<open>Totals do not depend on the order a map is ranged over\<close>

text \<open>What a run of \<open>resolved.add\<close> comes to.\<close>

definition add_all :: "(u64 \<times> u64) list \<Rightarrow> resolved \<Rightarrow> resolved" where
  "add_all ps r = fold (\<lambda>(sq, sz). resolved_add sq sz) ps r"

lemma add_all_totals:
  assumes "\<forall>p \<in> set ps. fst p \<noteq> 0"
  shows "res_msgs (add_all ps zeroResolved) = of_nat (length ps)"
    and "res_bytes (add_all ps zeroResolved) = sum_list (map snd ps)"
    and "res_firstSeq (add_all ps zeroResolved) = (if ps = [] then 0 else Min (fst ` set ps))"
  using assms
proof (induction ps rule: rev_induct)
  case Nil
  case 1 show ?case by (simp add: add_all_def zeroResolved_def)
  case 2 show ?case by (simp add: add_all_def zeroResolved_def)
  case 3 show ?case by (simp add: add_all_def zeroResolved_def)
next
  case (snoc p ps)
  obtain sq sz where p: "p = (sq, sz)" by (cases p)
  have unfold: "add_all (ps @ [(sq, sz)]) zeroResolved = resolved_add sq sz (add_all ps zeroResolved)"
    by (simp add: add_all_def)
  case 1 then show ?case using snoc.IH(1) by (simp add: unfold p resolved_add_def)
  case 2 then show ?case using snoc.IH(2) by (simp add: unfold p resolved_add_def add.commute)
  case 3
  then have nz: "\<forall>p \<in> set ps. fst p \<noteq> 0" by simp
  show ?case
  proof (cases "ps = []")
    case True
    then show ?thesis by (simp add: add_all_def p zeroResolved_def resolved_add_def)
  next
    case False
    define m where "m = Min (fst ` set ps)"
    have "res_firstSeq (add_all ps zeroResolved) = m" using snoc.IH(3) [OF nz] False by (simp add: m_def)
    moreover have "m \<noteq> 0" using False nz Min_in [of "fst ` set ps"] by (fastforce simp: m_def)
    moreover have "Min (fst ` set (ps @ [p])) = min sq m" using False by (simp add: p m_def)
    ultimately show ?thesis by (auto simp: unfold p resolved_add_def min_def)
  qed
qed

lemma totals_ofI:
  assumes asc: "ascending_obs ks"
    and eq: "mset ps = mset (map (\<lambda>b. (ob_seq b, ob_size b)) ks)"
    and subj: "res_subjects r = of_nat (card (ob_subject ` set ks))"
    and tot: "res_msgs r = res_msgs (add_all ps zeroResolved)"
      "res_bytes r = res_bytes (add_all ps zeroResolved)"
      "res_firstSeq r = res_firstSeq (add_all ps zeroResolved)"
  shows "totals_of ks r"
proof -
  have set_eq: "set ps = (\<lambda>b. (ob_seq b, ob_size b)) ` set ks"
    using arg_cong [OF eq, of set_mset] by simp
  have nz: "\<forall>p \<in> set ps. fst p \<noteq> 0" using ascending_pos [OF asc] by (fastforce simp: set_eq)
  have len: "length ps = length ks" using arg_cong [OF eq, of size] by simp
  have sum: "sum_list (map snd ps) = sum_list (map ob_size ks)"
    using arg_cong [OF eq, of "\<lambda>m. sum_mset (image_mset snd m)"]
    by (simp flip: sum_mset_sum_list mset_map add: o_def)
  have "(if ps = [] then 0 else Min (fst ` set ps)) = (case ks of [] \<Rightarrow> 0 | k # _ \<Rightarrow> ob_seq k)"
  proof (cases ks)
    case Nil
    then show ?thesis using len by simp
  next
    case (Cons k ks')
    have "Min (fst ` set ps) = ob_seq k"
      using asc unfolding set_eq Cons by (auto simp: ascending_obs_def image_image intro!: Min_eqI)
    then show ?thesis using len Cons by auto
  qed
  with add_all_totals [OF nz] len sum subj tot show ?thesis
    by (simp add: totals_of_def)
qed

subsection \<open>kvCompactState\<close>

definition slot_of :: "obs \<Rightarrow> kvSlot" where
  "slot_of b = \<lparr> slot_seq = ob_seq b, slot_size = ob_size b, slot_tomb = ob_tomb b \<rparr>"

lemma kv_run_distinct: "distinct (map fst (kv_slots (observe_all kv_Observe bs kv_new)))"
  by (induction bs rule: rev_induct) (auto simp: kv_new_def kv_Observe_def Let_def distinct_update)

lemma kv_run_slots:
  "map_of (kv_slots (observe_all kv_Observe bs kv_new)) subj =
     (if hist subj bs = [] then None else Some (slot_of (last (hist subj bs))))"
  by (induction bs rule: rev_induct)
    (auto simp: kv_new_def kv_Observe_def Let_def update_conv' slot_of_def)

definition kv_live :: "kvCompactState \<Rightarrow> (string \<times> kvSlot) list" where
  "kv_live s = filter (\<lambda>p. \<not> slot_tomb (snd p)) (kv_slots s)"

lemma kv_Resolve_fold:
  fixes sl :: "(string \<times> kvSlot) list"
  defines "r \<equiv> fold (\<lambda>(_, slot) res.
             if \<not> slot_tomb slot
             then (let r = resolved_add (slot_seq slot) (slot_size slot) res
                   in r\<lparr> res_subjects := res_subjects r + 1 \<rparr>)
             else res) sl zeroResolved"
    and "live \<equiv> filter (\<lambda>p. \<not> slot_tomb (snd p)) sl"
  defines "a \<equiv> add_all (map (\<lambda>p. (slot_seq (snd p), slot_size (snd p))) live) zeroResolved"
  shows "res_msgs r = res_msgs a \<and> res_bytes r = res_bytes a \<and> res_firstSeq r = res_firstSeq a
    \<and> res_subjects r = of_nat (length live)"
  unfolding r_def a_def live_def
  by (induction sl rule: rev_induct)
    (auto simp: add_all_def Let_def resolved_add_def zeroResolved_def split: prod.splits)

lemma kv_Resolve_add_all:
  defines "r \<equiv> \<lambda>s. add_all (map (\<lambda>p. (slot_seq (snd p), slot_size (snd p))) (kv_live s)) zeroResolved"
  shows "res_msgs (kv_Resolve s) = res_msgs (r s)" "res_bytes (kv_Resolve s) = res_bytes (r s)"
    "res_firstSeq (kv_Resolve s) = res_firstSeq (r s)"
    "res_subjects (kv_Resolve s) = of_nat (length (kv_live s))"
  using kv_Resolve_fold [of "kv_slots s"] by (simp_all only: kv_Resolve_def kv_live_def r_def)

lemma kv_sel_iff:
  "b \<in> set (kv_sel bs) \<longleftrightarrow> b \<in> set bs \<and> \<not> ob_tomb b \<and> last (hist (ob_subject b) bs) = b"
  by (simp add: kv_sel_def)

lemma kv_sel_inj_subject: "inj_on ob_subject (set (kv_sel bs))"
proof (rule inj_onI)
  fix x y
  assume "x \<in> set (kv_sel bs)" "y \<in> set (kv_sel bs)" and eq: "ob_subject x = ob_subject y"
  then have "last (hist (ob_subject x) bs) = x" "last (hist (ob_subject y) bs) = y"
    by (simp_all add: kv_sel_iff)
  with eq show "x = y" by metis
qed

lemma kv_sel_distinct: "distinct bs \<Longrightarrow> distinct (kv_sel bs)"
  by (simp add: kv_sel_def)

text \<open>The live slots are the selected observations, in some order.\<close>

lemma kv_live_mset:
  assumes "ascending_obs bs"
  defines "live \<equiv> kv_live (observe_all kv_Observe bs kv_new)"
  shows "mset (map (\<lambda>p. (fst p, slot_seq (snd p), slot_size (snd p))) live)
       = mset (map (\<lambda>b. (ob_subject b, ob_seq b, ob_size b)) (kv_sel bs))"
    (is "mset (map ?f live) = mset (map ?g _)")
proof (rule set_eq_iff_mset_eq_distinct [THEN iffD1])
  let ?sl = "kv_slots (observe_all kv_Observe bs kv_new)"
  have dist: "distinct (map fst ?sl)" by (rule kv_run_distinct)
  have "distinct (map fst live)"
    unfolding live_def kv_live_def by (rule distinct_map_filter [OF dist])
  then show "distinct (map ?f live)" by (intro distinct_map_via [where g = fst]) simp
  have "distinct (map ob_seq (kv_sel bs))"
    using ascending_filter [OF assms(1)]
    by (simp add: kv_sel_def ascending_obs_def strict_sorted_iff)
  then show "distinct (map ?g (kv_sel bs))"
    by (intro distinct_map_via [where g = "\<lambda>x. fst (snd x)"]) simp
  show "set (map ?f live) = set (map ?g (kv_sel bs))"
  proof (intro set_eqI iffI)
    fix x assume "x \<in> set (map ?f live)"
    then obtain k sl where k: "(k, sl) \<in> set ?sl" "\<not> slot_tomb sl" "x = (k, slot_seq sl, slot_size sl)"
      by (auto simp: live_def kv_live_def)
    from k(1) dist have "map_of ?sl k = Some sl" by simp
    then have h: "hist k bs \<noteq> []" "sl = slot_of (last (hist k bs))"
      by (auto simp: kv_run_slots split: if_splits)
    let ?b = "last (hist k bs)"
    have "?b \<in> set (kv_sel bs)" "x = ?g ?b"
      using last_hist [OF h(1)] k h(2) by (simp_all add: kv_sel_iff slot_of_def)
    then show "x \<in> set (map ?g (kv_sel bs))" by simp
  next
    fix x assume "x \<in> set (map ?g (kv_sel bs))"
    then obtain b where b: "b \<in> set bs" "\<not> ob_tomb b" "last (hist (ob_subject b) bs) = b" "x = ?g b"
      by (auto simp: kv_sel_iff)
    have "hist (ob_subject b) bs \<noteq> []" by (rule hist_nonempty [OF b(1)])
    with b have "map_of ?sl (ob_subject b) = Some (slot_of b)" by (simp add: kv_run_slots)
    then have "(ob_subject b, slot_of b) \<in> set live"
      using b(2) by (simp add: live_def kv_live_def map_of_SomeD slot_of_def)
    then show "x \<in> set (map ?f live)" using b(4) by (force simp: slot_of_def)
  qed
qed

lemma kv_resolve_totals:
  assumes "ascending_obs bs"
  shows "totals_of (kv_sel bs) (kv_Resolve (observe_all kv_Observe bs kv_new))"
proof (rule totals_ofI)
  let ?live = "kv_live (observe_all kv_Observe bs kv_new)"
  show "ascending_obs (kv_sel bs)" unfolding kv_sel_def by (rule ascending_filter [OF assms])
  from arg_cong [OF kv_live_mset [OF assms], of "image_mset snd"]
  show "mset (map (\<lambda>p. (slot_seq (snd p), slot_size (snd p))) ?live) =
      mset (map (\<lambda>b. (ob_seq b, ob_size b)) (kv_sel bs))"
    by (simp flip: mset_map add: o_def)
  have "length ?live = length (kv_sel bs)"
    using arg_cong [OF kv_live_mset [OF assms], of size] by simp
  moreover have "card (ob_subject ` set (kv_sel bs)) = length (kv_sel bs)"
    using ascending_distinct [OF assms] by (simp add: card_image [OF kv_sel_inj_subject] distinct_card kv_sel_distinct)
  ultimately show "res_subjects (kv_Resolve (observe_all kv_Observe bs kv_new)) =
      of_nat (card (ob_subject ` set (kv_sel bs)))"
    by (simp add: kv_Resolve_add_all)
qed (simp_all add: kv_Resolve_add_all)

interpretation kv: subject_state kv_new kv_Observe kv_Resolve kv_Keeps kv_sel
proof
  fix bs b
  assume asc: "ascending_obs bs" and b: "b \<in> set bs"
  have ne: "hist (ob_subject b) bs \<noteq> []" by (rule hist_nonempty [OF b])
  have "ob_seq (last (hist (ob_subject b) bs)) = ob_seq b \<longleftrightarrow> last (hist (ob_subject b) bs) = b"
    using inj_on_eq_iff [OF ascending_inj [OF asc]] b last_hist [OF ne] by blast
  then show "kv_Keeps (observe_all kv_Observe bs kv_new) (ob_subject b) (ob_seq b) \<longleftrightarrow> b \<in> set (kv_sel bs)"
    using b ne by (simp add: kv_Keeps_def kv_run_slots slot_of_def kv_sel_iff) metis
next
  fix bs subj sq
  assume "kv_Keeps (observe_all kv_Observe bs kv_new) subj sq"
  then have "hist subj bs \<noteq> []" "ob_seq (last (hist subj bs)) = sq"
    by (auto simp: kv_Keeps_def kv_run_slots slot_of_def split: if_splits)
  then show "\<exists>b \<in> set bs. ob_subject b = subj \<and> ob_seq b = sq" using last_hist by blast
next
  show "\<exists>P. kv_sel bs = filter P bs" for bs by (auto simp: kv_sel_def)
qed (rule kv_resolve_totals)

subsection \<open>lastPerSubjectState\<close>

text \<open>A ring holds the newest \<open>n\<close> entries of a history, the oldest at the cursor.\<close>

definition ring_ok :: "nat \<Rightarrow> ringEntry list \<Rightarrow> ring \<Rightarrow> bool" where
  "ring_ok n h r \<longleftrightarrow>
     length (ring_entries r) = min n (length h) \<and> ring_next r < n \<and>
     (length h < n \<longrightarrow> ring_next r = 0) \<and>
     drop (ring_next r) (ring_entries r) @ take (ring_next r) (ring_entries r) = last_n n h"

definition ring_push :: "nat \<Rightarrow> ringEntry \<Rightarrow> ring \<Rightarrow> ring" where
  "ring_push n e r =
     (if length (ring_entries r) < n then r\<lparr> ring_entries := ring_entries r @ [e] \<rparr>
      else r\<lparr> ring_entries := (ring_entries r)[ring_next r := e], ring_next := (ring_next r + 1) mod n \<rparr>)"

lemma ring_ok_zero: "0 < n \<Longrightarrow> ring_ok n [] zeroRing"
  by (simp add: ring_ok_def zeroRing_def last_n_def)

lemma ring_ok_mset:
  assumes "ring_ok n h r" shows "mset (ring_entries r) = mset (last_n n h)"
proof -
  have "mset (last_n n h) = mset (drop (ring_next r) (ring_entries r) @ take (ring_next r) (ring_entries r))"
    using assms by (simp add: ring_ok_def)
  also have "\<dots> = mset (take (ring_next r) (ring_entries r) @ drop (ring_next r) (ring_entries r))"
    by (simp add: union_commute del: append_take_drop_id)
  finally show ?thesis by simp
qed

lemma ring_ok_push:
  assumes "ring_ok n h r" shows "ring_ok n (h @ [e]) (ring_push n e r)"
proof (cases "length h < n")
  case True
  from assms True have nx: "ring_next r = 0" and n: "0 < n" by (simp_all add: ring_ok_def)
  have "drop (ring_next r) (ring_entries r) @ take (ring_next r) (ring_entries r) = last_n n h"
    using assms by (simp add: ring_ok_def)
  then have "ring_entries r = h" using True by (simp add: nx last_n_all)
  with True nx n show ?thesis by (simp add: ring_ok_def ring_push_def last_n_all)
next
  case False
  let ?E = "ring_entries r" and ?k = "ring_next r"
  from False assms have len: "length ?E = n" and k: "?k < n" by (auto simp: ring_ok_def)
  have rot: "last_n n (h @ [e]) = tl (drop ?k ?E @ take ?k ?E) @ [e]"
    using assms False k by (simp add: ring_ok_def last_n_snoc_full)
  have tl: "tl (drop ?k ?E @ take ?k ?E) = drop (Suc ?k) ?E @ take ?k ?E"
    using k len Cons_nth_drop_Suc [of ?k ?E] by (metis append_Cons list.sel(3))
  have "drop ((?k + 1) mod n) (?E[?k := e]) @ take ((?k + 1) mod n) (?E[?k := e]) = drop (Suc ?k) ?E @ take ?k ?E @ [e]"
  proof (cases "Suc ?k = n")
    case True
    then show ?thesis using len k by (simp add: list_update_append upd_conv_take_nth_drop)
  next
    case False
    then show ?thesis using len k by (simp add: drop_update_cancel take_Suc_conv_app_nth)
  qed
  then show ?thesis using False len k rot tl by (simp add: ring_ok_def ring_push_def)
qed

definition re_of :: "obs \<Rightarrow> ringEntry" where
  "re_of b = \<lparr> re_seq = ob_seq b, re_size = ob_size b \<rparr>"

lemma lps_Observe_rings:
  "lps_rings (lps_Observe subj sq sz tomb s) =
     AList.update subj
       (ring_push (lps_n s) \<lparr> re_seq = sq, re_size = sz \<rparr>
          (case map_of (lps_rings s) subj of None \<Rightarrow> zeroRing | Some r \<Rightarrow> r)) (lps_rings s)"
  "lps_n (lps_Observe subj sq sz tomb s) = lps_n s"
  by (auto simp: lps_Observe_def ring_push_def Let_def split: option.splits)

lemma lps_run_n [simp]: "lps_n (observe_all lps_Observe bs (lps_new n)) = n"
  by (induction bs rule: rev_induct) (simp_all add: lps_Observe_rings, simp add: lps_new_def)

lemma lps_run_distinct: "distinct (map fst (lps_rings (observe_all lps_Observe bs (lps_new n))))"
  by (induction bs rule: rev_induct) (simp_all add: lps_Observe_rings distinct_update, simp add: lps_new_def)

lemma lps_run_rings:
  assumes "0 < n"
  shows "case map_of (lps_rings (observe_all lps_Observe bs (lps_new n))) subj of
           None \<Rightarrow> hist subj bs = []
         | Some r \<Rightarrow> hist subj bs \<noteq> [] \<and> ring_ok n (map re_of (hist subj bs)) r"
proof (induction bs rule: rev_induct)
  case Nil
  show ?case by (simp add: lps_new_def)
next
  case (snoc b bs)
  let ?m = "map_of (lps_rings (observe_all lps_Observe bs (lps_new n)))"
  show ?case
  proof (cases "ob_subject b = subj")
    case False
    with snoc show ?thesis by (cases "?m subj") (simp_all add: lps_Observe_rings update_conv')
  next
    case True
    have "ring_ok n (map re_of (hist subj bs)) (case ?m subj of None \<Rightarrow> zeroRing | Some r \<Rightarrow> r)"
      using snoc ring_ok_zero [OF assms] by (cases "?m subj") auto
    from ring_ok_push [OF this, of "re_of b"] True show ?thesis
      by (simp add: lps_Observe_rings update_conv' re_of_def)
  qed
qed

definition lps_flat :: "lastPerSubjectState \<Rightarrow> (string \<times> u64 \<times> u64) list" where
  "lps_flat s = tagged (\<lambda>r. map (\<lambda>e. (re_seq e, re_size e)) (ring_entries r)) (lps_rings s)"

lemma lps_Resolve_fold:
  "fold (\<lambda>(_, r) res. fold (\<lambda>e. resolved_add (re_seq e) (re_size e)) (ring_entries r) res) al res =
     add_all (map snd (tagged (\<lambda>r. map (\<lambda>e. (re_seq e, re_size e)) (ring_entries r)) al)) res"
proof (induction al arbitrary: res)
  case Nil
  show ?case by (simp add: tagged_def add_all_def)
next
  case (Cons p al)
  then show ?case by (simp add: tagged_def add_all_def split_beta o_def fold_map)
qed

lemma lps_ring_set:
  assumes "0 < n" and "(k, r) \<in> set (lps_rings (observe_all lps_Observe bs (lps_new n)))"
  shows "mset (ring_entries r) = mset (map re_of (last_n n (hist k bs)))" and "hist k bs \<noteq> []"
proof -
  have "map_of (lps_rings (observe_all lps_Observe bs (lps_new n))) k = Some r"
    using assms(2) lps_run_distinct by simp
  with lps_run_rings [OF assms(1), where bs = bs and subj = k]
  have ok: "ring_ok n (map re_of (hist k bs)) r" and ne: "hist k bs \<noteq> []" by auto
  show "mset (ring_entries r) = mset (map re_of (last_n n (hist k bs)))"
    using ring_ok_mset [OF ok] by (simp add: last_n_map)
  show "hist k bs \<noteq> []" by (rule ne)
qed

lemma lps_ring_of:
  assumes "0 < n" and "hist k bs \<noteq> []"
  obtains r where "(k, r) \<in> set (lps_rings (observe_all lps_Observe bs (lps_new n)))"
    "map_of (lps_rings (observe_all lps_Observe bs (lps_new n))) k = Some r"
proof -
  let ?m = "map_of (lps_rings (observe_all lps_Observe bs (lps_new n)))"
  have "?m k \<noteq> None"
  proof
    assume "?m k = None"
    with lps_run_rings [OF assms(1), where bs = bs and subj = k] assms(2) show False by simp
  qed
  then obtain r where "?m k = Some r" by auto
  with that [OF map_of_SomeD] show thesis by blast
qed

lemma in_last_n_hist:
  "b \<in> set (last_n n (hist k bs)) \<Longrightarrow> b \<in> set bs \<and> ob_subject b = k"
  using subsetD [OF set_last_n, of b n "hist k bs"] by (simp add: in_hist_iff)

lemma lps_flat_mset:
  assumes asc: "ascending_obs bs" and n: "0 < n"
  shows "mset (lps_flat (observe_all lps_Observe bs (lps_new n))) =
    mset (map (\<lambda>b. (ob_subject b, ob_seq b, ob_size b)) (lps_sel n bs))" (is "mset ?flat = mset (map ?g _)")
proof (rule set_eq_iff_mset_eq_distinct [THEN iffD1])
  let ?rings = "lps_rings (observe_all lps_Observe bs (lps_new n))"
  have hist_dist: "distinct (map ob_seq (last_n n (hist k bs)))" for k
    using ascending_filter [OF asc, of "\<lambda>b. ob_subject b = k"]
    by (simp add: hist_def ascending_obs_def strict_sorted_iff last_n_def drop_map [symmetric])
  have "distinct (map (\<lambda>e. (re_seq e, re_size e)) (ring_entries r))" if "(k, r) \<in> set ?rings" for k r
  proof -
    have "mset (map re_seq (ring_entries r)) = mset (map ob_seq (last_n n (hist k bs)))"
      using arg_cong [OF lps_ring_set(1) [OF n that], of "image_mset re_seq"]
      by (simp flip: mset_map add: re_of_def o_def)
    then have "distinct (map re_seq (ring_entries r))" using hist_dist [of k] by (metis mset_eq_imp_distinct_iff)
    then show ?thesis by (intro distinct_map_via [where g = fst]) simp
  qed
  then show "distinct ?flat"
    unfolding lps_flat_def by (intro distinct_tagged lps_run_distinct) auto
  show "distinct (map ?g (lps_sel n bs))"
    using ascending_filter [OF asc] by (intro distinct_map_via [where g = "\<lambda>x. fst (snd x)"])
      (simp add: lps_sel_def ascending_obs_def strict_sorted_iff)
  show "set ?flat = set (map ?g (lps_sel n bs))"
  proof (intro set_eqI iffI)
    fix x assume x: "x \<in> set ?flat"
    obtain k p where xp: "x = (k, p)" by (cases x)
    with x obtain r where r: "(k, r) \<in> set ?rings" "p \<in> set (map (\<lambda>e. (re_seq e, re_size e)) (ring_entries r))"
      by (auto simp: lps_flat_def in_tagged_iff)
    then obtain e where e: "e \<in> set (ring_entries r)" "p = (re_seq e, re_size e)" by auto
    have "set (ring_entries r) = re_of ` set (last_n n (hist k bs))"
      using arg_cong [OF lps_ring_set(1) [OF n r(1)], of set_mset] by simp
    with e obtain b where b: "b \<in> set (last_n n (hist k bs))" "e = re_of b" by auto
    have "b \<in> set (lps_sel n bs)" "ob_subject b = k"
      using in_last_n_hist [OF b(1)] b(1) by (auto simp: lps_sel_def)
    then show "x \<in> set (map ?g (lps_sel n bs))" using xp e(2) b(2) by (auto simp: re_of_def)
  next
    fix x assume "x \<in> set (map ?g (lps_sel n bs))"
    then obtain b where b: "b \<in> set bs" "b \<in> set (last_n n (hist (ob_subject b) bs))" "x = ?g b"
      by (auto simp: lps_sel_def)
    obtain r where r: "(ob_subject b, r) \<in> set ?rings"
      using lps_ring_of [OF n hist_nonempty [OF b(1)]] by blast
    have "re_of b \<in> set (ring_entries r)"
      using arg_cong [OF lps_ring_set(1) [OF n r], of set_mset] b(2) by simp
    then have "(ob_seq b, ob_size b) \<in> set (map (\<lambda>e. (re_seq e, re_size e)) (ring_entries r))"
      by (force simp: re_of_def)
    with r show "x \<in> set ?flat" unfolding b(3) lps_flat_def in_tagged_iff by blast
  qed
qed

lemma lps_subjects:
  assumes n: "0 < n"
  shows "length (lps_rings (observe_all lps_Observe bs (lps_new n))) = card (ob_subject ` set (lps_sel n bs))"
proof -
  let ?rings = "lps_rings (observe_all lps_Observe bs (lps_new n))"
  have "fst ` set ?rings = ob_subject ` set (lps_sel n bs)"
  proof (intro set_eqI iffI)
    fix k assume "k \<in> fst ` set ?rings"
    then obtain r where "(k, r) \<in> set ?rings" by auto
    then have ne: "hist k bs \<noteq> []" by (rule lps_ring_set(2) [OF n])
    have "last (hist k bs) \<in> set (last_n n (hist k bs))" by (rule last_in_last_n [OF n ne])
    with last_hist [OF ne] show "k \<in> ob_subject ` set (lps_sel n bs)"
      by (auto simp: lps_sel_def image_iff intro!: bexI [of _ "last (hist k bs)"])
  next
    fix k assume "k \<in> ob_subject ` set (lps_sel n bs)"
    then obtain b where "b \<in> set bs" "k = ob_subject b" by (auto simp: lps_sel_def)
    then show "k \<in> fst ` set ?rings"
      using lps_ring_of [OF n hist_nonempty [of b bs]] by (metis fst_conv image_eqI)
  qed
  then show ?thesis using distinct_card [OF lps_run_distinct, of bs n] by simp
qed

lemma lps_resolve_totals:
  assumes "ascending_obs bs" and "0 < n"
  shows "totals_of (lps_sel n bs) (lps_Resolve (observe_all lps_Observe bs (lps_new n)))"
proof (rule totals_ofI)
  let ?flat = "lps_flat (observe_all lps_Observe bs (lps_new n))"
  show "ascending_obs (lps_sel n bs)" unfolding lps_sel_def by (rule ascending_filter [OF assms(1)])
  from arg_cong [OF lps_flat_mset [OF assms], of "image_mset snd"]
  show "mset (map snd ?flat) = mset (map (\<lambda>b. (ob_seq b, ob_size b)) (lps_sel n bs))"
    by (simp flip: mset_map add: o_def)
qed (simp_all add: lps_Resolve_def lps_Resolve_fold lps_flat_def lps_subjects [OF assms(2)])

interpretation lps: subject_state "lps_new (Suc k)" lps_Observe lps_Resolve lps_Keeps "lps_sel (Suc k)" for k
proof
  fix bs b
  assume asc: "ascending_obs bs" and b: "b \<in> set bs"
  obtain r where r: "(ob_subject b, r) \<in> set (lps_rings (observe_all lps_Observe bs (lps_new (Suc k))))"
    "map_of (lps_rings (observe_all lps_Observe bs (lps_new (Suc k)))) (ob_subject b) = Some r"
    using lps_ring_of [OF _ hist_nonempty [OF b]] by blast
  have "set (ring_entries r) = re_of ` set (last_n (Suc k) (hist (ob_subject b) bs))"
    using arg_cong [OF lps_ring_set(1) [OF _ r(1)], of set_mset] by simp
  moreover have "(\<exists>b' \<in> set (last_n (Suc k) (hist (ob_subject b) bs)). ob_seq b' = ob_seq b) \<longleftrightarrow>
      b \<in> set (last_n (Suc k) (hist (ob_subject b) bs))"
    using inj_onD [OF ascending_inj [OF asc] _ _ b] in_last_n_hist by blast
  ultimately show "lps_Keeps (observe_all lps_Observe bs (lps_new (Suc k))) (ob_subject b) (ob_seq b) \<longleftrightarrow>
      b \<in> set (lps_sel (Suc k) bs)"
    using b r(2) by (simp add: lps_Keeps_def list_ex_iff re_of_def lps_sel_def)
next
  fix bs subj sq
  assume "lps_Keeps (observe_all lps_Observe bs (lps_new (Suc k))) subj sq"
  then obtain r e where r: "map_of (lps_rings (observe_all lps_Observe bs (lps_new (Suc k)))) subj = Some r"
      "e \<in> set (ring_entries r)" "re_seq e = sq"
    by (auto simp: lps_Keeps_def list_ex_iff split: option.splits)
  have "set (ring_entries r) = re_of ` set (last_n (Suc k) (hist subj bs))"
    using arg_cong [OF lps_ring_set(1) [OF _ map_of_SomeD [OF r(1)]], of set_mset] by simp
  with r obtain b where b: "b \<in> set (last_n (Suc k) (hist subj bs))" "ob_seq b = sq"
    by (auto simp: re_of_def)
  from b(2) in_last_n_hist [OF b(1)] show "\<exists>b \<in> set bs. ob_subject b = subj \<and> ob_seq b = sq" by blast
next
  show "\<exists>P. lps_sel (Suc k) bs = filter P bs" for bs by (auto simp: lps_sel_def)
qed (rule lps_resolve_totals, simp_all)

subsection \<open>Both implementations behind the interface\<close>

lemma observe_all_KV: "observe_all Observe bs (KVState s) = KVState (observe_all kv_Observe bs s)"
  by (induction bs rule: rev_induct) simp_all

lemma observe_all_LPS: "observe_all Observe bs (LPSState s) = LPSState (observe_all lps_Observe bs s)"
  by (induction bs rule: rev_induct) simp_all

definition fresh_state :: "subjectState \<Rightarrow> bool" where
  "fresh_state st \<longleftrightarrow> st = KVState kv_new \<or> (\<exists>k. st = LPSState (lps_new (Suc k)))"

fun st_sel :: "subjectState \<Rightarrow> obs list \<Rightarrow> obs list" where
  "st_sel (KVState s) = kv_sel"
| "st_sel (LPSState s) = lps_sel (lps_n s)"

lemma second_pass_sel:
  "fresh_state st \<Longrightarrow> ascending_obs bs \<Longrightarrow>
     filter (\<lambda>b. Keeps (observe_all Observe bs st) (ob_subject b) (ob_seq b)) bs = st_sel st bs"
  by (auto simp: fresh_state_def observe_all_KV observe_all_LPS kv.second_pass lps.second_pass)
    (simp add: lps_new_def)

lemma second_pass_resolve:
  "fresh_state st \<Longrightarrow> ascending_obs bs \<Longrightarrow>
     totals_of (filter (\<lambda>b. Keeps (observe_all Observe bs st) (ob_subject b) (ob_seq b)) bs)
       (Resolve (observe_all Observe bs st))"
  by (auto simp: fresh_state_def observe_all_KV observe_all_LPS kv.second_pass_totals lps.second_pass_totals)

lemma Keeps_observed:
  "fresh_state st \<Longrightarrow> ascending_obs bs \<Longrightarrow> Keeps (observe_all Observe bs st) subj sq \<Longrightarrow>
     \<exists>b \<in> set bs. ob_subject b = subj \<and> ob_seq b = sq"
  by (auto simp: fresh_state_def observe_all_KV observe_all_LPS dest: kv.keeps_observed lps.keeps_observed)

text \<open>The newest \<open>n\<close> of an ascending history are those with fewer than \<open>n\<close> newer ones.\<close>

lemma in_last_n_iff:
  assumes "ascending_obs h" and "b \<in> set h"
  shows "b \<in> set (last_n n h) \<longleftrightarrow> length (filter (\<lambda>b'. ob_seq b < ob_seq b') h) < n"
proof -
  obtain xs ys where h: "h = xs @ b # ys" using assms(2) split_list by fastforce
  from assms(1) have s: "sorted_wrt (<) (map ob_seq (xs @ b # ys))" by (simp add: h ascending_obs_def)
  have "filter (\<lambda>b'. ob_seq b < ob_seq b') xs = []" "filter (\<lambda>b'. ob_seq b < ob_seq b') ys = ys"
    using s by (auto simp: sorted_wrt_append filter_empty_conv filter_id_conv order_less_not_sym)
  then have cnt: "length (filter (\<lambda>b'. ob_seq b < ob_seq b') h) = length ys" by (simp add: h)
  have "b \<in> set (last_n n h)" if "length ys < n"
    using that by (auto simp: h last_n_def drop_Cons' Suc_diff_le not_less split: if_splits)
  moreover have "b \<notin> set (last_n n h)" if "\<not> length ys < n"
  proof -
    have "set (last_n n h) \<subseteq> set ys"
      using that by (simp add: h last_n_def Suc_diff_le not_less set_drop_subset)
    moreover have "b \<notin> set ys" using s by (auto simp: sorted_wrt_append)
    ultimately show ?thesis by blast
  qed
  ultimately show ?thesis by (auto simp: cnt)
qed

lemma last_hist_iff:
  assumes "ascending_obs bs" and "b \<in> set bs"
  shows "last (hist (ob_subject b) bs) = b \<longleftrightarrow>
    (\<forall>b' \<in> set bs. ob_subject b' = ob_subject b \<longrightarrow> ob_seq b' \<le> ob_seq b)"
  using assms
proof (induction bs rule: rev_induct)
  case Nil
  then show ?case by simp
next
  case (snoc c bs)
  then show ?case
    by (cases "c = b"; cases "ob_subject c = ob_subject b")
      (auto simp: ascending_snoc not_le intro: less_imp_le)
qed

lemma kv_keeps_iff:
  assumes "ascending_obs bs" and "b \<in> set bs"
  shows "Keeps (observe_all Observe bs (KVState kv_new)) (ob_subject b) (ob_seq b) \<longleftrightarrow>
    \<not> ob_tomb b \<and> (\<forall>b' \<in> set bs. ob_subject b' = ob_subject b \<longrightarrow> ob_seq b' \<le> ob_seq b)"
  using kv.keeps_sel [OF assms] last_hist_iff [OF assms] assms(2)
  by (simp add: observe_all_KV kv_sel_iff)

lemma lps_keeps_iff:
  assumes "ascending_obs bs" and "b \<in> set bs" and "0 < n"
  shows "Keeps (observe_all Observe bs (LPSState (lps_new n))) (ob_subject b) (ob_seq b) \<longleftrightarrow>
    length (filter (\<lambda>b'. ob_subject b' = ob_subject b \<and> ob_seq b < ob_seq b') bs) < n"
proof -
  obtain k where n: "n = Suc k" using assms(3) by (cases n) auto
  have h: "ascending_obs (hist (ob_subject b) bs)" "b \<in> set (hist (ob_subject b) bs)"
    using assms by (simp_all add: hist_def ascending_filter)
  have "Keeps (observe_all Observe bs (LPSState (lps_new n))) (ob_subject b) (ob_seq b) \<longleftrightarrow>
      b \<in> set (last_n n (hist (ob_subject b) bs))"
    using lps.keeps_sel [OF assms(1,2), of k] assms(2) by (simp add: n observe_all_LPS lps_sel_def)
  then show ?thesis unfolding in_last_n_iff [OF h] by (simp add: hist_def conj_commute)
qed

text \<open>
  C8. KV compaction keeps exactly the live latest revisions: after observing a history with
  ascending sequences, \<open>Keeps\<close> holds for an observed message if and only if it is not a delete,
  purge or limit marker and no message on its subject has a higher sequence.
\<close>

theorem kv_compact_keeps_latest:
  assumes "ascending_obs bs" and "b \<in> set bs"
  shows "Keeps (observe_all Observe bs (KVState kv_new)) (ob_subject b) (ob_seq b) \<longleftrightarrow>
    \<not> ob_tomb b \<and> (\<forall>b' \<in> set bs. ob_subject b' = ob_subject b \<longrightarrow> ob_seq b' \<le> ob_seq b)"
  using assms by (rule kv_keeps_iff)

theorem kv_compact_keeps_latest_witness:
  "let b = \<lparr> ob_subject = ''k'', ob_seq = 2, ob_size = 9, ob_tomb = False \<rparr>;
       bs = [\<lparr> ob_subject = ''k'', ob_seq = 1, ob_size = 9, ob_tomb = False \<rparr>, b]
   in Keeps (observe_all Observe bs (KVState kv_new)) ''k'' 2"
  using kv_compact_keeps_latest
    [of "[\<lparr> ob_subject = ''k'', ob_seq = 1, ob_size = 9, ob_tomb = False \<rparr>,
          \<lparr> ob_subject = ''k'', ob_seq = 2, ob_size = 9, ob_tomb = False \<rparr>]"
        "\<lparr> ob_subject = ''k'', ob_seq = 2, ob_size = 9, ob_tomb = False \<rparr>"]
  by (simp add: ascending_obs_def)

text \<open>
  C7. Last-per-subject keeps exactly the newest \<open>n\<close>: with \<open>n \<ge> 1\<close>, after observing a history
  with ascending sequences, the ring buffers answer for an observed message if and only if
  fewer than \<open>n\<close> messages of the history on its subject are newer.
\<close>

theorem last_per_subject_keeps_newest:
  assumes "ascending_obs bs" and "b \<in> set bs" and "0 < n"
  shows "Keeps (observe_all Observe bs (LPSState (lps_new n))) (ob_subject b) (ob_seq b) \<longleftrightarrow>
    length (filter (\<lambda>b'. ob_subject b' = ob_subject b \<and> ob_seq b < ob_seq b') bs) < n"
  using assms by (rule lps_keeps_iff)

theorem last_per_subject_keeps_newest_witness:
  "let bs = map (\<lambda>q. \<lparr> ob_subject = ''s'', ob_seq = q, ob_size = 9, ob_tomb = False \<rparr>) [1, 2, 3]
   in \<not> Keeps (observe_all Observe bs (LPSState (lps_new 2))) ''s'' 1"
  using last_per_subject_keeps_newest
    [of "map (\<lambda>q. \<lparr> ob_subject = ''s'', ob_seq = q, ob_size = 9, ob_tomb = False \<rparr>) [1, 2, 3]"
        "\<lparr> ob_subject = ''s'', ob_seq = 1, ob_size = 9, ob_tomb = False \<rparr>" 2]
  by (simp add: ascending_obs_def)

text \<open>
  C9. What \<open>Resolve\<close> announces is exact for both implementations: the messages of the observed
  history that \<open>Keeps\<close> answers for number \<open>msgs\<close>, their sizes add up to \<open>bytes\<close>, they lie on
  \<open>subjects\<close> different subjects and the first of them has sequence \<open>firstSeq\<close> (0 when none is
  left), whatever order the maps are ranged over.
\<close>

theorem resolve_totals_exact:
  assumes "fresh_state st" and "ascending_obs bs"
  defines "ks \<equiv> filter (\<lambda>b. Keeps (observe_all Observe bs st) (ob_subject b) (ob_seq b)) bs"
    and "r \<equiv> Resolve (observe_all Observe bs st)"
  shows "res_msgs r = of_nat (length ks) \<and> res_bytes r = sum_list (map ob_size ks) \<and>
    res_subjects r = of_nat (card (ob_subject ` set ks)) \<and>
    res_firstSeq r = (case ks of [] \<Rightarrow> 0 | k # _ \<Rightarrow> ob_seq k)"
  using second_pass_resolve [OF assms(1,2)] by (simp add: totals_of_def ks_def r_def)

theorem resolve_totals_exact_witness:
  "res_msgs (Resolve (observe_all Observe
     (map (\<lambda>q. \<lparr> ob_subject = ''s'', ob_seq = q, ob_size = 9, ob_tomb = False \<rparr>) [4, 5, 6])
     (LPSState (lps_new (Suc 1))))) = 2"
  using resolve_totals_exact [of "LPSState (lps_new (Suc 1))"
      "map (\<lambda>q. \<lparr> ob_subject = ''s'', ob_seq = q, ob_size = 9, ob_tomb = False \<rparr>) [4, 5, 6]"]
  by (simp add: fresh_state_def ascending_obs_def observe_all_def lps_Observe_def lps_new_def
      lps_Keeps_def zeroRing_def)

end
