(* ===== verification/Backup_Verify.thy ===== *)
theory Backup_Verify
  imports Backup_Decoder Backup_SubjectState
begin

text \<open>
  \<open>src/backup/verify.go\<close>: the scan behind \<open>Verify\<close> and \<open>Info\<close>. The state of the loop is the
  two reports and the subject counter; a \<open>time.Time\<close> is its \<open>UnixNano\<close>. Opening the files and
  progress callbacks are not part of it: \<open>scan\<close> takes the configuration of the meta file and
  the opened archive.
\<close>

record VerifyReport =
  vr_Entries :: nat
  vr_Consumers :: nat
  vr_Messages :: u64
  vr_NumSubjects :: nat
  vr_FirstSeq :: u64
  vr_LastSeq :: u64
  vr_Complete :: bool
  vr_LastGood :: EntryRef

record InfoReport =
  ir_Storage :: StorageType
  ir_Declared :: StreamState
  ir_DeclaredCountsAdvisory :: bool
  ir_Consumers :: "string list"
  ir_Messages :: u64
  ir_NumSubjects :: nat
  ir_Subjects :: "(string, u64) gomap option"
  ir_Bytes :: u64
  ir_FirstSeq :: u64
  ir_LastSeq :: u64
  ir_FirstTime :: gotime
  ir_LastTime :: gotime

record scanOptions =
  so_subjects :: bool

record scan_state =
  sc_info :: InfoReport
  sc_report :: VerifyReport
  sc_subjects_ctr :: subjectCounter

definition zeroVerifyReport :: VerifyReport where
  "zeroVerifyReport = \<lparr> vr_Entries = 0, vr_Consumers = 0, vr_Messages = 0, vr_NumSubjects = 0,
     vr_FirstSeq = 0, vr_LastSeq = 0, vr_Complete = False, vr_LastGood = zeroEntryRef \<rparr>"

definition scan_start :: "scanOptions \<Rightarrow> StorageType \<Rightarrow> scan_state" where
  "scan_start op storage =
     \<lparr> sc_info = \<lparr> ir_Storage = storage, ir_Declared = zeroStreamState, ir_DeclaredCountsAdvisory = False,
         ir_Consumers = [], ir_Messages = 0, ir_NumSubjects = 0,
         ir_Subjects = (if so_subjects op then Some [] else None), ir_Bytes = 0,
         ir_FirstSeq = 0, ir_LastSeq = 0, ir_FirstTime = zeroTime, ir_LastTime = zeroTime \<rparr>,
       sc_report = zeroVerifyReport, sc_subjects_ctr = newSubjectCounter \<rparr>"

text \<open>\<open>m[k]++\<close> on a Go map.\<close>

definition map_inc :: "string \<Rightarrow> (string, u64) gomap \<Rightarrow> (string, u64) gomap" where
  "map_inc k m = AList.update k ((case map_of m k of Some v \<Rightarrow> v | None \<Rightarrow> 0) + 1) m"

definition scan_message :: "lib \<Rightarrow> Message \<Rightarrow> scan_state \<Rightarrow> scan_state" where
  "scan_message x m s =
     (let i = sc_info s; r = sc_report s;
          i1 = i\<lparr> ir_Messages := ir_Messages i + 1,
                  ir_Subjects := map_option (map_inc (m_Subject m)) (ir_Subjects i),
                  ir_Bytes := ir_Bytes i + storedMsgSize (ir_Storage i) (length (m_Subject m)) (m_HdrSize m) (m_PayloadSize m) \<rparr>;
          i2 = (if ir_FirstSeq i1 = 0 then i1\<lparr> ir_FirstSeq := m_Seq m, ir_FirstTime := m_Ts m \<rparr> else i1);
          i3 = i2\<lparr> ir_LastSeq := m_Seq m, ir_LastTime := m_Ts m \<rparr>
      in s\<lparr> sc_info := i3, sc_report := r\<lparr> vr_Messages := vr_Messages r + 1 \<rparr>,
            sc_subjects_ctr := counter_add (x_maphash x) (m_Subject m) (sc_subjects_ctr s) \<rparr>)"

definition scan_item :: "lib \<Rightarrow> Item \<Rightarrow> scan_state \<Rightarrow> berr + scan_state" where
  "scan_item x it s0 =
     (let s = s0\<lparr> sc_report := (sc_report s0)\<lparr> vr_Entries := vr_Entries (sc_report s0) + 1 \<rparr> \<rparr>
      in case it of
           StateItem st \<Rightarrow> Inr (s\<lparr> sc_info := (sc_info s)\<lparr> ir_Declared := s_State st \<rparr> \<rparr>)
         | ConsumerItem c \<Rightarrow>
             Inr (s\<lparr> sc_info := (sc_info s)\<lparr> ir_Consumers := ir_Consumers (sc_info s) @ [c_Name c] \<rparr>,
                    sc_report := (sc_report s)\<lparr> vr_Consumers := vr_Consumers (sc_report s) + 1 \<rparr> \<rparr>)
         | MessageItem m \<Rightarrow> Inr (scan_message x m s)
         | End \<Rightarrow> Inr s)"

text \<open>The fields both exits of the loop fill in.\<close>

definition close_report :: "decoder \<Rightarrow> scan_state \<Rightarrow> VerifyReport" where
  "close_report d s =
     (sc_report s)\<lparr> vr_LastGood := LastGood d, vr_FirstSeq := ir_FirstSeq (sc_info s),
        vr_LastSeq := ir_LastSeq (sc_info s), vr_NumSubjects := counter_count (sc_subjects_ctr s) \<rparr>"

definition scan :: "lib \<Rightarrow> scanOptions \<Rightarrow> StorageType \<Rightarrow> archive \<Rightarrow>
    (berr \<times> VerifyReport) + InfoReport \<times> VerifyReport" where
  "scan x op storage arc =
     (case for_items x (\<lambda>_. None) (scan_item x) 0 (NewDecoder arc) (scan_start op storage) of
        Inl (e, d, s) \<Rightarrow> Inl (e, close_report d s)
      | Inr (d, s) \<Rightarrow>
          (let r = (close_report d s)\<lparr> vr_Complete := True \<rparr>; i = sc_info s
           in Inr (i\<lparr> ir_NumSubjects := vr_NumSubjects r,
                      ir_DeclaredCountsAdvisory :=
                        (ir_Messages i > 0 \<and> (sst_Msgs (ir_Declared i) = 0 \<or> sst_Bytes (ir_Declared i) = 0)) \<rparr>, r)))"

definition Verify :: "lib \<Rightarrow> StorageType \<Rightarrow> archive \<Rightarrow> VerifyReport \<times> berr option" where
  "Verify x storage arc =
     (case scan x \<lparr> so_subjects = False \<rparr> storage arc of
        Inl (e, r) \<Rightarrow> (r, Some e) | Inr (_, r) \<Rightarrow> (r, None))"

definition Info :: "lib \<Rightarrow> scanOptions \<Rightarrow> StorageType \<Rightarrow> archive \<Rightarrow> berr + InfoReport" where
  "Info x op storage arc =
     (case scan x op storage arc of Inl (e, _) \<Rightarrow> Inl e | Inr (i, _) \<Rightarrow> Inr i)"

subsection \<open>What the loop has counted\<close>

fun messages_in :: "Item list \<Rightarrow> Message list" where
  "messages_in [] = []"
| "messages_in (MessageItem m # its) = m # messages_in its"
| "messages_in (_ # its) = messages_in its"

fun consumers_in :: "Item list \<Rightarrow> Consumer list" where
  "consumers_in [] = []"
| "consumers_in (ConsumerItem c # its) = c # consumers_in its"
| "consumers_in (_ # its) = consumers_in its"

lemma messages_in_append [simp]: "messages_in (xs @ ys) = messages_in xs @ messages_in ys"
  by (induction xs rule: messages_in.induct) simp_all

lemma consumers_in_append [simp]: "consumers_in (xs @ ys) = consumers_in xs @ consumers_in ys"
  by (induction xs rule: consumers_in.induct) simp_all

lemma items_of_maps [simp]:
  "messages_in (map ConsumerItem cs) = []" "consumers_in (map ConsumerItem cs) = cs"
  "messages_in (map (\<lambda>e. MessageItem (f e)) ms) = map f ms" "consumers_in (map (\<lambda>e. MessageItem (f e)) ms) = []"
  by (induction cs, simp_all) (induction ms, simp_all)+

definition stored_size :: "StorageType \<Rightarrow> Message \<Rightarrow> u64" where
  "stored_size storage m = storedMsgSize storage (length (m_Subject m)) (m_HdrSize m) (m_PayloadSize m)"

fun subjects_counted :: "scanOptions \<Rightarrow> Message list \<Rightarrow> (string, u64) gomap option \<Rightarrow> bool" where
  "subjects_counted op ms None = (\<not> so_subjects op)"
| "subjects_counted op ms (Some cs) = (so_subjects op \<and>
     (\<forall>k. map_of cs k = (if k \<in> m_Subject ` set ms
        then Some (of_nat (length (filter (\<lambda>m. m_Subject m = k) ms))) else None)))"

definition scanned :: "lib \<Rightarrow> scanOptions \<Rightarrow> StorageType \<Rightarrow> Item list \<Rightarrow> scan_state \<Rightarrow> bool" where
  "scanned x op storage its s \<longleftrightarrow>
     ir_Storage (sc_info s) = storage \<and>
     vr_Entries (sc_report s) = length its \<and> \<not> vr_Complete (sc_report s) \<and>
     ir_Consumers (sc_info s) = map c_Name (consumers_in its) \<and>
     vr_Consumers (sc_report s) = length (consumers_in its) \<and>
     vr_Messages (sc_report s) = of_nat (length (messages_in its)) \<and>
     ir_Messages (sc_info s) = of_nat (length (messages_in its)) \<and>
     ir_Bytes (sc_info s) = sum_list (map (stored_size storage) (messages_in its)) \<and>
     sc_subjects_ctr s = fold (counter_add (x_maphash x)) (map m_Subject (messages_in its)) newSubjectCounter \<and>
     ((\<forall>m \<in> set (messages_in its). m_Seq m \<noteq> 0) \<longrightarrow>
       ir_FirstSeq (sc_info s) = (case messages_in its of [] \<Rightarrow> 0 | m # _ \<Rightarrow> m_Seq m) \<and>
       ir_FirstTime (sc_info s) = (case messages_in its of [] \<Rightarrow> zeroTime | m # _ \<Rightarrow> m_Ts m)) \<and>
     ir_LastSeq (sc_info s) = (if messages_in its = [] then 0 else m_Seq (last (messages_in its))) \<and>
     ir_LastTime (sc_info s) = (if messages_in its = [] then zeroTime else m_Ts (last (messages_in its))) \<and>
     subjects_counted op (messages_in its) (ir_Subjects (sc_info s))"

lemma scanned_start: "scanned x op storage [] (scan_start op storage)"
  by (simp add: scanned_def scan_start_def zeroVerifyReport_def)

lemma map_inc_count:
  assumes "\<forall>k. map_of cs k = (if k \<in> f ` set ms then Some (of_nat (length (filter (\<lambda>m. f m = k) ms))) else None)"
  shows "map_of (map_inc (f m) cs) k =
    (if k \<in> f ` set (ms @ [m]) then Some (of_nat (length (filter (\<lambda>m. f m = k) (ms @ [m])))) else None)"
proof -
  have "filter (\<lambda>m'. f m' = f m) ms = []" if "f m \<notin> f ` set ms"
    using that by (auto simp: filter_empty_conv) (metis image_eqI)
  then show ?thesis using assms by (auto simp: map_inc_def update_conv')
qed

lemma subjects_counted_inc:
  "subjects_counted op ms cs \<Longrightarrow> subjects_counted op (ms @ [m]) (map_option (map_inc (m_Subject m)) cs)"
  by (cases cs) (auto simp: map_inc_count simp del: set_append filter_append length_append)

lemma scan_item_step:
  assumes "scanned x op storage its s" "scan_item x it s = Inr s'"
  shows "scanned x op storage (its @ [it]) s'"
proof (cases it)
  case (MessageItem m)
  have s': "s' = scan_message x m (s\<lparr> sc_report := (sc_report s)\<lparr> vr_Entries := vr_Entries (sc_report s) + 1 \<rparr> \<rparr>)"
    using assms(2) MessageItem by (simp add: scan_item_def Let_def)
  have *: "messages_in (its @ [it]) = messages_in its @ [m]" "consumers_in (its @ [it]) = consumers_in its"
    using MessageItem by simp_all
  from assms(1) have cnt: "subjects_counted op (messages_in its @ [m])
      (map_option (map_inc (m_Subject m)) (ir_Subjects (sc_info s)))"
    by (simp add: scanned_def subjects_counted_inc)
  show ?thesis
    using assms(1) cnt unfolding scanned_def *
    by (cases "messages_in its") (simp_all add: s' scan_message_def Let_def stored_size_def)
qed (use assms in \<open>auto simp: scanned_def scan_item_def Let_def\<close>)

lemma scan_run:
  assumes "fold_err (scan_item x) its s = Inr s'" "scanned x op storage pre s"
  shows "scanned x op storage (pre @ its) s'"
  by (rule fold_err_run [where P = "scanned x op storage", OF assms]) (rule scan_item_step)

lemma scan_item_total: "\<exists>s'. scan_item x it s = Inr s'"
  by (cases it) (simp_all add: scan_item_def Let_def)

lemma scan_fold_total: "\<exists>s'. fold_err (scan_item x) its s = Inr s'"
proof (induction its arbitrary: s)
  case (Cons it its)
  obtain s1 where "scan_item x it s = Inr s1" using scan_item_total by blast
  with Cons [of s1] show ?case by auto
qed simp

lemma sorted_wrt_Cons_weaken:
  assumes "sorted_wrt (<) (a # xs)" shows "sorted_wrt (<) ((0 :: u64) # xs)"
  using assms by (auto simp: word_neq_0_conv [symmetric] dest!: bspec intro: order_le_less_trans [of 0 a])

text \<open>The messages of a complete backup ascend from a sequence above 0.\<close>

lemma wf_backup_ascending:
  assumes "wf_backup x es its"
  shows "sorted_wrt (<) (0 # map m_Seq (messages_in its))"
proof -
  from assms obtain st and s :: arc_entry and cons ms where
    "wf_messages (sst_FirstSeq st - 1) ms"
    "its = StateItem \<lparr> s_Ts = h_Timestamp (ent_hdr s), s_State = st \<rparr> #
       map ConsumerItem cons @ map (\<lambda>e. MessageItem (message_of e)) ms @ [End]"
    unfolding wf_backup_def by blast
  then have "messages_in its = map message_of ms"
    "sorted_wrt (<) ((sst_FirstSeq st - 1) # map (\<lambda>e. h_Sequence (ent_hdr e)) ms)"
    by (simp_all add: wf_messages_def)
  moreover have "map m_Seq (map message_of ms) = map (\<lambda>e. h_Sequence (ent_hdr e)) ms"
    by (simp add: message_of_def)
  ultimately show ?thesis by (metis sorted_wrt_Cons_weaken)
qed

text \<open>What an error leaves, and what success reports.\<close>

lemma scan_result:
  assumes "decode_all x (NewDecoder arc) = (its, e, d)"
  shows "\<exists>s. scanned x op storage its s \<and>
    scan x op storage arc =
      (if e = IoEOF then
         (let r = (close_report d s)\<lparr> vr_Complete := True \<rparr>; i = sc_info s
          in Inr (i\<lparr> ir_NumSubjects := vr_NumSubjects r,
                     ir_DeclaredCountsAdvisory :=
                       (ir_Messages i > 0 \<and> (sst_Msgs (ir_Declared i) = 0 \<or> sst_Bytes (ir_Declared i) = 0)) \<rparr>, r))
       else Inl (e, close_report d s))"
proof -
  obtain s where s: "fold_err (scan_item x) its (scan_start op storage) = Inr s"
    using scan_fold_total by blast
  have "its \<noteq> [] \<or> e \<noteq> IoEOF" using decode_all_nonempty assms by blast
  from for_items_run [OF assms s this] scan_run [OF s scanned_start] show ?thesis
    by (auto simp: scan_def NewDecoder_def Let_def)
qed

text \<open>
  C11. \<open>Verify\<close> returns no error on exactly the complete backups of the grammar.
\<close>

theorem verify_complete_iff:
  "snd (Verify x storage (arc_open es end_err)) = None \<longleftrightarrow> (\<exists>its. wf_backup x es its)"
proof -
  obtain its e d where dec: "decode_all x (NewDecoder (arc_open es end_err)) = (its, e, d)"
    by (cases "decode_all x (NewDecoder (arc_open es end_err))") auto
  have "e = IoEOF \<longleftrightarrow> (\<exists>its. wf_backup x es its)"
    unfolding decoder_reaches_end [of x es end_err, symmetric] dec by simp
  moreover have "snd (Verify x storage (arc_open es end_err)) = None \<longleftrightarrow> e = IoEOF"
    using scan_result [OF dec, of "\<lparr> so_subjects = False \<rparr>" storage]
    by (cases "e = IoEOF") (auto simp: Verify_def Let_def)
  ultimately show ?thesis by simp
qed

text \<open>
  The reports of a scan that reaches the sentinel are exact: entries, consumers and messages
  are counted, \<open>Bytes\<close> is the sum of the stored sizes, \<open>FirstSeq\<close> and \<open>LastSeq\<close> are those of the
  first and last message (0 when there is none), the names of the consumers are in archive
  order, the number of subjects is the number of distinct subject hashes, and the subject map,
  when asked for, holds exactly the subjects with their message counts.
\<close>

theorem info_report_exact:
  assumes "wf_backup x es its"
  shows "\<exists>i. Info x op storage (arc_open es end_err) = Inr i \<and>
    ir_Consumers i = map c_Name (consumers_in its) \<and>
    ir_Messages i = of_nat (length (messages_in its)) \<and>
    ir_Bytes i = sum_list (map (stored_size storage) (messages_in its)) \<and>
    ir_NumSubjects i = card (x_maphash x ` m_Subject ` set (messages_in its)) \<and>
    ir_FirstSeq i = (case messages_in its of [] \<Rightarrow> 0 | m # _ \<Rightarrow> m_Seq m) \<and>
    ir_LastSeq i = (if messages_in its = [] then 0 else m_Seq (last (messages_in its))) \<and>
    subjects_counted op (messages_in its) (ir_Subjects i)"
proof -
  obtain d where dec: "decode_all x (NewDecoder (arc_open es end_err)) = (its, IoEOF, d)"
    using assms decoder_reaches_end by blast
  obtain s where s: "scanned x op storage its s"
    "scan x op storage (arc_open es end_err) =
       (let r = (close_report d s)\<lparr> vr_Complete := True \<rparr>; i = sc_info s
          in Inr (i\<lparr> ir_NumSubjects := vr_NumSubjects r,
                     ir_DeclaredCountsAdvisory :=
                       (ir_Messages i > 0 \<and> (sst_Msgs (ir_Declared i) = 0 \<or> sst_Bytes (ir_Declared i) = 0)) \<rparr>, r))"
    using scan_result [OF dec, of op storage] by auto
  have nz: "\<forall>m \<in> set (messages_in its). m_Seq m \<noteq> 0"
    using wf_backup_ascending [OF assms] by fastforce
  show ?thesis
    using s(1) nz unfolding scanned_def
    by (simp add: Info_def s(2) Let_def close_report_def counter_count_run image_image)
qed

text \<open>
  A scan that fails part way names the last good entry: the report counts exactly the
  entries that decoded, and the ordinal of \<open>LastGood\<close> is that count.
\<close>

theorem verify_failure_report:
  assumes "decode_all x (NewDecoder (arc_open es end_err)) = (its, e, d)" and "e \<noteq> IoEOF"
  shows "\<exists>r. Verify x storage (arc_open es end_err) = (r, Some e) \<and> \<not> vr_Complete r \<and>
    vr_Entries r = length its \<and> ref_Ordinal (vr_LastGood r) = length its \<and>
    vr_Messages r = of_nat (length (messages_in its)) \<and> vr_Consumers r = length (consumers_in its)"
proof -
  obtain s where s: "scanned x \<lparr> so_subjects = False \<rparr> storage its s"
    "scan x \<lparr> so_subjects = False \<rparr> storage (arc_open es end_err) = Inl (e, close_report d s)"
    using scan_result [OF assms(1)] assms(2) by auto
  have "ref_Ordinal (d_last d) = length its"
    using decode_all_ordinal [OF assms(1)] by (simp add: NewDecoder_def zeroEntryRef_def)
  with s show ?thesis
    by (simp add: Verify_def close_report_def LastGood_def scanned_def)
qed

theorem info_report_exact_witness:
  "\<exists>i. Info demo_lib \<lparr> so_subjects = False \<rparr> FileStorage (arc_open demo_archive ''EOF'') = Inr i \<and>
     ir_Messages i = 2 \<and> ir_FirstSeq i = 3 \<and> ir_LastSeq i = 9"
  using info_report_exact [OF demo_wf, of "\<lparr> so_subjects = False \<rparr>" FileStorage "''EOF''"]
  by (auto simp: demo_items_def)

theorem verify_failure_report_witness:
  "\<exists>r. Verify no_lib FileStorage (arc_open [] ''EOF'') = (r, Some (NotV2Backup ''EOF'')) \<and>
     ref_Ordinal (vr_LastGood r) = 0"
proof -
  have "Next no_lib (NewDecoder (arc_open [] ''EOF'')) = (Inl (NotV2Backup ''EOF''),
      (NewDecoder (arc_open [] ''EOF''))\<lparr> d_err := Some (NotV2Backup ''EOF'') \<rparr>)"
    by (simp add: Next_def next_item_def arc_Next_def arc_open_def NewDecoder_def)
  from verify_failure_report [OF decode_all_error [OF this], of FileStorage] show ?thesis by auto
qed

end
