(* ===== verification/Backup_Filter.thy ===== *)
theory Backup_Filter
  imports Backup_Types Backup_SubjectState
begin

text \<open>
  \<open>src/backup/options.go\<close>, \<open>filter.go\<close> and \<open>headers.go\<close>: the options of an edit with their
  validation and canonical form, the stateless filters, and \<open>msgBody\<close>, the buffer that lets a
  filter look at a prefix of a message while the whole of it still streams on. A compiled
  expression is its source text (\<open>None\<close> the nil pointer); \<open>strings.EqualFold\<close> folds ASCII case.
  The callbacks \<open>notify\<close> and \<open>betweenPasses\<close> are not data and have no field.
\<close>

record headerMatch =
  hm_name :: string
  hm_value :: string

record editOptions =
  o_subjects :: "string list"
  o_excludeSubjects :: "string list"
  o_after :: gotime
  o_before :: gotime
  o_hasAfter :: bool
  o_hasBefore :: bool
  o_firstSeq :: u64
  o_lastSeq :: u64
  o_hasFirstSeq :: bool
  o_hasLastSeq :: bool
  o_headerPresent :: "string list"
  o_headerValues :: "headerMatch list"
  o_noHeader :: "string list"
  o_payloadMatch :: "string option list"
  o_excludePayloadMatch :: "string option list"
  o_lastPerSubject :: int
  o_hasLastPerSubject :: bool
  o_kvCompact :: bool
  o_renumber :: bool
  o_obfuscate :: bool
  o_keyFile :: string
  o_dryRun :: bool
  o_toolVersion :: string

definition zeroOptions :: editOptions where
  "zeroOptions = \<lparr> o_subjects = [], o_excludeSubjects = [], o_after = zeroTime, o_before = zeroTime,
     o_hasAfter = False, o_hasBefore = False, o_firstSeq = 0, o_lastSeq = 0, o_hasFirstSeq = False,
     o_hasLastSeq = False, o_headerPresent = [], o_headerValues = [], o_noHeader = [],
     o_payloadMatch = [], o_excludePayloadMatch = [], o_lastPerSubject = 0, o_hasLastPerSubject = False,
     o_kvCompact = False, o_renumber = False, o_obfuscate = False, o_keyFile = [], o_dryRun = False,
     o_toolVersion = [] \<rparr>"

subsection \<open>The options\<close>

type_synonym EditOption = "editOptions \<Rightarrow> editOptions"

definition Subjects :: "string list \<Rightarrow> EditOption" where
  "Subjects ss op = op\<lparr> o_subjects := o_subjects op @ ss \<rparr>"

definition ExcludeSubjects :: "string list \<Rightarrow> EditOption" where
  "ExcludeSubjects ss op = op\<lparr> o_excludeSubjects := o_excludeSubjects op @ ss \<rparr>"

definition After :: "gotime \<Rightarrow> EditOption" where
  "After t op = op\<lparr> o_after := t, o_hasAfter := True \<rparr>"

definition Before :: "gotime \<Rightarrow> EditOption" where
  "Before t op = op\<lparr> o_before := t, o_hasBefore := True \<rparr>"

definition FirstSeq :: "u64 \<Rightarrow> EditOption" where
  "FirstSeq sq op = op\<lparr> o_firstSeq := sq, o_hasFirstSeq := True \<rparr>"

definition LastSeq :: "u64 \<Rightarrow> EditOption" where
  "LastSeq sq op = op\<lparr> o_lastSeq := sq, o_hasLastSeq := True \<rparr>"

definition HeaderPresent :: "string \<Rightarrow> EditOption" where
  "HeaderPresent name op = op\<lparr> o_headerPresent := o_headerPresent op @ [name] \<rparr>"

definition HeaderValue :: "string \<Rightarrow> string \<Rightarrow> EditOption" where
  "HeaderValue name val op =
     op\<lparr> o_headerValues := o_headerValues op @ [\<lparr> hm_name = name, hm_value = val \<rparr>] \<rparr>"

definition NoHeader :: "string \<Rightarrow> EditOption" where
  "NoHeader name op = op\<lparr> o_noHeader := o_noHeader op @ [name] \<rparr>"

definition PayloadMatch :: "string option \<Rightarrow> EditOption" where
  "PayloadMatch re op = op\<lparr> o_payloadMatch := o_payloadMatch op @ [re] \<rparr>"

definition ExcludePayloadMatch :: "string option \<Rightarrow> EditOption" where
  "ExcludePayloadMatch re op = op\<lparr> o_excludePayloadMatch := o_excludePayloadMatch op @ [re] \<rparr>"

definition LastPerSubject :: "int \<Rightarrow> EditOption" where
  "LastPerSubject n op = op\<lparr> o_lastPerSubject := n, o_hasLastPerSubject := True \<rparr>"

definition KVCompact :: EditOption where "KVCompact op = op\<lparr> o_kvCompact := True \<rparr>"
definition Renumber :: EditOption where "Renumber op = op\<lparr> o_renumber := True \<rparr>"
definition Obfuscate :: EditOption where "Obfuscate op = op\<lparr> o_obfuscate := True \<rparr>"
definition ObfuscationKeyFile :: "string \<Rightarrow> EditOption" where
  "ObfuscationKeyFile path op = op\<lparr> o_keyFile := path \<rparr>"
definition DryRun :: EditOption where "DryRun op = op\<lparr> o_dryRun := True \<rparr>"
definition ToolVersion :: "string \<Rightarrow> EditOption" where "ToolVersion v op = op\<lparr> o_toolVersion := v \<rparr>"

definition apply_options :: "EditOption list \<Rightarrow> editOptions" where
  "apply_options opts = fold (\<lambda>opt op. opt op) opts zeroOptions"

datatype opt_error =
    InvalidSubjectFilter string
  | OutsideTimeRange string gotime
  | AfterNotBefore
  | FirstAboveLast u64 u64
  | InvalidHeaderName string
  | InvalidHeaderValue string
  | NilExpression
  | LastPerSubjectLow int
  | KVAndLastPerSubject
  | KeyFileWithoutObfuscate

definition validateHeaderName :: "string \<Rightarrow> opt_error option" where
  "validateHeaderName name =
     (if name = [] \<or> contains_any name [CHR '':'', CHR '' '', CHR 0x09, CHR 0x0D, CHR 0x0A]
      then Some (InvalidHeaderName name) else None)"

text \<open>The first error of a loop, \<open>None\<close> when it runs through.\<close>

fun first_err :: "('a \<Rightarrow> 'e option) \<Rightarrow> 'a list \<Rightarrow> 'e option" where
  "first_err f [] = None"
| "first_err f (x # xs) = (case f x of Some e \<Rightarrow> Some e | None \<Rightarrow> first_err f xs)"

fun first_some :: "'e option list \<Rightarrow> 'e option" where
  "first_some [] = None"
| "first_some (x # xs) = (case x of Some e \<Rightarrow> Some e | None \<Rightarrow> first_some xs)"

definition nanoMin :: gotime where "nanoMin = - (2 ^ 63)"
definition nanoMax :: gotime where "nanoMax = 2 ^ 63 - 1"

text \<open>\<open>None\<close> is the nil error. The checks run in the order of the list.\<close>

definition validate :: "lib \<Rightarrow> editOptions \<Rightarrow> opt_error option" where
  "validate x op = first_some
     [first_err (\<lambda>s. if \<not> x_isValidSubject x s then Some (InvalidSubjectFilter s) else None)
        (o_subjects op @ o_excludeSubjects op),
      first_err (\<lambda>(isset, name, t). if isset \<and> (t < nanoMin \<or> t > nanoMax) then Some (OutsideTimeRange name t) else None)
        [(o_hasAfter op, ''After'', o_after op), (o_hasBefore op, ''Before'', o_before op)],
      (if o_hasAfter op \<and> o_hasBefore op \<and> \<not> o_after op < o_before op then Some AfterNotBefore else None),
      (if o_hasFirstSeq op \<and> o_hasLastSeq op \<and> o_firstSeq op > o_lastSeq op
       then Some (FirstAboveLast (o_firstSeq op) (o_lastSeq op)) else None),
      first_err validateHeaderName (o_headerPresent op @ o_noHeader op),
      first_err (\<lambda>hm. case validateHeaderName (hm_name hm) of Some e \<Rightarrow> Some e
          | None \<Rightarrow> if contains_any (hm_value hm) [CHR 0x0D, CHR 0x0A] then Some (InvalidHeaderValue (hm_value hm)) else None)
        (o_headerValues op),
      first_err (\<lambda>re. if re = None then Some NilExpression else None) (o_payloadMatch op @ o_excludePayloadMatch op),
      (if o_hasLastPerSubject op \<and> o_lastPerSubject op < 1 then Some (LastPerSubjectLow (o_lastPerSubject op)) else None),
      (if o_kvCompact op \<and> o_lastPerSubject op > 0 then Some KVAndLastPerSubject else None),
      (if o_keyFile op \<noteq> [] \<and> \<not> o_obfuscate op then Some KeyFileWithoutObfuscate else None)]"

definition perSubject :: "editOptions \<Rightarrow> bool" where
  "perSubject op \<longleftrightarrow> o_lastPerSubject op > 0 \<or> o_kvCompact op"

definition hasHeaderFilters :: "editOptions \<Rightarrow> bool" where
  "hasHeaderFilters op \<longleftrightarrow> length (o_headerPresent op) + length (o_headerValues op) + length (o_noHeader op) > 0"

definition hasPayloadFilters :: "editOptions \<Rightarrow> bool" where
  "hasPayloadFilters op \<longleftrightarrow> length (o_payloadMatch op) + length (o_excludePayloadMatch op) > 0"

definition newSubjectState :: "editOptions \<Rightarrow> subjectState" where
  "newSubjectState op =
     (if o_kvCompact op then KVState kv_new else LPSState (lps_new (nat (o_lastPerSubject op))))"

subsection \<open>The canonical form\<close>

definition regexStrings :: "string option list \<Rightarrow> string list" where
  "regexStrings res = map (\<lambda>re. case re of Some s \<Rightarrow> s | None \<Rightarrow> []) res"

definition add_sorted :: "string \<Rightarrow> string list \<Rightarrow> string list" where
  "add_sorted key vals = map (\<lambda>v. key @ ''='' @ v) (sort vals)"

definition canonical :: "lib \<Rightarrow> editOptions \<Rightarrow> string list" where
  "canonical x op =
     add_sorted ''subject'' (o_subjects op) @
     add_sorted ''exclude-subject'' (o_excludeSubjects op) @
     (if o_hasAfter op then [''after='' @ x_formatTime x (o_after op)] else []) @
     (if o_hasBefore op then [''before='' @ x_formatTime x (o_before op)] else []) @
     (if o_hasFirstSeq op then [''first-seq='' @ format_uint (o_firstSeq op)] else []) @
     (if o_hasLastSeq op then [''last-seq='' @ format_uint (o_lastSeq op)] else []) @
     add_sorted ''header'' (o_headerPresent op) @
     add_sorted ''header'' (map (\<lambda>hm. hm_name hm @ '':'' @ hm_value hm) (o_headerValues op)) @
     add_sorted ''no-header'' (o_noHeader op) @
     add_sorted ''payload-match'' (regexStrings (o_payloadMatch op)) @
     add_sorted ''exclude-payload-match'' (regexStrings (o_excludePayloadMatch op)) @
     (if o_lastPerSubject op > 0 then [''last-per-subject='' @ format_int (o_lastPerSubject op)] else []) @
     (if o_kvCompact op then [''kv-compact''] else []) @
     (if o_renumber op then [''renumber''] else []) @
     (if o_obfuscate op then [''obfuscate''] else [])"

subsection \<open>Headers\<close>

definition headerValues :: "header \<Rightarrow> string \<Rightarrow> string list" where
  "headerValues h name = concat (map snd (filter (\<lambda>(k, _). equal_fold k name) h))"

definition kvOperationDelete :: string where "kvOperationDelete = ''DEL''"

definition isTombstone :: "lib \<Rightarrow> header \<Rightarrow> bool" where
  "isTombstone x h =
     (let kop = x_headerGet x h (x_KVOperation x)
      in if kop \<noteq> [] then kop = kvOperationDelete \<or> kop = x_KVOperationValuePurge x
         else x_headerGet x h (x_JSMarkerReason x) \<in>
                {x_JSMarkerReasonMaxAge x, x_JSMarkerReasonPurge x, x_JSMarkerReasonRemove x})"

subsection \<open>The filters\<close>

datatype dropKind = keep | dropSequence | dropTime | dropSubject | dropHeader | dropPayload
  | dropLastPerSubject | dropKVCompact

definition contentFilter :: "dropKind \<Rightarrow> bool" where
  "contentFilter k \<longleftrightarrow> k = dropHeader \<or> k = dropPayload"

definition matchesAny :: "lib \<Rightarrow> string list \<Rightarrow> string \<Rightarrow> bool" where
  "matchesAny x patterns subject = list_ex (\<lambda>p. x_subjectsCollide x p subject) patterns"

definition evalMeta :: "lib \<Rightarrow> editOptions \<Rightarrow> Message \<Rightarrow> dropKind" where
  "evalMeta x op m =
     (if (o_hasFirstSeq op \<and> m_Seq m < o_firstSeq op) \<or> (o_hasLastSeq op \<and> m_Seq m > o_lastSeq op)
      then dropSequence
      else if (o_hasAfter op \<and> m_Ts m < o_after op) \<or> (o_hasBefore op \<and> m_Ts m \<ge> o_before op)
      then dropTime
      else if matchesAny x (o_excludeSubjects op) (m_Subject m) then dropSubject
      else if length (o_subjects op) > 0 \<and> \<not> matchesAny x (o_subjects op) (m_Subject m) then dropSubject
      else keep)"

definition evalHeaders :: "editOptions \<Rightarrow> header \<Rightarrow> dropKind" where
  "evalHeaders op h =
     (if list_ex (\<lambda>name. length (headerValues h name) > 0) (o_noHeader op) then dropHeader
      else if length (o_headerPresent op) + length (o_headerValues op) = 0 then keep
      else if list_ex (\<lambda>name. length (headerValues h name) > 0) (o_headerPresent op) then keep
      else if list_ex (\<lambda>hm. hm_value hm \<in> set (headerValues h (hm_name hm))) (o_headerValues op) then keep
      else dropHeader)"

text \<open>A nil expression does not get past \<open>validate\<close>; here it matches nothing.\<close>

definition re_match :: "lib \<Rightarrow> string option \<Rightarrow> bytes \<Rightarrow> bool" where
  "re_match x re payload = (case re of None \<Rightarrow> False | Some s \<Rightarrow> x_reMatch x s payload)"

definition evalPayload :: "lib \<Rightarrow> editOptions \<Rightarrow> bytes \<Rightarrow> dropKind" where
  "evalPayload x op payload =
     (if list_ex (\<lambda>re. re_match x re payload) (o_excludePayloadMatch op) then dropPayload
      else if length (o_payloadMatch op) = 0 then keep
      else if list_ex (\<lambda>re. re_match x re payload) (o_payloadMatch op) then keep
      else dropPayload)"

subsection \<open>msgBody\<close>

record msgBody =
  mb_m :: Message
  mb_buf :: bytes
  mb_hdr :: header
  mb_decoded :: bool

definition new_msgBody :: "Message \<Rightarrow> msgBody" where
  "new_msgBody m = \<lparr> mb_m = m, mb_buf = [], mb_hdr = [], mb_decoded = False \<rparr>"

definition mb_prefix :: "nat \<Rightarrow> msgBody \<Rightarrow> berr + bytes \<times> msgBody" where
  "mb_prefix n b =
     (if n \<le> length (mb_buf b) then Inr (take n (mb_buf b), b)
      else
        (let m = mb_m b
         in case ReadFull (m_Body m) (n - length (mb_buf b)) of
              Inl e \<Rightarrow> Inl (ReadingMessage (m_Subject m) (m_Seq m) e)
            | Inr (bs, r) \<Rightarrow>
                (let grown = mb_buf b @ bs
                 in Inr (grown, b\<lparr> mb_buf := grown, mb_m := m\<lparr> m_Body := r \<rparr> \<rparr>))))"

definition mb_headers :: "lib \<Rightarrow> msgBody \<Rightarrow> berr + header \<times> msgBody" where
  "mb_headers x b =
     (if mb_decoded b then Inr (mb_hdr b, b)
      else if m_HdrSize (mb_m b) > 0 then
        (case mb_prefix (m_HdrSize (mb_m b)) b of
           Inl e \<Rightarrow> Inl e
         | Inr (raw, b1) \<Rightarrow>
             (case x_decodeHeadersMsg x raw of
                Inl e \<Rightarrow> Inl (MessageHeaders (m_Subject (mb_m b1)) (m_Seq (mb_m b1)) e)
              | Inr h \<Rightarrow> Inr (h, b1\<lparr> mb_hdr := h, mb_decoded := True \<rparr>)))
      else Inr (mb_hdr b, b\<lparr> mb_decoded := True \<rparr>))"

definition mb_payload :: "msgBody \<Rightarrow> berr + bytes \<times> msgBody" where
  "mb_payload b =
     (case mb_prefix (m_HdrSize (mb_m b) + m_PayloadSize (mb_m b)) b of
        Inl e \<Rightarrow> Inl e
      | Inr (all, b1) \<Rightarrow> Inr (drop (m_HdrSize (mb_m b1)) all, b1))"

definition mb_reader :: "msgBody \<Rightarrow> reader" where
  "mb_reader b =
     (if length (mb_buf b) = 0 then m_Body (mb_m b) else prepend_reader (mb_buf b) (m_Body (mb_m b)))"

subsection \<open>A look at a message does not change it\<close>

text \<open>The header block and the payload of a message, read off its body.\<close>

definition msg_prefix :: "nat \<Rightarrow> Message \<Rightarrow> bytes option" where
  "msg_prefix n m = (if n \<le> length (r_data (m_Body m)) then Some (take n (r_data (m_Body m))) else None)"

definition msg_headers :: "lib \<Rightarrow> Message \<Rightarrow> header option" where
  "msg_headers x m =
     (if m_HdrSize m > 0 then
        (case msg_prefix (m_HdrSize m) m of
           None \<Rightarrow> None
         | Some raw \<Rightarrow> (case x_decodeHeadersMsg x raw of Inl _ \<Rightarrow> None | Inr h \<Rightarrow> Some h))
      else Some [])"

definition msg_payload :: "Message \<Rightarrow> bytes option" where
  "msg_payload m = map_option (drop (m_HdrSize m)) (msg_prefix (m_HdrSize m + m_PayloadSize m) m)"

text \<open>The buffer and the rest of the body make up the message \<open>m\<close> it was opened on.\<close>

definition mb_ok :: "lib \<Rightarrow> Message \<Rightarrow> msgBody \<Rightarrow> bool" where
  "mb_ok x m b \<longleftrightarrow>
     (mb_m b)\<lparr> m_Body := prepend_reader (mb_buf b) (m_Body (mb_m b)) \<rparr> = m \<and>
     (mb_decoded b \<longrightarrow> msg_headers x m = Some (mb_hdr b)) \<and> (\<not> mb_decoded b \<longrightarrow> mb_hdr b = [])"

lemma mb_ok_new [simp]: "mb_ok x m (new_msgBody m)"
  by (simp add: mb_ok_def new_msgBody_def prepend_reader_def)

lemma mb_ok_fields:
  assumes "mb_ok x m b"
  shows "m_Subject (mb_m b) = m_Subject m" "m_Seq (mb_m b) = m_Seq m" "m_Ts (mb_m b) = m_Ts m"
    "m_HdrSize (mb_m b) = m_HdrSize m" "m_PayloadSize (mb_m b) = m_PayloadSize m"
    "r_data (m_Body m) = mb_buf b @ r_data (m_Body (mb_m b))" "r_fail (m_Body m) = r_fail (m_Body (mb_m b))"
  using assms by (auto simp: mb_ok_def prepend_reader_def)

lemma mb_reader_ok: "mb_ok x m b \<Longrightarrow> mb_reader b = m_Body m"
  by (auto simp: mb_ok_def mb_reader_def prepend_reader_def)

lemma mb_prefix_ok:
  assumes "mb_ok x m b"
  shows "case mb_prefix n b of
      Inl e \<Rightarrow> msg_prefix n m = None \<and> e \<noteq> IoEOF
    | Inr (bs, b') \<Rightarrow> msg_prefix n m = Some bs \<and> mb_ok x m b' \<and> mb_decoded b' = mb_decoded b \<and> mb_hdr b' = mb_hdr b"
proof -
  note f = mb_ok_fields [OF assms]
  have "mb_ok x m (b\<lparr> mb_buf := mb_buf b @ take k (r_data (m_Body (mb_m b))),
      mb_m := (mb_m b)\<lparr> m_Body := (m_Body (mb_m b))\<lparr> r_data := drop k (r_data (m_Body (mb_m b))) \<rparr> \<rparr> \<rparr>)" for k
    using assms by (simp add: mb_ok_def prepend_reader_def)
  then show ?thesis
    using assms by (auto simp: mb_prefix_def msg_prefix_def ReadFull_def f Let_def)
qed

lemma mb_headers_ok:
  assumes "mb_ok x m b"
  shows "case mb_headers x b of
      Inl e \<Rightarrow> msg_headers x m = None \<and> e \<noteq> IoEOF
    | Inr (h, b') \<Rightarrow> msg_headers x m = Some h \<and> mb_ok x m b'"
proof -
  note f = mb_ok_fields [OF assms]
  show ?thesis
  proof (cases "mb_decoded b \<or> m_HdrSize m = 0")
    case True
    then show ?thesis using assms by (auto simp: mb_headers_def f mb_ok_def msg_headers_def)
  next
    case False
    then have nd: "\<not> mb_decoded b" and hs: "m_HdrSize m > 0" by simp_all
    note p = mb_prefix_ok [OF assms, of "m_HdrSize m"]
    show ?thesis
    proof (cases "mb_prefix (m_HdrSize m) b")
      case (Inl e)
      with p nd hs show ?thesis by (simp add: mb_headers_def f msg_headers_def)
    next
      case (Inr r)
      then obtain raw b1 where r: "mb_prefix (m_HdrSize m) b = Inr (raw, b1)" by (cases r) auto
      with p have p1: "msg_prefix (m_HdrSize m) m = Some raw" "mb_ok x m b1" "\<not> mb_decoded b1" using nd by simp_all
      show ?thesis
      proof (cases "x_decodeHeadersMsg x raw")
        case (Inl e)
        with r p1 nd hs show ?thesis by (simp add: mb_headers_def f msg_headers_def)
      next
        case (Inr h)
        then have "msg_headers x m = Some h" using p1 hs by (simp add: msg_headers_def)
        with r p1 nd hs Inr show ?thesis by (simp add: mb_headers_def f mb_ok_def)
      qed
    qed
  qed
qed

lemma mb_payload_ok:
  assumes "mb_ok x m b"
  shows "case mb_payload b of
      Inl e \<Rightarrow> msg_payload m = None \<and> e \<noteq> IoEOF
    | Inr (bs, b') \<Rightarrow> msg_payload m = Some bs \<and> mb_ok x m b'"
proof -
  note f = mb_ok_fields [OF assms]
  note p = mb_prefix_ok [OF assms, of "m_HdrSize m + m_PayloadSize m"]
  show ?thesis
  proof (cases "mb_prefix (m_HdrSize m + m_PayloadSize m) b")
    case (Inl e)
    with p show ?thesis by (simp add: mb_payload_def f msg_payload_def)
  next
    case (Inr r)
    then obtain bs b1 where r: "mb_prefix (m_HdrSize m + m_PayloadSize m) b = Inr (bs, b1)" by (cases r) auto
    with p have p1: "msg_prefix (m_HdrSize m + m_PayloadSize m) m = Some bs" "mb_ok x m b1" by simp_all
    with r show ?thesis by (simp add: mb_payload_def f msg_payload_def mb_ok_fields [OF p1(2)])
  qed
qed

datatype look = LookHeaders | LookPayload | LookPrefix nat

fun look_at :: "lib \<Rightarrow> look \<Rightarrow> msgBody \<Rightarrow> berr + msgBody" where
  "look_at x LookHeaders b = (case mb_headers x b of Inl e \<Rightarrow> Inl e | Inr (_, b') \<Rightarrow> Inr b')"
| "look_at x LookPayload b = (case mb_payload b of Inl e \<Rightarrow> Inl e | Inr (_, b') \<Rightarrow> Inr b')"
| "look_at x (LookPrefix n) b = (case mb_prefix n b of Inl e \<Rightarrow> Inl e | Inr (_, b') \<Rightarrow> Inr b')"

lemma look_at_ok: "mb_ok x m b \<Longrightarrow> look_at x l b = Inr b' \<Longrightarrow> mb_ok x m b'"
proof (cases l)
  case LookHeaders
  assume "mb_ok x m b" "look_at x l b = Inr b'"
  with mb_headers_ok [of x m b] LookHeaders show ?thesis by (auto split: sum.splits prod.splits)
next
  case LookPayload
  assume "mb_ok x m b" "look_at x l b = Inr b'"
  with mb_payload_ok [of x m b] LookPayload show ?thesis by (auto split: sum.splits prod.splits)
next
  case (LookPrefix n)
  assume "mb_ok x m b" "look_at x l b = Inr b'"
  with mb_prefix_ok [of x m b n] LookPrefix show ?thesis by (auto split: sum.splits prod.splits)
qed

text \<open>
  Filters look at messages without consuming them: after any sequence of successful looks at
  a message's headers, payload or a prefix of it, what the encoder reads is the body the
  decoder delivered, byte for byte and with the same error behind it.
\<close>

theorem msg_body_looks_preserve:
  assumes "fold_err (look_at x) ls (new_msgBody m) = Inr b"
  shows "mb_reader b = m_Body m"
  by (rule mb_reader_ok, rule fold_err_invariant [where P = "mb_ok x m", OF _ _ assms])
    (auto intro: look_at_ok)

theorem msg_body_looks_preserve_witness:
  "let m = \<lparr> m_Subject = ''s'', m_Seq = 1, m_Ts = 0, m_HdrSize = 1, m_PayloadSize = 2, m_Body = bytes_reader ''hxy'' \<rparr>
   in \<exists>b. fold_err (look_at no_lib) [LookPrefix 1, LookPayload] (new_msgBody m) = Inr b \<and> mb_reader b = bytes_reader ''hxy''"
proof -
  let ?m = "\<lparr> m_Subject = ''s'', m_Seq = 1, m_Ts = 0, m_HdrSize = 1, m_PayloadSize = 2, m_Body = bytes_reader ''hxy'' \<rparr>"
  obtain b where b: "fold_err (look_at no_lib) [LookPrefix 1, LookPayload] (new_msgBody ?m) = Inr b"
    by (simp add: new_msgBody_def mb_prefix_def mb_payload_def ReadFull_def bytes_reader_def Let_def)
  from msg_body_looks_preserve [OF b] b show ?thesis by (simp add: Let_def)
qed

subsection \<open>Which filter drops a message\<close>

text \<open>The verdict of the stateless filters, in the order the editor applies them.\<close>

definition in_seq_range :: "editOptions \<Rightarrow> Message \<Rightarrow> bool" where
  "in_seq_range op m \<longleftrightarrow> (o_hasFirstSeq op \<longrightarrow> o_firstSeq op \<le> m_Seq m) \<and> (o_hasLastSeq op \<longrightarrow> m_Seq m \<le> o_lastSeq op)"

definition in_time_range :: "editOptions \<Rightarrow> Message \<Rightarrow> bool" where
  "in_time_range op m \<longleftrightarrow> (o_hasAfter op \<longrightarrow> o_after op \<le> m_Ts m) \<and> (o_hasBefore op \<longrightarrow> m_Ts m < o_before op)"

definition subject_selected :: "lib \<Rightarrow> editOptions \<Rightarrow> Message \<Rightarrow> bool" where
  "subject_selected x op m \<longleftrightarrow> \<not> (\<exists>p \<in> set (o_excludeSubjects op). x_subjectsCollide x p (m_Subject m)) \<and>
     (o_subjects op = [] \<or> (\<exists>p \<in> set (o_subjects op). x_subjectsCollide x p (m_Subject m)))"

definition header_selected :: "editOptions \<Rightarrow> header \<Rightarrow> bool" where
  "header_selected op h \<longleftrightarrow> (\<forall>name \<in> set (o_noHeader op). headerValues h name = []) \<and>
     (o_headerPresent op = [] \<and> o_headerValues op = [] \<or>
      (\<exists>name \<in> set (o_headerPresent op). headerValues h name \<noteq> []) \<or>
      (\<exists>hm \<in> set (o_headerValues op). hm_value hm \<in> set (headerValues h (hm_name hm))))"

definition payload_selected :: "lib \<Rightarrow> editOptions \<Rightarrow> bytes \<Rightarrow> bool" where
  "payload_selected x op p \<longleftrightarrow> \<not> (\<exists>re \<in> set (o_excludePayloadMatch op). re_match x re p) \<and>
     (o_payloadMatch op = [] \<or> (\<exists>re \<in> set (o_payloadMatch op). re_match x re p))"

lemma evalMeta_cases:
  "evalMeta x op m =
     (if \<not> in_seq_range op m then dropSequence
      else if \<not> in_time_range op m then dropTime
      else if \<not> subject_selected x op m then dropSubject else keep)"
proof -
  have 1: "((o_hasFirstSeq op \<and> m_Seq m < o_firstSeq op) \<or> (o_hasLastSeq op \<and> m_Seq m > o_lastSeq op)) \<longleftrightarrow>
      \<not> in_seq_range op m" by (auto simp: in_seq_range_def not_le)
  have 2: "((o_hasAfter op \<and> m_Ts m < o_after op) \<or> (o_hasBefore op \<and> m_Ts m \<ge> o_before op)) \<longleftrightarrow>
      \<not> in_time_range op m" by (auto simp: in_time_range_def not_le not_less)
  have 3: "(matchesAny x (o_excludeSubjects op) (m_Subject m) \<or>
      (length (o_subjects op) > 0 \<and> \<not> matchesAny x (o_subjects op) (m_Subject m))) \<longleftrightarrow> \<not> subject_selected x op m"
    by (auto simp: subject_selected_def matchesAny_def list_ex_iff)
  show ?thesis unfolding evalMeta_def 1 2 3 [symmetric] by simp
qed

lemma evalHeaders_cases: "evalHeaders op h = (if header_selected op h then keep else dropHeader)"
  unfolding evalHeaders_def header_selected_def list_ex_iff by simp

lemma evalPayload_cases: "evalPayload x op p = (if payload_selected x op p then keep else dropPayload)"
  by (auto simp: evalPayload_def payload_selected_def list_ex_iff)

text \<open>Without content filters the content selects every message.\<close>

lemma no_header_filters: "\<not> hasHeaderFilters op \<Longrightarrow> header_selected op h"
  by (simp add: hasHeaderFilters_def header_selected_def)

lemma no_payload_filters: "\<not> hasPayloadFilters op \<Longrightarrow> payload_selected x op p"
  by (simp add: hasPayloadFilters_def payload_selected_def)

text \<open>
  Each stateless filter is the predicate its documentation gives: the entry header passes
  exactly when sequence and time lie in their ranges (lower bounds and the last sequence
  inclusive, \<open>Before\<close> exclusive), no exclusion matches the subject and an inclusion does, if there
  is one; and the first of these to fail names the drop. Headers and payload pass exactly when
  no exclusion holds and some inclusion does, if there is one.
\<close>

theorem filters_match_documentation:
  "(evalMeta x op m = keep \<longleftrightarrow> in_seq_range op m \<and> in_time_range op m \<and> subject_selected x op m) \<and>
   (evalMeta x op m = dropSequence \<longleftrightarrow> \<not> in_seq_range op m) \<and>
   (evalMeta x op m = dropTime \<longleftrightarrow> in_seq_range op m \<and> \<not> in_time_range op m) \<and>
   (evalMeta x op m = dropSubject \<longleftrightarrow> in_seq_range op m \<and> in_time_range op m \<and> \<not> subject_selected x op m) \<and>
   evalHeaders op h = (if header_selected op h then keep else dropHeader) \<and>
   evalPayload x op p = (if payload_selected x op p then keep else dropPayload)"
  by (simp add: evalMeta_cases evalHeaders_cases evalPayload_cases)

subsection \<open>Validated and canonical options\<close>

lemma first_err_None: "first_err f xs = None \<longleftrightarrow> (\<forall>x \<in> set xs. f x = None)"
  by (induction xs) (auto split: option.splits)

lemma first_some_None: "first_some xs = None \<longleftrightarrow> (\<forall>x \<in> set xs. x = None)"
  by (induction xs) (auto split: option.splits)

lemma option_if_None [simp]: "(if b then Some e else None) = None \<longleftrightarrow> \<not> b"
  by simp

text \<open>
  Options that validate are consistent: \<open>After\<close> lies before \<open>Before\<close> and both are representable
  in nanoseconds, the sequence range is not reversed, at least one message per subject is kept,
  the two per-subject edits exclude each other, so that the per-subject state such an edit
  starts from is fresh, and a key file is only named for an obfuscated edit.
\<close>

theorem validate_consistent:
  assumes "validate x op = None"
  shows "(o_hasAfter op \<and> o_hasBefore op \<longrightarrow> o_after op < o_before op) \<and>
    (o_hasAfter op \<longrightarrow> nanoMin \<le> o_after op \<and> o_after op \<le> nanoMax) \<and>
    (o_hasFirstSeq op \<and> o_hasLastSeq op \<longrightarrow> o_firstSeq op \<le> o_lastSeq op) \<and>
    (o_hasLastPerSubject op \<longrightarrow> 1 \<le> o_lastPerSubject op) \<and>
    \<not> (o_kvCompact op \<and> 0 < o_lastPerSubject op) \<and>
    (perSubject op \<longrightarrow> fresh_state (newSubjectState op)) \<and>
    (o_keyFile op \<noteq> [] \<longrightarrow> o_obfuscate op) \<and>
    None \<notin> set (o_payloadMatch op @ o_excludePayloadMatch op)"
proof -
  have fresh: "fresh_state (newSubjectState op)" if "perSubject op"
  proof (cases "o_kvCompact op")
    case True
    then show ?thesis by (simp add: newSubjectState_def fresh_state_def)
  next
    case False
    with that obtain k where "nat (o_lastPerSubject op) = Suc k"
      by (metis gr0_implies_Suc perSubject_def zero_less_nat_eq)
    with False show ?thesis by (auto simp: newSubjectState_def fresh_state_def)
  qed
  from assms have
    "first_err (\<lambda>(isset, name, t). if isset \<and> (t < nanoMin \<or> t > nanoMax) then Some (OutsideTimeRange name t) else None)
        [(o_hasAfter op, ''After'', o_after op), (o_hasBefore op, ''Before'', o_before op)] = None"
    "first_err (\<lambda>re. if re = None then Some NilExpression else None) (o_payloadMatch op @ o_excludePayloadMatch op) = None"
    "\<not> (o_hasAfter op \<and> o_hasBefore op \<and> \<not> o_after op < o_before op)"
    "\<not> (o_hasFirstSeq op \<and> o_hasLastSeq op \<and> o_firstSeq op > o_lastSeq op)"
    "\<not> (o_hasLastPerSubject op \<and> o_lastPerSubject op < 1)" "\<not> (o_kvCompact op \<and> o_lastPerSubject op > 0)"
    "\<not> (o_keyFile op \<noteq> [] \<and> \<not> o_obfuscate op)"
    unfolding validate_def first_some_None by (simp_all del: first_err.simps)
  with fresh show ?thesis by (auto simp: first_err_None)
qed

theorem validate_consistent_witness:
  "fresh_state (newSubjectState (apply_options [FirstSeq 2, LastSeq 5, LastPerSubject 1]))"
proof -
  let ?op = "apply_options [FirstSeq 2, LastSeq 5, LastPerSubject 1]"
  have "validate no_lib ?op = None"
    by (simp add: validate_def apply_options_def FirstSeq_def LastSeq_def LastPerSubject_def zeroOptions_def)
  from validate_consistent [OF this] show ?thesis
    by (simp add: perSubject_def apply_options_def LastPerSubject_def)
qed

definition same_options :: "editOptions \<Rightarrow> editOptions \<Rightarrow> bool" where
  "same_options a b \<longleftrightarrow>
     mset (o_subjects a) = mset (o_subjects b) \<and> mset (o_excludeSubjects a) = mset (o_excludeSubjects b) \<and>
     mset (o_headerPresent a) = mset (o_headerPresent b) \<and> mset (o_headerValues a) = mset (o_headerValues b) \<and>
     mset (o_noHeader a) = mset (o_noHeader b) \<and> mset (o_payloadMatch a) = mset (o_payloadMatch b) \<and>
     mset (o_excludePayloadMatch a) = mset (o_excludePayloadMatch b) \<and>
     a\<lparr> o_subjects := [], o_excludeSubjects := [], o_headerPresent := [], o_headerValues := [], o_noHeader := [],
        o_payloadMatch := [], o_excludePayloadMatch := [] \<rparr> =
     b\<lparr> o_subjects := [], o_excludeSubjects := [], o_headerPresent := [], o_headerValues := [], o_noHeader := [],
        o_payloadMatch := [], o_excludePayloadMatch := [] \<rparr>"

lemma add_sorted_mset: "mset xs = mset ys \<Longrightarrow> add_sorted key xs = add_sorted key ys"
  using properties_for_sort [of "sort ys" xs] by (simp add: add_sorted_def)

text \<open>
  Equal option sets give equal meta files: the canonical form does not depend on the order in
  which subjects, headers and expressions were given.
\<close>

theorem canonical_order_independent:
  assumes "same_options a b"
  shows "canonical x a = canonical x b"
proof -
  let ?clr = "\<lambda>o1. o1\<lparr> o_subjects := [], o_excludeSubjects := [], o_headerPresent := [], o_headerValues := [],
      o_noHeader := [], o_payloadMatch := [], o_excludePayloadMatch := [] \<rparr>"
  have eq: "?clr a = ?clr b" using assms by (simp add: same_options_def)
  have flat: "o_after a = o_after b" "o_before a = o_before b" "o_hasAfter a = o_hasAfter b"
    "o_hasBefore a = o_hasBefore b" "o_firstSeq a = o_firstSeq b" "o_lastSeq a = o_lastSeq b"
    "o_hasFirstSeq a = o_hasFirstSeq b" "o_hasLastSeq a = o_hasLastSeq b" "o_lastPerSubject a = o_lastPerSubject b"
    "o_kvCompact a = o_kvCompact b" "o_renumber a = o_renumber b" "o_obfuscate a = o_obfuscate b"
    using arg_cong [OF eq, of o_after] arg_cong [OF eq, of o_before] arg_cong [OF eq, of o_hasAfter]
      arg_cong [OF eq, of o_hasBefore] arg_cong [OF eq, of o_firstSeq] arg_cong [OF eq, of o_lastSeq]
      arg_cong [OF eq, of o_hasFirstSeq] arg_cong [OF eq, of o_hasLastSeq] arg_cong [OF eq, of o_lastPerSubject]
      arg_cong [OF eq, of o_kvCompact] arg_cong [OF eq, of o_renumber] arg_cong [OF eq, of o_obfuscate]
    by simp_all
  note ms = assms [unfolded same_options_def, THEN conjunct1]
    assms [unfolded same_options_def, THEN conjunct2, THEN conjunct1]
    assms [unfolded same_options_def, THEN conjunct2, THEN conjunct2, THEN conjunct1]
    assms [unfolded same_options_def, THEN conjunct2, THEN conjunct2, THEN conjunct2, THEN conjunct1]
    assms [unfolded same_options_def, THEN conjunct2, THEN conjunct2, THEN conjunct2, THEN conjunct2, THEN conjunct1]
    assms [unfolded same_options_def, THEN conjunct2, THEN conjunct2, THEN conjunct2, THEN conjunct2, THEN conjunct2, THEN conjunct1]
    assms [unfolded same_options_def, THEN conjunct2, THEN conjunct2, THEN conjunct2, THEN conjunct2, THEN conjunct2, THEN conjunct2, THEN conjunct1]
  have lists: "add_sorted k (o_subjects a) = add_sorted k (o_subjects b)"
    "add_sorted k (o_excludeSubjects a) = add_sorted k (o_excludeSubjects b)"
    "add_sorted k (o_headerPresent a) = add_sorted k (o_headerPresent b)"
    "add_sorted k (o_noHeader a) = add_sorted k (o_noHeader b)"
    "add_sorted k (map f (o_headerValues a)) = add_sorted k (map f (o_headerValues b))"
    "add_sorted k (regexStrings (o_payloadMatch a)) = add_sorted k (regexStrings (o_payloadMatch b))"
    "add_sorted k (regexStrings (o_excludePayloadMatch a)) = add_sorted k (regexStrings (o_excludePayloadMatch b))" for k f
    by (intro add_sorted_mset, simp only: ms regexStrings_def mset_map)+
  show ?thesis unfolding canonical_def flat lists ..
qed

theorem canonical_order_independent_witness:
  "canonical no_lib (apply_options [Subjects [''a'', ''b''], NoHeader ''h'']) =
   canonical no_lib (apply_options [NoHeader ''h'', Subjects [''b'', ''a'']])"
  by (rule canonical_order_independent)
    (simp add: same_options_def apply_options_def Subjects_def NoHeader_def zeroOptions_def)

end
