(* ===== verification/Backup_Obfuscate.thy ===== *)
theory Backup_Obfuscate
  imports Backup_Types Names "HOL-Library.AList"
begin

text \<open>
  \<open>src/backup/obfuscate.go\<close>: the obfuscator that replaces identifying tokens with keyed hashes,
  field by field of a stream configuration, a consumer and a message, and the key file that
  reveals them again. The state is threaded by \<open>st_bind\<close>. HMAC-SHA-256 is the parameter \<open>x_hmac\<close>
  (32 bytes long where a lemma needs it); base32-hex is written out.
  Reading and writing the key file is I/O and JSON: \<open>key_file\<close> is its decoded content.
\<close>

record obfuscator =
  ob_secret :: bytes
  ob_forward :: "(string, string) gomap"
  ob_reverse :: "(string, string) gomap"
  ob_bodies :: u64

record obfuscationKeyFile =
  kf_Version :: int
  kf_Secret :: "bytes option"
  kf_Map :: "(string, string) gomap"

definition keyFileVersion :: int where "keyFileVersion = 1"
definition secretBytes :: nat where "secretBytes = 32"
definition minTokenChars :: nat where "minTokenChars = 16"
definition kvStreamPrefix :: string where "kvStreamPrefix = ''KV_''"
definition objStorePrefix :: string where "objStorePrefix = ''OBJ_''"
definition kvSubjectRoot :: string where "kvSubjectRoot = ''$KV''"
definition objSubjectRoot :: string where "objSubjectRoot = ''$O''"

subsection \<open>Hashes\<close>

definition byte_bits :: "char \<Rightarrow> bool list" where
  "byte_bits c = (let n = (of_char c :: nat) in map (\<lambda>i. odd (n div 2 ^ i)) [7, 6, 5, 4, 3, 2, 1, 0])"

fun bits_value :: "bool list \<Rightarrow> nat" where
  "bits_value [] = 0"
| "bits_value (b # bs) = (if b then 2 ^ length bs else 0) + bits_value bs"

text \<open>Base32-hex in lower case: \<open>0\<close> to \<open>9\<close>, then \<open>a\<close> to \<open>v\<close>.\<close>

definition base32_char :: "nat \<Rightarrow> char" where
  "base32_char v = char_of (if v < 10 then 48 + v else 87 + v)"

function (sequential) base32_bits :: "bool list \<Rightarrow> string" where
  "base32_bits [] = []"
| "base32_bits bs = base32_char (bits_value (take 5 (bs @ replicate 4 False))) # base32_bits (drop 5 bs)"
  by pat_completeness auto
termination by (relation "measure length") auto

definition base32_lower :: "bytes \<Rightarrow> string" where
  "base32_lower bs = base32_bits (concat (map byte_bits bs))"

definition be32 :: "nat \<Rightarrow> bytes" where
  "be32 n = map (\<lambda>i. char_of (n div 256 ^ i mod 256)) [3, 2, 1, 0]"

text \<open>
  The loop that extends the digest; \<open>sha256.Size\<close> is 32. Every round adds a digest, so \<open>need\<close>
  rounds of fuel are enough (\<open>length_obf_hash\<close>).
\<close>

fun hash_extend :: "(bytes \<Rightarrow> bytes) \<Rightarrow> string \<Rightarrow> nat \<Rightarrow> nat \<Rightarrow> nat \<Rightarrow> bytes \<Rightarrow> bytes" where
  "hash_extend mac tok need 0 block out = out"
| "hash_extend mac tok need (Suc fuel) block out =
     (if length out < need
      then hash_extend mac tok need fuel (block + 1) (out @ mac (drop (length out - 32) out @ tok @ be32 block))
      else out)"

definition obf_hash :: "lib \<Rightarrow> bytes \<Rightarrow> string \<Rightarrow> string" where
  "obf_hash x secret tok =
     (let chars = max minTokenChars (length tok);
          need = (chars * 5 + 7) div 8;
          out = hash_extend (x_hmac x secret) tok need need 1 (x_hmac x secret tok)
      in take chars (base32_lower (take need out)))"

subsection \<open>Tokens, subjects and names\<close>

type_synonym 'a obf = "(obfuscator, berr, 'a) st"

definition obf_token :: "lib \<Rightarrow> string \<Rightarrow> string obf" where
  "obf_token x tok ob =
     (if tok = [] then Inr (tok, ob)
      else case map_of (ob_forward ob) tok of
        Some h \<Rightarrow> Inr (h, ob)
      | None \<Rightarrow>
          (let h = obf_hash x (ob_secret ob) tok
           in case map_of (ob_reverse ob) h of
                Some other \<Rightarrow>
                  if other \<noteq> tok then Inl (HashCollision tok other)
                  else Inr (h, ob\<lparr> ob_forward := AList.update tok h (ob_forward ob),
                                   ob_reverse := AList.update h tok (ob_reverse ob) \<rparr>)
              | None \<Rightarrow> Inr (h, ob\<lparr> ob_forward := AList.update tok h (ob_forward ob),
                                   ob_reverse := AList.update h tok (ob_reverse ob) \<rparr>)))"

definition passes_through :: "bool \<Rightarrow> string \<Rightarrow> bool" where
  "passes_through mappingFuncs tok \<longleftrightarrow>
     tok = ''*'' \<or> tok = ''>'' \<or> tok = kvSubjectRoot \<or> tok = objSubjectRoot \<or>
     mappingFuncs \<and> has_prefix tok ''{{'' \<and> has_suffix tok ''}}''"

definition rewriteSubject :: "lib \<Rightarrow> bool \<Rightarrow> string \<Rightarrow> string obf" where
  "rewriteSubject x mappingFuncs subj =
     (if subj = [] then st_ret subj
      else st_bind
        (map_st (\<lambda>tok. if passes_through mappingFuncs tok then st_ret tok else obf_token x tok)
           (split_on (CHR ''.'') subj))
        (\<lambda>toks. st_ret (join_with ''.'' toks)))"

definition obf_subject :: "lib \<Rightarrow> string \<Rightarrow> string obf" where
  "obf_subject x subj = rewriteSubject x False subj"

definition obf_destination :: "lib \<Rightarrow> string \<Rightarrow> string obf" where
  "obf_destination x subj = rewriteSubject x True subj"

definition obf_subjects :: "lib \<Rightarrow> string list \<Rightarrow> string list obf" where
  "obf_subjects x subjs = map_st (obf_subject x) subjs"

definition obf_streamName :: "lib \<Rightarrow> string \<Rightarrow> string obf" where
  "obf_streamName x name =
     (case cut_prefix name kvStreamPrefix of
        Some (c # r) \<Rightarrow> st_bind (obf_token x (c # r)) (\<lambda>h. st_ret (kvStreamPrefix @ h))
      | _ \<Rightarrow>
          (case cut_prefix name objStorePrefix of
             Some (c # r) \<Rightarrow> st_bind (obf_token x (c # r)) (\<lambda>h. st_ret (objStorePrefix @ h))
           | _ \<Rightarrow> obf_token x name))"

subsection \<open>Configurations\<close>

definition obf_transform :: "lib \<Rightarrow> SubjectTransformConfig \<Rightarrow> SubjectTransformConfig obf" where
  "obf_transform x t =
     st_bind (obf_subject x (st_Source t)) (\<lambda>s.
     st_bind (obf_destination x (st_Destination t)) (\<lambda>d.
     st_ret \<lparr> st_Source = s, st_Destination = d \<rparr>))"

definition obf_transforms :: "lib \<Rightarrow> SubjectTransformConfig list \<Rightarrow> SubjectTransformConfig list obf" where
  "obf_transforms x ts = map_st (obf_transform x) ts"

definition obf_external :: "lib \<Rightarrow> ExternalStream option \<Rightarrow> ExternalStream option obf" where
  "obf_external x ex =
     (case ex of
        None \<Rightarrow> st_ret None
      | Some e \<Rightarrow>
          st_bind (obf_subject x (ex_ApiPrefix e)) (\<lambda>a.
          st_bind (obf_subject x (ex_DeliverPrefix e)) (\<lambda>d.
          st_ret (Some (e\<lparr> ex_ApiPrefix := a, ex_DeliverPrefix := d \<rparr>)))))"

definition obf_source_consumer :: "lib \<Rightarrow> StreamConsumerSource option \<Rightarrow> StreamConsumerSource option obf" where
  "obf_source_consumer x co =
     (case co of
        None \<Rightarrow> st_ret None
      | Some c \<Rightarrow>
          st_bind (obf_token x (scc_Name c)) (\<lambda>n.
          st_bind (obf_subject x (scc_DeliverSubject c)) (\<lambda>d.
          st_ret (Some (c\<lparr> scc_Name := n, scc_DeliverSubject := d \<rparr>)))))"

definition obf_streamSource :: "lib \<Rightarrow> StreamSource option \<Rightarrow> StreamSource option obf" where
  "obf_streamSource x so =
     (case so of
        None \<Rightarrow> st_ret None
      | Some src \<Rightarrow>
          st_bind (obf_streamName x (ss_Name src)) (\<lambda>n.
          st_bind (obf_subject x (ss_FilterSubject src)) (\<lambda>f.
          st_bind (obf_transforms x (ss_SubjectTransforms src)) (\<lambda>ts.
          st_bind (obf_external x (ss_External src)) (\<lambda>ex.
          st_bind (obf_source_consumer x (ss_Consumer src)) (\<lambda>co.
          st_ret (Some (src\<lparr> ss_Name := n, ss_FilterSubject := f, ss_SubjectTransforms := ts,
            ss_External := ex, ss_Consumer := co \<rparr>))))))))"

definition obf_republish :: "lib \<Rightarrow> RePublish option \<Rightarrow> RePublish option obf" where
  "obf_republish x rp =
     (case rp of
        None \<Rightarrow> st_ret None
      | Some r \<Rightarrow>
          st_bind (obf_subject x (rp_Source r)) (\<lambda>s.
          st_bind (obf_destination x (rp_Destination r)) (\<lambda>d.
          st_ret (Some (r\<lparr> rp_Source := s, rp_Destination := d \<rparr>)))))"

definition obf_config :: "lib \<Rightarrow> StreamConfig \<Rightarrow> StreamConfig obf" where
  "obf_config x cfg =
     st_bind (obf_streamName x (sc_Name cfg)) (\<lambda>n.
     st_bind (obf_subjects x (sc_Subjects cfg)) (\<lambda>ss.
     st_bind (obf_streamSource x (sc_Mirror cfg)) (\<lambda>mi.
     st_bind (map_st (obf_streamSource x) (sc_Sources cfg)) (\<lambda>srcs.
     st_bind (case sc_SubjectTransform cfg of
                None \<Rightarrow> st_ret None
              | Some t \<Rightarrow> st_bind (obf_transforms x [t]) (\<lambda>ts. st_ret (Some (hd ts)))) (\<lambda>tr.
     st_bind (obf_republish x (sc_RePublish cfg)) (\<lambda>rp.
     st_ret (cfg\<lparr> sc_Name := n, sc_Subjects := ss, sc_Mirror := mi, sc_Sources := srcs,
       sc_SubjectTransform := tr, sc_RePublish := rp,
       sc_Description := [], sc_Metadata := [], sc_Placement := None \<rparr>)))))))"

text \<open>
  A consumer entry, through nats-server's snapshot type. The decoder has checked that the
  configuration is there; without it the source dereferences a nil pointer.
\<close>

definition obf_consumer :: "lib \<Rightarrow> string \<Rightarrow> bytes \<Rightarrow> (string \<times> bytes) obf" where
  "obf_consumer x name data =
     (case x_unmarshalConsumer x data of
        Inl e \<Rightarrow> (\<lambda>ob. Inl (ObfConsumerJson name e))
      | Inr scs \<Rightarrow>
          (case scs_ConsumerConfig scs of
             None \<Rightarrow> (\<lambda>ob. Inl (OtherErr ''nil pointer''))
           | Some cfg \<Rightarrow>
               st_bind (obf_token x (sn_Durable cfg)) (\<lambda>du.
               st_bind (obf_token x (sn_Name cfg)) (\<lambda>nm.
               st_bind (obf_subject x (sn_FilterSubject cfg)) (\<lambda>fs.
               st_bind (obf_subjects x (sn_FilterSubjects cfg)) (\<lambda>fss.
               st_bind (obf_subject x (sn_DeliverSubject cfg)) (\<lambda>ds.
               st_bind (obf_token x (sn_DeliverGroup cfg)) (\<lambda>dg.
               st_bind (map_st (obf_token x) (sn_PriorityGroups cfg)) (\<lambda>pgs.
               st_bind (obf_token x name) (\<lambda>hashedName.
               st_ret (hashedName, x_marshalConsumer x (scs\<lparr> scs_ConsumerConfig :=
                 Some (cfg\<lparr> sn_Durable := du, sn_Name := nm, sn_FilterSubject := fs, sn_FilterSubjects := fss,
                   sn_DeliverSubject := ds, sn_DeliverGroup := dg, sn_PriorityGroups := pgs,
                   sn_Description := [], sn_Metadata := [] \<rparr>) \<rparr>))))))))))))"

subsection \<open>Messages\<close>

definition equalsAny :: "string \<Rightarrow> string list \<Rightarrow> bool" where
  "equalsAny key names = list_ex (equal_fold key) names"

definition obf_headerValue :: "lib \<Rightarrow> string \<Rightarrow> string \<Rightarrow> string obf" where
  "obf_headerValue x key val =
     (if equalsAny key (x_verbatimHeaders x) then st_ret val
      else if equalsAny key (x_subjectHeaders x) then obf_subject x val
      else obf_token x val)"

text \<open>\<open>encodeHeaders\<close> of \<open>src/backup/encoder.go\<close>: the block with keys sorted, empty for no headers.\<close>

definition crlf :: string where "crlf = [CHR 0x0D, CHR 0x0A]"

definition encodeHeaders :: "header \<Rightarrow> bytes" where
  "encodeHeaders h =
     (if length h = 0 then []
      else ''NATS/1.0'' @ crlf @
        concat (map (\<lambda>(key, vals). concat (map (\<lambda>val. key @ '': '' @ val @ crlf) vals)) (sort_key fst h)) @ crlf)"

definition obf_message :: "lib \<Rightarrow> string \<Rightarrow> header \<Rightarrow> (string \<times> bytes) obf" where
  "obf_message x subject h =
     st_bind (obf_subject x subject) (\<lambda>subj.
     if length h = 0 then st_ret (subj, [])
     else
       st_bind (map_st (\<lambda>(key, vals). st_bind (map_st (obf_headerValue x key) vals) (\<lambda>vs. st_ret (key, vs))) h)
         (\<lambda>mapped. st_ret (subj, encodeHeaders (filter (\<lambda>(_, vs). vs \<noteq> []) mapped))))"

subsection \<open>Key files\<close>

definition fresh_obfuscator :: "bytes \<Rightarrow> obfuscator" where
  "fresh_obfuscator secret = \<lparr> ob_secret = secret, ob_forward = [], ob_reverse = [], ob_bodies = 0 \<rparr>"

definition load_mapping :: "lib \<Rightarrow> string \<times> string \<Rightarrow> obfuscator \<Rightarrow> berr + obfuscator" where
  "load_mapping x p ob =
     (case p of (hashed, original) \<Rightarrow>
        if obf_hash x (ob_secret ob) original \<noteq> hashed then Inl (OtherErr ''mapping does not match the secret'')
        else Inr (ob\<lparr> ob_forward := AList.update original hashed (ob_forward ob),
                      ob_reverse := AList.update hashed original (ob_reverse ob) \<rparr>))"

text \<open>\<open>kf = None\<close> is no key file: \<open>rnd\<close> is the random secret drawn then.\<close>

definition newObfuscator :: "lib \<Rightarrow> bytes \<Rightarrow> obfuscationKeyFile option \<Rightarrow> berr + obfuscator" where
  "newObfuscator x rnd kf =
     (case kf of
        None \<Rightarrow> Inr (fresh_obfuscator rnd)
      | Some k \<Rightarrow>
          if kf_Version k \<noteq> keyFileVersion then Inl (OtherErr ''unsupported key file version'')
          else (case kf_Secret k of
                  None \<Rightarrow> Inl (OtherErr ''invalid secret'')
                | Some s \<Rightarrow>
                    if length s \<noteq> secretBytes then Inl (OtherErr ''invalid secret'')
                    else fold_err (load_mapping x) (kf_Map k) (fresh_obfuscator s)))"

definition reveal_token :: "(string, string) gomap \<Rightarrow> string \<Rightarrow> string" where
  "reveal_token rv tok =
     (case map_of rv tok of
        Some orig \<Rightarrow> orig
      | None \<Rightarrow>
          fold (\<lambda>pref t.
              case cut_prefix tok pref of
                None \<Rightarrow> t
              | Some rest \<Rightarrow> (case map_of rv rest of Some orig \<Rightarrow> pref @ orig | None \<Rightarrow> t))
            [kvStreamPrefix, objStorePrefix] tok)"

definition Reveal :: "(string, string) gomap \<Rightarrow> string \<Rightarrow> string" where
  "Reveal rv val = join_with ''.'' (map (reveal_token rv) (split_on (CHR ''.'') val))"

subsection \<open>The shape of a hash\<close>

definition base32_alphabet :: string where
  "base32_alphabet = map base32_char [0..<32]"

lemma bits_value_less: "bits_value bs < 2 ^ length bs"
  by (induction bs) auto

lemma base32_bits_alphabet: "set (base32_bits bs) \<subseteq> set base32_alphabet"
proof (induction bs rule: base32_bits.induct)
  case (2 b bs)
  have "length (take 5 ((b # bs) @ replicate 4 False)) = 5" by simp
  then have "bits_value (take 5 ((b # bs) @ replicate 4 False)) < 32"
    using bits_value_less [of "take 5 ((b # bs) @ replicate 4 False)"] by simp
  then have "base32_char (bits_value (take 5 ((b # bs) @ replicate 4 False))) \<in> set base32_alphabet"
    by (simp add: base32_alphabet_def)
  with 2 show ?case by simp
qed simp

lemma base32_bits_length: "length (base32_bits bs) = (length bs + 4) div 5"
proof (induction bs rule: base32_bits.induct)
  case (2 b bs)
  then show ?case by (cases "length bs < 5") (simp_all add: le_div_geq Suc_diff_le)
qed simp

lemma base32_lower_length: "length (base32_lower bs) = (8 * length bs + 4) div 5"
proof -
  have "length (concat (map byte_bits bs)) = 8 * length bs"
    by (induction bs) (simp_all add: byte_bits_def Let_def)
  then show ?thesis by (simp add: base32_lower_def base32_bits_length)
qed

lemma hash_extend_length:
  assumes "\<And>m. length (mac m) = 32"
  shows "need \<le> length out + 32 * fuel \<Longrightarrow> need \<le> length (hash_extend mac tok need fuel block out)"
proof (induction fuel arbitrary: block out)
  case 0
  then show ?case by simp
next
  case (Suc f)
  then show ?case by (simp add: assms)
qed

definition hmac_ok :: "lib \<Rightarrow> bool" where
  "hmac_ok x \<longleftrightarrow> (\<forall>k m. length (x_hmac x k m) = 32)"

lemma length_obf_hash:
  assumes "hmac_ok x"
  shows "length (obf_hash x secret tok) = max 16 (length tok)"
proof -
  define chars where "chars = max minTokenChars (length tok)"
  define need where "need = (chars * 5 + 7) div 8"
  let ?out = "hash_extend (x_hmac x secret) tok need need 1 (x_hmac x secret tok)"
  have "need \<le> length ?out"
    by (rule hash_extend_length) (use assms in \<open>simp_all add: hmac_ok_def\<close>)
  then have "length (base32_lower (take need ?out)) = (8 * need + 4) div 5"
    by (simp add: base32_lower_length)
  moreover have "chars \<le> (8 * need + 4) div 5"
  proof -
    have "chars * 5 \<le> 8 * need" unfolding need_def using mod_less_divisor [of 8 "chars * 5 + 7"]
      by (simp add: mult_div_mod_eq [symmetric] minus_mod_eq_mult_div [symmetric])
    then show ?thesis by linarith
  qed
  ultimately show ?thesis
    by (simp add: obf_hash_def Let_def chars_def [symmetric] need_def [symmetric])
      (simp add: chars_def minTokenChars_def)
qed

text \<open>
  A token's hash is as long as the token with a floor of 16 characters, whatever the length:
  the digest is extended until it suffices.
\<close>

theorem hash_length:
  assumes "hmac_ok x"
  shows "length (obf_hash x secret tok) = max 16 (length tok)"
  by (rule length_obf_hash [OF assms])

lemma hmac_ok_demo: "hmac_ok no_lib"
  by (auto simp: hmac_ok_def no_lib_def min_def)

theorem hash_length_witness:
  "length (obf_hash no_lib ''k'' ''orders'') = 16"
  using hash_length [OF hmac_ok_demo, of "''k''" "''orders''"] by simp

lemma hash_alphabet: "set (obf_hash x secret tok) \<subseteq> set base32_alphabet"
  unfolding obf_hash_def base32_lower_def Let_def using base32_bits_alphabet set_take_subset by fastforce

lemma base32_alphabet_eq: "base32_alphabet = ''0123456789abcdefghijklmnopqrstuv''"
  by code_simp

lemma alphabet_excludes [simp]:
  "CHR ''.'' \<notin> set base32_alphabet" "CHR ''K'' \<notin> set base32_alphabet" "CHR ''O'' \<notin> set base32_alphabet"
  "CHR ''{'' \<notin> set base32_alphabet"
  by (simp_all add: base32_alphabet_eq)

subsection \<open>The two maps stay inverse\<close>

definition obf_ok :: "lib \<Rightarrow> obfuscator \<Rightarrow> bool" where
  "obf_ok x ob \<longleftrightarrow>
     (\<forall>t h. map_of (ob_forward ob) t = Some h \<longrightarrow> h = obf_hash x (ob_secret ob) t \<and> map_of (ob_reverse ob) h = Some t) \<and>
     (\<forall>h t. map_of (ob_reverse ob) h = Some t \<longrightarrow> map_of (ob_forward ob) t = Some h)"

definition obf_extends :: "obfuscator \<Rightarrow> obfuscator \<Rightarrow> bool" where
  "obf_extends a b \<longleftrightarrow> map_of (ob_forward a) \<subseteq>\<^sub>m map_of (ob_forward b)"

lemma obf_extends_refl [simp]: "obf_extends a a"
  by (simp add: obf_extends_def)

lemma obf_extends_trans: "obf_extends a b \<Longrightarrow> obf_extends b c \<Longrightarrow> obf_extends a c"
  unfolding obf_extends_def by (rule map_le_trans)

lemma obf_ok_fresh: "obf_ok x (fresh_obfuscator secret)"
  by (simp add: obf_ok_def fresh_obfuscator_def)

lemma obf_okD:
  "obf_ok x ob \<Longrightarrow> map_of (ob_forward ob) t = Some h \<Longrightarrow>
     h = obf_hash x (ob_secret ob) t \<and> map_of (ob_reverse ob) h = Some t"
  unfolding obf_ok_def by blast

lemma obf_okD_reverse:
  "obf_ok x ob \<Longrightarrow> map_of (ob_reverse ob) h = Some t \<Longrightarrow> map_of (ob_forward ob) t = Some h"
  unfolding obf_ok_def by blast

lemma obf_ok_insert:
  assumes "obf_ok x ob" and "h = obf_hash x (ob_secret ob) t" and "map_of (ob_reverse ob) h = None"
  shows "obf_ok x (ob\<lparr> ob_forward := AList.update t h (ob_forward ob), ob_reverse := AList.update h t (ob_reverse ob) \<rparr>)"
proof -
  let ?ob = "ob\<lparr> ob_forward := AList.update t h (ob_forward ob), ob_reverse := AList.update h t (ob_reverse ob) \<rparr>"
  note f = obf_okD [OF assms(1)] and r = obf_okD_reverse [OF assms(1)]
  have "h1 = obf_hash x (ob_secret ?ob) t1 \<and> map_of (ob_reverse ?ob) h1 = Some t1"
    if "map_of (ob_forward ?ob) t1 = Some h1" for t1 h1
  proof (cases "t1 = t")
    case True
    with that assms(2) show ?thesis by (simp add: update_conv')
  next
    case False
    with that have "map_of (ob_forward ob) t1 = Some h1" by (simp add: update_conv')
    from f [OF this] have "h1 = obf_hash x (ob_secret ob) t1" "map_of (ob_reverse ob) h1 = Some t1" by blast+
    moreover have "h1 \<noteq> h" using calculation assms(3) by auto
    ultimately show ?thesis by (simp add: update_conv')
  qed
  moreover have "map_of (ob_forward ?ob) t1 = Some h1" if "map_of (ob_reverse ?ob) h1 = Some t1" for t1 h1
  proof (cases "h1 = h")
    case True
    with that show ?thesis by (simp add: update_conv')
  next
    case False
    with that have "map_of (ob_reverse ob) h1 = Some t1" by (simp add: update_conv')
    from r [OF this] f [OF r [OF this]]
    have "map_of (ob_forward ob) t1 = Some h1" "h1 = obf_hash x (ob_secret ob) t1" by blast+
    moreover have "t1 \<noteq> t" using calculation False assms(2) by auto
    ultimately show ?thesis by (simp add: update_conv')
  qed
  ultimately show ?thesis unfolding obf_ok_def by blast
qed

lemma obf_token_step:
  assumes "obf_ok x ob" and "obf_token x t ob = Inr (h, ob1)"
  shows "obf_ok x ob1 \<and> obf_extends ob ob1 \<and> (if t = [] then h = [] else map_of (ob_forward ob1) t = Some h)"
proof (cases "t = []")
  case True
  with assms show ?thesis by (simp add: obf_token_def)
next
  case False
  show ?thesis
  proof (cases "map_of (ob_forward ob) t")
    case (Some h')
    with assms False show ?thesis by (simp add: obf_token_def)
  next
    case None
    let ?h = "obf_hash x (ob_secret ob) t"
    have rnone: "map_of (ob_reverse ob) ?h = None"
    proof (rule ccontr)
      assume "map_of (ob_reverse ob) ?h \<noteq> None"
      then obtain t' where t': "map_of (ob_reverse ob) ?h = Some t'" by auto
      with assms(2) False None have "t' = t" by (simp add: obf_token_def Let_def split: if_splits)
      with obf_okD_reverse [OF assms(1) t'] None show False by simp
    qed
    with assms(2) False None have e: "h = ?h"
      "ob1 = ob\<lparr> ob_forward := AList.update t ?h (ob_forward ob), ob_reverse := AList.update ?h t (ob_reverse ob) \<rparr>"
      by (auto simp: obf_token_def Let_def)
    have "obf_ok x ob1" unfolding e(2) by (rule obf_ok_insert [OF assms(1) refl rnone])
    moreover have "obf_extends ob ob1"
      using None by (auto simp: e(2) obf_extends_def update_conv' map_le_def)
    ultimately show ?thesis using False by (simp add: e update_conv')
  qed
qed

text \<open>The steps of the obfuscator: they keep the invariant and only add mappings.\<close>

definition obf_step :: "lib \<Rightarrow> 'a obf \<Rightarrow> bool" where
  "obf_step x m \<longleftrightarrow> (\<forall>ob a ob1. obf_ok x ob \<longrightarrow> m ob = Inr (a, ob1) \<longrightarrow> obf_ok x ob1 \<and> obf_extends ob ob1)"

lemma obf_stepD: "obf_step x m \<Longrightarrow> obf_ok x ob \<Longrightarrow> m ob = Inr (a, ob1) \<Longrightarrow> obf_ok x ob1 \<and> obf_extends ob ob1"
  by (simp add: obf_step_def)

named_theorems obf_steps \<open>steps of the obfuscator\<close>

lemma obf_step_ret [obf_steps]: "obf_step x (st_ret a)"
  by (simp add: obf_step_def)

lemma obf_step_fail [obf_steps]: "obf_step x (\<lambda>ob. Inl e)"
  by (simp add: obf_step_def)

lemma obf_step_bind [obf_steps]: "obf_step x m \<Longrightarrow> (\<And>a. obf_step x (f a)) \<Longrightarrow> obf_step x (st_bind m f)"
  unfolding obf_step_def st_bind_Inr by (meson obf_extends_trans)

lemma obf_step_map [obf_steps]:
  assumes "\<And>a. obf_step x (f a)" shows "obf_step x (map_st f xs)"
proof -
  have "obf_ok x ob1 \<and> obf_extends ob ob1" if "obf_ok x ob" "map_st f xs ob = Inr (ys, ob1)" for ob ys ob1
    using that
  proof (induction xs arbitrary: ob ys)
    case (Cons a xs)
    then obtain b ob' ys' where "f a ob = Inr (b, ob')" "map_st f xs ob' = Inr (ys', ob1)"
      by (auto split: sum.splits prod.splits)
    with Cons assms show ?case unfolding obf_step_def by (meson obf_extends_trans)
  qed simp
  then show ?thesis by (auto simp: obf_step_def)
qed

lemma obf_step_if [obf_steps]:
  "obf_step x m \<Longrightarrow> obf_step x n \<Longrightarrow> obf_step x (if b then m else n)"
  by simp

lemma obf_step_option [obf_steps]:
  "obf_step x m \<Longrightarrow> (\<And>a. obf_step x (f a)) \<Longrightarrow> obf_step x (case z of None \<Rightarrow> m | Some a \<Rightarrow> f a)"
  by (simp split: option.split)

lemma obf_step_sum [obf_steps]:
  "(\<And>a. obf_step x (f a)) \<Longrightarrow> (\<And>a. obf_step x (g a)) \<Longrightarrow> obf_step x (case z of Inl a \<Rightarrow> f a | Inr b \<Rightarrow> g b)"
  by (simp split: sum.split)

lemma obf_step_pair [obf_steps]:
  "(\<And>a b. obf_step x (f a b)) \<Longrightarrow> obf_step x (case z of (a, b) \<Rightarrow> f a b)"
  by (simp split: prod.split)

lemma obf_step_token [obf_steps]: "obf_step x (obf_token x t)"
  using obf_token_step by (auto simp: obf_step_def)

lemma obf_step_rewrite [obf_steps]: "obf_step x (rewriteSubject x b s)"
  unfolding rewriteSubject_def by (intro obf_steps)

lemma obf_step_subject [obf_steps]: "obf_step x (obf_subject x s)" "obf_step x (obf_destination x s)"
  "obf_step x (obf_subjects x ss)"
  unfolding obf_subject_def obf_destination_def obf_subjects_def
  by (intro obf_steps; simp add: obf_steps [unfolded obf_subject_def])+

subsection \<open>A key file reveals what was obfuscated\<close>

lemma reverse_key_shape:
  assumes "obf_ok x ob" "hmac_ok x" "map_of (ob_reverse ob) h = Some t"
  shows "16 \<le> length h \<and> set h \<subseteq> set base32_alphabet"
proof -
  have "h = obf_hash x (ob_secret ob) t" using obf_okD [OF assms(1) obf_okD_reverse [OF assms(1,3)]] by blast
  then show ?thesis using length_obf_hash [OF assms(2)] hash_alphabet by simp
qed

text \<open>Tokens that were passed through are not taken for hashes.\<close>

lemma reveal_token_unmapped:
  assumes "map_of rv tok = None" "cut_prefix tok kvStreamPrefix = None" "cut_prefix tok objStorePrefix = None"
  shows "reveal_token rv tok = tok"
  using assms by (simp add: reveal_token_def)

lemma reveal_token_pass:
  assumes "obf_ok x ob" "hmac_ok x" "passes_through b tok \<or> tok = []"
  shows "reveal_token (ob_reverse ob) tok = tok"
proof (rule reveal_token_unmapped)
  have shape: "length tok < 16 \<or> CHR ''{'' \<in> set tok" "tok = [] \<or> hd tok \<noteq> CHR ''K'' \<and> hd tok \<noteq> CHR ''O''"
    using assms(3) by (auto simp: passes_through_def kvSubjectRoot_def objSubjectRoot_def has_prefix_iff)
  show "map_of (ob_reverse ob) tok = None"
  proof (rule ccontr)
    assume "map_of (ob_reverse ob) tok \<noteq> None"
    then obtain t where "map_of (ob_reverse ob) tok = Some t" by auto
    from reverse_key_shape [OF assms(1,2) this] shape(1) alphabet_excludes(4) show False by auto
  qed
  show "cut_prefix tok kvStreamPrefix = None" "cut_prefix tok objStorePrefix = None"
    using shape(2) by (auto simp: cut_prefix_None_iff has_prefix_iff kvStreamPrefix_def objStorePrefix_def)
qed

lemma reveal_token_hashed: "map_of rv h = Some t \<Longrightarrow> reveal_token rv h = t"
  by (simp add: reveal_token_def)

definition token_image :: "obfuscator \<Rightarrow> bool \<Rightarrow> string \<Rightarrow> string \<Rightarrow> bool" where
  "token_image ob b t t' \<longleftrightarrow>
     (passes_through b t \<or> t = []) \<and> t' = t \<or> t \<noteq> [] \<and> map_of (ob_forward ob) t = Some t'"

lemma token_image_extends: "obf_extends a b \<Longrightarrow> token_image a f t t' \<Longrightarrow> token_image b f t t'"
  by (auto simp: token_image_def obf_extends_def map_le_def) (metis domI)+

lemma rewrite_tokens:
  assumes "obf_ok x ob"
    and "map_st (\<lambda>tok. if passes_through b tok then st_ret tok else obf_token x tok) ts ob = Inr (ts', ob1)"
  shows "list_all2 (token_image ob1 b) ts ts'"
  using assms
proof (induction ts arbitrary: ob ts')
  case Nil
  then show ?case by simp
next
  case (Cons t ts)
  let ?f = "\<lambda>tok. if passes_through b tok then st_ret tok else obf_token x tok"
  from Cons.prems(2) obtain t' ob' ts1 where st: "?f t ob = Inr (t', ob')" "map_st ?f ts ob' = Inr (ts1, ob1)"
    "ts' = t' # ts1" by (auto split: sum.splits prod.splits)
  have "token_image ob' b t t' \<and> obf_ok x ob'"
  proof (cases "passes_through b t")
    case True
    with st(1) Cons.prems(1) show ?thesis by (simp add: token_image_def)
  next
    case False
    with st(1) have "obf_token x t ob = Inr (t', ob')" by simp
    from obf_token_step [OF Cons.prems(1) this] show ?thesis by (auto simp: token_image_def split: if_splits)
  qed
  then have img: "token_image ob' b t t'" and ok: "obf_ok x ob'" by simp_all
  have "obf_step x (map_st ?f ts)" by (intro obf_steps)
  with ok st(2) have "obf_extends ob' ob1" by (auto simp: obf_step_def)
  with img token_image_extends Cons.IH [OF ok st(2)] show ?case by (simp add: st(3))
qed

lemma token_image_reveal:
  assumes "obf_ok x ob" "hmac_ok x" "token_image ob b t t'"
  shows "reveal_token (ob_reverse ob) t' = t"
  using assms(3) reveal_token_pass [OF assms(1,2)] reveal_token_hashed obf_okD [OF assms(1)]
  by (auto simp: token_image_def)

lemma token_image_no_dot:
  assumes "obf_ok x ob" "token_image ob b t t'" "CHR ''.'' \<notin> set t"
  shows "CHR ''.'' \<notin> set t'"
  using assms(2,3) obf_okD [OF assms(1)] hash_alphabet alphabet_excludes(1) by (fastforce simp: token_image_def)

lemma reveal_images:
  assumes "obf_ok x ob" "hmac_ok x" "list_all2 (token_image ob b) ts ts'" "ts \<noteq> []" "\<forall>t \<in> set ts. CHR ''.'' \<notin> set t"
  shows "Reveal (ob_reverse ob) (join_with ''.'' ts') = join_with ''.'' ts"
proof -
  have "\<forall>t' \<in> set ts'. CHR ''.'' \<notin> set t'"
    using assms(3,5) token_image_no_dot [OF assms(1)]
    by (auto simp: list_all2_conv_all_nth in_set_conv_nth) (metis nth_mem)
  moreover have "ts' \<noteq> []" using assms(3,4) by auto
  ultimately have "split_on (CHR ''.'') (join_with ''.'' ts') = ts'" by (intro split_join) auto
  moreover have "map (reveal_token (ob_reverse ob)) ts' = ts"
    using assms(3) token_image_reveal [OF assms(1,2)]
    by (intro nth_equalityI) (auto simp: list_all2_conv_all_nth)
  ultimately show ?thesis by (simp add: Reveal_def)
qed

lemma reveal_rewritten:
  assumes "obf_ok x ob" "hmac_ok x" "rewriteSubject x b subj ob = Inr (h, ob1)"
    and "obf_ok x ob2" "obf_extends ob1 ob2"
  shows "Reveal (ob_reverse ob2) h = subj"
proof (cases "subj = []")
  case True
  with assms(3) have "h = []" by (simp add: rewriteSubject_def)
  moreover have "reveal_token (ob_reverse ob2) [] = []" by (rule reveal_token_pass [OF assms(4,2)]) simp
  ultimately show ?thesis using True by (simp add: Reveal_def)
next
  case False
  with assms(3) obtain ts' where ts': "map_st (\<lambda>tok. if passes_through b tok then st_ret tok else obf_token x tok)
      (split_on (CHR ''.'') subj) ob = Inr (ts', ob1)" "h = join_with ''.'' ts'"
    by (auto simp: rewriteSubject_def st_bind_Inr)
  have "list_all2 (token_image ob2 b) (split_on (CHR ''.'') subj) ts'"
    using rewrite_tokens [OF assms(1) ts'(1)] token_image_extends [OF assms(5)] by (auto elim: list_all2_mono)
  from reveal_images [OF assms(4,2) this] split_on_no_sep show ?thesis by (simp add: ts'(2))
qed

text \<open>
  C10. The key file reveals every obfuscated subject: whatever subject, filter or mapping destination
  was rewritten, revealing the result with the mappings held then, or at any later point, gives
  the original back, wildcards, roots, mapping functions and empty tokens included.
\<close>

theorem reveal_obfuscated_subject:
  assumes "obf_ok x ob" "hmac_ok x" "rewriteSubject x b subj ob = Inr (h, ob1)"
    and "obf_ok x ob2" "obf_extends ob1 ob2"
  shows "Reveal (ob_reverse ob2) h = subj"
  by (rule reveal_rewritten [OF assms])

theorem reveal_obfuscated_subject_witness:
  "\<exists>h ob1. rewriteSubject no_lib False ''$KV.orders.*'' (fresh_obfuscator ''k'') = Inr (h, ob1) \<and>
     Reveal (ob_reverse ob1) h = ''$KV.orders.*''"
proof -
  obtain h ob1 where r: "rewriteSubject no_lib False ''$KV.orders.*'' (fresh_obfuscator ''k'') = Inr (h, ob1)"
    by (simp add: rewriteSubject_def st_bind_def st_ret_def passes_through_def kvSubjectRoot_def objSubjectRoot_def
        obf_token_def fresh_obfuscator_def Let_def)
  have "obf_step no_lib (rewriteSubject no_lib False ''$KV.orders.*'')" by (intro obf_steps)
  from obf_stepD [OF this obf_ok_fresh r] have "obf_ok no_lib ob1" by simp
  with r reveal_obfuscated_subject [OF obf_ok_fresh hmac_ok_demo r] show ?thesis by auto
qed

text \<open>
  Obfuscation is injective: as long as no mapping is dropped, two different tokens never come
  out as the same hash.
\<close>

theorem obfuscated_tokens_distinct:
  assumes "obf_ok x ob" "hmac_ok x" "obf_token x a ob = Inr (h, ob1)"
    and "obf_ok x ob2" "obf_extends ob1 ob2" "obf_token x b ob2 = Inr (h', ob3)" "a \<noteq> b"
  shows "h \<noteq> h'"
proof
  assume eq: "h = h'"
  note A = obf_token_step [OF assms(1,3)] and B = obf_token_step [OF assms(4,6)]
  have ok: "obf_ok x ob3" and ext: "obf_extends ob1 ob3" using B obf_extends_trans [OF assms(5)] by blast+
  have img: "map_of (ob_forward ob3) t = Some k \<Longrightarrow> k \<noteq> []" for t k
    using obf_okD [OF ok] length_obf_hash [OF assms(2)] by (metis le_zero_eq list.size(3) max.cobounded1 not_numeral_le_zero)
  have a: "a \<noteq> [] \<Longrightarrow> map_of (ob_forward ob3) a = Some h"
    using A ext by (auto simp: obf_extends_def map_le_def) (metis domI)
  have b: "b \<noteq> [] \<Longrightarrow> map_of (ob_forward ob3) b = Some h'" using B by simp
  show False
  proof (cases "a = [] \<or> b = []")
    case True
    then show False
    proof
      assume "a = []"
      with A assms(7) have "h = []" "b \<noteq> []" by simp_all
      with b img [of b h'] eq show False by simp
    next
      assume "b = []"
      with B assms(7) have "h' = []" "a \<noteq> []" by simp_all
      with a img [of a h] eq show False by simp
    qed
  next
    case False
    with a b eq obf_okD [OF ok] assms(7) show False by (metis option.inject)
  qed
qed

theorem obfuscated_tokens_distinct_witness:
  "\<exists>h ob1 h' ob3. obf_token no_lib ''orders'' (fresh_obfuscator ''k'') = Inr (h, ob1) \<and>
     obf_token no_lib ''returns'' ob1 = Inr (h', ob3) \<and> h \<noteq> h'"
proof -
  obtain h ob1 where a: "obf_token no_lib ''orders'' (fresh_obfuscator ''k'') = Inr (h, ob1)"
    by (simp add: obf_token_def fresh_obfuscator_def Let_def)
  have ok: "obf_ok no_lib ob1" using obf_token_step [OF obf_ok_fresh a] by blast
  have "obf_hash no_lib ''k'' ''orders'' \<noteq> obf_hash no_lib ''k'' ''returns''" by code_simp
  with a obtain h' ob3 where b: "obf_token no_lib ''returns'' ob1 = Inr (h', ob3)"
    by (auto simp: obf_token_def fresh_obfuscator_def Let_def)
  have "h \<noteq> h'" by (rule obfuscated_tokens_distinct [OF obf_ok_fresh hmac_ok_demo a ok obf_extends_refl b]) simp
  with a b show ?thesis by blast
qed

subsection \<open>Names, configurations, consumers and messages\<close>

lemma obf_step_names [obf_steps]: "obf_step x (obf_streamName x n)"
  unfolding obf_streamName_def by (auto intro!: obf_steps split: option.split list.split)

lemma obf_step_config_parts [obf_steps]:
  "obf_step x (obf_transform x t)" "obf_step x (obf_external x ex)" "obf_step x (obf_source_consumer x co)"
  "obf_step x (obf_republish x rp)"
  unfolding obf_transform_def obf_external_def obf_source_consumer_def obf_republish_def
  by (intro obf_steps)+

lemma obf_step_transforms [obf_steps]: "obf_step x (obf_transforms x ts)"
  unfolding obf_transforms_def by (intro obf_steps)

lemma obf_step_source [obf_steps]: "obf_step x (obf_streamSource x so)"
  unfolding obf_streamSource_def by (intro obf_steps)

lemma obf_step_config [obf_steps]: "obf_step x (obf_config x cfg)"
  unfolding obf_config_def by (intro obf_steps)

lemma obf_step_consumer [obf_steps]: "obf_step x (obf_consumer x name data)"
  unfolding obf_consumer_def by (intro obf_steps)

lemma obf_step_headerValue [obf_steps]: "obf_step x (obf_headerValue x k v)"
  unfolding obf_headerValue_def by (intro obf_steps)

lemma obf_step_message [obf_steps]: "obf_step x (obf_message x subj h)"
  unfolding obf_message_def by (intro obf_steps)

lemma reveal_one: "CHR ''.'' \<notin> set t \<Longrightarrow> Reveal rv t = reveal_token rv t"
  by (simp add: Reveal_def split_on_no_occ)

lemma reveal_prefixed:
  assumes "obf_ok x ob" "hmac_ok x" "map_of (ob_reverse ob) h = Some r"
    and "pref = kvStreamPrefix \<or> pref = objStorePrefix"
  shows "Reveal (ob_reverse ob) (pref @ h) = pref @ r"
proof -
  note sh = reverse_key_shape [OF assms(1-3)]
  have nd: "CHR ''.'' \<notin> set (pref @ h)"
    using sh alphabet_excludes(1) assms(4) by (auto simp: kvStreamPrefix_def objStorePrefix_def)
  have "map_of (ob_reverse ob) (pref @ h) = None"
  proof (rule ccontr)
    assume "map_of (ob_reverse ob) (pref @ h) \<noteq> None"
    then obtain t where "map_of (ob_reverse ob) (pref @ h) = Some t" by auto
    from reverse_key_shape [OF assms(1,2) this] assms(4) alphabet_excludes(2,3) show False
      by (auto simp: kvStreamPrefix_def objStorePrefix_def)
  qed
  then have "reveal_token (ob_reverse ob) (pref @ h) = pref @ r"
    using assms(3,4)
    by (auto simp: reveal_token_def cut_prefix_def has_prefix_def kvStreamPrefix_def objStorePrefix_def)
  then show ?thesis by (simp add: reveal_one [OF nd])
qed

lemma streamName_cases:
  assumes "obf_streamName x name ob = Inr (n, ob1)"
  shows "(\<exists>pref r h. (pref = kvStreamPrefix \<or> pref = objStorePrefix) \<and> name = pref @ r \<and> r \<noteq> [] \<and>
      obf_token x r ob = Inr (h, ob1) \<and> n = pref @ h) \<or> obf_token x name ob = Inr (n, ob1)"
proof -
  let ?obj = "case cut_prefix name objStorePrefix of
      Some (c # r) \<Rightarrow> st_bind (obf_token x (c # r)) (\<lambda>h. st_ret (objStorePrefix @ h))
    | _ \<Rightarrow> obf_token x name"
  have obj: "(\<exists>r h. name = objStorePrefix @ r \<and> r \<noteq> [] \<and> obf_token x r ob = Inr (h, ob1) \<and> n = objStorePrefix @ h)
      \<or> obf_token x name ob = Inr (n, ob1)" if "?obj ob = Inr (n, ob1)"
  proof (cases "cut_prefix name objStorePrefix")
    case None
    with that show ?thesis by simp
  next
    case (Some r)
    then have "name = objStorePrefix @ r" by (simp add: cut_prefix_Some_iff)
    with that Some show ?thesis by (cases r) (auto simp: st_bind_Inr)
  qed
  show ?thesis
  proof (cases "cut_prefix name kvStreamPrefix")
    case None
    with assms have "?obj ob = Inr (n, ob1)" by (simp add: obf_streamName_def)
    from obj [OF this] show ?thesis by blast
  next
    case (Some r)
    then have nm: "name = kvStreamPrefix @ r" by (simp add: cut_prefix_Some_iff)
    show ?thesis
    proof (cases r)
      case Nil
      with assms Some have "?obj ob = Inr (n, ob1)" by (simp add: obf_streamName_def)
      from obj [OF this] show ?thesis by blast
    next
      case (Cons c r')
      with assms Some obtain h where "obf_token x r ob = Inr (h, ob1)" "n = kvStreamPrefix @ h"
        by (auto simp: obf_streamName_def st_bind_Inr)
      with nm Cons show ?thesis by blast
    qed
  qed
qed

lemma reveal_stream_name:
  assumes "obf_ok x ob" "hmac_ok x" "obf_streamName x name ob = Inr (n, ob1)" "CHR ''.'' \<notin> set name"
    and "obf_ok x ob2" "obf_extends ob1 ob2"
  shows "Reveal (ob_reverse ob2) n = name"
  using streamName_cases [OF assms(3)]
proof (elim disjE exE conjE)
  have later: "map_of (ob_reverse ob2) h = Some t" if "map_of (ob_forward ob1) t = Some h" for t h
    using that assms(6) obf_okD [OF assms(5)] by (auto simp: obf_extends_def map_le_def) (metis domI)
  have tok: "map_of (ob_reverse ob2) h = Some t" if "obf_token x t ob = Inr (h, ob1)" "t \<noteq> []" for t h
    using obf_token_step [OF assms(1) that(1)] that(2) later by simp
  show "Reveal (ob_reverse ob2) n = name"
    if "name = pref @ r" "r \<noteq> []" "obf_token x r ob = Inr (h, ob1)" "n = pref @ h" "pref = kvStreamPrefix" for pref r h
    using reveal_prefixed [OF assms(5,2) tok [OF that(3,2)], of pref] that by simp
  show "Reveal (ob_reverse ob2) n = name"
    if "name = pref @ r" "r \<noteq> []" "obf_token x r ob = Inr (h, ob1)" "n = pref @ h" "pref = objStorePrefix" for pref r h
    using reveal_prefixed [OF assms(5,2) tok [OF that(3,2)], of pref] that by simp
  show "Reveal (ob_reverse ob2) n = name" if "obf_token x name ob = Inr (n, ob1)"
  proof (cases "name = []")
    case True
    with that have "n = []" by (simp add: obf_token_def)
    with True show ?thesis using reveal_token_pass [OF assms(5,2), of False "[]"] by (simp add: Reveal_def)
  next
    case False
    note t = tok [OF that False]
    have "CHR ''.'' \<notin> set n" using reverse_key_shape [OF assms(5,2) t] alphabet_excludes(1) by auto
    with t show ?thesis by (simp add: reveal_one reveal_token_hashed)
  qed
qed

lemma reveal_subjects:
  assumes "obf_ok x ob" "hmac_ok x" "obf_subjects x ss ob = Inr (hs, ob1)"
    and "obf_ok x ob2" "obf_extends ob1 ob2"
  shows "map (Reveal (ob_reverse ob2)) hs = ss"
  using assms(1,3)
proof (induction ss arbitrary: ob hs)
  case Nil
  then show ?case by (simp add: obf_subjects_def)
next
  case (Cons s ss)
  then obtain h ob' hs' where st: "obf_subject x s ob = Inr (h, ob')" "obf_subjects x ss ob' = Inr (hs', ob1)" "hs = h # hs'"
    by (auto simp: obf_subjects_def split: sum.splits prod.splits)
  from obf_stepD [OF obf_step_subject(1) Cons.prems(1) st(1)] have ok: "obf_ok x ob'" by simp
  from obf_stepD [OF obf_step_subject(3) ok st(2)] have "obf_extends ob' ob2"
    using obf_extends_trans [OF _ assms(5)] by blast
  from reveal_rewritten [OF Cons.prems(1) assms(2) st(1) [unfolded obf_subject_def] assms(4) this]
  show ?case using Cons.IH [OF ok st(2)] by (simp add: st(3))
qed

text \<open>
  An obfuscated configuration hides the descriptive fields, keeps everything that limits or
  retains messages as it was, and its name and subjects are revealed by the key file.
\<close>

theorem obfuscated_config:
  assumes "obf_ok x ob" "hmac_ok x" "obf_config x cfg ob = Inr (cfg', ob1)" "IsValidName (sc_Name cfg)"
  shows "Reveal (ob_reverse ob1) (sc_Name cfg') = sc_Name cfg \<and>
    map (Reveal (ob_reverse ob1)) (sc_Subjects cfg') = sc_Subjects cfg \<and>
    sc_Description cfg' = [] \<and> sc_Metadata cfg' = [] \<and> sc_Placement cfg' = None \<and>
    cfg'\<lparr> sc_Name := [], sc_Subjects := [], sc_Mirror := None, sc_Sources := [], sc_SubjectTransform := None,
      sc_RePublish := None \<rparr> =
    cfg\<lparr> sc_Name := [], sc_Subjects := [], sc_Mirror := None, sc_Sources := [], sc_SubjectTransform := None,
      sc_RePublish := None, sc_Description := [], sc_Metadata := [], sc_Placement := None \<rparr>"
proof -
  from assms(3) obtain n oa ss oc mi od srcs oe tr og rp where st:
    "obf_streamName x (sc_Name cfg) ob = Inr (n, oa)" "obf_subjects x (sc_Subjects cfg) oa = Inr (ss, oc)"
    "obf_streamSource x (sc_Mirror cfg) oc = Inr (mi, od)" "map_st (obf_streamSource x) (sc_Sources cfg) od = Inr (srcs, oe)"
    "(case sc_SubjectTransform cfg of None \<Rightarrow> st_ret None
        | Some t \<Rightarrow> st_bind (obf_transforms x [t]) (\<lambda>ts. st_ret (Some (hd ts)))) oe = Inr (tr, og)"
    "obf_republish x (sc_RePublish cfg) og = Inr (rp, ob1)"
    "cfg' = cfg\<lparr> sc_Name := n, sc_Subjects := ss, sc_Mirror := mi, sc_Sources := srcs,
       sc_SubjectTransform := tr, sc_RePublish := rp, sc_Description := [], sc_Metadata := [], sc_Placement := None \<rparr>"
    unfolding obf_config_def st_bind_Inr st_ret_Inr by blast
  have a: "obf_ok x oa" using obf_stepD [OF obf_step_names assms(1) st(1)] by simp
  have c: "obf_ok x oc" "obf_extends oa oc" using obf_stepD [OF obf_step_subject(3) a st(2)] by simp_all
  have d: "obf_ok x od" "obf_extends oc od" using obf_stepD [OF obf_step_source c(1) st(3)] by simp_all
  have e: "obf_ok x oe" "obf_extends od oe"
    using obf_stepD [OF obf_step_map [OF obf_step_source] d(1) st(4)] by simp_all
  have "obf_step x (case sc_SubjectTransform cfg of None \<Rightarrow> st_ret None
        | Some t \<Rightarrow> st_bind (obf_transforms x [t]) (\<lambda>ts. st_ret (Some (hd ts))))" by (intro obf_steps)
  from obf_stepD [OF this e(1) st(5)] have g: "obf_ok x og" "obf_extends oe og" by simp_all
  have r: "obf_ok x ob1" "obf_extends og ob1" using obf_stepD [OF obf_step_config_parts(4) g(1) st(6)] by simp_all
  have x2: "obf_extends oc ob1" using d e g r obf_extends_trans by metis
  have x1: "obf_extends oa ob1" using c x2 obf_extends_trans by metis
  have nd: "CHR ''.'' \<notin> set (sc_Name cfg)"
    using assms(4) by (auto simp: IsValidName_def contains_any_def list_ex_iff nameStopChars_def split: if_splits)
  show ?thesis
    using reveal_stream_name [OF assms(1,2) st(1) nd r(1) x1] reveal_subjects [OF a assms(2) st(2) r(1) x2]
    by (simp add: st(7))
qed

theorem obfuscated_config_witness:
  "\<exists>cfg' ob1. obf_config no_lib (zeroStreamConfig ''ORDERS'') (fresh_obfuscator ''k'') = Inr (cfg', ob1) \<and>
     Reveal (ob_reverse ob1) (sc_Name cfg') = ''ORDERS''"
proof -
  obtain cfg' ob1 where c: "obf_config no_lib (zeroStreamConfig ''ORDERS'') (fresh_obfuscator ''k'') = Inr (cfg', ob1)"
    by (simp add: obf_config_def zeroStreamConfig_def st_bind_def st_ret_def obf_streamName_def obf_subjects_def
        obf_streamSource_def obf_republish_def cut_prefix_def has_prefix_def kvStreamPrefix_def objStorePrefix_def
        obf_token_def fresh_obfuscator_def Let_def)
  have "IsValidName (sc_Name (zeroStreamConfig ''ORDERS''))"
    by (simp add: IsValidName_def zeroStreamConfig_def contains_any_def nameStopChars_def)
  from obfuscated_config [OF obf_ok_fresh hmac_ok_demo c this] c show ?thesis
    by (auto simp: zeroStreamConfig_def)
qed

lemma load_run:
  assumes "fold_err (load_mapping x) al ob0 = Inr ob" "obf_ok x ob0" "distinct (map fst al)"
    and "\<forall>h \<in> fst ` set al. map_of (ob_reverse ob0) h = None"
  shows "obf_ok x ob \<and> (\<forall>h t. map_of (ob_reverse ob0) h = Some t \<longrightarrow> map_of (ob_reverse ob) h = Some t) \<and>
    (\<forall>(h, t) \<in> set al. map_of (ob_reverse ob) h = Some t)"
  using assms
proof (induction al arbitrary: ob0)
  case Nil
  then show ?case by simp
next
  case (Cons p al)
  obtain h t where p: "p = (h, t)" by (cases p)
  from Cons.prems(1) obtain ob' where step: "load_mapping x p ob0 = Inr ob'" "fold_err (load_mapping x) al ob' = Inr ob"
    by (cases "load_mapping x p ob0") auto
  from step(1) have hash: "h = obf_hash x (ob_secret ob0) t"
    by (auto simp: load_mapping_def p split: if_splits)
  let ?ob1 = "ob0\<lparr> ob_forward := AList.update t h (ob_forward ob0), ob_reverse := AList.update h t (ob_reverse ob0) \<rparr>"
  from step(1) hash have "ob' = ?ob1" by (simp add: load_mapping_def p)
  with step(2) have rest: "fold_err (load_mapping x) al ?ob1 = Inr ob" by simp
  have none: "map_of (ob_reverse ob0) h = None" using Cons.prems(4) p by simp
  have ok: "obf_ok x ?ob1" by (rule obf_ok_insert [OF Cons.prems(2) hash none])
  have fresh: "\<forall>h' \<in> fst ` set al. map_of (ob_reverse ?ob1) h' = None"
    using Cons.prems(3,4) p by (auto simp: update_conv')
  from Cons.IH [OF rest ok _ fresh] Cons.prems(3)
  have ih: "obf_ok x ob" "\<And>h' t'. map_of (ob_reverse ?ob1) h' = Some t' \<Longrightarrow> map_of (ob_reverse ob) h' = Some t'"
    "\<forall>(h', t') \<in> set al. map_of (ob_reverse ob) h' = Some t'" by simp_all
  have "map_of (ob_reverse ob) h = Some t" by (rule ih(2)) (simp add: update_conv')
  moreover have "map_of (ob_reverse ob) h' = Some t'" if "map_of (ob_reverse ob0) h' = Some t'" for h' t'
    using that none by (intro ih(2)) (auto simp: update_conv')
  ultimately show ?case using ih(1,3) p by simp
qed

text \<open>
  A key file that loads is sound: if every mapping verifies against the secret, the two maps
  are inverse to each other and agree with the hash, so whatever it holds it reveals.
\<close>

theorem key_file_sound:
  assumes "newObfuscator x rnd kf = Inr ob" and "\<forall>k. kf = Some k \<longrightarrow> distinct (map fst (kf_Map k))"
  shows "obf_ok x ob \<and>
    (\<forall>k h t. kf = Some k \<longrightarrow> (h, t) \<in> set (kf_Map k) \<longrightarrow>
       h = obf_hash x (ob_secret ob) t \<and> map_of (ob_reverse ob) h = Some t)"
proof (cases kf)
  case None
  with assms(1) show ?thesis by (auto simp: newObfuscator_def obf_ok_fresh)
next
  case (Some k)
  with assms obtain sec where load: "fold_err (load_mapping x) (kf_Map k) (fresh_obfuscator sec) = Inr ob"
    and dist: "distinct (map fst (kf_Map k))"
    by (auto simp: newObfuscator_def split: if_splits option.splits)
  have run: "obf_ok x ob \<and> (\<forall>(h, t) \<in> set (kf_Map k). map_of (ob_reverse ob) h = Some t)"
    using load_run [OF load obf_ok_fresh dist] by (simp add: fresh_obfuscator_def)
  then have "h = obf_hash x (ob_secret ob) t" if "map_of (ob_reverse ob) h = Some t" for h t
    using obf_okD obf_okD_reverse that by blast
  with run Some show ?thesis by auto
qed

theorem key_file_sound_witness:
  "\<exists>ob. newObfuscator no_lib [] (Some \<lparr> kf_Version = 1, kf_Secret = Some (replicate 32 CHR ''s''), kf_Map = [] \<rparr>) = Inr ob
     \<and> obf_ok no_lib ob"
proof -
  let ?kf = "Some \<lparr> kf_Version = 1, kf_Secret = Some (replicate 32 CHR ''s''), kf_Map = [] \<rparr>"
  obtain ob where "newObfuscator no_lib [] ?kf = Inr ob"
    by (simp add: newObfuscator_def keyFileVersion_def secretBytes_def)
  with key_file_sound [OF this] show ?thesis by auto
qed

end
