(* ===== verification/Backup_Edit.thy ===== *)
theory Backup_Edit
  imports Backup_Decoder Backup_Filter Backup_Obfuscate Names
begin

text \<open>
  \<open>src/backup/edit.go\<close> with the encoder of \<open>encoder.go\<close> and the data of \<open>metafile.go\<close>: an edit
  reads the source archive once, or twice for a per-subject edit, and writes a new one.

  The output file is its leading \<open>state.json\<close> entry (\<open>e_head\<close>) and the entries after it
  (\<open>e_enc\<close>, \<open>None\<close> without an encoder); writing to it does not fail. The environment of an edit is
  the record \<open>edit_env\<close>: \<open>ctx.Err()\<close> by pass and item, the result of \<open>finishDigest\<close> and the
  result of \<open>rewind\<close>: the archive as it is then, which need not be the one read first.
\<close>

subsection \<open>The encoder\<close>

text \<open>\<open>path.Clean\<close> of a relative path and \<open>path.Join("consumers", name)\<close>.\<close>

fun clean_elems :: "string list \<Rightarrow> string list \<Rightarrow> string list" where
  "clean_elems [] st = List.rev st"
| "clean_elems (e # es) st =
     (if e = [] \<or> e = ''.'' then clean_elems es st
      else if e = ''..'' then
        (case st of
           [] \<Rightarrow> clean_elems es [''..'']
         | t # ts \<Rightarrow> if t = ''..'' then clean_elems es (''..'' # st) else clean_elems es ts)
      else clean_elems es (e # st))"

definition path_Clean :: "string \<Rightarrow> string" where
  "path_Clean p =
     (let es = clean_elems (split_on (CHR ''/'') p) [] in if es = [] then ''.'' else join_with ''/'' es)"

definition consumer_path :: "string \<Rightarrow> string" where
  "consumer_path name = path_Clean (if name = [] then ''consumers'' else ''consumers/'' @ name)"

definition writeEntry :: "string \<Rightarrow> int \<Rightarrow> bytes \<Rightarrow> arc_entry list \<Rightarrow> arc_entry list" where
  "writeEntry name ts data out =
     out @ [\<lparr> ent_hdr = \<lparr> h_Name = name, h_Timestamp = ts, h_Sequence = 0, h_HeaderSize = 0,
                h_PayloadSize = length data \<rparr>, ent_body = bytes_reader data \<rparr>]"

definition WriteState :: "lib \<Rightarrow> int \<Rightarrow> StreamState \<Rightarrow> arc_entry list \<Rightarrow> arc_entry list" where
  "WriteState x ts st out = writeEntry stateEntry ts (x_marshalState x st) out"

definition WriteConsumer :: "string \<Rightarrow> int \<Rightarrow> bytes \<Rightarrow> arc_entry list \<Rightarrow> arc_entry list" where
  "WriteConsumer name ts data out = writeEntry (consumer_path name) ts data out"

definition WriteMessage :: "Message \<Rightarrow> arc_entry list \<Rightarrow> berr + arc_entry list" where
  "WriteMessage m out =
     (let want = m_HdrSize m + m_PayloadSize m;
          got = take want (r_data (m_Body m));
          entry = \<lparr> ent_hdr = \<lparr> h_Name = m_Subject m, h_Timestamp = m_Ts m, h_Sequence = m_Seq m,
                      h_HeaderSize = m_HdrSize m, h_PayloadSize = m_PayloadSize m \<rparr>,
                    ent_body = bytes_reader got \<rparr>
      in if want > 0 then
           (if length got < want \<and> r_fail (m_Body m) \<noteq> None then Inl (CopyBody (the (r_fail (m_Body m))))
            else if length got \<noteq> want then Inl (BodyShort (m_Subject m) (m_Seq m) (length got) want)
            else Inr (out @ [entry]))
         else Inr (out @ [entry]))"

definition writeMessageBytes :: "string \<Rightarrow> u64 \<Rightarrow> int \<Rightarrow> bytes \<Rightarrow> bytes \<Rightarrow> arc_entry list \<Rightarrow> arc_entry list" where
  "writeMessageBytes subject sq ts hdr body out =
     out @ [\<lparr> ent_hdr = \<lparr> h_Name = subject, h_Timestamp = ts, h_Sequence = sq, h_HeaderSize = length hdr,
                h_PayloadSize = length body \<rparr>, ent_body = bytes_reader (hdr @ body) \<rparr>]"

definition WriteEnd :: "arc_entry list \<Rightarrow> arc_entry list" where
  "WriteEnd out = writeEntry [] 0 [] out"

text \<open>The head: \<open>state.json\<close> padded with spaces to the width of the widest one.\<close>

definition stateHeadPad :: "lib \<Rightarrow> nat" where
  "stateHeadPad x = length (x_marshalState x (zeroStreamState\<lparr> sst_Msgs := - 1, sst_Bytes := - 1,
     sst_FirstSeq := - 1, sst_LastSeq := - 1, sst_Consumers := 2 ^ 63 - 1 \<rparr>))"

definition encodeStateHead :: "lib \<Rightarrow> int \<Rightarrow> StreamState \<Rightarrow> berr + arc_entry" where
  "encodeStateHead x ts st =
     (let js = x_marshalState x st
      in if length js > stateHeadPad x then Inl (HeadTooLarge (length js) (stateHeadPad x))
         else (let js1 = js @ replicate (stateHeadPad x - length js) CHR '' ''
               in Inr \<lparr> ent_hdr = \<lparr> h_Name = stateEntry, h_Timestamp = ts, h_Sequence = 0, h_HeaderSize = 0,
                          h_PayloadSize = length js1 \<rparr>, ent_body = bytes_reader js1 \<rparr>))"

subsection \<open>Reports and meta files\<close>

record DropCounts =
  dc_Sequence :: u64
  dc_Time :: u64
  dc_Subject :: u64
  dc_Header :: u64
  dc_Payload :: u64
  dc_LastPerSubject :: u64
  dc_KVCompact :: u64

definition zeroDropCounts :: DropCounts where
  "zeroDropCounts = \<lparr> dc_Sequence = 0, dc_Time = 0, dc_Subject = 0, dc_Header = 0, dc_Payload = 0,
     dc_LastPerSubject = 0, dc_KVCompact = 0 \<rparr>"

definition Total :: "DropCounts \<Rightarrow> u64" where
  "Total d = dc_Sequence d + dc_Time d + dc_Subject d + dc_Header d + dc_Payload d + dc_LastPerSubject d + dc_KVCompact d"

fun drop_add :: "dropKind \<Rightarrow> DropCounts \<Rightarrow> DropCounts" where
  "drop_add dropSequence d = d\<lparr> dc_Sequence := dc_Sequence d + 1 \<rparr>"
| "drop_add dropTime d = d\<lparr> dc_Time := dc_Time d + 1 \<rparr>"
| "drop_add dropSubject d = d\<lparr> dc_Subject := dc_Subject d + 1 \<rparr>"
| "drop_add dropHeader d = d\<lparr> dc_Header := dc_Header d + 1 \<rparr>"
| "drop_add dropPayload d = d\<lparr> dc_Payload := dc_Payload d + 1 \<rparr>"
| "drop_add dropLastPerSubject d = d\<lparr> dc_LastPerSubject := dc_LastPerSubject d + 1 \<rparr>"
| "drop_add dropKVCompact d = d\<lparr> dc_KVCompact := dc_KVCompact d + 1 \<rparr>"
| "drop_add keep d = d"

record ObfuscationReport =
  or_TokensMapped :: nat
  or_BodiesPadded :: u64

datatype warning = WarnMaxMsgs u64 int u64 | WarnMaxBytes u64 int | WarnMaxAge u64 int | WarnMaxMsgsPer int int

record Report =
  rep_SourceMessages :: u64
  rep_Kept :: u64
  rep_SourceSubjects :: nat
  rep_KeptSubjects :: nat
  rep_Dropped :: DropCounts
  rep_ConsumersKept :: int
  rep_ConsumersDropped :: int
  rep_TombstonesRemoved :: u64
  rep_SubjectStateKeys :: u64
  rep_SubjectStateBytes :: u64
  rep_Warnings :: "warning list"
  rep_Obfuscation :: "ObfuscationReport option"

definition zeroReport :: Report where
  "zeroReport = \<lparr> rep_SourceMessages = 0, rep_Kept = 0, rep_SourceSubjects = 0, rep_KeptSubjects = 0,
     rep_Dropped = zeroDropCounts, rep_ConsumersKept = 0, rep_ConsumersDropped = 0, rep_TombstonesRemoved = 0,
     rep_SubjectStateKeys = 0, rep_SubjectStateBytes = 0, rep_Warnings = [], rep_Obfuscation = None \<rparr>"

record EditInfo =
  ei_Version :: string
  ei_Options :: "string list"
  ei_SourceDigest :: string
  ei_Obfuscated :: bool

record SourceInfo =
  si_Subjects :: "string list"
  si_Stream :: string
  si_Started :: gotime
  si_Ended :: gotime
  si_Dropped :: u64

record metaFile =
  mf_Config :: StreamConfig
  mf_State :: StreamState
  mf_Edit :: "EditInfo option"
  mf_Source :: "SourceInfo option"

record editResult =
  er_Config :: StreamConfig
  er_State :: StreamState
  er_Report :: Report

subsection \<open>The editor\<close>

record editor =
  e_op :: editOptions
  e_meta :: metaFile
  e_cfg :: StreamConfig
  e_now :: gotime
  e_enc :: "arc_entry list option"
  e_head :: "arc_entry option"
  e_headTs :: int
  e_obf :: "obfuscator option"
  e_srcState :: StreamState
  e_firstOut :: u64
  e_bytes :: u64
  e_overAge :: u64
  e_digest :: string
  e_report :: Report
  e_srcSubjects :: subjectCounter
  e_keptSubjects :: "subjectCounter option"
  e_keptSubjectCount :: nat

definition srcLastSeq :: "editor \<Rightarrow> u64" where
  "srcLastSeq e = max (sst_LastSeq (e_srcState e)) (sst_LastSeq (mf_State (e_meta e)))"

definition archiveState :: "editor \<Rightarrow> (u64 \<times> u64) option \<Rightarrow> StreamState" where
  "archiveState e exact =
     (let st = zeroStreamState\<lparr> sst_FirstSeq := sst_FirstSeq (e_srcState e), sst_LastSeq := srcLastSeq e,
                 sst_Consumers := sst_Consumers (e_srcState e) \<rparr>;
          st1 = (if o_renumber (e_op e)
                 then st\<lparr> sst_FirstSeq := 1, sst_LastSeq := 0, sst_Consumers := 0 \<rparr> else st)
      in case exact of
           None \<Rightarrow> st1
         | Some (msgs, bs) \<Rightarrow>
             (let st2 = st1\<lparr> sst_Msgs := msgs, sst_Bytes := bs \<rparr>
              in if o_renumber (e_op e) then st2\<lparr> sst_LastSeq := msgs \<rparr> else st2))"

text \<open>The output file is there exactly when the encoder is.\<close>

definition writeState :: "lib \<Rightarrow> int \<Rightarrow> editor \<Rightarrow> berr + editor" where
  "writeState x ts e =
     (if e_enc e = None then Inr e
      else
        (let e1 = e\<lparr> e_headTs := ts \<rparr>
         in case encodeStateHead x ts (archiveState e1 None) of
              Inl er \<Rightarrow> Inl er
            | Inr head \<Rightarrow> Inr (e1\<lparr> e_head := Some head \<rparr>)))"

definition writeConsumer :: "lib \<Rightarrow> Consumer \<Rightarrow> editor \<Rightarrow> berr + editor" where
  "writeConsumer x c e =
     (case (case e_obf e of
              None \<Rightarrow> Inr (c_Name c, c_Data c, e)
            | Some ob \<Rightarrow>
                (case obf_consumer x (c_Name c) (c_Data c) ob of
                   Inl er \<Rightarrow> Inl er
                 | Inr ((name, data), ob1) \<Rightarrow> Inr (name, data, e\<lparr> e_obf := Some ob1 \<rparr>))) of
        Inl er \<Rightarrow> Inl er
      | Inr (name, data, e1) \<Rightarrow>
          (case e_enc e1 of
             None \<Rightarrow> Inr e1
           | Some out \<Rightarrow> Inr (e1\<lparr> e_enc := Some (WriteConsumer name (c_Ts c) data out) \<rparr>)))"

abbreviation upd_report :: "(Report \<Rightarrow> Report) \<Rightarrow> editor \<Rightarrow> editor" where
  "upd_report f e \<equiv> e\<lparr> e_report := f (e_report e) \<rparr>"

definition edit_consumer :: "lib \<Rightarrow> Consumer \<Rightarrow> editor \<Rightarrow> berr + editor" where
  "edit_consumer x c e =
     (if o_renumber (e_op e)
      then Inr (upd_report (\<lambda>r. r\<lparr> rep_ConsumersDropped := rep_ConsumersDropped r + 1 \<rparr>) e)
      else writeConsumer x c (upd_report (\<lambda>r. r\<lparr> rep_ConsumersKept := rep_ConsumersKept r + 1 \<rparr>) e))"

definition edit_drop :: "lib \<Rightarrow> dropKind \<Rightarrow> msgBody \<Rightarrow> editor \<Rightarrow> berr + editor" where
  "edit_drop x kind body e =
     (let e1 = upd_report (\<lambda>r. r\<lparr> rep_Dropped := drop_add kind (rep_Dropped r) \<rparr>) e
      in if \<not> contentFilter kind \<or> m_HdrSize (mb_m body) = 0 then Inr e1
         else case mb_headers x body of
                Inl er \<Rightarrow> Inl er
              | Inr (hdr, _) \<Rightarrow>
                  Inr (if isTombstone x hdr
                       then upd_report (\<lambda>r. r\<lparr> rep_TombstonesRemoved := rep_TombstonesRemoved r + 1 \<rparr>) e1
                       else e1))"

text \<open>The two content stages of \<open>evaluate\<close>.\<close>

definition eval_header_stage :: "lib \<Rightarrow> editOptions \<Rightarrow> dropKind \<Rightarrow> msgBody \<Rightarrow> berr + dropKind \<times> msgBody" where
  "eval_header_stage x op kind body =
     (if kind = keep \<and> hasHeaderFilters op then
        (case mb_headers x body of Inl er \<Rightarrow> Inl er | Inr (hdr, body1) \<Rightarrow> Inr (evalHeaders op hdr, body1))
      else Inr (kind, body))"

definition eval_payload_stage :: "lib \<Rightarrow> editOptions \<Rightarrow> dropKind \<Rightarrow> msgBody \<Rightarrow> berr + dropKind \<times> msgBody" where
  "eval_payload_stage x op kind body =
     (if kind = keep \<and> hasPayloadFilters op then
        (case mb_payload body of Inl er \<Rightarrow> Inl er | Inr (payload, body1) \<Rightarrow> Inr (evalPayload x op payload, body1))
      else Inr (kind, body))"

definition evaluate :: "lib \<Rightarrow> Message \<Rightarrow> editor \<Rightarrow> berr + (bool \<times> msgBody) \<times> editor" where
  "evaluate x m e =
     (let e1 = (upd_report (\<lambda>r. r\<lparr> rep_SourceMessages := rep_SourceMessages r + 1 \<rparr>) e)
                 \<lparr> e_srcSubjects := counter_add (x_maphash x) (m_Subject m) (e_srcSubjects e) \<rparr>;
          op = e_op e1
      in case eval_header_stage x op (evalMeta x op m) (new_msgBody m) of
           Inl er \<Rightarrow> Inl er
         | Inr (kind1, body1) \<Rightarrow>
             (case eval_payload_stage x op kind1 body1 of
                Inl er \<Rightarrow> Inl er
              | Inr (kind2, body2) \<Rightarrow>
                  if kind2 \<noteq> keep then
                    (case edit_drop x kind2 body2 e1 of Inl er \<Rightarrow> Inl er | Inr e2 \<Rightarrow> Inr ((False, body2), e2))
                  else Inr ((True, body2), e1)))"

text \<open>
  What \<open>writeMessage\<close> makes of the message: itself with its reader, or under obfuscation the
  rewritten subject and header block before the payload (counter streams) or as many zeros.
\<close>

definition out_message :: "lib \<Rightarrow> msgBody \<Rightarrow> editor \<Rightarrow> berr + Message \<times> editor" where
  "out_message x body e =
     (let m = mb_m body
      in case e_obf e of
           None \<Rightarrow> Inr (m\<lparr> m_Body := mb_reader body \<rparr>, e)
         | Some ob \<Rightarrow>
             (case mb_headers x body of
                Inl er \<Rightarrow> Inl er
              | Inr (hdr, body1) \<Rightarrow>
                  (case obf_message x (m_Subject m) hdr ob of
                     Inl er \<Rightarrow> Inl er
                   | Inr ((subject, block), ob1) \<Rightarrow>
                       if sc_AllowMsgCounter (e_cfg e) then
                         (case mb_payload body1 of
                            Inl er \<Rightarrow> Inl er
                          | Inr (payload, _) \<Rightarrow>
                              Inr (m\<lparr> m_Subject := subject, m_HdrSize := length block,
                                      m_Body := bytes_reader (block @ payload) \<rparr>, e\<lparr> e_obf := Some ob1 \<rparr>))
                       else
                         (let ob2 = (if m_PayloadSize m > 0 then ob1\<lparr> ob_bodies := ob_bodies ob1 + 1 \<rparr> else ob1)
                          in Inr (m\<lparr> m_Subject := subject, m_HdrSize := length block,
                                     m_Body := bytes_reader (block @ replicate (m_PayloadSize m) CHR ''0'') \<rparr>,
                                  e\<lparr> e_obf := Some ob2 \<rparr>)))))"

text \<open>The \<open>MaxAge\<close> check, and what \<open>writeMessage\<close> counts for the message it writes.\<close>

definition note_age :: "Message \<Rightarrow> editor \<Rightarrow> editor" where
  "note_age m e =
     e\<lparr> e_overAge := (if sc_MaxAge (e_cfg e) > 0 \<and> m_Ts m + sc_MaxAge (e_cfg e) < e_now e
                       then e_overAge e + 1 else e_overAge e) \<rparr>"

definition note_kept :: "lib \<Rightarrow> Message \<Rightarrow> Message \<Rightarrow> editor \<Rightarrow> Message \<times> editor" where
  "note_kept x m out e =
     (let e3 = upd_report (\<lambda>r. r\<lparr> rep_Kept := rep_Kept r + 1 \<rparr>) e;
          e4 = e3\<lparr> e_keptSubjects := map_option (counter_add (x_maphash x) (m_Subject m)) (e_keptSubjects e3) \<rparr>;
          out1 = (if o_renumber (e_op e4) then out\<lparr> m_Seq := rep_Kept (e_report e4) \<rparr> else out);
          e5 = e4\<lparr> e_firstOut := (if rep_Kept (e_report e4) = 1 then m_Seq out1 else e_firstOut e4) \<rparr>
      in (out1, e5\<lparr> e_bytes := e_bytes e5 +
                 storedMsgSize (sc_Storage (e_cfg e5)) (length (m_Subject out1)) (m_HdrSize out1) (m_PayloadSize out1) \<rparr>))"

definition writeMessage :: "lib \<Rightarrow> msgBody \<Rightarrow> editor \<Rightarrow> berr + editor" where
  "writeMessage x body e =
     (case out_message x body (note_age (mb_m body) e) of
        Inl er \<Rightarrow> Inl er
      | Inr (out, e2) \<Rightarrow>
          (case note_kept x (mb_m body) out e2 of
             (out1, e3) \<Rightarrow>
               (case e_enc e3 of
                  None \<Rightarrow> Inr e3
                | Some enc \<Rightarrow>
                    (case WriteMessage out1 enc of Inl er \<Rightarrow> Inl er | Inr enc1 \<Rightarrow> Inr (e3\<lparr> e_enc := Some enc1 \<rparr>)))))"

definition filterMessage :: "lib \<Rightarrow> Message \<Rightarrow> editor \<Rightarrow> berr + editor" where
  "filterMessage x m e =
     (case evaluate x m e of
        Inl er \<Rightarrow> Inl er
      | Inr ((ok, body), e1) \<Rightarrow> if \<not> ok then Inr e1 else writeMessage x body e1)"

subsection \<open>The passes\<close>

text \<open>What the passes get from outside.\<close>

record edit_env =
  v_ctx1 :: "nat \<Rightarrow> string option"
  v_ctx2 :: "nat \<Rightarrow> string option"
  v_digest :: "berr + string"
  v_rewind :: "berr + archive"

definition write_end :: "editor \<Rightarrow> editor" where
  "write_end e = e\<lparr> e_enc := map_option WriteEnd (e_enc e) \<rparr>"

definition single_item :: "lib \<Rightarrow> edit_env \<Rightarrow> Item \<Rightarrow> editor \<Rightarrow> berr + editor" where
  "single_item x v it e =
     (case it of
        StateItem s \<Rightarrow> writeState x (s_Ts s) (e\<lparr> e_srcState := s_State s \<rparr>)
      | ConsumerItem c \<Rightarrow> edit_consumer x c e
      | MessageItem m \<Rightarrow> filterMessage x m e
      | End \<Rightarrow>
          (case v_digest v of
             Inl er \<Rightarrow> Inl er
           | Inr d \<Rightarrow> Inr ((write_end e)\<lparr> e_digest := d \<rparr>)))"

definition singlePass :: "lib \<Rightarrow> edit_env \<Rightarrow> archive \<Rightarrow> editor \<Rightarrow> berr + editor" where
  "singlePass x v a e =
     (case for_items x (v_ctx1 v) (single_item x v) 0 (NewDecoder a) e of
        Inl (er, _) \<Rightarrow> Inl er
      | Inr (_, e1) \<Rightarrow> Inr e1)"

text \<open>The first of two passes, over the editor, the per-subject state and \<open>passed\<close>.\<close>

definition tombstone_of :: "lib \<Rightarrow> editOptions \<Rightarrow> Message \<Rightarrow> msgBody \<Rightarrow> berr + bool" where
  "tombstone_of x op m body =
     (if o_kvCompact op \<and> m_HdrSize m > 0 then
        (case mb_headers x body of Inl er \<Rightarrow> Inl er | Inr (hdr, _) \<Rightarrow> Inr (isTombstone x hdr))
      else Inr False)"

definition observe_message :: "lib \<Rightarrow> Message \<Rightarrow> editor \<times> subjectState \<times> u64 \<Rightarrow> berr + editor \<times> subjectState \<times> u64" where
  "observe_message x m s =
     (case s of (e, st, passed) \<Rightarrow>
        (case evaluate x m e of
           Inl er \<Rightarrow> Inl er
         | Inr ((ok, body), e1) \<Rightarrow>
             if \<not> ok then Inr (e1, st, passed)
             else (case tombstone_of x (e_op e1) m body of
                     Inl er \<Rightarrow> Inl er
                   | Inr tomb \<Rightarrow>
                       Inr (e1, Observe (m_Subject m) (m_Seq m)
                              (storedMsgSize (sc_Storage (e_cfg e1)) (length (m_Subject m)) (m_HdrSize m) (m_PayloadSize m))
                              tomb st, passed + 1))))"

definition count_consumer :: "editor \<Rightarrow> editor" where
  "count_consumer e =
     (if o_renumber (e_op e)
      then upd_report (\<lambda>r. r\<lparr> rep_ConsumersDropped := rep_ConsumersDropped r + 1 \<rparr>) e
      else upd_report (\<lambda>r. r\<lparr> rep_ConsumersKept := rep_ConsumersKept r + 1 \<rparr>) e)"

definition first_item :: "lib \<Rightarrow> edit_env \<Rightarrow> Item \<Rightarrow> editor \<times> subjectState \<times> u64 \<Rightarrow> berr + editor \<times> subjectState \<times> u64" where
  "first_item x v it s =
     (case s of (e, st, passed) \<Rightarrow>
        (case it of
           StateItem ss \<Rightarrow> Inr (e\<lparr> e_srcState := s_State ss \<rparr>, st, passed)
         | ConsumerItem c \<Rightarrow> Inr (count_consumer e, st, passed)
         | MessageItem m \<Rightarrow> observe_message x m s
         | End \<Rightarrow> (case v_digest v of Inl er \<Rightarrow> Inl er | Inr d \<Rightarrow> Inr (e\<lparr> e_digest := d \<rparr>, st, passed))))"

definition resolve_report :: "subjectState \<Rightarrow> u64 \<Rightarrow> editor \<Rightarrow> editor" where
  "resolve_report st passed e =
     (let res = Resolve st;
          dropped = passed - res_msgs res;
          e1 = e\<lparr> e_keptSubjectCount := unat (res_subjects res) \<rparr>
      in upd_report (\<lambda>r. r\<lparr>
           rep_Dropped := (if o_kvCompact (e_op e) then (rep_Dropped r)\<lparr> dc_KVCompact := dropped \<rparr>
                           else (rep_Dropped r)\<lparr> dc_LastPerSubject := dropped \<rparr>),
           rep_SubjectStateKeys := fst (Stats st), rep_SubjectStateBytes := snd (Stats st) \<rparr>) e1)"

definition second_item :: "lib \<Rightarrow> subjectState \<Rightarrow> Item \<Rightarrow> editor \<Rightarrow> berr + editor" where
  "second_item x st it e =
     (case it of
        StateItem s \<Rightarrow> writeState x (s_Ts s) e
      | ConsumerItem c \<Rightarrow> if o_renumber (e_op e) then Inr e else writeConsumer x c e
      | MessageItem m \<Rightarrow>
          if \<not> Keeps st (m_Subject m) (m_Seq m) then Inr e else writeMessage x (new_msgBody m) e
      | End \<Rightarrow>
          (let res = Resolve st
           in if rep_Kept (e_report e) \<noteq> res_msgs res \<or> (e_obf e = None \<and> e_bytes e \<noteq> res_bytes res)
              then Inl (SourceChanged (rep_Kept (e_report e)) (e_bytes e) (res_msgs res) (res_bytes res))
              else Inr (write_end e)))"

definition twoPass :: "lib \<Rightarrow> edit_env \<Rightarrow> archive \<Rightarrow> editor \<Rightarrow> berr + editor" where
  "twoPass x v a e =
     (case for_items x (v_ctx1 v) (first_item x v) 0 (NewDecoder a) (e, newSubjectState (e_op e), 0) of
        Inl (er, _) \<Rightarrow> Inl er
      | Inr (_, e1, st, passed) \<Rightarrow>
          (let e2 = resolve_report st passed e1;
               res = Resolve st
           in if e_enc e2 = None \<and> e_obf e2 = None
              then Inr ((upd_report (\<lambda>r. r\<lparr> rep_Kept := res_msgs res \<rparr>) e2)
                          \<lparr> e_bytes := res_bytes res, e_firstOut := res_firstSeq res \<rparr>)
              else (case v_rewind v of
                      Inl er \<Rightarrow> Inl er
                    | Inr r \<Rightarrow>
                        (case for_items x (v_ctx2 v) (second_item x st) 0 (NewDecoder r) e2 of
                           Inl (er, _) \<Rightarrow> Inl er
                         | Inr (_, e3) \<Rightarrow> Inr e3))))"

text \<open>\<open>run\<close> with a target (\<open>tgt\<close>) opens the encoder, and in the end overwrites the head.\<close>

definition run :: "lib \<Rightarrow> edit_env \<Rightarrow> archive \<Rightarrow> bool \<Rightarrow> editor \<Rightarrow> berr + editor" where
  "run x v a tgt e =
     (let pass = (if perSubject (e_op e) then twoPass else singlePass)
      in if \<not> tgt then pass x v a e
         else (case pass x v a (e\<lparr> e_enc := Some [] \<rparr>) of
                 Inl er \<Rightarrow> Inl er
               | Inr e1 \<Rightarrow>
                   (case encodeStateHead x (e_headTs e1) (archiveState e1 (Some (rep_Kept (e_report e1), e_bytes e1))) of
                      Inl er \<Rightarrow> Inl er
                    | Inr head \<Rightarrow> Inr (e1\<lparr> e_head := Some head \<rparr>))))"

definition output_entries :: "editor \<Rightarrow> arc_entry list" where
  "output_entries e =
     (case e_enc e of None \<Rightarrow> []
      | Some es \<Rightarrow> (case e_head e of None \<Rightarrow> es | Some h \<Rightarrow> h # es))"

subsection \<open>Result and meta file\<close>

definition sourceInfo :: "lib \<Rightarrow> editor \<Rightarrow> berr + SourceInfo option \<times> editor" where
  "sourceInfo x e =
     (case (mf_Source (e_meta e), e_obf e) of
        (Some src, Some ob) \<Rightarrow>
          (case st_bind (if si_Stream src \<noteq> [] then obf_streamName x (si_Stream src) else st_ret (si_Stream src)) (\<lambda>n.
                st_bind (obf_subjects x (si_Subjects src)) (\<lambda>ss.
                st_ret (src\<lparr> si_Stream := n, si_Subjects := ss \<rparr>))) ob of
             Inl er \<Rightarrow> Inl er
           | Inr (out, ob1) \<Rightarrow> Inr (Some out, e\<lparr> e_obf := Some ob1 \<rparr>))
      | (src, _) \<Rightarrow> Inr (src, e))"

definition resultRange :: "editor \<Rightarrow> u64 \<times> u64" where
  "resultRange e =
     (if o_renumber (e_op e) then (1, rep_Kept (e_report e))
      else if rep_Kept (e_report e) > 0 then (e_firstOut e, srcLastSeq e)
      else if rep_SourceMessages (e_report e) = 0 then (sst_FirstSeq (e_srcState e), sst_LastSeq (e_srcState e))
      else (srcLastSeq e + 1, srcLastSeq e))"

definition result_warnings :: "StreamConfig \<Rightarrow> editor \<Rightarrow> warning list" where
  "result_warnings cfg e =
     (let kept = rep_Kept (e_report e)
      in (if sc_MaxMsgs cfg > 0 \<and> kept > word_of_int (sc_MaxMsgs cfg)
          then [WarnMaxMsgs kept (sc_MaxMsgs cfg) (kept - word_of_int (sc_MaxMsgs cfg))] else []) @
         (if sc_MaxBytes cfg > 0 \<and> e_bytes e > word_of_int (sc_MaxBytes cfg)
          then [WarnMaxBytes (e_bytes e) (sc_MaxBytes cfg)] else []) @
         (if sc_MaxAge cfg > 0 \<and> e_overAge e > 0 then [WarnMaxAge (e_overAge e) (sc_MaxAge cfg)] else []) @
         (if o_lastPerSubject (e_op e) > 0 \<and> sc_MaxMsgsPer cfg > 0 \<and> o_lastPerSubject (e_op e) > sc_MaxMsgsPer cfg
          then [WarnMaxMsgsPer (o_lastPerSubject (e_op e)) (sc_MaxMsgsPer cfg)] else []))"

definition edit_result :: "lib \<Rightarrow> editor \<Rightarrow> berr + editResult \<times> editor" where
  "edit_result x e =
     (let e1 = upd_report (\<lambda>r. r\<lparr> rep_SourceSubjects := counter_count (e_srcSubjects e),
                 rep_KeptSubjects := (case e_keptSubjects e of None \<Rightarrow> e_keptSubjectCount e
                                      | Some c \<Rightarrow> counter_count c) \<rparr>) e;
          cfg = (if o_renumber (e_op e1) then (e_cfg e1)\<lparr> sc_FirstSeq := 0 \<rparr> else e_cfg e1)
      in case (case e_obf e1 of
                 None \<Rightarrow> Inr (cfg, e1)
               | Some ob \<Rightarrow>
                   (case obf_config x cfg ob of
                      Inl er \<Rightarrow> Inl er
                    | Inr (cfg1, ob1) \<Rightarrow>
                        Inr (cfg1, upd_report (\<lambda>r. r\<lparr> rep_Obfuscation := Some \<lparr> or_TokensMapped = length (ob_reverse ob1),
                               or_BodiesPadded = ob_bodies ob1 \<rparr> \<rparr>) (e1\<lparr> e_obf := Some ob1 \<rparr>)))) of
           Inl er \<Rightarrow> Inl er
         | Inr (cfg2, e2) \<Rightarrow>
             (let st = zeroStreamState\<lparr> sst_Msgs := rep_Kept (e_report e2), sst_Bytes := e_bytes e2,
                         sst_FirstSeq := fst (resultRange e2), sst_LastSeq := snd (resultRange e2),
                         sst_Consumers := rep_ConsumersKept (e_report e2) \<rparr>;
                  e3 = upd_report (\<lambda>r. r\<lparr> rep_Warnings := rep_Warnings r @ result_warnings cfg2 e2 \<rparr>) e2
              in Inr (\<lparr> er_Config = cfg2, er_State = st, er_Report = e_report e3 \<rparr>, e3)))"

subsection \<open>Edit\<close>

definition isKVBucket :: "metaFile \<Rightarrow> bool" where
  "isKVBucket mf =
     (let cfg = mf_Config mf
      in if \<not> IsKVBucketStream (sc_Name cfg) then False
         else (let bucket = trim_prefix (sc_Name cfg) ''KV_''
               in bucket \<noteq> [] \<and> length (sc_Subjects cfg) = 1 \<and> sc_Subjects cfg ! 0 = ''$KV.'' @ bucket @ ''.>''))"

text \<open>The checks of \<open>readMetaFile\<close>, on the decoded file.\<close>

datatype edit_error = OptionErr opt_error | MetaNoName | MetaInvalidName string | RunErr berr

definition readMetaFile :: "metaFile \<Rightarrow> edit_error + metaFile" where
  "readMetaFile mf =
     (if sc_Name (mf_Config mf) = [] then Inl MetaNoName
      else if \<not> IsValidName (sc_Name (mf_Config mf)) then Inl (MetaInvalidName (sc_Name (mf_Config mf)))
      else Inr mf)"

definition new_editor :: "editOptions \<Rightarrow> metaFile \<Rightarrow> gotime \<Rightarrow> obfuscator option \<Rightarrow> editor" where
  "new_editor op mf now ob =
     \<lparr> e_op = op, e_meta = mf, e_cfg = mf_Config mf, e_now = now, e_enc = None, e_head = None, e_headTs = 0,
       e_obf = ob, e_srcState = zeroStreamState, e_firstOut = 0, e_bytes = 0, e_overAge = 0, e_digest = [],
       e_report = zeroReport, e_srcSubjects = newSubjectCounter,
       e_keptSubjects = (if perSubject op then None else Some newSubjectCounter), e_keptSubjectCount = 0 \<rparr>"

text \<open>
  What an edit leaves: the result, and without a dry run the archive and the meta file. The
  target directory, its key file and its commit are actions of the file system, not modelled.
\<close>

record edit_outcome =
  out_result :: editResult
  out_archive :: "arc_entry list"
  out_meta :: "metaFile option"

definition edit_meta :: "lib \<Rightarrow> editResult \<Rightarrow> editor \<Rightarrow> berr + metaFile \<times> editor" where
  "edit_meta x res e =
     (case sourceInfo x e of
        Inl er \<Rightarrow> Inl er
      | Inr (src, e1) \<Rightarrow>
          Inr (\<lparr> mf_Config = er_Config res, mf_State = er_State res,
                 mf_Edit = Some \<lparr> ei_Version = o_toolVersion (e_op e1), ei_Options = canonical x (e_op e1),
                   ei_SourceDigest = e_digest e1, ei_Obfuscated = o_obfuscate (e_op e1) \<rparr>,
                 mf_Source = src \<rparr>, e1))"

definition Edit :: "lib \<Rightarrow> edit_env \<Rightarrow> gotime \<Rightarrow> (string \<Rightarrow> berr + obfuscator) \<Rightarrow> metaFile \<Rightarrow> archive \<Rightarrow>
    EditOption list \<Rightarrow> edit_error + edit_outcome" where
  "Edit x v now new_obf meta a opts =
     (let op = apply_options opts
      in case validate x op of
           Some er \<Rightarrow> Inl (OptionErr er)
         | None \<Rightarrow>
             (case readMetaFile meta of
                Inl er \<Rightarrow> Inl er
              | Inr mf \<Rightarrow>
                  if o_kvCompact op \<and> \<not> isKVBucket mf
                  then Inl (RunErr (NotKVBucket (sc_Name (mf_Config mf)) (sc_Subjects (mf_Config mf))))
                  else
                    (case (if o_obfuscate op then map_sum id Some (new_obf (o_keyFile op)) else Inr None) of
                       Inl er \<Rightarrow> Inl (RunErr er)
                     | Inr ob \<Rightarrow>
                         (case run x v a (\<not> o_dryRun op) (new_editor op mf now ob) of
                            Inl er \<Rightarrow> Inl (RunErr er)
                          | Inr e1 \<Rightarrow>
                              (case edit_result x e1 of
                                 Inl er \<Rightarrow> Inl (RunErr er)
                               | Inr (res, e2) \<Rightarrow>
                                   if o_dryRun op then Inr \<lparr> out_result = res, out_archive = [], out_meta = None \<rparr>
                                   else
                                     (case edit_meta x res e2 of
                                        Inl er \<Rightarrow> Inl (RunErr er)
                                      | Inr (mf1, e3) \<Rightarrow>
                                          Inr \<lparr> out_result = res, out_archive = output_entries e3,
                                                out_meta = Some mf1 \<rparr>))))))"

end
