(* ===== verification/Backup_EditSpec.thy ===== *)
theory Backup_EditSpec
  imports Backup_Edit Backup_Verify
begin

text \<open>
  What an edit computes, as functions of the items of the source: which messages the filters
  keep (\<open>verdict\<close>), what the per-subject state keeps of those, and the entries written for
  them. The lemmas \<open>seen\<close> and \<open>wrote\<close> follow the two halves of the editor's state through a
  pass; the theorems state the edited archive, its head and its report over these functions.
\<close>

subsection \<open>The verdict on a message\<close>

definition verdict :: "lib \<Rightarrow> editOptions \<Rightarrow> Message \<Rightarrow> dropKind option" where
  "verdict x op m =
     (if evalMeta x op m \<noteq> keep then Some (evalMeta x op m)
      else if hasHeaderFilters op \<and> msg_headers x m = None then None
      else if hasHeaderFilters op \<and> \<not> header_selected op (the (msg_headers x m)) then Some dropHeader
      else if hasPayloadFilters op \<and> msg_payload m = None then None
      else if hasPayloadFilters op \<and> \<not> payload_selected x op (the (msg_payload m)) then Some dropPayload
      else Some keep)"

lemma eval_header_stage_ok:
  assumes "eval_header_stage x op k b = Inr (k1, b1)" and "mb_ok x m b"
  shows "mb_ok x m b1 \<and>
    (if k = keep \<and> hasHeaderFilters op
     then \<exists>h. msg_headers x m = Some h \<and> k1 = (if header_selected op h then keep else dropHeader) else k1 = k)"
  using assms(1) mb_headers_ok [OF assms(2)] assms(2)
  by (auto simp: eval_header_stage_def evalHeaders_cases split: if_splits sum.splits prod.splits)

lemma eval_payload_stage_ok:
  assumes "eval_payload_stage x op k b = Inr (k1, b1)" and "mb_ok x m b"
  shows "mb_ok x m b1 \<and>
    (if k = keep \<and> hasPayloadFilters op
     then \<exists>p. msg_payload m = Some p \<and> k1 = (if payload_selected x op p then keep else dropPayload) else k1 = k)"
  using assms(1) mb_payload_ok [OF assms(2)] assms(2)
  by (auto simp: eval_payload_stage_def evalPayload_cases split: if_splits sum.splits prod.splits)

lemma stages_verdict:
  assumes h: "eval_header_stage x op (evalMeta x op m) (new_msgBody m) = Inr (k1, b1)"
    and p: "eval_payload_stage x op k1 b1 = Inr (k2, b2)"
  shows "mb_ok x m b2 \<and> verdict x op m = Some k2"
proof -
  note 1 = eval_header_stage_ok [OF h mb_ok_new]
  note 2 = eval_payload_stage_ok [OF p conjunct1 [OF 1]]
  show ?thesis
    using 1 2 by (cases "evalMeta x op m = keep"; cases "hasHeaderFilters op"; cases "hasPayloadFilters op")
      (auto simp: verdict_def split: if_splits)
qed

text \<open>What \<open>evaluate\<close> changes of the editor.\<close>

definition counted :: "lib \<Rightarrow> dropKind \<Rightarrow> u64 \<Rightarrow> Message \<Rightarrow> editor \<Rightarrow> editor" where
  "counted x k t m e =
     e\<lparr> e_report := (e_report e)\<lparr> rep_SourceMessages := rep_SourceMessages (e_report e) + 1,
          rep_Dropped := drop_add k (rep_Dropped (e_report e)), rep_TombstonesRemoved := t \<rparr>,
        e_srcSubjects := counter_add (x_maphash x) (m_Subject m) (e_srcSubjects e) \<rparr>"

definition dropped_as :: "dropKind \<Rightarrow> u64 \<Rightarrow> editor \<Rightarrow> editor" where
  "dropped_as k t e =
     e\<lparr> e_report := (e_report e)\<lparr> rep_Dropped := drop_add k (rep_Dropped (e_report e)), rep_TombstonesRemoved := t \<rparr> \<rparr>"

lemma edit_drop_ok:
  assumes "edit_drop x k b e = Inr e1"
  shows "\<exists>t. e1 = dropped_as k t e"
proof (cases "\<not> contentFilter k \<or> m_HdrSize (mb_m b) = 0")
  case True
  with assms have "e1 = dropped_as k (rep_TombstonesRemoved (e_report e)) e"
    by (simp add: edit_drop_def dropped_as_def Let_def)
  then show ?thesis ..
next
  case False
  with assms obtain hdr b1 where "mb_headers x b = Inr (hdr, b1)"
    by (auto simp: edit_drop_def Let_def split: sum.splits)
  with assms False have
    "e1 = dropped_as k (rep_TombstonesRemoved (e_report e) + (if isTombstone x hdr then 1 else 0)) e"
    by (cases "isTombstone x hdr") (simp_all add: edit_drop_def dropped_as_def Let_def)
  then show ?thesis ..
qed

lemma evaluate_cases:
  assumes "evaluate x m e = Inr ((ok, body), e1)"
  defines "e0 \<equiv> (upd_report (\<lambda>r. r\<lparr> rep_SourceMessages := rep_SourceMessages r + 1 \<rparr>) e)
                 \<lparr> e_srcSubjects := counter_add (x_maphash x) (m_Subject m) (e_srcSubjects e) \<rparr>"
  obtains k1 b1 k2 where
    "eval_header_stage x (e_op e) (evalMeta x (e_op e) m) (new_msgBody m) = Inr (k1, b1)"
    "eval_payload_stage x (e_op e) k1 b1 = Inr (k2, body)" "ok = (k2 = keep)"
    "if k2 = keep then e1 = e0 else edit_drop x k2 body e0 = Inr e1"
proof -
  have op: "e_op e0 = e_op e" by (simp add: e0_def)
  note ev = assms(1) [unfolded evaluate_def Let_def, folded e0_def, unfolded op]
  from ev obtain k1 b1 where 1: "eval_header_stage x (e_op e) (evalMeta x (e_op e) m) (new_msgBody m) = Inr (k1, b1)"
    by (auto split: sum.splits)
  note ev = ev [unfolded 1 sum.case prod.case]
  from ev obtain k2 b2 where 2: "eval_payload_stage x (e_op e) k1 b1 = Inr (k2, b2)"
    by (auto split: sum.splits)
  note ev = ev [unfolded 2 sum.case prod.case]
  show ?thesis
  proof (cases "k2 = keep")
    case True
    with ev that [OF 1, of k2] 2 show ?thesis by simp
  next
    case False
    from ev False obtain e2 where "edit_drop x k2 b2 e0 = Inr e2" by (cases "edit_drop x k2 b2 e0") simp_all
    with ev False that [OF 1, of k2] 2 show ?thesis by simp
  qed
qed

lemma evaluate_ok:
  assumes "evaluate x m e = Inr ((ok, body), e1)"
  shows "\<exists>k t. verdict x (e_op e) m = Some k \<and> (ok \<longleftrightarrow> k = keep) \<and> mb_ok x m body \<and> e1 = counted x k t m e"
  using assms
proof (rule evaluate_cases)
  fix k1 b1 k2
  let ?e0 = "(upd_report (\<lambda>r. r\<lparr> rep_SourceMessages := rep_SourceMessages r + 1 \<rparr>) e)
                 \<lparr> e_srcSubjects := counter_add (x_maphash x) (m_Subject m) (e_srcSubjects e) \<rparr>"
  assume h: "eval_header_stage x (e_op e) (evalMeta x (e_op e) m) (new_msgBody m) = Inr (k1, b1)"
    and p: "eval_payload_stage x (e_op e) k1 b1 = Inr (k2, body)" and ok: "ok = (k2 = keep)"
    and r: "if k2 = keep then e1 = ?e0 else edit_drop x k2 body ?e0 = Inr e1"
  have "\<exists>t. e1 = counted x k2 t m e"
  proof (cases "k2 = keep")
    case True
    with r have "e1 = counted x k2 (rep_TombstonesRemoved (e_report e)) m e" by (simp add: counted_def)
    then show ?thesis ..
  next
    case False
    with r have "edit_drop x k2 body ?e0 = Inr e1" by simp
    from edit_drop_ok [OF this] obtain t where "e1 = dropped_as k2 t ?e0" ..
    then have "e1 = counted x k2 t m e" by (simp add: counted_def dropped_as_def)
    then show ?thesis ..
  qed
  with stages_verdict [OF h p] ok show ?thesis by blast
qed

subsection \<open>The two halves of the editor\<close>

text \<open>What the counters of one kind hold.\<close>

fun drop_count :: "dropKind \<Rightarrow> DropCounts \<Rightarrow> u64" where
  "drop_count dropSequence d = dc_Sequence d"
| "drop_count dropTime d = dc_Time d"
| "drop_count dropSubject d = dc_Subject d"
| "drop_count dropHeader d = dc_Header d"
| "drop_count dropPayload d = dc_Payload d"
| "drop_count dropLastPerSubject d = dc_LastPerSubject d"
| "drop_count dropKVCompact d = dc_KVCompact d"
| "drop_count keep d = 0"

lemma drop_count_add:
  "drop_count k' (drop_add k d) = drop_count k' d + (if k' = k \<and> k \<noteq> keep then 1 else 0)"
  by (cases k; cases k'; simp)

lemma drop_count_zero: "drop_count k zeroDropCounts = 0"
  by (cases k) (simp_all add: zeroDropCounts_def)

definition with_verdict :: "lib \<Rightarrow> editOptions \<Rightarrow> dropKind \<Rightarrow> Message list \<Rightarrow> Message list" where
  "with_verdict x op k ms = filter (\<lambda>m. verdict x op m = Some k) ms"

lemma with_verdict_simps [simp]:
  "with_verdict x op k [] = []"
  "with_verdict x op k (ms @ [m]) = with_verdict x op k ms @ (if verdict x op m = Some k then [m] else [])"
  by (simp_all add: with_verdict_def)

text \<open>\<open>seen\<close>: what reading and judging \<open>ms\<close> has done.\<close>

definition seen :: "lib \<Rightarrow> editOptions \<Rightarrow> Message list \<Rightarrow> editor \<Rightarrow> bool" where
  "seen x op ms e \<longleftrightarrow>
     e_op e = op \<and> (\<forall>m \<in> set ms. verdict x op m \<noteq> None) \<and>
     rep_SourceMessages (e_report e) = of_nat (length ms) \<and>
     (\<forall>k. k \<noteq> keep \<longrightarrow> drop_count k (rep_Dropped (e_report e)) = of_nat (length (with_verdict x op k ms))) \<and>
     e_srcSubjects e = fold (counter_add (x_maphash x)) (map m_Subject ms) newSubjectCounter"

lemma seen_step: "seen x op ms e \<Longrightarrow> verdict x op m = Some k \<Longrightarrow> seen x op (ms @ [m]) (counted x k t m e)"
  by (auto simp: seen_def counted_def drop_count_add)

definition message_entry :: "Message \<Rightarrow> arc_entry" where
  "message_entry m =
     \<lparr> ent_hdr = \<lparr> h_Name = m_Subject m, h_Timestamp = m_Ts m, h_Sequence = m_Seq m,
         h_HeaderSize = m_HdrSize m, h_PayloadSize = m_PayloadSize m \<rparr>,
       ent_body = bytes_reader (take (m_HdrSize m + m_PayloadSize m) (r_data (m_Body m))) \<rparr>"

definition whole :: "Message \<Rightarrow> bool" where
  "whole m \<longleftrightarrow> m_HdrSize m + m_PayloadSize m \<le> length (r_data (m_Body m))"

definition renumbered :: "bool \<Rightarrow> Message list \<Rightarrow> Message list" where
  "renumbered b ks = (if b then map (\<lambda>(i, m). m\<lparr> m_Seq := of_nat i \<rparr>) (enumerate 1 ks) else ks)"

lemma renumbered_simps [simp]:
  "renumbered b [] = []"
  "renumbered b (ks @ [m]) = renumbered b ks @ [if b then m\<lparr> m_Seq := of_nat (length ks + 1) \<rparr> else m]"
  "length (renumbered b ks) = length ks"
  "renumbered False ks = ks"
  by (simp_all add: renumbered_def enumerate_append_eq)

lemma WriteMessage_Inr:
  "WriteMessage m out = Inr out' \<longleftrightarrow> whole m \<and> out' = out @ [message_entry m]"
  by (auto simp: WriteMessage_def whole_def message_entry_def Let_def)

text \<open>
  What is written for a message, and the obfuscator after it: the message itself, or under obfuscation a
  copy with rewritten subject and headers before the payload (counter streams) or as many zeros.
\<close>

definition obf_copy :: "lib \<Rightarrow> bool \<Rightarrow> obfuscator \<Rightarrow> Message \<Rightarrow> (Message \<times> obfuscator) option" where
  "obf_copy x counter ob m =
     (case msg_headers x m of
        None \<Rightarrow> None
      | Some hdr \<Rightarrow>
          (case obf_message x (m_Subject m) hdr ob of
             Inl _ \<Rightarrow> None
           | Inr ((subject, block), ob1) \<Rightarrow>
               (let out = (\<lambda>body. m\<lparr> m_Subject := subject, m_HdrSize := length block, m_Body := bytes_reader (block @ body) \<rparr>)
                in if counter then map_option (\<lambda>payload. (out payload, ob1)) (msg_payload m)
                   else Some (out (replicate (m_PayloadSize m) (CHR ''0'')),
                              if m_PayloadSize m > 0 then ob1\<lparr> ob_bodies := ob_bodies ob1 + 1 \<rparr> else ob1))))"

definition copy_message :: "lib \<Rightarrow> bool \<Rightarrow> obfuscator option \<Rightarrow> Message \<Rightarrow> (Message \<times> obfuscator option) option" where
  "copy_message x counter ob m =
     (case ob of None \<Rightarrow> Some (m, None) | Some ob1 \<Rightarrow> map_option (map_prod id Some) (obf_copy x counter ob1 m))"

definition copy_consumer :: "lib \<Rightarrow> obfuscator option \<Rightarrow> Consumer \<Rightarrow> (Consumer \<times> obfuscator option) option" where
  "copy_consumer x ob c =
     (case ob of
        None \<Rightarrow> Some (c, None)
      | Some ob1 \<Rightarrow>
          (case obf_consumer x (c_Name c) (c_Data c) ob1 of
             Inl _ \<Rightarrow> None
           | Inr ((name, data), ob2) \<Rightarrow> Some (c\<lparr> c_Name := name, c_Data := data \<rparr>, Some ob2)))"

fun copy_all :: "('s \<Rightarrow> 'a \<Rightarrow> ('b \<times> 's) option) \<Rightarrow> 's \<Rightarrow> 'a list \<Rightarrow> ('b list \<times> 's) option" where
  "copy_all f s [] = Some ([], s)"
| "copy_all f s (a # as) =
     (case f s a of None \<Rightarrow> None | Some (b, s1) \<Rightarrow> map_option (map_prod (\<lambda>bs. b # bs) id) (copy_all f s1 as))"

lemma copy_all_append:
  "copy_all f s (as @ as') = (case copy_all f s as of None \<Rightarrow> None
     | Some (bs, s1) \<Rightarrow> (case copy_all f s1 as' of None \<Rightarrow> None | Some (bs', s2) \<Rightarrow> Some (bs @ bs', s2)))"
proof (induction as arbitrary: s)
  case Nil
  show ?case by (simp split: option.split)
next
  case (Cons a as)
  show ?case by (cases "f s a") (auto simp: Cons.IH split: option.splits)
qed

lemma copy_all_snoc:
  "copy_all f s as = Some (bs, s1) \<Longrightarrow> f s1 a = Some (b, s2) \<Longrightarrow> copy_all f s (as @ [a]) = Some (bs @ [b], s2)"
  by (simp add: copy_all_append)

lemma copy_all_length: "copy_all f s as = Some (bs, s1) \<Longrightarrow> length bs = length as"
  by (induction as arbitrary: s bs) (auto split: option.splits)

text \<open>A property of every copy, and one that the states keep.\<close>

lemma copy_all_rel:
  assumes "copy_all f s as = Some (bs, s1)" and "I s" and "\<And>s a b s1. I s \<Longrightarrow> f s a = Some (b, s1) \<Longrightarrow> I s1 \<and> R a b"
  shows "I s1 \<and> list_all2 R as bs"
  using assms(1,2)
proof (induction as arbitrary: s bs)
  case (Cons a as)
  then obtain b s2 bs' where "f s a = Some (b, s2)" "copy_all f s2 as = Some (bs', s1)" "bs = b # bs'"
    by (auto split: option.splits)
  with Cons.IH assms(3) Cons.prems(2) show ?case by fastforce
qed simp

lemma copy_all_plain [simp]:
  "copy_all (copy_message x counter) None ms = Some (ms, None)" "copy_all (copy_consumer x) None cs = Some (cs, None)"
proof -
  show "copy_all (copy_message x counter) None ms = Some (ms, None)" by (induction ms) (simp_all add: copy_message_def)
  show "copy_all (copy_consumer x) None cs = Some (cs, None)" by (induction cs) (simp_all add: copy_consumer_def)
qed

lemma copy_message_fields:
  assumes "copy_message x counter ob m = Some (out, ob1)"
  shows "m_Seq out = m_Seq m" "m_Ts out = m_Ts m" "m_PayloadSize out = m_PayloadSize m"
  using assms by (auto simp: copy_message_def obf_copy_def Let_def split: option.splits sum.splits prod.splits if_splits)

lemma copied_fields:
  assumes "copy_all (copy_message x counter) ob ms = Some (outs, ob1)"
  shows "map m_Seq outs = map m_Seq ms" "map m_Ts outs = map m_Ts ms" "map m_PayloadSize outs = map m_PayloadSize ms"
    "length outs = length ms"
proof -
  have "map m_Seq outs = map m_Seq ms \<and> map m_Ts outs = map m_Ts ms \<and> map m_PayloadSize outs = map m_PayloadSize ms"
    using assms
  proof (induction ms arbitrary: ob outs)
    case (Cons m ms)
    then obtain out ob2 outs' where o: "copy_message x counter ob m = Some (out, ob2)"
      "copy_all (copy_message x counter) ob2 ms = Some (outs', ob1)" "outs = out # outs'" by (auto split: option.splits)
    from Cons.IH [OF o(2)] copy_message_fields [OF o(1)] show ?case by (simp add: o(3))
  qed simp
  then show "map m_Seq outs = map m_Seq ms" "map m_Ts outs = map m_Ts ms" "map m_PayloadSize outs = map m_PayloadSize ms"
    by simp_all
  show "length outs = length ms" by (rule copy_all_length [OF assms])
qed

lemma out_message_ok:
  assumes "out_message x body e = Inr (out, e1)" and "mb_ok x m body"
  shows "\<exists>ob. copy_message x (sc_AllowMsgCounter (e_cfg e)) (e_obf e) m = Some (out, ob) \<and> e1 = e\<lparr> e_obf := ob \<rparr>"
proof -
  note f = mb_ok_fields [OF assms(2)]
  have plain: "(mb_m body)\<lparr> m_Body := mb_reader body \<rparr> = m"
    by (rule Message.equality) (simp_all add: f mb_reader_ok [OF assms(2)])
  have copy: "(mb_m body)\<lparr> m_Subject := su, m_HdrSize := n, m_Body := r \<rparr> = m\<lparr> m_Subject := su, m_HdrSize := n, m_Body := r \<rparr>" for su n r
    by (rule Message.equality) (simp_all add: f)
  show ?thesis
  proof (cases "e_obf e")
    case None
    with assms(1) show ?thesis by (simp add: out_message_def copy_message_def plain)
  next
    case (Some ob)
    with assms(1) obtain hdr body1 where h: "mb_headers x body = Inr (hdr, body1)"
      by (auto simp: out_message_def Let_def split: sum.splits)
    from mb_headers_ok [OF assms(2)] h have mh: "msg_headers x m = Some hdr" and ok1: "mb_ok x m body1" by auto
    from assms(1) Some h obtain su block ob1 where o: "obf_message x (m_Subject m) hdr ob = Inr ((su, block), ob1)"
      by (auto simp: out_message_def Let_def f split: sum.splits)
    note out = assms(1) [unfolded out_message_def Let_def Some option.case h sum.case prod.case f(1) o]
    show ?thesis
    proof (cases "sc_AllowMsgCounter (e_cfg e)")
      case True
      with out obtain payload b2 where p: "mb_payload body1 = Inr (payload, b2)" by (auto split: sum.splits)
      from mb_payload_ok [OF ok1] p have "msg_payload m = Some payload" by auto
      with out True p show ?thesis by (simp add: Some copy_message_def obf_copy_def mh o copy)
    next
      case False
      with out show ?thesis by (auto simp: Some copy_message_def obf_copy_def mh o copy f)
    qed
  qed
qed

text \<open>
  \<open>wrote\<close>: what writing \<open>ks\<close>, as \<open>outs\<close>, has done to an editor that had written nothing.
\<close>

definition wrote :: "lib \<Rightarrow> editor \<Rightarrow> Message list \<Rightarrow> Message list \<Rightarrow> editor \<Rightarrow> bool" where
  "wrote x e0 ks outs e \<longleftrightarrow>
     copy_all (copy_message x (sc_AllowMsgCounter (e_cfg e0))) (e_obf e0) ks = Some (outs, e_obf e) \<and>
     e_op e = e_op e0 \<and> e_meta e = e_meta e0 \<and> e_cfg e = e_cfg e0 \<and>
     e_srcState e = e_srcState e0 \<and> e_head e = e_head e0 \<and> e_headTs e = e_headTs e0 \<and>
     e_keptSubjectCount e = e_keptSubjectCount e0 \<and> rep_Warnings (e_report e) = rep_Warnings (e_report e0) \<and>
     rep_ConsumersKept (e_report e) = rep_ConsumersKept (e_report e0) \<and>
     rep_ConsumersDropped (e_report e) = rep_ConsumersDropped (e_report e0) \<and>
     rep_Kept (e_report e) = of_nat (length ks) \<and>
     (length ks < 2 ^ 64 \<and> ks \<noteq> [] \<longrightarrow> e_firstOut e = m_Seq (hd (renumbered (o_renumber (e_op e0)) outs))) \<and>
     e_bytes e = sum_list (map (stored_size (sc_Storage (e_cfg e0))) outs) \<and>
     e_keptSubjects e = map_option (fold (counter_add (x_maphash x)) (map m_Subject ks)) (e_keptSubjects e0) \<and>
     e_enc e = map_option (\<lambda>es. es @ map message_entry (renumbered (o_renumber (e_op e0)) outs)) (e_enc e0) \<and>
     (e_enc e0 \<noteq> None \<longrightarrow> (\<forall>m \<in> set outs. whole m))"

lemma wrote_counted: "wrote x e0 ks outs e \<Longrightarrow> wrote x e0 ks outs (counted x k t m e)"
  by (simp add: wrote_def counted_def)

definition written :: "lib \<Rightarrow> Message \<Rightarrow> Message \<Rightarrow> u64 \<Rightarrow> arc_entry list option \<Rightarrow> obfuscator option \<Rightarrow> editor \<Rightarrow> editor" where
  "written x m out over enc ob e =
     (let r = e_report e;
          sq = (if o_renumber (e_op e) then rep_Kept r + 1 else m_Seq out)
      in e\<lparr> e_overAge := over, e_report := r\<lparr> rep_Kept := rep_Kept r + 1 \<rparr>,
            e_keptSubjects := map_option (counter_add (x_maphash x) (m_Subject m)) (e_keptSubjects e),
            e_firstOut := (if rep_Kept r + 1 = 1 then sq else e_firstOut e),
            e_bytes := e_bytes e + stored_size (sc_Storage (e_cfg e)) out, e_enc := enc, e_obf := ob \<rparr>)"

lemma writeMessage_ok:
  assumes "writeMessage x body e = Inr e1" and "mb_ok x m body"
  obtains out ob over where "copy_message x (sc_AllowMsgCounter (e_cfg e)) (e_obf e) m = Some (out, ob)"
    "e1 = written x m out over
       (map_option (\<lambda>es. es @ [message_entry (if o_renumber (e_op e) then out\<lparr> m_Seq := rep_Kept (e_report e) + 1 \<rparr> else out)]) (e_enc e)) ob e"
    "e_enc e \<noteq> None \<longrightarrow> whole out"
proof -
  note f = mb_ok_fields [OF assms(2)]
  define a where "a = note_age (mb_m body) e"
  have a: "a = e\<lparr> e_overAge := e_overAge a \<rparr>" by (simp add: a_def note_age_def)
  have ca: "e_cfg a = e_cfg e" "e_obf a = e_obf e" by (simp_all add: a_def note_age_def)
  from assms(1) obtain out e2 where om: "out_message x body a = Inr (out, e2)"
    by (auto simp: writeMessage_def a_def [symmetric] split: sum.splits)
  from out_message_ok [OF om assms(2)] obtain ob where c: "copy_message x (sc_AllowMsgCounter (e_cfg e)) (e_obf e) m = Some (out, ob)"
    and e2: "e2 = a\<lparr> e_obf := ob \<rparr>" by (auto simp: ca)
  define out1 where "out1 = (if o_renumber (e_op e) then out\<lparr> m_Seq := rep_Kept (e_report e) + 1 \<rparr> else out)"
  have whole: "whole out1 \<longleftrightarrow> whole out" by (simp add: out1_def whole_def)
  define k where "k = written x m out (e_overAge a) (e_enc e) ob e"
  have k: "note_kept x (mb_m body) out e2 = (out1, k)"
    unfolding e2 by (subst a) (simp add: note_kept_def k_def written_def out1_def Let_def f stored_size_def)
  from assms(1) have w: "(case e_enc k of None \<Rightarrow> Inr k | Some enc \<Rightarrow>
      (case WriteMessage out1 enc of Inl er \<Rightarrow> Inl er | Inr enc1 \<Rightarrow> Inr (k\<lparr> e_enc := Some enc1 \<rparr>))) = Inr e1"
    by (simp add: writeMessage_def a_def [symmetric] om k)
  have ek: "e_enc k = e_enc e" by (simp add: k_def written_def Let_def)
  show ?thesis
  proof (cases "e_enc e")
    case None
    with w ek have "e1 = k" by simp
    with None show ?thesis by (intro that [OF c, of "e_overAge a"]) (simp_all add: k_def)
  next
    case (Some es)
    with w ek obtain enc1 where "WriteMessage out1 es = Inr enc1" "e1 = k\<lparr> e_enc := Some enc1 \<rparr>"
      by (auto split: sum.splits)
    then have "whole out" "e1 = written x m out (e_overAge a) (Some (es @ [message_entry out1])) ob e"
      by (auto simp: WriteMessage_Inr whole k_def written_def Let_def)
    with Some show ?thesis by (intro that [OF c, of "e_overAge a"]) (simp_all add: out1_def)
  qed
qed

lemma hd_snoc: "hd (xs @ [y]) = (if xs = [] then y else hd xs)"
  by (cases xs) simp_all

lemma renumbered_Nil_iff [simp]: "renumbered b ks = [] \<longleftrightarrow> ks = []"
  using renumbered_simps(3) [of b ks] by (metis length_0_conv)

lemma wrote_step:
  assumes w: "wrote x e0 ks outs e" and ok: "mb_ok x m body" and wr: "writeMessage x body e = Inr e1"
  shows "\<exists>out. wrote x e0 (ks @ [m]) (outs @ [out]) e1"
  using wr ok
proof (rule writeMessage_ok)
  fix out ob over
  assume c: "copy_message x (sc_AllowMsgCounter (e_cfg e)) (e_obf e) m = Some (out, ob)"
    and e1: "e1 = written x m out over
       (map_option (\<lambda>es. es @ [message_entry (if o_renumber (e_op e) then out\<lparr> m_Seq := rep_Kept (e_report e) + 1 \<rparr> else out)]) (e_enc e)) ob e"
    and whole: "e_enc e \<noteq> None \<longrightarrow> whole out"
  from w have op: "e_op e = e_op e0" "e_cfg e = e_cfg e0" "rep_Kept (e_report e) = of_nat (length ks)"
    and outs: "copy_all (copy_message x (sc_AllowMsgCounter (e_cfg e0))) (e_obf e0) ks = Some (outs, e_obf e)"
    by (simp_all add: wrote_def)
  have len: "length outs = length ks" by (rule copied_fields(4) [OF outs])
  have first: "e_firstOut e1 = m_Seq (hd (renumbered (o_renumber (e_op e0)) (outs @ [out])))" if "length (ks @ [m]) < 2 ^ 64"
  proof -
    have "(of_nat (length ks) :: u64) + 1 = 1 \<longleftrightarrow> ks = []"
      using that by (auto simp: word_of_nat_eq_0_iff dest: dvd_imp_le)
    moreover have "outs = [] \<longleftrightarrow> ks = []" using len by auto
    ultimately show ?thesis using w that by (auto simp: e1 written_def Let_def op wrote_def hd_snoc len)
  qed
  have "copy_all (copy_message x (sc_AllowMsgCounter (e_cfg e0))) (e_obf e0) (ks @ [m]) = Some (outs @ [out], ob)"
    using copy_all_snoc [OF outs c [unfolded op]] .
  then have "wrote x e0 (ks @ [m]) (outs @ [out]) e1"
    using w first whole unfolding wrote_def
    by (simp add: e1 written_def Let_def op option.map_comp o_def len add.commute)
  then show ?thesis ..
qed

lemma filterMessage_step:
  assumes "filterMessage x m e = Inr e1" and s: "seen x op ms e" and w: "wrote x e0 (with_verdict x op keep ms) outs e"
  shows "seen x op (ms @ [m]) e1 \<and> (\<exists>outs. wrote x e0 (with_verdict x op keep (ms @ [m])) outs e1)"
proof -
  have op: "e_op e = op" using s by (simp add: seen_def)
  from assms(1) obtain ok body e2 where ev: "evaluate x m e = Inr ((ok, body), e2)"
    and wr: "if ok then writeMessage x body e2 = Inr e1 else e1 = e2"
    by (auto simp: filterMessage_def split: sum.splits if_splits)
  from evaluate_ok [OF ev, unfolded op] obtain k t where
    k: "verdict x op m = Some k" "ok = (k = keep)" "mb_ok x m body" "e2 = counted x k t m e" by blast
  from seen_step [OF s k(1)] have s2: "seen x op (ms @ [m]) e2" by (simp add: k)
  from wrote_counted [OF w] have w2: "wrote x e0 (with_verdict x op keep ms) outs e2" by (simp add: k)
  show ?thesis
  proof (cases ok)
    case False
    with wr s2 w2 k show ?thesis by auto
  next
    case True
    with wr have wr2: "writeMessage x body e2 = Inr e1" by simp
    from wrote_step [OF w2 k(3) wr2] True k have w3: "\<exists>outs. wrote x e0 (with_verdict x op keep (ms @ [m])) outs e1" by auto
    have "seen x op (ms @ [m]) e1"
      using wr2 k(3) by (rule writeMessage_ok) (use s2 in \<open>auto simp: seen_def written_def Let_def\<close>)
    with w3 show ?thesis by blast
  qed
qed

lemma filter_messages_run:
  assumes "fold_err (filterMessage x) ms e = Inr e1"
    and "seen x op [] e" and "wrote x e0 [] [] e"
  shows "seen x op ms e1 \<and> (\<exists>outs. wrote x e0 (with_verdict x op keep ms) outs e1)"
proof -
  have "seen x op ([] @ ms) e1 \<and> (\<exists>outs. wrote x e0 (with_verdict x op keep ([] @ ms)) outs e1)"
    by (rule fold_err_run [where P = "\<lambda>ms e. seen x op ms e \<and> (\<exists>outs. wrote x e0 (with_verdict x op keep ms) outs e)", OF assms(1)])
      (use assms(2,3) in \<open>simp, blast\<close>, blast dest: filterMessage_step)
  then show ?thesis by simp
qed

subsection \<open>A whole pass\<close>

text \<open>The items of a complete backup, by kind.\<close>

definition items_of :: "State \<Rightarrow> Consumer list \<Rightarrow> Message list \<Rightarrow> Item list" where
  "items_of s cons ms = StateItem s # map ConsumerItem cons @ map MessageItem ms @ [End]"

definition consumer_ok :: "lib \<Rightarrow> Consumer \<Rightarrow> bool" where
  "consumer_ok x c \<longleftrightarrow>
     (case x_unmarshalConsumer x (c_Data c) of
        Inl _ \<Rightarrow> False
      | Inr scs \<Rightarrow> scs_ConsumerConfig scs \<noteq> None \<and> scs_ConsumerState scs \<noteq> None)"

definition backup_parts :: "lib \<Rightarrow> State \<Rightarrow> Consumer list \<Rightarrow> Message list \<Rightarrow> bool" where
  "backup_parts x s cons ms \<longleftrightarrow>
     sst_Consumers (s_State s) = int (length cons) \<and> (\<forall>c \<in> set cons. consumer_ok x c) \<and>
     sorted_wrt (<) ((sst_FirstSeq (s_State s) - 1) # map m_Seq ms) \<and> (\<forall>m \<in> set ms. r_fail (m_Body m) = None)"

lemma wf_backup_parts:
  assumes "wf_backup x es its"
  shows "\<exists>s cons ms. its = items_of s cons ms \<and> backup_parts x s cons ms"
proof -
  from assms obtain s st cs cons ms where
    v: "int (length cs) = sst_Consumers st" "list_all2 (valid_consumer x) cs cons" "wf_messages (sst_FirstSeq st - 1) ms" and
    its: "its = StateItem \<lparr> s_Ts = h_Timestamp (ent_hdr (s :: arc_entry)), s_State = st \<rparr>
              # map ConsumerItem cons @ map (\<lambda>e. MessageItem (message_of e)) ms @ [End]"
    unfolding wf_backup_def by blast
  have "consumer_ok x c" if "c \<in> set cons" for c
    using v(2) that by (auto simp: list_all2_conv_all_nth in_set_conv_nth valid_consumer_def consumer_ok_def)
  moreover have "length cs = length cons" using v(2) by (rule list_all2_lengthD)
  moreover have "map m_Seq (map message_of ms) = map (\<lambda>e. h_Sequence (ent_hdr e)) ms"
    "\<forall>m \<in> set (map message_of ms). r_fail (m_Body m) = None"
    using v(3) by (simp_all add: message_of_def wf_messages_def)
  ultimately have "backup_parts x \<lparr> s_Ts = h_Timestamp (ent_hdr s), s_State = st \<rparr> cons (map message_of ms)"
    using v unfolding backup_parts_def wf_messages_def by (simp del: map_map)
  moreover have "its = items_of \<lparr> s_Ts = h_Timestamp (ent_hdr s), s_State = st \<rparr> cons (map message_of ms)"
    by (simp add: its items_of_def)
  ultimately show ?thesis by blast
qed

lemma items_of_simps [simp]:
  "messages_in (items_of s cons ms) = ms" "consumers_in (items_of s cons ms) = cons"
proof -
  have "messages_in (map MessageItem ms) = ms" "consumers_in (map MessageItem ms) = []"
    using items_of_maps(3,4) [of "\<lambda>m. m" ms] by simp_all
  then show "messages_in (items_of s cons ms) = ms" "consumers_in (items_of s cons ms) = cons"
    by (simp_all add: items_of_def)
qed

lemma fold_err_map: "fold_err h (map f xs) s = fold_err (\<lambda>i. h (f i)) xs s"
  by (induction xs arbitrary: s) (auto split: sum.splits)

lemma fold_items_of:
  assumes "fold_err h (items_of s cons ms) e = Inr e4"
  obtains e1 e2 e3 where "h (StateItem s) e = Inr e1" "fold_err (\<lambda>c. h (ConsumerItem c)) cons e1 = Inr e2"
    "fold_err (\<lambda>m. h (MessageItem m)) ms e2 = Inr e3" "h End e3 = Inr e4"
  using assms by (auto simp: items_of_def fold_err_append fold_err_map split: sum.splits)

lemma pass_items:
  assumes "for_items x ctx h n (NewDecoder (arc_open es er)) s = Inr (d, s1)"
  obtains st cons ms where "wf_backup x es (items_of st cons ms)" "backup_parts x st cons ms"
    "fold_err h (items_of st cons ms) s = Inr s1"
proof -
  from for_items_Inr [OF assms] obtain its where its:
    "decode_all x (NewDecoder (arc_open es er)) = (its, IoEOF, d)" "fold_err h its s = Inr s1" by blast
  then have wf: "wf_backup x es its" using decoder_reaches_end by blast
  from wf_backup_parts [OF wf] its(2) wf that show ?thesis by blast
qed

text \<open>Consumers and the sentinel.\<close>

definition consumer_entry :: "Consumer \<Rightarrow> arc_entry" where
  "consumer_entry c =
     \<lparr> ent_hdr = \<lparr> h_Name = consumer_path (c_Name c), h_Timestamp = c_Ts c, h_Sequence = 0, h_HeaderSize = 0,
         h_PayloadSize = length (c_Data c) \<rparr>, ent_body = bytes_reader (c_Data c) \<rparr>"

definition end_entry :: arc_entry where
  "end_entry = \<lparr> ent_hdr = \<lparr> h_Name = [], h_Timestamp = 0, h_Sequence = 0, h_HeaderSize = 0, h_PayloadSize = 0 \<rparr>,
     ent_body = bytes_reader [] \<rparr>"

definition with_consumers :: "Consumer list \<Rightarrow> Consumer list \<Rightarrow> obfuscator option \<Rightarrow> editor \<Rightarrow> editor" where
  "with_consumers cs cs' ob e =
     (if o_renumber (e_op e)
      then upd_report (\<lambda>r. r\<lparr> rep_ConsumersDropped := rep_ConsumersDropped r + int (length cs) \<rparr>) e
      else (upd_report (\<lambda>r. r\<lparr> rep_ConsumersKept := rep_ConsumersKept r + int (length cs) \<rparr>) e)
             \<lparr> e_enc := map_option (\<lambda>es. es @ map consumer_entry cs') (e_enc e), e_obf := ob \<rparr>)"

lemma writeConsumer_ok:
  assumes "writeConsumer x c e = Inr e1"
  obtains c' ob where "copy_consumer x (e_obf e) c = Some (c', ob)"
    "e1 = e\<lparr> e_enc := map_option (\<lambda>es. es @ [consumer_entry c']) (e_enc e), e_obf := ob \<rparr>"
proof -
  have "\<exists>c' ob. copy_consumer x (e_obf e) c = Some (c', ob) \<and>
    e1 = e\<lparr> e_enc := map_option (\<lambda>es. es @ [consumer_entry c']) (e_enc e), e_obf := ob \<rparr>"
    using assms
    by (cases "e_obf e"; cases "e_enc e")
      (auto simp: writeConsumer_def copy_consumer_def WriteConsumer_def writeEntry_def consumer_entry_def split: sum.splits)
  then show ?thesis using that by blast
qed

lemma edit_consumer_run:
  assumes "fold_err (edit_consumer x) cs e = Inr e1"
  shows "\<exists>cs' ob. copy_all (copy_consumer x) (e_obf e) (if o_renumber (e_op e) then [] else cs) = Some (cs', ob) \<and>
    e1 = with_consumers cs cs' ob e"
  using assms
proof (induction cs arbitrary: e)
  case Nil
  then show ?case by (cases "e_enc e") (simp_all add: with_consumers_def)
next
  case (Cons c cs)
  show ?case
  proof (cases "o_renumber (e_op e)")
    case True
    then have "edit_consumer x c e = Inr (with_consumers [c] [] None e)" by (simp add: edit_consumer_def with_consumers_def)
    with Cons.prems have "fold_err (edit_consumer x) cs (with_consumers [c] [] None e) = Inr e1" by simp
    from Cons.IH [OF this] True show ?thesis by (auto simp: with_consumers_def algebra_simps)
  next
    case False
    let ?e = "upd_report (\<lambda>r. r\<lparr> rep_ConsumersKept := rep_ConsumersKept r + 1 \<rparr>) e"
    have one: "edit_consumer x c e = writeConsumer x c ?e" using False by (simp add: edit_consumer_def)
    from Cons.prems [unfolded fold_err.simps one] obtain e2 where w: "writeConsumer x c ?e = Inr e2"
      and f: "fold_err (edit_consumer x) cs e2 = Inr e1" by (auto split: sum.splits)
    from w obtain c' ob where c': "copy_consumer x (e_obf e) c = Some (c', ob)"
      and e2: "e2 = ?e\<lparr> e_enc := map_option (\<lambda>es. es @ [consumer_entry c']) (e_enc e), e_obf := ob \<rparr>"
      by (rule writeConsumer_ok) auto
    from Cons.IH [OF f] False obtain cs' ob' where "copy_all (copy_consumer x) ob cs = Some (cs', ob')" "e1 = with_consumers cs cs' ob' e2"
      by (auto simp: e2)
    then show ?thesis using False c'
      by (intro exI [of _ "c' # cs'"] exI [of _ ob']) (cases "e_enc e"; simp add: with_consumers_def e2 algebra_simps)
  qed
qed

lemma WriteEnd_eq: "WriteEnd out = out @ [end_entry]"
  by (simp add: WriteEnd_def writeEntry_def end_entry_def)

text \<open>
  \<open>edited\<close>: the editor after an edit of the backup \<open>s\<close>, \<open>cons\<close>, \<open>ms\<close> that wrote \<open>ks\<close>; \<open>copies\<close> are
  the consumers and messages written for the ones kept. \<open>edited_entries\<close> are the entries of the output
  archive behind its head.
\<close>

definition copies :: "lib \<Rightarrow> editOptions \<Rightarrow> StreamConfig \<Rightarrow> obfuscator option \<Rightarrow> Consumer list \<Rightarrow> Message list \<Rightarrow>
    Consumer list \<Rightarrow> Message list \<Rightarrow> obfuscator option \<Rightarrow> bool" where
  "copies x op cfg ob cons ks cons' outs ob' \<longleftrightarrow>
     (\<exists>ob1. copy_all (copy_consumer x) ob (if o_renumber op then [] else cons) = Some (cons', ob1) \<and>
        copy_all (copy_message x (sc_AllowMsgCounter cfg)) ob1 ks = Some (outs, ob'))"

lemma copies_plain: "copies x op cfg None cons ks cons' outs ob' \<longleftrightarrow> cons' = (if o_renumber op then [] else cons) \<and> outs = ks \<and> ob' = None"
  by (auto simp: copies_def)

lemma copies_fields:
  assumes "copies x op cfg ob cons ks cons' outs ob'"
  shows "map m_Seq outs = map m_Seq ks" "map m_Ts outs = map m_Ts ks" "map m_PayloadSize outs = map m_PayloadSize ks"
    "length outs = length ks" "length cons' = (if o_renumber op then 0 else length cons)"
proof -
  from assms obtain ob1 where c: "copy_all (copy_consumer x) ob (if o_renumber op then [] else cons) = Some (cons', ob1)"
    "copy_all (copy_message x (sc_AllowMsgCounter cfg)) ob1 ks = Some (outs, ob')" unfolding copies_def by blast
  from copied_fields [OF c(2)] show "map m_Seq outs = map m_Seq ks" "map m_Ts outs = map m_Ts ks"
    "map m_PayloadSize outs = map m_PayloadSize ks" "length outs = length ks" by blast+
  from copy_all_length [OF c(1)] show "length cons' = (if o_renumber op then 0 else length cons)" by simp
qed

definition edited_entries :: "editOptions \<Rightarrow> Consumer list \<Rightarrow> Message list \<Rightarrow> arc_entry list" where
  "edited_entries op cons ks =
     map consumer_entry (if o_renumber op then [] else cons) @ map message_entry (renumbered (o_renumber op) ks) @ [end_entry]"

definition edited :: "lib \<Rightarrow> editOptions \<Rightarrow> metaFile \<Rightarrow> obfuscator option \<Rightarrow> bool \<Rightarrow> State \<Rightarrow> Consumer list \<Rightarrow> Message list \<Rightarrow>
    Consumer list \<Rightarrow> Message list \<Rightarrow> editor \<Rightarrow> bool" where
  "edited x op mf ob tgt s cons ks cons' outs e \<longleftrightarrow>
     copies x op (mf_Config mf) ob cons ks cons' outs (e_obf e) \<and>
     e_op e = op \<and> e_meta e = mf \<and> e_cfg e = mf_Config mf \<and> e_srcState e = s_State s \<and>
     rep_Warnings (e_report e) = [] \<and>
     rep_ConsumersKept (e_report e) = (if o_renumber op then 0 else int (length cons)) \<and>
     rep_ConsumersDropped (e_report e) = (if o_renumber op then int (length cons) else 0) \<and>
     rep_Kept (e_report e) = of_nat (length ks) \<and>
     (length ks < 2 ^ 64 \<and> ks \<noteq> [] \<and> \<not> o_renumber op \<longrightarrow> e_firstOut e = m_Seq (hd ks)) \<and>
     e_bytes e = sum_list (map (stored_size (sc_Storage (mf_Config mf))) outs) \<and>
     (tgt \<longrightarrow> (\<forall>m \<in> set outs. whole m) \<and> e_enc e = Some (edited_entries op cons' outs) \<and> e_headTs e = s_Ts s) \<and>
     (\<not> tgt \<longrightarrow> e_enc e = None)"

definition start_editor :: "editOptions \<Rightarrow> metaFile \<Rightarrow> gotime \<Rightarrow> obfuscator option \<Rightarrow> bool \<Rightarrow> editor" where
  "start_editor op mf now ob tgt =
     (if tgt then (new_editor op mf now ob)\<lparr> e_enc := Some [] \<rparr> else new_editor op mf now ob)"

lemma start_editor_simps [simp]:
  "e_op (start_editor op mf now ob tgt) = op" "e_meta (start_editor op mf now ob tgt) = mf"
  "e_cfg (start_editor op mf now ob tgt) = mf_Config mf" "e_obf (start_editor op mf now ob tgt) = ob"
  "e_report (start_editor op mf now ob tgt) = zeroReport" "e_bytes (start_editor op mf now ob tgt) = 0"
  "e_enc (start_editor op mf now ob tgt) = (if tgt then Some [] else None)"
  "e_srcSubjects (start_editor op mf now ob tgt) = newSubjectCounter"
  "e_keptSubjects (start_editor op mf now ob tgt) = (if perSubject op then None else Some newSubjectCounter)"
  by (simp_all add: start_editor_def new_editor_def)

text \<open>After \<open>state.json\<close>: its timestamp and state are noted, and the output has a head if it is written.\<close>

lemma writeState_ok:
  assumes "writeState x ts e = Inr e1"
  obtains h where "e1 = (if e_enc e = None then e else e\<lparr> e_headTs := ts, e_head := h \<rparr>)"
  using assms by (auto simp: writeState_def Let_def split: if_splits sum.splits)

lemma single_item_kinds:
  "single_item x v (StateItem s) e = writeState x (s_Ts s) (e\<lparr> e_srcState := s_State s \<rparr>)"
  "(\<lambda>c. single_item x v (ConsumerItem c)) = edit_consumer x" "(\<lambda>m. single_item x v (MessageItem m)) = filterMessage x"
  by (simp_all add: single_item_def fun_eq_iff)

lemma singlePass_ok:
  assumes "singlePass x v (arc_open es er) (start_editor op mf now ob tgt) = Inr e" and ps: "\<not> perSubject op"
  obtains s cons ms cons' outs where "wf_backup x es (items_of s cons ms)" "backup_parts x s cons ms"
    "edited x op mf ob tgt s cons (with_verdict x op keep ms) cons' outs e" "seen x op ms e"
    "e_keptSubjects e = Some (fold (counter_add (x_maphash x)) (map m_Subject (with_verdict x op keep ms)) newSubjectCounter)"
proof -
  let ?e0 = "start_editor op mf now ob tgt"
  from assms(1) obtain d where run: "for_items x (v_ctx1 v) (single_item x v) 0 (NewDecoder (arc_open es er)) ?e0 = Inr (d, e)"
    by (auto simp: singlePass_def split: sum.splits)
  then show ?thesis
  proof (rule pass_items)
    fix s cons ms
    assume wf: "wf_backup x es (items_of s cons ms)" and bp: "backup_parts x s cons ms"
      and "fold_err (single_item x v) (items_of s cons ms) ?e0 = Inr e"
    from this(3) obtain e1 e2 e3 where
      1: "writeState x (s_Ts s) (?e0\<lparr> e_srcState := s_State s \<rparr>) = Inr e1" and
      2: "fold_err (edit_consumer x) cons e1 = Inr e2" and
      3: "fold_err (filterMessage x) ms e2 = Inr e3" and
      4: "single_item x v End e3 = Inr e"
      by (rule fold_items_of) (simp add: single_item_kinds)
    let ?ks = "with_verdict x op keep ms"
    from 1 obtain h where e1: "e1 = (if tgt then ?e0\<lparr> e_srcState := s_State s, e_headTs := s_Ts s, e_head := h \<rparr>
        else ?e0\<lparr> e_srcState := s_State s \<rparr>)" by (rule writeState_ok) (cases tgt; auto)
    then have e1s: "e_obf e1 = ob" "e_op e1 = op" by simp_all
    from edit_consumer_run [OF 2, unfolded e1s] obtain cons' ob1 where
      c: "copy_all (copy_consumer x) ob (if o_renumber op then [] else cons) = Some (cons', ob1)"
      and e2: "e2 = with_consumers cons cons' ob1 e1" by blast
    have op: "e_op e2 = op" by (simp add: e2 e1 with_consumers_def)
    have "e_obf e2 = ob1"
      using c by (cases "o_renumber op") (simp_all add: e2 with_consumers_def e1)
    moreover have "seen x op [] e2" "wrote x e2 [] [] e2"
      by (simp_all add: seen_def wrote_def e2 e1 with_consumers_def zeroReport_def drop_count_zero option.map_ident)
    ultimately obtain outs where s3: "seen x op ms e3" and w3: "wrote x e2 ?ks outs e3" and ob2: "e_obf e2 = ob1"
      using filter_messages_run [OF 3] by blast
    from 4 obtain dg where e: "e = (write_end e3)\<lparr> e_digest := dg \<rparr>" by (auto simp: single_item_def split: sum.splits)
    have cfg: "e_cfg e2 = mf_Config mf" by (simp add: e2 e1 with_consumers_def)
    from c w3 have "copies x op (mf_Config mf) ob cons ?ks cons' outs (e_obf e)"
      by (auto simp: copies_def wrote_def ob2 cfg e write_end_def)
    note cp = this copies_fields [OF this]
    have hd: "m_Seq (hd outs) = m_Seq (hd ?ks)" if "?ks \<noteq> []"
      using cp(2,5) that by (metis hd_map length_0_conv)
    have cons': "o_renumber op \<Longrightarrow> cons' = []" using cp(6) by simp
    have "edited x op mf ob tgt s cons ?ks cons' outs e"
      using w3 cp(1) hd cons' unfolding edited_def
      by (simp add: wrote_def op e write_end_def e2 e1 with_consumers_def zeroReport_def edited_entries_def WriteEnd_eq)
    moreover have "seen x op ms e" using s3 by (simp add: seen_def e write_end_def)
    moreover have "e_keptSubjects e = Some (fold (counter_add (x_maphash x)) (map m_Subject ?ks) newSubjectCounter)"
      using w3 ps by (simp add: wrote_def e write_end_def e2 e1 with_consumers_def)
    ultimately show ?thesis using wf bp that by blast
  qed
qed

end
