(* ===== verification/Backup_TwoPass.thy ===== *)
theory Backup_TwoPass
  imports Backup_EditSpec Backup_SubjectState
begin

text \<open>
  The per-subject edits of \<open>src/backup/edit.go\<close>: what the first pass observes, that the second
  pass over the same archive copies exactly what the per-subject state resolved, and the edited
  backup that results. The state is used through the lemmas of its interface only.
\<close>

subsection \<open>The first pass\<close>

definition tombstone :: "lib \<Rightarrow> editOptions \<Rightarrow> Message \<Rightarrow> bool" where
  "tombstone x op m \<longleftrightarrow> o_kvCompact op \<and> m_HdrSize m > 0 \<and> isTombstone x (the (msg_headers x m))"

definition obs_of :: "lib \<Rightarrow> editOptions \<Rightarrow> StorageType \<Rightarrow> Message \<Rightarrow> obs" where
  "obs_of x op storage m =
     \<lparr> ob_subject = m_Subject m, ob_seq = m_Seq m, ob_size = stored_size storage m, ob_tomb = tombstone x op m \<rparr>"

definition observed :: "lib \<Rightarrow> editOptions \<Rightarrow> StorageType \<Rightarrow> Message list \<Rightarrow> obs list" where
  "observed x op storage ms = map (obs_of x op storage) (with_verdict x op keep ms)"

definition final_state :: "lib \<Rightarrow> editOptions \<Rightarrow> StorageType \<Rightarrow> Message list \<Rightarrow> subjectState" where
  "final_state x op storage ms = observe_all Observe (observed x op storage ms) (newSubjectState op)"

definition survivors :: "lib \<Rightarrow> editOptions \<Rightarrow> StorageType \<Rightarrow> Message list \<Rightarrow> Message list" where
  "survivors x op storage ms =
     filter (\<lambda>m. Keeps (final_state x op storage ms) (m_Subject m) (m_Seq m)) (with_verdict x op keep ms)"

text \<open>The first pass reads and counts, and touches nothing else.\<close>

definition only_read :: "editor \<Rightarrow> editor \<Rightarrow> bool" where
  "only_read e0 e \<longleftrightarrow>
     (\<exists>n d t ss. e = e0\<lparr> e_report := (e_report e0)\<lparr> rep_SourceMessages := n, rep_Dropped := d, rep_TombstonesRemoved := t \<rparr>,
        e_srcSubjects := ss \<rparr>)"

lemma only_read_refl: "only_read e e"
  unfolding only_read_def
  by (rule exI [of _ "rep_SourceMessages (e_report e)"], rule exI [of _ "rep_Dropped (e_report e)"],
      rule exI [of _ "rep_TombstonesRemoved (e_report e)"], rule exI [of _ "e_srcSubjects e"]) simp

lemma only_read_counted: "only_read e0 e \<Longrightarrow> only_read e0 (counted x k t m e)"
proof -
  assume "only_read e0 e"
  then obtain n d t0 ss where e: "e = e0\<lparr> e_report := (e_report e0)\<lparr> rep_SourceMessages := n, rep_Dropped := d,
      rep_TombstonesRemoved := t0 \<rparr>, e_srcSubjects := ss \<rparr>"
    unfolding only_read_def by blast
  have "counted x k t m e = e0\<lparr> e_report := (e_report e0)\<lparr> rep_SourceMessages := n + 1, rep_Dropped := drop_add k d,
      rep_TombstonesRemoved := t \<rparr>, e_srcSubjects := counter_add (x_maphash x) (m_Subject m) ss \<rparr>"
    by (simp add: counted_def e)
  then show ?thesis unfolding only_read_def by blast
qed

lemma only_read_fields:
  assumes "only_read e0 e"
  shows "e_op e = e_op e0" "e_cfg e = e_cfg e0" "e_meta e = e_meta e0" "e_obf e = e_obf e0" "e_enc e = e_enc e0"
    "e_bytes e = e_bytes e0" "e_srcState e = e_srcState e0" "e_keptSubjects e = e_keptSubjects e0"
    "rep_Kept (e_report e) = rep_Kept (e_report e0)" "rep_Warnings (e_report e) = rep_Warnings (e_report e0)"
    "rep_ConsumersKept (e_report e) = rep_ConsumersKept (e_report e0)"
    "rep_ConsumersDropped (e_report e) = rep_ConsumersDropped (e_report e0)"
  using assms by (auto simp: only_read_def)

lemma tombstone_of_ok:
  assumes "tombstone_of x op m body = Inr t" and "mb_ok x m body"
  shows "t = tombstone x op m"
  using assms(1) mb_headers_ok [OF assms(2)]
  by (auto simp: tombstone_of_def tombstone_def split: if_splits sum.splits prod.splits)

definition first_inv :: "lib \<Rightarrow> editOptions \<Rightarrow> editor \<Rightarrow> Message list \<Rightarrow> editor \<times> subjectState \<times> u64 \<Rightarrow> bool" where
  "first_inv x op e0 ms s \<longleftrightarrow>
     (case s of (e, st, passed) \<Rightarrow>
        only_read e0 e \<and> seen x op ms e \<and>
        st = final_state x op (sc_Storage (e_cfg e0)) ms \<and> passed = of_nat (length (with_verdict x op keep ms)))"

lemma observe_message_step:
  assumes "first_inv x op e0 ms s" and "observe_message x m s = Inr s1"
  shows "first_inv x op e0 (ms @ [m]) s1"
proof -
  obtain e st passed where s: "s = (e, st, passed)" by (cases s)
  with assms(1) have inv: "only_read e0 e" "seen x op ms e"
    "st = final_state x op (sc_Storage (e_cfg e0)) ms" "passed = of_nat (length (with_verdict x op keep ms))"
    by (simp_all add: first_inv_def)
  have op: "e_op e = op" using inv(2) by (simp add: seen_def)
  note om = assms(2) [unfolded s observe_message_def prod.case]
  from om obtain ok body e1 where ev: "evaluate x m e = Inr ((ok, body), e1)"
    by (cases "evaluate x m e") auto
  from evaluate_ok [OF ev, unfolded op] obtain k t where
    k: "verdict x op m = Some k" "ok = (k = keep)" "mb_ok x m body" "e1 = counted x k t m e" by blast
  have r1: "only_read e0 e1" and s1': "seen x op (ms @ [m]) e1"
    using only_read_counted [OF inv(1)] seen_step [OF inv(2) k(1)] by (simp_all add: k)
  show ?thesis
  proof (cases "k = keep")
    case False
    with om ev k have "s1 = (e1, st, passed)" by simp
    with r1 s1' inv k False show ?thesis by (simp add: first_inv_def final_state_def observed_def)
  next
    case True
    with om ev k obtain tm where tm: "tombstone_of x (e_op e1) m body = Inr tm"
      by (cases "tombstone_of x (e_op e1) m body") auto
    with tombstone_of_ok [OF tm k(3)] om ev k True only_read_fields(1,2) [OF r1] only_read_fields(1) [OF inv(1)] op
    have "s1 = (e1, Observe (m_Subject m) (m_Seq m) (stored_size (sc_Storage (e_cfg e0)) m) (tombstone x op m) st, passed + 1)"
      by (simp add: stored_size_def)
    with r1 s1' inv k True show ?thesis
      by (simp add: first_inv_def final_state_def observed_def obs_of_def add.commute)
  qed
qed

lemma observe_messages_run:
  assumes "fold_err (observe_message x) ms (e, newSubjectState op, 0) = Inr s1" and "seen x op [] e"
  shows "first_inv x op e ms s1"
proof -
  have "first_inv x op e ([] @ ms) s1"
    by (rule fold_err_run [where P = "first_inv x op e", OF assms(1)])
      (use assms(2) observe_message_step in \<open>auto simp: first_inv_def only_read_refl final_state_def observed_def\<close>)
  then show ?thesis by simp
qed

subsection \<open>What the second pass copies\<close>

lemma observed_ascending:
  assumes "sorted_wrt (<) (a # map m_Seq ms)"
  shows "ascending_obs (observed x op storage ms)"
proof -
  have "sorted_wrt (<) (0 # map m_Seq ms)" by (rule sorted_wrt_Cons_weaken [OF assms])
  then have "sorted_wrt (<) (map m_Seq (with_verdict x op keep ms))" "\<forall>m \<in> set (with_verdict x op keep ms). 0 < m_Seq m"
    by (auto simp: with_verdict_def sorted_wrt_map sorted_wrt_filter)
  then show ?thesis by (simp add: ascending_obs_def observed_def obs_of_def o_def)
qed

lemma fresh_newSubjectState:
  assumes "perSubject op" shows "fresh_state (newSubjectState op)"
proof (cases "o_kvCompact op")
  case False
  with assms have "0 < nat (o_lastPerSubject op)" by (simp add: perSubject_def)
  then obtain k where "nat (o_lastPerSubject op) = Suc k" using gr0_implies_Suc by blast
  with False show ?thesis by (auto simp: fresh_state_def newSubjectState_def)
qed (simp add: fresh_state_def newSubjectState_def)

text \<open>Ranging over all messages, the second pass finds the survivors and nothing else.\<close>

lemma second_pass_survivors:
  assumes asc: "sorted_wrt (<) (a # map m_Seq ms)" and ps: "perSubject op"
  shows "filter (\<lambda>m. Keeps (final_state x op storage ms) (m_Subject m) (m_Seq m)) ms = survivors x op storage ms"
proof -
  have inj: "inj_on m_Seq (set ms)" using asc by (simp add: strict_sorted_iff distinct_map)
  have "verdict x op m = Some keep" if "m \<in> set ms" "Keeps (final_state x op storage ms) (m_Subject m) (m_Seq m)" for m
  proof -
    from Keeps_observed [OF fresh_newSubjectState [OF ps] observed_ascending [OF asc] that(2) [unfolded final_state_def]]
    obtain m' where m': "m' \<in> set ms" "verdict x op m' = Some keep" "m_Seq m' = m_Seq m"
      by (auto simp: observed_def obs_of_def with_verdict_def)
    with inj that(1) have "m' = m" by (auto dest: inj_onD)
    with m' show ?thesis by simp
  qed
  then show ?thesis by (auto simp: survivors_def with_verdict_def intro: filter_cong)
qed

lemma survivors_resolved:
  fixes x :: lib and storage :: StorageType
  assumes asc: "sorted_wrt (<) (a # map m_Seq ms)" and ps: "perSubject op"
  defines "ks \<equiv> survivors x op storage ms" and "r \<equiv> Resolve (final_state x op storage ms)"
  shows "res_msgs r = of_nat (length ks)" "res_bytes r = sum_list (map (stored_size storage) ks)"
    "res_subjects r = of_nat (card (m_Subject ` set ks))"
    "res_firstSeq r = (case ks of [] \<Rightarrow> 0 | k # _ \<Rightarrow> m_Seq k)"
proof -
  have ks: "filter (\<lambda>b. Keeps (final_state x op storage ms) (ob_subject b) (ob_seq b)) (observed x op storage ms)
      = map (obs_of x op storage) ks"
    by (simp add: ks_def survivors_def observed_def filter_map o_def obs_of_def)
  from second_pass_resolve [OF fresh_newSubjectState [OF ps] observed_ascending [OF asc, of x op storage]]
  have t: "totals_of (map (obs_of x op storage) ks) r" unfolding ks [symmetric] r_def final_state_def .
  then show "res_msgs r = of_nat (length ks)" "res_bytes r = sum_list (map (stored_size storage) ks)"
    "res_subjects r = of_nat (card (m_Subject ` set ks))"
    "res_firstSeq r = (case ks of [] \<Rightarrow> 0 | k # _ \<Rightarrow> m_Seq k)"
    by (simp_all add: totals_of_def obs_of_def o_def image_image split: list.splits)
qed

subsection \<open>The two passes together\<close>

definition count_consumers :: "Consumer list \<Rightarrow> editor \<Rightarrow> editor" where
  "count_consumers cs e =
     (if o_renumber (e_op e)
      then upd_report (\<lambda>r. r\<lparr> rep_ConsumersDropped := rep_ConsumersDropped r + int (length cs) \<rparr>) e
      else upd_report (\<lambda>r. r\<lparr> rep_ConsumersKept := rep_ConsumersKept r + int (length cs) \<rparr>) e)"

lemma count_consumers_run:
  "fold_err (\<lambda>c. first_item x v (ConsumerItem c)) cs (e, st, p) = Inr (count_consumers cs e, st, p)"
proof (induction cs arbitrary: e)
  case (Cons c cs)
  have "count_consumers cs (count_consumer e) = count_consumers (c # cs) e"
    by (simp add: count_consumers_def count_consumer_def algebra_simps)
  with Cons show ?case by (simp add: first_item_def)
qed (simp add: count_consumers_def)

lemma first_item_messages: "(\<lambda>m. first_item x v (MessageItem m)) = observe_message x"
  by (simp add: first_item_def fun_eq_iff split: prod.splits)

lemma first_pass_ok:
  assumes "for_items x ctx (first_item x v) n (NewDecoder (arc_open es er)) (e0, newSubjectState op, 0) = Inr (d, e1, st, passed)"
    and "seen x op [] e0"
  obtains s cons ms e' dg where "wf_backup x es (items_of s cons ms)" "backup_parts x s cons ms"
    "only_read (count_consumers cons (e0\<lparr> e_srcState := s_State s \<rparr>)) e'" "e1 = e'\<lparr> e_digest := dg \<rparr>"
    "seen x op ms e'" "st = final_state x op (sc_Storage (e_cfg e0)) ms"
    "passed = of_nat (length (with_verdict x op keep ms))"
  using assms(1)
proof (rule pass_items)
  fix s cons ms
  assume wf: "wf_backup x es (items_of s cons ms)" and bp: "backup_parts x s cons ms"
    and "fold_err (first_item x v) (items_of s cons ms) (e0, newSubjectState op, 0) = Inr (e1, st, passed)"
  let ?c = "count_consumers cons (e0\<lparr> e_srcState := s_State s \<rparr>)"
  from \<open>fold_err _ _ _ = _\<close> obtain e3 where
    2: "fold_err (observe_message x) ms (?c, newSubjectState op, 0) = Inr e3" and
    3: "first_item x v End e3 = Inr (e1, st, passed)"
    by (rule fold_items_of) (auto simp: count_consumers_run first_item_messages, simp add: first_item_def count_consumers_run)
  have "seen x op [] ?c" using assms(2) by (simp add: seen_def count_consumers_def)
  from observe_messages_run [OF 2 this] have inv: "first_inv x op ?c ms e3" .
  obtain e' st' p' where e3: "e3 = (e', st', p')" by (cases e3)
  from 3 e3 obtain dg where "e1 = e'\<lparr> e_digest := dg \<rparr>" "st = st'" "passed = p'"
    by (auto simp: first_item_def split: sum.splits)
  moreover have "e_cfg ?c = e_cfg e0" by (simp add: count_consumers_def)
  ultimately show ?thesis using wf bp inv e3 that by (auto simp: first_inv_def)
qed

definition second_message :: "lib \<Rightarrow> subjectState \<Rightarrow> Message \<Rightarrow> editor \<Rightarrow> berr + editor" where
  "second_message x st m e =
     (if \<not> Keeps st (m_Subject m) (m_Seq m) then Inr e else writeMessage x (new_msgBody m) e)"

definition same_counts :: "editor \<Rightarrow> editor \<Rightarrow> bool" where
  "same_counts e0 e \<longleftrightarrow>
     rep_SourceMessages (e_report e) = rep_SourceMessages (e_report e0) \<and>
     rep_Dropped (e_report e) = rep_Dropped (e_report e0) \<and> e_srcSubjects e = e_srcSubjects e0"

lemma second_messages_run:
  assumes "fold_err (second_message x st) ms e = Inr e1" and "wrote x e0 [] [] e" and "same_counts e0 e"
  shows "(\<exists>outs. wrote x e0 (filter (\<lambda>m. Keeps st (m_Subject m) (m_Seq m)) ms) outs e1) \<and> same_counts e0 e1"
proof -
  let ?P = "\<lambda>ms e. (\<exists>outs. wrote x e0 (filter (\<lambda>m. Keeps st (m_Subject m) (m_Seq m)) ms) outs e) \<and> same_counts e0 e"
  have step: "?P (pre @ [m]) e2" if "?P pre e1" "second_message x st m e1 = Inr e2" for pre m e1 e2
  proof (cases "Keeps st (m_Subject m) (m_Seq m)")
    case True
    with that have w: "writeMessage x (new_msgBody m) e1 = Inr e2" by (simp add: second_message_def)
    from w mb_ok_new have "same_counts e0 e2"
      by (rule writeMessage_ok) (use that(1) in \<open>auto simp: same_counts_def written_def Let_def\<close>)
    moreover from that(1) obtain outs where "wrote x e0 (filter (\<lambda>m. Keeps st (m_Subject m) (m_Seq m)) pre) outs e1" by blast
    from wrote_step [OF this mb_ok_new w] have "\<exists>outs. wrote x e0 (filter (\<lambda>m. Keeps st (m_Subject m) (m_Seq m)) (pre @ [m])) outs e2"
      using True by auto
    ultimately show ?thesis by blast
  next
    case False
    with that show ?thesis by (simp add: second_message_def)
  qed
  have "?P [] e" using assms(2,3) by auto
  then have "?P ([] @ ms) e1" by (rule fold_err_run [where P = ?P, OF assms(1)]) (rule step)
  then show ?thesis by simp
qed

definition copy_consumers :: "Consumer list \<Rightarrow> obfuscator option \<Rightarrow> editor \<Rightarrow> editor" where
  "copy_consumers cs' ob e = e\<lparr> e_enc := map_option (\<lambda>es. es @ map consumer_entry cs') (e_enc e), e_obf := ob \<rparr>"

lemma copy_consumers_run:
  assumes "fold_err (\<lambda>c. second_item x st (ConsumerItem c)) cs e = Inr e1"
  shows "\<exists>cs' ob. copy_all (copy_consumer x) (e_obf e) (if o_renumber (e_op e) then [] else cs) = Some (cs', ob) \<and>
    e1 = copy_consumers cs' ob e"
  using assms
proof (induction cs arbitrary: e)
  case Nil
  then show ?case by (cases "e_enc e") (simp_all add: copy_consumers_def)
next
  case (Cons c cs)
  show ?case
  proof (cases "o_renumber (e_op e)")
    case True
    then have one: "second_item x st (ConsumerItem c) e = Inr e" by (simp add: second_item_def)
    from Cons.prems have "fold_err (\<lambda>c. second_item x st (ConsumerItem c)) cs e = Inr e1" by (simp add: one)
    from Cons.IH [OF this] True show ?thesis by simp
  next
    case False
    then have one: "second_item x st (ConsumerItem c) e = writeConsumer x c e" by (simp add: second_item_def)
    from Cons.prems [unfolded fold_err.simps one] obtain e2 where w: "writeConsumer x c e = Inr e2"
      and f: "fold_err (\<lambda>c. second_item x st (ConsumerItem c)) cs e2 = Inr e1" by (auto split: sum.splits)
    from w obtain c' ob where c': "copy_consumer x (e_obf e) c = Some (c', ob)"
      and e2: "e2 = e\<lparr> e_enc := map_option (\<lambda>es. es @ [consumer_entry c']) (e_enc e), e_obf := ob \<rparr>"
      by (rule writeConsumer_ok)
    from Cons.IH [OF f] False obtain cs' ob' where "copy_all (copy_consumer x) ob cs = Some (cs', ob')" "e1 = copy_consumers cs' ob' e2"
      by (auto simp: e2)
    then show ?thesis using False c'
      by (intro exI [of _ "c' # cs'"] exI [of _ ob']) (cases "e_enc e"; simp add: copy_consumers_def e2)
  qed
qed

lemma second_item_kinds:
  "second_item x st (StateItem s) e = writeState x (s_Ts s) e"
  "(\<lambda>m. second_item x st (MessageItem m)) = second_message x st"
  by (simp_all add: second_item_def second_message_def fun_eq_iff)

text \<open>What the second pass has done when it meets the sentinel, on the items it read.\<close>

definition before_end :: "lib \<Rightarrow> subjectState \<Rightarrow> State \<Rightarrow> Consumer list \<Rightarrow> Message list \<Rightarrow> Consumer list \<Rightarrow> Message list \<Rightarrow> editor \<Rightarrow> editor \<Rightarrow> bool" where
  "before_end x st s cons ms cons' outs e0 e \<longleftrightarrow>
     (\<exists>ob h. copy_all (copy_consumer x) (e_obf e0) (if o_renumber (e_op e0) then [] else cons) = Some (cons', ob) \<and>
        wrote x (copy_consumers cons' ob (if e_enc e0 = None then e0 else e0\<lparr> e_headTs := s_Ts s, e_head := h \<rparr>))
          (filter (\<lambda>m. Keeps st (m_Subject m) (m_Seq m)) ms) outs e) \<and>
     same_counts e0 e"

lemma second_pass_items:
  assumes "fold_err (second_item x st) (StateItem s # map ConsumerItem cons @ map MessageItem ms) e0 = Inr e3"
    and "rep_Kept (e_report e0) = 0" and "e_bytes e0 = 0"
  shows "\<exists>cons' outs. before_end x st s cons ms cons' outs e0 e3"
proof -
  from assms(1) obtain e1 e2 where 1: "writeState x (s_Ts s) e0 = Inr e1"
    and 2: "fold_err (\<lambda>c. second_item x st (ConsumerItem c)) cons e1 = Inr e2"
    and 3: "fold_err (second_message x st) ms e2 = Inr e3"
    by (auto simp: fold_err_append fold_err_map second_item_kinds split: sum.splits)
  from 1 obtain h where e1: "e1 = (if e_enc e0 = None then e0 else e0\<lparr> e_headTs := s_Ts s, e_head := h \<rparr>)"
    by (rule writeState_ok)
  then have e1s: "e_obf e1 = e_obf e0" "e_op e1 = e_op e0" by simp_all
  from copy_consumers_run [OF 2, unfolded e1s] obtain cons' ob where
    c: "copy_all (copy_consumer x) (e_obf e0) (if o_renumber (e_op e0) then [] else cons) = Some (cons', ob)"
    and e2: "e2 = copy_consumers cons' ob e1" by blast
  have "wrote x e2 [] [] e2"
    using assms(2,3) by (simp add: wrote_def e2 copy_consumers_def e1 option.map_id option.map_ident)
  moreover have same: "same_counts e2 e2" "same_counts e0 e2"
    by (simp_all add: same_counts_def e2 e1 copy_consumers_def)
  ultimately obtain outs where "wrote x e2 (filter (\<lambda>m. Keeps st (m_Subject m) (m_Seq m)) ms) outs e3" "same_counts e2 e3"
    using second_messages_run [OF 3] by blast
  moreover from this(2) same(2) have "same_counts e0 e3" by (simp add: same_counts_def)
  ultimately have "wrote x e2 (filter (\<lambda>m. Keeps st (m_Subject m) (m_Seq m)) ms) outs e3" "same_counts e0 e3" by blast+
  then show ?thesis unfolding before_end_def using c e2 e1 by blast
qed

lemma second_pass_ok:
  assumes "for_items x ctx (second_item x st) n (NewDecoder (arc_open es er)) e0 = Inr (d, e)"
    and "rep_Kept (e_report e0) = 0" and "e_bytes e0 = 0"
  obtains s cons ms cons' outs e3 where "wf_backup x es (items_of s cons ms)" "before_end x st s cons ms cons' outs e0 e3"
    "rep_Kept (e_report e3) = res_msgs (Resolve st)" "e = write_end e3"
  using assms(1)
proof (rule pass_items)
  fix s cons ms
  assume wf: "wf_backup x es (items_of s cons ms)"
    and "fold_err (second_item x st) (items_of s cons ms) e0 = Inr e"
  then have "fold_err (second_item x st) ((StateItem s # map ConsumerItem cons @ map MessageItem ms) @ [End]) e0 = Inr e"
    by (simp add: items_of_def)
  then obtain e3 where f: "fold_err (second_item x st) (StateItem s # map ConsumerItem cons @ map MessageItem ms) e0 = Inr e3"
    and last: "second_item x st End e3 = Inr e"
    unfolding fold_err_append by (auto split: sum.splits)
  from second_pass_items [OF f assms(2-3)] obtain cons' outs where b: "before_end x st s cons ms cons' outs e0 e3" by blast
  with last wf that show ?thesis by (auto simp: second_item_def Let_def split: if_splits)
qed

text \<open>Two backups with the same archive have the same items.\<close>

lemma items_of_inj:
  assumes "items_of s cons ms = items_of s' cons' ms'" shows "s = s' \<and> cons = cons' \<and> ms = ms'"
proof -
  have "s = s'" using assms by (simp add: items_of_def)
  moreover have "messages_in (items_of s cons ms) = messages_in (items_of s' cons' ms')"
    "consumers_in (items_of s cons ms) = consumers_in (items_of s' cons' ms')" by (simp_all only: assms)
  ultimately show ?thesis by simp
qed

lemma wf_backup_fun:
  assumes "wf_backup x es its" "wf_backup x es its'" shows "its = its'"
proof -
  from assms obtain d d' where "decode_all x (NewDecoder (arc_open es [])) = (its, IoEOF, d)"
    "decode_all x (NewDecoder (arc_open es [])) = (its', IoEOF, d')"
    using decoder_reaches_end by metis
  then show ?thesis by simp
qed


text \<open>The report of an edit: every source message is counted once, under its first filter or as kept.\<close>

definition per_subject_kind :: "editOptions \<Rightarrow> dropKind" where
  "per_subject_kind op = (if o_kvCompact op then dropKVCompact else dropLastPerSubject)"

definition reported :: "lib \<Rightarrow> editOptions \<Rightarrow> Message list \<Rightarrow> Message list \<Rightarrow> editor \<Rightarrow> bool" where
  "reported x op ms ks e \<longleftrightarrow>
     (\<forall>m \<in> set ms. verdict x op m \<noteq> None) \<and>
     rep_SourceMessages (e_report e) = of_nat (length ms) \<and>
     rep_Kept (e_report e) = of_nat (length ks) \<and>
     (\<forall>k. k \<noteq> keep \<longrightarrow> drop_count k (rep_Dropped (e_report e)) =
        (if perSubject op \<and> k = per_subject_kind op
         then of_nat (length (with_verdict x op keep ms)) - of_nat (length ks)
         else of_nat (length (with_verdict x op k ms))))"

lemma verdict_kinds: "verdict x op m = Some k \<Longrightarrow> k \<noteq> dropLastPerSubject \<and> k \<noteq> dropKVCompact"
  by (auto simp: verdict_def evalMeta_cases split: if_splits)

lemma resolve_report_ok:
  assumes "seen x op ms e" and "perSubject op" and "passed = of_nat (length (with_verdict x op keep ms))"
    and "res_msgs (Resolve st) = of_nat (length ks)"
  shows "reported x op ms ks (upd_report (\<lambda>r. r\<lparr> rep_Kept := of_nat (length ks) \<rparr>) (resolve_report st passed e))"
proof -
  have *: "drop_count k (if kv then d\<lparr> dc_KVCompact := n \<rparr> else d\<lparr> dc_LastPerSubject := n \<rparr>) =
      (if k = (if kv then dropKVCompact else dropLastPerSubject) then n else drop_count k d)" for k kv d n
    by (cases k) simp_all
  show ?thesis
    using assms unfolding reported_def
    by (simp add: seen_def resolve_report_def Let_def * per_subject_kind_def)
qed

lemma resolve_report_fields:
  "e_op (resolve_report st p e) = e_op e" "e_cfg (resolve_report st p e) = e_cfg e" "e_meta (resolve_report st p e) = e_meta e"
  "e_obf (resolve_report st p e) = e_obf e" "e_enc (resolve_report st p e) = e_enc e" "e_bytes (resolve_report st p e) = e_bytes e"
  "e_srcState (resolve_report st p e) = e_srcState e" "e_keptSubjects (resolve_report st p e) = e_keptSubjects e"
  "rep_Kept (e_report (resolve_report st p e)) = rep_Kept (e_report e)"
  "rep_Warnings (e_report (resolve_report st p e)) = rep_Warnings (e_report e)"
  "rep_ConsumersKept (e_report (resolve_report st p e)) = rep_ConsumersKept (e_report e)"
  "rep_ConsumersDropped (e_report (resolve_report st p e)) = rep_ConsumersDropped (e_report e)"
  "e_headTs (resolve_report st p e) = e_headTs e"
  by (simp_all add: resolve_report_def Let_def)

lemma reported_cong:
  assumes "reported x op ms ks (upd_report (\<lambda>r. r\<lparr> rep_Kept := of_nat (length ks) \<rparr>) e0)" and "same_counts e0 e"
    and "rep_Kept (e_report e) = of_nat (length ks)"
  shows "reported x op ms ks e"
  using assms by (simp add: reported_def same_counts_def)

lemma start_seen: "seen x op [] (start_editor op mf now ob tgt)"
  by (simp add: seen_def zeroReport_def drop_count_zero)

text \<open>
  Two passes with an encoder or an obfuscator: the report is exact whatever the second pass reads; when it
  reads the archive of the first pass, the survivors are written.
\<close>

lemma twoPass_second:
  assumes "twoPass x v (arc_open es er) (start_editor op mf now ob tgt) = Inr e" and ps: "perSubject op"
    and rew: "v_rewind v = Inr (arc_open es' er')" and two: "tgt \<or> ob \<noteq> None"
  obtains s cons ms cons' outs where "wf_backup x es (items_of s cons ms)" "backup_parts x s cons ms"
    "reported x op ms (survivors x op (sc_Storage (mf_Config mf)) ms) e"
    "es' = es \<longrightarrow> edited x op mf ob tgt s cons (survivors x op (sc_Storage (mf_Config mf)) ms) cons' outs e"
    "e_keptSubjects e = None"
    "unat (of_nat (card (m_Subject ` set (survivors x op (sc_Storage (mf_Config mf)) ms))) :: u64) = e_keptSubjectCount e"
proof -
  let ?e0 = "start_editor op mf now ob tgt"
  let ?storage = "sc_Storage (mf_Config mf)"
  from assms(1) obtain d e1 st passed where
    1: "for_items x (v_ctx1 v) (first_item x v) 0 (NewDecoder (arc_open es er)) (?e0, newSubjectState op, 0) = Inr (d, e1, st, passed)"
    by (auto simp: twoPass_def split: sum.splits)
  from 1 start_seen show ?thesis
  proof (rule first_pass_ok)
    fix s cons ms e' dg
    assume wf: "wf_backup x es (items_of s cons ms)" and bp: "backup_parts x s cons ms"
      and r: "only_read (count_consumers cons (?e0\<lparr> e_srcState := s_State s \<rparr>)) e'" and e1: "e1 = e'\<lparr> e_digest := dg \<rparr>"
      and s': "seen x op ms e'" and "st = final_state x op (sc_Storage (e_cfg ?e0)) ms"
      and p: "passed = of_nat (length (with_verdict x op keep ms))"
    then have st: "st = final_state x op ?storage ms" by simp
    let ?ks = "survivors x op ?storage ms"
    note f = only_read_fields [OF r]
    have asc: "sorted_wrt (<) ((sst_FirstSeq (s_State s) - 1) # map m_Seq ms)" using bp by (simp add: backup_parts_def)
    note res = survivors_resolved [OF asc ps, of x ?storage, folded st]
    define e2 where "e2 = resolve_report st passed e1"
    note rf = resolve_report_fields [of st passed e1, folded e2_def]
    have enc: "e_enc e2 = (if tgt then Some [] else None)" "e_obf e2 = ob" "rep_Kept (e_report e2) = 0" "e_bytes e2 = 0"
      "e_op e2 = op" "e_cfg e2 = mf_Config mf"
      by (simp_all add: rf e1 f count_consumers_def zeroReport_def)
    from s' have "seen x op ms e1" by (simp add: seen_def e1)
    from resolve_report_ok [OF this ps p res(1)]
    have rep: "reported x op ms ?ks (upd_report (\<lambda>r. r\<lparr> rep_Kept := of_nat (length ?ks) \<rparr>) e2)" by (simp add: e2_def)
    have "\<not> (e_enc e2 = None \<and> e_obf e2 = None)" using two enc by auto
    with assms(1) 1 rew obtain d2 where
      "for_items x (v_ctx2 v) (second_item x st) 0 (NewDecoder (arc_open es' er')) e2 = Inr (d2, e)"
      by (auto simp: twoPass_def Let_def e2_def [symmetric] split: sum.splits)
    from this enc(3,4) show ?thesis
    proof (rule second_pass_ok)
      fix s2 cons2 ms2 cons' outs e3
      assume wf2: "wf_backup x es' (items_of s2 cons2 ms2)" and b: "before_end x st s2 cons2 ms2 cons' outs e2 e3"
        and k: "rep_Kept (e_report e3) = res_msgs (Resolve st)" and e: "e = write_end e3"
      from b k have "reported x op ms ?ks e3"
        by (intro reported_cong [OF rep]) (simp_all add: before_end_def res)
      then have rep3: "reported x op ms ?ks e" by (simp add: e reported_def write_end_def)
      from b obtain h ob1 where c: "copy_all (copy_consumer x) ob (if o_renumber op then [] else cons2) = Some (cons', ob1)"
        and w': "wrote x (copy_consumers cons' ob1 (if e_enc e2 = None then e2 else e2\<lparr> e_headTs := s_Ts s2, e_head := h \<rparr>))
          (filter (\<lambda>m. Keeps st (m_Subject m) (m_Seq m)) ms2) outs e3"
        unfolding before_end_def enc(2,5) by blast
      define e4 where "e4 = copy_consumers cons' ob1 (if e_enc e2 = None then e2 else e2\<lparr> e_headTs := s_Ts s2, e_head := h \<rparr>)"
      note w = w' [folded e4_def]
      have ed: "edited x op mf ob tgt s cons ?ks cons' outs e" if "es' = es"
      proof -
        from wf2 that have "items_of s2 cons2 ms2 = items_of s cons ms" by (simp add: wf_backup_fun [OF _ wf])
        from items_of_inj [OF this] have eq: "s2 = s" "cons2 = cons" "ms2 = ms" by simp_all
        from w have w3: "wrote x e4 ?ks outs e3" by (simp add: eq st second_pass_survivors [OF asc ps])
        have e4s: "e_obf e4 = ob1" "e_cfg e4 = mf_Config mf" by (simp_all add: e4_def copy_consumers_def enc)
        from c w3 have "copies x op (mf_Config mf) ob cons ?ks cons' outs (e_obf e)"
          by (auto simp: copies_def wrote_def eq e4s e write_end_def)
        note cp = this copies_fields [OF this]
        have hd: "m_Seq (hd outs) = m_Seq (hd ?ks)" if "?ks \<noteq> []"
          using cp(2,5) that by (metis hd_map length_0_conv)
        have cons': "o_renumber op \<Longrightarrow> cons' = []" using cp(6) by simp
        show ?thesis using w3 cp(1) hd cons' unfolding edited_def
          by (auto simp: wrote_def e write_end_def e4_def eq copy_consumers_def rf e1 f count_consumers_def zeroReport_def
              edited_entries_def WriteEnd_eq)
      qed
      have "e_keptSubjects e = None" "e_keptSubjectCount e = e_keptSubjectCount e2"
        using w by (simp_all add: wrote_def e write_end_def e4_def copy_consumers_def rf e1 f count_consumers_def ps)
      moreover have "e_keptSubjectCount e2 = unat (res_subjects (Resolve st))" by (simp add: e2_def resolve_report_def Let_def)
      ultimately show ?thesis using that [OF wf bp rep3] ed res(3) by auto
    qed
  qed
qed

text \<open>A plain dry run stops after the first pass.\<close>

lemma twoPass_dry:
  assumes "twoPass x v (arc_open es er) (start_editor op mf now None False) = Inr e" and ps: "perSubject op"
  obtains s cons ms where "wf_backup x es (items_of s cons ms)" "backup_parts x s cons ms"
    "reported x op ms (survivors x op (sc_Storage (mf_Config mf)) ms) e"
    "edited x op mf None False s cons (survivors x op (sc_Storage (mf_Config mf)) ms)
       (if o_renumber op then [] else cons) (survivors x op (sc_Storage (mf_Config mf)) ms) e"
    "e_keptSubjects e = None"
    "unat (of_nat (card (m_Subject ` set (survivors x op (sc_Storage (mf_Config mf)) ms))) :: u64) = e_keptSubjectCount e"
proof -
  let ?e0 = "start_editor op mf now None False"
  let ?storage = "sc_Storage (mf_Config mf)"
  from assms(1) obtain d e1 st passed where
    1: "for_items x (v_ctx1 v) (first_item x v) 0 (NewDecoder (arc_open es er)) (?e0, newSubjectState op, 0) = Inr (d, e1, st, passed)"
    by (auto simp: twoPass_def split: sum.splits)
  from 1 start_seen show ?thesis
  proof (rule first_pass_ok)
    fix s cons ms e' dg
    assume wf: "wf_backup x es (items_of s cons ms)" and bp: "backup_parts x s cons ms"
      and r: "only_read (count_consumers cons (?e0\<lparr> e_srcState := s_State s \<rparr>)) e'" and e1: "e1 = e'\<lparr> e_digest := dg \<rparr>"
      and s': "seen x op ms e'" and "st = final_state x op (sc_Storage (e_cfg ?e0)) ms"
      and p: "passed = of_nat (length (with_verdict x op keep ms))"
    then have st: "st = final_state x op ?storage ms" by simp
    let ?ks = "survivors x op ?storage ms"
    note f = only_read_fields [OF r]
    have asc: "sorted_wrt (<) ((sst_FirstSeq (s_State s) - 1) # map m_Seq ms)" using bp by (simp add: backup_parts_def)
    note res = survivors_resolved [OF asc ps, of x ?storage, folded st]
    define e2 where "e2 = resolve_report st passed e1"
    note rf = resolve_report_fields [of st passed e1, folded e2_def]
    have enc: "e_enc e2 = None" "e_obf e2 = None" by (simp_all add: rf e1 f count_consumers_def)
    from s' have "seen x op ms e1" by (simp add: seen_def e1)
    from resolve_report_ok [OF this ps p res(1)]
    have rep: "reported x op ms ?ks (upd_report (\<lambda>r. r\<lparr> rep_Kept := of_nat (length ?ks) \<rparr>) e2)" by (simp add: e2_def)
    from assms(1) 1 enc have e: "e = (upd_report (\<lambda>r. r\<lparr> rep_Kept := res_msgs (Resolve st) \<rparr>) e2)
        \<lparr> e_bytes := res_bytes (Resolve st), e_firstOut := res_firstSeq (Resolve st) \<rparr>"
      by (simp add: twoPass_def Let_def e2_def [symmetric])
    have "reported x op ms ?ks e" using rep by (simp add: reported_def e res)
    moreover have "edited x op mf None False s cons ?ks (if o_renumber op then [] else cons) ?ks e"
      unfolding edited_def copies_plain
      by (simp add: e rf e1 f count_consumers_def zeroReport_def res hd_conv_nth split: list.splits)
    moreover have "e_keptSubjects e = None" by (simp add: e rf e1 f count_consumers_def ps)
    moreover have "e_keptSubjectCount e = unat (res_subjects (Resolve st))" by (simp add: e e2_def resolve_report_def Let_def)
    ultimately show ?thesis using that [OF wf bp] res(3) by auto
  qed
qed

subsection \<open>A whole run\<close>

text \<open>The messages an edit keeps.\<close>

definition kept_messages :: "lib \<Rightarrow> editOptions \<Rightarrow> StorageType \<Rightarrow> Message list \<Rightarrow> Message list" where
  "kept_messages x op storage ms = (if perSubject op then survivors x op storage ms else with_verdict x op keep ms)"

text \<open>The second pass is needed to write and to obfuscate.\<close>

definition second_needed :: "editOptions \<Rightarrow> bool \<Rightarrow> obfuscator option \<Rightarrow> bool" where
  "second_needed op tgt ob \<longleftrightarrow> perSubject op \<and> (tgt \<or> ob \<noteq> None)"

lemma pass_ok:
  assumes "(if perSubject op then twoPass else singlePass) x v (arc_open es er) (start_editor op mf now ob tgt) = Inr e"
    and rew: "second_needed op tgt ob \<Longrightarrow> v_rewind v = Inr (arc_open es er)"
  obtains s cons ms cons' outs where "wf_backup x es (items_of s cons ms)" "backup_parts x s cons ms"
    "reported x op ms (kept_messages x op (sc_Storage (mf_Config mf)) ms) e"
    "edited x op mf ob tgt s cons (kept_messages x op (sc_Storage (mf_Config mf)) ms) cons' outs e"
proof (cases "perSubject op")
  case False
  from assms(1) False have "singlePass x v (arc_open es er) (start_editor op mf now ob tgt) = Inr e" by simp
  from this False show ?thesis
  proof (rule singlePass_ok)
    fix s cons ms cons' outs
    assume a: "wf_backup x es (items_of s cons ms)" "backup_parts x s cons ms"
      "edited x op mf ob tgt s cons (with_verdict x op keep ms) cons' outs e" "seen x op ms e"
    then have "reported x op ms (with_verdict x op keep ms) e"
      using False by (simp add: reported_def seen_def edited_def)
    with a that False show ?thesis by (simp add: kept_messages_def)
  qed
next
  case True
  show ?thesis
  proof (cases "tgt \<or> ob \<noteq> None")
    case two: True
    with \<open>perSubject op\<close> assms have "twoPass x v (arc_open es er) (start_editor op mf now ob tgt) = Inr e"
      "v_rewind v = Inr (arc_open es er)" by (simp_all add: second_needed_def)
    then show ?thesis
      by (rule twoPass_second [OF _ \<open>perSubject op\<close> _ two]) (use that \<open>perSubject op\<close> in \<open>auto simp: kept_messages_def\<close>)
  next
    case False
    with \<open>perSubject op\<close> assms(1) have "twoPass x v (arc_open es er) (start_editor op mf now None False) = Inr e" by simp
    then show ?thesis
      by (rule twoPass_dry [OF _ \<open>perSubject op\<close>]) (use that \<open>perSubject op\<close> False in \<open>auto simp: kept_messages_def\<close>)
  qed
qed

lemma archiveState_head: "archiveState (e\<lparr> e_head := h \<rparr>) z = archiveState e z"
  by (cases z) (simp_all add: archiveState_def srcLastSeq_def Let_def split: prod.split)

lemma run_ok:
  assumes "run x v (arc_open es er) tgt (new_editor op mf now ob) = Inr e"
    and rew: "second_needed op tgt ob \<Longrightarrow> v_rewind v = Inr (arc_open es er)"
  obtains s cons ms cons' outs where "wf_backup x es (items_of s cons ms)" "backup_parts x s cons ms"
    "reported x op ms (kept_messages x op (sc_Storage (mf_Config mf)) ms) e"
    "edited x op mf ob tgt s cons (kept_messages x op (sc_Storage (mf_Config mf)) ms) cons' outs e"
    "tgt \<Longrightarrow> \<exists>h. encodeStateHead x (s_Ts s) (archiveState e (Some (rep_Kept (e_report e), e_bytes e))) = Inr h \<and>
       output_entries e = h # edited_entries op cons' outs"
proof -
  have op: "e_op (new_editor op mf now ob) = op" by (simp add: new_editor_def)
  have "\<exists>e1 h. (if perSubject op then twoPass else singlePass) x v (arc_open es er) (start_editor op mf now ob tgt) = Inr e1 \<and>
    (if tgt then encodeStateHead x (e_headTs e1) (archiveState e1 (Some (rep_Kept (e_report e1), e_bytes e1))) = Inr h \<and>
       e = e1\<lparr> e_head := Some h \<rparr> else e = e1)"
    using assms(1) by (cases tgt) (auto simp: run_def Let_def op start_editor_def split: sum.splits)
  then obtain e1 h where p: "(if perSubject op then twoPass else singlePass) x v (arc_open es er) (start_editor op mf now ob tgt) = Inr e1"
    and h: "if tgt then encodeStateHead x (e_headTs e1) (archiveState e1 (Some (rep_Kept (e_report e1), e_bytes e1))) = Inr h \<and>
       e = e1\<lparr> e_head := Some h \<rparr> else e = e1" by blast
  from p rew show ?thesis
  proof (rule pass_ok)
    fix s cons ms cons' outs
    let ?ks = "kept_messages x op (sc_Storage (mf_Config mf)) ms"
    assume wf: "wf_backup x es (items_of s cons ms)" "backup_parts x s cons ms"
      and r: "reported x op ms ?ks e1" and ed: "edited x op mf ob tgt s cons ?ks cons' outs e1"
    have "reported x op ms ?ks e" "edited x op mf ob tgt s cons ?ks cons' outs e"
      using r ed h by (auto simp: reported_def edited_def split: if_splits)
    moreover have "\<exists>h. encodeStateHead x (s_Ts s) (archiveState e (Some (rep_Kept (e_report e), e_bytes e))) = Inr h \<and>
       output_entries e = h # edited_entries op cons' outs" if tgt
    proof (intro exI conjI)
      from ed that have "e_headTs e1 = s_Ts s" "e_enc e1 = Some (edited_entries op cons' outs)" by (simp_all add: edited_def)
      with h that show "encodeStateHead x (s_Ts s) (archiveState e (Some (rep_Kept (e_report e), e_bytes e))) = Inr h"
        "output_entries e = h # edited_entries op cons' outs"
        by (simp_all add: archiveState_head output_entries_def)
    qed
    ultimately show ?thesis using that wf by blast
  qed (use rew in auto)
qed

end
