(* ===== verification/Backup_EditCopies.thy ===== *)
theory Backup_EditCopies
  imports Backup_TwoPass
begin

text \<open>
  What an obfuscating edit writes (\<open>src/backup/edit.go\<close>, \<open>obfuscate.go\<close>): copies that the mappings held in
  the end reveal, whose payloads are zeros unless the stream counts, and that a decoder accepts.
\<close>

subsection \<open>Copies of messages\<close>

definition revealed :: "lib \<Rightarrow> bool \<Rightarrow> obfuscator \<Rightarrow> Message \<Rightarrow> Message \<Rightarrow> bool" where
  "revealed x counter ob m out \<longleftrightarrow>
     Reveal (ob_reverse ob) (m_Subject out) = m_Subject m \<and> m_Seq out = m_Seq m \<and> m_Ts out = m_Ts m \<and>
     m_PayloadSize out = m_PayloadSize m \<and>
     drop (m_HdrSize out) (r_data (m_Body out)) =
       (if counter then the (msg_payload m) else replicate (m_PayloadSize m) (CHR ''0''))"

lemma obf_bodies_irrelevant [simp]:
  "obf_ok x (ob\<lparr> ob_bodies := n \<rparr>) = obf_ok x ob" "obf_extends a (ob\<lparr> ob_bodies := n \<rparr>) = obf_extends a ob"
  "obf_extends (ob\<lparr> ob_bodies := n \<rparr>) b = obf_extends ob b"
  by (simp_all add: obf_ok_def obf_extends_def)

lemma obf_message_subject:
  assumes "obf_message x subj hdr ob = Inr ((su, block), ob1)" "obf_ok x ob"
  obtains oa where "obf_subject x subj ob = Inr (su, oa)" "obf_ok x oa" "obf_ok x ob1" "obf_extends oa ob1" "obf_extends ob ob1"
proof -
  let ?rest = "\<lambda>subj'. if length hdr = 0 then st_ret (subj', [])
     else st_bind (map_st (\<lambda>(key, vals). st_bind (map_st (obf_headerValue x key) vals) (\<lambda>vs. st_ret (key, vs))) hdr)
         (\<lambda>mapped. st_ret (subj', encodeHeaders (filter (\<lambda>(_, vs). vs \<noteq> []) mapped)))"
  from assms(1) obtain s1 oa where s: "obf_subject x subj ob = Inr (s1, oa)" "?rest s1 oa = Inr ((su, block), ob1)"
    unfolding obf_message_def st_bind_Inr by blast
  have "s1 = su" using s(2) by (auto simp: st_bind_Inr split: if_splits)
  have "obf_step x (?rest s1)" by (intro obf_steps)
  from obf_stepD [OF obf_step_subject(1) assms(2) s(1)] have oa: "obf_ok x oa" "obf_extends ob oa" by blast+
  from obf_stepD [OF \<open>obf_step x (?rest s1)\<close> oa(1) s(2)] have "obf_ok x ob1" "obf_extends oa ob1" by blast+
  then show ?thesis using that s(1) \<open>s1 = su\<close> oa obf_extends_trans by blast
qed

lemma obf_copy_revealed:
  assumes "obf_copy x counter ob m = Some (out, ob1)" "obf_ok x ob" "hmac_ok x"
  shows "obf_ok x ob1 \<and> obf_extends ob ob1 \<and> (\<forall>ob2. obf_ok x ob2 \<longrightarrow> obf_extends ob1 ob2 \<longrightarrow> revealed x counter ob2 m out)"
proof -
  from assms(1) obtain hdr su block oc where o: "obf_message x (m_Subject m) hdr ob = Inr ((su, block), oc)"
    and out: "m_Subject out = su" "m_Seq out = m_Seq m" "m_Ts out = m_Ts m" "m_PayloadSize out = m_PayloadSize m"
      "drop (m_HdrSize out) (r_data (m_Body out)) = (if counter then the (msg_payload m) else replicate (m_PayloadSize m) (CHR ''0''))"
    and ob1: "ob1 = oc \<or> ob1 = oc\<lparr> ob_bodies := ob_bodies oc + 1 \<rparr>"
    by (auto simp: obf_copy_def Let_def bytes_reader_def split: option.splits sum.splits prod.splits if_splits)
  from o assms(2) obtain oa where a: "obf_subject x (m_Subject m) ob = Inr (su, oa)" "obf_ok x oc" "obf_extends oa oc" "obf_extends ob oc"
    by (rule obf_message_subject)
  have "Reveal (ob_reverse ob2) su = m_Subject m" if "obf_ok x ob2" "obf_extends oc ob2" for ob2
    using reveal_rewritten [OF assms(2,3) a(1) [unfolded obf_subject_def] that(1)] obf_extends_trans [OF a(3) that(2)] by blast
  then show ?thesis using a ob1 out by (auto simp: revealed_def)
qed

lemma copied_messages_revealed:
  assumes "copy_all (copy_message x counter) (Some ob) ms = Some (outs, ob')" "obf_ok x ob" "hmac_ok x"
  shows "\<exists>ob1. ob' = Some ob1 \<and> obf_ok x ob1 \<and> obf_extends ob ob1 \<and>
    (\<forall>ob2. obf_ok x ob2 \<longrightarrow> obf_extends ob1 ob2 \<longrightarrow> list_all2 (revealed x counter ob2) ms outs)"
  using assms(1,2)
proof (induction ms arbitrary: ob outs)
  case (Cons m ms)
  from Cons.prems(1) obtain out oz outs' where c0: "copy_message x counter (Some ob) m = Some (out, oz)"
    "copy_all (copy_message x counter) oz ms = Some (outs', ob')" "outs = out # outs'"
    by (auto split: option.splits)
  from c0(1) obtain oa where oz: "obf_copy x counter ob m = Some (out, oa)" "oz = Some oa" by (auto simp: copy_message_def)
  note c = oz(1) c0(2) [unfolded oz(2)] c0(3)
  from obf_copy_revealed [OF c(1) Cons.prems(2) assms(3)] have a: "obf_ok x oa" "obf_extends ob oa"
    "\<And>ob2. obf_ok x ob2 \<Longrightarrow> obf_extends oa ob2 \<Longrightarrow> revealed x counter ob2 m out" by blast+
  from Cons.IH [OF c(2) a(1)] obtain ob1 where i: "ob' = Some ob1" "obf_ok x ob1" "obf_extends oa ob1"
    "\<And>ob2. obf_ok x ob2 \<Longrightarrow> obf_extends ob1 ob2 \<Longrightarrow> list_all2 (revealed x counter ob2) ms outs'" by blast
  have "list_all2 (revealed x counter ob2) (m # ms) outs" if "obf_ok x ob2" "obf_extends ob1 ob2" for ob2
    using a(3) [OF that(1) obf_extends_trans [OF i(3) that(2)]] i(4) [OF that] by (simp add: c(3))
  then show ?case using i(1-3) obf_extends_trans [OF a(2) i(3)] by blast
qed auto

subsection \<open>Copies of consumers\<close>

text \<open>The JSON law of consumers: what was written with a configuration and a state is read with both.\<close>

definition json_consumer_ok :: "lib \<Rightarrow> bool" where
  "json_consumer_ok x \<longleftrightarrow>
     (\<forall>scs. scs_ConsumerConfig scs \<noteq> None \<longrightarrow> scs_ConsumerState scs \<noteq> None \<longrightarrow>
        (\<exists>scs'. x_unmarshalConsumer x (x_marshalConsumer x scs) = Inr scs' \<and> scs_ConsumerConfig scs' \<noteq> None \<and> scs_ConsumerState scs' \<noteq> None))"

lemma obf_consumer_name:
  assumes "obf_consumer x name data ob = Inr ((n, d), ob1)" "obf_ok x ob"
  obtains oa scs scs1 where "obf_ok x oa" "obf_extends ob oa" "obf_token x name oa = Inr (n, ob1)" "x_unmarshalConsumer x data = Inr scs"
    "d = x_marshalConsumer x scs1" "scs_ConsumerConfig scs1 \<noteq> None" "scs_ConsumerState scs1 = scs_ConsumerState scs"
proof -
  have tail: "\<exists>oa. obf_ok x oa \<and> obf_extends ob oa \<and> P oa" if "obf_step x m" "obf_ok x o1" "obf_extends ob o1" "m o1 = Inr (a, o2)" "P o2"
    for m :: "'a obf" and o1 o2 a P
    using obf_stepD [OF that(1,2,4)] obf_extends_trans [OF that(3)] that(5) by blast
  from assms(1) obtain scs cfg where scs: "x_unmarshalConsumer x data = Inr scs" "scs_ConsumerConfig scs = Some cfg"
    by (auto simp: obf_consumer_def split: sum.splits option.splits)
  from assms(1) obtain du o1 nm o2 fs o3 fss o4 ds o5 dg o6 pgs o7 where
    st: "obf_token x (sn_Durable cfg) ob = Inr (du, o1)" "obf_token x (sn_Name cfg) o1 = Inr (nm, o2)"
      "obf_subject x (sn_FilterSubject cfg) o2 = Inr (fs, o3)" "obf_subjects x (sn_FilterSubjects cfg) o3 = Inr (fss, o4)"
      "obf_subject x (sn_DeliverSubject cfg) o4 = Inr (ds, o5)" "obf_token x (sn_DeliverGroup cfg) o5 = Inr (dg, o6)"
      "map_st (obf_token x) (sn_PriorityGroups cfg) o6 = Inr (pgs, o7)" "obf_token x name o7 = Inr (n, ob1)"
    and d: "d = x_marshalConsumer x (scs\<lparr> scs_ConsumerConfig :=
                 Some (cfg\<lparr> sn_Durable := du, sn_Name := nm, sn_FilterSubject := fs, sn_FilterSubjects := fss,
                   sn_DeliverSubject := ds, sn_DeliverGroup := dg, sn_PriorityGroups := pgs,
                   sn_Description := [], sn_Metadata := [] \<rparr>) \<rparr>)"
    unfolding obf_consumer_def scs sum.case option.case st_bind_Inr st_ret_def by blast
  note s1 = obf_stepD [OF obf_step_token assms(2) st(1)]
  note s2 = obf_stepD [OF obf_step_token conjunct1 [OF s1] st(2)]
  note s3 = obf_stepD [OF obf_step_subject(1) conjunct1 [OF s2] st(3)]
  note s4 = obf_stepD [OF obf_step_subject(3) conjunct1 [OF s3] st(4)]
  note s5 = obf_stepD [OF obf_step_subject(1) conjunct1 [OF s4] st(5)]
  note s6 = obf_stepD [OF obf_step_token conjunct1 [OF s5] st(6)]
  note s7 = obf_stepD [OF obf_step_map [OF obf_step_token] conjunct1 [OF s6] st(7)]
  have "obf_extends ob o7" using s1 s2 s3 s4 s5 s6 s7 obf_extends_trans by meson
  then show ?thesis using that [OF _ _ st(8) scs(1) d] s7 by auto
qed

text \<open>The names of the copies are hashes: valid names that reveal the original.\<close>

lemma hash_valid_name:
  assumes "hmac_ok x" shows "IsValidName (obf_hash x secret t)"
proof -
  have "c \<notin> set (obf_hash x secret t)" if "c \<in> set nameStopChars" for c
    using that hash_alphabet [of x secret t] by (auto simp: base32_alphabet_eq nameStopChars_def)
  moreover have "obf_hash x secret t \<noteq> []" using length_obf_hash [OF assms, of secret t] by auto
  ultimately show ?thesis by (auto simp: IsValidName_def contains_any_def list_ex_iff)
qed

definition consumer_copy :: "lib \<Rightarrow> obfuscator \<Rightarrow> Consumer \<Rightarrow> Consumer \<Rightarrow> bool" where
  "consumer_copy x ob c c' \<longleftrightarrow>
     Reveal (ob_reverse ob) (c_Name c') = c_Name c \<and> c_Ts c' = c_Ts c \<and>
     (c_Name c \<noteq> [] \<longrightarrow> IsValidName (c_Name c')) \<and> (json_consumer_ok x \<longrightarrow> consumer_ok x c \<longrightarrow> consumer_ok x c')"

lemma copied_consumer:
  assumes "copy_consumer x (Some ob) c = Some (c', ob')" "obf_ok x ob" "hmac_ok x"
  shows "\<exists>ob1. ob' = Some ob1 \<and> obf_ok x ob1 \<and> obf_extends ob ob1 \<and>
    (\<forall>ob2. obf_ok x ob2 \<longrightarrow> obf_extends ob1 ob2 \<longrightarrow> consumer_copy x ob2 c c')"
proof -
  from assms(1) obtain n d ob1 where o: "obf_consumer x (c_Name c) (c_Data c) ob = Inr ((n, d), ob1)"
    and c': "c' = c\<lparr> c_Name := n, c_Data := d \<rparr>" and ob': "ob' = Some ob1"
    by (auto simp: copy_consumer_def split: sum.splits)
  from o assms(2) obtain oa scs scs1 where a: "obf_ok x oa" "obf_extends ob oa" "obf_token x (c_Name c) oa = Inr (n, ob1)"
    "x_unmarshalConsumer x (c_Data c) = Inr scs" "d = x_marshalConsumer x scs1" "scs_ConsumerConfig scs1 \<noteq> None"
    "scs_ConsumerState scs1 = scs_ConsumerState scs" by (rule obf_consumer_name)
  note t = obf_token_step [OF a(1,3)]
  have "consumer_copy x ob2 c c'" if ob2: "obf_ok x ob2" "obf_extends ob1 ob2" for ob2
  proof -
    have name: "Reveal (ob_reverse ob2) n = c_Name c \<and> (c_Name c \<noteq> [] \<longrightarrow> IsValidName n)"
    proof (cases "c_Name c = []")
      case True
      with t have "n = []" by simp
      moreover have "reveal_token (ob_reverse ob2) [] = []" by (rule reveal_token_pass [OF ob2(1) assms(3)]) simp
      ultimately show ?thesis using True by (simp add: Reveal_def)
    next
      case False
      with t ob2(2) have "map_of (ob_forward ob2) (c_Name c) = Some n" by (auto simp: obf_extends_def map_le_def dom_def)
      from obf_okD [OF ob2(1) this] have n: "n = obf_hash x (ob_secret ob2) (c_Name c)" "map_of (ob_reverse ob2) n = Some (c_Name c)" by blast+
      have "CHR ''.'' \<notin> set n" using hash_alphabet alphabet_excludes(1) unfolding n(1) by blast
      then show ?thesis using reveal_token_hashed [OF n(2)] hash_valid_name [OF assms(3)] by (simp add: reveal_one n(1))
    qed
    moreover have "consumer_ok x c'" if "json_consumer_ok x" "consumer_ok x c"
      using that a(4-7) by (auto simp: json_consumer_ok_def consumer_ok_def c')
    ultimately show ?thesis by (simp add: consumer_copy_def c')
  qed
  then show ?thesis using ob' t obf_extends_trans [OF a(2)] by blast
qed

lemma copied_consumers:
  assumes "copy_all (copy_consumer x) (Some ob) cs = Some (cs', ob')" "obf_ok x ob" "hmac_ok x"
  shows "\<exists>ob1. ob' = Some ob1 \<and> obf_ok x ob1 \<and> obf_extends ob ob1 \<and>
    (\<forall>ob2. obf_ok x ob2 \<longrightarrow> obf_extends ob1 ob2 \<longrightarrow> list_all2 (consumer_copy x ob2) cs cs')"
  using assms(1,2)
proof (induction cs arbitrary: ob cs')
  case (Cons c cs)
  from Cons.prems(1) obtain c' oz cs2 where c: "copy_consumer x (Some ob) c = Some (c', oz)"
    "copy_all (copy_consumer x) oz cs = Some (cs2, ob')" "cs' = c' # cs2"
    by (auto split: option.splits)
  from copied_consumer [OF c(1) Cons.prems(2) assms(3)] obtain oa where a: "oz = Some oa" "obf_ok x oa" "obf_extends ob oa"
    "\<And>ob2. obf_ok x ob2 \<Longrightarrow> obf_extends oa ob2 \<Longrightarrow> consumer_copy x ob2 c c'" by blast
  from Cons.IH [OF c(2) [unfolded a(1)] a(2)] obtain ob1 where i: "ob' = Some ob1" "obf_ok x ob1" "obf_extends oa ob1"
    "\<And>ob2. obf_ok x ob2 \<Longrightarrow> obf_extends ob1 ob2 \<Longrightarrow> list_all2 (consumer_copy x ob2) cs cs2" by blast
  have "list_all2 (consumer_copy x ob2) (c # cs) cs'" if "obf_ok x ob2" "obf_extends ob1 ob2" for ob2
    using a(4) [OF that(1) obf_extends_trans [OF i(3) that(2)]] i(4) [OF that] by (simp add: c(3))
  then show ?case using i(1-3) obf_extends_trans [OF a(3) i(3)] by blast
qed auto

text \<open>The copies of an obfuscating edit, by the mappings at its end.\<close>

lemma copies_revealed:
  assumes "copies x op cfg (Some ob) cons ks cons' outs ob'" "obf_ok x ob" "hmac_ok x"
  shows "\<exists>ob1. ob' = Some ob1 \<and> obf_ok x ob1 \<and>
    list_all2 (consumer_copy x ob1) (if o_renumber op then [] else cons) cons' \<and>
    list_all2 (revealed x (sc_AllowMsgCounter cfg) ob1) ks outs"
proof -
  from assms(1) obtain oz where c: "copy_all (copy_consumer x) (Some ob) (if o_renumber op then [] else cons) = Some (cons', oz)"
    "copy_all (copy_message x (sc_AllowMsgCounter cfg)) oz ks = Some (outs, ob')" unfolding copies_def by blast
  from copied_consumers [OF c(1) assms(2,3)] obtain oa where a: "oz = Some oa" "obf_ok x oa"
    "\<And>ob2. obf_ok x ob2 \<Longrightarrow> obf_extends oa ob2 \<Longrightarrow> list_all2 (consumer_copy x ob2) (if o_renumber op then [] else cons) cons'" by blast
  from copied_messages_revealed [OF c(2) [unfolded a(1)] a(2) assms(3)] a(3) show ?thesis
    using obf_extends_refl by blast
qed

end
