(* ===== verification/Backup_EditProps.thy ===== *)
theory Backup_EditProps
  imports Backup_EditCopies
begin

text \<open>
  The properties of an edit as a whole: what it keeps, what it writes, that a restore accepts
  it, that its report adds up, and that the pass over a changed source is caught.
\<close>

subsection \<open>What is kept\<close>

definition newer_passing :: "lib \<Rightarrow> editOptions \<Rightarrow> Message list \<Rightarrow> Message \<Rightarrow> Message list" where
  "newer_passing x op ms m =
     filter (\<lambda>m'. verdict x op m' = Some keep \<and> m_Subject m' = m_Subject m \<and> m_Seq m < m_Seq m') ms"

lemma survivor_iff:
  assumes asc: "sorted_wrt (<) (a # map m_Seq ms)" and ps: "perSubject op" and m: "m \<in> set (with_verdict x op keep ms)"
  shows "Keeps (final_state x op storage ms) (m_Subject m) (m_Seq m) \<longleftrightarrow>
    (if o_kvCompact op then \<not> tombstone x op m \<and> newer_passing x op ms m = []
     else length (newer_passing x op ms m) < nat (o_lastPerSubject op))"
proof -
  note oa = observed_ascending [OF asc, of x op storage]
  have b: "obs_of x op storage m \<in> set (observed x op storage ms)" using m by (simp add: observed_def)
  have newer: "map (obs_of x op storage) (newer_passing x op ms m) =
      filter (\<lambda>b'. ob_subject b' = m_Subject m \<and> m_Seq m < ob_seq b') (observed x op storage ms)"
    by (simp add: newer_passing_def observed_def with_verdict_def filter_map o_def obs_of_def conj_ac)
  show ?thesis
  proof (cases "o_kvCompact op")
    case True
    have "newer_passing x op ms m = [] \<longleftrightarrow>
        (\<forall>b' \<in> set (observed x op storage ms). ob_subject b' = m_Subject m \<longrightarrow> ob_seq b' \<le> m_Seq m)"
      using arg_cong [OF newer, of "\<lambda>l. l = []"] by (auto simp: filter_empty_conv not_less)
    then show ?thesis
      using kv_keeps_iff [OF oa b] True by (simp add: final_state_def newSubjectState_def obs_of_def)
  next
    case False
    then have "0 < nat (o_lastPerSubject op)" using ps by (simp add: perSubject_def)
    from lps_keeps_iff [OF oa b this] False arg_cong [OF newer, of length] show ?thesis
      by (simp add: final_state_def newSubjectState_def obs_of_def)
  qed
qed

lemma kept_messages_cases:
  assumes "sorted_wrt (<) (a # map m_Seq ms)"
  shows "kept_messages x op storage ms =
    filter (\<lambda>m. verdict x op m = Some keep \<and>
        (perSubject op \<longrightarrow>
          (if o_kvCompact op then \<not> tombstone x op m \<and> newer_passing x op ms m = []
           else length (newer_passing x op ms m) < nat (o_lastPerSubject op)))) ms"
proof (cases "perSubject op")
  case True
  have "survivors x op storage ms = filter (\<lambda>m. if o_kvCompact op then \<not> tombstone x op m \<and> newer_passing x op ms m = []
      else length (newer_passing x op ms m) < nat (o_lastPerSubject op)) (with_verdict x op keep ms)"
    unfolding survivors_def by (rule filter_cong [OF refl survivor_iff [OF assms True]])
  with True show ?thesis by (simp add: kept_messages_def with_verdict_def conj_commute)
qed (simp add: kept_messages_def with_verdict_def)

text \<open>
  The documentation of the options: the filters a message passes (\<open>After\<close>, \<open>FirstSeq\<close> and \<open>LastSeq\<close>
  inclusive, \<open>Before\<close> exclusive, no exclusion and some inclusion where there is one), the deletions of a
  bucket, and the newest messages of each subject among the passing ones.
\<close>

definition passes :: "lib \<Rightarrow> editOptions \<Rightarrow> Message \<Rightarrow> bool" where
  "passes x op m \<longleftrightarrow>
     in_seq_range op m \<and> in_time_range op m \<and> subject_selected x op m \<and>
     header_selected op (the (msg_headers x m)) \<and> payload_selected x op (the (msg_payload m))"

definition deleted :: "lib \<Rightarrow> Message \<Rightarrow> bool" where
  "deleted x m \<longleftrightarrow> m_HdrSize m > 0 \<and>
     (let h = the (msg_headers x m); kop = x_headerGet x h (x_KVOperation x); reason = x_headerGet x h (x_JSMarkerReason x)
      in kop \<in> {''DEL'', x_KVOperationValuePurge x} - {[]} \<or>
         kop = [] \<and> reason \<in> {x_JSMarkerReasonMaxAge x, x_JSMarkerReasonPurge x, x_JSMarkerReasonRemove x})"

definition newer :: "lib \<Rightarrow> editOptions \<Rightarrow> Message list \<Rightarrow> Message \<Rightarrow> Message list" where
  "newer x op ms m = filter (\<lambda>m'. passes x op m' \<and> m_Subject m' = m_Subject m \<and> m_Seq m < m_Seq m') ms"

definition documented :: "lib \<Rightarrow> editOptions \<Rightarrow> Message list \<Rightarrow> Message \<Rightarrow> bool" where
  "documented x op ms m \<longleftrightarrow>
     passes x op m \<and>
     (o_kvCompact op \<longrightarrow> \<not> deleted x m \<and> newer x op ms m = []) \<and>
     (\<not> o_kvCompact op \<and> o_lastPerSubject op > 0 \<longrightarrow> int (length (newer x op ms m)) < o_lastPerSubject op)"

lemma verdict_passes:
  assumes "verdict x op m \<noteq> None" shows "verdict x op m = Some keep \<longleftrightarrow> passes x op m"
proof (cases "evalMeta x op m = keep")
  case True
  then have meta: "in_seq_range op m" "in_time_range op m" "subject_selected x op m"
    by (auto simp: evalMeta_cases split: if_splits)
  show ?thesis
    using assms meta no_header_filters [of op "the (msg_headers x m)"] no_payload_filters [of op x "the (msg_payload m)"]
    by (auto simp: verdict_def True passes_def split: if_splits)
next
  case False
  then show ?thesis by (auto simp: verdict_def passes_def evalMeta_cases split: if_splits)
qed

lemma tombstone_deleted: "o_kvCompact op \<Longrightarrow> tombstone x op m \<longleftrightarrow> deleted x m"
  by (auto simp: tombstone_def deleted_def isTombstone_def kvOperationDelete_def Let_def)

lemma kept_documented:
  assumes asc: "sorted_wrt (<) (a # map m_Seq ms)" and ok: "\<forall>m \<in> set ms. verdict x op m \<noteq> None"
  shows "kept_messages x op storage ms = filter (documented x op ms) ms"
proof -
  have newer: "newer_passing x op ms m = newer x op ms m" for m
    unfolding newer_passing_def newer_def using ok verdict_passes by (intro filter_cong) auto
  show ?thesis
    unfolding kept_messages_cases [OF asc]
  proof (rule filter_cong [OF refl])
    fix m assume "m \<in> set ms"
    then have "verdict x op m = Some keep \<longleftrightarrow> passes x op m" using ok verdict_passes by blast
    then show "(verdict x op m = Some keep \<and> (perSubject op \<longrightarrow>
          (if o_kvCompact op then \<not> tombstone x op m \<and> newer_passing x op ms m = []
           else length (newer_passing x op ms m) < nat (o_lastPerSubject op)))) = documented x op ms m"
      unfolding newer documented_def perSubject_def using tombstone_deleted [of op x m]
      by (cases "o_kvCompact op") (auto simp: zless_nat_conj)
  qed
qed

subsection \<open>What is written\<close>

definition declared_state :: "editOptions \<Rightarrow> metaFile \<Rightarrow> State \<Rightarrow> Consumer list \<Rightarrow> Message list \<Rightarrow> StreamState" where
  "declared_state op mf s cons' outs =
     zeroStreamState\<lparr> sst_Msgs := of_nat (length outs),
       sst_Bytes := sum_list (map (stored_size (sc_Storage (mf_Config mf))) outs),
       sst_FirstSeq := (if o_renumber op then 1 else sst_FirstSeq (s_State s)),
       sst_LastSeq := (if o_renumber op then of_nat (length outs) else max (sst_LastSeq (s_State s)) (sst_LastSeq (mf_State mf))),
       sst_Consumers := int (length cons') \<rparr>"

lemma archiveState_declared:
  assumes "edited x op mf ob tgt s cons ks cons' outs e" "sst_Consumers (s_State s) = int (length cons)"
  shows "archiveState e (Some (rep_Kept (e_report e), e_bytes e)) = declared_state op mf s cons' outs"
proof -
  from assms(1) have "copies x op (mf_Config mf) ob cons ks cons' outs (e_obf e)" by (simp add: edited_def)
  note c = copies_fields [OF this]
  show ?thesis
    using assms c(4,5) by (simp add: edited_def archiveState_def declared_state_def Let_def zeroStreamState_def srcLastSeq_def)
qed

text \<open>A run over one archive: its parts, the messages the documentation keeps, and what is written for them.\<close>

lemma run_selection:
  assumes "run x v (arc_open es er) tgt (new_editor op mf now ob) = Inr e"
    and "second_needed op tgt ob \<longrightarrow> v_rewind v = Inr (arc_open es er)"
  obtains s cons ms cons' outs where "wf_backup x es (items_of s cons ms)" "backup_parts x s cons ms"
    "reported x op ms (filter (documented x op ms) ms) e"
    "edited x op mf ob tgt s cons (filter (documented x op ms) ms) cons' outs e"
    "tgt \<Longrightarrow> \<exists>h. encodeStateHead x (s_Ts s) (declared_state op mf s cons' outs) = Inr h \<and>
       output_entries e = h # edited_entries op cons' outs"
proof (rule run_ok [OF assms(1)])
  show "v_rewind v = Inr (arc_open es er)" if "second_needed op tgt ob" using that assms(2) by simp
next
  fix s :: State and cons ms cons' outs
  let ?ks = "kept_messages x op (sc_Storage (mf_Config mf)) ms"
  assume wf: "wf_backup x es (items_of s cons ms)" and bp: "backup_parts x s cons ms"
    and rep: "reported x op ms ?ks e" and ed: "edited x op mf ob tgt s cons ?ks cons' outs e"
    and out: "tgt \<Longrightarrow> \<exists>h. encodeStateHead x (s_Ts s) (archiveState e (Some (rep_Kept (e_report e), e_bytes e))) = Inr h \<and>
       output_entries e = h # edited_entries op cons' outs"
  have "sorted_wrt (<) ((sst_FirstSeq (s_State s) - 1) # map m_Seq ms)" using bp by (simp add: backup_parts_def)
  moreover have "\<forall>m \<in> set ms. verdict x op m \<noteq> None" using rep by (simp add: reported_def)
  ultimately have ks: "?ks = filter (documented x op ms) ms" by (rule kept_documented)
  have st: "archiveState e (Some (rep_Kept (e_report e), e_bytes e)) = declared_state op mf s cons' outs"
    using archiveState_declared [OF ed] bp by (simp add: backup_parts_def)
  show ?thesis by (rule that [OF wf bp rep [unfolded ks] ed [unfolded ks] out [unfolded st]])
qed

text \<open>
  C4. An edit writes the selection that the options document: behind the head with the counts, the
  consumers unless it renumbers and the selected messages in their order, numbered from 1 when it
  renumbers, and the sentinel. Without obfuscation they are written unchanged; with it every message keeps
  its sequence, time and payload size, its payload is zeros unless the stream counts, and the mappings held
  in the end reveal the subjects and the names of the consumers. A per-subject edit reads the same archive
  twice.
\<close>

theorem edit_writes_selection:
  assumes "run x v (arc_open es er) True (new_editor op mf now ob) = Inr e"
    and "second_needed op True ob \<longrightarrow> v_rewind v = Inr (arc_open es er)"
    and "\<forall>ob0. ob = Some ob0 \<longrightarrow> obf_ok x ob0 \<and> hmac_ok x"
  shows "\<exists>s cons ms cons' outs h. wf_backup x es (items_of s cons ms) \<and>
    encodeStateHead x (s_Ts s) (declared_state op mf s cons' outs) = Inr h \<and>
    output_entries e = h # map consumer_entry cons' @ map message_entry (renumbered (o_renumber op) outs) @ [end_entry] \<and>
    (let selected = filter (documented x op ms) ms; consumers = (if o_renumber op then [] else cons)
     in case ob of
          None \<Rightarrow> cons' = consumers \<and> outs = selected
        | Some _ \<Rightarrow> \<exists>ob1. e_obf e = Some ob1 \<and> list_all2 (consumer_copy x ob1) consumers cons' \<and>
            list_all2 (revealed x (sc_AllowMsgCounter (mf_Config mf)) ob1) selected outs)"
  using assms(1,2)
proof (rule run_selection)
  fix s :: State and cons ms cons' outs
  let ?ks = "filter (documented x op ms) ms"
  assume wf: "wf_backup x es (items_of s cons ms)" and ed: "edited x op mf ob True s cons ?ks cons' outs e"
    and "True \<Longrightarrow> \<exists>h. encodeStateHead x (s_Ts s) (declared_state op mf s cons' outs) = Inr h \<and> output_entries e = h # edited_entries op cons' outs"
  then obtain h where h: "encodeStateHead x (s_Ts s) (declared_state op mf s cons' outs) = Inr h"
    "output_entries e = h # edited_entries op cons' outs" by blast
  from ed have cp: "copies x op (mf_Config mf) ob cons ?ks cons' outs (e_obf e)" by (simp add: edited_def)
  have entries: "edited_entries op cons' outs = map consumer_entry cons' @ map message_entry (renumbered (o_renumber op) outs) @ [end_entry]"
    using copies_fields(5) [OF cp] by (auto simp: edited_entries_def split: if_splits)
  show ?thesis
  proof (cases ob)
    case None
    with cp have "cons' = (if o_renumber op then [] else cons)" "outs = ?ks" by (simp_all add: copies_plain)
    with wf h entries None show ?thesis unfolding Let_def
      by (intro exI [of _ s] exI [of _ cons] exI [of _ ms] exI [of _ cons'] exI [of _ outs] exI [of _ h]) simp
  next
    case (Some ob0)
    with assms(3) have "obf_ok x ob0" "hmac_ok x" by simp_all
    from copies_revealed [OF cp [unfolded Some] this] wf h entries Some show ?thesis unfolding Let_def
      by (intro exI [of _ s] exI [of _ cons] exI [of _ ms] exI [of _ cons'] exI [of _ outs] exI [of _ h]) auto
  qed
qed

lemma numbers_ascending:
  assumes "n < 2 ^ 64" shows "sorted_wrt (<) (map of_nat [0..<Suc n] :: u64 list)"
proof -
  have "(of_nat i :: u64) < of_nat j" if "i < j" "j \<le> n" for i j
    using that assms by (simp add: word_of_nat_less_iff take_bit_nat_eq_self)
  then have "sorted_wrt (\<lambda>i j. (of_nat i :: u64) < of_nat j) [0..<Suc n]"
    by (intro sorted_wrt_mono_rel [OF _ sorted_wrt_upt]) (auto simp del: upt_Suc)
  then show ?thesis by (simp only: sorted_wrt_map)
qed

lemma zero_numbers: "(0 :: u64) # map of_nat [1..<Suc n] = map of_nat [0..<Suc n]"
  by (simp add: upt_conv_Cons del: upt_Suc)

lemma renumbered_seqs:
  assumes "length ks < 2 ^ 64"
  shows "sorted_wrt (<) ((0 :: u64) # map m_Seq (renumbered True ks))"
proof -
  have "map m_Seq (renumbered True ks) = map of_nat [1..<Suc (length ks)]"
    by (induction ks rule: rev_induct) simp_all
  then show ?thesis using numbers_ascending [OF assms] by (simp only: zero_numbers)
qed

lemma ascending_length:
  assumes "sorted_wrt (<) ((a :: u64) # map m_Seq ms)" shows "length ms < 2 ^ 64"
proof -
  have "distinct (a # map m_Seq ms)" using assms by (rule strict_sorted_iff [THEN iffD1, THEN conjunct2])
  then have "length (a # map m_Seq ms) \<le> card (UNIV :: u64 set)" by (metis card_mono distinct_card finite subset_UNIV)
  then show ?thesis by (simp add: card_word)
qed

subsection \<open>A restore accepts what is written\<close>

text \<open>
  The JSON law the code relies on: \<open>json.Unmarshal\<close> gives back what \<open>json.Marshal\<close> wrote of a
  state's counters, and skips spaces after it.
\<close>

definition counters :: "u64 \<Rightarrow> u64 \<Rightarrow> u64 \<Rightarrow> u64 \<Rightarrow> int \<Rightarrow> StreamState" where
  "counters m b f l c = zeroStreamState\<lparr> sst_Msgs := m, sst_Bytes := b, sst_FirstSeq := f, sst_LastSeq := l, sst_Consumers := c \<rparr>"

definition json_state_ok :: "lib \<Rightarrow> bool" where
  "json_state_ok x \<longleftrightarrow> (\<forall>m b f l (c :: nat) n.
     x_unmarshalState x (x_marshalState x (counters m b f l (int c)) @ replicate n (CHR '' '')) = Inr (counters m b f l (int c)))"

lemma encodeStateHead_valid:
  assumes "json_state_ok x" and "encodeStateHead x ts (counters m b f l (int c)) = Inr h"
  shows "valid_state x h (counters m b f l (int c)) \<and> h_Timestamp (ent_hdr h) = ts"
proof -
  have c: "sst_Consumers (counters m b f l (int c)) = int c" by (simp add: counters_def)
  from assms show ?thesis
    by (auto simp: encodeStateHead_def Let_def valid_state_def bytes_reader_def json_state_ok_def c split: if_splits)
qed

lemma declared_counters:
  "declared_state op mf s cons' outs =
     counters (of_nat (length outs)) (sum_list (map (stored_size (sc_Storage (mf_Config mf))) outs))
       (if o_renumber op then 1 else sst_FirstSeq (s_State s))
       (if o_renumber op then of_nat (length outs) else max (sst_LastSeq (s_State s)) (sst_LastSeq (mf_State mf))) (int (length cons'))"
  by (simp add: declared_state_def counters_def)

lemma consumer_path_valid:
  assumes "IsValidName n" shows "consumer_path n = consumerPrefix @ n"
proof -
  have n: "n \<noteq> []" "CHR ''/'' \<notin> set n" "CHR ''.'' \<notin> set n"
    using assms by (auto simp: IsValidName_def contains_any_def nameStopChars_def list_ex_iff split: if_splits)
  have "split_on (CHR ''/'') (''consumers'' @ CHR ''/'' # n) = [''consumers'', n]"
    using n by (subst split_on_append_sep) (simp_all add: split_on_no_occ)
  moreover have "n \<noteq> ''.''" "n \<noteq> ''..''" using n by auto
  ultimately show ?thesis using n by (simp add: consumer_path_def path_Clean_def consumerPrefix_def)
qed

lemma edited_grammar:
  assumes st: "valid_state x h st" and cnt: "sst_Consumers st = int (length cons)"
    and cons: "\<And>c. c \<in> set cons \<Longrightarrow> consumer_ok x c \<and> IsValidName (c_Name c)"
    and asc: "sorted_wrt (<) ((sst_FirstSeq st - 1) # map m_Seq ks)"
  shows "wf_backup x (h # map consumer_entry cons @ map message_entry ks @ [end_entry])
    (items_of \<lparr> s_Ts = h_Timestamp (ent_hdr h), s_State = st \<rparr> cons (map (\<lambda>m. message_of (message_entry m)) ks))"
proof -
  have "valid_consumer x (consumer_entry c) c" if "c \<in> set cons" for c
    using cons [OF that] by (auto simp: valid_consumer_def consumer_entry_def consumer_path_valid bytes_reader_def
        consumer_ok_def split: sum.splits)
  then have "list_all2 (valid_consumer x) (map consumer_entry cons) cons"
    by (simp add: list_all2_conv_all_nth)
  moreover have "wf_messages (sst_FirstSeq st - 1) (map message_entry ks)"
    using asc by (simp add: wf_messages_def message_entry_def bytes_reader_def o_def)
  moreover have "is_sentinel end_entry" by (simp add: is_sentinel_def end_entry_def)
  ultimately show ?thesis unfolding wf_backup_def using st cnt
    by (intro exI [of _ h] exI [of _ st] exI [of _ "map consumer_entry cons"] exI [of _ cons]
        exI [of _ "map message_entry ks"] exI [of _ end_entry] exI [of _ "[]"]) (simp add: items_of_def)
qed

lemma filter_ascending:
  "sorted_wrt (<) (a # map m_Seq ms) \<Longrightarrow> sorted_wrt (<) (a # map m_Seq (filter P ms))"
  by (auto simp: sorted_wrt_map sorted_wrt_filter)

text \<open>
  C1. What an edit writes, a restore accepts, with and without obfuscation: the output archive is a complete
  backup in the decoder's grammar. Its \<open>state.json\<close> declares exactly the messages and bytes written and the
  number of consumers, there is one message for each selected one, with strictly ascending sequences, and
  renumbered ones run from 1. The consumer names of the source are valid names, and JSON reads back the
  states and, under obfuscation, the consumers that were written.
\<close>

theorem edited_backup_decodes:
  assumes "run x v (arc_open es er) True (new_editor op mf now ob) = Inr e"
    and "second_needed op True ob \<longrightarrow> v_rewind v = Inr (arc_open es er)"
    and json: "json_state_ok x"
    and obf: "\<forall>ob0. ob = Some ob0 \<longrightarrow> obf_ok x ob0 \<and> hmac_ok x \<and> json_consumer_ok x"
    and names: "\<forall>its. wf_backup x es its \<longrightarrow> (\<forall>c \<in> set (consumers_in its). IsValidName (c_Name c))"
  shows "\<exists>s cons ms cons' outs. wf_backup x es (items_of s cons ms) \<and>
    wf_backup x (output_entries e)
      (items_of \<lparr> s_Ts = s_Ts s, s_State = declared_state op mf s cons' outs \<rparr> cons'
         (map (\<lambda>m. message_of (message_entry m)) (renumbered (o_renumber op) outs))) \<and>
    map m_Seq outs = map m_Seq (filter (documented x op ms) ms) \<and>
    length cons' = (if o_renumber op then 0 else length cons)"
  using assms(1,2)
proof (rule run_selection)
  fix s :: State and cons ms cons' outs
  let ?ks = "filter (documented x op ms) ms"
  let ?st = "declared_state op mf s cons' outs"
  assume wf: "wf_backup x es (items_of s cons ms)" and bp: "backup_parts x s cons ms"
    and ed: "edited x op mf ob True s cons ?ks cons' outs e"
    and "True \<Longrightarrow> \<exists>h. encodeStateHead x (s_Ts s) ?st = Inr h \<and> output_entries e = h # edited_entries op cons' outs"
  then obtain h where h: "encodeStateHead x (s_Ts s) ?st = Inr h" and out: "output_entries e = h # edited_entries op cons' outs" by blast
  from ed have cp: "copies x op (mf_Config mf) ob cons ?ks cons' outs (e_obf e)" by (simp add: edited_def)
  note c = copies_fields [OF cp]
  have valid: "valid_state x h ?st \<and> h_Timestamp (ent_hdr h) = s_Ts s"
    using encodeStateHead_valid [OF json] h unfolding declared_counters by blast
  have "sorted_wrt (<) ((sst_FirstSeq (s_State s) - 1) # map m_Seq ms)" using bp by (simp add: backup_parts_def)
  then have asc: "sorted_wrt (<) ((sst_FirstSeq (s_State s) - 1) # map m_Seq outs)" unfolding c(1) by (rule filter_ascending)
  have cons: "list_all (\<lambda>c. consumer_ok x c \<and> IsValidName (c_Name c)) cons'"
  proof -
    have src: "consumer_ok x c \<and> IsValidName (c_Name c)" if "c \<in> set cons" for c
      using that bp wf names by (fastforce simp: backup_parts_def)
    show ?thesis
    proof (cases ob)
      case None
      with cp have "cons' = (if o_renumber op then [] else cons)" by (simp add: copies_plain)
      then show ?thesis using src by (auto simp: list_all_iff)
    next
      case (Some ob0)
      with obf have o: "obf_ok x ob0" "hmac_ok x" "json_consumer_ok x" by simp_all
      from copies_revealed [OF cp [unfolded Some] o(1,2)] obtain ob1 where
        l: "list_all2 (consumer_copy x ob1) (if o_renumber op then [] else cons) cons'" by blast
      have "consumer_ok x c' \<and> IsValidName (c_Name c')" if "consumer_copy x ob1 c c'" "c \<in> set cons" for c c'
        using that src [OF that(2)] o(3) by (auto simp: consumer_copy_def IsValidName_def)
      moreover have "set (if o_renumber op then [] else cons) \<subseteq> set cons" by simp
      ultimately show ?thesis using l unfolding list_all_length list_all2_conv_all_nth by (metis nth_mem subsetD)
    qed
  qed
  have "wf_backup x (h # map consumer_entry cons' @ map message_entry (renumbered (o_renumber op) outs) @ [end_entry])
    (items_of \<lparr> s_Ts = h_Timestamp (ent_hdr h), s_State = ?st \<rparr> cons'
       (map (\<lambda>m. message_of (message_entry m)) (renumbered (o_renumber op) outs)))"
  proof (rule edited_grammar)
    show "valid_state x h ?st" using valid ..
    show "sst_Consumers ?st = int (length cons')" by (simp add: declared_state_def)
    show "consumer_ok x c \<and> IsValidName (c_Name c)" if "c \<in> set cons'" for c
      using cons that by (simp add: list_all_iff)
    show "sorted_wrt (<) ((sst_FirstSeq ?st - 1) # map m_Seq (renumbered (o_renumber op) outs))"
      using asc renumbered_seqs [OF ascending_length [OF asc]] by (cases "o_renumber op") (simp_all add: declared_state_def)
  qed
  moreover have "edited_entries op cons' outs = map consumer_entry cons' @ map message_entry (renumbered (o_renumber op) outs) @ [end_entry]"
    using c(5) by (auto simp: edited_entries_def split: if_splits)
  ultimately have "wf_backup x (output_entries e) (items_of \<lparr> s_Ts = s_Ts s, s_State = ?st \<rparr> cons'
       (map (\<lambda>m. message_of (message_entry m)) (renumbered (o_renumber op) outs)))"
    using valid by (simp add: out)
  then show ?thesis using wf c(1,5) by blast
qed

subsection \<open>A library and a source to evaluate an edit with\<close>

definition edit_lib :: lib where
  "edit_lib = no_lib\<lparr>
     x_marshalState := (\<lambda>st. join_with '','' [format_uint (sst_Msgs st), format_uint (sst_Bytes st),
       format_uint (sst_FirstSeq st), format_uint (sst_LastSeq st), itoa (nat (sst_Consumers st)), []]),
     x_unmarshalState := (\<lambda>bs.
       case split_on (CHR '','') bs of
         [m, b, f, l, c, _] \<Rightarrow>
           (case (parse_uint m, parse_uint b, parse_uint f, parse_uint l, digits_value 0 c) of
              (Some m, Some b, Some f, Some l, Some c) \<Rightarrow> Inr (counters m b f l (int c))
            | _ \<Rightarrow> Inl ''bad'')
       | _ \<Rightarrow> Inl ''bad''),
     x_decodeHeadersMsg := (\<lambda>bs. Inr [(''H'', [bs])]) \<rparr>"

lemma no_comma:
  "CHR '','' \<notin> set (itoa n)" "CHR '','' \<notin> set (format_uint w)"
proof -
  show "CHR '','' \<notin> set (itoa n)" for n
  proof
    assume "CHR '','' \<in> set (itoa n)"
    then obtain d where "d < 10" "CHR '','' = digit_char d" using itoa_digits by blast
    then have "digit_val (CHR '','') = Some d" by simp
    then show False by (simp add: digit_val_def)
  qed
  then show "CHR '','' \<notin> set (format_uint w)" by (simp add: format_uint_def)
qed

lemma edit_lib_json: "json_state_ok edit_lib"
proof -
  have "split_on (CHR '','') (join_with '','' [format_uint m, format_uint b, format_uint f, format_uint l, itoa c, []] @ replicate n CHR '' '')
      = [format_uint m, format_uint b, format_uint f, format_uint l, itoa c, replicate n CHR '' '']" for m b f l :: u64 and c n
    by (simp add: split_on_append_sep no_comma split_on_no_occ)
  then show ?thesis
    by (simp add: json_state_ok_def edit_lib_def counters_def digits_value_itoa no_lib_def)
qed

definition edit_source :: "arc_entry list" where
  "edit_source = [mk_entry stateEntry 5 0 0 ''0,0,1,9,0,'', mk_entry ''a.b'' 6 3 0 ''xy'', mk_entry ''a.c'' 7 9 1 ''hz'',
     mk_entry [] 0 0 0 []]"

definition edit_meta_file :: metaFile where
  "edit_meta_file = \<lparr> mf_Config = zeroStreamConfig ''ORDERS'', mf_State = zeroStreamState, mf_Edit = None, mf_Source = None \<rparr>"

definition edit_env0 :: edit_env where
  "edit_env0 = \<lparr> v_ctx1 = (\<lambda>_. None), v_ctx2 = (\<lambda>_. None), v_digest = Inr ''d'', v_rewind = Inr (arc_open edit_source ''EOF'') \<rparr>"

definition last1_options :: editOptions where
  "last1_options = zeroOptions\<lparr> o_lastPerSubject := 1, o_hasLastPerSubject := True, o_renumber := True \<rparr>"

lemma edit_lib_simps [simp]:
  "x_unmarshalState edit_lib ''0,0,1,9,0,'' = Inr (counters 0 0 1 9 0)"
  "x_marshalState edit_lib = (\<lambda>st. join_with '','' [format_uint (sst_Msgs st), format_uint (sst_Bytes st),
       format_uint (sst_FirstSeq st), format_uint (sst_LastSeq st), itoa (nat (sst_Consumers st)), []])"
  "x_maphash edit_lib = (\<lambda>s. of_nat (length s))"
  by (simp_all add: edit_lib_def no_lib_def parse_uint_def digit_val_def)

lemma edit_runs: "is_ok (run edit_lib edit_env0 (arc_open edit_source ''EOF'') True (new_editor last1_options edit_meta_file 0 None))"
  by (simp add: run_def new_editor_def last1_options_def zeroOptions_def perSubject_def twoPass_def edit_env0_def
      edit_source_def mk_entry_def bytes_reader_def arc_open_def NewDecoder_def for_items.simps Next_def next_item_def
      arc_Next_def decodeState_def ReadAll_def stateEntry_def decodeMessage_def advance_def counters_def zeroStreamState_def
      first_item_def observe_message_def evaluate_def eval_header_stage_def eval_payload_stage_def evalMeta_def matchesAny_def
      new_msgBody_def hasHeaderFilters_def hasPayloadFilters_def tombstone_of_def newSubjectState_def Let_def counter_add_def
      resolve_report_def lps_Observe_def lps_new_def zeroRing_def lps_Resolve_def zeroResolved_def resolved_add_def
      lps_Stats_def zeroReport_def zeroDropCounts_def edit_meta_file_def zeroStreamConfig_def second_item_def lps_Keeps_def
      writeState_def encodeStateHead_def archiveState_def srcLastSeq_def stateHeadPad_def writeMessage_def note_age_def
      out_message_def mb_reader_def note_kept_def storedMsgSize_def WriteMessage_def write_end_def WriteEnd_def writeEntry_def
      format_uint_def itoa.simps)

lemma edit_source_consumers:
  assumes "wf_backup edit_lib edit_source its" shows "consumers_in its = []"
proof -
  from assms obtain s st cs cons ms z rest where
    v: "edit_source = (s :: arc_entry) # cs @ ms @ z # rest" "valid_state edit_lib s st" "int (length cs) = sst_Consumers st"
      "list_all2 (valid_consumer edit_lib) cs cons" and
    its: "its = StateItem \<lparr> s_Ts = h_Timestamp (ent_hdr s), s_State = st \<rparr>
              # map ConsumerItem cons @ map (\<lambda>e. MessageItem (message_of e)) ms @ [End]"
    unfolding wf_backup_def by blast
  from v(1,2) have "st = counters 0 0 1 9 0"
    by (auto simp: valid_state_def edit_source_def mk_entry_def bytes_reader_def)
  with v(3,4) have "cons = []" by (simp add: counters_def)
  with its show ?thesis by simp
qed

lemma edit_source_run:
  obtains e where "run edit_lib edit_env0 (arc_open edit_source ''EOF'') True (new_editor last1_options edit_meta_file 0 None) = Inr e"
    "second_needed last1_options True None \<longrightarrow> v_rewind edit_env0 = Inr (arc_open edit_source ''EOF'')"
  using edit_runs by (cases "run edit_lib edit_env0 (arc_open edit_source ''EOF'') True (new_editor last1_options edit_meta_file 0 None)")
    (auto simp: edit_env0_def)

theorem edited_backup_decodes_witness:
  "\<exists>e its. run edit_lib edit_env0 (arc_open edit_source ''EOF'') True (new_editor last1_options edit_meta_file 0 None) = Inr e \<and>
    wf_backup edit_lib (output_entries e) its"
proof (rule edit_source_run)
  fix e
  assume e: "run edit_lib edit_env0 (arc_open edit_source ''EOF'') True (new_editor last1_options edit_meta_file 0 None) = Inr e"
    "second_needed last1_options True None \<longrightarrow> v_rewind edit_env0 = Inr (arc_open edit_source ''EOF'')"
  have "\<forall>its. wf_backup edit_lib edit_source its \<longrightarrow> (\<forall>c \<in> set (consumers_in its). IsValidName (c_Name c))"
    using edit_source_consumers by auto
  from edited_backup_decodes [OF e edit_lib_json _ this] e(1) show ?thesis by auto
qed

text \<open>The same library obfuscates: one message of a stream, its subject hashed and its payload zeros.\<close>

definition orders_source :: "arc_entry list" where
  "orders_source = [mk_entry stateEntry 5 0 0 ''0,0,1,9,0,'', mk_entry ''orders'' 6 3 0 ''xy'', mk_entry [] 0 0 0 []]"

definition obf_options :: editOptions where
  "obf_options = zeroOptions\<lparr> o_obfuscate := True \<rparr>"

lemma hmac_ok_edit_lib: "hmac_ok edit_lib"
  using hmac_ok_demo by (simp add: hmac_ok_def edit_lib_def)

lemma orders_obfuscated:
  "obf_subject x ''orders'' (fresh_obfuscator k) = Inr (obf_hash x k ''orders'', (fresh_obfuscator k)
     \<lparr> ob_forward := [(''orders'', obf_hash x k ''orders'')], ob_reverse := [(obf_hash x k ''orders'', ''orders'')] \<rparr>)"
  by (simp add: obf_subject_def rewriteSubject_def st_bind_def st_ret_def passes_through_def kvSubjectRoot_def objSubjectRoot_def
      obf_token_def Let_def fresh_obfuscator_def)

lemma orders_message_obfuscated:
  "obf_message x ''orders'' [] (fresh_obfuscator k) = Inr ((obf_hash x k ''orders'', []), (fresh_obfuscator k)
     \<lparr> ob_forward := [(''orders'', obf_hash x k ''orders'')], ob_reverse := [(obf_hash x k ''orders'', ''orders'')] \<rparr>)"
  by (simp add: obf_message_def st_bind_def orders_obfuscated st_ret_def)

lemma orders_hash_length: "length (obf_hash edit_lib ''k'' ''orders'') = 16"
  by (simp add: length_obf_hash [OF hmac_ok_edit_lib])

lemma obfuscated_runs:
  "is_ok (run edit_lib edit_env0 (arc_open orders_source ''EOF'') True (new_editor obf_options edit_meta_file 0 (Some (fresh_obfuscator ''k''))))"
  by (simp add: run_def new_editor_def obf_options_def zeroOptions_def perSubject_def singlePass_def single_item_def edit_env0_def
      orders_source_def mk_entry_def bytes_reader_def arc_open_def NewDecoder_def for_items.simps Next_def next_item_def
      arc_Next_def decodeState_def ReadAll_def stateEntry_def decodeMessage_def advance_def counters_def zeroStreamState_def
      filterMessage_def evaluate_def eval_header_stage_def eval_payload_stage_def evalMeta_def matchesAny_def
      new_msgBody_def hasHeaderFilters_def hasPayloadFilters_def Let_def counter_add_def
      zeroReport_def zeroDropCounts_def edit_meta_file_def zeroStreamConfig_def
      writeState_def encodeStateHead_def archiveState_def srcLastSeq_def stateHeadPad_def writeMessage_def note_age_def
      out_message_def mb_headers_def note_kept_def storedMsgSize_def WriteMessage_def write_end_def WriteEnd_def writeEntry_def
      orders_message_obfuscated orders_hash_length format_uint_def itoa.simps)

theorem edit_writes_selection_witness:
  "\<exists>e s cons ms outs ob1.
    run edit_lib edit_env0 (arc_open orders_source ''EOF'') True (new_editor obf_options edit_meta_file 0 (Some (fresh_obfuscator ''k''))) = Inr e \<and>
    wf_backup edit_lib orders_source (items_of s cons ms) \<and>
    list_all2 (revealed edit_lib False ob1) (filter (documented edit_lib obf_options ms) ms) outs"
proof -
  obtain e where e: "run edit_lib edit_env0 (arc_open orders_source ''EOF'') True
      (new_editor obf_options edit_meta_file 0 (Some (fresh_obfuscator ''k''))) = Inr e"
    using obfuscated_runs by (cases "run edit_lib edit_env0 (arc_open orders_source ''EOF'') True
      (new_editor obf_options edit_meta_file 0 (Some (fresh_obfuscator ''k'')))") auto
  have two: "second_needed obf_options True (Some (fresh_obfuscator ''k'')) \<longrightarrow> v_rewind edit_env0 = Inr (arc_open orders_source ''EOF'')"
    by (simp add: second_needed_def obf_options_def zeroOptions_def perSubject_def)
  have counter: "sc_AllowMsgCounter (mf_Config edit_meta_file) = False" by (simp add: edit_meta_file_def zeroStreamConfig_def)
  have "\<forall>ob0. Some (fresh_obfuscator ''k'') = Some ob0 \<longrightarrow> obf_ok edit_lib ob0 \<and> hmac_ok edit_lib"
    by (simp add: obf_ok_fresh hmac_ok_edit_lib)
  from edit_writes_selection [OF e two this] e show ?thesis
    unfolding Let_def option.case counter by blast
qed

end
