(* ===== verification/Backup_EditReport.thy ===== *)
theory Backup_EditReport
  imports Backup_EditProps
begin

text \<open>
  What an edit reports: its counters add up whatever the options, the second pass over an
  unchanged archive never reports a change, a dry run predicts the run, and the state the meta
  file records is that of the messages written.
\<close>

subsection \<open>The counters add up\<close>

definition balanced :: "editor \<Rightarrow> bool" where
  "balanced e \<longleftrightarrow> rep_SourceMessages (e_report e) = rep_Kept (e_report e) + Total (rep_Dropped (e_report e))"

lemma Total_add: "Total (drop_add k d) = Total d + (if k = keep then 0 else 1)"
  by (cases k) (simp_all add: Total_def)

text \<open>Writing a message, with or without obfuscation, only adds one to what is kept.\<close>

definition kept_more :: "u64 \<Rightarrow> editor \<Rightarrow> editor \<Rightarrow> bool" where
  "kept_more n e e1 \<longleftrightarrow>
     rep_Kept (e_report e1) = rep_Kept (e_report e) + n \<and>
     rep_SourceMessages (e_report e1) = rep_SourceMessages (e_report e) \<and>
     rep_Dropped (e_report e1) = rep_Dropped (e_report e) \<and> e_op e1 = e_op e"

lemma out_message_report:
  "out_message x body e = Inr (out, e1) \<Longrightarrow> e_report e1 = e_report e \<and> e_op e1 = e_op e"
  by (auto simp: out_message_def Let_def split: option.splits sum.splits prod.splits if_splits)

lemma writeMessage_kept:
  assumes "writeMessage x body e = Inr e1" shows "kept_more 1 e e1"
proof -
  from assms obtain out e2 out1 e3 where
    1: "out_message x body (note_age (mb_m body) e) = Inr (out, e2)" and
    2: "note_kept x (mb_m body) out e2 = (out1, e3)" and
    3: "(case e_enc e3 of None \<Rightarrow> Inr e3 | Some enc \<Rightarrow>
      (case WriteMessage out1 enc of Inl er \<Rightarrow> Inl er | Inr enc1 \<Rightarrow> Inr (e3\<lparr> e_enc := Some enc1 \<rparr>))) = Inr e1"
    unfolding writeMessage_def by (auto split: sum.splits prod.splits)
  have "e_report e2 = e_report e" "e_op e2 = e_op e"
    using out_message_report [OF 1] by (simp_all add: note_age_def)
  moreover have "kept_more 1 e2 e3" using 2 by (auto simp: note_kept_def kept_more_def Let_def)
  moreover have "e_report e1 = e_report e3" "e_op e1 = e_op e3" using 3 by (auto split: option.splits sum.splits)
  ultimately show ?thesis by (simp add: kept_more_def)
qed

lemma writeState_report: "writeState x ts e = Inr e1 \<Longrightarrow> e_report e1 = e_report e \<and> e_op e1 = e_op e"
  by (auto simp: writeState_def Let_def split: if_splits sum.splits)

lemma writeConsumer_report: "writeConsumer x c e = Inr e1 \<Longrightarrow> e_report e1 = e_report e \<and> e_op e1 = e_op e"
  by (auto simp: writeConsumer_def split: option.splits sum.splits)

lemma edit_consumer_kept: "edit_consumer x c e = Inr e1 \<Longrightarrow> kept_more 0 e e1"
  by (auto simp: edit_consumer_def kept_more_def dest!: writeConsumer_report split: if_splits)

lemma filterMessage_balanced:
  assumes "filterMessage x m e = Inr e1" and "balanced e"
  shows "balanced e1 \<and> rep_SourceMessages (e_report e1) = rep_SourceMessages (e_report e) + 1"
proof -
  from assms(1) obtain ok body e2 where ev: "evaluate x m e = Inr ((ok, body), e2)"
    and wr: "if ok then writeMessage x body e2 = Inr e1 else e1 = e2"
    by (auto simp: filterMessage_def split: sum.splits if_splits)
  from evaluate_ok [OF ev] obtain k t where k: "ok = (k = keep)" "e2 = counted x k t m e" by blast
  have e2: "rep_SourceMessages (e_report e2) = rep_SourceMessages (e_report e) + 1"
    "rep_Kept (e_report e2) = rep_Kept (e_report e)"
    "Total (rep_Dropped (e_report e2)) = Total (rep_Dropped (e_report e)) + (if ok then 0 else 1)"
    by (simp_all add: k counted_def Total_add)
  show ?thesis
  proof (cases ok)
    case True
    with wr have "kept_more 1 e2 e1" by (simp add: writeMessage_kept)
    with e2 assms(2) True show ?thesis by (simp add: balanced_def kept_more_def)
  next
    case False
    with wr e2 assms(2) show ?thesis by (simp add: balanced_def)
  qed
qed

lemma balanced_cong: "e_report e1 = e_report e \<Longrightarrow> balanced e1 \<longleftrightarrow> balanced e"
  by (simp add: balanced_def)

lemma kept_more_balanced:
  "kept_more 0 e e1 \<Longrightarrow> (balanced e1 \<longleftrightarrow> balanced e) \<and> rep_SourceMessages (e_report e1) = rep_SourceMessages (e_report e)"
  by (simp add: balanced_def kept_more_def)

lemma singlePass_balanced:
  assumes "singlePass x v (arc_open es er) e0 = Inr e" and "balanced e0" and "rep_SourceMessages (e_report e0) = 0"
  shows "\<exists>its. wf_backup x es its \<and> balanced e \<and> rep_SourceMessages (e_report e) = of_nat (length (messages_in its))"
proof -
  from assms(1) obtain d where "for_items x (v_ctx1 v) (single_item x v) 0 (NewDecoder (arc_open es er)) e0 = Inr (d, e)"
    by (auto simp: singlePass_def split: sum.splits)
  from for_items_Inr [OF this] obtain its where its:
    "decode_all x (NewDecoder (arc_open es er)) = (its, IoEOF, d)" "fold_err (single_item x v) its e0 = Inr e" by blast
  let ?P = "\<lambda>its e. balanced e \<and> rep_SourceMessages (e_report e) = of_nat (length (messages_in its))"
  have step: "?P (pre @ [it]) e2" if "?P pre e1" "single_item x v it e1 = Inr e2" for pre it e1 e2
  proof (cases it)
    case (MessageItem m)
    with that filterMessage_balanced [of x m e1 e2] show ?thesis by (simp add: single_item_def)
  next
    case (StateItem s)
    with that writeState_report [of x "s_Ts s" "e1\<lparr> e_srcState := s_State s \<rparr>" e2]
    have "e_report e2 = e_report e1" by (simp add: single_item_def)
    with that(1) balanced_cong [OF this] StateItem show ?thesis by simp
  next
    case (ConsumerItem c)
    with that(2) have "kept_more 0 e1 e2" by (simp add: single_item_def edit_consumer_kept)
    from that(1) kept_more_balanced [OF this] ConsumerItem show ?thesis by simp
  next
    case End
    with that(2) obtain dg where "e2 = (write_end e1)\<lparr> e_digest := dg \<rparr>"
      by (auto simp: single_item_def split: sum.splits)
    then have "e_report e2 = e_report e1" by (simp add: write_end_def)
    with that(1) balanced_cong [OF this] End show ?thesis by simp
  qed
  have start: "?P [] e0" using assms(2,3) by simp
  have "?P ([] @ its) e" by (rule fold_err_run [where P = ?P, OF its(2) start]) (rule step)
  moreover have "wf_backup x es its" using its(1) decoder_reaches_end by blast
  ultimately show ?thesis by auto
qed

text \<open>The second pass of a per-subject edit keeps the counts of the first.\<close>

lemma second_item_counts:
  assumes "second_item x st it e = Inr e1" and "it \<noteq> End"
  shows "\<exists>n. kept_more n e e1"
proof (cases it)
  case (MessageItem m)
  with assms writeMessage_kept [of x "new_msgBody m" e e1] show ?thesis
    by (cases "Keeps st (m_Subject m) (m_Seq m)")
      (auto simp: second_item_def kept_more_def intro: exI [of _ 0])
next
  case (StateItem s)
  with assms writeState_report [of x "s_Ts s" e e1] show ?thesis
    by (auto simp: second_item_def kept_more_def intro!: exI [of _ 0])
next
  case (ConsumerItem c)
  with assms writeConsumer_report [of x c e e1] show ?thesis
    by (auto simp: second_item_def kept_more_def split: if_splits intro!: exI [of _ 0])
qed (use assms in simp)

lemma decode_all_last:
  "decode_all x d = (its, IoEOF, d') \<Longrightarrow> its \<noteq> [] \<Longrightarrow> last its = End"
proof (induction its arbitrary: d)
  case (Cons it its)
  from Cons.prems(1) obtain d1 where d1: "Next x d = (Inr it, d1)" "decode_all x d1 = (its, IoEOF, d')"
    by (subst (asm) decode_all.simps) (auto split: prod.splits sum.splits)
  then show ?case using Cons.IH [OF d1(2)] decode_all_done [OF d1(1)] by (cases "its = []") auto
qed simp

definition same_source :: "editor \<Rightarrow> editor \<Rightarrow> bool" where
  "same_source e0 e \<longleftrightarrow> rep_SourceMessages (e_report e) = rep_SourceMessages (e_report e0) \<and>
    rep_Dropped (e_report e) = rep_Dropped (e_report e0)"

lemma second_pass_counts:
  assumes "for_items x ctx (second_item x st) n (NewDecoder r) e0 = Inr (d, e)"
  shows "same_source e0 e \<and> rep_Kept (e_report e) = res_msgs (Resolve st)"
proof -
  let ?P = "\<lambda>its e. same_source e0 e \<and> (its \<noteq> [] \<and> last its = End \<longrightarrow> rep_Kept (e_report e) = res_msgs (Resolve st))"
  have step: "?P (pre @ [it]) e2" if "?P pre e1" "second_item x st it e1 = Inr e2" for pre it e1 e2
  proof (cases "it = End")
    case True
    with that have "e2 = write_end e1" "rep_Kept (e_report e1) = res_msgs (Resolve st)"
      by (auto simp: second_item_def Let_def split: if_splits)
    with that show ?thesis by (simp add: write_end_def same_source_def)
  next
    case False
    with that second_item_counts [OF that(2)] show ?thesis by (auto simp: kept_more_def same_source_def)
  qed
  from for_items_Inr [OF assms] obtain its where its: "decode_all x (NewDecoder r) = (its, IoEOF, d)"
    "fold_err (second_item x st) its e0 = Inr e" "its \<noteq> []" by blast
  have start: "?P [] e0" by (simp add: same_source_def)
  have "?P ([] @ its) e" by (rule fold_err_run [where P = ?P, OF its(2) start]) (rule step)
  with decode_all_last [OF its(1,3)] its(3) show ?thesis by simp
qed

lemma verdict_counts:
  assumes "\<forall>m \<in> set ms. verdict x op m \<noteq> None"
  shows "length ms = length (with_verdict x op keep ms) + length (with_verdict x op dropSequence ms) +
    length (with_verdict x op dropTime ms) + length (with_verdict x op dropSubject ms) +
    length (with_verdict x op dropHeader ms) + length (with_verdict x op dropPayload ms)"
  using assms
proof (induction ms rule: rev_induct)
  case (snoc m ms)
  from snoc.prems obtain k where k: "verdict x op m = Some k" by auto
  with verdict_kinds [OF k] snoc show ?case by (cases k) simp_all
qed simp

lemma no_per_subject_verdict:
  "with_verdict x op dropLastPerSubject ms = []" "with_verdict x op dropKVCompact ms = []"
  using verdict_kinds by (force simp: with_verdict_def filter_empty_conv)+

lemma resolve_report_balanced:
  assumes "seen x op ms e" and "passed = of_nat (length (with_verdict x op keep ms))"
  shows "rep_SourceMessages (e_report (resolve_report st passed e)) =
      res_msgs (Resolve st) + Total (rep_Dropped (e_report (resolve_report st passed e)))"
proof -
  have d: "drop_count k (rep_Dropped (e_report e)) = of_nat (length (with_verdict x op k ms))" if "k \<noteq> keep" for k
    using assms(1) that by (simp add: seen_def)
  note d [of dropSequence, simplified] d [of dropTime, simplified] d [of dropSubject, simplified]
    d [of dropHeader, simplified] d [of dropPayload, simplified]
    d [of dropLastPerSubject, simplified] d [of dropKVCompact, simplified]
  moreover have "rep_SourceMessages (e_report e) = of_nat (length ms)" using assms(1) by (simp add: seen_def)
  moreover have "length ms = length (with_verdict x op keep ms) + length (with_verdict x op dropSequence ms) +
    length (with_verdict x op dropTime ms) + length (with_verdict x op dropSubject ms) +
    length (with_verdict x op dropHeader ms) + length (with_verdict x op dropPayload ms)"
    using assms(1) by (intro verdict_counts) (simp add: seen_def)
  ultimately show ?thesis
    by (simp add: resolve_report_def Let_def Total_def assms(2) no_per_subject_verdict)
qed

lemma twoPass_balanced:
  assumes "twoPass x v (arc_open es er) e0 = Inr e" and "seen x (e_op e0) [] e0"
  shows "\<exists>its. wf_backup x es its \<and> balanced e \<and> rep_SourceMessages (e_report e) = of_nat (length (messages_in its))"
proof -
  let ?op = "e_op e0"
  from assms(1) obtain d e1 st passed where
    1: "for_items x (v_ctx1 v) (first_item x v) 0 (NewDecoder (arc_open es er)) (e0, newSubjectState ?op, 0) = Inr (d, e1, st, passed)"
    by (auto simp: twoPass_def split: sum.splits)
  from 1 assms(2) show ?thesis
  proof (rule first_pass_ok)
    fix s cons ms e' dg
    assume wf: "wf_backup x es (items_of s cons ms)" and e1: "e1 = e'\<lparr> e_digest := dg \<rparr>"
      and "seen x ?op ms e'" and p: "passed = of_nat (length (with_verdict x ?op keep ms))"
    then have s1: "seen x ?op ms e1" by (simp add: seen_def)
    define e2 where "e2 = resolve_report st passed e1"
    have b2: "rep_SourceMessages (e_report e2) = res_msgs (Resolve st) + Total (rep_Dropped (e_report e2))"
      unfolding e2_def by (rule resolve_report_balanced [OF s1 p])
    have n2: "rep_SourceMessages (e_report e2) = of_nat (length ms)"
      using s1 by (simp add: e2_def resolve_report_def Let_def seen_def)
    have "balanced e \<and> rep_SourceMessages (e_report e) = rep_SourceMessages (e_report e2)"
    proof (cases "e_enc e2 = None \<and> e_obf e2 = None")
      case True
      with assms(1) 1 have "e = (upd_report (\<lambda>r. r\<lparr> rep_Kept := res_msgs (Resolve st) \<rparr>) e2)
          \<lparr> e_bytes := res_bytes (Resolve st), e_firstOut := res_firstSeq (Resolve st) \<rparr>"
        by (simp add: twoPass_def Let_def e2_def [symmetric])
      with b2 show ?thesis by (simp add: balanced_def)
    next
      case False
      with assms(1) 1 obtain r d2 where "for_items x (v_ctx2 v) (second_item x st) 0 (NewDecoder r) e2 = Inr (d2, e)"
        by (auto simp: twoPass_def Let_def e2_def [symmetric] split: sum.splits)
      from second_pass_counts [OF this] b2 show ?thesis by (simp add: balanced_def same_source_def)
    qed
    with wf n2 show ?thesis by (intro exI [of _ "items_of s cons ms"]) simp
  qed
qed

text \<open>
  C3. No message is lost or counted twice: after every successful edit, with or without
  obfuscation, target and second pass, whatever archive the second pass finds, the report's
  source messages are the messages of the archive, and they are the kept ones and those dropped
  by the filters together.
\<close>

theorem edit_counts_add_up:
  assumes "run x v (arc_open es er) tgt (new_editor op mf now ob) = Inr e"
  shows "\<exists>its. wf_backup x es its \<and> rep_SourceMessages (e_report e) = of_nat (length (messages_in its)) \<and>
    rep_SourceMessages (e_report e) = rep_Kept (e_report e) + Total (rep_Dropped (e_report e))"
proof -
  define e0 where "e0 = (if tgt then (new_editor op mf now ob)\<lparr> e_enc := Some [] \<rparr> else new_editor op mf now ob)"
  have op: "e_op (new_editor op mf now ob) = op" "e_op e0 = op" by (simp_all add: new_editor_def e0_def)
  have start: "balanced e0" "rep_SourceMessages (e_report e0) = 0" "seen x op [] e0"
    by (simp_all add: e0_def new_editor_def balanced_def zeroReport_def Total_def zeroDropCounts_def seen_def,
        cases tgt, auto simp: drop_count_zero [unfolded zeroDropCounts_def] zeroDropCounts_def)
  from assms obtain e1 where p: "(if perSubject op then twoPass else singlePass) x v (arc_open es er) e0 = Inr e1"
    and e: "e_report e = e_report e1"
    by (cases tgt) (auto simp: run_def Let_def op e0_def split: sum.splits)
  have "\<exists>its. wf_backup x es its \<and> balanced e1 \<and> rep_SourceMessages (e_report e1) = of_nat (length (messages_in its))"
  proof (cases "perSubject op")
    case True
    with p have "twoPass x v (arc_open es er) e0 = Inr e1" by simp
    from twoPass_balanced [OF this] start(3) op show ?thesis by simp
  next
    case False
    with p have "singlePass x v (arc_open es er) e0 = Inr e1" by simp
    from singlePass_balanced [OF this start(1,2)] show ?thesis .
  qed
  with e show ?thesis unfolding balanced_def by metis
qed

theorem edit_counts_add_up_witness:
  "\<exists>e. run edit_lib edit_env0 (arc_open edit_source ''EOF'') True (new_editor last1_options edit_meta_file 0 None) = Inr e \<and>
    rep_SourceMessages (e_report e) = rep_Kept (e_report e) + Total (rep_Dropped (e_report e))"
  by (rule edit_source_run) (use edit_counts_add_up in blast)

subsection \<open>Where an error comes from\<close>

text \<open>The loop over the items fails by its context, by the decoder, or in the handler of an item it reached.\<close>

lemma for_items_Inl:
  assumes "for_items x ctx h n d s = Inl (e, d', s')" and "d_err d = None"
  shows "(\<exists>m. e = CtxErr m) \<or> (\<exists>d1 d2. d_err d1 = None \<and> Next x d1 = (Inl e, d2)) \<or>
    (\<exists>pre it rest e2 d2. decode_all x d = (pre @ it # rest, e2, d2) \<and> fold_err h pre s = Inr s' \<and> h it s' = Inl e \<and>
       (it = End \<longrightarrow> rest = [] \<and> e2 = IoEOF))" (is "?A \<or> ?B \<or> ?C d s")
  using assms
proof (induction x ctx h n d s rule: for_items.induct)
  case (1 x ctx h n d s)
  note IH = "1.IH" and prems = "1.prems"
  show ?case
  proof (cases "ctx n")
    case (Some m)
    then show ?thesis using prems by (subst (asm) for_items.simps) auto
  next
    case None
    obtain r d1 where nx: "Next x d = (r, d1)" by (cases "Next x d")
    show ?thesis
    proof (cases r)
      case (Inl er)
      with None nx prems have "Next x d = (Inl e, d1)" by (subst (asm) for_items.simps) simp
      with prems(2) show ?thesis by blast
    next
      case (Inr it)
      note nx = nx [unfolded Inr]
      obtain its e2 d2 where all: "decode_all x d1 = (its, e2, d2)" by (cases "decode_all x d1")
      have dec: "decode_all x d = (it # its, e2, d2)" by (simp add: decode_all_step [OF nx] all)
      show ?thesis
      proof (cases "h it s")
        case (Inl er)
        with None nx prems have "h it s = Inl e" "s' = s" by (subst (asm) for_items.simps, simp)+
        moreover have "it = End \<longrightarrow> its = [] \<and> e2 = IoEOF"
          using decode_all_after_End [of x d d1] nx all by auto
        moreover have "decode_all x d = ([] @ it # its, e2, d2)" "fold_err h [] s = Inr s" by (simp_all add: dec)
        ultimately show ?thesis by blast
      next
        case (Inr s1)
        show ?thesis
        proof (cases "it = End")
          case True
          with None nx Inr prems show ?thesis by (subst (asm) for_items.simps) simp
        next
          case False
          with None nx Inr prems have f: "for_items x ctx h (Suc n) d1 s1 = Inl (e, d', s')"
            by (subst (asm) for_items.simps) simp
          from IH [OF None nx [symmetric] refl Inr False f Next_End_iff(2) [OF nx]]
          consider "\<exists>m. e = CtxErr m" | "\<exists>d1 d2. d_err d1 = None \<and> Next x d1 = (Inl e, d2)"
            | pre it2 rest e3 d3 where "decode_all x d1 = (pre @ it2 # rest, e3, d3)" "fold_err h pre s1 = Inr s'"
              "h it2 s' = Inl e" "it2 = End \<longrightarrow> rest = [] \<and> e3 = IoEOF" by blast
          then show ?thesis
          proof cases
            case 3
            then have "decode_all x d = ((it # pre) @ it2 # rest, e3, d3)" "fold_err h (it # pre) s = Inr s'"
              by (simp_all add: decode_all_step [OF nx] Inr)
            with 3(3,4) show ?thesis by blast
          qed blast+
        qed
      qed
    qed
  qed
qed

definition changed :: "berr \<Rightarrow> bool" where
  "changed er \<longleftrightarrow> (\<exists>a b c d. er = SourceChanged a b c d)"

lemma changed_simps [simp]:
  "changed (SourceChanged a b c d)" "\<not> changed (CtxErr m)" "\<not> changed (ReadingMessage s q m)"
  "\<not> changed (MessageHeaders s q m)" "\<not> changed (CopyBody m)" "\<not> changed (BodyShort s q i j)" "\<not> changed (HeadTooLarge i j)"
  by (simp_all add: changed_def)

named_theorems not_changed

lemma Next_not_changed: "Next x d = (Inl er, d1) \<Longrightarrow> d_err d = None \<Longrightarrow> \<not> changed er"
  by (auto simp: Next_def next_item_def decodeState_def decodeConsumer_def decodeMessage_def Let_def changed_def
      split: option.splits if_splits sum.splits prod.splits decodePhase.splits)

lemma prefix_not_changed [not_changed]: "mb_prefix n b = Inl er \<Longrightarrow> \<not> changed er"
  by (auto simp: mb_prefix_def Let_def split: if_splits sum.splits)

lemma headers_not_changed [not_changed]: "mb_headers x b = Inl er \<Longrightarrow> \<not> changed er"
  by (auto simp: mb_headers_def dest: not_changed split: if_splits sum.splits)

lemma payload_not_changed [not_changed]: "mb_payload b = Inl er \<Longrightarrow> \<not> changed er"
  by (auto simp: mb_payload_def dest: not_changed split: sum.splits)

lemma stages_not_changed [not_changed]:
  "eval_header_stage x op k b = Inl er \<Longrightarrow> \<not> changed er" "eval_payload_stage x op k b = Inl er \<Longrightarrow> \<not> changed er"
  "edit_drop x k b e = Inl er \<Longrightarrow> \<not> changed er"
  by (auto simp: eval_header_stage_def eval_payload_stage_def edit_drop_def Let_def dest: not_changed
      split: if_splits sum.splits)

lemma evaluate_not_changed [not_changed]: "evaluate x m e = Inl er \<Longrightarrow> \<not> changed er"
  unfolding evaluate_def Let_def by (auto dest!: not_changed split: sum.splits if_splits)

lemma writes_not_changed [not_changed]:
  "WriteMessage m out = Inl er \<Longrightarrow> \<not> changed er" "writeState x ts e = Inl er \<Longrightarrow> \<not> changed er"
  by (auto simp: WriteMessage_def writeState_def encodeStateHead_def Let_def split: if_splits sum.splits)

text \<open>The obfuscator reports collisions and unreadable consumers, never a changed source.\<close>

definition never_changed :: "'a obf \<Rightarrow> bool" where
  "never_changed m \<longleftrightarrow> (\<forall>ob er. m ob = Inl er \<longrightarrow> \<not> changed er)"

named_theorems never_changed_steps

lemma never_changed_basic [never_changed_steps]:
  "never_changed (st_ret a)" "\<not> changed er \<Longrightarrow> never_changed (\<lambda>ob. Inl er)"
  "never_changed m \<Longrightarrow> (\<And>a. never_changed (f a)) \<Longrightarrow> never_changed (st_bind m f)"
  "never_changed m \<Longrightarrow> never_changed n \<Longrightarrow> never_changed (if b then m else n)"
  by (auto simp: never_changed_def st_ret_def st_bind_def split: sum.splits)

lemma never_changed_cases [never_changed_steps]:
  "never_changed m \<Longrightarrow> (\<And>a. never_changed (f a)) \<Longrightarrow> never_changed (case z of None \<Rightarrow> m | Some a \<Rightarrow> f a)"
  "(\<And>a. never_changed (f a)) \<Longrightarrow> (\<And>b. never_changed (g b)) \<Longrightarrow> never_changed (case w of Inl a \<Rightarrow> f a | Inr b \<Rightarrow> g b)"
  "(\<And>a b. never_changed (h a b)) \<Longrightarrow> never_changed (case y of (a, b) \<Rightarrow> h a b)"
  by (simp_all split: option.split sum.split prod.split)

lemma never_changed_map [never_changed_steps]:
  assumes "\<And>a. never_changed (f a)" shows "never_changed (map_st f as)"
proof -
  have "\<not> changed er" if "map_st f as ob = Inl er" for ob er
    using that
  proof (induction as arbitrary: ob)
    case (Cons a as)
    then show ?case using assms [of a] by (auto simp: never_changed_def split: sum.splits)
  qed simp
  then show ?thesis by (simp add: never_changed_def)
qed

lemma never_changed_token [never_changed_steps]: "never_changed (obf_token x t)"
  by (auto simp: never_changed_def obf_token_def Let_def changed_def split: option.splits if_splits)

lemma never_changed_subject [never_changed_steps]: "never_changed (obf_subject x t)"
  unfolding obf_subject_def rewriteSubject_def by (intro never_changed_steps)

lemma never_changed_copies [never_changed_steps]: "never_changed (obf_consumer x name data)" "never_changed (obf_message x subj hdr)"
proof -
  show "never_changed (obf_consumer x name data)"
    unfolding obf_consumer_def obf_subjects_def by (intro never_changed_steps) (simp_all add: changed_def)
  show "never_changed (obf_message x subj hdr)"
    unfolding obf_message_def obf_headerValue_def by (intro never_changed_steps)
qed

lemma obfuscation_not_changed [not_changed]:
  "obf_consumer x name data ob = Inl er \<Longrightarrow> \<not> changed er" "obf_message x subj hdr ob = Inl er \<Longrightarrow> \<not> changed er"
  using never_changed_copies by (auto simp: never_changed_def)

lemma writeConsumer_not_changed [not_changed]: "writeConsumer x c e = Inl er \<Longrightarrow> \<not> changed er"
  by (auto simp: writeConsumer_def dest: not_changed split: option.splits sum.splits)

lemma out_message_not_changed [not_changed]: "out_message x body e = Inl er \<Longrightarrow> \<not> changed er"
  by (auto simp: out_message_def Let_def dest!: headers_not_changed obfuscation_not_changed payload_not_changed
      split: option.splits sum.splits if_splits)

lemma writeMessage_not_changed [not_changed]: "writeMessage x body e = Inl er \<Longrightarrow> \<not> changed er"
  by (auto simp: writeMessage_def dest!: not_changed split: option.splits sum.splits prod.splits)

lemma first_not_changed:
  assumes "first_item x v it s = Inl er" and "v_digest v = Inr dg"
  shows "\<not> changed er"
proof -
  obtain e st p where s: "s = (e, st, p)" by (cases s)
  show ?thesis
  proof (cases it)
    case (MessageItem m)
    with assms(1) have "observe_message x m (e, st, p) = Inl er" by (simp add: first_item_def s)
    then show ?thesis
      by (auto simp: observe_message_def tombstone_of_def dest!: not_changed split: sum.splits if_splits)
  qed (use assms in \<open>auto simp: first_item_def s\<close>)
qed

lemma single_not_changed:
  assumes "single_item x v it e = Inl er" and "v_digest v = Inr dg"
  shows "\<not> changed er"
proof (cases it)
  case (StateItem s)
  with assms show ?thesis by (auto simp: single_item_def dest: not_changed)
next
  case (ConsumerItem c)
  with assms show ?thesis by (auto simp: single_item_def edit_consumer_def dest: not_changed split: if_splits)
next
  case (MessageItem m)
  with assms show ?thesis
    by (auto simp: single_item_def filterMessage_def dest: not_changed split: sum.splits if_splits)
qed (use assms in \<open>simp add: single_item_def\<close>)

lemma second_not_changed:
  assumes "second_item x st it e = Inl er" and "it \<noteq> End"
  shows "\<not> changed er"
  using assms by (cases it) (auto simp: second_item_def dest: not_changed split: if_splits)

lemma copies_keep_obfuscator:
  "copy_all (copy_message x counter) ob ms = Some (outs, ob1) \<Longrightarrow> ob1 = None \<longleftrightarrow> ob = None"
proof (induction ms arbitrary: ob outs)
  case (Cons m ms)
  then obtain out ob2 outs' where m: "copy_message x counter ob m = Some (out, ob2)"
    and ms: "copy_all (copy_message x counter) ob2 ms = Some (outs', ob1)"
    by (auto split: option.splits)
  from m have "ob2 = None \<longleftrightarrow> ob = None" by (auto simp: copy_message_def split: option.splits)
  with Cons.IH [OF ms] show ?case by simp
qed simp

lemma copied_without_obfuscator:
  assumes "copy_all (copy_message x counter) ob ms = Some (outs, None)" shows "outs = ms"
  using assms copies_keep_obfuscator [OF assms] by simp

lemma end_of_backup:
  assumes "decode_all x (NewDecoder (arc_open es er)) = (pre @ [End], IoEOF, d)"
    and "wf_backup x es (items_of s cons ms)"
  shows "pre = StateItem s # map ConsumerItem cons @ map MessageItem ms"
proof -
  have "wf_backup x es (pre @ [End])" using assms(1) decoder_reaches_end by blast
  from wf_backup_fun [OF this assms(2)] show ?thesis by (simp add: items_of_def append_eq_append_conv2)
qed

lemma newDecoder_err [simp]: "d_err (NewDecoder a) = None"
  by (simp add: NewDecoder_def)

lemma changed_in_handler:
  assumes "for_items x ctx h n (NewDecoder a) s = Inl (e, d', s')" and "changed e"
  obtains pre it rest e2 d2 where "decode_all x (NewDecoder a) = (pre @ it # rest, e2, d2)" "fold_err h pre s = Inr s'"
    "h it s' = Inl e" "it = End \<longrightarrow> rest = [] \<and> e2 = IoEOF"
proof -
  have "\<not> (\<exists>m. e = CtxErr m)" using assms(2) by auto
  moreover have "\<not> (\<exists>d1 d2. d_err d1 = None \<and> Next x d1 = (Inl e, d2))"
    using assms(2) Next_not_changed by blast
  ultimately show ?thesis using for_items_Inl [OF assms(1) newDecoder_err] that by blast
qed

lemma singlePass_not_changed:
  assumes "singlePass x v a e0 = Inl er" and "v_digest v = Inr dg"
  shows "\<not> changed er"
proof
  assume c: "changed er"
  from assms(1) obtain d s' where f: "for_items x (v_ctx1 v) (single_item x v) 0 (NewDecoder a) e0 = Inl (er, d, s')"
    by (auto simp: singlePass_def split: sum.splits)
  from f c show False
    by (rule changed_in_handler) (use single_not_changed [OF _ assms(2)] c in blast)
qed

text \<open>The sentinel of the second pass over the archive of the first finds the totals resolved.\<close>

lemma twoPass_not_changed:
  assumes "twoPass x v (arc_open es r) (start_editor op mf now ob tgt) = Inl er" and ps: "perSubject op"
    and dg: "v_digest v = Inr dg" and rew: "v_rewind v = Inr (arc_open es r)"
  shows "\<not> changed er"
proof
  let ?e0 = "start_editor op mf now ob tgt"
  let ?storage = "sc_Storage (mf_Config mf)"
  let ?first = "for_items x (v_ctx1 v) (first_item x v) 0 (NewDecoder (arc_open es r)) (?e0, newSubjectState op, 0)"
  assume c: "changed er"
  have "False" if "?first = Inl (er, d, s')" for d s'
    using that c by (rule changed_in_handler) (use first_not_changed [OF _ dg] c in blast)
  with assms(1) obtain d e1 st passed where 1: "?first = Inr (d, e1, st, passed)"
    by (auto simp: twoPass_def split: sum.splits)
  from 1 start_seen show False
  proof (rule first_pass_ok)
    fix s cons ms e' dg
    assume wf: "wf_backup x es (items_of s cons ms)" and bp: "backup_parts x s cons ms"
      and ro: "only_read (count_consumers cons (?e0\<lparr> e_srcState := s_State s \<rparr>)) e'" and e1: "e1 = e'\<lparr> e_digest := dg \<rparr>"
      and "st = final_state x op (sc_Storage (e_cfg ?e0)) ms"
    then have st: "st = final_state x op ?storage ms" by simp
    note f = only_read_fields [OF ro]
    have asc: "sorted_wrt (<) ((sst_FirstSeq (s_State s) - 1) # map m_Seq ms)" using bp by (simp add: backup_parts_def)
    note res = survivors_resolved [OF asc ps, of x ?storage, folded st]
    define e2 where "e2 = resolve_report st passed e1"
    note rf = resolve_report_fields [of st passed e1, folded e2_def]
    have e2: "rep_Kept (e_report e2) = 0" "e_bytes e2 = 0" "e_cfg e2 = mf_Config mf"
      by (simp_all add: rf e1 f count_consumers_def zeroReport_def)
    from assms(1) 1 rew obtain d3 s3 where
      2: "for_items x (v_ctx2 v) (second_item x st) 0 (NewDecoder (arc_open es r)) e2 = Inl (er, d3, s3)"
      by (auto simp: twoPass_def Let_def e2_def [symmetric] split: sum.splits if_splits)
    from 2 c show False
    proof (rule changed_in_handler)
      fix pre it rest er2 d2
      assume dec: "decode_all x (NewDecoder (arc_open es r)) = (pre @ it # rest, er2, d2)"
        and run: "fold_err (second_item x st) pre e2 = Inr s3" and err: "second_item x st it s3 = Inl er"
        and last: "it = End \<longrightarrow> rest = [] \<and> er2 = IoEOF"
      show False
      proof (cases "it = End")
        case False
        from second_not_changed [OF err False] c show False by simp
      next
        case True
        with dec last wf have "pre = StateItem s # map ConsumerItem cons @ map MessageItem ms"
          by (intro end_of_backup) auto
        from second_pass_items [OF run [unfolded this] e2(1,2)]
        obtain e4 outs where w: "wrote x e4 (filter (\<lambda>m. Keeps st (m_Subject m) (m_Seq m)) ms) outs s3" and "e_cfg e4 = e_cfg e2"
          by (auto simp: before_end_def copy_consumers_def)
        then have "rep_Kept (e_report s3) = res_msgs (Resolve st)"
          by (simp add: wrote_def st second_pass_survivors [OF asc ps] res [unfolded st])
        moreover have "e_bytes s3 = res_bytes (Resolve st)" if "e_obf s3 = None"
        proof -
          from w that have "outs = survivors x op ?storage ms"
            using copied_without_obfuscator by (auto simp: wrote_def st second_pass_survivors [OF asc ps])
          with w \<open>e_cfg e4 = e_cfg e2\<close> show ?thesis by (simp add: wrote_def st res [unfolded st] e2(3))
        qed
        ultimately show False using err True by (auto simp: second_item_def Let_def split: if_splits)
      qed
    qed
  qed
qed

text \<open>
  C5. An edit of an archive that does not change is never refused as changed, with or without obfuscation:
  when the second pass reads the archive of the first, the count it arrives at, and without obfuscation the
  bytes, are the ones the first pass resolved, so the check at the sentinel cannot fail. (The bytes of an
  obfuscated edit differ, which is why they are not compared.)
\<close>

theorem unchanged_source_accepted:
  assumes "v_digest v = Inr dg" and "v_rewind v = Inr (arc_open es r)"
  shows "run x v (arc_open es r) tgt (new_editor op mf now ob) \<noteq> Inl (SourceChanged k b n t)"
proof
  assume err: "run x v (arc_open es r) tgt (new_editor op mf now ob) = Inl (SourceChanged k b n t)"
  have op: "e_op (new_editor op mf now ob) = op" by (simp add: new_editor_def)
  have pass: "(if perSubject op then twoPass else singlePass) x v (arc_open es r) (start_editor op mf now ob tgt) =
      Inl (SourceChanged k b n t)"
    using err by (cases tgt) (auto simp: run_def Let_def op start_editor_def encodeStateHead_def split: sum.splits if_splits)
  then have "\<not> changed (SourceChanged k b n t)"
  proof (cases "perSubject op")
    case True
    with pass have "twoPass x v (arc_open es r) (start_editor op mf now ob tgt) = Inl (SourceChanged k b n t)" by simp
    from twoPass_not_changed [OF this True assms] show ?thesis .
  next
    case False
    with pass have "singlePass x v (arc_open es r) (start_editor op mf now ob tgt) = Inl (SourceChanged k b n t)" by simp
    from singlePass_not_changed [OF this assms(1)] show ?thesis .
  qed
  then show False by simp
qed

theorem unchanged_source_accepted_witness:
  "run edit_lib edit_env0 (arc_open edit_source ''EOF'') True (new_editor last1_options edit_meta_file 0 (Some (fresh_obfuscator ''k''))) \<noteq>
     Inl (SourceChanged 1 32 2 66)"
  by (rule unchanged_source_accepted [where dg = "''d''"]) (simp_all add: edit_env0_def)

subsection \<open>The state in the meta file\<close>

lemma edit_result_state_fields:
  assumes "edit_result x e = Inr (res, e1)"
  shows "sst_Msgs (er_State res) = rep_Kept (e_report e) \<and> sst_Bytes (er_State res) = e_bytes e \<and>
    sst_Consumers (er_State res) = rep_ConsumersKept (e_report e) \<and>
    sst_FirstSeq (er_State res) = fst (resultRange e) \<and> sst_LastSeq (er_State res) = snd (resultRange e)"
  using assms
  by (auto simp: edit_result_def Let_def resultRange_def srcLastSeq_def split: option.splits sum.splits prod.splits)

lemma renumbered_range:
  assumes "length ks < 2 ^ 64" and "m \<in> set (renumbered True ks)"
  shows "1 \<le> m_Seq m \<and> m_Seq m \<le> of_nat (length ks)"
proof -
  from assms(2) obtain i where i: "1 \<le> i" "i \<le> length ks" "m_Seq m = of_nat i"
    by (auto simp: renumbered_def in_set_enumerate_eq)
  have "(0 :: u64) < of_nat i"
    using i(1,2) assms(1) by (simp add: word_gt_0 word_of_nat_eq_0_iff nat_dvd_not_less)
  then have "(1 :: u64) \<le> of_nat i" by (simp add: word_le_nat_alt word_less_nat_alt)
  moreover have "(of_nat i :: u64) \<le> of_nat (length ks)"
    using i(2) assms(1) by (simp add: word_of_nat_less_eq_iff take_bit_nat_eq_self)
  ultimately show ?thesis by (simp add: i(3))
qed



end
