(* ===== verification/Backup_Recorder.thy ===== *)
theory Backup_Recorder
  imports Backup_EditProps MsgMeta
begin

text \<open>
  \<open>src/backup/recorder.go\<close>: a recorder writes the messages of a subscription into a backup. Its
  archive is the placeholder head and the entries after it, as in \<open>Backup_Edit\<close>; its directory
  appears when \<open>Close\<close> commits it, here as the result of \<open>Close\<close>. Writing does not fail; the
  clock is the parameter \<open>now\<close>. \<open>nats.Header\<close> is a map with \<open>Values\<close> its lookup.
\<close>

record Recorder =
  rc_head :: arc_entry
  rc_entries :: "arc_entry list"
  rc_cfg :: StreamConfig
  rc_src :: SourceInfo
  rc_preserve :: bool
  rc_first :: u64
  rc_last :: u64
  rc_msgs :: u64
  rc_bytes :: u64
  rc_err :: "berr option"
  rc_done :: bool

record RecorderResult =
  rr_Messages :: u64
  rr_Bytes :: u64

record nats_msg =
  nm_Subject :: string
  nm_Reply :: string
  nm_Header :: header
  nm_Data :: bytes

definition NewRecorder :: "lib \<Rightarrow> gotime \<Rightarrow> StreamConfig \<Rightarrow> SourceInfo \<Rightarrow> berr + Recorder" where
  "NewRecorder x now cfg src =
     (if \<not> IsValidName (sc_Name cfg) then Inl (OtherErr ''invalid stream name'')
      else
        (let preserve = (si_Stream src \<noteq> []);
             cfg1 = (if \<not> preserve then cfg\<lparr> sc_Storage := FileStorage, sc_FirstSeq := 0 \<rparr> else cfg);
             src1 = (if IsZeroTime (si_Started src) then src\<lparr> si_Started := now \<rparr> else src)
         in case encodeStateHead x (si_Started src1) (zeroStreamState\<lparr> sst_FirstSeq := 1 \<rparr>) of
              Inl e \<Rightarrow> Inl e
            | Inr head \<Rightarrow>
                Inr \<lparr> rc_head = head, rc_entries = [], rc_cfg = cfg1, rc_src = src1, rc_preserve = preserve,
                      rc_first = 0, rc_last = 0, rc_msgs = 0, rc_bytes = 0, rc_err = None, rc_done = False \<rparr>))"

text \<open>The tail of \<open>write\<close>, once the sequence is known; \<open>None\<close> is the nil error.\<close>

definition rec_append :: "string \<Rightarrow> u64 \<Rightarrow> gotime \<Rightarrow> header \<Rightarrow> bytes \<Rightarrow> Recorder \<Rightarrow> Recorder" where
  "rec_append subject sq ts h data r =
     (let hdr = encodeHeaders h;
          r1 = r\<lparr> rc_entries := writeMessageBytes subject sq ts hdr data (rc_entries r) \<rparr>;
          r2 = (if rc_msgs r1 = 0 then r1\<lparr> rc_first := sq \<rparr> else r1)
      in r2\<lparr> rc_last := sq, rc_msgs := rc_msgs r2 + 1,
             rc_bytes := rc_bytes r2 + storedMsgSize (sc_Storage (rc_cfg r2)) (length subject) (length hdr) (length data) \<rparr>)"

definition rec_write :: "string \<Rightarrow> u64 \<Rightarrow> gotime \<Rightarrow> header \<Rightarrow> bytes \<Rightarrow> Recorder \<Rightarrow> berr option \<times> Recorder" where
  "rec_write subject sq ts h data r =
     (case rc_err r of
        Some e \<Rightarrow> (Some e, r)
      | None \<Rightarrow>
          if rc_done r then (Some RecorderClosed, r)
          else if \<not> rc_preserve r then (None, rec_append subject (rc_last r + 1) ts h data r)
          else if sq = 0 then (Some (NoStreamSequence subject), r\<lparr> rc_err := Some (NoStreamSequence subject) \<rparr>)
          else if sq \<le> rc_last r then (None, r)
          else (None, rec_append subject sq ts h data r))"

definition Write :: "gotime \<Rightarrow> nats_msg \<Rightarrow> Recorder \<Rightarrow> berr option \<times> Recorder" where
  "Write now m r =
     (let (ts, sq) =
        (if has_prefix (nm_Reply m) ''$JS.ACK.'' then
           (case ParseJSMsgMetadataReply (nm_Reply m) of
              Inr info \<Rightarrow> (mi_ts info, of_nat (mi_sSeq info))
            | Inl _ \<Rightarrow> (now, 0))
         else (now, 0))
      in rec_write (nm_Subject m) sq ts (nm_Header m) (nm_Data m) r)"

text \<open>
  The names of the direct get envelope are constants of nats-server; \<open>directGetEnvelope\<close> lists
  them in the order of the loop. \<open>parse_time\<close> is \<open>time.Parse(time.RFC3339Nano, _)\<close>.
\<close>

record envelope_names =
  en_Stream :: string
  en_Subject :: string
  en_Sequence :: string
  en_TimeStamp :: string
  en_NumPending :: string
  en_LastSequence :: string

definition directGetEnvelope :: "envelope_names \<Rightarrow> string list" where
  "directGetEnvelope n = [en_Stream n, en_Subject n, en_Sequence n, en_TimeStamp n, en_NumPending n, en_LastSequence n]"

definition header_Values :: "header \<Rightarrow> string \<Rightarrow> string list" where
  "header_Values h k = (case map_of h k of None \<Rightarrow> [] | Some vs \<Rightarrow> vs)"

definition take_envelope :: "string \<Rightarrow> string \<Rightarrow> header \<times> (string, string) gomap \<Rightarrow> berr + header \<times> (string, string) gomap" where
  "take_envelope subject k s =
     (case s of (h, env) \<Rightarrow>
        (let vals = header_Values h k
         in if length vals = 0 then Inl (DirectHeaderMissing subject k)
            else Inr (if length vals = 1 then AList.delete k h else AList.update k (butlast vals) h,
                      AList.update k (last vals) env)))"

definition env_get :: "(string, string) gomap \<Rightarrow> string \<Rightarrow> string" where
  "env_get env k = (case map_of env k of None \<Rightarrow> [] | Some v \<Rightarrow> v)"

definition WriteDirect :: "envelope_names \<Rightarrow> (string \<Rightarrow> string + gotime) \<Rightarrow> nats_msg \<Rightarrow> Recorder \<Rightarrow> berr option \<times> Recorder" where
  "WriteDirect n parse_time m r =
     (case fold_err (take_envelope (nm_Subject m)) (directGetEnvelope n) (nm_Header m, []) of
        Inl e \<Rightarrow> (Some e, r)
      | Inr (h, env) \<Rightarrow>
          (case parse_time (env_get env (en_TimeStamp n)) of
             Inl e \<Rightarrow> (Some (DirectParse (nm_Subject m) e), r)
           | Inr ts \<Rightarrow>
               (case parse_uint (env_get env (en_Sequence n)) of
                  None \<Rightarrow> (Some (DirectParse (nm_Subject m) (env_get env (en_Sequence n))), r)
                | Some sq \<Rightarrow> rec_write (env_get env (en_Subject n)) sq ts h (nm_Data m) r)))"

text \<open>A committed capture: its result, archive and meta file.\<close>

record capture =
  cap_result :: RecorderResult
  cap_archive :: "arc_entry list"
  cap_meta :: metaFile

definition Discard :: "Recorder \<Rightarrow> Recorder" where
  "Discard r = r\<lparr> rc_done := True \<rparr>"

definition writeArchive :: "lib \<Rightarrow> StreamState \<Rightarrow> Recorder \<Rightarrow> berr + arc_entry list" where
  "writeArchive x st r =
     (case encodeStateHead x (si_Started (rc_src r)) st of
        Inl e \<Rightarrow> Inl e
      | Inr head \<Rightarrow> Inr (head # WriteEnd (rc_entries r)))"

definition Close :: "lib \<Rightarrow> gotime \<Rightarrow> u64 \<Rightarrow> Recorder \<Rightarrow> (berr + capture) \<times> Recorder" where
  "Close x now dropped r =
     (if rc_done r then (Inl RecorderClosed, r)
      else
        (let r1 = r\<lparr> rc_done := True \<rparr>
         in case rc_err r1 of
              Some e \<Rightarrow> (Inl e, Discard r1)
            | None \<Rightarrow>
                (let state = zeroStreamState\<lparr> sst_Msgs := rc_msgs r1, sst_Bytes := rc_bytes r1,
                               sst_FirstSeq := max (rc_first r1) 1, sst_LastSeq := rc_last r1 \<rparr>
                 in case writeArchive x state r1 of
                      Inl e \<Rightarrow> (Inl e, Discard r1)
                    | Inr arc \<Rightarrow>
                        (let src = (rc_src r1)\<lparr> si_Ended := now, si_Dropped := dropped \<rparr>
                         in (Inr \<lparr> cap_result = \<lparr> rr_Messages = rc_msgs r1, rr_Bytes = rc_bytes r1 \<rparr>,
                                    cap_archive = arc,
                                    cap_meta = \<lparr> mf_Config = rc_cfg r1, mf_State = state, mf_Edit = None,
                                                 mf_Source = Some src \<rparr> \<rparr>,
                             r1\<lparr> rc_src := src \<rparr>)))))"

subsection \<open>What a run of writes has captured\<close>

text \<open>A delivery: subject, sequence (0 without one), timestamp, headers and data.\<close>

record delivery =
  dv_Subject :: string
  dv_Seq :: u64
  dv_Ts :: gotime
  dv_Header :: header
  dv_Data :: bytes

definition write_all :: "delivery list \<Rightarrow> Recorder \<Rightarrow> berr + Recorder" where
  "write_all ds r =
     fold_err (\<lambda>d r. case rec_write (dv_Subject d) (dv_Seq d) (dv_Ts d) (dv_Header d) (dv_Data d) r of
                 (None, r1) \<Rightarrow> Inr r1 | (Some e, _) \<Rightarrow> Inl e) ds r"

definition stored_as :: "u64 \<Rightarrow> delivery \<Rightarrow> Message" where
  "stored_as sq d =
     (let hdr = encodeHeaders (dv_Header d)
      in \<lparr> m_Subject = dv_Subject d, m_Seq = sq, m_Ts = dv_Ts d, m_HdrSize = length hdr,
           m_PayloadSize = length (dv_Data d), m_Body = bytes_reader (hdr @ dv_Data d) \<rparr>)"

text \<open>
  The specification: a core capture stores every delivery under the next number; a stream
  capture stores a delivery under its own sequence when that is above all before it.
\<close>

fun captured :: "bool \<Rightarrow> u64 \<Rightarrow> delivery list \<Rightarrow> Message list" where
  "captured preserve lst [] = []"
| "captured preserve lst (d # ds) =
     (let sq = (if preserve then dv_Seq d else lst + 1)
      in if preserve \<and> sq \<le> lst then captured preserve lst ds
         else stored_as sq d # captured preserve sq ds)"

text \<open>The state of a recorder that has stored \<open>ms\<close>.\<close>

definition holds :: "Message list \<Rightarrow> Recorder \<Rightarrow> bool" where
  "holds ms r \<longleftrightarrow>
     rc_err r = None \<and> \<not> rc_done r \<and> rc_entries r = map message_entry ms \<and> rc_msgs r = of_nat (length ms) \<and>
     rc_bytes r = sum_list (map (stored_size (sc_Storage (rc_cfg r))) ms) \<and>
     rc_last r = (if ms = [] then 0 else m_Seq (last ms)) \<and>
     (length ms < 2 ^ 64 \<longrightarrow> rc_first r = (if ms = [] then 0 else m_Seq (hd ms)))"

lemma stored_entry: "writeMessageBytes (dv_Subject d) sq (dv_Ts d) (encodeHeaders (dv_Header d)) (dv_Data d) out =
    out @ [message_entry (stored_as sq d)]"
  by (simp add: writeMessageBytes_def message_entry_def stored_as_def bytes_reader_def Let_def)

lemma holds_append:
  assumes "holds ms r"
  shows "holds (ms @ [stored_as sq d]) (rec_append (dv_Subject d) sq (dv_Ts d) (dv_Header d) (dv_Data d) r)"
proof -
  have zero: "(of_nat (length ms) :: u64) = 0 \<longleftrightarrow> ms = []" if "length ms < 2 ^ 64"
    using that by (auto simp: word_of_nat_eq_0_iff dest: dvd_imp_le)
  have "m_Seq (stored_as sq d) = sq" "stored_size st (stored_as sq d) =
      storedMsgSize st (length (dv_Subject d)) (length (encodeHeaders (dv_Header d))) (length (dv_Data d))" for st
    by (simp_all add: stored_as_def stored_size_def Let_def)
  then show ?thesis
    using assms zero by (auto simp: holds_def rec_append_def Let_def stored_entry hd_append add.commute)
qed

definition fixed :: "Recorder \<Rightarrow> Recorder \<Rightarrow> bool" where
  "fixed r r1 \<longleftrightarrow> rc_preserve r1 = rc_preserve r \<and> rc_cfg r1 = rc_cfg r \<and> rc_src r1 = rc_src r"

lemma fixed_append: "fixed r (rec_append s q t h d r)"
  by (simp add: fixed_def rec_append_def Let_def)

lemma write_all_run:
  assumes "write_all ds r = Inr r1" and "holds ms r"
  shows "holds (ms @ captured (rc_preserve r) (rc_last r) ds) r1 \<and> fixed r r1"
  using assms
proof (induction ds arbitrary: r ms)
  case Nil
  then show ?case by (simp add: write_all_def fixed_def)
next
  case (Cons d ds)
  let ?sq = "if rc_preserve r then dv_Seq d else rc_last r + 1"
  let ?a = "rec_append (dv_Subject d) ?sq (dv_Ts d) (dv_Header d) (dv_Data d) r"
  from Cons.prems(1) obtain r2 where w: "rec_write (dv_Subject d) (dv_Seq d) (dv_Ts d) (dv_Header d) (dv_Data d) r = (None, r2)"
    and rest: "write_all ds r2 = Inr r1"
    by (auto simp: write_all_def split: sum.splits prod.splits option.splits)
  show ?case
  proof (cases "rc_preserve r \<and> ?sq \<le> rc_last r")
    case True
    then have p: "rc_preserve r" and le: "dv_Seq d \<le> rc_last r" by auto
    with w have "r2 = r" by (auto simp: rec_write_def split: option.splits if_splits)
    with Cons.IH [OF rest] Cons.prems(2) p le show ?thesis by (simp add: Let_def)
  next
    case False
    with w have r2: "r2 = ?a" by (auto simp: rec_write_def split: option.splits if_splits)
    have "rc_last ?a = ?sq" "rc_preserve ?a = rc_preserve r" by (simp_all add: rec_append_def Let_def)
    with Cons.IH [OF rest [unfolded r2] holds_append [OF Cons.prems(2)]] False fixed_append [of r]
    show ?thesis by (auto simp: Let_def fixed_def)
  qed
qed

subsection \<open>A committed capture is a backup\<close>

lemma stored_seq [simp]: "m_Seq (stored_as q d) = q"
  by (simp add: stored_as_def Let_def)

lemma stream_ascending: "sorted_wrt (<) (lst # map m_Seq (captured True lst ds))"
proof (induction ds arbitrary: lst)
  case (Cons d ds)
  show ?case
  proof (cases "dv_Seq d \<le> lst")
    case True
    then have "captured True lst (d # ds) = captured True lst ds" by (simp add: Let_def)
    then show ?thesis by (simp only: Cons.IH)
  next
    case False
    then have "lst < dv_Seq d" by simp
    with Cons.IH [of "dv_Seq d"] show ?thesis by (fastforce simp: Let_def)
  qed
qed simp

lemma core_captured: "captured False lst ds = map (\<lambda>(i, d). stored_as (lst + of_nat i) d) (enumerate 1 ds)"
proof (induction ds arbitrary: lst)
  case (Cons d ds)
  have "enumerate (Suc 1) ds = map (\<lambda>(i, d). (Suc i, d)) (enumerate 1 ds)"
    by (simp add: list_eq_iff_nth_eq nth_enumerate_eq)
  then show ?case by (simp add: Let_def Cons.IH case_prod_unfold o_def add.assoc)
qed simp

lemma core_numbers: "map m_Seq (captured False 0 ds) = map of_nat [1..<Suc (length ds)]"
proof -
  have "map m_Seq (captured False 0 ds) = map of_nat (map fst (enumerate 1 ds))"
    by (simp only: core_captured map_map) (simp add: case_prod_unfold)
  also have "map fst (enumerate 1 ds) = [1..<Suc (length ds)]" by (simp del: upt_Suc)
  finally show ?thesis .
qed

lemma captured_ascending:
  assumes "length ds < 2 ^ 64"
  shows "sorted_wrt (<) (0 # map m_Seq (captured b 0 ds))"
proof (cases b)
  case False
  then show ?thesis using numbers_ascending [OF assms] by (simp only: core_numbers zero_numbers)
qed (simp only: stream_ascending)

lemma captured_fits:
  assumes "length ds < 2 ^ 64" shows "length (captured b 0 ds) < 2 ^ 64"
  using captured_ascending [OF assms] by (rule ascending_length)

lemma first_below:
  assumes "sorted_wrt (<) ((0 :: u64) # qs)"
  shows "sorted_wrt (<) ((max (if qs = [] then 0 else hd qs) 1 - 1) # qs)"
proof (cases qs)
  case (Cons q rest)
  with assms have "0 < q" by simp
  then have "1 \<le> q" "q \<noteq> 0" by (auto simp: word_le_nat_alt word_less_nat_alt)
  then have "max q 1 = q" "q - 1 < q" using \<open>0 < q\<close> by (auto simp: max_def word_less_nat_alt unat_minus_one)
  with assms Cons show ?thesis by (fastforce intro: less_trans)
qed simp

lemma new_recorder_holds:
  assumes "NewRecorder x now cfg src = Inr r"
  shows "holds [] r \<and> rc_last r = 0 \<and> rc_preserve r = (si_Stream src \<noteq> []) \<and>
    sc_Storage (rc_cfg r) = (if si_Stream src \<noteq> [] then sc_Storage cfg else FileStorage) \<and>
    rc_src r = (if IsZeroTime (si_Started src) then src\<lparr> si_Started := now \<rparr> else src)"
  using assms by (auto simp: NewRecorder_def Let_def holds_def split: if_splits sum.splits)

definition capture_state :: "StorageType \<Rightarrow> Message list \<Rightarrow> StreamState" where
  "capture_state storage ms =
     counters (of_nat (length ms)) (sum_list (map (stored_size storage) ms))
       (max (if ms = [] then 0 else m_Seq (hd ms)) 1) (if ms = [] then 0 else m_Seq (last ms)) (int 0)"

text \<open>
  C20. A capture is a backup. From \<open>NewRecorder\<close> through any run of writes without an error to
  \<open>Close\<close>, the archive is in the decoder's grammar with the exact totals of what was stored, the
  meta file records the same state, and the result counts the same messages.
\<close>

theorem capture_decodes:
  assumes new: "NewRecorder x now cfg src = Inr r0" and run: "write_all ds r0 = Inr r1"
    and close: "Close x later dropped r1 = (Inr cap, r2)"
    and json: "json_state_ok x" and fits: "length ds < 2 ^ 64"
  shows "let ms = captured (si_Stream src \<noteq> []) 0 ds;
             st = capture_state (if si_Stream src \<noteq> [] then sc_Storage cfg else FileStorage) ms
         in wf_backup x (cap_archive cap)
              (items_of \<lparr> s_Ts = (if IsZeroTime (si_Started src) then now else si_Started src), s_State = st \<rparr> []
                 (map (\<lambda>m. message_of (message_entry m)) ms)) \<and>
            mf_State (cap_meta cap) = st \<and> rr_Messages (cap_result cap) = of_nat (length ms)"
proof -
  let ?ms = "captured (si_Stream src \<noteq> []) 0 ds"
  let ?storage = "if si_Stream src \<noteq> [] then sc_Storage cfg else FileStorage"
  let ?st = "capture_state ?storage ?ms"
  let ?ts = "if IsZeroTime (si_Started src) then now else si_Started src"
  note n = new_recorder_holds [OF new]
  have r1: "holds ?ms r1" "fixed r0 r1" using write_all_run [OF run, of "[]"] n by auto
  have storage: "sc_Storage (rc_cfg r1) = ?storage" and started: "si_Started (rc_src r1) = ?ts"
    using r1(2) n by (simp_all add: fixed_def)
  have len: "length ?ms < 2 ^ 64" by (rule captured_fits [OF fits])
  have state: "zeroStreamState\<lparr> sst_Msgs := rc_msgs r1, sst_Bytes := rc_bytes r1, sst_FirstSeq := max (rc_first r1) 1,
      sst_LastSeq := rc_last r1 \<rparr> = ?st"
    using r1(1) len unfolding capture_state_def holds_def storage by (simp add: counters_def zeroStreamState_def)
  have live: "\<not> rc_done r1" "rc_err r1 = None" using r1(1) by (simp_all add: holds_def)
  from close obtain h where h: "encodeStateHead x ?ts ?st = Inr h"
      and cap: "cap_archive cap = h # WriteEnd (rc_entries r1)" "mf_State (cap_meta cap) = ?st"
      "rr_Messages (cap_result cap) = rc_msgs r1"
    using live unfolding Close_def Let_def by (auto simp: state writeArchive_def started split: if_splits sum.splits)
  have valid: "valid_state x h ?st \<and> h_Timestamp (ent_hdr h) = ?ts"
    using encodeStateHead_valid [OF json h [unfolded capture_state_def]] unfolding capture_state_def .
  have asc: "sorted_wrt (<) ((sst_FirstSeq ?st - 1) # map m_Seq ?ms)"
    using first_below [OF captured_ascending [OF fits, of "si_Stream src \<noteq> []"]]
    by (cases ?ms) (simp_all add: capture_state_def counters_def)
  have "wf_backup x (h # map consumer_entry [] @ map message_entry ?ms @ [end_entry])
      (items_of \<lparr> s_Ts = h_Timestamp (ent_hdr h), s_State = ?st \<rparr> [] (map (\<lambda>m. message_of (message_entry m)) ?ms))"
    by (rule edited_grammar) (use valid asc in \<open>simp_all add: capture_state_def counters_def\<close>)
  then show ?thesis using valid cap r1(1) by (simp add: Let_def WriteEnd_def holds_def writeEntry_def end_entry_def)
qed

lemma captured_eq:
  "captured False 0 ds = map (\<lambda>(i, d). stored_as (of_nat i) d) (enumerate 1 ds) \<and>
   captured True 0 ds =
     map (\<lambda>i. stored_as (dv_Seq (ds ! i)) (ds ! i))
       (filter (\<lambda>i. \<forall>q \<in> set (0 # map dv_Seq (take i ds)). q < dv_Seq (ds ! i)) [0..<length ds])"
proof -
  have "captured True lst ds =
     map (\<lambda>i. stored_as (dv_Seq (ds ! i)) (ds ! i))
       (filter (\<lambda>i. \<forall>q \<in> set (lst # map dv_Seq (take i ds)). q < dv_Seq (ds ! i)) [0..<length ds])" for lst
  proof (induction ds arbitrary: lst)
    case (Cons d ds)
    have upt: "[0..<length (d # ds)] = 0 # map Suc [0..<length ds]" by (simp add: upt_conv_Cons map_Suc_upt del: upt_Suc)
    show ?case
    proof (cases "dv_Seq d \<le> lst")
      case True
      then have "lst < q \<and> dv_Seq d < q \<longleftrightarrow> lst < q" for q by (blast intro: le_less_trans)
      then have "(\<forall>q \<in> set (lst # map dv_Seq (take (Suc i) (d # ds))). q < dv_Seq ((d # ds) ! Suc i)) =
          (\<forall>q \<in> set (lst # map dv_Seq (take i ds)). q < dv_Seq (ds ! i))" for i by simp blast
      with True Cons.IH [of lst] show ?thesis unfolding upt by (simp add: Let_def filter_map o_def)
    next
      case False
      then have "lst < q \<and> dv_Seq d < q \<longleftrightarrow> dv_Seq d < q" for q by (auto intro: less_trans)
      then have "(\<forall>q \<in> set (lst # map dv_Seq (take (Suc i) (d # ds))). q < dv_Seq ((d # ds) ! Suc i)) =
          (\<forall>q \<in> set (dv_Seq d # map dv_Seq (take i ds)). q < dv_Seq (ds ! i))" for i by simp blast
      with False Cons.IH [of "dv_Seq d"] show ?thesis unfolding upt by (simp add: Let_def filter_map o_def)
    qed
  qed simp
  then show ?thesis by (simp add: core_captured)
qed

text \<open>
  What a capture stores. A core capture stores every delivery, numbered 1 to N. A stream
  capture keeps each delivery's own sequence and stores it exactly when it is above all
  sequences delivered before it, so redeliveries are skipped.
\<close>

theorem captured_sequences:
  assumes "NewRecorder x now cfg src = Inr r0" and "write_all ds r0 = Inr r1"
  shows "rc_entries r1 = map message_entry
    (if si_Stream src = [] then map (\<lambda>(i, d). stored_as (of_nat i) d) (enumerate 1 ds)
     else map (\<lambda>i. stored_as (dv_Seq (ds ! i)) (ds ! i))
            (filter (\<lambda>i. \<forall>q \<in> set (0 # map dv_Seq (take i ds)). q < dv_Seq (ds ! i)) [0..<length ds]))"
proof -
  have "rc_entries r1 = map message_entry (captured (si_Stream src \<noteq> []) 0 ds)"
    using write_all_run [OF assms(2), of "[]"] new_recorder_holds [OF assms(1)] by (simp add: holds_def)
  then show ?thesis using captured_eq [of ds] by (cases "si_Stream src = []") simp_all
qed

text \<open>
  The first error of a recorder is returned by every later write, and \<open>Close\<close> then fails
  with it: nothing is committed.
\<close>

theorem recorder_error_sticky:
  assumes "rec_write s q t h d r = (Some e, r1)" and "\<not> rc_done r"
  shows "rec_write s2 q2 t2 h2 d2 r1 = (Some e, r1) \<and> (\<exists>r2. Close x now dropped r1 = (Inl e, r2) \<and> rc_done r2)"
proof -
  have "rc_err r1 = Some e" "\<not> rc_done r1"
    using assms unfolding rec_write_def by (simp_all split: option.splits if_splits) auto
  then show ?thesis by (simp add: rec_write_def Close_def Discard_def Let_def)
qed

subsection \<open>Direct get responses\<close>

text \<open>The response the server makes of a stored message: its headers with the envelope appended.\<close>

definition add_value :: "string \<Rightarrow> string \<Rightarrow> header \<Rightarrow> header" where
  "add_value k v h = AList.update k (header_Values h k @ [v]) h"

definition with_envelope :: "(string \<times> string) list \<Rightarrow> header \<Rightarrow> header" where
  "with_envelope kvs h = foldl (\<lambda>g (k, v). add_value k v g) h kvs"

lemma add_value_keys [simp]: "distinct (map fst (add_value k v h)) = distinct (map fst h)"
  by (simp add: add_value_def update_keys)

lemma with_envelope_keys [simp]: "distinct (map fst (with_envelope kvs h)) = distinct (map fst h)"
proof (induction kvs arbitrary: h)
  case (Cons kv kvs)
  have "with_envelope (kv # kvs) h = with_envelope kvs (add_value (fst kv) (snd kv) h)"
    by (simp add: with_envelope_def case_prod_unfold)
  then show ?case by (simp only: Cons.IH add_value_keys)
qed (simp add: with_envelope_def)

lemma with_envelope_Values:
  assumes "distinct (map fst kvs)"
  shows "map_of (with_envelope kvs h) k =
    (case map_of kvs k of None \<Rightarrow> map_of h k | Some v \<Rightarrow> Some (header_Values h k @ [v]))"
  using assms
proof (induction kvs arbitrary: h)
  case (Cons kv kvs)
  obtain k0 v0 where kv: "kv = (k0, v0)" by force
  have "with_envelope (kv # kvs) h = with_envelope kvs (add_value k0 v0 h)" by (simp add: with_envelope_def kv)
  then have eq: "map_of (with_envelope (kv # kvs) h) k = (case map_of kvs k of None \<Rightarrow> map_of (add_value k0 v0 h) k
      | Some v \<Rightarrow> Some (header_Values (add_value k0 v0 h) k @ [v]))"
    using Cons.IH [of "add_value k0 v0 h"] Cons.prems by simp
  show ?case
  proof (cases "k = k0")
    case True
    then have "map_of kvs k = None" using Cons.prems by (simp add: kv map_of_eq_None_iff)
    with True show ?thesis unfolding eq by (simp add: kv add_value_def update_conv')
  next
    case False
    then have "map_of (add_value k0 v0 h) k = map_of h k" by (simp add: add_value_def update_conv')
    with False show ?thesis unfolding eq by (auto simp: kv header_Values_def split: option.splits)
  qed
qed (simp add: with_envelope_def)

text \<open>Taking the envelope off again: what is left of the headers and what was taken.\<close>

lemma take_envelope_run:
  assumes "distinct ks" and "distinct (map fst g)" and "\<forall>k \<in> set ks. header_Values g k = vs k @ [val k]"
  shows "\<exists>g1 env1. fold_err (take_envelope s) ks (g, env) = Inr (g1, env1) \<and> distinct (map fst g1) \<and>
    map_of g1 = (\<lambda>k. if k \<in> set ks then if vs k = [] then None else Some (vs k) else map_of g k) \<and>
    map_of env1 = (\<lambda>k. if k \<in> set ks then Some (val k) else map_of env k)"
  using assms
proof (induction ks arbitrary: g env)
  case (Cons k ks)
  let ?g = "if length (header_Values g k) = 1 then AList.delete k g else AList.update k (butlast (header_Values g k)) g"
  let ?env = "AList.update k (val k) env"
  have vals: "header_Values g k = vs k @ [val k]" using Cons.prems(3) by simp
  have step: "take_envelope s k (g, env) = Inr (?g, ?env)" by (simp add: take_envelope_def vals Let_def)
  have g: "map_of ?g = (map_of g)(k := (if vs k = [] then None else Some (vs k)))"
    by (auto simp: vals delete_conv' update_conv')
  have "distinct (map fst ?g)" using Cons.prems(2) by (simp add: distinct_delete distinct_update)
  moreover have "\<forall>j \<in> set ks. header_Values ?g j = vs j @ [val j]"
  proof
    fix j assume j: "j \<in> set ks"
    then have "map_of ?g j = map_of g j" unfolding g using Cons.prems(1) by auto
    then have "header_Values ?g j = header_Values g j" unfolding header_Values_def by (rule arg_cong)
    with j Cons.prems(3) show "header_Values ?g j = vs j @ [val j]" by simp
  qed
  moreover have "distinct ks" using Cons.prems(1) by simp
  ultimately obtain g1 env1 where ih: "fold_err (take_envelope s) ks (?g, ?env) = Inr (g1, env1)" "distinct (map fst g1)"
    "map_of g1 = (\<lambda>j. if j \<in> set ks then if vs j = [] then None else Some (vs j) else map_of ?g j)"
    "map_of env1 = (\<lambda>j. if j \<in> set ks then Some (val j) else map_of ?env j)"
    using Cons.IH [of ?g ?env] by blast
  have "fold_err (take_envelope s) (k # ks) (g, env) = Inr (g1, env1)" by (simp only: fold_err.simps step sum.case ih(1))
  moreover have "map_of g1 = (\<lambda>j. if j \<in> set (k # ks) then if vs j = [] then None else Some (vs j) else map_of g j)"
    unfolding ih(3) g using Cons.prems(1) by auto
  moreover have "map_of env1 = (\<lambda>j. if j \<in> set (k # ks) then Some (val j) else map_of env j)"
    unfolding ih(4) update_conv' using Cons.prems(1) by auto
  ultimately show ?case using ih(2) by blast
qed simp

lemma encodeHeaders_map:
  assumes "distinct (map fst g)" "distinct (map fst h)" "map_of g = map_of h"
  shows "encodeHeaders g = encodeHeaders h"
proof -
  have s: "set g = set h" using assms by (metis map_of_is_SomeI map_of_SomeD set_eqI surj_pair)
  have "sort_key fst g = sort_key fst h"
    by (rule map_sorted_distinct_set_unique [where f = fst])
      (use assms s eq_key_imp_eq_value in \<open>auto simp: inj_on_def distinct_map\<close>)
  moreover have "length g = 0 \<longleftrightarrow> length h = 0" using s by auto
  ultimately show ?thesis by (simp add: encodeHeaders_def)
qed

text \<open>
  \<open>WriteDirect\<close> undoes the envelope. A direct get response for a stored message, whose own
  headers may use the envelope's names, is recorded as that message: its subject, sequence,
  timestamp and its own header block.
\<close>

theorem write_direct_unwraps:
  assumes names: "distinct (directGetEnvelope n)"
    and stored: "distinct (map fst h)" "\<forall>(k, vs) \<in> set h. vs \<noteq> []"
    and time: "parse_time (tok ! 3) = Inr ts" and sq: "parse_uint (tok ! 2) = Some q" and toks: "length tok = 6"
  shows "WriteDirect n parse_time
      \<lparr> nm_Subject = inbox, nm_Reply = reply, nm_Header = with_envelope (zip (directGetEnvelope n) tok) h, nm_Data = data \<rparr> r =
    rec_write (tok ! 1) q ts h data r"
proof -
  let ?ks = "directGetEnvelope n"
  let ?g = "with_envelope (zip ?ks tok) h"
  let ?val = "\<lambda>k. the (map_of (zip ?ks tok) k)"
  have len: "length ?ks = length tok" using toks by (simp add: directGetEnvelope_def)
  then have keys: "map fst (zip ?ks tok) = ?ks" by simp
  have dg: "distinct (map fst ?g)" using stored by simp
  have some: "map_of (zip ?ks tok) k = Some (?val k)" if "k \<in> set ?ks" for k
    using that len by (metis keys map_of_eq_None_iff option.collapse set_map)
  have g: "map_of ?g k = (case map_of (zip ?ks tok) k of None \<Rightarrow> map_of h k | Some v \<Rightarrow> Some (header_Values h k @ [v]))" for k
    by (rule with_envelope_Values) (simp only: keys names)
  have "\<forall>k \<in> set ?ks. header_Values ?g k = header_Values h k @ [?val k]"
  proof
    fix k assume "k \<in> set ?ks"
    then obtain v where "map_of (zip ?ks tok) k = Some v" using some by blast
    then show "header_Values ?g k = header_Values h k @ [?val k]" by (simp add: header_Values_def [of ?g] g)
  qed
  from take_envelope_run [OF names dg this, of inbox "[]"] obtain g1 env1
    where run: "fold_err (take_envelope inbox) ?ks (?g, []) = Inr (g1, env1)" and d1: "distinct (map fst g1)"
      and g1: "map_of g1 = (\<lambda>k. if k \<in> set ?ks then if header_Values h k = [] then None else Some (header_Values h k) else map_of ?g k)"
      and env1: "map_of env1 = (\<lambda>k. if k \<in> set ?ks then Some (?val k) else map_of [] k)" by blast
  have none: "map_of (zip ?ks tok) k = None" if "k \<notin> set ?ks" for k
    using that len by (metis keys map_of_eq_None_iff set_map)
  have "map_of g1 k = map_of h k" for k
  proof (cases "k \<in> set ?ks")
    case True
    have "vs \<noteq> []" if "map_of h k = Some vs" for vs using stored(2) map_of_SomeD [OF that] by fastforce
    with True show ?thesis by (auto simp: g1 header_Values_def split: option.splits)
  qed (simp add: g1 g none)
  then have "map_of g1 = map_of h" by (rule ext)
  from encodeHeaders_map [OF d1 stored(1) this] have "rec_append s q ts g1 data r = rec_append s q ts h data r" for s q
    by (simp only: rec_append_def)
  then have hdr: "rec_write s q ts g1 data r = rec_write s q ts h data r" for s by (simp only: rec_write_def)
  obtain t0 t1 t2 t3 t4 t5 where tok: "tok = [t0, t1, t2, t3, t4, t5]"
    using toks by (auto simp: length_Suc_conv numeral_eq_Suc)
  have "env_get env1 (en_TimeStamp n) = t3" "env_get env1 (en_Sequence n) = t2" "env_get env1 (en_Subject n) = t1"
    using names by (auto simp: env_get_def env1 directGetEnvelope_def tok)
  then show ?thesis using time sq by (simp add: WriteDirect_def run [unfolded tok] hdr tok)
qed

text \<open>A stream capture of three deliveries, one of them a redelivery.\<close>

definition sample_delivery :: "u64 \<Rightarrow> delivery" where
  "sample_delivery q = \<lparr> dv_Subject = ''a.b'', dv_Seq = q, dv_Ts = 5, dv_Header = [], dv_Data = ''xy'' \<rparr>"

definition sample_source :: SourceInfo where
  "sample_source = \<lparr> si_Subjects = [''a.>''], si_Stream = ''ORDERS'', si_Started = 3, si_Ended = zeroTime, si_Dropped = 0 \<rparr>"

definition sample_recorder :: Recorder where
  "sample_recorder = \<lparr> rc_head = end_entry, rc_entries = [], rc_cfg = zeroStreamConfig ''ORDERS'', rc_src = sample_source,
     rc_preserve = True, rc_first = 0, rc_last = 0, rc_msgs = 0, rc_bytes = 0, rc_err = None, rc_done = False \<rparr>"

definition sample_run :: "(berr + capture) \<times> Recorder" where
  "sample_run =
     (case NewRecorder edit_lib 0 (zeroStreamConfig ''ORDERS'') sample_source of
        Inr r \<Rightarrow> (case write_all (map sample_delivery [4, 4, 7]) r of Inr r1 \<Rightarrow> Close edit_lib 9 0 r1 | Inl e \<Rightarrow> (Inl e, r))
      | Inl e \<Rightarrow> (Inl e, sample_recorder))"

lemma sample_run_ok: "is_ok (fst sample_run)"
  by (simp add: sample_run_def NewRecorder_def IsValidName_def contains_any_def nameStopChars_def zeroStreamConfig_def sample_source_def
      IsZeroTime_def zeroTime_def encodeStateHead_def stateHeadPad_def zeroStreamState_def format_uint_def itoa.simps
      write_all_def sample_delivery_def rec_write_def rec_append_def encodeHeaders_def writeMessageBytes_def Let_def
      storedMsgSize_def Close_def writeArchive_def)

theorem capture_decodes_witness:
  "\<exists>r0 r1 cap r2 its. NewRecorder edit_lib 0 (zeroStreamConfig ''ORDERS'') sample_source = Inr r0 \<and>
    write_all (map sample_delivery [4, 4, 7]) r0 = Inr r1 \<and> Close edit_lib 9 0 r1 = (Inr cap, r2) \<and>
    wf_backup edit_lib (cap_archive cap) its"
proof -
  obtain r0 where new: "NewRecorder edit_lib 0 (zeroStreamConfig ''ORDERS'') sample_source = Inr r0"
    using sample_run_ok by (auto simp: sample_run_def split: sum.splits)
  obtain r1 where run: "write_all (map sample_delivery [4, 4, 7]) r0 = Inr r1"
    using sample_run_ok by (auto simp: sample_run_def new split: sum.splits)
  obtain cap r2 where close: "Close edit_lib 9 0 r1 = (Inr cap, r2)"
    using sample_run_ok by (cases "Close edit_lib 9 0 r1"; cases "fst (Close edit_lib 9 0 r1)") (auto simp: sample_run_def new run [simplified])
  have "length (map sample_delivery [4, 4, 7]) < 2 ^ 64" by simp
  from capture_decodes [OF new run close edit_lib_json this] new run close show ?thesis unfolding Let_def by blast
qed

theorem captured_sequences_witness:
  "\<exists>r0 r1. NewRecorder edit_lib 0 (zeroStreamConfig ''ORDERS'') sample_source = Inr r0 \<and>
    write_all (map sample_delivery [4, 4, 7]) r0 = Inr r1 \<and>
    rc_entries r1 = map message_entry [stored_as 4 (sample_delivery 4), stored_as 7 (sample_delivery 7)]"
proof -
  obtain r0 where new: "NewRecorder edit_lib 0 (zeroStreamConfig ''ORDERS'') sample_source = Inr r0"
    using sample_run_ok by (auto simp: sample_run_def split: sum.splits)
  obtain r1 where run: "write_all (map sample_delivery [4, 4, 7]) r0 = Inr r1"
    using sample_run_ok by (auto simp: sample_run_def new split: sum.splits)
  from captured_sequences [OF new run] new run show ?thesis
    by (simp add: sample_source_def sample_delivery_def upt_conv_Cons nth_Cons')
qed

theorem recorder_error_sticky_witness:
  "\<exists>r1. rec_write ''a'' 0 1 [] [] sample_recorder = (Some (NoStreamSequence ''a''), r1) \<and>
    rec_write ''a'' 5 1 [] [] r1 = (Some (NoStreamSequence ''a''), r1) \<and>
    (\<exists>r2. Close edit_lib 9 0 r1 = (Inl (NoStreamSequence ''a''), r2) \<and> rc_done r2)"
proof -
  obtain r1 where w: "rec_write ''a'' 0 1 [] [] sample_recorder = (Some (NoStreamSequence ''a''), r1)"
    by (simp add: rec_write_def sample_recorder_def)
  have "\<not> rc_done sample_recorder" by (simp add: sample_recorder_def)
  from recorder_error_sticky [OF w this] w show ?thesis by blast
qed

definition sample_names :: envelope_names where
  "sample_names = \<lparr> en_Stream = ''S'', en_Subject = ''U'', en_Sequence = ''Q'', en_TimeStamp = ''T'', en_NumPending = ''P'', en_LastSequence = ''L'' \<rparr>"

text \<open>The stored message has a header \<open>S\<close> of its own.\<close>

theorem write_direct_unwraps_witness:
  "WriteDirect sample_names (\<lambda>_. Inr 8)
      \<lparr> nm_Subject = ''_INBOX'', nm_Reply = [],
        nm_Header = with_envelope (zip (directGetEnvelope sample_names) [''ORDERS'', ''a.b'', ''4'', ''t'', ''0'', ''9'']) [(''S'', [''own''])],
        nm_Data = ''xy'' \<rparr> sample_recorder =
    rec_write ''a.b'' 4 8 [(''S'', [''own''])] ''xy'' sample_recorder"
proof -
  have names: "distinct (directGetEnvelope sample_names)" by (simp add: directGetEnvelope_def sample_names_def)
  have q: "parse_uint ([''ORDERS'', ''a.b'', ''4'', ''t'', ''0'', ''9''] ! 2) = Some (4 :: u64)"
    by (simp add: parse_uint_def digit_val_def)
  show ?thesis using write_direct_unwraps [OF names _ _ _ q, of "[(''S'', [''own''])]" "\<lambda>_. Inr 8" 8] by simp
qed

end
