(* ===== verification/Api_Messages.thy ===== *)
theory Api_Messages
  imports Api_Types Names
begin

text \<open>
  The information, request and response types of \<open>src/api/streams.go\<close>, \<open>src/api/consumers.go\<close>,
  \<open>src/api/cluster.go\<close> and \<open>src/api/jetstream.go\<close>, the subjects they travel on, and
  \<open>RequiredApiLevel\<close>. A response embeds \<open>JSApiResponse\<close>: here its record extends that record.
  An embedded pointer of a response is an \<open>option\<close> field of its name.
\<close>

subsection \<open>Information about streams, consumers and accounts\<close>

record DesiredPeerInfo =
  dp_Name :: string
  dp_Offline :: bool
  dp_Peer :: string

record DesiredClusterInfoOrigin =
  do_Replicas :: int
  do_Placement :: "Placement option"
  do_Retention :: "RetentionPolicy option"

record DesiredClusterInfoStatus =
  ds_Description :: string
  ds_Type :: string
  ds_Err :: string

record DesiredClusterInfo =
  dc_Created :: gotime
  dc_Name :: string
  dc_Replicas :: "DesiredPeerInfo list"
  dc_Origin :: "DesiredClusterInfoOrigin option"
  dc_Status :: "DesiredClusterInfoStatus option"

record PeerInfo =
  pi_Name :: string
  pi_Current :: bool
  pi_Offline :: bool
  pi_Active :: duration
  pi_Lag :: u64
  pi_Peer :: string
  pi_Pending :: bool

record ClusterInfo =
  ci_Name :: string
  ci_RaftGroup :: string
  ci_Leader :: string
  ci_LeaderSince :: "gotime option"
  ci_SystemAcc :: bool
  ci_TrafficAcc :: string
  ci_Replicas :: "PeerInfo list"
  ci_Desired :: "DesiredClusterInfo option"

record StreamSourceInfo =
  ssi_Name :: string
  ssi_External :: "ExternalStream option"
  ssi_Lag :: u64
  ssi_Active :: duration
  ssi_Error :: "ApiError option"
  ssi_FilterSubject :: string
  ssi_SubjectTransforms :: "SubjectTransformConfig list"

record StreamAlternate =
  sa_Name :: string
  sa_Domain :: string
  sa_Cluster :: string

record StreamInfo =
  nfo_Config :: StreamConfig
  nfo_Created :: gotime
  nfo_State :: StreamState
  nfo_Domain :: string
  nfo_Cluster :: "ClusterInfo option"
  nfo_Mirror :: "StreamSourceInfo option"
  nfo_Sources :: "StreamSourceInfo list"
  nfo_Alternates :: "StreamAlternate list"
  nfo_TimeStamp :: gotime

record SequenceInfo =
  sq_Consumer :: u64
  sq_Stream :: u64
  sq_Last :: "gotime option"

record PriorityGroupState =
  pg_Group :: string
  pg_PinnedClientID :: string
  pg_PinnedTS :: gotime

record ConsumerInfo =
  cn_Stream :: string
  cn_Name :: string
  cn_Config :: ConsumerConfig
  cn_Created :: gotime
  cn_Delivered :: SequenceInfo
  cn_AckFloor :: SequenceInfo
  cn_NumAckPending :: int
  cn_NumRedelivered :: int
  cn_NumWaiting :: int
  cn_NumPending :: u64
  cn_Cluster :: "ClusterInfo option"
  cn_PushBound :: bool
  cn_Paused :: bool
  cn_PauseRemaining :: duration
  cn_TimeStamp :: gotime
  cn_PriorityGroups :: "PriorityGroupState list"

text \<open>The zero values of \<open>api.ConsumerConfig\<close> and \<open>api.ConsumerInfo\<close>.\<close>

definition zeroConsumerConfig :: ConsumerConfig where
  "zeroConsumerConfig = \<lparr> cc_Description = [], cc_AckPolicy = AckNone, cc_AckWait = 0, cc_DeliverPolicy = DeliverAll,
     cc_DeliverSubject = [], cc_DeliverGroup = [], cc_Durable = [], cc_Name = [], cc_FilterSubject = [],
     cc_FilterSubjects = [], cc_FlowControl = False, cc_Heartbeat = 0, cc_MaxAckPending = 0, cc_MaxDeliver = 0,
     cc_BackOff = [], cc_MaxWaiting = 0, cc_OptStartSeq = 0, cc_OptStartTime = None, cc_RateLimit = 0,
     cc_ReplayPolicy = ReplayInstant, cc_SampleFrequency = [], cc_HeadersOnly = False, cc_MaxRequestBatch = 0,
     cc_MaxRequestExpires = 0, cc_MaxRequestMaxBytes = 0, cc_InactiveThreshold = 0, cc_Replicas = 0,
     cc_MemoryStorage = False, cc_Metadata = [], cc_PauseUntil = zeroTime, cc_PriorityGroups = None,
     cc_PriorityPolicy = PriorityNone, cc_PinnedTTL = 0, cc_Direct = False, cc_Sourcing = False \<rparr>"

definition zeroSequenceInfo :: SequenceInfo where
  "zeroSequenceInfo = \<lparr> sq_Consumer = 0, sq_Stream = 0, sq_Last = None \<rparr>"

definition zeroConsumerInfo :: ConsumerInfo where
  "zeroConsumerInfo = \<lparr> cn_Stream = [], cn_Name = [], cn_Config = zeroConsumerConfig, cn_Created = zeroTime,
     cn_Delivered = zeroSequenceInfo, cn_AckFloor = zeroSequenceInfo, cn_NumAckPending = 0, cn_NumRedelivered = 0,
     cn_NumWaiting = 0, cn_NumPending = 0, cn_Cluster = None, cn_PushBound = False, cn_Paused = False,
     cn_PauseRemaining = 0, cn_TimeStamp = zeroTime, cn_PriorityGroups = [] \<rparr>"

record StoredMsg =
  sm_Subject :: string
  sm_Sequence :: u64
  sm_Header :: bytes
  sm_Data :: bytes
  sm_Time :: gotime

record JetStreamAPIStats =
  as_Level :: int
  as_Total :: u64
  as_Errors :: u64
  as_Inflight :: u64

record JetStreamAccountLimits =
  al_MaxMemory :: int
  al_MaxStore :: int
  al_MaxStreams :: int
  al_MaxConsumers :: int
  al_MaxAckPending :: int
  al_MemoryMaxStreamBytes :: int
  al_StoreMaxStreamBytes :: int
  al_MaxBytesRequired :: bool

record JetStreamTier =
  jt_Memory :: u64
  jt_Store :: u64
  jt_ReservedMemory :: u64
  jt_ReservedStore :: u64
  jt_Streams :: int
  jt_Consumers :: int
  jt_Limits :: JetStreamAccountLimits

record JetStreamAccountStats = JetStreamTier +
  ja_Domain :: string
  ja_API :: JetStreamAPIStats
  ja_Tiers :: "(string, JetStreamTier) gomap"

subsection \<open>Requests\<close>

record JSApiIterableRequest =
  iq_Offset :: int

record JSApiStreamCreateRequest =
  scr_Config :: StreamConfig
  scr_Pedantic :: bool

record JSApiStreamUpdateRequest =
  sur_Config :: StreamConfig
  sur_Pedantic :: bool

record JSApiStreamInfoRequest = JSApiIterableRequest +
  sir_DeletedDetails :: bool
  sir_SubjectsFilter :: string

record JSApiStreamNamesRequest = JSApiIterableRequest +
  snr_Subject :: string

record JSApiStreamListRequest = JSApiIterableRequest +
  slr_Subject :: string

record JSApiMsgDeleteRequest =
  mdr_Seq :: u64
  mdr_NoErase :: bool

record JSApiStreamPurgeRequest =
  spr_Sequence :: u64
  spr_Subject :: string
  spr_Keep :: u64

record JSApiMsgGetRequest =
  mgr_Seq :: u64
  mgr_LastFor :: string
  mgr_NextFor :: string
  mgr_Batch :: int
  mgr_MaxBytes :: int
  mgr_StartTime :: "gotime option"
  mgr_MultiLastFor :: "string list"
  mgr_UpToSeq :: u64
  mgr_UpToTime :: "gotime option"
  mgr_NoHeaders :: bool

datatype ConsumerAction = ActionCreateOrUpdate | ActionUpdate | ActionCreate

record JSApiConsumerCreateRequest =
  ccr_Stream :: string
  ccr_Config :: ConsumerConfig
  ccr_Action :: ConsumerAction
  ccr_Pedantic :: bool

text \<open>The remaining requests are one field each, the argument of their constructor.\<close>

datatype ApiRequest =
    StreamCreateRequest JSApiStreamCreateRequest
  | StreamUpdateRequest JSApiStreamUpdateRequest
  | StreamInfoRequest JSApiStreamInfoRequest
  | StreamNamesRequest JSApiStreamNamesRequest
  | StreamListRequest JSApiStreamListRequest
  | MsgDeleteRequest JSApiMsgDeleteRequest
  | MsgGetRequest JSApiMsgGetRequest
  | StreamPurgeRequest JSApiStreamPurgeRequest
  | StreamRemovePeerRequest string
  | StreamEvacuatePeerRequest string
  | StreamLeaderStepDownRequest "Placement option"
  | ConsumerCreateRequest JSApiConsumerCreateRequest
  | ConsumerNamesRequest JSApiIterableRequest
  | ConsumerListRequest JSApiIterableRequest
  | ConsumerResetRequest u64
  | ConsumerPauseRequest gotime
  | ConsumerUnpinRequest string
  | ConsumerEvacuatePeerRequest string
  | ConsumerLeaderStepDownRequest "Placement option"
  | MetaLeaderStepDownRequest "Placement option"
  | MetaServerRemoveRequest string string
  | MetaServerEvacuateRequest string string

subsection \<open>Responses\<close>

record JSApiIterableResponse =
  ir_Total :: int
  ir_Offset :: int
  ir_Limit :: int

text \<open>The responses with nothing but \<open>Success\<close>, or \<open>Initiated\<close> (of an account purge).\<close>

record JSApiSuccessResponse = JSApiResponse +
  sr_Success :: bool

record JSApiStreamCreateResponse = JSApiResponse +
  scr_StreamInfo :: "StreamInfo option"
  scr_DidCreate :: bool

text \<open>The update and the cancel-move response.\<close>

record JSApiStreamUpdateResponse = JSApiResponse +
  sur_StreamInfo :: "StreamInfo option"

record JSApiStreamInfoResponse = JSApiResponse +
  sir_Page :: JSApiIterableResponse
  sir_StreamInfo :: "StreamInfo option"

record JSApiStreamNamesResponse = JSApiResponse +
  snr_Page :: JSApiIterableResponse
  snr_Streams :: "string list"

record JSApiStreamListResponse = JSApiResponse +
  slr_Page :: JSApiIterableResponse
  slr_Streams :: "StreamInfo list"
  slr_Missing :: "string list"
  slr_Offline :: "(string, string) gomap"

record JSApiStreamPurgeResponse = JSApiSuccessResponse +
  spr_Purged :: u64

record JSApiMsgGetResponse = JSApiResponse +
  mgr_Message :: "StoredMsg option"

record JSApiConsumerInfoResponse = JSApiResponse +
  cir_ConsumerInfo :: "ConsumerInfo option"

record JSApiConsumerResetResponse = JSApiResponse +
  crr_ConsumerInfo :: "ConsumerInfo option"
  crr_ResetSeq :: u64

record JSApiConsumerNamesResponse = JSApiResponse +
  cnr_Page :: JSApiIterableResponse
  cnr_Consumers :: "string list"

record JSApiConsumerListResponse = JSApiResponse +
  clr_Page :: JSApiIterableResponse
  clr_Consumers :: "ConsumerInfo list"
  clr_Missing :: "string list"
  clr_Offline :: "(string, string) gomap"

record JSApiConsumerPauseResponse = JSApiResponse +
  cpr_Paused :: bool
  cpr_PauseUntil :: gotime
  cpr_PauseRemaining :: duration

record JSApiAccountInfoResponse = JSApiResponse +
  air_Stats :: "JetStreamAccountStats option"

text \<open>\<open>page_total\<close> is the environment variable \<open>PAGE_TOTAL\<close>.\<close>

definition LastPage :: "string \<Rightarrow> JSApiIterableResponse \<Rightarrow> bool" where
  "LastPage page_total i =
     (let t = (if page_total \<noteq> [] then (case atoi page_total of Some n \<Rightarrow> n | None \<Rightarrow> ir_Total i) else ir_Total i)
      in ir_Offset i + ir_Limit i \<ge> t)"

subsection \<open>Subjects\<close>

definition JSApiStreamCreateT :: "string \<Rightarrow> string" where "JSApiStreamCreateT s = ''$JS.API.STREAM.CREATE.'' @ s"
definition JSApiStreamUpdateT :: "string \<Rightarrow> string" where "JSApiStreamUpdateT s = ''$JS.API.STREAM.UPDATE.'' @ s"
definition JSApiStreamInfoT :: "string \<Rightarrow> string" where "JSApiStreamInfoT s = ''$JS.API.STREAM.INFO.'' @ s"
definition JSApiStreamDeleteT :: "string \<Rightarrow> string" where "JSApiStreamDeleteT s = ''$JS.API.STREAM.DELETE.'' @ s"
definition JSApiStreamPurgeT :: "string \<Rightarrow> string" where "JSApiStreamPurgeT s = ''$JS.API.STREAM.PURGE.'' @ s"
definition JSApiMsgDeleteT :: "string \<Rightarrow> string" where "JSApiMsgDeleteT s = ''$JS.API.STREAM.MSG.DELETE.'' @ s"
definition JSApiMsgGetT :: "string \<Rightarrow> string" where "JSApiMsgGetT s = ''$JS.API.STREAM.MSG.GET.'' @ s"
definition JSApiStreamRemovePeerT :: "string \<Rightarrow> string" where "JSApiStreamRemovePeerT s = ''$JS.API.STREAM.PEER.REMOVE.'' @ s"
definition JSApiStreamEvacuatePeerT :: "string \<Rightarrow> string" where "JSApiStreamEvacuatePeerT s = ''$JS.API.STREAM.PEER.EVACUATE.'' @ s"
definition JSApiStreamLeaderStepDownT :: "string \<Rightarrow> string" where "JSApiStreamLeaderStepDownT s = ''$JS.API.STREAM.LEADER.STEPDOWN.'' @ s"
definition JSApiStreamCancelMoveT :: "string \<Rightarrow> string" where "JSApiStreamCancelMoveT s = ''$JS.API.STREAM.CANCEL_MOVE.'' @ s"
definition JSDirectMsgGetT :: "string \<Rightarrow> string" where "JSDirectMsgGetT s = ''$JS.API.DIRECT.GET.'' @ s"
definition JSApiStreamNames :: string where "JSApiStreamNames = ''$JS.API.STREAM.NAMES''"
definition JSApiStreamList :: string where "JSApiStreamList = ''$JS.API.STREAM.LIST''"
definition JSApiConsumerCreateWithNameT :: "string \<Rightarrow> string \<Rightarrow> string" where
  "JSApiConsumerCreateWithNameT s c = ''$JS.API.CONSUMER.CREATE.'' @ s @ ''.'' @ c"
definition JSApiConsumerCreateExT :: "string \<Rightarrow> string \<Rightarrow> string \<Rightarrow> string" where
  "JSApiConsumerCreateExT s c f = ''$JS.API.CONSUMER.CREATE.'' @ s @ ''.'' @ c @ ''.'' @ f"
definition JSApiConsumerInfoT :: "string \<Rightarrow> string \<Rightarrow> string" where
  "JSApiConsumerInfoT s c = ''$JS.API.CONSUMER.INFO.'' @ s @ ''.'' @ c"
definition JSApiConsumerDeleteT :: "string \<Rightarrow> string \<Rightarrow> string" where
  "JSApiConsumerDeleteT s c = ''$JS.API.CONSUMER.DELETE.'' @ s @ ''.'' @ c"
definition JSApiConsumerLeaderStepDownT :: "string \<Rightarrow> string \<Rightarrow> string" where
  "JSApiConsumerLeaderStepDownT s c = ''$JS.API.CONSUMER.LEADER.STEPDOWN.'' @ s @ ''.'' @ c"
definition JSApiConsumerPauseT :: "string \<Rightarrow> string \<Rightarrow> string" where
  "JSApiConsumerPauseT s c = ''$JS.API.CONSUMER.PAUSE.'' @ s @ ''.'' @ c"
definition JSApiConsumerResetT :: "string \<Rightarrow> string \<Rightarrow> string" where
  "JSApiConsumerResetT s c = ''$JS.API.CONSUMER.RESET.'' @ s @ ''.'' @ c"
definition JSApiConsumerUnpinT :: "string \<Rightarrow> string \<Rightarrow> string" where
  "JSApiConsumerUnpinT s c = ''$JS.API.CONSUMER.UNPIN.'' @ s @ ''.'' @ c"
definition JSApiConsumerEvacuatePeerT :: "string \<Rightarrow> string \<Rightarrow> string" where
  "JSApiConsumerEvacuatePeerT s c = ''$JS.API.CONSUMER.PEER.EVACUATE.'' @ s @ ''.'' @ c"
definition JSApiRequestNextT :: "string \<Rightarrow> string \<Rightarrow> string" where
  "JSApiRequestNextT s c = ''$JS.API.CONSUMER.MSG.NEXT.'' @ s @ ''.'' @ c"
definition JSApiConsumerNamesT :: "string \<Rightarrow> string" where "JSApiConsumerNamesT s = ''$JS.API.CONSUMER.NAMES.'' @ s"
definition JSApiConsumerListT :: "string \<Rightarrow> string" where "JSApiConsumerListT s = ''$JS.API.CONSUMER.LIST.'' @ s"
definition JSApiLeaderStepDown :: string where "JSApiLeaderStepDown = ''$JS.API.META.LEADER.STEPDOWN''"
definition JSApiRemoveServer :: string where "JSApiRemoveServer = ''$JS.API.SERVER.REMOVE''"
definition JSApiEvacuateServer :: string where "JSApiEvacuateServer = ''$JS.API.SERVER.EVACUATE''"
definition JSApiPurgeAccountT :: "string \<Rightarrow> string" where "JSApiPurgeAccountT a = ''$JS.API.ACCOUNT.PURGE.'' @ a"
definition JSApiAccountInfo :: string where "JSApiAccountInfo = ''$JS.API.INFO''"

end
