(* ===== verification/Api_Level.thy ===== *)
theory Api_Level
  imports Api_Messages
begin

text \<open>
  \<open>RequiredApiLevel\<close> of \<open>src/api/jetstream.go\<close> and \<open>src/api/consumers.go\<close>. The code walks a
  request by reflection; \<open>gv\<close> is what reflection shows of a Go value: whether it is zero, the
  fields of a struct with their \<open>api_level\<close> tags, the elements of a slice of structs. A
  \<open>time.Time\<close> has no exported field and counts as a scalar. The only type that implements
  \<open>ApiLevelAware\<close> is \<open>ConsumerConfig\<close>: the first argument of its \<open>GStruct\<close> is the level its
  method starts from. All tags of the source are numbers, so there is no error branch.
\<close>

datatype gv =
    GZero
  | GScalar
  | GPtr gv
  | GStruct "nat option" "(nat option \<times> gv) list"
  | GSlice "gv list"

text \<open>\<open>reflect.Value.IsZero\<close>: a non-nil pointer or slice is not zero.\<close>

fun IsZero :: "gv \<Rightarrow> bool" where
  "IsZero GZero = True"
| "IsZero (GStruct aw fs) = list_all (\<lambda>(t, v). IsZero v) fs"
| "IsZero _ = False"

definition tag_level :: "nat option \<Rightarrow> nat" where
  "tag_level t = (case t of Some n \<Rightarrow> n | None \<Rightarrow> 0)"

text \<open>
  \<open>requiredApiLevel\<close>, its loop over the fields, the struct a field leads to and the loop over a
  slice.
\<close>

fun requiredApiLevel :: "bool \<Rightarrow> gv \<Rightarrow> nat"
and fields_level :: "bool \<Rightarrow> (nat option \<times> gv) list \<Rightarrow> nat"
and nested_level :: "bool \<Rightarrow> gv \<Rightarrow> nat"
and elems_level :: "bool \<Rightarrow> gv list \<Rightarrow> nat" where
  "requiredApiLevel skip (GPtr v) = (case v of GStruct aw fs \<Rightarrow>
      (case aw of Some m \<Rightarrow> if \<not> skip then max m (fields_level True fs) else fields_level skip fs
       | None \<Rightarrow> fields_level skip fs) | _ \<Rightarrow> 0)"
| "requiredApiLevel skip (GStruct aw fs) =
     (case aw of Some m \<Rightarrow> if \<not> skip then max m (fields_level True fs) else fields_level skip fs
      | None \<Rightarrow> fields_level skip fs)"
| "requiredApiLevel skip _ = 0"
| "fields_level skip [] = 0"
| "fields_level skip ((t, v) # fs) =
     max (if IsZero v then 0 else max (nested_level skip v) (tag_level t)) (fields_level skip fs)"
| "nested_level skip (GSlice vs) = elems_level skip vs"
| "nested_level skip v = requiredApiLevel skip v"
| "elems_level skip [] = 0"
| "elems_level skip (v # vs) = max (requiredApiLevel skip v) (elems_level skip vs)"

definition RequiredApiLevel :: "gv \<Rightarrow> nat" where
  "RequiredApiLevel v = requiredApiLevel False v"

subsection \<open>What reflection shows of the configuration and request types\<close>

definition scalar :: "bool \<Rightarrow> nat option \<times> gv" where
  "scalar unset = (None, if unset then GZero else GScalar)"

definition marked :: "nat \<Rightarrow> bool \<Rightarrow> nat option \<times> gv" where
  "marked l unset = (Some l, if unset then GZero else GScalar)"

definition pointer :: "('a \<Rightarrow> gv) \<Rightarrow> 'a option \<Rightarrow> gv" where
  "pointer f p = (case p of None \<Rightarrow> GZero | Some a \<Rightarrow> GPtr (f a))"

definition structs :: "('a \<Rightarrow> gv) \<Rightarrow> 'a list \<Rightarrow> gv" where
  "structs f xs = (if xs = [] then GZero else GSlice (map f xs))"

definition gv_Placement :: "Placement \<Rightarrow> gv" where
  "gv_Placement p = GStruct None [scalar (pl_Cluster p = []), scalar (pl_Tags p = []), scalar (pl_Preferred p = [])]"

definition gv_ExternalStream :: "ExternalStream \<Rightarrow> gv" where
  "gv_ExternalStream e = GStruct None [scalar (ex_ApiPrefix e = []), scalar (ex_DeliverPrefix e = [])]"

definition gv_SubjectTransform :: "SubjectTransformConfig \<Rightarrow> gv" where
  "gv_SubjectTransform t = GStruct None [scalar (st_Source t = []), scalar (st_Destination t = [])]"

definition gv_StreamConsumerSource :: "StreamConsumerSource \<Rightarrow> gv" where
  "gv_StreamConsumerSource c = GStruct None [scalar (scc_Name c = []), scalar (scc_DeliverSubject c = [])]"

definition gv_StreamSource :: "StreamSource \<Rightarrow> gv" where
  "gv_StreamSource s = GStruct None
     [scalar (ss_Name s = []), scalar (ss_OptStartSeq s = 0), scalar (ss_OptStartTime s = None),
      scalar (ss_FilterSubject s = []), (None, pointer gv_ExternalStream (ss_External s)),
      (None, structs gv_SubjectTransform (ss_SubjectTransforms s)),
      (Some 4, pointer gv_StreamConsumerSource (ss_Consumer s))]"

definition gv_RePublish :: "RePublish \<Rightarrow> gv" where
  "gv_RePublish r = GStruct None [scalar (rp_Source r = []), scalar (rp_Destination r = []), scalar (\<not> rp_HeadersOnly r)]"

definition gv_StreamConsumerLimits :: "StreamConsumerLimits \<Rightarrow> gv" where
  "gv_StreamConsumerLimits l = GStruct None [scalar (cl_InactiveThreshold l = 0), scalar (cl_MaxAckPending l = 0)]"

definition gv_StreamConfig :: "StreamConfig \<Rightarrow> gv" where
  "gv_StreamConfig c = GStruct None
     [scalar (sc_Name c = []), scalar (sc_Description c = []), scalar (sc_Subjects c = []),
      scalar (sc_Retention c = LimitsPolicy), scalar (sc_MaxConsumers c = 0), scalar (sc_MaxMsgsPer c = 0),
      scalar (sc_MaxMsgs c = 0), scalar (sc_MaxBytes c = 0), scalar (sc_MaxAge c = 0), scalar (sc_MaxMsgSize c = 0),
      scalar (sc_Storage c = FileStorage), scalar (sc_Discard c = DiscardOld), scalar (sc_Replicas c = 0),
      scalar (\<not> sc_NoAck c), scalar (sc_Duplicates c = 0), (None, pointer gv_Placement (sc_Placement c)),
      (None, pointer gv_StreamSource (sc_Mirror c)), (None, structs (pointer gv_StreamSource) (sc_Sources c)),
      scalar (sc_Compression c = NoCompression), (None, pointer gv_SubjectTransform (sc_SubjectTransform c)),
      (None, pointer gv_RePublish (sc_RePublish c)), scalar (\<not> sc_Sealed c), scalar (\<not> sc_DenyDelete c),
      scalar (\<not> sc_DenyPurge c), scalar (\<not> sc_RollupAllowed c), scalar (\<not> sc_AllowDirect c),
      scalar (\<not> sc_MirrorDirect c), scalar (\<not> sc_DiscardNewPer c), scalar (sc_FirstSeq c = 0),
      scalar (sc_Metadata c = []), marked 1 (\<not> sc_AllowMsgTTL c), marked 1 (sc_SubjectDeleteMarkerTTL c = 0),
      (None, gv_StreamConsumerLimits (sc_ConsumerLimits c)), marked 2 (\<not> sc_AllowAtomicPublish c),
      marked 2 (\<not> sc_AllowMsgCounter c), marked 2 (\<not> sc_AllowMsgSchedules c),
      marked 2 (sc_PersistMode c = DefaultPersistMode), marked 3 (\<not> sc_AllowBatchPublish c)]"

text \<open>The method of \<open>ConsumerConfig\<close> asks for level 2 when the policy is \<open>PriorityPrioritized\<close>.\<close>

definition gv_ConsumerConfig :: "ConsumerConfig \<Rightarrow> gv" where
  "gv_ConsumerConfig c = GStruct (Some (if cc_PriorityPolicy c = PriorityPrioritized then 2 else 0))
     [scalar (cc_Description c = []), scalar (cc_AckPolicy c = AckNone), scalar (cc_AckWait c = 0),
      scalar (cc_DeliverPolicy c = DeliverAll), scalar (cc_DeliverSubject c = []), scalar (cc_DeliverGroup c = []),
      scalar (cc_Durable c = []), scalar (cc_Name c = []), scalar (cc_FilterSubject c = []),
      scalar (cc_FilterSubjects c = []), scalar (\<not> cc_FlowControl c), scalar (cc_Heartbeat c = 0),
      scalar (cc_MaxAckPending c = 0), scalar (cc_MaxDeliver c = 0), scalar (cc_BackOff c = []),
      scalar (cc_MaxWaiting c = 0), scalar (cc_OptStartSeq c = 0), scalar (cc_OptStartTime c = None),
      scalar (cc_RateLimit c = 0), scalar (cc_ReplayPolicy c = ReplayInstant), scalar (cc_SampleFrequency c = []),
      scalar (\<not> cc_HeadersOnly c), scalar (cc_MaxRequestBatch c = 0), scalar (cc_MaxRequestExpires c = 0),
      scalar (cc_MaxRequestMaxBytes c = 0), scalar (cc_InactiveThreshold c = 0), scalar (cc_Replicas c = 0),
      scalar (\<not> cc_MemoryStorage c), scalar (cc_Metadata c = []), marked 1 (IsZeroTime (cc_PauseUntil c)),
      marked 1 (cc_PriorityGroups c = None), scalar (cc_PriorityPolicy c = PriorityNone), scalar (cc_PinnedTTL c = 0),
      scalar (\<not> cc_Direct c), scalar (\<not> cc_Sourcing c)]"

text \<open>Of the other requests only a consumer pause carries a tag.\<close>

definition gv_request :: "ApiRequest \<Rightarrow> gv" where
  "gv_request q =
     (case q of
        StreamCreateRequest r \<Rightarrow> GStruct None [(None, gv_StreamConfig (scr_Config r)), scalar (\<not> scr_Pedantic r)]
      | StreamUpdateRequest r \<Rightarrow> GStruct None [(None, gv_StreamConfig (sur_Config r)), scalar (\<not> sur_Pedantic r)]
      | ConsumerCreateRequest r \<Rightarrow>
          GStruct None [scalar (ccr_Stream r = []), (None, gv_ConsumerConfig (ccr_Config r)),
            scalar (ccr_Action r = ActionCreateOrUpdate), scalar (\<not> ccr_Pedantic r)]
      | ConsumerPauseRequest t \<Rightarrow> GStruct None [marked 1 (IsZeroTime t)]
      | StreamLeaderStepDownRequest p \<Rightarrow> GStruct None [(None, pointer gv_Placement p)]
      | ConsumerLeaderStepDownRequest p \<Rightarrow> GStruct None [(None, pointer gv_Placement p)]
      | MetaLeaderStepDownRequest p \<Rightarrow> GStruct None [(None, pointer gv_Placement p)]
      | _ \<Rightarrow> GStruct None [scalar False])"

subsection \<open>The level of a request\<close>

text \<open>The specification: the features of a configuration and the level each came with.\<close>

definition level_of :: "(bool \<times> nat) list \<Rightarrow> nat" where
  "level_of fs = foldr (\<lambda>(b, l). max (if b then l else 0)) fs 0"

definition uses_consumer_source :: "StreamConfig \<Rightarrow> bool" where
  "uses_consumer_source c =
     ((\<exists>s \<in> set_option (sc_Mirror c). ss_Consumer s \<noteq> None) \<or> (\<exists>s. Some s \<in> set (sc_Sources c) \<and> ss_Consumer s \<noteq> None))"

definition stream_level :: "StreamConfig \<Rightarrow> nat" where
  "stream_level c = level_of
     [(sc_AllowMsgTTL c, 1), (sc_SubjectDeleteMarkerTTL c \<noteq> 0, 1), (sc_AllowAtomicPublish c, 2), (sc_AllowMsgCounter c, 2),
      (sc_AllowMsgSchedules c, 2), (sc_PersistMode c \<noteq> DefaultPersistMode, 2), (sc_AllowBatchPublish c, 3),
      (uses_consumer_source c, 4)]"

definition consumer_level :: "ConsumerConfig \<Rightarrow> nat" where
  "consumer_level c = level_of
     [(\<not> IsZeroTime (cc_PauseUntil c), 1), (cc_PriorityGroups c \<noteq> None, 1), (cc_PriorityPolicy c = PriorityPrioritized, 2)]"

lemma scalar_level [simp]: "fields_level k (scalar b # fs) = fields_level k fs"
  by (simp add: scalar_def tag_level_def)

lemma marked_level [simp]: "fields_level k (marked l b # fs) = max (if b then 0 else l) (fields_level k fs)"
  by (simp add: marked_def tag_level_def)

lemma no_tag_fields: "\<forall>(t, v) \<in> set fs. t = None \<and> nested_level k v = 0 \<Longrightarrow> fields_level k fs = 0"
  by (induction fs) (auto simp: tag_level_def)

lemma plain_struct [simp]:
  "requiredApiLevel k (gv_Placement p) = 0" "requiredApiLevel k (gv_ExternalStream e) = 0"
  "requiredApiLevel k (gv_SubjectTransform t) = 0" "requiredApiLevel k (gv_StreamConsumerSource c) = 0"
  "requiredApiLevel k (gv_RePublish r) = 0" "requiredApiLevel k (gv_StreamConsumerLimits l) = 0"
  by (simp_all add: gv_Placement_def gv_ExternalStream_def gv_SubjectTransform_def gv_StreamConsumerSource_def
      gv_RePublish_def gv_StreamConsumerLimits_def)

lemma zero_fields: "list_all (\<lambda>(t, v). IsZero v) fs \<Longrightarrow> fields_level k fs = 0"
  by (induction fs) auto

lemma struct_field:
  "fields_level k ((None, GStruct None gs) # fs) = max (fields_level k gs) (fields_level k fs)"
  by (simp add: tag_level_def zero_fields)

lemma pointer_field:
  "fields_level k ((t, pointer f p) # fs) =
     max (case p of None \<Rightarrow> 0 | Some a \<Rightarrow> max (requiredApiLevel k (GPtr (f a))) (tag_level t)) (fields_level k fs)"
  by (simp add: pointer_def split: option.splits)

lemma structs_field:
  "fields_level k ((None, structs f xs) # fs) = max (elems_level k (map f xs)) (fields_level k fs)"
  by (simp add: structs_def tag_level_def)

lemma elems_zero: "(\<And>x. x \<in> set xs \<Longrightarrow> requiredApiLevel k (f x) = 0) \<Longrightarrow> elems_level k (map f xs) = 0"
  by (induction xs) auto

lemma source_level: "requiredApiLevel k (GPtr (gv_StreamSource s)) = (if ss_Consumer s \<noteq> None then 4 else 0)"
proof -
  have "elems_level k (map gv_SubjectTransform ts) = 0" for ts by (rule elems_zero) simp
  then show ?thesis
    by (simp add: gv_StreamSource_def pointer_field structs_field del: fields_level.simps(2))
       (auto simp: tag_level_def gv_ExternalStream_def gv_StreamConsumerSource_def split: option.splits)
qed

lemma sources_level:
  "elems_level k (map (pointer gv_StreamSource) ss) = (if \<exists>s. Some s \<in> set ss \<and> ss_Consumer s \<noteq> None then 4 else 0)"
proof (induction ss)
  case (Cons s ss)
  show ?case
  proof (cases s)
    case None
    have "requiredApiLevel k (pointer gv_StreamSource s) = 0" by (simp add: None pointer_def)
    then show ?thesis using None by (auto simp: Cons.IH)
  next
    case (Some a)
    have "requiredApiLevel k (pointer gv_StreamSource s) = (if ss_Consumer a \<noteq> None then 4 else 0)"
      unfolding Some pointer_def option.case by (rule source_level)
    then show ?thesis using Some by (auto simp: Cons.IH)
  qed
qed simp

lemma mirror_field:
  "fields_level k ((None, pointer gv_StreamSource m) # fs) =
     max (if \<exists>s \<in> set_option m. ss_Consumer s \<noteq> None then 4 else 0) (fields_level k fs)"
  unfolding pointer_field source_level by (simp add: tag_level_def split: option.split)

lemma sources_field:
  "fields_level k ((None, structs (pointer gv_StreamSource) ss) # fs) =
     max (if \<exists>s. Some s \<in> set ss \<and> ss_Consumer s \<noteq> None then 4 else 0) (fields_level k fs)"
  unfolding structs_field sources_level by (rule refl)

lemma plain_field:
  "fields_level k ((None, pointer gv_Placement q) # fs) = fields_level k fs"
  "fields_level k ((None, pointer gv_SubjectTransform t) # fs) = fields_level k fs"
  "fields_level k ((None, pointer gv_RePublish r) # fs) = fields_level k fs"
  "fields_level k ((None, gv_StreamConsumerLimits m) # fs) = fields_level k fs"
  unfolding pointer_field
  by (simp_all add: gv_Placement_def gv_SubjectTransform_def gv_RePublish_def gv_StreamConsumerLimits_def tag_level_def
      struct_field del: fields_level.simps(2) split: option.split)

lemma max_if_not: "(if \<not> b then 0 else l) = (if b then l else (0 :: nat))" "(if x = y then 0 else l) = (if x \<noteq> y then l else (0 :: nat))"
  by simp_all

lemma max_if_disj: "max (if a then n else 0) (if b then n else 0) = (if a \<or> b then n else (0 :: nat))"
  by simp

lemma stream_config_level: "fields_level k ((None, gv_StreamConfig c) # fs) = max (stream_level c) (fields_level k fs)"
proof -
  let ?m = "\<exists>s \<in> set_option (sc_Mirror c). ss_Consumer s \<noteq> None"
  let ?s = "\<exists>s. Some s \<in> set (sc_Sources c) \<and> ss_Consumer s \<noteq> None"
  have "stream_level c = level_of
      [(?m, 4), (?s, 4), (sc_AllowMsgTTL c, 1), (sc_SubjectDeleteMarkerTTL c \<noteq> 0, 1), (sc_AllowAtomicPublish c, 2),
       (sc_AllowMsgCounter c, 2), (sc_AllowMsgSchedules c, 2), (sc_PersistMode c \<noteq> DefaultPersistMode, 2), (sc_AllowBatchPublish c, 3)]"
    unfolding stream_level_def uses_consumer_source_def level_of_def
    by (simp only: foldr.simps o_def id_def prod.case max_if_disj [of ?m 4 ?s, symmetric]) (simp only: ac_simps)
  then show ?thesis
    unfolding gv_StreamConfig_def struct_field level_of_def
    by (simp only: scalar_level marked_level mirror_field sources_field plain_field fields_level.simps(1) foldr.simps o_def id_def
        prod.case max_if_not)
qed

lemma consumer_config_level:
  "fields_level False ((None, gv_ConsumerConfig c) # fs) = max (consumer_level c) (fields_level False fs)"
proof -
  have "IsZero (gv_ConsumerConfig c) \<Longrightarrow> consumer_level c = 0"
    by (simp add: gv_ConsumerConfig_def scalar_def marked_def consumer_level_def level_of_def split: if_splits)
  moreover have "nested_level False (gv_ConsumerConfig c) = consumer_level c"
    by (simp add: gv_ConsumerConfig_def consumer_level_def level_of_def max.left_commute)
  ultimately show ?thesis by (simp add: tag_level_def)
qed

text \<open>
  C21. The API level a create, update or pause request announces is the highest level of a
  feature it uses, whatever the order and nesting of the fields, and 0 when it uses none.
\<close>

theorem required_level_exact:
  "RequiredApiLevel (gv_request (StreamCreateRequest r)) = stream_level (scr_Config r) \<and>
   RequiredApiLevel (gv_request (StreamUpdateRequest u)) = stream_level (sur_Config u) \<and>
   RequiredApiLevel (gv_request (ConsumerCreateRequest q)) = consumer_level (ccr_Config q) \<and>
   RequiredApiLevel (gv_request (ConsumerPauseRequest t)) = (if IsZeroTime t then 0 else 1)"
  by (simp add: RequiredApiLevel_def gv_request_def stream_config_level consumer_config_level del: fields_level.simps(2))

end
