(* ===== verification/Client.thy ===== *)
theory Client
  imports Api_Level "HOL-Library.AList" "HOL-Library.List_Lexorder" "HOL-Library.Char_ord"
begin

text \<open>
  The manager of \<open>src/manager.go\<close> and its options (\<open>src/options.go\<close>): requests to the JetStream
  API, paging over its lists, and the operations on streams, consumers and the meta group by
  name. \<open>nats.go\<close>, \<open>encoding/json\<close>, the response validator and \<open>server.IsValidLiteralSubject\<close>
  are the fields of \<open>nats_client\<close>; a request may change the world \<open>'w\<close>, which is threaded
  through every call, also when it fails. A dereference of a nil pointer is the error \<open>Panic\<close>.
  Trace logging and the mutex are left out.
\<close>

datatype client_error =
    Resp resp_error
  | NatsErr string
  | NoResponders
  | JetStreamNotEnabled
  | Usage string
  | Panic

type_synonym ('w, 'a) api = "'w \<Rightarrow> (client_error + 'a) \<times> 'w"

definition api_ret :: "'a \<Rightarrow> ('w, 'a) api" where
  "api_ret a = (\<lambda>w. (Inr a, w))"

definition api_fail :: "client_error \<Rightarrow> ('w, 'a) api" where
  "api_fail e = (\<lambda>w. (Inl e, w))"

definition api_bind :: "('w, 'a) api \<Rightarrow> ('a \<Rightarrow> ('w, 'b) api) \<Rightarrow> ('w, 'b) api" where
  "api_bind p f = (\<lambda>w. case p w of (Inl e, w1) \<Rightarrow> (Inl e, w1) | (Inr a, w1) \<Rightarrow> f a w1)"

definition api_lift :: "client_error + 'a \<Rightarrow> ('w, 'a) api" where
  "api_lift r = (\<lambda>w. (r, w))"

definition api_guard :: "bool \<Rightarrow> string \<Rightarrow> ('w, 'a) api \<Rightarrow> ('w, 'a) api" where
  "api_guard ok msg p = (if ok then p else api_fail (Usage msg))"

text \<open>
  A response type: \<open>json.Unmarshal\<close> into it and what the validator has against a value of it.
\<close>

record 'r response_type =
  rt_decode :: "bytes \<Rightarrow> string + 'r"
  rt_invalid :: "'r \<Rightarrow> string list"

record 'w nats_client =
  nc_request :: "duration \<Rightarrow> string \<Rightarrow> bytes \<Rightarrow> (string \<times> string list) list \<Rightarrow> ('w, bytes) api"
  nc_marshal :: "ApiRequest \<Rightarrow> bytes"
  nc_error :: "bytes \<Rightarrow> string + JSApiResponse"
  nc_literal :: "string \<Rightarrow> bool"
  nc_pageTotal :: string
  nc_invalidConfig :: "StreamConfig \<Rightarrow> string list"
  ty_success :: "JSApiSuccessResponse response_type"
  ty_streamCreate :: "JSApiStreamCreateResponse response_type"
  ty_streamUpdate :: "JSApiStreamUpdateResponse response_type"
  ty_streamInfo :: "JSApiStreamInfoResponse response_type"
  ty_streamNames :: "JSApiStreamNamesResponse response_type"
  ty_streamList :: "JSApiStreamListResponse response_type"
  ty_purge :: "JSApiStreamPurgeResponse response_type"
  ty_msgGet :: "JSApiMsgGetResponse response_type"
  ty_consumerInfo :: "JSApiConsumerInfoResponse response_type"
  ty_consumerReset :: "JSApiConsumerResetResponse response_type"
  ty_consumerNames :: "JSApiConsumerNamesResponse response_type"
  ty_consumerList :: "JSApiConsumerListResponse response_type"
  ty_consumerPause :: "bytes \<Rightarrow> string + JSApiConsumerPauseResponse option"
  ty_consumerUnpin :: "bytes \<Rightarrow> string + JSApiResponse option"
  ty_account :: "JSApiAccountInfoResponse response_type"

subsection \<open>The manager\<close>

record Manager =
  mg_timeout :: duration
  mg_validator :: bool
  mg_apiPrefix :: string
  mg_eventPrefix :: string
  mg_domain :: string
  mg_pedantic :: bool
  mg_apiLevel :: "int option"

definition WithAPIValidation :: "bool \<Rightarrow> Manager \<Rightarrow> Manager" where "WithAPIValidation v m = m\<lparr> mg_validator := v \<rparr>"
definition WithTimeout :: "duration \<Rightarrow> Manager \<Rightarrow> Manager" where "WithTimeout t m = m\<lparr> mg_timeout := t \<rparr>"
definition WithAPIPrefix :: "string \<Rightarrow> Manager \<Rightarrow> Manager" where "WithAPIPrefix s m = m\<lparr> mg_apiPrefix := s \<rparr>"
definition WithEventPrefix :: "string \<Rightarrow> Manager \<Rightarrow> Manager" where "WithEventPrefix s m = m\<lparr> mg_eventPrefix := s \<rparr>"
definition WithDomain :: "string \<Rightarrow> Manager \<Rightarrow> Manager" where "WithDomain d m = m\<lparr> mg_domain := d \<rparr>"
definition WithPedanticRequests :: "Manager \<Rightarrow> Manager" where "WithPedanticRequests m = m\<lparr> mg_pedantic := True \<rparr>"

text \<open>\<open>conn\<close> says whether a connection was given; the order of the checks is the source's.\<close>

definition New :: "'w nats_client \<Rightarrow> bool \<Rightarrow> (Manager \<Rightarrow> Manager) list \<Rightarrow> client_error + Manager" where
  "New x conn opts =
     (let m = foldl (\<lambda>m f. f m) \<lparr> mg_timeout = 5000000000, mg_validator = False, mg_apiPrefix = [], mg_eventPrefix = [],
                mg_domain = [], mg_pedantic = False, mg_apiLevel = None \<rparr> opts
      in if mg_domain m \<noteq> [] \<and> \<not> IsValidName (mg_domain m) then Inl (Usage ''domain is not a valid JetStream name'')
         else if mg_apiPrefix m \<noteq> [] \<and> \<not> isValidSubjectPrefix (mg_apiPrefix m) then Inl (Usage ''api prefix contains invalid subject characters'')
         else if mg_eventPrefix m \<noteq> [] \<and> \<not> isValidSubjectPrefix (mg_eventPrefix m) then Inl (Usage ''event prefix contains invalid subject characters'')
         else if \<not> conn then Inl (Usage ''nats connection not supplied'')
         else if mg_domain m \<noteq> [] \<and> \<not> nc_literal x (mg_domain m) then Inl (Usage ''invalid domain'')
         else if mg_apiPrefix m \<noteq> [] \<and> \<not> nc_literal x (mg_apiPrefix m) then Inl (Usage ''invalid API prefix'')
         else if mg_eventPrefix m \<noteq> [] \<and> \<not> nc_literal x (mg_eventPrefix m) then Inl (Usage ''invalid event prefix'')
         else if mg_apiPrefix m \<noteq> [] \<and> mg_domain m \<noteq> [] then Inl (Usage ''WithAPIPrefix and WithDomain are mutually exclusive'')
         else if mg_timeout m < 500 * Millisecond then Inr (m\<lparr> mg_timeout := 500 * Millisecond \<rparr>)
         else Inr m)"

subsection \<open>Requests\<close>

definition apiSubject :: "Manager \<Rightarrow> string \<Rightarrow> string" where
  "apiSubject m subject = APISubject subject (mg_apiPrefix m) (mg_domain m)"

definition requestWithTimeout ::
  "'w nats_client \<Rightarrow> Manager \<Rightarrow> string \<Rightarrow> bytes \<Rightarrow> (string \<times> string list) list \<Rightarrow> duration \<Rightarrow> ('w, bytes) api" where
  "requestWithTimeout x m subj data hdr timeout =
     api_bind (nc_request x (if timeout = 0 then mg_timeout m else timeout) subj data hdr) (\<lambda>res.
       case ParseErrorResponse (nc_error x) (Some res) of Some e \<Rightarrow> api_fail (Resp e) | None \<Rightarrow> api_ret res)"

definition manager_request :: "'w nats_client \<Rightarrow> Manager \<Rightarrow> string \<Rightarrow> bytes \<Rightarrow> (string \<times> string list) list \<Rightarrow> ('w, bytes) api" where
  "manager_request x m subj data hdr = requestWithTimeout x m subj data hdr (mg_timeout m)"

text \<open>
  \<open>None\<close> stands for no request and for a nil pointer to one: both send no data.
\<close>

definition level_header :: "ApiRequest option \<Rightarrow> (string \<times> string list) list" where
  "level_header req =
     (let lvl = (case req of None \<Rightarrow> 0 | Some q \<Rightarrow> RequiredApiLevel (gv_request q))
      in if lvl > 0 then [(''Nats-Required-Api-Level'', [itoa lvl])] else [])"

text \<open>
  \<open>jsonRequest\<close>. Its checks of the response need a response that has \<open>ToError\<close>; a pointer to a
  pointer, as pause and unpin pass, has not, and then \<open>rawRequest\<close> is all that runs.
\<close>

definition rawRequest :: "'w nats_client \<Rightarrow> Manager \<Rightarrow> (bytes \<Rightarrow> string + 'r) \<Rightarrow> string \<Rightarrow> ApiRequest option \<Rightarrow> ('w, 'r) api" where
  "rawRequest x m decode subj req =
     (let body = (case req of None \<Rightarrow> [] | Some q \<Rightarrow> nc_marshal x q)
      in api_bind (manager_request x m (apiSubject m subj) body (level_header req)) (\<lambda>data.
           case decode data of Inl e \<Rightarrow> api_fail (Resp (JsonError e)) | Inr r \<Rightarrow> api_ret r))"

definition jsonRequest ::
  "'w nats_client \<Rightarrow> Manager \<Rightarrow> 'r JSApiResponse_scheme response_type \<Rightarrow> string \<Rightarrow> ApiRequest option \<Rightarrow> ('w, 'r JSApiResponse_scheme) api"
where
  "jsonRequest x m ty subj req =
     api_bind (rawRequest x m (rt_decode ty) subj req) (\<lambda>r.
       case ToError r of
         Some e \<Rightarrow> api_fail (Resp (ApiErr e))
       | None \<Rightarrow> api_guard (\<not> mg_validator m \<or> rt_invalid ty r = []) ''server response is not a valid message'' (api_ret r))"

definition IsNatsError :: "client_error \<Rightarrow> nat \<Rightarrow> bool" where
  "IsNatsError err code = (case err of Resp (ApiErr e) \<Rightarrow> ae_ErrCode e = code | _ \<Rightarrow> False)"

text \<open>
  The loop of \<open>iterableRequest\<close>. It trusts the server to reach the last page, so it is partial:
  \<open>None\<close> is a server that never does. The result keeps what the callback had gathered.
\<close>

partial_function (option) iterable_loop ::
  "(int \<Rightarrow> ('w, 'r) api) \<Rightarrow> ('r \<Rightarrow> JSApiIterableResponse) \<Rightarrow> string \<Rightarrow> ('r \<Rightarrow> 's \<Rightarrow> client_error + 's) \<Rightarrow> int \<Rightarrow> 's \<Rightarrow> 'w \<Rightarrow>
     ((client_error option \<times> 's) \<times> 'w) option"
where
  "iterable_loop send page pt cb offset s w =
     (case send offset w of
        (Inl e, w1) \<Rightarrow> Some ((Some e, s), w1)
      | (Inr r, w1) \<Rightarrow>
          (case cb r s of
             Inl e \<Rightarrow> Some ((Some e, s), w1)
           | Inr s1 \<Rightarrow>
               if LastPage pt (page r) then Some ((None, s1), w1)
               else if ir_Limit (page r) = 0 then
                 Some ((Some (Usage ''server indicated more pages but returned zero item limit''), s1), w1)
               else iterable_loop send page pt cb (offset + ir_Limit (page r)) s1 w1))"

definition iterableRequest ::
  "'w nats_client \<Rightarrow> Manager \<Rightarrow> 'r JSApiResponse_scheme response_type \<Rightarrow> ('r JSApiResponse_scheme \<Rightarrow> JSApiIterableResponse) \<Rightarrow>
     string \<Rightarrow> (int \<Rightarrow> ApiRequest) \<Rightarrow> ('r JSApiResponse_scheme \<Rightarrow> 's \<Rightarrow> client_error + 's) \<Rightarrow> 's \<Rightarrow> 'w \<Rightarrow>
     ((client_error option \<times> 's) \<times> 'w) option"
where
  "iterableRequest x m ty page subj req cb s w =
     iterable_loop (\<lambda>offset. jsonRequest x m ty subj (Some (req offset))) page (nc_pageTotal x) cb 0 s w"

subsection \<open>Account information\<close>

definition JetStreamAccountInfo :: "'w nats_client \<Rightarrow> Manager \<Rightarrow> ('w, JetStreamAccountStats \<times> Manager) api" where
  "JetStreamAccountInfo x m = (\<lambda>w.
     case jsonRequest x m (ty_account x) JSApiAccountInfo None w of
       (Inl e, w1) \<Rightarrow> (Inl (if e = NoResponders then JetStreamNotEnabled else e), w1)
     | (Inr resp, w1) \<Rightarrow>
         (case air_Stats resp of
            None \<Rightarrow> (Inl Panic, w1)
          | Some st \<Rightarrow> (Inr (st, m\<lparr> mg_apiLevel := Some (as_Level (ja_API st)) \<rparr>), w1)))"

definition IsJetStreamEnabled :: "'w nats_client \<Rightarrow> Manager \<Rightarrow> ('w, bool) api" where
  "IsJetStreamEnabled x m = (\<lambda>w.
     case JetStreamAccountInfo x m w of
       (Inl e, w1) \<Rightarrow> (if e = Panic then Inl Panic else Inr False, w1)
     | (Inr _, w1) \<Rightarrow> (Inr True, w1))"

definition MetaApiLevel :: "'w nats_client \<Rightarrow> bool \<Rightarrow> Manager \<Rightarrow> ('w, int \<times> Manager) api" where
  "MetaApiLevel x refresh m =
     (case mg_apiLevel m of
        Some l \<Rightarrow> if \<not> refresh then api_ret (l, m)
                  else api_bind (JetStreamAccountInfo x m) (\<lambda>(nfo, m1). api_ret (as_Level (ja_API nfo), m1))
      | None \<Rightarrow> api_bind (JetStreamAccountInfo x m) (\<lambda>(nfo, m1). api_ret (as_Level (ja_API nfo), m1)))"

definition IsStreamMaxBytesRequired :: "'w nats_client \<Rightarrow> Manager \<Rightarrow> ('w, bool \<times> Manager) api" where
  "IsStreamMaxBytesRequired x m =
     api_bind (JetStreamAccountInfo x m) (\<lambda>(nfo, m1).
       api_ret (al_MaxBytesRequired (jt_Limits nfo) \<or> list_ex (\<lambda>(_, t). al_MaxBytesRequired (jt_Limits t)) (ja_Tiers nfo), m1))"

subsection \<open>Operations by name\<close>

definition success_request :: "'w nats_client \<Rightarrow> Manager \<Rightarrow> string \<Rightarrow> ApiRequest option \<Rightarrow> string \<Rightarrow> ('w, unit) api" where
  "success_request x m subj req msg =
     api_bind (jsonRequest x m (ty_success x) subj req) (\<lambda>resp. api_guard (sr_Success resp) msg (api_ret ()))"

definition stream_guard :: "string \<Rightarrow> ('w, 'a) api \<Rightarrow> ('w, 'a) api" where
  "stream_guard stream p = api_guard (IsValidName stream) ''not a valid stream name'' p"

definition consumer_guard :: "string \<Rightarrow> string \<Rightarrow> ('w, 'a) api \<Rightarrow> ('w, 'a) api" where
  "consumer_guard stream consumer p = stream_guard stream (api_guard (IsValidName consumer) ''not a valid consumer name'' p)"

definition CancelStreamMove :: "'w nats_client \<Rightarrow> Manager \<Rightarrow> string \<Rightarrow> ('w, JSApiStreamUpdateResponse) api" where
  "CancelStreamMove x m stream =
     stream_guard stream (api_bind (jsonRequest x m (ty_streamUpdate x) (JSApiStreamCancelMoveT stream) None) (\<lambda>resp.
       case r_Error resp of Some e \<Rightarrow> api_fail (Resp (ApiErr e)) | None \<Rightarrow> api_ret resp))"

definition DeleteStreamMessage :: "'w nats_client \<Rightarrow> Manager \<Rightarrow> string \<Rightarrow> u64 \<Rightarrow> bool \<Rightarrow> ('w, unit) api" where
  "DeleteStreamMessage x m stream sq noErase =
     stream_guard stream (success_request x m (JSApiMsgDeleteT stream)
       (Some (MsgDeleteRequest \<lparr> mdr_Seq = sq, mdr_NoErase = noErase \<rparr>)) ''unknown error while deleting message'')"

definition zeroMsgGetRequest :: JSApiMsgGetRequest where
  "zeroMsgGetRequest = \<lparr> mgr_Seq = 0, mgr_LastFor = [], mgr_NextFor = [], mgr_Batch = 0, mgr_MaxBytes = 0, mgr_StartTime = None,
     mgr_MultiLastFor = [], mgr_UpToSeq = 0, mgr_UpToTime = None, mgr_NoHeaders = False \<rparr>"

definition manager_ReadLastMessageForSubject :: "'w nats_client \<Rightarrow> Manager \<Rightarrow> string \<Rightarrow> string \<Rightarrow> ('w, StoredMsg option) api" where
  "manager_ReadLastMessageForSubject x m stream sub =
     stream_guard stream (api_bind (jsonRequest x m (ty_msgGet x) (JSApiMsgGetT stream)
         (Some (MsgGetRequest (zeroMsgGetRequest\<lparr> mgr_LastFor := sub \<rparr>))))
       (\<lambda>resp. api_ret (mgr_Message resp)))"

definition DeleteStream :: "'w nats_client \<Rightarrow> Manager \<Rightarrow> string \<Rightarrow> ('w, unit) api" where
  "DeleteStream x m stream =
     stream_guard stream (success_request x m (JSApiStreamDeleteT stream) None ''deleting stream failed'')"

definition DeleteConsumer :: "'w nats_client \<Rightarrow> Manager \<Rightarrow> string \<Rightarrow> string \<Rightarrow> ('w, unit) api" where
  "DeleteConsumer x m stream consumer =
     consumer_guard stream consumer (success_request x m (JSApiConsumerDeleteT stream consumer) None ''deleting consumer failed'')"

definition EvacuateStream :: "'w nats_client \<Rightarrow> Manager \<Rightarrow> string \<Rightarrow> string \<Rightarrow> ('w, unit) api" where
  "EvacuateStream x m stream peer =
     stream_guard stream (success_request x m (JSApiStreamEvacuatePeerT stream) (Some (StreamEvacuatePeerRequest peer))
       ''unknown error while evacuating peer'')"

definition EvacuateConsumer :: "'w nats_client \<Rightarrow> Manager \<Rightarrow> string \<Rightarrow> string \<Rightarrow> string \<Rightarrow> ('w, unit) api" where
  "EvacuateConsumer x m stream consumer peer =
     consumer_guard stream consumer (success_request x m (JSApiConsumerEvacuatePeerT stream consumer)
       (Some (ConsumerEvacuatePeerRequest peer)) ''unknown error while evacuating peer'')"

definition MetaLeaderStandDown :: "'w nats_client \<Rightarrow> Manager \<Rightarrow> Placement option \<Rightarrow> ('w, unit) api" where
  "MetaLeaderStandDown x m placement =
     success_request x m JSApiLeaderStepDown (Some (MetaLeaderStepDownRequest placement)) ''unknown error while requesting leader step down''"

definition MetaPeerRemove :: "'w nats_client \<Rightarrow> Manager \<Rightarrow> string \<Rightarrow> string \<Rightarrow> ('w, unit) api" where
  "MetaPeerRemove x m name peer =
     success_request x m JSApiRemoveServer (Some (MetaServerRemoveRequest name peer)) ''unknown error while removing the peer''"

definition MetaEvacuatePeer :: "'w nats_client \<Rightarrow> Manager \<Rightarrow> string \<Rightarrow> string \<Rightarrow> ('w, unit) api" where
  "MetaEvacuatePeer x m name peer =
     success_request x m JSApiEvacuateServer (Some (MetaServerEvacuateRequest name peer)) ''unknown error while evacuating the peer''"

definition MetaPurgeAccount :: "'w nats_client \<Rightarrow> Manager \<Rightarrow> string \<Rightarrow> ('w, unit) api" where
  "MetaPurgeAccount x m account =
     api_guard (account \<noteq> []) ''account is required''
       (success_request x m (JSApiPurgeAccountT account) None ''unknown error while purging the account'')"

subsection \<open>Lists\<close>

text \<open>The outcome of a paged list: \<open>None\<close> when the pages never end.\<close>

definition paged :: "('s \<Rightarrow> 'a) \<Rightarrow> ((client_error option \<times> 's) \<times> 'w) option \<Rightarrow> ((client_error + 'a) \<times> 'w) option" where
  "paged f r = map_option (\<lambda>((e, s), w). (case e of Some err \<Rightarrow> Inl err | None \<Rightarrow> Inr (f s), w)) r"

definition StreamNames :: "'w nats_client \<Rightarrow> Manager \<Rightarrow> string option \<Rightarrow> 'w \<Rightarrow> ((client_error + string list) \<times> 'w) option" where
  "StreamNames x m filt w =
     paged sort (iterableRequest x m (ty_streamNames x) snr_Page JSApiStreamNames
       (\<lambda>offset. StreamNamesRequest \<lparr> iq_Offset = offset, snr_Subject = (case filt of Some s \<Rightarrow> s | None \<Rightarrow> []) \<rparr>)
       (\<lambda>resp names. Inr (names @ snr_Streams resp)) [] w)"

definition ConsumerNames :: "'w nats_client \<Rightarrow> Manager \<Rightarrow> string \<Rightarrow> 'w \<Rightarrow> ((client_error + string list) \<times> 'w) option" where
  "ConsumerNames x m stream w =
     (if \<not> IsValidName stream then Some (Inl (Usage ''not a valid stream name''), w)
      else paged sort (iterableRequest x m (ty_consumerNames x) cnr_Page (JSApiConsumerNamesT stream)
        (\<lambda>offset. ConsumerNamesRequest \<lparr> iq_Offset = offset \<rparr>)
        (\<lambda>resp names. Inr (names @ cnr_Consumers resp)) [] w))"

text \<open>A subject in a later page replaces the count of an earlier one.\<close>

definition put_all :: "('k \<times> 'v) list \<Rightarrow> ('k, 'v) gomap \<Rightarrow> ('k, 'v) gomap" where
  "put_all kvs g = fold (\<lambda>(k, v). AList.update k v) kvs g"

definition StreamContainedSubjects :: "'w nats_client \<Rightarrow> Manager \<Rightarrow> string \<Rightarrow> string list \<Rightarrow> 'w \<Rightarrow>
    ((client_error + (string, u64) gomap) \<times> 'w) option" where
  "StreamContainedSubjects x m stream filt w =
     (if \<not> IsValidName stream then Some (Inl (Usage ''not a valid stream name''), w)
      else if length filt > 1 then Some (Inl (Usage ''only 1 filter supported''), w)
      else
        (let f = (case filt of [s] \<Rightarrow> if s \<noteq> [] then s else ''>'' | _ \<Rightarrow> ''>'')
         in paged id (iterableRequest x m (ty_streamInfo x) sir_Page (JSApiStreamInfoT stream)
              (\<lambda>offset. StreamInfoRequest \<lparr> iq_Offset = offset, sir_DeletedDetails = False, sir_SubjectsFilter = f \<rparr>)
              (\<lambda>resp subjects. case sir_StreamInfo resp of
                  None \<Rightarrow> Inl Panic
                | Some nfo \<Rightarrow> Inr (put_all (sst_Subjects (nfo_State nfo)) subjects)) [] w)))"

end
