(* ===== verification/Client_Streams.thy ===== *)
theory Client_Streams
  imports Client
begin

text \<open>
  \<open>src/streams.go\<close>: stream options, creating, loading and listing streams, and the operations of
  a \<open>Stream\<close>. The object's state is its configuration and the information last fetched; an
  operation that updates it returns the new object. Reading messages in batches (\<open>DirectGet\<close>)
  and paging through contents run on subscriptions and are not here.
\<close>

record Stream =
  s_cfg :: StreamConfig
  s_lastInfo :: "StreamInfo option"

type_synonym StreamOption = "StreamConfig \<Rightarrow> client_error + StreamConfig"

subsection \<open>Options\<close>

definition ConsumerLimits :: "StreamConsumerLimits \<Rightarrow> StreamOption" where
  "ConsumerLimits l c = Inr (c\<lparr> sc_ConsumerLimits := l \<rparr>)"
definition StreamSubjects :: "string list \<Rightarrow> StreamOption" where
  "StreamSubjects s c = Inr (c\<lparr> sc_Subjects := s \<rparr>)"
definition StreamDescription :: "string \<Rightarrow> StreamOption" where
  "StreamDescription d c = Inr (c\<lparr> sc_Description := d \<rparr>)"
definition LimitsRetention :: StreamOption where
  "LimitsRetention c = Inr (c\<lparr> sc_Retention := LimitsPolicy \<rparr>)"
definition InterestRetention :: StreamOption where
  "InterestRetention c = Inr (c\<lparr> sc_Retention := InterestPolicy \<rparr>)"
definition WorkQueueRetention :: StreamOption where
  "WorkQueueRetention c = Inr (c\<lparr> sc_Retention := WorkQueuePolicy \<rparr>)"
definition MaxConsumers :: "int \<Rightarrow> StreamOption" where
  "MaxConsumers m c = Inr (c\<lparr> sc_MaxConsumers := m \<rparr>)"
definition MaxMessages :: "int \<Rightarrow> StreamOption" where
  "MaxMessages m c = Inr (c\<lparr> sc_MaxMsgs := m \<rparr>)"
definition MaxMessagesPerSubject :: "int \<Rightarrow> StreamOption" where
  "MaxMessagesPerSubject m c = Inr (c\<lparr> sc_MaxMsgsPer := m \<rparr>)"
definition MaxBytes :: "int \<Rightarrow> StreamOption" where
  "MaxBytes m c = Inr (c\<lparr> sc_MaxBytes := m \<rparr>)"
definition MaxAge :: "duration \<Rightarrow> StreamOption" where
  "MaxAge m c = Inr (c\<lparr> sc_MaxAge := m \<rparr>)"
definition MaxMessageSize :: "int \<Rightarrow> StreamOption" where
  "MaxMessageSize m c = Inr (c\<lparr> sc_MaxMsgSize := m \<rparr>)"
definition FileStorage_option :: StreamOption where
  "FileStorage_option c = Inr (c\<lparr> sc_Storage := FileStorage \<rparr>)"
definition MemoryStorage_option :: StreamOption where
  "MemoryStorage_option c = Inr (c\<lparr> sc_Storage := MemoryStorage \<rparr>)"
definition StreamReplicas :: "int \<Rightarrow> StreamOption" where
  "StreamReplicas r c = Inr (c\<lparr> sc_Replicas := r \<rparr>)"
definition NoAck :: StreamOption where
  "NoAck c = Inr (c\<lparr> sc_NoAck := True \<rparr>)"
definition DiscardNew_option :: StreamOption where
  "DiscardNew_option c = Inr (c\<lparr> sc_Discard := DiscardNew \<rparr>)"
definition DiscardNewPerSubject :: StreamOption where
  "DiscardNewPerSubject c = Inr (c\<lparr> sc_Discard := DiscardNew, sc_DiscardNewPer := True \<rparr>)"
definition DiscardOld_option :: StreamOption where
  "DiscardOld_option c = Inr (c\<lparr> sc_Discard := DiscardOld \<rparr>)"
definition DuplicateWindow :: "duration \<Rightarrow> StreamOption" where
  "DuplicateWindow d c = Inr (c\<lparr> sc_Duplicates := d \<rparr>)"

definition placement_or_new :: "StreamConfig \<Rightarrow> Placement" where
  "placement_or_new c = (case sc_Placement c of Some p \<Rightarrow> p | None \<Rightarrow> \<lparr> pl_Cluster = [], pl_Tags = [], pl_Preferred = [] \<rparr>)"

definition PlacementCluster :: "string \<Rightarrow> StreamOption" where
  "PlacementCluster cluster c = Inr (c\<lparr> sc_Placement := Some ((placement_or_new c)\<lparr> pl_Cluster := cluster \<rparr>) \<rparr>)"
definition PlacementTags :: "string list \<Rightarrow> StreamOption" where
  "PlacementTags tags c = Inr (c\<lparr> sc_Placement := Some ((placement_or_new c)\<lparr> pl_Tags := tags \<rparr>) \<rparr>)"
definition PlacementPreferredLeader :: "string \<Rightarrow> StreamOption" where
  "PlacementPreferredLeader leader c = Inr (c\<lparr> sc_Placement := Some ((placement_or_new c)\<lparr> pl_Preferred := leader \<rparr>) \<rparr>)"
definition Mirror :: "StreamSource option \<Rightarrow> StreamOption" where
  "Mirror s c = Inr (c\<lparr> sc_Mirror := s \<rparr>)"
definition AppendSource :: "StreamSource option \<Rightarrow> StreamOption" where
  "AppendSource s c = Inr (c\<lparr> sc_Sources := sc_Sources c @ [s] \<rparr>)"
definition Sources :: "StreamSource option list \<Rightarrow> StreamOption" where
  "Sources ss c = Inr (c\<lparr> sc_Sources := ss \<rparr>)"
definition DenyDelete :: StreamOption where
  "DenyDelete c = Inr (c\<lparr> sc_DenyDelete := True \<rparr>)"
definition DenyPurge :: StreamOption where
  "DenyPurge c = Inr (c\<lparr> sc_DenyPurge := True \<rparr>)"
definition AllowRollup :: StreamOption where
  "AllowRollup c = Inr (c\<lparr> sc_RollupAllowed := True \<rparr>)"
definition AllowDirect :: StreamOption where
  "AllowDirect c = Inr (c\<lparr> sc_AllowDirect := True \<rparr>)"
definition AllowAtomicBatchPublish :: StreamOption where
  "AllowAtomicBatchPublish c = Inr (c\<lparr> sc_AllowAtomicPublish := True \<rparr>)"
definition NoAllowAtomicBatchPublish :: StreamOption where
  "NoAllowAtomicBatchPublish c = Inr (c\<lparr> sc_AllowAtomicPublish := False \<rparr>)"
definition AllowCounter :: StreamOption where
  "AllowCounter c = Inr (c\<lparr> sc_AllowMsgCounter := True \<rparr>)"
definition NoAllowCounter :: StreamOption where
  "NoAllowCounter c = Inr (c\<lparr> sc_AllowMsgCounter := False \<rparr>)"
definition AllowSchedules :: StreamOption where
  "AllowSchedules c = Inr (c\<lparr> sc_AllowMsgSchedules := True \<rparr>)"
definition NoAllowDirect :: StreamOption where
  "NoAllowDirect c = Inr (c\<lparr> sc_AllowDirect := False \<rparr>)"
definition MirrorDirect :: StreamOption where
  "MirrorDirect c = Inr (c\<lparr> sc_MirrorDirect := True \<rparr>)"
definition NoMirrorDirect :: StreamOption where
  "NoMirrorDirect c = Inr (c\<lparr> sc_MirrorDirect := False \<rparr>)"
definition Republish :: "RePublish option \<Rightarrow> StreamOption" where
  "Republish m c = Inr (c\<lparr> sc_RePublish := m \<rparr>)"
definition StreamMetadata :: "(string, string) gomap \<Rightarrow> StreamOption" where
  "StreamMetadata meta c =
     (if list_ex (\<lambda>(k, _). length k = 0) meta then Inl (Usage ''invalid empty string key in metadata'')
      else Inr (c\<lparr> sc_Metadata := meta \<rparr>))"
definition Compression_option :: "Compression \<Rightarrow> StreamOption" where
  "Compression_option alg c = Inr (c\<lparr> sc_Compression := alg \<rparr>)"
definition FirstSequence :: "u64 \<Rightarrow> StreamOption" where
  "FirstSequence sq c = Inr (c\<lparr> sc_FirstSeq := sq \<rparr>)"
definition AllowMsgTTL :: StreamOption where
  "AllowMsgTTL c = Inr (c\<lparr> sc_AllowMsgTTL := True \<rparr>)"
definition SubjectDeleteMarkerTTL :: "duration \<Rightarrow> StreamOption" where
  "SubjectDeleteMarkerTTL d c = Inr (c\<lparr> sc_SubjectDeleteMarkerTTL := d \<rparr>)"
definition SubjectTransform :: "SubjectTransformConfig option \<Rightarrow> StreamOption" where
  "SubjectTransform t c = Inr (c\<lparr> sc_SubjectTransform := t \<rparr>)"
definition AsyncPersistence :: StreamOption where
  "AsyncPersistence c = Inr (c\<lparr> sc_PersistMode := AsyncPersistMode \<rparr>)"

definition DefaultStream :: StreamConfig where
  "DefaultStream = (zeroStreamConfig [])\<lparr> sc_Retention := LimitsPolicy, sc_Discard := DiscardOld, sc_MaxConsumers := -1,
     sc_MaxMsgs := -1, sc_MaxMsgsPer := -1, sc_MaxBytes := -1, sc_MaxAge := 24 * 365 * 3600 * 1000000000,
     sc_MaxMsgSize := -1, sc_Replicas := 1, sc_NoAck := False \<rparr>"

definition DefaultWorkQueue :: StreamConfig where
  "DefaultWorkQueue = (zeroStreamConfig [])\<lparr> sc_Retention := WorkQueuePolicy, sc_Discard := DiscardOld, sc_MaxConsumers := -1,
     sc_MaxMsgs := -1, sc_MaxMsgsPer := -1, sc_MaxBytes := -1, sc_MaxAge := 24 * 365 * 3600 * 1000000000,
     sc_MaxMsgSize := -1, sc_Replicas := 1, sc_NoAck := False \<rparr>"

definition NewStreamConfiguration :: "StreamConfig \<Rightarrow> StreamOption list \<Rightarrow> client_error + StreamConfig" where
  "NewStreamConfiguration template opts = fold_err (\<lambda>f c. f c) opts template"

subsection \<open>Creating and loading\<close>

definition streamFromConfig :: "StreamConfig \<Rightarrow> StreamInfo option \<Rightarrow> Stream" where
  "streamFromConfig cfg info = \<lparr> s_cfg = cfg, s_lastInfo = info \<rparr>"

definition NewStreamFromDefault :: "'w nats_client \<Rightarrow> Manager \<Rightarrow> string \<Rightarrow> StreamConfig \<Rightarrow> StreamOption list \<Rightarrow> ('w, Stream) api" where
  "NewStreamFromDefault x m name dflt opts =
     stream_guard name (api_bind (api_lift (NewStreamConfiguration dflt opts)) (\<lambda>cfg0.
       let cfg = cfg0\<lparr> sc_Name := name \<rparr>
       in api_guard (\<not> mg_validator m \<or> nc_invalidConfig x cfg = []) ''configuration validation failed''
            (api_bind (jsonRequest x m (ty_streamCreate x) (JSApiStreamCreateT name)
                (Some (StreamCreateRequest \<lparr> scr_Config = cfg, scr_Pedantic = mg_pedantic m \<rparr>)))
              (\<lambda>resp. case scr_StreamInfo resp of
                 None \<Rightarrow> api_fail Panic
               | Some nfo \<Rightarrow> api_ret (streamFromConfig (nfo_Config nfo) (Some nfo))))))"

definition loadStreamInfo :: "'w nats_client \<Rightarrow> Manager \<Rightarrow> string \<Rightarrow> JSApiStreamInfoRequest option \<Rightarrow> ('w, StreamInfo option) api" where
  "loadStreamInfo x m stream req =
     api_bind (jsonRequest x m (ty_streamInfo x) (JSApiStreamInfoT stream) (map_option StreamInfoRequest req))
       (\<lambda>resp. api_ret (sir_StreamInfo resp))"

definition loadConfigForStream :: "'w nats_client \<Rightarrow> Manager \<Rightarrow> Stream \<Rightarrow> ('w, Stream) api" where
  "loadConfigForStream x m s =
     api_bind (loadStreamInfo x m (sc_Name (s_cfg s)) None) (\<lambda>info.
       case info of None \<Rightarrow> api_fail Panic | Some nfo \<Rightarrow> api_ret (s\<lparr> s_cfg := nfo_Config nfo, s_lastInfo := Some nfo \<rparr>))"

definition LoadStream :: "'w nats_client \<Rightarrow> Manager \<Rightarrow> string \<Rightarrow> ('w, Stream) api" where
  "LoadStream x m name =
     stream_guard name (loadConfigForStream x m \<lparr> s_cfg = zeroStreamConfig name, s_lastInfo = None \<rparr>)"

definition LoadOrNewStreamFromDefault :: "'w nats_client \<Rightarrow> Manager \<Rightarrow> string \<Rightarrow> StreamConfig \<Rightarrow> StreamOption list \<Rightarrow> ('w, Stream) api" where
  "LoadOrNewStreamFromDefault x m name dflt opts =
     stream_guard name (api_bind (api_lift (fold_err (\<lambda>f c. f c) opts dflt)) (\<lambda>cfg w.
       case LoadStream x m name w of
         (Inl e, w1) \<Rightarrow> if IsNatsError e 10059 then NewStreamFromDefault x m name cfg [] w1 else (Inl e, w1)
       | (Inr s, w1) \<Rightarrow> (Inr s, w1)))"

definition NewStream :: "'w nats_client \<Rightarrow> Manager \<Rightarrow> string \<Rightarrow> StreamOption list \<Rightarrow> ('w, Stream) api" where
  "NewStream x m name opts = NewStreamFromDefault x m name DefaultStream opts"

definition LoadOrNewStream :: "'w nats_client \<Rightarrow> Manager \<Rightarrow> string \<Rightarrow> StreamOption list \<Rightarrow> ('w, Stream) api" where
  "LoadOrNewStream x m name opts = LoadOrNewStreamFromDefault x m name DefaultStream opts"

definition IsKnownStream :: "'w nats_client \<Rightarrow> Manager \<Rightarrow> string \<Rightarrow> ('w, bool) api" where
  "IsKnownStream x m stream = (\<lambda>w.
     case LoadStream x m stream w of
       (Inl e, w1) \<Rightarrow> ((case e of Resp (ApiErr a) \<Rightarrow> if NotFoundError a then Inr False else Inl e | _ \<Rightarrow> Inl e), w1)
     | (Inr s, w1) \<Rightarrow>
         (if sc_Name (s_cfg s) \<noteq> stream then Inl (Usage ''received invalid stream from load'') else Inr True, w1))"

text \<open>
  \<open>Streams\<close> sorts each page by name and gathers the pages; with an error it still returns what
  it gathered. \<open>sort.Slice\<close> is not stable: equal names are not told apart.
\<close>

record stream_list =
  sl_streams :: "Stream list"
  sl_missing :: "string list"
  sl_offline :: "(string, string) gomap"

definition gather_streams :: "JSApiStreamListResponse \<Rightarrow> stream_list \<Rightarrow> stream_list" where
  "gather_streams resp l =
     l\<lparr> sl_streams := sl_streams l @ map (\<lambda>s. streamFromConfig (nfo_Config s) (Some s))
            (sort_key (\<lambda>s. sc_Name (nfo_Config s)) (slr_Streams resp)),
        sl_missing := sl_missing l @ slr_Missing resp,
        sl_offline := put_all (slr_Offline resp) (sl_offline l) \<rparr>"

definition filter_missing :: "string list \<Rightarrow> (string, string) gomap \<Rightarrow> string list" where
  "filter_missing missing offline = filter (\<lambda>m. map_of offline m = None) missing"

definition Streams :: "'w nats_client \<Rightarrow> Manager \<Rightarrow> string option \<Rightarrow> 'w \<Rightarrow> ((stream_list \<times> client_error option) \<times> 'w) option" where
  "Streams x m filt w =
     map_option (\<lambda>((e, l), w1). ((l\<lparr> sl_missing := filter_missing (sl_missing l) (sl_offline l) \<rparr>, e), w1))
       (iterableRequest x m (ty_streamList x) slr_Page JSApiStreamList
         (\<lambda>offset. StreamListRequest \<lparr> iq_Offset = offset, slr_Subject = (case filt of Some s \<Rightarrow> s | None \<Rightarrow> []) \<rparr>)
         (\<lambda>resp l. Inr (gather_streams resp l)) \<lparr> sl_streams = [], sl_missing = [], sl_offline = [] \<rparr> w)"

subsection \<open>The operations of a stream\<close>

definition UpdateConfiguration :: "'w nats_client \<Rightarrow> Manager \<Rightarrow> StreamConfig \<Rightarrow> StreamOption list \<Rightarrow> Stream \<Rightarrow> ('w, Stream) api" where
  "UpdateConfiguration x m cfg opts s =
     api_bind (api_lift (NewStreamConfiguration cfg opts)) (\<lambda>ncfg.
     api_bind (jsonRequest x m (ty_streamUpdate x) (JSApiStreamUpdateT (sc_Name (s_cfg s)))
         (Some (StreamUpdateRequest \<lparr> sur_Config = ncfg, sur_Pedantic = mg_pedantic m \<rparr>))) (\<lambda>_.
     loadConfigForStream x m s))"

definition stream_Reset :: "'w nats_client \<Rightarrow> Manager \<Rightarrow> Stream \<Rightarrow> ('w, Stream) api" where
  "stream_Reset x m s = loadConfigForStream x m s"

definition Information :: "'w nats_client \<Rightarrow> Manager \<Rightarrow> JSApiStreamInfoRequest list \<Rightarrow> Stream \<Rightarrow> ('w, StreamInfo option \<times> Stream) api" where
  "Information x m req s =
     api_guard (length req \<le> 1) ''only one request info is accepted''
       (let ireq = (case req of [r] \<Rightarrow> r | _ \<Rightarrow> \<lparr> iq_Offset = 0, sir_DeletedDetails = False, sir_SubjectsFilter = [] \<rparr>)
        in api_bind (loadStreamInfo x m (sc_Name (s_cfg s)) (Some ireq)) (\<lambda>info. api_ret (info, s\<lparr> s_lastInfo := info \<rparr>)))"

definition LatestInformation :: "'w nats_client \<Rightarrow> Manager \<Rightarrow> Stream \<Rightarrow> ('w, StreamInfo option \<times> Stream) api" where
  "LatestInformation x m s =
     (case s_lastInfo s of Some nfo \<Rightarrow> api_ret (Some nfo, s) | None \<Rightarrow> Information x m [] s)"

definition stream_LatestState :: "'w nats_client \<Rightarrow> Manager \<Rightarrow> Stream \<Rightarrow> ('w, StreamState \<times> Stream) api" where
  "stream_LatestState x m s =
     api_bind (LatestInformation x m s) (\<lambda>(nfo, s1).
       case nfo of None \<Rightarrow> api_fail Panic | Some i \<Rightarrow> api_ret (nfo_State i, s1))"

definition stream_ClusterInfo :: "'w nats_client \<Rightarrow> Manager \<Rightarrow> Stream \<Rightarrow> ('w, ClusterInfo \<times> Stream) api" where
  "stream_ClusterInfo x m s =
     api_bind (LatestInformation x m s) (\<lambda>(nfo, s1).
       case nfo of None \<Rightarrow> api_fail Panic
       | Some i \<Rightarrow> (case nfo_Cluster i of None \<Rightarrow> api_fail (Usage ''stream has no cluster information'') | Some c \<Rightarrow> api_ret (c, s1)))"

definition stream_State :: "'w nats_client \<Rightarrow> Manager \<Rightarrow> JSApiStreamInfoRequest list \<Rightarrow> Stream \<Rightarrow> ('w, StreamState \<times> Stream) api" where
  "stream_State x m req s =
     api_bind (Information x m req s) (\<lambda>(nfo, s1). case nfo of None \<Rightarrow> api_fail Panic | Some i \<Rightarrow> api_ret (nfo_State i, s1))"

definition stream_Delete :: "'w nats_client \<Rightarrow> Manager \<Rightarrow> Stream \<Rightarrow> ('w, unit) api" where
  "stream_Delete x m s = success_request x m (JSApiStreamDeleteT (sc_Name (s_cfg s))) None ''unknown failure''"

definition CancelMove :: "'w nats_client \<Rightarrow> Manager \<Rightarrow> Stream \<Rightarrow> ('w, JSApiStreamUpdateResponse \<times> Stream) api" where
  "CancelMove x m s =
     api_bind (jsonRequest x m (ty_streamUpdate x) (JSApiStreamCancelMoveT (sc_Name (s_cfg s))) None) (\<lambda>resp.
       case r_Error resp of
         Some e \<Rightarrow> api_fail (Resp (ApiErr e))
       | None \<Rightarrow>
           (case sur_StreamInfo resp of
              None \<Rightarrow> api_fail Panic
            | Some nfo \<Rightarrow> api_ret (resp, s\<lparr> s_cfg := nfo_Config nfo, s_lastInfo := Some nfo \<rparr>)))"

definition Seal :: "'w nats_client \<Rightarrow> Manager \<Rightarrow> Stream \<Rightarrow> ('w, Stream) api" where
  "Seal x m s = UpdateConfiguration x m ((s_cfg s)\<lparr> sc_Sealed := True \<rparr>) [] s"

text \<open>Of an unsuccessful purge the response is dropped; only the error is kept.\<close>

definition PurgeExt :: "'w nats_client \<Rightarrow> Manager \<Rightarrow> JSApiStreamPurgeRequest option \<Rightarrow> Stream \<Rightarrow> ('w, JSApiStreamPurgeResponse) api" where
  "PurgeExt x m req s =
     api_bind (jsonRequest x m (ty_purge x) (JSApiStreamPurgeT (sc_Name (s_cfg s))) (map_option StreamPurgeRequest req))
       (\<lambda>resp. api_guard (sr_Success resp) ''unknown failure'' (api_ret resp))"

definition Purge :: "'w nats_client \<Rightarrow> Manager \<Rightarrow> JSApiStreamPurgeRequest list \<Rightarrow> Stream \<Rightarrow> ('w, unit) api" where
  "Purge x m opts s =
     api_guard (length opts \<le> 1) ''only one purge option allowed''
       (api_bind (PurgeExt x m (case opts of [r] \<Rightarrow> Some r | _ \<Rightarrow> None) s) (\<lambda>_. api_ret ()))"

definition ReadLastMessageForSubject :: "'w nats_client \<Rightarrow> Manager \<Rightarrow> string \<Rightarrow> Stream \<Rightarrow> ('w, StoredMsg option) api" where
  "ReadLastMessageForSubject x m subj s = manager_ReadLastMessageForSubject x m (sc_Name (s_cfg s)) subj"

definition ReadMessage :: "'w nats_client \<Rightarrow> Manager \<Rightarrow> u64 \<Rightarrow> Stream \<Rightarrow> ('w, StoredMsg option) api" where
  "ReadMessage x m sq s =
     api_bind (jsonRequest x m (ty_msgGet x) (JSApiMsgGetT (sc_Name (s_cfg s))) (Some (MsgGetRequest (zeroMsgGetRequest\<lparr> mgr_Seq := sq \<rparr>))))
       (\<lambda>resp. api_ret (mgr_Message resp))"

definition DeleteMessageRequest :: "'w nats_client \<Rightarrow> Manager \<Rightarrow> JSApiMsgDeleteRequest \<Rightarrow> Stream \<Rightarrow> ('w, unit) api" where
  "DeleteMessageRequest x m req s =
     api_guard (mdr_Seq req \<noteq> 0) ''sequence number is required''
       (success_request x m (JSApiMsgDeleteT (sc_Name (s_cfg s))) (Some (MsgDeleteRequest req)) ''unknown error while deleting message'')"

definition FastDeleteMessage :: "'w nats_client \<Rightarrow> Manager \<Rightarrow> u64 \<Rightarrow> Stream \<Rightarrow> ('w, unit) api" where
  "FastDeleteMessage x m sq s = DeleteMessageRequest x m \<lparr> mdr_Seq = sq, mdr_NoErase = True \<rparr> s"

definition DeleteMessage :: "'w nats_client \<Rightarrow> Manager \<Rightarrow> u64 \<Rightarrow> Stream \<Rightarrow> ('w, unit) api" where
  "DeleteMessage x m sq s = DeleteMessageRequest x m \<lparr> mdr_Seq = sq, mdr_NoErase = False \<rparr> s"

definition stream_AdvisorySubject :: "Stream \<Rightarrow> string" where
  "stream_AdvisorySubject s = ''$JS.EVENT.ADVISORY.*.*.'' @ sc_Name (s_cfg s) @ ''.>''"

definition stream_MetricSubject :: "Stream \<Rightarrow> string" where
  "stream_MetricSubject s = ''$JS.EVENT.METRIC.*.*.'' @ sc_Name (s_cfg s) @ ''.*''"

definition RemoveRAFTPeer :: "'w nats_client \<Rightarrow> Manager \<Rightarrow> string \<Rightarrow> Stream \<Rightarrow> ('w, unit) api" where
  "RemoveRAFTPeer x m peer s =
     success_request x m (JSApiStreamRemovePeerT (sc_Name (s_cfg s))) (Some (StreamRemovePeerRequest peer)) ''unknown error while removing peer''"

definition stream_EvacuatePeer :: "'w nats_client \<Rightarrow> Manager \<Rightarrow> string \<Rightarrow> Stream \<Rightarrow> ('w, unit) api" where
  "stream_EvacuatePeer x m peer s =
     success_request x m (JSApiStreamEvacuatePeerT (sc_Name (s_cfg s))) (Some (StreamEvacuatePeerRequest peer)) ''unknown error while evacuating peer''"

definition stream_LeaderStepDown :: "'w nats_client \<Rightarrow> Manager \<Rightarrow> Placement option list \<Rightarrow> Stream \<Rightarrow> ('w, unit) api" where
  "stream_LeaderStepDown x m placement s =
     api_guard (length placement \<le> 1) ''only one placement option allowed''
       (success_request x m (JSApiStreamLeaderStepDownT (sc_Name (s_cfg s)))
          (Some (StreamLeaderStepDownRequest (case placement of [p] \<Rightarrow> p | _ \<Rightarrow> None))) ''unknown error while requesting leader step down'')"

definition stream_DirectSubject :: "Stream \<Rightarrow> string" where
  "stream_DirectSubject s = JSDirectMsgGetT (sc_Name (s_cfg s))"

definition IsMirror :: "Stream \<Rightarrow> bool" where "IsMirror s \<longleftrightarrow> sc_Mirror (s_cfg s) \<noteq> None"
definition IsSourced :: "Stream \<Rightarrow> bool" where "IsSourced s \<longleftrightarrow> length (sc_Sources (s_cfg s)) > 0"
definition IsInternal :: "Stream \<Rightarrow> bool" where "IsInternal s \<longleftrightarrow> IsInternalStream (sc_Name (s_cfg s))"
definition IsKVBucket :: "Stream \<Rightarrow> bool" where "IsKVBucket s \<longleftrightarrow> IsKVBucketStream (sc_Name (s_cfg s))"
definition IsObjectBucket :: "Stream \<Rightarrow> bool" where "IsObjectBucket s \<longleftrightarrow> IsObjectBucketStream (sc_Name (s_cfg s))"
definition IsMQTTState :: "Stream \<Rightarrow> bool" where "IsMQTTState s \<longleftrightarrow> IsMQTTStateStream (sc_Name (s_cfg s))"
definition IsCompressed :: "Stream \<Rightarrow> bool" where "IsCompressed s \<longleftrightarrow> sc_Compression (s_cfg s) \<noteq> NoCompression"

end
