(* ===== verification/Client_Consumers.thy ===== *)
theory Client_Consumers
  imports Client_Streams
begin

text \<open>
  \<open>src/consumers.go\<close>: consumer options, creating, loading and listing consumers, and the
  operations of a \<open>Consumer\<close>. \<open>time.Now\<close> is the argument \<open>now\<close>, \<open>nuid.Next\<close> and SHA-256 are
  arguments of \<open>generateConsName\<close>. Pulling messages (\<open>NextMsg\<close>) runs on raw requests without the
  API and is modelled up to its subject.
\<close>

record Consumer =
  c_name :: string
  c_stream :: string
  c_cfg :: ConsumerConfig
  c_lastInfo :: "ConsumerInfo option"

type_synonym ConsumerOption = "ConsumerConfig \<Rightarrow> client_error + ConsumerConfig"

subsection \<open>Options\<close>

definition DefaultConsumer :: ConsumerConfig where
  "DefaultConsumer = zeroConsumerConfig\<lparr> cc_DeliverPolicy := DeliverAll, cc_AckPolicy := AckExplicit,
     cc_AckWait := 30000000000, cc_ReplayPolicy := ReplayInstant \<rparr>"

definition SampledDefaultConsumer :: ConsumerConfig where
  "SampledDefaultConsumer = zeroConsumerConfig\<lparr> cc_DeliverPolicy := DeliverAll, cc_AckPolicy := AckExplicit,
     cc_AckWait := 30000000000, cc_ReplayPolicy := ReplayInstant, cc_SampleFrequency := ''100%'' \<rparr>"

definition ConsumerDescription :: "string \<Rightarrow> ConsumerOption" where
  "ConsumerDescription d c = Inr (c\<lparr> cc_Description := d \<rparr>)"
definition DeliverySubject :: "string \<Rightarrow> ConsumerOption" where
  "DeliverySubject s c = Inr (c\<lparr> cc_DeliverSubject := s \<rparr>)"
definition ConsumerName :: "string \<Rightarrow> ConsumerOption" where
  "ConsumerName s c = (if \<not> IsValidName s then Inl (Usage ''not a valid consumer name'') else Inr (c\<lparr> cc_Name := s \<rparr>))"
definition DurableName :: "string \<Rightarrow> ConsumerOption" where
  "DurableName s c = (if \<not> IsValidName s then Inl (Usage ''not a valid consumer name'') else Inr (c\<lparr> cc_Durable := s \<rparr>))"

definition resetDeliverPolicy :: "ConsumerConfig \<Rightarrow> ConsumerConfig" where
  "resetDeliverPolicy c = c\<lparr> cc_DeliverPolicy := DeliverAll, cc_OptStartSeq := 0, cc_OptStartTime := None \<rparr>"

definition StartAtSequence :: "u64 \<Rightarrow> ConsumerOption" where
  "StartAtSequence s c = Inr ((resetDeliverPolicy c)\<lparr> cc_DeliverPolicy := DeliverByStartSequence, cc_OptStartSeq := s \<rparr>)"
definition StartAtTime :: "gotime \<Rightarrow> ConsumerOption" where
  "StartAtTime t c = Inr ((resetDeliverPolicy c)\<lparr> cc_DeliverPolicy := DeliverByStartTime, cc_OptStartTime := Some t \<rparr>)"
definition DeliverAllAvailable :: ConsumerOption where
  "DeliverAllAvailable c = Inr ((resetDeliverPolicy c)\<lparr> cc_DeliverPolicy := DeliverAll \<rparr>)"
definition DeliverLastPerSubject_option :: ConsumerOption where
  "DeliverLastPerSubject_option c = Inr ((resetDeliverPolicy c)\<lparr> cc_DeliverPolicy := DeliverLastPerSubject \<rparr>)"
definition StartWithLastReceived :: ConsumerOption where
  "StartWithLastReceived c = Inr ((resetDeliverPolicy c)\<lparr> cc_DeliverPolicy := DeliverLast \<rparr>)"
definition StartWithNextReceived :: ConsumerOption where
  "StartWithNextReceived c = Inr ((resetDeliverPolicy c)\<lparr> cc_DeliverPolicy := DeliverNew \<rparr>)"
definition StartAtTimeDelta :: "gotime \<Rightarrow> duration \<Rightarrow> ConsumerOption" where
  "StartAtTimeDelta now d c =
     Inr ((resetDeliverPolicy c)\<lparr> cc_DeliverPolicy := DeliverByStartTime, cc_OptStartTime := Some (now + -1 * d) \<rparr>)"
definition DeliverHeadersOnly :: ConsumerOption where
  "DeliverHeadersOnly c = Inr (c\<lparr> cc_HeadersOnly := True \<rparr>)"
definition DeliverBodies :: ConsumerOption where
  "DeliverBodies c = Inr (c\<lparr> cc_HeadersOnly := False \<rparr>)"
definition AcknowledgeNone :: ConsumerOption where
  "AcknowledgeNone c = Inr (c\<lparr> cc_AckPolicy := AckNone \<rparr>)"
definition AcknowledgeAll :: ConsumerOption where
  "AcknowledgeAll c = Inr (c\<lparr> cc_AckPolicy := AckAll \<rparr>)"
definition AcknowledgeExplicit :: ConsumerOption where
  "AcknowledgeExplicit c = Inr (c\<lparr> cc_AckPolicy := AckExplicit \<rparr>)"
definition AcknowledgeFlowControl :: ConsumerOption where
  "AcknowledgeFlowControl c = Inr (c\<lparr> cc_AckPolicy := AckFlowControl \<rparr>)"
definition AckWait :: "duration \<Rightarrow> ConsumerOption" where
  "AckWait t c = Inr (c\<lparr> cc_AckWait := t \<rparr>)"
definition MaxDeliveryAttempts :: "int \<Rightarrow> ConsumerOption" where
  "MaxDeliveryAttempts n c =
     (if n = 0 then Inl (Usage ''configuration would prevent all deliveries'') else Inr (c\<lparr> cc_MaxDeliver := n \<rparr>))"
definition FilterStreamBySubject :: "string list \<Rightarrow> ConsumerOption" where
  "FilterStreamBySubject s c =
     (if length s = 1 then Inr (c\<lparr> cc_FilterSubjects := [], cc_FilterSubject := s ! 0 \<rparr>)
      else Inr (c\<lparr> cc_FilterSubject := [], cc_FilterSubjects := s \<rparr>))"
definition ReplayInstantly :: ConsumerOption where
  "ReplayInstantly c = Inr (c\<lparr> cc_ReplayPolicy := ReplayInstant \<rparr>)"
definition ReplayAsReceived :: ConsumerOption where
  "ReplayAsReceived c = Inr (c\<lparr> cc_ReplayPolicy := ReplayOriginal \<rparr>)"
definition SamplePercent :: "int \<Rightarrow> ConsumerOption" where
  "SamplePercent i c =
     (if i < 0 \<or> i > 100 then Inl (Usage ''sample percent must be 0-100'')
      else if i = 0 then Inr (c\<lparr> cc_SampleFrequency := [] \<rparr>)
      else Inr (c\<lparr> cc_SampleFrequency := format_int i @ ''%'' \<rparr>))"
definition RateLimitBitsPerSecond :: "u64 \<Rightarrow> ConsumerOption" where
  "RateLimitBitsPerSecond bps c = Inr (c\<lparr> cc_RateLimit := bps \<rparr>)"

text \<open>The conversion of a \<open>uint\<close> to \<open>int\<close> reads its bits as signed.\<close>

definition MaxWaiting :: "u64 \<Rightarrow> ConsumerOption" where
  "MaxWaiting pulls c = Inr (c\<lparr> cc_MaxWaiting := sint pulls \<rparr>)"
definition MaxAckPending :: "u64 \<Rightarrow> ConsumerOption" where
  "MaxAckPending pending c = Inr (c\<lparr> cc_MaxAckPending := sint pending \<rparr>)"
definition IdleHeartbeat :: "duration \<Rightarrow> ConsumerOption" where
  "IdleHeartbeat hb c = Inr (c\<lparr> cc_Heartbeat := hb \<rparr>)"
definition PushFlowControl :: ConsumerOption where
  "PushFlowControl c = Inr (c\<lparr> cc_FlowControl := True \<rparr>)"
definition DeliverGroup :: "string \<Rightarrow> ConsumerOption" where
  "DeliverGroup g c = Inr (c\<lparr> cc_DeliverGroup := g \<rparr>)"
definition MaxRequestMaxBytes :: "int \<Rightarrow> ConsumerOption" where
  "MaxRequestMaxBytes n c = Inr (c\<lparr> cc_MaxRequestMaxBytes := n \<rparr>)"
definition MaxRequestBatch :: "u64 \<Rightarrow> ConsumerOption" where
  "MaxRequestBatch n c = Inr (c\<lparr> cc_MaxRequestBatch := sint n \<rparr>)"
definition MaxRequestExpires :: "duration \<Rightarrow> ConsumerOption" where
  "MaxRequestExpires d c =
     (if d \<noteq> 0 \<and> d < Millisecond then Inl (Usage ''must be larger than 1ms'') else Inr (c\<lparr> cc_MaxRequestExpires := d \<rparr>))"
definition InactiveThreshold :: "duration \<Rightarrow> ConsumerOption" where
  "InactiveThreshold t c =
     (if t < 0 then Inl (Usage ''inactive threshold must be positive'') else Inr (c\<lparr> cc_InactiveThreshold := t \<rparr>))"
definition BackoffIntervals :: "duration list \<Rightarrow> ConsumerOption" where
  "BackoffIntervals i c =
     (if length i = 0 then Inl (Usage ''at least one interval is required'') else Inr (c\<lparr> cc_BackOff := i \<rparr>))"
definition BackoffPolicy :: "duration list \<Rightarrow> ConsumerOption" where
  "BackoffPolicy policy c =
     (if length policy = 0 then Inl (Usage ''at least one interval is required'') else Inr (c\<lparr> cc_BackOff := policy \<rparr>))"
definition ConsumerOverrideReplicas :: "int \<Rightarrow> ConsumerOption" where
  "ConsumerOverrideReplicas r c = Inr (c\<lparr> cc_Replicas := r \<rparr>)"
definition ConsumerOverrideMemoryStorage :: ConsumerOption where
  "ConsumerOverrideMemoryStorage c = Inr (c\<lparr> cc_MemoryStorage := True \<rparr>)"
definition LinearBackoffPolicy :: "nat \<Rightarrow> duration \<Rightarrow> duration \<Rightarrow> ConsumerOption" where
  "LinearBackoffPolicy steps mn mx c =
     (case LinearBackoffPeriods steps mn mx of
        Inl e \<Rightarrow> Inl (Usage ''invalid backoff'')
      | Inr p \<Rightarrow> Inr (c\<lparr> cc_BackOff := p \<rparr>))"
definition ConsumerMetadata :: "(string, string) gomap \<Rightarrow> ConsumerOption" where
  "ConsumerMetadata meta c =
     (if list_ex (\<lambda>(k, _). length k = 0) meta then Inl (Usage ''invalid empty string key in metadata'')
      else Inr (c\<lparr> cc_Metadata := meta \<rparr>))"
definition PauseUntil :: "gotime \<Rightarrow> ConsumerOption" where
  "PauseUntil deadline c = Inr (c\<lparr> cc_PauseUntil := deadline \<rparr>)"
definition PrioritizedPriorityGroups :: "string list \<Rightarrow> ConsumerOption" where
  "PrioritizedPriorityGroups groups c =
     (if length groups = 0 then Inr (c\<lparr> cc_PriorityGroups := Some [], cc_PriorityPolicy := PriorityNone \<rparr>)
      else Inr (c\<lparr> cc_PriorityPolicy := PriorityPrioritized, cc_PriorityGroups := Some groups \<rparr>))"
definition PinnedClientPriorityGroups :: "duration \<Rightarrow> string list \<Rightarrow> ConsumerOption" where
  "PinnedClientPriorityGroups ttl groups c =
     (if length groups = 0 then Inr (c\<lparr> cc_PriorityGroups := Some [], cc_PriorityPolicy := PriorityNone, cc_PinnedTTL := 0 \<rparr>)
      else Inr (c\<lparr> cc_PriorityPolicy := PriorityPinnedClient, cc_PriorityGroups := Some groups, cc_PinnedTTL := ttl \<rparr>))"
definition OverflowPriorityGroups :: "string list \<Rightarrow> ConsumerOption" where
  "OverflowPriorityGroups groups c =
     (if length groups = 0 then Inr (c\<lparr> cc_PriorityGroups := Some [], cc_PriorityPolicy := PriorityNone \<rparr>)
      else Inr (c\<lparr> cc_PriorityPolicy := PriorityOverflow, cc_PriorityGroups := Some groups \<rparr>))"

definition rdigits :: string where
  "rdigits = ''0123456789ABCDEFGHIJKLMNOPQRSTUVWXYZabcdefghijklmnopqrstuvwxyz''"

text \<open>\<open>sha\<close> is the 32 byte SHA-256 of the next unique identifier.\<close>

definition generateConsName :: "bytes \<Rightarrow> string" where
  "generateConsName sha = map (\<lambda>b. rdigits ! (of_char b mod 62)) (take 8 sha)"

definition NewConsumerConfiguration :: "bytes \<Rightarrow> ConsumerConfig \<Rightarrow> ConsumerOption list \<Rightarrow> client_error + ConsumerConfig" where
  "NewConsumerConfiguration sha dflt opts =
     (case fold_err (\<lambda>f c. f c) opts dflt of
        Inl e \<Rightarrow> Inl e
      | Inr cfg \<Rightarrow>
          (let cfg1 = (if cc_Durable cfg \<noteq> [] then cfg\<lparr> cc_Name := cc_Durable cfg \<rparr> else cfg)
           in Inr (if cc_Name cfg1 = [] then cfg1\<lparr> cc_Name := generateConsName sha \<rparr> else cfg1)))"

subsection \<open>Creating and loading\<close>

definition consumerFromCfg :: "string \<Rightarrow> string \<Rightarrow> ConsumerConfig \<Rightarrow> Consumer" where
  "consumerFromCfg stream name cfg =
     \<lparr> c_name = (if name = [] \<and> cc_Name cfg \<noteq> [] then cc_Name cfg else name), c_stream = stream, c_cfg = cfg, c_lastInfo = None \<rparr>"

definition createConsumer :: "'w nats_client \<Rightarrow> Manager \<Rightarrow> JSApiConsumerCreateRequest \<Rightarrow> ('w, ConsumerInfo option) api" where
  "createConsumer x m req =
     api_guard (cc_Name (ccr_Config req) \<noteq> []) ''consumer configuration requires a name''
     (api_guard (IsValidName (cc_Name (ccr_Config req))) ''not a valid consumer name''
       (let cfg = (ccr_Config req)\<lparr> cc_Direct := False, cc_Sourcing := False \<rparr>;
            subj = (if cc_FilterSubject cfg = [] then JSApiConsumerCreateWithNameT (ccr_Stream req) (cc_Name cfg)
                    else JSApiConsumerCreateExT (ccr_Stream req) (cc_Name cfg) (cc_FilterSubject cfg))
        in api_bind (jsonRequest x m (ty_consumerInfo x) subj (Some (ConsumerCreateRequest (req\<lparr> ccr_Config := cfg \<rparr>))))
             (\<lambda>resp. api_ret (cir_ConsumerInfo resp))))"

text \<open>\<open>cfg.Validate()\<close> is called without a validator and finds nothing.\<close>

definition NewConsumerFromDefault ::
  "'w nats_client \<Rightarrow> Manager \<Rightarrow> bytes \<Rightarrow> string \<Rightarrow> ConsumerConfig \<Rightarrow> ConsumerOption list \<Rightarrow> ('w, Consumer) api" where
  "NewConsumerFromDefault x m sha stream dflt opts =
     stream_guard stream (api_bind (api_lift (NewConsumerConfiguration sha dflt opts)) (\<lambda>cfg.
       api_bind (createConsumer x m \<lparr> ccr_Stream = stream, ccr_Config = cfg, ccr_Action = ActionCreateOrUpdate, ccr_Pedantic = mg_pedantic m \<rparr>)
         (\<lambda>created. case created of
            None \<Rightarrow> api_fail (Usage ''expected a consumer name but none were generated'')
          | Some nfo \<Rightarrow> api_ret ((consumerFromCfg stream (cn_Name nfo) (cn_Config nfo))\<lparr> c_lastInfo := Some nfo \<rparr>))))"

definition NewConsumer :: "'w nats_client \<Rightarrow> Manager \<Rightarrow> bytes \<Rightarrow> string \<Rightarrow> ConsumerOption list \<Rightarrow> ('w, Consumer) api" where
  "NewConsumer x m sha stream opts = stream_guard stream (NewConsumerFromDefault x m sha stream DefaultConsumer opts)"

definition loadConsumerInfo :: "'w nats_client \<Rightarrow> Manager \<Rightarrow> string \<Rightarrow> string \<Rightarrow> ('w, ConsumerInfo) api" where
  "loadConsumerInfo x m s c =
     api_bind (jsonRequest x m (ty_consumerInfo x) (JSApiConsumerInfoT s c) None) (\<lambda>resp.
       case cir_ConsumerInfo resp of
         None \<Rightarrow> api_fail (Usage ''invalid response retrieving consumer info'')
       | Some nfo \<Rightarrow> api_ret nfo)"

definition loadConfigForConsumer :: "'w nats_client \<Rightarrow> Manager \<Rightarrow> Consumer \<Rightarrow> ('w, Consumer) api" where
  "loadConfigForConsumer x m c =
     api_bind (loadConsumerInfo x m (c_stream c) (c_name c)) (\<lambda>info.
       api_ret (c\<lparr> c_cfg := cn_Config info, c_lastInfo := Some info \<rparr>))"

definition LoadConsumer :: "'w nats_client \<Rightarrow> Manager \<Rightarrow> string \<Rightarrow> string \<Rightarrow> ('w, Consumer) api" where
  "LoadConsumer x m stream name =
     consumer_guard stream name (loadConfigForConsumer x m (consumerFromCfg stream name zeroConsumerConfig))"

text \<open>A consumer that is not known is created from the template and the options alone; \<open>name\<close> is not used.\<close>

definition LoadOrNewConsumerFromDefault ::
  "'w nats_client \<Rightarrow> Manager \<Rightarrow> bytes \<Rightarrow> string \<Rightarrow> string \<Rightarrow> ConsumerConfig \<Rightarrow> ConsumerOption list \<Rightarrow> ('w, Consumer) api" where
  "LoadOrNewConsumerFromDefault x m sha stream name template opts =
     consumer_guard stream name (\<lambda>w.
       case LoadConsumer x m stream name w of
         (Inl e, w1) \<Rightarrow> if IsNatsError e 10014 then NewConsumerFromDefault x m sha stream template opts w1 else (Inl e, w1)
       | (Inr c, w1) \<Rightarrow> (Inr c, w1))"

definition LoadOrNewConsumer ::
  "'w nats_client \<Rightarrow> Manager \<Rightarrow> bytes \<Rightarrow> string \<Rightarrow> string \<Rightarrow> ConsumerOption list \<Rightarrow> ('w, Consumer) api" where
  "LoadOrNewConsumer x m sha stream name opts = LoadOrNewConsumerFromDefault x m sha stream name DefaultConsumer opts"

definition IsKnownConsumer :: "'w nats_client \<Rightarrow> Manager \<Rightarrow> string \<Rightarrow> string \<Rightarrow> ('w, bool) api" where
  "IsKnownConsumer x m stream consumer = (\<lambda>w.
     case LoadConsumer x m stream consumer w of
       (Inl e, w1) \<Rightarrow> ((case e of Resp (ApiErr a) \<Rightarrow> if NotFoundError a then Inr False else Inl e | _ \<Rightarrow> Inl e), w1)
     | (Inr c, w1) \<Rightarrow> (if c_name c \<noteq> consumer then Inl (Usage ''invalid consumer received from load'') else Inr True, w1))"

record consumer_list =
  nl_consumers :: "ConsumerInfo list"
  nl_missing :: "string list"
  nl_offline :: "(string, string) gomap"

definition gather_consumers :: "JSApiConsumerListResponse \<Rightarrow> consumer_list \<Rightarrow> consumer_list" where
  "gather_consumers resp l =
     l\<lparr> nl_missing := nl_missing l @ clr_Missing resp, nl_consumers := nl_consumers l @ clr_Consumers resp,
        nl_offline := put_all (clr_Offline resp) (nl_offline l) \<rparr>"

definition Consumers :: "'w nats_client \<Rightarrow> Manager \<Rightarrow> string \<Rightarrow> 'w \<Rightarrow>
    ((client_error + Consumer list \<times> string list \<times> (string, string) gomap) \<times> 'w) option" where
  "Consumers x m stream w =
     (if \<not> IsValidName stream then Some (Inl (Usage ''not a valid stream name''), w)
      else paged (\<lambda>l. (map (\<lambda>c. (consumerFromCfg (cn_Stream c) (cn_Name c) (cn_Config c))\<lparr> c_lastInfo := Some c \<rparr>)
                         (sort_key cn_Name (nl_consumers l)),
                       filter_missing (nl_missing l) (nl_offline l), nl_offline l))
        (iterableRequest x m (ty_consumerList x) clr_Page (JSApiConsumerListT stream)
           (\<lambda>offset. ConsumerListRequest \<lparr> iq_Offset = offset \<rparr>)
           (\<lambda>resp l. Inr (gather_consumers resp l)) \<lparr> nl_consumers = [], nl_missing = [], nl_offline = [] \<rparr> w))"

subsection \<open>The operations of a consumer\<close>

definition IsPullMode :: "Consumer \<Rightarrow> bool" where "IsPullMode c \<longleftrightarrow> cc_DeliverSubject (c_cfg c) = []"
definition IsPushMode :: "Consumer \<Rightarrow> bool" where "IsPushMode c \<longleftrightarrow> \<not> IsPullMode c"
definition IsDurable :: "Consumer \<Rightarrow> bool" where "IsDurable c \<longleftrightarrow> cc_Durable (c_cfg c) \<noteq> []"
definition IsEphemeral :: "Consumer \<Rightarrow> bool" where "IsEphemeral c \<longleftrightarrow> \<not> IsDurable c"
definition IsSampled :: "Consumer \<Rightarrow> bool" where "IsSampled c \<longleftrightarrow> cc_SampleFrequency (c_cfg c) \<noteq> []"
definition IsOverflowPriority :: "Consumer \<Rightarrow> bool" where "IsOverflowPriority c \<longleftrightarrow> cc_PriorityPolicy (c_cfg c) = PriorityOverflow"
definition IsPinnedClientPriority :: "Consumer \<Rightarrow> bool" where
  "IsPinnedClientPriority c \<longleftrightarrow> cc_PriorityPolicy (c_cfg c) = PriorityPinnedClient"
definition StartTime :: "Consumer \<Rightarrow> gotime" where
  "StartTime c = (case cc_OptStartTime (c_cfg c) of None \<Rightarrow> zeroTime | Some t \<Rightarrow> t)"

definition consumer_Reset :: "'w nats_client \<Rightarrow> Manager \<Rightarrow> Consumer \<Rightarrow> ('w, Consumer) api" where
  "consumer_Reset x m c = loadConfigForConsumer x m c"

definition consumer_UpdateConfiguration ::
  "'w nats_client \<Rightarrow> Manager \<Rightarrow> bytes \<Rightarrow> ConsumerOption list \<Rightarrow> Consumer \<Rightarrow> ('w, Consumer) api" where
  "consumer_UpdateConfiguration x m sha opts c =
     api_guard (IsDurable c) ''only durable consumers can be updated''
       (api_bind (api_lift (NewConsumerConfiguration sha (c_cfg c) opts)) (\<lambda>ncfg.
        api_bind (NewConsumerFromDefault x m sha (c_stream c) ncfg []) (\<lambda>_. consumer_Reset x m c)))"

definition ResetConsumerState :: "'w nats_client \<Rightarrow> Manager \<Rightarrow> u64 \<Rightarrow> Consumer \<Rightarrow> ('w, u64 \<times> Consumer) api" where
  "ResetConsumerState x m sq c =
     api_bind (jsonRequest x m (ty_consumerReset x) (JSApiConsumerResetT (c_stream c) (c_name c)) (Some (ConsumerResetRequest sq))) (\<lambda>resp.
       case crr_ConsumerInfo resp of
         None \<Rightarrow> api_fail Panic
       | Some nfo \<Rightarrow> api_ret (crr_ResetSeq resp, c\<lparr> c_cfg := cn_Config nfo, c_lastInfo := Some nfo \<rparr>))"

definition NextSubject :: "string \<Rightarrow> string \<Rightarrow> client_error + string" where
  "NextSubject stream consumer =
     (if \<not> IsValidName stream then Inl (Usage ''not a valid stream name'')
      else if \<not> IsValidName consumer then Inl (Usage ''not a valid consumer name'')
      else Inr (JSApiRequestNextT stream consumer))"

definition manager_NextSubject :: "Manager \<Rightarrow> string \<Rightarrow> string \<Rightarrow> client_error + string" where
  "manager_NextSubject m stream consumer =
     (case NextSubject stream consumer of Inl e \<Rightarrow> Inl e | Inr s \<Rightarrow> Inr (apiSubject m s))"

definition consumer_NextSubject :: "Manager \<Rightarrow> Consumer \<Rightarrow> string" where
  "consumer_NextSubject m c =
     (if \<not> IsPullMode c then []
      else (case manager_NextSubject m (c_stream c) (c_name c) of Inl _ \<Rightarrow> [] | Inr s \<Rightarrow> s))"

definition DirectSubject :: "string \<Rightarrow> client_error + string" where
  "DirectSubject stream =
     (if \<not> IsValidName stream then Inl (Usage ''not a valid stream name'') else Inr (JSDirectMsgGetT stream))"

definition AckSampleSubject :: "Consumer \<Rightarrow> string" where
  "AckSampleSubject c =
     (if cc_SampleFrequency (c_cfg c) = [] then [] else ''$JS.EVENT.METRIC.CONSUMER.ACK.'' @ c_stream c @ ''.'' @ c_name c)"

definition consumer_AdvisorySubject :: "Consumer \<Rightarrow> string" where
  "consumer_AdvisorySubject c = ''$JS.EVENT.ADVISORY.CONSUMER.*.'' @ c_stream c @ ''.'' @ c_name c"

definition consumer_MetricSubject :: "Consumer \<Rightarrow> string" where
  "consumer_MetricSubject c = ''$JS.EVENT.METRIC.CONSUMER.*.'' @ c_stream c @ ''.'' @ c_name c"

definition consumer_EvacuatePeer :: "'w nats_client \<Rightarrow> Manager \<Rightarrow> string \<Rightarrow> Consumer \<Rightarrow> ('w, unit) api" where
  "consumer_EvacuatePeer x m peer c =
     success_request x m (JSApiConsumerEvacuatePeerT (c_stream c) (c_name c)) (Some (ConsumerEvacuatePeerRequest peer))
       ''unknown error while evacuating peer''"

definition consumer_State :: "'w nats_client \<Rightarrow> Manager \<Rightarrow> Consumer \<Rightarrow> ('w, ConsumerInfo \<times> Consumer) api" where
  "consumer_State x m c =
     api_bind (loadConsumerInfo x m (c_stream c) (c_name c)) (\<lambda>s. api_ret (s, c\<lparr> c_lastInfo := Some s \<rparr>))"

definition consumer_LatestState :: "'w nats_client \<Rightarrow> Manager \<Rightarrow> Consumer \<Rightarrow> ('w, ConsumerInfo \<times> Consumer) api" where
  "consumer_LatestState x m c = (case c_lastInfo c of Some s \<Rightarrow> api_ret (s, c) | None \<Rightarrow> consumer_State x m c)"

definition consumer_ClusterInfo :: "'w nats_client \<Rightarrow> Manager \<Rightarrow> Consumer \<Rightarrow> ('w, ClusterInfo \<times> Consumer) api" where
  "consumer_ClusterInfo x m c =
     api_bind (consumer_LatestState x m c) (\<lambda>(nfo, c1).
       case cn_Cluster nfo of None \<Rightarrow> api_fail (Usage ''consumer has no cluster info'') | Some ci \<Rightarrow> api_ret (ci, c1))"

definition DeliveredState :: "'w nats_client \<Rightarrow> Manager \<Rightarrow> Consumer \<Rightarrow> ('w, SequenceInfo \<times> Consumer) api" where
  "DeliveredState x m c = api_bind (consumer_State x m c) (\<lambda>(info, c1). api_ret (cn_Delivered info, c1))"
definition AcknowledgedFloor :: "'w nats_client \<Rightarrow> Manager \<Rightarrow> Consumer \<Rightarrow> ('w, SequenceInfo \<times> Consumer) api" where
  "AcknowledgedFloor x m c = api_bind (consumer_State x m c) (\<lambda>(info, c1). api_ret (cn_AckFloor info, c1))"
definition PendingAcknowledgement :: "'w nats_client \<Rightarrow> Manager \<Rightarrow> Consumer \<Rightarrow> ('w, int \<times> Consumer) api" where
  "PendingAcknowledgement x m c = api_bind (consumer_State x m c) (\<lambda>(info, c1). api_ret (cn_NumAckPending info, c1))"
definition PendingMessages :: "'w nats_client \<Rightarrow> Manager \<Rightarrow> Consumer \<Rightarrow> ('w, u64 \<times> Consumer) api" where
  "PendingMessages x m c = api_bind (consumer_State x m c) (\<lambda>(info, c1). api_ret (cn_NumPending info, c1))"
definition WaitingClientPulls :: "'w nats_client \<Rightarrow> Manager \<Rightarrow> Consumer \<Rightarrow> ('w, int \<times> Consumer) api" where
  "WaitingClientPulls x m c = api_bind (consumer_State x m c) (\<lambda>(info, c1). api_ret (cn_NumWaiting info, c1))"
definition RedeliveryCount :: "'w nats_client \<Rightarrow> Manager \<Rightarrow> Consumer \<Rightarrow> ('w, int \<times> Consumer) api" where
  "RedeliveryCount x m c = api_bind (consumer_State x m c) (\<lambda>(info, c1). api_ret (cn_NumRedelivered info, c1))"

definition consumer_Delete :: "'w nats_client \<Rightarrow> Manager \<Rightarrow> Consumer \<Rightarrow> ('w, unit) api" where
  "consumer_Delete x m c =
     success_request x m (JSApiConsumerDeleteT (c_stream c) (c_name c)) None ''unknown response while removing consumer''"

definition consumer_LeaderStepDown :: "'w nats_client \<Rightarrow> Manager \<Rightarrow> Placement option list \<Rightarrow> Consumer \<Rightarrow> ('w, unit) api" where
  "consumer_LeaderStepDown x m placement c =
     api_guard (length placement \<le> 1) ''only one placement option allowed''
       (success_request x m (JSApiConsumerLeaderStepDownT (c_stream c) (c_name c))
          (Some (ConsumerLeaderStepDownRequest (case placement of [p] \<Rightarrow> p | _ \<Rightarrow> None))) ''unknown error while requesting leader step down'')"

definition Pause :: "'w nats_client \<Rightarrow> Manager \<Rightarrow> gotime \<Rightarrow> Consumer \<Rightarrow> ('w, JSApiConsumerPauseResponse) api" where
  "Pause x m deadline c =
     api_bind (rawRequest x m (ty_consumerPause x) (JSApiConsumerPauseT (c_stream c) (c_name c)) (Some (ConsumerPauseRequest deadline)))
       (\<lambda>resp. case resp of
          None \<Rightarrow> api_fail (Usage ''invalid response while pausing consumer'')
        | Some r \<Rightarrow> api_guard (cpr_Paused r) ''pause request failed, perhaps due to a time in the past'' (api_ret r))"

definition Resume :: "'w nats_client \<Rightarrow> Manager \<Rightarrow> Consumer \<Rightarrow> ('w, unit) api" where
  "Resume x m c =
     api_bind (rawRequest x m (ty_consumerPause x) (JSApiConsumerPauseT (c_stream c) (c_name c)) None)
       (\<lambda>resp. case resp of
          None \<Rightarrow> api_fail (Usage ''invalid response while resuming consumer'')
        | Some r \<Rightarrow> api_guard (\<not> cpr_Paused r) ''pause request failed for an unknown reason'' (api_ret ()))"

definition Unpin :: "'w nats_client \<Rightarrow> Manager \<Rightarrow> string \<Rightarrow> Consumer \<Rightarrow> ('w, unit) api" where
  "Unpin x m grp c =
     api_guard (grp \<noteq> []) ''group is required''
     (api_guard (cc_PriorityPolicy (c_cfg c) = PriorityPinnedClient) ''consumer is not configured for pinned clients''
       (api_bind (rawRequest x m (ty_consumerUnpin x) (JSApiConsumerUnpinT (c_stream c) (c_name c)) (Some (ConsumerUnpinRequest grp)))
          (\<lambda>_. api_ret ())))"

end
