(* ===== verification/Client_Props.thy ===== *)
theory Client_Props
  imports Client_Consumers
begin

text \<open>
  What the client of \<open>Client\<close>, \<open>Client_Streams\<close> and \<open>Client_Consumers\<close> guarantees: paging reaches
  every item and ends, invalid names never reach the server, and loading or creating.
\<close>

subsection \<open>Paging\<close>

text \<open>A list request whose pages, from offset \<open>off\<close>, hold the items of \<open>all\<close>, at most \<open>L\<close> each.\<close>

definition serves :: "(int \<Rightarrow> ('w, 'r) api) \<Rightarrow> ('r \<Rightarrow> JSApiIterableResponse) \<Rightarrow> ('r \<Rightarrow> 'i list) \<Rightarrow> 'i list \<Rightarrow> nat \<Rightarrow> bool" where
  "serves send page items all L \<longleftrightarrow> (\<forall>off w. 0 \<le> off \<longrightarrow> (\<exists>r w1. send off w = (Inr r, w1) \<and>
     page r = \<lparr> ir_Total = int (length all), ir_Offset = off, ir_Limit = int L \<rparr> \<and> items r = take L (drop (nat off) all)))"

lemma iterable_serves:
  assumes "serves send page items all L" and "0 < L" and "0 \<le> off" and "off \<le> int (length all)"
  shows "\<exists>w1. iterable_loop send page [] (\<lambda>r s. Inr (s @ items r)) off s w = Some ((None, s @ drop (nat off) all), w1)"
  using assms(3,4)
proof (induction "length all - nat off" arbitrary: off s w rule: less_induct)
  case less
  obtain r w1 where r: "send off w = (Inr r, w1)" "items r = take L (drop (nat off) all)"
    "page r = \<lparr> ir_Total = int (length all), ir_Offset = off, ir_Limit = int L \<rparr>"
    using assms(1) less(2) unfolding serves_def by blast
  show ?case
  proof (cases "off + int L \<ge> int (length all)")
    case True
    then have "items r = drop (nat off) all" using r(2) less(2) by simp
    then show ?thesis using True r by (subst iterable_loop.simps) (simp add: LastPage_def)
  next
    case False
    have split: "drop (nat off) all = take L (drop (nat off) all) @ drop (nat (off + int L)) all"
      using less(2) by (simp add: nat_add_distrib add.commute flip: drop_drop)
    have "length all - nat (off + int L) < length all - nat off" using False less(2) assms(2) by linarith
    then obtain w2 where "iterable_loop send page [] (\<lambda>r s. Inr (s @ items r)) (off + int L) (s @ items r) w1 =
        Some ((None, (s @ items r) @ drop (nat (off + int L)) all), w2)"
      using less(1) [of "off + int L" "s @ items r" w1] False less(2) by auto
    moreover have "(s @ items r) @ drop (nat (off + int L)) all = s @ drop (nat off) all" using split r(2) by simp
    ultimately show ?thesis using False r assms(2) by (subst iterable_loop.simps) (simp add: LastPage_def)
  qed
qed

definition stream_names_pages :: "'w nats_client \<Rightarrow> Manager \<Rightarrow> string option \<Rightarrow> int \<Rightarrow> ('w, JSApiStreamNamesResponse) api" where
  "stream_names_pages x m filt off = jsonRequest x m (ty_streamNames x) JSApiStreamNames
     (Some (StreamNamesRequest \<lparr> iq_Offset = off, snr_Subject = (case filt of Some s \<Rightarrow> s | None \<Rightarrow> []) \<rparr>))"

definition consumer_names_pages :: "'w nats_client \<Rightarrow> Manager \<Rightarrow> string \<Rightarrow> int \<Rightarrow> ('w, JSApiConsumerNamesResponse) api" where
  "consumer_names_pages x m stream off = jsonRequest x m (ty_consumerNames x) (JSApiConsumerNamesT stream)
     (Some (ConsumerNamesRequest \<lparr> iq_Offset = off \<rparr>))"

text \<open>
  C24. Against a server that pages a list by offset, with any positive page size, \<open>StreamNames\<close> and
  \<open>ConsumerNames\<close> terminate and return every name, sorted.
\<close>

theorem names_complete:
  assumes "nc_pageTotal x = []" and "0 < L"
  shows "(serves (stream_names_pages x m filt) snr_Page snr_Streams all L \<longrightarrow>
            (\<exists>w1. StreamNames x m filt w = Some (Inr (sort all), w1))) \<and>
         (IsValidName stream \<longrightarrow> serves (consumer_names_pages x m stream) cnr_Page cnr_Consumers all L \<longrightarrow>
            (\<exists>w1. ConsumerNames x m stream w = Some (Inr (sort all), w1)))"
proof (intro conjI impI)
  assume "serves (stream_names_pages x m filt) snr_Page snr_Streams all L"
  from iterable_serves [OF this assms(2), of 0 "[]" w] show "\<exists>w1. StreamNames x m filt w = Some (Inr (sort all), w1)"
    by (auto simp: StreamNames_def iterableRequest_def assms(1) paged_def stream_names_pages_def [abs_def])
next
  assume v: "IsValidName stream" and "serves (consumer_names_pages x m stream) cnr_Page cnr_Consumers all L"
  from iterable_serves [OF this(2) assms(2), of 0 "[]" w] show "\<exists>w1. ConsumerNames x m stream w = Some (Inr (sort all), w1)"
    by (auto simp: ConsumerNames_def iterableRequest_def assms(1) paged_def consumer_names_pages_def [abs_def] v)
qed

text \<open>A client of a server that answers the names request only, in pages of two.\<close>

definition no_response :: "'r response_type" where
  "no_response = \<lparr> rt_decode = (\<lambda>_. Inl ''unsupported''), rt_invalid = (\<lambda>_. []) \<rparr>"

definition sample_names_response :: "bytes \<Rightarrow> string + JSApiStreamNamesResponse" where
  "sample_names_response b =
     Inr \<lparr> r_Type = [], r_Error = None, snr_Page = \<lparr> ir_Total = 3, ir_Offset = int (length b), ir_Limit = 2 \<rparr>,
           snr_Streams = take 2 (drop (length b) [''C'', ''A'', ''B'']) \<rparr>"

definition sample_client :: "unit nats_client" where
  "sample_client = \<lparr> nc_request = (\<lambda>_ _ data _. api_ret data),
     nc_marshal = (\<lambda>q. case q of StreamNamesRequest r \<Rightarrow> replicate (nat (iq_Offset r)) CHR ''x'' | _ \<Rightarrow> []),
     nc_error = (\<lambda>_. Inl ''unsupported''), nc_literal = (\<lambda>_. True), nc_pageTotal = [], nc_invalidConfig = (\<lambda>_. []),
     ty_success = no_response, ty_streamCreate = no_response, ty_streamUpdate = no_response, ty_streamInfo = no_response,
     ty_streamNames = \<lparr> rt_decode = sample_names_response, rt_invalid = (\<lambda>_. []) \<rparr>, ty_streamList = no_response,
     ty_purge = no_response, ty_msgGet = no_response, ty_consumerInfo = no_response, ty_consumerReset = no_response,
     ty_consumerNames = no_response, ty_consumerList = no_response, ty_consumerPause = (\<lambda>_. Inl ''unsupported''),
     ty_consumerUnpin = (\<lambda>_. Inl ''unsupported''), ty_account = no_response \<rparr>"

definition sample_manager :: Manager where
  "sample_manager = \<lparr> mg_timeout = 5000000000, mg_validator = False, mg_apiPrefix = [], mg_eventPrefix = [], mg_domain = [],
     mg_pedantic = False, mg_apiLevel = None \<rparr>"

lemma sample_serves: "serves (stream_names_pages sample_client sample_manager None) snr_Page snr_Streams [''C'', ''A'', ''B''] 2"
proof -
  have "\<not> has_prefix (replicate n CHR ''x'') ''-ERR''" for n
    by (cases n) (auto simp: has_prefix_def)
  then show ?thesis
    by (simp add: serves_def stream_names_pages_def jsonRequest_def rawRequest_def manager_request_def requestWithTimeout_def
        sample_client_def sample_manager_def api_bind_def api_ret_def api_guard_def ParseErrorResponse_def IsErrorResponse_def
        sample_names_response_def ToError_def)
qed

theorem names_complete_witness:
  "\<exists>w1. StreamNames sample_client sample_manager None () = Some (Inr [''A'', ''B'', ''C''], w1)"
proof -
  have p: "nc_pageTotal sample_client = []" by (simp add: sample_client_def)
  from names_complete [OF p, of 2 sample_manager None "[''C'', ''A'', ''B'']" "()" "[]"] sample_serves
  have "\<exists>w1. StreamNames sample_client sample_manager None () = Some (Inr (sort [''C'', ''A'', ''B'']), w1)" by simp
  then show ?thesis by simp
qed

subsection \<open>Names and subjects\<close>

lemma valid_name_token:
  assumes "IsValidName n" shows "CHR ''.'' \<notin> set n" "n \<noteq> []"
  using assms by (auto simp: IsValidName_def contains_any_def nameStopChars_def list_ex_iff split: if_splits)

lemma subject_pair_eq:
  assumes "CHR ''.'' \<notin> set s" "CHR ''.'' \<notin> set s'"
  shows "s @ CHR ''.'' # c = s' @ CHR ''.'' # c' \<longleftrightarrow> s = s' \<and> c = c'"
proof
  assume "s @ CHR ''.'' # c = s' @ CHR ''.'' # c'"
  then have "cut_at (CHR ''.'') (s @ CHR ''.'' # c) = cut_at (CHR ''.'') (s' @ CHR ''.'' # c')" by simp
  then show "s = s' \<and> c = c'" using assms by (simp add: cut_at_append)
qed simp

text \<open>
  An operation that is given an invalid stream or consumer name fails and sends nothing; with
  valid names different streams and consumers have different subjects.
\<close>

theorem names_guarded:
  shows "\<not> IsValidName s \<Longrightarrow> snd (NewStreamFromDefault x m s dflt opts w) = w \<and> snd (LoadStream x m s w) = w \<and>
      snd (LoadOrNewStreamFromDefault x m s dflt opts w) = w \<and> snd (DeleteStream x m s w) = w \<and>
      snd (NewConsumerFromDefault x m sha s cdflt copts w) = w \<and> snd (LoadConsumer x m s c w) = w \<and>
      snd (DeleteConsumer x m s c w) = w \<and> snd (DeleteStreamMessage x m s q e w) = w"
    and "\<not> IsValidName c \<Longrightarrow> snd (LoadConsumer x m s c w) = w \<and> snd (LoadOrNewConsumerFromDefault x m sha s c cdflt copts w) = w \<and>
      snd (DeleteConsumer x m s c w) = w"
  by (simp_all add: NewStreamFromDefault_def LoadStream_def LoadOrNewStreamFromDefault_def DeleteStream_def NewConsumerFromDefault_def
      LoadConsumer_def DeleteConsumer_def DeleteStreamMessage_def LoadOrNewConsumerFromDefault_def consumer_guard_def stream_guard_def
      api_guard_def api_fail_def)

lemma consumer_subjects_differ:
  assumes "IsValidName s" "IsValidName c" "IsValidName s'" "IsValidName c'"
  shows "JSApiConsumerInfoT s c = JSApiConsumerInfoT s' c' \<longleftrightarrow> s = s' \<and> c = c'"
    and "JSApiConsumerDeleteT s c = JSApiConsumerDeleteT s' c' \<longleftrightarrow> s = s' \<and> c = c'"
  using valid_name_token(1) [OF assms(1)] valid_name_token(1) [OF assms(3)]
  by (simp_all add: JSApiConsumerInfoT_def JSApiConsumerDeleteT_def subject_pair_eq)

subsection \<open>Loading or creating\<close>

text \<open>
  \<open>LoadOrNewStream\<close> creates the stream it was asked for. \<open>LoadOrNewConsumer\<close> does not do the same: when
  the server answers that the consumer does not exist, the one it creates does not have the name it was
  asked for unless an option sets it.
\<close>

theorem load_or_new_consumer_ignores_name:
  assumes "IsValidName stream" "IsValidName name" and "LoadConsumer x m stream name w = (Inl e, w1)" "IsNatsError e 10014"
  shows "LoadOrNewConsumer x m sha stream name opts w = NewConsumer x m sha stream opts w1"
  using assms by (simp add: LoadOrNewConsumer_def LoadOrNewConsumerFromDefault_def consumer_guard_def stream_guard_def api_guard_def
      NewConsumer_def)

end
