(* ===== verification/Stream_Query.thy ===== *)
theory Stream_Query
  imports Client_Streams
begin

text \<open>
  \<open>src/stream_query.go\<close>: the options of a stream query, its matchers and \<open>QueryStreams\<close>, and
  \<open>SubjectIsSubsetMatch\<close>. A matcher threads the world through the streams it asks for their
  latest information; a stream that fetched it keeps it (\<open>LatestInformation\<close>). Compiled regular
  expressions are predicates, \<open>re\<close> is \<open>regexp.Compile\<close>; \<open>now\<close> is the clock of \<open>time.Since\<close>;
  \<open>eval\<close> compiles and runs an expression of \<open>src/match.go\<close> on a stream.
\<close>

record streamQuery =
  q_server :: "(string \<Rightarrow> bool) option"
  q_cluster :: "(string \<Rightarrow> bool) option"
  q_consumersLimit :: "int option"
  q_empty :: bool
  q_idlePeriod :: "duration option"
  q_createdPeriod :: "duration option"
  q_invert :: bool
  q_subject :: string
  q_replicas :: int
  q_mirroredIsSet :: bool
  q_sourcedIsSet :: bool
  q_expression :: string
  q_leader :: string
  q_apiLevel :: int

type_synonym StreamQueryOpt = "streamQuery \<Rightarrow> client_error + streamQuery"

definition zeroStreamQuery :: streamQuery where
  "zeroStreamQuery = \<lparr> q_server = None, q_cluster = None, q_consumersLimit = None, q_empty = False, q_idlePeriod = None,
     q_createdPeriod = None, q_invert = False, q_subject = [], q_replicas = 0, q_mirroredIsSet = False,
     q_sourcedIsSet = False, q_expression = [], q_leader = [], q_apiLevel = 0 \<rparr>"

definition StreamQueryApiLevelMin :: "int \<Rightarrow> StreamQueryOpt" where
  "StreamQueryApiLevelMin level q = Inr (q\<lparr> q_apiLevel := level \<rparr>)"
definition StreamQueryIsSourced :: StreamQueryOpt where
  "StreamQueryIsSourced q = Inr (q\<lparr> q_sourcedIsSet := True \<rparr>)"
definition StreamQueryIsMirror :: StreamQueryOpt where
  "StreamQueryIsMirror q = Inr (q\<lparr> q_mirroredIsSet := True \<rparr>)"
definition StreamQueryReplicas :: "u64 \<Rightarrow> StreamQueryOpt" where
  "StreamQueryReplicas r q = Inr (q\<lparr> q_replicas := sint r \<rparr>)"
definition StreamQuerySubjectWildcard :: "string \<Rightarrow> StreamQueryOpt" where
  "StreamQuerySubjectWildcard s q = Inr (q\<lparr> q_subject := s \<rparr>)"
definition StreamQueryServerName :: "(string \<Rightarrow> client_error + (string \<Rightarrow> bool)) \<Rightarrow> string \<Rightarrow> StreamQueryOpt" where
  "StreamQueryServerName re s q =
     (if s = [] then Inr q else (case re s of Inl e \<Rightarrow> Inl e | Inr p \<Rightarrow> Inr (q\<lparr> q_server := Some p \<rparr>)))"
definition StreamQueryClusterName :: "(string \<Rightarrow> client_error + (string \<Rightarrow> bool)) \<Rightarrow> string \<Rightarrow> StreamQueryOpt" where
  "StreamQueryClusterName re s q =
     (if s = [] then Inr q else (case re s of Inl e \<Rightarrow> Inl e | Inr p \<Rightarrow> Inr (q\<lparr> q_cluster := Some p \<rparr>)))"
definition StreamQueryFewerConsumersThan :: "u64 \<Rightarrow> StreamQueryOpt" where
  "StreamQueryFewerConsumersThan c q = Inr (q\<lparr> q_consumersLimit := Some (sint c) \<rparr>)"
definition StreamQueryWithoutMessages :: StreamQueryOpt where
  "StreamQueryWithoutMessages q = Inr (q\<lparr> q_empty := True \<rparr>)"
definition StreamQueryIdleLongerThan :: "duration \<Rightarrow> StreamQueryOpt" where
  "StreamQueryIdleLongerThan p q = Inr (q\<lparr> q_idlePeriod := Some p \<rparr>)"
definition StreamQueryOlderThan :: "duration \<Rightarrow> StreamQueryOpt" where
  "StreamQueryOlderThan p q = Inr (q\<lparr> q_createdPeriod := Some p \<rparr>)"
definition StreamQueryInvert :: StreamQueryOpt where
  "StreamQueryInvert q = Inr (q\<lparr> q_invert := True \<rparr>)"
definition StreamQueryLeaderServer :: "string \<Rightarrow> StreamQueryOpt" where
  "StreamQueryLeaderServer server q = Inr (q\<lparr> q_leader := server \<rparr>)"
definition StreamQueryExpression :: "string \<Rightarrow> StreamQueryOpt" where
  "StreamQueryExpression e q = Inr (q\<lparr> q_expression := e \<rparr>)"

subsection \<open>Subjects\<close>

text \<open>The loop of \<open>tokenizeSubjectIntoSlice\<close>: \<open>tok\<close> is \<open>subject[start:i]\<close>.\<close>

fun tokenize_loop :: "string list \<Rightarrow> string \<Rightarrow> string \<Rightarrow> string list" where
  "tokenize_loop tts tok [] = tts @ [tok]"
| "tokenize_loop tts tok (c # cs) =
     (if c = CHR ''.'' then tokenize_loop (tts @ [tok]) [] cs else tokenize_loop tts (tok @ [c]) cs)"

definition tokenizeSubjectIntoSlice :: "string list \<Rightarrow> string \<Rightarrow> string list" where
  "tokenizeSubjectIntoSlice tts subject = tokenize_loop tts [] subject"

text \<open>
  The loop of \<open>isSubsetMatchTokenized\<close> over \<open>test\<close>; \<open>tokens\<close> and \<open>test\<close> are what is left of both.
  \<open>t2 ! 0\<close> is read only when \<open>t2\<close> is not empty. The test \<open>i >= len(test)\<close> never holds.
\<close>

fun subset_loop :: "string list \<Rightarrow> string list \<Rightarrow> bool option" where
  "subset_loop tokens [] = None"
| "subset_loop [] (t2 # test) = Some False"
| "subset_loop (t1 # tokens) (t2 # test) =
     (if length t2 = 0 then Some False
      else if t2 ! 0 = CHR ''>'' \<and> length t2 = 1 then Some True
      else if length t1 = 0 \<or> t1 ! 0 = CHR ''>'' \<and> length t1 = 1 then Some False
      else if t1 ! 0 = CHR ''*'' \<and> length t1 = 1 then
        (if \<not> (t2 ! 0 = CHR ''*'' \<and> length t2 = 1) then Some False else subset_loop tokens test)
      else if t2 ! 0 \<noteq> CHR ''*'' \<and> t1 \<noteq> t2 then Some False
      else subset_loop tokens test)"

definition isSubsetMatchTokenized :: "string list \<Rightarrow> string list \<Rightarrow> bool" where
  "isSubsetMatchTokenized tokens test =
     (case subset_loop tokens test of Some b \<Rightarrow> b | None \<Rightarrow> length tokens = length test)"

definition isSubsetMatch :: "string list \<Rightarrow> string \<Rightarrow> bool" where
  "isSubsetMatch tokens test = isSubsetMatchTokenized tokens (tokenizeSubjectIntoSlice [] test)"

definition SubjectIsSubsetMatch :: "string \<Rightarrow> string \<Rightarrow> bool" where
  "SubjectIsSubsetMatch subject test = isSubsetMatch (tokenizeSubjectIntoSlice [] subject) test"

subsection \<open>Matchers\<close>

text \<open>\<open>time.Since\<close>: the difference is cut off at the bounds of a \<open>Duration\<close>.\<close>

definition time_Since :: "gotime \<Rightarrow> gotime \<Rightarrow> duration" where
  "time_Since now t = max (- (2 ^ 63)) (min (2 ^ 63 - 1) (now - t))"

text \<open>The loop all matchers share: \<open>keep\<close> decides on one stream, and may fetch its information.\<close>

type_synonym 'w stream_test = "Stream \<Rightarrow> ('w, bool \<times> Stream) api"

fun match_loop :: "('a \<Rightarrow> ('w, bool \<times> 'a) api) \<Rightarrow> 'a list \<Rightarrow> ('w, 'a list) api" where
  "match_loop keep [] = api_ret []"
| "match_loop keep (s # ss) =
     api_bind (keep s) (\<lambda>(b, s1). api_bind (match_loop keep ss) (\<lambda>rest. api_ret (if b then s1 # rest else rest)))"

definition with_info :: "'w nats_client \<Rightarrow> Manager \<Rightarrow> (StreamInfo \<Rightarrow> bool) \<Rightarrow> 'w stream_test" where
  "with_info x m p s =
     api_bind (LatestInformation x m s) (\<lambda>(nfo, s1). case nfo of None \<Rightarrow> api_fail Panic | Some i \<Rightarrow> api_ret (p i, s1))"

definition with_state :: "'w nats_client \<Rightarrow> Manager \<Rightarrow> (StreamState \<Rightarrow> bool) \<Rightarrow> 'w stream_test" where
  "with_state x m p s = api_bind (stream_LatestState x m s) (\<lambda>(st, s1). api_ret (p st, s1))"

definition with_cfg :: "(Stream \<Rightarrow> bool) \<Rightarrow> 'w stream_test" where
  "with_cfg p s = api_ret (p s, s)"

definition matchLeaderServer :: "'w nats_client \<Rightarrow> Manager \<Rightarrow> streamQuery \<Rightarrow> Stream list \<Rightarrow> ('w, Stream list) api" where
  "matchLeaderServer x m q streams =
     (if q_leader q = [] then api_ret streams
      else match_loop (with_info x m (\<lambda>nfo. case nfo_Cluster nfo of
             None \<Rightarrow> False
           | Some c \<Rightarrow> (\<not> q_invert q \<and> ci_Leader c = q_leader q) \<or> (q_invert q \<and> ci_Leader c \<noteq> q_leader q))) streams)"

definition matchMirrored :: "streamQuery \<Rightarrow> Stream list \<Rightarrow> ('w, Stream list) api" where
  "matchMirrored q streams =
     (if \<not> q_mirroredIsSet q then api_ret streams
      else match_loop (with_cfg (\<lambda>s. (\<not> q_invert q \<and> IsMirror s) \<or> (q_invert q \<and> \<not> IsMirror s))) streams)"

definition matchSourced :: "streamQuery \<Rightarrow> Stream list \<Rightarrow> ('w, Stream list) api" where
  "matchSourced q streams =
     (if \<not> q_sourcedIsSet q then api_ret streams
      else match_loop (with_cfg (\<lambda>s. (\<not> q_invert q \<and> IsSourced s) \<or> (q_invert q \<and> \<not> IsSourced s))) streams)"

definition matchReplicas :: "streamQuery \<Rightarrow> Stream list \<Rightarrow> ('w, Stream list) api" where
  "matchReplicas q streams =
     (if q_replicas q = 0 then api_ret streams
      else match_loop (with_cfg (\<lambda>s. (q_invert q \<and> sc_Replicas (s_cfg s) \<ge> q_replicas q) \<or>
             (\<not> q_invert q \<and> sc_Replicas (s_cfg s) \<le> q_replicas q))) streams)"

text \<open>The loop over the subjects of one stream; \<open>found\<close> is \<open>match\<close>.\<close>

fun subject_loop :: "streamQuery \<Rightarrow> bool \<Rightarrow> string list \<Rightarrow> bool" where
  "subject_loop q found [] = found"
| "subject_loop q found (subj # rest) =
     (let subMatch = SubjectIsSubsetMatch subj (q_subject q)
      in if q_invert q then subject_loop q (if \<not> subMatch then True else found) rest
         else if subMatch then True else subject_loop q found rest)"

definition matchSubjectWildcard :: "streamQuery \<Rightarrow> Stream list \<Rightarrow> ('w, Stream list) api" where
  "matchSubjectWildcard q streams =
     (if q_subject q = [] then api_ret streams
      else match_loop (with_cfg (\<lambda>s. subject_loop q False (sc_Subjects (s_cfg s)))) streams)"

definition matchCreatedPeriod :: "'w nats_client \<Rightarrow> Manager \<Rightarrow> gotime \<Rightarrow> streamQuery \<Rightarrow> Stream list \<Rightarrow> ('w, Stream list) api" where
  "matchCreatedPeriod x m now q streams =
     (case q_createdPeriod q of
        None \<Rightarrow> api_ret streams
      | Some p \<Rightarrow> match_loop (with_info x m (\<lambda>nfo.
          (\<not> q_invert q \<and> time_Since now (nfo_Created nfo) \<ge> p) \<or> (q_invert q \<and> time_Since now (nfo_Created nfo) \<le> p))) streams)"

definition matchIdlePeriod :: "'w nats_client \<Rightarrow> Manager \<Rightarrow> gotime \<Rightarrow> streamQuery \<Rightarrow> Stream list \<Rightarrow> ('w, Stream list) api" where
  "matchIdlePeriod x m now q streams =
     (case q_idlePeriod q of
        None \<Rightarrow> api_ret streams
      | Some p \<Rightarrow> match_loop (with_state x m (\<lambda>st.
          (let should = time_Since now (sst_LastTime st) > p in (\<not> q_invert q \<and> should) \<or> (q_invert q \<and> \<not> should)))) streams)"

definition matchEmpty :: "'w nats_client \<Rightarrow> Manager \<Rightarrow> streamQuery \<Rightarrow> Stream list \<Rightarrow> ('w, Stream list) api" where
  "matchEmpty x m q streams =
     (if \<not> q_empty q then api_ret streams
      else match_loop (with_state x m (\<lambda>st. (\<not> q_invert q \<and> sst_Msgs st = 0) \<or> (q_invert q \<and> sst_Msgs st > 0))) streams)"

definition matchConsumerLimit :: "'w nats_client \<Rightarrow> Manager \<Rightarrow> streamQuery \<Rightarrow> Stream list \<Rightarrow> ('w, Stream list) api" where
  "matchConsumerLimit x m q streams =
     (case q_consumersLimit q of
        None \<Rightarrow> api_ret streams
      | Some l \<Rightarrow> match_loop (with_state x m (\<lambda>st.
          (q_invert q \<and> sst_Consumers st \<ge> l) \<or> (\<not> q_invert q \<and> sst_Consumers st \<le> l))) streams)"

definition required_server_level :: "(string, string) gomap \<Rightarrow> int option" where
  "required_server_level meta =
     (case map_of meta ''_nats.req.level'' of
        None \<Rightarrow> Some 0
      | Some v \<Rightarrow> if v = [] then Some 0 else atoi v)"

definition matchApiLevel :: "streamQuery \<Rightarrow> Stream list \<Rightarrow> ('w, Stream list) api" where
  "matchApiLevel q streams =
     (if q_apiLevel q \<le> 0 then api_ret streams
      else match_loop (\<lambda>s. case required_server_level (sc_Metadata (s_cfg s)) of
          None \<Rightarrow> api_fail (Usage ''invalid metadata value'')
        | Some l \<Rightarrow> api_ret ((\<not> q_invert q \<and> l \<ge> q_apiLevel q) \<or> (q_invert q \<and> l < q_apiLevel q), s)) streams)"

definition matchCluster :: "'w nats_client \<Rightarrow> Manager \<Rightarrow> streamQuery \<Rightarrow> Stream list \<Rightarrow> ('w, Stream list) api" where
  "matchCluster x m q streams =
     (case q_cluster q of
        None \<Rightarrow> api_ret streams
      | Some p \<Rightarrow> match_loop (with_info x m (\<lambda>nfo.
          (let should = (case nfo_Cluster nfo of None \<Rightarrow> False | Some c \<Rightarrow> p (ci_Name c))
           in (\<not> q_invert q \<and> should) \<or> (q_invert q \<and> \<not> should)))) streams)"

definition matchServer :: "'w nats_client \<Rightarrow> Manager \<Rightarrow> streamQuery \<Rightarrow> Stream list \<Rightarrow> ('w, Stream list) api" where
  "matchServer x m q streams =
     (case q_server q of
        None \<Rightarrow> api_ret streams
      | Some p \<Rightarrow> match_loop (with_info x m (\<lambda>nfo.
          (let should = (case nfo_Cluster nfo of
                 None \<Rightarrow> False
               | Some c \<Rightarrow> list_ex (\<lambda>r. p (pi_Name r)) (ci_Replicas c) \<or> p (ci_Leader c))
           in (\<not> q_invert q \<and> should) \<or> (q_invert q \<and> \<not> should)))) streams)"

text \<open>\<open>eval\<close> compiles the expression; the outer failure is the compilation's.\<close>

definition matchExpression ::
  "'w nats_client \<Rightarrow> Manager \<Rightarrow> (string \<Rightarrow> client_error + (StreamConfig \<Rightarrow> StreamInfo \<Rightarrow> client_error + bool)) \<Rightarrow>
     streamQuery \<Rightarrow> Stream list \<Rightarrow> ('w, Stream list) api"
where
  "matchExpression x m eval q streams =
     (if q_expression q = [] then api_ret streams
      else (case eval (q_expression q) of
              Inl e \<Rightarrow> api_fail e
            | Inr program \<Rightarrow> match_loop (\<lambda>s. api_bind (LatestInformation x m s) (\<lambda>(nfo, s1).
                 case nfo of None \<Rightarrow> api_fail Panic
                 | Some i \<Rightarrow> api_bind (api_lift (program (s_cfg s) i)) (\<lambda>b. api_ret (b, s1)))) streams))"

definition stream_matchers ::
  "'w nats_client \<Rightarrow> Manager \<Rightarrow> (string \<Rightarrow> client_error + (StreamConfig \<Rightarrow> StreamInfo \<Rightarrow> client_error + bool)) \<Rightarrow> gotime \<Rightarrow>
     streamQuery \<Rightarrow> (Stream list \<Rightarrow> ('w, Stream list) api) list"
where
  "stream_matchers x m eval now q =
     [matchExpression x m eval q, matchCreatedPeriod x m now q, matchIdlePeriod x m now q, matchEmpty x m q,
      matchConsumerLimit x m q, matchCluster x m q, matchSubjectWildcard q, matchServer x m q, matchReplicas q,
      matchSourced q, matchMirrored q, matchLeaderServer x m q, matchApiLevel q]"

fun run_matchers :: "('a list \<Rightarrow> ('w, 'a list) api) list \<Rightarrow> 'a list \<Rightarrow> ('w, 'a list) api" where
  "run_matchers [] matched = api_ret matched"
| "run_matchers (f # fs) matched = api_bind (f matched) (run_matchers fs)"

definition QueryStreams ::
  "'w nats_client \<Rightarrow> Manager \<Rightarrow> (string \<Rightarrow> client_error + (StreamConfig \<Rightarrow> StreamInfo \<Rightarrow> client_error + bool)) \<Rightarrow> gotime \<Rightarrow>
     StreamQueryOpt list \<Rightarrow> 'w \<Rightarrow> ((client_error + Stream list) \<times> 'w) option"
where
  "QueryStreams x m eval now opts w =
     (case fold_err (\<lambda>f q. f q) opts zeroStreamQuery of
        Inl e \<Rightarrow> Some (Inl e, w)
      | Inr q \<Rightarrow>
          (case Streams x m None w of
             None \<Rightarrow> None
           | Some ((l, Some e), w1) \<Rightarrow> Some (Inl e, w1)
           | Some ((l, None), w1) \<Rightarrow> Some (run_matchers (stream_matchers x m eval now q) (sl_streams l) w1)))"

end
