(* ===== verification/Consumer_Query.thy ===== *)
theory Consumer_Query
  imports Client_Consumers Stream_Query
begin

text \<open>
  \<open>src/consumer_query.go\<close>: the options of a consumer query, its matchers and \<open>QueryConsumers\<close>.
  Most matchers ignore the error of \<open>LatestState\<close> and then see the zero information.
\<close>

record consumerQuery =
  p_replicas :: int
  p_expression :: string
  p_invert :: bool
  p_isPull :: bool
  p_isPush :: bool
  p_isBound :: bool
  p_isPinned :: bool
  p_waiting :: int
  p_ackPending :: int
  p_pending :: u64
  p_leader :: string
  p_apiLevel :: int
  p_ageLimit :: duration
  p_lastDeliveryLimit :: duration

type_synonym ConsumerQueryOpt = "consumerQuery \<Rightarrow> client_error + consumerQuery"

definition zeroConsumerQuery :: consumerQuery where
  "zeroConsumerQuery = \<lparr> p_replicas = 0, p_expression = [], p_invert = False, p_isPull = False, p_isPush = False,
     p_isBound = False, p_isPinned = False, p_waiting = 0, p_ackPending = 0, p_pending = 0, p_leader = [],
     p_apiLevel = 0, p_ageLimit = 0, p_lastDeliveryLimit = 0 \<rparr>"

definition ConsumerQueryApiLevelMin :: "int \<Rightarrow> ConsumerQueryOpt" where
  "ConsumerQueryApiLevelMin level q = Inr (q\<lparr> p_apiLevel := level \<rparr>)"
definition ConsumerQueryLeaderServer :: "string \<Rightarrow> ConsumerQueryOpt" where
  "ConsumerQueryLeaderServer server q = Inr (q\<lparr> p_leader := server \<rparr>)"
definition ConsumerQueryIsPull :: ConsumerQueryOpt where
  "ConsumerQueryIsPull q = Inr (q\<lparr> p_isPull := True \<rparr>)"
definition ConsumerQueryIsPush :: ConsumerQueryOpt where
  "ConsumerQueryIsPush q = Inr (q\<lparr> p_isPush := True \<rparr>)"
definition ConsumerQueryIsPinned :: ConsumerQueryOpt where
  "ConsumerQueryIsPinned q = Inr (q\<lparr> p_isPinned := True \<rparr>)"
definition ConsumerQueryIsBound :: ConsumerQueryOpt where
  "ConsumerQueryIsBound q = Inr (q\<lparr> p_isBound := True \<rparr>)"
definition ConsumerQueryWithFewerWaiting :: "int \<Rightarrow> ConsumerQueryOpt" where
  "ConsumerQueryWithFewerWaiting waiting q =
     (if waiting \<le> 0 then Inl (Usage ''waiting must be greater than zero'') else Inr (q\<lparr> p_waiting := waiting \<rparr>))"
definition ConsumerQueryWithFewerAckPending :: "int \<Rightarrow> ConsumerQueryOpt" where
  "ConsumerQueryWithFewerAckPending pending q =
     (if pending \<le> 0 then Inl (Usage ''pending must be greater than zero'') else Inr (q\<lparr> p_ackPending := pending \<rparr>))"
definition ConsumerQueryWithFewerPending :: "u64 \<Rightarrow> ConsumerQueryOpt" where
  "ConsumerQueryWithFewerPending pending q = Inr (q\<lparr> p_pending := pending \<rparr>)"
definition ConsumerQueryOlderThan :: "duration \<Rightarrow> ConsumerQueryOpt" where
  "ConsumerQueryOlderThan age q = Inr (q\<lparr> p_ageLimit := age \<rparr>)"
definition ConsumerQueryWithDeliverySince :: "duration \<Rightarrow> ConsumerQueryOpt" where
  "ConsumerQueryWithDeliverySince age q = Inr (q\<lparr> p_lastDeliveryLimit := age \<rparr>)"
definition ConsumerQueryReplicas :: "u64 \<Rightarrow> ConsumerQueryOpt" where
  "ConsumerQueryReplicas r q = Inr (q\<lparr> p_replicas := sint r \<rparr>)"
definition ConsumerQueryInvert :: ConsumerQueryOpt where
  "ConsumerQueryInvert q = Inr (q\<lparr> p_invert := True \<rparr>)"
definition ConsumerQueryExpression :: "string \<Rightarrow> ConsumerQueryOpt" where
  "ConsumerQueryExpression e q = Inr (q\<lparr> p_expression := e \<rparr>)"

subsection \<open>Matchers\<close>

definition cbMatcher :: "bool \<Rightarrow> (Consumer \<Rightarrow> ('w, bool \<times> Consumer) api) \<Rightarrow> Consumer list \<Rightarrow> ('w, Consumer list) api" where
  "cbMatcher onlyIf cb consumers = (if \<not> onlyIf then api_ret consumers else match_loop cb consumers)"

definition on_state :: "'w nats_client \<Rightarrow> Manager \<Rightarrow> (ConsumerInfo \<Rightarrow> bool) \<Rightarrow> Consumer \<Rightarrow> ('w, bool \<times> Consumer) api" where
  "on_state x m p c = (\<lambda>w.
     case consumer_LatestState x m c w of
       (Inl e, w1) \<Rightarrow> (Inr (p zeroConsumerInfo, c), w1)
     | (Inr (nfo, c1), w1) \<Rightarrow> (Inr (p nfo, c1), w1))"

definition on_cfg :: "(Consumer \<Rightarrow> bool) \<Rightarrow> Consumer \<Rightarrow> ('w, bool \<times> Consumer) api" where
  "on_cfg p c = api_ret (p c, c)"

definition cons_matchLeaderServer :: "'w nats_client \<Rightarrow> Manager \<Rightarrow> consumerQuery \<Rightarrow> Consumer list \<Rightarrow> ('w, Consumer list) api" where
  "cons_matchLeaderServer x m q = cbMatcher (p_leader q \<noteq> []) (on_state x m (\<lambda>nfo.
     case cn_Cluster nfo of None \<Rightarrow> False
     | Some ci \<Rightarrow> (\<not> p_invert q \<and> ci_Leader ci = p_leader q) \<or> (p_invert q \<and> ci_Leader ci \<noteq> p_leader q)))"

definition cons_matchReplicas :: "consumerQuery \<Rightarrow> Consumer list \<Rightarrow> ('w, Consumer list) api" where
  "cons_matchReplicas q = cbMatcher (p_replicas q > 0) (on_cfg (\<lambda>c.
     (\<not> p_invert q \<and> cc_Replicas (c_cfg c) \<le> p_replicas q) \<or> (p_invert q \<and> cc_Replicas (c_cfg c) \<ge> p_replicas q)))"

definition matchDelivery :: "'w nats_client \<Rightarrow> Manager \<Rightarrow> gotime \<Rightarrow> consumerQuery \<Rightarrow> Consumer list \<Rightarrow> ('w, Consumer list) api" where
  "matchDelivery x m now q = cbMatcher (p_lastDeliveryLimit q > 0) (on_state x m (\<lambda>nfo.
     case sq_Last (cn_Delivered nfo) of None \<Rightarrow> False
     | Some t \<Rightarrow> (\<not> p_invert q \<and> time_Since now t < p_lastDeliveryLimit q) \<or>
                (p_invert q \<and> time_Since now t > p_lastDeliveryLimit q)))"

definition matchAge :: "'w nats_client \<Rightarrow> Manager \<Rightarrow> gotime \<Rightarrow> consumerQuery \<Rightarrow> Consumer list \<Rightarrow> ('w, Consumer list) api" where
  "matchAge x m now q = cbMatcher (p_ageLimit q > 0) (on_state x m (\<lambda>nfo.
     \<not> IsZeroTime (cn_Created nfo) \<and>
     ((\<not> p_invert q \<and> time_Since now (cn_Created nfo) \<ge> p_ageLimit q) \<or>
      (p_invert q \<and> time_Since now (cn_Created nfo) < p_ageLimit q))))"

definition matchPending :: "'w nats_client \<Rightarrow> Manager \<Rightarrow> consumerQuery \<Rightarrow> Consumer list \<Rightarrow> ('w, Consumer list) api" where
  "matchPending x m q = cbMatcher (p_pending q > 0) (on_state x m (\<lambda>nfo.
     cn_NumPending nfo > 0 \<and> ((\<not> p_invert q \<and> cn_NumPending nfo < p_pending q) \<or> (p_invert q \<and> cn_NumPending nfo > p_pending q))))"

definition matchAckPending :: "'w nats_client \<Rightarrow> Manager \<Rightarrow> consumerQuery \<Rightarrow> Consumer list \<Rightarrow> ('w, Consumer list) api" where
  "matchAckPending x m q = cbMatcher (p_ackPending q > 0) (on_state x m (\<lambda>nfo.
     cn_NumAckPending nfo > 0 \<and>
     ((\<not> p_invert q \<and> cn_NumAckPending nfo < p_ackPending q) \<or> (p_invert q \<and> cn_NumAckPending nfo > p_ackPending q))))"

definition matchWaiting :: "'w nats_client \<Rightarrow> Manager \<Rightarrow> consumerQuery \<Rightarrow> Consumer list \<Rightarrow> ('w, Consumer list) api" where
  "matchWaiting x m q = cbMatcher (p_waiting q > 0) (on_state x m (\<lambda>nfo.
     cn_NumWaiting nfo > 0 \<and>
     ((\<not> p_invert q \<and> cn_NumWaiting nfo < p_waiting q) \<or> (p_invert q \<and> cn_NumWaiting nfo > p_waiting q))))"

definition group_count :: "ConsumerConfig \<Rightarrow> nat" where
  "group_count c = (case cc_PriorityGroups c of None \<Rightarrow> 0 | Some gs \<Rightarrow> length gs)"

definition matchPinned :: "'w nats_client \<Rightarrow> Manager \<Rightarrow> consumerQuery \<Rightarrow> Consumer list \<Rightarrow> ('w, Consumer list) api" where
  "matchPinned x m q = cbMatcher (p_isPinned q) (\<lambda>c.
     if \<not> IsPinnedClientPriority c then api_ret (False, c)
     else on_state x m (\<lambda>nfo.
       (let pinned = length (filter (\<lambda>g. pg_PinnedClientID g \<noteq> []) (cn_PriorityGroups nfo));
            isPinned = (pinned = group_count (cn_Config nfo))
        in (\<not> p_invert q \<and> isPinned) \<or> (p_invert q \<and> \<not> isPinned))) c)"

definition matchBound :: "'w nats_client \<Rightarrow> Manager \<Rightarrow> consumerQuery \<Rightarrow> Consumer list \<Rightarrow> ('w, Consumer list) api" where
  "matchBound x m q = cbMatcher (p_isBound q) (on_state x m (\<lambda>nfo.
     (let bound = (cn_PushBound nfo \<or> cn_NumWaiting nfo > 0) in (\<not> p_invert q \<and> bound) \<or> (p_invert q \<and> \<not> bound))))"

definition matchPush :: "consumerQuery \<Rightarrow> Consumer list \<Rightarrow> ('w, Consumer list) api" where
  "matchPush q = cbMatcher (p_isPush q) (on_cfg (\<lambda>c. (\<not> p_invert q \<and> IsPushMode c) \<or> (p_invert q \<and> \<not> IsPushMode c)))"

definition matchPull :: "consumerQuery \<Rightarrow> Consumer list \<Rightarrow> ('w, Consumer list) api" where
  "matchPull q = cbMatcher (p_isPull q) (on_cfg (\<lambda>c. (\<not> p_invert q \<and> IsPullMode c) \<or> (p_invert q \<and> \<not> IsPullMode c)))"

text \<open>\<open>strconv.Atoi\<close> with its error ignored, as in \<open>ParseInt\<close>.\<close>

definition cons_matchApiLevel :: "consumerQuery \<Rightarrow> Consumer list \<Rightarrow> ('w, Consumer list) api" where
  "cons_matchApiLevel q = cbMatcher (p_apiLevel q > 0) (on_cfg (\<lambda>c.
     (let l = (case map_of (cc_Metadata (c_cfg c)) ''_nats.req.level'' of
            None \<Rightarrow> 0
          | Some v \<Rightarrow> if v = [] then 0 else fst (ParseInt v))
      in (\<not> p_invert q \<and> l \<ge> p_apiLevel q) \<or> (p_invert q \<and> l < p_apiLevel q))))"

definition cons_matchExpression ::
  "'w nats_client \<Rightarrow> Manager \<Rightarrow> (string \<Rightarrow> client_error + (ConsumerConfig \<Rightarrow> ConsumerInfo \<Rightarrow> client_error + bool)) \<Rightarrow>
     consumerQuery \<Rightarrow> Consumer list \<Rightarrow> ('w, Consumer list) api"
where
  "cons_matchExpression x m eval q consumers =
     (if p_expression q = [] then api_ret consumers
      else (case eval (p_expression q) of
              Inl e \<Rightarrow> api_fail e
            | Inr program \<Rightarrow> match_loop (\<lambda>c. api_bind (consumer_LatestState x m c) (\<lambda>(nfo, c1).
                 api_bind (api_lift (program (c_cfg c) nfo)) (\<lambda>b. api_ret (b, c1)))) consumers))"

definition consumer_matchers ::
  "'w nats_client \<Rightarrow> Manager \<Rightarrow> (string \<Rightarrow> client_error + (ConsumerConfig \<Rightarrow> ConsumerInfo \<Rightarrow> client_error + bool)) \<Rightarrow> gotime \<Rightarrow>
     consumerQuery \<Rightarrow> (Consumer list \<Rightarrow> ('w, Consumer list) api) list"
where
  "consumer_matchers x m eval now q =
     [cons_matchExpression x m eval q, matchPull q, matchPush q, matchBound x m q, matchPinned x m q, matchAckPending x m q,
      matchWaiting x m q, matchPending x m q, matchAge x m now q, matchDelivery x m now q, cons_matchReplicas q,
      cons_matchLeaderServer x m q, cons_matchApiLevel q]"

definition QueryConsumers ::
  "'w nats_client \<Rightarrow> Manager \<Rightarrow> (string \<Rightarrow> client_error + (ConsumerConfig \<Rightarrow> ConsumerInfo \<Rightarrow> client_error + bool)) \<Rightarrow> gotime \<Rightarrow>
     ConsumerQueryOpt list \<Rightarrow> Stream \<Rightarrow> 'w \<Rightarrow> ((client_error + Consumer list) \<times> 'w) option"
where
  "QueryConsumers x m eval now opts s w =
     (case fold_err (\<lambda>f q. f q) opts zeroConsumerQuery of
        Inl e \<Rightarrow> Some (Inl e, w)
      | Inr q \<Rightarrow>
          if p_isPull q \<and> p_isPush q then Some (Inl (Usage ''cannot match pull and push concurrently''), w)
          else
            (case Consumers x m (sc_Name (s_cfg s)) w of
               None \<Rightarrow> None
             | Some (Inl e, w1) \<Rightarrow> Some (Inl e, w1)
             | Some (Inr (consumers, _, _), w1) \<Rightarrow> Some (run_matchers (consumer_matchers x m eval now q) consumers w1)))"

end
