(* ===== verification/Query_Props.thy ===== *)
theory Query_Props
  imports Consumer_Query Client_Props "HOL-Library.Multiset"
begin

text \<open>
  What the queries of \<open>Stream_Query\<close> and \<open>Consumer_Query\<close> select, and \<open>SubjectIsSubsetMatch\<close>
  against the meaning of subjects: the literal subjects a subject with wildcards stands for.
\<close>

subsection \<open>Subjects\<close>

lemma tokenize_loop_split: "tokenize_loop tts tok s = tts @ (case split_on (CHR ''.'') s of t # ts \<Rightarrow> (tok @ t) # ts | [] \<Rightarrow> [])"
proof (induction tts tok s rule: tokenize_loop.induct)
  case (2 tts tok c cs)
  then show ?case by (cases "split_on (CHR ''.'') cs") auto
qed simp

lemma tokenize_split: "tokenizeSubjectIntoSlice [] s = split_on (CHR ''.'') s"
  by (cases "split_on (CHR ''.'') s") (simp_all add: tokenizeSubjectIntoSlice_def tokenize_loop_split)

text \<open>
  The meaning of a subject: \<open>*\<close> stands for any one token, \<open>>\<close> at the end for one or more.
\<close>

fun stands_for :: "string list \<Rightarrow> string list \<Rightarrow> bool" where
  "stands_for [] ls = (ls = [])"
| "stands_for (p # ps) [] = False"
| "stands_for (p # ps) (l # ls) =
     (if p = ''>'' then ps = [] else (p = ''*'' \<or> p = l) \<and> stands_for ps ls)"

definition literal :: "string list \<Rightarrow> bool" where
  "literal ls \<longleftrightarrow> (\<forall>l \<in> set ls. l \<noteq> [] \<and> l \<noteq> ''*'' \<and> l \<noteq> ''>'')"

text \<open>Tokens that are not empty, with \<open>>\<close> only at the end.\<close>

fun subject_ok :: "string list \<Rightarrow> bool" where
  "subject_ok [] = True"
| "subject_ok (p # ps) = (p \<noteq> [] \<and> (p = ''>'' \<longrightarrow> ps = []) \<and> subject_ok ps)"

text \<open>No token of a test subject begins with \<open>*\<close> but is longer: the code takes it for a wildcard.\<close>

definition stars_ok :: "string list \<Rightarrow> bool" where
  "stars_ok ps \<longleftrightarrow> (\<forall>p \<in> set ps. p \<noteq> [] \<longrightarrow> hd p = CHR ''*'' \<longrightarrow> p = ''*'')"

text \<open>A literal subject that a subject stands for, avoiding one token where it can.\<close>

definition instance_of :: "string list \<Rightarrow> string list" where
  "instance_of ps = map (\<lambda>p. if p = ''*'' \<or> p = ''>'' then ''x'' else p) ps"

lemma instance_of: "subject_ok ps \<Longrightarrow> stands_for ps (instance_of ps) \<and> literal (instance_of ps)"
proof (induction ps)
  case (Cons p ps)
  have i: "instance_of (p # ps) = (if p = ''*'' \<or> p = ''>'' then ''x'' else p) # instance_of ps"
    by (simp only: instance_of_def list.map)
  have "literal (l # instance_of ps) = (l \<noteq> [] \<and> l \<noteq> ''*'' \<and> l \<noteq> ''>'')" for l
    using Cons by (auto simp only: literal_def subject_ok.simps list.set insert_iff)
  with Cons show ?case unfolding i by (cases "p = ''*''"; cases "p = ''>''") simp_all
qed (simp add: instance_of_def literal_def)

lemma stands_for_rest: "stands_for [''>''] ls \<longleftrightarrow> ls \<noteq> []"
  by (cases ls) simp_all

lemma single_token: "(s ! 0 = c \<and> length s = Suc 0) \<longleftrightarrow> s = [c]"
  by (cases s) auto

lemma subset_loop_step:
  assumes "t1 \<noteq> []" "t2 \<noteq> []"
  shows "subset_loop (t1 # tokens) (t2 # test) =
    (if t2 = ''>'' then Some True else if t1 = ''>'' then Some False
     else if t1 = ''*'' then (if t2 \<noteq> ''*'' then Some False else subset_loop tokens test)
     else if hd t2 \<noteq> CHR ''*'' \<and> t1 \<noteq> t2 then Some False else subset_loop tokens test)"
  using assms by (simp only: subset_loop.simps One_nat_def single_token hd_conv_nth length_0_conv if_False simp_thms)

text \<open>A token that stands apart from a given one.\<close>

lemma other_token: "\<exists>l. l \<noteq> [] \<and> l \<noteq> ''*'' \<and> l \<noteq> ''>'' \<and> l \<noteq> (t :: string)"
proof (cases "t = ''x''")
  case True
  then show ?thesis by (intro exI [of _ "''y''"]) simp
next
  case False
  then show ?thesis by (intro exI [of _ "''x''"]) auto
qed

lemma subset_tokens:
  assumes "subject_ok s" "subject_ok t" "stars_ok t"
  shows "isSubsetMatchTokenized s t \<longleftrightarrow> (\<forall>ls. literal ls \<longrightarrow> stands_for s ls \<longrightarrow> stands_for t ls)"
  using assms
proof (induction s t rule: subset_loop.induct)
  case (1 tokens)
  show ?case
  proof (cases tokens)
    case (Cons p ps)
    have "stands_for tokens (instance_of tokens)" "literal (instance_of tokens)" "instance_of tokens \<noteq> []"
      using instance_of [OF 1(1)] Cons by (auto simp: instance_of_def)
    then show ?thesis using Cons by (auto simp: isSubsetMatchTokenized_def)
  qed (simp add: isSubsetMatchTokenized_def)
next
  case (2 t2 test)
  have "literal []" by (simp add: literal_def)
  then show ?case by (auto simp: isSubsetMatchTokenized_def)
next
  case (3 t1 tokens t2 test)
  have ne: "t1 \<noteq> []" "t2 \<noteq> []" using 3(3,4) by auto
  note step = subset_loop_step [OF ne, of tokens test]
  have ok: "subject_ok tokens" "subject_ok test" "stars_ok test" using 3(3-5) by (auto simp: stars_ok_def)
  have star: "hd t2 = CHR ''*'' \<longleftrightarrow> t2 = ''*''" using 3(5) ne by (auto simp: stars_ok_def)
  have inst: "stands_for tokens (instance_of tokens)" "literal (instance_of tokens)" using instance_of [OF ok(1)] by auto
  consider (all) "t2 = ''>''" | (rest) "t2 \<noteq> ''>''" "t1 = ''>''" | (star) "t2 \<noteq> ''>''" "t1 = ''*''" "t2 \<noteq> ''*''"
    | (apart) "t2 \<noteq> ''>''" "t1 \<noteq> ''>''" "t1 \<noteq> ''*''" "t2 \<noteq> ''*''" "t1 \<noteq> t2"
    | (go) "t2 \<noteq> ''>''" "t1 \<noteq> ''>''" "t1 = ''*'' \<longrightarrow> t2 = ''*''" "t2 = ''*'' \<or> t1 = t2"
    by blast
  then show ?case
  proof cases
    case all
    then have "test = []" using 3(4) by simp
    moreover have "ls \<noteq> []" if "stands_for (t1 # tokens) ls" for ls using that by (cases ls) auto
    ultimately show ?thesis using all step by (simp add: isSubsetMatchTokenized_def stands_for_rest del: subset_loop.simps)
  next
    case rest
    then have "tokens = []" using 3(3) by simp
    have "\<exists>ls. literal ls \<and> ls \<noteq> [] \<and> \<not> stands_for (t2 # test) ls"
    proof (cases "t2 = ''*''")
      case True
      show ?thesis
      proof (cases test)
        case Nil
        then show ?thesis using rest by (intro exI [of _ "[''x'', ''x'']"]) (simp add: literal_def True)
      next
        case (Cons t ts)
        then show ?thesis using rest by (intro exI [of _ "[''x'']"]) (simp add: literal_def True)
      qed
    next
      case False
      obtain l where "l \<noteq> []" "l \<noteq> ''*''" "l \<noteq> ''>''" "l \<noteq> t2" using other_token by blast
      then show ?thesis using rest False by (intro exI [of _ "[l]"]) (simp add: literal_def)
    qed
    then show ?thesis using rest step \<open>tokens = []\<close>
      by (simp add: isSubsetMatchTokenized_def stands_for_rest del: subset_loop.simps)
  next
    case star
    obtain l where "l \<noteq> []" "l \<noteq> ''*''" "l \<noteq> ''>''" "l \<noteq> t2" using other_token by blast
    then have "literal (l # instance_of tokens)" "stands_for (t1 # tokens) (l # instance_of tokens)"
      "\<not> stands_for (t2 # test) (l # instance_of tokens)"
      using inst star by (auto simp: literal_def)
    moreover have "subset_loop (t1 # tokens) (t2 # test) = Some False" using step star by (simp del: subset_loop.simps)
    ultimately show ?thesis by (auto simp add: isSubsetMatchTokenized_def simp del: subset_loop.simps stands_for.simps)
  next
    case apart
    then have "literal (t1 # instance_of tokens)" "stands_for (t1 # tokens) (t1 # instance_of tokens)"
      "\<not> stands_for (t2 # test) (t1 # instance_of tokens)"
      using inst ne by (auto simp: literal_def)
    moreover have "subset_loop (t1 # tokens) (t2 # test) = Some False" using step apart star by (simp del: subset_loop.simps)
    ultimately show ?thesis by (auto simp add: isSubsetMatchTokenized_def simp del: subset_loop.simps stands_for.simps)
  next
    case go
    have loop: "subset_loop (t1 # tokens) (t2 # test) = subset_loop tokens test"
      using step go star by auto
    have ih: "isSubsetMatchTokenized tokens test \<longleftrightarrow> (\<forall>ls. literal ls \<longrightarrow> stands_for tokens ls \<longrightarrow> stands_for test ls)"
    proof (cases "t1 = ''*''")
      case True
      then show ?thesis using 3(1) [OF _ _ _ _ _ ok] ne go by (auto simp: single_token)
    next
      case False
      then show ?thesis using 3(2) [OF _ _ _ _ _ ok] ne go star by (auto simp: single_token hd_conv_nth)
    qed
    have "isSubsetMatchTokenized (t1 # tokens) (t2 # test) = isSubsetMatchTokenized tokens test"
      by (simp add: isSubsetMatchTokenized_def loop del: subset_loop.simps split: option.split)
    also have "\<dots> \<longleftrightarrow> (\<forall>ls. literal ls \<longrightarrow> stands_for (t1 # tokens) ls \<longrightarrow> stands_for (t2 # test) ls)"
      unfolding ih
    proof (intro iffI allI impI)
      fix ls assume a: "\<forall>ls. literal ls \<longrightarrow> stands_for tokens ls \<longrightarrow> stands_for test ls" "literal ls" "stands_for (t1 # tokens) ls"
      then obtain l ks where "ls = l # ks" by (cases ls) auto
      with a go show "stands_for (t2 # test) ls" by (auto simp: literal_def)
    next
      fix ls assume a: "\<forall>ls. literal ls \<longrightarrow> stands_for (t1 # tokens) ls \<longrightarrow> stands_for (t2 # test) ls" "literal ls" "stands_for tokens ls"
      let ?l = "if t1 = ''*'' then ''x'' else t1"
      have "literal (?l # ls)" "stands_for (t1 # tokens) (?l # ls)" using a go ne by (auto simp: literal_def)
      with a(1) have "stands_for (t2 # test) (?l # ls)" by blast
      with go show "stands_for test ls" by simp
    qed
    finally show ?thesis .
  qed
qed

text \<open>
  C22. \<open>SubjectIsSubsetMatch\<close> decides inclusion: it holds exactly when every literal subject the
  first stands for is one the second stands for. Both must be subjects, without empty tokens and
  with \<open>>\<close> only at the end, and no token of the second may begin with \<open>*\<close> and be longer.
\<close>

theorem subject_subset_iff_inclusion:
  assumes "subject_ok (split_on (CHR ''.'') s)" "subject_ok (split_on (CHR ''.'') t)" "stars_ok (split_on (CHR ''.'') t)"
  shows "SubjectIsSubsetMatch s t \<longleftrightarrow>
    (\<forall>ls. literal ls \<longrightarrow> stands_for (split_on (CHR ''.'') s) ls \<longrightarrow> stands_for (split_on (CHR ''.'') t) ls)"
  unfolding SubjectIsSubsetMatch_def isSubsetMatch_def tokenize_split by (rule subset_tokens [OF assms])

theorem subject_subset_iff_inclusion_witness:
  "SubjectIsSubsetMatch ''a.*'' ''a.>'' \<longleftrightarrow>
    (\<forall>ls. literal ls \<longrightarrow> stands_for [''a'', ''*''] ls \<longrightarrow> stands_for [''a'', ''>''] ls)"
  using subject_subset_iff_inclusion [of "''a.*''" "''a.>''"] by (simp add: stars_ok_def)

subsection \<open>Stream queries\<close>

text \<open>
  What each option of a query asks of a stream with configuration \<open>c\<close> and information \<open>i\<close>. Most
  options ask the opposite under \<open>StreamQueryInvert\<close>; the bounds on age, consumers and replicas
  keep their limit on both sides, and a stream without cluster is on neither side of the leader.
\<close>

definition pol :: "bool \<Rightarrow> bool \<Rightarrow> bool" where
  "pol invert b = (b \<noteq> invert)"

definition cluster_test :: "StreamInfo \<Rightarrow> (ClusterInfo \<Rightarrow> bool) \<Rightarrow> bool" where
  "cluster_test i p = (case nfo_Cluster i of None \<Rightarrow> False | Some c \<Rightarrow> p c)"

definition wants_age :: "gotime \<Rightarrow> streamQuery \<Rightarrow> StreamConfig \<Rightarrow> StreamInfo \<Rightarrow> bool" where
  "wants_age now q c i \<longleftrightarrow> (\<forall>p. q_createdPeriod q = Some p \<longrightarrow>
     (let age = time_Since now (nfo_Created i) in if q_invert q then age \<le> p else age \<ge> p))"

definition wants_idle :: "gotime \<Rightarrow> streamQuery \<Rightarrow> StreamConfig \<Rightarrow> StreamInfo \<Rightarrow> bool" where
  "wants_idle now q c i \<longleftrightarrow> (\<forall>p. q_idlePeriod q = Some p \<longrightarrow>
     pol (q_invert q) (time_Since now (sst_LastTime (nfo_State i)) > p))"

definition wants_empty :: "streamQuery \<Rightarrow> StreamConfig \<Rightarrow> StreamInfo \<Rightarrow> bool" where
  "wants_empty q c i \<longleftrightarrow> (q_empty q \<longrightarrow> pol (q_invert q) (sst_Msgs (nfo_State i) = 0))"

definition wants_consumers :: "streamQuery \<Rightarrow> StreamConfig \<Rightarrow> StreamInfo \<Rightarrow> bool" where
  "wants_consumers q c i \<longleftrightarrow> (\<forall>l. q_consumersLimit q = Some l \<longrightarrow>
     (if q_invert q then sst_Consumers (nfo_State i) \<ge> l else sst_Consumers (nfo_State i) \<le> l))"

definition wants_cluster :: "streamQuery \<Rightarrow> StreamConfig \<Rightarrow> StreamInfo \<Rightarrow> bool" where
  "wants_cluster q c i \<longleftrightarrow> (\<forall>p. q_cluster q = Some p \<longrightarrow> pol (q_invert q) (cluster_test i (\<lambda>ci. p (ci_Name ci))))"

definition wants_subject :: "streamQuery \<Rightarrow> StreamConfig \<Rightarrow> StreamInfo \<Rightarrow> bool" where
  "wants_subject q c i \<longleftrightarrow> (q_subject q \<noteq> [] \<longrightarrow>
     (\<exists>t \<in> set (sc_Subjects c). pol (q_invert q) (SubjectIsSubsetMatch t (q_subject q))))"

definition wants_server :: "streamQuery \<Rightarrow> StreamConfig \<Rightarrow> StreamInfo \<Rightarrow> bool" where
  "wants_server q c i \<longleftrightarrow> (\<forall>p. q_server q = Some p \<longrightarrow>
     pol (q_invert q) (cluster_test i (\<lambda>ci. (\<exists>r \<in> set (ci_Replicas ci). p (pi_Name r)) \<or> p (ci_Leader ci))))"

definition wants_replicas :: "streamQuery \<Rightarrow> StreamConfig \<Rightarrow> StreamInfo \<Rightarrow> bool" where
  "wants_replicas q c i \<longleftrightarrow> (q_replicas q \<noteq> 0 \<longrightarrow>
     (if q_invert q then sc_Replicas c \<ge> q_replicas q else sc_Replicas c \<le> q_replicas q))"

definition wants_sourced :: "streamQuery \<Rightarrow> StreamConfig \<Rightarrow> StreamInfo \<Rightarrow> bool" where
  "wants_sourced q c i \<longleftrightarrow> (q_sourcedIsSet q \<longrightarrow> pol (q_invert q) (sc_Sources c \<noteq> []))"

definition wants_mirror :: "streamQuery \<Rightarrow> StreamConfig \<Rightarrow> StreamInfo \<Rightarrow> bool" where
  "wants_mirror q c i \<longleftrightarrow> (q_mirroredIsSet q \<longrightarrow> pol (q_invert q) (sc_Mirror c \<noteq> None))"

definition wants_leader :: "streamQuery \<Rightarrow> StreamConfig \<Rightarrow> StreamInfo \<Rightarrow> bool" where
  "wants_leader q c i \<longleftrightarrow> (q_leader q \<noteq> [] \<longrightarrow> cluster_test i (\<lambda>ci. pol (q_invert q) (ci_Leader ci = q_leader q)))"

definition wants_level :: "streamQuery \<Rightarrow> StreamConfig \<Rightarrow> StreamInfo \<Rightarrow> bool" where
  "wants_level q c i \<longleftrightarrow> (q_apiLevel q > 0 \<longrightarrow>
     (\<exists>l. required_server_level (sc_Metadata c) = Some l \<and> pol (q_invert q) (l \<ge> q_apiLevel q)))"

definition stream_tests :: "gotime \<Rightarrow> streamQuery \<Rightarrow> (StreamConfig \<Rightarrow> StreamInfo \<Rightarrow> bool) list" where
  "stream_tests now q =
     [wants_age now q, wants_idle now q, wants_empty q, wants_consumers q, wants_cluster q, wants_subject q, wants_server q,
      wants_replicas q, wants_sourced q, wants_mirror q, wants_leader q, wants_level q]"

text \<open>A matcher that only filters: it sends no request and changes no element.\<close>

definition filters :: "('a list \<Rightarrow> ('w, 'a list) api) \<Rightarrow> ('a \<Rightarrow> bool) \<Rightarrow> ('a \<Rightarrow> bool) \<Rightarrow> bool" where
  "filters f good p \<longleftrightarrow> (\<forall>ss w. (\<forall>s \<in> set ss. good s) \<longrightarrow> f ss w = (Inr (filter p ss), w))"

named_theorems filter_intros

lemma match_loop_filter:
  assumes "\<And>s w. s \<in> set ss \<Longrightarrow> keep s w = (Inr (p s, s), w)"
  shows "match_loop keep ss w = (Inr (filter p ss), w)"
  using assms by (induction ss arbitrary: w) (simp_all add: api_ret_def api_bind_def)

lemma filters_loop [filter_intros]:
  assumes "\<And>s w. good s \<Longrightarrow> keep s w = (Inr (p s, s), w)"
  shows "filters (match_loop keep) good p"
  using assms by (auto simp: filters_def intro!: match_loop_filter)

lemma filters_all: "filters api_ret good (\<lambda>_. True)"
  by (simp add: filters_def api_ret_def)

lemma run_matchers_filter:
  assumes "list_all2 (\<lambda>f p. filters f good p) fs ps" and "\<forall>s \<in> set ss. good s"
  shows "run_matchers fs ss w = (Inr (filter (\<lambda>s. \<forall>p \<in> set ps. p s) ss), w)"
  using assms
proof (induction fs ps arbitrary: ss rule: list_all2_induct)
  case (Cons f fs p ps)
  then have "f ss w = (Inr (filter p ss), w)" by (simp add: filters_def)
  with Cons show ?case by (simp add: api_bind_def)
qed (simp add: api_ret_def)

definition informed :: "Stream \<Rightarrow> bool" where
  "informed s \<longleftrightarrow> s_lastInfo s \<noteq> None"

definition info_of :: "Stream \<Rightarrow> StreamInfo" where
  "info_of s = the (s_lastInfo s)"

lemma with_info_known: "informed s \<Longrightarrow> with_info x m p s w = (Inr (p (info_of s), s), w)"
  by (auto simp: informed_def info_of_def with_info_def LatestInformation_def api_bind_def api_ret_def)

lemma with_state_known: "informed s \<Longrightarrow> with_state x m p s w = (Inr (p (nfo_State (info_of s)), s), w)"
  by (auto simp: informed_def info_of_def with_state_def stream_LatestState_def LatestInformation_def api_bind_def api_ret_def)

lemma with_cfg_known: "with_cfg p s w = (Inr (p s, s), w)"
  by (simp add: with_cfg_def api_ret_def)

lemmas known = with_info_known with_state_known with_cfg_known

lemma subject_loop_iff:
  "subject_loop q found ss \<longleftrightarrow> found \<or> (\<exists>s \<in> set ss. pol (q_invert q) (SubjectIsSubsetMatch s (q_subject q)))"
  by (induction q found ss rule: subject_loop.induct) (auto simp: Let_def pol_def)

text \<open>A matcher that is off keeps everything; one that is on is the loop.\<close>

lemma filters_off: "f = api_ret \<Longrightarrow> (\<And>s. good s \<Longrightarrow> p s) \<Longrightarrow> filters f good p"
  by (auto simp: filters_def api_ret_def filter_id_conv)

lemma filters_on: "f = match_loop keep \<Longrightarrow> (\<And>s w. good s \<Longrightarrow> keep s w = (Inr (p s, s), w)) \<Longrightarrow> filters f good p"
  by (simp add: filters_loop)

definition level_readable :: "streamQuery \<Rightarrow> Stream \<Rightarrow> bool" where
  "level_readable q s \<longleftrightarrow> (q_apiLevel q > 0 \<longrightarrow> required_server_level (sc_Metadata (s_cfg s)) \<noteq> None)"

definition readable :: "streamQuery \<Rightarrow> Stream \<Rightarrow> bool" where
  "readable q s \<longleftrightarrow> informed s \<and> level_readable q s"

abbreviation on_stream :: "(StreamConfig \<Rightarrow> StreamInfo \<Rightarrow> bool) \<Rightarrow> Stream \<Rightarrow> bool" where
  "on_stream t s \<equiv> t (s_cfg s) (info_of s)"

lemma readable_known:
  assumes "readable q s"
  shows "with_info x m p s w = (Inr (p (info_of s), s), w)" "with_state x m p' s w = (Inr (p' (nfo_State (info_of s)), s), w)"
  using assms by (simp_all add: readable_def known)

lemma age_filters: "filters (matchCreatedPeriod x m now q) (readable q) (on_stream (wants_age now q))"
proof (cases "q_createdPeriod q")
  case None
  then show ?thesis by (intro filters_off) (auto simp: matchCreatedPeriod_def wants_age_def)
next
  case (Some p)
  then show ?thesis by (auto simp: filters_def matchCreatedPeriod_def intro!: match_loop_filter) (auto simp: wants_age_def readable_known Let_def)
qed

lemma idle_filters: "filters (matchIdlePeriod x m now q) (readable q) (on_stream (wants_idle now q))"
proof (cases "q_idlePeriod q")
  case None
  then show ?thesis by (intro filters_off) (auto simp: matchIdlePeriod_def wants_idle_def)
next
  case (Some p)
  then show ?thesis by (auto simp: filters_def matchIdlePeriod_def intro!: match_loop_filter) (auto simp: wants_idle_def readable_known Let_def pol_def)
qed

lemma empty_filters: "filters (matchEmpty x m q) (readable q) (on_stream (wants_empty q))"
proof (cases "q_empty q")
  case False
  then show ?thesis by (intro filters_off) (auto simp: matchEmpty_def wants_empty_def)
next
  case True
  then show ?thesis by (auto simp: filters_def matchEmpty_def intro!: match_loop_filter) (auto simp: wants_empty_def readable_known pol_def word_gt_0)
qed

lemma consumers_filters: "filters (matchConsumerLimit x m q) (readable q) (on_stream (wants_consumers q))"
proof (cases "q_consumersLimit q")
  case None
  then show ?thesis by (intro filters_off) (auto simp: matchConsumerLimit_def wants_consumers_def)
next
  case (Some l)
  then show ?thesis by (auto simp: filters_def matchConsumerLimit_def intro!: match_loop_filter) (auto simp: wants_consumers_def readable_known)
qed

lemma cluster_filters: "filters (matchCluster x m q) (readable q) (on_stream (wants_cluster q))"
proof (cases "q_cluster q")
  case None
  then show ?thesis by (intro filters_off) (auto simp: matchCluster_def wants_cluster_def)
next
  case (Some p)
  then show ?thesis
    by (auto simp: filters_def matchCluster_def intro!: match_loop_filter) (simp_all add: wants_cluster_def readable_known [of q], auto simp: Let_def pol_def cluster_test_def split: option.splits)
qed

lemma subject_filters: "filters (matchSubjectWildcard q) (readable q) (on_stream (wants_subject q))"
proof (cases "q_subject q = []")
  case True
  then show ?thesis by (intro filters_off) (auto simp: matchSubjectWildcard_def wants_subject_def)
next
  case False
  then show ?thesis by (auto simp: filters_def matchSubjectWildcard_def intro!: match_loop_filter) (auto simp: wants_subject_def with_cfg_known subject_loop_iff)
qed

lemma server_filters: "filters (matchServer x m q) (readable q) (on_stream (wants_server q))"
proof (cases "q_server q")
  case None
  then show ?thesis by (intro filters_off) (auto simp: matchServer_def wants_server_def)
next
  case (Some p)
  then show ?thesis
    by (auto simp: filters_def matchServer_def intro!: match_loop_filter) (simp_all add: wants_server_def readable_known [of q], auto simp: Let_def pol_def cluster_test_def list_ex_iff split: option.splits)
qed

lemma replicas_filters: "filters (matchReplicas q) (readable q) (on_stream (wants_replicas q))"
proof (cases "q_replicas q = 0")
  case True
  then show ?thesis by (intro filters_off) (auto simp: matchReplicas_def wants_replicas_def)
next
  case False
  then show ?thesis by (auto simp: filters_def matchReplicas_def intro!: match_loop_filter) (auto simp: wants_replicas_def with_cfg_known)
qed

lemma sourced_filters: "filters (matchSourced q) (readable q) (on_stream (wants_sourced q))"
proof (cases "q_sourcedIsSet q")
  case False
  then show ?thesis by (intro filters_off) (auto simp: matchSourced_def wants_sourced_def)
next
  case True
  then show ?thesis by (auto simp: filters_def matchSourced_def intro!: match_loop_filter) (auto simp: wants_sourced_def with_cfg_known IsSourced_def pol_def)
qed

lemma mirror_filters: "filters (matchMirrored q) (readable q) (on_stream (wants_mirror q))"
proof (cases "q_mirroredIsSet q")
  case False
  then show ?thesis by (intro filters_off) (auto simp: matchMirrored_def wants_mirror_def)
next
  case True
  then show ?thesis by (auto simp: filters_def matchMirrored_def intro!: match_loop_filter) (auto simp: wants_mirror_def with_cfg_known IsMirror_def pol_def)
qed

lemma leader_filters: "filters (matchLeaderServer x m q) (readable q) (on_stream (wants_leader q))"
proof (cases "q_leader q = []")
  case True
  then show ?thesis by (intro filters_off) (auto simp: matchLeaderServer_def wants_leader_def)
next
  case False
  then show ?thesis
    by (auto simp: filters_def matchLeaderServer_def intro!: match_loop_filter) (simp_all add: wants_leader_def readable_known [of q], auto simp: Let_def pol_def cluster_test_def split: option.splits)
qed

lemma level_filters: "filters (matchApiLevel q :: Stream list \<Rightarrow> ('w, Stream list) api) (readable q) (on_stream (wants_level q))"
proof (cases "q_apiLevel q \<le> 0")
  case True
  then show ?thesis by (intro filters_off) (auto simp: matchApiLevel_def wants_level_def)
next
  case False
  have "\<exists>l. required_server_level (sc_Metadata (s_cfg s)) = Some l" if "readable q s" for s
    using that False by (auto simp: readable_def level_readable_def)
  then have "(case required_server_level (sc_Metadata (s_cfg s)) of
          None \<Rightarrow> api_fail (Usage ''invalid metadata value'')
        | Some l \<Rightarrow> api_ret ((\<not> q_invert q \<and> l \<ge> q_apiLevel q) \<or> (q_invert q \<and> l < q_apiLevel q), s)) w =
      (Inr (on_stream (wants_level q) s, s), w)" if "readable q s" for s and w :: 'w
    using that False by (fastforce simp: wants_level_def pol_def api_ret_def)
  with False show ?thesis by (auto simp: filters_def matchApiLevel_def intro!: match_loop_filter)
qed

text \<open>The expression sees the configuration and the information; inverting a query does not change it.\<close>

definition wants_expression ::
  "(string \<Rightarrow> client_error + (StreamConfig \<Rightarrow> StreamInfo \<Rightarrow> client_error + bool)) \<Rightarrow> streamQuery \<Rightarrow> StreamConfig \<Rightarrow> StreamInfo \<Rightarrow> bool"
where
  "wants_expression eval q c i \<longleftrightarrow> (q_expression q \<noteq> [] \<longrightarrow> (\<exists>program. eval (q_expression q) = Inr program \<and> program c i = Inr True))"

text \<open>The query can judge the stream: its level metadata can be read, and the expression gives an answer.\<close>

definition judged ::
  "(string \<Rightarrow> client_error + (StreamConfig \<Rightarrow> StreamInfo \<Rightarrow> client_error + bool)) \<Rightarrow> streamQuery \<Rightarrow> StreamConfig \<Rightarrow> StreamInfo \<Rightarrow> bool"
where
  "judged eval q c i \<longleftrightarrow> (q_apiLevel q > 0 \<longrightarrow> required_server_level (sc_Metadata c) \<noteq> None) \<and>
     (q_expression q \<noteq> [] \<longrightarrow> (\<exists>program b. eval (q_expression q) = Inr program \<and> program c i = Inr b))"

definition decidable ::
  "(string \<Rightarrow> client_error + (StreamConfig \<Rightarrow> StreamInfo \<Rightarrow> client_error + bool)) \<Rightarrow> streamQuery \<Rightarrow> Stream \<Rightarrow> bool"
where
  "decidable eval q s \<longleftrightarrow> informed s \<and> on_stream (judged eval q) s"

lemma decidable_readable: "decidable eval q s \<Longrightarrow> readable q s"
  by (simp add: decidable_def judged_def readable_def level_readable_def)

lemma filters_mono: "filters f good p \<Longrightarrow> (\<And>s. good' s \<Longrightarrow> good s) \<Longrightarrow> filters f good' p"
  unfolding filters_def by blast

definition compiles :: "(string \<Rightarrow> client_error + (StreamConfig \<Rightarrow> StreamInfo \<Rightarrow> client_error + bool)) \<Rightarrow> streamQuery \<Rightarrow> bool" where
  "compiles eval q \<longleftrightarrow> (q_expression q \<noteq> [] \<longrightarrow> (\<exists>program. eval (q_expression q) = Inr program))"

lemma expression_filters:
  assumes "compiles eval q"
  shows "filters (matchExpression x m eval q) (decidable eval q) (on_stream (wants_expression eval q))"
proof (cases "q_expression q = []")
  case True
  then show ?thesis by (intro filters_off) (auto simp: matchExpression_def wants_expression_def)
next
  case False
  then obtain program where p: "eval (q_expression q) = Inr program" using assms by (auto simp: compiles_def)
  show ?thesis unfolding filters_def matchExpression_def if_not_P [OF False] p sum.case
  proof (intro allI impI match_loop_filter)
    fix ss :: "Stream list" and s and w :: 'a
    assume "\<forall>s \<in> set ss. decidable eval q s" "s \<in> set ss"
    then have s: "informed s" "on_stream (judged eval q) s" by (simp_all add: decidable_def)
    then obtain b where "program (s_cfg s) (info_of s) = Inr b" using False p by (auto simp: judged_def)
    with s(1) False p show "api_bind (LatestInformation x m s) (\<lambda>(nfo, s1). case nfo of None \<Rightarrow> api_fail Panic
        | Some i \<Rightarrow> api_bind (api_lift (program (s_cfg s) i)) (\<lambda>b. api_ret (b, s1))) w =
      (Inr (on_stream (wants_expression eval q) s, s), w)"
      by (auto simp: informed_def info_of_def LatestInformation_def api_bind_def api_ret_def api_lift_def wants_expression_def)
  qed
qed

lemma stream_matchers_filter:
  assumes "compiles eval q"
  shows "list_all2 (\<lambda>f p. filters f (decidable eval q) p) (stream_matchers x m eval now q)
    (map on_stream (wants_expression eval q # stream_tests now q))"
proof -
  note weak = filters_mono [OF _ decidable_readable]
  show ?thesis
    by (simp add: stream_matchers_def stream_tests_def expression_filters [OF assms] weak [OF age_filters] weak [OF idle_filters] weak [OF empty_filters]
        weak [OF consumers_filters] weak [OF cluster_filters] weak [OF subject_filters] weak [OF server_filters] weak [OF replicas_filters]
        weak [OF sourced_filters] weak [OF mirror_filters] weak [OF leader_filters] weak [OF level_filters])
qed

text \<open>The pages of the list of streams, and what is gathered from them.\<close>

definition stream_list_pages :: "'w nats_client \<Rightarrow> Manager \<Rightarrow> int \<Rightarrow> ('w, JSApiStreamListResponse) api" where
  "stream_list_pages x m off = jsonRequest x m (ty_streamList x) JSApiStreamList (Some (StreamListRequest \<lparr> iq_Offset = off, slr_Subject = [] \<rparr>))"

lemma iterable_gathers:
  assumes "serves send page items all L" and "0 < L" and "0 \<le> off" and "off \<le> int (length all)"
    and "\<And>r s. \<exists>s1. cb r s = Inr s1 \<and> mset (got s1) = mset (got s) + mset (map k (items r))"
  shows "\<exists>s1 w1. iterable_loop send page [] cb off s w = Some ((None, s1), w1) \<and>
    mset (got s1) = mset (got s) + mset (map k (drop (nat off) all))"
  using assms(3,4)
proof (induction "length all - nat off" arbitrary: off s w rule: less_induct)
  case less
  obtain r w1 where r: "send off w = (Inr r, w1)" "items r = take L (drop (nat off) all)"
    "page r = \<lparr> ir_Total = int (length all), ir_Offset = off, ir_Limit = int L \<rparr>"
    using assms(1) less(2) unfolding serves_def by blast
  obtain s1 where s1: "cb r s = Inr s1" "mset (got s1) = mset (got s) + mset (map k (items r))" using assms(5) by blast
  show ?case
  proof (cases "off + int L \<ge> int (length all)")
    case True
    then have "items r = drop (nat off) all" using r(2) less(2) by simp
    then show ?thesis using True r s1 by (subst iterable_loop.simps) (simp add: LastPage_def)
  next
    case False
    have split: "drop (nat off) all = items r @ drop (nat (off + int L)) all"
      using less(2) r(2) by (simp add: nat_add_distrib add.commute flip: drop_drop)
    have "length all - nat (off + int L) < length all - nat off" using False less(2) assms(2) by linarith
    then obtain s2 w2 where "iterable_loop send page [] cb (off + int L) s1 w1 = Some ((None, s2), w2)"
        "mset (got s2) = mset (got s1) + mset (map k (drop (nat (off + int L)) all))"
      using less(1) [of "off + int L" s1 w1] False less(2) by auto
    then show ?thesis using False r s1 assms(2) unfolding split
      by (subst iterable_loop.simps) (simp add: LastPage_def ac_simps)
  qed
qed

definition listed_stream :: "StreamInfo \<Rightarrow> Stream" where
  "listed_stream i = streamFromConfig (nfo_Config i) (Some i)"

lemma listed_stream_fields [simp]: "s_cfg (listed_stream i) = nfo_Config i" "info_of (listed_stream i) = i" "informed (listed_stream i)"
  by (simp_all add: listed_stream_def streamFromConfig_def info_of_def informed_def)

lemma Streams_complete:
  assumes "nc_pageTotal x = []" and "0 < L" and "serves (stream_list_pages x m) slr_Page slr_Streams all L"
  shows "\<exists>l w1. Streams x m None w = Some ((l, None), w1) \<and> mset (sl_streams l) = mset (map listed_stream all)"
proof -
  have "mset (sl_streams (gather_streams r l)) = mset (sl_streams l) + mset (map listed_stream (slr_Streams r))" for r l
    by (simp add: gather_streams_def listed_stream_def [abs_def])
  then have cb: "\<exists>s1. Inr (gather_streams r l) = Inr s1 \<and> mset (sl_streams s1) = mset (sl_streams l) + mset (map listed_stream (slr_Streams r))"
    for r l by blast
  from iterable_gathers [OF assms(3,2), of 0 "\<lambda>r l. Inr (gather_streams r l)" sl_streams listed_stream, OF _ _ cb]
  show ?thesis
    by (fastforce simp: Streams_def iterableRequest_def assms(1) stream_list_pages_def [abs_def])
qed

text \<open>
  C23. Against a server that pages its streams by offset, with any positive page size, \<open>QueryStreams\<close> with
  any options that are accepted (they make the query \<open>q\<close>) returns, and returns exactly the streams of
  the server that every option and the expression want, each once: the server holds \<open>all\<close>, and each test
  sees the configuration and the information it listed. The expression, if there is one, compiles, and the
  query can judge every stream: where it asks for an API level the level metadata can be read, and the
  expression gives an answer; otherwise \<open>QueryStreams\<close> can fail.
\<close>

theorem stream_query_selects:
  assumes "fold_err (\<lambda>f q. f q) opts zeroStreamQuery = Inr q" and "compiles eval q"
    and "nc_pageTotal x = []" and "0 < L" and "serves (stream_list_pages x m) slr_Page slr_Streams all L"
    and "\<forall>i \<in> set all. judged eval q (nfo_Config i) i"
  shows "\<exists>ss w1. QueryStreams x m eval now opts w = Some (Inr ss, w1) \<and>
    mset ss = mset (map listed_stream (filter (\<lambda>i. wants_expression eval q (nfo_Config i) i \<and> (\<forall>t \<in> set (stream_tests now q). t (nfo_Config i) i)) all))"
proof -
  obtain l w1 where l: "Streams x m None w = Some ((l, None), w1)" "mset (sl_streams l) = mset (map listed_stream all)"
    using Streams_complete [OF assms(3-5)] by blast
  let ?want = "\<lambda>s. on_stream (wants_expression eval q) s \<and> (\<forall>t \<in> set (stream_tests now q). on_stream t s)"
  have "set (sl_streams l) = listed_stream ` set all" using l(2) by (metis mset_eq_setD set_map)
  then have "\<forall>s \<in> set (sl_streams l). decidable eval q s" using assms(6) by (auto simp: decidable_def)
  from run_matchers_filter [OF stream_matchers_filter [OF assms(2)] this, of x m now w1]
  have "QueryStreams x m eval now opts w = Some (Inr (filter ?want (sl_streams l)), w1)"
    using assms(1) l(1) by (simp add: QueryStreams_def)
  moreover have "mset (filter ?want (sl_streams l)) = mset (filter ?want (map listed_stream all))" using l(2) by (simp only: mset_filter)
  then have "mset (filter ?want (sl_streams l)) = mset (map listed_stream (filter (\<lambda>i. wants_expression eval q (nfo_Config i) i \<and>
      (\<forall>t \<in> set (stream_tests now q). t (nfo_Config i) i)) all))"
    by (simp add: filter_map comp_def)
  ultimately show ?thesis by blast
qed

definition sample_info :: "string \<Rightarrow> u64 \<Rightarrow> StreamInfo" where
  "sample_info name n = \<lparr> nfo_Config = zeroStreamConfig name, nfo_Created = 0, nfo_State = zeroStreamState\<lparr> sst_Msgs := n \<rparr>,
     nfo_Domain = [], nfo_Cluster = None, nfo_Mirror = None, nfo_Sources = [], nfo_Alternates = [], nfo_TimeStamp = 0 \<rparr>"

text \<open>A server of two streams, one to a page, of which one is empty.\<close>

definition listing_client :: "unit nats_client" where
  "listing_client = sample_client\<lparr>
     nc_marshal := (\<lambda>q. case q of StreamListRequest r \<Rightarrow> replicate (nat (iq_Offset r)) CHR ''x'' | _ \<Rightarrow> []),
     ty_streamList := \<lparr> rt_decode = (\<lambda>b. Inr \<lparr> r_Type = [], r_Error = None,
         slr_Page = \<lparr> ir_Total = 2, ir_Offset = int (length b), ir_Limit = 1 \<rparr>,
         slr_Streams = take 1 (drop (length b) [sample_info ''A'' 0, sample_info ''B'' 3]), slr_Missing = [], slr_Offline = [] \<rparr>),
       rt_invalid = (\<lambda>_. []) \<rparr> \<rparr>"

lemma listing_serves:
  "serves (stream_list_pages listing_client sample_manager) slr_Page slr_Streams [sample_info ''A'' 0, sample_info ''B'' 3] 1"
proof -
  have "\<not> has_prefix (replicate n CHR ''x'') ''-ERR''" for n
    by (cases n) (auto simp: has_prefix_def)
  then show ?thesis
    by (simp add: serves_def stream_list_pages_def jsonRequest_def rawRequest_def manager_request_def requestWithTimeout_def
        listing_client_def sample_client_def sample_manager_def api_bind_def api_ret_def api_guard_def ParseErrorResponse_def IsErrorResponse_def
        ToError_def)
qed

theorem stream_query_selects_witness:
  "\<exists>w1. QueryStreams listing_client sample_manager (\<lambda>_. Inl Panic) 9 [\<lambda>q. Inr (q\<lparr> q_empty := True \<rparr>)] () =
     Some (Inr [listed_stream (sample_info ''A'' 0)], w1)"
proof -
  let ?q = "zeroStreamQuery\<lparr> q_empty := True \<rparr>" and ?all = "[sample_info ''A'' 0, sample_info ''B'' 3]"
  have "nc_pageTotal listing_client = []" by (simp add: listing_client_def sample_client_def)
  moreover have "compiles (\<lambda>_. Inl Panic) ?q" by (simp add: compiles_def zeroStreamQuery_def)
  moreover have "\<forall>i \<in> set ?all. judged (\<lambda>_. Inl Panic) ?q (nfo_Config i) i" by (simp add: judged_def zeroStreamQuery_def)
  moreover have "filter (\<lambda>i. wants_expression (\<lambda>_. Inl Panic) ?q (nfo_Config i) i \<and> (\<forall>t \<in> set (stream_tests 9 ?q). t (nfo_Config i) i)) ?all =
      [sample_info ''A'' 0]"
    by (simp add: stream_tests_def wants_age_def wants_idle_def wants_empty_def wants_consumers_def wants_cluster_def wants_subject_def
        wants_server_def wants_replicas_def wants_sourced_def wants_mirror_def wants_leader_def wants_level_def wants_expression_def pol_def
        zeroStreamQuery_def sample_info_def)
  ultimately show ?thesis
    using stream_query_selects [where opts = "[\<lambda>q. Inr (q\<lparr> q_empty := True \<rparr>)]" and q = ?q and x = listing_client and L = 1
        and m = sample_manager and all = ?all and eval = "\<lambda>_. Inl Panic" and w = "()" and now = 9] listing_serves
    by auto
qed

subsection \<open>Consumer queries\<close>

text \<open>
  The same for consumers whose state is at hand. A consumer with no pending, waiting or unacknowledged
  messages is on neither side of those limits.
\<close>

definition state_of :: "Consumer \<Rightarrow> ConsumerInfo" where
  "state_of c = the (c_lastInfo c)"

definition on_limit :: "bool \<Rightarrow> 'a :: linorder \<Rightarrow> 'a \<Rightarrow> bool" where
  "on_limit neg v l = (if neg then v > l else v < l)"

definition wants_consumer :: "gotime \<Rightarrow> consumerQuery \<Rightarrow> Consumer \<Rightarrow> bool" where
  "wants_consumer now q c \<longleftrightarrow>
     (let i = state_of c; neg = p_invert q
      in (p_isPull q \<longrightarrow> pol neg (IsPullMode c)) \<and> (p_isPush q \<longrightarrow> pol neg (IsPushMode c)) \<and>
         (p_isBound q \<longrightarrow> pol neg (cn_PushBound i \<or> cn_NumWaiting i > 0)) \<and>
         (p_isPinned q \<longrightarrow> IsPinnedClientPriority c \<and>
            pol neg (length (filter (\<lambda>g. pg_PinnedClientID g \<noteq> []) (cn_PriorityGroups i)) = group_count (cn_Config i))) \<and>
         (p_ackPending q > 0 \<longrightarrow> cn_NumAckPending i > 0 \<and> on_limit neg (cn_NumAckPending i) (p_ackPending q)) \<and>
         (p_waiting q > 0 \<longrightarrow> cn_NumWaiting i > 0 \<and> on_limit neg (cn_NumWaiting i) (p_waiting q)) \<and>
         (p_pending q > 0 \<longrightarrow> cn_NumPending i > 0 \<and> on_limit neg (cn_NumPending i) (p_pending q)) \<and>
         (p_ageLimit q > 0 \<longrightarrow> \<not> IsZeroTime (cn_Created i) \<and> pol neg (time_Since now (cn_Created i) \<ge> p_ageLimit q)) \<and>
         (p_lastDeliveryLimit q > 0 \<longrightarrow>
            (\<exists>t. sq_Last (cn_Delivered i) = Some t \<and> on_limit neg (time_Since now t) (p_lastDeliveryLimit q))) \<and>
         (p_replicas q > 0 \<longrightarrow> (if neg then cc_Replicas (c_cfg c) \<ge> p_replicas q else cc_Replicas (c_cfg c) \<le> p_replicas q)) \<and>
         (p_leader q \<noteq> [] \<longrightarrow> (\<exists>ci. cn_Cluster i = Some ci \<and> pol neg (ci_Leader ci = p_leader q))) \<and>
         (p_apiLevel q > 0 \<longrightarrow> pol neg ((case map_of (cc_Metadata (c_cfg c)) ''_nats.req.level'' of
            None \<Rightarrow> 0 | Some v \<Rightarrow> if v = [] then 0 else fst (ParseInt v)) \<ge> p_apiLevel q)))"

lemma on_state_known: "c_lastInfo c \<noteq> None \<Longrightarrow> on_state x m p c w = (Inr (p (state_of c), c), w)"
  by (auto simp: on_state_def consumer_LatestState_def state_of_def api_ret_def)

lemma run_step:
  assumes "filters f good p" and "\<forall>s \<in> set ss. good s"
  shows "run_matchers (f # fs) ss w = run_matchers fs (filter p ss) w"
  using assms by (simp add: filters_def api_bind_def)

lemma filters_cb:
  assumes "\<And>c w. good c \<Longrightarrow> on \<Longrightarrow> cb c w = (Inr (p c, c), w)"
  shows "filters (cbMatcher on cb) good (\<lambda>c. on \<longrightarrow> p c)"
proof (cases on)
  case True
  with assms show ?thesis by (auto simp: filters_def cbMatcher_def intro!: match_loop_filter)
qed (simp add: filters_def cbMatcher_def api_ret_def)

lemmas on_sides = on_cfg_def api_ret_def pol_def on_limit_def Let_def

definition stated :: "Consumer \<Rightarrow> bool" where
  "stated c \<longleftrightarrow> c_lastInfo c \<noteq> None"

lemma stated_known: "stated c \<Longrightarrow> on_state x m p c w = (Inr (p (state_of c), c), w)"
  by (simp add: stated_def on_state_known)

lemma mode_filters:
  "filters (matchPull q) stated (\<lambda>c. p_isPull q \<longrightarrow> pol (p_invert q) (IsPullMode c))"
  "filters (matchPush q) stated (\<lambda>c. p_isPush q \<longrightarrow> pol (p_invert q) (IsPushMode c))"
  "filters (cons_matchReplicas q) stated (\<lambda>c. p_replicas q > 0 \<longrightarrow>
     (if p_invert q then cc_Replicas (c_cfg c) \<ge> p_replicas q else cc_Replicas (c_cfg c) \<le> p_replicas q))"
  "filters (cons_matchApiLevel q) stated (\<lambda>c. p_apiLevel q > 0 \<longrightarrow>
     pol (p_invert q) ((case map_of (cc_Metadata (c_cfg c)) ''_nats.req.level'' of
        None \<Rightarrow> 0 | Some v \<Rightarrow> if v = [] then 0 else fst (ParseInt v)) \<ge> p_apiLevel q))"
  unfolding matchPull_def matchPush_def cons_matchReplicas_def cons_matchApiLevel_def
  by (rule filters_cb; auto simp: on_sides)+

lemma count_filters:
  "filters (matchBound x m q) stated (\<lambda>c. p_isBound q \<longrightarrow> pol (p_invert q) (cn_PushBound (state_of c) \<or> cn_NumWaiting (state_of c) > 0))"
  "filters (matchAckPending x m q) stated (\<lambda>c. p_ackPending q > 0 \<longrightarrow>
     cn_NumAckPending (state_of c) > 0 \<and> on_limit (p_invert q) (cn_NumAckPending (state_of c)) (p_ackPending q))"
  "filters (matchWaiting x m q) stated (\<lambda>c. p_waiting q > 0 \<longrightarrow>
     cn_NumWaiting (state_of c) > 0 \<and> on_limit (p_invert q) (cn_NumWaiting (state_of c)) (p_waiting q))"
  "filters (matchPending x m q) stated (\<lambda>c. p_pending q > 0 \<longrightarrow>
     cn_NumPending (state_of c) > 0 \<and> on_limit (p_invert q) (cn_NumPending (state_of c)) (p_pending q))"
  "filters (matchAge x m now q) stated (\<lambda>c. p_ageLimit q > 0 \<longrightarrow>
     \<not> IsZeroTime (cn_Created (state_of c)) \<and> pol (p_invert q) (time_Since now (cn_Created (state_of c)) \<ge> p_ageLimit q))"
  unfolding matchBound_def matchAckPending_def matchWaiting_def matchPending_def matchAge_def
  by (rule filters_cb; auto simp: stated_known on_sides)+

lemma pinned_filters: "filters (matchPinned x m q) stated (\<lambda>c. p_isPinned q \<longrightarrow> IsPinnedClientPriority c \<and>
    pol (p_invert q) (length (filter (\<lambda>g. pg_PinnedClientID g \<noteq> []) (cn_PriorityGroups (state_of c))) = group_count (cn_Config (state_of c))))"
  unfolding matchPinned_def by (rule filters_cb) (auto simp: stated_known on_sides)

lemma delivery_filters: "filters (matchDelivery x m now q) stated (\<lambda>c. p_lastDeliveryLimit q > 0 \<longrightarrow>
    (\<exists>t. sq_Last (cn_Delivered (state_of c)) = Some t \<and> on_limit (p_invert q) (time_Since now t) (p_lastDeliveryLimit q)))"
  unfolding matchDelivery_def
  by (rule filters_cb) (cases "p_invert q"; simp add: stated_known on_limit_def split: option.split)

lemma cons_leader_filters: "filters (cons_matchLeaderServer x m q) stated (\<lambda>c. p_leader q \<noteq> [] \<longrightarrow>
    (\<exists>ci. cn_Cluster (state_of c) = Some ci \<and> pol (p_invert q) (ci_Leader ci = p_leader q)))"
  unfolding cons_matchLeaderServer_def
  by (rule filters_cb) (auto simp: stated_known pol_def split: option.split)

text \<open>
  Querying consumers returns exactly the wanted ones, in order, without a request.
\<close>

theorem consumer_query_selects:
  assumes "p_expression q = []" and "\<forall>c \<in> set cs. stated c"
  shows "run_matchers (consumer_matchers x m eval now q) cs w = (Inr (filter (wants_consumer now q) cs), w)"
proof -
  have e: "filters (cons_matchExpression x m eval q) stated (\<lambda>_. True)"
    by (rule filters_off) (auto simp: cons_matchExpression_def assms(1))
  note steps = run_step [OF e] run_step [OF mode_filters(1)] run_step [OF mode_filters(2)] run_step [OF mode_filters(3)]
    run_step [OF mode_filters(4)] run_step [OF count_filters(1)] run_step [OF count_filters(2)] run_step [OF count_filters(3)]
    run_step [OF count_filters(4)] run_step [OF count_filters(5)] run_step [OF pinned_filters] run_step [OF delivery_filters]
    run_step [OF cons_leader_filters]
  have mem: "\<forall>c \<in> set (filter p cs). stated c" for p using assms(2) by simp
  show ?thesis
    unfolding consumer_matchers_def
    by (simp add: steps assms(2) mem api_ret_def del: run_matchers.simps(2))
       (rule filter_cong; simp add: wants_consumer_def Let_def; blast)
qed

end
