(* ===== verification/Stream_Gaps.thy ===== *)
theory Stream_Gaps
  imports Client_Streams
begin

text \<open>
  \<open>DetectGaps\<close> of \<open>src/streams.go\<close>, from the stream information on: the calls of the callbacks
  \<open>progress\<close> and \<open>gap\<close> in order, and whether the code goes on to walk the stream with a consumer.
\<close>

datatype gap_call = Progress u64 u64 | Gap u64 u64

text \<open>The loop over the deleted sequences, from index \<open>i\<close>; \<open>True\<close> when it ends without a return.\<close>

function (sequential) gap_loop :: "u64 list \<Rightarrow> u64 \<Rightarrow> u64 \<Rightarrow> nat \<Rightarrow> gap_call list \<times> bool" where
  "gap_loop del lst start i =
     (if length del \<le> i then ([], True)
      else
        (let sq = del ! i
         in if i = length del - 1 then
              (if sq - 1 = del ! (i - 1) then ([Progress sq (lst - sq), Gap start sq, Progress sq 0], False)
               else ([Progress sq (lst - sq), Gap sq sq], False))
            else if del ! (i + 1) \<noteq> sq + 1 then
              (let r = gap_loop del lst (del ! (i + 1)) (i + 1)
               in (Progress sq (lst - sq) # Gap start sq # Progress sq 0 # fst r, snd r))
            else (let r = gap_loop del lst start (i + 1) in (Progress sq (lst - sq) # fst r, snd r))))"
  by pat_completeness auto
termination by (relation "measure (\<lambda>(del, lst, start, i). length del - i)") auto

declare gap_loop.simps [simp del]

definition DetectGaps :: "StreamState \<Rightarrow> gap_call list \<times> bool" where
  "DetectGaps st =
     (let del = sst_Deleted st; p = Progress (sst_FirstSeq st) (sst_LastSeq st)
      in if length del = 0 then ([p], False)
         else if length del = 1 then ([p, Gap (del ! 0) (del ! 0), Progress (del ! 0) 0], False)
         else
           (let r = gap_loop del (sst_LastSeq st) (del ! 0) 0
            in (p # fst r, if snd r then int (length del) \<noteq> sst_NumDeleted st else False)))"

definition gaps_of :: "gap_call list \<Rightarrow> (u64 \<times> u64) list" where
  "gaps_of cs = List.map_filter (\<lambda>c. case c of Gap a b \<Rightarrow> Some (a, b) | Progress _ _ \<Rightarrow> None) cs"

lemma gaps_of_simps [simp]:
  "gaps_of [] = []" "gaps_of (Progress a b # cs) = gaps_of cs" "gaps_of (Gap a b # cs) = (a, b) # gaps_of cs"
  by (simp_all add: gaps_of_def map_filter_simps)

subsection \<open>The gaps are the runs of deleted sequences\<close>

text \<open>
  The specification: the maximal runs of consecutive sequences. The second argument is the run
  being built, as its first and last sequence.
\<close>

fun runs :: "u64 \<times> u64 \<Rightarrow> u64 list \<Rightarrow> (u64 \<times> u64) list" where
  "runs (a, b) [] = [(a, b)]"
| "runs (a, b) (s # ss) = (if s = b + 1 then runs (a, s) ss else (a, b) # runs (s, s) ss)"

text \<open>The loop never ends without a return: the walk with a consumer is not reached.\<close>

lemma gap_loop_returns: "i < length del \<Longrightarrow> \<not> snd (gap_loop del lst start i)"
proof (induction "length del - i" arbitrary: start i rule: less_induct)
  case less
  have "\<not> snd (gap_loop del lst s (Suc i))" if "i \<noteq> length del - 1" for s
    using less that by auto
  with less(2) show ?case by (subst gap_loop.simps) (simp add: Let_def)
qed

lemma gap_loop_runs:
  assumes "i < length del" and "0 < i \<longrightarrow> del ! i \<noteq> del ! (i - 1) + 1 \<longrightarrow> start = del ! i" and "1 < length del"
  shows "gaps_of (fst (gap_loop del lst start i)) = runs (start, del ! i) (drop (i + 1) del)"
  using assms(1,2)
proof (induction "length del - i" arbitrary: start i rule: less_induct)
  case less
  show ?case
  proof (cases "i = length del - 1")
    case True
    then show ?thesis using less(2,3) assms(3) by (subst gap_loop.simps) (auto simp: Let_def diff_eq_eq)
  next
    case False
    then have i: "Suc i < length del" using less(2) by simp
    have ih: "gaps_of (fst (gap_loop del lst s (Suc i))) = runs (s, del ! Suc i) (drop (Suc (Suc i)) del)"
      if "del ! Suc i \<noteq> del ! i + 1 \<longrightarrow> s = del ! Suc i" for s
      using less(1) [of "Suc i" s] i that by auto
    have "drop (i + 1) del = del ! Suc i # drop (Suc (Suc i)) del" using i by (simp add: Cons_nth_drop_Suc)
    with less(2) False show ?thesis by (subst gap_loop.simps) (simp add: Let_def ih)
  qed
qed

text \<open>Runs cover the sequences they are made of, and what lies between two runs is not deleted.\<close>

lemma runs_cover:
  assumes "a \<le> b" and "sorted_wrt (<) (b # ss)"
  shows "(\<exists>(x, y) \<in> set (runs (a, b) ss). x \<le> q \<and> q \<le> y) \<longleftrightarrow> (a \<le> q \<and> q \<le> b) \<or> q \<in> set ss"
  using assms
proof (induction "(a, b)" ss arbitrary: a b rule: runs.induct)
  case (2 a b s ss)
  show ?case
  proof (cases "s = b + 1")
    case True
    have "b < s" using 2(4) by simp
    then have "q \<le> s \<longleftrightarrow> q \<le> b \<or> q = s" using True inc_le [of b q] le_less_linear [of q b] by auto
    moreover have "a \<le> s" using 2(3) \<open>b < s\<close> by (rule order.strict_implies_order [OF order.strict_trans1])
    moreover have "sorted_wrt (<) (s # ss)" using 2(4) by simp
    ultimately show ?thesis using 2(1) [OF True] 2(3) \<open>b < s\<close> unfolding runs.simps if_P [OF True]
      by (simp only: list.set insert_iff) (blast intro: order.trans less_imp_le)
  next
    case False
    with 2(2) 2(3,4) show ?thesis by auto
  qed
qed simp

lemma runs_separated:
  assumes "a \<le> b" and "sorted_wrt (<) (b # ss)"
  shows "(\<forall>(x, y) \<in> set (runs (a, b) ss). a \<le> x \<and> x \<le> y) \<and> sorted_wrt (\<lambda>p q. snd p + 1 < fst q) (runs (a, b) ss)"
  using assms
proof (induction "(a, b)" ss arbitrary: a b rule: runs.induct)
  case (2 a b s ss)
  have bs: "b < s" "sorted_wrt (<) (s # ss)" using 2(4) by simp_all
  then have as: "a \<le> s" using 2(3) by (meson order.strict_implies_order order.strict_trans1)
  show ?case
  proof (cases "s = b + 1")
    case True
    from 2(1) [OF this as bs(2)] True show ?thesis by simp
  next
    case False
    have "b + 1 < s" using inc_le [OF bs(1)] False by (simp add: order_less_le)
    with 2(2) [OF False order_refl bs(2)] False 2(3) as show ?thesis
      by (fastforce intro: order.strict_trans2 order.trans)
  qed
qed auto

lemma DetectGaps_runs:
  "gaps_of (fst (DetectGaps st)) = (case sst_Deleted st of [] \<Rightarrow> [] | d # ds \<Rightarrow> runs (d, d) ds) \<and> \<not> snd (DetectGaps st)"
proof (cases "length (sst_Deleted st) \<le> 1")
  case True
  then show ?thesis by (cases "sst_Deleted st") (auto simp: DetectGaps_def Let_def)
next
  case False
  then obtain d ds where del: "sst_Deleted st = d # ds" "ds \<noteq> []" by (cases "sst_Deleted st") auto
  then show ?thesis
    using gap_loop_runs [of 0 "d # ds" d "sst_LastSeq st"] gap_loop_returns [of 0 "d # ds" "sst_LastSeq st" d]
    by (simp add: DetectGaps_def Let_def)
qed

text \<open>
  The documentation says that a stream with more deleted messages than the information lists is walked for
  the rest. The loop over the listed sequences returns at its last element, so that walk is never reached.
\<close>

lemma walk_never_reached: "\<not> snd (DetectGaps st)"
  by (simp add: DetectGaps_runs)

text \<open>
  C25. When the stream information lists all deleted sequences (as many as \<open>NumDeleted\<close> says, in ascending
  order), the gaps \<open>DetectGaps\<close> reports are the maximal runs of consecutive deleted sequences: they
  cover exactly the deleted sequences, each is an interval, and between two of them, which come in order,
  at least one sequence is not deleted. Nothing is said of an information that lists only a part.
\<close>

theorem detect_gaps_runs:
  assumes "int (length (sst_Deleted st)) = sst_NumDeleted st" and "sorted_wrt (<) (sst_Deleted st)"
  shows "((\<exists>(a, b) \<in> set (gaps_of (fst (DetectGaps st))). a \<le> q \<and> q \<le> b) \<longleftrightarrow> q \<in> set (sst_Deleted st)) \<and>
    (\<forall>(a, b) \<in> set (gaps_of (fst (DetectGaps st))). a \<le> b) \<and>
    sorted_wrt (\<lambda>p q. snd p + 1 < fst q) (gaps_of (fst (DetectGaps st))) \<and> \<not> snd (DetectGaps st)"
proof (cases "sst_Deleted st")
  case (Cons d ds)
  with assms(2) have "sorted_wrt (<) (d # ds)" by simp
  with Cons DetectGaps_runs [of st] runs_cover [of d d ds q] runs_separated [of d d ds] show ?thesis by auto
qed (use DetectGaps_runs [of st] in simp)

theorem detect_gaps_runs_witness:
  "let st = zeroStreamState\<lparr> sst_Deleted := [3, 4, 9], sst_NumDeleted := 3 \<rparr> in
   gaps_of (fst (DetectGaps st)) = [(3, 4), (9, 9)] \<and>
   \<not> (\<exists>(a, b) \<in> set (gaps_of (fst (DetectGaps st))). a \<le> 5 \<and> 5 \<le> b)"
  using detect_gaps_runs [of "zeroStreamState\<lparr> sst_Deleted := [3, 4, 9], sst_NumDeleted := 3 \<rparr>" 5]
    DetectGaps_runs [of "zeroStreamState\<lparr> sst_Deleted := [3, 4, 9], sst_NumDeleted := 3 \<rparr>"]
  by (simp add: Let_def)

end
