(* ===== verification/Context_Env.thy ===== *)
theory Context_Env
  imports Prelude "HOL-Library.AList"
begin

text \<open>
  What \<open>natscontext\<close> uses of the operating system: a file system of files and directories whose
  calls can fail, the environment and the home directory; the functions of \<open>path/filepath\<close>,
  \<open>strings\<close> and \<open>os\<close> it calls on names; and \<open>writeFileAtomic\<close> with its intermediate states.
\<close>

subsection \<open>Paths\<close>

text \<open>
  \<open>filepath.Clean\<close> on a system with \<open>/\<close>: the elements kept so far are in reverse, and \<open>rooted\<close>
  tells an absolute path, which has nothing above its root.
\<close>

fun clean_path :: "bool \<Rightarrow> string list \<Rightarrow> string list \<Rightarrow> string list" where
  "clean_path rooted [] done = List.rev done"
| "clean_path rooted (e # es) done =
     (if e = [] \<or> e = ''.'' then clean_path rooted es done
      else if e = ''..'' then
        (if done \<noteq> [] \<and> hd done \<noteq> ''..'' then clean_path rooted es (tl done)
         else if rooted then clean_path rooted es done
         else clean_path rooted es (''..'' # done))
      else clean_path rooted es (e # done))"

definition is_rooted :: "string \<Rightarrow> bool" where
  "is_rooted p = has_prefix p ''/''"

definition filepath_Clean :: "string \<Rightarrow> string" where
  "filepath_Clean p =
     (let es = clean_path (is_rooted p) (split_on (CHR ''/'') p) []
      in if is_rooted p then ''/'' @ join_with ''/'' es
         else if es = [] then ''.'' else join_with ''/'' es)"

fun filepath_Join :: "string list \<Rightarrow> string" where
  "filepath_Join [] = []"
| "filepath_Join (e # es) = (if e = [] then filepath_Join es else filepath_Clean (join_with ''/'' (e # es)))"

text \<open>\<open>filepath.Dir\<close>, \<open>Base\<close> and \<open>Ext\<close>.\<close>

definition filepath_Dir :: "string \<Rightarrow> string" where
  "filepath_Dir p = filepath_Clean (List.rev (dropWhile (\<lambda>c. c \<noteq> CHR ''/'') (List.rev p)))"

definition filepath_Base :: "string \<Rightarrow> string" where
  "filepath_Base p =
     (if p = [] then ''.''
      else let q = dropWhile (\<lambda>c. c = CHR ''/'') (List.rev p)
           in if q = [] then ''/'' else List.rev (takeWhile (\<lambda>c. c \<noteq> CHR ''/'') q))"

definition filepath_Ext :: "string \<Rightarrow> string" where
  "filepath_Ext p =
     (let b = List.rev (takeWhile (\<lambda>c. c \<noteq> CHR ''/'') (List.rev p));
          r = dropWhile (\<lambda>c. c \<noteq> CHR ''.'') (List.rev b)
      in if r = [] then [] else CHR ''.'' # List.rev (takeWhile (\<lambda>c. c \<noteq> CHR ''.'') (List.rev b)))"

subsection \<open>Strings\<close>

definition is_space :: "char \<Rightarrow> bool" where
  "is_space c \<longleftrightarrow> c \<in> {CHR '' '', CHR 0x09, CHR 0x0A, CHR 0x0B, CHR 0x0C, CHR 0x0D}"

text \<open>\<open>strings.TrimSpace\<close> and \<open>strings.TrimRight\<close>, on ASCII text.\<close>

definition trim_right :: "(char \<Rightarrow> bool) \<Rightarrow> string \<Rightarrow> string" where
  "trim_right f s = List.rev (dropWhile f (List.rev s))"

definition trim_space :: "string \<Rightarrow> string" where
  "trim_space s = trim_right is_space (dropWhile is_space s)"

text \<open>\<open>os.Expand\<close>: the name after a \<open>$\<close> and how many bytes it takes.\<close>

definition is_alnum :: "char \<Rightarrow> bool" where
  "is_alnum c \<longleftrightarrow> (let n = (of_char c :: nat)
     in c = CHR ''_'' \<or> (48 \<le> n \<and> n \<le> 57) \<or> (65 \<le> n \<and> n \<le> 90) \<or> (97 \<le> n \<and> n \<le> 122))"

definition is_special_var :: "char \<Rightarrow> bool" where
  "is_special_var c \<longleftrightarrow> c \<in> set ''*#$@!?-0123456789''"

definition shell_name :: "string \<Rightarrow> string \<times> nat" where
  "shell_name s =
     (case s of
        [] \<Rightarrow> ([], 0)
      | c # cs \<Rightarrow>
          if c = CHR ''{'' then
            (if length s > 2 \<and> is_special_var (s ! 1) \<and> s ! 2 = CHR ''}'' then ([s ! 1], 3)
             else case cut_at (CHR ''}'') cs of
               (nm, _, found) \<Rightarrow> if \<not> found then ([], 1) else if nm = [] then ([], 2) else (nm, length nm + 2))
          else if is_special_var c then ([c], 1)
          else (let nm = takeWhile is_alnum s in (nm, length nm)))"

function (sequential) expand_with :: "(string \<Rightarrow> string) \<Rightarrow> string \<Rightarrow> string" where
  "expand_with f [] = []"
| "expand_with f [c] = [c]"
| "expand_with f (c # d # cs) =
     (if c = CHR ''$'' then
        (case shell_name (d # cs) of
           (nm, k) \<Rightarrow>
             (if nm = [] then (if k > 0 then [] else [c]) else f nm) @ expand_with f (drop k (d # cs)))
      else c # expand_with f (d # cs))"
  by pat_completeness auto
termination by (relation "measure (\<lambda>(f, s). length s)") auto

subsection \<open>The operating system\<close>

datatype os_error =
    NotExist string
  | OsFault string string
  | NotADirectory string
  | NoRoot string

text \<open>
  Files by their clean path, the directories, the environment and the home directory. \<open>os_fault\<close>
  says which call fails on which path for a reason of the system (permissions, a full disk), after
  how many bytes a failing write stops and what the next temporary file is called.
\<close>

record os =
  os_files :: "(string \<times> bytes) list"
  os_dirs :: "string list"
  os_env :: "(string \<times> string) list"
  os_home :: "string option"
  os_fault :: "string \<Rightarrow> string \<Rightarrow> bool"
  os_partial :: nat
  os_random :: nat

definition os_ReadFile :: "string \<Rightarrow> os \<Rightarrow> os_error + bytes" where
  "os_ReadFile p w =
     (if os_fault w ''read'' p then Inl (OsFault ''read'' p)
      else case map_of (os_files w) p of None \<Rightarrow> Inl (NotExist p) | Some d \<Rightarrow> Inr d)"

definition os_Remove :: "string \<Rightarrow> os \<Rightarrow> os_error option \<times> os" where
  "os_Remove p w =
     (if os_fault w ''remove'' p then (Some (OsFault ''remove'' p), w)
      else if map_of (os_files w) p = None then (Some (NotExist p), w)
      else (None, w\<lparr> os_files := AList.delete p (os_files w) \<rparr>))"

text \<open>A path and what lies above it.\<close>

definition path_prefixes :: "string \<Rightarrow> string list" where
  "path_prefixes p =
     (let es = split_on (CHR ''/'') p in map (\<lambda>n. join_with ''/'' (take n es)) [1..<Suc (length es)])"

definition os_MkdirAll :: "string \<Rightarrow> os \<Rightarrow> os_error option \<times> os" where
  "os_MkdirAll p w =
     (if os_fault w ''mkdir'' p then (Some (OsFault ''mkdir'' p), w)
      else if list_ex (\<lambda>q. map_of (os_files w) q \<noteq> None) (path_prefixes p) then (Some (NotADirectory p), w)
      else (None, w\<lparr> os_dirs := path_prefixes p @ os_dirs w \<rparr>))"

record dir_entry =
  de_name :: string
  de_dir :: bool
  de_size :: "nat option"

text \<open>\<open>os.ReadDir\<close>: the entries sorted by name; a size that cannot be read is \<open>None\<close>.\<close>

definition entries_in :: "string \<Rightarrow> os \<Rightarrow> dir_entry list" where
  "entries_in p w =
     map (\<lambda>(f, d). \<lparr> de_name = filepath_Base f, de_dir = False,
            de_size = (if os_fault w ''stat'' f then None else Some (length d)) \<rparr>)
       (filter (\<lambda>(f, _). filepath_Dir f = p) (AList.clearjunk (os_files w))) @
     map (\<lambda>f. \<lparr> de_name = filepath_Base f, de_dir = True, de_size = Some 0 \<rparr>)
       (filter (\<lambda>f. filepath_Dir f = p \<and> f \<noteq> p) (remdups (os_dirs w)))"

definition os_ReadDir :: "string \<Rightarrow> os \<Rightarrow> os_error + dir_entry list" where
  "os_ReadDir p w =
     (if os_fault w ''readdir'' p then Inl (OsFault ''readdir'' p)
      else if p \<notin> set (os_dirs w) then Inl (NotExist p)
      else Inr (sort_key de_name (entries_in p w)))"

definition os_Stat :: "string \<Rightarrow> os \<Rightarrow> os_error option" where
  "os_Stat p w =
     (if os_fault w ''stat'' p then Some (OsFault ''stat'' p)
      else if map_of (os_files w) p = None \<and> p \<notin> set (os_dirs w) then Some (NotExist p) else None)"

definition os_Getenv :: "string \<Rightarrow> os \<Rightarrow> string" where
  "os_Getenv n w = (case map_of (os_env w) n of None \<Rightarrow> [] | Some v \<Rightarrow> v)"

definition os_ExpandEnv :: "string \<Rightarrow> os \<Rightarrow> string" where
  "os_ExpandEnv s w = expand_with (\<lambda>n. os_Getenv n w) s"

definition expandHomedir :: "string \<Rightarrow> os \<Rightarrow> string" where
  "expandHomedir path w =
     (let p = os_ExpandEnv path w
      in if p = [] \<or> hd p \<noteq> CHR ''~'' then p
         else case os_home w of None \<Rightarrow> p | Some h \<Rightarrow> h @ tl p)"

subsection \<open>Atomic writes\<close>

text \<open>
  \<open>writeFileAtomic\<close> as the states it goes through: after the temporary file is made, after the
  change of mode, after the write, after sync and close, and after the rename. A failed step is
  followed by the removal of the temporary file. What the program sees is the last state.
\<close>

definition put_file :: "string \<Rightarrow> bytes \<Rightarrow> os \<Rightarrow> os" where
  "put_file p d w = w\<lparr> os_files := AList.update p d (os_files w) \<rparr>"

definition temp_path :: "string \<Rightarrow> os \<Rightarrow> string" where
  "temp_path path w = filepath_Join [filepath_Dir path, filepath_Base path @ ''.tmp-'' @ itoa (os_random w)]"

definition write_steps :: "string \<Rightarrow> bytes \<Rightarrow> os \<Rightarrow> os_error option \<times> os list" where
  "write_steps path data w =
     (let dir = filepath_Dir path; tmp = temp_path path w; bad = (\<lambda>op. os_fault w op tmp);
          cleanup = (\<lambda>w1. snd (os_Remove tmp w1))
      in if bad ''create'' \<or> dir \<notin> set (os_dirs w) \<or> map_of (os_files w) tmp \<noteq> None
         then (Some (OsFault ''create'' tmp), [w])
         else let w1 = (put_file tmp [] w)\<lparr> os_random := os_random w + 1 \<rparr>;
                  w2 = put_file tmp data w1
              in if bad ''chmod'' then (Some (OsFault ''chmod'' tmp), [w, w1, cleanup w1])
                 else if bad ''write'' then
                   (let wp = put_file tmp (take (os_partial w) data) w1
                    in (Some (OsFault ''write'' tmp), [w, w1, wp, cleanup wp]))
                 else if bad ''sync'' then (Some (OsFault ''sync'' tmp), [w, w1, w2, cleanup w2])
                 else if bad ''close'' then (Some (OsFault ''close'' tmp), [w, w1, w2, cleanup w2])
                 else if os_fault w ''rename'' path \<or> path \<in> set (os_dirs w) then
                   (Some (OsFault ''rename'' path), [w, w1, w2, cleanup w2])
                 else (None, [w, w1, w2, put_file path data (w2\<lparr> os_files := AList.delete tmp (os_files w2) \<rparr>)]))"

definition writeFileAtomic :: "string \<Rightarrow> bytes \<Rightarrow> os \<Rightarrow> os_error option \<times> os" where
  "writeFileAtomic path data w = (case write_steps path data w of (e, ws) \<Rightarrow> (e, last ws))"

end
