(* ===== verification/Context_Backends.thy ===== *)
theory Context_Backends
  imports Context_Env
begin

text \<open>
  The backends and selectors of \<open>natscontext\<close> (\<open>backend.go\<close>, \<open>backend_memory.go\<close>,
  \<open>backend_file.go\<close>, \<open>backend_selector.go\<close>): contexts in memory, as files of a directory and as a
  single file, and the selected context in memory and in two files.
\<close>

datatype ctx_error =
    ErrNotFound string
  | ErrNameEmpty
  | ErrNameDots string
  | ErrNameSlash string
  | ErrOtherSlot string string
  | ErrActiveContext string
  | ErrNoneSelected
  | ErrReadOnly
  | ErrOs os_error
  | ErrTooManyCredentials
  | ErrCertStore string
  | ErrNoCertMatcher
  | ErrNoResolver string string
  | ErrResolver string
  | ErrField string ctx_error
  | ErrScheme string string
  | ErrJson string

fun is_invalid_name :: "ctx_error \<Rightarrow> bool" where
  "is_invalid_name ErrNameEmpty = True"
| "is_invalid_name (ErrNameDots _) = True"
| "is_invalid_name (ErrNameSlash _) = True"
| "is_invalid_name (ErrOtherSlot _ _) = True"
| "is_invalid_name _ = False"

definition ValidateName :: "string \<Rightarrow> ctx_error option" where
  "ValidateName name =
     (if name = [] then Some ErrNameEmpty
      else if contains_sub name ''..'' then Some (ErrNameDots name)
      else if contains_any name [CHR ''/'', CHR 0x5C] then Some (ErrNameSlash name)
      else None)"

text \<open>The interfaces \<open>Backend\<close> and \<open>Selector\<close>, with the methods found by type assertion as options.\<close>

record 'w Backend =
  bk_Load :: "string \<Rightarrow> 'w \<Rightarrow> ctx_error + bytes"
  bk_Save :: "string \<Rightarrow> bytes \<Rightarrow> 'w \<Rightarrow> ctx_error option \<times> 'w"
  bk_Delete :: "string \<Rightarrow> 'w \<Rightarrow> ctx_error option \<times> 'w"
  bk_List :: "'w \<Rightarrow> ctx_error + string list"
  bk_Path :: "(string \<Rightarrow> string) option"

record 'w Selector =
  sl_Selected :: "'w \<Rightarrow> ctx_error + string"
  sl_SetSelected :: "string \<Rightarrow> 'w \<Rightarrow> (ctx_error + string) \<times> 'w"
  sl_Previous :: "('w \<Rightarrow> ctx_error + string) option"

subsection \<open>Memory\<close>

text \<open>The operating system goes along for the embedding of credential files.\<close>

record MemoryBackend =
  mb_contexts :: "(string \<times> bytes) list"
  mb_selected :: string
  mb_previous :: string
  mb_os :: os

definition NewMemoryBackend :: "os \<Rightarrow> MemoryBackend" where
  "NewMemoryBackend w = \<lparr> mb_contexts = [], mb_selected = [], mb_previous = [], mb_os = w \<rparr>"

definition mem_Load :: "string \<Rightarrow> MemoryBackend \<Rightarrow> ctx_error + bytes" where
  "mem_Load name m =
     (case ValidateName name of
        Some e \<Rightarrow> Inl e
      | None \<Rightarrow> (case map_of (mb_contexts m) name of None \<Rightarrow> Inl (ErrNotFound name) | Some data \<Rightarrow> Inr data))"

definition mem_Save :: "string \<Rightarrow> bytes \<Rightarrow> MemoryBackend \<Rightarrow> ctx_error option \<times> MemoryBackend" where
  "mem_Save name data m =
     (case ValidateName name of
        Some e \<Rightarrow> (Some e, m)
      | None \<Rightarrow> (None, m\<lparr> mb_contexts := AList.update name data (mb_contexts m) \<rparr>))"

definition mem_Delete :: "string \<Rightarrow> MemoryBackend \<Rightarrow> ctx_error option \<times> MemoryBackend" where
  "mem_Delete name m =
     (case ValidateName name of
        Some e \<Rightarrow> (Some e, m)
      | None \<Rightarrow> (None, m\<lparr> mb_contexts := AList.delete name (mb_contexts m) \<rparr>))"

definition mem_List :: "MemoryBackend \<Rightarrow> ctx_error + string list" where
  "mem_List m = Inr (sort (map fst (AList.clearjunk (mb_contexts m))))"

definition mem_Selected :: "MemoryBackend \<Rightarrow> ctx_error + string" where
  "mem_Selected m = (if mb_selected m = [] then Inl ErrNoneSelected else Inr (mb_selected m))"

definition mem_SetSelected :: "string \<Rightarrow> MemoryBackend \<Rightarrow> (ctx_error + string) \<times> MemoryBackend" where
  "mem_SetSelected name m =
     (let previous = mb_selected m;
          m1 = (if previous \<noteq> [] then m\<lparr> mb_previous := previous \<rparr> else m)
      in (Inr previous, m1\<lparr> mb_selected := name \<rparr>))"

definition mem_Previous :: "MemoryBackend \<Rightarrow> ctx_error + string" where
  "mem_Previous m = (if mb_previous m = [] then Inl ErrNoneSelected else Inr (mb_previous m))"

definition memory_backend :: "MemoryBackend Backend" where
  "memory_backend = \<lparr> bk_Load = mem_Load, bk_Save = mem_Save, bk_Delete = mem_Delete, bk_List = mem_List, bk_Path = None \<rparr>"

definition memory_selector :: "MemoryBackend Selector" where
  "memory_selector = \<lparr> sl_Selected = mem_Selected, sl_SetSelected = mem_SetSelected, sl_Previous = Some mem_Previous \<rparr>"

subsection \<open>Selection in files\<close>

record FileSelector =
  fs_root :: string

definition defaultRoot :: "os \<Rightarrow> ctx_error + string" where
  "defaultRoot w =
     (let xdg = os_Getenv ''XDG_CONFIG_HOME'' w
      in if xdg \<noteq> [] then Inr xdg
         else case os_home w of
           None \<Rightarrow> Inl (ErrOs (OsFault ''user'' []))
         | Some h \<Rightarrow> if h = [] then Inl (ErrOs (NoRoot ''home'')) else Inr (filepath_Join [h, ''.config'']))"

definition NewDefaultFileSelector :: "os \<Rightarrow> ctx_error + FileSelector" where
  "NewDefaultFileSelector w = (case defaultRoot w of Inl e \<Rightarrow> Inl e | Inr r \<Rightarrow> Inr \<lparr> fs_root = r \<rparr>)"

definition selectedCtxFile :: string where
  "selectedCtxFile = ''context.txt''"

definition previousCtxFile :: string where
  "previousCtxFile = ''previous-context.txt''"

definition selectedPath :: "FileSelector \<Rightarrow> string" where
  "selectedPath fs = filepath_Join [fs_root fs, ''nats'', selectedCtxFile]"

definition previousPath :: "FileSelector \<Rightarrow> string" where
  "previousPath fs = filepath_Join [fs_root fs, ''nats'', previousCtxFile]"

definition wrap_os :: "os_error option \<times> os \<Rightarrow> ctx_error option \<times> os" where
  "wrap_os r = (map_option ErrOs (fst r), snd r)"

definition sel_ensureTree :: "FileSelector \<Rightarrow> os \<Rightarrow> ctx_error option \<times> os" where
  "sel_ensureTree fs w =
     (if fs_root fs = [] then (Some (ErrOs (NoRoot ''file selector'')), w)
      else wrap_os (os_MkdirAll (filepath_Join [fs_root fs, ''nats'']) w))"

definition readSelection :: "FileSelector \<Rightarrow> string \<Rightarrow> os \<Rightarrow> string" where
  "readSelection fs path w =
     (if fs_root fs = [] then []
      else case os_ReadFile path w of Inl _ \<Rightarrow> [] | Inr data \<Rightarrow> trim_space data)"

definition sel_Selected :: "FileSelector \<Rightarrow> os \<Rightarrow> ctx_error + string" where
  "sel_Selected fs w =
     (let name = readSelection fs (selectedPath fs) w in if name = [] then Inl ErrNoneSelected else Inr name)"

definition sel_Previous :: "FileSelector \<Rightarrow> os \<Rightarrow> ctx_error + string" where
  "sel_Previous fs w =
     (let name = readSelection fs (previousPath fs) w in if name = [] then Inl ErrNoneSelected else Inr name)"

definition ignore_missing :: "os_error option \<Rightarrow> ctx_error option" where
  "ignore_missing e = (case e of Some (NotExist _) \<Rightarrow> None | _ \<Rightarrow> map_option ErrOs e)"

definition sel_SetSelected :: "FileSelector \<Rightarrow> string \<Rightarrow> os \<Rightarrow> (ctx_error + string) \<times> os" where
  "sel_SetSelected fs name w =
     (case sel_ensureTree fs w of
        (Some e, w1) \<Rightarrow> (Inl e, w1)
      | (None, w1) \<Rightarrow>
          (let previous = readSelection fs (selectedPath fs) w1
           in case (if previous \<noteq> [] then wrap_os (writeFileAtomic (previousPath fs) previous w1) else (None, w1)) of
                (Some e, w2) \<Rightarrow> (Inl e, w2)
              | (None, w2) \<Rightarrow>
                  if name = [] then
                    (case os_Remove (selectedPath fs) w2 of
                       (e, w3) \<Rightarrow> (case ignore_missing e of Some e1 \<Rightarrow> (Inl e1, w3) | None \<Rightarrow> (Inr previous, w3)))
                  else
                    (case wrap_os (writeFileAtomic (selectedPath fs) name w2) of
                       (Some e, w3) \<Rightarrow> (Inl e, w3)
                     | (None, w3) \<Rightarrow> (Inr previous, w3))))"

definition file_selector :: "FileSelector \<Rightarrow> os Selector" where
  "file_selector fs = \<lparr> sl_Selected = sel_Selected fs, sl_SetSelected = sel_SetSelected fs, sl_Previous = Some (sel_Previous fs) \<rparr>"

subsection \<open>Contexts in files\<close>

record FileBackend =
  fb_root :: string
  fb_selector :: FileSelector

definition newFileBackend :: "string \<Rightarrow> FileBackend" where
  "newFileBackend root = \<lparr> fb_root = root, fb_selector = \<lparr> fs_root = root \<rparr> \<rparr>"

definition NewDefaultFileBackend :: "os \<Rightarrow> FileBackend" where
  "NewDefaultFileBackend w = (case defaultRoot w of Inl _ \<Rightarrow> newFileBackend [] | Inr root \<Rightarrow> newFileBackend root)"

definition contextDir :: "FileBackend \<Rightarrow> string" where
  "contextDir fb = filepath_Join [fb_root fb, ''nats'', ''context'']"

definition fb_Path :: "FileBackend \<Rightarrow> string \<Rightarrow> string" where
  "fb_Path fb name = filepath_Join [contextDir fb, name @ ''.json'']"

definition fb_ensureTree :: "FileBackend \<Rightarrow> os \<Rightarrow> ctx_error option \<times> os" where
  "fb_ensureTree fb w =
     (if fb_root fb = [] then (Some (ErrOs (NoRoot ''file backend'')), w) else wrap_os (os_MkdirAll (contextDir fb) w))"

definition fb_Load :: "FileBackend \<Rightarrow> string \<Rightarrow> os \<Rightarrow> ctx_error + bytes" where
  "fb_Load fb name w =
     (case ValidateName name of
        Some e \<Rightarrow> Inl e
      | None \<Rightarrow>
          if fb_root fb = [] then Inl (ErrNotFound name)
          else case os_ReadFile (fb_Path fb name) w of
            Inl (NotExist _) \<Rightarrow> Inl (ErrNotFound name)
          | Inl e \<Rightarrow> Inl (ErrOs e)
          | Inr data \<Rightarrow> Inr data)"

definition fb_Save :: "FileBackend \<Rightarrow> string \<Rightarrow> bytes \<Rightarrow> os \<Rightarrow> ctx_error option \<times> os" where
  "fb_Save fb name data w =
     (case ValidateName name of
        Some e \<Rightarrow> (Some e, w)
      | None \<Rightarrow>
          (case fb_ensureTree fb w of
             (Some e, w1) \<Rightarrow> (Some e, w1)
           | (None, w1) \<Rightarrow> wrap_os (writeFileAtomic (fb_Path fb name) data w1)))"

definition fb_Delete :: "FileBackend \<Rightarrow> string \<Rightarrow> os \<Rightarrow> ctx_error option \<times> os" where
  "fb_Delete fb name w =
     (case ValidateName name of
        Some e \<Rightarrow> (Some e, w)
      | None \<Rightarrow>
          if fb_root fb = [] then (Some (ErrOs (NoRoot ''file backend'')), w)
          else case os_Remove (fb_Path fb name) w of (e, w1) \<Rightarrow> (ignore_missing e, w1))"

text \<open>The name a directory entry stands for, if any.\<close>

definition entry_name :: "dir_entry \<Rightarrow> string option" where
  "entry_name e =
     (if de_dir e then None
      else case de_size e of
        None \<Rightarrow> None
      | Some n \<Rightarrow>
          if n = 0 then None
          else let ext = filepath_Ext (de_name e)
               in if ext \<noteq> ''.json'' then None
                  else let name = trim_suffix (de_name e) ext
                       in if ValidateName name \<noteq> None then None else Some name)"

definition fb_List :: "FileBackend \<Rightarrow> os \<Rightarrow> ctx_error + string list" where
  "fb_List fb w =
     (if fb_root fb = [] then Inr []
      else case os_ReadDir (contextDir fb) w of
        Inl (NotExist _) \<Rightarrow> Inr []
      | Inl e \<Rightarrow> Inl (ErrOs e)
      | Inr entries \<Rightarrow> Inr (sort (List.map_filter entry_name entries)))"

definition file_backend :: "FileBackend \<Rightarrow> os Backend" where
  "file_backend fb = \<lparr> bk_Load = fb_Load fb, bk_Save = fb_Save fb, bk_Delete = fb_Delete fb, bk_List = fb_List fb,
     bk_Path = Some (fb_Path fb) \<rparr>"

subsection \<open>A single file\<close>

record SingleFileBackend =
  sb_path :: string
  sb_name :: string

definition NewSingleFileBackend :: "string \<Rightarrow> SingleFileBackend" where
  "NewSingleFileBackend path =
     (let base = filepath_Base path; name = trim_suffix base (filepath_Ext base)
      in \<lparr> sb_path = path, sb_name = (if name = [] then base else name) \<rparr>)"

definition sb_other :: "SingleFileBackend \<Rightarrow> string \<Rightarrow> bool" where
  "sb_other sb name \<longleftrightarrow> name \<noteq> [] \<and> name \<noteq> sb_name sb"

definition sb_Path :: "SingleFileBackend \<Rightarrow> string \<Rightarrow> string" where
  "sb_Path sb name = (if sb_other sb name then [] else sb_path sb)"

definition sb_Load :: "SingleFileBackend \<Rightarrow> string \<Rightarrow> os \<Rightarrow> ctx_error + bytes" where
  "sb_Load sb name w =
     (if sb_other sb name then Inl (ErrNotFound name)
      else case os_ReadFile (sb_path sb) w of
        Inl (NotExist _) \<Rightarrow> Inl (ErrNotFound (sb_name sb))
      | Inl e \<Rightarrow> Inl (ErrOs e)
      | Inr data \<Rightarrow> Inr data)"

definition sb_Save :: "SingleFileBackend \<Rightarrow> string \<Rightarrow> bytes \<Rightarrow> os \<Rightarrow> ctx_error option \<times> os" where
  "sb_Save sb name data w =
     (if sb_other sb name then (Some (ErrOtherSlot (sb_name sb) name), w)
      else case os_MkdirAll (filepath_Dir (sb_path sb)) w of
        (Some e, w1) \<Rightarrow> (Some (ErrOs e), w1)
      | (None, w1) \<Rightarrow> wrap_os (writeFileAtomic (sb_path sb) data w1))"

definition sb_Delete :: "SingleFileBackend \<Rightarrow> string \<Rightarrow> os \<Rightarrow> ctx_error option \<times> os" where
  "sb_Delete sb name w =
     (if sb_other sb name then (None, w)
      else case os_Remove (sb_path sb) w of (e, w1) \<Rightarrow> (ignore_missing e, w1))"

definition sb_List :: "SingleFileBackend \<Rightarrow> os \<Rightarrow> ctx_error + string list" where
  "sb_List sb w =
     (case os_Stat (sb_path sb) w of
        Some (NotExist _) \<Rightarrow> Inr []
      | Some e \<Rightarrow> Inl (ErrOs e)
      | None \<Rightarrow> Inr [sb_name sb])"

definition single_file_backend :: "SingleFileBackend \<Rightarrow> os Backend" where
  "single_file_backend sb = \<lparr> bk_Load = sb_Load sb, bk_Save = sb_Save sb, bk_Delete = sb_Delete sb, bk_List = sb_List sb,
     bk_Path = Some (sb_Path sb) \<rparr>"

end
