(* ===== verification/Context_Settings.thy ===== *)
theory Context_Settings
  imports Context_Backends
begin

text \<open>
  The settings of a context (\<open>context.go\<close>): its options and accessors, how it is expanded,
  validated and shown, the resolvers of its credentials (\<open>credentials.go\<close>, \<open>resolver_*.go\<close>), their
  embedding, and the client options they make.
\<close>

record settings =
  ns_Name :: string
  ns_Description :: string
  ns_URL :: string
  ns_nscUrl :: string
  ns_SocksProxy :: string
  ns_Token :: string
  ns_User :: string
  ns_Password :: string
  ns_Creds :: string
  ns_nscCreds :: string
  ns_NKey :: string
  ns_Cert :: string
  ns_Key :: string
  ns_CA :: string
  ns_NSCLookup :: string
  ns_JSDomain :: string
  ns_JSAPIPrefix :: string
  ns_JSEventPrefix :: string
  ns_InboxPrefix :: string
  ns_UserJwt :: string
  ns_UserSeed :: string
  ns_ColorScheme :: string
  ns_TLSFirst :: bool
  ns_WinCertStoreType :: string
  ns_WinCertStoreMatchBy :: string
  ns_WinCertStoreMatch :: string
  ns_WinCertStoreCaMatch :: "string list"

definition zeroSettings :: settings where
  "zeroSettings = \<lparr> ns_Name = [], ns_Description = [], ns_URL = [], ns_nscUrl = [], ns_SocksProxy = [], ns_Token = [], ns_User = [],
     ns_Password = [], ns_Creds = [], ns_nscCreds = [], ns_NKey = [], ns_Cert = [], ns_Key = [], ns_CA = [], ns_NSCLookup = [],
     ns_JSDomain = [], ns_JSAPIPrefix = [], ns_JSEventPrefix = [], ns_InboxPrefix = [], ns_UserJwt = [], ns_UserSeed = [],
     ns_ColorScheme = [], ns_TLSFirst = False, ns_WinCertStoreType = [], ns_WinCertStoreMatchBy = [], ns_WinCertStoreMatch = [],
     ns_WinCertStoreCaMatch = [] \<rparr>"

text \<open>
  What lies outside: whether \<open>url.Parse\<close> fails for a reason other than the scheme, the JSON codec,
  the \<open>op\<close> and \<open>nsc\<close> programs (with the JSON \<open>nsc\<close> prints already read), the certificate stores and
  the \<open>nkeys\<close> and \<open>nats\<close> packages. \<open>cl_redactURL\<close> is the part of \<open>redactServerURL\<close> for one URL.
\<close>

record ctx_lib =
  cl_urlFails :: "string \<Rightarrow> bool"
  cl_Unmarshal :: "bytes \<Rightarrow> settings \<Rightarrow> string + settings"
  cl_Marshal :: "settings \<Rightarrow> bytes"
  cl_opRead :: "string \<Rightarrow> string + bytes"
  cl_nscGenerate :: "string \<Rightarrow> string + (string \<times> string list)"
  cl_ParseCertStore :: "string \<Rightarrow> string option"
  cl_ParseCertMatchBy :: "string \<Rightarrow> string option"
  cl_certTLS :: "string \<Rightarrow> string \<Rightarrow> string \<Rightarrow> string list \<Rightarrow> string option"
  cl_appendCerts :: "bytes \<Rightarrow> bool"
  cl_ParseDecoratedJWT :: "bytes \<Rightarrow> string + string"
  cl_ParseDecoratedNKey :: "bytes \<Rightarrow> string + string"
  cl_PublicKey :: "string \<Rightarrow> string + string"
  cl_NkeyOptionFromSeed :: "string \<Rightarrow> string option"
  cl_redactURL :: "string \<Rightarrow> string"
  cl_DefaultURL :: string

subsection \<open>Options\<close>

type_synonym ctx_option = "settings \<Rightarrow> settings"

definition WithServerURL :: "string \<Rightarrow> ctx_option" where
  "WithServerURL v c = (if v \<noteq> [] then c\<lparr> ns_URL := v \<rparr> else c)"

definition WithUser :: "string \<Rightarrow> ctx_option" where
  "WithUser v c = (if v \<noteq> [] then c\<lparr> ns_User := v \<rparr> else c)"

definition WithPassword :: "string \<Rightarrow> ctx_option" where
  "WithPassword v c = (if v \<noteq> [] then c\<lparr> ns_Password := v \<rparr> else c)"

definition WithCreds :: "string \<Rightarrow> ctx_option" where
  "WithCreds v c = (if v \<noteq> [] then c\<lparr> ns_Creds := v \<rparr> else c)"

definition WithNKey :: "string \<Rightarrow> ctx_option" where
  "WithNKey v c = (if v \<noteq> [] then c\<lparr> ns_NKey := v \<rparr> else c)"

definition WithToken :: "string \<Rightarrow> ctx_option" where
  "WithToken v c = (if v \<noteq> [] then c\<lparr> ns_Token := v \<rparr> else c)"

definition WithCertificate :: "string \<Rightarrow> ctx_option" where
  "WithCertificate v c = (if v \<noteq> [] then c\<lparr> ns_Cert := v \<rparr> else c)"

definition WithKey :: "string \<Rightarrow> ctx_option" where
  "WithKey v c = (if v \<noteq> [] then c\<lparr> ns_Key := v \<rparr> else c)"

definition WithCA :: "string \<Rightarrow> ctx_option" where
  "WithCA v c = (if v \<noteq> [] then c\<lparr> ns_CA := v \<rparr> else c)"

definition WithDescription :: "string \<Rightarrow> ctx_option" where
  "WithDescription v c = (if v \<noteq> [] then c\<lparr> ns_Description := v \<rparr> else c)"

definition WithColorScheme :: "string \<Rightarrow> ctx_option" where
  "WithColorScheme v c = (if v \<noteq> [] then c\<lparr> ns_ColorScheme := v \<rparr> else c)"

definition WithJSAPIPrefix :: "string \<Rightarrow> ctx_option" where
  "WithJSAPIPrefix v c = (if v \<noteq> [] then c\<lparr> ns_JSAPIPrefix := v \<rparr> else c)"

definition WithJSEventPrefix :: "string \<Rightarrow> ctx_option" where
  "WithJSEventPrefix v c = (if v \<noteq> [] then c\<lparr> ns_JSEventPrefix := v \<rparr> else c)"

definition WithJSDomain :: "string \<Rightarrow> ctx_option" where
  "WithJSDomain v c = (if v \<noteq> [] then c\<lparr> ns_JSDomain := v \<rparr> else c)"

definition WithInboxPrefix :: "string \<Rightarrow> ctx_option" where
  "WithInboxPrefix v c = (if v \<noteq> [] then c\<lparr> ns_InboxPrefix := v \<rparr> else c)"

definition WithUserJWT :: "string \<Rightarrow> ctx_option" where
  "WithUserJWT v c = (if v \<noteq> [] then c\<lparr> ns_UserJwt := v \<rparr> else c)"

definition WithUserSeed :: "string \<Rightarrow> ctx_option" where
  "WithUserSeed v c = (if v \<noteq> [] then c\<lparr> ns_UserSeed := v \<rparr> else c)"

definition WithWindowsCertStore :: "string \<Rightarrow> ctx_option" where
  "WithWindowsCertStore v c = (if v \<noteq> [] then c\<lparr> ns_WinCertStoreType := v \<rparr> else c)"

definition WithWindowsCertStoreMatchBy :: "string \<Rightarrow> ctx_option" where
  "WithWindowsCertStoreMatchBy v c = (if v \<noteq> [] then c\<lparr> ns_WinCertStoreMatchBy := v \<rparr> else c)"

definition WithWindowsCertStoreMatch :: "string \<Rightarrow> ctx_option" where
  "WithWindowsCertStoreMatch v c = (if v \<noteq> [] then c\<lparr> ns_WinCertStoreMatch := v \<rparr> else c)"

definition WithNscUrl :: "string \<Rightarrow> ctx_option" where
  "WithNscUrl u c = c\<lparr> ns_NSCLookup := u \<rparr>"

definition WithSocksProxy :: "string \<Rightarrow> ctx_option" where
  "WithSocksProxy p c =
     (if p = ''none'' \<or> p = ''NONE'' \<or> p = ''-'' then c\<lparr> ns_SocksProxy := [] \<rparr>
      else if p \<noteq> [] then c\<lparr> ns_SocksProxy := p \<rparr> else c)"

definition WithTLSHandshakeFirst :: ctx_option where
  "WithTLSHandshakeFirst c = c\<lparr> ns_TLSFirst := True \<rparr>"

definition WithWindowsCaCertsMatch :: "string list \<Rightarrow> ctx_option" where
  "WithWindowsCaCertsMatch m c = (if m \<noteq> [] then c\<lparr> ns_WinCertStoreCaMatch := m \<rparr> else c)"

definition ServerURL :: "ctx_lib \<Rightarrow> settings \<Rightarrow> string" where
  "ServerURL x c = (if ns_URL c \<noteq> [] then ns_URL c else if ns_nscUrl c \<noteq> [] then ns_nscUrl c else cl_DefaultURL x)"

definition Creds :: "settings \<Rightarrow> string" where
  "Creds c = (if ns_Creds c \<noteq> [] then ns_Creds c else if ns_nscCreds c \<noteq> [] then ns_nscCreds c else [])"

definition applyOpts :: "ctx_option list \<Rightarrow> settings \<Rightarrow> settings" where
  "applyOpts opts c = fold (\<lambda>opt c. opt c) opts c"

definition configureNewContext :: "ctx_lib \<Rightarrow> ctx_option list \<Rightarrow> settings \<Rightarrow> settings" where
  "configureNewContext x opts c =
     (let c1 = applyOpts opts c
      in if ns_NSCLookup c1 = [] \<and> ns_URL c1 = [] \<and> ns_nscUrl c1 = [] then c1\<lparr> ns_URL := cl_DefaultURL x \<rparr> else c1)"

subsection \<open>References\<close>

definition trimSchemePrefix :: "string \<Rightarrow> string \<Rightarrow> string" where
  "trimSchemePrefix ref prefix =
     (if length ref \<ge> length prefix \<and> equal_fold (take (length prefix) ref) prefix then drop (length prefix) ref else ref)"

text \<open>\<open>getScheme\<close> of \<open>net/url\<close>: \<open>None\<close> when there is no scheme or an error.\<close>

definition is_letter :: "char \<Rightarrow> bool" where
  "is_letter c \<longleftrightarrow> (let n = (of_char c :: nat) in (65 \<le> n \<and> n \<le> 90) \<or> (97 \<le> n \<and> n \<le> 122))"

fun get_scheme :: "bool \<Rightarrow> string \<Rightarrow> string option" where
  "get_scheme start [] = None"
| "get_scheme start (c # cs) =
     (if is_letter c then map_option ((#) c) (get_scheme False cs)
      else if digit_val c \<noteq> None \<or> c \<in> set ''+-.'' then
        (if start then None else map_option ((#) c) (get_scheme False cs))
      else if c = CHR '':'' then (if start then None else Some [])
      else None)"

definition parseScheme :: "ctx_lib \<Rightarrow> string \<Rightarrow> string" where
  "parseScheme x ref =
     (if cl_urlFails x ref then []
      else case get_scheme True ref of
        None \<Rightarrow> []
      | Some s \<Rightarrow> if length s < 2 then [] else to_lower s)"

definition filePathFromRef :: "string \<Rightarrow> os \<Rightarrow> string" where
  "filePathFromRef ref w = expandHomedir (trimSchemePrefix ref ''file://'') w"

text \<open>Standard base64, as \<open>base64.StdEncoding\<close> writes and reads it.\<close>

definition b64_alphabet :: string where
  "b64_alphabet = ''ABCDEFGHIJKLMNOPQRSTUVWXYZabcdefghijklmnopqrstuvwxyz0123456789+/''"

definition b64_char :: "nat \<Rightarrow> char" where
  "b64_char k = b64_alphabet ! k"

definition b64_val :: "char \<Rightarrow> nat option" where
  "b64_val c = (let i = length (takeWhile (\<lambda>d. d \<noteq> c) b64_alphabet) in if i < 64 then Some i else None)"

definition quad :: "nat \<Rightarrow> string" where
  "quad n = map b64_char [n div 262144, n div 4096 mod 64, n div 64 mod 64, n mod 64]"

fun b64_encode :: "bytes \<Rightarrow> string" where
  "b64_encode [] = []"
| "b64_encode [a] = take 2 (quad (of_char a * 65536)) @ ''==''"
| "b64_encode [a, b] = take 3 (quad (of_char a * 65536 + of_char b * 256)) @ ''=''"
| "b64_encode (a # b # c # cs) = quad (of_char a * 65536 + of_char b * 256 + of_char c) @ b64_encode cs"

fun b64_groups :: "string \<Rightarrow> bytes option" where
  "b64_groups [] = Some []"
| "b64_groups (p # q # r # s # cs) =
     (case (b64_val p, b64_val q) of
        (Some i, Some j) \<Rightarrow>
          (if r = CHR ''='' then
             (if s = CHR ''='' \<and> cs = [] then Some [char_of (i * 4 + j div 16)] else None)
           else case b64_val r of
             None \<Rightarrow> None
           | Some k \<Rightarrow>
               if s = CHR ''='' then
                 (if cs = [] then Some [char_of (i * 4 + j div 16), char_of (j mod 16 * 16 + k div 4)] else None)
               else case (b64_val s, b64_groups cs) of
                 (Some l, Some ds) \<Rightarrow>
                   Some (char_of (i * 4 + j div 16) # char_of (j mod 16 * 16 + k div 4) # char_of (k mod 4 * 64 + l) # ds)
               | _ \<Rightarrow> None)
      | _ \<Rightarrow> None)"
| "b64_groups _ = None"

definition b64_decode :: "string \<Rightarrow> bytes option" where
  "b64_decode s = b64_groups (filter (\<lambda>c. c \<noteq> CHR 0x0D \<and> c \<noteq> CHR 0x0A) s)"

definition EncodeDataURI :: "bytes \<Rightarrow> string" where
  "EncodeDataURI payload = ''data:;base64,'' @ b64_encode payload"

definition EncodeDataURIFromFile :: "string \<Rightarrow> os \<Rightarrow> ctx_error + string" where
  "EncodeDataURIFromFile path w =
     (case os_ReadFile path w of Inl e \<Rightarrow> Inl (ErrOs e) | Inr data \<Rightarrow> Inr (EncodeDataURI data))"

subsection \<open>Resolvers\<close>

datatype resolver =
    fileResolver
  | opResolver
  | nscResolver
  | envResolver
  | dataResolver
  | Custom "string list" "string \<Rightarrow> os \<Rightarrow> string + bytes"

fun Schemes :: "resolver \<Rightarrow> string list" where
  "Schemes fileResolver = [''file'']"
| "Schemes opResolver = [''op'']"
| "Schemes nscResolver = [''nsc'']"
| "Schemes envResolver = [''env'']"
| "Schemes dataResolver = [''data'']"
| "Schemes (Custom ss _) = ss"

record nscProfile =
  np_UserCreds :: string
  np_Service :: string

definition runNscProfile :: "ctx_lib \<Rightarrow> string \<Rightarrow> ctx_error + nscProfile" where
  "runNscProfile x ref =
     (case cl_nscGenerate x (''nsc://'' @ trimSchemePrefix ref ''nsc://'') of
        Inl e \<Rightarrow> Inl (ErrResolver e)
      | Inr (creds, service) \<Rightarrow> Inr \<lparr> np_UserCreds = creds, np_Service = join_with '','' service \<rparr>)"

definition headerHasBase64 :: "string \<Rightarrow> bool" where
  "headerHasBase64 header = list_ex (\<lambda>part. trim_space part = ''base64'') (split_on (CHR '';'') header)"

definition data_Resolve :: "string \<Rightarrow> ctx_error + bytes" where
  "data_Resolve ref =
     (let rest = trimSchemePrefix ref ''data:''
      in if rest = ref then Inl (ErrResolver ''data: reference does not start with data:'')
         else case cut_at (CHR '','') rest of
           (header, payload, found) \<Rightarrow>
             if \<not> found then Inl (ErrResolver ''data: reference is missing the separator'')
             else if \<not> headerHasBase64 header then Inl (ErrResolver ''data: reference must declare base64 encoding'')
             else case b64_decode payload of
               None \<Rightarrow> Inl (ErrResolver ''data: base64 decode failed'')
             | Some decoded \<Rightarrow> Inr decoded)"

definition env_Resolve :: "string \<Rightarrow> os \<Rightarrow> ctx_error + bytes" where
  "env_Resolve ref w =
     (let name = trimSchemePrefix ref ''env://''
      in if name = [] then Inl (ErrResolver ''env: missing variable name'')
         else case map_of (os_env w) name of
           None \<Rightarrow> Inl (ErrResolver ''env: variable is not set'')
         | Some v \<Rightarrow> if v = [] then Inl (ErrResolver ''env: variable is empty'') else Inr v)"

definition read_file :: "string \<Rightarrow> os \<Rightarrow> ctx_error + bytes" where
  "read_file path w = (case os_ReadFile path w of Inl e \<Rightarrow> Inl (ErrOs e) | Inr d \<Rightarrow> Inr d)"

definition nsc_Resolve :: "ctx_lib \<Rightarrow> string \<Rightarrow> os \<Rightarrow> ctx_error + bytes" where
  "nsc_Resolve x ref w =
     (case runNscProfile x ref of
        Inl e \<Rightarrow> Inl e
      | Inr p \<Rightarrow>
          if np_UserCreds p = [] then Inl (ErrResolver ''nsc output did not include user_creds'')
          else read_file (np_UserCreds p) w)"

definition op_Resolve :: "ctx_lib \<Rightarrow> string \<Rightarrow> ctx_error + bytes" where
  "op_Resolve x ref =
     (let rest = trimSchemePrefix ref ''op://'';
          ref1 = (if rest \<noteq> ref then ''op://'' @ rest else ref)
      in case cl_opRead x ref1 of Inl e \<Rightarrow> Inl (ErrResolver e) | Inr out \<Rightarrow> Inr out)"

fun Resolve :: "ctx_lib \<Rightarrow> resolver \<Rightarrow> string \<Rightarrow> os \<Rightarrow> ctx_error + bytes" where
  "Resolve x fileResolver ref w = read_file (filePathFromRef ref w) w"
| "Resolve x opResolver ref w = op_Resolve x ref"
| "Resolve x nscResolver ref w = nsc_Resolve x ref w"
| "Resolve x envResolver ref w = env_Resolve ref w"
| "Resolve x dataResolver ref w = data_Resolve ref"
| "Resolve x (Custom _ f) ref w = (case f ref w of Inl e \<Rightarrow> Inl (ErrResolver e) | Inr d \<Rightarrow> Inr d)"

type_synonym resolvers = "(string \<times> resolver) list"

definition defaultResolvers :: "resolver list" where
  "defaultResolvers = [fileResolver, opResolver, nscResolver, envResolver, dataResolver]"

definition put_resolver :: "resolver \<Rightarrow> resolvers \<Rightarrow> resolvers" where
  "put_resolver r rs = fold (\<lambda>scheme. AList.update scheme r) (Schemes r) rs"

definition resolveLiteral :: "ctx_lib \<Rightarrow> resolvers \<Rightarrow> string \<Rightarrow> os \<Rightarrow> ctx_error + string" where
  "resolveLiteral x rs ref w =
     (if ref = [] then Inr []
      else case map_of rs (parseScheme x ref) of
        None \<Rightarrow> Inr ref
      | Some r \<Rightarrow>
          (case Resolve x r ref w of
             Inl e \<Rightarrow> Inl e
           | Inr data \<Rightarrow> Inr (trim_right (\<lambda>c. c = CHR 0x0D \<or> c = CHR 0x0A) data)))"

subsection \<open>Expansion, validation, embedding\<close>

record Context =
  ctx_Name :: string
  ctx_config :: settings
  ctx_path :: string
  ctx_resolvers :: "resolvers option"

definition expand :: "ctx_lib \<Rightarrow> os \<Rightarrow> settings \<Rightarrow> ctx_error + settings" where
  "expand x w c =
     (let c1 = c\<lparr> ns_Creds := expandHomedir (ns_Creds c) w, ns_NKey := expandHomedir (ns_NKey c) w,
                  ns_Cert := expandHomedir (ns_Cert c) w, ns_Key := expandHomedir (ns_Key c) w,
                  ns_CA := expandHomedir (ns_CA c) w \<rparr>
      in if ns_NSCLookup c1 \<noteq> [] then
           (case runNscProfile x (ns_NSCLookup c1) of
              Inl e \<Rightarrow> Inl e
            | Inr p \<Rightarrow> Inr (c1\<lparr> ns_nscCreds := np_UserCreds p, ns_nscUrl := np_Service p \<rparr>))
         else Inr c1)"

definition unmarshal :: "ctx_lib \<Rightarrow> bytes \<Rightarrow> settings \<Rightarrow> ctx_error + settings" where
  "unmarshal x data c = (case cl_Unmarshal x data c of Inl e \<Rightarrow> Inl (ErrJson e) | Inr c1 \<Rightarrow> Inr c1)"

definition unmarshalAndExpand :: "ctx_lib \<Rightarrow> os \<Rightarrow> bytes \<Rightarrow> settings \<Rightarrow> ctx_error + settings" where
  "unmarshalAndExpand x w data c = (case unmarshal x data c of Inl e \<Rightarrow> Inl e | Inr c1 \<Rightarrow> expand x w c1)"

definition numCreds :: "settings \<Rightarrow> nat" where
  "numCreds c = length (filter (\<lambda>s. s \<noteq> []) [ns_User c, ns_Creds c, ns_NKey c, ns_NSCLookup c, ns_UserJwt c])"

definition parseWinCertStoreType :: "ctx_lib \<Rightarrow> string \<Rightarrow> ctx_error option" where
  "parseWinCertStoreType x t =
     map_option ErrCertStore (cl_ParseCertStore x
       (if t = ''machine'' then ''windowslocalmachine'' else if t = ''user'' then ''windowscurrentuser'' else t))"

definition Validate :: "ctx_lib \<Rightarrow> string \<Rightarrow> settings \<Rightarrow> ctx_error option" where
  "Validate x name c =
     (case ValidateName name of
        Some e \<Rightarrow> Some e
      | None \<Rightarrow>
          if numCreds c > 1 then Some ErrTooManyCredentials
          else case (if ns_WinCertStoreType c \<noteq> [] then parseWinCertStoreType x (ns_WinCertStoreType c) else None) of
            Some e \<Rightarrow> Some e
          | None \<Rightarrow>
              (case (if ns_WinCertStoreMatchBy c \<noteq> [] then map_option ErrCertStore (cl_ParseCertMatchBy x (ns_WinCertStoreMatchBy c))
                     else None) of
                 Some e \<Rightarrow> Some e
               | None \<Rightarrow>
                   if ns_WinCertStoreType c \<noteq> [] \<and> ns_WinCertStoreMatch c = [] then Some ErrNoCertMatcher else None))"

definition embedIfFile :: "ctx_lib \<Rightarrow> os \<Rightarrow> string \<Rightarrow> ctx_error + string" where
  "embedIfFile x w ref =
     (if ref = [] then Inr ref
      else let scheme = parseScheme x ref
           in if scheme \<noteq> [] \<and> scheme \<noteq> ''file'' then Inr ref else EncodeDataURIFromFile (filePathFromRef ref w) w)"

text \<open>Fields before the one that fails stay embedded.\<close>

fun embed_fields :: "ctx_lib \<Rightarrow> os \<Rightarrow> ((settings \<Rightarrow> string) \<times> (string \<Rightarrow> settings \<Rightarrow> settings)) list \<Rightarrow> settings \<Rightarrow>
    ctx_error option \<times> settings" where
  "embed_fields x w [] c = (None, c)"
| "embed_fields x w ((get, put) # fps) c =
     (case embedIfFile x w (get c) of
        Inl e \<Rightarrow> (Some e, c)
      | Inr embedded \<Rightarrow> embed_fields x w fps (put embedded c))"

definition embedFileCredentials :: "ctx_lib \<Rightarrow> os \<Rightarrow> settings \<Rightarrow> ctx_error option \<times> settings" where
  "embedFileCredentials x w =
     embed_fields x w [(ns_Creds, \<lambda>v c. c\<lparr> ns_Creds := v \<rparr>), (ns_NKey, \<lambda>v c. c\<lparr> ns_NKey := v \<rparr>),
       (ns_UserJwt, \<lambda>v c. c\<lparr> ns_UserJwt := v \<rparr>), (ns_UserSeed, \<lambda>v c. c\<lparr> ns_UserSeed := v \<rparr>)]"

definition migrateNSCLookup :: "ctx_lib \<Rightarrow> settings \<Rightarrow> ctx_error option \<times> settings" where
  "migrateNSCLookup x c =
     (if ns_NSCLookup c = [] then (None, c)
      else
        (let c1 = (if ns_URL c = [] \<and> ns_nscUrl c \<noteq> [] then c\<lparr> ns_URL := ns_nscUrl c \<rparr> else c);
             fetched = (if ns_Creds c1 = [] \<and> ns_URL c1 = [] then
                          (case runNscProfile x (ns_NSCLookup c1) of
                             Inl e \<Rightarrow> Inl (ErrField ''migrate nsc lookup'' e)
                           | Inr p \<Rightarrow> Inr (if np_Service p \<noteq> [] then c1\<lparr> ns_URL := np_Service p \<rparr> else c1))
                        else Inr c1)
         in case fetched of
              Inl e \<Rightarrow> (Some e, c1)
            | Inr c2 \<Rightarrow>
                (let c3 = (if ns_Creds c2 = [] then c2\<lparr> ns_Creds := ''nsc://'' @ trimSchemePrefix (ns_NSCLookup c2) ''nsc://'' \<rparr> else c2)
                 in (None, c3\<lparr> ns_NSCLookup := [], ns_nscCreds := [], ns_nscUrl := [] \<rparr>))))"

subsection \<open>What is shown\<close>

definition redactServerURL :: "ctx_lib \<Rightarrow> string \<Rightarrow> string" where
  "redactServerURL x urls = (if urls = [] then [] else join_with '','' (map (cl_redactURL x) (split_on (CHR '','') urls)))"

definition authLabel :: "settings \<Rightarrow> string" where
  "authLabel c =
     (if ns_User c \<noteq> [] then ''user/password''
      else if ns_Creds c \<noteq> [] \<or> ns_nscCreds c \<noteq> [] then ''creds''
      else if ns_NKey c \<noteq> [] then ''nkey''
      else if ns_UserJwt c \<noteq> [] then ''user_jwt''
      else if ns_Token c \<noteq> [] then ''token''
      else ''none'')"

text \<open>The arguments of the format string of \<open>Context.String\<close>: name, URL and authentication.\<close>

definition Context_String :: "ctx_lib \<Rightarrow> Context \<Rightarrow> string \<times> string \<times> string" where
  "Context_String x c = (ctx_Name c, redactServerURL x (ServerURL x (ctx_config c)), authLabel (ctx_config c))"

subsection \<open>Client options\<close>

datatype nats_option =
    UserInfo string string
  | UserCredentials string
  | UserJWT string "string option"
  | UserJWTAndSeed string string
  | Nkey string string
  | NkeyFromSeed string
  | TokenOption string
  | ClientCert string string
  | RootCAs string
  | CustomDialer string
  | CustomInboxPrefix string
  | TLSHandshakeFirstOption
  | SecureStore "bytes option"
  | OtherOption string

definition scheme_is_file :: "string \<Rightarrow> bool" where
  "scheme_is_file scheme \<longleftrightarrow> scheme = [] \<or> scheme = ''file''"

definition in_field :: "string \<Rightarrow> ctx_error + 'a \<Rightarrow> ctx_error + 'a" where
  "in_field f r = (case r of Inl e \<Rightarrow> Inl (ErrField f e) | Inr v \<Rightarrow> Inr v)"

definition of_lib :: "string + 'a \<Rightarrow> ctx_error + 'a" where
  "of_lib r = (case r of Inl e \<Rightarrow> Inl (ErrResolver e) | Inr v \<Rightarrow> Inr v)"

definition err_bind :: "'e + 'a \<Rightarrow> ('a \<Rightarrow> 'e + 'b) \<Rightarrow> 'e + 'b" where
  "err_bind r f = (case r of Inl e \<Rightarrow> Inl e | Inr v \<Rightarrow> f v)"

definition resolve_ref :: "ctx_lib \<Rightarrow> resolvers \<Rightarrow> string \<Rightarrow> string \<Rightarrow> os \<Rightarrow> ctx_error + bytes" where
  "resolve_ref x rs field ref w =
     (case map_of rs (parseScheme x ref) of
        None \<Rightarrow> Inl (ErrNoResolver field (parseScheme x ref))
      | Some r \<Rightarrow> in_field field (Resolve x r ref w))"

definition buildCredsOption :: "ctx_lib \<Rightarrow> resolvers \<Rightarrow> string \<Rightarrow> os \<Rightarrow> ctx_error + nats_option" where
  "buildCredsOption x rs ref w =
     (if scheme_is_file (parseScheme x ref) then Inr (UserCredentials (filePathFromRef ref w))
      else err_bind (resolve_ref x rs ''creds'' ref w) (\<lambda>data.
           err_bind (in_field ''creds'' (of_lib (cl_ParseDecoratedJWT x data))) (\<lambda>jwt.
           err_bind (in_field ''creds'' (of_lib (cl_ParseDecoratedNKey x data))) (\<lambda>kp.
             Inr (UserJWT jwt (Some kp))))))"

definition buildNkeyOption :: "ctx_lib \<Rightarrow> resolvers \<Rightarrow> string \<Rightarrow> os \<Rightarrow> ctx_error + nats_option" where
  "buildNkeyOption x rs ref w =
     (if scheme_is_file (parseScheme x ref) then
        (case cl_NkeyOptionFromSeed x (filePathFromRef ref w) of
           Some e \<Rightarrow> Inl (ErrResolver e)
         | None \<Rightarrow> Inr (NkeyFromSeed (filePathFromRef ref w)))
      else err_bind (resolve_ref x rs ''nkey'' ref w) (\<lambda>data.
           err_bind (in_field ''nkey'' (of_lib (cl_ParseDecoratedNKey x data))) (\<lambda>kp.
           err_bind (in_field ''nkey'' (of_lib (cl_PublicKey x kp))) (\<lambda>pub. Inr (Nkey pub kp)))))"

definition requireFilePath :: "ctx_lib \<Rightarrow> string \<Rightarrow> string \<Rightarrow> os \<Rightarrow> ctx_error + string" where
  "requireFilePath x ref field w =
     (if \<not> scheme_is_file (parseScheme x ref) then Inl (ErrScheme field (parseScheme x ref)) else Inr (filePathFromRef ref w))"

definition certStoreNatsOptions :: "ctx_lib \<Rightarrow> settings \<Rightarrow> os \<Rightarrow> ctx_error + nats_option list" where
  "certStoreNatsOptions x c w =
     (if ns_WinCertStoreType c = [] then Inr []
      else case parseWinCertStoreType x (ns_WinCertStoreType c) of
        Some e \<Rightarrow> Inl e
      | None \<Rightarrow>
          (case cl_ParseCertMatchBy x (ns_WinCertStoreMatchBy c) of
             Some e \<Rightarrow> Inl (ErrCertStore e)
           | None \<Rightarrow>
               (case cl_certTLS x (ns_WinCertStoreType c) (ns_WinCertStoreMatchBy c) (ns_WinCertStoreMatch c) (ns_WinCertStoreCaMatch c) of
                  Some e \<Rightarrow> Inl (ErrCertStore e)
                | None \<Rightarrow>
                    if ns_WinCertStoreCaMatch c = [] \<and> ns_CA c \<noteq> [] then
                      err_bind (requireFilePath x (ns_CA c) ''ca'' w) (\<lambda>path.
                      err_bind (read_file path w) (\<lambda>certs.
                        if \<not> cl_appendCerts x certs then Inl (ErrCertStore ''failed to append CA certificates'')
                        else Inr [SecureStore (Some certs)]))
                    else Inr [SecureStore None])))"

text \<open>The first of the credentials that is set.\<close>

definition credential_options :: "ctx_lib \<Rightarrow> resolvers \<Rightarrow> settings \<Rightarrow> os \<Rightarrow> ctx_error + nats_option list" where
  "credential_options x rs c w =
     (if ns_User c \<noteq> [] then
        err_bind (in_field ''password'' (resolveLiteral x rs (ns_Password c) w)) (\<lambda>pw. Inr [UserInfo (ns_User c) pw])
      else if Creds c \<noteq> [] then err_bind (buildCredsOption x rs (Creds c) w) (\<lambda>opt. Inr [opt])
      else if ns_NKey c \<noteq> [] then err_bind (buildNkeyOption x rs (ns_NKey c) w) (\<lambda>opt. Inr [opt])
      else if ns_UserJwt c \<noteq> [] \<and> ns_UserSeed c \<noteq> [] then
        err_bind (in_field ''user_jwt'' (resolveLiteral x rs (ns_UserJwt c) w)) (\<lambda>jwt.
        err_bind (in_field ''user_seed'' (resolveLiteral x rs (ns_UserSeed c) w)) (\<lambda>seed. Inr [UserJWTAndSeed jwt seed]))
      else if ns_UserJwt c \<noteq> [] \<and> ns_UserSeed c = [] then
        err_bind (in_field ''user_jwt'' (resolveLiteral x rs (ns_UserJwt c) w)) (\<lambda>jwt. Inr [UserJWT jwt None])
      else Inr [])"

definition token_options :: "ctx_lib \<Rightarrow> resolvers \<Rightarrow> settings \<Rightarrow> os \<Rightarrow> ctx_error + nats_option list" where
  "token_options x rs c w =
     (if ns_Token c \<noteq> [] then
        err_bind (in_field ''token'' (resolveLiteral x rs (ns_Token c) w)) (\<lambda>token. Inr [TokenOption token])
      else Inr [])"

definition tls_options :: "ctx_lib \<Rightarrow> settings \<Rightarrow> os \<Rightarrow> ctx_error + nats_option list" where
  "tls_options x c w =
     err_bind (if ns_Cert c \<noteq> [] \<and> ns_Key c \<noteq> [] then
                 err_bind (requireFilePath x (ns_Cert c) ''cert'' w) (\<lambda>certPath.
                 err_bind (requireFilePath x (ns_Key c) ''key'' w) (\<lambda>keyPath. Inr [ClientCert certPath keyPath]))
               else Inr []) (\<lambda>cert.
     err_bind (if ns_CA c \<noteq> [] then err_bind (requireFilePath x (ns_CA c) ''ca'' w) (\<lambda>caPath. Inr [RootCAs caPath]) else Inr [])
       (\<lambda>ca. Inr (cert @ ca)))"

definition NATSOptions :: "ctx_lib \<Rightarrow> resolvers \<Rightarrow> settings \<Rightarrow> nats_option list \<Rightarrow> os \<Rightarrow> ctx_error + nats_option list" where
  "NATSOptions x rs c opts w =
     err_bind (credential_options x rs c w) (\<lambda>creds.
     err_bind (token_options x rs c w) (\<lambda>token.
     err_bind (tls_options x c w) (\<lambda>tls.
     err_bind (certStoreNatsOptions x c w) (\<lambda>store.
       Inr (creds @ token @ tls @
            (if ns_SocksProxy c \<noteq> [] then [CustomDialer (ns_SocksProxy c)] else []) @
            (if ns_InboxPrefix c \<noteq> [] then [CustomInboxPrefix (ns_InboxPrefix c)] else []) @
            (if ns_TLSFirst c then [TLSHandshakeFirstOption] else []) @ store @ opts)))))"

end
