(* ===== verification/Context_Registry.thy ===== *)
theory Context_Registry
  imports Context_Settings
begin

text \<open>
  The registry of contexts (\<open>registry.go\<close>) over a backend and a selector, and the package functions of
  \<open>context.go\<close> that go through the registry of the user's configuration directory.
\<close>

text \<open>\<open>rg_os\<close> is the operating system in the state the backend and the selector share.\<close>

record 'w Registry =
  rg_backend :: "'w Backend"
  rg_selector :: "'w Selector option"
  rg_selectorOverride :: bool
  rg_resolvers :: resolvers
  rg_embedding :: bool
  rg_noExpand :: bool
  rg_os :: "'w \<Rightarrow> os"

type_synonym 'w RegistryOption = "'w Registry \<Rightarrow> 'w Registry"

definition WithSelector :: "'w Selector \<Rightarrow> 'w RegistryOption" where
  "WithSelector s r = r\<lparr> rg_selector := Some s, rg_selectorOverride := True \<rparr>"

definition WithoutSelection :: "'w RegistryOption" where
  "WithoutSelection r = r\<lparr> rg_selector := None, rg_selectorOverride := True \<rparr>"

definition WithCredentialResolver :: "resolver \<Rightarrow> 'w RegistryOption" where
  "WithCredentialResolver rv r = r\<lparr> rg_resolvers := put_resolver rv (rg_resolvers r) \<rparr>"

definition WithoutExpansion :: "'w RegistryOption" where
  "WithoutExpansion r = r\<lparr> rg_noExpand := True \<rparr>"

definition WithEmbedding :: "'w RegistryOption" where
  "WithEmbedding r = r\<lparr> rg_embedding := True \<rparr>"

definition WithDefaultResolvers :: "'w RegistryOption" where
  "WithDefaultResolvers r = r\<lparr> rg_resolvers := fold put_resolver defaultResolvers (rg_resolvers r) \<rparr>"

text \<open>\<open>sel\<close> is the backend as a selector, when it is one.\<close>

definition NewRegistry :: "'w Backend \<Rightarrow> 'w Selector option \<Rightarrow> ('w \<Rightarrow> os) \<Rightarrow> 'w RegistryOption list \<Rightarrow> 'w Registry" where
  "NewRegistry b sel os_of opts =
     (let r = fold (\<lambda>opt r. opt r) opts \<lparr> rg_backend = b, rg_selector = sel, rg_selectorOverride = False, rg_resolvers = [],
                rg_embedding = False, rg_noExpand = False, rg_os = os_of \<rparr>
      in if rg_resolvers r = [] then WithDefaultResolvers r else r)"

definition backend_path :: "'w Registry \<Rightarrow> string \<Rightarrow> string \<Rightarrow> string" where
  "backend_path r name old = (case bk_Path (rg_backend r) of None \<Rightarrow> old | Some p \<Rightarrow> p name)"

text \<open>The name to load: the selected one when none is given.\<close>

definition effective_name :: "'w Registry \<Rightarrow> string \<Rightarrow> 'w \<Rightarrow> ctx_error + string" where
  "effective_name r name w =
     (if name \<noteq> [] then Inr name
      else case rg_selector r of
        None \<Rightarrow> Inr []
      | Some s \<Rightarrow>
          (case sl_Selected s w of
             Inr selected \<Rightarrow> Inr selected
           | Inl e \<Rightarrow> if e \<noteq> ErrNoneSelected then Inl e else Inr []))"

definition reg_Load :: "ctx_lib \<Rightarrow> 'w Registry \<Rightarrow> string \<Rightarrow> ctx_option list \<Rightarrow> 'w \<Rightarrow> ctx_error + Context" where
  "reg_Load x r given opts w =
     err_bind (effective_name r given w) (\<lambda>name.
       if name = [] then
         Inr \<lparr> ctx_Name = [], ctx_config = configureNewContext x opts zeroSettings, ctx_path = [],
               ctx_resolvers = Some (rg_resolvers r) \<rparr>
       else case ValidateName name of
         Some e \<Rightarrow> Inl e
       | None \<Rightarrow>
           err_bind (bk_Load (rg_backend r) name w) (\<lambda>data.
           err_bind (if rg_noExpand r then unmarshal x data zeroSettings
                     else unmarshalAndExpand x (rg_os r w) data zeroSettings) (\<lambda>cfg.
             Inr \<lparr> ctx_Name = name,
                   ctx_config = (if rg_noExpand r then applyOpts opts cfg else configureNewContext x opts cfg),
                   ctx_path = backend_path r name [],
                   ctx_resolvers = Some (rg_resolvers r) \<rparr>)))"

text \<open>\<open>Save\<close> changes the context it is given, also when it fails.\<close>

definition reg_Save :: "ctx_lib \<Rightarrow> 'w Registry \<Rightarrow> Context \<Rightarrow> string \<Rightarrow> 'w \<Rightarrow> ctx_error option \<times> Context \<times> 'w" where
  "reg_Save x r given name w =
     (let c = (if name \<noteq> [] then given\<lparr> ctx_Name := name \<rparr> else given)
      in case migrateNSCLookup x (ctx_config c) of
        (Some e, cfg) \<Rightarrow> (Some e, c\<lparr> ctx_config := cfg \<rparr>, w)
      | (None, cfg) \<Rightarrow>
          (case Validate x (ctx_Name c) cfg of
             Some e \<Rightarrow> (Some e, c\<lparr> ctx_config := cfg \<rparr>, w)
           | None \<Rightarrow>
               (case (if rg_embedding r then embedFileCredentials x (rg_os r w) cfg else (None, cfg)) of
                  (Some e, cfg1) \<Rightarrow> (Some e, c\<lparr> ctx_config := cfg1 \<rparr>, w)
                | (None, cfg1) \<Rightarrow>
                    (let c1 = c\<lparr> ctx_config := cfg1\<lparr> ns_Name := [] \<rparr> \<rparr>
                     in case bk_Save (rg_backend r) (ctx_Name c1) (cl_Marshal x (ctx_config c1)) w of
                          (Some e, w1) \<Rightarrow> (Some e, c1, w1)
                        | (None, w1) \<Rightarrow> (None, c1\<lparr> ctx_path := backend_path r (ctx_Name c1) (ctx_path c1) \<rparr>, w1)))))"

text \<open>The selection as \<open>Delete\<close> reads it.\<close>

definition selected_or_none :: "'w Registry \<Rightarrow> 'w \<Rightarrow> ctx_error + string" where
  "selected_or_none r w =
     (case rg_selector r of
        None \<Rightarrow> Inr []
      | Some s \<Rightarrow>
          (case sl_Selected s w of
             Inr current \<Rightarrow> Inr current
           | Inl e \<Rightarrow> if e \<noteq> ErrNoneSelected then Inl e else Inr []))"

definition reg_Delete :: "'w Registry \<Rightarrow> string \<Rightarrow> 'w \<Rightarrow> ctx_error option \<times> 'w" where
  "reg_Delete r name w =
     (case ValidateName name of
        Some e \<Rightarrow> (Some e, w)
      | None \<Rightarrow>
          (case selected_or_none r w of
             Inl e \<Rightarrow> (Some e, w)
           | Inr selected \<Rightarrow>
               (let isActive = (selected = name)
                in case (if isActive then
                           (case bk_List (rg_backend r) w of
                              Inl e \<Rightarrow> Some e
                            | Inr every \<Rightarrow> if length every > 1 then Some (ErrActiveContext name) else None)
                         else None) of
                  Some e \<Rightarrow> (Some e, w)
                | None \<Rightarrow>
                    (case bk_Delete (rg_backend r) name w of
                       (Some e, w1) \<Rightarrow> (Some e, w1)
                     | (None, w1) \<Rightarrow>
                         (case (if isActive then rg_selector r else None) of
                            None \<Rightarrow> (None, w1)
                          | Some s \<Rightarrow>
                              (case sl_SetSelected s [] w1 of
                                 (Inl e, w2) \<Rightarrow> (Some e, w2)
                               | (Inr _, w2) \<Rightarrow> (None, w2)))))))"

definition reg_List :: "'w Registry \<Rightarrow> 'w \<Rightarrow> ctx_error + string list" where
  "reg_List r w = bk_List (rg_backend r) w"

definition reg_Known :: "'w Registry \<Rightarrow> string \<Rightarrow> 'w \<Rightarrow> bool" where
  "reg_Known r name w \<longleftrightarrow> ValidateName name = None \<and> is_ok (bk_Load (rg_backend r) name w)"

definition reg_Selected :: "'w Registry \<Rightarrow> 'w \<Rightarrow> ctx_error + string" where
  "reg_Selected r w = (case rg_selector r of None \<Rightarrow> Inl ErrNoneSelected | Some s \<Rightarrow> sl_Selected s w)"

definition reg_Select :: "'w Registry \<Rightarrow> string \<Rightarrow> 'w \<Rightarrow> (ctx_error + string) \<times> 'w" where
  "reg_Select r name w =
     (case ValidateName name of
        Some e \<Rightarrow> (Inl e, w)
      | None \<Rightarrow>
          (case rg_selector r of
             None \<Rightarrow> (Inl ErrReadOnly, w)
           | Some s \<Rightarrow>
               (case bk_Load (rg_backend r) name w of
                  Inl e \<Rightarrow> (Inl e, w)
                | Inr _ \<Rightarrow> sl_SetSelected s name w)))"

definition reg_Unselect :: "'w Registry \<Rightarrow> 'w \<Rightarrow> (ctx_error + string) \<times> 'w" where
  "reg_Unselect r w = (case rg_selector r of None \<Rightarrow> (Inr [], w) | Some s \<Rightarrow> sl_SetSelected s [] w)"

definition reg_Previous :: "'w Registry \<Rightarrow> 'w \<Rightarrow> ctx_error + string" where
  "reg_Previous r w =
     (case rg_selector r of
        None \<Rightarrow> Inl ErrNoneSelected
      | Some s \<Rightarrow> (case sl_Previous s of None \<Rightarrow> Inl ErrNoneSelected | Some p \<Rightarrow> p w))"

subsection \<open>The default registry\<close>

definition files_registry :: "FileBackend \<Rightarrow> os RegistryOption list \<Rightarrow> os Registry" where
  "files_registry fb opts = NewRegistry (file_backend fb) (Some (file_selector (fb_selector fb))) (\<lambda>w. w) opts"

definition memory_registry :: "MemoryBackend RegistryOption list \<Rightarrow> MemoryBackend Registry" where
  "memory_registry opts = NewRegistry memory_backend (Some memory_selector) mb_os opts"

definition defaultRegistry :: "os \<Rightarrow> os Registry" where
  "defaultRegistry w = files_registry (NewDefaultFileBackend w) []"

definition ctx_New :: "ctx_lib \<Rightarrow> string \<Rightarrow> bool \<Rightarrow> ctx_option list \<Rightarrow> os \<Rightarrow> ctx_error + Context" where
  "ctx_New x name ld opts w =
     (if \<not> ld then
        Inr \<lparr> ctx_Name = name, ctx_config = configureNewContext x opts zeroSettings, ctx_path = [], ctx_resolvers = None \<rparr>
      else reg_Load x (defaultRegistry w) name opts w)"

definition single_registry :: "SingleFileBackend \<Rightarrow> os Registry" where
  "single_registry sb = NewRegistry (single_file_backend sb) None (\<lambda>w. w) []"

definition NewFromFile :: "ctx_lib \<Rightarrow> string \<Rightarrow> ctx_option list \<Rightarrow> os \<Rightarrow> ctx_error + Context" where
  "NewFromFile x filename opts w =
     (let backend = NewSingleFileBackend filename in reg_Load x (single_registry backend) (sb_name backend) opts w)"

definition NewFromBytes :: "ctx_lib \<Rightarrow> bytes \<Rightarrow> ctx_option list \<Rightarrow> os \<Rightarrow> ctx_error + Context" where
  "NewFromBytes x data opts w =
     err_bind (unmarshalAndExpand x w data zeroSettings) (\<lambda>cfg.
       Inr \<lparr> ctx_Name = [], ctx_config = configureNewContext x opts cfg, ctx_path = [], ctx_resolvers = None \<rparr>)"

definition NewFromBytesRaw :: "ctx_lib \<Rightarrow> bytes \<Rightarrow> ctx_option list \<Rightarrow> ctx_error + Context" where
  "NewFromBytesRaw x data opts =
     err_bind (unmarshal x data zeroSettings) (\<lambda>cfg.
       Inr \<lparr> ctx_Name = [], ctx_config = applyOpts opts cfg, ctx_path = [], ctx_resolvers = None \<rparr>)"

definition DeleteContext :: "string \<Rightarrow> os \<Rightarrow> ctx_error option \<times> os" where
  "DeleteContext name w = reg_Delete (defaultRegistry w) name w"

definition IsKnown :: "string \<Rightarrow> os \<Rightarrow> bool" where
  "IsKnown name w = reg_Known (defaultRegistry w) name w"

definition ContextPath :: "string \<Rightarrow> os \<Rightarrow> ctx_error + string" where
  "ContextPath name w =
     (case ValidateName name of
        Some e \<Rightarrow> Inl e
      | None \<Rightarrow> err_bind (defaultRoot w) (\<lambda>root. Inr (fb_Path (newFileBackend root) name)))"

definition KnownContexts :: "os \<Rightarrow> string list" where
  "KnownContexts w = (case reg_List (defaultRegistry w) w of Inl _ \<Rightarrow> [] | Inr list \<Rightarrow> list)"

definition SelectedContext :: "os \<Rightarrow> string" where
  "SelectedContext w = (case reg_Selected (defaultRegistry w) w of Inl _ \<Rightarrow> [] | Inr name \<Rightarrow> name)"

definition PreviousContext :: "os \<Rightarrow> string" where
  "PreviousContext w = (case reg_Previous (defaultRegistry w) w of Inl _ \<Rightarrow> [] | Inr name \<Rightarrow> name)"

definition UnSelectContext :: "os \<Rightarrow> ctx_error option \<times> os" where
  "UnSelectContext w = (case reg_Unselect (defaultRegistry w) w of (Inl e, w1) \<Rightarrow> (Some e, w1) | (Inr _, w1) \<Rightarrow> (None, w1))"

definition SelectContext :: "string \<Rightarrow> os \<Rightarrow> ctx_error option \<times> os" where
  "SelectContext name w = (case reg_Select (defaultRegistry w) name w of (Inl e, w1) \<Rightarrow> (Some e, w1) | (Inr _, w1) \<Rightarrow> (None, w1))"

definition ctx_Save :: "ctx_lib \<Rightarrow> Context \<Rightarrow> string \<Rightarrow> os \<Rightarrow> ctx_error option \<times> Context \<times> os" where
  "ctx_Save x c name w =
     (let backend = NewSingleFileBackend (ctx_path c);
          effective = (if name = [] then ctx_Name c else name)
      in if ctx_path c \<noteq> [] \<and> effective = sb_name backend then reg_Save x (single_registry backend) c name w
         else reg_Save x (defaultRegistry w) c name w)"

definition Embed :: "ctx_lib \<Rightarrow> Context \<Rightarrow> os \<Rightarrow> ctx_error option \<times> Context" where
  "Embed x c w = (case embedFileCredentials x w (ctx_config c) of (e, cfg) \<Rightarrow> (e, c\<lparr> ctx_config := cfg \<rparr>))"

definition SaveEmbedded :: "ctx_lib \<Rightarrow> Context \<Rightarrow> string \<Rightarrow> os \<Rightarrow> ctx_error option \<times> Context \<times> os" where
  "SaveEmbedded x c name w =
     (case Embed x c w of
        (Some e, c1) \<Rightarrow> (Some e, c1, w)
      | (None, c1) \<Rightarrow> ctx_Save x c1 name w)"

text \<open>The resolvers of a context made from options alone are those of the default registry.\<close>

definition activeResolvers :: "Context \<Rightarrow> os \<Rightarrow> resolvers" where
  "activeResolvers c w = (case ctx_resolvers c of Some rs \<Rightarrow> rs | None \<Rightarrow> rg_resolvers (defaultRegistry w))"

end
