(* ===== verification/Context_Paths.thy ===== *)
theory Context_Paths
  imports Context_Backends
begin

text \<open>
  Clean paths: how \<open>Join\<close>, \<open>Dir\<close>, \<open>Base\<close> and \<open>Ext\<close> act on them, where the files of a backend and a
  selector lie, and that a valid name never leads out of the context directory.
\<close>

subsection \<open>Clean paths\<close>

definition plain_elem :: "string \<Rightarrow> bool" where
  "plain_elem e \<longleftrightarrow> e \<noteq> [] \<and> e \<noteq> ''.'' \<and> e \<noteq> ''..'' \<and> CHR ''/'' \<notin> set e"

lemma is_rooted_iff: "is_rooted s \<longleftrightarrow> s \<noteq> [] \<and> hd s = CHR ''/''"
  by (cases s) (auto simp: is_rooted_def has_prefix_def)

lemma split_on_append: "split_on c (s @ c # t) = split_on c s @ split_on c t"
  by (induction s) (auto split: list.splits)

text \<open>A reversed list of kept elements, as \<open>clean_path\<close> builds it.\<close>

definition kept_elems :: "bool \<Rightarrow> string list \<Rightarrow> bool" where
  "kept_elems rooted done \<longleftrightarrow> (\<exists>k fs. done = fs @ replicate k ''..'' \<and> list_all plain_elem fs \<and> (rooted \<longrightarrow> k = 0))"

lemma kept_elems_Nil [simp]: "kept_elems b []"
  by (simp add: kept_elems_def)

lemma kept_elems_Cons: "plain_elem e \<Longrightarrow> kept_elems b done \<Longrightarrow> kept_elems b (e # done)"
  unfolding kept_elems_def by (metis append_Cons list.pred_inject(2))

lemma kept_elems_dots: "kept_elems b done \<Longrightarrow> done = [] \<or> hd done = ''..'' \<Longrightarrow> \<not> b \<Longrightarrow> kept_elems b (''..'' # done)"
  unfolding kept_elems_def
proof (elim exE conjE)
  fix k fs assume *: "done = fs @ replicate k ''..''" "list_all plain_elem fs" "\<not> b" "done = [] \<or> hd done = ''..''"
  then have "fs = []" by (cases fs) (auto simp: plain_elem_def)
  then show "\<exists>k fs. ''..'' # done = fs @ replicate k ''..'' \<and> list_all plain_elem fs \<and> (b \<longrightarrow> k = 0)"
    using * by (intro exI [of _ "Suc k"] exI [of _ "[]"]) simp
qed

lemma kept_elems_tl: "kept_elems b done \<Longrightarrow> done \<noteq> [] \<Longrightarrow> hd done \<noteq> ''..'' \<Longrightarrow> kept_elems b (tl done)"
  unfolding kept_elems_def
proof (elim exE conjE)
  fix k fs assume *: "done = fs @ replicate k ''..''" "list_all plain_elem fs" "b \<longrightarrow> k = 0" "done \<noteq> []" "hd done \<noteq> ''..''"
  then obtain f fs' where "fs = f # fs'" by (cases fs) auto
  then show "\<exists>k fs. tl done = fs @ replicate k ''..'' \<and> list_all plain_elem fs \<and> (b \<longrightarrow> k = 0)"
    using * by (intro exI [of _ k] exI [of _ fs']) simp
qed

lemma clean_path_kept:
  "\<forall>e \<in> set es. CHR ''/'' \<notin> set e \<Longrightarrow> kept_elems b done \<Longrightarrow> kept_elems b (List.rev (clean_path b es done))"
proof (induction b es "done" rule: clean_path.induct)
  case (2 b e es d)
  then show ?case
    using kept_elems_Cons [of e b d] kept_elems_dots [of b d] kept_elems_tl [of b d] by (auto simp: plain_elem_def)
qed simp

lemma clean_path_append: "clean_path b (es @ fs) done = clean_path b fs (List.rev (clean_path b es done))"
  by (induction b es "done" rule: clean_path.induct) auto

lemma clean_path_plain: "list_all plain_elem fs \<Longrightarrow> clean_path b fs done = List.rev done @ fs"
  by (induction fs arbitrary: "done") (auto simp: plain_elem_def)

lemma clean_path_dots: "done = [] \<or> hd done = ''..'' \<Longrightarrow> clean_path False (replicate k ''..'') done = List.rev done @ replicate k ''..''"
proof (induction k arbitrary: "done")
  case (Suc k)
  then have "clean_path False (replicate (Suc k) ''..'') done = clean_path False (replicate k ''..'') (''..'' # done)" by auto
  then show ?case using Suc.IH [of "''..'' # done"] by simp
qed simp

lemma clean_path_idem:
  assumes "kept_elems b (List.rev es)"
  shows "clean_path b es [] = es"
proof -
  from assms obtain k fs where fs: "List.rev es = fs @ replicate k ''..''" "list_all plain_elem fs" "b \<longrightarrow> k = 0"
    unfolding kept_elems_def by blast
  from fs(1) have "es = List.rev (fs @ replicate k ''..'')" by (metis rev_rev_ident)
  then have es: "es = replicate k ''..'' @ List.rev fs" by simp
  have rv: "list_all plain_elem (List.rev fs)" using fs(2) by simp
  show ?thesis
  proof (cases b)
    case True
    then show ?thesis using es fs(3) rv by (simp add: clean_path_plain)
  next
    case False
    then show ?thesis unfolding es clean_path_append using clean_path_dots [of "[]" k] clean_path_plain [OF rv] by simp
  qed
qed

text \<open>A clean path that names something below its start: the elements it is made of.\<close>

definition path_of :: "bool \<Rightarrow> string list \<Rightarrow> string" where
  "path_of b es = (if b then ''/'' else []) @ join_with ''/'' es"

definition clean_dir :: "string \<Rightarrow> bool" where
  "clean_dir d \<longleftrightarrow> (\<exists>b es e. d = path_of b (es @ [e]) \<and> plain_elem e \<and> kept_elems b (e # List.rev es))"

lemma kept_no_slash: "kept_elems b done \<Longrightarrow> \<forall>e \<in> set done. CHR ''/'' \<notin> set e \<and> e \<noteq> []"
  unfolding kept_elems_def
proof (elim exE conjE)
  fix k fs assume *: "done = fs @ replicate k ''..''" "list_all plain_elem fs"
  show "\<forall>e \<in> set done. CHR ''/'' \<notin> set e \<and> e \<noteq> []"
  proof
    fix e assume "e \<in> set done"
    then have "e \<in> set fs \<or> e = ''..''" using *(1) by (simp add: set_replicate_conv_if split: if_splits)
    then show "CHR ''/'' \<notin> set e \<and> e \<noteq> []" using *(2) by (elim disjE) (simp_all add: list_all_iff plain_elem_def)
  qed
qed

lemma split_path_of:
  assumes "kept_elems b (List.rev es)" "es \<noteq> []"
  shows "split_on (CHR ''/'') (path_of b es) = (if b then [[]] else []) @ es"
    and "is_rooted (path_of b es) = b"
proof -
  have no: "\<forall>e \<in> set es. CHR ''/'' \<notin> set e \<and> e \<noteq> []" using kept_no_slash [OF assms(1)] by simp
  then have sp: "split_on (CHR ''/'') (join_with ''/'' es) = es" using assms(2) split_join [of es "CHR ''/''"] by auto
  then show "split_on (CHR ''/'') (path_of b es) = (if b then [[]] else []) @ es" by (simp add: path_of_def)
  obtain e fs where "es = e # fs" using assms(2) by (cases es) auto
  moreover from this obtain c cs where "e = c # cs" "c \<noteq> CHR ''/''" using no by (cases e) auto
  ultimately have "\<not> is_rooted (join_with ''/'' es)" by (cases fs) (auto simp: is_rooted_iff)
  then show "is_rooted (path_of b es) = b" by (auto simp: path_of_def is_rooted_iff)
qed

lemma clean_path_of:
  assumes "kept_elems b (List.rev es)" "es \<noteq> []"
  shows "filepath_Clean (path_of b es) = path_of b es"
proof -
  have "clean_path b ((if b then [[]] else []) @ es) [] = es" using clean_path_idem [OF assms(1)] by (cases b) auto
  then show ?thesis unfolding filepath_Clean_def split_path_of [OF assms] by (auto simp: path_of_def Let_def assms(2))
qed

lemma path_of_snoc: "es \<noteq> [] \<Longrightarrow> path_of b (es @ [e]) = path_of b es @ ''/'' @ e"
  by (simp add: path_of_def join_with_snoc)

text \<open>Joining an element to a clean directory.\<close>

lemma clean_dirE:
  assumes "clean_dir d"
  obtains b es where "d = path_of b es" "es \<noteq> []" "kept_elems b (List.rev es)" "plain_elem (last es)"
  using assms unfolding clean_dir_def by fastforce

lemma clean_dirI: "kept_elems b (List.rev es) \<Longrightarrow> plain_elem (last es) \<Longrightarrow> es \<noteq> [] \<Longrightarrow> clean_dir (path_of b es)"
  unfolding clean_dir_def by (cases es rule: rev_cases) auto

lemma clean_dir_child:
  assumes "clean_dir d" "plain_elem e"
  shows "clean_dir (d @ ''/'' @ e)" and "filepath_Join [d, e] = d @ ''/'' @ e" and "filepath_Clean (d @ ''/'') = d"
proof -
  obtain b es where d: "d = path_of b es" "es \<noteq> []" "kept_elems b (List.rev es)" "plain_elem (last es)"
    using clean_dirE [OF assms(1)] by metis
  have k: "kept_elems b (List.rev (es @ [e]))" using kept_elems_Cons [OF assms(2) d(3)] by simp
  have p: "d @ ''/'' @ e = path_of b (es @ [e])" using d path_of_snoc [of es b e] by simp
  show "clean_dir (d @ ''/'' @ e)" unfolding p using k assms(2) by (intro clean_dirI) auto
  have "filepath_Clean (d @ ''/'' @ e) = d @ ''/'' @ e" unfolding p using k by (intro clean_path_of) auto
  moreover have "d \<noteq> []" using d kept_no_slash [OF d(3)] by (cases es; cases "tl es") (auto simp: path_of_def)
  ultimately show "filepath_Join [d, e] = d @ ''/'' @ e" by simp
  have r: "is_rooted (d @ ''/'') = b" using split_path_of(2) [OF d(3,2)] \<open>d \<noteq> []\<close> d(1) by (auto simp: is_rooted_iff)
  have "split_on (CHR ''/'') (d @ ''/'') = (if b then [[]] else []) @ es @ [[]]"
    using split_path_of(1) [OF d(3,2)] d(1) by (simp add: split_on_append)
  moreover have "clean_path b ((if b then [[]] else []) @ es @ [[]]) [] = es"
    using clean_path_idem [OF d(3)] by (cases b) (auto simp: clean_path_append)
  ultimately show "filepath_Clean (d @ ''/'') = d" using d(1,2) r by (auto simp: filepath_Clean_def path_of_def Let_def)
qed

lemma last_slash: "CHR ''/'' \<notin> set e \<Longrightarrow> dropWhile (\<lambda>c. c \<noteq> CHR ''/'') (List.rev (d @ ''/'' @ e)) = CHR ''/'' # List.rev d"
  and last_elem: "CHR ''/'' \<notin> set e \<Longrightarrow> takeWhile (\<lambda>c. c \<noteq> CHR ''/'') (List.rev (d @ ''/'' @ e)) = List.rev e"
  by (induction e rule: rev_induct) auto

lemma child_Dir: "clean_dir d \<Longrightarrow> plain_elem e \<Longrightarrow> filepath_Dir (d @ ''/'' @ e) = d"
  using last_slash [of e d] clean_dir_child(3) [of d e] by (simp add: filepath_Dir_def plain_elem_def)

lemma child_Base: "plain_elem e \<Longrightarrow> filepath_Base (d @ ''/'' @ e) = e"
proof -
  assume e: "plain_elem e"
  then have "dropWhile (\<lambda>c. c = CHR ''/'') (List.rev (d @ ''/'' @ e)) = List.rev (d @ ''/'' @ e)"
    by (cases e rule: rev_cases) (auto simp: plain_elem_def)
  then show ?thesis using e last_elem [of e d] by (simp add: filepath_Base_def plain_elem_def)
qed

subsection \<open>The tree under a root\<close>

lemma join_slash: "es \<noteq> [] \<Longrightarrow> join_with ''/'' (r # es) = r @ CHR ''/'' # join_with ''/'' es"
  by (cases es) auto

text \<open>The elements below the root directory.\<close>

definition root_elems :: "string \<Rightarrow> string list" where
  "root_elems root = clean_path (is_rooted root) (split_on (CHR ''/'') root) []"

lemma root_join:
  assumes "root \<noteq> []" "list_all plain_elem es" "es \<noteq> []"
  shows "filepath_Join (root # es) = path_of (is_rooted root) (root_elems root @ es)"
    and "kept_elems (is_rooted root) (List.rev (root_elems root @ es))"
proof -
  let ?b = "is_rooted root"
  have no: "\<forall>e \<in> set es. CHR ''/'' \<notin> set e" using assms(2) by (simp add: list_all_iff plain_elem_def)
  have "split_on (CHR ''/'') (root @ CHR ''/'' # join_with ''/'' es) = split_on (CHR ''/'') root @ es"
    using split_join [OF assms(3) no] by (simp add: split_on_append)
  moreover have "clean_path ?b (split_on (CHR ''/'') root @ es) [] = root_elems root @ es"
    by (simp add: clean_path_append clean_path_plain [OF assms(2)] root_elems_def)
  moreover have "is_rooted (root @ CHR ''/'' # join_with ''/'' es) = ?b" using assms(1) by (simp add: is_rooted_iff)
  ultimately show "filepath_Join (root # es) = path_of ?b (root_elems root @ es)"
    using assms by (simp add: join_slash filepath_Clean_def path_of_def Let_def)
  have "kept_elems ?b (List.rev (root_elems root))"
    using clean_path_kept [of "split_on (CHR ''/'') root" ?b "[]"] split_on_no_sep by (auto simp: root_elems_def)
  then show "kept_elems ?b (List.rev (root_elems root @ es))" using assms(2)
  proof (induction es rule: rev_induct)
    case (snoc e es)
    then show ?case using kept_elems_Cons [of e ?b "List.rev (root_elems root @ es)"] by simp
  qed simp
qed

definition nats_dir :: "string \<Rightarrow> string" where
  "nats_dir root = filepath_Join [root, ''nats'']"

lemma plain_names: "plain_elem ''nats''" "plain_elem ''context''" "plain_elem selectedCtxFile" "plain_elem previousCtxFile"
  by (simp_all add: plain_elem_def selectedCtxFile_def previousCtxFile_def)

lemma nats_dir_clean: "root \<noteq> [] \<Longrightarrow> clean_dir (nats_dir root)"
  using root_join [of root "[''nats'']"] clean_dirI [of "is_rooted root" "root_elems root @ [''nats'']"]
  by (simp add: nats_dir_def plain_names)

lemma below_nats_dir: "root \<noteq> [] \<Longrightarrow> plain_elem e \<Longrightarrow> filepath_Join [root, ''nats'', e] = nats_dir root @ ''/'' @ e"
  using root_join(1) [of root "[''nats'', e]"] root_join(1) [of root "[''nats'']"] path_of_snoc [of "root_elems root @ [''nats'']" "is_rooted root" e]
  by (simp add: nats_dir_def plain_names)

lemma selection_paths:
  assumes "fs_root fs \<noteq> []"
  shows "selectedPath fs = nats_dir (fs_root fs) @ ''/context.txt''" and "previousPath fs = nats_dir (fs_root fs) @ ''/previous-context.txt''"
  using below_nats_dir [OF assms plain_names(3)] below_nats_dir [OF assms plain_names(4)]
  by (simp_all add: selectedPath_def previousPath_def selectedCtxFile_def previousCtxFile_def)

lemma context_dir_clean:
  assumes "fb_root fb \<noteq> []"
  shows "contextDir fb = nats_dir (fb_root fb) @ ''/context''" and "clean_dir (contextDir fb)"
  using below_nats_dir [OF assms plain_names(2)] clean_dir_child(1) [OF nats_dir_clean [OF assms] plain_names(2)]
  by (simp_all add: contextDir_def)

subsection \<open>Valid names\<close>

lemma contains_sub_iff: "p \<noteq> [] \<Longrightarrow> contains_sub s p \<longleftrightarrow> (\<exists>a b. s = a @ p @ b)"
proof (induction s)
  case (Cons c s)
  note IH = Cons
  show ?case
  proof
    assume "contains_sub (c # s) p"
    then consider "has_prefix (c # s) p" | "contains_sub s p" by auto
    then show "\<exists>a b. c # s = a @ p @ b"
    proof cases
      case 1
      then show ?thesis unfolding has_prefix_iff by (metis append_Nil)
    next
      case 2
      then obtain a b where "s = a @ p @ b" using Cons by blast
      then show ?thesis by (intro exI [of _ "c # a"] exI [of _ b]) simp
    qed
  next
    assume "\<exists>a b. c # s = a @ p @ b"
    then obtain a b where ab: "c # s = a @ p @ b" by blast
    show "contains_sub (c # s) p"
    proof (cases a)
      case Nil
      then have "has_prefix (c # s) p" using ab by (auto simp: has_prefix_iff)
      then show ?thesis by simp
    next
      case (Cons x xs)
      then have "contains_sub s p" using ab IH by auto
      then show ?thesis by simp
    qed
  qed
qed auto

lemma valid_name_iff: "ValidateName n = None \<longleftrightarrow>
    n \<noteq> [] \<and> (\<forall>a b. n \<noteq> a @ ''..'' @ b) \<and> CHR ''/'' \<notin> set n \<and> CHR 0x5C \<notin> set n"
  using contains_sub_iff [of "''..''" n] by (auto simp: ValidateName_def contains_any_def list_ex_iff)

lemma valid_name_file: "ValidateName n = None \<Longrightarrow> plain_elem (n @ ''.json'')"
  by (cases n) (auto simp: valid_name_iff plain_elem_def)

lemma fb_Path_eq:
  assumes "fb_root fb \<noteq> []" "ValidateName n = None"
  shows "fb_Path fb n = contextDir fb @ ''/'' @ n @ ''.json''"
  using clean_dir_child(2) [OF context_dir_clean(2) [OF assms(1)] valid_name_file [OF assms(2)]] by (simp add: fb_Path_def)

lemma fb_Path_parts:
  assumes "fb_root fb \<noteq> []" "ValidateName n = None"
  shows "filepath_Dir (fb_Path fb n) = contextDir fb" and "filepath_Base (fb_Path fb n) = n @ ''.json''"
  unfolding fb_Path_eq [OF assms]
  by (rule child_Dir [OF context_dir_clean(2) [OF assms(1)] valid_name_file [OF assms(2)]])
     (rule child_Base [OF valid_name_file [OF assms(2)]])

lemma fb_Path_inject:
  "fb_root fb \<noteq> [] \<Longrightarrow> ValidateName n = None \<Longrightarrow> ValidateName n' = None \<Longrightarrow> fb_Path fb n = fb_Path fb n' \<longleftrightarrow> n = n'"
  by (simp add: fb_Path_eq)

text \<open>Which entries of the directory are contexts.\<close>

lemma json_ext: "CHR ''/'' \<notin> set n \<Longrightarrow> filepath_Ext (n @ ''.json'') = ''.json''"
proof -
  assume "CHR ''/'' \<notin> set n"
  then have "takeWhile (\<lambda>c. c \<noteq> CHR ''/'') (List.rev n) = List.rev n" by (simp add: takeWhile_eq_all_conv) blast
  then show ?thesis by (simp add: filepath_Ext_def)
qed

lemma Ext_suffix: "filepath_Ext s \<noteq> [] \<Longrightarrow> \<exists>n. s = n @ filepath_Ext s"
proof -
  let ?b = "List.rev (takeWhile (\<lambda>c. c \<noteq> CHR ''/'') (List.rev s))"
  let ?d = "\<lambda>c. c \<noteq> CHR ''.''"
  assume a: "filepath_Ext s \<noteq> []"
  then have r: "dropWhile ?d (List.rev ?b) \<noteq> []" by (auto simp: filepath_Ext_def Let_def split: if_splits)
  then have e: "filepath_Ext s = CHR ''.'' # List.rev (takeWhile ?d (List.rev ?b))" by (simp add: filepath_Ext_def Let_def)
  obtain r' where r': "dropWhile ?d (List.rev ?b) = CHR ''.'' # r'"
    using r hd_dropWhile [OF r] by (cases "dropWhile ?d (List.rev ?b)") auto
  have "List.rev ?b = takeWhile ?d (List.rev ?b) @ CHR ''.'' # r'" by (metis r' takeWhile_dropWhile_id)
  then have "?b = List.rev r' @ filepath_Ext s" unfolding e by (metis append.assoc append_Cons append_Nil rev.simps(2) rev_append rev_rev_ident)
  moreover obtain p where "s = p @ ?b"
    by (metis rev_append rev_rev_ident takeWhile_dropWhile_id)
  ultimately show ?thesis by (metis append.assoc)
qed

lemma entry_name_iff:
  "entry_name e = Some n \<longleftrightarrow>
     \<not> de_dir e \<and> (\<exists>k. de_size e = Some k \<and> k \<noteq> 0) \<and> de_name e = n @ ''.json'' \<and> ValidateName n = None"
proof
  assume e: "entry_name e = Some n"
  then have x: "filepath_Ext (de_name e) = ''.json''" by (auto simp: entry_name_def Let_def split: if_splits option.splits)
  then obtain m where "de_name e = m @ ''.json''" using Ext_suffix [of "de_name e"] by auto
  then show "\<not> de_dir e \<and> (\<exists>k. de_size e = Some k \<and> k \<noteq> 0) \<and> de_name e = n @ ''.json'' \<and> ValidateName n = None"
    using e x by (auto simp: entry_name_def Let_def trim_suffix_def has_suffix_def split: if_splits option.splits)
next
  assume "\<not> de_dir e \<and> (\<exists>k. de_size e = Some k \<and> k \<noteq> 0) \<and> de_name e = n @ ''.json'' \<and> ValidateName n = None"
  moreover from this have "filepath_Ext (n @ ''.json'') = ''.json''" by (simp add: json_ext valid_name_iff)
  ultimately show "entry_name e = Some n" by (auto simp: entry_name_def trim_suffix_def has_suffix_def)
qed

end
