(* ===== verification/Context_Store.thy ===== *)
theory Context_Store
  imports Context_Paths "HOL-Library.Multiset"
begin

text \<open>
  The contract of a backend and a selector as locales, and its proof for the memory backend and for
  the file backend with its selector, on a file system where no call fails. That \<open>writeFileAtomic\<close>
  is atomic holds with failures too.
\<close>

subsection \<open>Atomic writes\<close>

abbreviation files :: "os \<Rightarrow> string \<rightharpoonup> bytes" where
  "files w \<equiv> map_of (os_files w)"

lemma put_file_simps [simp]: "files (put_file p d w) = (files w)(p \<mapsto> d)" "os_dirs (put_file p d w) = os_dirs w"
  "os_fault (put_file p d w) = os_fault w" "os_random (put_file p d w) = os_random w"
  "files (w\<lparr> os_random := k \<rparr>) = files w" "map_of (AList.delete p al) = (map_of al)(p := None)"
  by (simp_all add: put_file_def update_conv' delete_conv')

lemma itoa_no_slash: "CHR ''/'' \<notin> set (itoa n)"
proof
  assume "CHR ''/'' \<in> set (itoa n)"
  then obtain d where "d < 10" "CHR ''/'' = digit_char d" using itoa_digits by blast
  then have "(of_char (CHR ''/'') :: nat) = of_char (digit_char d)" by simp
  then show False using \<open>d < 10\<close> by (simp add: digit_char_def)
qed

lemma temp_path_eq:
  assumes "clean_dir d" "plain_elem e"
  shows "temp_path (d @ ''/'' @ e) w = d @ ''/'' @ e @ ''.tmp-'' @ itoa (os_random w)"
proof -
  have "plain_elem (e @ ''.tmp-'' @ itoa (os_random w))" using assms(2) itoa_no_slash by (cases e) (auto simp: plain_elem_def)
  then show ?thesis unfolding temp_path_def child_Dir [OF assms] child_Base [OF assms(2)] using clean_dir_child(2) [OF assms(1)] by simp
qed

lemma remove_files: "files (snd (os_Remove p w)) = files w \<or> files (snd (os_Remove p w)) = (files w)(p := None)"
  by (simp add: os_Remove_def delete_conv')

lemma write_steps_cases:
  assumes "tmp = temp_path path w" "tmp \<noteq> path" "write_steps path data w = (er, ws)" "v \<in> set ws"
  shows "(\<forall>q. q \<notin> {path, tmp} \<longrightarrow> files v q = files w q) \<and> (files v path = files w path \<or> files v path = Some data)"
proof -
  have rm: "files (snd (os_Remove tmp u)) q = files u q" if "q \<noteq> tmp" for u q
    using remove_files [of tmp u] that by auto
  show ?thesis using assms(2-4) unfolding write_steps_def assms(1) [symmetric]
    by (auto simp: Let_def rm split: if_splits)
qed

lemma write_steps_last:
  assumes "tmp = temp_path path w" "tmp \<noteq> path" "write_steps path data w = (er, ws)"
  shows "files (last ws) path = (if er = None then Some data else files w path)"
proof -
  have rm: "files (snd (os_Remove tmp u)) path = files u path" for u
    using remove_files [of tmp u] assms(2) by auto
  show ?thesis using assms(2,3) unfolding write_steps_def assms(1) [symmetric]
    by (auto simp: Let_def rm split: if_splits)
qed

lemma write_ok:
  assumes "clean_dir d" "plain_elem e" "\<forall>op p. \<not> os_fault w op p" "d \<in> set (os_dirs w)" "d @ ''/'' @ e \<notin> set (os_dirs w)"
    and "\<forall>f \<in> dom (files w). \<not> has_suffix f (''.tmp-'' @ itoa (os_random w))"
  shows "\<exists>w'. writeFileAtomic (d @ ''/'' @ e) data w = (None, w') \<and> files w' = (files w)(d @ ''/'' @ e \<mapsto> data) \<and>
    os_dirs w' = os_dirs w \<and> os_fault w' = os_fault w \<and> os_random w' = os_random w + 1"
proof -
  let ?t = "d @ ''/'' @ e @ ''.tmp-'' @ itoa (os_random w)"
  have "has_suffix ?t (''.tmp-'' @ itoa (os_random w))" by (simp add: has_suffix_def)
  then have fresh: "files w ?t = None" using assms(6) by blast
  let ?w1 = "(put_file ?t [] w)\<lparr> os_random := os_random w + 1 \<rparr>"
  let ?w3 = "put_file (d @ ''/'' @ e) data ((put_file ?t data ?w1)\<lparr> os_files := AList.delete ?t (os_files (put_file ?t data ?w1)) \<rparr>)"
  have "writeFileAtomic (d @ ''/'' @ e) data w = (None, ?w3)"
    unfolding writeFileAtomic_def write_steps_def temp_path_eq [OF assms(1,2)] child_Dir [OF assms(1,2)]
    using assms(3-5) fresh by (simp add: Let_def)
  moreover have "files ?w3 = (files w)(d @ ''/'' @ e \<mapsto> data)" using fresh by (auto simp: fun_eq_iff delete_conv')
  ultimately show ?thesis by (intro exI [of _ ?w3] conjI) (simp_all add: put_file_def)
qed

subsection \<open>The contract\<close>

text \<open>What a backend stores, as the interface \<open>Backend\<close> promises it.\<close>

locale context_store =
  fixes b :: "'w Backend" and inv :: "'w \<Rightarrow> bool" and stored :: "'w \<Rightarrow> string \<rightharpoonup> bytes"
  assumes load: "inv w \<Longrightarrow> ValidateName n = None \<Longrightarrow>
      bk_Load b n w = (case stored w n of None \<Rightarrow> Inl (ErrNotFound n) | Some d \<Rightarrow> Inr d)"
    and save: "inv w \<Longrightarrow> ValidateName n = None \<Longrightarrow>
      \<exists>w'. bk_Save b n d w = (None, w') \<and> inv w' \<and> stored w' = (stored w)(n \<mapsto> d)"
    and delete: "inv w \<Longrightarrow> ValidateName n = None \<Longrightarrow>
      \<exists>w'. bk_Delete b n w = (None, w') \<and> inv w' \<and> stored w' = (stored w)(n := None)"
    and listed: "inv w \<Longrightarrow> \<exists>ns. bk_List b w = Inr ns \<and> sorted ns \<and> distinct ns \<and> set ns \<subseteq> dom (stored w) \<and>
      (\<forall>n d. stored w n = Some d \<longrightarrow> d \<noteq> [] \<longrightarrow> n \<in> set ns)"
    and valid_names: "inv w \<Longrightarrow> n \<in> dom (stored w) \<Longrightarrow> ValidateName n = None"

text \<open>The same with a selector that shares its state; \<open>current\<close> is empty when nothing is selected.\<close>

locale context_selection = context_store b inv stored
  for b :: "'w Backend" and inv and stored +
  fixes s :: "'w Selector" and current :: "'w \<Rightarrow> string"
  assumes selected: "inv w \<Longrightarrow> sl_Selected s w = (if current w = [] then Inl ErrNoneSelected else Inr (current w))"
    and set_selected: "inv w \<Longrightarrow> trim_space n = n \<Longrightarrow>
      \<exists>w'. sl_SetSelected s n w = (Inr (current w), w') \<and> inv w' \<and> current w' = n \<and> stored w' = stored w"
    and save_current: "inv w \<Longrightarrow> ValidateName n = None \<Longrightarrow> current (snd (bk_Save b n d w)) = current w"
    and delete_current: "inv w \<Longrightarrow> ValidateName n = None \<Longrightarrow> current (snd (bk_Delete b n w)) = current w"

subsection \<open>The memory backend\<close>

definition memory_ok :: "MemoryBackend \<Rightarrow> bool" where
  "memory_ok m \<longleftrightarrow> (\<forall>n \<in> dom (map_of (mb_contexts m)). ValidateName n = None)"

definition memory_stored :: "MemoryBackend \<Rightarrow> string \<rightharpoonup> bytes" where
  "memory_stored m = map_of (mb_contexts m)"

interpretation memory: context_selection memory_backend memory_ok memory_stored memory_selector mb_selected
proof
  fix m n d assume ok: "memory_ok m" and v: "ValidateName n = None"
  show "bk_Load memory_backend n m = (case memory_stored m n of None \<Rightarrow> Inl (ErrNotFound n) | Some d \<Rightarrow> Inr d)"
    by (simp add: memory_backend_def mem_Load_def memory_stored_def v)
  show "\<exists>m'. bk_Save memory_backend n d m = (None, m') \<and> memory_ok m' \<and> memory_stored m' = (memory_stored m)(n \<mapsto> d)"
    using ok v by (auto simp: memory_backend_def mem_Save_def memory_ok_def memory_stored_def update_conv' split: if_splits)
  show "\<exists>m'. bk_Delete memory_backend n m = (None, m') \<and> memory_ok m' \<and> memory_stored m' = (memory_stored m)(n := None)"
    using ok v by (auto simp: memory_backend_def mem_Delete_def memory_ok_def memory_stored_def delete_conv' split: if_splits)
  show "mb_selected (snd (bk_Save memory_backend n d m)) = mb_selected m"
    by (simp add: memory_backend_def mem_Save_def v)
  show "mb_selected (snd (bk_Delete memory_backend n m)) = mb_selected m"
    by (simp add: memory_backend_def mem_Delete_def v)
next
  fix m n assume ok: "memory_ok m"
  show "\<exists>ns. bk_List memory_backend m = Inr ns \<and> sorted ns \<and> distinct ns \<and> set ns \<subseteq> dom (memory_stored m) \<and>
      (\<forall>n d. memory_stored m n = Some d \<longrightarrow> d \<noteq> [] \<longrightarrow> n \<in> set ns)"
    by (auto simp: memory_backend_def mem_List_def memory_stored_def distinct_clearjunk dom_map_of_conv_image_fst dom_clearjunk
        intro: rev_image_eqI dest: map_of_SomeD)
  show "ValidateName n = None" if "n \<in> dom (memory_stored m)" using ok that by (simp add: memory_ok_def memory_stored_def)
  show "sl_Selected memory_selector m = (if mb_selected m = [] then Inl ErrNoneSelected else Inr (mb_selected m))"
    by (simp add: memory_selector_def mem_Selected_def)
  show "\<exists>m'. sl_SetSelected memory_selector n m = (Inr (mb_selected m), m') \<and> memory_ok m' \<and> mb_selected m' = n \<and>
      memory_stored m' = memory_stored m"
    using ok by (simp add: memory_selector_def mem_SetSelected_def memory_ok_def memory_stored_def Let_def)
qed

subsection \<open>The file backend\<close>

definition own_path :: "FileBackend \<Rightarrow> string \<Rightarrow> bool" where
  "own_path fb p \<longleftrightarrow> (\<exists>n. ValidateName n = None \<and> p = fb_Path fb n) \<or> p = selectedPath (fb_selector fb) \<or> p = previousPath (fb_selector fb)"

text \<open>
  A file system that serves a backend: no call fails, no file stands where a directory of the backend
  is to be, no directory where one of its files is to be, no file already has the name of a
  temporary file to come, and the files of its directory, which exists then, lie there under their clean paths.
\<close>

definition files_ok :: "FileBackend \<Rightarrow> os \<Rightarrow> bool" where
  "files_ok fb w \<longleftrightarrow> fb_root fb \<noteq> [] \<and> fb_selector fb = \<lparr> fs_root = fb_root fb \<rparr> \<and> (\<forall>op p. \<not> os_fault w op p) \<and>
     (\<forall>f \<in> dom (files w). (\<forall>k \<ge> os_random w. \<not> has_suffix f (''.tmp-'' @ itoa k)) \<and>
        f \<notin> set (path_prefixes (contextDir fb)) \<and>
        (filepath_Dir f = contextDir fb \<longrightarrow> f = contextDir fb @ ''/'' @ filepath_Base f \<and> contextDir fb \<in> set (os_dirs w))) \<and>
     (\<forall>p \<in> set (os_dirs w). \<not> own_path fb p)"

definition files_stored :: "FileBackend \<Rightarrow> os \<Rightarrow> string \<rightharpoonup> bytes" where
  "files_stored fb w n = (if ValidateName n = None then files w (fb_Path fb n) else None)"

definition files_current :: "FileBackend \<Rightarrow> os \<Rightarrow> string" where
  "files_current fb w = readSelection (fb_selector fb) (selectedPath (fb_selector fb)) w"

lemma in_path_prefixes: "p \<in> set (path_prefixes q) \<longleftrightarrow>
    (\<exists>n \<ge> 1. n \<le> length (split_on (CHR ''/'') q) \<and> p = join_with ''/'' (take n (split_on (CHR ''/'') q)))"
proof -
  have "set (path_prefixes q) = (\<lambda>n. join_with ''/'' (take n (split_on (CHR ''/'') q))) ` {1..<Suc (length (split_on (CHR ''/'') q))}"
    by (simp only: path_prefixes_def Let_def set_map set_upt)
  then show ?thesis by (auto simp only: image_iff atLeastLessThan_iff less_Suc_eq_le Bex_def)
qed

lemma prefix_length: "p \<in> set (path_prefixes q) \<Longrightarrow> length p \<le> length q"
proof -
  assume "p \<in> set (path_prefixes q)"
  then obtain n where n: "n \<ge> 1" "p = join_with ''/'' (take n (split_on (CHR ''/'') q))" unfolding in_path_prefixes by blast
  have "length (join_with ''/'' (take n es)) \<le> length (join_with ''/'' es)" if "n \<ge> 1" for n and es :: "string list"
    using that
  proof (induction "''/''" es arbitrary: n rule: join_with.induct)
    case (3 t u ts)
    then obtain m where "n = Suc m" by (cases n) auto
    then show ?case using 3(1) [of m] by (cases m) simp_all
  qed (auto simp: take_Cons split: nat.splits)
  from this [OF n(1)] show ?thesis unfolding n(2) by (metis join_split)
qed

lemma prefix_self: "p \<in> set (path_prefixes p)"
  unfolding in_path_prefixes by (intro exI [of _ "length (split_on (CHR ''/'') p)"]) (simp add: Suc_le_eq)

lemma prefix_parent: "p \<in> set (path_prefixes d) \<Longrightarrow> p \<in> set (path_prefixes (d @ CHR ''/'' # e))"
  unfolding in_path_prefixes by (elim exE conjE, rule_tac x = n in exI) (simp add: split_on_append)

lemma own_path_eq:
  assumes "fb_root fb \<noteq> []" "fb_selector fb = \<lparr> fs_root = fb_root fb \<rparr>" "own_path fb p"
  obtains n where "ValidateName n = None" "p = contextDir fb @ ''/'' @ n @ ''.json''"
  | e where "e \<in> {''context.txt'', ''previous-context.txt''}" "p = nats_dir (fb_root fb) @ ''/'' @ e"
  using assms fb_Path_eq [OF assms(1)] selection_paths [of "fb_selector fb"] unfolding own_path_def by auto

lemma own_path_props:
  assumes "fb_root fb \<noteq> []" "fb_selector fb = \<lparr> fs_root = fb_root fb \<rparr>" "own_path fb p"
  shows "p \<notin> set (path_prefixes (contextDir fb))" and "\<not> has_suffix p (''.tmp-'' @ itoa k)"
    and "filepath_Dir p = contextDir fb \<longrightarrow> p = contextDir fb @ ''/'' @ filepath_Base p"
proof -
  note cd = context_dir_clean(1) [OF assms(1)]
  have long: "length p > length (contextDir fb)" using own_path_eq [OF assms] cd by cases auto
  then show "p \<notin> set (path_prefixes (contextDir fb))" using prefix_length [of p "contextDir fb"] by auto
  have "last p \<notin> set (itoa k)"
  proof
    assume "last p \<in> set (itoa k)"
    then obtain d where "d < 10" "last p = digit_char d" using itoa_digits by blast
    moreover have "last p = CHR ''n'' \<or> last p = CHR ''t''" using own_path_eq [OF assms] by cases auto
    ultimately have "(of_char (digit_char d) :: nat) = of_char (CHR ''n'') \<or> (of_char (digit_char d) :: nat) = of_char (CHR ''t'')" by auto
    then show False using \<open>d < 10\<close> by (simp add: digit_char_def)
  qed
  moreover have "last p \<in> set (itoa k)" if s: "has_suffix p (''.tmp-'' @ itoa k)"
  proof -
    obtain r where "p = r @ ''.tmp-'' @ itoa k" using s unfolding has_suffix_def by (metis append_take_drop_id)
    then show ?thesis by simp
  qed
  ultimately show "\<not> has_suffix p (''.tmp-'' @ itoa k)" by blast
  show "filepath_Dir p = contextDir fb \<longrightarrow> p = contextDir fb @ ''/'' @ filepath_Base p"
    using own_path_eq [OF assms]
  proof cases
    case (1 n)
    then show ?thesis using child_Base [OF valid_name_file [OF 1(1)], of "contextDir fb"] by simp
  next
    case (2 e)
    then have "plain_elem e" using plain_names(3,4) by (auto simp: selectedCtxFile_def previousCtxFile_def)
    then have "filepath_Dir p = nats_dir (fb_root fb)" using 2(2) child_Dir [OF nats_dir_clean [OF assms(1)]] by simp
    then show ?thesis using cd by auto
  qed
qed

text \<open>What the operations do keeps the file system in order.\<close>

lemma files_ok_step:
  assumes "files_ok fb w" "\<forall>op p. \<not> os_fault w' op p" "os_random w \<le> os_random w'"
    and "dom (files w') \<subseteq> dom (files w) \<union> Collect (own_path fb)"
    and "set (os_dirs w') \<subseteq> set (os_dirs w) \<union> set (path_prefixes (contextDir fb))" "set (os_dirs w) \<subseteq> set (os_dirs w')"
    and "\<forall>f \<in> dom (files w') - dom (files w). filepath_Dir f \<in> set (os_dirs w')"
  shows "files_ok fb w'"
proof -
  have r: "fb_root fb \<noteq> []" "fb_selector fb = \<lparr> fs_root = fb_root fb \<rparr>" using assms(1) by (simp_all add: files_ok_def)
  have "(\<forall>k \<ge> os_random w'. \<not> has_suffix f (''.tmp-'' @ itoa k)) \<and> f \<notin> set (path_prefixes (contextDir fb)) \<and>
      (filepath_Dir f = contextDir fb \<longrightarrow> f = contextDir fb @ ''/'' @ filepath_Base f \<and> contextDir fb \<in> set (os_dirs w'))" if "f \<in> dom (files w')" for f
  proof (cases "f \<in> dom (files w)")
    case False
    then have own: "own_path fb f" using that assms(4) by blast
    have "filepath_Dir f \<in> set (os_dirs w')" using False that assms(7) by blast
    then show ?thesis using own_path_props [OF r own] by auto
  next
    case True
    then show ?thesis using assms(1,3,6) unfolding files_ok_def by (meson le_trans subset_iff)
  qed
  moreover have "\<not> own_path fb p" if "p \<in> set (os_dirs w')" for p
    using that assms(1,5) own_path_props(1) [OF r, of p] unfolding files_ok_def by blast
  ultimately show ?thesis using r assms(2) unfolding files_ok_def by blast
qed

lemma files_okD:
  assumes "files_ok fb w"
  shows "fb_root fb \<noteq> []" "fb_selector fb = \<lparr> fs_root = fb_root fb \<rparr>" "\<not> os_fault w op p"
    "own_path fb p \<Longrightarrow> p \<notin> set (os_dirs w)" "f \<in> dom (files w) \<Longrightarrow> \<not> has_suffix f (''.tmp-'' @ itoa (os_random w))"
    "f \<in> dom (files w) \<Longrightarrow> f \<notin> set (path_prefixes (contextDir fb))"
    "f \<in> dom (files w) \<Longrightarrow> filepath_Dir f = contextDir fb \<Longrightarrow> f = contextDir fb @ ''/'' @ filepath_Base f"
    "f \<in> dom (files w) \<Longrightarrow> filepath_Dir f = contextDir fb \<Longrightarrow> contextDir fb \<in> set (os_dirs w)"
  using assms unfolding files_ok_def by blast+

text \<open>Making the directories of a backend.\<close>

lemma mkdir_ok:
  assumes "files_ok fb w" "set (path_prefixes d) \<subseteq> set (path_prefixes (contextDir fb))"
  shows "\<exists>w1. os_MkdirAll d w = (None, w1) \<and> files_ok fb w1 \<and> files w1 = files w \<and> d \<in> set (os_dirs w1)"
proof -
  let ?w = "w\<lparr> os_dirs := path_prefixes d @ os_dirs w \<rparr>"
  have "\<not> list_ex (\<lambda>q. files w q \<noteq> None) (path_prefixes d)"
    using files_okD(6) [OF assms(1)] assms(2) unfolding list_ex_iff by blast
  then have "os_MkdirAll d w = (None, ?w)" using files_okD(3) [OF assms(1)] by (simp add: os_MkdirAll_def)
  moreover have "files_ok fb ?w"
    by (rule files_ok_step [OF assms(1)]) (use files_okD(3) [OF assms(1)] assms(2) in auto)
  ultimately show ?thesis using prefix_self by auto
qed

text \<open>Writing, removing and reading one of the files of a backend.\<close>

lemma own_write_ok:
  assumes "files_ok fb w" "own_path fb (d @ ''/'' @ e)" "clean_dir d" "plain_elem e" "d \<in> set (os_dirs w)"
  shows "\<exists>w'. writeFileAtomic (d @ ''/'' @ e) data w = (None, w') \<and> files_ok fb w' \<and> files w' = (files w)(d @ ''/'' @ e \<mapsto> data) \<and>
    os_dirs w' = os_dirs w"
proof -
  have "\<forall>op p. \<not> os_fault w op p" "\<forall>f \<in> dom (files w). \<not> has_suffix f (''.tmp-'' @ itoa (os_random w))"
    using files_okD(3,5) [OF assms(1)] by blast+
  from write_ok [OF assms(3,4) this(1) assms(5) files_okD(4) [OF assms(1,2)] this(2)]
  obtain w' where w': "writeFileAtomic (d @ ''/'' @ e) data w = (None, w')" "files w' = (files w)(d @ ''/'' @ e \<mapsto> data)"
    "os_dirs w' = os_dirs w" "os_fault w' = os_fault w" "os_random w' = os_random w + 1" by blast
  have "files_ok fb w'"
    by (rule files_ok_step [OF assms(1)]) (use w' files_okD(3) [OF assms(1)] assms(2,5) child_Dir [OF assms(3,4)] in auto)
  then show ?thesis using w' by blast
qed

lemma own_remove_ok:
  assumes "files_ok fb w"
  shows "\<exists>er w'. os_Remove p w = (er, w') \<and> ignore_missing er = None \<and> files_ok fb w' \<and> files w' = (files w)(p := None)"
proof (cases "files w p")
  case None
  then show ?thesis using files_okD(3) [OF assms] assms by (auto simp: os_Remove_def ignore_missing_def fun_eq_iff)
next
  case (Some data)
  let ?w = "w\<lparr> os_files := AList.delete p (os_files w) \<rparr>"
  have "files_ok fb ?w"
    by (rule files_ok_step [OF assms]) (use files_okD(3) [OF assms] in \<open>auto simp: delete_conv' split: if_splits\<close>)
  then show ?thesis using files_okD(3) [OF assms] Some by (auto simp: os_Remove_def ignore_missing_def)
qed

lemma read_ok: "files_ok fb w \<Longrightarrow> os_ReadFile p w = (case files w p of None \<Rightarrow> Inl (NotExist p) | Some d \<Rightarrow> Inr d)"
  by (simp add: os_ReadFile_def files_okD(3))

text \<open>The contexts and the selection lie in different files.\<close>

lemma own_paths_differ:
  assumes "fb_root fb \<noteq> []" "fb_selector fb = \<lparr> fs_root = fb_root fb \<rparr>" "ValidateName n = None"
  shows "fb_Path fb n \<noteq> selectedPath (fb_selector fb)" "fb_Path fb n \<noteq> previousPath (fb_selector fb)"
    "selectedPath (fb_selector fb) \<noteq> previousPath (fb_selector fb)"
  unfolding fb_Path_eq [OF assms(1,3)] context_dir_clean(1) [OF assms(1)]
  using selection_paths [of "fb_selector fb"] assms(1,2) by simp_all

lemma files_current_eq:
  "files_ok fb w \<Longrightarrow> files_current fb w = (case files w (selectedPath (fb_selector fb)) of None \<Rightarrow> [] | Some d \<Rightarrow> trim_space d)"
  by (simp add: files_current_def readSelection_def files_okD(1,2) read_ok split: option.split)

lemma fb_Load_ok:
  "files_ok fb w \<Longrightarrow> ValidateName n = None \<Longrightarrow>
     fb_Load fb n w = (case files_stored fb w n of None \<Rightarrow> Inl (ErrNotFound n) | Some d \<Rightarrow> Inr d)"
  by (simp add: fb_Load_def files_stored_def read_ok files_okD(1) split: option.split)

lemma stored_upd:
  assumes "files_ok fb w" "ValidateName n = None" "files w' = (files w)(fb_Path fb n := x)"
  shows "files_stored fb w' = (files_stored fb w)(n := x)"
  using assms fb_Path_inject [OF files_okD(1) [OF assms(1)]] by (auto simp: files_stored_def fun_eq_iff)

lemma fb_Save_ok:
  assumes "files_ok fb w" "ValidateName n = None"
  shows "\<exists>w'. fb_Save fb n d w = (None, w') \<and> files_ok fb w' \<and> files_stored fb w' = (files_stored fb w)(n \<mapsto> d) \<and>
    files_current fb w' = files_current fb w"
proof -
  note r = files_okD(1,2) [OF assms(1)]
  obtain w1 where w1: "os_MkdirAll (contextDir fb) w = (None, w1)" "files_ok fb w1" "files w1 = files w" "contextDir fb \<in> set (os_dirs w1)"
    using mkdir_ok [OF assms(1), of "contextDir fb"] by blast
  have own: "own_path fb (contextDir fb @ ''/'' @ n @ ''.json'')"
    using assms(2) fb_Path_eq [OF r(1) assms(2)] unfolding own_path_def by metis
  obtain w' where w': "writeFileAtomic (fb_Path fb n) d w1 = (None, w')" "files_ok fb w'" "files w' = (files w1)(fb_Path fb n \<mapsto> d)"
    using own_write_ok [OF w1(2) own context_dir_clean(2) [OF r(1)] valid_name_file [OF assms(2)] w1(4), of d]
    unfolding fb_Path_eq [OF r(1) assms(2)] by blast
  have "fb_Save fb n d w = (None, w')"
    using w1(1) w'(1) r by (simp add: fb_Save_def assms(2) fb_ensureTree_def wrap_os_def)
  moreover have "files_stored fb w' = (files_stored fb w)(n \<mapsto> d)"
    by (rule stored_upd [OF assms]) (simp add: w'(3) w1(3))
  moreover have "files_current fb w' = files_current fb w"
    using own_paths_differ(1) [OF r assms(2)] by (simp add: files_current_eq assms(1) w' w1(3))
  ultimately show ?thesis using w'(2) by blast
qed

lemma fb_Delete_ok:
  assumes "files_ok fb w" "ValidateName n = None"
  shows "\<exists>w'. fb_Delete fb n w = (None, w') \<and> files_ok fb w' \<and> files_stored fb w' = (files_stored fb w)(n := None) \<and>
    files_current fb w' = files_current fb w"
proof -
  note r = files_okD(1,2) [OF assms(1)]
  obtain er w' where w': "os_Remove (fb_Path fb n) w = (er, w')" "ignore_missing er = None" "files_ok fb w'"
    "files w' = (files w)(fb_Path fb n := None)" using own_remove_ok [OF assms(1)] by blast
  have "fb_Delete fb n w = (None, w')" using w' r by (simp add: fb_Delete_def assms(2))
  moreover have "files_current fb w' = files_current fb w"
    using own_paths_differ(1) [OF r assms(2)] by (simp add: files_current_eq assms(1) w'(3,4))
  ultimately show ?thesis using w'(3) stored_upd [OF assms w'(4)] by blast
qed

text \<open>Listing the directory.\<close>

lemma set_map_filter_some: "x \<in> set (List.map_filter f xs) \<longleftrightarrow> (\<exists>y \<in> set xs. f y = Some x)"
  by (induction xs) (auto simp: List.map_filter_simps split: option.splits)

lemma distinct_some:
  assumes "distinct (filter (\<lambda>x. f x \<noteq> None) xs)" and "\<And>x y. x \<in> set xs \<Longrightarrow> y \<in> set xs \<Longrightarrow> f x = f y \<Longrightarrow> f x \<noteq> None \<Longrightarrow> x = y"
  shows "distinct (List.map_filter f xs)"
  using assms
proof (induction xs)
  case (Cons x xs)
  show ?case
  proof (cases "f x")
    case None
    then show ?thesis using Cons by (simp add: List.map_filter_simps)
  next
    case (Some y)
    have "y \<notin> set (List.map_filter f xs)"
    proof
      assume "y \<in> set (List.map_filter f xs)"
      then obtain z where z: "z \<in> set xs" "f z = Some y" by (auto simp: set_map_filter_some)
      then have "x = z" using Cons.prems(2) [of x z] Some by simp
      then show False using Cons.prems(1) Some z by simp
    qed
    then show ?thesis using Cons Some by (simp add: List.map_filter_simps)
  qed
qed (simp add: List.map_filter_simps)

lemma distinct_filter_sort: "distinct (filter P (sort_key k xs)) \<longleftrightarrow> distinct (filter P xs)"
proof -
  have "mset (filter P (sort_key k xs)) = mset (filter P xs)" by simp
  then show ?thesis by (rule mset_eq_imp_distinct_iff)
qed

text \<open>The entry of a file of the directory.\<close>

definition file_entry :: "os \<Rightarrow> string \<times> bytes \<Rightarrow> dir_entry" where
  "file_entry w = (\<lambda>(f, d). \<lparr> de_name = filepath_Base f, de_dir = False,
     de_size = (if os_fault w ''stat'' f then None else Some (length d)) \<rparr>)"

lemma entries_files: "entry_name e = Some n \<Longrightarrow> e \<in> set (entries_in p w) \<longleftrightarrow>
    (\<exists>f d. files w f = Some d \<and> filepath_Dir f = p \<and> e = file_entry w (f, d))"
proof -
  assume "entry_name e = Some n"
  then have nd: "\<not> de_dir e" by (simp add: entry_name_iff)
  have "(f, d) \<in> set (AList.clearjunk (os_files w)) \<longleftrightarrow> files w f = Some d" for f d
    using map_of_eq_Some_iff [OF distinct_clearjunk [of "os_files w"], of f d] by (simp add: map_of_clearjunk)
  then show ?thesis using nd unfolding entries_in_def file_entry_def by (fastforce simp: image_iff)
qed

lemma listed_iff:
  assumes "files_ok fb w"
  shows "(\<exists>e \<in> set (entries_in (contextDir fb) w). entry_name e = Some n) \<longleftrightarrow> (\<exists>d. files_stored fb w n = Some d \<and> d \<noteq> [])"
proof
  assume "\<exists>e \<in> set (entries_in (contextDir fb) w). entry_name e = Some n"
  then obtain e f d where e: "entry_name e = Some n" "files w f = Some d" "filepath_Dir f = contextDir fb" "e = file_entry w (f, d)"
    using entries_files by blast
  then have "filepath_Base f = n @ ''.json''" "d \<noteq> []" "ValidateName n = None"
    by (auto simp: entry_name_iff file_entry_def split: if_splits)
  moreover from this have "f = fb_Path fb n"
    using files_okD(7) [OF assms, of f] e(2,3) fb_Path_eq [OF files_okD(1) [OF assms]] by auto
  ultimately show "\<exists>d. files_stored fb w n = Some d \<and> d \<noteq> []" using e(2) by (simp add: files_stored_def)
next
  assume "\<exists>d. files_stored fb w n = Some d \<and> d \<noteq> []"
  then obtain d where d: "ValidateName n = None" "files w (fb_Path fb n) = Some d" "d \<noteq> []"
    by (auto simp: files_stored_def split: if_splits)
  have "entry_name (file_entry w (fb_Path fb n, d)) = Some n"
    using fb_Path_parts(2) [OF files_okD(1) [OF assms] d(1)] d files_okD(3) [OF assms] by (simp add: entry_name_iff file_entry_def)
  moreover from this have "file_entry w (fb_Path fb n, d) \<in> set (entries_in (contextDir fb) w)"
    using d(2) fb_Path_parts(1) [OF files_okD(1) [OF assms] d(1)] by (subst entries_files) auto
  ultimately show "\<exists>e \<in> set (entries_in (contextDir fb) w). entry_name e = Some n" by blast
qed

lemma entries_distinct:
  assumes "files_ok fb w"
  shows "distinct (filter (\<lambda>e. entry_name e \<noteq> None) (entries_in (contextDir fb) w))"
proof -
  let ?fs = "filter (\<lambda>(f, _). filepath_Dir f = contextDir fb) (AList.clearjunk (os_files w))"
  let ?ds = "map (\<lambda>f. \<lparr> de_name = filepath_Base f, de_dir = True, de_size = Some 0 \<rparr>)
       (filter (\<lambda>f. filepath_Dir f = contextDir fb \<and> f \<noteq> contextDir fb) (remdups (os_dirs w)))"
  have dirs: "filter (\<lambda>e. entry_name e \<noteq> None) ?ds = []" by (simp add: filter_empty_conv entry_name_def)
  have key: "f = contextDir fb @ ''/'' @ filepath_Base f" if "(f, d) \<in> set ?fs" for f d
  proof (rule files_okD(7) [OF assms])
    have "map_of (AList.clearjunk (os_files w)) f = Some d"
      using that map_of_eq_Some_iff [OF distinct_clearjunk [of "os_files w"], of f d] by auto
    then show "f \<in> dom (files w)" by (auto simp: map_of_clearjunk)
    show "filepath_Dir f = contextDir fb" using that by auto
  qed
  have "distinct (map fst ?fs)" using distinct_clearjunk by (rule List.distinct_map_filter)
  moreover have "map (\<lambda>e. contextDir fb @ ''/'' @ de_name e) (map (file_entry w) ?fs) = map fst ?fs"
    using key by (auto simp: file_entry_def)
  ultimately have "distinct (map (\<lambda>e. contextDir fb @ ''/'' @ de_name e) (map (file_entry w) ?fs))" by (simp only:)
  then have "distinct (map (file_entry w) ?fs)" by (rule distinct_map [THEN iffD1, THEN conjunct1])
  then show ?thesis unfolding entries_in_def using dirs by (simp add: file_entry_def)
qed

lemma fb_List_ok:
  assumes "files_ok fb w"
  shows "\<exists>ns. fb_List fb w = Inr ns \<and> sorted ns \<and> distinct ns \<and> set ns = {n. \<exists>d. files_stored fb w n = Some d \<and> d \<noteq> []}"
proof (cases "contextDir fb \<in> set (os_dirs w)")
  case False
  then have "files_stored fb w n = None" for n
    using files_okD(8) [OF assms, of "fb_Path fb n"] fb_Path_parts(1) [OF files_okD(1) [OF assms]]
    by (cases "files w (fb_Path fb n)") (auto simp: files_stored_def)
  then show ?thesis using False files_okD(1,3) [OF assms] by (simp add: fb_List_def os_ReadDir_def)
next
  case True
  let ?es = "sort_key de_name (entries_in (contextDir fb) w)"
  let ?ns = "sort (List.map_filter entry_name ?es)"
  have "fb_List fb w = Inr ?ns" using True files_okD(1,3) [OF assms] by (simp add: fb_List_def os_ReadDir_def)
  moreover have "distinct ?ns"
  proof (simp, rule distinct_some)
    show "distinct (filter (\<lambda>e. entry_name e \<noteq> None) ?es)" using entries_distinct [OF assms] by (simp add: distinct_filter_sort)
    fix e e' assume "e \<in> set ?es" "e' \<in> set ?es" and eq: "entry_name e = entry_name e'" "entry_name e \<noteq> None"
    then obtain n f d d' where "entry_name e = Some n" "entry_name e' = Some n" by auto
    then have "e \<in> set (entries_in (contextDir fb) w) \<longleftrightarrow> True" "de_name e = de_name e'" "\<not> de_dir e" "\<not> de_dir e'"
      using \<open>e \<in> set ?es\<close> by (simp_all add: entry_name_iff)
    moreover obtain f d f' d' where "files w f = Some d" "filepath_Dir f = contextDir fb" "e = file_entry w (f, d)"
      "files w f' = Some d'" "filepath_Dir f' = contextDir fb" "e' = file_entry w (f', d')"
      using entries_files [OF \<open>entry_name e = Some n\<close>] entries_files [OF \<open>entry_name e' = Some n\<close>] \<open>e \<in> set ?es\<close> \<open>e' \<in> set ?es\<close> by auto
    moreover from this have "f = contextDir fb @ ''/'' @ filepath_Base f" "f' = contextDir fb @ ''/'' @ filepath_Base f'"
      using files_okD(7) [OF assms] by blast+
    ultimately have "f = f'" by (simp add: file_entry_def)
    then show "e = e'" using \<open>files w f = Some d\<close> \<open>files w f' = Some d'\<close> \<open>e = file_entry w (f, d)\<close> \<open>e' = file_entry w (f', d')\<close> by simp
  qed
  moreover have "set ?ns = {n. \<exists>d. files_stored fb w n = Some d \<and> d \<noteq> []}"
    using listed_iff [OF assms] by (auto simp: set_map_filter_some)
  ultimately show ?thesis by simp
qed

text \<open>Selecting.\<close>

lemma files_current_upd:
  assumes "files_ok fb w'" "files w' (selectedPath (fb_selector fb)) = x"
  shows "files_current fb w' = (case x of None \<Rightarrow> [] | Some d \<Rightarrow> trim_space d)"
  using assms by (simp add: files_current_eq)

lemma stored_same:
  assumes "fb_root fb \<noteq> []" "fb_selector fb = \<lparr> fs_root = fb_root fb \<rparr>"
    and "\<forall>q. q \<noteq> selectedPath (fb_selector fb) \<longrightarrow> q \<noteq> previousPath (fb_selector fb) \<longrightarrow> files w' q = files w q"
  shows "files_stored fb w' = files_stored fb w"
  using assms own_paths_differ(1,2) [OF assms(1,2)] by (auto simp: files_stored_def fun_eq_iff)

lemma sel_SetSelected_ok:
  assumes "files_ok fb w" "trim_space n = n"
  shows "\<exists>w'. sel_SetSelected (fb_selector fb) n w = (Inr (files_current fb w), w') \<and> files_ok fb w' \<and>
    files_current fb w' = n \<and> files_stored fb w' = files_stored fb w"
proof -
  let ?fs = "fb_selector fb" let ?N = "nats_dir (fb_root fb)"
  note r = files_okD(1,2) [OF assms(1)]
  have paths: "selectedPath ?fs = ?N @ ''/'' @ selectedCtxFile" "previousPath ?fs = ?N @ ''/'' @ previousCtxFile"
    using selection_paths [of ?fs] r by (simp_all add: selectedCtxFile_def previousCtxFile_def)
  have own: "own_path fb (?N @ ''/'' @ selectedCtxFile)" "own_path fb (?N @ ''/'' @ previousCtxFile)"
    by (simp_all add: own_path_def paths)
  have "set (path_prefixes ?N) \<subseteq> set (path_prefixes (contextDir fb))"
    using prefix_parent [of _ ?N "''context''"] context_dir_clean(1) [OF r(1)] by auto
  then obtain w1 where w1: "os_MkdirAll ?N w = (None, w1)" "files_ok fb w1" "files w1 = files w" "?N \<in> set (os_dirs w1)"
    using mkdir_ok [OF assms(1)] by blast
  let ?prev = "files_current fb w"
  have prev: "readSelection ?fs (selectedPath ?fs) w1 = ?prev"
    using files_current_eq [OF w1(2)] files_current_eq [OF assms(1)] w1(3) by (simp add: files_current_def)
  have "\<exists>w2. (if ?prev \<noteq> [] then wrap_os (writeFileAtomic (previousPath ?fs) ?prev w1) else (None, w1)) = (None, w2) \<and>
      files_ok fb w2 \<and> (\<forall>q. q \<noteq> previousPath ?fs \<longrightarrow> files w2 q = files w1 q) \<and> ?N \<in> set (os_dirs w2)"
  proof (cases "?prev = []")
    case False
    then show ?thesis using own_write_ok [OF w1(2) own(2) nats_dir_clean [OF r(1)] plain_names(4) w1(4), of ?prev] w1(4)
      unfolding paths by (auto simp: wrap_os_def)
  qed (use w1 in auto)
  then obtain w2 where w2: "(if ?prev \<noteq> [] then wrap_os (writeFileAtomic (previousPath ?fs) ?prev w1) else (None, w1)) = (None, w2)"
    "files_ok fb w2" "\<forall>q. q \<noteq> previousPath ?fs \<longrightarrow> files w2 q = files w1 q" "?N \<in> set (os_dirs w2)" by blast
  have tree: "sel_ensureTree ?fs w = (None, w1)" using w1(1) r by (simp add: sel_ensureTree_def wrap_os_def nats_dir_def)
  show ?thesis
  proof (cases "n = []")
    case True
    obtain er w3 where w3: "os_Remove (selectedPath ?fs) w2 = (er, w3)" "ignore_missing er = None" "files_ok fb w3"
      "files w3 = (files w2)(selectedPath ?fs := None)" using own_remove_ok [OF w2(2)] by blast
    have "sel_SetSelected ?fs n w = (Inr ?prev, w3)"
      using tree w2(1) w3(1,2) True by (simp add: sel_SetSelected_def prev)
    moreover have "files_stored fb w3 = files_stored fb w" by (rule stored_same [OF r]) (simp add: w3(4) w2(3) w1(3))
    ultimately show ?thesis using w3(3,4) True by (simp add: files_current_upd)
  next
    case False
    obtain w3 where w3: "writeFileAtomic (selectedPath ?fs) n w2 = (None, w3)" "files_ok fb w3"
      "files w3 = (files w2)(selectedPath ?fs \<mapsto> n)"
      using own_write_ok [OF w2(2) own(1) nats_dir_clean [OF r(1)] plain_names(3) w2(4), of n] unfolding paths by blast
    have "sel_SetSelected ?fs n w = (Inr ?prev, w3)"
      using tree w2(1) w3(1) False by (simp add: sel_SetSelected_def prev wrap_os_def)
    moreover have "files_stored fb w3 = files_stored fb w" by (rule stored_same [OF r]) (simp add: w3(3) w2(3) w1(3))
    ultimately show ?thesis using w3(2,3) assms(2) by (simp add: files_current_upd)
  qed
qed

interpretation directory: context_selection "file_backend fb" "files_ok fb" "files_stored fb" "file_selector (fb_selector fb)"
    "files_current fb" for fb
proof
  fix w n d assume ok: "files_ok fb w" and v: "ValidateName n = None"
  show "bk_Load (file_backend fb) n w = (case files_stored fb w n of None \<Rightarrow> Inl (ErrNotFound n) | Some d \<Rightarrow> Inr d)"
    using fb_Load_ok [OF ok v] by (simp add: file_backend_def)
  show "\<exists>w'. bk_Save (file_backend fb) n d w = (None, w') \<and> files_ok fb w' \<and> files_stored fb w' = (files_stored fb w)(n \<mapsto> d)"
    using fb_Save_ok [OF ok v] by (auto simp: file_backend_def)
  show "\<exists>w'. bk_Delete (file_backend fb) n w = (None, w') \<and> files_ok fb w' \<and> files_stored fb w' = (files_stored fb w)(n := None)"
    using fb_Delete_ok [OF ok v] by (auto simp: file_backend_def)
  show "files_current fb (snd (bk_Save (file_backend fb) n d w)) = files_current fb w"
    using fb_Save_ok [OF ok v, of d] by (auto simp: file_backend_def)
  show "files_current fb (snd (bk_Delete (file_backend fb) n w)) = files_current fb w"
    using fb_Delete_ok [OF ok v] by (auto simp: file_backend_def)
next
  fix w n assume ok: "files_ok fb w"
  show "\<exists>ns. bk_List (file_backend fb) w = Inr ns \<and> sorted ns \<and> distinct ns \<and> set ns \<subseteq> dom (files_stored fb w) \<and>
      (\<forall>n d. files_stored fb w n = Some d \<longrightarrow> d \<noteq> [] \<longrightarrow> n \<in> set ns)"
    using fb_List_ok [OF ok] by (auto simp: file_backend_def)
  show "ValidateName n = None" if "n \<in> dom (files_stored fb w)" using that by (auto simp: files_stored_def split: if_splits)
  show "sl_Selected (file_selector (fb_selector fb)) w = (if files_current fb w = [] then Inl ErrNoneSelected else Inr (files_current fb w))"
    by (simp add: file_selector_def sel_Selected_def files_current_def)
  show "\<exists>w'. sl_SetSelected (file_selector (fb_selector fb)) n w = (Inr (files_current fb w), w') \<and> files_ok fb w' \<and>
      files_current fb w' = n \<and> files_stored fb w' = files_stored fb w" if "trim_space n = n"
    using sel_SetSelected_ok [OF ok that] by (simp add: file_selector_def)
qed

end
