(* ===== verification/Context_Props.thy ===== *)
theory Context_Props
  imports Context_Registry Context_Store
begin

text \<open>
  What the registry guarantees over any backend and selector that keep the contract, for the memory
  and the file backend by the interpretations of \<open>Context_Store\<close>: the selection, the agreement of
  the two backends, the way of a context through a save and a load; and what holds with failures.
\<close>

subsection \<open>One file\<close>

lemma mkdir_files: "files (snd (os_MkdirAll p w)) = files w"
  by (simp add: os_MkdirAll_def)

lemma ensure_files: "files (snd (fb_ensureTree fb w)) = files w"
  by (simp add: fb_ensureTree_def wrap_os_def mkdir_files)

lemma ensure_random: "os_random (snd (fb_ensureTree fb w)) = os_random w"
  by (simp add: fb_ensureTree_def wrap_os_def os_MkdirAll_def)

text \<open>The file a save prepares beside the context.\<close>

definition save_temp :: "FileBackend \<Rightarrow> string \<Rightarrow> os \<Rightarrow> string" where
  "save_temp fb n w = contextDir fb @ ''/'' @ n @ ''.json.tmp-'' @ itoa (os_random w)"

text \<open>
  C27. Whatever fails, saving under a name changes no file but the one of that name in the context
  directory and a temporary file beside it; a failed save leaves the context as it was, a successful
  one stores the data, and no state on the way there has anything else under the name.
\<close>

theorem save_is_atomic:
  assumes "fb_Save fb n d w = (er, w')"
  shows "(\<forall>q. q \<noteq> fb_Path fb n \<longrightarrow> q \<noteq> save_temp fb n w \<longrightarrow> files w' q = files w q) \<and>
    files w' (fb_Path fb n) = (if er = None then Some d else files w (fb_Path fb n)) \<and>
    (\<forall>v \<in> set (snd (write_steps (fb_Path fb n) d (snd (fb_ensureTree fb w)))). ValidateName n = None \<longrightarrow> fb_root fb \<noteq> [] \<longrightarrow>
       files v (fb_Path fb n) \<in> {files w (fb_Path fb n), Some d})"
proof (cases "ValidateName n = None \<and> fb_root fb \<noteq> []")
  case False
  then have "er \<noteq> None \<and> w' = w" using assms by (cases "ValidateName n") (auto simp: fb_Save_def fb_ensureTree_def dest: sym)
  then show ?thesis using False by auto
next
  case True
  let ?w1 = "snd (fb_ensureTree fb w)" let ?p = "fb_Path fb n"
  have p: "?p = contextDir fb @ ''/'' @ n @ ''.json''" using True by (simp add: fb_Path_eq)
  have t: "temp_path ?p ?w1 = save_temp fb n w"
    using temp_path_eq [OF context_dir_clean(2) valid_name_file, of fb n ?w1] True unfolding p
    by (simp add: save_temp_def ensure_random)
  have ne: "save_temp fb n w \<noteq> ?p" by (simp add: p save_temp_def)
  obtain e ws where st: "write_steps ?p d ?w1 = (e, ws)" by (cases "write_steps ?p d ?w1")
  have nonempty: "ws \<noteq> []" using st by (auto simp: write_steps_def Let_def split: if_splits)
  note steps = write_steps_cases [OF t [symmetric] ne st]
  have mid: "\<forall>v \<in> set ws. files v ?p \<in> {files w ?p, Some d}" using steps by (auto simp: ensure_files)
  show ?thesis
  proof (cases "fst (fb_ensureTree fb w)")
    case (Some e1)
    then have "er = Some e1" "w' = ?w1" using assms True by (cases "fb_ensureTree fb w"; simp add: fb_Save_def)+
    then show ?thesis using mid st by (simp add: ensure_files)
  next
    case None
    then have "er = map_option ErrOs e" "w' = last ws"
      using assms True st by (cases "fb_ensureTree fb w"; simp add: fb_Save_def writeFileAtomic_def wrap_os_def)+
    moreover have "last ws \<in> set ws" using nonempty by simp
    ultimately show ?thesis using mid st steps [of "last ws"] write_steps_last [OF t [symmetric] ne st] by (simp add: ensure_files)
  qed
qed

text \<open>A file system in memory, and one whose disk is full.\<close>

definition empty_os :: os where
  "empty_os = \<lparr> os_files = [], os_dirs = [], os_env = [], os_home = None, os_fault = (\<lambda>_ _. False), os_partial = 1, os_random = 7 \<rparr>"

definition full_disk :: os where
  "full_disk = empty_os\<lparr> os_fault := (\<lambda>op _. op = ''write''), os_files := [(''/c/nats/context/a.json'', ''{}'')] \<rparr>"

theorem save_is_atomic_witness:
  "fb_Save (newFileBackend ''/c'') ''a'' ''new'' full_disk =
     (Some (ErrOs (OsFault ''write'' ''/c/nats/context/a.json.tmp-7'')), snd (fb_Save (newFileBackend ''/c'') ''a'' ''new'' full_disk)) \<and>
   files (snd (fb_Save (newFileBackend ''/c'') ''a'' ''new'' full_disk)) ''/c/nats/context/a.json'' = Some ''{}''"
proof -
  have *: "fb_Save (newFileBackend ''/c'') ''a'' ''new'' full_disk =
     (Some (ErrOs (OsFault ''write'' ''/c/nats/context/a.json.tmp-7'')), snd (fb_Save (newFileBackend ''/c'') ''a'' ''new'' full_disk))"
    by (rule prod_eqI) (simp_all only: fst_conv snd_conv, code_simp)
  have "fb_Path (newFileBackend ''/c'') ''a'' = ''/c/nats/context/a.json''" by code_simp
  moreover have "files full_disk ''/c/nats/context/a.json'' = Some ''{}''" by (simp add: full_disk_def)
  ultimately show ?thesis using * save_is_atomic [OF *] by auto
qed

subsection \<open>What a registry does, abstractly\<close>

text \<open>
  The calls of a registry that concern what is stored and selected; \<open>StorePut\<close> is what a save asks of
  the backend. What they answer is a list of names, a name, or nothing.
\<close>

datatype store_op =
    StorePut string bytes
  | StoreDelete string
  | StoreList
  | StoreKnown string
  | StoreSelected
  | StoreSelect string
  | StoreUnselect

datatype answer =
    Names "string list"
  | Name string
  | Known bool
  | Done

definition done_or :: "ctx_error option \<Rightarrow> ctx_error + answer" where
  "done_or e = (case e of None \<Rightarrow> Inr Done | Some e \<Rightarrow> Inl e)"

definition name_or :: "ctx_error + string \<Rightarrow> ctx_error + answer" where
  "name_or r = (case r of Inl e \<Rightarrow> Inl e | Inr n \<Rightarrow> Inr (Name n))"

fun reg_step :: "'w Registry \<Rightarrow> store_op \<Rightarrow> 'w \<Rightarrow> (ctx_error + answer) \<times> 'w" where
  "reg_step r (StorePut n d) w = (case bk_Save (rg_backend r) n d w of (e, w1) \<Rightarrow> (done_or e, w1))"
| "reg_step r (StoreDelete n) w = (case reg_Delete r n w of (e, w1) \<Rightarrow> (done_or e, w1))"
| "reg_step r StoreList w = ((case reg_List r w of Inl e \<Rightarrow> Inl e | Inr ns \<Rightarrow> Inr (Names ns)), w)"
| "reg_step r (StoreKnown n) w = (Inr (Known (reg_Known r n w)), w)"
| "reg_step r StoreSelected w = (name_or (reg_Selected r w), w)"
| "reg_step r (StoreSelect n) w = (case reg_Select r n w of (e, w1) \<Rightarrow> (name_or e, w1))"
| "reg_step r StoreUnselect w = (case reg_Unselect r w of (e, w1) \<Rightarrow> (name_or e, w1))"

fun run_ops :: "'w Registry \<Rightarrow> store_op list \<Rightarrow> 'w \<Rightarrow> (ctx_error + answer) list \<times> 'w" where
  "run_ops r [] w = ([], w)"
| "run_ops r (p # ps) w = (case reg_step r p w of (a, w1) \<Rightarrow> (case run_ops r ps w1 of (xs, w2) \<Rightarrow> (a # xs, w2)))"

text \<open>The same over a map and the selected name.\<close>

fun spec_step :: "store_op \<Rightarrow> (string \<rightharpoonup> bytes) \<times> string \<Rightarrow> (ctx_error + answer) \<times> (string \<rightharpoonup> bytes) \<times> string" where
  "spec_step (StorePut n d) (m, cur) =
     (case ValidateName n of Some e \<Rightarrow> (Inl e, m, cur) | None \<Rightarrow> (Inr Done, m(n \<mapsto> d), cur))"
| "spec_step (StoreDelete n) (m, cur) =
     (case ValidateName n of
        Some e \<Rightarrow> (Inl e, m, cur)
      | None \<Rightarrow>
          if cur = n \<and> card (dom m) > 1 then (Inl (ErrActiveContext n), m, cur)
          else (Inr Done, m(n := None), if cur = n then [] else cur))"
| "spec_step StoreList (m, cur) = (Inr (Names (sorted_list_of_set (dom m))), m, cur)"
| "spec_step (StoreKnown n) (m, cur) = (Inr (Known (n \<in> dom m)), m, cur)"
| "spec_step StoreSelected (m, cur) = ((if cur = [] then Inl ErrNoneSelected else Inr (Name cur)), m, cur)"
| "spec_step (StoreSelect n) (m, cur) =
     (case ValidateName n of
        Some e \<Rightarrow> (Inl e, m, cur)
      | None \<Rightarrow> if n \<in> dom m then (Inr (Name cur), m, n) else (Inl (ErrNotFound n), m, cur))"
| "spec_step StoreUnselect (m, cur) = (Inr (Name cur), m, [])"

text \<open>Names a selection file keeps as they are, and payloads a listing shows.\<close>

fun plain_op :: "store_op \<Rightarrow> bool" where
  "plain_op (StorePut n d) \<longleftrightarrow> d \<noteq> []"
| "plain_op (StoreSelect n) \<longleftrightarrow> trim_space n = n"
| "plain_op _ \<longleftrightarrow> True"

fun spec_run :: "store_op list \<Rightarrow> (string \<rightharpoonup> bytes) \<times> string \<Rightarrow> (ctx_error + answer) list" where
  "spec_run [] s = []"
| "spec_run (p # ps) s = (case spec_step p s of (a, s1) \<Rightarrow> a # spec_run ps s1)"

context context_selection
begin

definition abs_state :: "'w \<Rightarrow> (string \<rightharpoonup> bytes) \<times> string" where
  "abs_state w = (stored w, current w)"

definition shown :: "'w \<Rightarrow> bool" where
  "shown w \<longleftrightarrow> (\<forall>n. stored w n \<noteq> Some [])"

lemma list_shown:
  assumes "inv w" "shown w"
  shows "bk_List b w = Inr (sorted_list_of_set (dom (stored w)))" and "finite (dom (stored w))"
proof -
  obtain ns where ns: "bk_List b w = Inr ns" "sorted ns" "distinct ns" "set ns \<subseteq> dom (stored w)"
    "\<forall>n d. stored w n = Some d \<longrightarrow> d \<noteq> [] \<longrightarrow> n \<in> set ns" using listed [OF assms(1)] by blast
  then have "set ns = dom (stored w)" using assms(2) unfolding shown_def by fastforce
  then show "finite (dom (stored w))" by (metis finite_set)
  show "bk_List b w = Inr (sorted_list_of_set (dom (stored w)))"
    using ns(1-3) \<open>set ns = dom (stored w)\<close> by (metis sorted_list_of_set.idem_if_sorted_distinct)
qed

lemma unselect: "inv w \<Longrightarrow> \<exists>w'. sl_SetSelected s [] w = (Inr (current w), w') \<and> inv w' \<and> current w' = [] \<and> stored w' = stored w"
  by (rule set_selected) (simp_all add: trim_space_def trim_right_def)

lemma invalid_not_stored: "inv w \<Longrightarrow> ValidateName n = Some e \<Longrightarrow> stored w n = None"
  using valid_names [of w n] by (cases "stored w n") auto

text \<open>One call of the registry does what the specification says.\<close>

lemma step_refines:
  assumes "rg_backend r = b" "rg_selector r = Some s" and "inv w" "shown w" "plain_op p"
    and "\<And>n d e. ValidateName n = Some e \<Longrightarrow> bk_Save b n d w = (Some e, w)"
  shows "\<exists>w'. reg_step r p w = (fst (spec_step p (abs_state w)), w') \<and> inv w' \<and> shown w' \<and> abs_state w' = snd (spec_step p (abs_state w))"
proof (cases p)
  case (StorePut n d)
  show ?thesis
  proof (cases "ValidateName n")
    case None
    obtain w' where w': "bk_Save b n d w = (None, w')" "inv w'" "stored w' = (stored w)(n \<mapsto> d)" using save [OF assms(3) None] by blast
    have "current w' = current w" using save_current [OF assms(3) None, of d] w'(1) by simp
    then show ?thesis using StorePut None w' assms(1,4,5) by (auto simp: abs_state_def done_or_def shown_def)
  next
    case (Some e)
    then show ?thesis using StorePut assms by (simp add: abs_state_def done_or_def)
  qed
next
  case (StoreDelete n)
  show ?thesis
  proof (cases "ValidateName n")
    case (Some e)
    then show ?thesis using StoreDelete assms by (simp add: abs_state_def done_or_def reg_Delete_def)
  next
    case None
    then have n: "n \<noteq> []" by (simp add: valid_name_iff)
    obtain w1 where w1: "bk_Delete b n w = (None, w1)" "inv w1" "stored w1 = (stored w)(n := None)" using delete [OF assms(3) None] by blast
    have c1: "current w1 = current w" using delete_current [OF assms(3) None] w1(1) by simp
    obtain w2 where w2: "sl_SetSelected s [] w1 = (Inr (current w1), w2)" "inv w2" "current w2 = []" "stored w2 = stored w1"
      using unselect [OF w1(2)] by blast
    have sel: "selected_or_none r w = Inr (current w)" using assms(2,3) by (simp add: selected_or_none_def selected)
    note eval = reg_Delete_def None sel assms(1,2) list_shown(1) [OF assms(3,4)] list_shown(2) [OF assms(3,4)] w1(1) w2(1) done_or_def abs_state_def
    consider "current w \<noteq> n" | "current w = n" "card (dom (stored w)) > 1" | "current w = n" "\<not> card (dom (stored w)) > 1" by blast
    then show ?thesis
    proof cases
      case 1
      then show ?thesis using StoreDelete w1(2,3) c1 assms(4) by (auto simp: eval shown_def)
    next
      case 2
      then show ?thesis using StoreDelete assms(3,4) by (auto simp: eval)
    next
      case 3
      then show ?thesis using StoreDelete w1(3) w2(2-4) assms(4) by (auto simp: eval shown_def)
    qed
  qed
next
  case StoreList
  then show ?thesis using assms by (simp add: reg_List_def list_shown abs_state_def)
next
  case (StoreKnown n)
  then show ?thesis using assms invalid_not_stored [of w n]
    by (cases "ValidateName n") (auto simp: reg_Known_def abs_state_def load split: option.splits)
next
  case StoreSelected
  then show ?thesis using assms by (simp add: reg_Selected_def selected abs_state_def name_or_def)
next
  case (StoreSelect n)
  show ?thesis
  proof (cases "ValidateName n")
    case None
    obtain w' where "sl_SetSelected s n w = (Inr (current w), w')" "inv w'" "current w' = n" "stored w' = stored w"
      using set_selected [OF assms(3)] assms(5) StoreSelect by auto
    then show ?thesis using StoreSelect None assms by (cases "stored w n") (auto simp: reg_Select_def load abs_state_def name_or_def shown_def)
  next
    case (Some e)
    then show ?thesis using StoreSelect assms by (simp add: reg_Select_def abs_state_def name_or_def)
  qed
next
  case StoreUnselect
  then show ?thesis using assms unselect [OF assms(3)] by (auto simp: reg_Unselect_def abs_state_def name_or_def shown_def)
qed

text \<open>So does a run of calls.\<close>

lemma run_refines:
  assumes "rg_backend r = b" "rg_selector r = Some s" and "\<And>n d e w. ValidateName n = Some e \<Longrightarrow> bk_Save b n d w = (Some e, w)"
  shows "inv w \<Longrightarrow> shown w \<Longrightarrow> list_all plain_op ps \<Longrightarrow> fst (run_ops r ps w) = spec_run ps (abs_state w)"
proof (induction ps arbitrary: w)
  case (Cons p ps)
  obtain w' where w': "reg_step r p w = (fst (spec_step p (abs_state w)), w')" "inv w'" "shown w'" "abs_state w' = snd (spec_step p (abs_state w))"
    using step_refines [OF assms(1,2) Cons.prems(1,2) _ assms(3), of p] Cons.prems(3) by auto
  have "fst (run_ops r ps w') = spec_run ps (abs_state w')" using Cons.IH [OF w'(2,3)] Cons.prems(3) by simp
  then show ?case using w'(1,4) by (simp add: case_prod_beta)
qed simp

end

lemma invalid_save: "ValidateName n = Some e \<Longrightarrow> bk_Save memory_backend n d m = (Some e, m)"
    "ValidateName n = Some e \<Longrightarrow> bk_Save (file_backend fb) n d w = (Some e, w)"
  by (simp_all add: memory_backend_def mem_Save_def file_backend_def fb_Save_def)

text \<open>
  C26. A registry over files whose calls do not fail and one over memory answer the same to every sequence
  of saves, deletes, selections and questions, when they start with the same contexts and selection; both do
  what the specification over a map and a selected name says. The operations are plain: payloads are not
  empty, and the names that are selected have no white space at their ends. The restriction is needed: a
  selection file trims the name it stores, so over files another name would be selected
  (\<open>selection_trims_name\<close>).
\<close>

theorem backends_agree:
  assumes "rg_backend r = file_backend fb" "rg_selector r = Some (file_selector (fb_selector fb))"
    and "rg_backend q = memory_backend" "rg_selector q = Some memory_selector"
    and "files_ok fb w" "memory_ok m" "directory.abs_state fb w = memory.abs_state m" "\<forall>n. memory_stored m n \<noteq> Some []"
    and "list_all plain_op ps"
  shows "fst (run_ops r ps w) = fst (run_ops q ps m) \<and> fst (run_ops q ps m) = spec_run ps (memory_stored m, mb_selected m)"
proof -
  have same: "files_stored fb w = memory_stored m" using assms(7) by (simp add: directory.abs_state_def memory.abs_state_def)
  have "fst (run_ops r ps w) = spec_run ps (directory.abs_state fb w)"
    by (rule directory.run_refines [OF assms(1,2) _ assms(5) _ assms(9)])
       (use assms(8) same in \<open>auto simp: invalid_save directory.shown_def\<close>)
  moreover have "fst (run_ops q ps m) = spec_run ps (memory.abs_state m)"
    by (rule memory.run_refines [OF assms(3,4) _ assms(6) _ assms(9)])
       (use assms(8) in \<open>auto simp: invalid_save memory.shown_def\<close>)
  ultimately show ?thesis using assms(7) by (simp add: memory.abs_state_def)
qed

subsection \<open>The selection\<close>

text \<open>The states a registry reaches; a name that is selected has no spaces around it.\<close>

inductive reg_reach :: "ctx_lib \<Rightarrow> 'w Registry \<Rightarrow> 'w \<Rightarrow> 'w \<Rightarrow> bool" for x r w0 where
  reach_start: "reg_reach x r w0 w0"
| reach_save: "reg_reach x r w0 w \<Longrightarrow> reg_Save x r c n w = (e, c', w') \<Longrightarrow> reg_reach x r w0 w'"
| reach_delete: "reg_reach x r w0 w \<Longrightarrow> reg_Delete r n w = (e, w') \<Longrightarrow> reg_reach x r w0 w'"
| reach_select: "reg_reach x r w0 w \<Longrightarrow> trim_space n = n \<Longrightarrow> reg_Select r n w = (a, w') \<Longrightarrow> reg_reach x r w0 w'"
| reach_unselect: "reg_reach x r w0 w \<Longrightarrow> reg_Unselect r w = (a, w') \<Longrightarrow> reg_reach x r w0 w'"

lemma reg_Save_effect:
  assumes "reg_Save x r c n w = (e, c', w')"
  shows "e \<noteq> None \<and> w' = w \<or> ValidateName (ctx_Name c') = None \<and>
    bk_Save (rg_backend r) (ctx_Name c') (cl_Marshal x (ctx_config c')) w = (e, w') \<and> ns_Name (ctx_config c') = []"
  using assms by (auto simp: reg_Save_def Let_def Validate_def split: prod.splits option.splits if_splits)

context context_selection
begin

definition selection_ok :: "'w \<Rightarrow> bool" where
  "selection_ok w \<longleftrightarrow> inv w \<and> (current w = [] \<or> current w \<in> dom (stored w))"

lemma reach_selection:
  assumes "rg_backend r = b" "rg_selector r = Some s" and "reg_reach x r w0 w" and "selection_ok w0"
  shows "selection_ok w"
  using assms(3,4)
proof induction
  case (reach_save w c n e c' w')
  show ?case
  proof (cases "w' = w")
    case False
    then have n: "ValidateName (ctx_Name c') = None" "bk_Save b (ctx_Name c') (cl_Marshal x (ctx_config c')) w = (e, w')"
      using reg_Save_effect [OF reach_save(2)] assms(1) by auto
    have "inv w" using reach_save by (simp add: selection_ok_def)
    then have "inv w'" "stored w' = (stored w)(ctx_Name c' \<mapsto> cl_Marshal x (ctx_config c'))" "current w' = current w"
      using save [of w "ctx_Name c'" "cl_Marshal x (ctx_config c')"] save_current [of w "ctx_Name c'" "cl_Marshal x (ctx_config c')"] n by auto
    then show ?thesis using reach_save by (auto simp: selection_ok_def)
  qed (use reach_save in simp)
next
  case (reach_delete w n e w')
  then have iw: "inv w" by (simp add: selection_ok_def)
  show ?case
  proof (cases "ValidateName n")
    case (Some er)
    then show ?thesis using reach_delete by (simp add: reg_Delete_def)
  next
    case None
    obtain w1 where w1: "bk_Delete b n w = (None, w1)" "inv w1" "stored w1 = (stored w)(n := None)" using delete [OF iw None] by blast
    have c1: "current w1 = current w" using delete_current [OF iw None] w1(1) by simp
    obtain w2 where w2: "sl_SetSelected s [] w1 = (Inr (current w1), w2)" "inv w2" "current w2 = []" "stored w2 = stored w1"
      using unselect [OF w1(2)] by blast
    have "selected_or_none r w = Inr (current w)" using assms(2) iw by (simp add: selected_or_none_def selected)
    then have "w' = w \<or> (current w = n \<and> w' = w2) \<or> (current w \<noteq> n \<and> w' = w1)"
      using reach_delete(2) None assms(1,2) w1(1) w2(1)
      by (auto simp: reg_Delete_def Let_def split: option.splits sum.splits if_splits)
    then show ?thesis using reach_delete w1(2,3) c1 w2(2,3) by (auto simp: selection_ok_def)
  qed
next
  case (reach_select w n a w')
  then have iw: "inv w" by (simp add: selection_ok_def)
  obtain w1 where w1: "sl_SetSelected s n w = (Inr (current w), w1)" "inv w1" "current w1 = n" "stored w1 = stored w"
    using set_selected [OF iw reach_select(2)] by blast
  then have "w' = w \<or> w' = w1 \<and> n \<in> dom (stored w)"
    using reach_select(3) assms(1,2) load [OF iw, of n] by (auto simp: reg_Select_def split: option.splits sum.splits)
  then show ?case using reach_select w1 by (auto simp: selection_ok_def)
next
  case (reach_unselect w a w')
  then have iw: "inv w" by (simp add: selection_ok_def)
  then show ?case using unselect [OF iw] reach_unselect(2) assms(2) by (auto simp: reg_Unselect_def selection_ok_def)
qed

lemma selected_known:
  assumes "rg_backend r = b" "rg_selector r = Some s" "selection_ok w"
  shows "reg_Selected r w = Inl ErrNoneSelected \<or> (\<exists>n. reg_Selected r w = Inr n \<and> reg_Known r n w)"
proof (cases "current w = []")
  case True
  then show ?thesis using assms by (simp add: reg_Selected_def selection_ok_def selected)
next
  case False
  then obtain d where d: "stored w (current w) = Some d" "inv w" using assms(3) by (auto simp: selection_ok_def)
  then have "ValidateName (current w) = None" using valid_names [of w "current w"] by auto
  then show ?thesis using False d assms(1,2) by (simp add: reg_Selected_def reg_Known_def selected load)
qed

end

text \<open>
  C28. Over files whose calls do not fail, from a state where nothing or a stored context is selected,
  whatever contexts are saved, deleted, selected and unselected, the selected context is always one that
  exists, as long as the names given to select have no white space at their ends. Selecting a context whose
  name has such white space selects the trimmed name, which need not exist (\<open>selection_trims_name\<close>).
\<close>

theorem selection_never_dangles:
  assumes "rg_backend r = file_backend fb" "rg_selector r = Some (file_selector (fb_selector fb))"
    and "directory.selection_ok fb w0" "reg_reach x r w0 w"
  shows "reg_Selected r w = Inl ErrNoneSelected \<or> (\<exists>n. reg_Selected r w = Inr n \<and> reg_Known r n w)"
  by (rule directory.selected_known [OF assms(1,2) directory.reach_selection [OF assms(1,2,4,3)]])

text \<open>A file system without files, and the registry over it.\<close>

definition demo_files :: FileBackend where
  "demo_files = newFileBackend ''/c''"

lemma demo_files_ok: "files_ok demo_files empty_os" "files_stored demo_files empty_os = Map.empty" "files_current demo_files empty_os = []"
proof -
  show ok: "files_ok demo_files empty_os" by (simp add: files_ok_def empty_os_def demo_files_def newFileBackend_def)
  show "files_stored demo_files empty_os = Map.empty" by (simp add: files_stored_def empty_os_def fun_eq_iff)
  show "files_current demo_files empty_os = []" using files_current_eq [OF ok] by (simp add: empty_os_def)
qed

lemma registry_parts: "rg_backend (files_registry fb []) = file_backend fb"
    "rg_selector (files_registry fb []) = Some (file_selector (fb_selector fb))"
    "rg_backend (memory_registry []) = memory_backend" "rg_selector (memory_registry []) = Some memory_selector"
  by (simp_all add: files_registry_def memory_registry_def NewRegistry_def WithDefaultResolvers_def Let_def)

lemma valid_a: "ValidateName ''a'' = None"
  by (simp add: ValidateName_def contains_any_def has_prefix_def)

theorem backends_agree_witness:
  "fst (run_ops (files_registry demo_files []) [StorePut ''a'' ''{}'', StoreSelect ''a'', StoreList, StoreDelete ''a'', StoreSelected] empty_os) =
     [Inr Done, Inr (Name []), Inr (Names [''a'']), Inr Done, Inl ErrNoneSelected]"
proof -
  let ?ps = "[StorePut ''a'' ''{}'', StoreSelect ''a'', StoreList, StoreDelete ''a'', StoreSelected]"
  let ?m = "NewMemoryBackend empty_os"
  have m: "memory_ok ?m" "memory_stored ?m = Map.empty" "mb_selected ?m = []"
    by (simp_all add: memory_ok_def memory_stored_def NewMemoryBackend_def)
  have "directory.abs_state demo_files empty_os = memory.abs_state ?m"
    by (simp add: directory.abs_state_def memory.abs_state_def demo_files_ok m)
  moreover have "list_all plain_op ?ps" by (simp add: trim_space_def trim_right_def is_space_def)
  ultimately have "fst (run_ops (files_registry demo_files []) ?ps empty_os) = spec_run ?ps (Map.empty, [])"
    using backends_agree [OF registry_parts(1,2,3,4) demo_files_ok(1) m(1), of ?ps] m by simp
  also have "\<dots> = [Inr Done, Inr (Name []), Inr (Names [''a'']), Inr Done, Inl ErrNoneSelected]"
    by (simp add: valid_a)
  finally show ?thesis .
qed

theorem selection_never_dangles_witness:
  "let r = files_registry demo_files []; w = snd (reg_Select r ''a'' (snd (reg_Unselect r empty_os)))
   in reg_Selected r w = Inl ErrNoneSelected \<or> (\<exists>n. reg_Selected r w = Inr n \<and> reg_Known r n w)"
proof -
  let ?r = "files_registry demo_files []"
  let ?u = "reg_Unselect ?r empty_os" let ?s = "reg_Select ?r ''a'' (snd ?u)"
  fix x
  have "reg_reach x ?r empty_os (snd ?u)" by (rule reach_unselect [OF reach_start]) (rule prod.collapse [symmetric])
  then have "reg_reach x ?r empty_os (snd ?s)"
    by (rule reach_select [where n = "''a''" and a = "fst ?s"]) (simp_all add: trim_space_def trim_right_def is_space_def)
  moreover have "directory.selection_ok demo_files empty_os" by (simp add: directory.selection_ok_def demo_files_ok)
  ultimately show ?thesis using selection_never_dangles [OF registry_parts(1,2), of demo_files empty_os x "snd ?s"] by (simp add: Let_def)
qed

text \<open>
  Without the condition on spaces it is not so: a name with a space before it is valid, and selecting
  it over files selects the name without the space.
\<close>

definition spaced_os :: os where
  "spaced_os = snd (fb_Save (newFileBackend ''/c'') '' a'' ''{}'' empty_os)"

theorem selection_trims_name:
  "ValidateName '' a'' = None \<and>
   fst (reg_Select (files_registry (newFileBackend ''/c'') []) '' a'' spaced_os) = Inr [] \<and>
   reg_Selected (files_registry (newFileBackend ''/c'') []) (snd (reg_Select (files_registry (newFileBackend ''/c'') []) '' a'' spaced_os)) = Inr ''a'' \<and>
   \<not> reg_Known (files_registry (newFileBackend ''/c'') []) ''a'' (snd (reg_Select (files_registry (newFileBackend ''/c'') []) '' a'' spaced_os))"
  by (intro conjI; code_simp)

subsection \<open>Saving and loading\<close>

text \<open>
  The codec reads the settings \<open>c\<close> back as it wrote them: it keeps the exported fields, which the package
  \<open>encoding/json\<close> does when their strings are valid UTF-8 (it replaces other bytes); the two fields
  that are not written are empty after reading.
\<close>

definition json_settings :: "ctx_lib \<Rightarrow> settings \<Rightarrow> bool" where
  "json_settings x c \<longleftrightarrow> cl_Unmarshal x (cl_Marshal x c) zeroSettings = Inr (c\<lparr> ns_nscUrl := [], ns_nscCreds := [] \<rparr>)"

context context_selection
begin

lemma save_then_load:
  assumes "rg_backend r = b" "inv w" "reg_Save x r c n w = (None, c', w')" "json_settings x (ctx_config c')" "rg_noExpand r"
  shows "\<exists>ctx. reg_Load x r (ctx_Name c') opts w' = Inr ctx \<and> ctx_Name ctx = ctx_Name c' \<and>
    ctx_config ctx = applyOpts opts ((ctx_config c')\<lparr> ns_nscUrl := [], ns_nscCreds := [] \<rparr>)"
proof -
  have c: "ValidateName (ctx_Name c') = None" "bk_Save b (ctx_Name c') (cl_Marshal x (ctx_config c')) w = (None, w')" "ns_Name (ctx_config c') = []"
    using reg_Save_effect [OF assms(3)] assms(1) by auto
  then have "inv w'" "stored w' = (stored w)(ctx_Name c' \<mapsto> cl_Marshal x (ctx_config c'))"
    using save [OF assms(2) c(1), of "cl_Marshal x (ctx_config c')"] by auto
  then have "bk_Load b (ctx_Name c') w' = Inr (cl_Marshal x (ctx_config c'))" using load [OF _ c(1)] by simp
  moreover have "ctx_Name c' \<noteq> []" using c(1) by (simp add: valid_name_iff)
  ultimately show ?thesis using assms(1,4,5) c(1,3)
    by (simp add: reg_Load_def effective_name_def err_bind_def unmarshal_def json_settings_def)
qed

end

end
