(* ===== verification/Context_Creds.thy ===== *)
theory Context_Creds
  imports Context_Props
begin

text \<open>
  Credentials that travel with a context: base64 and \<open>data:\<close> references read back what was written,
  an embedded context needs no file any more, the migration of the old \<open>nsc\<close> field, and a saved
  context loads as it was saved.
\<close>

subsection \<open>base64\<close>

lemma b64_table: "list_all (\<lambda>k. b64_val (b64_char k) = Some k \<and> b64_char k \<noteq> CHR ''='' \<and> b64_char k \<noteq> CHR 0x0D \<and> b64_char k \<noteq> CHR 0x0A) [0..<64]"
  by code_simp

lemma b64_char_props: "k < 64 \<Longrightarrow> b64_val (b64_char k) = Some k" "k < 64 \<Longrightarrow> b64_char k \<noteq> CHR ''=''"
  "k < 64 \<Longrightarrow> b64_char k \<noteq> CHR 0x0D \<and> b64_char k \<noteq> CHR 0x0A"
  using b64_table by (simp_all add: list_all_iff)

lemma byte_less: "(of_char c :: nat) < 256"
  by (rule nat_of_char_less_256)

text \<open>The four digits of three bytes.\<close>

lemma quad_digits:
  fixes a b c :: nat
  assumes "a < 256" "b < 256" "c < 256"
  shows "(a * 65536 + b * 256 + c) div 262144 = a div 4"
    and "(a * 65536 + b * 256 + c) div 4096 mod 64 = a mod 4 * 16 + b div 16"
    and "(a * 65536 + b * 256 + c) div 64 mod 64 = b mod 16 * 4 + c div 64"
    and "(a * 65536 + b * 256 + c) mod 64 = c mod 64"
proof -
  obtain a1 a0 where a: "a = a1 * 4 + a0" "a0 < 4" "a div 4 = a1" "a mod 4 = a0" by (metis div_mod_decomp mod_less_divisor zero_less_numeral)
  obtain b1 b0 where b: "b = b1 * 16 + b0" "b0 < 16" "b div 16 = b1" "b mod 16 = b0" by (metis div_mod_decomp mod_less_divisor zero_less_numeral)
  obtain c1 c0 where c: "c = c1 * 64 + c0" "c0 < 64" "c div 64 = c1" "c mod 64 = c0" by (metis div_mod_decomp mod_less_divisor zero_less_numeral)
  let ?n = "a * 65536 + b * 256 + c"
  have lt: "b1 < 16" "c1 < 4" using assms a b c by linarith+
  have "?n = a1 * 262144 + (a0 * 65536 + b1 * 4096 + b0 * 256 + c1 * 64 + c0)" using a b c by simp
  then show "?n div 262144 = a div 4" using a b c lt by simp
  have "?n = (a1 * 64 + (a0 * 16 + b1)) * 4096 + (b0 * 256 + c1 * 64 + c0)" using a b c by simp
  then have "?n div 4096 = a1 * 64 + (a0 * 16 + b1)" using b c lt by simp
  then show "?n div 4096 mod 64 = a mod 4 * 16 + b div 16" using a b lt by simp
  have "?n = ((a * 16 + b1) * 64 + (b0 * 4 + c1)) * 64 + c0" using b c by simp
  then have "?n div 64 = (a * 16 + b1) * 64 + (b0 * 4 + c1)" using c by simp
  moreover have "((a * 16 + b1) * 64 + (b0 * 4 + c1)) mod 64 = b0 * 4 + c1" unfolding mod_mult_self3 using b lt by simp
  ultimately show "?n div 64 mod 64 = b mod 16 * 4 + c div 64" using b c by simp
  have "?n = (a * 1024 + b * 4 + c1) * 64 + c0" using c by simp
  moreover have "((a * 1024 + b * 4 + c1) * 64 + c0) mod 64 = c0" unfolding mod_mult_self3 using c by simp
  ultimately show "?n mod 64 = c mod 64" using c(4) by (simp only:)
qed

lemma quad_bytes:
  fixes a b c :: nat
  assumes "a < 256" "b < 256" "c < 256"
  shows "quad (a * 65536 + b * 256 + c) =
      map b64_char [a div 4, a mod 4 * 16 + b div 16, b mod 16 * 4 + c div 64, c mod 64]"
    and "a div 4 < 64" "a mod 4 * 16 + b div 16 < 64" "b mod 16 * 4 + c div 64 < 64" "c mod 64 < 64"
    and "a div 4 * 4 + (a mod 4 * 16 + b div 16) div 16 = a"
    and "(a mod 4 * 16 + b div 16) mod 16 * 16 + (b mod 16 * 4 + c div 64) div 4 = b"
    and "(b mod 16 * 4 + c div 64) mod 4 * 64 + c mod 64 = c"
proof -
  show "quad (a * 65536 + b * 256 + c) = map b64_char [a div 4, a mod 4 * 16 + b div 16, b mod 16 * 4 + c div 64, c mod 64]"
    unfolding quad_def quad_digits [OF assms] ..
  have lt: "b div 16 < 16" "c div 64 < 4" "a mod 4 < 4" "b mod 16 < 16" using assms by simp_all
  then show "a div 4 < 64" "a mod 4 * 16 + b div 16 < 64" "b mod 16 * 4 + c div 64 < 64" "c mod 64 < 64" using assms by simp_all
  show "a div 4 * 4 + (a mod 4 * 16 + b div 16) div 16 = a" using lt by simp
  show "(a mod 4 * 16 + b div 16) mod 16 * 16 + (b mod 16 * 4 + c div 64) div 4 = b" using lt by simp
  show "(b mod 16 * 4 + c div 64) mod 4 * 64 + c mod 64 = c" using lt by simp
qed

lemma b64_clean: "c \<in> set (b64_encode bs) \<Longrightarrow> c \<noteq> CHR 0x0D \<and> c \<noteq> CHR 0x0A"
proof (induction bs rule: b64_encode.induct)
  case (2 a)
  then show ?case using quad_bytes(1-5) [OF byte_less [of a], of 0 0] b64_char_props(3) by auto
next
  case (3 a b)
  then show ?case using quad_bytes(1-5) [OF byte_less [of a] byte_less [of b], of 0] b64_char_props(3) by auto
next
  case (4 a b c cs)
  then show ?case using quad_bytes(1-5) [OF byte_less [of a] byte_less [of b] byte_less [of c]] b64_char_props(3) by auto
qed simp

lemma b64_groups_encode: "b64_groups (b64_encode bs) = Some bs"
proof (induction bs rule: b64_encode.induct)
  case (2 a)
  then show ?case using quad_bytes [OF byte_less [of a], of 0 0] by (simp add: b64_char_props)
next
  case (3 a b)
  then show ?case using quad_bytes [OF byte_less [of a] byte_less [of b], of 0] by (simp add: b64_char_props)
next
  case (4 a b c cs)
  then show ?case using quad_bytes [OF byte_less [of a] byte_less [of b] byte_less [of c]] by (simp add: b64_char_props)
qed simp

lemma b64_round: "b64_decode (b64_encode bs) = Some bs"
proof -
  have "filter (\<lambda>c. c \<noteq> CHR 0x0D \<and> c \<noteq> CHR 0x0A) (b64_encode bs) = b64_encode bs"
    using b64_clean by (simp add: filter_id_conv)
  then show ?thesis by (simp add: b64_decode_def b64_groups_encode)
qed

lemma data_Resolve_encoded: "data_Resolve (EncodeDataURI payload) = Inr payload"
proof -
  have "trimSchemePrefix (EncodeDataURI payload) ''data:'' = '';base64,'' @ b64_encode payload"
    by (simp add: trimSchemePrefix_def EncodeDataURI_def equal_fold_def)
  moreover have "cut_at (CHR '','') ('';base64,'' @ b64_encode payload) = ('';base64'', b64_encode payload, True)"
    using cut_at_append [of "CHR '',''" "'';base64''" "b64_encode payload"] by simp
  moreover have "headerHasBase64 '';base64''" by (simp add: headerHasBase64_def trim_space_def trim_right_def is_space_def)
  moreover have "'';base64,'' @ b64_encode payload \<noteq> EncodeDataURI payload" by (simp add: EncodeDataURI_def)
  ultimately show ?thesis by (simp only: data_Resolve_def Let_def if_False prod.case not_True_eq_False simp_thms b64_round option.case)
qed

text \<open>
  Reading a \<open>data:\<close> reference made of any bytes gives those bytes, for every length and content,
  and different bytes make different references.
\<close>

theorem data_uri_roundtrip:
  "data_Resolve (EncodeDataURI payload) = Inr payload \<and> (EncodeDataURI payload = EncodeDataURI other \<longleftrightarrow> payload = other)"
  by (metis data_Resolve_encoded sum.inject(2))

subsection \<open>Embedding\<close>

text \<open>Whether a value of a credential is a file, and the parse of the references made here.\<close>

definition file_ref :: "ctx_lib \<Rightarrow> string \<Rightarrow> bool" where
  "file_ref x ref \<longleftrightarrow> ref \<noteq> [] \<and> scheme_is_file (parseScheme x ref)"

lemma data_scheme: "\<not> cl_urlFails x (EncodeDataURI p) \<Longrightarrow> parseScheme x (EncodeDataURI p) = ''data''"
proof -
  have "get_scheme True (''data:;base64,'' @ b64_encode p) = Some ''data''" by (simp add: is_letter_def digit_val_def)
  moreover have "to_lower ''data'' = ''data''" by code_simp
  moreover assume "\<not> cl_urlFails x (EncodeDataURI p)"
  ultimately show ?thesis by (simp add: parseScheme_def EncodeDataURI_def)
qed

definition embedded_from :: "ctx_lib \<Rightarrow> os \<Rightarrow> string \<Rightarrow> string \<Rightarrow> bool" where
  "embedded_from x w ref v \<longleftrightarrow>
     (if file_ref x ref then \<exists>d. os_ReadFile (filePathFromRef ref w) w = Inr d \<and> v = EncodeDataURI d else v = ref)"

lemma embedIfFile_iff: "embedIfFile x w ref = Inr v \<longleftrightarrow> embedded_from x w ref v"
  by (auto simp: embedIfFile_def embedded_from_def file_ref_def scheme_is_file_def EncodeDataURIFromFile_def Let_def split: sum.splits)

lemma embedIfFile_again:
  assumes "\<forall>d. \<not> cl_urlFails x (EncodeDataURI d)" "embedded_from x w ref v"
  shows "embedIfFile x w2 v = Inr v"
proof (cases "file_ref x ref")
  case True
  then obtain d where "v = EncodeDataURI d" using assms(2) by (auto simp: embedded_from_def)
  then have "parseScheme x v = ''data''" using assms(1) data_scheme by blast
  then show ?thesis by (simp add: embedIfFile_def)
next
  case False
  then show ?thesis using assms(2) by (auto simp: embedIfFile_iff embedded_from_def)
qed

lemma embed_iff: "embedFileCredentials x w c = (None, c') \<longleftrightarrow>
   (\<exists>creds nkey jwt seed. embedded_from x w (ns_Creds c) creds \<and> embedded_from x w (ns_NKey c) nkey \<and>
      embedded_from x w (ns_UserJwt c) jwt \<and> embedded_from x w (ns_UserSeed c) seed \<and>
      c' = c\<lparr> ns_Creds := creds, ns_NKey := nkey, ns_UserJwt := jwt, ns_UserSeed := seed \<rparr>)"
  unfolding embedFileCredentials_def embedIfFile_iff [symmetric]
  by (auto split: sum.splits)

text \<open>
  C30. An embedded context carries its credentials with it: what was a file is a \<open>data:\<close> reference
  to the content of that file, what was a reference of another kind or empty is as it was, the rest of
  the context is unchanged, and embedding it again, on any other machine, changes nothing and reads no
  file. That \<open>url.Parse\<close> takes a \<open>data:\<close> reference is assumed.
\<close>

theorem embedding_is_self_contained:
  assumes "\<forall>d. \<not> cl_urlFails x (EncodeDataURI d)" and "embedFileCredentials x w c = (None, c')"
  shows "embedFileCredentials x w2 c' = (None, c') \<and>
    (\<forall>get \<in> {ns_Creds, ns_NKey, ns_UserJwt, ns_UserSeed}.
       if file_ref x (get c) then data_Resolve (get c') = read_file (filePathFromRef (get c) w) w else get c' = get c) \<and>
    c' = c\<lparr> ns_Creds := ns_Creds c', ns_NKey := ns_NKey c', ns_UserJwt := ns_UserJwt c', ns_UserSeed := ns_UserSeed c' \<rparr>"
proof -
  obtain creds nkey jwt seed where e: "embedded_from x w (ns_Creds c) creds" "embedded_from x w (ns_NKey c) nkey"
    "embedded_from x w (ns_UserJwt c) jwt" "embedded_from x w (ns_UserSeed c) seed"
    and c': "c' = c\<lparr> ns_Creds := creds, ns_NKey := nkey, ns_UserJwt := jwt, ns_UserSeed := seed \<rparr>"
    using assms(2) unfolding embed_iff by blast
  have "embedFileCredentials x w2 c' = (None, c')"
    unfolding embed_iff embedIfFile_iff [symmetric] c' using e [THEN embedIfFile_again [OF assms(1), of _ _ _ w2]] by auto
  moreover have "if file_ref x ref then data_Resolve v = read_file (filePathFromRef ref w) w else v = ref"
    if "embedded_from x w ref v" for ref v
    using that data_Resolve_encoded by (auto simp: embedded_from_def read_file_def)
  ultimately show ?thesis using e by (simp add: c')
qed

text \<open>A codec for the witnesses: every character marked, every string ended.\<close>

definition enc_str :: "string \<Rightarrow> string" where
  "enc_str s = concat (map (\<lambda>c. [CHR ''+'', c]) s) @ ''-''"

fun dec_strs :: "string \<Rightarrow> string \<Rightarrow> string list" where
  "dec_strs acc (CHR ''-'' # r) = List.rev acc # dec_strs [] r"
| "dec_strs acc (CHR ''+'' # c # r) = dec_strs (c # acc) r"
| "dec_strs acc _ = []"

lemma dec_enc_str: "dec_strs acc (enc_str s @ r) = (List.rev acc @ s) # dec_strs [] r"
  unfolding enc_str_def by (induction s arbitrary: acc) auto

lemma dec_enc_strs: "dec_strs [] (concat (map enc_str ss)) = ss"
  by (induction ss) (simp_all add: dec_enc_str)

definition settings_strs :: "settings \<Rightarrow> string list" where
  "settings_strs c = [ns_Description c, ns_URL c, ns_SocksProxy c, ns_Token c, ns_User c, ns_Password c, ns_Creds c, ns_NKey c,
     ns_Cert c, ns_Key c, ns_CA c, ns_NSCLookup c, ns_JSDomain c, ns_JSAPIPrefix c, ns_JSEventPrefix c, ns_InboxPrefix c,
     ns_UserJwt c, ns_UserSeed c, ns_ColorScheme c, if ns_TLSFirst c then ''1'' else [], ns_WinCertStoreType c,
     ns_WinCertStoreMatchBy c, ns_WinCertStoreMatch c] @ ns_WinCertStoreCaMatch c"

definition strs_settings :: "string list \<Rightarrow> settings \<Rightarrow> settings" where
  "strs_settings v c = c\<lparr> ns_Description := v ! 0, ns_URL := v ! 1, ns_SocksProxy := v ! 2, ns_Token := v ! 3, ns_User := v ! 4,
     ns_Password := v ! 5, ns_Creds := v ! 6, ns_NKey := v ! 7, ns_Cert := v ! 8, ns_Key := v ! 9, ns_CA := v ! 10,
     ns_NSCLookup := v ! 11, ns_JSDomain := v ! 12, ns_JSAPIPrefix := v ! 13, ns_JSEventPrefix := v ! 14, ns_InboxPrefix := v ! 15,
     ns_UserJwt := v ! 16, ns_UserSeed := v ! 17, ns_ColorScheme := v ! 18, ns_TLSFirst := (v ! 19 \<noteq> []),
     ns_WinCertStoreType := v ! 20, ns_WinCertStoreMatchBy := v ! 21, ns_WinCertStoreMatch := v ! 22,
     ns_WinCertStoreCaMatch := drop 23 v \<rparr>"

definition demo_ctx_lib :: ctx_lib where
  "demo_ctx_lib = \<lparr> cl_urlFails = (\<lambda>_. False), cl_Unmarshal = (\<lambda>d c. Inr (strs_settings (dec_strs [] d) c)),
     cl_Marshal = (\<lambda>c. concat (map enc_str (settings_strs c))), cl_opRead = (\<lambda>_. Inl []), cl_nscGenerate = (\<lambda>_. Inl []),
     cl_ParseCertStore = (\<lambda>_. None), cl_ParseCertMatchBy = (\<lambda>_. None), cl_certTLS = (\<lambda>_ _ _ _. None), cl_appendCerts = (\<lambda>_. True),
     cl_ParseDecoratedJWT = (\<lambda>d. Inr d), cl_ParseDecoratedNKey = (\<lambda>d. Inr d), cl_PublicKey = (\<lambda>d. Inr d),
     cl_NkeyOptionFromSeed = (\<lambda>_. None), cl_redactURL = (\<lambda>u. u), cl_DefaultURL = ''nats://127.0.0.1:4222'' \<rparr>"

lemma demo_json: "ns_Name c = [] \<Longrightarrow> json_settings demo_ctx_lib c"
proof -
  assume "ns_Name c = []"
  then have "strs_settings (settings_strs c) zeroSettings = c\<lparr> ns_nscUrl := [], ns_nscCreds := [] \<rparr>"
    by (cases c) (simp add: strs_settings_def settings_strs_def zeroSettings_def)
  then show ?thesis by (simp add: json_settings_def demo_ctx_lib_def dec_enc_strs)
qed

definition creds_os :: os where
  "creds_os = empty_os\<lparr> os_files := [(''/k/u.creds'', ''SECRET'')] \<rparr>"

lemma demo_parse: "parseScheme demo_ctx_lib ''/k/u.creds'' = []" "parseScheme demo_ctx_lib ''op://v/k'' = ''op''"
  by (simp_all add: parseScheme_def demo_ctx_lib_def is_letter_def digit_val_def to_lower_def lower_char_def)

lemma demo_read: "embedIfFile demo_ctx_lib creds_os ''/k/u.creds'' = Inr (EncodeDataURI ''SECRET'')"
proof -
  have "filePathFromRef ''/k/u.creds'' creds_os = ''/k/u.creds''"
    by (simp add: filePathFromRef_def trimSchemePrefix_def equal_fold_def to_lower_def lower_char_def expandHomedir_def os_ExpandEnv_def)
  then show ?thesis by (simp add: embedIfFile_def demo_parse EncodeDataURIFromFile_def os_ReadFile_def creds_os_def empty_os_def)
qed

theorem embedding_is_self_contained_witness:
  "embedFileCredentials demo_ctx_lib creds_os (zeroSettings\<lparr> ns_Creds := ''/k/u.creds'', ns_NKey := ''op://v/k'' \<rparr>) =
     (None, zeroSettings\<lparr> ns_Creds := EncodeDataURI ''SECRET'', ns_NKey := ''op://v/k'' \<rparr>) \<and>
   embedFileCredentials demo_ctx_lib empty_os (zeroSettings\<lparr> ns_Creds := EncodeDataURI ''SECRET'', ns_NKey := ''op://v/k'' \<rparr>) =
     (None, zeroSettings\<lparr> ns_Creds := EncodeDataURI ''SECRET'', ns_NKey := ''op://v/k'' \<rparr>)"
proof -
  let ?c = "zeroSettings\<lparr> ns_Creds := ''/k/u.creds'', ns_NKey := ''op://v/k'' \<rparr>"
  let ?d = "zeroSettings\<lparr> ns_Creds := EncodeDataURI ''SECRET'', ns_NKey := ''op://v/k'' \<rparr>"
  have "embedIfFile demo_ctx_lib creds_os ''op://v/k'' = Inr ''op://v/k''" by (simp add: embedIfFile_def demo_parse)
  then have "embedFileCredentials demo_ctx_lib creds_os ?c = (None, ?d)"
    by (simp add: embedFileCredentials_def demo_read) (simp add: embedIfFile_def zeroSettings_def)
  moreover have "\<forall>d. \<not> cl_urlFails demo_ctx_lib (EncodeDataURI d)" by (simp add: demo_ctx_lib_def)
  ultimately show ?thesis using embedding_is_self_contained [of demo_ctx_lib creds_os ?c ?d empty_os] by (simp del: EncodeDataURI_def)
qed

subsection \<open>A saved context\<close>

text \<open>The migration clears the old field, keeps what was set, and has nothing to do the second time.\<close>

lemma migrated:
  assumes "migrateNSCLookup x c = (None, c')"
  shows "ns_NSCLookup c' = []" and "ns_NSCLookup c = [] \<Longrightarrow> c' = c" and "ns_NSCLookup c \<noteq> [] \<Longrightarrow> ns_Creds c' \<noteq> []"
    and "ns_Creds c \<noteq> [] \<Longrightarrow> ns_Creds c' = ns_Creds c" and "ns_URL c \<noteq> [] \<Longrightarrow> ns_URL c' = ns_URL c"
    and "migrateNSCLookup x c' = (None, c')"
proof -
  have "ns_NSCLookup c' = [] \<and> (ns_NSCLookup c = [] \<longrightarrow> c' = c) \<and> (ns_NSCLookup c \<noteq> [] \<longrightarrow> ns_Creds c' \<noteq> []) \<and>
    (ns_Creds c \<noteq> [] \<longrightarrow> ns_Creds c' = ns_Creds c) \<and> (ns_URL c \<noteq> [] \<longrightarrow> ns_URL c' = ns_URL c)"
  proof (cases "ns_NSCLookup c = []")
    case True
    then show ?thesis using assms by (simp add: migrateNSCLookup_def)
  next
    case False
    define c1 where "c1 = (if ns_URL c = [] \<and> ns_nscUrl c \<noteq> [] then c\<lparr> ns_URL := ns_nscUrl c \<rparr> else c)"
    have c1: "ns_Creds c1 = ns_Creds c" "ns_NSCLookup c1 = ns_NSCLookup c" "ns_URL c \<noteq> [] \<longrightarrow> c1 = c" by (simp_all add: c1_def)
    have "\<exists>c2. c' = (if ns_Creds c2 = [] then c2\<lparr> ns_Creds := ''nsc://'' @ trimSchemePrefix (ns_NSCLookup c2) ''nsc://'' \<rparr> else c2)
        \<lparr> ns_NSCLookup := [], ns_nscCreds := [], ns_nscUrl := [] \<rparr> \<and> ns_Creds c2 = ns_Creds c1 \<and> (ns_URL c1 \<noteq> [] \<longrightarrow> c2 = c1)"
    proof (cases "ns_Creds c1 = [] \<and> ns_URL c1 = []")
      case fetch: True
      then obtain p where "runNscProfile x (ns_NSCLookup c1) = Inr p"
        using assms False unfolding migrateNSCLookup_def Let_def c1_def [symmetric] by (cases "runNscProfile x (ns_NSCLookup c1)") auto
      then show ?thesis using fetch assms False unfolding migrateNSCLookup_def Let_def c1_def [symmetric]
        by (intro exI [of _ "if np_Service p \<noteq> [] then c1\<lparr> ns_URL := np_Service p \<rparr> else c1"]) auto
    next
      case plain: False
      then show ?thesis using assms False unfolding migrateNSCLookup_def Let_def c1_def [symmetric] by (intro exI [of _ c1]) (simp split: if_splits)
    qed
    then obtain c2 where c2: "c' = (if ns_Creds c2 = [] then c2\<lparr> ns_Creds := ''nsc://'' @ trimSchemePrefix (ns_NSCLookup c2) ''nsc://'' \<rparr> else c2)
        \<lparr> ns_NSCLookup := [], ns_nscCreds := [], ns_nscUrl := [] \<rparr>" "ns_Creds c2 = ns_Creds c1" "ns_URL c1 \<noteq> [] \<longrightarrow> c2 = c1" by blast
    show ?thesis using c1 c2(2,3) False unfolding c2(1) by (cases "ns_Creds c2 = []") simp_all
  qed
  then show "ns_NSCLookup c' = []" "ns_NSCLookup c = [] \<Longrightarrow> c' = c" "ns_NSCLookup c \<noteq> [] \<Longrightarrow> ns_Creds c' \<noteq> []"
    "ns_Creds c \<noteq> [] \<Longrightarrow> ns_Creds c' = ns_Creds c" "ns_URL c \<noteq> [] \<Longrightarrow> ns_URL c' = ns_URL c" by blast+
  then show "migrateNSCLookup x c' = (None, c')" by (simp add: migrateNSCLookup_def)
qed

lemma embed_keeps_lookup: "embedFileCredentials x w c = (None, c') \<Longrightarrow> ns_NSCLookup c' = ns_NSCLookup c"
  unfolding embed_iff by auto

lemma reg_Save_ok:
  assumes "reg_Save x r c n w = (None, c', w')"
  shows "\<exists>cfg cfg1. migrateNSCLookup x (ctx_config c) = (None, cfg) \<and>
     (if rg_embedding r then embedFileCredentials x (rg_os r w) cfg else (None, cfg)) = (None, cfg1) \<and>
     ctx_config c' = cfg1\<lparr> ns_Name := [] \<rparr> \<and> ctx_Name c' = (if n \<noteq> [] then n else ctx_Name c) \<and>
     ctx_path c' = backend_path r (ctx_Name c') (ctx_path c)"
proof -
  let ?c = "if n \<noteq> [] then c\<lparr> ctx_Name := n \<rparr> else c"
  have cc: "ctx_config ?c = ctx_config c" "ctx_Name ?c = (if n \<noteq> [] then n else ctx_Name c)" "ctx_path ?c = ctx_path c" by simp_all
  obtain e cfg where m: "migrateNSCLookup x (ctx_config c) = (e, cfg)" by (cases "migrateNSCLookup x (ctx_config c)")
  obtain e1 cfg1 where em: "(if rg_embedding r then embedFileCredentials x (rg_os r w) cfg else (None, cfg)) = (e1, cfg1)"
    by (cases "if rg_embedding r then embedFileCredentials x (rg_os r w) cfg else (None, cfg)")
  show ?thesis using assms unfolding reg_Save_def Let_def cc m em
    by (auto split: option.splits prod.splits)
qed

lemma saved_config:
  assumes "reg_Save x r c n w = (None, c', w')"
  shows "ns_NSCLookup (ctx_config c') = []" and "ctx_path c' = backend_path r (ctx_Name c') (ctx_path c)"
proof -
  obtain cfg cfg1 where s: "migrateNSCLookup x (ctx_config c) = (None, cfg)"
    "(if rg_embedding r then embedFileCredentials x (rg_os r w) cfg else (None, cfg)) = (None, cfg1)"
    "ctx_config c' = cfg1\<lparr> ns_Name := [] \<rparr>" "ctx_path c' = backend_path r (ctx_Name c') (ctx_path c)"
    using reg_Save_ok [OF assms] by blast
  have "ns_NSCLookup cfg1 = ns_NSCLookup cfg" using s(2) embed_keeps_lookup by (cases "rg_embedding r") auto
  then show "ns_NSCLookup (ctx_config c') = []" using migrated(1) [OF s(1)] s(3) by simp
  show "ctx_path c' = backend_path r (ctx_Name c') (ctx_path c)" by (rule s(4))
qed

text \<open>
  C29. In a registry that does not expand (the option \<open>WithoutExpansion\<close>), over files whose calls do not
  fail, a context that was saved loads under its name with the settings it had after the save (the old
  \<open>nsc\<close> field migrated, credentials embedded when the registry does that), from the path the save
  recorded; fields that are not written are empty. For the settings that are saved the JSON codec is assumed
  to read back what it writes, which it does for valid UTF-8. A registry that expands, the default, loads
  settings with variables replaced and a default server, and is not covered.
\<close>

theorem saved_context_loads:
  assumes "rg_backend r = file_backend fb" "rg_noExpand r" "files_ok fb w" "json_settings x (ctx_config c')" "reg_Save x r c n w = (None, c', w')"
  shows "reg_Load x r (ctx_Name c') [] w' =
      Inr \<lparr> ctx_Name = ctx_Name c', ctx_config = (ctx_config c')\<lparr> ns_nscUrl := [], ns_nscCreds := [] \<rparr>,
            ctx_path = ctx_path c', ctx_resolvers = Some (rg_resolvers r) \<rparr> \<and>
    ns_NSCLookup (ctx_config c') = [] \<and> files_current fb w' = files_current fb w"
proof -
  have v: "ValidateName (ctx_Name c') = None" "bk_Save (file_backend fb) (ctx_Name c') (cl_Marshal x (ctx_config c')) w = (None, w')"
    using reg_Save_effect [OF assms(5)] assms(1) by auto
  have "files_current fb w' = files_current fb w"
    using directory.save_current [OF assms(3) v(1), of "cl_Marshal x (ctx_config c')"] v(2) by simp
  moreover obtain ctx where ctx: "reg_Load x r (ctx_Name c') [] w' = Inr ctx" "ctx_Name ctx = ctx_Name c'"
    "ctx_config ctx = (ctx_config c')\<lparr> ns_nscUrl := [], ns_nscCreds := [] \<rparr>"
    using directory.save_then_load [OF assms(1,3,5,4,2), of "[]"] by (auto simp: applyOpts_def)
  moreover have "ctx_Name c' \<noteq> []" using v(1) by (simp add: valid_name_iff)
  then have "ctx_path ctx = ctx_path c'" "ctx_resolvers ctx = Some (rg_resolvers r)"
    using ctx(1) saved_config(2) [OF assms(5)] v(1) assms(1,2)
    by (auto simp: reg_Load_def effective_name_def err_bind_def backend_path_def file_backend_def split: sum.splits)
  ultimately show ?thesis using saved_config(1) [OF assms(5)] by simp
qed

definition demo_registry :: "os Registry" where
  "demo_registry = files_registry demo_files [WithoutExpansion]"

definition demo_context :: Context where
  "demo_context = \<lparr> ctx_Name = ''a'', ctx_config = zeroSettings\<lparr> ns_User := ''u'' \<rparr>, ctx_path = [], ctx_resolvers = None \<rparr>"

lemma demo_registry_parts: "rg_backend demo_registry = file_backend demo_files" "rg_noExpand demo_registry"
    "rg_selector demo_registry = Some (file_selector (fb_selector demo_files))" "\<not> rg_embedding demo_registry"
  by (simp_all add: demo_registry_def files_registry_def NewRegistry_def WithoutExpansion_def WithDefaultResolvers_def Let_def)

lemma demo_save: "\<exists>c' w'. reg_Save demo_ctx_lib demo_registry demo_context [] empty_os = (None, c', w') \<and> ctx_Name c' = ''a'' \<and>
    ctx_config c' = zeroSettings\<lparr> ns_User := ''u'' \<rparr>"
proof -
  have v: "ValidateName ''a'' = None" by (simp add: ValidateName_def contains_any_def has_prefix_def)
  obtain w' where "bk_Save (file_backend demo_files) ''a'' (cl_Marshal demo_ctx_lib (zeroSettings\<lparr> ns_User := ''u'' \<rparr>)) empty_os = (None, w')"
    using directory.save [OF demo_files_ok(1) v] by blast
  then show ?thesis using v
    by (simp add: reg_Save_def demo_context_def migrateNSCLookup_def zeroSettings_def Validate_def numCreds_def demo_registry_parts)
qed

theorem saved_context_loads_witness:
  "\<exists>c' w' ctx. reg_Save demo_ctx_lib demo_registry demo_context [] empty_os = (None, c', w') \<and>
     reg_Load demo_ctx_lib demo_registry ''a'' [] w' = Inr ctx \<and> ctx_config ctx = zeroSettings\<lparr> ns_User := ''u'' \<rparr>"
proof -
  obtain c' w' where s: "reg_Save demo_ctx_lib demo_registry demo_context [] empty_os = (None, c', w')" "ctx_Name c' = ''a''"
    "ctx_config c' = zeroSettings\<lparr> ns_User := ''u'' \<rparr>" using demo_save by blast
  have "json_settings demo_ctx_lib (ctx_config c')" by (rule demo_json) (simp add: s(3) zeroSettings_def)
  then show ?thesis using s saved_context_loads [OF demo_registry_parts(1,2) demo_files_ok(1) _ s(1)] by (simp add: zeroSettings_def)
qed

end
