(* ===== verification/Conn_Balancer.thy ===== *)
theory Conn_Balancer
  imports Prelude "HOL-Library.AList" "HOL-Library.Multiset" "HOL-Library.Sublist"
begin

text \<open>
  The connection balancer (\<open>connbalancer/balancer.go\<close>): gathering the connections of all servers page
  by page, choosing the ones to kick so that no server keeps more than an even share, and kicking
  them one by one.
\<close>

record ConnInfo =
  con_Cid :: u64
  con_Kind :: string
  con_LastActivity :: int
  con_Name :: string
  con_Account :: string

record ConnectionSelector =
  cs_ServerName :: string
  cs_Cluster :: string
  cs_Idle :: int
  cs_Account :: string
  cs_SubjectInterest :: string
  cs_Kind :: "string list"

record conn =
  con_serverId :: string
  con_serverName :: string
  con_info :: ConnInfo

record serverConnections =
  sc_serverId :: string
  sc_serverName :: string
  sc_connections :: "conn list"
  sc_offset :: int

text \<open>A reply to a connections request: an error, no data, or a page of the connections of a server.\<close>

record Connz =
  cz_Offset :: int
  cz_Limit :: int
  cz_Conns :: "ConnInfo list"

record ConnzResponse =
  cr_ServerID :: string
  cr_ServerName :: string
  cr_Error :: "string option"
  cr_Data :: "Connz option"

datatype balance_error =
    SubjectWithoutAccount
  | RequestFailed string
  | InvalidJson string
  | InvalidResponse string
  | NoData

text \<open>
  The server side: the replies to the connections request for an offset (or the failure of the
  request), the identity of the own connection (or that it is not known), whether a kick is answered
  by one message without an error, and whether the context ends before the next kick.
\<close>

record balance_env =
  be_connz :: "int \<Rightarrow> balance_error + (balance_error + ConnzResponse) list"
  be_clientId :: "u64 option"
  be_serverId :: string
  be_kick :: "conn \<Rightarrow> bool"
  be_ended :: "nat \<Rightarrow> bool"
  be_now :: int

definition connbalancer_New :: "ConnectionSelector \<Rightarrow> balance_error + ConnectionSelector" where
  "connbalancer_New l =
     (if cs_SubjectInterest l \<noteq> [] \<and> cs_Account l = [] then Inl SubjectWithoutAccount else Inr l)"

definition parseConnzMsg :: "balance_error + ConnzResponse \<Rightarrow> balance_error + ConnzResponse" where
  "parseConnzMsg msg =
     (case msg of
        Inl e \<Rightarrow> Inl e
      | Inr r \<Rightarrow>
          (case cr_Error r of
             Some e \<Rightarrow> Inl (InvalidResponse e)
           | None \<Rightarrow> if cr_Data r = None then Inl NoData else Inr r))"

text \<open>One reply: the results so far and the offset of the next page.\<close>

definition connz_step :: "balance_error + ConnzResponse \<Rightarrow> int \<times> ConnzResponse list \<Rightarrow> balance_error + (int \<times> ConnzResponse list)" where
  "connz_step msg s =
     (case parseConnzMsg msg of
        Inl e \<Rightarrow> Inl e
      | Inr z \<Rightarrow>
          (let d = the (cr_Data z);
               nextOffset = (if cz_Limit d > 0 \<and> int (length (cz_Conns d)) \<ge> cz_Limit d \<and> cz_Offset d + cz_Limit d > fst s
                             then cz_Offset d + cz_Limit d else fst s)
           in Inr (nextOffset, snd s @ [z])))"

definition getConnzWithOffset :: "balance_env \<Rightarrow> int \<Rightarrow> balance_error + (int \<times> ConnzResponse list)" where
  "getConnzWithOffset v off =
     (case be_connz v off of
        Inl e \<Rightarrow> Inl e
      | Inr msgs \<Rightarrow> fold_err connz_step msgs (0, []))"

text \<open>The loop over the pages; \<open>None\<close> when it does not end.\<close>

partial_function (option) connz_loop :: "balance_env \<Rightarrow> int \<Rightarrow> ConnzResponse list \<Rightarrow> (balance_error + ConnzResponse list) option" where
  "connz_loop v off results =
     (case getConnzWithOffset v off of
        Inl e \<Rightarrow> Some (Inl e)
      | Inr (nextOffset, z) \<Rightarrow>
          if nextOffset = 0 then Some (Inr (results @ z)) else connz_loop v nextOffset (results @ z))"

definition getConnz :: "balance_env \<Rightarrow> (balance_error + ConnzResponse list) option" where
  "getConnz v = connz_loop v 0 []"

definition picked :: "balance_env \<Rightarrow> ConnectionSelector \<Rightarrow> ConnInfo \<Rightarrow> bool" where
  "picked v l c \<longleftrightarrow>
     (cs_Idle l = 0 \<or> be_now v - con_LastActivity c > cs_Idle l) \<and> (cs_Kind l = [] \<or> con_Kind c \<in> set (cs_Kind l))"

definition pickConnections :: "balance_env \<Rightarrow> ConnectionSelector \<Rightarrow> ConnzResponse list \<Rightarrow> conn list" where
  "pickConnections v l connz =
     concat (map (\<lambda>resp. case cr_Data resp of
        None \<Rightarrow> []
      | Some d \<Rightarrow> map (\<lambda>c. \<lparr> con_serverId = cr_ServerID resp, con_serverName = cr_ServerName resp, con_info = c \<rparr>)
                   (filter (picked v l) (cz_Conns d))) connz)"

text \<open>The groups by server; a map, whose order a caller cannot rely on.\<close>

definition group_step :: "conn \<Rightarrow> (string \<times> serverConnections) list \<Rightarrow> (string \<times> serverConnections) list" where
  "group_step m g =
     (let s = (case map_of g (con_serverId m) of
                 None \<Rightarrow> \<lparr> sc_serverId = con_serverId m, sc_serverName = con_serverName m, sc_connections = [], sc_offset = 0 \<rparr>
               | Some s \<Rightarrow> s)
      in AList.update (con_serverId m) (s\<lparr> sc_connections := sc_connections s @ [m] \<rparr>) g)"

definition groupConnectionsByServer :: "conn list \<Rightarrow> (string \<times> serverConnections) list" where
  "groupConnectionsByServer matched = fold group_step matched []"

definition calculateEvenDistribution :: "nat \<Rightarrow> nat \<Rightarrow> nat" where
  "calculateEvenDistribution totalConnections serverCount =
     (if serverCount = 0 then 0 else (totalConnections + serverCount - 1) div serverCount)"

definition calculateOffsets :: "(string \<times> serverConnections) list \<Rightarrow> nat \<Rightarrow> (string \<times> serverConnections) list" where
  "calculateOffsets grouped share =
     map (\<lambda>(k, s). (k, s\<lparr> sc_offset := int (length (sc_connections s)) - int share \<rparr>)) grouped"

definition selectConnectionsToKick :: "(string \<times> serverConnections) list \<Rightarrow> conn list" where
  "selectConnectionsToKick grouped =
     concat (map (\<lambda>(_, s). if sc_offset s \<le> 0 then []
        else take (nat (min (sc_offset s) (int (length (sc_connections s))))) (sc_connections s)) grouped)"

text \<open>
  The kicks: how many succeeded, and which connections were asked to be kicked. After a success that
  is not the last the context may end.
\<close>

fun kick_loop :: "balance_env \<Rightarrow> nat \<Rightarrow> conn list \<Rightarrow> nat \<times> conn list" where
  "kick_loop v i [] = (0, [])"
| "kick_loop v i (m # ms) =
     (case be_clientId v of
        None \<Rightarrow> kick_loop v (i + 1) ms
      | Some cid \<Rightarrow>
          if con_serverId m = be_serverId v \<and> con_Cid (con_info m) = cid then kick_loop v (i + 1) ms
          else if \<not> be_kick v m then (case kick_loop v (i + 1) ms of (n, ks) \<Rightarrow> (n, m # ks))
          else if ms \<noteq> [] \<and> be_ended v i then (1, [m])
          else (case kick_loop v (i + 1) ms of (n, ks) \<Rightarrow> (n + 1, m # ks)))"

text \<open>\<open>ord\<close> is the order in which the map of the groups is walked.\<close>

definition Balance :: "balance_env \<Rightarrow> ((string \<times> serverConnections) list \<Rightarrow> (string \<times> serverConnections) list) \<Rightarrow>
    ConnectionSelector \<Rightarrow> (balance_error + (nat \<times> conn list)) option" where
  "Balance v ord l =
     (case getConnz v of
        None \<Rightarrow> None
      | Some (Inl e) \<Rightarrow> Some (Inl e)
      | Some (Inr connz) \<Rightarrow>
          (let matched = pickConnections v l connz
           in if matched = [] then Some (Inr (0, []))
              else
                (let share = calculateEvenDistribution (length matched) (length connz);
                     toKick = selectConnectionsToKick (calculateOffsets (ord (groupConnectionsByServer matched)) share)
                 in if toKick = [] then Some (Inr (0, [])) else Some (Inr (kick_loop v 0 toKick)))))"

subsection \<open>The pages end\<close>

definition full_page :: "Connz \<Rightarrow> bool" where
  "full_page d \<longleftrightarrow> cz_Limit d > 0 \<and> int (length (cz_Conns d)) \<ge> cz_Limit d"

text \<open>Servers that answer from the offset asked for, and have no full page from \<open>B\<close> on.\<close>

definition pages_end :: "balance_env \<Rightarrow> int \<Rightarrow> bool" where
  "pages_end v B \<longleftrightarrow> (\<forall>off msgs r d. be_connz v off = Inr msgs \<longrightarrow> Inr r \<in> set msgs \<longrightarrow> cr_Data r = Some d \<longrightarrow>
     full_page d \<longrightarrow> cz_Offset d = off \<and> off < B)"

lemma connz_fold_next:
  assumes "fold_err connz_step msgs (n0, rs) = Inr (n, z)" "n \<noteq> n0"
  shows "\<exists>r d. Inr r \<in> set msgs \<and> cr_Data r = Some d \<and> full_page d \<and> n = cz_Offset d + cz_Limit d"
  using assms
proof (induction msgs arbitrary: n0 rs)
  case (Cons m ms)
  obtain r d where m: "m = Inr r" "cr_Data r = Some d"
    using Cons.prems(1) by (cases m) (auto simp: connz_step_def parseConnzMsg_def split: option.splits if_splits)
  obtain n1 rs1 where s: "connz_step m (n0, rs) = Inr (n1, rs1)" "fold_err connz_step ms (n1, rs1) = Inr (n, z)"
    using Cons.prems(1) by (cases "connz_step m (n0, rs)") auto
  have n1: "n1 = n0 \<or> full_page d \<and> n1 = cz_Offset d + cz_Limit d"
    using s(1) m by (auto simp: connz_step_def parseConnzMsg_def full_page_def Let_def split: option.splits if_splits)
  show ?case
  proof (cases "n = n1")
    case True
    then show ?thesis using n1 Cons.prems(2) m by auto
  next
    case False
    then show ?thesis using Cons.IH [OF s(2)] by auto
  qed
qed simp

lemma connz_loop_ends: "pages_end v B \<Longrightarrow> connz_loop v off results \<noteq> None"
proof (induction "nat (B - off)" arbitrary: off results rule: less_induct)
  case less
  show ?case
  proof (cases "getConnzWithOffset v off")
    case (Inl e)
    then show ?thesis by (subst connz_loop.simps) simp
  next
    case (Inr p)
    obtain n z where p: "p = (n, z)" by (cases p)
    show ?thesis
    proof (cases "n = 0")
      case True
      then show ?thesis using Inr p by (subst connz_loop.simps) simp
    next
      case False
      obtain msgs where msgs: "be_connz v off = Inr msgs" "fold_err connz_step msgs (0, []) = Inr (n, z)"
        using Inr p by (auto simp: getConnzWithOffset_def split: sum.splits)
      obtain r d where "Inr r \<in> set msgs" "cr_Data r = Some d" "full_page d" "n = cz_Offset d + cz_Limit d"
        using connz_fold_next [OF msgs(2) False] by blast
      then have "off < B" "n > off" using less.prems msgs(1) unfolding pages_end_def by (fastforce simp: full_page_def)+
      then have "connz_loop v n (results @ z) \<noteq> None" using less.hyps [of n] less.prems by simp
      then show ?thesis using Inr p False by (subst connz_loop.simps) simp
    qed
  qed
qed

text \<open>
  C34. Gathering the connections ends, with their pages or an error, when every server answers from the
  offset it is asked for and has finitely many pages.
\<close>

theorem gathering_ends:
  assumes "pages_end v B"
  shows "\<exists>r. getConnz v = Some r"
  using connz_loop_ends [OF assms] by (simp add: getConnz_def)

subsection \<open>The surplus is kicked\<close>

definition conns_of :: "(string \<times> serverConnections) list \<Rightarrow> string \<Rightarrow> conn list" where
  "conns_of g i = (case map_of g i of None \<Rightarrow> [] | Some s \<Rightarrow> sc_connections s)"

lemma group_snoc: "groupConnectionsByServer (ms @ [m]) = group_step m (groupConnectionsByServer ms)"
  by (simp add: groupConnectionsByServer_def)

lemma group_step_conns: "conns_of (group_step m g) i = conns_of g i @ (if con_serverId m = i then [m] else [])"
  by (auto simp: conns_of_def group_step_def update_conv' Let_def split: option.splits)

lemma group_conns: "conns_of (groupConnectionsByServer ms) i = filter (\<lambda>m. con_serverId m = i) ms"
proof (induction ms rule: rev_induct)
  case Nil
  then show ?case by (simp add: groupConnectionsByServer_def conns_of_def)
next
  case (snoc m ms)
  then show ?case by (simp add: group_snoc group_step_conns)
qed

lemma group_distinct: "distinct (map fst (groupConnectionsByServer ms))"
proof (induction ms rule: rev_induct)
  case (snoc m ms)
  then show ?case by (simp add: group_snoc group_step_def Let_def distinct_update)
qed (simp add: groupConnectionsByServer_def)

lemma kicked_at:
  assumes "distinct (map fst g)" "\<And>k s. (k, s) \<in> set g \<Longrightarrow> \<forall>m \<in> set (sc_connections s). con_serverId m = k"
  shows "filter (\<lambda>m. con_serverId m = i) (selectConnectionsToKick (calculateOffsets g share)) =
    take (length (conns_of g i) - share) (conns_of g i)"
  using assms
proof (induction g)
  case Nil
  then show ?case by (simp add: calculateOffsets_def selectConnectionsToKick_def conns_of_def)
next
  case (Cons p g)
  obtain k s where p: "p = (k, s)" by (cases p)
  let ?kick = "take (length (sc_connections s) - share) (sc_connections s)"
  have sel: "selectConnectionsToKick (calculateOffsets (p # g) share) = ?kick @ selectConnectionsToKick (calculateOffsets g share)"
    by (auto simp: p calculateOffsets_def selectConnectionsToKick_def min_def nat_diff_distrib')
  have of_k: "\<forall>m \<in> set ?kick. con_serverId m = k" using Cons.prems(2) [of k s] p by (auto dest: in_set_takeD)
  have rest: "filter (\<lambda>m. con_serverId m = i) (selectConnectionsToKick (calculateOffsets g share)) =
    take (length (conns_of g i) - share) (conns_of g i)"
  proof (rule Cons.IH)
    show "distinct (map fst g)" using Cons.prems(1) by simp
    show "\<forall>m \<in> set (sc_connections t). con_serverId m = q" if "(q, t) \<in> set g" for q t using Cons.prems(2) [of q t] that by simp
  qed
  show ?case
  proof (cases "k = i")
    case True
    then have "conns_of g i = []" using Cons.prems(1) p by (auto simp: conns_of_def dest: map_of_SomeD split: option.split intro: rev_image_eqI)
    moreover have "filter (\<lambda>m. con_serverId m = i) ?kick = ?kick" using of_k True by (simp add: filter_id_conv)
    ultimately show ?thesis unfolding sel using rest True p by (simp add: conns_of_def)
  next
    case False
    then have "filter (\<lambda>m. con_serverId m = i) ?kick = []" using of_k by (auto simp: filter_empty_conv)
    then show ?thesis unfolding sel using rest False p by (simp add: conns_of_def)
  qed
qed

text \<open>In whatever order the servers are walked, the surplus of each is selected, and the share is the smallest with room for all.\<close>

lemma surplus_selected:
  assumes "\<And>g. mset (ord g) = mset g"
  shows "filter (\<lambda>m. con_serverId m = i) (selectConnectionsToKick (calculateOffsets (ord (groupConnectionsByServer ms)) share)) =
      take (length (filter (\<lambda>m. con_serverId m = i) ms) - share) (filter (\<lambda>m. con_serverId m = i) ms) \<and>
    (0 < n \<longrightarrow> length ms \<le> n * calculateEvenDistribution (length ms) n \<and>
       (\<forall>k. length ms \<le> n * k \<longrightarrow> calculateEvenDistribution (length ms) n \<le> k))"
proof -
  let ?g = "groupConnectionsByServer ms" let ?at = "filter (\<lambda>m. con_serverId m = i) ms"
  have d: "distinct (map fst (ord ?g))" using assms [of ?g] group_distinct [of ms] by (metis mset_eq_imp_distinct_iff mset_map)
  have same: "map_of (ord ?g) = map_of ?g" using assms [of ?g] d group_distinct [of ms]
    by (metis map_of_inject_set mset_eq_setD)
  have keys: "\<forall>m \<in> set (sc_connections s). con_serverId m = k" if "(k, s) \<in> set (ord ?g)" for k s
  proof -
    have "map_of ?g k = Some s" using that d same by (metis map_of_is_SomeI)
    then have "sc_connections s = filter (\<lambda>m. con_serverId m = k) ms" using group_conns [of ms k] by (simp add: conns_of_def)
    then show ?thesis by simp
  qed
  have "filter (\<lambda>m. con_serverId m = i) (selectConnectionsToKick (calculateOffsets (ord ?g) share)) = take (length ?at - share) ?at"
    using kicked_at [OF d keys] group_conns [of ms i] by (simp add: conns_of_def same)
  moreover have "length ms \<le> n * calculateEvenDistribution (length ms) n" if "0 < n"
  proof -
    have "length ms + n - 1 < n * ((length ms + n - 1) div n) + n" using that by (metis add.commute dividend_less_times_div)
    then show ?thesis using that by (simp add: calculateEvenDistribution_def)
  qed
  moreover have "calculateEvenDistribution (length ms) n \<le> k" if "0 < n" "length ms \<le> n * k" for k
  proof -
    have "length ms + n - 1 < (k + 1) * n" using that by (simp add: algebra_simps)
    then have "(length ms + n - 1) div n < k + 1" by (simp add: div_less_iff_less_mult that)
    then show ?thesis using that by (simp add: calculateEvenDistribution_def)
  qed
  ultimately show ?thesis by blast
qed

definition sample_conn :: "string \<Rightarrow> u64 \<Rightarrow> conn" where
  "sample_conn srv cid = \<lparr> con_serverId = srv, con_serverName = srv,
     con_info = \<lparr> con_Cid = cid, con_Kind = ''Client'', con_LastActivity = 0, con_Name = [], con_Account = [] \<rparr> \<rparr>"

text \<open>The kicks asked for: the selected connections in order without the own one, up to the end of the context.\<close>

definition others :: "balance_env \<Rightarrow> conn \<Rightarrow> bool" where
  "others v m \<longleftrightarrow> (case be_clientId v of None \<Rightarrow> False | Some cid \<Rightarrow> \<not> (con_serverId m = be_serverId v \<and> con_Cid (con_info m) = cid))"

lemma kick_loop_asks:
  "prefix (snd (kick_loop v i ms)) (filter (others v) ms) \<and>
   ((\<forall>k. \<not> be_ended v k) \<longrightarrow> snd (kick_loop v i ms) = filter (others v) ms) \<and>
   fst (kick_loop v i ms) = length (filter (be_kick v) (snd (kick_loop v i ms)))"
proof (induction v i ms rule: kick_loop.induct)
  case (2 v i m ms)
  then show ?case
    by (cases "be_clientId v") (auto simp: others_def split: prod.splits)
qed simp

lemma filter_prefix: "prefix xs ys \<Longrightarrow> prefix (filter P xs) (filter P ys)"
  by (auto simp: prefix_def)

text \<open>
  C33. A balance that returns asked for kicks as follows. The share is the number of matched connections over
  the number of replies, rounded up: the smallest at which as many servers as there were replies have room
  for all (a server that replies in several pages counts several times, \<open>pages_count_as_servers\<close>). Of
  the matched connections of a server only the first ones are kicked, as many as it has above that share, in
  their order and without the own connection of the balancer, so a server within the share loses none; and
  all of those are asked for when the context does not end in between. The number returned is that of the
  kicks that succeeded. This holds in whatever order the map of the servers is walked.
\<close>

theorem surplus_is_kicked:
  assumes "\<And>g. mset (ord g) = mset g" and "getConnz v = Some (Inr connz)" and "Balance v ord l = Some (Inr (n, kicks))"
  shows "let matched = pickConnections v l connz;
      share = calculateEvenDistribution (length matched) (length connz);
      at = filter (\<lambda>m. con_serverId m = i) matched;
      surplus = filter (others v) (take (length at - share) at);
      kicked = filter (\<lambda>m. con_serverId m = i) kicks
    in prefix kicked surplus \<and> ((\<forall>k. \<not> be_ended v k) \<longrightarrow> kicked = surplus) \<and>
      n = length (filter (be_kick v) kicks) \<and>
      (connz \<noteq> [] \<longrightarrow> length matched \<le> length connz * share \<and> (\<forall>k. length matched \<le> length connz * k \<longrightarrow> share \<le> k))"
proof -
  let ?ms = "pickConnections v l connz" let ?share = "calculateEvenDistribution (length ?ms) (length connz)"
  let ?sel = "selectConnectionsToKick (calculateOffsets (ord (groupConnectionsByServer ?ms)) ?share)"
  let ?at = "filter (\<lambda>m. con_serverId m = i) ?ms"
  note sel = surplus_selected [OF assms(1), of i ?ms ?share "length connz"]
  have "(n, kicks) = kick_loop v 0 ?sel"
  proof (cases "?ms = []")
    case True
    have "ord [] = []" using assms(1) [of "[]"] by simp
    then have "?sel = []" using True by (simp add: groupConnectionsByServer_def calculateOffsets_def selectConnectionsToKick_def)
    moreover have "(n, kicks) = (0, [])" using assms(2,3) True by (simp add: Balance_def Let_def)
    ultimately show ?thesis by (simp only: kick_loop.simps)
  next
    case False
    then show ?thesis using assms(2,3) by (auto simp: Balance_def Let_def split: if_splits)
  qed
  then have loop: "n = fst (kick_loop v 0 ?sel)" "kicks = snd (kick_loop v 0 ?sel)" by (metis fst_conv, metis snd_conv)
  note asks = kick_loop_asks [of v 0 ?sel, folded loop]
  have swap: "filter (\<lambda>m. con_serverId m = i) (filter (others v) ?sel) = filter (others v) (take (length ?at - ?share) ?at)"
    unfolding sel [THEN conjunct1, symmetric] by (simp add: conj_commute)
  have "prefix (filter (\<lambda>m. con_serverId m = i) kicks) (filter (others v) (take (length ?at - ?share) ?at))"
    using filter_prefix [OF asks [THEN conjunct1], of "\<lambda>m. con_serverId m = i"] unfolding swap .
  moreover have "(\<forall>k. \<not> be_ended v k) \<longrightarrow> filter (\<lambda>m. con_serverId m = i) kicks = filter (others v) (take (length ?at - ?share) ?at)"
    using asks swap by metis
  ultimately show ?thesis unfolding Let_def using asks sel by blast
qed

text \<open>
  The number of servers is taken to be the number of replies. A server that replies with several
  pages counts several times, and the share gets too small: a single server with three connections,
  two to a page, has one kicked although there is nowhere else to go.
\<close>

definition one_server :: balance_env where
  "one_server = \<lparr> be_connz = (\<lambda>off. Inr [Inr \<lparr> cr_ServerID = ''A'', cr_ServerName = ''A'', cr_Error = None, cr_Data = Some
       \<lparr> cz_Offset = off, cz_Limit = 2, cz_Conns = take 2 (drop (nat off) (map (\<lambda>c. con_info (sample_conn ''A'' c)) [1, 2, 3])) \<rparr> \<rparr>]),
     be_clientId = Some 9, be_serverId = ''Z'', be_kick = (\<lambda>_. True), be_ended = (\<lambda>_. False), be_now = 0 \<rparr>"

definition any_selector :: ConnectionSelector where
  "any_selector = \<lparr> cs_ServerName = [], cs_Cluster = [], cs_Idle = 0, cs_Account = [], cs_SubjectInterest = [], cs_Kind = [] \<rparr>"

lemma one_server_pages_end: "pages_end one_server 2"
proof -
  have "nat off \<le> 1" if "int (min (3 - nat off) 2) \<ge> 2" for off using that by (auto simp: min_def split: if_splits)
  then show ?thesis by (auto simp: pages_end_def full_page_def one_server_def)
qed

theorem gathering_ends_witness: "\<exists>r. getConnz one_server = Some r"
  by (rule gathering_ends [OF one_server_pages_end])

theorem pages_count_as_servers:
  "getConnz one_server = Some (Inr (map (\<lambda>off. \<lparr> cr_ServerID = ''A'', cr_ServerName = ''A'', cr_Error = None, cr_Data = Some
       \<lparr> cz_Offset = off, cz_Limit = 2, cz_Conns = take 2 (drop (nat off) (map (\<lambda>c. con_info (sample_conn ''A'' c)) [1, 2, 3])) \<rparr> \<rparr>) [0, 2])) \<and>
   Balance one_server (\<lambda>g. g) any_selector = Some (Inr (1, [sample_conn ''A'' 1]))"
proof -
  have p0: "getConnzWithOffset one_server 0 = Inr (2, [\<lparr> cr_ServerID = ''A'', cr_ServerName = ''A'', cr_Error = None, cr_Data = Some
       \<lparr> cz_Offset = 0, cz_Limit = 2, cz_Conns = map (\<lambda>c. con_info (sample_conn ''A'' c)) [1, 2] \<rparr> \<rparr>])"
    by (simp add: getConnzWithOffset_def one_server_def connz_step_def parseConnzMsg_def Let_def)
  have p2: "getConnzWithOffset one_server 2 = Inr (0, [\<lparr> cr_ServerID = ''A'', cr_ServerName = ''A'', cr_Error = None, cr_Data = Some
       \<lparr> cz_Offset = 2, cz_Limit = 2, cz_Conns = map (\<lambda>c. con_info (sample_conn ''A'' c)) [3] \<rparr> \<rparr>])"
    by (simp add: getConnzWithOffset_def one_server_def connz_step_def parseConnzMsg_def Let_def)
  let ?pages = "map (\<lambda>off. \<lparr> cr_ServerID = ''A'', cr_ServerName = ''A'', cr_Error = None, cr_Data = Some
       \<lparr> cz_Offset = off, cz_Limit = 2, cz_Conns = take 2 (drop (nat off) (map (\<lambda>c. con_info (sample_conn ''A'' c)) [1, 2, 3])) \<rparr> \<rparr>) [0, 2]"
  have g: "getConnz one_server = Some (Inr ?pages)"
    unfolding getConnz_def by (subst connz_loop.simps, simp add: p0, subst connz_loop.simps, simp add: p2)
  have share: "calculateEvenDistribution (Suc (Suc (Suc 0))) (Suc (Suc 0)) = 2" by code_simp
  have "Balance one_server (\<lambda>g. g) any_selector = Some (Inr (1, [sample_conn ''A'' 1]))"
    unfolding Balance_def g
    by (simp add: pickConnections_def picked_def any_selector_def groupConnectionsByServer_def group_step_def sample_conn_def
        share calculateOffsets_def selectConnectionsToKick_def one_server_def Let_def)
  with g show ?thesis by blast
qed

theorem surplus_is_kicked_witness:
  "\<exists>connz n kicks. getConnz one_server = Some (Inr connz) \<and> Balance one_server (\<lambda>g. g) any_selector = Some (Inr (n, kicks)) \<and>
     kicks \<noteq> [] \<and> n = length (filter (be_kick one_server) kicks) \<and> length connz = 2"
proof -
  obtain connz where c: "getConnz one_server = Some (Inr connz)" "length connz = 2"
    using pages_count_as_servers [THEN conjunct1] by simp
  note b = pages_count_as_servers [THEN conjunct2]
  have "1 = length (filter (be_kick one_server) [sample_conn ''A'' 1])"
    using surplus_is_kicked [OF refl c(1) b] unfolding Let_def by blast
  with c b show ?thesis by blast
qed

end
