(* ===== verification/Leader_Balancer.thy ===== *)
theory Leader_Balancer
  imports Api_Messages "HOL-Library.AList" "HOL-Library.Multiset"
begin

text \<open>
  The leader balancer (\<open>balancer/balancer.go\<close>): the leaders and peers of streams or consumers by
  cluster, the even distribution, and the runs that ask leaders to step down in favour of a server
  with fewer.
\<close>

text \<open>Entities by name. What the servers answer and what chance decides are the environment's.\<close>

record peer =
  pr_name :: string
  pr_entities :: "string list"
  pr_offset :: int

record cluster =
  cl_name :: string
  cl_peers :: "peer list"
  cl_balancedDistribution :: nat

text \<open>
  The calls are numbered: \<open>lb_info\<close> and \<open>lb_step\<close> are the answers to \<open>ClusterInfo\<close> and
  \<open>LeaderStepDown\<close>, \<open>lb_rand\<close> is what \<open>rand.IntN\<close> draws from, and \<open>lb_order\<close> the order in which a map
  is walked.
\<close>

record balancer_env =
  lb_info :: "nat \<Rightarrow> string \<Rightarrow> string + ClusterInfo"
  lb_step :: "nat \<Rightarrow> string \<Rightarrow> string \<Rightarrow> string option"
  lb_rand :: "nat \<Rightarrow> nat"
  lb_order :: "nat \<Rightarrow> string list \<Rightarrow> string list"

definition BALANCERUNS :: nat where
  "BALANCERUNS = 5"

definition balancer_New :: "string + int \<Rightarrow> string + unit" where
  "balancer_New level =
     (case level of
        Inl e \<Rightarrow> Inl e
      | Inr apiLvl \<Rightarrow>
          if apiLvl < 1 then Inl ''invalid server version. Balancer requires server version 2.11.0 or higher'' else Inr ())"

subsection \<open>Clusters\<close>

definition has_peer :: "string \<Rightarrow> peer list \<Rightarrow> bool" where
  "has_peer n ps = list_ex (\<lambda>p. pr_name p = n) ps"

definition add_peer :: "string \<Rightarrow> peer list \<Rightarrow> peer list" where
  "add_peer n ps = (if has_peer n ps then ps else ps @ [\<lparr> pr_name = n, pr_entities = [], pr_offset = 0 \<rparr>])"

definition change_peer :: "string \<Rightarrow> (peer \<Rightarrow> peer) \<Rightarrow> peer list \<Rightarrow> peer list" where
  "change_peer n f ps = map (\<lambda>p. if pr_name p = n then f p else p) ps"

definition createClusterMappings :: "string \<Rightarrow> ClusterInfo \<Rightarrow> (string \<times> cluster) list \<Rightarrow> (string \<times> cluster) list" where
  "createClusterMappings e info m =
     (let c = (case map_of m (ci_Name info) of
                 Some c \<Rightarrow> c
               | None \<Rightarrow> \<lparr> cl_name = ci_Name info, cl_peers = [], cl_balancedDistribution = 0 \<rparr>);
          led = (if ci_Leader info = [] then cl_peers c
                 else change_peer (ci_Leader info) (\<lambda>p. p\<lparr> pr_entities := pr_entities p @ [e] \<rparr>) (add_peer (ci_Leader info) (cl_peers c)));
          ps = fold (\<lambda>r. add_peer (pi_Name r)) (ci_Replicas info) led
      in AList.update (ci_Name info) (c\<lparr> cl_peers := ps \<rparr>) m)"

text \<open>
  \<open>int(math.Ceil(f + 0.5))\<close> of the exact quotient when it is not whole: one more than the quotient
  when the remainder is at most half, else two more.
\<close>

definition calcClusterDistribution :: "cluster \<Rightarrow> nat" where
  "calcClusterDistribution c =
     (let servers = length (cl_peers c); n = sum_list (map (\<lambda>p. length (pr_entities p)) (cl_peers c))
      in if servers = 0 then 0
         else if n mod servers = 0 then n div servers
         else if 2 * (n mod servers) \<le> servers then n div servers + 1
         else n div servers + 2)"

definition calcLeaderOffset :: "nat \<Rightarrow> peer list \<Rightarrow> peer list" where
  "calcLeaderOffset share ps = map (\<lambda>p. p\<lparr> pr_offset := int (length (pr_entities p)) - int share \<rparr>) ps"

definition isInPeerGroup :: "ClusterInfo \<Rightarrow> string \<Rightarrow> bool" where
  "isInPeerGroup info candidate = list_ex (\<lambda>r. pi_Name r = candidate) (ci_Replicas info)"

subsection \<open>Balancing\<close>

text \<open>The peers, how many calls were made, and the moves that succeeded: entity, from, to.\<close>

record lb_state =
  ls_peers :: "peer list"
  ls_calls :: nat
  ls_moves :: "(string \<times> string \<times> string) list"

definition peer_of :: "string \<Rightarrow> peer list \<Rightarrow> peer option" where
  "peer_of n ps = List.find (\<lambda>p. pr_name p = n) ps"

definition delete_at :: "nat \<Rightarrow> 'a list \<Rightarrow> 'a list" where
  "delete_at i xs = take i xs @ drop (i + 1) xs"

definition drop_entity :: "string \<Rightarrow> nat \<Rightarrow> lb_state \<Rightarrow> lb_state" where
  "drop_entity s i st = st\<lparr> ls_peers := change_peer s (\<lambda>p. p\<lparr> pr_entities := delete_at i (pr_entities p) \<rparr>) (ls_peers st) \<rparr>"

definition is_target :: "ClusterInfo \<Rightarrow> peer list \<Rightarrow> string \<Rightarrow> bool" where
  "is_target info ps n =
     (case peer_of n ps of None \<Rightarrow> False | Some p \<Rightarrow> pr_offset p < 0 \<and> isInPeerGroup info n \<and> ci_Leader info \<noteq> n)"

definition record_move :: "string \<Rightarrow> string \<Rightarrow> string \<Rightarrow> lb_state \<Rightarrow> lb_state" where
  "record_move e s ns st = st\<lparr> ls_peers :=
       change_peer s (\<lambda>p. p\<lparr> pr_offset := pr_offset p - 1 \<rparr>) (change_peer ns (\<lambda>p. p\<lparr> pr_offset := pr_offset p + 1 \<rparr>) (ls_peers st)),
     ls_moves := ls_moves st @ [(e, s, ns)] \<rparr>"

lemma peer_of_change:
  "(\<And>p. pr_name (f p) = pr_name p) \<Longrightarrow> peer_of n (change_peer m f ps) = map_option (\<lambda>p. if n = m then f p else p) (peer_of n ps)"
  unfolding peer_of_def change_peer_def by (induction ps) auto

lemma length_delete_at: "i < length xs \<Longrightarrow> length (delete_at i xs) = length xs - 1"
  by (simp add: delete_at_def)

definition entity_count :: "string \<Rightarrow> lb_state \<Rightarrow> nat" where
  "entity_count s st = (case peer_of s (ls_peers st) of None \<Rightarrow> 0 | Some p \<Rightarrow> length (pr_entities p))"

text \<open>Every round takes an entity off the list of the server.\<close>

lemma entity_count_drop:
  assumes "peer_of s (ls_peers st) = Some p" "pr_entities p \<noteq> []"
  shows "entity_count s (drop_entity s (r mod length (pr_entities p)) (st\<lparr> ls_calls := k \<rparr>)) < entity_count s st"
  using assms by (simp add: entity_count_def drop_entity_def peer_of_change length_delete_at)

lemma entity_count_move [simp]: "entity_count s (record_move e t ns st) = entity_count s st"
  by (simp add: entity_count_def record_move_def peer_of_change split: option.split)

text \<open>
  Moving entities off one server; \<open>retries\<close> counts the failures since the last success. The walk
  over the candidates makes one request, to the first that can take the entity.
\<close>

function move_loop :: "balancer_env \<Rightarrow> string \<Rightarrow> nat \<Rightarrow> lb_state \<Rightarrow> string + lb_state" where
  "move_loop v s retries st =
     (case peer_of s (ls_peers st) of
        None \<Rightarrow> Inr st
      | Some p \<Rightarrow>
          if \<not> (pr_offset p > 0 \<and> pr_entities p \<noteq> []) then Inr st
          else
            (let k = ls_calls st; i = lb_rand v k mod length (pr_entities p); e = pr_entities p ! i;
                 st1 = drop_entity s i (st\<lparr> ls_calls := k + 1 \<rparr>)
             in case lb_info v k e of
                  Inl _ \<Rightarrow> move_loop v s retries st1
                | Inr info \<Rightarrow>
                    (case List.find (is_target info (ls_peers st)) (lb_order v k (map pr_name (ls_peers st))) of
                       None \<Rightarrow> Inr st1
                     | Some ns \<Rightarrow>
                         (case lb_step v k e ns of
                            Some err \<Rightarrow>
                              if retries = 0 then
                                Inr (if i < length (pr_entities p) - 1 then drop_entity s i st1 else st1)
                              else Inl err
                          | None \<Rightarrow> move_loop v s 0 (record_move e s ns st1)))))"
  by pat_completeness auto

termination
  by (relation "measure (\<lambda>(v, s, retries, st). entity_count s st)") (auto intro: entity_count_drop)

declare move_loop.simps [simp del]

definition run_server :: "balancer_env \<Rightarrow> string \<Rightarrow> lb_state \<Rightarrow> string + lb_state" where
  "run_server v s st = move_loop v s 0 st"

text \<open>One run over the servers, then the offsets anew; \<open>BALANCERUNS\<close> of them.\<close>

definition balance_run :: "balancer_env \<Rightarrow> nat \<Rightarrow> lb_state \<Rightarrow> string + lb_state" where
  "balance_run v share st =
     (case fold_err (run_server v) (lb_order v (ls_calls st) (map pr_name (ls_peers st))) (st\<lparr> ls_calls := ls_calls st + 1 \<rparr>) of
        Inl e \<Rightarrow> Inl e
      | Inr st1 \<Rightarrow> Inr (st1\<lparr> ls_peers := calcLeaderOffset share (ls_peers st1) \<rparr>))"

definition balance :: "balancer_env \<Rightarrow> nat \<Rightarrow> lb_state \<Rightarrow> string + lb_state" where
  "balance v share st = fold_err (\<lambda>_. balance_run v share) [1..<Suc BALANCERUNS] st"

text \<open>
  \<open>BalanceStreams\<close> and \<open>BalanceConsumers\<close>, over the entities in order: how many were moved, and the moves.
\<close>

fun map_entities :: "balancer_env \<Rightarrow> nat \<Rightarrow> string list \<Rightarrow> (string \<times> cluster) list \<Rightarrow> string + (nat \<times> (string \<times> cluster) list)" where
  "map_entities v k [] m = Inr (k, m)"
| "map_entities v k (e # es) m =
     (case lb_info v k e of Inl er \<Rightarrow> Inl er | Inr info \<Rightarrow> map_entities v (k + 1) es (createClusterMappings e info m))"

definition prepare_cluster :: "cluster \<Rightarrow> cluster" where
  "prepare_cluster c = c\<lparr> cl_balancedDistribution := calcClusterDistribution c,
     cl_peers := calcLeaderOffset (calcClusterDistribution c) (cl_peers c) \<rparr>"

definition balance_cluster :: "balancer_env \<Rightarrow> cluster \<Rightarrow> nat \<times> (string \<times> string \<times> string) list \<Rightarrow>
    string + (nat \<times> (string \<times> string \<times> string) list)" where
  "balance_cluster v c s =
     (case balance v (cl_balancedDistribution c) \<lparr> ls_peers = cl_peers c, ls_calls = fst s, ls_moves = [] \<rparr> of
        Inl e \<Rightarrow> Inl e
      | Inr st \<Rightarrow> Inr (ls_calls st, snd s @ ls_moves st))"

definition BalanceEntities :: "balancer_env \<Rightarrow> string list \<Rightarrow> string + (nat \<times> (string \<times> string \<times> string) list)" where
  "BalanceEntities v es =
     (case map_entities v 0 es [] of
        Inl e \<Rightarrow> Inl e
      | Inr (k, m) \<Rightarrow>
          (let m1 = map (\<lambda>(n, c). (n, prepare_cluster c)) m
           in case fold_err (\<lambda>n. balance_cluster v (the (map_of m1 n))) (lb_order v k (map fst m1)) (k + 1, []) of
                Inl e \<Rightarrow> Inl e
              | Inr (_, moves) \<Rightarrow> Inr (length moves, moves)))"

subsection \<open>What one server's moves keep\<close>

text \<open>An entity can go to a server that holds a replica of it and does not lead it.\<close>

definition may_move :: "balancer_env \<Rightarrow> string \<times> string \<times> string \<Rightarrow> bool" where
  "may_move v mv = (case mv of (e, s, t) \<Rightarrow> s \<noteq> t \<and> (\<exists>k info. lb_info v k e = Inr info \<and> isInPeerGroup info t \<and> ci_Leader info \<noteq> t))"

definition offset_of :: "peer list \<Rightarrow> string \<Rightarrow> int" where
  "offset_of ps n = (case peer_of n ps of None \<Rightarrow> 0 | Some p \<Rightarrow> pr_offset p)"

definition entities_of :: "peer list \<Rightarrow> string multiset" where
  "entities_of ps = (\<Sum>p \<leftarrow> ps. mset (pr_entities p))"

definition total_offset :: "peer list \<Rightarrow> int" where
  "total_offset ps = (\<Sum>p \<leftarrow> ps. pr_offset p)"

text \<open>What was moved between two states, and what a run keeps of the offsets.\<close>

definition moved :: "balancer_env \<Rightarrow> lb_state \<Rightarrow> lb_state \<Rightarrow> bool" where
  "moved v st st' \<longleftrightarrow> map pr_name (ls_peers st') = map pr_name (ls_peers st) \<and>
     (\<exists>new. ls_moves st' = ls_moves st @ new \<and> list_all (may_move v) new \<and>
        entities_of (ls_peers st') + mset (map fst new) \<subseteq># entities_of (ls_peers st))"

definition levels :: "balancer_env \<Rightarrow> lb_state \<Rightarrow> lb_state \<Rightarrow> bool" where
  "levels v st st' \<longleftrightarrow> moved v st st' \<and>
     total_offset (ls_peers st') = total_offset (ls_peers st) \<and>
     (\<forall>n. min 0 (offset_of (ls_peers st) n) \<le> offset_of (ls_peers st') n \<and>
          offset_of (ls_peers st') n \<le> max 0 (offset_of (ls_peers st) n))"

lemma moved_refl: "moved v st st"
  by (simp add: moved_def)

lemma levels_refl: "levels v st st"
  by (simp add: levels_def moved_refl)

lemma moved_trans: "moved v a b \<Longrightarrow> moved v b c \<Longrightarrow> moved v a c"
proof -
  assume ab: "moved v a b" and bc: "moved v b c"
  obtain x where x: "ls_moves b = ls_moves a @ x" "list_all (may_move v) x" "entities_of (ls_peers b) + mset (map fst x) \<subseteq># entities_of (ls_peers a)"
    using ab unfolding moved_def by blast
  obtain y where y: "ls_moves c = ls_moves b @ y" "list_all (may_move v) y" "entities_of (ls_peers c) + mset (map fst y) \<subseteq># entities_of (ls_peers b)"
    using bc unfolding moved_def by blast
  have "entities_of (ls_peers c) + mset (map fst y) + mset (map fst x) \<subseteq># entities_of (ls_peers b) + mset (map fst x)"
    by (rule subset_mset.add_right_mono [OF y(3)])
  then have "entities_of (ls_peers c) + mset (map fst y) + mset (map fst x) \<subseteq># entities_of (ls_peers a)"
    by (rule subset_mset.order_trans [OF _ x(3)])
  moreover have "entities_of (ls_peers c) + mset (map fst (x @ y)) = entities_of (ls_peers c) + mset (map fst y) + mset (map fst x)"
    by (simp add: add.assoc add.commute [of "mset (map fst x)"])
  ultimately have e: "entities_of (ls_peers c) + mset (map fst (x @ y)) \<subseteq># entities_of (ls_peers a)" by (simp only:)
  have "\<exists>new. ls_moves c = ls_moves a @ new \<and> list_all (may_move v) new \<and>
      entities_of (ls_peers c) + mset (map fst new) \<subseteq># entities_of (ls_peers a)"
    using x(1,2) y(1,2) e by (intro exI [of _ "x @ y"]) simp
  then show ?thesis using ab bc unfolding moved_def by simp
qed

lemma levels_trans: "levels v a b \<Longrightarrow> levels v b c \<Longrightarrow> levels v a c"
proof -
  assume ab: "levels v a b" and bc: "levels v b c"
  have "min 0 (offset_of (ls_peers a) n) \<le> offset_of (ls_peers c) n \<and> offset_of (ls_peers c) n \<le> max 0 (offset_of (ls_peers a) n)" for n
  proof -
    have "min 0 (offset_of (ls_peers a) n) \<le> offset_of (ls_peers b) n" "offset_of (ls_peers b) n \<le> max 0 (offset_of (ls_peers a) n)"
      "min 0 (offset_of (ls_peers b) n) \<le> offset_of (ls_peers c) n" "offset_of (ls_peers c) n \<le> max 0 (offset_of (ls_peers b) n)"
      using ab bc unfolding levels_def by blast+
    then show ?thesis by linarith
  qed
  moreover have "total_offset (ls_peers c) = total_offset (ls_peers a)" "moved v a c"
    using ab bc moved_trans unfolding levels_def by (simp_all, blast)
  ultimately show ?thesis unfolding levels_def by blast
qed

lemma names_change: "(\<And>p. pr_name (f p) = pr_name p) \<Longrightarrow> map pr_name (change_peer m f ps) = map pr_name ps"
  by (induction ps) (simp_all add: change_peer_def)

lemma change_absent: "n \<notin> set (map pr_name ps) \<Longrightarrow> change_peer n f ps = ps"
  by (induction ps) (auto simp: change_peer_def)

lemma total_change:
  assumes "distinct (map pr_name ps)" "n \<in> set (map pr_name ps)"
  shows "total_offset (change_peer n (\<lambda>p. p\<lparr> pr_offset := pr_offset p + d \<rparr>) ps) = total_offset ps + d"
  using assms
proof (induction ps)
  case (Cons p ps)
  show ?case
  proof (cases "pr_name p = n")
    case True
    then have "change_peer n (\<lambda>p. p\<lparr> pr_offset := pr_offset p + d \<rparr>) ps = ps" using Cons.prems(1) by (intro change_absent) auto
    then show ?thesis using True by (simp add: total_offset_def change_peer_def)
  next
    case False
    then show ?thesis using Cons by (simp add: total_offset_def change_peer_def)
  qed
qed simp

lemma entities_offset: "entities_of (change_peer n (\<lambda>p. p\<lparr> pr_offset := f p \<rparr>) ps) = entities_of ps"
  by (induction ps) (auto simp: entities_of_def change_peer_def)

lemma entities_drop:
  assumes "distinct (map pr_name ps)" "peer_of s ps = Some p" "i < length (pr_entities p)"
  shows "entities_of ps = add_mset (pr_entities p ! i) (entities_of (change_peer s (\<lambda>p. p\<lparr> pr_entities := delete_at i (pr_entities p) \<rparr>) ps))"
  using assms(1,2)
proof (induction ps)
  case (Cons q ps)
  have cut: "mset (pr_entities p) = add_mset (pr_entities p ! i) (mset (delete_at i (pr_entities p)))"
  proof -
    have "pr_entities p = take i (pr_entities p) @ pr_entities p ! i # drop (Suc i) (pr_entities p)"
      using assms(3) by (rule id_take_nth_drop)
    then have "mset (pr_entities p) = mset (take i (pr_entities p) @ pr_entities p ! i # drop (Suc i) (pr_entities p))" by simp
    then show ?thesis by (simp add: delete_at_def)
  qed
  show ?case
  proof (cases "pr_name q = s")
    case True
    then have "q = p" "change_peer s (\<lambda>p. p\<lparr> pr_entities := delete_at i (pr_entities p) \<rparr>) ps = ps"
      using Cons.prems by (auto simp: peer_of_def intro!: change_absent)
    then show ?thesis using True cut by (simp add: entities_of_def change_peer_def)
  next
    case False
    then show ?thesis using Cons by (simp add: entities_of_def change_peer_def peer_of_def)
  qed
qed (simp add: peer_of_def)

lemma offset_change:
  "offset_of (change_peer m (\<lambda>p. p\<lparr> pr_entities := f p \<rparr>) ps) n = offset_of ps n"
  "peer_of m ps \<noteq> None \<Longrightarrow> offset_of (change_peer m (\<lambda>p. p\<lparr> pr_offset := pr_offset p + d \<rparr>) ps) n = offset_of ps n + (if n = m then d else 0)"
  by (auto simp: offset_of_def peer_of_change split: option.split)

lemma levels_drop:
  assumes "distinct (map pr_name (ls_peers st))" "peer_of s (ls_peers st) = Some p" "i < length (pr_entities p)"
  shows "levels v st (drop_entity s i (st\<lparr> ls_calls := k \<rparr>))"
proof -
  have "total_offset (change_peer s (\<lambda>p. p\<lparr> pr_entities := delete_at i (pr_entities p) \<rparr>) ps) = total_offset ps" for ps
    by (induction ps) (simp_all add: total_offset_def change_peer_def)
  then show ?thesis using entities_drop [OF assms]
    by (simp add: levels_def moved_def drop_entity_def names_change offset_change)
qed

lemma levels_move:
  assumes d: "distinct (map pr_name (ls_peers st))" and p: "peer_of s (ls_peers st) = Some p" "pr_offset p > 0" "i < length (pr_entities p)"
    and t: "is_target info (ls_peers st) ns" "lb_info v k (pr_entities p ! i) = Inr info"
  shows "levels v st (record_move (pr_entities p ! i) s ns (drop_entity s i (st\<lparr> ls_calls := n \<rparr>)))"
proof -
  let ?ps = "change_peer s (\<lambda>p. p\<lparr> pr_entities := delete_at i (pr_entities p) \<rparr>) (ls_peers st)"
  let ?f = "change_peer ns (\<lambda>p. p\<lparr> pr_offset := pr_offset p + 1 \<rparr>) ?ps"
  let ?g = "change_peer s (\<lambda>p. p\<lparr> pr_offset := pr_offset p + (- 1) \<rparr>) ?f"
  obtain q where q: "peer_of ns (ls_peers st) = Some q" "pr_offset q < 0" "isInPeerGroup info ns" "ci_Leader info \<noteq> ns"
    using t(1) by (auto simp: is_target_def split: option.splits)
  then have ne: "s \<noteq> ns" using p by auto
  have new: "ls_peers (record_move (pr_entities p ! i) s ns (drop_entity s i (st\<lparr> ls_calls := n \<rparr>))) = ?g"
    by (simp add: record_move_def drop_entity_def)
  have present: "peer_of ns ?ps \<noteq> None" "peer_of s ?f \<noteq> None" using p(1) q(1) by (simp_all add: peer_of_change)
  have names: "map pr_name ?f = map pr_name (ls_peers st)" "map pr_name ?ps = map pr_name (ls_peers st)" by (simp_all add: names_change)
  have inset: "peer_of m ps \<noteq> None \<Longrightarrow> m \<in> set (map pr_name ps)" for m ps
    by (auto simp: peer_of_def find_Some_iff)
  have "total_offset ?g = total_offset ?f + (- 1)" by (rule total_change) (use d names inset [OF present(2)] in simp_all)
  moreover have "total_offset ?f = total_offset ?ps + 1" by (rule total_change) (use d names inset [OF present(1)] in simp_all)
  moreover have "total_offset ?ps = total_offset (ls_peers st)"
    using levels_drop [OF d p(1,3), of v n] by (simp add: levels_def drop_entity_def)
  moreover have "offset_of ?g m = offset_of (ls_peers st) m + (if m = ns then 1 else 0) + (if m = s then - 1 else 0)" for m
    unfolding offset_change(2) [OF present(2)] offset_change(2) [OF present(1)] offset_change(1) ..
  moreover have "offset_of (ls_peers st) s > 0" "offset_of (ls_peers st) ns < 0" using p(1,2) q(1,2) by (simp_all add: offset_of_def)
  ultimately have off: "total_offset ?g = total_offset (ls_peers st)"
    "min 0 (offset_of (ls_peers st) m) \<le> offset_of ?g m \<and> offset_of ?g m \<le> max 0 (offset_of (ls_peers st) m)" for m
    using ne by auto
  have "may_move v (pr_entities p ! i, s, ns)" using ne q t(2) by (auto simp: may_move_def)
  moreover have "entities_of (ls_peers st) = add_mset (pr_entities p ! i) (entities_of ?g)"
    using entities_drop [OF d p(1,3)] by (simp only: entities_offset)
  ultimately show ?thesis using off names unfolding levels_def moved_def new
    by (simp add: names_change record_move_def drop_entity_def)
qed

lemma levels_distinct: "levels v st st' \<Longrightarrow> distinct (map pr_name (ls_peers st')) \<longleftrightarrow> distinct (map pr_name (ls_peers st))"
  by (simp add: levels_def moved_def)

lemma move_loop_levels:
  "distinct (map pr_name (ls_peers st)) \<Longrightarrow> move_loop v s r st = Inr st' \<Longrightarrow> levels v st st'"
proof (induction v s r st rule: move_loop.induct)
  case (1 v s r st)
  show ?case
  proof (cases "peer_of s (ls_peers st)")
    case None
    then show ?thesis using "1.prems"(2) by (subst (asm) move_loop.simps) (simp add: levels_refl)
  next
    case (Some p)
    show ?thesis
    proof (cases "pr_offset p > 0 \<and> pr_entities p \<noteq> []")
      case False
      then show ?thesis using "1.prems"(2) Some by (subst (asm) move_loop.simps) (simp add: levels_refl)
    next
      case True
      let ?k = "ls_calls st" let ?i = "lb_rand v ?k mod length (pr_entities p)" let ?e = "pr_entities p ! ?i"
      let ?st1 = "drop_entity s ?i (st\<lparr> ls_calls := ?k + 1 \<rparr>)"
      have i: "?i < length (pr_entities p)" using True by simp
      have l1: "levels v st ?st1" by (rule levels_drop [OF "1.prems"(1) Some i])
      note d1 = "1.prems"(1) [folded levels_distinct [OF l1]]
      note run = "1.prems"(2) [unfolded move_loop.simps [of v s r st] Some Let_def]
      note IH = "1.IH" [OF Some _ refl refl refl refl]
      show ?thesis
      proof (cases "lb_info v ?k ?e")
        case (Inl er)
        then have "move_loop v s r ?st1 = Inr st'" using run True by simp
        then have "levels v ?st1 st'" using IH(1) True Inl d1 by simp
        then show ?thesis using levels_trans l1 by blast
      next
        case (Inr info)
        let ?find = "List.find (is_target info (ls_peers st)) (lb_order v ?k (map pr_name (ls_peers st)))"
        show ?thesis
        proof (cases ?find)
          case None
          then show ?thesis using run True Inr l1 by simp
        next
          case target: (Some ns)
          then have t: "is_target info (ls_peers st) ns" by (auto simp: find_Some_iff)
          show ?thesis
          proof (cases "lb_step v ?k ?e ns")
            case (Some err)
            have "levels v ?st1 (drop_entity s ?i ?st1)" if "?i < length (pr_entities p) - 1"
            proof -
              let ?p1 = "p\<lparr> pr_entities := delete_at ?i (pr_entities p) \<rparr>"
              have "peer_of s (ls_peers ?st1) = Some ?p1" using \<open>peer_of s (ls_peers st) = Some p\<close> by (simp add: drop_entity_def peer_of_change)
              moreover have "?i < length (pr_entities ?p1)" using that i by (simp add: length_delete_at)
              ultimately have "levels v ?st1 (drop_entity s ?i (?st1\<lparr> ls_calls := ls_calls ?st1 \<rparr>))" by (rule levels_drop [OF d1])
              then show ?thesis by simp
            qed
            moreover have "st' = (if ?i < length (pr_entities p) - 1 then drop_entity s ?i ?st1 else ?st1)"
              using run True Inr target Some by (auto split: if_splits)
            ultimately show ?thesis using l1 levels_trans by (auto split: if_splits)
          next
            case None
            let ?st2 = "record_move ?e s ns ?st1"
            have l2: "levels v st ?st2" by (rule levels_move [OF "1.prems"(1) \<open>peer_of s (ls_peers st) = Some p\<close> _ i t Inr]) (use True in simp)
            have "move_loop v s 0 ?st2 = Inr st'" using run True Inr target None by simp
            then have "levels v ?st2 st'" using IH(2) True Inr target None "1.prems"(1) levels_distinct [OF l2] by simp
            then show ?thesis using levels_trans l2 by blast
          qed
        qed
      qed
    qed
  qed
qed

text \<open>A failure to step down ends the work on that server; it is never the second.\<close>

lemma move_loop_no_error: "r = 0 \<Longrightarrow> \<exists>st'. move_loop v s r st = Inr st'"
proof (induction v s r st rule: move_loop.induct)
  case (1 v s r st)
  show ?case
    by (subst move_loop.simps) (use 1 in \<open>auto simp: Let_def split: option.split sum.split\<close>)
qed

subsection \<open>Runs\<close>

lemma run_servers_levels:
  "distinct (map pr_name (ls_peers st)) \<Longrightarrow> fold_err (run_server v) ns st = Inr st' \<Longrightarrow> levels v st st'"
proof (induction ns arbitrary: st)
  case (Cons n ns)
  obtain st1 where st1: "run_server v n st = Inr st1" "fold_err (run_server v) ns st1 = Inr st'"
    using Cons.prems(2) by (auto split: sum.splits)
  have l: "levels v st st1" using st1(1) Cons.prems(1) by (simp add: run_server_def move_loop_levels)
  then show ?case using Cons.IH [OF _ st1(2)] Cons.prems(1) levels_distinct [OF l] levels_trans by blast
qed (simp add: levels_refl)

lemma moved_distinct: "moved v st st' \<Longrightarrow> distinct (map pr_name (ls_peers st')) \<longleftrightarrow> distinct (map pr_name (ls_peers st))"
  by (simp add: moved_def)

lemma entities_calcLeaderOffset [simp]: "entities_of (calcLeaderOffset d ps) = entities_of ps"
  by (simp add: entities_of_def calcLeaderOffset_def comp_def)

lemma names_calcLeaderOffset [simp]: "map pr_name (calcLeaderOffset d ps) = map pr_name ps"
  by (simp add: calcLeaderOffset_def)

lemma balance_run_moved:
  assumes "distinct (map pr_name (ls_peers st))" "balance_run v share st = Inr st'"
  shows "moved v st st'"
proof -
  let ?st0 = "st\<lparr> ls_calls := ls_calls st + 1 \<rparr>"
  obtain st1 where st1: "fold_err (run_server v) (lb_order v (ls_calls st) (map pr_name (ls_peers st))) ?st0 = Inr st1"
    "st' = st1\<lparr> ls_peers := calcLeaderOffset share (ls_peers st1) \<rparr>"
    using assms(2) by (auto simp: balance_run_def split: sum.splits)
  have "levels v ?st0 st1" using st1(1) assms(1) by (intro run_servers_levels) simp_all
  then have "moved v ?st0 st1" by (simp add: levels_def)
  then show ?thesis using st1(2) unfolding moved_def by (simp del: map_eq_conv)
qed

lemma runs_moved:
  "distinct (map pr_name (ls_peers st)) \<Longrightarrow> fold_err (\<lambda>_. balance_run v share) is st = Inr st' \<Longrightarrow> moved v st st'"
proof (induction "is" arbitrary: st)
  case (Cons i "is")
  obtain st1 where st1: "balance_run v share st = Inr st1" "fold_err (\<lambda>_. balance_run v share) is st1 = Inr st'"
    using Cons.prems(2) by (auto split: sum.splits)
  have m: "moved v st st1" using Cons.prems(1) st1(1) by (rule balance_run_moved)
  then show ?case using Cons.IH [OF _ st1(2)] Cons.prems(1) moved_distinct [OF m] moved_trans by blast
qed (simp add: moved_refl)

subsection \<open>The clusters that are balanced\<close>

definition led :: "(string \<times> cluster) list \<Rightarrow> string multiset" where
  "led m = (\<Sum>(n, c) \<leftarrow> m. entities_of (cl_peers c))"

definition clusters_wf :: "(string \<times> cluster) list \<Rightarrow> bool" where
  "clusters_wf m \<longleftrightarrow> distinct (map fst m) \<and> (\<forall>(n, c) \<in> set m. distinct (map pr_name (cl_peers c)))"

lemma add_peer_facts [simp]:
  "entities_of (add_peer n ps) = entities_of ps"
  "distinct (map pr_name (add_peer n ps)) \<longleftrightarrow> distinct (map pr_name ps)"
  "n \<in> set (map pr_name (add_peer n ps))"
  by (auto simp: add_peer_def has_peer_def entities_of_def list_ex_iff)

lemma add_peers_facts [simp]:
  "entities_of (fold (\<lambda>r. add_peer (f r)) rs ps) = entities_of ps"
  "distinct (map pr_name (fold (\<lambda>r. add_peer (f r)) rs ps)) \<longleftrightarrow> distinct (map pr_name ps)"
  by (induction rs arbitrary: ps) simp_all

lemma entities_append:
  "distinct (map pr_name ps) \<Longrightarrow> n \<in> set (map pr_name ps) \<Longrightarrow>
   entities_of (change_peer n (\<lambda>p. p\<lparr> pr_entities := pr_entities p @ [e] \<rparr>) ps) = add_mset e (entities_of ps)"
proof (induction ps)
  case (Cons p ps)
  show ?case
  proof (cases "pr_name p = n")
    case True
    then have "change_peer n (\<lambda>p. p\<lparr> pr_entities := pr_entities p @ [e] \<rparr>) ps = ps" using Cons.prems(1) by (intro change_absent) auto
    then show ?thesis using True by (simp add: entities_of_def change_peer_def)
  next
    case False
    then show ?thesis using Cons by (simp add: entities_of_def change_peer_def)
  qed
qed simp

lemma led_update:
  "map_of m k = None \<Longrightarrow> led (AList.update k c m) = led m + entities_of (cl_peers c)"
  "map_of m k = Some c0 \<Longrightarrow> led (AList.update k c m) + entities_of (cl_peers c0) = led m + entities_of (cl_peers c)"
  by (induction m) (auto simp: led_def add_ac split: if_splits)

lemma createClusterMappings_wf:
  assumes "clusters_wf m"
  shows "clusters_wf (createClusterMappings e info m) \<and> led (createClusterMappings e info m) \<subseteq># add_mset e (led m)"
proof -
  define c where "c = (case map_of m (ci_Name info) of Some c \<Rightarrow> c | None \<Rightarrow> \<lparr> cl_name = ci_Name info, cl_peers = [], cl_balancedDistribution = 0 \<rparr>)"
  define l where "l = (if ci_Leader info = [] then cl_peers c
     else change_peer (ci_Leader info) (\<lambda>p. p\<lparr> pr_entities := pr_entities p @ [e] \<rparr>) (add_peer (ci_Leader info) (cl_peers c)))"
  define c1 where "c1 = c\<lparr> cl_peers := fold (\<lambda>r. add_peer (pi_Name r)) (ci_Replicas info) l \<rparr>"
  have new: "createClusterMappings e info m = AList.update (ci_Name info) c1 m"
    unfolding createClusterMappings_def c_def [symmetric] l_def [symmetric] Let_def c1_def ..
  have dc: "distinct (map pr_name (cl_peers c))"
    using assms by (auto simp: c_def clusters_wf_def dest: map_of_SomeD split: option.splits)
  have dl: "distinct (map pr_name l)" using dc by (simp add: l_def names_change)
  have el: "entities_of l \<subseteq># add_mset e (entities_of (cl_peers c))"
    using dc entities_append [OF _ add_peer_facts(3), of "ci_Leader info" "cl_peers c" e] by (simp add: l_def)
  have d1: "distinct (map pr_name (cl_peers c1))" and e1: "entities_of (cl_peers c1) = entities_of l"
    using dl by (simp_all add: c1_def)
  have "set (AList.update (ci_Name info) c1 m) \<subseteq> insert (ci_Name info, c1) (set m)"
    by (induction m) auto
  then have wf: "clusters_wf (AList.update (ci_Name info) c1 m)"
    using assms d1 by (auto simp: clusters_wf_def distinct_update)
  have "led (AList.update (ci_Name info) c1 m) \<subseteq># add_mset e (led m)"
  proof (cases "map_of m (ci_Name info)")
    case None
    then have "entities_of (cl_peers c) = {#}" by (simp add: c_def entities_of_def)
    then show ?thesis using el e1 None by (simp add: led_update(1))
  next
    case (Some c0)
    then have "led (AList.update (ci_Name info) c1 m) + entities_of (cl_peers c) = led m + entities_of (cl_peers c1)"
      by (simp add: c_def led_update(2))
    also have "\<dots> \<subseteq># led m + add_mset e (entities_of (cl_peers c))"
      using subset_mset.add_left_mono [OF el, of "led m"] e1 by simp
    finally have "led (AList.update (ci_Name info) c1 m) + entities_of (cl_peers c) \<subseteq># add_mset e (led m) + entities_of (cl_peers c)"
      by simp
    then show ?thesis by (simp only: mset_subset_eq_mono_add_right_cancel)
  qed
  then show ?thesis using wf new by simp
qed

lemma map_entities_wf:
  "clusters_wf m \<Longrightarrow> map_entities v k es m = Inr (k', m') \<Longrightarrow> clusters_wf m' \<and> led m' \<subseteq># mset es + led m"
proof (induction v k es m rule: map_entities.induct)
  case (2 v k e es m)
  obtain info where info: "lb_info v k e = Inr info" "map_entities v (k + 1) es (createClusterMappings e info m) = Inr (k', m')"
    using "2.prems"(2) by (auto split: sum.splits)
  note c = createClusterMappings_wf [OF "2.prems"(1), of e info]
  then have IH: "clusters_wf m' \<and> led m' \<subseteq># mset es + led (createClusterMappings e info m)"
    using "2.IH" [OF info(1) _ info(2)] by simp
  have "mset es + led (createClusterMappings e info m) \<subseteq># mset es + add_mset e (led m)"
    using c by (intro subset_mset.add_left_mono) simp
  then have "led m' \<subseteq># mset es + add_mset e (led m)"
    using IH subset_mset.order_trans by blast
  then show ?case using IH by simp
qed simp

text \<open>A walk over a map meets every key once.\<close>

definition walks :: "balancer_env \<Rightarrow> bool" where
  "walks v \<longleftrightarrow> (\<forall>k ns. mset (lb_order v k ns) = mset ns)"

lemma balance_clusters_moved:
  "distinct ns \<Longrightarrow> (\<And>n. n \<in> set ns \<Longrightarrow> distinct (map pr_name (cl_peers (g n)))) \<Longrightarrow>
   fold_err (\<lambda>n. balance_cluster v (g n)) ns (k, mv) = Inr (k', mv') \<Longrightarrow>
   \<exists>new. mv' = mv @ new \<and> list_all (may_move v) new \<and> mset (map fst new) \<subseteq># (\<Sum>n \<leftarrow> ns. entities_of (cl_peers (g n)))"
proof (induction ns arbitrary: k mv)
  case (Cons n ns)
  let ?st = "\<lparr> ls_peers = cl_peers (g n), ls_calls = k, ls_moves = [] \<rparr>"
  obtain st where st: "balance v (cl_balancedDistribution (g n)) ?st = Inr st"
    "fold_err (\<lambda>n. balance_cluster v (g n)) ns (ls_calls st, mv @ ls_moves st) = Inr (k', mv')"
    using Cons.prems(3)
    by (cases "balance v (cl_balancedDistribution (g n)) ?st") (simp_all add: balance_cluster_def [of v "g n"])
  have "moved v ?st st" using st(1) Cons.prems(2) unfolding balance_def by (intro runs_moved) simp_all
  then have here: "list_all (may_move v) (ls_moves st)"
    "entities_of (ls_peers st) + mset (map fst (ls_moves st)) \<subseteq># entities_of (cl_peers (g n))"
    by (auto simp: moved_def)
  from here(2) have took: "mset (map fst (ls_moves st)) \<subseteq># entities_of (cl_peers (g n))"
    using subset_mset.order_trans [OF mset_subset_eq_add_right] by blast
  obtain new where new: "mv' = (mv @ ls_moves st) @ new" "list_all (may_move v) new"
    "mset (map fst new) \<subseteq># (\<Sum>n \<leftarrow> ns. entities_of (cl_peers (g n)))"
    using Cons.IH [OF _ _ st(2)] Cons.prems(1,2) by auto
  have "mset (map fst (ls_moves st @ new)) \<subseteq># (\<Sum>n \<leftarrow> n # ns. entities_of (cl_peers (g n)))"
    using subset_mset.add_mono [OF took new(3)] by simp
  then show ?case using new(1,2) here(1) by (intro exI [of _ "ls_moves st @ new"]) simp
qed simp

subsection \<open>The properties\<close>

lemma prepared_clusters:
  assumes "clusters_wf m" "map_of m n = Some c"
  shows "cl_peers (the (map_of (map (\<lambda>(n, c). (n, prepare_cluster c)) m) n)) = calcLeaderOffset (calcClusterDistribution c) (cl_peers c)"
    "distinct (map pr_name (cl_peers c))"
proof -
  have "map_of (map (\<lambda>(n, c). (n, prepare_cluster c)) m) n = map_option prepare_cluster (map_of m n)" for m
    by (induction m) auto
  then show "cl_peers (the (map_of (map (\<lambda>(n, c). (n, prepare_cluster c)) m) n)) = calcLeaderOffset (calcClusterDistribution c) (cl_peers c)"
    using assms(2) by (simp add: prepare_cluster_def)
  show "distinct (map pr_name (cl_peers c))" using assms map_of_SomeD unfolding clusters_wf_def by fastforce
qed

lemma led_by_names:
  "distinct (map fst m) \<Longrightarrow> led m = (\<Sum>n \<leftarrow> map fst m. entities_of (cl_peers (the (map_of m n))))"
proof (induction m)
  case (Cons x m)
  have "map_of (x # m) n = map_of m n" if "n \<in> set (map fst m)" for n
    using that Cons.prems by (cases x) auto
  then have "(\<Sum>n \<leftarrow> map fst m. entities_of (cl_peers (the (map_of (x # m) n)))) = (\<Sum>n \<leftarrow> map fst m. entities_of (cl_peers (the (map_of m n))))"
    by (intro arg_cong [where f = sum_list] map_cong refl) simp
  then show ?case using Cons by (simp add: led_def case_prod_unfold)
qed (simp add: led_def)

lemma led_prepared:
  assumes wf: "clusters_wf m" and ns: "mset ns = mset (map fst m)"
  shows "(\<Sum>n \<leftarrow> ns. entities_of (cl_peers (the (map_of (map (\<lambda>(n, c). (n, prepare_cluster c)) m) n)))) = led m"
proof -
  let ?g = "\<lambda>n. entities_of (cl_peers (the (map_of (map (\<lambda>(n, c). (n, prepare_cluster c)) m) n)))"
  have "sum_list (map ?g ns) = sum_mset (mset (map ?g ns))" by (simp only: sum_mset_sum_list)
  also have "\<dots> = sum_mset (mset (map ?g (map fst m)))" using ns by (simp only: mset_map)
  also have "\<dots> = sum_list (map ?g (map fst m))" by (simp only: sum_mset_sum_list)
  also have "map ?g (map fst m) = map (\<lambda>n. entities_of (cl_peers (the (map_of m n)))) (map fst m)"
  proof (rule map_cong [OF refl])
    fix n assume "n \<in> set (map fst m)"
    then obtain c where "map_of m n = Some c" by (auto simp: weak_map_of_SomeI dest: weak_map_of_SomeI)
    then show "?g n = entities_of (cl_peers (the (map_of m n)))" using prepared_clusters(1) [OF wf, of n c] by simp
  qed
  finally show ?thesis using wf led_by_names by (simp add: clusters_wf_def)
qed

text \<open>C31. Balancing asks for moves that are possible: every move goes to another server that holds a
  replica of the entity and does not lead it; the count returned is the number of moves, and no
  entity is moved more often than it was given.\<close>

theorem balance_moves_replicas:
  assumes "walks v" "BalanceEntities v es = Inr (n, moves)"
  shows "n = length moves \<and> list_all (may_move v) moves \<and> mset (map fst moves) \<subseteq># mset es"
proof -
  obtain k m where m: "map_entities v 0 es [] = Inr (k, m)" using assms(2) by (auto simp: BalanceEntities_def split: sum.splits)
  let ?m1 = "map (\<lambda>(n, c). (n, prepare_cluster c)) m" let ?ns = "lb_order v k (map fst ?m1)"
  obtain k' where run: "fold_err (\<lambda>n. balance_cluster v (the (map_of ?m1 n))) ?ns (k + 1, []) = Inr (k', moves)" and n: "n = length moves"
    using assms(2) m by (auto simp: BalanceEntities_def Let_def split: sum.splits)
  have wf: "clusters_wf m" "led m \<subseteq># mset es"
    using map_entities_wf [OF _ m] by (simp_all add: clusters_wf_def led_def)
  have names: "map fst ?m1 = map fst m" by (simp add: case_prod_unfold)
  have ns: "mset ?ns = mset (map fst m)" using assms(1) names unfolding walks_def by metis
  have d: "distinct ?ns" using ns wf(1) unfolding clusters_wf_def by (metis mset_eq_imp_distinct_iff)
  have peers: "distinct (map pr_name (cl_peers (the (map_of ?m1 n))))" if "n \<in> set ?ns" for n
  proof -
    have "n \<in> set (map fst m)" using that ns by (metis set_mset_mset)
    then obtain c where "map_of m n = Some c" by (auto dest: weak_map_of_SomeI)
    then show ?thesis using prepared_clusters [OF wf(1), of n c] by (simp del: map_map)
  qed
  obtain new where "moves = [] @ new" "list_all (may_move v) new"
    "mset (map fst new) \<subseteq># (\<Sum>n \<leftarrow> ?ns. entities_of (cl_peers (the (map_of ?m1 n))))"
    using balance_clusters_moved [OF d peers run] by blast
  then show ?thesis using n wf led_prepared [OF wf(1) ns] subset_mset.order_trans by auto
qed

definition cluster_info :: "string \<Rightarrow> string \<Rightarrow> string list \<Rightarrow> ClusterInfo" where
  "cluster_info name leader replicas =
     \<lparr> ci_Name = name, ci_RaftGroup = [], ci_Leader = leader, ci_LeaderSince = None, ci_SystemAcc = False, ci_TrafficAcc = [],
       ci_Replicas = map (\<lambda>r. \<lparr> pi_Name = r, pi_Current = True, pi_Offline = False, pi_Active = 0, pi_Lag = 0, pi_Peer = [], pi_Pending = False \<rparr>) replicas,
       ci_Desired = None \<rparr>"

text \<open>Entities named after their leader: those of A have their replica on B, the others on A.\<close>

definition skewed :: balancer_env where
  "skewed = \<lparr> lb_info = \<lambda>_ e. if e = [] then Inl ''not found''
       else Inr (cluster_info ''C'' [hd e] (if hd e = CHR ''A'' then [''B''] else [''A''])),
     lb_step = \<lambda>_ _ _. None, lb_rand = \<lambda>_. 0, lb_order = \<lambda>_ ns. ns \<rparr>"

definition skewed_entities :: "string list" where
  "skewed_entities = [''A1'', ''A2'', ''A3'', ''A4'', ''A5'', ''A6'', ''B1'', ''B2'', ''D1'']"

lemma skewed_balances: "BalanceEntities skewed skewed_entities = Inr (2, [(''A1'', ''A'', ''B''), (''A3'', ''A'', ''B'')])"
  by code_simp

theorem balance_moves_replicas_witness:
  "list_all (may_move skewed) [(''A1'', ''A'', ''B''), (''A3'', ''A'', ''B'')] \<and> mset [''A1'', ''A3''] \<subseteq># mset skewed_entities"
  using balance_moves_replicas [OF _ skewed_balances] by (simp add: walks_def skewed_def)

subsection \<open>What a server gives\<close>

definition gave :: "string \<Rightarrow> lb_state \<Rightarrow> nat" where
  "gave s st = length (filter (\<lambda>(e, f, t). f = s) (ls_moves st))"

text \<open>
  A server that had \<open>cap\<close> entities: those it gave and those still on its list, and those it gave and
  its offset, as long as it is positive. The list only shrinks, also by entities that were not moved.
\<close>

definition spends :: "string \<Rightarrow> nat \<Rightarrow> nat \<Rightarrow> lb_state \<Rightarrow> bool" where
  "spends s share cap st \<longleftrightarrow> gave s st + entity_count s st \<le> cap \<and>
     int (gave s st) + max 0 (offset_of (ls_peers st) s) \<le> max 0 (int cap - int share)"

lemma spends_drop:
  assumes "spends q share cap st" shows "spends q share cap (drop_entity s i (st\<lparr> ls_calls := k \<rparr>))"
proof -
  have "entity_count q (drop_entity s i (st\<lparr> ls_calls := k \<rparr>)) \<le> entity_count q st"
    by (auto simp: entity_count_def drop_entity_def peer_of_change delete_at_def split: option.split)
  then show ?thesis using assms by (simp add: spends_def gave_def drop_entity_def offset_change)
qed

lemma spends_move:
  assumes sp: "spends q share cap st" and p: "peer_of s (ls_peers st) = Some p" "pr_offset p > 0" "i < length (pr_entities p)"
    and t: "is_target info (ls_peers st) ns"
  shows "spends q share cap (record_move e s ns (drop_entity s i (st\<lparr> ls_calls := k \<rparr>)))"
proof -
  let ?ps = "change_peer s (\<lambda>p. p\<lparr> pr_entities := delete_at i (pr_entities p) \<rparr>) (ls_peers st)"
  let ?f = "change_peer ns (\<lambda>p. p\<lparr> pr_offset := pr_offset p + 1 \<rparr>) ?ps"
  let ?st = "drop_entity s i (st\<lparr> ls_calls := k \<rparr>)" and ?new = "record_move e s ns (drop_entity s i (st\<lparr> ls_calls := k \<rparr>))"
  obtain r where r: "peer_of ns (ls_peers st) = Some r" "pr_offset r < 0" using t by (auto simp: is_target_def split: option.splits)
  then have ne: "s \<noteq> ns" using p by auto
  have new: "ls_peers ?new = change_peer s (\<lambda>p. p\<lparr> pr_offset := pr_offset p + (- 1) \<rparr>) ?f" by (simp add: record_move_def drop_entity_def)
  have present: "peer_of ns ?ps \<noteq> None" "peer_of s ?f \<noteq> None" using p(1) r(1) by (simp_all add: peer_of_change)
  have off: "offset_of (ls_peers ?new) q = offset_of (ls_peers st) q + (if q = ns then 1 else 0) + (if q = s then - 1 else 0)"
    unfolding new offset_change(2) [OF present(2)] offset_change(2) [OF present(1)] offset_change(1) ..
  have gave: "gave q ?new = gave q st + (if q = s then 1 else 0)" by (simp add: gave_def record_move_def drop_entity_def)
  have "entity_count q ?new = entity_count q ?st" by (simp add: entity_count_def record_move_def peer_of_change split: option.split)
  also have "\<dots> = entity_count q st - (if q = s then 1 else 0)"
    using p by (auto simp: entity_count_def drop_entity_def peer_of_change length_delete_at split: option.split)
  finally have count: "entity_count q ?new = entity_count q st - (if q = s then 1 else 0)" .
  have "entity_count s st > 0" using p by (auto simp: entity_count_def)
  moreover have "offset_of (ls_peers st) s > 0" "offset_of (ls_peers st) ns < 0" using p r by (simp_all add: offset_of_def)
  ultimately show ?thesis using sp ne unfolding spends_def off gave count by auto
qed

lemma move_loop_spends:
  "spends q share cap st \<Longrightarrow> move_loop v s r st = Inr st' \<Longrightarrow> spends q share cap st'"
proof (induction v s r st rule: move_loop.induct)
  case (1 v s r st)
  show ?case
  proof (cases "peer_of s (ls_peers st)")
    case None
    then show ?thesis using "1.prems"(2) by (subst (asm) move_loop.simps) (use "1.prems"(1) in auto)
  next
    case p: (Some p)
    show ?thesis
    proof (cases "pr_offset p > 0 \<and> pr_entities p \<noteq> []")
      case False
      then show ?thesis using "1.prems"(2) p by (subst (asm) move_loop.simps) (use "1.prems"(1) in auto)
    next
      case True
      let ?k = "ls_calls st" let ?i = "lb_rand v ?k mod length (pr_entities p)" let ?e = "pr_entities p ! ?i"
      let ?st1 = "drop_entity s ?i (st\<lparr> ls_calls := ?k + 1 \<rparr>)"
      have s1: "spends q share cap ?st1" by (rule spends_drop [OF "1.prems"(1)])
      have "spends q share cap (drop_entity s ?i (?st1\<lparr> ls_calls := ls_calls ?st1 \<rparr>))" by (rule spends_drop [OF s1])
      then have s2: "spends q share cap (drop_entity s ?i ?st1)" by simp
      have s3: "spends q share cap (record_move ?e s ns ?st1)" if "is_target info (ls_peers st) ns" for info ns
        by (rule spends_move [OF "1.prems"(1) p _ _ that]) (use True in simp_all)
      note run = "1.prems"(2) [unfolded move_loop.simps [of v s r st] p Let_def]
      note IH = "1.IH" [OF p _ refl refl refl refl]
      show ?thesis
      proof (cases "lb_info v ?k ?e")
        case (Inl er)
        then show ?thesis using IH(1) True s1 run by simp
      next
        case (Inr info)
        show ?thesis
        proof (cases "List.find (is_target info (ls_peers st)) (lb_order v ?k (map pr_name (ls_peers st)))")
          case None
          then show ?thesis using run True Inr s1 by simp
        next
          case target: (Some ns)
          then have "is_target info (ls_peers st) ns" by (auto simp: find_Some_iff)
          then show ?thesis using run True Inr target s1 s2 s3 IH(2) [OF _ Inr target]
            by (cases "lb_step v ?k ?e ns") (auto split: if_splits)
        qed
      qed
    qed
  qed
qed

lemma run_servers_spends:
  "spends q share cap st \<Longrightarrow> fold_err (run_server v) ns st = Inr st' \<Longrightarrow> spends q share cap st'"
proof (induction ns arbitrary: st)
  case (Cons n ns)
  then obtain st1 where "run_server v n st = Inr st1" "fold_err (run_server v) ns st1 = Inr st'"
    by (auto split: sum.splits)
  then show ?case using Cons move_loop_spends unfolding run_server_def by blast
qed simp

lemma peer_of_calcLeaderOffset:
  "peer_of s (calcLeaderOffset d ps) = map_option (\<lambda>p. p\<lparr> pr_offset := int (length (pr_entities p)) - int d \<rparr>) (peer_of s ps)"
  unfolding peer_of_def calcLeaderOffset_def by (induction ps) auto

lemma spends_calcLeaderOffset:
  assumes "gave s st + entity_count s st \<le> cap" and "int (gave s st) \<le> max 0 (int cap - int share)"
  shows "spends s share cap (st\<lparr> ls_peers := calcLeaderOffset share (ls_peers st) \<rparr>)"
  using assms by (cases "peer_of s (ls_peers st)")
    (auto simp: spends_def gave_def entity_count_def offset_of_def peer_of_calcLeaderOffset)

lemma balance_run_spends:
  assumes "spends q share cap st" "balance_run v share st = Inr st'"
  shows "spends q share cap st'"
proof -
  let ?st0 = "st\<lparr> ls_calls := ls_calls st + 1 \<rparr>"
  obtain st1 where st1: "fold_err (run_server v) (lb_order v (ls_calls st) (map pr_name (ls_peers st))) ?st0 = Inr st1"
    "st' = st1\<lparr> ls_peers := calcLeaderOffset share (ls_peers st1) \<rparr>"
    using assms(2) by (auto simp: balance_run_def split: sum.splits)
  have "spends q share cap ?st0" using assms(1) by (simp add: spends_def gave_def entity_count_def)
  from run_servers_spends [OF this st1(1)] show ?thesis
    unfolding st1(2) by (intro spends_calcLeaderOffset) (auto simp: spends_def)
qed

lemma runs_spends:
  "spends q share cap st \<Longrightarrow> fold_err (\<lambda>_. balance_run v share) is st = Inr st' \<Longrightarrow> spends q share cap st'"
proof (induction "is" arbitrary: st)
  case (Cons i "is")
  then obtain st1 where "balance_run v share st = Inr st1" "fold_err (\<lambda>_. balance_run v share) is st1 = Inr st'"
    by (auto split: sum.splits)
  then show ?case using Cons balance_run_spends by blast
qed simp

text \<open>
  C32. Balancing a cluster, all runs together and the offsets computed anew after each, takes from no server
  more leaders than it has above the share: as many moves leave a server as it led entities beyond the share
  at most, and none when it led no more than the share. (A server that receives leaders can end above the
  share: \<open>balancing_overshoots\<close>.)
\<close>

theorem only_surplus_leaves:
  assumes "balance v share \<lparr> ls_peers = calcLeaderOffset share ps, ls_calls = k, ls_moves = [] \<rparr> = Inr st"
  shows "length (filter (\<lambda>(e, source, target). source = s) (ls_moves st)) \<le>
    (case peer_of s ps of None \<Rightarrow> 0 | Some p \<Rightarrow> length (pr_entities p) - share)"
proof -
  let ?cap = "case peer_of s ps of None \<Rightarrow> 0 | Some p \<Rightarrow> length (pr_entities p)"
  have "spends s share ?cap \<lparr> ls_peers = calcLeaderOffset share ps, ls_calls = k, ls_moves = [] \<rparr>"
    by (auto simp: spends_def gave_def entity_count_def offset_of_def peer_of_calcLeaderOffset split: option.split)
  from runs_spends [OF this assms [unfolded balance_def]]
  show ?thesis by (cases "peer_of s ps") (auto simp: spends_def gave_def)
qed

definition skewed_peers :: "peer list" where
  "skewed_peers = [\<lparr> pr_name = ''A'', pr_entities = [''A1'', ''A2'', ''A3''], pr_offset = 0 \<rparr>,
     \<lparr> pr_name = ''B'', pr_entities = [''B1''], pr_offset = 0 \<rparr>]"

theorem only_surplus_leaves_witness:
  "\<exists>st. balance skewed 2 \<lparr> ls_peers = calcLeaderOffset 2 skewed_peers, ls_calls = 0, ls_moves = [] \<rparr> = Inr st \<and>
     ls_moves st \<noteq> [] \<and> length (filter (\<lambda>(e, source, target). source = ''A'') (ls_moves st)) \<le> 1"
proof -
  let ?b = "balance skewed 2 \<lparr> ls_peers = calcLeaderOffset 2 skewed_peers, ls_calls = 0, ls_moves = [] \<rparr>"
  have "case ?b of Inl _ \<Rightarrow> False | Inr st \<Rightarrow> ls_moves st \<noteq> []" by code_simp
  then obtain st where st: "?b = Inr st" "ls_moves st \<noteq> []" by (auto split: sum.splits)
  from only_surplus_leaves [OF st(1), of "''A''"] show ?thesis using st by (simp add: skewed_peers_def peer_of_def)
qed

lemma run_server_returns: "\<exists>st'. fold_err (run_server v) ns st = Inr st'"
proof (induction ns arbitrary: st)
  case (Cons n ns)
  obtain st1 where "run_server v n st = Inr st1" using move_loop_no_error unfolding run_server_def by blast
  then show ?case using Cons by simp
qed simp

lemma balance_returns: "\<exists>st'. balance v share st = Inr st'"
proof -
  have one: "\<exists>st'. balance_run v share st = Inr st'" for st
    using run_server_returns [of v] unfolding balance_run_def by (metis old.sum.simps(6))
  have "\<exists>st'. fold_err (\<lambda>_. balance_run v share) is st = Inr st'" for "is"
  proof (induction "is" arbitrary: st)
    case (Cons i "is")
    obtain st1 where "balance_run v share st = Inr st1" using one by blast
    then show ?case using Cons by simp
  qed simp
  then show ?thesis unfolding balance_def .
qed

text \<open>
  A comment in the code says that a second failure to step down makes the balancer return an error. The
  counter of failures starts anew with every visit of a server, and the visit ends at its first failure, so
  the balancer fails exactly when describing the entities fails at the start.
\<close>

lemma step_down_failures_ignored: "BalanceEntities v es = Inl e \<longleftrightarrow> map_entities v 0 es [] = Inl e"
proof (cases "map_entities v 0 es []")
  case (Inr km)
  have never: "fold_err (\<lambda>n. balance_cluster v (g n)) ns s \<noteq> Inl er" for ns s g er
  proof (induction ns arbitrary: s)
    case (Cons n ns)
    obtain st where "balance v (cl_balancedDistribution (g n)) \<lparr> ls_peers = cl_peers (g n), ls_calls = fst s, ls_moves = [] \<rparr> = Inr st"
      using balance_returns by blast
    then show ?case using Cons by (simp add: balance_cluster_def [of v "g n"])
  qed simp
  obtain k m where km: "km = (k, m)" by (cases km)
  let ?m1 = "map (\<lambda>(n, c). (n, prepare_cluster c)) m"
  note never = never [of "\<lambda>n. the (map_of ?m1 n)" "lb_order v k (map fst ?m1)" "(k + 1, [])" e]
  show ?thesis
    using Inr km never by (cases "fold_err (\<lambda>n. balance_cluster v (the (map_of ?m1 n))) (lb_order v k (map fst ?m1)) (k + 1, [])")
      (auto simp: BalanceEntities_def Let_def)
qed (simp add: BalanceEntities_def)

text \<open>Who leads after the moves, when every entity went where it was asked to go.\<close>

definition leads_after :: "balancer_env \<Rightarrow> string list \<Rightarrow> (string \<times> string \<times> string) list \<Rightarrow> string \<Rightarrow> int" where
  "leads_after v es moves s =
     int (length (filter (\<lambda>e. case lb_info v 0 e of Inl _ \<Rightarrow> False | Inr i \<Rightarrow> ci_Leader i = s) es)) +
     int (length (filter (\<lambda>(e, f, t). t = s) moves)) - int (length (filter (\<lambda>(e, f, t). f = s) moves))"

text \<open>The offsets are computed anew after every run from lists that do not gain what was moved in, so a
  server below the even share can be pushed above it although every move is carried out.\<close>

lemma balancing_overshoots:
  "\<exists>moves c. BalanceEntities skewed skewed_entities = Inr (length moves, moves) \<and>
     map_entities skewed 0 skewed_entities [] = Inr (9, [(''C'', c)]) \<and>
     leads_after skewed skewed_entities [] ''B'' < int (calcClusterDistribution c) \<and>
     int (calcClusterDistribution c) < leads_after skewed skewed_entities moves ''B''"
proof -
  let ?c = "snd (hd (snd (projr (map_entities skewed 0 skewed_entities []))))"
  have "map_entities skewed 0 skewed_entities [] = Inr (9, [(''C'', ?c)])" by code_simp
  moreover have "leads_after skewed skewed_entities [] ''B'' < int (calcClusterDistribution ?c)" by code_simp
  moreover have "int (calcClusterDistribution ?c) < leads_after skewed skewed_entities [(''A1'', ''A'', ''B''), (''A3'', ''A'', ''B'')] ''B''" by code_simp
  moreover have "BalanceEntities skewed skewed_entities = Inr (length [(''A1'', ''A'', ''B''), (''A3'', ''A'', ''B'')], [(''A1'', ''A'', ''B''), (''A3'', ''A'', ''B'')])"
    using skewed_balances by simp
  ultimately show ?thesis by blast
qed

end
