(* ===== verification/Float64.thy ===== *)
theory Float64
  imports Prelude Complex_Main
begin

text \<open>
  The float64 arithmetic the monitors and \<open>ParseDuration\<close> use: a finite float64 is the rational it
  stands for, and every operation rounds its exact result to the nearest one, ties to even.
  Infinities and NaN are not here: \<open>too_large\<close> is where rounding gives an infinity.
\<close>

text \<open>The exponent of the leading bit of a positive rational.\<close>

fun bit_count :: "int \<Rightarrow> nat" where
  "bit_count n = (if n \<le> 0 then 0 else Suc (bit_count (n div 2)))"

declare bit_count.simps [simp del]

definition binexp :: "rat \<Rightarrow> int" where
  "binexp x =
     (case quotient_of x of
        (a, b) \<Rightarrow> (let k = int (bit_count a) - int (bit_count b) in if 2 powi k \<le> x then k else k - 1))"

definition round_even :: "rat \<Rightarrow> int" where
  "round_even r =
     (let f = \<lfloor>r\<rfloor>; d = r - of_int f
      in if d < 1 / 2 then f else if d > 1 / 2 then f + 1 else if f mod 2 = 0 then f else f + 1)"

definition float64 :: "rat \<Rightarrow> rat" where
  "float64 x =
     (if x = 0 then 0
      else (let e = max (binexp \<bar>x\<bar> - 52) (- 1074) in of_int (round_even (x / 2 powi e)) * 2 powi e))"

definition too_large :: "rat \<Rightarrow> bool" where
  "too_large x \<longleftrightarrow> x \<noteq> 0 \<and> binexp \<bar>float64 x\<bar> \<ge> 1024"

text \<open>\<open>float64(i)\<close> of an integer.\<close>

definition to_float :: "int \<Rightarrow> rat" where
  "to_float i = float64 (of_int i)"

text \<open>\<open>int64(f)\<close> of a value in range: towards zero.\<close>

definition truncate_int :: "rat \<Rightarrow> int" where
  "truncate_int x = (if x < 0 then \<lceil>x\<rceil> else \<lfloor>x\<rfloor>)"

lemma round_even_int [simp]: "round_even (of_int n) = n"
  by (simp add: round_even_def)

lemma truncate_int_of_int [simp]: "truncate_int (of_int n) = n"
  by (simp add: truncate_int_def)

lemma bit_count_bounds:
  assumes "0 < n"
  shows "2 ^ (bit_count n - 1) \<le> n \<and> n < 2 ^ bit_count n \<and> bit_count n > 0"
  using assms
proof (induction n rule: bit_count.induct)
  case (1 n)
  have step: "bit_count n = Suc (bit_count (n div 2))" using 1(2) by (subst bit_count.simps) simp
  show ?case
  proof (cases "n = 1")
    case False
    then have "0 < n div 2" using 1(2) by simp
    then have IH: "2 ^ (bit_count (n div 2) - 1) \<le> n div 2" "n div 2 < 2 ^ bit_count (n div 2)" "bit_count (n div 2) > 0"
      using 1 by auto
    obtain k where k: "bit_count (n div 2) = Suc k" using IH(3) by (cases "bit_count (n div 2)") auto
    have "2 * 2 ^ k \<le> n" "n < 2 * 2 ^ Suc k" using IH k by auto
    then show ?thesis by (simp add: step k)
  qed (simp add: step bit_count.simps)
qed

lemma binexp_bounds:
  assumes "0 < x"
  shows "2 powi (binexp x) \<le> x" "x < 2 powi (binexp x + 1)"
proof -
  obtain a b where q: "quotient_of x = (a, b)" by (cases "quotient_of x")
  have b: "b > 0" using q quotient_of_denom_pos by blast
  have x: "x = of_int a / of_int b" using q quotient_of_div by blast
  then have a: "a > 0" using assms b by (simp add: zero_less_divide_iff)
  let ?la = "int (bit_count a)" let ?lb = "int (bit_count b)"
  have two: "of_int (2 ^ n) = (2 :: rat) powi int n" for n by simp
  have hi: "(of_int a :: rat) < 2 powi ?la" "(of_int b :: rat) < 2 powi ?lb"
    using conjunct1 [OF conjunct2 [OF bit_count_bounds [OF a]]] conjunct1 [OF conjunct2 [OF bit_count_bounds [OF b]]] two by (metis of_int_less_iff)+
  have pow: "int (bit_count n - 1) = int (bit_count n) - 1" if "0 < n" for n using bit_count_bounds [OF that] by simp
  have lo: "(2 :: rat) powi (?la - 1) \<le> of_int a" "(2 :: rat) powi (?lb - 1) \<le> of_int b"
    using conjunct1 [OF bit_count_bounds [OF a]] conjunct1 [OF bit_count_bounds [OF b]] two pow [OF a] pow [OF b] by (metis of_int_le_iff)+
  have up: "x < 2 powi (?la - ?lb + 1)"
  proof -
    have "x \<le> of_int a / 2 powi (?lb - 1)" unfolding x using a b lo(2) by (intro divide_left_mono) (auto intro!: mult_pos_pos)
    also have "\<dots> < 2 powi ?la / 2 powi (?lb - 1)" using hi(1) by (intro divide_strict_right_mono) auto
    also have "\<dots> = 2 powi (?la - (?lb - 1))" by (subst power_int_diff) simp_all
    finally show ?thesis by (simp add: algebra_simps)
  qed
  have low: "2 powi (?la - ?lb - 1) \<le> x"
  proof -
    have "2 powi (?la - ?lb - 1) = (2 :: rat) powi (?la - 1 - ?lb)" by (simp add: algebra_simps)
    also have "\<dots> = 2 powi (?la - 1) / 2 powi ?lb" by (subst power_int_diff) simp_all
    also have "\<dots> \<le> of_int a / 2 powi ?lb" using lo(1) by (intro divide_right_mono) auto
    also have "\<dots> \<le> x" unfolding x using a b hi(2) by (intro divide_left_mono) (auto intro!: mult_pos_pos)
    finally show ?thesis .
  qed
  show "2 powi (binexp x) \<le> x" "x < 2 powi (binexp x + 1)"
    using up low by (auto simp: binexp_def q Let_def)
qed

text \<open>What has at most 53 significant bits is not rounded.\<close>

theorem float64_exact:
  assumes x: "x = of_int m * 2 powi k" and m: "\<bar>m\<bar> \<le> 2 ^ 53" and k: "- 1074 \<le> k"
  shows "float64 x = x"
proof (cases "x = 0")
  case False
  let ?b = "binexp \<bar>x\<bar>" let ?e = "max (?b - 52) (- 1074)"
  have ax: "\<bar>x\<bar> = of_int \<bar>m\<bar> * 2 powi k" by (simp add: x abs_mult)
  have lo: "2 powi ?b \<le> \<bar>x\<bar>" using False by (intro binexp_bounds(1)) simp
  have "\<exists>n. x / 2 powi ?e = of_int n"
  proof (cases "?e \<le> k")
    case True
    have "x / 2 powi ?e = of_int m * 2 powi (k - ?e)" by (simp add: x power_int_diff)
    also have "\<dots> = of_int (m * 2 ^ nat (k - ?e))" using True by (simp add: power_int_def)
    finally show ?thesis by blast
  next
    case beyond: False
    then have e: "?e = ?b - 52" using k by auto
    have "(of_int \<bar>m\<bar> :: rat) \<le> 2 powi 53" using m by (simp add: power_int_def flip: of_int_abs)
    then have "\<bar>x\<bar> \<le> 2 powi 53 * 2 powi k" unfolding ax by (intro mult_right_mono) simp_all
    also have "\<dots> = 2 powi (53 + k)" by (simp add: power_int_add)
    finally have "(2 :: rat) powi ?b \<le> 2 powi (53 + k)" using lo by simp
    then have "?b \<le> 53 + k" using power_int_strict_increasing [of "53 + k" ?b "2 :: rat"] by linarith
    then have b: "?b = k + 53" using beyond e by simp
    then have "2 powi (53 + k) \<le> of_int \<bar>m\<bar> * (2 :: rat) powi k" using lo ax by (simp add: add.commute)
    then have "2 powi 53 \<le> (of_int \<bar>m\<bar> :: rat)" by (simp add: power_int_add)
    then have "2 ^ 53 \<le> \<bar>m\<bar>" by (simp add: power_int_def flip: of_int_abs)
    then have "\<bar>m\<bar> = 2 ^ 53" using m by simp
    then have sign: "m = 2 ^ 53 \<or> m = - (2 ^ 53)" by linarith
    have "?e = k + 1" using e b by simp
    then have "(2 :: rat) powi ?e = 2 powi k * 2" by (simp add: power_int_add)
    then have half: "x / 2 powi ?e = of_int m / 2" by (simp add: x)
    from sign show ?thesis
    proof
      assume "m = 2 ^ 53"
      then have "x / 2 powi ?e = of_int (2 ^ 52)" unfolding half by simp
      then show ?thesis ..
    next
      assume "m = - (2 ^ 53)"
      then have "x / 2 powi ?e = of_int (- (2 ^ 52))" unfolding half by simp
      then show ?thesis ..
    qed
  qed
  then obtain n where n: "x / 2 powi ?e = of_int n" by blast
  then have "x = of_int n * 2 powi ?e" by (simp add: field_simps)
  then show ?thesis using False n by (simp add: float64_def Let_def)
qed (simp add: float64_def)

lemma float64_int: "\<bar>n\<bar> \<le> 2 ^ 53 \<Longrightarrow> float64 (of_int n) = of_int n"
  by (rule float64_exact [of _ n 0]) simp_all

lemma round_even_mono: "r \<le> s \<Longrightarrow> round_even r \<le> round_even s"
proof -
  assume le: "r \<le> s"
  have f: "\<lfloor>r\<rfloor> \<le> \<lfloor>s\<rfloor>" using le by (rule floor_mono)
  show ?thesis
  proof (cases "\<lfloor>r\<rfloor> = \<lfloor>s\<rfloor>")
    case True
    then show ?thesis using le by (auto simp: round_even_def Let_def)
  next
    case False
    then have "\<lfloor>r\<rfloor> + 1 \<le> \<lfloor>s\<rfloor>" using f by simp
    then show ?thesis by (simp add: round_even_def Let_def)
  qed
qed

lemma float64_nonneg: "0 \<le> x \<Longrightarrow> 0 \<le> float64 x"
  using round_even_mono [of 0 "x / 2 powi (max (binexp \<bar>x\<bar> - 52) (- 1074))"] round_even_int [of 0]
  by (simp add: float64_def Let_def)

lemma truncate_int_nonneg: "0 \<le> x \<Longrightarrow> 0 \<le> truncate_int x"
  by (simp add: truncate_int_def)

text \<open>Rounding does not fall below a power of two.\<close>

lemma float64_ge:
  assumes "2 ^ k \<le> x" shows "2 ^ k \<le> float64 x"
proof -
  let ?b = "binexp x" and ?e = "binexp x - 52"
  have x: "0 < x" using assms by (rule less_le_trans [rotated]) simp
  have "(2 :: rat) powi int k \<le> x" using assms by simp
  then have low: "(2 :: rat) powi int k < 2 powi (?b + 1)" using binexp_bounds(2) [OF x] by simp
  have k: "int k \<le> ?b"
  proof (rule ccontr)
    assume "\<not> int k \<le> ?b"
    then have "(2 :: rat) powi (?b + 1) \<le> 2 powi int k" by (intro power_int_increasing) simp_all
    then show False using low by simp
  qed
  have split: "(2 :: rat) powi ?b = 2 ^ 52 * 2 powi ?e"
    using power_int_add [of "2 :: rat" 52 ?e] by simp
  have "(2 :: rat) ^ 52 \<le> x / 2 powi ?e" using binexp_bounds(1) [OF x] by (simp add: split pos_le_divide_eq)
  then have "round_even (of_int (2 ^ 52)) \<le> round_even (x / 2 powi ?e)" by (intro round_even_mono) simp
  then have "(2 :: int) ^ 52 \<le> round_even (x / 2 powi ?e)" by (simp only: round_even_int)
  then have "(of_int (2 ^ 52) :: rat) \<le> of_int (round_even (x / 2 powi ?e))" by (simp only: of_int_le_iff)
  then have "(2 :: rat) ^ 52 * 2 powi ?e \<le> of_int (round_even (x / 2 powi ?e)) * 2 powi ?e" by (intro mult_right_mono) simp_all
  also have "\<dots> = float64 x" using x k by (simp add: float64_def Let_def max_def)
  finally have "(2 :: rat) powi ?b \<le> float64 x" unfolding split .
  moreover have "(2 :: rat) powi int k \<le> 2 powi ?b" using k by (intro power_int_increasing) simp_all
  ultimately show ?thesis by simp
qed

end
