(* ===== verification/Durations.thy ===== *)
theory Durations
  imports Names Context_Env Float64
begin

text \<open>
  \<open>ParseDuration\<close> of \<open>src/jsm.go\<close> with the parts of \<open>regexp\<close>, \<open>strconv\<close> and \<open>time\<close> it uses, and the
  conversions between durations and seconds of the monitors. Strings are bytes.
\<close>

datatype duration_error =
    InvalidDuration
  | BadNumber string
  | BadUnit string
  | ValueTooLarge
  | AccumulatedTooLarge

text \<open>
  \<open>durationMatcher\<close> is \<open>([-+]?)(([\d\.]+)([a-zA-Z]+))\<close>. No two of its parts share a byte, so the first
  match at a position is the longest and there is nothing to go back on: the sign, the number and the
  unit of the match, and what follows.
\<close>

definition number_char :: "char \<Rightarrow> bool" where
  "number_char c \<longleftrightarrow> is_digit c \<or> c = CHR ''.''"

definition unit_char :: "char \<Rightarrow> bool" where
  "unit_char c \<longleftrightarrow> (let n = (of_char c :: nat) in 65 \<le> n \<and> n \<le> 90 \<or> 97 \<le> n \<and> n \<le> 122)"

definition match_part :: "string \<Rightarrow> ((string \<times> string \<times> string) \<times> string) option" where
  "match_part s =
     (let sg = (case s of [] \<Rightarrow> [] | c # _ \<Rightarrow> if c = CHR ''-'' \<or> c = CHR ''+'' then [c] else []);
          s1 = drop (length sg) s;
          s2 = dropWhile number_char s1;
          num = takeWhile number_char s1;
          u = takeWhile unit_char s2
      in if num = [] \<or> u = [] then None else Some ((sg, num, u), dropWhile unit_char s2))"

lemma match_part_shorter:
  assumes "match_part s = Some (p, rest)"
  shows "length rest < length s"
proof -
  let ?sg = "case s of [] \<Rightarrow> [] | c # _ \<Rightarrow> if c = CHR ''-'' \<or> c = CHR ''+'' then [c] else []"
  let ?s1 = "drop (length ?sg) s"
  have r: "rest = dropWhile unit_char (dropWhile number_char ?s1)" "takeWhile number_char ?s1 \<noteq> []"
    using assms unfolding match_part_def Let_def by (simp_all split: if_splits)
  have "length (takeWhile number_char ?s1) + length (dropWhile number_char ?s1) = length ?s1"
    by (metis length_append takeWhile_dropWhile_id)
  then have "length (dropWhile number_char ?s1) < length s" using r(2) by (cases "takeWhile number_char ?s1") auto
  then show ?thesis using r(1) length_dropWhile_le [of unit_char "dropWhile number_char ?s1"] by simp
qed

text \<open>\<open>FindAllStringSubmatch\<close>: bytes that start no match are passed over.\<close>

function (sequential) find_parts :: "string \<Rightarrow> (string \<times> string \<times> string) list" where
  "find_parts s =
     (case match_part s of
        Some (p, rest) \<Rightarrow> p # find_parts rest
      | None \<Rightarrow> (case s of [] \<Rightarrow> [] | _ # cs \<Rightarrow> find_parts cs))"
  by pat_completeness auto
termination by (relation "measure length") (auto dest: match_part_shorter)

declare find_parts.simps [simp del]

text \<open>\<open>strconv.ParseFloat\<close> on digits and points: the nearest float64.\<close>

fun digits_int :: "int \<Rightarrow> string \<Rightarrow> int" where
  "digits_int acc [] = acc"
| "digits_int acc (c # cs) = digits_int (10 * acc + int (the (digit_val c))) cs"

definition decimal :: "string \<Rightarrow> rat option" where
  "decimal s =
     (let a = takeWhile is_digit s
      in case dropWhile is_digit s of
           [] \<Rightarrow> if a = [] then None else Some (of_int (digits_int 0 a))
         | c # b \<Rightarrow>
             if c = CHR ''.'' \<and> list_all is_digit b \<and> (a \<noteq> [] \<or> b \<noteq> [])
             then Some (of_int (digits_int 0 (a @ b)) / 10 ^ length b) else None)"

definition ParseFloat :: "string \<Rightarrow> string + rat" where
  "ParseFloat s =
     (case decimal s of
        None \<Rightarrow> Inl ''invalid syntax''
      | Some x \<Rightarrow> if too_large x then Inl ''value out of range'' else Inr (float64 x))"

text \<open>\<open>time.ParseDuration\<close> on a number and one of its units: \<open>leadingInt\<close>, \<open>leadingFraction\<close>, the product.\<close>

fun leadingInt :: "int \<Rightarrow> string \<Rightarrow> int option" where
  "leadingInt x [] = Some x"
| "leadingInt x (c # cs) =
     (if x > 2 ^ 63 div 10 then None
      else (let y = 10 * x + int (the (digit_val c)) in if y > 2 ^ 63 then None else leadingInt y cs))"

fun leadingFraction :: "int \<Rightarrow> rat \<Rightarrow> string \<Rightarrow> int \<times> rat" where
  "leadingFraction x scale [] = (x, scale)"
| "leadingFraction x scale (c # cs) =
     (if x > (2 ^ 63 - 1) div 10 then (x, scale)
      else (let y = 10 * x + int (the (digit_val c))
            in if y > 2 ^ 63 then (x, scale) else leadingFraction y (float64 (scale * 10)) cs))"

definition time_ParseDuration :: "string \<Rightarrow> int \<Rightarrow> string + duration" where
  "time_ParseDuration num unit =
     (let pre = takeWhile is_digit num; rest = dropWhile is_digit num;
          frac = (case rest of [] \<Rightarrow> [] | _ # b \<Rightarrow> takeWhile is_digit b);
          more = (case rest of [] \<Rightarrow> [] | _ # b \<Rightarrow> dropWhile is_digit b)
      in case leadingInt 0 pre of
           None \<Rightarrow> Inl ''invalid duration''
         | Some v \<Rightarrow>
             (let (f, scale) = leadingFraction 0 1 frac
              in if pre = [] \<and> frac = [] then Inl ''invalid duration''
                 else if more \<noteq> [] then Inl ''missing unit in duration''
                 else if v > 2 ^ 63 div unit then Inl ''invalid duration''
                 else (let d = v * unit + (if f > 0 then (truncate_int (float64 (float64 (of_int f) * float64 (of_int unit / scale)))) else 0)
                       in if d > 2 ^ 63 - 1 then Inl ''invalid duration'' else Inr d)))"

definition Hour :: int where
  "Hour = 3600000000000"

text \<open>The units of \<open>time.ParseDuration\<close> that can match, and the ones added to them.\<close>

definition time_units :: "(string \<times> int) list" where
  "time_units = [(''ns'', 1), (''us'', 1000), (''ms'', 1000000), (''s'', 1000000000), (''m'', 60000000000), (''h'', Hour)]"

definition long_units :: "(string \<times> int) list" where
  "long_units = [(''w'', 7 * 24 * Hour), (''W'', 7 * 24 * Hour), (''d'', 24 * Hour), (''D'', 24 * Hour), (''M'', 30 * 24 * Hour),
     (''Y'', 365 * 24 * Hour), (''y'', 365 * 24 * Hour)]"

text \<open>The nanoseconds of one part.\<close>

definition part_ns :: "string \<Rightarrow> string \<Rightarrow> duration_error + int" where
  "part_ns num u =
     (case map_of long_units u of
        Some n \<Rightarrow>
          (case ParseFloat num of
             Inl e \<Rightarrow> Inl (BadNumber e)
           | Inr val \<Rightarrow>
               (let ns = float64 (val * of_int n)
                in if ns \<ge> 2 ^ 63 then Inl ValueTooLarge else Inr (truncate_int ns)))
      | None \<Rightarrow>
          (case map_of time_units u of
             Some n \<Rightarrow> (case time_ParseDuration num n of Inl e \<Rightarrow> Inl (BadNumber e) | Inr d \<Rightarrow> Inr d)
           | None \<Rightarrow> Inl (BadUnit u)))"

definition wrap64 :: "int \<Rightarrow> int" where
  "wrap64 i = (i + 2 ^ 63) mod 2 ^ 64 - 2 ^ 63"

definition add_part :: "string \<times> string \<times> string \<Rightarrow> duration \<Rightarrow> duration_error + duration" where
  "add_part p r =
     (case part_ns (fst (snd p)) (snd (snd p)) of
        Inl e \<Rightarrow> Inl e
      | Inr ns \<Rightarrow> (let r1 = wrap64 (r + ns) in if r1 < 0 then Inl AccumulatedTooLarge else Inr r1))"

definition ParseDuration :: "string \<Rightarrow> duration_error + duration" where
  "ParseDuration d =
     (if d = ''0'' then Inr 0
      else (let t = trim_space d in
        if t = [] then Inl InvalidDuration
        else (let parts = find_parts t
              in if parts = [] then Inl InvalidDuration
                 else (case fold_err add_part parts 0 of
                         Inl e \<Rightarrow> Inl e
                       | Inr r \<Rightarrow> Inr (if fst (hd parts) = ''-'' then - r else r)))))"

text \<open>\<open>Duration.Seconds\<close>, \<open>Time.Sub\<close>, which saturates, and \<open>secondsToDuration\<close> of \<open>monitor/monitor.go\<close>; a product out of the range of
  a duration converts as the platform likes.\<close>

definition Seconds :: "duration \<Rightarrow> rat" where
  "Seconds d =
     (let s = truncate_int (of_int d / 1000000000); n = d - s * 1000000000
      in float64 (float64 (of_int s) + float64 (float64 (of_int n) / 1000000000)))"

definition time_Sub :: "gotime \<Rightarrow> gotime \<Rightarrow> duration" where
  "time_Sub a b = max (- (2 ^ 63)) (min maxDuration (a - b))"

definition secondsToDuration :: "rat \<Rightarrow> duration" where
  "secondsToDuration s = truncate_int (float64 (s * 1000000000))"

subsection \<open>No wrap-around\<close>

lemma digits_int_nonneg: "0 \<le> acc \<Longrightarrow> 0 \<le> digits_int acc s"
  by (induction s arbitrary: acc) simp_all

lemma decimal_nonneg: "decimal s = Some x \<Longrightarrow> 0 \<le> x"
  by (auto simp: decimal_def Let_def digits_int_nonneg split: list.splits if_splits)

lemma leadingInt_nonneg: "0 \<le> x \<Longrightarrow> leadingInt x s = Some v \<Longrightarrow> 0 \<le> v"
proof (induction s arbitrary: x)
  case (Cons c s)
  from Cons.prems have "leadingInt (10 * x + int (the (digit_val c))) s = Some v" by (simp add: Let_def split: if_splits)
  then show ?case by (rule Cons.IH [rotated]) (use Cons.prems(1) in simp)
qed simp

lemma leadingFraction_nonneg: "0 \<le> x \<Longrightarrow> 0 \<le> sc \<Longrightarrow> 0 \<le> fst (leadingFraction x sc s) \<and> 0 \<le> snd (leadingFraction x sc s)"
  by (induction s arbitrary: x sc) (auto simp: Let_def float64_nonneg)

lemma time_ParseDuration_range:
  assumes "time_ParseDuration num u = Inr d" "0 < u"
  shows "0 \<le> d \<and> d < 2 ^ 63"
proof -
  let ?rest = "dropWhile is_digit num"
  let ?frac = "case ?rest of [] \<Rightarrow> [] | _ # b \<Rightarrow> takeWhile is_digit b"
  obtain f scale where fs: "leadingFraction 0 1 ?frac = (f, scale)" by (cases "leadingFraction 0 1 ?frac")
  obtain v where v: "leadingInt 0 (takeWhile is_digit num) = Some v"
    using assms(1) by (auto simp: time_ParseDuration_def Let_def split: option.splits)
  let ?x = "float64 (float64 (of_int f) * float64 (of_int u / scale))"
  have d: "d = v * u + (if f > 0 then truncate_int ?x else 0)" "d \<le> 2 ^ 63 - 1"
    using assms(1) v fs by (auto simp: time_ParseDuration_def Let_def split: if_splits)
  have "0 \<le> v" "0 \<le> f" "0 \<le> scale" using leadingInt_nonneg [OF _ v] leadingFraction_nonneg [of 0 1 ?frac] fs by simp_all
  moreover from this have "0 \<le> truncate_int ?x" using assms(2) by (intro truncate_int_nonneg float64_nonneg mult_nonneg_nonneg divide_nonneg_nonneg) simp_all
  ultimately show ?thesis using d assms(2) by simp
qed

lemma unit_positive: "map_of time_units u = Some n \<Longrightarrow> 0 < n" "map_of long_units u = Some n \<Longrightarrow> 0 < n"
  by (auto simp: time_units_def long_units_def Hour_def split: if_splits)

lemma part_ns_range:
  assumes "part_ns num u = Inr ns"
  shows "0 \<le> ns \<and> ns < 2 ^ 63"
proof (cases "map_of long_units u")
  case None
  then obtain n where "map_of time_units u = Some n" "time_ParseDuration num n = Inr ns"
    using assms by (auto simp: part_ns_def split: option.splits sum.splits)
  then show ?thesis using time_ParseDuration_range unit_positive by blast
next
  case (Some n)
  then obtain val where val: "ParseFloat num = Inr val" "\<not> float64 (val * of_int n) \<ge> 2 ^ 63" "ns = truncate_int (float64 (val * of_int n))"
    using assms by (auto simp: part_ns_def Let_def split: sum.splits if_splits)
  have "0 \<le> val" using val(1) decimal_nonneg float64_nonneg by (auto simp: ParseFloat_def split: option.splits if_splits)
  then have "0 \<le> float64 (val * of_int n)" using unit_positive(2) [OF Some] by (intro float64_nonneg) simp
  then show ?thesis using val(2,3) by (simp add: truncate_int_def floor_less_iff)
qed

lemma add_part_exact:
  assumes "0 \<le> r" "r < 2 ^ 63"
  shows "add_part p r = Inr r' \<longleftrightarrow> (\<exists>ns. part_ns (fst (snd p)) (snd (snd p)) = Inr ns \<and> r' = r + ns \<and> r' < 2 ^ 63)"
proof (cases "part_ns (fst (snd p)) (snd (snd p))")
  case (Inr ns)
  have ns: "0 \<le> ns" "ns < 2 ^ 63" using part_ns_range [OF Inr] by simp_all
  show ?thesis
  proof (cases "r + ns < 2 ^ 63")
    case True
    then have "wrap64 (r + ns) = r + ns" using assms ns by (simp add: wrap64_def)
    then show ?thesis using Inr True assms ns by (auto simp: add_part_def Let_def)
  next
    case False
    have "(r + ns + 2 ^ 63) mod 2 ^ 64 = (r + ns - 2 ^ 63 + 2 ^ 64) mod 2 ^ 64"
      by (rule arg_cong [where f = "\<lambda>i. i mod 2 ^ 64"]) simp
    also have "\<dots> = (r + ns - 2 ^ 63) mod 2 ^ 64" by (rule mod_add_self2)
    also have "\<dots> = r + ns - 2 ^ 63" using assms ns False by (intro mod_pos_pos_trivial) simp_all
    finally have "wrap64 (r + ns) < 0" using assms ns by (simp add: wrap64_def)
    then show ?thesis using Inr False by (auto simp: add_part_def Let_def)
  qed
qed (simp add: add_part_def)

definition parts_ns :: "(string \<times> string \<times> string) list \<Rightarrow> (duration_error + int) list" where
  "parts_ns ps = map (\<lambda>(sg, num, u). part_ns num u) ps"

lemma parts_ns_nonneg: "parts_ns ps = map Inr ns \<Longrightarrow> 0 \<le> sum_list ns"
proof (induction ps arbitrary: ns)
  case (Cons p ps)
  obtain n m where "ns = n # m" "parts_ns ps = map Inr m" "part_ns (fst (snd p)) (snd (snd p)) = Inr n"
    using Cons.prems by (cases ns) (auto simp: parts_ns_def case_prod_unfold)
  then show ?case using Cons.IH part_ns_range by fastforce
qed (simp add: parts_ns_def)

lemma add_parts_exact:
  "0 \<le> r \<Longrightarrow> r < 2 ^ 63 \<Longrightarrow>
   fold_err add_part ps r = Inr r' \<longleftrightarrow> (\<exists>ns. parts_ns ps = map Inr ns \<and> r' = r + sum_list ns \<and> r' < 2 ^ 63)"
proof (induction ps arbitrary: r)
  case (Cons p ps)
  show ?case
  proof (cases "part_ns (fst (snd p)) (snd (snd p))")
    case (Inl e)
    then show ?thesis by (auto simp: add_part_def parts_ns_def case_prod_unfold map_eq_Cons_conv)
  next
    case (Inr n)
    have parts: "parts_ns (p # ps) = map Inr ns \<longleftrightarrow> (\<exists>m. ns = n # m \<and> parts_ns ps = map Inr m)" for ns
      using Inr by (cases ns) (auto simp: parts_ns_def case_prod_unfold)
    have n: "0 \<le> n" using part_ns_range [OF Inr] by simp
    show ?thesis
    proof (cases "r + n < 2 ^ 63")
      case True
      have "add_part p r = Inr (r + n)" using add_part_exact [OF Cons.prems, of p "r + n"] Inr True by simp
      then have "fold_err add_part (p # ps) r = Inr r' \<longleftrightarrow> (\<exists>m. parts_ns ps = map Inr m \<and> r' = r + n + sum_list m \<and> r' < 2 ^ 63)"
        using Cons.IH [of "r + n"] Cons.prems True n by simp
      also have "\<dots> \<longleftrightarrow> (\<exists>m. parts_ns ps = map Inr m \<and> r' = r + sum_list (n # m) \<and> r' < 2 ^ 63)"
        by (simp add: add.assoc)
      finally show ?thesis using parts by metis
    next
      case False
      then obtain e where e: "add_part p r = Inl e" using add_part_exact [OF Cons.prems, of p] Inr by (cases "add_part p r") auto
      have "\<not> r + sum_list (n # m) < 2 ^ 63" if "parts_ns ps = map Inr m" for m
        using parts_ns_nonneg [OF that] False by simp
      then have "\<not> (\<exists>ns. parts_ns (p # ps) = map Inr ns \<and> r' = r + sum_list ns \<and> r' < 2 ^ 63)" using parts by metis
      then show ?thesis using e by simp
    qed
  qed
qed (auto simp: parts_ns_def)

subsection \<open>Reading what was written\<close>

definition unit_value :: "string \<Rightarrow> int" where
  "unit_value u = (case map_of long_units u of Some n \<Rightarrow> n | None \<Rightarrow> the (map_of time_units u))"

definition duration_text :: "(nat \<times> string) list \<Rightarrow> string" where
  "duration_text cs = concat (map (\<lambda>(n, u). itoa n @ u) cs)"

definition duration_total :: "(nat \<times> string) list \<Rightarrow> int" where
  "duration_total cs = (\<Sum>(n, u) \<leftarrow> cs. int n * unit_value u)"

definition is_unit :: "string \<Rightarrow> bool" where
  "is_unit u \<longleftrightarrow> u \<in> fst ` set (long_units @ time_units)"

lemma is_unit_cases: "is_unit u \<Longrightarrow> u \<in> {''w'', ''W'', ''d'', ''D'', ''M'', ''Y'', ''y'', ''ns'', ''us'', ''ms'', ''s'', ''m'', ''h''}"
  by (simp add: is_unit_def long_units_def time_units_def)

lemma unit_chars: "is_unit u \<Longrightarrow> u \<noteq> [] \<and> list_all unit_char u \<and> \<not> number_char (hd u) \<and> \<not> is_space (last u)"
  by (drule is_unit_cases) (auto simp: unit_char_def number_char_def is_digit_def digit_val_def is_space_def)

lemma itoa_number: "list_all number_char (itoa n)" "list_all is_digit (itoa n)"
  by (auto simp: list_all_iff number_char_def is_digit_def dest!: itoa_digits)

lemma digit_not_unit: "is_digit c \<Longrightarrow> \<not> unit_char c \<and> c \<noteq> CHR ''-'' \<and> c \<noteq> CHR ''+'' \<and> \<not> is_space c"
  by (auto simp: is_digit_def digit_val_def unit_char_def is_space_def Let_def split: if_splits)

lemma hd_itoa_digit: "is_digit (hd (itoa n))"
  using itoa_number(2) [of n] itoa_nonempty [of n] by (metis list.pred_set hd_in_set)

lemma takeWhile_stop: "list_all P xs \<Longrightarrow> (ys = [] \<or> \<not> P (hd ys)) \<Longrightarrow> takeWhile P (xs @ ys) = xs \<and> dropWhile P (xs @ ys) = ys"
proof (induction xs)
  case Nil
  then show ?case by (cases ys) auto
qed auto

lemma match_written:
  assumes "is_unit u" "rest = [] \<or> \<not> unit_char (hd rest)" "sg = [] \<or> sg = ''-''"
  shows "match_part (sg @ itoa n @ u @ rest) = Some ((sg, itoa n, u), rest)"
proof -
  note u = unit_chars [OF assms(1)]
  obtain c cs where c: "itoa n = c # cs" by (cases "itoa n") auto
  then have "is_digit c" using hd_itoa_digit [of n] by simp
  then have sg: "(case sg @ itoa n @ u @ rest of [] \<Rightarrow> [] | c # _ \<Rightarrow> if c = CHR ''-'' \<or> c = CHR ''+'' then [c] else []) = sg"
    using assms(3) c digit_not_unit by auto
  have num: "takeWhile number_char (itoa n @ u @ rest) = itoa n \<and> dropWhile number_char (itoa n @ u @ rest) = u @ rest"
    using u by (intro takeWhile_stop itoa_number) (cases u; simp)
  have unit: "takeWhile unit_char (u @ rest) = u \<and> dropWhile unit_char (u @ rest) = rest"
    using u assms(2) by (intro takeWhile_stop) auto
  show ?thesis unfolding match_part_def sg using num unit u by (simp add: Let_def)
qed

lemma text_no_unit_char: "duration_text cs = [] \<or> \<not> unit_char (hd (duration_text cs))"
proof (cases cs)
  case (Cons x xs)
  then show ?thesis using hd_itoa_digit [of "fst x"] digit_not_unit by (cases x) (auto simp: duration_text_def)
qed (simp add: duration_text_def)

lemma find_written:
  "list_all (\<lambda>(n, u). is_unit u) cs \<Longrightarrow> find_parts (duration_text cs) = map (\<lambda>(n, u). ([], itoa n, u)) cs"
proof (induction cs)
  case Nil
  show ?case by (simp add: duration_text_def find_parts.simps match_part_def)
next
  case (Cons x cs)
  obtain n u where x: "x = (n, u)" by (cases x)
  have "match_part ([] @ itoa n @ u @ duration_text cs) = Some (([], itoa n, u), duration_text cs)"
    using Cons.prems x text_no_unit_char by (intro match_written) auto
  then have "find_parts (itoa n @ u @ duration_text cs) = ([], itoa n, u) # find_parts (duration_text cs)"
    by (subst find_parts.simps) simp
  then show ?case using Cons x by (simp add: duration_text_def)
qed

lemma find_written_negative:
  assumes "list_all (\<lambda>(n, u). is_unit u) ((n, u) # cs)"
  shows "find_parts (''-'' @ duration_text ((n, u) # cs)) = (''-'', itoa n, u) # map (\<lambda>(n, u). ([], itoa n, u)) cs"
proof -
  have "match_part (''-'' @ itoa n @ u @ duration_text cs) = Some ((''-'', itoa n, u), duration_text cs)"
    using assms text_no_unit_char by (intro match_written) auto
  then have "find_parts (''-'' @ itoa n @ u @ duration_text cs) = (''-'', itoa n, u) # find_parts (duration_text cs)"
    by (subst find_parts.simps) simp
  then show ?thesis using find_written [of cs] assms by (simp add: duration_text_def)
qed

lemma digits_int_value: "digits_value a s = Some n \<Longrightarrow> digits_int (int a) s = int n"
proof (induction s arbitrary: a)
  case (Cons c s)
  obtain d where d: "digit_val c = Some d" "digits_value (10 * a + d) s = Some n"
    using Cons.prems by (auto split: option.splits)
  then show ?case using Cons.IH [OF d(2)] by simp
qed simp

lemma digits_int_itoa: "digits_int 0 (itoa n) = int n"
  using digits_int_value [OF digits_value_itoa, of n] by simp

lemma leadingInt_value: "digits_value a s = Some n \<Longrightarrow> n < 2 ^ 63 \<Longrightarrow> leadingInt (int a) s = Some (int n)"
proof (induction s arbitrary: a)
  case (Cons c s)
  obtain d where d: "digit_val c = Some d" "digits_value (10 * a + d) s = Some n"
    using Cons.prems(1) by (auto split: option.splits)
  have grows: "digits_value b t = Some m \<Longrightarrow> b \<le> m" for b t m
  proof (induction t arbitrary: b)
    case (Cons e t)
    obtain k where "digits_value (10 * b + k) t = Some m" using Cons.prems by (auto split: option.splits)
    from Cons.IH [OF this] show ?case by simp
  qed simp
  have small: "10 * a + d < 2 ^ 63" using grows [OF d(2)] Cons.prems(2) by simp
  then have "int (10 * a + d) < 2 ^ 63" by (simp only: of_nat_less_numeral_power_cancel_iff)
  then have le: "\<not> int a > 2 ^ 63 div 10" "\<not> 10 * int a + int d > 2 ^ 63" by simp_all
  have "leadingInt (int (10 * a + d)) s = Some (int n)" by (rule Cons.IH [OF d(2) Cons.prems(2)])
  then show ?case using le d(1) by (simp add: Let_def)
qed simp

lemma drop_digits_itoa: "takeWhile is_digit (itoa n) = itoa n" "dropWhile is_digit (itoa n) = []"
  using takeWhile_stop [OF itoa_number(2), of "[]" n] by simp_all

lemma long_unit_shape: "map_of long_units u = Some v \<Longrightarrow> v = (v div 2 ^ 16) * 2 ^ 16 \<and> v \<ge> 2 ^ 16"
  by (auto simp: long_units_def Hour_def split: if_splits)

lemma binexp_small:
  assumes "0 < x" "x < 2 ^ 1024"
  shows "binexp x < 1024"
proof (rule ccontr)
  assume "\<not> binexp x < 1024"
  then have "(2 :: rat) powi 1024 \<le> 2 powi (binexp x)" by (intro power_int_increasing) auto
  also have "\<dots> \<le> x" by (rule binexp_bounds(1) [OF assms(1)])
  finally show False using assms(2) by (simp add: power_int_def)
qed

lemma part_written:
  assumes "is_unit u" "int n * unit_value u < 2 ^ 63"
  shows "part_ns (itoa n) u = Inr (int n * unit_value u)"
proof (cases "map_of long_units u")
  case None
  then obtain v where v: "map_of time_units u = Some v" using assms(1) by (auto simp: is_unit_def dest: weak_map_of_SomeI)
  then have uv: "unit_value u = v" using None by (simp add: unit_value_def)
  have pos: "0 < v" using unit_positive(1) [OF v] .
  have "int n \<le> int n * v" using pos by (simp add: mult_le_cancel_left1)
  then have n: "n < 2 ^ 63" using assms(2) uv by simp
  have "int n * v div v \<le> 2 ^ 63 div v" using assms(2) uv pos by (intro zdiv_mono1) simp_all
  then have "int n \<le> 2 ^ 63 div v" using pos by simp
  then show ?thesis
    using None v uv n assms(2) leadingInt_value [OF digits_value_itoa n]
    by (simp add: part_ns_def time_ParseDuration_def drop_digits_itoa Let_def)
next
  case (Some v)
  then have uv: "unit_value u = v" by (simp add: unit_value_def)
  obtain c where c: "v = c * 2 ^ 16" "v \<ge> 2 ^ 16" using long_unit_shape [OF Some] by metis
  have n: "int n * c < 2 ^ 47" using assms(2) uv c(1) by (simp add: mult.commute)
  have "c \<ge> 1" using c by simp
  then have "int n \<le> int n * c" by (simp add: mult_le_cancel_left1)
  then have n1: "int n < 2 ^ 47" using n by simp
  have d: "decimal (itoa n) = Some (of_int (int n))" by (simp add: decimal_def drop_digits_itoa digits_int_itoa Let_def)
  have f: "float64 (of_int (int n)) = of_int (int n)" using n1 by (intro float64_int) simp
  have "\<not> too_large (of_int (int n))"
  proof (cases "n = 0")
    case False
    have "(of_int (int n) :: rat) < of_int (2 ^ 47)" using n1 by (simp only: of_int_less_iff)
    then have "binexp (of_int (int n)) < 1024" using False by (intro binexp_small) simp_all
    then show ?thesis using f by (simp add: too_large_def)
  qed (simp add: too_large_def)
  then have p: "ParseFloat (itoa n) = Inr (of_int (int n))" using d f by (simp add: ParseFloat_def)
  have "float64 (of_int (int n * v)) = of_int (int n * v)"
    using n c(1) \<open>c \<ge> 1\<close> by (intro float64_exact [of _ "int n * c" 16]) (simp_all add: abs_mult)
  then have e: "float64 (of_int (int n) * of_int v) = of_int (int n * v)" by simp
  have "\<not> (2 :: rat) ^ 63 \<le> of_int (int n * v)"
  proof -
    have "(of_int (int n * v) :: rat) < of_int (2 ^ 63)" using assms(2) uv by (simp only: of_int_less_iff)
    then show ?thesis by simp
  qed
  then show ?thesis using Some p e uv by (simp add: part_ns_def Let_def del: of_int_mult)
qed

lemma unit_value_nonneg: "is_unit u \<Longrightarrow> 0 \<le> unit_value u"
  by (drule is_unit_cases) (auto simp: unit_value_def long_units_def time_units_def Hour_def)

lemma total_nonneg: "list_all (\<lambda>(n, u). is_unit u) cs \<Longrightarrow> 0 \<le> duration_total cs"
  by (induction cs) (auto simp: duration_total_def unit_value_nonneg)

lemma parts_written:
  "list_all (\<lambda>(n, u). is_unit u) cs \<Longrightarrow> duration_total cs < 2 ^ 63 \<Longrightarrow>
   parts_ns (map (\<lambda>(n, u). ([], itoa n, u)) cs) = map Inr (map (\<lambda>(n, u). int n * unit_value u) cs)"
proof (induction cs)
  case (Cons x cs)
  obtain n u where x: "x = (n, u)" by (cases x)
  have t: "duration_total (x # cs) = int n * unit_value u + duration_total cs" by (simp add: x duration_total_def)
  have "0 \<le> duration_total cs" "0 \<le> int n * unit_value u" using Cons.prems(1) x total_nonneg unit_value_nonneg by auto
  then have "int n * unit_value u < 2 ^ 63" "duration_total cs < 2 ^ 63" using Cons.prems(2) t by linarith+
  then show ?case using Cons part_written x by (simp add: parts_ns_def)
qed (simp add: parts_ns_def)

lemma last_text: "cs \<noteq> [] \<Longrightarrow> list_all (\<lambda>(n, u). is_unit u) cs \<Longrightarrow> duration_text cs \<noteq> [] \<and> \<not> is_space (last (duration_text cs))"
proof (induction cs)
  case (Cons x cs)
  obtain n u where x: "x = (n, u)" by (cases x)
  show ?case
  proof (cases "cs = []")
    case True
    then show ?thesis using Cons.prems x unit_chars by (auto simp: duration_text_def)
  next
    case False
    then show ?thesis using Cons x by (simp add: duration_text_def)
  qed
qed simp

lemma trim_space_id: "s \<noteq> [] \<Longrightarrow> \<not> is_space (hd s) \<Longrightarrow> \<not> is_space (last s) \<Longrightarrow> trim_space s = s"
proof -
  assume s: "s \<noteq> []" "\<not> is_space (hd s)" "\<not> is_space (last s)"
  have "dropWhile is_space s = s" using s(1,2) by (cases s) simp_all
  moreover have "dropWhile is_space (List.rev s) = List.rev s" using s(1,3) by (cases s rule: rev_cases) simp_all
  ultimately show ?thesis by (simp add: trim_space_def trim_right_def)
qed

lemma written_parses:
  assumes "cs \<noteq> []" "list_all (\<lambda>(n, u). is_unit u) cs" "duration_total cs < 2 ^ 63"
  shows "ParseDuration (duration_text cs) = Inr (duration_total cs) \<and>
    ParseDuration (''-'' @ duration_text cs) = Inr (- duration_total cs)"
proof -
  obtain n u xs where cs: "cs = (n, u) # xs" using assms(1) by (cases cs) auto
  let ?ns = "map (\<lambda>(n, u). int n * unit_value u) cs"
  let ?ps = "map (\<lambda>(n, u). ([], itoa n, u)) cs" let ?qs = "(''-'', itoa n, u) # map (\<lambda>(n, u). ([], itoa n, u)) xs"
  have p: "parts_ns ?ps = map Inr ?ns" using parts_written [OF assms(2,3)] .
  then have q: "parts_ns ?qs = map Inr ?ns" by (simp add: cs parts_ns_def)
  have total: "sum_list ?ns = duration_total cs" by (simp add: duration_total_def)
  have f: "fold_err add_part rs 0 = Inr (duration_total cs)" if "parts_ns rs = map Inr ?ns" for rs
  proof -
    have "\<exists>ns. parts_ns rs = map Inr ns \<and> duration_total cs = 0 + sum_list ns \<and> duration_total cs < 2 ^ 63"
      by (intro exI [of _ ?ns] conjI that assms(3)) (simp only: total add_0)
    then show ?thesis using add_parts_exact [of 0 rs] by simp
  qed
  have hd: "\<not> is_space (hd (duration_text cs))" "hd (duration_text cs) \<noteq> CHR ''-''"
    using hd_itoa_digit [of n] digit_not_unit by (auto simp: cs duration_text_def)
  have t: "trim_space (duration_text cs) = duration_text cs" "trim_space (''-'' @ duration_text cs) = ''-'' @ duration_text cs"
    using last_text [OF assms(1,2)] hd by (auto intro!: trim_space_id simp: is_space_def)
  have zero: "duration_text cs \<noteq> ''0''"
  proof
    assume z: "duration_text cs = ''0''"
    have "find_parts ''0'' = []" by code_simp
    then show False using z find_written [OF assms(2)] cs by simp
  qed
  have "ParseDuration (duration_text cs) = Inr (duration_total cs)"
    using find_written [OF assms(2)] f [OF p] t(1) zero last_text [OF assms(1,2)] by (simp add: ParseDuration_def cs)
  moreover have "ParseDuration (''-'' @ duration_text cs) = Inr (- duration_total cs)"
    using find_written_negative [of n u xs] assms(2) f [OF q] t(2) by (simp add: ParseDuration_def cs)
  ultimately show ?thesis ..
qed

subsection \<open>Sums that are no duration\<close>

lemma leadingInt_some: "leadingInt (int a) s = Some y \<Longrightarrow> digits_value a s = Some n \<Longrightarrow> y = int n"
proof (induction s arbitrary: a)
  case (Cons c s)
  obtain d where d: "digit_val c = Some d" "digits_value (10 * a + d) s = Some n"
    using Cons.prems(2) by (auto split: option.splits)
  then have "leadingInt (int (10 * a + d)) s = Some y" using Cons.prems(1) by (simp add: Let_def split: if_splits)
  then show ?case by (rule Cons.IH [OF _ d(2)])
qed simp

lemma part_overflows:
  assumes "is_unit u" "2 ^ 63 \<le> int n * unit_value u"
  shows "\<exists>e. part_ns (itoa n) u = Inl e"
proof (cases "map_of long_units u")
  case None
  then obtain v where v: "map_of time_units u = Some v" using assms(1) by (auto simp: is_unit_def dest: weak_map_of_SomeI)
  then have uv: "unit_value u = v" using None by (simp add: unit_value_def)
  have "y = int n" if "leadingInt 0 (itoa n) = Some y" for y
    using leadingInt_some [of 0 "itoa n" y n] that digits_value_itoa by simp
  then show ?thesis using None v uv assms(2)
    by (cases "leadingInt 0 (itoa n)") (auto simp: part_ns_def time_ParseDuration_def drop_digits_itoa Let_def)
next
  case (Some v)
  then have uv: "unit_value u = v" by (simp add: unit_value_def)
  have v: "2 ^ 16 \<le> v" using long_unit_shape [OF Some] by simp
  have d: "decimal (itoa n) = Some (of_int (int n))" by (simp add: decimal_def drop_digits_itoa digits_int_itoa Let_def)
  have "(2 :: rat) ^ 63 \<le> float64 (of_int (int n)) * of_int v"
  proof (cases "n \<le> 2 ^ 53")
    case True
    then have f: "float64 (of_int (int n)) = of_int (int n)" by (intro float64_int) simp
    have "(of_int (2 ^ 63) :: rat) \<le> of_int (int n * v)" using assms(2) uv by (simp only: of_int_le_iff)
    then show ?thesis unfolding f by simp
  next
    case False
    then have "(2 :: nat) ^ 53 \<le> n" by simp
    then have "(of_nat (2 ^ 53) :: rat) \<le> of_nat n" by (simp only: of_nat_le_iff)
    then have "(2 :: rat) ^ 53 \<le> of_int (int n)" by simp
    then have "(2 :: rat) ^ 53 \<le> float64 (of_int (int n))" by (rule float64_ge)
    moreover have "(of_int (2 ^ 16) :: rat) \<le> of_int v" using v by (simp only: of_int_le_iff)
    then have "(2 :: rat) ^ 16 \<le> of_int v" by simp
    ultimately have "(2 :: rat) ^ 53 * 2 ^ 16 \<le> float64 (of_int (int n)) * of_int v" by (intro mult_mono) simp_all
    then show ?thesis by simp
  qed
  from float64_ge [OF this] have big: "(2 :: rat) ^ 63 \<le> float64 (float64 (of_int (int n)) * of_int v)" .
  show ?thesis using Some d big by (cases "too_large (of_int (int n))") (simp_all add: part_ns_def ParseFloat_def Let_def)
qed

lemma parts_of_written:
  "list_all (\<lambda>(n, u). is_unit u) cs \<Longrightarrow> parts_ns (map (\<lambda>(n, u). ([], itoa n, u)) cs) = map Inr ns \<Longrightarrow>
   ns = map (\<lambda>(n, u). int n * unit_value u) cs"
proof (induction cs arbitrary: ns)
  case (Cons x cs)
  obtain n u where x: "x = (n, u)" by (cases x)
  obtain k ms where k: "ns = k # ms" "part_ns (itoa n) u = Inr k" "parts_ns (map (\<lambda>(n, u). ([], itoa n, u)) cs) = map Inr ms"
    using Cons.prems(2) x by (cases ns) (auto simp: parts_ns_def)
  have u: "is_unit u" using Cons.prems(1) x by simp
  have "int n * unit_value u < 2 ^ 63" using part_overflows [OF u, of n] k(2) by (cases "int n * unit_value u < 2 ^ 63") auto
  from part_written [OF u this] have "k = int n * unit_value u" using k(2) by simp
  then show ?case using Cons k(1,3) x by simp
qed (simp add: parts_ns_def)

lemma written_too_long:
  assumes "cs \<noteq> []" "list_all (\<lambda>(n, u). is_unit u) cs" "2 ^ 63 \<le> duration_total cs"
  shows "(\<exists>e. ParseDuration (duration_text cs) = Inl e) \<and> (\<exists>e. ParseDuration (''-'' @ duration_text cs) = Inl e)"
proof -
  obtain n u xs where cs: "cs = (n, u) # xs" using assms(1) by (cases cs) auto
  have bad: "\<exists>e. fold_err add_part rs 0 = Inl e" if r: "parts_ns rs = parts_ns (map (\<lambda>(n, u). ([], itoa n, u)) cs)" for rs
  proof (cases "fold_err add_part rs 0")
    case (Inr v)
    then obtain ns where ns: "parts_ns rs = map Inr ns" "v = sum_list ns" "sum_list ns < 2 ^ 63" using add_parts_exact [of 0 rs v] by auto
    then have "ns = map (\<lambda>(n, u). int n * unit_value u) cs" using parts_of_written [OF assms(2), of ns] r by simp
    then show ?thesis using ns(3) assms(3) by (simp add: duration_total_def)
  qed simp
  have "parts_ns ((''-'', itoa n, u) # map (\<lambda>(n, u). ([], itoa n, u)) xs) = parts_ns (map (\<lambda>(n, u). ([], itoa n, u)) cs)"
    by (simp add: cs parts_ns_def)
  note bad = bad [OF refl] bad [OF this]
  have hd: "\<not> is_space (hd (duration_text cs))" "hd (duration_text cs) \<noteq> CHR ''-''"
    using hd_itoa_digit [of n] digit_not_unit by (auto simp: cs duration_text_def)
  have t: "trim_space (duration_text cs) = duration_text cs" "trim_space (''-'' @ duration_text cs) = ''-'' @ duration_text cs"
    using last_text [OF assms(1,2)] hd by (auto intro!: trim_space_id simp: is_space_def)
  have zero: "duration_text cs \<noteq> ''0''"
  proof
    assume z: "duration_text cs = ''0''"
    have "find_parts ''0'' = []" by code_simp
    then show False using z find_written [OF assms(2)] cs by simp
  qed
  have "\<exists>e. ParseDuration (duration_text cs) = Inl e"
    using find_written [OF assms(2)] bad(1) t(1) zero last_text [OF assms(1,2)] by (auto simp: ParseDuration_def cs)
  moreover have "\<exists>e. ParseDuration (''-'' @ duration_text cs) = Inl e"
    using find_written_negative [of n u xs] assms(2) bad(2) t(2) by (auto simp: ParseDuration_def cs)
  ultimately show ?thesis ..
qed

text \<open>The units the documentation lists, with their nanoseconds: those of Go in ASCII, and days, weeks, months and years.\<close>

definition documented_unit :: "string \<Rightarrow> int option" where
  "documented_unit = map_of
     (let sec = 10 ^ 9; day = 24 * 60 * 60 * sec
      in [(''ns'', 1), (''us'', 10 ^ 3), (''ms'', 10 ^ 6), (''s'', sec), (''m'', 60 * sec), (''h'', 60 * 60 * sec), (''d'', day), (''D'', day),
          (''w'', 7 * day), (''W'', 7 * day), (''M'', 30 * day), (''y'', 365 * day), (''Y'', 365 * day)])"

lemma documented_units: "documented_unit u = Some v \<Longrightarrow> is_unit u \<and> unit_value u = v"
  by (auto simp: documented_unit_def Let_def is_unit_def unit_value_def long_units_def time_units_def Hour_def split: if_splits)

definition documented_total :: "(nat \<times> string) list \<Rightarrow> int" where
  "documented_total cs = (\<Sum>(n, u) \<leftarrow> cs. int n * the (documented_unit u))"

text \<open>
  C37. A duration written as whole numbers of documented ASCII units, with or without a minus before all of it,
  is read as its exact signed sum when the sum is a duration, and is an error when it is not: neither the
  products, which go through float64 for the units Go does not have, nor the addition wrap around or round.
  Fractions are not covered, and the microsecond written with the micro sign is not one of the units
  (\<open>micro_sign_dropped\<close>).
\<close>

theorem parse_duration_exact:
  assumes "cs \<noteq> []" "list_all (\<lambda>(n, u). documented_unit u \<noteq> None) cs"
  shows "if documented_total cs < 2 ^ 63
    then ParseDuration (duration_text cs) = Inr (documented_total cs) \<and>
      ParseDuration (''-'' @ duration_text cs) = Inr (- documented_total cs)
    else (\<exists>e. ParseDuration (duration_text cs) = Inl e) \<and> (\<exists>e. ParseDuration (''-'' @ duration_text cs) = Inl e)"
proof -
  have u: "list_all (\<lambda>(n, u). is_unit u) cs"
    using assms(2) documented_units by (auto simp: list_all_iff)
  have "map (\<lambda>(n, u). int n * the (documented_unit u)) cs = map (\<lambda>(n, u). int n * unit_value u) cs"
    using assms(2) documented_units by (force simp: list_all_iff intro!: map_cong)
  then have "documented_total cs = duration_total cs" by (simp only: documented_total_def duration_total_def)
  then show ?thesis using written_parses [OF assms(1) u] written_too_long [OF assms(1) u] by simp
qed

theorem parse_duration_exact_witness:
  "ParseDuration ''1y2d30m'' = Inr 31710600000000000 \<and> ParseDuration ''-1y2d30m'' = Inr (- 31710600000000000) \<and>
   (\<exists>e. ParseDuration ''200y100y'' = Inl e)"
proof -
  have t: "duration_text [(1, ''y''), (2, ''d''), (30, ''m'')] = ''1y2d30m''" "duration_text [(200, ''y''), (100, ''y'')] = ''200y100y''"
    by code_simp+
  show ?thesis
    using parse_duration_exact [of "[(1, ''y''), (2, ''d''), (30, ''m'')]"] parse_duration_exact [of "[(200, ''y''), (100, ''y'')]"]
    by (simp add: t [simplified] documented_total_def documented_unit_def Let_def)
qed

text \<open>Of the example in the documentation of \<open>ParseDuration\<close>, a year, a day and a microsecond before, the
  microsecond is dropped without an error: the bytes of its unit are not letters to the pattern.\<close>

lemma micro_sign_dropped:
  "ParseDuration (''-1y1d1'' @ [char_of (0xC2 :: nat), char_of (0xB5 :: nat)] @ ''s'') = Inr (- 366 * 24 * Hour)"
  by code_simp

lemma Seconds_whole: "\<bar>n\<bar> \<le> 4611686018 \<Longrightarrow> Seconds (n * 1000000000) = of_int n"
proof -
  assume n: "\<bar>n\<bar> \<le> 4611686018"
  have "truncate_int (of_int (n * 1000000000) / 1000000000) = n" by (simp add: truncate_int_def)
  moreover have "float64 0 = 0" by (simp add: float64_def)
  moreover have "float64 (of_int n) = of_int n" using n by (intro float64_int) simp
  ultimately show ?thesis by (simp add: Seconds_def Let_def)
qed

text \<open>A threshold of whole seconds survives the way from a duration over float64 seconds back to a
  duration.\<close>

theorem whole_seconds_survive:
  assumes "\<bar>n\<bar> \<le> 4611686018"
  shows "secondsToDuration (Seconds (n * 1000000000)) = n * 1000000000"
proof -
  have s: "Seconds (n * 1000000000) = of_int n" using assms by (rule Seconds_whole)
  have "float64 (of_int n * 1000000000) = of_int n * 1000000000"
    using assms by (intro float64_exact [of _ "n * 1953125" 9]) (simp_all add: power_int_def abs_mult)
  then have "float64 (of_int n * 1000000000) = of_int (n * 1000000000)" by simp
  then show ?thesis unfolding secondsToDuration_def s by (simp only: truncate_int_of_int)
qed

theorem whole_seconds_survive_witness: "secondsToDuration (Seconds 30000000000) = 30000000000"
  using whole_seconds_survive [of 30] by simp

end
