(* ===== verification/Monitor_Result.thy ===== *)
theory Monitor_Result
  imports Durations Client_Consumers
begin

text \<open>
  The result of a monitor check (\<open>src/monitor/result.go\<close>, \<open>src/monitor/perfdata.go\<close>,
  \<open>src/monitor/monitor.go\<close>): what the checks add to it, its status, exit code and the Nagios line. A
  message is kept as its format and arguments, the help texts of the performance data are mostly left
  out; float64 values are the rationals of \<open>Float64\<close>. The tables,
  JSON and Prometheus renderings and the files of \<open>GenericExit\<close> are not here.
\<close>

datatype meta_error =
    BadBool string
  | BadUint string
  | BadInt string
  | BadDuration duration_error

datatype arg =
    AInt int
  | AStr string
  | ADur duration
  | AFloat rat
  | ATime gotime
  | AErr client_error
  | AMeta meta_error
  | ADurErr duration_error

type_synonym report_line = "string \<times> arg list"

record PerfDataItem =
  pd_Help :: report_line
  pd_Name :: string
  pd_Value :: rat
  pd_Warn :: rat
  pd_Crit :: rat
  pd_Unit :: string

definition pd_item :: "string \<Rightarrow> rat \<Rightarrow> PerfDataItem" where
  "pd_item name v = \<lparr> pd_Help = ([], []), pd_Name = name, pd_Value = v, pd_Warn = 0, pd_Crit = 0, pd_Unit = [] \<rparr>"

datatype Status = NoStatus | OKStatus | WarningStatus | CriticalStatus | UnknownStatus

datatype RenderFormat = NagiosFormat | PrometheusFormat | TextFormat | JSONFormat

record Result =
  r_Output :: string
  r_Status :: Status
  r_Check :: string
  r_Name :: string
  r_Warnings :: "report_line list"
  r_Criticals :: "report_line list"
  r_OKs :: "report_line list"
  r_PerfData :: "PerfDataItem list"
  r_RenderFormat :: RenderFormat

definition new_result :: "string \<Rightarrow> Result" where
  "new_result name = \<lparr> r_Output = [], r_Status = NoStatus, r_Check = [], r_Name = name, r_Warnings = [], r_Criticals = [],
     r_OKs = [], r_PerfData = [], r_RenderFormat = NagiosFormat \<rparr>"

definition Pd :: "PerfDataItem list \<Rightarrow> Result \<Rightarrow> Result" where
  "Pd pd r = r\<lparr> r_PerfData := r_PerfData r @ pd \<rparr>"

definition Criticalf :: "string \<Rightarrow> arg list \<Rightarrow> Result \<Rightarrow> Result" where
  "Criticalf format a r = r\<lparr> r_Criticals := r_Criticals r @ [(format, a)] \<rparr>"

definition Warnf :: "string \<Rightarrow> arg list \<Rightarrow> Result \<Rightarrow> Result" where
  "Warnf format a r = r\<lparr> r_Warnings := r_Warnings r @ [(format, a)] \<rparr>"

definition Okf :: "string \<Rightarrow> arg list \<Rightarrow> Result \<Rightarrow> Result" where
  "Okf format a r = r\<lparr> r_OKs := r_OKs r @ [(format, a)] \<rparr>"

definition OkIfNoWarningsOrCriticalsf :: "string \<Rightarrow> arg list \<Rightarrow> Result \<Rightarrow> Result" where
  "OkIfNoWarningsOrCriticalsf format a r = (if r_Warnings r = [] \<and> r_Criticals r = [] then Okf format a r else r)"

text \<open>\<open>CriticalIfErrf\<close>: whether there was an error, and the result.\<close>

definition CriticalIfErrf :: "'e option \<Rightarrow> string \<Rightarrow> ('e \<Rightarrow> arg list) \<Rightarrow> Result \<Rightarrow> bool \<times> Result" where
  "CriticalIfErrf err format a r = (case err of None \<Rightarrow> (False, r) | Some e \<Rightarrow> (True, Criticalf format (a e) r))"

definition nagiosCode :: "Result \<Rightarrow> int" where
  "nagiosCode r = (case r_Status r of OKStatus \<Rightarrow> 0 | WarningStatus \<Rightarrow> 1 | CriticalStatus \<Rightarrow> 2 | _ \<Rightarrow> 3)"

definition exitCode :: "Result \<Rightarrow> int" where
  "exitCode r = (if r_RenderFormat r = PrometheusFormat then 0 else nagiosCode r)"

definition prepare :: "Result \<Rightarrow> Result" where
  "prepare r = r\<lparr> r_Status := (if r_Criticals r \<noteq> [] then CriticalStatus else if r_Warnings r \<noteq> [] then WarningStatus else OKStatus) \<rparr>"

subsection \<open>The Nagios line\<close>

text \<open>\<open>fmt\<close> with \<open>%0.<k>f\<close>: to the nearest, ties to even.\<close>

definition pad_zeros :: "nat \<Rightarrow> string \<Rightarrow> string" where
  "pad_zeros k s = replicate (k - length s) (CHR ''0'') @ s"

definition format_fixed :: "nat \<Rightarrow> rat \<Rightarrow> string" where
  "format_fixed k x =
     (let n = nat (round_even (\<bar>x\<bar> * 10 ^ k))
      in (if x < 0 then ''-'' else []) @ itoa (n div 10 ^ k) @ (if k = 0 then [] else ''.'' @ pad_zeros k (itoa (n mod 10 ^ k))))"

definition PerfDataItem_String :: "PerfDataItem \<Rightarrow> string" where
  "PerfDataItem_String i =
     (let value = format_fixed (if pd_Unit i = ''s'' then 4 else 0);
          name = (if contains_any (pd_Name i) ('' '' @ [CHR 0x09]) then [CHR 0x27] @ pd_Name i @ [CHR 0x27] else pd_Name i);
          pd = name @ ''='' @ value (pd_Value i) @ pd_Unit i
      in if pd_Warn i \<noteq> 0 \<or> pd_Crit i \<noteq> 0 then
           (let pd1 = (if pd_Warn i \<noteq> 0 then pd @ '';'' @ value (pd_Warn i) else if pd_Crit i \<noteq> 0 then pd @ '';'' else pd)
            in if pd_Crit i \<noteq> 0 then pd1 @ '';'' @ value (pd_Crit i) else pd1)
         else pd)"

definition PerfData_String :: "PerfDataItem list \<Rightarrow> string" where
  "PerfData_String p = trim_space (join_with '' '' (map PerfDataItem_String p))"

definition Status_text :: "Status \<Rightarrow> string" where
  "Status_text s = (case s of NoStatus \<Rightarrow> [] | OKStatus \<Rightarrow> ''OK'' | WarningStatus \<Rightarrow> ''WARNING'' | CriticalStatus \<Rightarrow> ''CRITICAL''
     | UnknownStatus \<Rightarrow> ''UNKNOWN'')"

text \<open>\<open>sprintf\<close> is \<open>fmt.Sprintf\<close> on the messages.\<close>

definition renderNagios :: "(report_line \<Rightarrow> string) \<Rightarrow> Result \<Rightarrow> string" where
  "renderNagios sprintf r =
     (let res = [r_Name r] @ map (\<lambda>c. ''Crit:'' @ sprintf c) (r_Criticals r) @ map (\<lambda>w. ''Warn:'' @ sprintf w) (r_Warnings r) @
            (if r_Output r \<noteq> [] then [r_Output r] else map (\<lambda>k. ''OK:'' @ sprintf k) (r_OKs r));
          line = Status_text (r_Status r) @ '' '' @ join_with '' '' res
      in if r_PerfData r = [] then line else line @ '' | '' @ PerfData_String (r_PerfData r))"

subsection \<open>What checks add\<close>

text \<open>The verdicts a check adds, in the order of severity; the severity of a result.\<close>

definition severity :: "Result \<Rightarrow> nat" where
  "severity r = (if r_Criticals r \<noteq> [] then 2 else if r_Warnings r \<noteq> [] then 1 else 0)"

named_theorems check_defs

lemmas result_defs = Pd_def Criticalf_def Warnf_def Okf_def

lemma severity_simps [simp]:
  "severity (Pd pd r) = severity r"
  "severity (Criticalf f a r) = 2"
  "severity (Warnf f a r) = max 1 (severity r)"
  "severity (Okf f a r) = severity r"
  by (auto simp: severity_def result_defs)

lemma severity_new [simp]: "severity (new_result name) = 0"
  by (simp add: severity_def new_result_def)

lemma severity_le: "severity r \<le> 2"
  by (simp add: severity_def)

lemma exit_is_severity:
  "exitCode (prepare r) = (if r_RenderFormat r = PrometheusFormat then 0 else int (severity r))"
  by (simp add: exitCode_def nagiosCode_def prepare_def severity_def)

text \<open>A check that only adds: it clears no verdict and its own severity does not depend on what was there.\<close>

definition adds :: "nat \<Rightarrow> (Result \<Rightarrow> Result) \<Rightarrow> bool" where
  "adds s c \<longleftrightarrow> (\<forall>r. severity (c r) = max s (severity r))"

lemma adds_id [intro]: "adds 0 (\<lambda>r. r)" "adds 0 id"
  by (simp_all add: adds_def)

lemma adds_comp: "adds s c \<Longrightarrow> adds t d \<Longrightarrow> adds (max s t) (\<lambda>r. d (c r))"
  by (auto simp: adds_def)

lemma adds_basic [intro]: "adds 0 (Pd pd)" "adds 2 (Criticalf f a)" "adds 1 (Warnf f a)" "adds 0 (Okf f a)"
  using severity_le by (auto simp: adds_def max_absorb1)

lemma adds_D: "adds s c \<Longrightarrow> severity (c r) = max s (severity r)"
  by (simp add: adds_def)

end
