(* ===== verification/Audit_Tags.thy ===== *)
theory Audit_Tags
  imports Context_Paths Monitor_Result
begin

text \<open>
  The tags of an audit archive (\<open>src/audit/archive/tag.go\<close>) and the file names made of them. A name
  that the archive stores is made of tag values, which may not contain path separators; the theorems
  say where such a name can lie.
\<close>

subsection \<open>Tags\<close>

type_synonym TagLabel = string

record Tag =
  t_Name :: TagLabel
  t_Value :: string

definition serverTagLabel :: TagLabel where "serverTagLabel = ''server''"
definition clusterTagLabel :: TagLabel where "clusterTagLabel = ''cluster''"
definition accountTagLabel :: TagLabel where "accountTagLabel = ''account''"
definition streamTagLabel :: TagLabel where "streamTagLabel = ''stream''"
definition typeTagLabel :: TagLabel where "typeTagLabel = ''artifact_type''"
definition profileNameTagLabel :: TagLabel where "profileNameTagLabel = ''profile_name''"
definition specialTagLabel :: TagLabel where "specialTagLabel = ''special''"

lemmas tag_labels = serverTagLabel_def clusterTagLabel_def accountTagLabel_def streamTagLabel_def typeTagLabel_def
  profileNameTagLabel_def specialTagLabel_def

definition healtzArtifactType :: string where "healtzArtifactType = ''health''"
definition varzArtifactType :: string where "varzArtifactType = ''variables''"
definition expvarzArtifactType :: string where "expvarzArtifactType = ''exp_variables''"
definition connzArtifactType :: string where "connzArtifactType = ''connections''"
definition routezArtifactType :: string where "routezArtifactType = ''routes''"
definition gatewayzArtifactType :: string where "gatewayzArtifactType = ''gateways''"
definition leafzArtifactType :: string where "leafzArtifactType = ''leafs''"
definition subzArtifactType :: string where "subzArtifactType = ''subs''"
definition jszArtifactType :: string where "jszArtifactType = ''jetstream_info''"
definition accountzArtifactType :: string where "accountzArtifactType = ''accounts''"
definition accountConnectionsArtifactType :: string where "accountConnectionsArtifactType = ''account_connections''"
definition accountLeafsArtifactType :: string where "accountLeafsArtifactType = ''account_leafs''"
definition accountSubsArtifactType :: string where "accountSubsArtifactType = ''account_subs''"
definition accountJetStreamArtifactType :: string where "accountJetStreamArtifactType = ''account_jetstream_info''"
definition accountRaftzArtifactType :: string where "accountRaftzArtifactType = ''account_raftz''"
definition accountIpqueueszArtifactType :: string where "accountIpqueueszArtifactType = ''account_ipqueues''"
definition accountInfoArtifactType :: string where "accountInfoArtifactType = ''account_info''"
definition streamDetailsArtifactType :: string where "streamDetailsArtifactType = ''stream_info''"
definition manifestArtifactName :: string where "manifestArtifactName = ''manifest''"
definition profileArtifactType :: string where "profileArtifactType = ''profile''"

definition noCluster :: string where "noCluster = ''unclustered''"
definition rootDirectory :: string where "rootDirectory = ''capture''"
definition specialFilesDirectory :: string where "specialFilesDirectory = ''misc''"
definition separator :: string where "separator = ''__''"

definition TagArtifactType :: "string \<Rightarrow> Tag" where
  "TagArtifactType artifactType = \<lparr> t_Name = typeTagLabel, t_Value = artifactType \<rparr>"

definition TagServerHealth :: Tag where "TagServerHealth = TagArtifactType healtzArtifactType"
definition TagServerVars :: Tag where "TagServerVars = TagArtifactType varzArtifactType"
definition TagServerExpVars :: Tag where "TagServerExpVars = TagArtifactType expvarzArtifactType"
definition TagServerConnections :: Tag where "TagServerConnections = TagArtifactType connzArtifactType"
definition TagServerRoutes :: Tag where "TagServerRoutes = TagArtifactType routezArtifactType"
definition TagServerSubs :: Tag where "TagServerSubs = TagArtifactType subzArtifactType"
definition TagAccountConnections :: Tag where "TagAccountConnections = TagArtifactType accountConnectionsArtifactType"
definition TagAccountLeafs :: Tag where "TagAccountLeafs = TagArtifactType accountLeafsArtifactType"
definition TagAccountSubs :: Tag where "TagAccountSubs = TagArtifactType accountSubsArtifactType"
definition TagAccountJetStream :: Tag where "TagAccountJetStream = TagArtifactType accountJetStreamArtifactType"
definition TagAccountRaftz :: Tag where "TagAccountRaftz = TagArtifactType accountRaftzArtifactType"
definition TagAccountIpqueuesz :: Tag where "TagAccountIpqueuesz = TagArtifactType accountIpqueueszArtifactType"
definition TagServerGateways :: Tag where "TagServerGateways = TagArtifactType gatewayzArtifactType"
definition TagServerLeafs :: Tag where "TagServerLeafs = TagArtifactType leafzArtifactType"
definition TagServerJetStream :: Tag where "TagServerJetStream = TagArtifactType jszArtifactType"
definition TagServerAccounts :: Tag where "TagServerAccounts = TagArtifactType accountzArtifactType"
definition TagAccountInfo :: Tag where "TagAccountInfo = TagArtifactType accountInfoArtifactType"
definition TagStreamInfo :: Tag where "TagStreamInfo = TagArtifactType streamDetailsArtifactType"
definition TagServerProfile :: Tag where "TagServerProfile = TagArtifactType profileArtifactType"
definition TagServer :: "string \<Rightarrow> Tag" where "TagServer n = \<lparr> t_Name = serverTagLabel, t_Value = n \<rparr>"
definition TagCluster :: "string \<Rightarrow> Tag" where "TagCluster n = \<lparr> t_Name = clusterTagLabel, t_Value = n \<rparr>"
definition TagNoCluster :: Tag where "TagNoCluster = \<lparr> t_Name = clusterTagLabel, t_Value = noCluster \<rparr>"
definition TagAccount :: "string \<Rightarrow> Tag" where "TagAccount n = \<lparr> t_Name = accountTagLabel, t_Value = n \<rparr>"
definition TagStream :: "string \<Rightarrow> Tag" where "TagStream n = \<lparr> t_Name = streamTagLabel, t_Value = n \<rparr>"
definition TagProfileName :: "string \<Rightarrow> Tag" where "TagProfileName n = \<lparr> t_Name = profileNameTagLabel, t_Value = n \<rparr>"
definition TagSpecial :: "string \<Rightarrow> Tag" where "TagSpecial n = \<lparr> t_Name = specialTagLabel, t_Value = n \<rparr>"
definition internalTagManifest :: Tag where "internalTagManifest = TagSpecial manifestArtifactName"

subsection \<open>File names\<close>

text \<open>
  The errors of the package. \<open>MissingTags\<close> lists the required tags that are missing; the message names
  the one the iteration over a map meets first.
\<close>

datatype archive_error =
    NotPathComponent string string
  | HasSeparator string string
  | NoTags
  | SpecialNotAlone string
  | MultipleValues string
  | CustomTags
  | MissingTags "string list"
  | StreamWithoutAccount
  | MissingProfileName
  | ClosedWriter
  | EncodeFailed
  | ZipCreate string
  | ZipCopy string
  | NonPagedPage nat
  | AddManifest archive_error
  | ZipClose
  | FileClose
  | OpenArchive
  | ManifestNotFound
  | BadManifest
  | FileNotInArchive string
  | NoMatches
  | MultipleMatches
  | FileNotExist
  | OpenFile string
  | DecodeFile string
  | Panicked string
  | Described string "string list" archive_error
  | BadMonitorMeta meta_error

text \<open>\<open>filepath.IsLocal\<close> on a system with \<open>/\<close>.\<close>

definition filepath_IsLocal :: "string \<Rightarrow> bool" where
  "filepath_IsLocal p =
     (if is_rooted p \<or> p = [] then False
      else (let hasDots = list_ex (\<lambda>e. e = ''.'' \<or> e = ''..'') (split_on (CHR ''/'') p);
                q = (if hasDots then filepath_Clean p else p)
            in \<not> (q = ''..'' \<or> has_prefix q ''../'')))"

definition validatePathComponent :: "string \<Rightarrow> string \<Rightarrow> archive_error option" where
  "validatePathComponent label v =
     (if \<not> filepath_IsLocal v then Some (NotPathComponent label v)
      else if contains_any v [CHR ''/'', CHR 0x5C] then Some (HasSeparator label v)
      else None)"

text \<open>The tags by label, at most one value for a dimension, and the tags that are no dimension.\<close>

definition dimensionTagsNames :: "TagLabel list" where
  "dimensionTagsNames = [accountTagLabel, clusterTagLabel, serverTagLabel, streamTagLabel, typeTagLabel, profileNameTagLabel]"

fun save_tags :: "Tag list \<Rightarrow> (TagLabel, Tag) gomap \<Rightarrow> Tag list \<Rightarrow> archive_error + (TagLabel, Tag) gomap \<times> Tag list" where
  "save_tags [] dims others = Inr (dims, others)"
| "save_tags (tag # tags) dims others =
     (if t_Name tag = specialTagLabel then Inl (SpecialNotAlone (t_Value tag))
      else if t_Name tag \<in> set dimensionTagsNames then
        (if map_of dims (t_Name tag) \<noteq> None then Inl (MultipleValues (t_Name tag))
         else save_tags tags ((t_Name tag, tag) # dims) others)
      else save_tags tags dims (others @ [tag]))"

text \<open>The dimensions whose value is no path component, in the order of the checks.\<close>

fun validate_dims :: "(TagLabel, Tag) gomap \<Rightarrow> TagLabel list \<Rightarrow> archive_error option" where
  "validate_dims dims [] = None"
| "validate_dims dims (l # ls) =
     (case map_of dims l of
        None \<Rightarrow> validate_dims dims ls
      | Some tag \<Rightarrow> (case validatePathComponent l (t_Value tag) of None \<Rightarrow> validate_dims dims ls | Some e \<Rightarrow> Some e))"

definition missing_required :: "(TagLabel, Tag) gomap \<Rightarrow> string list" where
  "missing_required dims =
     map snd (filter (\<lambda>(l, _). map_of dims l = None)
       [(typeTagLabel, ''artifact type''), (clusterTagLabel, ''source cluster''), (serverTagLabel, ''source server'')])"

text \<open>The elements of the file name of tags that passed the checks; every required tag is there.\<close>

definition dimension_elems :: "string \<Rightarrow> (TagLabel, Tag) gomap \<Rightarrow> archive_error + string list" where
  "dimension_elems extension dims =
     (let val = (\<lambda>l. t_Value (the (map_of dims l)));
          file = val typeTagLabel @ ''.'' @ extension;
          replica = val clusterTagLabel @ separator @ val serverTagLabel
      in if map_of dims streamTagLabel \<noteq> None then
           (if map_of dims accountTagLabel = None then Inl StreamWithoutAccount
            else Inr [rootDirectory, ''accounts'', val accountTagLabel, ''streams'', val streamTagLabel, ''replicas'', replica, file])
         else if map_of dims accountTagLabel \<noteq> None then
           Inr [rootDirectory, ''accounts'', val accountTagLabel, ''servers'', replica, file]
         else if val typeTagLabel = profileArtifactType then
           (if map_of dims profileNameTagLabel = None then Inl MissingProfileName
            else Inr [rootDirectory, ''profiles'', val clusterTagLabel,
                      val serverTagLabel @ separator @ val profileNameTagLabel @ ''.'' @ extension])
         else Inr [rootDirectory, ''clusters'', val clusterTagLabel, val serverTagLabel, file])"

definition filename_elems :: "string \<Rightarrow> Tag list \<Rightarrow> archive_error + string list" where
  "filename_elems extension tags =
     (if tags = [] then Inl NoTags
      else case validatePathComponent ''extension'' extension of
             Some e \<Rightarrow> Inl e
           | None \<Rightarrow>
               if length tags = 1 \<and> t_Name (hd tags) = specialTagLabel then
                 (case validatePathComponent specialTagLabel (t_Value (hd tags)) of
                    Some e \<Rightarrow> Inl e
                  | None \<Rightarrow> Inr [rootDirectory, specialFilesDirectory, t_Value (hd tags) @ ''.'' @ extension])
               else case save_tags tags [] [] of
                      Inl e \<Rightarrow> Inl e
                    | Inr (dims, others) \<Rightarrow>
                        if others \<noteq> [] then Inl CustomTags
                        else if missing_required dims \<noteq> [] then Inl (MissingTags (missing_required dims))
                        else case validate_dims dims dimensionTagsNames of
                               Some e \<Rightarrow> Inl e
                             | None \<Rightarrow> dimension_elems extension dims)"

definition createFilenameFromTags :: "string \<Rightarrow> Tag list \<Rightarrow> archive_error + string" where
  "createFilenameFromTags extension tags =
     (case filename_elems extension tags of Inl e \<Rightarrow> Inl e | Inr es \<Rightarrow> Inr (filepath_Join es))"

definition dirNameFromTags :: "Tag list \<Rightarrow> archive_error + string" where
  "dirNameFromTags tags =
     (case createFilenameFromTags ''json'' tags of
        Inl e \<Rightarrow> Inl e
      | Inr fullPath \<Rightarrow>
          (let base = filepath_Base fullPath
           in Inr (filepath_Join [filepath_Dir fullPath, trim_suffix base (filepath_Ext base)])))"

definition isNonPagedArtifact :: "Tag list \<Rightarrow> bool" where
  "isNonPagedArtifact tags \<longleftrightarrow>
     list_ex (\<lambda>t. t_Name t = specialTagLabel \<or> (t_Name t = typeTagLabel \<and> t_Value t = profileArtifactType)) tags"

text \<open>The name of a page: \<open>%04d.<extension>\<close>.\<close>

definition page_name :: "nat \<Rightarrow> string \<Rightarrow> string" where
  "page_name i extension = pad_zeros 4 (itoa i) @ ''.'' @ extension"

subsection \<open>Where the names lie\<close>

text \<open>An element that is a single directory or file name, or the dot that \<open>Join\<close> drops.\<close>

definition near_plain :: "string \<Rightarrow> bool" where
  "near_plain e \<longleftrightarrow> e = ''.'' \<or> plain_elem e"

lemma valid_component: "validatePathComponent l v = None \<Longrightarrow> near_plain v"
proof -
  assume v: "validatePathComponent l v = None"
  then have loc: "filepath_IsLocal v" and sep: "CHR ''/'' \<notin> set v"
    by (auto simp: validatePathComponent_def contains_any_def list_ex_iff split: if_splits)
  have "v \<noteq> ''..''" using loc by (auto simp: filepath_IsLocal_def filepath_Clean_def is_rooted_def has_prefix_def)
  moreover have "v \<noteq> []" using loc by (auto simp: filepath_IsLocal_def)
  ultimately show ?thesis using sep by (simp add: near_plain_def plain_elem_def)
qed

lemma near_plain_parts: "near_plain e \<Longrightarrow> e \<noteq> [] \<and> CHR ''/'' \<notin> set e"
  by (auto simp: near_plain_def plain_elem_def)

lemma near_plain_glue: "near_plain a \<Longrightarrow> near_plain b \<Longrightarrow> plain_elem (a @ ''.'' @ b)" "near_plain a \<Longrightarrow> near_plain b \<Longrightarrow> plain_elem (a @ separator @ b)"
  using near_plain_parts [of a] near_plain_parts [of b]
  by (cases a; cases b; auto simp: plain_elem_def separator_def append_eq_Cons_conv)+

lemma clean_path_near: "list_all near_plain es \<Longrightarrow> clean_path False es done = List.rev done @ filter (\<lambda>e. e \<noteq> ''.'') es"
  by (induction es arbitrary: "done") (auto simp: near_plain_def plain_elem_def)

lemma Join_near:
  assumes "list_all near_plain (e # es)" and "e \<noteq> ''.''"
  shows "filepath_Join (e # es) = path_of False (e # filter (\<lambda>e. e \<noteq> ''.'') es)"
proof -
  have e: "e \<noteq> []" "CHR ''/'' \<notin> set e" using assms(1) near_plain_parts [of e] by simp_all
  have no: "\<forall>t \<in> set (e # es). CHR ''/'' \<notin> set t" using assms(1) near_plain_parts by (auto simp: list_all_iff)
  have sp: "split_on (CHR ''/'') (join_with ''/'' (e # es)) = e # es" using no by (intro split_join) auto
  obtain c cs where c: "e = c # cs" "c \<noteq> CHR ''/''" using e by (cases e) auto
  have "\<not> is_rooted (join_with ''/'' (e # es))" using c by (cases es) (auto simp: is_rooted_iff)
  then show ?thesis using e(1) assms
    by (simp add: filepath_Clean_def sp clean_path_near path_of_def Let_def near_plain_def plain_elem_def)
qed

text \<open>The elements of a file name: the root directory, elements of the tags, a last one with the extension.\<close>

lemma validate_dims_None: "validate_dims dims ls = None \<Longrightarrow> l \<in> set ls \<Longrightarrow> map_of dims l = Some tag \<Longrightarrow> near_plain (t_Value tag)"
proof (induction ls)
  case (Cons a ls)
  then show ?case using valid_component [of l "t_Value tag"] by (auto split: option.splits)
qed simp

lemma near_plain_const: "near_plain rootDirectory" "near_plain specialFilesDirectory" "near_plain ''accounts''" "near_plain ''streams''"
  "near_plain ''replicas''" "near_plain ''servers''" "near_plain ''profiles''" "near_plain ''clusters''" "rootDirectory \<noteq> ''.''"
  by (simp_all add: near_plain_def plain_elem_def rootDirectory_def specialFilesDirectory_def)

lemma plain_near: "plain_elem e \<Longrightarrow> near_plain e"
  by (simp add: near_plain_def)

lemma filename_elems_shape:
  assumes "filename_elems extension tags = Inr es"
  obtains mid stem where "es = rootDirectory # mid @ [stem @ ''.'' @ extension]" "list_all near_plain mid" "near_plain stem" "near_plain extension"
proof -
  have ext: "near_plain extension" using assms valid_component unfolding filename_elems_def by (auto split: if_splits option.splits)
  show thesis
  proof (cases "length tags = 1 \<and> t_Name (hd tags) = specialTagLabel")
    case True
    then have "es = rootDirectory # [specialFilesDirectory] @ [t_Value (hd tags) @ ''.'' @ extension]"
      and "near_plain (t_Value (hd tags))"
      using assms valid_component unfolding filename_elems_def by (auto split: if_splits option.splits)
    then show thesis using ext near_plain_const by (intro that) auto
  next
    case False
    then obtain dims where dims: "missing_required dims = []" "validate_dims dims dimensionTagsNames = None" "dimension_elems extension dims = Inr es"
      using assms unfolding filename_elems_def by (auto split: if_splits option.splits sum.splits)
    have val: "near_plain (t_Value (the (map_of dims l)))" if "l \<in> set dimensionTagsNames" "map_of dims l \<noteq> None" for l
      using validate_dims_None [OF dims(2) that(1)] that(2) by auto
    have req: "map_of dims l \<noteq> None" if "l \<in> {typeTagLabel, clusterTagLabel, serverTagLabel}" for l
      using dims(1) that by (auto simp: missing_required_def split: if_splits)
    have names: "set dimensionTagsNames = {accountTagLabel, clusterTagLabel, serverTagLabel, streamTagLabel, typeTagLabel, profileNameTagLabel}"
      by (simp add: dimensionTagsNames_def)
    note v = val [unfolded names, simplified] req [simplified]
    note glue = plain_near [OF near_plain_glue(1)] plain_near [OF near_plain_glue(2)]
    let ?v = "\<lambda>l. t_Value (the (map_of dims l))"
    let ?replica = "?v clusterTagLabel @ separator @ ?v serverTagLabel"
    consider
        (stream) "map_of dims streamTagLabel \<noteq> None" "map_of dims accountTagLabel \<noteq> None"
          "es = rootDirectory # [''accounts'', ?v accountTagLabel, ''streams'', ?v streamTagLabel, ''replicas'', ?replica] @
             [?v typeTagLabel @ ''.'' @ extension]"
      | (account) "map_of dims accountTagLabel \<noteq> None"
          "es = rootDirectory # [''accounts'', ?v accountTagLabel, ''servers'', ?replica] @ [?v typeTagLabel @ ''.'' @ extension]"
      | (profile) "map_of dims profileNameTagLabel \<noteq> None"
          "es = rootDirectory # [''profiles'', ?v clusterTagLabel] @
             [(?v serverTagLabel @ separator @ ?v profileNameTagLabel) @ ''.'' @ extension]"
      | (server) "es = rootDirectory # [''clusters'', ?v clusterTagLabel, ?v serverTagLabel] @ [?v typeTagLabel @ ''.'' @ extension]"
      using dims(3) unfolding dimension_elems_def Let_def by (simp split: if_splits)
    then show thesis
      by cases (erule that; use ext v near_plain_const in \<open>simp add: glue\<close>)+
  qed
qed

text \<open>Clean paths below the root directory of the archive.\<close>

definition captured_path :: "string list \<Rightarrow> string" where
  "captured_path es = path_of False (rootDirectory # es)"

lemma root_plain: "plain_elem rootDirectory"
  by (simp add: plain_elem_def rootDirectory_def)

lemma kept_plain: "list_all plain_elem es \<Longrightarrow> kept_elems b (List.rev es)"
  by (induction es rule: rev_induct) (auto intro: kept_elems_Cons)

lemma captured_clean: "list_all plain_elem es \<Longrightarrow> clean_dir (captured_path es)"
  unfolding captured_path_def using root_plain kept_plain [of "rootDirectory # es" False]
  by (intro clean_dirI) (auto simp: list_all_iff)

lemma captured_snoc: "captured_path (es @ [e]) = captured_path es @ ''/'' @ e"
  using path_of_snoc [of "rootDirectory # es" False e] by (simp add: captured_path_def)

lemma captured_inj:
  assumes "list_all plain_elem es" "list_all plain_elem fs" "captured_path es = captured_path fs"
  shows "es = fs"
proof -
  have "split_on (CHR ''/'') (captured_path gs) = rootDirectory # gs" if gs: "list_all plain_elem gs" for gs
  proof -
    have "list_all plain_elem (rootDirectory # gs)" using gs root_plain by simp
    from split_path_of(1) [OF kept_plain [OF this], of False] show ?thesis by (simp add: captured_path_def)
  qed
  from this [OF assms(1)] this [OF assms(2)] have "rootDirectory # es = rootDirectory # fs" unfolding assms(3) by (rule trans [OF sym])
  then show ?thesis by simp
qed

lemma filter_near: "list_all near_plain es \<Longrightarrow> list_all plain_elem (filter (\<lambda>e. e \<noteq> ''.'') es)"
  by (auto simp: list_all_iff near_plain_def)

lemma filename_shape:
  assumes "createFilenameFromTags extension tags = Inr p"
  obtains mid stem where "p = captured_path (filter (\<lambda>e. e \<noteq> ''.'') mid @ [stem @ ''.'' @ extension])"
    "list_all near_plain mid" "near_plain stem" "near_plain extension"
    "filename_elems extension tags = Inr (rootDirectory # mid @ [stem @ ''.'' @ extension])"
proof -
  obtain es where es: "filename_elems extension tags = Inr es" "p = filepath_Join es"
    using assms by (auto simp: createFilenameFromTags_def split: sum.splits)
  from filename_elems_shape [OF es(1)] obtain mid stem
    where shape: "es = rootDirectory # mid @ [stem @ ''.'' @ extension]" "list_all near_plain mid" "near_plain stem" "near_plain extension"
    by blast
  have fplain: "plain_elem (stem @ ''.'' @ extension)" using near_plain_glue(1) shape by blast
  then have "stem @ ''.'' @ extension \<noteq> ''.''" by (simp add: plain_elem_def)
  moreover have "list_all near_plain (rootDirectory # mid @ [stem @ ''.'' @ extension])"
    using shape(2) near_plain_const(1) plain_near [OF fplain] by simp
  ultimately have "p = captured_path (filter (\<lambda>e. e \<noteq> ''.'') mid @ [stem @ ''.'' @ extension])"
    using Join_near [of rootDirectory "mid @ [stem @ ''.'' @ extension]"] near_plain_const(9)
    by (simp add: es(2) shape(1) captured_path_def)
  then show thesis using shape es(1) by (intro that) simp_all
qed

lemma filename_captured:
  assumes "createFilenameFromTags extension tags = Inr p"
  shows "\<exists>es. p = captured_path es \<and> es \<noteq> [] \<and> list_all plain_elem es"
proof -
  from filename_shape [OF assms] obtain mid stem where "p = captured_path (filter (\<lambda>e. e \<noteq> ''.'') mid @ [stem @ ''.'' @ extension])"
    "list_all near_plain mid" "near_plain stem" "near_plain extension" by blast
  then show ?thesis using filter_near near_plain_glue(1)
    by (intro exI [of _ "filter (\<lambda>e. e \<noteq> ''.'') mid @ [stem @ ''.'' @ extension]"]) auto
qed

lemma takeWhile_until: "\<not> P c \<Longrightarrow> \<forall>x \<in> set xs. P x \<Longrightarrow> takeWhile P (xs @ c # ys) = xs \<and> dropWhile P (xs @ c # ys) = c # ys"
  by (induction xs) auto

lemma json_file_ext: "CHR ''/'' \<notin> set stem \<Longrightarrow> filepath_Ext (stem @ ''.json'') = ''.json''"
proof -
  assume "CHR ''/'' \<notin> set stem"
  then have b: "takeWhile (\<lambda>c. c \<noteq> CHR ''/'') (List.rev (stem @ ''.json'')) = List.rev (stem @ ''.json'')"
    by (auto simp: takeWhile_eq_all_conv)
  show ?thesis unfolding filepath_Ext_def b Let_def rev_rev_ident
    by simp
qed

lemma dirName_shape:
  assumes "dirNameFromTags tags = Inr d"
  obtains mid stem where "d = captured_path (filter (\<lambda>e. e \<noteq> ''.'') (mid @ [stem]))" "list_all near_plain (mid @ [stem])"
    "filename_elems ''json'' tags = Inr (rootDirectory # mid @ [stem @ ''.json''])"
proof -
  obtain p where p: "createFilenameFromTags ''json'' tags = Inr p"
    and d: "d = filepath_Join [filepath_Dir p, trim_suffix (filepath_Base p) (filepath_Ext (filepath_Base p))]"
    using assms by (auto simp: dirNameFromTags_def Let_def split: sum.splits)
  from filename_shape [OF p] obtain mid stem where "p = captured_path (filter (\<lambda>e. e \<noteq> ''.'') mid @ [stem @ ''.'' @ ''json''])"
    "list_all near_plain mid" "near_plain stem" "near_plain ''json''"
      and elems: "filename_elems ''json'' tags = Inr (rootDirectory # mid @ [stem @ ''.'' @ ''json''])" by blast
  then have shape: "p = captured_path (filter (\<lambda>e. e \<noteq> ''.'') mid @ [stem @ ''.json''])"
    "list_all near_plain mid" "near_plain stem" "plain_elem (stem @ ''.json'')" using near_plain_glue(1) [of stem "''json''"] by simp_all
  let ?es = "filter (\<lambda>e. e \<noteq> ''.'') mid"
  have es: "list_all plain_elem ?es" using filter_near [OF shape(2)] .
  have split: "p = captured_path ?es @ ''/'' @ (stem @ ''.json'')" using shape(1) captured_snoc by simp
  have base: "filepath_Base p = stem @ ''.json''" unfolding split using child_Base [OF shape(4)] .
  have dir: "filepath_Dir p = captured_path ?es" unfolding split using child_Dir [OF captured_clean [OF es] shape(4)] .
  have "trim_suffix (stem @ ''.json'') ''.json'' = stem" by (simp add: trim_suffix_def has_suffix_def)
  then have d': "d = filepath_Join [captured_path ?es, stem]"
    using d base dir json_file_ext near_plain_parts [OF shape(3)] by simp
  have "d = captured_path (filter (\<lambda>e. e \<noteq> ''.'') (mid @ [stem]))"
  proof (cases "stem = ''.''")
    case True
    have dot: "list_all near_plain (rootDirectory # ?es @ [''.''])"
      using shape(2) near_plain_const(1) by (auto simp: list_all_iff near_plain_def)
    have "filepath_Clean (captured_path ?es @ ''/.'') = filepath_Join (rootDirectory # ?es @ [''.''])"
      using join_with_snoc [of "rootDirectory # ?es" "''/''" "''.''"] by (simp add: captured_path_def path_of_def rootDirectory_def)
    also have "\<dots> = captured_path ?es" using Join_near [OF dot near_plain_const(9)] by (simp add: captured_path_def)
    finally have "filepath_Clean (captured_path ?es @ ''/.'') = captured_path ?es" .
    moreover have "captured_path ?es \<noteq> []" by (cases ?es) (simp_all add: captured_path_def path_of_def rootDirectory_def)
    ultimately show ?thesis using d' True by simp
  next
    case False
    then have "plain_elem stem" using shape(3) by (simp add: near_plain_def)
    then have "d = captured_path (?es @ [stem])" using d' clean_dir_child(2) [OF captured_clean [OF es]] captured_snoc by simp
    then show ?thesis using False by simp
  qed
  then show thesis using elems shape(2,3) by (intro that) simp_all
qed

lemma dirName_captured:
  assumes "dirNameFromTags tags = Inr d"
  shows "\<exists>es. d = captured_path es \<and> list_all plain_elem es"
proof -
  from dirName_shape [OF assms] obtain mid stem where "d = captured_path (filter (\<lambda>e. e \<noteq> ''.'') (mid @ [stem]))"
    "list_all near_plain (mid @ [stem])" by blast
  then show ?thesis using filter_near by blast
qed

end
