(* ===== verification/Audit_Archive.thy ===== *)
theory Audit_Archive
  imports Audit_Tags
begin

text \<open>
  Writing and reading an audit archive (\<open>src/audit/archive/writer.go\<close>, \<open>paged_writer.go\<close>, \<open>reader.go\<close>).
  A zip file is the list of its entries in the order they were created; the body of one that cannot be
  opened is \<open>None\<close>. What an entry holds is of type \<open>'c\<close>; \<open>encoding/json\<close> is the functions that make it and
  read it. Every write takes the failure it meets.
\<close>

subsection \<open>The writer\<close>

record 'c zip_File =
  zf_Name :: string
  zf_Modified :: gotime
  zf_Body :: "'c option"

text \<open>A write fails before its entry is created, or after a part of the content was copied.\<close>

datatype 'c zip_fault = NoFault | CreateFails | CopyFails 'c

record pagedWriter =
  pw_dir :: string
  pw_pageIndex :: nat
  pw_ts :: "gotime option"

record 'c Writer =
  w_zipOpen :: bool
  w_fileOpen :: bool
  w_entries :: "'c zip_File list"
  w_manifestMap :: "(string, Tag list) gomap"
  w_ts :: "gotime option"
  w_pagedWriters :: "(string, pagedWriter) gomap"

definition NewWriter :: "'c Writer" where
  "NewWriter = \<lparr> w_zipOpen = True, w_fileOpen = True, w_entries = [], w_manifestMap = [], w_ts = None, w_pagedWriters = [] \<rparr>"

definition SetTime :: "gotime \<Rightarrow> 'c Writer \<Rightarrow> 'c Writer" where
  "SetTime t w = w\<lparr> w_ts := Some t \<rparr>"

definition tsToUTC :: "gotime \<Rightarrow> gotime option \<Rightarrow> gotime" where
  "tsToUTC now ts = (case ts of Some t \<Rightarrow> t | None \<Rightarrow> now)"

text \<open>\<open>CreateHeader\<close> and \<open>io.Copy\<close>.\<close>

definition zip_write :: "'c zip_fault \<Rightarrow> string \<Rightarrow> gotime \<Rightarrow> 'c \<Rightarrow> 'c Writer \<Rightarrow> archive_error option \<times> 'c Writer" where
  "zip_write fault name modified content w =
     (let add = (\<lambda>c. w\<lparr> w_entries := w_entries w @ [\<lparr> zf_Name = name, zf_Modified = modified, zf_Body = Some c \<rparr>] \<rparr>)
      in case fault of
           NoFault \<Rightarrow> (None, add content)
         | CreateFails \<Rightarrow> (Some (ZipCreate name), w)
         | CopyFails part \<Rightarrow> (Some (ZipCopy name), add part))"

definition newPagedWriter :: "string \<Rightarrow> gotime option \<Rightarrow> pagedWriter" where
  "newPagedWriter dir ts = \<lparr> pw_dir = dir, pw_pageIndex = 1, pw_ts = ts \<rparr>"

definition PagedWriter :: "string \<Rightarrow> 'c Writer \<Rightarrow> pagedWriter \<times> 'c Writer" where
  "PagedWriter dir w =
     (case map_of (w_pagedWriters w) dir of
        Some pw \<Rightarrow> (pw, w)
      | None \<Rightarrow> (let pw = newPagedWriter dir (w_ts w)
                 in (pw, w\<lparr> w_pagedWriters := AList.update dir pw (w_pagedWriters w) \<rparr>)))"

text \<open>The paged writer is shared through the map of the writer, where its counter is stepped.\<close>

definition WriteEntry :: "'c zip_fault \<Rightarrow> gotime \<Rightarrow> pagedWriter \<Rightarrow> 'c \<Rightarrow> 'c Writer \<Rightarrow> archive_error option \<times> 'c Writer" where
  "WriteEntry fault now pw content w =
     (let name = filepath_Join [pw_dir pw, page_name (pw_pageIndex pw) ''json'']
      in case zip_write fault name (tsToUTC now (pw_ts pw)) content w of
           (Some e, w1) \<Rightarrow> (Some e, w1)
         | (None, w1) \<Rightarrow>
             (None, w1\<lparr> w_pagedWriters := AList.update (pw_dir pw) (pw\<lparr> pw_pageIndex := pw_pageIndex pw + 1 \<rparr>) (w_pagedWriters w1) \<rparr>))"

definition manifest_path :: "nat \<Rightarrow> string \<Rightarrow> Tag list \<Rightarrow> archive_error + string" where
  "manifest_path pageIndex extension tags =
     (if isNonPagedArtifact tags then
        (if pageIndex \<noteq> 0 then Inl (NonPagedPage pageIndex) else createFilenameFromTags extension tags)
      else case dirNameFromTags tags of
             Inl e \<Rightarrow> Inl e
           | Inr dir \<Rightarrow> Inr (filepath_Join [dir, page_name pageIndex extension]))"

definition addPathToManifest :: "nat \<Rightarrow> string \<Rightarrow> Tag list \<Rightarrow> 'c Writer \<Rightarrow> archive_error option \<times> 'c Writer" where
  "addPathToManifest pageIndex extension tags w =
     (case manifest_path pageIndex extension tags of
        Inl e \<Rightarrow> (Some e, w)
      | Inr path \<Rightarrow> (None, w\<lparr> w_manifestMap := AList.update path tags (w_manifestMap w) \<rparr>))"

definition AddRaw :: "'c zip_fault \<Rightarrow> gotime \<Rightarrow> 'c \<Rightarrow> string \<Rightarrow> Tag list \<Rightarrow> 'c Writer \<Rightarrow> archive_error option \<times> 'c Writer" where
  "AddRaw fault now content extension tags w =
     (if \<not> w_zipOpen w then (Some ClosedWriter, w)
      else case dirNameFromTags tags of
             Inl e \<Rightarrow> (Some e, w)
           | Inr dir \<Rightarrow>
               if isNonPagedArtifact tags then
                 (case createFilenameFromTags extension tags of
                    Inl e \<Rightarrow> (Some e, w)
                  | Inr filename \<Rightarrow>
                      (case zip_write fault filename (tsToUTC now (w_ts w)) content w of
                         (Some e, w1) \<Rightarrow> (Some e, w1)
                       | (None, w1) \<Rightarrow> addPathToManifest 0 extension tags w1))
               else
                 (case PagedWriter dir w of
                    (pw, w1) \<Rightarrow>
                      (case WriteEntry fault now pw content w1 of
                         (Some e, w2) \<Rightarrow> (Some e, w2)
                       | (None, w2) \<Rightarrow> addPathToManifest (pw_pageIndex pw) extension tags w2)))"

text \<open>Adds bytes under a name of the caller, outside the manifest; an entry without a time has the zero time.\<close>

definition addArtifact :: "'c zip_fault \<Rightarrow> string \<Rightarrow> 'c \<Rightarrow> 'c Writer \<Rightarrow> archive_error option \<times> 'c Writer" where
  "addArtifact fault name content w = zip_write fault name 0 content w"

text \<open>\<open>encoded\<close> is what \<open>json.Encoder\<close> makes of the artifact.\<close>

definition Add :: "'c zip_fault \<Rightarrow> gotime \<Rightarrow> 'c option \<Rightarrow> Tag list \<Rightarrow> 'c Writer \<Rightarrow> archive_error option \<times> 'c Writer" where
  "Add fault now encoded tags w =
     (case encoded of None \<Rightarrow> (Some EncodeFailed, w) | Some content \<Rightarrow> AddRaw fault now content ''json'' tags w)"

text \<open>Closing adds the manifest and closes both writers; \<open>zip_fails\<close> and \<open>file_fails\<close> are their failures.\<close>

definition Close_writer ::
    "((string, Tag list) gomap \<Rightarrow> 'c option) \<Rightarrow> 'c zip_fault \<Rightarrow> bool \<Rightarrow> bool \<Rightarrow> gotime \<Rightarrow> 'c Writer \<Rightarrow> archive_error option \<times> 'c Writer" where
  "Close_writer enc fault zip_fails file_fails now w =
     (let (e1, w1) = (if w_zipOpen w \<and> w_fileOpen w then
                        (case Add fault now (enc (w_manifestMap w)) [internalTagManifest] w of
                           (Some e, w1) \<Rightarrow> (Some (AddManifest e), w1)
                         | (None, w1) \<Rightarrow> (None, w1))
                      else (None, w));
          e2 = (if w_zipOpen w \<and> zip_fails \<and> e1 = None then Some ZipClose else e1);
          e3 = (if w_fileOpen w \<and> file_fails \<and> e2 = None then Some FileClose else e2)
      in (e3, w1\<lparr> w_zipOpen := False, w_fileOpen := False \<rparr>))"

subsection \<open>The reader\<close>

record 'c Reader =
  rd_files :: "(string, 'c zip_File) gomap"
  rd_accountTags :: "Tag list"
  rd_clusterTags :: "Tag list"
  rd_serverTags :: "Tag list"
  rd_streamTags :: "Tag list"
  rd_accountNames :: "string list"
  rd_clusterNames :: "string list"
  rd_clustersServerNames :: "(string, string list) gomap"
  rd_accountStreamNames :: "(string, string list) gomap"
  rd_streamServerNames :: "(string, string list) gomap"
  rd_ts :: gotime
  rd_invertedIndex :: "(Tag, string list) gomap"
  rd_Warnings :: "string list"

text \<open>\<open>m[k] = append(m[k], v)\<close>, and sets as maps from their elements.\<close>

definition add_to_slice :: "'k \<Rightarrow> 'v \<Rightarrow> ('k, 'v list) gomap \<Rightarrow> ('k, 'v list) gomap" where
  "add_to_slice k v m = AList.update k ((case map_of m k of None \<Rightarrow> [] | Some vs \<Rightarrow> vs) @ [v]) m"

definition known_key :: "'k \<Rightarrow> 'v \<Rightarrow> ('k, 'v) gomap \<Rightarrow> ('k, 'v) gomap" where
  "known_key k v m = (if map_of m k = None then AList.update k v m else m)"

definition in_key :: "'k \<Rightarrow> ('v \<Rightarrow> 'v) \<Rightarrow> ('k, 'v) gomap \<Rightarrow> ('k, 'v) gomap" where
  "in_key k f m = (case map_of m k of None \<Rightarrow> m | Some v \<Rightarrow> AList.update k (f v) m)"

definition files_by_name :: "'c zip_File list \<Rightarrow> (string, 'c zip_File) gomap" where
  "files_by_name fs = fold (\<lambda>f. AList.update (zf_Name f) f) fs []"

definition invert_index :: "(string, Tag list) gomap \<Rightarrow> (Tag, string list) gomap" where
  "invert_index m = fold (\<lambda>(fileName, tags). fold (\<lambda>tag. add_to_slice tag fileName) tags) m []"

text \<open>The value of the last tag of a label; \<open>[]\<close> without one.\<close>

definition noted :: "TagLabel \<Rightarrow> Tag list \<Rightarrow> string" where
  "noted label tags = fold (\<lambda>t v. if t_Name t = label then t_Value t else v) tags []"

definition note_cluster :: "Tag list \<Rightarrow> (string, string list) gomap \<Rightarrow> (string, string list) gomap" where
  "note_cluster tags m =
     (let cluster = noted clusterTagLabel tags; srv = noted serverTagLabel tags
      in if cluster = [] then m
         else (let m1 = known_key cluster [] m in if srv = [] then m1 else in_key cluster (List.insert srv) m1))"

definition note_account ::
    "Tag list \<Rightarrow> (string, (string, string list) gomap) gomap \<Rightarrow> (string, (string, string list) gomap) gomap" where
  "note_account tags m =
     (let account = noted accountTagLabel tags; stream = noted streamTagLabel tags; srv = noted serverTagLabel tags
      in if account = [] then m
         else (let m1 = known_key account [] m
               in if stream = [] then m1
                  else in_key account (\<lambda>s. let s1 = known_key stream [] s in if srv = [] then s1 else in_key stream (List.insert srv) s1) m1))"

text \<open>The keys and the elements of a map of sets, sorted.\<close>

definition shrinkMapOfSets :: "(string, string list) gomap \<Rightarrow> string list \<times> (string, string list) gomap" where
  "shrinkMapOfSets m = (sort (map fst m), map (\<lambda>(k, vs). (k, sort vs)) m)"

definition getUniqueTags :: "(Tag, string list) gomap \<Rightarrow> TagLabel \<Rightarrow> Tag list" where
  "getUniqueTags index label = sort_key t_Value (filter (\<lambda>t. t_Name t = label) (map fst index))"

text \<open>
  \<open>opened\<close> is what \<open>zip.OpenReader\<close> gives, \<open>dec\<close> reads a manifest. The order of the manifest is that of
  the iteration over the map it is decoded into.
\<close>

definition NewReader :: "('c \<Rightarrow> (string, Tag list) gomap option) \<Rightarrow> 'c zip_File list option \<Rightarrow> archive_error + 'c Reader" where
  "NewReader dec opened =
     (case opened of
        None \<Rightarrow> Inl OpenArchive
      | Some fs \<Rightarrow>
          (let files = files_by_name fs
           in case createFilenameFromTags ''json'' [internalTagManifest] of
                Inl e \<Rightarrow> Inl e
              | Inr manifestFileName \<Rightarrow>
                  (case map_of files manifestFileName of
                     None \<Rightarrow> Inl ManifestNotFound
                   | Some manifestFile \<Rightarrow>
                       (case zf_Body manifestFile of
                          None \<Rightarrow> Inl (OpenFile manifestFileName)
                        | Some c \<Rightarrow>
                            (case dec c of
                               None \<Rightarrow> Inl BadManifest
                             | Some manifestMap \<Rightarrow>
                                 (case find (\<lambda>(fileName, _). map_of files fileName = None) manifestMap of
                                    Some (fileName, _) \<Rightarrow> Inl (FileNotInArchive fileName)
                                  | None \<Rightarrow>
                                      (let index = invert_index manifestMap;
                                           warnings = filter (\<lambda>p. p \<noteq> manifestFileName \<and> map_of manifestMap p = None) (map fst files);
                                           clusters = shrinkMapOfSets (fold (\<lambda>(_, tags). note_cluster tags) manifestMap []);
                                           accountsStreams = fold (\<lambda>(_, tags). note_account tags) manifestMap [];
                                           accounts = shrinkMapOfSets (map (\<lambda>(a, ss). (a, map fst ss)) accountsStreams);
                                           streams = concat (map (\<lambda>(a, ss). map (\<lambda>(s, srvs). (a @ ''/'' @ s, srvs)) (snd (shrinkMapOfSets ss))) accountsStreams)
                                       in Inr \<lparr> rd_files = files,
                                                rd_accountTags = getUniqueTags index accountTagLabel,
                                                rd_clusterTags = getUniqueTags index clusterTagLabel,
                                                rd_serverTags = getUniqueTags index serverTagLabel,
                                                rd_streamTags = getUniqueTags index streamTagLabel,
                                                rd_accountNames = fst accounts,
                                                rd_clusterNames = fst clusters,
                                                rd_clustersServerNames = snd clusters,
                                                rd_accountStreamNames = snd accounts,
                                                rd_streamServerNames = fold (\<lambda>(k, v). AList.update k v) streams [],
                                                rd_ts = zf_Modified manifestFile,
                                                rd_invertedIndex = index,
                                                rd_Warnings = warnings \<rparr>)))))))"

definition names_at :: "string \<Rightarrow> (string, string list) gomap \<Rightarrow> string list" where
  "names_at k m = (case map_of m k of Some v \<Rightarrow> v | None \<Rightarrow> [])"

definition AccountNames :: "'c Reader \<Rightarrow> string list" where
  "AccountNames r = rd_accountNames r"

definition AccountStreamNames :: "'c Reader \<Rightarrow> string \<Rightarrow> string list" where
  "AccountStreamNames r accountName = names_at accountName (rd_accountStreamNames r)"

definition ClusterNames :: "'c Reader \<Rightarrow> string list" where
  "ClusterNames r = rd_clusterNames r"

definition ClusterServerNames :: "'c Reader \<Rightarrow> string \<Rightarrow> string list" where
  "ClusterServerNames r clusterName = names_at clusterName (rd_clustersServerNames r)"

definition StreamServerNames :: "'c Reader \<Rightarrow> string \<Rightarrow> string \<Rightarrow> string list" where
  "StreamServerNames r accountName streamName = names_at (accountName @ ''/'' @ streamName) (rd_streamServerNames r)"

subsection \<open>Queries\<close>

text \<open>The files of every tag; the sets are lists without duplicates.\<close>

fun tag_files :: "(Tag, string list) gomap \<Rightarrow> Tag list \<Rightarrow> archive_error + string list list" where
  "tag_files index [] = Inr []"
| "tag_files index (t # ts) =
     (case map_of index t of
        None \<Rightarrow> Inl NoMatches
      | Some files \<Rightarrow> (case tag_files index ts of Inl e \<Rightarrow> Inl e | Inr fss \<Rightarrow> Inr (files # fss)))"

fun intersect_rest :: "string list \<Rightarrow> string list list \<Rightarrow> archive_error + string list" where
  "intersect_rest result [] = Inr result"
| "intersect_rest result (s # ss) =
     (let next_set = remdups (filter (\<lambda>f. f \<in> set result) s)
      in if next_set = [] then Inl NoMatches else intersect_rest next_set ss)"

definition intersectFileSets :: "(Tag, string list) gomap \<Rightarrow> Tag list \<Rightarrow> archive_error + string list" where
  "intersectFileSets index tags =
     (if tags = [] then Inl NoMatches
      else case tag_files index tags of
             Inl e \<Rightarrow> Inl e
           | Inr fileSets \<Rightarrow> intersect_rest (remdups (hd fileSets)) (tl fileSets))"

definition loadFile :: "('c \<Rightarrow> 'a option) \<Rightarrow> 'c Reader \<Rightarrow> string \<Rightarrow> archive_error + 'a" where
  "loadFile dec r name =
     (case map_of (rd_files r) name of
        None \<Rightarrow> Inl FileNotExist
      | Some f \<Rightarrow>
          (case zf_Body f of
             None \<Rightarrow> Inl (OpenFile name)
           | Some c \<Rightarrow> (case dec c of None \<Rightarrow> Inl (DecodeFile name) | Some v \<Rightarrow> Inr v)))"

definition Load :: "('c \<Rightarrow> 'a option) \<Rightarrow> 'c Reader \<Rightarrow> Tag list \<Rightarrow> archive_error + 'a" where
  "Load dec r queryTags =
     (case intersectFileSets (rd_invertedIndex r) queryTags of
        Inl e \<Rightarrow> Inl e
      | Inr matching \<Rightarrow>
          (if length matching = 1 then loadFile dec r (hd matching)
           else if matching = [] then Inl NoMatches else Inl MultipleMatches))"

definition is_page :: "string \<Rightarrow> bool" where
  "is_page name = (let base = filepath_Base name in has_suffix base ''.json'' \<and> length base = length ''0001.json'')"

text \<open>A callback changes the state of the caller and may stop the iteration with an error.\<close>

type_synonym ('a, 's) callback = "'a \<Rightarrow> 's \<Rightarrow> archive_error option \<times> 's"

fun decode_each :: "('c \<Rightarrow> 'a option) \<Rightarrow> ('a, 's) callback \<Rightarrow> 'c zip_File list \<Rightarrow> 's \<Rightarrow> archive_error option \<times> 's" where
  "decode_each dec cb [] s = (None, s)"
| "decode_each dec cb (f # fs) s =
     (case zf_Body f of
        None \<Rightarrow> (Some (OpenFile (zf_Name f)), s)
      | Some c \<Rightarrow>
          (case dec c of
             None \<Rightarrow> (Some (DecodeFile (zf_Name f)), s)
           | Some obj \<Rightarrow> (case cb obj s of (Some e, s1) \<Rightarrow> (Some e, s1) | (None, s1) \<Rightarrow> decode_each dec cb fs s1)))"

definition ForEachTaggedArtifact ::
    "('c \<Rightarrow> 'a option) \<Rightarrow> 'c Reader \<Rightarrow> Tag list \<Rightarrow> ('a, 's) callback \<Rightarrow> 's \<Rightarrow> archive_error option \<times> 's" where
  "ForEachTaggedArtifact dec r tags cb s =
     (case intersectFileSets (rd_invertedIndex r) tags of
        Inl e \<Rightarrow> (Some e, s)
      | Inr matching \<Rightarrow>
          (let files = List.map_filter (\<lambda>name. if is_page name then map_of (rd_files r) name else None) matching
           in if files = [] then (Some NoMatches, s) else decode_each dec cb (sort_key zf_Name files) s))"

text \<open>\<open>errors.Is(err, ErrNoMatches)\<close>.\<close>

fun is_no_matches :: "archive_error \<Rightarrow> bool" where
  "is_no_matches NoMatches = True"
| "is_no_matches (Described _ _ e) = is_no_matches e"
| "is_no_matches _ = False"

text \<open>
  The callback gets the cluster, the server, the error and the artifact; the count is a part of the state.
\<close>

type_synonym ('a, 's) server_callback = "Tag \<Rightarrow> Tag \<Rightarrow> archive_error option \<Rightarrow> 'a option \<Rightarrow> 's \<Rightarrow> archive_error option \<times> 's"

fun each_server ::
    "('c \<Rightarrow> 'a option) \<Rightarrow> 'c Reader \<Rightarrow> Tag \<Rightarrow> ('a, 's) server_callback \<Rightarrow> (string \<times> string) list \<Rightarrow> int \<times> 's \<Rightarrow>
     archive_error option \<times> int \<times> 's" where
  "each_server dec r artifactTag cb [] st = (None, st)"
| "each_server dec r artifactTag cb ((cluster, srv) # rest) st =
     (let clusterTag = TagCluster cluster; serverTag = TagServer srv
      in case ForEachTaggedArtifact dec r [clusterTag, serverTag, artifactTag]
                (\<lambda>artifact (n, s). let (e, s1) = cb clusterTag serverTag None (Some artifact) s in (e, n + 1, s1)) st of
           (None, st1) \<Rightarrow> each_server dec r artifactTag cb rest st1
         | (Some e, n, s) \<Rightarrow>
             if is_no_matches e then
               (case cb clusterTag serverTag (Some e) None s of
                  (Some e1, s1) \<Rightarrow> (Some e1, n, s1)
                | (None, s1) \<Rightarrow> each_server dec r artifactTag cb rest (n, s1))
             else (Some e, n, s))"

text \<open>All servers, by cluster.\<close>

definition cluster_servers :: "'c Reader \<Rightarrow> (string \<times> string) list" where
  "cluster_servers r = concat (map (\<lambda>c. map (Pair c) (ClusterServerNames r c)) (ClusterNames r))"

definition EachClusterServerArtifact ::
    "('c \<Rightarrow> 'a option) \<Rightarrow> 'c Reader \<Rightarrow> Tag \<Rightarrow> ('a, 's) server_callback \<Rightarrow> 's \<Rightarrow> archive_error option \<times> int \<times> 's" where
  "EachClusterServerArtifact dec r artifactTag cb s = each_server dec r artifactTag cb (cluster_servers r) (0, s)"

definition EachClusterServerVarz where
  "EachClusterServerVarz dec r cb s = EachClusterServerArtifact dec r TagServerVars cb s"

definition EachClusterServerHealthz where
  "EachClusterServerHealthz dec r cb s = EachClusterServerArtifact dec r TagServerHealth cb s"

definition EachClusterServerJsz where
  "EachClusterServerJsz dec r cb s = EachClusterServerArtifact dec r TagServerJetStream cb s"

definition EachClusterServerAccountz where
  "EachClusterServerAccountz dec r cb s = EachClusterServerArtifact dec r TagServerAccounts cb s"

definition EachClusterServerLeafz where
  "EachClusterServerLeafz dec r cb s = EachClusterServerArtifact dec r TagServerLeafs cb s"

end
