(* ===== verification/Audit_Archive_Props.thy ===== *)
theory Audit_Archive_Props
  imports "HOL-Library.Multiset" Audit_Archive
begin

text \<open>
  What an archive that was written gives back: where its files lie, that it opens, and which artifacts a
  query by tags delivers, whatever writes failed before. \<open>page\<close> is the specification of what was written.
\<close>

subsection \<open>Paged and other artifacts\<close>

lemma save_tags_others: "others \<noteq> [] \<Longrightarrow> save_tags tags dims others \<noteq> Inr (dims', [])"
  by (induction tags dims others rule: save_tags.induct) auto

lemma save_tags_ok:
  "save_tags tags dims others = Inr (dims', []) \<Longrightarrow>
     (\<forall>t \<in> set tags. t_Name t \<noteq> specialTagLabel) \<and> dims' = List.rev (map (\<lambda>t. (t_Name t, t)) tags) @ dims \<and>
     distinct (map t_Name tags) \<and> (\<forall>t \<in> set tags. map_of dims (t_Name t) = None)"
proof (induction tags dims others rule: save_tags.induct)
  case (2 tag tags dims others)
  have tag: "t_Name tag \<noteq> specialTagLabel" "t_Name tag \<in> set dimensionTagsNames" "map_of dims (t_Name tag) = None"
    "save_tags tags ((t_Name tag, tag) # dims) others = Inr (dims', [])"
    using 2(3) save_tags_others [of "others @ [tag]" tags dims dims'] by (simp_all split: if_splits)
  have IH: "(\<forall>t \<in> set tags. t_Name t \<noteq> specialTagLabel) \<and> dims' = List.rev (map (\<lambda>t. (t_Name t, t)) tags) @ (t_Name tag, tag) # dims \<and>
     distinct (map t_Name tags) \<and> (\<forall>t \<in> set tags. map_of ((t_Name tag, tag) # dims) (t_Name t) = None)"
    using 2(1) [OF tag(1,2) _ tag(4)] tag(3) by simp
  then show ?case using tag by (auto split: if_splits)
qed simp

text \<open>The dimensions a name is made of are the tags it was given.\<close>

lemma dims_are_tags:
  assumes "save_tags tags [] [] = Inr (dims, [])"
  shows "map_of dims l = Some t \<longleftrightarrow> t \<in> set tags \<and> t_Name t = l" and "\<forall>t \<in> set tags. t_Name t \<noteq> specialTagLabel"
proof -
  have d: "dims = List.rev (map (\<lambda>t. (t_Name t, t)) tags)" "distinct (map t_Name tags)" "\<forall>t \<in> set tags. t_Name t \<noteq> specialTagLabel"
    using save_tags_ok [OF assms] by simp_all
  have "distinct (map fst dims)" using d(2) by (simp add: d(1) comp_def flip: rev_map)
  then show "map_of dims l = Some t \<longleftrightarrow> t \<in> set tags \<and> t_Name t = l" by (auto simp: d(1))
  show "\<forall>t \<in> set tags. t_Name t \<noteq> specialTagLabel" by (rule d(3))
qed

lemma filename_dims:
  assumes "filename_elems extension tags = Inr es" and "\<not> (length tags = 1 \<and> t_Name (hd tags) = specialTagLabel)"
  obtains dims where "save_tags tags [] [] = Inr (dims, [])" "missing_required dims = []" "dimension_elems extension dims = Inr es"
    "validate_dims dims dimensionTagsNames = None"
  using assms unfolding filename_elems_def by (auto split: if_splits option.splits sum.splits)

lemma artifact_type_only:
  assumes "createFilenameFromTags extension tags = Inr p" "isNonPagedArtifact tags" "TagArtifactType ty \<in> set tags"
  shows "ty = profileArtifactType"
proof -
  obtain es where es: "filename_elems extension tags = Inr es" using assms(1) by (auto simp: createFilenameFromTags_def split: sum.splits)
  have "\<not> (length tags = 1 \<and> t_Name (hd tags) = specialTagLabel)"
    using assms(3) by (cases tags) (auto simp: TagArtifactType_def tag_labels)
  from filename_dims [OF es this] obtain dims where dims: "save_tags tags [] [] = Inr (dims, [])" by blast
  obtain t where "t \<in> set tags" "t_Name t = typeTagLabel" "t_Value t = profileArtifactType"
    using assms(2) dims_are_tags(2) [OF dims] by (auto simp: isNonPagedArtifact_def list_ex_iff)
  then have "map_of dims typeTagLabel = Some t" using dims_are_tags(1) [OF dims] by blast
  moreover have "map_of dims typeTagLabel = Some (TagArtifactType ty)"
    using dims_are_tags(1) [OF dims, of typeTagLabel "TagArtifactType ty"] assms(3) by (simp add: TagArtifactType_def)
  ultimately have "t = TagArtifactType ty" by simp
  then show ?thesis using \<open>t_Value t = profileArtifactType\<close> by (simp add: TagArtifactType_def)
qed

lemma paged_elems:
  assumes "filename_elems extension tags = Inr es" "\<not> isNonPagedArtifact tags"
  shows "\<exists>x y rest. es = rootDirectory # x # y # rest \<and> x \<in> {''accounts'', ''clusters''}"
proof -
  have sp: "\<not> (length tags = 1 \<and> t_Name (hd tags) = specialTagLabel)"
    using assms(2) by (cases tags) (auto simp: isNonPagedArtifact_def)
  from filename_dims [OF assms(1) sp] obtain dims where dims: "save_tags tags [] [] = Inr (dims, [])" "missing_required dims = []"
    "dimension_elems extension dims = Inr es" by blast
  obtain t where t: "map_of dims typeTagLabel = Some t" using dims(2) by (auto simp: missing_required_def split: if_splits)
  then have "t_Value t \<noteq> profileArtifactType"
    using assms(2) dims_are_tags(1) [OF dims(1), of typeTagLabel t] by (auto simp: isNonPagedArtifact_def list_ex_iff)
  then show ?thesis using dims(3) t unfolding dimension_elems_def Let_def by (auto split: if_splits)
qed

definition no_page_name :: "string \<Rightarrow> bool" where
  "no_page_name f \<longleftrightarrow> CHR ''p'' \<in> set f \<or> CHR ''_'' \<in> set f"

lemma nonpaged_elems:
  assumes "filename_elems extension tags = Inr (rootDirectory # mid @ [f])" "isNonPagedArtifact tags"
  shows "mid = [specialFilesDirectory] \<or> no_page_name f"
proof (cases "length tags = 1 \<and> t_Name (hd tags) = specialTagLabel")
  case True
  then show ?thesis using assms(1) by (auto simp: filename_elems_def split: if_splits option.splits)
next
  case False
  from filename_dims [OF assms(1) False] obtain dims where dims: "save_tags tags [] [] = Inr (dims, [])"
    "dimension_elems extension dims = Inr (rootDirectory # mid @ [f])" by blast
  obtain t where t: "t \<in> set tags" "t_Name t = typeTagLabel" "t_Value t = profileArtifactType"
    using assms(2) dims_are_tags(2) [OF dims(1)] by (auto simp: isNonPagedArtifact_def list_ex_iff)
  then have v: "map_of dims typeTagLabel = Some t" using dims_are_tags(1) [OF dims(1)] by blast
  have "no_page_name (profileArtifactType @ ''.'' @ extension)" "no_page_name (a @ separator @ b)" for a b
    by (simp_all add: no_page_name_def profileArtifactType_def separator_def)
  then have "no_page_name (last (rootDirectory # mid @ [f]))"
    using dims(2) v t(3) unfolding dimension_elems_def Let_def by (auto split: if_splits)
  then show ?thesis by simp
qed

lemma digit_char_cases: "d < 10 \<Longrightarrow> digit_char d \<noteq> CHR ''p'' \<and> digit_char d \<noteq> CHR ''_'' \<and> digit_char d \<noteq> CHR ''/'' \<and> digit_char d \<noteq> CHR ''.''"
proof -
  assume "d < 10"
  then have "(of_char (digit_char d) :: nat) = 48 + d" by (simp add: digit_char_def)
  then have "digit_char d \<noteq> c" if "\<not> (48 \<le> (of_char c :: nat) \<and> (of_char c :: nat) < 58)" for c
    using that \<open>d < 10\<close> by auto
  then show ?thesis by simp
qed

lemma page_name_chars: "c \<in> set (page_name i ''json'') \<Longrightarrow> c \<in> set ''0.json'' \<or> (\<exists>d < 10. c = digit_char d)"
  using itoa_digits [of c i] by (auto simp: page_name_def pad_zeros_def split: if_splits)

lemma page_name_plain: "plain_elem (page_name i ''json'')" and page_name_page: "\<not> no_page_name (page_name i ''json'')"
proof -
  have no: "CHR ''/'' \<notin> set (page_name i ''json'')" "CHR ''p'' \<notin> set (page_name i ''json'')" "CHR ''_'' \<notin> set (page_name i ''json'')"
    using page_name_chars [of _ i] digit_char_cases by fastforce+
  have "length (page_name i ''json'') \<ge> 5" by (simp add: page_name_def)
  then have "page_name i ''json'' \<noteq> []" "page_name i ''json'' \<noteq> ''.''" "page_name i ''json'' \<noteq> ''..''" by auto
  then show "plain_elem (page_name i ''json'')" using no by (simp add: plain_elem_def)
  show "\<not> no_page_name (page_name i ''json'')" using no by (simp add: no_page_name_def)
qed

text \<open>The directory of a paged artifact, and that no other artifact is written where a page is.\<close>

lemma paged_dir:
  assumes "dirNameFromTags tags = Inr d" "\<not> isNonPagedArtifact tags"
  obtains x es where "d = captured_path (x # es)" "x \<in> {''accounts'', ''clusters''}" "list_all plain_elem (x # es)"
proof -
  from dirName_shape [OF assms(1)] obtain mid stem where s: "d = captured_path (filter (\<lambda>e. e \<noteq> ''.'') (mid @ [stem]))"
    "list_all near_plain (mid @ [stem])" "filename_elems ''json'' tags = Inr (rootDirectory # mid @ [stem @ ''.json''])" by blast
  obtain x y rest where x: "mid @ [stem @ ''.json''] = x # y # rest" "x \<in> {''accounts'', ''clusters''}"
    using paged_elems [OF s(3) assms(2)] by auto
  then obtain m where m: "mid = x # m" by (cases mid) auto
  have "filter (\<lambda>e. e \<noteq> ''.'') (mid @ [stem]) = x # filter (\<lambda>e. e \<noteq> ''.'') (m @ [stem])" using x(2) m by auto
  then show thesis using filter_near [OF s(2)] s(1) x(2) by (intro that) (simp_all del: filter_append)
qed

definition page_path :: "string \<Rightarrow> nat \<Rightarrow> string" where
  "page_path d i = d @ ''/'' @ page_name i ''json''"

lemma Join_page: "dirNameFromTags tags = Inr d \<Longrightarrow> filepath_Join [d, page_name i ''json''] = page_path d i"
  unfolding page_path_def using dirName_captured [of tags d] clean_dir_child(2) [OF captured_clean page_name_plain] by blast

lemma nonpaged_not_page:
  assumes "dirNameFromTags tags = Inr d" "\<not> isNonPagedArtifact tags" "createFilenameFromTags extension tags' = Inr p" "isNonPagedArtifact tags'"
  shows "p \<noteq> page_path d i"
proof
  assume eq: "p = page_path d i"
  from paged_dir [OF assms(1,2)] obtain x es where d: "d = captured_path (x # es)" "x \<in> {''accounts'', ''clusters''}" "list_all plain_elem (x # es)" .
  from filename_shape [OF assms(3)] obtain mid stem where p: "p = captured_path (filter (\<lambda>e. e \<noteq> ''.'') mid @ [stem @ ''.'' @ extension])"
    "list_all near_plain mid" "near_plain stem" "near_plain extension"
    "filename_elems extension tags' = Inr (rootDirectory # mid @ [stem @ ''.'' @ extension])" .
  have "captured_path (filter (\<lambda>e. e \<noteq> ''.'') mid @ [stem @ ''.'' @ extension]) = captured_path ((x # es) @ [page_name i ''json''])"
    using eq p(1) d(1) captured_snoc [of "x # es"] by (simp add: page_path_def)
  then have same: "filter (\<lambda>e. e \<noteq> ''.'') mid @ [stem @ ''.'' @ extension] = (x # es) @ [page_name i ''json'']"
    using filter_near [OF p(2)] near_plain_glue(1) [OF p(3,4)] d(3) page_name_plain by (intro captured_inj) simp_all
  then have "filter (\<lambda>e. e \<noteq> ''.'') mid = x # es" "stem @ ''.'' @ extension = page_name i ''json''" by simp_all
  then show False using nonpaged_elems [OF p(5) assms(4)] page_name_page d(2) by (auto simp: specialFilesDirectory_def)
qed

subsection \<open>Numbered pages\<close>

lemma digits_value_zeros: "digits_value 0 (replicate k (CHR ''0'') @ s) = digits_value 0 s"
  by (induction k) (simp_all add: digit_val_def)

lemma page_name_inj: "page_name i ''json'' = page_name j ''json'' \<Longrightarrow> i = j"
proof -
  assume "page_name i ''json'' = page_name j ''json''"
  then have "digits_value 0 (pad_zeros 4 (itoa i)) = digits_value 0 (pad_zeros 4 (itoa j))" by (simp add: page_name_def)
  then show ?thesis by (simp add: pad_zeros_def digits_value_zeros digits_value_itoa)
qed

lemma page_path_inj:
  assumes "dirNameFromTags t = Inr d" "dirNameFromTags t' = Inr d'" "page_path d i = page_path d' j"
  shows "d = d' \<and> i = j"
proof -
  obtain es es' where e: "d = captured_path es" "list_all plain_elem es" "d' = captured_path es'" "list_all plain_elem es'"
    using dirName_captured [OF assms(1)] dirName_captured [OF assms(2)] by blast
  have "captured_path (es @ [page_name i ''json'']) = captured_path (es' @ [page_name j ''json''])"
    unfolding captured_snoc using assms(3) e by (simp add: page_path_def)
  then have "es @ [page_name i ''json''] = es' @ [page_name j ''json'']"
    using e page_name_plain by (intro captured_inj) simp_all
  then show ?thesis using e page_name_inj by auto
qed

lemma length_itoa: "length (itoa n) \<le> k \<longleftrightarrow> n < 10 ^ k" if "0 < k"
  using that
proof (induction n arbitrary: k rule: itoa.induct)
  case (1 n)
  obtain m where k: "k = Suc m" using 1(2) by (cases k) auto
  show ?case
  proof (cases "n < 10")
    case True
    then have "n < 10 ^ k" unfolding k by (simp add: less_le_trans [of n 10])
    then show ?thesis using True by (subst itoa.simps) (simp add: k)
  next
    case False
    show ?thesis
    proof (cases "m = 0")
      case True
      then show ?thesis using False k by (subst itoa.simps) (simp add: not_le)
    next
      case m: False
      have "length (itoa n) \<le> k \<longleftrightarrow> length (itoa (n div 10)) \<le> m" using False k by (subst itoa.simps) simp
      also have "\<dots> \<longleftrightarrow> n div 10 < 10 ^ m" using 1(1) [OF False, of m] m by simp
      also have "\<dots> \<longleftrightarrow> n < 10 ^ k" unfolding k by (simp add: less_mult_imp_div_less div_less_iff_less_mult mult.commute)
      finally show ?thesis .
    qed
  qed
qed

lemma page_base: "filepath_Base (page_path d i) = page_name i ''json''"
  unfolding page_path_def by (rule child_Base [OF page_name_plain])

lemma is_page_iff: "is_page (page_path d i) \<longleftrightarrow> i < 10000"
proof -
  have "has_suffix (page_name i ''json'') ''.json''" by (simp add: page_name_def has_suffix_def)
  moreover have "length (page_name i ''json'') = 9 \<longleftrightarrow> length (itoa i) \<le> 4"
    by (auto simp: page_name_def pad_zeros_def)
  moreover have nine: "length ''0001.json'' = 9" by simp
  ultimately have "is_page (page_path d i) \<longleftrightarrow> length (itoa i) \<le> 4" unfolding is_page_def page_base Let_def nine by blast
  then show ?thesis using length_itoa [of 4 i] by simp
qed

lemma itoa_step: "\<not> n < 10 \<Longrightarrow> itoa n = itoa (n div 10) @ [digit_char (n mod 10)]" and itoa_small: "n < 10 \<Longrightarrow> itoa n = [digit_char n]"
  by (simp_all add: itoa.simps [of n])

lemma pad_step:
  assumes "i < 10 ^ Suc k"
  shows "pad_zeros (Suc k) (itoa i) = (if k = 0 then [] else pad_zeros k (itoa (i div 10))) @ [digit_char (i mod 10)]"
proof (cases "i < 10")
  case True
  have "digit_char 0 = CHR ''0''" by code_simp
  then show ?thesis using True by (cases k) (simp_all add: itoa_small pad_zeros_def flip: replicate_append_same)
next
  case False
  then have "k \<noteq> 0" using assms by (cases k) auto
  then show ?thesis using False by (simp add: itoa_step pad_zeros_def)
qed

lemma digit_char_less: "a < 10 \<Longrightarrow> b < 10 \<Longrightarrow> digit_char a < digit_char b \<longleftrightarrow> a < b"
  by (simp add: digit_char_def less_char_def)

lemma pad_order:
  assumes "i < 10 ^ Suc k" "j < 10 ^ Suc k" "i < j"
  shows "pad_zeros (Suc k) (itoa i) @ s < pad_zeros (Suc k) (itoa j) @ t"
  using assms
proof (induction k arbitrary: i j s t)
  case 0
  then show ?case using digit_char_less [of i j] pad_step [of i 0] pad_step [of j 0] by simp
next
  case (Suc k)
  let ?p = "\<lambda>n. pad_zeros (Suc k) (itoa n)"
  have st: "pad_zeros (Suc (Suc k)) (itoa n) = ?p (n div 10) @ [digit_char (n mod 10)]" if "n < 10 ^ Suc (Suc k)" for n
    using pad_step [OF that] by simp
  have small: "i div 10 < 10 ^ Suc k" "j div 10 < 10 ^ Suc k" using Suc.prems by (simp_all add: less_mult_imp_div_less mult.commute)
  show ?case
  proof (cases "i div 10 = j div 10")
    case True
    have "(xs @ u < xs @ v) = (u < v)" for xs u v :: string by (induction xs) auto
    moreover have "i mod 10 < j mod 10" using True Suc.prems(3) by (metis div_mod_decomp nat_add_left_cancel_less)
    ultimately show ?thesis using True digit_char_less [of "i mod 10" "j mod 10"] by (simp add: st [OF Suc.prems(1)] st [OF Suc.prems(2)])
  next
    case False
    then have "i div 10 < j div 10" using Suc.prems(3) by (meson div_le_mono le_neq_implies_less less_imp_le)
    from Suc.IH [OF small this] show ?thesis by (simp add: st [OF Suc.prems(1)] st [OF Suc.prems(2)])
  qed
qed

lemma page_order: "i < 10000 \<Longrightarrow> j < 10000 \<Longrightarrow> i < j \<Longrightarrow> page_path d i < page_path d j"
proof -
  assume a: "i < 10000" "j < 10000" "i < j"
  have pre: "(xs @ u < xs @ v) = (u < v)" for xs u v :: string by (induction xs) auto
  have "pad_zeros (Suc 3) (itoa i) @ ''.json'' < pad_zeros (Suc 3) (itoa j) @ ''.json''" using a by (intro pad_order) simp_all
  then show ?thesis by (simp add: page_path_def page_name_def pre)
qed

subsection \<open>What was written\<close>

record 'c add_call =
  ac_fault :: "'c zip_fault"
  ac_now :: gotime
  ac_content :: 'c
  ac_extension :: string
  ac_tags :: "Tag list"

definition do_add :: "'c add_call \<Rightarrow> 'c Writer \<Rightarrow> archive_error option \<times> 'c Writer" where
  "do_add c w = AddRaw (ac_fault c) (ac_now c) (ac_content c) (ac_extension c) (ac_tags c) w"

definition run_adds :: "'c add_call list \<Rightarrow> 'c Writer \<Rightarrow> 'c Writer" where
  "run_adds cs w = fold (\<lambda>c w. snd (do_add c w)) cs w"

text \<open>The pages of the calls that succeed: a call for a paged artifact whose write does not fail.\<close>

record 'c page =
  pg_dir :: string
  pg_index :: nat
  pg_tags :: "Tag list"
  pg_content :: 'c

definition pages_in :: "string \<Rightarrow> 'c page list \<Rightarrow> nat" where
  "pages_in d ps = length (filter (\<lambda>p. pg_dir p = d) ps)"

definition pg_path :: "'c page \<Rightarrow> string" where
  "pg_path p = page_path (pg_dir p) (pg_index p)"

definition log_page :: "'c add_call \<Rightarrow> 'c page list \<Rightarrow> 'c page list" where
  "log_page c ps =
     (case (dirNameFromTags (ac_tags c), ac_fault c) of
        (Inr d, NoFault) \<Rightarrow>
          (if isNonPagedArtifact (ac_tags c) then ps
           else ps @ [\<lparr> pg_dir = d, pg_index = Suc (pages_in d ps), pg_tags = ac_tags c, pg_content = ac_content c \<rparr>])
      | _ \<Rightarrow> ps)"

definition written :: "'c add_call list \<Rightarrow> 'c page list" where
  "written cs = fold log_page cs []"

lemma pages_in_simps [simp]: "pages_in d [] = 0" "pages_in d (ps @ [p]) = pages_in d ps + (if pg_dir p = d then 1 else 0)"
  by (simp_all add: pages_in_def)

text \<open>Pages number the directories they are in.\<close>

definition pages_ok :: "'c page list \<Rightarrow> bool" where
  "pages_ok ps \<longleftrightarrow>
     (\<forall>p \<in> set ps. dirNameFromTags (pg_tags p) = Inr (pg_dir p) \<and> \<not> isNonPagedArtifact (pg_tags p) \<and> pg_index p \<le> pages_in (pg_dir p) ps) \<and>
     distinct (map pg_path ps)"

lemma pages_ok_snoc:
  assumes "pages_ok ps" "dirNameFromTags tags = Inr d" "\<not> isNonPagedArtifact tags"
  shows "pages_ok (ps @ [\<lparr> pg_dir = d, pg_index = Suc (pages_in d ps), pg_tags = tags, pg_content = c \<rparr>])"
proof -
  have "pg_path p \<noteq> page_path d (Suc (pages_in d ps))" if "p \<in> set ps" for p
  proof
    assume eq: "pg_path p = page_path d (Suc (pages_in d ps))"
    have p: "dirNameFromTags (pg_tags p) = Inr (pg_dir p)" "pg_index p \<le> pages_in (pg_dir p) ps" using assms(1) that by (auto simp: pages_ok_def)
    from page_path_inj [OF p(1) assms(2)] eq have "pg_dir p = d" "pg_index p = Suc (pages_in d ps)" by (auto simp: pg_path_def)
    then show False using p(2) by simp
  qed
  then have "page_path d (Suc (pages_in d ps)) \<notin> pg_path ` set ps" by (metis imageE)
  then have "pg_path \<lparr> pg_dir = d, pg_index = Suc (pages_in d ps), pg_tags = tags, pg_content = c \<rparr> \<notin> pg_path ` set ps"
    by (simp add: pg_path_def [of "\<lparr> pg_dir = d, pg_index = Suc (pages_in d ps), pg_tags = tags, pg_content = c \<rparr>"])
  then show ?thesis using assms by (auto simp: pages_ok_def intro: le_SucI)
qed

lemma written_ok: "pages_ok (written cs)"
proof (induction cs rule: rev_induct)
  case (snoc c cs)
  then show ?case using pages_ok_snoc [of "written cs" "ac_tags c"]
    by (auto simp: written_def log_page_def split: sum.splits zip_fault.splits)
qed (simp add: written_def pages_ok_def)

subsection \<open>The writer keeps up with it\<close>

lemma files_by_name_snoc: "map_of (files_by_name (es @ [e])) = (map_of (files_by_name es))(zf_Name e \<mapsto> e)"
  by (simp add: files_by_name_def update_conv')

definition writer_ok :: "'c page list \<Rightarrow> 'c Writer \<Rightarrow> bool" where
  "writer_ok ps w \<longleftrightarrow>
     w_zipOpen w \<and> w_fileOpen w \<and> distinct (map fst (w_manifestMap w)) \<and>
     (\<forall>d. case map_of (w_pagedWriters w) d of
            Some pw \<Rightarrow> pw_dir pw = d \<and> pw_pageIndex pw = Suc (pages_in d ps)
          | None \<Rightarrow> pages_in d ps = 0)"

definition manifest_ok :: "'c page list \<Rightarrow> 'c Writer \<Rightarrow> bool" where
  "manifest_ok ps w \<longleftrightarrow>
     (\<forall>p \<in> set ps. map_of (w_manifestMap w) (pg_path p) = Some (pg_tags p)) \<and>
     (\<forall>path tags. map_of (w_manifestMap w) path = Some tags \<longrightarrow>
        (if isNonPagedArtifact tags then \<exists>extension. createFilenameFromTags extension tags = Inr path
         else \<exists>p \<in> set ps. path = pg_path p \<and> tags = pg_tags p))"

definition files_ok :: "'c page list \<Rightarrow> 'c Writer \<Rightarrow> bool" where
  "files_ok ps w \<longleftrightarrow>
     (\<forall>p \<in> set ps. \<exists>f. map_of (files_by_name (w_entries w)) (pg_path p) = Some f \<and> zf_Name f = pg_path p \<and> zf_Body f = Some (pg_content p)) \<and>
     (\<forall>path tags. map_of (w_manifestMap w) path = Some tags \<longrightarrow> map_of (files_by_name (w_entries w)) path \<noteq> None)"

definition archive_ok :: "'c page list \<Rightarrow> 'c Writer \<Rightarrow> bool" where
  "archive_ok ps w \<longleftrightarrow> pages_ok ps \<and> writer_ok ps w \<and> manifest_ok ps w \<and> files_ok ps w"

definition zip_entry :: "string \<Rightarrow> gotime \<Rightarrow> 'c \<Rightarrow> 'c zip_File" where
  "zip_entry name t c = \<lparr> zf_Name = name, zf_Modified = t, zf_Body = Some c \<rparr>"

lemma zip_entry_simps [simp]: "zf_Name (zip_entry name t c) = name" "zf_Body (zip_entry name t c) = Some c"
  by (simp_all add: zip_entry_def)

lemma zip_write_cases:
  "zip_write fault name t c w =
     (case fault of
        NoFault \<Rightarrow> (None, w\<lparr> w_entries := w_entries w @ [zip_entry name t c] \<rparr>)
      | CreateFails \<Rightarrow> (Some (ZipCreate name), w)
      | CopyFails part \<Rightarrow> (Some (ZipCopy name), w\<lparr> w_entries := w_entries w @ [zip_entry name t part] \<rparr>))"
  by (cases fault) (simp_all add: zip_write_def zip_entry_def Let_def)

text \<open>An entry that is no page, or one behind the last page of its directory, disturbs nothing.\<close>

lemma archive_ok_entry:
  assumes "archive_ok ps w" "\<forall>p \<in> set ps. pg_path p \<noteq> name"
  shows "archive_ok ps (w\<lparr> w_entries := w_entries w @ [zip_entry name t c] \<rparr>)"
proof -
  have "files_ok ps (w\<lparr> w_entries := w_entries w @ [zip_entry name t c] \<rparr>)"
    using assms unfolding archive_ok_def files_ok_def by (auto simp: files_by_name_snoc)
  then show ?thesis using assms by (auto simp: archive_ok_def writer_ok_def manifest_ok_def)
qed

lemma archive_ok_special:
  assumes ok: "archive_ok ps w" and tags: "isNonPagedArtifact tags" "createFilenameFromTags extension tags = Inr path"
    and there: "map_of (files_by_name (w_entries w)) path \<noteq> None"
  shows "archive_ok ps (w\<lparr> w_manifestMap := AList.update path tags (w_manifestMap w) \<rparr>)"
proof -
  have no: "pg_path p \<noteq> path" if "p \<in> set ps" for p
    using nonpaged_not_page [of "pg_tags p" "pg_dir p" extension tags path] tags ok that
    by (auto simp: archive_ok_def pages_ok_def pg_path_def)
  then show ?thesis using ok tags there
    by (auto simp: archive_ok_def writer_ok_def manifest_ok_def files_ok_def update_conv' distinct_update split: if_splits)
qed

text \<open>A call for a paged artifact, in the terms of the pages.\<close>

lemma PagedWriter_ok:
  assumes "writer_ok ps w"
  obtains pw pws where "PagedWriter d w = (pw, w\<lparr> w_pagedWriters := pws \<rparr>)" "pw_dir pw = d" "pw_pageIndex pw = Suc (pages_in d ps)"
    "map_of pws = (map_of (w_pagedWriters w))(d \<mapsto> pw)"
proof (cases "map_of (w_pagedWriters w) d")
  case None
  then have "pages_in d ps = 0" using assms by (auto simp: writer_ok_def dest: spec [of _ d] split: option.splits)
  then show thesis using None
    by (intro that [of "newPagedWriter d (w_ts w)" "AList.update d (newPagedWriter d (w_ts w)) (w_pagedWriters w)"])
      (simp_all add: PagedWriter_def newPagedWriter_def update_conv' Let_def)
next
  case (Some pw)
  then have "pw_dir pw = d \<and> pw_pageIndex pw = Suc (pages_in d ps)"
    using assms by (auto simp: writer_ok_def dest: spec [of _ d] split: option.splits)
  then show thesis using Some by (intro that [of pw "w_pagedWriters w"]) (auto simp: PagedWriter_def)
qed

lemma no_page_behind:
  assumes "archive_ok ps w" "dirNameFromTags tags = Inr d" "p \<in> set ps"
  shows "pg_path p \<noteq> page_path d (Suc (pages_in d ps))"
proof
  assume eq: "pg_path p = page_path d (Suc (pages_in d ps))"
  have p: "dirNameFromTags (pg_tags p) = Inr (pg_dir p)" "pg_index p \<le> pages_in (pg_dir p) ps"
    using assms(1,3) by (auto simp: archive_ok_def pages_ok_def)
  from page_path_inj [OF p(1) assms(2)] eq have "pg_dir p = d \<and> pg_index p = Suc (pages_in d ps)" by (simp add: pg_path_def)
  then show False using p(2) by simp
qed

lemma archive_ok_page:
  assumes ok: "archive_ok ps w" and tags: "dirNameFromTags tags = Inr d" "\<not> isNonPagedArtifact tags"
    and pws: "map_of pws = (map_of (w_pagedWriters w))(d \<mapsto> pw)" "pw_dir pw = d" "pw_pageIndex pw = Suc (Suc (pages_in d ps))"
    and e: "zf_Name e = page_path d (Suc (pages_in d ps))" "zf_Body e = Some c"
  shows "archive_ok (ps @ [\<lparr> pg_dir = d, pg_index = Suc (pages_in d ps), pg_tags = tags, pg_content = c \<rparr>])
    (w\<lparr> w_entries := w_entries w @ [e], w_pagedWriters := pws,
        w_manifestMap := AList.update (page_path d (Suc (pages_in d ps))) tags (w_manifestMap w) \<rparr>)"
    (is "archive_ok (ps @ [?p]) ?w")
proof -
  let ?path = "page_path d (Suc (pages_in d ps))"
  have path: "pg_path ?p = ?path" by (simp add: pg_path_def)
  have new: "pg_path p \<noteq> ?path" if "p \<in> set ps" for p using no_page_behind [OF ok tags(1) that] .
  have nonpaged: "path \<noteq> ?path" if "isNonPagedArtifact t" "createFilenameFromTags extension t = Inr path" for t extension path
    using nonpaged_not_page [OF tags that(2,1)] .
  have "pages_ok (ps @ [?p])" using ok by (intro pages_ok_snoc [OF _ tags]) (simp add: archive_ok_def)
  moreover have "writer_ok (ps @ [?p]) ?w"
    unfolding writer_ok_def
  proof (intro conjI allI)
    fix e
    show "case map_of (w_pagedWriters ?w) e of Some pw \<Rightarrow> pw_dir pw = e \<and> pw_pageIndex pw = Suc (pages_in e (ps @ [?p]))
      | None \<Rightarrow> pages_in e (ps @ [?p]) = 0"
    proof (cases "e = d")
      case False
      then have "map_of (w_pagedWriters ?w) e = map_of (w_pagedWriters w) e" using pws(1) by simp
      moreover have "case map_of (w_pagedWriters w) e of Some pw \<Rightarrow> pw_dir pw = e \<and> pw_pageIndex pw = Suc (pages_in e ps) | None \<Rightarrow> pages_in e ps = 0"
        using ok by (simp add: archive_ok_def writer_ok_def)
      ultimately show ?thesis using False by (cases "map_of (w_pagedWriters w) e") simp_all
    qed (simp add: pws)
  qed (use ok in \<open>simp_all add: archive_ok_def writer_ok_def distinct_update\<close>)
  moreover have "manifest_ok (ps @ [?p]) ?w" unfolding manifest_ok_def
  proof (intro conjI ballI allI impI)
    fix p assume "p \<in> set (ps @ [?p])"
    then show "map_of (w_manifestMap ?w) (pg_path p) = Some (pg_tags p)"
      using ok new path by (auto simp: archive_ok_def manifest_ok_def update_conv')
  next
    fix path t assume m: "map_of (w_manifestMap ?w) path = Some t"
    show "if isNonPagedArtifact t then \<exists>extension. createFilenameFromTags extension t = Inr path
      else \<exists>p \<in> set (ps @ [?p]). path = pg_path p \<and> t = pg_tags p"
    proof (cases "path = ?path")
      case True
      then have "t = tags" using m by (simp add: update_conv')
      then show ?thesis using True tags(2) path by auto
    next
      case False
      then have "map_of (w_manifestMap w) path = Some t" using m by (simp add: update_conv')
      then show ?thesis using ok by (auto simp: archive_ok_def manifest_ok_def)
    qed
  qed
  moreover have "files_ok (ps @ [?p]) ?w" unfolding files_ok_def
  proof (intro conjI ballI allI impI)
    fix p assume "p \<in> set (ps @ [?p])"
    then show "\<exists>f. map_of (files_by_name (w_entries ?w)) (pg_path p) = Some f \<and> zf_Name f = pg_path p \<and> zf_Body f = Some (pg_content p)"
      using ok new path e by (auto simp: archive_ok_def files_ok_def files_by_name_snoc)
  next
    fix path' t assume "map_of (w_manifestMap ?w) path' = Some t"
    then show "map_of (files_by_name (w_entries ?w)) path' \<noteq> None"
      using ok e(1) by (auto simp: archive_ok_def files_ok_def files_by_name_snoc update_conv' split: if_splits)
  qed
  ultimately show ?thesis by (simp add: archive_ok_def)
qed

lemma archive_ok_same_writers:
  "archive_ok ps w \<Longrightarrow> map_of pws = (map_of (w_pagedWriters w))(d \<mapsto> pw) \<Longrightarrow> pw_dir pw = d \<Longrightarrow> pw_pageIndex pw = Suc (pages_in d ps) \<Longrightarrow>
     archive_ok ps (w\<lparr> w_pagedWriters := pws \<rparr>)"
  by (auto simp: archive_ok_def writer_ok_def manifest_ok_def files_ok_def)

lemma archive_ok_step:
  assumes ok: "archive_ok ps w" and ext: "isNonPagedArtifact (ac_tags c) \<or> ac_extension c = ''json''"
  shows "archive_ok (log_page c ps) (snd (do_add c w))"
proof (cases "dirNameFromTags (ac_tags c)")
  case (Inl e)
  then show ?thesis using ok by (simp add: do_add_def AddRaw_def log_page_def)
next
  case (Inr d)
  have opn: "w_zipOpen w" using ok by (simp add: archive_ok_def writer_ok_def)
  show ?thesis
  proof (cases "isNonPagedArtifact (ac_tags c)")
    case True
    have same: "log_page c ps = ps" using True by (simp add: log_page_def split: sum.splits zip_fault.splits)
    show ?thesis
    proof (cases "createFilenameFromTags (ac_extension c) (ac_tags c)")
      case (Inl e)
      then show ?thesis using ok Inr True same opn by (simp add: do_add_def AddRaw_def)
    next
      case fname: (Inr name)
      have "\<forall>p \<in> set ps. pg_path p \<noteq> name"
        using nonpaged_not_page [OF _ _ fname True] ok by (auto simp: archive_ok_def pages_ok_def pg_path_def)
      then have entry: "archive_ok ps (w\<lparr> w_entries := w_entries w @ [zip_entry name t x] \<rparr>)" for t x using archive_ok_entry [OF ok] by blast
      from archive_ok_special [OF this True fname] show ?thesis
        using Inr True fname same opn ok entry
        by (simp add: do_add_def AddRaw_def zip_write_cases addPathToManifest_def manifest_path_def files_by_name_snoc split: zip_fault.split)
    qed
  next
    case False
    then have json: "ac_extension c = ''json''" using ext by simp
    have wok: "writer_ok ps w" using ok by (simp add: archive_ok_def)
    from PagedWriter_ok [OF wok, of d] obtain pw pws where pw: "PagedWriter d w = (pw, w\<lparr> w_pagedWriters := pws \<rparr>)" "pw_dir pw = d"
      "pw_pageIndex pw = Suc (pages_in d ps)" "map_of pws = (map_of (w_pagedWriters w))(d \<mapsto> pw)" .
    let ?path = "page_path d (Suc (pages_in d ps))" let ?w = "w\<lparr> w_pagedWriters := pws \<rparr>"
    have ok': "archive_ok ps ?w" using archive_ok_same_writers [OF ok pw(4,2,3)] .
    have part: "archive_ok ps (?w\<lparr> w_entries := w_entries ?w @ [zip_entry ?path t x] \<rparr>)" for t x
      using no_page_behind [OF ok Inr] by (intro archive_ok_entry [OF ok']) blast
    have mp: "manifest_path (Suc (pages_in d ps)) ''json'' (ac_tags c) = Inr ?path"
      using False Inr Join_page [OF Inr] by (simp add: manifest_path_def)
    let ?pw = "pw\<lparr> pw_pageIndex := Suc (Suc (pages_in d ps)) \<rparr>"
    have "map_of (AList.update d ?pw pws) = (map_of (w_pagedWriters ?w))(d \<mapsto> ?pw)" by (simp add: update_conv')
    then have page: "archive_ok (ps @ [\<lparr> pg_dir = d, pg_index = Suc (pages_in d ps), pg_tags = ac_tags c, pg_content = ac_content c \<rparr>])
      (?w\<lparr> w_entries := w_entries ?w @ [zip_entry ?path t (ac_content c)], w_pagedWriters := AList.update d ?pw pws,
        w_manifestMap := AList.update ?path (ac_tags c) (w_manifestMap ?w) \<rparr>)" for t
      using pw(2) by (intro archive_ok_page [where pw = ?pw, OF ok' Inr False]) simp_all
    show ?thesis
      using Inr False json opn pw mp ok' part page
      by (simp add: do_add_def AddRaw_def WriteEntry_def Join_page [OF Inr] zip_write_cases addPathToManifest_def log_page_def Let_def
          del: filepath_Join.simps split: zip_fault.split)
  qed
qed

text \<open>A writer that was just made, with or without a time for its entries.\<close>

definition new_writer :: "'c Writer \<Rightarrow> bool" where
  "new_writer w \<longleftrightarrow> w = NewWriter \<or> (\<exists>t. w = SetTime t NewWriter)"

lemma archive_ok_new: "new_writer w \<Longrightarrow> archive_ok [] w"
  by (auto simp: new_writer_def archive_ok_def pages_ok_def writer_ok_def manifest_ok_def files_ok_def NewWriter_def SetTime_def)

lemma archive_ok_run_from:
  assumes "\<forall>c \<in> set cs. isNonPagedArtifact (ac_tags c) \<or> ac_extension c = ''json''" "new_writer w"
  shows "archive_ok (written cs) (run_adds cs w)"
  using assms(1)
proof (induction cs rule: rev_induct)
  case Nil
  then show ?case using archive_ok_new [OF assms(2)] by (simp add: run_adds_def written_def)
next
  case (snoc c cs)
  then show ?case using archive_ok_step [of "written cs" "run_adds cs w" c] by (simp add: run_adds_def written_def)
qed

lemma archive_ok_run:
  assumes "\<forall>c \<in> set cs. isNonPagedArtifact (ac_tags c) \<or> ac_extension c = ''json''"
  shows "archive_ok (written cs) (run_adds cs NewWriter)"
  by (rule archive_ok_run_from [OF assms]) (simp add: new_writer_def)

text \<open>No more pages than entries.\<close>

lemma files_by_name_entry: "map_of (files_by_name fs) n = Some f \<Longrightarrow> f \<in> set fs"
proof (induction fs rule: rev_induct)
  case (snoc x fs)
  then show ?case by (auto simp: files_by_name_def update_conv' split: if_splits)
qed (simp add: files_by_name_def)

lemma pages_are_entries:
  assumes "archive_ok ps w"
  shows "length ps \<le> length (w_entries w)"
proof -
  have "pg_path p \<in> zf_Name ` set (w_entries w)" if "p \<in> set ps" for p
    using assms that files_by_name_entry unfolding archive_ok_def files_ok_def by (metis imageI)
  then have "set (map pg_path ps) \<subseteq> zf_Name ` set (w_entries w)" by auto
  then have "card (set (map pg_path ps)) \<le> card (zf_Name ` set (w_entries w))" by (intro card_mono) simp_all
  also have "\<dots> \<le> length (w_entries w)" using card_image_le [of "set (w_entries w)" zf_Name] card_length [of "w_entries w"] by simp
  also have "card (set (map pg_path ps)) = length ps"
    using assms distinct_card [of "map pg_path ps"] unfolding archive_ok_def pages_ok_def by simp
  finally show ?thesis .
qed

subsection \<open>The index\<close>

definition files_tagged :: "(string, Tag list) gomap \<Rightarrow> Tag \<Rightarrow> string set" where
  "files_tagged m t = {f. \<exists>tags. (f, tags) \<in> set m \<and> t \<in> set tags}"

definition listing :: "(Tag, string list) gomap \<Rightarrow> Tag \<Rightarrow> string list" where
  "listing index t = (case map_of index t of None \<Rightarrow> [] | Some fs \<Rightarrow> fs)"

definition index_of :: "(Tag, string list) gomap \<Rightarrow> (Tag \<Rightarrow> string set) \<Rightarrow> bool" where
  "index_of index F \<longleftrightarrow> (\<forall>t. set (listing index t) = F t)"

lemma listing_add: "listing (add_to_slice t f index) a = listing index a @ (if a = t then [f] else [])"
  by (simp add: listing_def add_to_slice_def update_conv' split: option.split)

lemma listing_adds: "set (listing (fold (\<lambda>tag. add_to_slice tag f) tags index) a) = set (listing index a) \<union> (if a \<in> set tags then {f} else {})"
  by (induction tags arbitrary: index) (auto simp: listing_add)

lemma invert_index_ok: "index_of (invert_index m) (files_tagged m)"
proof (induction m rule: rev_induct)
  case Nil
  show ?case by (simp add: invert_index_def index_of_def files_tagged_def listing_def)
next
  case (snoc x m)
  obtain f tags where x: "x = (f, tags)" by (cases x)
  have "files_tagged (m @ [x]) t = files_tagged m t \<union> (if t \<in> set tags then {f} else {})" for t
    by (auto simp: files_tagged_def x)
  then show ?case using snoc by (simp add: invert_index_def x index_of_def listing_adds)
qed

lemma index_of_Some: "index_of index F \<Longrightarrow> map_of index t = Some fs \<Longrightarrow> set fs = F t"
  unfolding index_of_def by (drule spec [of _ t]) (simp add: listing_def)

lemma tag_files_ok:
  "case tag_files index tags of
     Inl e \<Rightarrow> e = NoMatches \<and> (\<exists>t \<in> set tags. map_of index t = None)
   | Inr fss \<Rightarrow> list_all2 (\<lambda>t fs. map_of index t = Some fs) tags fss"
  by (induction tags) (auto split: option.splits sum.splits)

lemma intersect_rest_ok:
  "distinct result \<Longrightarrow>
     case intersect_rest result ss of
       Inl e \<Rightarrow> e = NoMatches \<and> set result \<inter> (\<Inter>s \<in> set ss. set s) = {}
     | Inr fs \<Rightarrow> distinct fs \<and> set fs = set result \<inter> (\<Inter>s \<in> set ss. set s)"
proof (induction ss arbitrary: result)
  case (Cons s ss)
  let ?next = "remdups (filter (\<lambda>f. f \<in> set result) s)"
  have sets: "set ?next = set result \<inter> set s" by auto
  show ?case
  proof (cases "?next = []")
    case True
    then have "set result \<inter> set s = {}" using sets by (metis list.set(1))
    then show ?thesis using True by auto
  next
    case False
    have step: "intersect_rest result (s # ss) = intersect_rest ?next ss" using False by (simp add: Let_def)
    have all: "set ?next \<inter> (\<Inter>x \<in> set ss. set x) = set result \<inter> (\<Inter>x \<in> set (s # ss). set x)" unfolding sets by auto
    show ?thesis using Cons.IH [where result = ?next] unfolding step all by simp
  qed
qed simp

lemma intersectFileSets_ok:
  assumes "index_of index F" "tags \<noteq> []"
  shows "case intersectFileSets index tags of
           Inl e \<Rightarrow> e = NoMatches \<and> (\<Inter>t \<in> set tags. F t) = {}
         | Inr fs \<Rightarrow> distinct fs \<and> set fs = (\<Inter>t \<in> set tags. F t)"
proof (cases "tag_files index tags")
  case (Inl e)
  then obtain t where "e = NoMatches" "t \<in> set tags" "map_of index t = None" using tag_files_ok [where index = index and tags = tags] by auto
  moreover then have "F t = {}" using assms(1) by (auto simp: index_of_def listing_def dest: spec [of _ t])
  ultimately show ?thesis using Inl assms(2) by (auto simp: intersectFileSets_def)
next
  case (Inr fss)
  then have l: "list_all2 (\<lambda>t fs. map_of index t = Some fs) tags fss" using tag_files_ok [where index = index and tags = tags] by simp
  then have f: "list_all2 (\<lambda>t fs. set fs = F t) tags fss"
    by (rule list_all2_mono) (rule index_of_Some [OF assms(1)])
  have INT: "(\<Inter>s \<in> set gs. set s) = (\<Inter>t \<in> set ts. F t)" if "list_all2 (\<lambda>t fs. set fs = F t) ts gs" for ts gs
    using that by induction auto
  obtain g gs where g: "fss = g # gs" using f assms(2) by (cases fss) auto
  have all: "set (remdups g) \<inter> (\<Inter>s \<in> set gs. set s) = (\<Inter>t \<in> set tags. F t)" using INT [OF f] g by auto
  have r: "intersectFileSets index tags = intersect_rest (remdups g) gs" using Inr g assms(2) by (simp add: intersectFileSets_def)
  show ?thesis using intersect_rest_ok [where result = "remdups g" and ss = gs] unfolding r all by simp
qed

subsection \<open>Reading back\<close>

text \<open>What a query finds among the pages, in the order of their names, and the calls of the callback on them.\<close>

definition found :: "Tag list \<Rightarrow> 'c page list \<Rightarrow> 'c page list" where
  "found q ps = sort_key pg_path (filter (\<lambda>p. set q \<subseteq> set (pg_tags p) \<and> pg_index p < 10000) ps)"

fun read_pages :: "('c \<Rightarrow> 'a option) \<Rightarrow> ('a, 's) callback \<Rightarrow> 'c page list \<Rightarrow> 's \<Rightarrow> archive_error option \<times> 's" where
  "read_pages jdec cb [] s = (None, s)"
| "read_pages jdec cb (p # ps) s =
     (case jdec (pg_content p) of
        None \<Rightarrow> (Some (DecodeFile (pg_path p)), s)
      | Some obj \<Rightarrow> (case cb obj s of (Some e, s1) \<Rightarrow> (Some e, s1) | (None, s1) \<Rightarrow> read_pages jdec cb ps s1))"

definition deliver :: "('c \<Rightarrow> 'a option) \<Rightarrow> ('a, 's) callback \<Rightarrow> 'c page list \<Rightarrow> 's \<Rightarrow> archive_error option \<times> 's" where
  "deliver jdec cb ps s = (if ps = [] then (Some NoMatches, s) else read_pages jdec cb ps s)"

definition manifestFile :: string where
  "manifestFile = ''capture/misc/manifest.json''"

lemma manifest_name: "createFilenameFromTags ''json'' [internalTagManifest] = Inr manifestFile"
  by code_simp

lemma manifest_dir: "dirNameFromTags [internalTagManifest] = Inr ''capture/misc/manifest''"
  by code_simp

lemma manifest_nonpaged: "isNonPagedArtifact [internalTagManifest]"
  by code_simp

lemma Close_ok:
  assumes "archive_ok ps w" "enc (w_manifestMap w) = Some bytes"
  obtains w1 t where "Close_writer enc NoFault False False now w = (None, w1)" "w_entries w1 = w_entries w @ [zip_entry manifestFile t bytes]"
proof -
  have "w_zipOpen w" "w_fileOpen w" using assms(1) by (simp_all add: archive_ok_def writer_ok_def)
  then show thesis using assms(2) manifest_nonpaged
    by (intro that [of "(snd (Close_writer enc NoFault False False now w))" "tsToUTC now (w_ts w)"])
      (simp_all add: Close_writer_def Add_def AddRaw_def manifest_dir manifest_name zip_write_cases addPathToManifest_def manifest_path_def)
qed

lemma NewReader_ok:
  assumes ok: "archive_ok ps w" and m: "dec bytes = Some m" "map_of m = map_of (w_manifestMap w)" "distinct (map fst m)"
  obtains r where "NewReader dec (Some (w_entries w @ [zip_entry manifestFile t bytes])) = Inr r"
    "rd_files r = files_by_name (w_entries w @ [zip_entry manifestFile t bytes])" "rd_invertedIndex r = invert_index m"
proof -
  let ?fs = "files_by_name (w_entries w @ [zip_entry manifestFile t bytes])"
  have there: "map_of ?fs manifestFile = Some (zip_entry manifestFile t bytes)" by (simp add: files_by_name_snoc)
  have "map_of ?fs path \<noteq> None" if "(path, tags) \<in> set m" for path tags
  proof -
    have "map_of (w_manifestMap w) path = Some tags" using that m(2,3) by (metis map_of_is_SomeI)
    then show ?thesis using ok by (simp add: archive_ok_def files_ok_def files_by_name_snoc)
  qed
  then have "find (\<lambda>(fileName, _). map_of ?fs fileName = None) m = None" by (auto simp: find_None_iff)
  then have "\<exists>r. NewReader dec (Some (w_entries w @ [zip_entry manifestFile t bytes])) = Inr r \<and> rd_files r = ?fs \<and> rd_invertedIndex r = invert_index m"
    using there m(1) by (simp add: NewReader_def manifest_name Let_def)
  then show thesis using that by blast
qed

lemma manifest_okD:
  assumes "archive_ok ps w" "map_of (w_manifestMap w) path = Some tags"
  shows "if isNonPagedArtifact tags then \<exists>extension. createFilenameFromTags extension tags = Inr path
    else \<exists>p \<in> set ps. path = pg_path p \<and> tags = pg_tags p"
  using assms unfolding archive_ok_def manifest_ok_def by blast

text \<open>The files that match a query with an artifact type are pages, and exactly those that carry its tags.\<close>

lemma matching_files:
  assumes ok: "archive_ok ps w" and m: "map_of m = map_of (w_manifestMap w)" "distinct (map fst m)"
    and q: "TagArtifactType ty \<in> set q" "ty \<noteq> profileArtifactType"
  shows "(\<Inter>t \<in> set q. files_tagged m t) = pg_path ` {p \<in> set ps. set q \<subseteq> set (pg_tags p)}"
proof -
  have pages: "\<exists>p \<in> set ps. f = pg_path p \<and> set q \<subseteq> set (pg_tags p)" if hit: "\<forall>t \<in> set q. f \<in> files_tagged m t" for f
  proof -
    obtain tags where tags: "(f, tags) \<in> set m" using bspec [OF hit q(1)] unfolding files_tagged_def by blast
    then have f: "map_of (w_manifestMap w) f = Some tags" using m by (metis map_of_is_SomeI)
    have all: "set q \<subseteq> set tags" using hit tags m(2) unfolding files_tagged_def by (auto dest: eq_key_imp_eq_value)
    have "\<not> isNonPagedArtifact tags"
    proof
      assume non: "isNonPagedArtifact tags"
      then obtain extension where "createFilenameFromTags extension tags = Inr f"
        using manifest_okD [OF ok f] by auto
      then show False using artifact_type_only [OF _ non] all q by blast
    qed
    then have "\<exists>p \<in> set ps. f = pg_path p \<and> tags = pg_tags p"
      using manifest_okD [OF ok f] by (simp only: if_False)
    then show ?thesis using all by auto
  qed
  have tagged_page: "pg_path p \<in> files_tagged m t" if "p \<in> set ps" "set q \<subseteq> set (pg_tags p)" "t \<in> set q" for p t
  proof -
    have "map_of m (pg_path p) = Some (pg_tags p)" using ok m(1) that(1) by (auto simp: archive_ok_def manifest_ok_def)
    then have "(pg_path p, pg_tags p) \<in> set m" by (rule map_of_SomeD)
    moreover have "t \<in> set (pg_tags p)" using that(2,3) by (rule subsetD)
    ultimately show ?thesis unfolding files_tagged_def mem_Collect_eq by (intro exI conjI)
  qed
  show ?thesis
  proof (intro equalityI subsetI)
    fix f assume "f \<in> (\<Inter>t \<in> set q. files_tagged m t)"
    then show "f \<in> pg_path ` {p \<in> set ps. set q \<subseteq> set (pg_tags p)}" using pages [of f] by auto
  next
    fix f assume "f \<in> pg_path ` {p \<in> set ps. set q \<subseteq> set (pg_tags p)}"
    then show "f \<in> (\<Inter>t \<in> set q. files_tagged m t)" using tagged_page by auto
  qed
qed

text \<open>Sorting by a key that is different for all elements.\<close>

lemma sort_key_unique:
  assumes "distinct (map f xs)" "distinct (map f ys)" "set xs = set ys"
  shows "sort_key f xs = sort_key f ys"
proof -
  have d: "distinct xs" "distinct ys" using assms(1,2) by (simp_all add: distinct_map)
  have inj: "inj_on f (set xs)" using assms(1) by (simp add: distinct_map)
  show ?thesis
  proof (rule map_inj_on [where f = f])
    have "sorted (map f (sort_key f xs))" "sorted (map f (sort_key f ys))" by simp_all
    moreover have "distinct (map f (sort_key f xs))" "distinct (map f (sort_key f ys))"
      using assms d by (simp_all add: distinct_map)
    moreover have "set (map f (sort_key f xs)) = set (map f (sort_key f ys))" using assms(3) by simp
    ultimately show "map f (sort_key f xs) = map f (sort_key f ys)" by (intro sorted_distinct_set_unique)
    show "inj_on f (set (sort_key f xs) \<union> set (sort_key f ys))" using inj assms(3) by simp
  qed
qed

lemma insort_key_map: "insort_key f (g x) (map g xs) = map g (insort_key (\<lambda>x. f (g x)) x xs)"
  by (induction xs) auto

lemma sort_key_map: "sort_key f (map g xs) = map g (sort_key (\<lambda>x. f (g x)) xs)"
  by (induction xs) (auto simp: insort_key_map)

lemma insort_key_eq: "\<forall>y \<in> set (x # xs). f y = g y \<Longrightarrow> insort_key f x xs = insort_key g x xs"
  by (induction xs) auto

lemma sort_key_eq: "\<forall>y \<in> set xs. f y = g y \<Longrightarrow> sort_key f xs = sort_key g xs"
proof (induction xs)
  case (Cons x xs)
  then show ?case using insort_key_eq [of x "sort_key g xs" f g] by simp
qed simp

lemma decode_pages:
  "\<forall>p \<in> set ps. zf_Name (g p) = pg_path p \<and> zf_Body (g p) = Some (pg_content p) \<Longrightarrow>
     decode_each jdec cb (map g ps) s = read_pages jdec cb ps s"
  by (induction ps arbitrary: s) (auto split: option.splits prod.splits)

lemma query_delivers:
  assumes ok: "archive_ok ps w" and m: "map_of m = map_of (w_manifestMap w)" "distinct (map fst m)"
    and r: "rd_files r = files_by_name (w_entries w @ [zip_entry manifestFile t bytes])" "rd_invertedIndex r = invert_index m"
    and q: "TagArtifactType ty \<in> set q" "ty \<noteq> profileArtifactType"
  shows "ForEachTaggedArtifact jdec r q cb s = deliver jdec cb (found q ps) s"
proof -
  let ?sel = "filter (\<lambda>p. set q \<subseteq> set (pg_tags p) \<and> pg_index p < 10000) ps"
  let ?g = "\<lambda>p. the (map_of (rd_files r) (pg_path p))"
  have pok: "pages_ok ps" using ok by (simp add: archive_ok_def)
  have g: "map_of (rd_files r) (pg_path p) = Some (?g p) \<and> zf_Name (?g p) = pg_path p \<and> zf_Body (?g p) = Some (pg_content p)"
    if p: "p \<in> set ps" for p
  proof -
    have "pg_path p \<noteq> manifestFile"
      using nonpaged_not_page [OF _ _ manifest_name manifest_nonpaged, of "pg_tags p" "pg_dir p" "pg_index p"] pok p
      by (auto simp: pages_ok_def pg_path_def)
    then show ?thesis using ok p by (force simp: archive_ok_def files_ok_def r(1) files_by_name_snoc)
  qed
  have set_q: "(\<Inter>t \<in> set q. files_tagged m t) = pg_path ` {p \<in> set ps. set q \<subseteq> set (pg_tags p)}"
    by (rule matching_files [OF ok m q])
  have "q \<noteq> []" using q(1) by auto
  note inter = intersectFileSets_ok [OF invert_index_ok this, of m, unfolded set_q]
  show ?thesis
  proof (cases "intersectFileSets (invert_index m) q")
    case (Inl e)
    then have "{p \<in> set ps. set q \<subseteq> set (pg_tags p)} = {}" "e = NoMatches" using inter by simp_all
    then have "found q ps = []" by (auto simp: found_def filter_empty_conv)
    then show ?thesis using Inl \<open>e = NoMatches\<close> by (simp add: ForEachTaggedArtifact_def r(2) deliver_def)
  next
    case (Inr names)
    then have names: "distinct names" "set names = pg_path ` {p \<in> set ps. set q \<subseteq> set (pg_tags p)}" using inter by simp_all
    let ?files = "List.map_filter (\<lambda>name. if is_page name then map_of (rd_files r) name else None) names"
    have name_of: "zf_Name f = name" if "name \<in> set names" "map_of (rd_files r) name = Some f" for name f
      using names(2) that g by fastforce
    have "map zf_Name ?files = filter (\<lambda>n. is_page n \<and> map_of (rd_files r) n \<noteq> None) names"
      using name_of by (induction names) (auto simp: List.map_filter_def)
    then have d: "distinct (map zf_Name ?files)" using names(1) by simp
    have same: "set ?files = ?g ` set ?sel"
    proof
      show "set ?files \<subseteq> ?g ` set ?sel"
      proof
        fix f assume "f \<in> set ?files"
        then obtain name where n: "name \<in> set names" "is_page name" "map_of (rd_files r) name = Some f"
          by (auto simp: List.map_filter_def split: if_splits)
        then obtain p where "p \<in> set ps" "set q \<subseteq> set (pg_tags p)" "name = pg_path p" using names(2) by auto
        then show "f \<in> ?g ` set ?sel" using n is_page_iff [of "pg_dir p" "pg_index p"] by (force simp: pg_path_def)
      qed
      show "?g ` set ?sel \<subseteq> set ?files"
      proof
        fix f assume "f \<in> ?g ` set ?sel"
        then obtain p where p: "p \<in> set ps" "set q \<subseteq> set (pg_tags p)" "pg_index p < 10000" "f = ?g p" by auto
        then have "is_page (pg_path p)" "pg_path p \<in> set names" "map_of (rd_files r) (pg_path p) = Some f"
          using is_page_iff [of "pg_dir p" "pg_index p"] names(2) g by (auto simp: pg_path_def)
        then show "f \<in> set ?files" by (force simp: List.map_filter_def)
      qed
    qed
    have sel: "\<forall>p \<in> set ?sel. p \<in> set ps" by simp
    have paths: "map (\<lambda>p. zf_Name (?g p)) ?sel = map pg_path ?sel" using g by simp
    have "distinct (map pg_path ?sel)" using pok by (simp add: pages_ok_def distinct_map_filter)
    then have dg: "distinct (map zf_Name (map ?g ?sel))" using paths unfolding map_map comp_def by (rule ssubst [rotated])
    have "sort_key zf_Name ?files = sort_key zf_Name (map ?g ?sel)"
      using d dg same by (intro sort_key_unique) simp_all
    also have "\<dots> = map ?g (sort_key (\<lambda>p. zf_Name (?g p)) ?sel)" by (rule sort_key_map)
    also have "sort_key (\<lambda>p. zf_Name (?g p)) ?sel = found q ps" unfolding found_def using g by (intro sort_key_eq) simp
    finally have sorted_files: "sort_key zf_Name ?files = map ?g (found q ps)" .
    have "set (found q ps) = set ?sel" by (simp add: found_def)
    then have "set ?files = {} \<longleftrightarrow> set (found q ps) = {}" unfolding same by (simp only: image_is_empty)
    then have "?files = [] \<longleftrightarrow> found q ps = []" by (simp only: set_empty)
    moreover have "\<forall>p \<in> set (found q ps). zf_Name (?g p) = pg_path p \<and> zf_Body (?g p) = Some (pg_content p)"
      using g by (simp add: found_def)
    ultimately show ?thesis using Inr decode_pages [of "found q ps" ?g jdec cb s]
      by (simp add: ForEachTaggedArtifact_def r(2) deliver_def Let_def sorted_files)
  qed
qed

text \<open>A run of writes with failures, in an archive whose contents are numbers, with the manifest as it is.\<close>

definition witness_adds :: "(nat + (string, Tag list) gomap) add_call list" where
  "witness_adds =
     (let call = (\<lambda>f c tags. \<lparr> ac_fault = f, ac_now = 0, ac_content = Inl c, ac_extension = ''json'', ac_tags = tags \<rparr>);
          tags = (\<lambda>s. [TagCluster ''c'', TagServer s, TagServerVars])
      in [call NoFault 1 (tags ''a''), call (CopyFails (Inl 0)) 2 (tags ''a''), call NoFault 3 (tags ''a''), call NoFault 4 (tags ''b''),
          call NoFault 5 (tags ''..''), call NoFault 6 [TagSpecial ''note'']])"

subsection \<open>The order of pages\<close>

definition accepted :: "'c add_call \<Rightarrow> bool" where
  "accepted c \<longleftrightarrow> ac_fault c = NoFault \<and> \<not> isNonPagedArtifact (ac_tags c) \<and> is_ok (dirNameFromTags (ac_tags c))"

lemma written_snoc:
  "written (cs @ [c]) =
     (if accepted c then
        written cs @ [\<lparr> pg_dir = projr (dirNameFromTags (ac_tags c)),
          pg_index = Suc (pages_in (projr (dirNameFromTags (ac_tags c))) (written cs)), pg_tags = ac_tags c, pg_content = ac_content c \<rparr>]
      else written cs)"
  by (simp add: written_def log_page_def accepted_def split: sum.split zip_fault.split)

lemma written_calls:
  "map (\<lambda>p. (pg_tags p, pg_content p)) (written cs) = map (\<lambda>c. (ac_tags c, ac_content c)) (filter accepted cs)"
proof (induction cs rule: rev_induct)
  case (snoc c cs)
  then show ?case by (simp add: written_snoc)
qed (simp add: written_def)

lemma page_numbers: "map pg_index (filter (\<lambda>p. pg_dir p = d) (written cs)) = [1 ..< Suc (pages_in d (written cs))]"
proof (induction cs rule: rev_induct)
  case (snoc c cs)
  then show ?case by (auto simp: written_snoc)
qed (simp add: written_def)

lemma pages_sorted:
  assumes "pages_in d (written cs) < 10000"
  shows "sorted (map pg_path (filter (\<lambda>p. pg_dir p = d) (written cs)))"
proof -
  let ?n = "pages_in d (written cs)"
  have "map pg_path (filter (\<lambda>p. pg_dir p = d) (written cs)) = map (page_path d) (map pg_index (filter (\<lambda>p. pg_dir p = d) (written cs)))"
    by (auto simp: pg_path_def)
  also have "\<dots> = map (page_path d) [1 ..< Suc ?n]" by (simp only: page_numbers)
  finally have eq: "map pg_path (filter (\<lambda>p. pg_dir p = d) (written cs)) = map (page_path d) [1 ..< Suc ?n]" .
  have "sorted (map (page_path d) [1 ..< Suc ?n])"
    unfolding sorted_iff_nth_mono using assms page_order by (auto simp del: upt_Suc simp: le_less)
  then show ?thesis unfolding eq .
qed

lemma pages_in_written: "pages_in d (written cs) = length (filter (\<lambda>c. accepted c \<and> dirNameFromTags (ac_tags c) = Inr d) cs)"
proof (induction cs rule: rev_induct)
  case (snoc c cs)
  then show ?case by (cases "dirNameFromTags (ac_tags c)") (auto simp: written_snoc accepted_def)
qed (simp add: written_def)

lemma found_accepted:
  assumes "length cs < 10000"
  shows "mset (map (\<lambda>p. (pg_tags p, pg_content p)) (found q (written cs))) =
      mset (map (\<lambda>c. (ac_tags c, ac_content c)) (filter (\<lambda>c. accepted c \<and> set q \<subseteq> set (ac_tags c)) cs)) \<and>
    sorted (map pg_path (found q (written cs)))"
proof -
  have few: "pg_index p < 10000" if "p \<in> set (written cs)" for p
  proof -
    have "pg_index p \<le> pages_in (pg_dir p) (written cs)" using written_ok [of cs] that by (auto simp: pages_ok_def)
    moreover have "pages_in (pg_dir p) (written cs) \<le> length cs" by (simp add: pages_in_written)
    ultimately show ?thesis using assms by simp
  qed
  have found: "found q (written cs) = sort_key pg_path (filter (\<lambda>p. set q \<subseteq> set (pg_tags p)) (written cs))"
    unfolding found_def using few by (intro arg_cong [where f = "sort_key pg_path"] filter_cong) auto
  have "map (\<lambda>p. (pg_tags p, pg_content p)) (filter (\<lambda>p. set q \<subseteq> set (pg_tags p)) (written cs)) =
      filter (\<lambda>x. set q \<subseteq> set (fst x)) (map (\<lambda>p. (pg_tags p, pg_content p)) (written cs))"
    by (simp add: filter_map comp_def)
  also have "\<dots> = map (\<lambda>c. (ac_tags c, ac_content c)) (filter (\<lambda>c. accepted c \<and> set q \<subseteq> set (ac_tags c)) cs)"
    unfolding written_calls by (simp add: filter_map comp_def conj_commute)
  finally have eq: "map (\<lambda>p. (pg_tags p, pg_content p)) (filter (\<lambda>p. set q \<subseteq> set (pg_tags p)) (written cs)) =
      map (\<lambda>c. (ac_tags c, ac_content c)) (filter (\<lambda>c. accepted c \<and> set q \<subseteq> set (ac_tags c)) cs)" .
  have "mset (map (\<lambda>p. (pg_tags p, pg_content p)) (found q (written cs))) =
      mset (map (\<lambda>p. (pg_tags p, pg_content p)) (filter (\<lambda>p. set q \<subseteq> set (pg_tags p)) (written cs)))"
    by (simp add: found)
  then show ?thesis unfolding eq by (simp add: found)
qed



text \<open>
  The pages of one directory are read in the order they were written: when all artifacts a query
  matches lie in one directory of fewer than 10000 pages, it finds the accepted calls it matches, in order.
\<close>

theorem pages_in_write_order:
  assumes "\<forall>c \<in> set cs. accepted c \<and> set q \<subseteq> set (ac_tags c) \<longrightarrow> dirNameFromTags (ac_tags c) = Inr d"
    and "length (filter (\<lambda>c. accepted c \<and> dirNameFromTags (ac_tags c) = Inr d) cs) < 10000"
  shows "map (\<lambda>p. (pg_tags p, pg_content p)) (found q (written cs)) =
    map (\<lambda>c. (ac_tags c, ac_content c)) (filter (\<lambda>c. accepted c \<and> set q \<subseteq> set (ac_tags c)) cs)"
proof -
  let ?hit = "\<lambda>p. set q \<subseteq> set (pg_tags p)" and ?ps = "written cs"
  have few: "pages_in d ?ps < 10000" using assms(2) by (simp add: pages_in_written)
  have dir: "pg_dir p = d \<and> pg_index p < 10000" if p: "p \<in> set ?ps" "?hit p" for p
  proof -
    have pok: "dirNameFromTags (pg_tags p) = Inr (pg_dir p)" "pg_index p \<le> pages_in (pg_dir p) ?ps"
      using written_ok [of cs] p(1) by (auto simp: pages_ok_def)
    have "(pg_tags p, pg_content p) \<in> set (map (\<lambda>c. (ac_tags c, ac_content c)) (filter accepted cs))"
      using p(1) unfolding written_calls [symmetric] by force
    then obtain c where "c \<in> set cs" "accepted c" "ac_tags c = pg_tags p" by auto
    then show ?thesis using assms(1) p(2) pok few by force
  qed
  have "filter (\<lambda>p. ?hit p \<and> pg_index p < 10000) ?ps = filter ?hit (filter (\<lambda>p. pg_dir p = d) ?ps)"
    using dir by (auto intro!: filter_cong)
  moreover have "sorted (map pg_path (filter ?hit (filter (\<lambda>p. pg_dir p = d) ?ps)))"
    by (rule sorted_filter [OF pages_sorted [OF few]])
  ultimately have "found q ?ps = filter (\<lambda>p. ?hit p \<and> pg_index p < 10000) ?ps"
    unfolding found_def by (intro sort_key_id_if_sorted) simp
  also have "\<dots> = filter ?hit ?ps" using dir by (auto intro!: filter_cong)
  finally have "map (\<lambda>p. (pg_tags p, pg_content p)) (found q ?ps) = filter (\<lambda>x. set q \<subseteq> set (fst x)) (map (\<lambda>p. (pg_tags p, pg_content p)) ?ps)"
    by (simp add: filter_map comp_def)
  also have "\<dots> = map (\<lambda>c. (ac_tags c, ac_content c)) (filter (\<lambda>c. accepted c \<and> set q \<subseteq> set (ac_tags c)) cs)"
    unfolding written_calls by (simp add: filter_map comp_def conj_commute)
  finally show ?thesis .
qed

lemma pages_in_write_order_witness:
  "map (\<lambda>p. (pg_tags p, pg_content p)) (found [TagServer ''a''] (written witness_adds)) =
     map (\<lambda>c. (ac_tags c, ac_content c)) (filter (\<lambda>c. accepted c \<and> set [TagServer ''a''] \<subseteq> set (ac_tags c)) witness_adds)"
proof (rule pages_in_write_order [where d = "''capture/clusters/c/a/variables''"])
  show "\<forall>c \<in> set witness_adds. accepted c \<and> set [TagServer ''a''] \<subseteq> set (ac_tags c) \<longrightarrow>
    dirNameFromTags (ac_tags c) = Inr ''capture/clusters/c/a/variables''" by code_simp
  show "length (filter (\<lambda>c. accepted c \<and> dirNameFromTags (ac_tags c) = Inr ''capture/clusters/c/a/variables'') witness_adds) < 10000" by code_simp
qed

subsection \<open>Every file lies below the root directory\<close>

definition below_root :: "string \<Rightarrow> bool" where
  "below_root p \<longleftrightarrow> (\<exists>es. p = join_with ''/'' (rootDirectory # es) \<and> es \<noteq> [] \<and> list_all plain_elem es)"

definition names_ok :: "'c Writer \<Rightarrow> bool" where
  "names_ok w \<longleftrightarrow> (\<forall>f \<in> set (w_entries w). below_root (zf_Name f)) \<and> (\<forall>d pw. map_of (w_pagedWriters w) d = Some pw \<longrightarrow> pw_dir pw = d)"

lemma below_root_captured: "es \<noteq> [] \<Longrightarrow> list_all plain_elem es \<Longrightarrow> below_root (captured_path es)"
  by (auto simp: below_root_def captured_path_def path_of_def)

lemma below_root_file: "createFilenameFromTags extension tags = Inr p \<Longrightarrow> below_root p"
  using filename_captured below_root_captured by blast

lemma below_root_page:
  assumes "dirNameFromTags tags = Inr d"
  shows "below_root (filepath_Join [d, page_name i ''json''])"
proof -
  obtain es where es: "d = captured_path es" "list_all plain_elem es" using dirName_captured [OF assms] by blast
  have "filepath_Join [d, page_name i ''json''] = captured_path (es @ [page_name i ''json''])"
    using Join_page [OF assms, of i] unfolding page_path_def es(1) captured_snoc .
  then show ?thesis using below_root_captured [of "es @ [page_name i ''json'']"] es(2) page_name_plain by simp
qed

lemma names_ok_write: "names_ok w \<Longrightarrow> below_root name \<Longrightarrow> names_ok (snd (zip_write fault name t c w))"
  by (auto simp: zip_write_cases names_ok_def split: zip_fault.split)

lemma names_ok_manifest: "names_ok w \<Longrightarrow> names_ok (snd (addPathToManifest i extension tags w))"
  by (auto simp: addPathToManifest_def names_ok_def split: sum.split)

lemma names_ok_paged:
  assumes "names_ok w" "PagedWriter d w = (pw, w1)"
  shows "names_ok w1 \<and> pw_dir pw = d"
  using assms by (auto simp: PagedWriter_def names_ok_def newPagedWriter_def update_conv' Let_def split: option.splits if_splits)

lemma names_ok_entry:
  assumes "names_ok w" "below_root (filepath_Join [pw_dir pw, page_name (pw_pageIndex pw) ''json''])"
  shows "names_ok (snd (WriteEntry fault now pw c w))"
proof -
  let ?name = "filepath_Join [pw_dir pw, page_name (pw_pageIndex pw) ''json'']"
  obtain e w1 where z: "zip_write fault ?name (tsToUTC now (pw_ts pw)) c w = (e, w1)" by (cases "zip_write fault ?name (tsToUTC now (pw_ts pw)) c w")
  then have "names_ok w1" using names_ok_write [OF assms, of fault "tsToUTC now (pw_ts pw)" c] by simp
  then show ?thesis using z by (cases e) (auto simp: WriteEntry_def Let_def names_ok_def update_conv' simp del: filepath_Join.simps)
qed

lemma names_ok_AddRaw:
  assumes "names_ok w"
  shows "names_ok (snd (AddRaw fault now c extension tags w))"
proof (cases "dirNameFromTags tags")
  case (Inl e)
  then show ?thesis using assms by (simp add: AddRaw_def)
next
  case (Inr d)
  show ?thesis
  proof (cases "isNonPagedArtifact tags")
    case True
    show ?thesis
    proof (cases "createFilenameFromTags extension tags")
      case (Inl e)
      then show ?thesis using assms Inr True by (simp add: AddRaw_def)
    next
      case name: (Inr p)
      obtain e w1 where z: "zip_write fault p (tsToUTC now (w_ts w)) c w = (e, w1)" by (cases "zip_write fault p (tsToUTC now (w_ts w)) c w")
      then have "names_ok w1" using names_ok_write [OF assms below_root_file [OF name], of fault "tsToUTC now (w_ts w)" c] by simp
      then show ?thesis using assms Inr True name z names_ok_manifest [of w1 0 extension tags] by (cases e) (simp_all add: AddRaw_def)
    qed
  next
    case False
    obtain pw w1 where pw: "PagedWriter d w = (pw, w1)" by (cases "PagedWriter d w")
    note ok = names_ok_paged [OF assms pw]
    obtain e w2 where z: "WriteEntry fault now pw c w1 = (e, w2)" by (cases "WriteEntry fault now pw c w1")
    then have "names_ok w2" using names_ok_entry [of w1 pw fault now c] ok below_root_page [OF Inr] by (simp del: filepath_Join.simps)
    then show ?thesis using assms Inr False pw z names_ok_manifest [of w2 "pw_pageIndex pw" extension tags] by (cases e) (simp_all add: AddRaw_def)
  qed
qed

text \<open>
  C14. Nothing is ever written outside the root directory of the archive: whatever the tags, the extension
  and the failures, the name of every entry is that directory followed by plain elements, none of them
  empty, a dot, two dots or with a separator in it.
\<close>

theorem archive_stays_in_root: "\<forall>f \<in> set (w_entries (run_adds cs NewWriter)). below_root (zf_Name f)"
proof -
  have "names_ok (run_adds cs NewWriter)"
  proof (induction cs rule: rev_induct)
    case (snoc c cs)
    then show ?case using names_ok_AddRaw by (auto simp: run_adds_def do_add_def)
  qed (simp add: run_adds_def names_ok_def NewWriter_def)
  then show ?thesis by (simp add: names_ok_def)
qed

lemma archive_stays_in_root_witness:
  "zf_Name (w_entries (run_adds witness_adds NewWriter) ! 0) = ''capture/clusters/c/a/variables/0001.json'' \<and>
   below_root (zf_Name (w_entries (run_adds witness_adds NewWriter) ! 0))"
proof -
  have "w_entries (run_adds witness_adds NewWriter) ! 0 \<in> set (w_entries (run_adds witness_adds NewWriter))" by code_simp
  moreover have "zf_Name (w_entries (run_adds witness_adds NewWriter) ! 0) = ''capture/clusters/c/a/variables/0001.json''" by code_simp
  ultimately show ?thesis by (intro conjI bspec [OF archive_stays_in_root])
qed

end
