(* ===== verification/Audit_Checks.thy ===== *)
theory Audit_Checks
  imports Audit_Archive
begin

text \<open>
  The checks over an audit archive: their configuration (\<open>src/audit/configuration.go\<close>), the examples they
  collect (\<open>src/audit/examples_collection.go\<close>), their registration and runs (\<open>src/audit/checks.go\<close>) and the
  grouping of results (\<open>src/audit/analysis.go\<close>).
\<close>

subsection \<open>Floats that may be infinite or not a number\<close>

datatype gofloat = Fin rat | PosInf | NegInf | NaN

definition gf_round :: "rat \<Rightarrow> gofloat" where
  "gf_round x = (if too_large x then (if x > 0 then PosInf else NegInf) else Fin (float64 x))"

fun gf_less :: "gofloat \<Rightarrow> gofloat \<Rightarrow> bool" where
  "gf_less NaN _ = False"
| "gf_less _ NaN = False"
| "gf_less _ NegInf = False"
| "gf_less NegInf _ = True"
| "gf_less PosInf _ = False"
| "gf_less _ PosInf = True"
| "gf_less (Fin x) (Fin y) = (x < y)"

text \<open>The product with a finite value, and the quotient by a positive one.\<close>

fun gf_times :: "rat \<Rightarrow> gofloat \<Rightarrow> gofloat" where
  "gf_times a (Fin x) = gf_round (a * x)"
| "gf_times a NaN = NaN"
| "gf_times a PosInf = (if a = 0 then NaN else if a > 0 then PosInf else NegInf)"
| "gf_times a NegInf = (if a = 0 then NaN else if a > 0 then NegInf else PosInf)"

fun gf_over :: "gofloat \<Rightarrow> rat \<Rightarrow> gofloat" where
  "gf_over (Fin x) a = gf_round (x / a)"
| "gf_over f a = f"

text \<open>\<open>f == math.Trunc(f)\<close>.\<close>

fun gf_whole :: "gofloat \<Rightarrow> bool" where
  "gf_whole (Fin x) = (of_int (truncate_int x) = x)"
| "gf_whole NaN = False"
| "gf_whole _ = True"

text \<open>\<open>int64(f)\<close> and \<open>uint64(f)\<close>; out of range it is \<open>cv f\<close>, what the processor gives.\<close>

definition to_int64 :: "(gofloat \<Rightarrow> int) \<Rightarrow> gofloat \<Rightarrow> int" where
  "to_int64 cv f = (case f of Fin x \<Rightarrow> (let i = truncate_int x in if - (2 ^ 63) \<le> i \<and> i < 2 ^ 63 then i else cv f) | _ \<Rightarrow> cv f)"

definition to_uint64 :: "(gofloat \<Rightarrow> int) \<Rightarrow> gofloat \<Rightarrow> int" where
  "to_uint64 cv f = (case f of Fin x \<Rightarrow> (let i = truncate_int x in if 0 \<le> i \<and> i < 2 ^ 64 then i else cv f) | _ \<Rightarrow> cv f)"

subsection \<open>\<open>strconv.ParseFloat\<close>\<close>

definition digit_in :: "bool \<Rightarrow> char \<Rightarrow> nat option" where
  "digit_in hex c =
     (case digit_val c of
        Some d \<Rightarrow> Some d
      | None \<Rightarrow> (let n = (of_char (lower_char c) :: nat) in if hex \<and> 97 \<le> n \<and> n \<le> 102 then Some (n - 87) else None))"

text \<open>The mantissa: its digits as an integer, how many follow the point, whether there was a digit, and the rest.\<close>

fun read_mantissa :: "bool \<Rightarrow> string \<Rightarrow> bool \<Rightarrow> int \<Rightarrow> nat \<Rightarrow> bool \<Rightarrow> int \<times> nat \<times> bool \<times> string" where
  "read_mantissa hex [] dot m k saw = (m, k, saw, [])"
| "read_mantissa hex (c # cs) dot m k saw =
     (if c = CHR ''_'' then read_mantissa hex cs dot m k saw
      else if c = CHR ''.'' then (if dot then (m, k, saw, c # cs) else read_mantissa hex cs True m k saw)
      else case digit_in hex c of
             None \<Rightarrow> (m, k, saw, c # cs)
           | Some d \<Rightarrow> read_mantissa hex cs dot ((if hex then 16 else 10) * m + int d) (if dot then Suc k else k) True)"

fun read_exponent :: "string \<Rightarrow> int \<Rightarrow> int \<times> string" where
  "read_exponent [] e = (e, [])"
| "read_exponent (c # cs) e =
     (if c = CHR ''_'' then read_exponent cs e
      else case digit_val c of None \<Rightarrow> (e, c # cs) | Some d \<Rightarrow> read_exponent cs (if e < 10000 then 10 * e + int d else e))"

text \<open>
  \<open>underscoreOK\<close>: an underscore stands between digits or behind a base prefix. \<open>prev\<close> is what came before:
  \<open>0\<close> a digit, \<open>_\<close>, \<open>!\<close> something else.
\<close>

fun underscores_between :: "bool \<Rightarrow> char \<Rightarrow> string \<Rightarrow> bool" where
  "underscores_between hex prev [] = (prev \<noteq> CHR ''_'')"
| "underscores_between hex prev (c # cs) =
     (if digit_in hex c \<noteq> None then underscores_between hex (CHR ''0'') cs
      else if c = CHR ''_'' then prev = CHR ''0'' \<and> underscores_between hex c cs
      else prev \<noteq> CHR ''_'' \<and> underscores_between hex (CHR ''!'') cs)"

definition cut_sign :: "string \<Rightarrow> bool \<times> string" where
  "cut_sign s = (case s of [] \<Rightarrow> (False, []) | c # cs \<Rightarrow> if c = CHR ''-'' then (True, cs) else if c = CHR ''+'' then (False, cs) else (False, s))"

definition read_float :: "string \<Rightarrow> rat option" where
  "read_float s =
     (let (neg, s1) = cut_sign s;
          hex = (2 < length s1 \<and> hd s1 = CHR ''0'' \<and> lower_char (s1 ! 1) = CHR ''x'');
          s2 = (if hex then drop 2 s1 else s1);
          (m, k, saw, s3) = read_mantissa hex s2 False 0 0 False;
          frac = (if hex then of_int m / 16 ^ k else of_int m / 10 ^ k :: rat);
          sgn_m = (if neg then - frac else frac);
          has_exp = (s3 \<noteq> [] \<and> lower_char (hd s3) = (if hex then CHR ''p'' else CHR ''e''));
          (eneg, s4) = cut_sign (tl s3);
          ok_us = (CHR ''_'' \<notin> set s \<or> underscores_between hex (if hex then CHR ''0'' else CHR ''!'') s2)
      in if \<not> saw \<or> \<not> ok_us then None
         else if has_exp then
           (if s4 = [] \<or> digit_val (hd s4) = None then None
            else (case read_exponent s4 0 of
                    (e, rest) \<Rightarrow>
                      if rest \<noteq> [] then None
                      else Some (sgn_m * (if hex then 2 else 10) powi (if eneg then - e else e))))
         else if hex \<or> s3 \<noteq> [] then None else Some sgn_m)"

definition special_float :: "string \<Rightarrow> gofloat option" where
  "special_float s =
     (let (neg, s1) = cut_sign s; l = to_lower s1
      in if l = ''inf'' \<or> l = ''infinity'' then Some (if neg then NegInf else PosInf)
         else if to_lower s = ''nan'' then Some NaN else None)"

definition strconv_ParseFloat :: "string \<Rightarrow> string + gofloat" where
  "strconv_ParseFloat s =
     (case special_float s of
        Some f \<Rightarrow> Inr f
      | None \<Rightarrow>
          (case read_float s of
             None \<Rightarrow> Inl ''invalid syntax''
           | Some x \<Rightarrow> if too_large x then Inl ''value out of range'' else Inr (Fin (float64 x))))"

subsection \<open>Configuration items\<close>

record CheckConfiguration =
  cf_Key :: string
  cf_Check :: string
  cf_Description :: string
  cf_Default :: gofloat
  cf_Unit :: string
  cf_SetValue :: "gofloat option"

definition PercentageUnit :: string where "PercentageUnit = ''%''"
definition IntUnit :: string where "IntUnit = ''int''"
definition UIntUnit :: string where "UIntUnit = ''uint''"

lemmas unit_defs = PercentageUnit_def IntUnit_def UIntUnit_def

datatype config_error =
    UnknownUnit string
  | BadFloat string
  | PercentNegative
  | PercentTooLarge
  | ValueNegative
  | ValueNotWhole

text \<open>\<open>Value\<close> of a pointer that may be nil.\<close>

definition config_Value :: "CheckConfiguration option \<Rightarrow> gofloat" where
  "config_Value c = (case c of None \<Rightarrow> Fin 0 | Some c1 \<Rightarrow> (case cf_SetValue c1 of Some v \<Rightarrow> v | None \<Rightarrow> cf_Default c1))"

definition validateUnitValue :: "string \<Rightarrow> gofloat \<Rightarrow> config_error option" where
  "validateUnitValue u f =
     (if u = PercentageUnit then
        (if gf_less f (Fin 0) then Some PercentNegative else if gf_less (Fin 100) f then Some PercentTooLarge else None)
      else if u = UIntUnit then
        (if gf_less f (Fin 0) then Some ValueNegative else if \<not> gf_whole f then Some ValueNotWhole else None)
      else if u = IntUnit then (if \<not> gf_whole f then Some ValueNotWhole else None)
      else None)"

definition config_Set :: "string \<Rightarrow> CheckConfiguration \<Rightarrow> config_error option \<times> CheckConfiguration" where
  "config_Set v c =
     (if cf_Unit c \<notin> {PercentageUnit, UIntUnit, IntUnit, []} then (Some (UnknownUnit (cf_Unit c)), c)
      else case strconv_ParseFloat (if cf_Unit c = PercentageUnit then trim_suffix v ''%'' else v) of
             Inl e \<Rightarrow> (Some (BadFloat e), c)
           | Inr f \<Rightarrow>
               (case validateUnitValue (cf_Unit c) f of
                  Some e \<Rightarrow> (Some e, c)
                | None \<Rightarrow> (None, c\<lparr> cf_SetValue := Some f \<rparr>)))"

definition validateDefault :: "CheckConfiguration \<Rightarrow> config_error option" where
  "validateDefault c = validateUnitValue (cf_Unit c) (cf_Default c)"

subsection \<open>Examples\<close>

text \<open>An example is its format and arguments; \<open>int(Limit)\<close> of a large limit is negative.\<close>

record ExamplesCollection =
  ex_Examples :: "report_line list"
  ex_Error :: "archive_error option"
  ex_Limit :: u64
  ex_overflow :: int

definition newExamplesCollection :: "u64 \<Rightarrow> ExamplesCollection" where
  "newExamplesCollection limit = \<lparr> ex_Examples = [], ex_Error = None, ex_Limit = limit, ex_overflow = 0 \<rparr>"

definition ex_Add :: "string \<Rightarrow> arg list \<Rightarrow> ExamplesCollection \<Rightarrow> ExamplesCollection" where
  "ex_Add format a c =
     (if ex_Limit c > 0 \<and> int (length (ex_Examples c)) \<ge> sint (ex_Limit c) then c\<lparr> ex_overflow := ex_overflow c + 1 \<rparr>
      else c\<lparr> ex_Examples := ex_Examples c @ [(format, a)] \<rparr>)"

definition ex_Clear :: "ExamplesCollection \<Rightarrow> ExamplesCollection" where
  "ex_Clear c = c\<lparr> ex_Examples := [], ex_overflow := 0 \<rparr>"

definition ex_Count :: "ExamplesCollection \<Rightarrow> int" where
  "ex_Count c = int (length (ex_Examples c)) + ex_overflow c"

text \<open>\<open>String\<close>; \<open>sprintf\<close> is \<open>fmt.Sprintf\<close> on the examples.\<close>

definition ex_String :: "(report_line \<Rightarrow> string) \<Rightarrow> ExamplesCollection \<Rightarrow> string" where
  "ex_String sprintf c =
     concat (map (\<lambda>e. '' - '' @ sprintf e @ [CHR 0x0A]) (ex_Examples c)) @
     (if ex_overflow c > 0 then '' - ... and '' @ format_int (ex_overflow c) @ '' more ...'' @ [CHR 0x0A] else [])"

subsection \<open>Checks and their registration\<close>

datatype Outcome = Pass | PassWithIssues | Fail | Skipped | OtherOutcome int

text \<open>\<open>String\<close> panics on an outcome that is none of the four.\<close>

fun Outcome_String :: "Outcome \<Rightarrow> string option" where
  "Outcome_String Fail = Some ''FAIL''"
| "Outcome_String Pass = Some ''PASS''"
| "Outcome_String PassWithIssues = Some ''WARN''"
| "Outcome_String Skipped = Some ''SKIP''"
| "Outcome_String (OtherOutcome _) = None"

definition Outcomes :: "Outcome list" where
  "Outcomes = [Pass, PassWithIssues, Fail, Skipped]"

text \<open>
  A handler gets the configuration of its check as a function from keys to items. A panic is the error
  \<open>Panicked\<close>.
\<close>

type_synonym 'r CheckFunc =
  "(string \<Rightarrow> CheckConfiguration option) \<Rightarrow> 'r \<Rightarrow> ExamplesCollection \<Rightarrow> (Outcome \<times> archive_error option) \<times> ExamplesCollection"

text \<open>
  The configuration items are shared: a check and the collection both refer to an item by its number in
  the store, so that what is set through the collection is what the handler reads.
\<close>

record 'r Check =
  ck_Code :: string
  ck_Suite :: string
  ck_Name :: string
  ck_Description :: string
  ck_Configuration :: "(string, nat) gomap"
  ck_Handler :: "'r CheckFunc option"

type_synonym config_store = "(nat, CheckConfiguration) gomap"

record 'r CheckCollection =
  cc_registered :: "(string, 'r Check) gomap"
  cc_configuration :: "(string, nat) gomap"
  cc_suites :: "(string, 'r Check list) gomap"
  cc_skipCheck :: "string list"
  cc_skipSuite :: "string list"

datatype register_error =
    CodeRequired
  | SuiteRequired
  | NameRequired
  | DescriptionRequired
  | HandlerRequired
  | AlreadyRegistered string
  | KeyRequired
  | ItemDescriptionRequired
  | InvalidDefault string string config_error
  | NilItem

definition NewCollection :: "'r CheckCollection" where
  "NewCollection = \<lparr> cc_registered = [], cc_configuration = [], cc_suites = [], cc_skipCheck = [], cc_skipSuite = [] \<rparr>"

definition add_missing :: "'a list \<Rightarrow> 'a list \<Rightarrow> 'a list" where
  "add_missing news xs = fold (\<lambda>x ys. if x \<in> set ys then ys else ys @ [x]) news xs"

definition SkipChecks :: "string list \<Rightarrow> 'r CheckCollection \<Rightarrow> 'r CheckCollection" where
  "SkipChecks checks c = c\<lparr> cc_skipCheck := add_missing checks (cc_skipCheck c) \<rparr>"

definition SkipSuites :: "string list \<Rightarrow> 'r CheckCollection \<Rightarrow> 'r CheckCollection" where
  "SkipSuites suites c = c\<lparr> cc_skipSuite := add_missing suites (cc_skipSuite c) \<rparr>"

definition configItemKey :: "string \<Rightarrow> string \<Rightarrow> string" where
  "configItemKey code key = to_lower code @ ''_'' @ to_lower key"

text \<open>
  The items of one check, in the order of the iteration over its map. A reference to no item is a nil pointer,
  on which the code panics: \<open>NilItem\<close> is that panic, which ends the registration where it happens.
\<close>

fun register_items ::
    "string \<Rightarrow> (string \<times> nat) list \<Rightarrow> (string, nat) gomap \<times> config_store \<Rightarrow> register_error option \<times> (string, nat) gomap \<times> config_store" where
  "register_items code [] s = (None, s)"
| "register_items code ((k, ref) # rest) (conf, st) =
     (case map_of st ref of
        None \<Rightarrow> (Some NilItem, conf, st)
      | Some cfg \<Rightarrow>
          if cf_Key cfg = [] then (Some KeyRequired, conf, st)
          else if cf_Description cfg = [] then (Some ItemDescriptionRequired, conf, st)
          else case validateDefault cfg of
                 Some e \<Rightarrow> (Some (InvalidDefault (cf_Key cfg) code e), conf, st)
               | None \<Rightarrow>
                   register_items code rest
                     (AList.update (configItemKey code (cf_Key cfg)) ref conf, AList.update ref (cfg\<lparr> cf_Check := code \<rparr>) st))"

definition register_one :: "'r Check \<Rightarrow> 'r CheckCollection \<times> config_store \<Rightarrow> register_error option \<times> 'r CheckCollection \<times> config_store" where
  "register_one check cs =
     (case cs of
        (c, st) \<Rightarrow>
          if ck_Code check = [] then (Some CodeRequired, c, st)
          else if ck_Suite check = [] then (Some SuiteRequired, c, st)
          else if ck_Name check = [] then (Some NameRequired, c, st)
          else if ck_Description check = [] then (Some DescriptionRequired, c, st)
          else if ck_Handler check = None then (Some HandlerRequired, c, st)
          else if map_of (cc_registered c) (ck_Code check) \<noteq> None then (Some (AlreadyRegistered (ck_Code check)), c, st)
          else case register_items (ck_Code check) (ck_Configuration check) (cc_configuration c, st) of
                 (Some e, conf, st1) \<Rightarrow> (Some e, c\<lparr> cc_configuration := conf \<rparr>, st1)
               | (None, conf, st1) \<Rightarrow>
                   (None, c\<lparr> cc_configuration := conf, cc_registered := AList.update (ck_Code check) check (cc_registered c),
                             cc_suites := add_to_slice (ck_Suite check) check (cc_suites c) \<rparr>, st1))"

fun Register :: "'r Check list \<Rightarrow> 'r CheckCollection \<times> config_store \<Rightarrow> register_error option \<times> 'r CheckCollection \<times> config_store" where
  "Register [] cs = (None, cs)"
| "Register (check # checks) cs = (case register_one check cs of (Some e, cs1) \<Rightarrow> (Some e, cs1) | (None, cs1) \<Rightarrow> Register checks cs1)"

text \<open>\<open>None\<close> is a panic.\<close>

definition MustRegister :: "'r Check list \<Rightarrow> 'r CheckCollection \<times> config_store \<Rightarrow> ('r CheckCollection \<times> config_store) option" where
  "MustRegister checks cs = (case Register checks cs of (Some _, _) \<Rightarrow> None | (None, cs1) \<Rightarrow> Some cs1)"

text \<open>The items, by check and key.\<close>

definition ConfigurationItems :: "config_store \<Rightarrow> 'r CheckCollection \<Rightarrow> nat list" where
  "ConfigurationItems st c =
     (let item = (\<lambda>ref. the (map_of st ref))
      in sort_key (\<lambda>ref. cf_Check (item ref)) (sort_key (\<lambda>ref. cf_Key (item ref)) (map snd (cc_configuration c))))"

text \<open>What \<open>SetVal\<close> and \<open>Set\<close> do through an item of the collection.\<close>

definition set_item :: "nat \<Rightarrow> string \<Rightarrow> config_store \<Rightarrow> config_error option \<times> config_store" where
  "set_item ref v st =
     (case map_of st ref of
        None \<Rightarrow> (None, st)
      | Some cfg \<Rightarrow> (case config_Set v cfg of (e, cfg1) \<Rightarrow> (e, AList.update ref cfg1 st)))"

subsection \<open>Running the checks\<close>

record 'r CheckResult =
  cr_Check :: "'r Check"
  cr_Outcome :: Outcome
  cr_OutcomeString :: string
  cr_Examples :: ExamplesCollection

record ('r, 'm) Analysis =
  an_Type :: string
  an_Timestamp :: gotime
  an_Metadata :: 'm
  an_SkippedChecks :: "string list"
  an_SkippedSuites :: "string list"
  an_Results :: "'r CheckResult list"
  an_Outcomes :: "(string, int) gomap"

definition zeroExamples :: ExamplesCollection where
  "zeroExamples = \<lparr> ex_Examples = [], ex_Error = None, ex_Limit = 0, ex_overflow = 0 \<rparr>"

text \<open>\<open>None\<close> is a panic.\<close>

definition check_config :: "config_store \<Rightarrow> 'r Check \<Rightarrow> string \<Rightarrow> CheckConfiguration option" where
  "check_config st check k = (case map_of (ck_Configuration check) k of None \<Rightarrow> None | Some ref \<Rightarrow> map_of st ref)"

fun has_panic :: "archive_error \<Rightarrow> bool" where
  "has_panic (Panicked _) = True"
| "has_panic _ = False"

definition runCheck :: "config_store \<Rightarrow> 'r Check \<Rightarrow> 'r \<Rightarrow> u64 \<Rightarrow> (Outcome \<times> ExamplesCollection) option" where
  "runCheck st check ar limit =
     (case ck_Handler check of
        None \<Rightarrow> None
      | Some handler \<Rightarrow>
          (case handler (check_config st check) ar (newExamplesCollection limit) of
             ((outcome, None), examples) \<Rightarrow> Some (outcome, examples)
           | ((outcome, Some e), examples) \<Rightarrow> if has_panic e then None else Some (Skipped, examples\<lparr> ex_Error := Some e \<rparr>)))"

text \<open>The checks in the order \<open>EachCheck\<close> visits them: by suite, then by code.\<close>

definition each_check :: "'r CheckCollection \<Rightarrow> 'r Check list" where
  "each_check c = concat (map (\<lambda>s. sort_key ck_Code (snd s)) (sort_key fst (cc_suites c)))"

definition EachCheck :: "('r Check \<Rightarrow> 's \<Rightarrow> 's option) \<Rightarrow> 'r CheckCollection \<Rightarrow> 's \<Rightarrow> 's option" where
  "EachCheck cb c s = fold (\<lambda>check so. case so of None \<Rightarrow> None | Some s1 \<Rightarrow> cb check s1) (each_check c) (Some s)"

definition should_run :: "'r CheckCollection \<Rightarrow> 'r Check \<Rightarrow> bool" where
  "should_run c check \<longleftrightarrow>
     \<not> list_ex (\<lambda>s. equal_fold (ck_Code check) s) (cc_skipCheck c) \<and> \<not> list_ex (\<lambda>s. equal_fold (ck_Suite check) s) (cc_skipSuite c)"

definition run_one :: "config_store \<Rightarrow> 'r CheckCollection \<Rightarrow> 'r \<Rightarrow> u64 \<Rightarrow> 'r Check \<Rightarrow> ('r, 'm) Analysis \<Rightarrow> ('r, 'm) Analysis option" where
  "run_one st c ar limit check result =
     (case (if should_run c check then runCheck st check ar limit else Some (Skipped, zeroExamples)) of
        None \<Rightarrow> None
      | Some (outcome, examples) \<Rightarrow>
          (case Outcome_String outcome of
             None \<Rightarrow> None
           | Some str \<Rightarrow>
               Some (result\<lparr> an_Results := an_Results result @
                       [\<lparr> cr_Check = check, cr_Outcome = outcome, cr_OutcomeString = str, cr_Examples = examples \<rparr>],
                     an_Outcomes := AList.update str ((case map_of (an_Outcomes result) str of None \<Rightarrow> 0 | Some n \<Rightarrow> n) + 1) (an_Outcomes result) \<rparr>)))"

text \<open>\<open>metadata\<close> is what \<open>Load\<close> reads of the archive, \<open>zero_meta\<close> what is there without it.\<close>

definition Run ::
    "config_store \<Rightarrow> 'm \<Rightarrow> ('r \<Rightarrow> archive_error + 'm) \<Rightarrow> gotime \<Rightarrow> 'r \<Rightarrow> u64 \<Rightarrow> 'r CheckCollection \<Rightarrow> ('r, 'm) Analysis option" where
  "Run st zero_meta metadata now ar limit c =
     EachCheck (run_one st c ar limit) c
       \<lparr> an_Type = ''io.nats.audit.v1.analysis'', an_Timestamp = now,
         an_Metadata = (case metadata ar of Inl _ \<Rightarrow> zero_meta | Inr m \<Rightarrow> m),
         an_SkippedChecks = sort (cc_skipCheck c), an_SkippedSuites = sort (cc_skipSuite c), an_Results = [],
         an_Outcomes = map (\<lambda>o1. (the (Outcome_String o1), 0)) Outcomes \<rparr>"

subsection \<open>Results by suite\<close>

definition resultsBySuite :: "('r, 'm) Analysis \<Rightarrow> (string, 'r CheckResult list) gomap" where
  "resultsBySuite a =
     map (\<lambda>(s, rs). (s, sort_key (\<lambda>r. ck_Code (cr_Check r)) rs))
       (fold (\<lambda>r. add_to_slice (ck_Suite (cr_Check r)) r) (an_Results a) [])"

definition suiteNames :: "('r, 'm) Analysis \<Rightarrow> string list" where
  "suiteNames a = sort (remdups (map (\<lambda>r. ck_Suite (cr_Check r)) (an_Results a)))"

definition limitStrings :: "nat \<Rightarrow> 'a list \<Rightarrow> 'a list" where
  "limitStrings limit a = (if limit = 0 \<or> length a < limit then a else take limit a)"

definition escapeMarkdown :: "string \<Rightarrow> string" where
  "escapeMarkdown s = concat (map (\<lambda>c. if c = CHR ''|'' then [CHR 0x5C, c] else [c]) s)"

definition analysisType :: string where
  "analysisType = ''io.nats.audit.v1.analysis''"

text \<open>\<open>LoadAnalysis\<close> on what the file decodes to; \<open>Inl None\<close> is a file that cannot be read.\<close>

definition LoadAnalysis :: "('r, 'm) Analysis option \<Rightarrow> string option + ('r, 'm) Analysis" where
  "LoadAnalysis decoded =
     (case decoded of None \<Rightarrow> Inl None | Some a \<Rightarrow> if an_Type a \<noteq> analysisType then Inl (Some (an_Type a)) else Inr a)"

end
