(* ===== verification/Audit_Check_Props.thy ===== *)
theory Audit_Check_Props
  imports Audit_Checks "HOL-Library.Multiset"
begin

text \<open>
  What the framework of the checks guarantees: every registered check has one result in a run, the counts
  of an analysis add up, and the values of configuration items keep to their units.
\<close>

subsection \<open>Examples\<close>

lemma ex_Count_Add [simp]: "ex_Count (ex_Add f a c) = ex_Count c + 1"
  by (simp add: ex_Count_def ex_Add_def)

lemma ex_Count_new [simp]: "ex_Count (newExamplesCollection limit) = 0"
  by (simp add: ex_Count_def newExamplesCollection_def)

lemma ex_Count_Clear [simp]: "ex_Count (ex_Clear c) = 0"
  by (simp add: ex_Count_def ex_Clear_def)

lemma ex_Count_pos: "0 \<le> ex_overflow c \<Longrightarrow> 0 \<le> ex_Count c"
  by (simp add: ex_Count_def)

subsection \<open>The states of a collection\<close>

text \<open>What a program can do with a collection and its items, which start without a set value.\<close>

inductive collection_state :: "'r CheckCollection \<times> config_store \<Rightarrow> bool" where
  fresh: "\<forall>ref cfg. map_of st ref = Some cfg \<longrightarrow> cf_SetValue cfg = None \<Longrightarrow> collection_state (NewCollection, st)"
| register: "collection_state cs \<Longrightarrow> Register checks cs = (e, cs1) \<Longrightarrow> collection_state cs1"
| skip_checks: "collection_state (c, st) \<Longrightarrow> collection_state (SkipChecks xs c, st)"
| skip_suites: "collection_state (c, st) \<Longrightarrow> collection_state (SkipSuites xs c, st)"
| set_value: "collection_state (c, st) \<Longrightarrow> set_item ref v st = (e, st1) \<Longrightarrow> collection_state (c, st1)"

definition suites_ok :: "'r CheckCollection \<Rightarrow> bool" where
  "suites_ok c \<longleftrightarrow>
     distinct (map fst (cc_registered c)) \<and> distinct (map fst (cc_suites c)) \<and>
     (\<forall>code check. map_of (cc_registered c) code = Some check \<longrightarrow> ck_Code check = code \<and> ck_Handler check \<noteq> None) \<and>
     mset (concat (map snd (cc_suites c))) = mset (map snd (cc_registered c))"

lemma mset_add_to_slice:
  "distinct (map fst m) \<Longrightarrow> mset (concat (map snd (add_to_slice k v m))) = add_mset v (mset (concat (map snd m)))"
proof (induction m)
  case (Cons kv m)
  obtain k1 vs where kv: "kv = (k1, vs)" by (cases kv)
  show ?case
  proof (cases "k1 = k")
    case True
    then show ?thesis by (simp add: add_to_slice_def kv)
  next
    case False
    then have "add_to_slice k v (kv # m) = kv # add_to_slice k v m" by (simp add: add_to_slice_def kv)
    then show ?thesis using Cons by simp
  qed
qed (simp add: add_to_slice_def)

lemma distinct_add_to_slice: "distinct (map fst m) \<Longrightarrow> distinct (map fst (add_to_slice k v m))"
  by (simp add: add_to_slice_def distinct_update)

lemma update_new_key: "map_of m k = None \<Longrightarrow> mset (AList.update k v m) = add_mset (k, v) (mset m)"
  by (induction m) (auto split: if_splits)

lemma suites_ok_register_one:
  assumes "suites_ok c" "register_one check (c, st) = (e, c1, st1)"
  shows "suites_ok c1"
proof (cases e)
  case (Some err)
  then have "cc_registered c1 = cc_registered c \<and> cc_suites c1 = cc_suites c"
    using assms(2) unfolding register_one_def by (auto split: if_splits prod.splits option.splits)
  then show ?thesis using assms(1) by (simp add: suites_ok_def)
next
  case None
  obtain conf where new: "map_of (cc_registered c) (ck_Code check) = None" "ck_Handler check \<noteq> None"
    "c1 = c\<lparr> cc_configuration := conf, cc_registered := AList.update (ck_Code check) check (cc_registered c),
      cc_suites := add_to_slice (ck_Suite check) check (cc_suites c) \<rparr>"
    using assms(2) None unfolding register_one_def by (auto split: if_splits prod.splits option.splits)
  then show ?thesis using assms(1)
    by (auto simp: suites_ok_def distinct_update distinct_add_to_slice mset_add_to_slice update_new_key update_conv' split: if_splits)
qed

lemma suites_ok_Register: "suites_ok (fst cs) \<Longrightarrow> Register checks cs = (e, cs1) \<Longrightarrow> suites_ok (fst cs1)"
proof (induction checks arbitrary: cs)
  case (Cons check checks)
  obtain c st where cs: "cs = (c, st)" by (cases cs)
  obtain e1 c1 st1 where one: "register_one check cs = (e1, c1, st1)" by (metis prod_cases3)
  have ok: "suites_ok c1" using suites_ok_register_one one Cons.prems(1) unfolding cs by fastforce
  show ?case using Cons.prems(2) one ok Cons.IH [of "(c1, st1)"] by (cases e1) auto
qed simp

lemma collection_suites: "collection_state cs \<Longrightarrow> suites_ok (fst cs)"
proof (induction rule: collection_state.induct)
  case (register cs checks e cs1)
  then show ?case using suites_ok_Register by blast
qed (simp_all add: suites_ok_def NewCollection_def SkipChecks_def SkipSuites_def)

lemma mset_each_check: "mset (each_check c) = mset (concat (map snd (cc_suites c)))"
proof -
  have "mset (concat (map f (sort_key fst m))) = mset (concat (map f m))" for f :: "string \<times> 'a Check list \<Rightarrow> 'a Check list" and m
    by (simp only: mset_concat sum_mset_sum_list [symmetric] mset_map mset_sort)
  then have "mset (each_check c) = mset (concat (map (\<lambda>s. sort_key ck_Code (snd s)) (cc_suites c)))" by (simp add: each_check_def)
  then show ?thesis by (simp add: mset_concat comp_def)
qed

subsection \<open>A run\<close>

definition count_outcome :: "Outcome \<Rightarrow> 'r CheckResult list \<Rightarrow> int" where
  "count_outcome out rs = int (length (filter (\<lambda>r. cr_Outcome r = out) rs))"

definition analysis_ok :: "'r CheckCollection \<Rightarrow> ('r, 'm) Analysis \<Rightarrow> bool" where
  "analysis_ok c a \<longleftrightarrow>
     (\<forall>out \<in> set Outcomes. map_of (an_Outcomes a) (the (Outcome_String out)) = Some (count_outcome out (an_Results a))) \<and>
     (\<forall>r \<in> set (an_Results a). Outcome_String (cr_Outcome r) = Some (cr_OutcomeString r) \<and>
        (\<not> should_run c (cr_Check r) \<longrightarrow> cr_Outcome r = Skipped \<and> cr_Examples r = zeroExamples))"

lemma Outcome_String_inj: "Outcome_String a = Some s \<Longrightarrow> Outcome_String b = Some s \<Longrightarrow> a = b"
  by (cases a; cases b) auto

lemma run_one_ok:
  assumes "analysis_ok c a" "run_one st c ar limit check a = Some a1"
  shows "analysis_ok c a1 \<and> map cr_Check (an_Results a1) = map cr_Check (an_Results a) @ [check]"
proof -
  obtain outcome examples str where o: "(if should_run c check then runCheck st check ar limit else Some (Skipped, zeroExamples)) = Some (outcome, examples)"
    "Outcome_String outcome = Some str"
    and a1: "a1 = a\<lparr> an_Results := an_Results a @ [\<lparr> cr_Check = check, cr_Outcome = outcome, cr_OutcomeString = str, cr_Examples = examples \<rparr>],
      an_Outcomes := AList.update str ((case map_of (an_Outcomes a) str of None \<Rightarrow> 0 | Some n \<Rightarrow> n) + 1) (an_Outcomes a) \<rparr>"
    using assms(2) unfolding run_one_def by (auto split: option.splits)
  have counts: "map_of (an_Outcomes a1) (the (Outcome_String out)) = Some (count_outcome out (an_Results a1))" if "out \<in> set Outcomes" for out
  proof -
    have old: "map_of (an_Outcomes a) (the (Outcome_String out)) = Some (count_outcome out (an_Results a))" using assms(1) that by (simp add: analysis_ok_def)
    have "Outcome_String out = Some (the (Outcome_String out))" using that by (auto simp: Outcomes_def)
    then have "the (Outcome_String out) = str \<longleftrightarrow> outcome = out" using o(2) Outcome_String_inj by (metis option.sel)
    then show ?thesis using old by (auto simp: a1 update_conv' count_outcome_def)
  qed
  have "\<not> should_run c check \<Longrightarrow> outcome = Skipped \<and> examples = zeroExamples" using o(1) by simp
  then show ?thesis using counts assms(1) o(2) by (auto simp: analysis_ok_def a1)
qed

lemma fold_runs:
  "fold (\<lambda>check so. case so of None \<Rightarrow> None | Some s1 \<Rightarrow> cb check s1) cs None = None"
  by (induction cs) simp_all

lemma run_all_ok:
  "analysis_ok c a \<Longrightarrow> fold (\<lambda>check so. case so of None \<Rightarrow> None | Some s1 \<Rightarrow> run_one st c ar limit check s1) cs (Some a) = Some a1 \<Longrightarrow>
     analysis_ok c a1 \<and> map cr_Check (an_Results a1) = map cr_Check (an_Results a) @ cs"
proof (induction cs arbitrary: a)
  case (Cons check cs)
  obtain a2 where a2: "run_one st c ar limit check a = Some a2"
    using Cons.prems(2) by (cases "run_one st c ar limit check a") (simp_all add: fold_runs)
  show ?case using Cons.IH [of a2] run_one_ok [OF Cons.prems(1) a2] Cons.prems(2) a2 by simp
qed simp

text \<open>
  C15. A run gives every registered check exactly one result, by suite and code; a skipped check is not run
  and counted as skipped; and the counts of an analysis are the numbers of results with each outcome.
\<close>

theorem run_reports_each_check_once:
  assumes "collection_state (c, st)" "Run st zero_meta metadata now ar limit c = Some a"
  shows "map cr_Check (an_Results a) = each_check c \<and> mset (map cr_Check (an_Results a)) = mset (map snd (cc_registered c)) \<and>
    (\<forall>r \<in> set (an_Results a). \<not> should_run c (cr_Check r) \<longrightarrow> cr_Outcome r = Skipped \<and> cr_Examples r = zeroExamples) \<and>
    (\<forall>out \<in> set Outcomes. map_of (an_Outcomes a) (the (Outcome_String out)) = Some (count_outcome out (an_Results a))) \<and>
    sum_list (map (\<lambda>out. count_outcome out (an_Results a)) Outcomes) = int (length (cc_registered c))"
proof -
  define a0 where "a0 = \<lparr> an_Type = ''io.nats.audit.v1.analysis'', an_Timestamp = now,
     an_Metadata = (case metadata ar of Inl _ \<Rightarrow> zero_meta | Inr m \<Rightarrow> m),
     an_SkippedChecks = sort (cc_skipCheck c), an_SkippedSuites = sort (cc_skipSuite c), an_Results = ([] :: 'a CheckResult list),
     an_Outcomes = map (\<lambda>o1. (the (Outcome_String o1), 0)) Outcomes \<rparr>"
  have a0: "analysis_ok c a0" "an_Results a0 = []" by (auto simp: a0_def analysis_ok_def Outcomes_def count_outcome_def)
  have "fold (\<lambda>check so. case so of None \<Rightarrow> None | Some s1 \<Rightarrow> run_one st c ar limit check s1) (each_check c) (Some a0) = Some a"
    using assms(2) by (simp add: Run_def EachCheck_def a0_def)
  from run_all_ok [OF a0(1) this] have ok: "analysis_ok c a" and checks: "map cr_Check (an_Results a) = each_check c" using a0(2) by simp_all
  have all: "mset (map cr_Check (an_Results a)) = mset (map snd (cc_registered c))"
    using collection_suites [OF assms(1)] by (simp only: checks mset_each_check) (simp add: suites_ok_def)
  have "sum_list (map (\<lambda>out. count_outcome out rs) Outcomes) = int (length rs)"
    if "\<forall>r \<in> set rs. Outcome_String (cr_Outcome r) \<noteq> None" for rs :: "'a CheckResult list"
    using that
  proof (induction rs)
    case (Cons r rs)
    then show ?case by (cases "cr_Outcome r") (auto simp: Outcomes_def count_outcome_def)
  qed (simp add: Outcomes_def count_outcome_def)
  then have "sum_list (map (\<lambda>out. count_outcome out (an_Results a)) Outcomes) = int (length (an_Results a))"
    using ok by (simp add: analysis_ok_def)
  moreover have "length (an_Results a) = length (cc_registered c)" using arg_cong [OF all, of size] by simp
  ultimately show ?thesis using ok all checks by (simp add: analysis_ok_def)
qed

definition witness_checks :: "nat Check list" where
  "witness_checks =
     (let check = (\<lambda>code suite h. \<lparr> ck_Code = code, ck_Suite = suite, ck_Name = ''n'', ck_Description = ''d'', ck_Configuration = [(''k'', 0)], ck_Handler = Some h \<rparr>)
      in [check ''B_2'' ''b'' (\<lambda>cfg r ex. ((if gf_less (Fin 10) (config_Value (cfg ''k'')) then Fail else Pass, None), ex_Add ''seen'' [] ex)),
          check ''A_1'' ''a'' (\<lambda>cfg r ex. ((Pass, Some NoMatches), ex)),
          check ''B_1'' ''b'' (\<lambda>cfg r ex. ((Fail, None), ex)),
          check ''B_1'' ''c'' (\<lambda>cfg r ex. ((Fail, None), ex))])"

definition witness_store :: config_store where
  "witness_store = [(0, \<lparr> cf_Key = ''k'', cf_Check = [], cf_Description = ''d'', cf_Default = Fin 5, cf_Unit = ''%'', cf_SetValue = None \<rparr>)]"

definition witness_collection :: "nat CheckCollection \<times> config_store" where
  "witness_collection =
     (case Register witness_checks (NewCollection, witness_store) of (_, c, st) \<Rightarrow> (SkipChecks [''b_1''] c, snd (set_item 0 ''50%'' st)))"

lemma witness_collection_state: "collection_state witness_collection"
proof -
  obtain e c st where r: "Register witness_checks (NewCollection, witness_store) = (e, c, st)" by (metis prod_cases3)
  have "collection_state (NewCollection :: nat CheckCollection, witness_store)" by (rule fresh) (simp add: witness_store_def)
  from register [OF this r] have "collection_state (SkipChecks [''b_1''] c, st)" by (rule skip_checks)
  moreover obtain e1 st1 where s: "set_item 0 ''50%'' st = (e1, st1)" by (cases "set_item 0 ''50%'' st")
  ultimately have "collection_state (SkipChecks [''b_1''] c, st1)" by (rule set_value)
  then show ?thesis by (simp add: witness_collection_def r s)
qed

lemma run_reports_each_check_once_witness:
  "\<exists>a. Run (snd witness_collection) () (\<lambda>_. Inr ()) 0 7 0 (fst witness_collection) = Some a \<and>
     mset (map cr_Check (an_Results a)) = mset (map snd (cc_registered (fst witness_collection)))"
proof -
  have "Run (snd witness_collection) () (\<lambda>_. Inr ()) 0 7 0 (fst witness_collection) \<noteq> None" by code_simp
  then obtain a where a: "Run (snd witness_collection) () (\<lambda>_. Inr ()) 0 7 0 (fst witness_collection) = Some a" by blast
  have "collection_state (fst witness_collection, snd witness_collection)" using witness_collection_state by simp
  from run_reports_each_check_once [OF this a] show ?thesis using a by blast
qed

subsection \<open>Values keep to their units\<close>

definition unit_allows :: "string \<Rightarrow> gofloat \<Rightarrow> bool" where
  "unit_allows u f \<longleftrightarrow>
     (u = PercentageUnit \<longrightarrow> f = NaN \<or> (\<exists>x. f = Fin x \<and> 0 \<le> x \<and> x \<le> 100)) \<and>
     (u = UIntUnit \<longrightarrow> f = PosInf \<or> (\<exists>n. f = Fin (of_int n) \<and> 0 \<le> n)) \<and>
     (u = IntUnit \<longrightarrow> f = PosInf \<or> f = NegInf \<or> (\<exists>n. f = Fin (of_int n)))"

lemma gf_whole_Fin: "gf_whole (Fin x) \<longleftrightarrow> (\<exists>n. x = of_int n)"
  by (auto, metis)

lemma validate_unit: "validateUnitValue u f = None \<longleftrightarrow> unit_allows u f"
proof -
  have neq: "PercentageUnit \<noteq> UIntUnit" "PercentageUnit \<noteq> IntUnit" "UIntUnit \<noteq> IntUnit" by (simp_all add: unit_defs)
  show ?thesis
  proof (cases f)
    case (Fin x)
    then show ?thesis using gf_whole_Fin [of x] neq by (auto simp: validateUnitValue_def unit_allows_def not_less)
  qed (use neq in \<open>auto simp: validateUnitValue_def unit_allows_def\<close>)
qed

definition items_ok :: "'r CheckCollection \<times> config_store \<Rightarrow> bool" where
  "items_ok cs \<longleftrightarrow>
     (\<forall>ref \<in> snd ` set (cc_configuration (fst cs)). \<exists>cfg. map_of (snd cs) ref = Some cfg \<and> unit_allows (cf_Unit cfg) (cf_Default cfg)) \<and>
     (\<forall>ref cfg v. map_of (snd cs) ref = Some cfg \<longrightarrow> cf_SetValue cfg = Some v \<longrightarrow> unit_allows (cf_Unit cfg) v)"

text \<open>The store after a change of an item that keeps its default and unit.\<close>

lemma items_ok_update:
  assumes "items_ok (c, st)" "map_of st ref = Some cfg" "cf_Default cfg1 = cf_Default cfg" "cf_Unit cfg1 = cf_Unit cfg"
    "\<forall>v. cf_SetValue cfg1 = Some v \<longrightarrow> unit_allows (cf_Unit cfg) v"
  shows "items_ok (c, AList.update ref cfg1 st)"
  using assms unfolding items_ok_def by (auto simp: update_conv')

lemma update_values: "snd ` set (AList.update k v m) \<subseteq> insert v (snd ` set m)"
  by (induction m) auto

lemma items_ok_register_items:
  "items_ok (c\<lparr> cc_configuration := conf \<rparr>, st) \<Longrightarrow> register_items code xs (conf, st) = (e, conf1, st1) \<Longrightarrow>
     items_ok (c\<lparr> cc_configuration := conf1 \<rparr>, st1)"
proof (induction code xs "(conf, st)" arbitrary: conf st rule: register_items.induct)
  case (2 code k ref rest conf st)
  show ?case
  proof (cases "map_of st ref")
    case None
    then show ?thesis using 2 by simp
  next
    case (Some cfg)
    let ?conf = "AList.update (configItemKey code (cf_Key cfg)) ref conf" and ?st = "AList.update ref (cfg\<lparr> cf_Check := code \<rparr>) st"
    show ?thesis
    proof (cases "cf_Key cfg = [] \<or> cf_Description cfg = [] \<or> validateDefault cfg \<noteq> None")
      case True
      then show ?thesis using 2 Some by (auto split: if_splits option.splits)
    next
      case False
      have "items_ok (c\<lparr> cc_configuration := conf \<rparr>, ?st)"
        using 2(2) Some by (intro items_ok_update [OF 2(2) Some]) (auto simp: items_ok_def)
      moreover have "unit_allows (cf_Unit cfg) (cf_Default cfg)" using False by (simp add: validateDefault_def validate_unit)
      ultimately have "items_ok (c\<lparr> cc_configuration := ?conf \<rparr>, ?st)"
        using update_values [of "configItemKey code (cf_Key cfg)" ref conf] by (fastforce simp: items_ok_def update_conv')
      then show ?thesis using 2(1) [OF Some] 2(3) False Some by auto
    qed
  qed
qed simp

lemma items_ok_same: "cc_configuration c1 = cc_configuration c \<Longrightarrow> items_ok (c1, st) \<longleftrightarrow> items_ok (c, st)"
  by (simp add: items_ok_def)

lemma items_ok_register_one:
  assumes "items_ok (c, st)" "register_one check (c, st) = (e, c1, st1)"
  shows "items_ok (c1, st1)"
proof -
  have "(c1, st1) = (c, st) \<or> (\<exists>e1 conf. register_items (ck_Code check) (ck_Configuration check) (cc_configuration c, st) = (e1, conf, st1) \<and>
      cc_configuration c1 = conf)"
    using assms(2) unfolding register_one_def by (auto split: if_splits prod.splits option.splits)
  then show ?thesis
  proof (elim disjE exE conjE)
    fix e1 conf assume items: "register_items (ck_Code check) (ck_Configuration check) (cc_configuration c, st) = (e1, conf, st1)"
      and c1: "cc_configuration c1 = conf"
    have "items_ok (c\<lparr> cc_configuration := cc_configuration c \<rparr>, st)" using assms(1) by simp
    from items_ok_register_items [OF this items] show ?thesis using c1 by (simp add: items_ok_def)
  qed (use assms(1) in simp)
qed

lemma items_ok_Register: "items_ok cs \<Longrightarrow> Register checks cs = (e, cs1) \<Longrightarrow> items_ok cs1"
proof (induction checks arbitrary: cs)
  case (Cons check checks)
  obtain c st where cs: "cs = (c, st)" by (cases cs)
  obtain e1 c1 st1 where one: "register_one check cs = (e1, c1, st1)" by (metis prod_cases3)
  have ok: "items_ok (c1, st1)" using items_ok_register_one one Cons.prems(1) unfolding cs by fastforce
  show ?case using Cons.prems(2) one ok Cons.IH [of "(c1, st1)"] by (cases e1) auto
qed simp

lemma config_Set_ok:
  assumes "config_Set v c = (e, c1)"
  shows "cf_Unit c1 = cf_Unit c \<and> cf_Default c1 = cf_Default c \<and>
    (c1 = c \<or> (\<exists>f. cf_SetValue c1 = Some f \<and> unit_allows (cf_Unit c) f))"
  using assms unfolding config_Set_def by (auto simp: validate_unit split: if_splits sum.splits option.splits)

lemma items_ok_set_item:
  assumes "items_ok (c, st)" "set_item ref v st = (e, st1)"
  shows "items_ok (c, st1)"
proof (cases "map_of st ref")
  case None
  then show ?thesis using assms by (simp add: set_item_def)
next
  case (Some cfg)
  obtain cfg1 where cfg1: "config_Set v cfg = (e, cfg1)" "st1 = AList.update ref cfg1 st"
    using assms(2) Some by (auto simp: set_item_def split: prod.splits)
  have "\<forall>v. cf_SetValue cfg = Some v \<longrightarrow> unit_allows (cf_Unit cfg) v" using assms(1) Some by (auto simp: items_ok_def)
  then show ?thesis unfolding cfg1(2) using config_Set_ok [OF cfg1(1)] by (intro items_ok_update [OF assms(1) Some]) auto
qed

lemma collection_items: "collection_state cs \<Longrightarrow> items_ok cs"
proof (induction rule: collection_state.induct)
  case (fresh st)
  then show ?case by (auto simp: items_ok_def NewCollection_def)
next
  case (register cs checks e cs1)
  then show ?case using items_ok_Register by blast
next
  case (set_value c st ref v e st1)
  then show ?case using items_ok_set_item by blast
qed (simp_all add: items_ok_def SkipChecks_def SkipSuites_def)

text \<open>
  C16. Whatever is registered and set, the value of every configuration item of a collection is one its unit
  allows: a percentage from 0 to 100 or NaN, an unsigned integer a whole number not below zero or positive
  infinity, an integer a whole number or an infinity.
\<close>

theorem configuration_values_typed:
  assumes "collection_state (c, st)" "ref \<in> snd ` set (cc_configuration c)"
  shows "\<exists>cfg. map_of st ref = Some cfg \<and> unit_allows (cf_Unit cfg) (config_Value (Some cfg))"
  using collection_items [OF assms(1)] assms(2) by (fastforce simp: items_ok_def config_Value_def split: option.split)

lemma configuration_values_typed_witness:
  "\<exists>cfg. map_of (snd witness_collection) 0 = Some cfg \<and> unit_allows (cf_Unit cfg) (config_Value (Some cfg))"
proof -
  have "0 \<in> snd ` set (cc_configuration (fst witness_collection))" by code_simp
  moreover have "collection_state (fst witness_collection, snd witness_collection)" using witness_collection_state by simp
  ultimately show ?thesis by (rule configuration_values_typed [rotated])
qed

text \<open>A percentage can be set to NaN, against which no comparison holds.\<close>

lemma percentage_not_a_number:
  assumes "cf_Unit c = PercentageUnit"
  shows "config_Set ''NaN'' c = (None, c\<lparr> cf_SetValue := Some NaN \<rparr>)" and "\<not> gf_less f NaN"
proof -
  have "strconv_ParseFloat (trim_suffix ''NaN'' ''%'') = Inr NaN" by code_simp
  moreover have "validateUnitValue PercentageUnit NaN = None" by (simp add: validate_unit unit_allows_def unit_defs)
  ultimately show "config_Set ''NaN'' c = (None, c\<lparr> cf_SetValue := Some NaN \<rparr>)" by (simp add: config_Set_def assms)
  show "\<not> gf_less f NaN" by (cases f) simp_all
qed

text \<open>Items of different checks can share a key of the collection, where the later one is kept.\<close>

lemma item_keys_collide: "configItemKey ''A_B'' ''c'' = configItemKey ''a'' ''b_C''"
  by code_simp

end
