(* ===== verification/Audit_Server_Checks.thy ===== *)
theory Audit_Server_Checks
  imports Audit_Checks
begin

text \<open>
  The checks of servers, clusters, the meta group and leaf nodes (\<open>src/audit/server_checks.go\<close>,
  \<open>cluster_checks.go\<close>, \<open>metacluster_checks.go\<close>, \<open>leafnode_checks.go\<close>). The answers of a server are records
  of the fields the checks read; their decoders are parameters. \<open>cv\<close> is the conversion of a float64 that is
  out of range. Messages keep their format and arguments; logging is left out.
\<close>

subsection \<open>What servers answer\<close>

record HealthStatus =
  hs_Status :: string
  hs_StatusCode :: int

record ServerVarz =
  sv_Version :: string
  sv_Cores :: int
  sv_CPU :: rat
  sv_Mem :: int
  sv_SlowConsumers :: int
  sv_AuthRequired :: bool
  sv_Now :: gotime
  sv_TLSCertNotAfter :: gotime
  sv_ClusterTLS :: gotime
  sv_GatewayTLS :: gotime
  sv_LeafNodeTLS :: gotime
  sv_MQTTTLS :: gotime
  sv_WebsocketTLS :: gotime

record MetaClusterInfo =
  mc_Leader :: string
  mc_Replicas :: "(string \<times> bool) list"

record JSInfo =
  js_Disabled :: bool
  js_MaxMemory :: int
  js_MaxStore :: int
  js_Domain :: string
  js_Memory :: u64
  js_Store :: u64
  js_HAAssets :: int
  js_Meta :: "MetaClusterInfo option"

record Gatewayz =
  gw_Outbound :: "(string, bool) gomap"
  gw_Inbound :: "(string, bool list) gomap"

text \<open>A response holds its data or nothing.\<close>

type_synonym 'd response = "'d option"

subsection \<open>Loops that stop at an error\<close>

fun each_until :: "('a \<Rightarrow> 's \<Rightarrow> archive_error option \<times> 's) \<Rightarrow> 'a list \<Rightarrow> 's \<Rightarrow> archive_error option \<times> 's" where
  "each_until f [] s = (None, s)"
| "each_until f (x # xs) s = (case f x s of (Some e, s1) \<Rightarrow> (Some e, s1) | (None, s1) \<Rightarrow> each_until f xs s1)"

text \<open>\<open>fmt.Errorf\<close> around an error; a panic stays one.\<close>

definition wrap_error :: "string \<Rightarrow> string list \<Rightarrow> archive_error \<Rightarrow> archive_error" where
  "wrap_error format a e = (if has_panic e then e else Described format a e)"

definition handleArchiveError :: "archive_error option \<Rightarrow> string \<Rightarrow> Tag \<Rightarrow> archive_error option" where
  "handleArchiveError err artifactName serverTag =
     (case err of
        None \<Rightarrow> None
      | Some e \<Rightarrow> if is_no_matches e then None else Some (wrap_error ''failed to load %s for server %s: %w'' [artifactName, t_Value serverTag] e))"

text \<open>The callback the server checks share: errors first, then responses without data, which are passed over.\<close>

definition server_data :: "string \<Rightarrow> (Tag \<Rightarrow> Tag \<Rightarrow> 'd \<Rightarrow> 's \<Rightarrow> 's) \<Rightarrow> ('d response, 's) server_callback" where
  "server_data artifactName f clusterTag serverTag err resp s =
     (case handleArchiveError err artifactName serverTag of
        Some e \<Rightarrow> (Some e, s)
      | None \<Rightarrow> (None, case resp of Some (Some d) \<Rightarrow> f clusterTag serverTag d s | _ \<Rightarrow> s))"

type_synonym verdict = "(Outcome \<times> archive_error option) \<times> ExamplesCollection"

definition by_count :: "Outcome \<Rightarrow> ExamplesCollection \<Rightarrow> verdict" where
  "by_count bad examples = ((if ex_Count examples > 0 then bad else Pass, None), examples)"

definition after_servers :: "(ExamplesCollection \<Rightarrow> verdict) \<Rightarrow> archive_error option \<times> int \<times> ExamplesCollection \<Rightarrow> verdict" where
  "after_servers k res = (case res of (Some e, _, examples) \<Rightarrow> ((Skipped, Some e), examples) | (None, _, examples) \<Rightarrow> k examples)"

definition tag_args :: "Tag list \<Rightarrow> arg list" where
  "tag_args ts = map (\<lambda>t. AStr (t_Value t)) ts"

subsection \<open>Servers\<close>

definition checkServerHealth :: "('c \<Rightarrow> HealthStatus response option) \<Rightarrow> 'c Reader CheckFunc" where
  "checkServerHealth dec cfg r examples =
     after_servers (by_count PassWithIssues)
       (EachClusterServerHealthz dec r
          (server_data ''Healthz'' (\<lambda>_ serverTag hz ex.
             if hs_Status hz \<noteq> ''ok'' \<and> hs_Status hz \<noteq> [] then
               ex_Add ''%s: %d - %s'' (tag_args [serverTag] @ [AInt (hs_StatusCode hz), AStr (hs_Status hz)]) ex
             else ex))
          examples)"

definition checkServerVersion :: "('c \<Rightarrow> ServerVarz response option) \<Rightarrow> 'c Reader CheckFunc" where
  "checkServerVersion dec cfg r examples =
     (case EachClusterServerVarz dec r
             (server_data ''VARZ'' (\<lambda>_ serverTag vz (seen, ex).
                if sv_Version vz \<in> set seen then (seen, ex)
                else (seen @ [sv_Version vz], ex_Add ''%s - %s'' (tag_args [serverTag] @ [AStr (sv_Version vz)]) ex)))
             ([], examples) of
        (Some e, _, _, ex) \<Rightarrow> ((Skipped, Some e), ex)
      | (None, _, seen, ex) \<Rightarrow>
          if seen = [] then ((Skipped, None), ex)
          else if length seen > 1 then ((Fail, None), ex)
          else ((Pass, None), ex_Clear ex))"

definition checkServerCPUUsage :: "('c \<Rightarrow> ServerVarz response option) \<Rightarrow> 'c Reader CheckFunc" where
  "checkServerCPUUsage dec cfg r examples =
     (let cpuThreshold = config_Value (cfg ''cpu'')
      in after_servers (by_count Fail)
           (EachClusterServerVarz dec r
              (server_data ''VARZ'' (\<lambda>clusterTag serverTag vz ex.
                 if sv_Cores vz = 0 then ex
                 else (let average = float64 (sv_CPU vz / to_float (sv_Cores vz))
                       in if gf_less cpuThreshold (Fin average) then
                            ex_Add ''%s - %s: %.1f%%'' (tag_args [clusterTag, serverTag] @ [AFloat average]) ex
                          else ex)))
              examples))"

definition checkSlowConsumers :: "('c \<Rightarrow> ServerVarz response option) \<Rightarrow> 'c Reader CheckFunc" where
  "checkSlowConsumers dec cfg r examples =
     after_servers (by_count PassWithIssues)
       (EachClusterServerVarz dec r
          (server_data ''VARZ'' (\<lambda>clusterTag serverTag vz ex.
             if sv_SlowConsumers vz > 0 then
               ex_Add ''%s/%s: %d slow consumers'' (tag_args [clusterTag, serverTag] @ [AInt (sv_SlowConsumers vz)]) ex
             else ex))
          examples)"

definition resource_over :: "(gofloat \<Rightarrow> int) \<Rightarrow> gofloat \<Rightarrow> int \<Rightarrow> u64 \<Rightarrow> bool" where
  "resource_over cv percent limit used \<longleftrightarrow> limit > 0 \<and> uint used > to_uint64 cv (gf_times (to_float limit) (gf_over percent 100))"

definition checkServerResourceLimits :: "(gofloat \<Rightarrow> int) \<Rightarrow> ('c \<Rightarrow> JSInfo response option) \<Rightarrow> 'c Reader CheckFunc" where
  "checkServerResourceLimits cv dec cfg r examples =
     (let memoryUsageThreshold = config_Value (cfg ''memory''); storeUsageThreshold = config_Value (cfg ''store'')
      in after_servers (by_count PassWithIssues)
           (EachClusterServerJsz dec r
              (server_data ''JSZ'' (\<lambda>_ serverTag jsz ex.
                 (let ex1 = (if resource_over cv memoryUsageThreshold (js_MaxMemory jsz) (js_Memory jsz) then
                               ex_Add ''%s memory usage: %s of %s'' (tag_args [serverTag] @ [AInt (uint (js_Memory jsz)), AInt (js_MaxMemory jsz)]) ex
                             else ex)
                  in if resource_over cv storeUsageThreshold (js_MaxStore jsz) (js_Store jsz) then
                       ex_Add ''%s store usage: %s of %s'' (tag_args [serverTag] @ [AInt (uint (js_Store jsz)), AInt (js_MaxStore jsz)]) ex1
                     else ex1)))
              examples))"

definition whitespace :: string where
  "whitespace = [CHR '' '', CHR 0x09, CHR 0x0D, CHR 0x0A]"

definition checkJetStreamDomainsForWhitespace :: "('c \<Rightarrow> JSInfo response option) \<Rightarrow> 'c Reader CheckFunc" where
  "checkJetStreamDomainsForWhitespace dec cfg r examples =
     after_servers (by_count PassWithIssues)
       (EachClusterServerJsz dec r
          (server_data ''JSZ'' (\<lambda>clusterTag serverTag jsz ex.
             if contains_any (js_Domain jsz) whitespace then
               ex_Add ''Cluster %s Server %s Domain %s'' (tag_args [clusterTag, serverTag] @ [AStr (js_Domain jsz)]) ex
             else ex))
          examples)"

definition checkServerAuthRequired :: "('c \<Rightarrow> ServerVarz response option) \<Rightarrow> 'c Reader CheckFunc" where
  "checkServerAuthRequired dec cfg r examples =
     after_servers (by_count PassWithIssues)
       (EachClusterServerVarz dec r
          (server_data ''VARZ'' (\<lambda>_ serverTag vz ex.
             if \<not> sv_AuthRequired vz then ex_Add ''%s: authentication not required'' (tag_args [serverTag]) ex else ex))
          examples)"

text \<open>The state of the certificate check: warnings, criticals, certificates checked, examples.\<close>

record tls_state =
  tl_warning :: int
  tl_critical :: int
  tl_checked :: int
  tl_examples :: ExamplesCollection

definition checkExpiry :: "duration \<Rightarrow> duration \<Rightarrow> Tag \<Rightarrow> Tag \<Rightarrow> gotime \<Rightarrow> string \<times> gotime \<Rightarrow> tls_state \<Rightarrow> tls_state" where
  "checkExpiry critThreshold warnThreshold clusterTag serverTag serverNow ce s =
     (case ce of
        (component, expiry) \<Rightarrow>
          if IsZeroTime expiry then s
          else (let s1 = s\<lparr> tl_checked := tl_checked s + 1 \<rparr>;
                    untilExpiry = time_Sub expiry serverNow;
                    a = tag_args [clusterTag, serverTag] @ [AStr component];
                    soon = ''%s/%s %s TLS certificate expires in %v (expires_at=%v)''
                in if untilExpiry \<le> 0 then
                     s1\<lparr> tl_critical := tl_critical s + 1,
                        tl_examples := ex_Add ''%s/%s %s TLS certificate expired (expired_at=%v)'' (a @ [ATime expiry]) (tl_examples s) \<rparr>
                   else if critThreshold > 0 \<and> untilExpiry \<le> critThreshold then
                     s1\<lparr> tl_critical := tl_critical s + 1, tl_examples := ex_Add soon (a @ [ADur untilExpiry, ATime expiry]) (tl_examples s) \<rparr>
                   else if warnThreshold > 0 \<and> untilExpiry \<le> warnThreshold then
                     s1\<lparr> tl_warning := tl_warning s + 1, tl_examples := ex_Add soon (a @ [ADur untilExpiry, ATime expiry]) (tl_examples s) \<rparr>
                   else s1))"

definition tls_components :: "ServerVarz \<Rightarrow> (string \<times> gotime) list" where
  "tls_components vz = [(''server'', sv_TLSCertNotAfter vz), (''cluster'', sv_ClusterTLS vz), (''gateway'', sv_GatewayTLS vz),
     (''leafnode'', sv_LeafNodeTLS vz), (''mqtt'', sv_MQTTTLS vz), (''websocket'', sv_WebsocketTLS vz)]"

definition days_threshold :: "(gofloat \<Rightarrow> int) \<Rightarrow> gofloat \<Rightarrow> duration" where
  "days_threshold cv days = to_int64 cv (gf_times (of_int (24 * Hour)) days)"

definition checkTLSCertificateExpiry :: "(gofloat \<Rightarrow> int) \<Rightarrow> ('c \<Rightarrow> ServerVarz response option) \<Rightarrow> 'c Reader CheckFunc" where
  "checkTLSCertificateExpiry cv dec cfg r examples =
     (let warnThreshold = days_threshold cv (config_Value (cfg ''tls_expire_warning''));
          critThreshold = days_threshold cv (config_Value (cfg ''tls_expire_critical''))
      in case EachClusterServerVarz dec r
                (server_data ''VARZ'' (\<lambda>clusterTag serverTag vz s.
                   fold (checkExpiry critThreshold warnThreshold clusterTag serverTag (sv_Now vz)) (tls_components vz) s))
                \<lparr> tl_warning = 0, tl_critical = 0, tl_checked = 0, tl_examples = examples \<rparr> of
           (Some e, _, s) \<Rightarrow> ((Skipped, Some e), tl_examples s)
         | (None, _, s) \<Rightarrow>
             ((if tl_checked s = 0 then Skipped else if tl_critical s > 0 then Fail else if tl_warning s > 0 then PassWithIssues else Pass, None),
              tl_examples s))"

subsection \<open>Clusters\<close>

text \<open>All servers of a cluster; any error, also a missing artifact, ends the check.\<close>

definition each_cluster_server ::
    "('c \<Rightarrow> 'a option) \<Rightarrow> 'c Reader \<Rightarrow> Tag \<Rightarrow> string \<Rightarrow> (string \<Rightarrow> ('a, 's) callback) \<Rightarrow> string \<Rightarrow> 's \<Rightarrow> archive_error option \<times> 's" where
  "each_cluster_server dec r typeTag format cb cluster s =
     each_until (\<lambda>srv s. case ForEachTaggedArtifact dec r [TagCluster cluster, TagServer srv, typeTag] (cb srv) s of
                           (Some e, s1) \<Rightarrow> (Some (wrap_error format [srv, cluster] e), s1)
                         | (None, s1) \<Rightarrow> (None, s1))
       (ClusterServerNames r cluster) s"

definition with_data :: "('d \<Rightarrow> 's \<Rightarrow> 's) \<Rightarrow> ('d response, 's) callback" where
  "with_data f resp s = (None, case resp of None \<Rightarrow> s | Some d \<Rightarrow> f d s)"

definition finish :: "Outcome \<Rightarrow> archive_error option \<times> ExamplesCollection \<Rightarrow> verdict" where
  "finish bad res = (case res of (Some e, ex) \<Rightarrow> ((Skipped, Some e), ex) | (None, ex) \<Rightarrow> by_count bad ex)"

record memory_state =
  mm_total :: rat
  mm_map :: "(string, rat) gomap"
  mm_servers :: int

definition note_memory :: "string \<Rightarrow> ServerVarz \<Rightarrow> memory_state \<Rightarrow> memory_state" where
  "note_memory srv vz s =
     (let mem = to_float (sv_Mem vz)
      in s\<lparr> mm_map := AList.update srv mem (mm_map s), mm_total := float64 (mm_total s + mem), mm_servers := mm_servers s + 1 \<rparr>)"

definition cluster_outliers :: "gofloat \<Rightarrow> string \<Rightarrow> memory_state \<Rightarrow> bool \<times> ExamplesCollection \<Rightarrow> bool \<times> ExamplesCollection" where
  "cluster_outliers outlierThreshold cluster m st =
     (if mm_servers m = 0 then st
      else (let mean = float64 (mm_total m / to_float (mm_servers m)); threshold = gf_times mean outlierThreshold
            in fold (\<lambda>(srv, mem) (issues, ex).
                  if gf_less threshold (Fin mem) then
                    (True, ex_Add ''Cluster %s avg: %s, server %s: %s'' [AStr cluster, AFloat mean, AStr srv, AFloat mem] ex)
                  else (issues, ex))
                (mm_map m) st))"

definition checkClusterMemoryUsageOutliers :: "('c \<Rightarrow> ServerVarz response option) \<Rightarrow> 'c Reader CheckFunc" where
  "checkClusterMemoryUsageOutliers dec cfg r examples =
     (let outlierThreshold = config_Value (cfg ''memory'')
      in case each_until (\<lambda>cluster st.
                case each_cluster_server dec r TagServerVars ''failed to read VARZ for server %s in cluster %s: %w''
                       (\<lambda>srv. with_data (note_memory srv)) cluster \<lparr> mm_total = 0, mm_map = [], mm_servers = 0 \<rparr> of
                  (Some e, _) \<Rightarrow> (Some e, st)
                | (None, m) \<Rightarrow> (None, cluster_outliers outlierThreshold cluster m st))
              (ClusterNames r) (False, examples) of
           (Some e, _, ex) \<Rightarrow> ((Skipped, Some e), ex)
         | (None, issues, ex) \<Rightarrow> ((if issues then PassWithIssues else Pass, None), ex))"

text \<open>The configured gateways of a server, sorted; gateways that are JSON null are not modelled.\<close>

definition outbound_names :: "Gatewayz \<Rightarrow> string list" where
  "outbound_names g = sort (map fst (filter snd (gw_Outbound g)))"

definition inbound_names :: "Gatewayz \<Rightarrow> string list" where
  "inbound_names g = sort (map fst (filter (\<lambda>(_, gs). list_ex id gs) (gw_Inbound g)))"

definition note_gateways :: "string \<Rightarrow> Gatewayz \<Rightarrow> (string, string list) gomap \<times> (string, string list) gomap \<Rightarrow>
    (string, string list) gomap \<times> (string, string list) gomap" where
  "note_gateways srv g s = (AList.update srv (inbound_names g) (fst s), AList.update srv (outbound_names g) (snd s))"

text \<open>Each server against the one before it, in the order of the iteration over the map.\<close>

fun compare_gateways ::
    "string \<Rightarrow> string \<Rightarrow> (string \<times> string list) option \<Rightarrow> (string, string list) gomap \<Rightarrow> ExamplesCollection \<Rightarrow> ExamplesCollection" where
  "compare_gateways cluster typ prev [] ex = ex"
| "compare_gateways cluster typ prev ((srv, names) # rest) ex =
     compare_gateways cluster typ (Some (srv, names)) rest
       (case prev of
          None \<Rightarrow> ex
        | Some (psrv, pnames) \<Rightarrow>
            if names \<noteq> pnames then
              ex_Add ''Cluster %s, %s gateways server %s: %v != server %s: %v''
                ([AStr cluster, AStr typ, AStr srv] @ map AStr names @ [AStr psrv] @ map AStr pnames) ex
            else ex)"

definition checkClusterUniformGatewayConfig :: "('c \<Rightarrow> Gatewayz response option) \<Rightarrow> 'c Reader CheckFunc" where
  "checkClusterUniformGatewayConfig dec cfg r examples =
     finish Fail
       (each_until (\<lambda>cluster ex.
          case each_cluster_server dec r TagServerGateways ''failed to read GATEWAYZ for server %s in cluster %s: %w''
                 (\<lambda>srv. with_data (note_gateways srv)) cluster ([], []) of
            (Some e, _) \<Rightarrow> (Some e, ex)
          | (None, inbound, outbound) \<Rightarrow>
              (None, compare_gateways cluster ''outbound'' None outbound (compare_gateways cluster ''inbound'' None inbound ex)))
        (ClusterNames r) examples)"

definition checkClusterHighHAAssets :: "('c \<Rightarrow> JSInfo response option) \<Rightarrow> 'c Reader CheckFunc" where
  "checkClusterHighHAAssets dec cfg r examples =
     (let haAssetsThreshold = config_Value (cfg ''assets'')
      in finish PassWithIssues
           (each_until (each_cluster_server dec r TagServerJetStream ''failed to load JSZ for server %s: %w''
              (\<lambda>srv. with_data (\<lambda>jsz ex.
                 if gf_less haAssetsThreshold (Fin (to_float (js_HAAssets jsz))) then
                   ex_Add ''%s: %d HA assets'' [AStr srv, AInt (js_HAAssets jsz)] ex
                 else ex)))
            (ClusterNames r) examples))"

definition checkClusterNamesForWhitespace :: "'c Reader CheckFunc" where
  "checkClusterNamesForWhitespace cfg r examples =
     by_count Fail
       (fold (\<lambda>cluster ex. if contains_any cluster [CHR '' '', CHR 0x0A] then ex_Add ''Cluster: %s'' [AStr cluster] ex else ex)
          (ClusterNames r) examples)"

subsection \<open>The meta group\<close>

definition noLeader :: string where
  "noLeader = ''NO_LEADER''"

text \<open>The data of the response is read without a check for nil.\<close>

definition note_leader :: "string \<Rightarrow> (JSInfo response, (string, string list) gomap) callback" where
  "note_leader srv resp m =
     (case resp of
        None \<Rightarrow> (Some (Panicked ''nil pointer''), m)
      | Some js \<Rightarrow>
          if js_Disabled js then (None, m)
          else case js_Meta js of
                 None \<Rightarrow> (None, m)
               | Some meta \<Rightarrow> (None, add_to_slice (if mc_Leader meta = [] then noLeader else mc_Leader meta) srv m))"

definition checkMetaClusterLeader :: "('c \<Rightarrow> JSInfo response option) \<Rightarrow> 'c Reader CheckFunc" where
  "checkMetaClusterLeader dec cfg r examples =
     finish Fail
       (each_until (\<lambda>cluster ex.
          case each_cluster_server dec r TagServerJetStream ''error reading JSZ for %s/%s: %w'' note_leader cluster [] of
            (Some e, _) \<Rightarrow> (Some e, ex)
          | (None, m) \<Rightarrow>
              (None, if map_of m noLeader \<noteq> None then ex_Add ''Members of %s have no meta leader'' [AStr cluster] ex
                     else if length m > 1 then
                       ex_Add ''Members of %s disagree on meta leader (%v)'' (AStr cluster # map (\<lambda>(l, _). AStr l) m) ex
                     else ex))
        (ClusterNames r) examples)"

definition note_offline :: "string \<Rightarrow> string \<Rightarrow> (JSInfo response, ExamplesCollection) callback" where
  "note_offline cluster srv resp ex =
     (case resp of
        None \<Rightarrow> (Some (Panicked ''nil pointer''), ex)
      | Some js \<Rightarrow>
          if js_Disabled js then (None, ex)
          else case js_Meta js of
                 None \<Rightarrow> (None, ex)
               | Some meta \<Rightarrow>
                   (None, fold (\<lambda>(peer, off) ex. if off then ex_Add ''%s - %s reports peer %s as offline'' [AStr cluster, AStr srv, AStr peer] ex else ex)
                            (mc_Replicas meta) ex))"

definition checkMetaClusterOfflineReplicas :: "('c \<Rightarrow> JSInfo response option) \<Rightarrow> 'c Reader CheckFunc" where
  "checkMetaClusterOfflineReplicas dec cfg r examples =
     finish Fail
       (each_until (\<lambda>cluster. each_cluster_server dec r TagServerJetStream ''error reading JSZ for %s/%s: %w'' (note_offline cluster) cluster)
          (ClusterNames r) examples)"

subsection \<open>Leaf nodes\<close>

text \<open>A response holds the names of the leaf nodes; a set of names is a list without duplicates.\<close>

definition checkLeafnodeServerNamesForWhitespace :: "('c \<Rightarrow> string list response option) \<Rightarrow> 'c Reader CheckFunc" where
  "checkLeafnodeServerNamesForWhitespace dec cfg r examples =
     finish Fail
       (each_until (\<lambda>cluster ex.
          case each_cluster_server dec r TagServerLeafs ''failed to read leafz for server %s: %w''
                 (\<lambda>srv. with_data (\<lambda>leafs names. fold (\<lambda>l ns. if contains_any l whitespace then List.insert l ns else ns) leafs names)) cluster [] of
            (Some e, _) \<Rightarrow> (Some e, ex)
          | (None, names) \<Rightarrow> (None, if names \<noteq> [] then ex_Add ''Cluster %s: %v'' (AStr cluster # map AStr names) ex else ex))
        (ClusterNames r) examples)"

end
