(* ===== verification/Monitor_Stream.thy ===== *)
theory Monitor_Stream
  imports Monitor_Result
begin

text \<open>
  The health check of a stream (\<open>src/monitor/stream.go\<close>): its options, their reading from the metadata
  of the stream, and the five checks of the stream information. Thresholds in seconds are float64.
\<close>

record CheckStreamHealthOptions =
  so_StreamName :: string
  so_SourcesLagCritical :: u64
  so_SourcesSeenCritical :: rat
  so_MinSources :: int
  so_MaxSources :: int
  so_ClusterExpectedPeers :: int
  so_ClusterLagCritical :: u64
  so_ClusterSeenCritical :: rat
  so_MessagesWarn :: u64
  so_MessagesCrit :: u64
  so_SubjectsWarn :: int
  so_SubjectsCrit :: int
  so_Enabled :: bool

definition zeroStreamOptions :: "string \<Rightarrow> CheckStreamHealthOptions" where
  "zeroStreamOptions name = \<lparr> so_StreamName = name, so_SourcesLagCritical = 0, so_SourcesSeenCritical = 0, so_MinSources = 0,
     so_MaxSources = 0, so_ClusterExpectedPeers = 0, so_ClusterLagCritical = 0, so_ClusterSeenCritical = 0, so_MessagesWarn = 0,
     so_MessagesCrit = 0, so_SubjectsWarn = 0, so_SubjectsCrit = 0, so_Enabled = False \<rparr>"

subsection \<open>Options from metadata\<close>

text \<open>\<open>strconv.ParseBool\<close>, and the parsers of the values: each stores what it read.\<close>

definition ParseBool :: "string \<Rightarrow> meta_error + bool" where
  "ParseBool v =
     (if v \<in> {''1'', ''t'', ''T'', ''TRUE'', ''true'', ''True''} then Inr True
      else if v \<in> {''0'', ''f'', ''F'', ''FALSE'', ''false'', ''False''} then Inr False else Inl (BadBool v))"

definition read_bool :: "(bool \<Rightarrow> 'o \<Rightarrow> 'o) \<Rightarrow> string \<Rightarrow> 'o \<Rightarrow> meta_error + 'o" where
  "read_bool set_it v opts = (case ParseBool v of Inl e \<Rightarrow> Inl e | Inr b \<Rightarrow> Inr (set_it b opts))"

definition read_uint :: "(u64 \<Rightarrow> 'o \<Rightarrow> 'o) \<Rightarrow> string \<Rightarrow> 'o \<Rightarrow> meta_error + 'o" where
  "read_uint set_it v opts = (case parse_uint v of None \<Rightarrow> Inl (BadUint v) | Some n \<Rightarrow> Inr (set_it n opts))"

definition read_int :: "(int \<Rightarrow> 'o \<Rightarrow> 'o) \<Rightarrow> string \<Rightarrow> 'o \<Rightarrow> meta_error + 'o" where
  "read_int set_it v opts = (case atoi v of None \<Rightarrow> Inl (BadInt v) | Some n \<Rightarrow> Inr (set_it n opts))"

definition read_seconds :: "(rat \<Rightarrow> 'o \<Rightarrow> 'o) \<Rightarrow> string \<Rightarrow> 'o \<Rightarrow> meta_error + 'o" where
  "read_seconds set_it v opts = (case ParseDuration v of Inl e \<Rightarrow> Inl (BadDuration e) | Inr d \<Rightarrow> Inr (set_it (Seconds d) opts))"

type_synonym 'o monitorMetaParser = "string \<times> (string \<Rightarrow> 'o \<Rightarrow> meta_error + 'o)"

definition parse_meta :: "(string, string) gomap \<Rightarrow> 'o monitorMetaParser \<Rightarrow> 'o \<Rightarrow> meta_error + 'o" where
  "parse_meta metadata p opts = (case map_of metadata (fst p) of None \<Rightarrow> Inr opts | Some v \<Rightarrow> snd p v opts)"

definition MonitorMetaEnabled :: string where "MonitorMetaEnabled = ''io.nats.monitor.enabled''"
definition StreamMonitorMetaLagCritical :: string where "StreamMonitorMetaLagCritical = ''io.nats.monitor.lag-critical''"
definition StreamMonitorMetaSeenCritical :: string where "StreamMonitorMetaSeenCritical = ''io.nats.monitor.seen-critical''"
definition StreamMonitorMetaMinSources :: string where "StreamMonitorMetaMinSources = ''io.nats.monitor.min-sources''"
definition StreamMonitorMetaMaxSources :: string where "StreamMonitorMetaMaxSources = ''io.nats.monitor.max-sources''"
definition StreamMonitorMetaPeerExpect :: string where "StreamMonitorMetaPeerExpect = ''io.nats.monitor.peer-expect''"
definition StreamMonitorMetaPeerLagCritical :: string where "StreamMonitorMetaPeerLagCritical = ''io.nats.monitor.peer-lag-critical''"
definition StreamMonitorMetaPeerSeenCritical :: string where "StreamMonitorMetaPeerSeenCritical = ''io.nats.monitor.peer-seen-critical''"
definition StreamMonitorMetaMessagesWarn :: string where "StreamMonitorMetaMessagesWarn = ''io.nats.monitor.msgs-warn''"
definition StreamMonitorMetaMessagesCritical :: string where "StreamMonitorMetaMessagesCritical = ''io.nats.monitor.msgs-critical''"
definition StreamMonitorMetaSubjectsWarn :: string where "StreamMonitorMetaSubjectsWarn = ''io.nats.monitor.subjects-warn''"
definition StreamMonitorMetaSubjectsCritical :: string where "StreamMonitorMetaSubjectsCritical = ''io.nats.monitor.subjects-critical''"

definition stream_parser :: "CheckStreamHealthOptions monitorMetaParser list" where
  "stream_parser =
     [(MonitorMetaEnabled, read_bool (\<lambda>v. so_Enabled_update (\<lambda>_. v))),
      (StreamMonitorMetaLagCritical, read_uint (\<lambda>v. so_SourcesLagCritical_update (\<lambda>_. v))),
      (StreamMonitorMetaSeenCritical, read_seconds (\<lambda>v. so_SourcesSeenCritical_update (\<lambda>_. v))),
      (StreamMonitorMetaMinSources, read_int (\<lambda>v. so_MinSources_update (\<lambda>_. v))),
      (StreamMonitorMetaMaxSources, read_int (\<lambda>v. so_MaxSources_update (\<lambda>_. v))),
      (StreamMonitorMetaPeerExpect, read_int (\<lambda>v. so_ClusterExpectedPeers_update (\<lambda>_. v))),
      (StreamMonitorMetaPeerLagCritical, read_uint (\<lambda>v. so_ClusterLagCritical_update (\<lambda>_. v))),
      (StreamMonitorMetaPeerSeenCritical, read_seconds (\<lambda>v. so_ClusterSeenCritical_update (\<lambda>_. v))),
      (StreamMonitorMetaMessagesWarn, read_uint (\<lambda>v. so_MessagesWarn_update (\<lambda>_. v))),
      (StreamMonitorMetaMessagesCritical, read_uint (\<lambda>v. so_MessagesCrit_update (\<lambda>_. v))),
      (StreamMonitorMetaSubjectsWarn, read_int (\<lambda>v. so_SubjectsWarn_update (\<lambda>_. v))),
      (StreamMonitorMetaSubjectsCritical, read_int (\<lambda>v. so_SubjectsCrit_update (\<lambda>_. v)))]"

definition populateStreamHealthCheckOptions ::
    "(string, string) gomap \<Rightarrow> CheckStreamHealthOptions \<Rightarrow> meta_error + CheckStreamHealthOptions" where
  "populateStreamHealthCheckOptions metadata opts = fold_err (parse_meta metadata) stream_parser opts"

definition ExtractStreamHealthCheckOptions :: "(string, string) gomap \<Rightarrow> meta_error + CheckStreamHealthOptions" where
  "ExtractStreamHealthCheckOptions metadata = populateStreamHealthCheckOptions metadata (zeroStreamOptions [])"

subsection \<open>The checks\<close>

definition streamCheckMirror :: "StreamInfo \<Rightarrow> CheckStreamHealthOptions \<Rightarrow> Result \<Rightarrow> Result" where
  "streamCheckMirror si opts check =
     (if (so_SourcesLagCritical opts \<le> 0 \<and> so_SourcesSeenCritical opts \<le> 0) \<or> sc_Name (nfo_Config si) = [] \<or> length (nfo_Sources si) > 0
      then check
      else case sc_Mirror (nfo_Config si) of
             None \<Rightarrow> Criticalf ''not mirrored'' [] check
           | Some mirror \<Rightarrow>
               (case nfo_Mirror si of
                  None \<Rightarrow> Criticalf ''invalid state'' [] check
                | Some state \<Rightarrow>
                    (let c1 = Pd [(pd_item ''lag'' (to_float (uint (ssi_Lag state))))\<lparr> pd_Crit := to_float (uint (so_SourcesLagCritical opts)) \<rparr>,
                                  (pd_item ''active'' (Seconds (ssi_Active state)))\<lparr> pd_Crit := so_SourcesSeenCritical opts, pd_Unit := ''s'' \<rparr>] check;
                         lag = (so_SourcesLagCritical opts > 0 \<and> ssi_Lag state \<ge> so_SourcesLagCritical opts);
                         c2 = (if lag then Criticalf ''Mirror Lag %d'' [AInt (uint (ssi_Lag state))] c1 else c1);
                         seen = (so_SourcesSeenCritical opts > 0 \<and> ssi_Active state \<ge> secondsToDuration (so_SourcesSeenCritical opts));
                         c3 = (if seen then Criticalf ''Mirror Seen %v'' [ADur (ssi_Active state)] c2 else c2)
                     in if \<not> lag \<and> \<not> seen then Okf ''Mirror %s'' [AStr (ss_Name mirror)] c3 else c3)))"

definition count_if :: "('a \<Rightarrow> bool) \<Rightarrow> 'a list \<Rightarrow> int" where
  "count_if P xs = int (length (filter P xs))"

definition streamCheckSources :: "StreamInfo \<Rightarrow> CheckStreamHealthOptions \<Rightarrow> Result \<Rightarrow> Result" where
  "streamCheckSources si opts check =
     (let sources = nfo_Sources si;
          count = int (length sources);
          c1 = Pd [(pd_item ''sources'' (to_float count))\<lparr> pd_Warn := to_float (so_MinSources opts), pd_Crit := to_float (so_MaxSources opts) \<rparr>] check;
          c2 = (if so_MinSources opts > 0 \<and> count < so_MinSources opts then Criticalf ''%d sources'' [AInt count] c1
                else if so_MaxSources opts > 0 \<and> count > so_MaxSources opts then Criticalf ''%d sources'' [AInt count] c1
                else Okf ''%d sources'' [AInt count] c1)
      in if so_SourcesLagCritical opts \<le> 0 \<and> so_SourcesSeenCritical opts \<le> 0 then c2
         else
           (let lagged = count_if (\<lambda>s. so_SourcesLagCritical opts > 0 \<and> ssi_Lag s \<ge> so_SourcesLagCritical opts) sources;
                inactive = count_if (\<lambda>s. so_SourcesSeenCritical opts > 0 \<and> ssi_Active s \<ge> secondsToDuration (so_SourcesSeenCritical opts)) sources;
                c3 = Pd [pd_item ''sources_lagged'' (to_float lagged), pd_item ''sources_inactive'' (to_float inactive)] c2;
                c4 = (if lagged > 0 then Criticalf ''%d sources are lagged'' [AInt lagged] c3 else Okf ''%d sources current'' [AInt count] c3)
            in if inactive > 0 then Criticalf ''%d sources are inactive'' [AInt inactive] c4
               else Okf ''%d sources active'' [AInt count] c4))"

definition streamCheckSubjects :: "StreamInfo \<Rightarrow> CheckStreamHealthOptions \<Rightarrow> Result \<Rightarrow> Result" where
  "streamCheckSubjects si opts check =
     (if so_SubjectsWarn opts \<le> 0 \<and> so_SubjectsCrit opts \<le> 0 then check
      else
        (let ns = sst_NumSubjects (nfo_State si);
             lt = (so_SubjectsWarn opts < so_SubjectsCrit opts);
             c1 = Pd [(pd_item ''subjects'' (to_float ns))\<lparr> pd_Warn := to_float (so_SubjectsWarn opts), pd_Crit := to_float (so_SubjectsCrit opts) \<rparr>] check
         in if lt \<and> ns \<ge> so_SubjectsCrit opts then Criticalf ''%d subjects'' [AInt ns] c1
            else if lt \<and> ns \<ge> so_SubjectsWarn opts then Warnf ''%d subjects'' [AInt ns] c1
            else if \<not> lt \<and> ns \<le> so_SubjectsCrit opts then Criticalf ''%d subjects'' [AInt ns] c1
            else if \<not> lt \<and> ns \<le> so_SubjectsWarn opts then Warnf ''%d subjects'' [AInt ns] c1
            else Okf ''%d subjects'' [AInt ns] c1))"

definition streamCheckMessages :: "StreamInfo \<Rightarrow> CheckStreamHealthOptions \<Rightarrow> Result \<Rightarrow> Result" where
  "streamCheckMessages si opts check =
     (if so_MessagesCrit opts \<le> 0 \<and> so_MessagesWarn opts \<le> 0 then check
      else
        (let msgs = sst_Msgs (nfo_State si);
             c1 = Pd [(pd_item ''messages'' (to_float (uint msgs)))\<lparr> pd_Warn := to_float (uint (so_MessagesWarn opts)),
                        pd_Crit := to_float (uint (so_MessagesCrit opts)) \<rparr>] check
         in if so_MessagesCrit opts > 0 \<and> msgs \<le> so_MessagesCrit opts then Criticalf ''%d messages'' [AInt (uint msgs)] c1
            else if so_MessagesWarn opts > 0 \<and> msgs \<le> so_MessagesWarn opts then Warnf ''%d messages'' [AInt (uint msgs)] c1
            else Okf ''%d messages'' [AInt (uint msgs)] c1))"

definition streamCheckCluster :: "StreamInfo \<Rightarrow> CheckStreamHealthOptions \<Rightarrow> Result \<Rightarrow> Result" where
  "streamCheckCluster si opts check =
     (let single = (nfo_Cluster si = None \<or> sc_Replicas (nfo_Config si) \<le> 1)
      in if single \<and> so_ClusterExpectedPeers opts \<le> 0 then check
         else if single then Criticalf ''Stream is not clustered'' [] check
         else
           (let nfo = the (nfo_Cluster si);
                nPeer = int (length (ci_Replicas nfo)) + 1
            in if ci_Leader nfo = [] then Criticalf ''No leader'' [] check
               else if nPeer \<noteq> so_ClusterExpectedPeers opts then
                 Criticalf ''Expected %d replicas got %d'' [AInt (so_ClusterExpectedPeers opts), AInt nPeer] check
               else
                 (let c1 = Okf ''%d peers'' [AInt nPeer] check;
                      lagged = count_if (\<lambda>p. so_ClusterLagCritical opts > 0 \<and> pi_Lag p > so_ClusterLagCritical opts) (ci_Replicas nfo);
                      inactive = count_if (\<lambda>p. so_ClusterSeenCritical opts > 0 \<and> pi_Active p > secondsToDuration (so_ClusterSeenCritical opts))
                                   (ci_Replicas nfo);
                      offline = count_if pi_Offline (ci_Replicas nfo);
                      c2 = (if offline > 0 then Criticalf ''%d replicas offline'' [AInt offline] c1 else c1);
                      c3 = (if so_ClusterLagCritical opts \<le> 0 then c2
                            else if lagged > 0 then Criticalf ''%d replicas lagged'' [AInt lagged] c2
                            else Okf ''replicas are current'' [] c2)
                  in if so_ClusterSeenCritical opts \<le> 0 then c3
                     else if inactive > 0 then Criticalf ''%d replicas inactive'' [AInt inactive] c3
                     else Okf ''replicas are active'' [] c3)))"

definition CheckStreamInfoHealth :: "StreamInfo \<Rightarrow> CheckStreamHealthOptions \<Rightarrow> Result \<Rightarrow> Result" where
  "CheckStreamInfoHealth nfo opts check =
     streamCheckMirror nfo opts (streamCheckSources nfo opts (streamCheckSubjects nfo opts
       (streamCheckMessages nfo opts (streamCheckCluster nfo opts check))))"

text \<open>The whole check; \<open>checks\<close> are the caller's own health checks.\<close>

type_synonym StreamHealthCheckF = "Stream \<Rightarrow> CheckStreamHealthOptions \<Rightarrow> Result \<Rightarrow> Result"

definition CheckStreamHealthWithConnection ::
    "'w nats_client \<Rightarrow> Manager \<Rightarrow> StreamHealthCheckF list \<Rightarrow> CheckStreamHealthOptions \<Rightarrow> Result \<Rightarrow> ('w, Result) api" where
  "CheckStreamHealthWithConnection x m checks opts check w =
     (if so_StreamName opts = [] then (Inr (Criticalf ''stream name is required'' [] check), w)
      else case LoadStream x m (so_StreamName opts) w of
             (Inl e, w1) \<Rightarrow> (Inr (Criticalf ''could not load info: %v'' [AErr e] check), w1)
           | (Inr stream, w1) \<Rightarrow>
               (case populateStreamHealthCheckOptions (sc_Metadata (s_cfg stream)) opts of
                  Inl e \<Rightarrow> (Inr (Criticalf ''could not configure based on metadata: %v'' [AMeta e] check), w1)
                | Inr opts1 \<Rightarrow>
                    (case LatestInformation x m stream w1 of
                       (Inl e, w2) \<Rightarrow> (Inr (Criticalf ''could not load info: %v'' [AErr e] check), w2)
                     | (Inr (None, _), w2) \<Rightarrow> (Inl Panic, w2)
                     | (Inr (Some nfo, stream1), w2) \<Rightarrow>
                         (Inr (fold (\<lambda>hc. hc stream1 opts1) checks (CheckStreamInfoHealth nfo opts1 check)), w2))))"

end
