(* ===== verification/Monitor_Consumer.thy ===== *)
theory Monitor_Consumer
  imports Monitor_Stream
begin

text \<open>
  The health check of a consumer (\<open>src/monitor/consumer.go\<close>). \<open>now\<close> is the clock of \<open>time.Since\<close>, read
  once per check.
\<close>

record CheckConsumerHealthOptions =
  co_StreamName :: string
  co_ConsumerName :: string
  co_AckOutstandingCritical :: int
  co_WaitingCritical :: int
  co_UnprocessedCritical :: int
  co_LastDeliveryCritical :: rat
  co_LastAckCritical :: rat
  co_RedeliveryCritical :: int
  co_Pinned :: bool
  co_Enabled :: bool

definition zeroConsumerOptions :: CheckConsumerHealthOptions where
  "zeroConsumerOptions = \<lparr> co_StreamName = [], co_ConsumerName = [], co_AckOutstandingCritical = 0, co_WaitingCritical = 0,
     co_UnprocessedCritical = 0, co_LastDeliveryCritical = 0, co_LastAckCritical = 0, co_RedeliveryCritical = 0,
     co_Pinned = False, co_Enabled = False \<rparr>"

definition ConsumerMonitorMetaOutstandingAckCritical :: string where
  "ConsumerMonitorMetaOutstandingAckCritical = ''io.nats.monitor.outstanding-ack-critical''"
definition ConsumerMonitorMetaWaitingCritical :: string where
  "ConsumerMonitorMetaWaitingCritical = ''io.nats.monitor.waiting-critical''"
definition ConsumerMonitorMetaUnprocessedCritical :: string where
  "ConsumerMonitorMetaUnprocessedCritical = ''io.nats.monitor.unprocessed-critical''"
definition ConsumerMonitorMetaLastDeliveredCritical :: string where
  "ConsumerMonitorMetaLastDeliveredCritical = ''io.nats.monitor.last-delivery-critical''"
definition ConsumerMonitorMetaLastAckCritical :: string where
  "ConsumerMonitorMetaLastAckCritical = ''io.nats.monitor.last-ack-critical''"
definition ConsumerMonitorMetaRedeliveryCritical :: string where
  "ConsumerMonitorMetaRedeliveryCritical = ''io.nats.monitor.redelivery-critical''"
definition ConsumerMonitorMetaPinned :: string where
  "ConsumerMonitorMetaPinned = ''io.nats.monitor.pinned''"

definition consumer_parser :: "CheckConsumerHealthOptions monitorMetaParser list" where
  "consumer_parser =
     [(MonitorMetaEnabled, read_bool (\<lambda>v. co_Enabled_update (\<lambda>_. v))),
      (ConsumerMonitorMetaOutstandingAckCritical, read_int (\<lambda>v. co_AckOutstandingCritical_update (\<lambda>_. v))),
      (ConsumerMonitorMetaWaitingCritical, read_int (\<lambda>v. co_WaitingCritical_update (\<lambda>_. v))),
      (ConsumerMonitorMetaUnprocessedCritical, read_int (\<lambda>v. co_UnprocessedCritical_update (\<lambda>_. v))),
      (ConsumerMonitorMetaLastDeliveredCritical, read_seconds (\<lambda>v. co_LastDeliveryCritical_update (\<lambda>_. v))),
      (ConsumerMonitorMetaLastAckCritical, read_seconds (\<lambda>v. co_LastAckCritical_update (\<lambda>_. v))),
      (ConsumerMonitorMetaRedeliveryCritical, read_int (\<lambda>v. co_RedeliveryCritical_update (\<lambda>_. v))),
      (ConsumerMonitorMetaPinned, read_bool (\<lambda>v. co_Pinned_update (\<lambda>_. v)))]"

definition populateConsumerHealthCheckOptions ::
    "(string, string) gomap \<Rightarrow> CheckConsumerHealthOptions \<Rightarrow> meta_error + CheckConsumerHealthOptions" where
  "populateConsumerHealthCheckOptions metadata opts = fold_err (parse_meta metadata) consumer_parser opts"

definition ExtractConsumerHealthCheckOptions :: "(string, string) gomap \<Rightarrow> meta_error + CheckConsumerHealthOptions" where
  "ExtractConsumerHealthCheckOptions metadata = populateConsumerHealthCheckOptions metadata zeroConsumerOptions"

subsection \<open>The checks\<close>

definition consumerCheckOutstandingAck :: "ConsumerInfo \<Rightarrow> CheckConsumerHealthOptions \<Rightarrow> Result \<Rightarrow> Result" where
  "consumerCheckOutstandingAck nfo opts check =
     (if co_AckOutstandingCritical opts \<le> 0 then check
      else if cn_NumAckPending nfo \<ge> co_AckOutstandingCritical opts then Criticalf ''Ack Pending: %v'' [AInt (cn_NumAckPending nfo)] check
      else Okf ''Ack Pending: %v'' [AInt (cn_NumAckPending nfo)] check)"

definition consumerCheckWaiting :: "ConsumerInfo \<Rightarrow> CheckConsumerHealthOptions \<Rightarrow> Result \<Rightarrow> Result" where
  "consumerCheckWaiting nfo opts check =
     (if co_WaitingCritical opts \<le> 0 then check
      else if cn_NumWaiting nfo \<ge> co_WaitingCritical opts then Criticalf ''Waiting Pulls: %v'' [AInt (cn_NumWaiting nfo)] check
      else Okf ''Waiting Pulls: %v'' [AInt (cn_NumWaiting nfo)] check)"

definition consumerCheckUnprocessed :: "ConsumerInfo \<Rightarrow> CheckConsumerHealthOptions \<Rightarrow> Result \<Rightarrow> Result" where
  "consumerCheckUnprocessed nfo opts check =
     (if co_UnprocessedCritical opts \<le> 0 then check
      else if cn_NumPending nfo \<ge> word_of_int (co_UnprocessedCritical opts) then
        Criticalf ''Unprocessed Messages: %v'' [AInt (uint (cn_NumPending nfo))] check
      else Okf ''Unprocessed Messages: %v'' [AInt (uint (cn_NumPending nfo))] check)"

definition consumerCheckRedelivery :: "ConsumerInfo \<Rightarrow> CheckConsumerHealthOptions \<Rightarrow> Result \<Rightarrow> Result" where
  "consumerCheckRedelivery nfo opts check =
     (if co_RedeliveryCritical opts \<le> 0 then check
      else if cn_NumRedelivered nfo \<ge> co_RedeliveryCritical opts then Criticalf ''Redelivered: %v'' [AInt (cn_NumRedelivered nfo)] check
      else Okf ''Redelivered: %v'' [AInt (cn_NumRedelivered nfo)] check)"

definition consumerCheckLastDelivery :: "gotime \<Rightarrow> ConsumerInfo \<Rightarrow> CheckConsumerHealthOptions \<Rightarrow> Result \<Rightarrow> Result" where
  "consumerCheckLastDelivery now nfo opts check =
     (if co_LastDeliveryCritical opts \<le> 0 then check
      else case sq_Last (cn_Delivered nfo) of
             None \<Rightarrow> Criticalf ''No deliveries'' [] check
           | Some lst \<Rightarrow>
               if time_Sub now lst \<ge> secondsToDuration (co_LastDeliveryCritical opts) then
                 Criticalf ''Last delivery %s ago'' [ADur (time_Sub now lst)] check
               else Okf ''Last delivery %v'' [ATime lst] check)"

definition consumerCheckLastAck :: "gotime \<Rightarrow> ConsumerInfo \<Rightarrow> CheckConsumerHealthOptions \<Rightarrow> Result \<Rightarrow> Result" where
  "consumerCheckLastAck now nfo opts check =
     (if co_LastAckCritical opts \<le> 0 then check
      else case sq_Last (cn_AckFloor nfo) of
             None \<Rightarrow> Criticalf ''No acks'' [] check
           | Some lst \<Rightarrow>
               if time_Sub now lst \<ge> secondsToDuration (co_LastAckCritical opts) then
                 Criticalf ''Last ack %v ago'' [ADur (time_Sub now lst)] check
               else Okf ''Last ack %v'' [ATime lst] check)"

definition priority_groups :: "ConsumerInfo \<Rightarrow> string list" where
  "priority_groups nfo = (case cc_PriorityGroups (cn_Config nfo) of None \<Rightarrow> [] | Some gs \<Rightarrow> gs)"

definition consumerCheckPinned :: "ConsumerInfo \<Rightarrow> CheckConsumerHealthOptions \<Rightarrow> Result \<Rightarrow> Result" where
  "consumerCheckPinned nfo opts check =
     (let pinned = count_if (\<lambda>group. pg_PinnedClientID group \<noteq> []) (cn_PriorityGroups nfo);
          total = int (length (priority_groups nfo));
          c1 = (if cc_PriorityPolicy (cn_Config nfo) = PriorityPinnedClient then
                  Pd [pd_item ''groups'' (to_float total)] (Pd [pd_item ''pinned_groups'' (to_float pinned)] check)
                else check)
      in if \<not> co_Pinned opts then c1
         else if cn_PriorityGroups nfo = [] \<or> total = 0 \<or> cc_PriorityPolicy (cn_Config nfo) \<noteq> PriorityPinnedClient then
           Criticalf ''Not pinned client priority mode'' [] c1
         else if pinned \<noteq> total then Criticalf ''%d / %d pinned clients'' [AInt pinned, AInt total] c1
         else Okf ''%d pinned clients'' [AInt pinned] c1)"

definition CheckConsumerInfoHealth :: "gotime \<Rightarrow> ConsumerInfo \<Rightarrow> CheckConsumerHealthOptions \<Rightarrow> Result \<Rightarrow> Result" where
  "CheckConsumerInfoHealth now nfo opts check =
     consumerCheckPinned nfo opts (consumerCheckLastAck now nfo opts (consumerCheckLastDelivery now nfo opts
       (consumerCheckRedelivery nfo opts (consumerCheckUnprocessed nfo opts (consumerCheckWaiting nfo opts
         (consumerCheckOutstandingAck nfo opts check))))))"

definition consumer_perfdata :: "gotime \<Rightarrow> ConsumerInfo \<Rightarrow> CheckConsumerHealthOptions \<Rightarrow> Result \<Rightarrow> Result" where
  "consumer_perfdata now nfo opts check =
     (let c1 = Pd [(pd_item ''redelivered'' (to_float (cn_NumRedelivered nfo)))\<lparr> pd_Crit := to_float (co_RedeliveryCritical opts) \<rparr>]
            (Pd [(pd_item ''pending'' (to_float (uint (cn_NumPending nfo))))\<lparr> pd_Crit := to_float (co_UnprocessedCritical opts) \<rparr>]
            (Pd [(pd_item ''pull_waiting'' (to_float (cn_NumWaiting nfo)))\<lparr> pd_Crit := to_float (co_WaitingCritical opts) \<rparr>]
            (Pd [(pd_item ''ack_pending'' (to_float (cn_NumAckPending nfo)))\<lparr> pd_Crit := to_float (co_AckOutstandingCritical opts) \<rparr>] check)));
          c2 = (case sq_Last (cn_Delivered nfo) of None \<Rightarrow> c1
                | Some lst \<Rightarrow> Pd [(pd_item ''last_delivery'' (Seconds (time_Sub now lst)))\<lparr> pd_Unit := ''s'', pd_Crit := co_LastDeliveryCritical opts \<rparr>] c1)
      in case sq_Last (cn_AckFloor nfo) of None \<Rightarrow> c2
         | Some lst \<Rightarrow> Pd [(pd_item ''last_ack'' (Seconds (time_Sub now lst)))\<lparr> pd_Unit := ''s'', pd_Crit := co_LastAckCritical opts \<rparr>] c2)"

type_synonym ConsumerHealthCheckF = "Consumer \<Rightarrow> CheckConsumerHealthOptions \<Rightarrow> Result \<Rightarrow> Result"

definition CheckConsumerHealthWithConnection ::
    "'w nats_client \<Rightarrow> Manager \<Rightarrow> gotime \<Rightarrow> ConsumerHealthCheckF list \<Rightarrow> CheckConsumerHealthOptions \<Rightarrow> Result \<Rightarrow> 'w \<Rightarrow> Result \<times> 'w" where
  "CheckConsumerHealthWithConnection x m now checks opts check w =
     (if co_StreamName opts = [] then (Criticalf ''stream name is required'' [] check, w)
      else if co_ConsumerName opts = [] then (Criticalf ''consumer name is required'' [] check, w)
      else case LoadConsumer x m (co_StreamName opts) (co_ConsumerName opts) w of
             (Inl e, w1) \<Rightarrow> (Criticalf ''could not load info: %v'' [AErr e] check, w1)
           | (Inr consumer, w1) \<Rightarrow>
               (case consumer_LatestState x m consumer w1 of
                  (Inl e, w2) \<Rightarrow> (Criticalf ''could not load info: %v'' [AErr e] check, w2)
                | (Inr (nfo, consumer1), w2) \<Rightarrow>
                    (fold (\<lambda>hc. hc consumer1 opts) checks (CheckConsumerInfoHealth now nfo opts (consumer_perfdata now nfo opts check)), w2)))"

end
