(* ===== verification/Audit_Stream_Checks.thy ===== *)
theory Audit_Stream_Checks
  imports Audit_Server_Checks Monitor_Stream Monitor_Consumer
begin

text \<open>
  The checks of streams, consumers and accounts (\<open>src/audit/jetstream_checks.go\<close>, \<open>account_checks.go\<close>) and
  the standard collection (\<open>NewDefaultCheckCollection\<close> of \<open>src/audit/checks.go\<close> with the registrations of all
  suites).
\<close>

subsection \<open>Streams\<close>

text \<open>All replicas of all streams: account, stream, server. An error is logged and passed over.\<close>

definition stream_replicas :: "'c Reader \<Rightarrow> (string \<times> string \<times> string) list" where
  "stream_replicas r =
     concat (map (\<lambda>a. concat (map (\<lambda>s. map (\<lambda>srv. (a, s, srv)) (StreamServerNames r a s)) (AccountStreamNames r a))) (AccountNames r))"

definition stream_query :: "string \<Rightarrow> string \<Rightarrow> string \<Rightarrow> Tag list" where
  "stream_query account stream srv = [TagAccount account, TagStream stream, TagServer srv, TagStreamInfo]"

definition each_replica ::
    "('c \<Rightarrow> 'a option) \<Rightarrow> 'c Reader \<Rightarrow> (string \<Rightarrow> string \<Rightarrow> string \<Rightarrow> ('a, 's) callback) \<Rightarrow> (string \<times> string \<times> string) list \<Rightarrow> 's \<Rightarrow> 's" where
  "each_replica dec r cb replicas s =
     fold (\<lambda>(account, stream, srv) s. snd (ForEachTaggedArtifact dec r (stream_query account stream srv) (cb account stream srv) s)) replicas s"

text \<open>The details of the replicas of one stream, and whether all of them are empty.\<close>

definition note_details :: "string \<Rightarrow> (StreamInfo, (string, StreamInfo) gomap \<times> bool) callback" where
  "note_details srv details st =
     (None, AList.update srv details (fst st), snd st \<and> \<not> sst_LastSeq (nfo_State details) > 0)"

definition last_seq :: "StreamInfo \<Rightarrow> u64" where
  "last_seq nfo = sst_LastSeq (nfo_State nfo)"

definition highest_seq :: "(string, StreamInfo) gomap \<Rightarrow> u64 \<times> string" where
  "highest_seq m = fold (\<lambda>(srv, nfo) (h, hs). if last_seq nfo > h then (last_seq nfo, srv) else (h, hs)) m (0, [])"

definition lag_threshold :: "(gofloat \<Rightarrow> int) \<Rightarrow> gofloat \<Rightarrow> u64 \<Rightarrow> u64" where
  "lag_threshold cv percent highest =
     (let maxDelta = word_of_int (to_uint64 cv (gf_times (to_float (uint highest)) (gf_over percent 100)))
      in if maxDelta \<le> highest then highest - maxDelta else 0)"

definition lagging_replicas ::
    "(gofloat \<Rightarrow> int) \<Rightarrow> gofloat \<Rightarrow> string \<Rightarrow> string \<Rightarrow> (string, StreamInfo) gomap \<times> bool \<Rightarrow> ExamplesCollection \<Rightarrow> ExamplesCollection" where
  "lagging_replicas cv percent account stream st ex =
     (case st of
        (m, streamIsEmpty) \<Rightarrow>
          if streamIsEmpty then ex
          else (let (highest, highestServer) = highest_seq m; threshold = lag_threshold cv percent highest
                in fold (\<lambda>(srv, nfo) ex.
                      if last_seq nfo < threshold then
                        ex_Add ''%s/%s server %s lastSequence: %d is behind highest lastSequence: %d on server: %s''
                          [AStr account, AStr stream, AStr srv, AInt (uint (last_seq nfo)), AInt (uint highest), AStr highestServer] ex
                      else ex)
                    m ex))"

definition checkStreamLaggingReplicas :: "(gofloat \<Rightarrow> int) \<Rightarrow> ('c \<Rightarrow> StreamInfo option) \<Rightarrow> 'c Reader CheckFunc" where
  "checkStreamLaggingReplicas cv dec cfg r examples =
     (let percent = config_Value (cfg ''last_seq'')
      in by_count Fail
           (fold (\<lambda>account ex. fold (\<lambda>stream ex.
                lagging_replicas cv percent account stream
                  (each_replica dec r (\<lambda>_ _. note_details) (map (\<lambda>srv. (account, stream, srv)) (StreamServerNames r account stream)) ([], True)) ex)
              (AccountStreamNames r account) ex) (AccountNames r) examples))"

definition checkStreamHighCardinality :: "('c \<Rightarrow> StreamInfo option) \<Rightarrow> 'c Reader CheckFunc" where
  "checkStreamHighCardinality dec cfg r examples =
     (let numSubjectsThreshold = config_Value (cfg ''subjects'')
      in by_count PassWithIssues
           (each_replica dec r (\<lambda>account stream _ details ex.
                (None, let n = sst_NumSubjects (nfo_State details)
                       in if gf_less numSubjectsThreshold (Fin (to_float n)) then
                            ex_Add ''%s/%s: %d subjects'' [AStr account, AStr stream, AInt n] ex
                          else ex))
              (stream_replicas r) examples))"

text \<open>The closure \<open>checkLimit\<close>; the counts of the stream wrap into \<open>int64\<close>.\<close>

definition near_limit :: "(gofloat \<Rightarrow> int) \<Rightarrow> gofloat \<Rightarrow> int \<Rightarrow> int \<Rightarrow> bool" where
  "near_limit cv percent limit v \<longleftrightarrow> limit > 0 \<and> v > to_int64 cv (gf_times (to_float limit) (gf_over percent 100))"

definition used_percent :: "int \<Rightarrow> int \<Rightarrow> rat" where
  "used_percent v limit = float64 (float64 (to_float v * 100) / to_float limit)"

definition checkLimit :: "(gofloat \<Rightarrow> int) \<Rightarrow> string \<Rightarrow> string \<Rightarrow> string \<Rightarrow> string \<times> int \<times> int \<times> gofloat \<Rightarrow> ExamplesCollection \<Rightarrow> ExamplesCollection" where
  "checkLimit cv account stream srv l ex =
     (case l of
        (limitName, v, limit, percent) \<Rightarrow>
          if near_limit cv percent limit v then
            ex_Add ''stream %s (in %s on %s) using %.1f%% of %s limit (%d/%d)''
              [AStr stream, AStr account, AStr srv, AFloat (used_percent v limit), AStr limitName, AInt v, AInt limit] ex
          else ex)"

definition stream_limits :: "gofloat \<Rightarrow> gofloat \<Rightarrow> gofloat \<Rightarrow> StreamInfo \<Rightarrow> (string \<times> int \<times> int \<times> gofloat) list" where
  "stream_limits messages bs consumers details =
     (let st = nfo_State details; c = nfo_Config details
      in [(''messages'', sint (sst_Msgs st), sc_MaxMsgs c, messages), (''bytes'', sint (sst_Bytes st), sc_MaxBytes c, bs),
          (''consumers'', sst_Consumers st, sc_MaxConsumers c, consumers)])"

definition checkStreamLimits :: "(gofloat \<Rightarrow> int) \<Rightarrow> ('c \<Rightarrow> StreamInfo option) \<Rightarrow> 'c Reader CheckFunc" where
  "checkStreamLimits cv dec cfg r examples =
     (let limits = stream_limits (config_Value (cfg ''messages'')) (config_Value (cfg ''bytes'')) (config_Value (cfg ''consumers''))
      in by_count PassWithIssues
           (each_replica dec r (\<lambda>account stream srv details ex. (None, fold (checkLimit cv account stream srv) (limits details) ex))
              (stream_replicas r) examples))"

subsection \<open>Monitoring by metadata\<close>

text \<open>The warnings and the critical messages of a result as examples; whether there was a critical one.\<close>

definition add_findings :: "string \<Rightarrow> arg list \<Rightarrow> Result \<Rightarrow> ExamplesCollection \<times> bool \<Rightarrow> ExamplesCollection \<times> bool" where
  "add_findings what a check st =
     (fold (\<lambda>(f, b). ex_Add (''CRITICAL: '' @ what @ f) (a @ b)) (r_Criticals check)
        (fold (\<lambda>(f, b). ex_Add (''WARNING: '' @ what @ f) (a @ b)) (r_Warnings check) (fst st)),
      snd st \<or> r_Criticals check \<noteq> [])"

definition other_leader :: "string \<Rightarrow> ClusterInfo option \<Rightarrow> bool" where
  "other_leader srv cl = (case cl of None \<Rightarrow> False | Some c \<Rightarrow> ci_Leader c \<noteq> srv)"

definition monitor_stream :: "string \<Rightarrow> string \<Rightarrow> string \<Rightarrow> (StreamInfo, ExamplesCollection \<times> bool) callback" where
  "monitor_stream account stream srv details st =
     (if other_leader srv (nfo_Cluster details) then (None, st)
      else case ExtractStreamHealthCheckOptions (sc_Metadata (nfo_Config details)) of
             Inl e \<Rightarrow> (Some (Described ''failed to run health check for stream %s in account %s: %w'' [stream, account] (BadMonitorMeta e)), st)
           | Inr opts \<Rightarrow>
               if \<not> so_Enabled opts then (None, st)
               else (None, add_findings ''stream %s in %s: '' [AStr stream, AStr account]
                             (Monitor_Stream.CheckStreamInfoHealth details (opts\<lparr> so_StreamName := stream \<rparr>)
                                ((new_result (account @ ''.'' @ stream))\<lparr> r_Check := ''stream'' \<rparr>)) st))"

definition by_critical :: "ExamplesCollection \<times> bool \<Rightarrow> verdict" where
  "by_critical st = ((if ex_Count (fst st) > 0 then (if snd st then Fail else PassWithIssues) else Pass, None), fst st)"

definition checkStreamMetadataMonitoring :: "('c \<Rightarrow> StreamInfo option) \<Rightarrow> 'c Reader CheckFunc" where
  "checkStreamMetadataMonitoring dec cfg r examples =
     by_critical (each_replica dec r monitor_stream (stream_replicas r) (examples, False))"

definition monitor_consumer :: "gotime \<Rightarrow> string \<Rightarrow> string \<Rightarrow> string \<Rightarrow> ConsumerInfo \<Rightarrow> ExamplesCollection \<times> bool \<Rightarrow>
    archive_error option \<times> ExamplesCollection \<times> bool" where
  "monitor_consumer now account stream srv nfo st =
     (if other_leader srv (cn_Cluster nfo) then (None, st)
      else case ExtractConsumerHealthCheckOptions (cc_Metadata (cn_Config nfo)) of
             Inl e \<Rightarrow> (Some (Described ''failed to run health check for consumer %s > %s in account %s: %w''
                              [stream, cn_Name nfo, account] (BadMonitorMeta e)), st)
           | Inr opts \<Rightarrow>
               if \<not> co_Enabled opts then (None, st)
               else (None, add_findings ''consumer %s in stream %s in %s: '' [AStr (cn_Name nfo), AStr stream, AStr account]
                             (Monitor_Consumer.CheckConsumerInfoHealth now nfo
                                (opts\<lparr> co_StreamName := stream, co_ConsumerName := cn_Name nfo \<rparr>)
                                ((new_result (account @ ''.'' @ stream @ ''.'' @ cn_Name nfo))\<lparr> r_Check := ''consumer'' \<rparr>)) st))"

text \<open>A stream with the details of its consumers decodes to those.\<close>

definition checkConsumerMetadataMonitoring :: "gotime \<Rightarrow> ('c \<Rightarrow> (StreamInfo \<times> ConsumerInfo list) option) \<Rightarrow> 'c Reader CheckFunc" where
  "checkConsumerMetadataMonitoring now dec cfg r examples =
     by_critical (each_replica dec r (\<lambda>account stream srv details. each_until (monitor_consumer now account stream srv) (snd details))
       (stream_replicas r) (examples, False))"

subsection \<open>Accounts\<close>

record AccountLimits =
  al_Conn :: int
  al_LeafNodeConn :: int
  al_Subs :: int

record AccountInfo =
  ac_AccountName :: string
  ac_ClientCnt :: int
  ac_LeafCnt :: int
  ac_SubCnt :: int
  ac_Claim :: "AccountLimits option"

definition account_limit :: "(gofloat \<Rightarrow> int) \<Rightarrow> string \<Rightarrow> string \<Rightarrow> string \<times> int \<times> int \<times> gofloat \<Rightarrow> ExamplesCollection \<times> bool \<Rightarrow> ExamplesCollection \<times> bool" where
  "account_limit cv srv account l st =
     (case l of
        (limitName, v, limit, percent) \<Rightarrow>
          if limit \<le> 0 then st
          else if v > limit then
            (ex_Add ''account %s (on %s) exceeded %s limit (%.1f%%, %d/%d)''
               [AStr account, AStr srv, AStr limitName, AFloat (used_percent v limit), AInt v, AInt limit] (fst st), True)
          else if near_limit cv percent limit v then
            (ex_Add ''account %s (on %s) using %.1f%% of %s limit (%d/%d)''
               [AStr account, AStr srv, AFloat (used_percent v limit), AStr limitName, AInt v, AInt limit] (fst st), snd st)
          else st)"

definition account_limits :: "gofloat \<Rightarrow> gofloat \<Rightarrow> AccountInfo \<Rightarrow> AccountLimits \<Rightarrow> (string \<times> int \<times> int \<times> gofloat) list" where
  "account_limits connections subscriptions ai l =
     [(''client connections'', ac_ClientCnt ai, al_Conn l, connections), (''leaf connections'', ac_LeafCnt ai, al_LeafNodeConn l, connections),
      (''subscriptions'', ac_SubCnt ai, al_Subs l, subscriptions)]"

definition account_servers :: "'c Reader \<Rightarrow> (string \<times> string \<times> string) list" where
  "account_servers r = concat (map (\<lambda>(cluster, srv). map (\<lambda>a. (cluster, srv, a)) (AccountNames r)) (cluster_servers r))"

definition checkAccountLimits :: "(gofloat \<Rightarrow> int) \<Rightarrow> ('c \<Rightarrow> AccountInfo option) \<Rightarrow> 'c Reader CheckFunc" where
  "checkAccountLimits cv dec cfg r examples =
     (let limits = account_limits (config_Value (cfg ''connections'')) (config_Value (cfg ''subscriptions''))
      in case each_until (\<lambda>(cluster, srv, account) st.
                case ForEachTaggedArtifact dec r [TagCluster cluster, TagServer srv, TagAccount account, TagAccountInfo]
                       (\<lambda>ai st. (None, case ac_Claim ai of None \<Rightarrow> st | Some l \<Rightarrow> fold (account_limit cv srv (ac_AccountName ai)) (limits ai l) st)) st of
                  (None, st1) \<Rightarrow> (None, st1)
                | (Some e, st1) \<Rightarrow>
                    if is_no_matches e then (None, st1)
                    else (Some (wrap_error ''error processing account_info for account %s, server %s: %w'' [account, srv] e), st1))
              (account_servers r) (examples, False) of
           (Some e, ex, _) \<Rightarrow> ((Skipped, Some e), ex)
         | (None, ex, exceeded) \<Rightarrow> ((if exceeded then Fail else if ex_Count ex > 0 then PassWithIssues else Pass, None), ex))"

subsection \<open>The standard collection\<close>

text \<open>The decoders of the artifacts.\<close>

record 'c decoders =
  d_healthz :: "'c \<Rightarrow> HealthStatus response option"
  d_varz :: "'c \<Rightarrow> ServerVarz response option"
  d_jsz :: "'c \<Rightarrow> JSInfo response option"
  d_gatewayz :: "'c \<Rightarrow> Gatewayz response option"
  d_leafz :: "'c \<Rightarrow> string list response option"
  d_account :: "'c \<Rightarrow> AccountInfo option"
  d_stream :: "'c \<Rightarrow> StreamInfo option"
  d_consumers :: "'c \<Rightarrow> (StreamInfo \<times> ConsumerInfo list) option"

definition item :: "string \<Rightarrow> string \<Rightarrow> rat \<Rightarrow> string \<Rightarrow> CheckConfiguration" where
  "item key description v u = \<lparr> cf_Key = key, cf_Check = [], cf_Description = description, cf_Default = Fin v, cf_Unit = u, cf_SetValue = None \<rparr>"

text \<open>The items of all checks.\<close>

definition default_store :: config_store where
  "default_store =
     [(0, item ''connections'' ''Alerting threshold as a fraction of configured connections limit'' 90 PercentageUnit),
      (1, item ''subscriptions'' ''Alerting threshold as a fraction of configured subscriptions limit'' 90 PercentageUnit),
      (2, item ''memory'' ''Threshold of memory usage above average'' (3 / 2) []),
      (3, item ''assets'' ''Number of HA assets per server'' 1000 UIntUnit),
      (4, item ''cpu'' ''CPU Limit Threshold'' 90 PercentageUnit),
      (5, item ''memory'' ''Threshold for memory usage'' 90 PercentageUnit),
      (6, item ''store'' ''Threshold for store usage'' 90 PercentageUnit),
      (7, item ''tls_expire_warning'' ''Certificate expiry warning threshold in days'' 30 UIntUnit),
      (8, item ''tls_expire_critical'' ''Certificate expiry critical threshold in days'' 7 UIntUnit),
      (9, item ''last_seq'' ''How far a replica may be behind the highest known last sequence'' 10 PercentageUnit),
      (10, item ''subjects'' ''Alerting threshold for unique subjects in a stream'' 1000000 IntUnit),
      (11, item ''messages'' ''Alert if messages near configured limit'' 90 PercentageUnit),
      (12, item ''bytes'' ''Alert if size near configured limit'' 90 PercentageUnit),
      (13, item ''consumers'' ''Alert if consumer count near configured limit'' 90 PercentageUnit)]"

definition new_check :: "string \<Rightarrow> string \<Rightarrow> string \<Rightarrow> string \<Rightarrow> (string, nat) gomap \<Rightarrow> 'r CheckFunc \<Rightarrow> 'r Check" where
  "new_check code suite name description conf handler =
     \<lparr> ck_Code = code, ck_Suite = suite, ck_Name = name, ck_Description = description, ck_Configuration = conf, ck_Handler = Some handler \<rparr>"

definition AccountChecks :: "(gofloat \<Rightarrow> int) \<Rightarrow> 'c decoders \<Rightarrow> 'c Reader Check list" where
  "AccountChecks cv d =
     [new_check ''ACCOUNTS_001'' ''accounts'' ''Account Limits'' ''Account usage is below the configured limits''
        [(''connections'', 0), (''subscriptions'', 1)] (checkAccountLimits cv (d_account d))]"

definition ClusterChecks :: "'c decoders \<Rightarrow> 'c Reader Check list" where
  "ClusterChecks d =
     [new_check ''CLUSTER_001'' ''cluster'' ''Cluster Memory Usage Outliers'' ''Memory usage is uniform across nodes in a cluster''
        [(''memory'', 2)] (checkClusterMemoryUsageOutliers (d_varz d)),
      new_check ''CLUSTER_002'' ''cluster'' ''Cluster Uniform Gateways'' ''All nodes in a cluster share the same gateways configuration''
        [] (checkClusterUniformGatewayConfig (d_gatewayz d)),
      new_check ''CLUSTER_003'' ''cluster'' ''Cluster High HA Assets'' ''Number of HA assets is below a given threshold''
        [(''assets'', 3)] (checkClusterHighHAAssets (d_jsz d)),
      new_check ''CLUSTER_004'' ''cluster'' ''Whitespace in cluster name'' ''No cluster name contains whitespace'' [] checkClusterNamesForWhitespace]"

definition LeafnodeChecks :: "'c decoders \<Rightarrow> 'c Reader Check list" where
  "LeafnodeChecks d =
     [new_check ''LEAF_001'' ''leaf'' ''Whitespace in leafnode server names'' ''No Leafnode contains whitespace in its name''
        [] (checkLeafnodeServerNamesForWhitespace (d_leafz d))]"

definition MetaChecks :: "'c decoders \<Rightarrow> 'c Reader Check list" where
  "MetaChecks d =
     [new_check ''META_001'' ''meta'' ''Meta cluster offline replicas'' ''All nodes part of the meta group are online''
        [] (checkMetaClusterOfflineReplicas (d_jsz d)),
      new_check ''META_002'' ''meta'' ''Meta cluster leader'' ''All nodes part of the meta group agree on the meta cluster leader''
        [] (checkMetaClusterLeader (d_jsz d))]"

definition ServerChecks :: "(gofloat \<Rightarrow> int) \<Rightarrow> 'c decoders \<Rightarrow> 'c Reader Check list" where
  "ServerChecks cv d =
     [new_check ''SERVER_001'' ''server'' ''Server Health'' ''All known nodes are healthy'' [] (checkServerHealth (d_healthz d)),
      new_check ''SERVER_002'' ''server'' ''Server Version'' ''All known nodes are running the same software version''
        [] (checkServerVersion (d_varz d)),
      new_check ''SERVER_003'' ''server'' ''Server CPU Usage'' ''CPU usage for all known nodes is below a given threshold''
        [(''cpu'', 4)] (checkServerCPUUsage (d_varz d)),
      new_check ''SERVER_004'' ''server'' ''Server Slow Consumers'' ''No node is reporting slow consumers'' [] (checkSlowConsumers (d_varz d)),
      new_check ''SERVER_005'' ''server'' ''Server Resources Limits'' ''Resources are below a given threshold compared to the configured limit''
        [(''memory'', 5), (''store'', 6)] (checkServerResourceLimits cv (d_jsz d)),
      new_check ''SERVER_006'' ''server'' ''Whitespace in JetStream domains'' ''No JetStream server is configured with whitespace in its domain''
        [] (checkJetStreamDomainsForWhitespace (d_jsz d)),
      new_check ''SERVER_007'' ''server'' ''Authentication required'' ''Each server requires authentication'' [] (checkServerAuthRequired (d_varz d)),
      new_check ''SERVER_008'' ''server'' ''TLS Certificate Expiry'' ''TLS certificates are valid and not expiring soon''
        [(''tls_expire_warning'', 7), (''tls_expire_critical'', 8)] (checkTLSCertificateExpiry cv (d_varz d))]"

definition JetStreamChecks :: "(gofloat \<Rightarrow> int) \<Rightarrow> gotime \<Rightarrow> 'c decoders \<Rightarrow> 'c Reader Check list" where
  "JetStreamChecks cv now d =
     [new_check ''JETSTREAM_001'' ''jetstream'' ''Stream Lagging Replicas'' ''All replicas of a stream are keeping up''
        [(''last_seq'', 9)] (checkStreamLaggingReplicas cv (d_stream d)),
      new_check ''JETSTREAM_002'' ''jetstream'' ''Stream High Cardinality'' ''Streams unique subjects do not exceed a given threshold''
        [(''subjects'', 10)] (checkStreamHighCardinality (d_stream d)),
      new_check ''JETSTREAM_003'' ''jetstream'' ''Stream Limits'' ''Stream usage is below the configured limits''
        [(''messages'', 11), (''bytes'', 12), (''consumers'', 13)] (checkStreamLimits cv (d_stream d)),
      new_check ''JETSTREAM_004'' ''jetstream'' ''Stream Metadata based monitoring'' (''Stream health using the '' @ [CHR 0x27] @ ''nats server check stream'' @ [CHR 0x27] @ '' metadata'')
        [] (checkStreamMetadataMonitoring (d_stream d)),
      new_check ''JETSTREAM_005'' ''jetstream'' ''Consumer Metadata based monitoring'' (''Consumer health using the '' @ [CHR 0x27] @ ''nats server check consumer'' @ [CHR 0x27] @ '' metadata'')
        [] (checkConsumerMetadataMonitoring now (d_consumers d))]"

fun register_all :: "'r Check list list \<Rightarrow> 'r CheckCollection \<times> config_store \<Rightarrow> register_error option \<times> 'r CheckCollection \<times> config_store" where
  "register_all [] cs = (None, cs)"
| "register_all (checks # rest) cs = (case Register checks cs of (Some e, cs1) \<Rightarrow> (Some e, cs1) | (None, cs1) \<Rightarrow> register_all rest cs1)"

definition NewDefaultCheckCollection ::
    "(gofloat \<Rightarrow> int) \<Rightarrow> gotime \<Rightarrow> 'c decoders \<Rightarrow> register_error option \<times> 'c Reader CheckCollection \<times> config_store" where
  "NewDefaultCheckCollection cv now d =
     register_all [AccountChecks cv d, ClusterChecks d, LeafnodeChecks d, MetaChecks d, ServerChecks cv d, JetStreamChecks cv now d]
       (NewCollection, default_store)"

end
