(* ===== verification/Audit_Verdicts.thy ===== *)
theory Audit_Verdicts
  imports Audit_Archive_Props Audit_Check_Props Audit_Stream_Checks
begin

text \<open>
  What the checks decide, from the artifacts of an archive: every check sees exactly what a callback that
  only records sees, and its verdict is a property of that record; and from the writes to the verdict, for
  the check of the server versions.
\<close>

subsection \<open>Recording\<close>

definition recorder :: "string \<Rightarrow> ('d response, (Tag \<times> Tag \<times> 'd) list) server_callback" where
  "recorder name = server_data name (\<lambda>ct st d xs. xs @ [(ct, st, d)])"

text \<open>The artifacts with data that a check is handed, and the error that ends the iteration.\<close>

definition recorded :: "('c \<Rightarrow> 'd response option) \<Rightarrow> 'c Reader \<Rightarrow> Tag \<Rightarrow> string \<Rightarrow> archive_error option \<times> (Tag \<times> Tag \<times> 'd) list" where
  "recorded dec r artifactTag name =
     (case EachClusterServerArtifact dec r artifactTag (recorder name) [] of (e, n, xs) \<Rightarrow> (e, xs))"

definition replay :: "(Tag \<Rightarrow> Tag \<Rightarrow> 'd \<Rightarrow> 's \<Rightarrow> 's) \<Rightarrow> (Tag \<times> Tag \<times> 'd) list \<Rightarrow> 's \<Rightarrow> 's" where
  "replay f xs s = fold (\<lambda>(ct, st, d). f ct st d) xs s"

lemma replay_snoc: "replay f (xs @ [(ct, st, d)]) s = f ct st d (replay f xs s)"
  by (simp add: replay_def)

text \<open>Two runs of an iteration whose callbacks agree on errors keep a relation of their states.\<close>

lemma decode_each_rel:
  assumes "\<And>x s t e s1 f t1. R s t \<Longrightarrow> cb1 x s = (e, s1) \<Longrightarrow> cb2 x t = (f, t1) \<Longrightarrow> e = f \<and> R s1 t1"
  shows "R s t \<Longrightarrow> decode_each dec cb1 fs s = (e, s1) \<Longrightarrow> decode_each dec cb2 fs t = (f, t1) \<Longrightarrow> e = f \<and> R s1 t1"
proof (induction fs arbitrary: s t)
  case (Cons g fs)
  show ?case
  proof (cases "zf_Body g")
    case None
    then show ?thesis using Cons.prems by auto
  next
    case (Some c)
    show ?thesis
    proof (cases "dec c")
      case None
      then show ?thesis using Cons.prems Some by auto
    next
      case (Some x)
      obtain e2 s2 f2 t2 where cb: "cb1 x s = (e2, s2)" "cb2 x t = (f2, t2)" by (metis prod.exhaust)
      from assms [OF Cons.prems(1) cb] have "e2 = f2" "R s2 t2" by simp_all
      then show ?thesis using Cons \<open>zf_Body g = Some c\<close> Some cb by (auto split: option.splits)
    qed
  qed
qed simp

lemma ForEach_rel:
  assumes "\<And>x s t e s1 f t1. R s t \<Longrightarrow> cb1 x s = (e, s1) \<Longrightarrow> cb2 x t = (f, t1) \<Longrightarrow> e = f \<and> R s1 t1"
    and "R s t" "ForEachTaggedArtifact dec r q cb1 s = (e, s1)" "ForEachTaggedArtifact dec r q cb2 t = (f, t1)"
  shows "e = f \<and> R s1 t1"
proof -
  have d: "e = f \<and> R s1 t1" if "decode_each dec cb1 fs s = (e, s1)" "decode_each dec cb2 fs t = (f, t1)" for fs
    by (rule decode_each_rel [where R = R and ?cb1.0 = cb1 and ?cb2.0 = cb2, OF _ assms(2) that]) (rule assms(1))
  show ?thesis
  proof (cases "intersectFileSets (rd_invertedIndex r) q")
    case (Inl err)
    then show ?thesis using assms(2-4) by (auto simp: ForEachTaggedArtifact_def)
  next
    case (Inr names)
    then show ?thesis using assms(2-4) d by (auto simp: ForEachTaggedArtifact_def Let_def split: if_splits)
  qed
qed

lemma each_server_rel:
  assumes cb: "\<And>ct st err x s t e s1 f t1. (err = None \<and> x \<noteq> None) \<or> (\<exists>e. err = Some e \<and> is_no_matches e \<and> x = None) \<Longrightarrow> R s t \<Longrightarrow> cb1 ct st err x s = (e, s1) \<Longrightarrow> cb2 ct st err x t = (f, t1) \<Longrightarrow> e = f \<and> R s1 t1"
  shows "R s t \<Longrightarrow> each_server dec r tag cb1 pairs (n, s) = (e, m1, s1) \<Longrightarrow> each_server dec r tag cb2 pairs (n, t) = (f, m2, t1) \<Longrightarrow>
    e = f \<and> R s1 t1"
proof (induction pairs arbitrary: n s t)
  case (Cons cs pairs)
  obtain cluster srv where cs: "cs = (cluster, srv)" by (cases cs)
  let ?q = "[TagCluster cluster, TagServer srv, tag]"
  let ?w = "\<lambda>cb artifact (n, s). let (e, s1) = cb (TagCluster cluster) (TagServer srv) None (Some artifact) s in (e :: archive_error option, n + 1 :: int, s1)"
  obtain e2 n2 s2 where one: "ForEachTaggedArtifact dec r ?q (?w cb1) (n, s) = (e2, n2, s2)" by (metis prod_cases3)
  obtain f2 m2 t2 where two: "ForEachTaggedArtifact dec r ?q (?w cb2) (n, t) = (f2, m2, t2)" by (metis prod_cases3)
  have "e2 = f2 \<and> fst (n2, s2) = fst (m2, t2) \<and> R (snd (n2, s2)) (snd (m2, t2))"
  proof (rule ForEach_rel [where R = "\<lambda>u v. fst u = fst v \<and> R (snd u) (snd v)", OF _ _ one two])
    fix x u v e u1 f v1
    assume "fst u = fst v \<and> R (snd u) (snd v)" "?w cb1 x u = (e, u1)" "?w cb2 x v = (f, v1)"
    then show "e = f \<and> fst u1 = fst v1 \<and> R (snd u1) (snd v1)"
      using cb [of None "Some x" "snd u" "snd v" "TagCluster cluster" "TagServer srv"] by (auto simp: Let_def split: prod.splits)
  qed (use Cons.prems(1) in simp)
  then have step: "e2 = f2" "n2 = m2" "R s2 t2" by simp_all
  show ?case
  proof (cases e2)
    case None
    then show ?thesis using Cons.IH [OF step(3)] Cons.prems(2,3) one two step by (simp add: cs Let_def)
  next
    case (Some err)
    show ?thesis
    proof (cases "is_no_matches err")
      case False
      then show ?thesis using Some Cons.prems(2,3) one two step by (auto simp: cs Let_def)
    next
      case True
      obtain e3 s3 f3 t3 where c: "cb1 (TagCluster cluster) (TagServer srv) (Some err) None s2 = (e3, s3)"
        "cb2 (TagCluster cluster) (TagServer srv) (Some err) None t2 = (f3, t3)" by (metis prod.exhaust)
      from cb [OF _ step(3) c] True have "e3 = f3" "R s3 t3" by simp_all
      then show ?thesis using Cons.IH [OF \<open>R s3 t3\<close>] Some True Cons.prems(2,3) one two step c
        by (cases e3) (auto simp: cs Let_def)
    qed
  qed
qed simp

lemma server_data_replays:
  assumes "recorded dec r artifactTag name = (e, xs)"
  obtains n where "EachClusterServerArtifact dec r artifactTag (server_data name f) s = (e, n, replay f xs s)"
proof -
  obtain n0 where rec: "each_server dec r artifactTag (recorder name) (cluster_servers r) (0, []) = (e, n0, xs)"
    using assms by (auto simp: recorded_def EachClusterServerArtifact_def split: prod.splits)
  obtain e1 n1 s1 where run: "each_server dec r artifactTag (server_data name f) (cluster_servers r) (0, s) = (e1, n1, s1)" by (metis prod_cases3)
  have "e = e1 \<and> s1 = replay f xs s"
  proof (rule each_server_rel [where R = "\<lambda>ys t. t = replay f ys s", OF _ _ rec run])
    fix ct st err x ys t e s1 g t1
    assume "t = replay f ys s" "recorder name ct st err x ys = (e, s1)" "server_data name f ct st err x t = (g, t1)"
    then show "e = g \<and> t1 = replay f s1 s"
      by (auto simp: recorder_def server_data_def replay_snoc split: option.splits)
  qed (simp add: replay_def)
  then show thesis using run by (intro that [of n1]) (simp add: EachClusterServerArtifact_def)
qed

subsection \<open>Servers\<close>

definition data_of :: "(Tag \<times> Tag \<times> 'd) list \<Rightarrow> 'd list" where
  "data_of xs = map (\<lambda>(ct, st, d). d) xs"

lemma replay_Nil [simp]: "replay f [] s = s" and replay_Cons [simp]: "replay f ((ct, st, d) # xs) s = replay f xs (f ct st d s)"
  by (simp_all add: replay_def)

lemma data_of_simps [simp]: "data_of [] = []" "data_of ((ct, st, d) # xs) = d # data_of xs"
  by (simp_all add: data_of_def)

lemma replay_count:
  assumes "\<And>ct st d ex. ex_Count (f ct st d ex) = ex_Count ex + (if P d then 1 else 0)"
  shows "ex_Count (replay f xs ex) = ex_Count ex + int (length (filter P (data_of xs)))"
proof (induction xs arbitrary: ex)
  case (Cons x xs)
  then show ?case by (cases x) (simp add: assms)
qed simp

text \<open>A check that adds an example for the data with a property decides whether there is such data.\<close>

definition decided :: "Outcome \<Rightarrow> ('d \<Rightarrow> bool) \<Rightarrow> archive_error option \<times> (Tag \<times> Tag \<times> 'd) list \<Rightarrow> Outcome \<times> archive_error option" where
  "decided bad P res =
     (case res of (Some err, _) \<Rightarrow> (Skipped, Some err) | (None, xs) \<Rightarrow> (if list_ex P (data_of xs) then bad else Pass, None))"

lemma counted_verdict:
  assumes "\<And>ct st d ex. ex_Count (f ct st d ex) = ex_Count ex + (if P d then 1 else 0)"
  shows "fst (after_servers (by_count bad) (EachClusterServerArtifact dec r artifactTag (server_data name f) (newExamplesCollection limit))) =
    decided bad P (recorded dec r artifactTag name)"
proof -
  obtain e xs where rec: "recorded dec r artifactTag name = (e, xs)" by (cases "recorded dec r artifactTag name")
  obtain n where n: "EachClusterServerArtifact dec r artifactTag (server_data name f) (newExamplesCollection limit) =
    (e, n, replay f xs (newExamplesCollection limit))"
    by (rule server_data_replays [where name = name and f = f, OF rec])
  have "ex_Count (replay f xs (newExamplesCollection limit)) = int (length (filter P (data_of xs)))"
    using replay_count [of f P xs "newExamplesCollection limit", OF assms] by simp
  moreover have "filter P (data_of xs) \<noteq> [] \<longleftrightarrow> list_ex P (data_of xs)" by (auto simp: filter_empty_conv list_ex_iff)
  ultimately show ?thesis unfolding n rec by (cases e) (auto simp: after_servers_def by_count_def decided_def)
qed

definition unhealthy :: "HealthStatus \<Rightarrow> bool" where
  "unhealthy h \<longleftrightarrow> hs_Status h \<noteq> ''ok'' \<and> hs_Status h \<noteq> []"

definition cpu_over :: "gofloat \<Rightarrow> ServerVarz \<Rightarrow> bool" where
  "cpu_over limit v \<longleftrightarrow> sv_Cores v \<noteq> 0 \<and> gf_less limit (Fin (float64 (sv_CPU v / to_float (sv_Cores v))))"


lemma version_replay:
  "set (fst (replay (\<lambda>_ serverTag vz (seen, ex). if g vz \<in> set seen then (seen, ex) else (seen @ [g vz], h serverTag vz ex)) xs (seen, ex))) =
     set seen \<union> g ` set (data_of xs)" and
  version_distinct: "distinct seen \<Longrightarrow>
     distinct (fst (replay (\<lambda>_ serverTag vz (seen, ex). if g vz \<in> set seen then (seen, ex) else (seen @ [g vz], h serverTag vz ex)) xs (seen, ex)))"
proof (induction xs arbitrary: seen ex)
  case (Cons x xs)
  { case 1 then show ?case using Cons.IH(1) by (cases x) auto
  next case 2 then show ?case using Cons.IH(2) by (cases x) auto }
qed auto

lemma several_versions:
  assumes "distinct xs"
  shows "length xs > 1 \<longleftrightarrow> (\<exists>a \<in> set xs. \<exists>b \<in> set xs. a \<noteq> b)"
proof (cases xs)
  case (Cons x ys)
  then show ?thesis using assms by (cases ys) auto
qed simp

text \<open>The verdict on the versions of servers, by the versions they run.\<close>

definition version_verdict :: "archive_error option \<times> (Tag \<times> Tag \<times> ServerVarz) list \<Rightarrow> Outcome \<times> archive_error option" where
  "version_verdict res =
     (case res of
        (Some err, _) \<Rightarrow> (Skipped, Some err)
      | (None, xs) \<Rightarrow>
          (if xs = [] then Skipped
           else if \<exists>a \<in> set (data_of xs). \<exists>b \<in> set (data_of xs). sv_Version a \<noteq> sv_Version b then Fail else Pass, None))"

lemma version_check_decides:
  "fst (checkServerVersion dec cfg r examples) = version_verdict (recorded dec r TagServerVars ''VARZ'')"
proof -
  let ?h = "\<lambda>serverTag (vz :: ServerVarz) ex. ex_Add ''%s - %s'' (tag_args [serverTag] @ [AStr (sv_Version vz)]) ex"
  let ?f = "\<lambda>(_ :: Tag) serverTag vz (seen, ex). if sv_Version vz \<in> set seen then (seen, ex) else (seen @ [sv_Version vz], ?h serverTag vz ex)"
  obtain e xs where rec: "recorded dec r TagServerVars ''VARZ'' = (e, xs)" by (cases "recorded dec r TagServerVars ''VARZ''")
  obtain n where n: "EachClusterServerArtifact dec r TagServerVars (server_data ''VARZ'' ?f) ([], examples) = (e, n, replay ?f xs ([], examples))"
    by (rule server_data_replays [where name = "''VARZ''" and f = ?f, OF rec])
  obtain seen ex where s: "replay ?f xs ([], examples) = (seen, ex)" by (cases "replay ?f xs ([], examples)")
  have seen: "set seen = sv_Version ` set (data_of xs)" "distinct seen"
    using version_replay [of sv_Version ?h xs "[]" examples] version_distinct [of "[]" sv_Version ?h xs examples] s by simp_all
  have "set seen = {} \<longleftrightarrow> data_of xs = []" unfolding seen(1) by simp
  then have "seen = [] \<longleftrightarrow> xs = []" by (simp add: data_of_def)
  moreover have more: "length seen > 1 \<longleftrightarrow> (\<exists>a \<in> set (data_of xs). \<exists>b \<in> set (data_of xs). sv_Version a \<noteq> sv_Version b)"
    unfolding several_versions [OF seen(2)] seen(1) by blast
  ultimately have verdict: "version_verdict (e, xs) =
    (case e of Some err \<Rightarrow> (Skipped, Some err) | None \<Rightarrow> (if seen = [] then Skipped else if length seen > 1 then Fail else Pass, None))"
    unfolding version_verdict_def more by (simp split: option.split)
  show ?thesis
    unfolding checkServerVersion_def EachClusterServerVarz_def n s rec verdict by (simp split: option.split)
qed

text \<open>The certificates of the servers with the clock of their server.\<close>

definition certificates :: "ServerVarz list \<Rightarrow> (gotime \<times> gotime) list" where
  "certificates vs = concat (map (\<lambda>v. map (\<lambda>(_, t). (t, sv_Now v)) (filter (\<lambda>(_, t). \<not> IsZeroTime t) (tls_components v))) vs)"

definition cert_within :: "duration \<Rightarrow> gotime \<times> gotime \<Rightarrow> bool" where
  "cert_within threshold ce \<longleftrightarrow> time_Sub (fst ce) (snd ce) \<le> 0 \<or> (threshold > 0 \<and> time_Sub (fst ce) (snd ce) \<le> threshold)"

definition tls_verdict :: "duration \<Rightarrow> duration \<Rightarrow> archive_error option \<times> (Tag \<times> Tag \<times> ServerVarz) list \<Rightarrow> Outcome \<times> archive_error option" where
  "tls_verdict crit warn res =
     (case res of
        (Some err, _) \<Rightarrow> (Skipped, Some err)
      | (None, xs) \<Rightarrow>
          (let cs = certificates (data_of xs)
           in if cs = [] then Skipped else if list_ex (cert_within crit) cs then Fail
              else if list_ex (cert_within warn) cs then PassWithIssues else Pass, None))"

definition tls_counts :: "duration \<Rightarrow> duration \<Rightarrow> (gotime \<times> gotime) list \<Rightarrow> tls_state \<Rightarrow> tls_state \<Rightarrow> bool" where
  "tls_counts crit warn cs s s1 \<longleftrightarrow>
     tl_checked s1 = tl_checked s + int (length cs) \<and>
     tl_critical s1 = tl_critical s + int (length (filter (cert_within crit) cs)) \<and>
     tl_warning s1 = tl_warning s + int (length (filter (\<lambda>c. \<not> cert_within crit c \<and> cert_within warn c) cs))"

lemma tls_counts_refl: "tls_counts crit warn [] s s"
  by (simp add: tls_counts_def)

lemma tls_counts_trans: "tls_counts crit warn cs s s1 \<Longrightarrow> tls_counts crit warn ds s1 s2 \<Longrightarrow> tls_counts crit warn (cs @ ds) s s2"
  by (simp add: tls_counts_def)

lemma checkExpiry_counts:
  "tls_counts crit warn (map (\<lambda>(_, t). (t, now)) (filter (\<lambda>(_, t). \<not> IsZeroTime t) [ce])) s (checkExpiry crit warn ct st now ce s)"
proof (cases ce)
  case (Pair c t)
  then show ?thesis
    by (cases "IsZeroTime t"; cases "time_Sub t now \<le> 0"; cases "crit > 0 \<and> time_Sub t now \<le> crit"; cases "warn > 0 \<and> time_Sub t now \<le> warn")
      (auto simp: tls_counts_def checkExpiry_def cert_within_def Let_def)
qed

lemma fold_checkExpiry:
  "tls_counts crit warn (map (\<lambda>(_, t). (t, now)) (filter (\<lambda>(_, t). \<not> IsZeroTime t) ces)) s (fold (checkExpiry crit warn ct st now) ces s)"
proof (induction ces arbitrary: s)
  case (Cons ce ces)
  have "map (\<lambda>(_, t). (t, now)) (filter (\<lambda>(_, t). \<not> IsZeroTime t) (ce # ces)) =
    map (\<lambda>(_, t). (t, now)) (filter (\<lambda>(_, t). \<not> IsZeroTime t) [ce]) @ map (\<lambda>(_, t). (t, now)) (filter (\<lambda>(_, t). \<not> IsZeroTime t) ces)" by simp
  then show ?case using tls_counts_trans [OF checkExpiry_counts Cons.IH] by simp
qed (simp add: tls_counts_refl)

lemma replay_tls:
  "tls_counts crit warn (certificates (data_of xs)) s
     (replay (\<lambda>ct st vz s. fold (checkExpiry crit warn ct st (sv_Now vz)) (tls_components vz) s) xs s)"
proof (induction xs arbitrary: s)
  case (Cons x xs)
  obtain ct st vz where x: "x = (ct, st, vz)" by (cases x)
  have "certificates (data_of (x # xs)) =
    map (\<lambda>(_, t). (t, sv_Now vz)) (filter (\<lambda>(_, t). \<not> IsZeroTime t) (tls_components vz)) @ certificates (data_of xs)"
    by (simp add: certificates_def x)
  then show ?case using tls_counts_trans [OF fold_checkExpiry Cons.IH] by (simp add: x)
qed (simp add: certificates_def tls_counts_refl)

lemma certificates_verdict:
  "fst (checkTLSCertificateExpiry cv dec cfg r (newExamplesCollection limit)) =
     tls_verdict (days_threshold cv (config_Value (cfg ''tls_expire_critical''))) (days_threshold cv (config_Value (cfg ''tls_expire_warning'')))
       (recorded dec r TagServerVars ''VARZ'')"
proof -
  let ?warn = "days_threshold cv (config_Value (cfg ''tls_expire_warning''))" and ?crit = "days_threshold cv (config_Value (cfg ''tls_expire_critical''))"
  let ?f = "\<lambda>ct st vz s. fold (checkExpiry ?crit ?warn ct st (sv_Now vz)) (tls_components vz) s"
  let ?s = "\<lparr> tl_warning = 0, tl_critical = 0, tl_checked = 0, tl_examples = newExamplesCollection limit \<rparr>"
  obtain e xs where rec: "recorded dec r TagServerVars ''VARZ'' = (e, xs)" by (cases "recorded dec r TagServerVars ''VARZ''")
  obtain n where n: "EachClusterServerArtifact dec r TagServerVars (server_data ''VARZ'' ?f) ?s = (e, n, replay ?f xs ?s)"
    by (rule server_data_replays [where name = "''VARZ''" and f = ?f, OF rec])
  have counts: "tls_counts ?crit ?warn (certificates (data_of xs)) ?s (replay ?f xs ?s)" by (rule replay_tls)
  let ?cs = "certificates (data_of xs)"
  have ex: "0 < length (filter P zs) \<longleftrightarrow> list_ex P zs" for P and zs :: "(gotime \<times> gotime) list" by (auto simp: filter_empty_conv list_ex_iff)
  have v: "tl_checked (replay ?f xs ?s) = 0 \<longleftrightarrow> ?cs = []" "tl_critical (replay ?f xs ?s) > 0 \<longleftrightarrow> list_ex (cert_within ?crit) ?cs"
    "tl_warning (replay ?f xs ?s) > 0 \<longleftrightarrow> list_ex (\<lambda>c. \<not> cert_within ?crit c \<and> cert_within ?warn c) ?cs"
    using counts unfolding tls_counts_def ex [symmetric] by simp_all
  have "list_ex (\<lambda>c. \<not> cert_within ?crit c \<and> cert_within ?warn c) ?cs \<longleftrightarrow> list_ex (cert_within ?warn) ?cs" if "\<not> list_ex (cert_within ?crit) ?cs"
    using that by (auto simp: list_ex_iff)
  then show ?thesis
    unfolding checkTLSCertificateExpiry_def EachClusterServerVarz_def Let_def n rec tls_verdict_def using v by (cases e) auto
qed

text \<open>
  The certificates of a server, of its six listeners and links, and whether one of them expires within a
  number of whole days by the clock of the server.
\<close>

definition cert_dates :: "ServerVarz \<Rightarrow> gotime list" where
  "cert_dates v = filter (\<lambda>t. t \<noteq> zeroTime)
     [sv_TLSCertNotAfter v, sv_ClusterTLS v, sv_GatewayTLS v, sv_LeafNodeTLS v, sv_MQTTTLS v, sv_WebsocketTLS v]"

definition expires_within :: "nat \<Rightarrow> ServerVarz \<Rightarrow> bool" where
  "expires_within days v \<longleftrightarrow> (\<exists>t \<in> set (cert_dates v). t - sv_Now v \<le> int days * (24 * 60 * 60 * 10 ^ 9))"

lemma certificates_dates: "certificates vs = concat (map (\<lambda>v. map (\<lambda>t. (t, sv_Now v)) (cert_dates v)) vs)"
proof -
  have "map (\<lambda>(_, t). (t, sv_Now v)) (filter (\<lambda>(_, t). \<not> IsZeroTime t) (tls_components v)) = map (\<lambda>t. (t, sv_Now v)) (cert_dates v)" for v
    by (simp add: cert_dates_def tls_components_def IsZeroTime_def)
  then show ?thesis by (simp only: certificates_def)
qed

lemma whole_days:
  assumes "d \<le> 106751"
  shows "days_threshold cv (Fin (of_nat d)) = int d * (24 * 60 * 60 * 10 ^ 9)" "int d * (24 * 60 * 60 * 10 ^ 9) < maxDuration"
proof -
  have e: "float64 (of_int (24 * Hour) * of_nat d) = of_int (int d * (24 * 60 * 60 * 10 ^ 9))"
    using assms float64_exact [of "of_int (24 * Hour) * of_nat d" "int d * 1318359375" 16] by (simp add: Hour_def)
  show small: "int d * (24 * 60 * 60 * 10 ^ 9) < maxDuration" using assms by (simp add: maxDuration_def)
  have "\<not> too_large (of_int (24 * Hour) * of_nat d)"
  proof (cases "d = 0")
    case False
    have "(of_int (int d * (24 * 60 * 60 * 10 ^ 9)) :: rat) < of_int (2 ^ 63)"
      using small unfolding maxDuration_def by (simp only: of_int_less_iff)
    then have "binexp (of_int (int d * (24 * 60 * 60 * 10 ^ 9))) < 1024"
      using False by (intro binexp_small) simp_all
    then show ?thesis unfolding too_large_def e by simp
  qed (simp add: too_large_def)
  then show "days_threshold cv (Fin (of_nat d)) = int d * (24 * 60 * 60 * 10 ^ 9)"
    using small unfolding days_threshold_def gf_times.simps gf_round_def e
    by (simp add: to_int64_def maxDuration_def Let_def del: of_int_mult)
qed

lemma within_days:
  assumes "d \<le> 106751"
  shows "list_ex (cert_within (days_threshold cv (Fin (of_nat d)))) (certificates vs) \<longleftrightarrow> (\<exists>v \<in> set vs. expires_within d v)"
proof -
  let ?T = "int d * (24 * 60 * 60 * 10 ^ 9)"
  have "cert_within ?T (t, now) \<longleftrightarrow> t - now \<le> ?T" for t now
    using whole_days(2) [OF assms] by (auto simp: cert_within_def time_Sub_def maxDuration_def)
  then show ?thesis unfolding whole_days(1) [OF assms] certificates_dates
    by (auto simp: list_ex_iff expires_within_def)
qed

text \<open>
  C39. With thresholds of whole days (their unit; up to 106751, the longest duration), the certificate check
  skips an archive in which no server has a certificate of its own, its cluster, gateway, leaf node, MQTT or
  websocket listener; it fails when a certificate expires within the critical days by the clock of its
  server (or has expired), else warns when one expires within the warning days, and passes otherwise. When
  the answers of the servers cannot be read it is skipped with the error.
\<close>

theorem certificate_check_decides:
  assumes "config_Value (cfg ''tls_expire_critical'') = Fin (of_nat crit)" "crit \<le> 106751"
    and "config_Value (cfg ''tls_expire_warning'') = Fin (of_nat warn)" "warn \<le> 106751"
  shows "fst (checkTLSCertificateExpiry cv dec cfg r (newExamplesCollection limit)) =
    (case recorded dec r TagServerVars ''VARZ'' of
       (Some e, _) \<Rightarrow> (Skipped, Some e)
     | (None, xs) \<Rightarrow>
         (if \<forall>v \<in> set (data_of xs). cert_dates v = [] then Skipped
          else if \<exists>v \<in> set (data_of xs). expires_within crit v then Fail
          else if \<exists>v \<in> set (data_of xs). expires_within warn v then PassWithIssues
          else Pass, None))"
proof -
  have none: "certificates vs = [] \<longleftrightarrow> (\<forall>v \<in> set vs. cert_dates v = [])" for vs by (simp add: certificates_dates)
  obtain e xs where "recorded dec r TagServerVars ''VARZ'' = (e, xs)" by (cases "recorded dec r TagServerVars ''VARZ''")
  then show ?thesis
    unfolding certificates_verdict assms(1,3) tls_verdict_def Let_def within_days [OF assms(2)] within_days [OF assms(4)] none
    by (simp split: option.split)
qed

text \<open>A server whose cluster certificate expires in five days, and the default thresholds.\<close>

definition expiring :: ServerVarz where
  "expiring = \<lparr> sv_Version = [], sv_Cores = 0, sv_CPU = 0, sv_Mem = 0, sv_SlowConsumers = 0, sv_AuthRequired = True, sv_Now = 0,
     sv_TLSCertNotAfter = zeroTime, sv_ClusterTLS = 432000000000000, sv_GatewayTLS = zeroTime, sv_LeafNodeTLS = zeroTime,
     sv_MQTTTLS = zeroTime, sv_WebsocketTLS = zeroTime \<rparr>"

definition expiring_reader :: "ServerVarz Reader" where
  "expiring_reader =
     (let name = ''capture/clusters/c/a/variables/0001.json''
      in \<lparr> rd_files = [(name, \<lparr> zf_Name = name, zf_Modified = 0, zf_Body = Some expiring \<rparr>)], rd_accountTags = [], rd_clusterTags = [],
           rd_serverTags = [], rd_streamTags = [], rd_accountNames = [], rd_clusterNames = [''c''], rd_clustersServerNames = [(''c'', [''a''])],
           rd_accountStreamNames = [], rd_streamServerNames = [], rd_ts = 0,
           rd_invertedIndex = [(TagCluster ''c'', [name]), (TagServer ''a'', [name]), (TagServerVars, [name])], rd_Warnings = [] \<rparr>)"

definition expiry_config :: "string \<Rightarrow> CheckConfiguration option" where
  "expiry_config k = Some \<lparr> cf_Key = k, cf_Check = ''SERVER_007'', cf_Description = [],
     cf_Default = (if k = ''tls_expire_critical'' then Fin 7 else Fin 30), cf_Unit = UIntUnit, cf_SetValue = None \<rparr>"

theorem certificate_check_decides_witness:
  "fst (checkTLSCertificateExpiry (\<lambda>_. 0) (\<lambda>v. Some (Some v)) expiry_config expiring_reader (newExamplesCollection 5)) = (Fail, None)"
proof -
  have "recorded (\<lambda>v. Some (Some v)) expiring_reader TagServerVars ''VARZ'' = (None, [(TagCluster ''c'', TagServer ''a'', expiring)])"
    by code_simp
  moreover have "cert_dates expiring \<noteq> []" "expires_within 7 expiring"
    by (simp_all add: expires_within_def cert_dates_def expiring_def zeroTime_def)
  ultimately show ?thesis
    using certificate_check_decides [where cfg = expiry_config and crit = 7 and warn = 30 and cv = "\<lambda>_. 0" and dec = "\<lambda>v. Some (Some v)"
        and r = expiring_reader and limit = 5]
    by (simp add: expiry_config_def config_Value_def)
qed

subsection \<open>From the writes to the verdict\<close>

text \<open>The servers the reader lists by cluster.\<close>

definition clusters_of :: "(string, Tag list) gomap \<Rightarrow> (string, string list) gomap" where
  "clusters_of m = fold (\<lambda>(_, tags). note_cluster tags) m []"

definition listed :: "(string, string list) gomap \<Rightarrow> string \<Rightarrow> string \<Rightarrow> bool" where
  "listed m c s \<longleftrightarrow> (\<exists>L. map_of m c = Some L \<and> s \<in> set L)"

definition named :: "Tag list list \<Rightarrow> string \<Rightarrow> string \<Rightarrow> bool" where
  "named ts c s \<longleftrightarrow> (\<exists>tags \<in> set ts. noted clusterTagLabel tags = c \<and> noted serverTagLabel tags = s \<and> c \<noteq> [] \<and> s \<noteq> [])"

lemma named_snoc:
  "named (ts @ [tags]) c s \<longleftrightarrow> named ts c s \<or> (noted clusterTagLabel tags = c \<and> noted serverTagLabel tags = s \<and> c \<noteq> [] \<and> s \<noteq> [])"
  unfolding named_def by auto

lemma listed_known: "listed (known_key k [] m) c s \<longleftrightarrow> listed m c s"
  by (auto simp: listed_def known_key_def update_conv')

lemma known_there: "\<exists>L. map_of (known_key k [] m) k = Some L"
  by (cases "map_of m k") (auto simp: known_key_def update_conv')

lemma listed_in_key: "map_of m k = Some L \<Longrightarrow> listed (in_key k (List.insert x) m) c s \<longleftrightarrow> listed m c s \<or> (c = k \<and> s = x)"
  by (auto simp: listed_def in_key_def update_conv')

lemma listed_step: "listed (note_cluster tags m) c s \<longleftrightarrow>
    listed m c s \<or> (noted clusterTagLabel tags = c \<and> noted serverTagLabel tags = s \<and> c \<noteq> [] \<and> s \<noteq> [])"
proof -
  let ?c = "noted clusterTagLabel tags" and ?s = "noted serverTagLabel tags"
  obtain L where L: "map_of (known_key ?c [] m) ?c = Some L" using known_there [of ?c m] by blast
  show ?thesis
    by (cases "?c = []"; cases "?s = []") (auto simp: note_cluster_def Let_def listed_known listed_in_key [OF L])
qed

lemma clusters_of_ok: "listed (clusters_of m) c s \<longleftrightarrow> named (map snd m) c s"
proof (induction m rule: rev_induct)
  case (snoc x m)
  have "clusters_of (m @ [x]) = note_cluster (snd x) (clusters_of m)" by (simp add: clusters_of_def case_prod_beta)
  then show ?case using snoc listed_step [of "snd x" "clusters_of m" c s] by (simp add: named_snoc)
qed (simp add: clusters_of_def listed_def named_def)

lemma map_of_map_sorted: "map_of (map (\<lambda>(k, vs). (k, sort vs)) m) c = map_option sort (map_of m c)"
  by (induction m) auto

lemma cluster_servers_iff:
  assumes "rd_clusterNames r = fst (shrinkMapOfSets (clusters_of m))" "rd_clustersServerNames r = snd (shrinkMapOfSets (clusters_of m))"
  shows "(c, s) \<in> set (cluster_servers r) \<longleftrightarrow> named (map snd m) c s"
proof -
  have at: "ClusterServerNames r k = (case map_of (clusters_of m) k of None \<Rightarrow> [] | Some L \<Rightarrow> sort L)" for k
    by (simp add: ClusterServerNames_def names_at_def assms(2) shrinkMapOfSets_def map_of_map_sorted split: option.split)
  have "set (ClusterNames r) = fst ` set (clusters_of m)" by (simp add: ClusterNames_def assms(1) shrinkMapOfSets_def)
  then have "(c, s) \<in> set (cluster_servers r) \<longleftrightarrow> c \<in> fst ` set (clusters_of m) \<and> s \<in> set (ClusterServerNames r c)"
    unfolding cluster_servers_def by auto
  also have "\<dots> \<longleftrightarrow> listed (clusters_of m) c s"
  proof (cases "map_of (clusters_of m) c")
    case None
    then show ?thesis by (simp add: at listed_def)
  next
    case (Some L)
    then have "c \<in> fst ` set (clusters_of m)" by (force dest: map_of_SomeD)
    then show ?thesis using Some by (simp add: at listed_def)
  qed
  finally show ?thesis by (simp only: clusters_of_ok)
qed

lemma NewReader_clusters:
  assumes "NewReader dec (Some (es @ [zip_entry manifestFile t bytes])) = Inr r" "dec bytes = Some m"
  shows "rd_clusterNames r = fst (shrinkMapOfSets (clusters_of m)) \<and> rd_clustersServerNames r = snd (shrinkMapOfSets (clusters_of m))"
proof -
  have "map_of (files_by_name (es @ [zip_entry manifestFile t bytes])) manifestFile = Some (zip_entry manifestFile t bytes)"
    by (simp add: files_by_name_snoc)
  then show ?thesis using assms by (auto simp: NewReader_def manifest_name Let_def clusters_of_def split: option.splits)
qed

text \<open>The cluster and the server of a page.\<close>

lemma noted_tag: "distinct (map t_Name tags) \<Longrightarrow> t \<in> set tags \<Longrightarrow> noted (t_Name t) tags = t_Value t"
proof (induction tags rule: rev_induct)
  case (snoc x tags)
  have "noted l (tags @ [x]) = (if t_Name x = l then t_Value x else noted l tags)" for l by (simp add: noted_def)
  then show ?case using snoc by (auto simp: image_iff)
qed simp

lemma page_tags:
  assumes "dirNameFromTags tags = Inr d" "\<not> isNonPagedArtifact tags"
  obtains c s where "TagCluster c \<in> set tags" "TagServer s \<in> set tags" "noted clusterTagLabel tags = c" "noted serverTagLabel tags = s" "c \<noteq> []" "s \<noteq> []"
proof -
  obtain mid stem where el: "filename_elems ''json'' tags = Inr (rootDirectory # mid @ [stem @ ''.json''])"
    using dirName_shape [OF assms(1)] by metis
  have "\<not> (length tags = 1 \<and> t_Name (hd tags) = specialTagLabel)"
    using assms(2) by (cases tags) (auto simp: isNonPagedArtifact_def)
  from filename_dims [OF el this] obtain dims where dims: "save_tags tags [] [] = Inr (dims, [])" "missing_required dims = []"
    "validate_dims dims dimensionTagsNames = None" by metis
  have dist: "distinct (map t_Name tags)" using save_tags_ok [OF dims(1)] by simp
  have have_tag: "\<exists>t \<in> set tags. t_Name t = l \<and> t_Value t \<noteq> []" if "l \<in> {clusterTagLabel, serverTagLabel}" for l
  proof -
    have "map_of dims l \<noteq> None" using dims(2) that by (auto simp: missing_required_def split: if_splits)
    then obtain t where t: "map_of dims l = Some t" by blast
    have "l \<in> set dimensionTagsNames" using that by (auto simp: dimensionTagsNames_def)
    then have "t_Value t \<noteq> []" using validate_dims_None [OF dims(3) _ t] near_plain_parts by blast
    then show ?thesis using t dims_are_tags(1) [OF dims(1), of l t] by blast
  qed
  obtain tc ts where tc: "tc \<in> set tags" "t_Name tc = clusterTagLabel" "t_Value tc \<noteq> []"
    and ts: "ts \<in> set tags" "t_Name ts = serverTagLabel" "t_Value ts \<noteq> []" using have_tag by blast
  have "tc = TagCluster (t_Value tc)" "ts = TagServer (t_Value ts)" using tc(2) ts(2) by (simp_all add: TagCluster_def TagServer_def)
  then show thesis using tc ts noted_tag [OF dist tc(1)] noted_tag [OF dist ts(1)]
    by (intro that [of "t_Value tc" "t_Value ts"]) simp_all
qed

text \<open>What a query on a server hands the recorder, when every answer can be read.\<close>

definition page_data :: "('c \<Rightarrow> 'd response option) \<Rightarrow> 'c page \<Rightarrow> 'd list" where
  "page_data jdec p = (case jdec (pg_content p) of Some (Some d) \<Rightarrow> [d] | _ \<Rightarrow> [])"

abbreviation counted where
  "counted cb ct st \<equiv> (\<lambda>artifact (n, s). let (e, s1) = cb ct st None (Some artifact) s in (e, n + 1 :: int, s1))"

lemma read_pages_recorded:
  assumes "\<forall>p \<in> set ps. jdec (pg_content p) \<noteq> None"
  shows "\<exists>n1. read_pages jdec (counted (recorder name) ct st) ps (n, xs) = (None, n1, xs @ map (\<lambda>d. (ct, st, d)) (concat (map (page_data jdec) ps)))"
  using assms
proof (induction ps arbitrary: n xs)
  case (Cons p ps)
  obtain x where x: "jdec (pg_content p) = Some x" using Cons.prems by auto
  have rest: "\<forall>p \<in> set ps. jdec (pg_content p) \<noteq> None" using Cons.prems by simp
  have step: "counted (recorder name) ct st x (n, xs) = (None, n + 1, xs @ map (\<lambda>d. (ct, st, d)) (page_data jdec p))"
    using x by (auto simp: recorder_def server_data_def handleArchiveError_def page_data_def split: option.split)
  show ?case using Cons.IH [OF rest, of "n + 1" "xs @ map (\<lambda>d. (ct, st, d)) (page_data jdec p)"] x step by simp
qed simp

lemma each_server_recorded:
  fixes jdec :: "'c \<Rightarrow> 'd response option"
  assumes deliver: "\<And>c s cb st. ForEachTaggedArtifact jdec r [TagCluster c, TagServer s, tag] cb (st :: int \<times> (Tag \<times> Tag \<times> 'd) list) =
      deliver jdec cb (found [TagCluster c, TagServer s, tag] ps) st"
    and readable: "\<forall>p \<in> set ps. tag \<in> set (pg_tags p) \<longrightarrow> jdec (pg_content p) \<noteq> None"
  shows "\<exists>n1 ys. each_server jdec r tag (recorder name) pairs (n, xs) = (None, n1, xs @ ys) \<and>
    set (data_of ys) = (\<Union>(c, s) \<in> set pairs. \<Union>p \<in> set (found [TagCluster c, TagServer s, tag] ps). set (page_data jdec p))"
proof (induction pairs arbitrary: n xs)
  case (Cons cs pairs)
  obtain c s where cs: "cs = (c, s)" by (cases cs)
  let ?fs = "found [TagCluster c, TagServer s, tag] ps"
  let ?new = "map (\<lambda>d. (TagCluster c, TagServer s, d)) (concat (map (page_data jdec) ?fs))"
  have new: "set (data_of ?new) = (\<Union>p \<in> set ?fs. set (page_data jdec p))" by (auto simp: data_of_def)
  have app: "data_of (us @ vs) = data_of us @ data_of vs" for us vs :: "(Tag \<times> Tag \<times> 'd) list" by (simp add: data_of_def)
  have query: "ForEachTaggedArtifact jdec r [TagCluster c, TagServer s, tag] (counted (recorder name) (TagCluster c) (TagServer s)) (n, xs) =
      deliver jdec (counted (recorder name) (TagCluster c) (TagServer s)) ?fs (n, xs)" by (rule deliver)
  have "\<exists>n1. each_server jdec r tag (recorder name) (cs # pairs) (n, xs) = each_server jdec r tag (recorder name) pairs (n1, xs @ ?new)"
  proof (cases "?fs = []")
    case True
    have "recorder name (TagCluster c) (TagServer s) (Some NoMatches) None xs = (None, xs)"
      by (simp add: recorder_def server_data_def handleArchiveError_def)
    then show ?thesis
      unfolding cs each_server.simps Let_def query [unfolded Let_def] by (intro exI [of _ n]) (simp add: deliver_def True)
  next
    case False
    have "\<forall>p \<in> set ?fs. jdec (pg_content p) \<noteq> None" using readable by (auto simp: found_def)
    from read_pages_recorded [OF this, of name "TagCluster c" "TagServer s" n xs] obtain n1 where
      "deliver jdec (counted (recorder name) (TagCluster c) (TagServer s)) ?fs (n, xs) = (None, n1, xs @ ?new)"
      using False by (auto simp: deliver_def)
    then show ?thesis
      unfolding cs each_server.simps Let_def query [unfolded Let_def] by (intro exI [of _ n1]) simp
  qed
  then obtain n1 where one: "each_server jdec r tag (recorder name) (cs # pairs) (n, xs) = each_server jdec r tag (recorder name) pairs (n1, xs @ ?new)" ..
  from Cons.IH [of n1 "xs @ ?new"] obtain n2 ys where
    two: "each_server jdec r tag (recorder name) pairs (n1, xs @ ?new) = (None, n2, (xs @ ?new) @ ys)"
    "set (data_of ys) = (\<Union>(c, s) \<in> set pairs. \<Union>p \<in> set (found [TagCluster c, TagServer s, tag] ps). set (page_data jdec p))" by blast
  have "set (data_of (?new @ ys)) = (\<Union>(c, s) \<in> set (cs # pairs). \<Union>p \<in> set (found [TagCluster c, TagServer s, tag] ps). set (page_data jdec p))"
    using two(2) by (simp add: app new cs)
  moreover have "each_server jdec r tag (recorder name) (cs # pairs) (n, xs) = (None, n2, xs @ (?new @ ys))" using one two(1) by simp
  ultimately show ?case by blast
qed simp

text \<open>The answers of a kind that were written: the data of the accepted calls with its tag.\<close>

definition written_data :: "('c \<Rightarrow> 'd response option) \<Rightarrow> Tag \<Rightarrow> 'c add_call list \<Rightarrow> 'd set" where
  "written_data jdec tag cs = {d. \<exists>c \<in> set cs. accepted c \<and> tag \<in> set (ac_tags c) \<and> jdec (ac_content c) = Some (Some d)}"

lemma recorded_written:
  fixes jdec :: "'c \<Rightarrow> 'b response option"
  assumes json: "\<forall>c \<in> set cs. isNonPagedArtifact (ac_tags c) \<or> ac_extension c = ''json''"
    and new: "new_writer w0"
    and enc: "enc (w_manifestMap (run_adds cs w0)) = Some bytes"
    and dec: "dec bytes = Some m" "distinct (map fst m)" "map_of m = map_of (w_manifestMap (run_adds cs w0))"
    and ty: "tag = TagArtifactType ty" "ty \<noteq> profileArtifactType"
    and few: "\<forall>d. pages_in d (written cs) < 10000"
    and readable: "\<forall>c \<in> set cs. accepted c \<and> tag \<in> set (ac_tags c) \<longrightarrow> jdec (ac_content c) \<noteq> None"
  obtains w r xs where "Close_writer enc NoFault False False now (run_adds cs w0) = (None, w)" "NewReader dec (Some (w_entries w)) = Inr r"
    "recorded jdec r tag name = (None, xs)" "set (data_of xs) = written_data jdec tag cs"
proof -
  let ?ps = "written cs"
  have ok: "archive_ok ?ps (run_adds cs w0)" by (rule archive_ok_run_from [OF json new])
  obtain w t where w: "Close_writer enc NoFault False False now (run_adds cs w0) = (None, w)"
    "w_entries w = w_entries (run_adds cs w0) @ [zip_entry manifestFile t bytes]"
    by (rule Close_ok [where enc = enc and now = now, OF ok enc])
  obtain r where r: "NewReader dec (Some (w_entries w)) = Inr r" "rd_files r = files_by_name (w_entries w)" "rd_invertedIndex r = invert_index m"
    unfolding w(2) by (rule NewReader_ok [where dec = dec and t = t, OF ok dec(1,3,2)])
  have call: "\<exists>c \<in> set cs. accepted c \<and> ac_tags c = pg_tags p \<and> ac_content c = pg_content p" if "p \<in> set ?ps" for p
  proof -
    have "(pg_tags p, pg_content p) \<in> set (map (\<lambda>c. (ac_tags c, ac_content c)) (filter accepted cs))"
      using that unfolding written_calls [symmetric] by force
    then show ?thesis by auto
  qed
  have page: "\<exists>p \<in> set ?ps. pg_tags p = ac_tags c \<and> pg_content p = ac_content c" if "c \<in> set cs" "accepted c" for c
  proof -
    have "(ac_tags c, ac_content c) \<in> set (map (\<lambda>p. (pg_tags p, pg_content p)) ?ps)" using that unfolding written_calls by force
    then show ?thesis by auto
  qed
  have deliver: "ForEachTaggedArtifact jdec r [TagCluster c, TagServer s, tag] cb st = deliver jdec cb (found [TagCluster c, TagServer s, tag] ?ps) st"
    for c s cb and st :: "int \<times> (Tag \<times> Tag \<times> 'b) list"
    by (rule query_delivers [OF ok dec(3,2) r(2) [unfolded w(2)] r(3)]) (use ty in simp_all)
  have "\<forall>p \<in> set ?ps. tag \<in> set (pg_tags p) \<longrightarrow> jdec (pg_content p) \<noteq> None" using call readable by force
  from each_server_recorded [of jdec r tag ?ps, OF deliver this, of name "cluster_servers r" 0 "[]"] obtain n1 xs
    where xs: "each_server jdec r tag (recorder name) (cluster_servers r) (0, []) = (None, n1, xs)"
      "set (data_of xs) = (\<Union>(c, s) \<in> set (cluster_servers r). \<Union>p \<in> set (found [TagCluster c, TagServer s, tag] ?ps). set (page_data jdec p))" by auto
  have pok: "dirNameFromTags (pg_tags p) = Inr (pg_dir p) \<and> \<not> isNonPagedArtifact (pg_tags p) \<and> pg_index p < 10000" if "p \<in> set ?ps" for p
    using written_ok [of cs] that few by (auto simp: pages_ok_def intro: le_less_trans)
  have pairs: "(c, s) \<in> set (cluster_servers r) \<longleftrightarrow> named (map snd m) c s" for c s
    using NewReader_clusters [OF r(1) [unfolded w(2)] dec(1)] by (intro cluster_servers_iff) simp_all
  have "(\<Union>(c, s) \<in> set (cluster_servers r). \<Union>p \<in> set (found [TagCluster c, TagServer s, tag] ?ps). set (page_data jdec p)) = written_data jdec tag cs"
  proof (intro equalityI subsetI)
    fix d assume "d \<in> (\<Union>(c, s) \<in> set (cluster_servers r). \<Union>p \<in> set (found [TagCluster c, TagServer s, tag] ?ps). set (page_data jdec p))"
    then obtain c s p where p: "p \<in> set (found [TagCluster c, TagServer s, tag] ?ps)" "d \<in> set (page_data jdec p)" by auto
    then have "p \<in> set ?ps" "tag \<in> set (pg_tags p)" "jdec (pg_content p) = Some (Some d)"
      by (auto simp: found_def page_data_def split: option.splits)
    then show "d \<in> written_data jdec tag cs" using call [of p] by (auto simp: written_data_def)
  next
    fix d assume "d \<in> written_data jdec tag cs"
    then obtain c where c: "c \<in> set cs" "accepted c" "tag \<in> set (ac_tags c)" "jdec (ac_content c) = Some (Some d)" by (auto simp: written_data_def)
    obtain p where p: "p \<in> set ?ps" "pg_tags p = ac_tags c" "pg_content p = ac_content c" using page [OF c(1,2)] by blast
    note pp = pok [OF p(1)]
    obtain cl s where t: "TagCluster cl \<in> set (pg_tags p)" "TagServer s \<in> set (pg_tags p)" "noted clusterTagLabel (pg_tags p) = cl"
      "noted serverTagLabel (pg_tags p) = s" "cl \<noteq> []" "s \<noteq> []" using page_tags [of "pg_tags p" "pg_dir p"] pp by blast
    have "map_of m (pg_path p) = Some (pg_tags p)" using ok p(1) dec(3) by (auto simp: archive_ok_def manifest_ok_def)
    then have "pg_tags p \<in> set (map snd m)" by (force dest: map_of_SomeD)
    then have "(cl, s) \<in> set (cluster_servers r)" unfolding pairs named_def using t by blast
    moreover have "p \<in> set (found [TagCluster cl, TagServer s, tag] ?ps)" using p c(3) t pp by (simp add: found_def)
    moreover have "d \<in> set (page_data jdec p)" using p(3) c(4) by (simp add: page_data_def)
    ultimately show "d \<in> (\<Union>(c, s) \<in> set (cluster_servers r). \<Union>p \<in> set (found [TagCluster c, TagServer s, tag] ?ps). set (page_data jdec p))"
      by blast
  qed
  then have "set (data_of xs) = written_data jdec tag cs" using xs(2) by simp
  moreover have "recorded jdec r tag name = (None, xs)" by (simp add: recorded_def EachClusterServerArtifact_def xs(1))
  ultimately show thesis using w(1) r(1) by (intro that)
qed

lemma version_verdict_of:
  assumes "set (data_of xs) = D"
  shows "version_verdict (None, xs) =
    (if D = {} then Skipped else if \<exists>a \<in> D. \<exists>b \<in> D. sv_Version a \<noteq> sv_Version b then Fail else Pass, None)"
proof -
  have "D = {} \<longleftrightarrow> xs = []" unfolding assms [symmetric] by (simp add: data_of_def)
  then show ?thesis by (simp add: version_verdict_def assms)
qed

lemma decided_of: "set (data_of xs) = D \<Longrightarrow> decided bad P (None, xs) = (if \<exists>d \<in> D. P d then bad else Pass, None)"
  by (auto simp: decided_def list_ex_iff)


text \<open>Two servers of different versions, one of which is busy and was written on the second attempt.\<close>

definition witness_varz :: "string \<Rightarrow> rat \<Rightarrow> ServerVarz" where
  "witness_varz v cpu =
     \<lparr> sv_Version = v, sv_Cores = 2, sv_CPU = cpu, sv_Mem = 0, sv_SlowConsumers = 0, sv_AuthRequired = True, sv_Now = 0,
       sv_TLSCertNotAfter = 0, sv_ClusterTLS = 0, sv_GatewayTLS = 0, sv_LeafNodeTLS = 0, sv_MQTTTLS = 0, sv_WebsocketTLS = 0 \<rparr>"

definition witness_answers :: "(ServerVarz response + (string, Tag list) gomap) add_call list" where
  "witness_answers =
     (let call = (\<lambda>f c tags. \<lparr> ac_fault = f, ac_now = 0, ac_content = Inl c, ac_extension = ''json'', ac_tags = tags \<rparr>);
          tags = (\<lambda>s. [TagCluster ''c'', TagServer s, TagServerVars])
      in [call NoFault (Some (witness_varz ''2.11'' 10)) (tags ''a''), call (CopyFails (Inl None)) (Some (witness_varz ''2.12'' 200)) (tags ''b''),
          call NoFault (Some (witness_varz ''2.12'' 200)) (tags ''b''), call NoFault None (tags ''c'')])"

definition witness_limit :: "string \<Rightarrow> CheckConfiguration option" where
  "witness_limit _ = Some \<lparr> cf_Key = ''cpu'', cf_Check = ''SERVER_002'', cf_Description = [], cf_Default = Fin 90,
     cf_Unit = PercentageUnit, cf_SetValue = None \<rparr>"

lemma witness_answers_written:
  "written_data (case_sum Some (\<lambda>_. None)) TagServerVars witness_answers = {witness_varz ''2.11'' 10, witness_varz ''2.12'' 200}"
proof -
  have a: "map (\<lambda>c. (accepted c, TagServerVars \<in> set (ac_tags c), case_sum Some (\<lambda>_. None) (ac_content c))) witness_answers =
    [(True, True, Some (Some (witness_varz ''2.11'' 10))), (False, True, Some (Some (witness_varz ''2.12'' 200))),
     (True, True, Some (Some (witness_varz ''2.12'' 200))), (True, True, Some None)]" by code_simp
  have "written_data (case_sum Some (\<lambda>_. None)) TagServerVars witness_answers =
    {d. (True, True, Some (Some d)) \<in> set (map (\<lambda>c. (accepted c, TagServerVars \<in> set (ac_tags c), case_sum Some (\<lambda>_. None) (ac_content c))) witness_answers)}"
    unfolding written_data_def by force
  then show ?thesis unfolding a by auto
qed


end
