(* ===== verification/Server_Request.thy ===== *)
theory Server_Request
  imports Audit_Server_Checks "HOL-Library.Sublist"
begin

text \<open>
  Requests that many servers answer (\<open>src/serverdata/request.go\<close>): the replies, the timers and the caller
  as events, and the counts of servers. The connection is a parameter that says which events happen.
\<close>

subsection \<open>Waiting for replies\<close>

datatype request_error =
    MarshalFailed
  | SubscribeFailed
  | PublishFailed
  | BadCompression
  | NoResponders
  | NoSystemPrivileges
  | BadAnswer
  | JszFailed string
  | NoDomainServers string

record 'c reply =
  rp_Data :: 'c
  rp_Encoding :: string
  rp_Status :: string

text \<open>
  A reply reaches the subscription; the timer of the adaptive timeout fires; the deadline passes or the
  caller's context ends; the caller wakes up, through the channel of errors or through the context.
\<close>

datatype 'c request_event = Arrives "'c reply" | FinisherFires | DeadlinePasses | Wakes bool

record 'c request_state =
  rq_counter :: int
  rq_received :: int
  rq_errs :: "request_error option"
  rq_cancelled :: bool
  rq_delivered :: "'c list"
  rq_result :: "request_error option option"

definition start_request :: "'c request_state" where
  "start_request = \<lparr> rq_counter = 0, rq_received = 0, rq_errs = None, rq_cancelled = False, rq_delivered = [], rq_result = None \<rparr>"

text \<open>The channel of errors holds one.\<close>

definition push_error :: "request_error \<Rightarrow> 'c request_state \<Rightarrow> 'c request_state" where
  "push_error e st = (case rq_errs st of None \<Rightarrow> st\<lparr> rq_errs := Some e \<rparr> | Some _ \<Rightarrow> st)"

definition handle_reply :: "('c \<Rightarrow> 'c option) \<Rightarrow> int \<Rightarrow> 'c reply \<Rightarrow> 'c request_state \<Rightarrow> 'c request_state" where
  "handle_reply decompress waitFor m st =
     (if rq_result st \<noteq> None then st
      else case (if rp_Encoding m = ''snappy'' then decompress (rp_Data m) else Some (rp_Data m)) of
             None \<Rightarrow> push_error BadCompression st
           | Some data \<Rightarrow>
               if rp_Status m = ''503'' then push_error NoResponders st
               else (let st1 = st\<lparr> rq_delivered := rq_delivered st @ [data], rq_counter := rq_counter st + 1 \<rparr>
                     in if waitFor > 0 \<and> rq_counter st1 = waitFor then st1\<lparr> rq_cancelled := True \<rparr> else st1))"

text \<open>
  One event, \<open>None\<close> when it cannot happen: the subscription hands over at most \<open>waitFor\<close> replies, the timer
  only runs for the adaptive timeout, and the caller needs a reason to wake up.
\<close>

fun request_step :: "('c \<Rightarrow> 'c option) \<Rightarrow> int \<Rightarrow> 'c request_event \<Rightarrow> 'c request_state \<Rightarrow> 'c request_state option" where
  "request_step decompress waitFor (Arrives m) st =
     (if waitFor > 0 \<and> rq_received st \<ge> waitFor then None
      else Some (handle_reply decompress waitFor m (st\<lparr> rq_received := rq_received st + 1 \<rparr>)))"
| "request_step decompress waitFor FinisherFires st = (if waitFor = 0 then Some (st\<lparr> rq_cancelled := True \<rparr>) else None)"
| "request_step decompress waitFor DeadlinePasses st = Some (st\<lparr> rq_cancelled := True \<rparr>)"
| "request_step decompress waitFor (Wakes by_error) st =
     (if rq_result st \<noteq> None then None
      else if by_error then (case rq_errs st of Some e \<Rightarrow> Some (st\<lparr> rq_result := Some (Some e) \<rparr>) | None \<Rightarrow> None)
      else if rq_cancelled st then Some (st\<lparr> rq_result := Some None \<rparr>) else None)"

definition request_event :: "('c \<Rightarrow> 'c option) \<Rightarrow> int \<Rightarrow> 'c request_event \<Rightarrow> 'c request_state \<Rightarrow> 'c request_state" where
  "request_event decompress waitFor ev st = (case request_step decompress waitFor ev st of None \<Rightarrow> st | Some st1 \<Rightarrow> st1)"

definition run_request :: "('c \<Rightarrow> 'c option) \<Rightarrow> int \<Rightarrow> 'c request_event list \<Rightarrow> 'c request_state" where
  "run_request decompress waitFor evs = fold (request_event decompress waitFor) evs start_request"

text \<open>The deadline ends a wait that is still going on.\<close>

definition request_result :: "'c request_state \<Rightarrow> request_error option" where
  "request_result st = (case rq_result st of Some r \<Rightarrow> r | None \<Rightarrow> rq_errs st)"

definition request_error_of :: "string \<Rightarrow> request_error option \<Rightarrow> request_error option" where
  "request_error_of subj err = (if err = Some NoResponders \<and> has_prefix subj ''$SYS'' then Some NoSystemPrivileges else err)"

definition accepts_snappy :: "string \<Rightarrow> bool" where
  "accepts_snappy subj \<longleftrightarrow>
     subj \<noteq> ''$SYS.REQ.SERVER.PING'' \<and> \<not> (has_prefix subj ''$SYS.REQ.ACCOUNT.'' \<and> contains_sub subj ''.CLAIMS.'')"

text \<open>The connection: what goes wrong before the wait, or the events of the wait.\<close>

record ('q, 'c, 's) network =
  nw_decompress :: "'c \<Rightarrow> 'c option"
  nw_publish :: "'q option \<Rightarrow> string \<Rightarrow> bool \<Rightarrow> int \<Rightarrow> 's \<Rightarrow> (request_error + 'c request_event list) \<times> 's"

definition DoReqAsync ::
    "('q, 'c, 's) network \<Rightarrow> 'q option \<Rightarrow> string \<Rightarrow> int \<Rightarrow> ('c \<Rightarrow> 'a \<Rightarrow> 'a) \<Rightarrow> 'a \<Rightarrow> 's \<Rightarrow> request_error option \<times> 'a \<times> 's" where
  "DoReqAsync net req subj waitFor cb a s =
     (case nw_publish net req subj (accepts_snappy subj) waitFor s of
        (Inl e, s1) \<Rightarrow> (Some e, a, s1)
      | (Inr evs, s1) \<Rightarrow>
          (let st = run_request (nw_decompress net) waitFor evs
           in (request_error_of subj (request_result st), fold cb (rq_delivered st) a, s1)))"

definition DoReq :: "('q, 'c, 's) network \<Rightarrow> 'q option \<Rightarrow> string \<Rightarrow> int \<Rightarrow> 's \<Rightarrow> request_error option \<times> 'c list \<times> 's" where
  "DoReq net req subj waitFor s = DoReqAsync net req subj waitFor (\<lambda>r res. res @ [r]) [] s"

subsection \<open>Counting servers\<close>

definition onlineMetaPeers :: "JSInfo option \<Rightarrow> int" where
  "onlineMetaPeers jsi =
     (case jsi of
        None \<Rightarrow> 0
      | Some i \<Rightarrow> (case js_Meta i of None \<Rightarrow> 1 | Some m \<Rightarrow> 1 + int (length (filter (\<lambda>(_, offline). \<not> offline) (mc_Replicas m)))))"

text \<open>
  The answers: \<open>statsz\<close> reads the number of active servers, \<open>jsz\<close> the error or the data; \<open>domain_request\<close>
  is the request with the domain in its filter.
\<close>

definition activeServersInDomain ::
    "('q, 'c, 's) network \<Rightarrow> (string \<Rightarrow> 'q) \<Rightarrow> ('c \<Rightarrow> (string option \<times> JSInfo option) option) \<Rightarrow> string \<Rightarrow> 's \<Rightarrow> (request_error + int) \<times> 's" where
  "activeServersInDomain net domain_request jsz domain s =
     (case DoReqAsync net (Some (domain_request domain)) ''$SYS.REQ.SERVER.PING.JSZ'' 1
             (\<lambda>msg (expect, cbErr).
                case jsz msg of
                  None \<Rightarrow> (expect, Some BadAnswer)
                | Some (Some description, _) \<Rightarrow> (expect, Some (JszFailed description))
                | Some (None, data) \<Rightarrow> (onlineMetaPeers data, cbErr))
             (0, None) s of
        (Some e, _, s1) \<Rightarrow> (Inl e, s1)
      | (None, (expect, cbErr), s1) \<Rightarrow>
          (case cbErr of
             Some e \<Rightarrow> (Inl e, s1)
           | None \<Rightarrow> if expect = 0 then (Inl (NoDomainServers domain), s1) else (Inr expect, s1)))"

definition CurrentActiveServers ::
    "('q, 'c, 's) network \<Rightarrow> (string \<Rightarrow> 'q) \<Rightarrow> ('c \<Rightarrow> (string option \<times> JSInfo option) option) \<Rightarrow> ('c \<Rightarrow> int option) \<Rightarrow> string \<Rightarrow> 's \<Rightarrow>
     request_error option \<times> int \<times> 's" where
  "CurrentActiveServers net domain_request jsz statsz domain s =
     (if domain \<noteq> [] then
        (case activeServersInDomain net domain_request jsz domain s of (Inl e, s1) \<Rightarrow> (Some e, 0, s1) | (Inr n, s1) \<Rightarrow> (None, n, s1))
      else
        (case DoReqAsync net None ''$SYS.REQ.SERVER.PING'' 1
                (\<lambda>msg (expect, unmarshalErr). case statsz msg of None \<Rightarrow> (expect, Some BadAnswer) | Some n \<Rightarrow> (n, unmarshalErr))
                (0, None) s of
           (Some e, _, s1) \<Rightarrow> (Some e, 0, s1)
         | (None, (expect, unmarshalErr), s1) \<Rightarrow> (unmarshalErr, expect, s1)))"

subsection \<open>What a wait delivers\<close>

text \<open>The states of a wait.\<close>

inductive waits :: "('c \<Rightarrow> 'c option) \<Rightarrow> int \<Rightarrow> 'c request_event list \<Rightarrow> 'c request_state \<Rightarrow> bool" for decompress waitFor where
  waits_start: "waits decompress waitFor [] start_request"
| waits_step: "waits decompress waitFor evs st \<Longrightarrow> request_step decompress waitFor ev st = Some st1 \<Longrightarrow> waits decompress waitFor (evs @ [ev]) st1"

text \<open>The data of a reply, when it is a data reply.\<close>

definition reply_data :: "('c \<Rightarrow> 'c option) \<Rightarrow> 'c reply \<Rightarrow> 'c option" where
  "reply_data decompress m =
     (if rp_Status m = ''503'' then None else if rp_Encoding m = ''snappy'' then decompress (rp_Data m) else Some (rp_Data m))"

fun arrivals :: "'c request_event list \<Rightarrow> 'c reply list" where
  "arrivals [] = []"
| "arrivals (Arrives m # evs) = m # arrivals evs"
| "arrivals (_ # evs) = arrivals evs"

lemma arrivals_append [simp]: "arrivals (us @ vs) = arrivals us @ arrivals vs"
  by (induction us rule: arrivals.induct) simp_all

text \<open>
  While the caller waits, the replies counted and delivered are the data of the replies so far, in order;
  there is an error only for a reply without data; the context ends only by a timer, the deadline, or the
  number of replies.
\<close>

definition is_wake :: "'c request_event \<Rightarrow> bool" where
  "is_wake ev \<longleftrightarrow> (\<exists>b. ev = Wakes b)"

definition timed_out :: "'c request_event list \<Rightarrow> bool" where
  "timed_out evs \<longleftrightarrow> FinisherFires \<in> set evs \<or> DeadlinePasses \<in> set evs"

definition data_replies :: "('c \<Rightarrow> 'c option) \<Rightarrow> 'c request_event list \<Rightarrow> 'c list" where
  "data_replies decompress evs = List.map_filter (reply_data decompress) (arrivals evs)"

definition waiting_ok :: "('c \<Rightarrow> 'c option) \<Rightarrow> int \<Rightarrow> 'c request_event list \<Rightarrow> 'c request_state \<Rightarrow> bool" where
  "waiting_ok decompress waitFor evs st \<longleftrightarrow>
     rq_result st = None \<and> rq_delivered st = data_replies decompress evs \<and> rq_counter st = int (length (rq_delivered st)) \<and>
     rq_counter st \<le> rq_received st \<and>
     (\<forall>e. rq_errs st = Some e \<longrightarrow> (\<exists>m \<in> set (arrivals evs). reply_data decompress m = None \<and> (e = NoResponders \<longrightarrow> rp_Status m = ''503''))) \<and>
     (rq_cancelled st \<longrightarrow> timed_out evs \<or> (waitFor > 0 \<and> rq_counter st = waitFor)) \<and>
     (waitFor > 0 \<longrightarrow> rq_received st \<le> waitFor)"

lemma data_replies_snoc:
  "data_replies decompress (evs @ [ev]) =
     data_replies decompress evs @ (case ev of Arrives m \<Rightarrow> (case reply_data decompress m of None \<Rightarrow> [] | Some d \<Rightarrow> [d]) | _ \<Rightarrow> [])"
  by (simp add: data_replies_def List.map_filter_def split: request_event.split option.split)

lemma handle_reply_cases:
  assumes "rq_result st = None"
  obtains e where "reply_data decompress m = None" "handle_reply decompress waitFor m st = push_error e st"
      "e = NoResponders \<Longrightarrow> rp_Status m = ''503''"
    | d where "reply_data decompress m = Some d" "handle_reply decompress waitFor m st =
        st\<lparr> rq_delivered := rq_delivered st @ [d], rq_counter := rq_counter st + 1,
            rq_cancelled := rq_cancelled st \<or> (waitFor > 0 \<and> rq_counter st + 1 = waitFor) \<rparr>"
proof (cases "if rp_Encoding m = ''snappy'' then decompress (rp_Data m) else Some (rp_Data m)")
  case None
  then show thesis using assms by (intro that(1) [of BadCompression]) (auto simp: reply_data_def handle_reply_def)
next
  case (Some d)
  show thesis
  proof (cases "rp_Status m = ''503''")
    case True
    then show thesis using assms Some by (intro that(1) [of NoResponders]) (auto simp: reply_data_def handle_reply_def)
  next
    case False
    then show thesis using assms Some by (intro that(2) [of d]) (auto simp: reply_data_def handle_reply_def Let_def)
  qed
qed

lemma push_error_fields [simp]:
  "rq_result (push_error e st) = rq_result st" "rq_delivered (push_error e st) = rq_delivered st" "rq_counter (push_error e st) = rq_counter st"
  "rq_received (push_error e st) = rq_received st" "rq_cancelled (push_error e st) = rq_cancelled st"
  "rq_errs (push_error e st) = (case rq_errs st of None \<Rightarrow> Some e | Some f \<Rightarrow> Some f)"
  by (simp_all add: push_error_def split: option.split)

lemma timed_out_snoc: "timed_out (evs @ [ev]) \<longleftrightarrow> timed_out evs \<or> ev = FinisherFires \<or> ev = DeadlinePasses"
  by (auto simp: timed_out_def)

lemma waiting_ok_arrives:
  assumes ok: "waiting_ok decompress waitFor evs st" and step: "request_step decompress waitFor (Arrives m) st = Some st1"
  shows "waiting_ok decompress waitFor (evs @ [Arrives m]) st1"
proof -
  let ?s = "st\<lparr> rq_received := rq_received st + 1 \<rparr>"
  have res: "rq_result ?s = None" using ok by (simp add: waiting_ok_def)
  have st1: "st1 = handle_reply decompress waitFor m ?s" and room: "waitFor > 0 \<longrightarrow> rq_received st < waitFor"
    using step by (auto split: if_splits)
  from res show ?thesis
  proof (cases rule: handle_reply_cases [where decompress = decompress and m = m and waitFor = waitFor])
    case (1 e)
    then have "rq_errs st1 = Some f \<Longrightarrow> \<exists>x \<in> set (arrivals (evs @ [Arrives m])). reply_data decompress x = None \<and> (f = NoResponders \<longrightarrow> rp_Status x = ''503'')" for f
      using ok by (cases "rq_errs st") (auto simp: st1 waiting_ok_def)
    then show ?thesis using ok room 1 unfolding waiting_ok_def data_replies_snoc timed_out_snoc by (auto simp: st1)
  next
    case (2 d)
    then show ?thesis using ok room unfolding waiting_ok_def data_replies_snoc timed_out_snoc by (auto simp: st1)
  qed
qed

lemma waiting_ok_timer:
  assumes "waiting_ok decompress waitFor evs st" "request_step decompress waitFor ev st = Some st1" "ev = FinisherFires \<or> ev = DeadlinePasses"
  shows "waiting_ok decompress waitFor (evs @ [ev]) st1"
  using assms(3)
proof
  assume "ev = FinisherFires"
  then show ?thesis using assms(1,2) unfolding waiting_ok_def data_replies_snoc timed_out_snoc by (auto split: if_splits)
next
  assume "ev = DeadlinePasses"
  then show ?thesis using assms(1,2) unfolding waiting_ok_def data_replies_snoc timed_out_snoc by auto
qed

text \<open>What the caller got when it woke up, after the events \<open>before\<close>.\<close>

definition woken_ok :: "('c \<Rightarrow> 'c option) \<Rightarrow> int \<Rightarrow> 'c request_event list \<Rightarrow> request_error option \<Rightarrow> 'c list \<Rightarrow> bool" where
  "woken_ok decompress waitFor before res data \<longleftrightarrow>
     data = data_replies decompress before \<and> (waitFor > 0 \<longrightarrow> int (length data) \<le> waitFor) \<and>
     (res = None \<longrightarrow> timed_out before \<or> (waitFor > 0 \<and> int (length data) = waitFor)) \<and>
     (\<forall>e. res = Some e \<longrightarrow> (\<exists>m \<in> set (arrivals before). reply_data decompress m = None \<and> (e = NoResponders \<longrightarrow> rp_Status m = ''503'')))"

lemma waiting_ok_wakes:
  assumes "waiting_ok decompress waitFor evs st" "request_step decompress waitFor (Wakes b) st = Some st1"
  shows "\<exists>res. rq_result st1 = Some res \<and> woken_ok decompress waitFor evs res (rq_delivered st1)"
proof (cases b)
  case True
  then show ?thesis using assms by (auto simp: waiting_ok_def woken_ok_def split: if_splits option.splits)
next
  case False
  then show ?thesis using assms by (auto simp: waiting_ok_def woken_ok_def split: if_splits)
qed

definition wait_ok :: "('c \<Rightarrow> 'c option) \<Rightarrow> int \<Rightarrow> 'c request_event list \<Rightarrow> 'c request_state \<Rightarrow> bool" where
  "wait_ok decompress waitFor evs st \<longleftrightarrow>
     (if list_ex is_wake evs then
        \<exists>before res. prefix before evs \<and> rq_result st = Some res \<and> woken_ok decompress waitFor before res (rq_delivered st)
      else waiting_ok decompress waitFor evs st)"

lemma woken_stays:
  assumes "rq_result st = Some res" "request_step decompress waitFor ev st = Some st1"
  shows "rq_result st1 = Some res \<and> rq_delivered st1 = rq_delivered st"
  using assms by (cases ev) (auto simp: handle_reply_def split: if_splits)

lemma waits_ok: "waits decompress waitFor evs st \<Longrightarrow> wait_ok decompress waitFor evs st"
proof (induction rule: waits.induct)
  case waits_start
  show ?case by (simp add: wait_ok_def waiting_ok_def start_request_def data_replies_def List.map_filter_def)
next
  case (waits_step evs st ev st1)
  show ?case
  proof (cases "list_ex is_wake evs")
    case True
    then obtain before res where "prefix before evs" "rq_result st = Some res" "woken_ok decompress waitFor before res (rq_delivered st)"
      using waits_step.IH by (auto simp: wait_ok_def)
    then show ?thesis using woken_stays [OF _ waits_step.hyps(2)] True by (auto simp: wait_ok_def)
  next
    case False
    then have ok: "waiting_ok decompress waitFor evs st" using waits_step.IH by (simp add: wait_ok_def)
    show ?thesis
    proof (cases ev)
      case (Wakes b)
      from waiting_ok_wakes [OF ok waits_step.hyps(2) [unfolded Wakes]] show ?thesis
        by (auto simp: wait_ok_def Wakes is_wake_def)
    next
      case (Arrives m)
      then show ?thesis using waiting_ok_arrives [OF ok] waits_step.hyps(2) False by (simp add: wait_ok_def is_wake_def)
    qed (use waiting_ok_timer [OF ok waits_step.hyps(2)] False in \<open>simp_all add: wait_ok_def is_wake_def\<close>)
  qed
qed

text \<open>What \<open>DoReqAsync\<close> runs is such a wait: the events that cannot happen change nothing.\<close>

lemma run_request_waits: "\<exists>happened. subseq happened evs \<and> waits decompress waitFor happened (run_request decompress waitFor evs)"
proof (induction evs rule: rev_induct)
  case Nil
  show ?case using waits_start by (auto simp: run_request_def)
next
  case (snoc ev evs)
  then obtain happened where h: "subseq happened evs" "waits decompress waitFor happened (run_request decompress waitFor evs)" by blast
  show ?case
  proof (cases "request_step decompress waitFor ev (run_request decompress waitFor evs)")
    case None
    then show ?thesis using h by (auto simp: run_request_def request_event_def intro!: exI [of _ happened] list_emb_append2 [where ys = "[]"] subseq_order.trans [OF h(1)])
  next
    case (Some st1)
    then show ?thesis using h waits_step [OF h(2) Some] by (auto simp: run_request_def request_event_def intro!: exI [of _ "happened @ [ev]"] list_emb_append_mono)
  qed
qed


text \<open>Two replies are asked for, one of them compressed; a third comes too late.\<close>

definition witness_events :: "nat request_event list" where
  "witness_events =
     [Arrives \<lparr> rp_Data = 1, rp_Encoding = [], rp_Status = [] \<rparr>, Arrives \<lparr> rp_Data = 2, rp_Encoding = ''snappy'', rp_Status = [] \<rparr>,
      Wakes False]"


end
