(* ===== verification/Server_Archive.thy ===== *)
theory Server_Archive
  imports Audit_Archive_Props Server_Request
begin

text \<open>
  The data of servers from an audit archive (\<open>src/serverdata/audit_archive.go\<close>, \<open>source.go\<close>): the filter on
  the captured servers, one operation per endpoint, the merging of pages, and the profiles. The artifacts
  are decoded by parameters of the operations.
\<close>

subsection \<open>Servers and filters\<close>

record ServerInfo =
  si_Name :: string
  si_ID :: string
  si_Host :: string
  si_Cluster :: string
  si_Domain :: string
  si_Tags :: "string list"
  si_JetStream :: bool

record EventFilterOptions =
  ef_Name :: string
  ef_Host :: string
  ef_Cluster :: string
  ef_Domain :: string
  ef_Tags :: "string list"
  ef_ExactMatch :: bool

record 'd server_response =
  sr_Server :: "ServerInfo option"
  sr_Data :: "'d option"
  sr_Error :: "string option"

datatype source_error =
    Unsupported string "string list"
  | PathRequired
  | RequestFuncRequired
  | ArchiveFailed archive_error
  | RequestFailed string request_error
  | UnmarshalFailed string
  | NilResponse string

definition matchField :: "string \<Rightarrow> string \<Rightarrow> bool \<Rightarrow> bool" where
  "matchField v filt exact \<longleftrightarrow> (if exact then v = filt else contains_sub v filt)"

definition hasTag :: "string list \<Rightarrow> string \<Rightarrow> bool" where
  "hasTag tags filt \<longleftrightarrow> list_ex (\<lambda>t. to_lower t = to_lower (trim_space filt)) tags"

definition matchesFilter :: "ServerInfo option \<Rightarrow> EventFilterOptions option \<Rightarrow> bool" where
  "matchesFilter info f =
     (case (info, f) of
        (Some i, Some o1) \<Rightarrow>
          if ef_Name o1 \<noteq> [] \<and> \<not> matchField (si_Name i) (ef_Name o1) (ef_ExactMatch o1) \<and> \<not> matchField (si_ID i) (ef_Name o1) (ef_ExactMatch o1) then False
          else if ef_Host o1 \<noteq> [] \<and> \<not> matchField (si_Host i) (ef_Host o1) (ef_ExactMatch o1) then False
          else if ef_Cluster o1 \<noteq> [] \<and> \<not> matchField (si_Cluster i) (ef_Cluster o1) (ef_ExactMatch o1) then False
          else if ef_Domain o1 \<noteq> [] \<and> si_Domain i \<noteq> ef_Domain o1 then False
          else list_all (hasTag (si_Tags i)) (ef_Tags o1)
      | _ \<Rightarrow> True)"

definition no_filter :: EventFilterOptions where
  "no_filter = \<lparr> ef_Name = [], ef_Host = [], ef_Cluster = [], ef_Domain = [], ef_Tags = [], ef_ExactMatch = False \<rparr>"

text \<open>Opening: a path is required.\<close>

definition NewAuditArchive ::
    "('c \<Rightarrow> (string, Tag list) gomap option) \<Rightarrow> (string \<Rightarrow> 'c zip_File list option) \<Rightarrow> string \<Rightarrow> source_error + 'c Reader" where
  "NewAuditArchive dec open_zip archivePath =
     (if archivePath = [] then Inl PathRequired
      else case NewReader dec (open_zip archivePath) of Inl e \<Rightarrow> Inl (ArchiveFailed e) | Inr r \<Rightarrow> Inr r)"

subsection \<open>The endpoints that only filter\<close>

text \<open>The responses of all servers that match; what is missing or cannot match is left out.\<close>

definition archive_all ::
    "('c \<Rightarrow> 'd server_response option) \<Rightarrow> 'c Reader \<Rightarrow> Tag \<Rightarrow> EventFilterOptions \<Rightarrow> archive_error option \<times> 'd server_response list" where
  "archive_all dec r artifactTag filt =
     (case EachClusterServerArtifact dec r artifactTag
             (\<lambda>_ _ cbError resp results.
                case resp of
                  None \<Rightarrow> (None, results)
                | Some x \<Rightarrow> if cbError \<noteq> None \<or> \<not> matchesFilter (sr_Server x) (Some filt) then (None, results) else (None, results @ [x]))
             [] of
        (e, _, results) \<Rightarrow> (e, results))"

definition lift_archive :: "archive_error option \<times> 'a \<Rightarrow> source_error option \<times> 'a" where
  "lift_archive res = (map_option ArchiveFailed (fst res), snd res)"

definition archive_Varz where
  "archive_Varz dec r filt = lift_archive (archive_all dec r TagServerVars filt)"

definition archive_Routez where
  "archive_Routez dec r filt = lift_archive (archive_all dec r TagServerRoutes filt)"

definition archive_Gatewayz :: "('c \<Rightarrow> 'd server_response option) \<Rightarrow> 'c Reader \<Rightarrow> string \<Rightarrow> EventFilterOptions \<Rightarrow> source_error option \<times> 'd server_response list" where
  "archive_Gatewayz dec r name filt =
     (if name \<noteq> [] then (Some (Unsupported ''gatewayz'' [''name'']), []) else lift_archive (archive_all dec r TagServerGateways filt))"

definition archive_Leafz :: "('c \<Rightarrow> 'd server_response option) \<Rightarrow> 'c Reader \<Rightarrow> string \<Rightarrow> EventFilterOptions \<Rightarrow> source_error option \<times> 'd server_response list" where
  "archive_Leafz dec r account filt =
     (if account \<noteq> [] then (Some (Unsupported ''leafz'' [''account'']), []) else lift_archive (archive_all dec r TagServerLeafs filt))"

record HealthzOptions =
  ho_JSEnabledOnly :: bool
  ho_JSServerOnly :: bool
  ho_LeafRemotesConnected :: bool
  ho_Account :: string
  ho_Stream :: string
  ho_Consumer :: string

text \<open>The names of the options that were set.\<close>

definition fields_set :: "(bool \<times> string) list \<Rightarrow> string list" where
  "fields_set fs = map snd (filter fst fs)"

definition archive_Healthz :: "('c \<Rightarrow> 'd server_response option) \<Rightarrow> 'c Reader \<Rightarrow> HealthzOptions \<Rightarrow> EventFilterOptions \<Rightarrow> source_error option \<times> 'd server_response list" where
  "archive_Healthz dec r opts filt =
     (let fields = fields_set
            [(ho_JSEnabledOnly opts, ''js-enabled-only''), (ho_JSServerOnly opts, ''js-server-only''),
             (ho_LeafRemotesConnected opts, ''leaf-remotes-connected''), (ho_Account opts \<noteq> [], ''account''),
             (ho_Stream opts \<noteq> [], ''stream''), (ho_Consumer opts \<noteq> [], ''consumer'')]
      in if fields \<noteq> [] then (Some (Unsupported ''healthz'' fields), [])
         else lift_archive (archive_all dec r TagServerHealth filt))"

text \<open>An account of the accounts endpoint is read from the account's own artifacts.\<close>

definition accountzDetail ::
    "('c \<Rightarrow> 'i server_response option) \<Rightarrow> 'c Reader \<Rightarrow> string \<Rightarrow> EventFilterOptions \<Rightarrow> archive_error option \<times> ('a + 'i option) server_response list" where
  "accountzDetail dec r account filt =
     (case ForEachTaggedArtifact dec r [TagAccount account, TagAccountInfo]
             (\<lambda>air results.
                if \<not> matchesFilter (sr_Server air) (Some filt) then (None, results)
                else (None, results @ [\<lparr> sr_Server = sr_Server air, sr_Data = Some (Inr (sr_Data air)), sr_Error = None \<rparr>]))
             [] of
        (Some NoMatches, results) \<Rightarrow> (None, results)
      | (e, results) \<Rightarrow> (e, results))"

definition archive_Accountz ::
    "('c \<Rightarrow> 'a server_response option) \<Rightarrow> ('c \<Rightarrow> 'i server_response option) \<Rightarrow> 'c Reader \<Rightarrow> string \<Rightarrow> EventFilterOptions \<Rightarrow>
     source_error option \<times> ('a + 'i option) server_response list" where
  "archive_Accountz dec dec_info r account filt =
     (if account \<noteq> [] then lift_archive (accountzDetail dec_info r account filt)
      else case archive_all dec r TagServerAccounts filt of
             (e, results) \<Rightarrow>
               lift_archive (e, map (\<lambda>x. \<lparr> sr_Server = sr_Server x, sr_Data = map_option Inl (sr_Data x), sr_Error = sr_Error x \<rparr>) results))"

subsection \<open>The endpoints that merge pages\<close>

text \<open>\<open>results\<close> and the map \<open>seen\<close> of what is in it: a page of a server seen before extends the first one.\<close>

definition merge_page :: "string \<Rightarrow> ('r \<Rightarrow> 'r) \<Rightarrow> 'r \<Rightarrow> (string, 'r) gomap \<Rightarrow> (string, 'r) gomap" where
  "merge_page key joined x seen =
     (case map_of seen key of Some base \<Rightarrow> AList.update key (joined base) seen | None \<Rightarrow> seen @ [(key, x)])"

definition serverKey :: "Tag \<Rightarrow> Tag \<Rightarrow> string" where
  "serverKey clusterTag serverTag = t_Value clusterTag @ ''/'' @ t_Value serverTag"

definition update_data :: "('d \<Rightarrow> 'd) \<Rightarrow> 'd server_response \<Rightarrow> 'd server_response" where
  "update_data f x = x\<lparr> sr_Data := map_option f (sr_Data x) \<rparr>"

definition archive_merged ::
    "('c \<Rightarrow> 'd server_response option) \<Rightarrow> 'c Reader \<Rightarrow> Tag \<Rightarrow> ('d \<Rightarrow> 'd \<Rightarrow> 'd) \<Rightarrow> EventFilterOptions \<Rightarrow> archive_error option \<times> 'd server_response list" where
  "archive_merged dec r artifactTag joined filt =
     (case EachClusterServerArtifact dec r artifactTag
             (\<lambda>clusterTag serverTag cbError resp seen.
                case resp of
                  None \<Rightarrow> (None, seen)
                | Some x \<Rightarrow>
                    if cbError \<noteq> None \<or> \<not> matchesFilter (sr_Server x) (Some filt) then (None, seen)
                    else case sr_Data x of
                           None \<Rightarrow> (None, seen)
                         | Some d \<Rightarrow> (None, merge_page (serverKey clusterTag serverTag) (update_data (\<lambda>b. joined b d)) x seen))
             [] of
        (e, _, seen) \<Rightarrow> (e, map snd seen))"

text \<open>The subscriptions of a server.\<close>

definition archive_Subsz :: "('c \<Rightarrow> 's list server_response option) \<Rightarrow> 'c Reader \<Rightarrow> EventFilterOptions \<Rightarrow> source_error option \<times> 's list server_response list" where
  "archive_Subsz dec r filt = lift_archive (archive_merged dec r TagServerSubs (\<lambda>a b. a @ b) filt)"

record 'x StreamDetail =
  sd_Name :: string
  sd_Info :: 'x

record 'x AccountDetail =
  ad_Name :: string
  ad_Streams :: "'x StreamDetail list"

definition archive_Jsz ::
    "('c \<Rightarrow> 'x AccountDetail list server_response option) \<Rightarrow> 'c Reader \<Rightarrow> string \<Rightarrow> EventFilterOptions \<Rightarrow>
     source_error option \<times> 'x AccountDetail list server_response list" where
  "archive_Jsz dec r account filt =
     (if account \<noteq> [] then (Some (Unsupported ''jsz'' [''account'']), [])
      else lift_archive (archive_merged dec r TagServerJetStream (\<lambda>a b. a @ b) filt))"

record 'x ArchiveConn =
  cn_Account :: string
  cn_Info :: 'x

record 'x ArchiveConnz =
  az_Conns :: "'x ArchiveConn list"
  az_NumConns :: int
  az_Total :: int

record ConnzFilter =
  co_Account :: string
  co_FilterSubject :: string
  co_User :: string
  co_State :: int

definition fill_account :: "string \<Rightarrow> 'x ArchiveConnz \<Rightarrow> 'x ArchiveConnz" where
  "fill_account account d = d\<lparr> az_Conns := map (\<lambda>c. if cn_Account c = [] then c\<lparr> cn_Account := account \<rparr> else c) (az_Conns d) \<rparr>"

definition extend_connz :: "'x ArchiveConnz \<Rightarrow> 'x ArchiveConnz \<Rightarrow> 'x ArchiveConnz" where
  "extend_connz b d =
     (let conns = az_Conns b @ az_Conns d
      in b\<lparr> az_Conns := conns, az_NumConns := int (length conns), az_Total := az_Total b + az_Total d \<rparr>)"

definition connz_page :: "EventFilterOptions \<Rightarrow> string \<Rightarrow> 'x ArchiveConnz server_response \<Rightarrow> (string, 'x ArchiveConnz server_response) gomap \<Rightarrow>
    archive_error option \<times> (string, 'x ArchiveConnz server_response) gomap" where
  "connz_page filt account cz seen =
     (if \<not> matchesFilter (sr_Server cz) (Some filt) then (None, seen)
      else case (sr_Server cz, sr_Data cz) of
             (Some srv, Some d) \<Rightarrow>
               (let d1 = fill_account account d
                in (None, merge_page (si_ID srv) (update_data (\<lambda>b. extend_connz b d1)) (cz\<lparr> sr_Data := Some d1 \<rparr>) seen))
           | _ \<Rightarrow> (None, seen))"

definition archive_Connz ::
    "('c \<Rightarrow> 'x ArchiveConnz server_response option) \<Rightarrow> 'c Reader \<Rightarrow> ConnzFilter \<Rightarrow> EventFilterOptions \<Rightarrow>
     source_error option \<times> 'x ArchiveConnz server_response list" where
  "archive_Connz dec r opts filt =
     (let fields = fields_set [(co_Account opts \<noteq> [], ''account''), (co_FilterSubject opts \<noteq> [], ''filter_subject''),
                               (co_User opts \<noteq> [], ''user''), (co_State opts \<noteq> 0, ''state'')]
      in if fields \<noteq> [] then (Some (Unsupported ''connz'' fields), [])
         else case each_until
                     (\<lambda>account seen.
                        case ForEachTaggedArtifact dec r [TagAccount account, TagAccountConnections] (connz_page filt account) seen of
                          (Some NoMatches, seen1) \<Rightarrow> (None, seen1)
                        | (e, seen1) \<Rightarrow> (e, seen1))
                     (AccountNames r) [] of
                (Some e, _) \<Rightarrow> (Some (ArchiveFailed e), [])
              | (None, seen) \<Rightarrow> (None, map snd seen))"

subsection \<open>Accounts\<close>

definition mergeStreams :: "'x StreamDetail list \<Rightarrow> 'x StreamDetail list \<Rightarrow> 'x StreamDetail list" where
  "mergeStreams a b = fold (\<lambda>s result. if sd_Name s \<in> sd_Name ` set result then result else result @ [s]) (a @ b) []"

definition merge_account :: "'x AccountDetail \<Rightarrow> (string, 'x AccountDetail) gomap \<Rightarrow> (string, 'x AccountDetail) gomap" where
  "merge_account acct m =
     (case map_of m (ad_Name acct) of
        Some existing \<Rightarrow> AList.update (ad_Name acct) (existing\<lparr> ad_Streams := mergeStreams (ad_Streams existing) (ad_Streams acct) \<rparr>) m
      | None \<Rightarrow> m @ [(ad_Name acct, acct)])"

definition mergeAccounts :: "'x AccountDetail list \<Rightarrow> (string, 'x AccountDetail) gomap \<Rightarrow> (string, 'x AccountDetail) gomap" where
  "mergeAccounts details m = fold merge_account details m"

text \<open>The accounts and their streams by name.\<close>

definition sorted_accounts :: "(string, 'x AccountDetail) gomap \<Rightarrow> 'x AccountDetail list" where
  "sorted_accounts m = map (\<lambda>a. a\<lparr> ad_Streams := sort_key sd_Name (ad_Streams a) \<rparr>) (sort_key ad_Name (map snd m))"

definition archive_CollectAccounts ::
    "('c \<Rightarrow> 'x AccountDetail list server_response option) \<Rightarrow> 'c Reader \<Rightarrow> source_error + 'x AccountDetail list" where
  "archive_CollectAccounts dec r =
     (case archive_Jsz dec r [] no_filter of
        (Some e, _) \<Rightarrow> Inl e
      | (None, responses) \<Rightarrow>
          Inr (sorted_accounts (fold (\<lambda>x m. case sr_Data x of None \<Rightarrow> m | Some d \<Rightarrow> mergeAccounts d m) responses [])))"

subsection \<open>Queues and raft groups\<close>

record IpqueueszStatus =
  iq_Pending :: int
  iq_InProgress :: int

definition keep_queue :: "bool \<Rightarrow> string \<Rightarrow> string \<times> IpqueueszStatus \<Rightarrow> bool" where
  "keep_queue all filt q =
     (case q of
        (name, ipq) \<Rightarrow>
          if \<not> all \<and> iq_Pending ipq = 0 \<and> iq_InProgress ipq = 0 then False
          else \<not> (filt \<noteq> [] \<and> \<not> contains_sub name filt))"

text \<open>The artifacts of all servers with a tag; none is an empty answer.\<close>

definition archive_tagged ::
    "('c \<Rightarrow> 'd server_response option) \<Rightarrow> 'c Reader \<Rightarrow> Tag \<Rightarrow> ('d \<Rightarrow> 'd) \<Rightarrow> EventFilterOptions \<Rightarrow> source_error option \<times> 'd server_response list" where
  "archive_tagged dec r tag narrow filt =
     lift_archive
       (case ForEachTaggedArtifact dec r [tag]
               (\<lambda>x results. if \<not> matchesFilter (sr_Server x) (Some filt) then (None, results) else (None, results @ [update_data narrow x])) [] of
          (Some NoMatches, results) \<Rightarrow> (None, results)
        | (e, results) \<Rightarrow> (e, results))"

definition archive_Ipqueuesz ::
    "('c \<Rightarrow> (string, IpqueueszStatus) gomap server_response option) \<Rightarrow> 'c Reader \<Rightarrow> bool \<Rightarrow> string \<Rightarrow> EventFilterOptions \<Rightarrow>
     source_error option \<times> (string, IpqueueszStatus) gomap server_response list" where
  "archive_Ipqueuesz dec r all name_filter filt = archive_tagged dec r TagAccountIpqueuesz (filter (keep_queue all name_filter)) filt"

definition narrow_raft :: "string \<Rightarrow> string \<Rightarrow> (string, (string, 'g) gomap) gomap \<Rightarrow> (string, (string, 'g) gomap) gomap" where
  "narrow_raft account_filter group_filter d =
     List.map_filter
       (\<lambda>(accountName, groups).
          if account_filter \<noteq> [] \<and> accountName \<noteq> account_filter then None
          else if group_filter \<noteq> [] then
            (let kept = filter (\<lambda>(groupID, _). groupID = group_filter) groups
             in if kept = [] then None else Some (accountName, kept))
          else Some (accountName, groups)) d"

definition archive_Raftz ::
    "('c \<Rightarrow> (string, (string, 'g) gomap) gomap server_response option) \<Rightarrow> 'c Reader \<Rightarrow> string \<Rightarrow> string \<Rightarrow> EventFilterOptions \<Rightarrow>
     source_error option \<times> (string, (string, 'g) gomap) gomap server_response list" where
  "archive_Raftz dec r account_filter group_filter filt =
     archive_tagged dec r TagAccountRaftz (narrow_raft account_filter group_filter) filt"

subsection \<open>Profiles\<close>

text \<open>The last underscore that is not the first character splits off a debug level.\<close>

definition SplitProfileName :: "string \<Rightarrow> string \<times> int" where
  "SplitProfileName tag =
     (let digits = rev (takeWhile (\<lambda>c. c \<noteq> CHR ''_'') (rev tag)); i = length tag - length digits - 1
      in if CHR ''_'' \<in> set tag \<and> i > 0 then
           (case atoi digits of Some n \<Rightarrow> if n \<ge> 0 then (take i tag, n) else (tag, 0) | None \<Rightarrow> (tag, 0))
         else (tag, 0))"

record profile_entry =
  pe_cluster :: string
  pe_server :: string
  pe_name :: string
  pe_fname :: string

text \<open>The file of a profile, by its tags; an unclustered server has no cluster.\<close>

definition profile_entry_of :: "string \<Rightarrow> Tag list \<Rightarrow> profile_entry option" where
  "profile_entry_of fname tags =
     (let cluster = noted clusterTagLabel tags
      in if \<exists>t \<in> set tags. t_Name t = typeTagLabel \<and> t_Value t = profileArtifactType then
           Some \<lparr> pe_cluster = (if cluster = noCluster then [] else cluster), pe_server = noted serverTagLabel tags,
                  pe_name = noted profileNameTagLabel tags, pe_fname = fname \<rparr>
         else None)"

definition sort_profiles :: "profile_entry list \<Rightarrow> profile_entry list" where
  "sort_profiles es = sort_key pe_cluster (sort_key pe_server (sort_key pe_name es))"

text \<open>\<open>files\<close> are the entries of the archive; the callback reads the bytes of an entry itself.\<close>

definition forEachProfileArtifact ::
    "('c \<Rightarrow> (string, Tag list) gomap option) \<Rightarrow> 'c zip_File list option \<Rightarrow>
     (profile_entry \<Rightarrow> (archive_error + 'c) \<Rightarrow> 's \<Rightarrow> archive_error option \<times> 's) \<Rightarrow> 's \<Rightarrow> archive_error option \<times> 's" where
  "forEachProfileArtifact dec archive_files cb s =
     (case archive_files of
        None \<Rightarrow> (Some OpenArchive, s)
      | Some fs \<Rightarrow>
          (case find (\<lambda>f. zf_Name f = ''capture/misc/manifest.json'') fs of
             None \<Rightarrow> (Some ManifestNotFound, s)
           | Some mf \<Rightarrow>
               (case zf_Body mf of
                  None \<Rightarrow> (Some (OpenFile (zf_Name mf)), s)
                | Some body \<Rightarrow>
                    (case dec body of
                       None \<Rightarrow> (Some BadManifest, s)
                     | Some manifest \<Rightarrow>
                         (let fileMap = files_by_name fs;
                              entries = filter (\<lambda>e. map_of fileMap (pe_fname e) \<noteq> None)
                                          (List.map_filter (\<lambda>(fname, tags). profile_entry_of fname tags) manifest)
                          in each_until
                               (\<lambda>e. cb e (case map_of fileMap (pe_fname e) of
                                           Some f \<Rightarrow> (case zf_Body f of Some c \<Rightarrow> Inr c | None \<Rightarrow> Inl (OpenFile (pe_fname e)))
                                         | None \<Rightarrow> Inl (OpenFile (pe_fname e))))
                               (sort_profiles entries) s)))))"

record ProfilezOptions =
  po_Name :: string
  po_Debug :: int
  po_Duration :: int

record 'c ProfilezResponse =
  pr_Server :: "ServerInfo option"
  pr_Data :: "'c option"

definition server_named :: "string \<Rightarrow> string \<Rightarrow> ServerInfo" where
  "server_named srv cluster =
     \<lparr> si_Name = srv, si_ID = [], si_Host = [], si_Cluster = cluster, si_Domain = [], si_Tags = [], si_JetStream = False \<rparr>"

text \<open>The captured information on the servers, the last answer of each.\<close>

definition full_infos :: "'d server_response list \<Rightarrow> (string, ServerInfo) gomap" where
  "full_infos vzs =
     fold (\<lambda>vz m. case sr_Server vz of None \<Rightarrow> m | Some i \<Rightarrow> AList.update (si_Cluster i @ ''/'' @ si_Name i) i m) vzs []"

definition take_profile ::
    "(string, ServerInfo) gomap \<Rightarrow> ProfilezOptions \<Rightarrow> EventFilterOptions \<Rightarrow> profile_entry \<Rightarrow> (archive_error + 'c) \<Rightarrow> 'c ProfilezResponse list \<Rightarrow>
     archive_error option \<times> 'c ProfilezResponse list" where
  "take_profile fullInfo opts filt e bytes results =
     (case SplitProfileName (pe_name e) of
        (name, debug) \<Rightarrow>
          if po_Name opts \<noteq> [] \<and> po_Name opts \<noteq> name then (None, results)
          else if po_Debug opts \<noteq> debug then (None, results)
          else (let info = (case map_of fullInfo (pe_cluster e @ ''/'' @ pe_server e) of
                              Some i \<Rightarrow> i | None \<Rightarrow> server_named (pe_server e) (pe_cluster e))
                in if \<not> matchesFilter (Some info) (Some filt) then (None, results)
                   else case bytes of
                          Inl err \<Rightarrow> (Some err, results)
                        | Inr c \<Rightarrow> (None, results @ [\<lparr> pr_Server = Some info, pr_Data = Some c \<rparr>])))"

definition archive_Profilez ::
    "('c \<Rightarrow> 'd server_response option) \<Rightarrow> ('c \<Rightarrow> (string, Tag list) gomap option) \<Rightarrow> 'c zip_File list option \<Rightarrow> 'c Reader \<Rightarrow>
     ProfilezOptions \<Rightarrow> EventFilterOptions \<Rightarrow> source_error option \<times> 'c ProfilezResponse list" where
  "archive_Profilez dec_varz dec_manifest archive_files r opts filt =
     (let fields = fields_set [(po_Duration opts \<noteq> 0, ''duration''), (ef_Host filt \<noteq> [], ''host''),
                               (ef_Domain filt \<noteq> [], ''domain''), (ef_Tags filt \<noteq> [], ''tags'')]
      in if fields \<noteq> [] then (Some (Unsupported ''profilez'' fields), [])
         else (let fullInfo = (case archive_Varz dec_varz r no_filter of (None, vzs) \<Rightarrow> full_infos vzs | (Some _, _) \<Rightarrow> [])
               in lift_archive (forEachProfileArtifact dec_manifest archive_files (take_profile fullInfo opts filt) [])))"

subsection \<open>Statistics from the other endpoints\<close>

text \<open>The fields the statistics are made of; \<open>'x\<close> is data that is copied.\<close>

record 'x VarzStats =
  vz_Start :: gotime
  vz_Mem :: int
  vz_Cores :: int
  vz_CPU :: rat
  vz_Connections :: int
  vz_TotalConnections :: u64
  vz_Subscriptions :: int
  vz_InMsgs :: u64
  vz_InBytes :: u64
  vz_OutMsgs :: u64
  vz_OutBytes :: u64
  vz_SlowConsumers :: u64
  vz_SlowConsumersStats :: 'x
  vz_MemLimit :: int
  vz_MaxProcs :: int
  vz_JetStream :: 'x
  vz_JetStreamConfigured :: bool

record RouteInfo =
  ri_Rid :: u64
  ri_RemoteName :: string
  ri_InMsgs :: u64
  ri_InBytes :: u64
  ri_OutMsgs :: u64
  ri_OutBytes :: u64
  ri_Pending :: int

record GatewayConn =
  gc_InMsgs :: u64
  gc_InBytes :: u64
  gc_OutMsgs :: u64
  gc_OutBytes :: u64

record GatewayzStats =
  gz_Inbound :: "(string, GatewayConn option list) gomap"
  gz_Outbound :: "(string, GatewayConn option) gomap"

record DataStats =
  ds_Msgs :: u64
  ds_Bytes :: u64

record RouteStat =
  rs_ID :: u64
  rs_Name :: string
  rs_Sent :: DataStats
  rs_Received :: DataStats
  rs_Pending :: int

record GatewayStat =
  gs_Name :: string
  gs_Sent :: DataStats
  gs_Received :: DataStats
  gs_NumInbound :: int

record 'x ServerStats =
  ss_Start :: gotime
  ss_Mem :: int
  ss_Cores :: int
  ss_CPU :: rat
  ss_Connections :: int
  ss_TotalConnections :: u64
  ss_NumSubs :: int
  ss_Sent :: DataStats
  ss_Received :: DataStats
  ss_SlowConsumers :: u64
  ss_SlowConsumersStats :: 'x
  ss_MemLimit :: int
  ss_MaxProcs :: int
  ss_JetStream :: "'x option"
  ss_Routes :: "RouteStat list"
  ss_Gateways :: "GatewayStat list"

definition no_traffic :: DataStats where
  "no_traffic = \<lparr> ds_Msgs = 0, ds_Bytes = 0 \<rparr>"

definition count_traffic :: "u64 \<Rightarrow> u64 \<Rightarrow> DataStats \<Rightarrow> DataStats" where
  "count_traffic msgs bts d = \<lparr> ds_Msgs = ds_Msgs d + msgs, ds_Bytes = ds_Bytes d + bts \<rparr>"

definition route_stat :: "RouteInfo \<Rightarrow> RouteStat" where
  "route_stat ri =
     \<lparr> rs_ID = ri_Rid ri, rs_Name = ri_RemoteName ri, rs_Sent = \<lparr> ds_Msgs = ri_OutMsgs ri, ds_Bytes = ri_OutBytes ri \<rparr>,
       rs_Received = \<lparr> ds_Msgs = ri_InMsgs ri, ds_Bytes = ri_InBytes ri \<rparr>, rs_Pending = ri_Pending ri \<rparr>"

text \<open>The statistics of a gateway, created on first use.\<close>

definition gateway_stat :: "string \<Rightarrow> (string, GatewayStat) gomap \<Rightarrow> GatewayStat" where
  "gateway_stat g m =
     (case map_of m g of Some st \<Rightarrow> st | None \<Rightarrow> \<lparr> gs_Name = g, gs_Sent = no_traffic, gs_Received = no_traffic, gs_NumInbound = 0 \<rparr>)"

definition inbound_stat :: "string \<times> GatewayConn option list \<Rightarrow> (string, GatewayStat) gomap \<Rightarrow> (string, GatewayStat) gomap" where
  "inbound_stat gc m =
     (case gc of
        (g, conns) \<Rightarrow>
          (let stat = gateway_stat g m
           in AList.update g (stat\<lparr> gs_NumInbound := gs_NumInbound stat + int (length conns),
                gs_Received := fold (\<lambda>c d. case c of None \<Rightarrow> d | Some x \<Rightarrow> count_traffic (gc_InMsgs x) (gc_InBytes x) d) conns (gs_Received stat) \<rparr>) m))"

definition outbound_stat :: "string \<times> GatewayConn option \<Rightarrow> (string, GatewayStat) gomap \<Rightarrow> (string, GatewayStat) gomap" where
  "outbound_stat gc m =
     (case gc of
        (g, conn) \<Rightarrow>
          (let stat = gateway_stat g m
           in AList.update g (stat\<lparr> gs_Sent := (case conn of None \<Rightarrow> gs_Sent stat | Some x \<Rightarrow> count_traffic (gc_OutMsgs x) (gc_OutBytes x) (gs_Sent stat)) \<rparr>) m))"

definition gateway_stats :: "GatewayzStats \<Rightarrow> GatewayStat list" where
  "gateway_stats gz = map snd (fold outbound_stat (gz_Outbound gz) (fold inbound_stat (gz_Inbound gz) []))"

definition by_server_id :: "'d server_response list \<Rightarrow> (string, 'd option) gomap" where
  "by_server_id rs = fold (\<lambda>x m. case sr_Server x of None \<Rightarrow> m | Some i \<Rightarrow> AList.update (si_ID i) (sr_Data x) m) rs []"

text \<open>
  The statistics of one server; the routes or gateways of a response without data are a nil pointer that is
  followed.
\<close>

definition server_stats ::
    "(string, RouteInfo list option) gomap \<Rightarrow> (string, GatewayzStats option) gomap \<Rightarrow> ServerInfo \<Rightarrow> 'x VarzStats \<Rightarrow> source_error + ServerInfo \<times> 'x ServerStats" where
  "server_stats routesByID gatewaysByID info v =
     (case map_of routesByID (si_ID info) of
        Some None \<Rightarrow> Inl (NilResponse ''ROUTEZ'')
      | rz \<Rightarrow>
          (case map_of gatewaysByID (si_ID info) of
             Some None \<Rightarrow> Inl (NilResponse ''GATEWAYZ'')
           | gz \<Rightarrow>
               Inr (info,
                 \<lparr> ss_Start = vz_Start v, ss_Mem = vz_Mem v, ss_Cores = vz_Cores v, ss_CPU = vz_CPU v, ss_Connections = vz_Connections v,
                   ss_TotalConnections = vz_TotalConnections v, ss_NumSubs = vz_Subscriptions v,
                   ss_Sent = \<lparr> ds_Msgs = vz_OutMsgs v, ds_Bytes = vz_OutBytes v \<rparr>,
                   ss_Received = \<lparr> ds_Msgs = vz_InMsgs v, ds_Bytes = vz_InBytes v \<rparr>,
                   ss_SlowConsumers = vz_SlowConsumers v, ss_SlowConsumersStats = vz_SlowConsumersStats v, ss_MemLimit = vz_MemLimit v,
                   ss_MaxProcs = vz_MaxProcs v, ss_JetStream = (if vz_JetStreamConfigured v then Some (vz_JetStream v) else None),
                   ss_Routes = (case rz of Some (Some routes) \<Rightarrow> map route_stat routes | _ \<Rightarrow> []),
                   ss_Gateways = (case gz of Some (Some g) \<Rightarrow> gateway_stats g | _ \<Rightarrow> []) \<rparr>)))"

definition ignore_no_matches :: "source_error option \<times> 'a \<Rightarrow> source_error option \<times> 'a" where
  "ignore_no_matches res = (if fst res = Some (ArchiveFailed NoMatches) then (None, snd res) else res)"

definition archive_Statz ::
    "('c \<Rightarrow> 'x VarzStats server_response option) \<Rightarrow> ('c \<Rightarrow> RouteInfo list server_response option) \<Rightarrow> ('c \<Rightarrow> GatewayzStats server_response option) \<Rightarrow>
     'c Reader \<Rightarrow> EventFilterOptions \<Rightarrow> source_error + (ServerInfo \<times> 'x ServerStats) list" where
  "archive_Statz dec_varz dec_routez dec_gatewayz r filt =
     (case archive_Varz dec_varz r filt of
        (Some e, _) \<Rightarrow> Inl e
      | (None, varzResponses) \<Rightarrow>
          (case ignore_no_matches (archive_Routez dec_routez r filt) of
             (Some e, _) \<Rightarrow> Inl e
           | (None, routezResponses) \<Rightarrow>
               (case ignore_no_matches (archive_Gatewayz dec_gatewayz r [] filt) of
                  (Some e, _) \<Rightarrow> Inl e
                | (None, gatewayzResponses) \<Rightarrow>
                    map_err (\<lambda>(i, v). server_stats (by_server_id routezResponses) (by_server_id gatewayzResponses) i v)
                      (List.map_filter (\<lambda>x. case (sr_Server x, sr_Data x) of (Some i, Some v) \<Rightarrow> Some (i, v) | _ \<Rightarrow> None) varzResponses))))"

end
