(* ===== verification/Server_Live.thy ===== *)
theory Server_Live
  imports Server_Archive
begin

text \<open>
  The data of servers from live servers (\<open>src/serverdata/live.go\<close>): one request per endpoint, and the
  accounts of all servers, gathered in pages.
\<close>

record JSzOptions =
  jo_Account :: string
  jo_Accounts :: bool
  jo_Streams :: bool
  jo_Consumer :: bool
  jo_Config :: bool
  jo_RaftGroups :: bool
  jo_DirectConsumer :: bool
  jo_Offset :: int
  jo_Limit :: int

text \<open>The requests: options that are handed on, and the ones that are built here.\<close>

datatype 'o live_request =
    Passed 'o
  | HealthzRequest HealthzOptions EventFilterOptions
  | JszRequest JSzOptions EventFilterOptions

text \<open>The request function of the caller.\<close>

type_synonym ('o, 'c, 's) request_func = "'o live_request \<Rightarrow> string \<Rightarrow> int \<Rightarrow> 's \<Rightarrow> (request_error + 'c list) \<times> 's"

record ('o, 'c, 's) Live =
  lv_reqFn :: "('o, 'c, 's) request_func"
  lv_waitFor :: int

definition NewLive :: "('o, 'c, 's) request_func option \<Rightarrow> int \<Rightarrow> source_error + ('o, 'c, 's) Live" where
  "NewLive reqFn waitFor = (case reqFn of None \<Rightarrow> Inl RequestFuncRequired | Some f \<Rightarrow> Inr \<lparr> lv_reqFn = f, lv_waitFor = waitFor \<rparr>)"

definition unmarshalResponses ::
    "('c \<Rightarrow> 'd option) \<Rightarrow> ('o, 'c, 's) Live \<Rightarrow> 'o live_request \<Rightarrow> string \<Rightarrow> 's \<Rightarrow> (source_error + 'd list) \<times> 's" where
  "unmarshalResponses dec l opts subj s =
     (case lv_reqFn l opts subj (lv_waitFor l) s of
        (Inl e, s1) \<Rightarrow> (Inl (RequestFailed subj e), s1)
      | (Inr results, s1) \<Rightarrow>
          (map_err (\<lambda>raw. case dec raw of None \<Rightarrow> Inl (UnmarshalFailed subj) | Some x \<Rightarrow> Inr x) results, s1))"

definition live_Varz where "live_Varz dec l opts = unmarshalResponses dec l (Passed opts) ''$SYS.REQ.SERVER.PING.VARZ''"
definition live_Connz where "live_Connz dec l opts = unmarshalResponses dec l (Passed opts) ''$SYS.REQ.SERVER.PING.CONNZ''"
definition live_Routez where "live_Routez dec l opts = unmarshalResponses dec l (Passed opts) ''$SYS.REQ.SERVER.PING.ROUTEZ''"
definition live_Gatewayz where "live_Gatewayz dec l opts = unmarshalResponses dec l (Passed opts) ''$SYS.REQ.SERVER.PING.GATEWAYZ''"
definition live_Leafz where "live_Leafz dec l opts = unmarshalResponses dec l (Passed opts) ''$SYS.REQ.SERVER.PING.LEAFZ''"
definition live_Subsz where "live_Subsz dec l opts = unmarshalResponses dec l (Passed opts) ''$SYS.REQ.SERVER.PING.SUBSZ''"
definition live_Jsz where "live_Jsz dec l opts filt = unmarshalResponses dec l (JszRequest opts filt) ''$SYS.REQ.SERVER.PING.JSZ''"
definition live_Healthz where "live_Healthz dec l opts filt = unmarshalResponses dec l (HealthzRequest opts filt) ''$SYS.REQ.SERVER.PING.HEALTHZ''"
definition live_Accountz where "live_Accountz dec l opts = unmarshalResponses dec l (Passed opts) ''$SYS.REQ.SERVER.PING.ACCOUNTZ''"
definition live_Statz where "live_Statz dec l opts = unmarshalResponses dec l (Passed opts) ''$SYS.REQ.SERVER.PING''"
definition live_Ipqueuesz where "live_Ipqueuesz dec l opts = unmarshalResponses dec l (Passed opts) ''$SYS.REQ.SERVER.PING.IPQUEUESZ''"
definition live_Raftz where "live_Raftz dec l opts = unmarshalResponses dec l (Passed opts) ''$SYS.REQ.SERVER.PING.RAFTZ''"
definition live_Profilez where "live_Profilez dec l opts = unmarshalResponses dec l (Passed opts) ''$SYS.REQ.SERVER.PING.PROFILEZ''"

subsection \<open>The accounts of all servers\<close>

definition pageLimit :: nat where "pageLimit = 1024"

definition base_jsz :: JSzOptions where
  "base_jsz =
     \<lparr> jo_Account = [], jo_Accounts = True, jo_Streams = True, jo_Consumer = True, jo_Config = True, jo_RaftGroups = False,
       jo_DirectConsumer = False, jo_Offset = 0, jo_Limit = int pageLimit \<rparr>"

type_synonym 'x account_pages = "(string, 'x AccountDetail) gomap \<times> (string, int) gomap"

text \<open>The first page of every server; a full one asks for more.\<close>

definition first_page :: "'x AccountDetail list server_response \<Rightarrow> 'x account_pages \<Rightarrow> 'x account_pages" where
  "first_page resp st =
     (case (st, sr_Data resp, sr_Server resp) of
        ((accounts, offsets), Some details, Some srv) \<Rightarrow>
          (mergeAccounts details accounts,
           if length details = pageLimit \<and> si_ID srv \<noteq> [] then AList.update (si_ID srv) (int pageLimit) offsets else offsets)
      | _ \<Rightarrow> st)"

text \<open>\<open>$SYS.REQ.SERVER.<id>.JSZ\<close>.\<close>

definition jsz_subject :: "string \<Rightarrow> string" where
  "jsz_subject serverID = ''$SYS.REQ.SERVER.'' @ serverID @ ''.JSZ''"

text \<open>The next page of one server; the server leaves the map of offsets with its last page.\<close>

definition next_page ::
    "('c \<Rightarrow> 'x AccountDetail list server_response option) \<Rightarrow> ('o, 'c, 's) Live \<Rightarrow> string \<times> int \<Rightarrow> 'x account_pages \<times> 's \<Rightarrow> (source_error + 'x account_pages) \<times> 's" where
  "next_page dec l so st =
     (case (so, st) of
        ((serverID, offset), ((accounts, offsets), s)) \<Rightarrow>
          (let subj = jsz_subject serverID; done = AList.delete serverID offsets
           in case lv_reqFn l (JszRequest (base_jsz\<lparr> jo_Offset := offset \<rparr>) no_filter) subj 1 s of
                (Inl e, s1) \<Rightarrow> (Inl (RequestFailed subj e), s1)
              | (Inr [], s1) \<Rightarrow> (Inr (accounts, done), s1)
              | (Inr (raw # _), s1) \<Rightarrow>
                  (case dec raw of
                     None \<Rightarrow> (Inl (UnmarshalFailed subj), s1)
                   | Some jsz \<Rightarrow>
                       (case sr_Data jsz of
                          None \<Rightarrow> (Inr (accounts, done), s1)
                        | Some details \<Rightarrow>
                            (Inr (mergeAccounts details accounts,
                                  if length details = pageLimit then AList.update serverID (offset + int pageLimit) offsets else done), s1)))))"

text \<open>One round over the servers that have more pages, in the order of the iteration over the map.\<close>

fun page_round ::
    "('c \<Rightarrow> 'x AccountDetail list server_response option) \<Rightarrow> ('o, 'c, 's) Live \<Rightarrow> (string \<times> int) list \<Rightarrow> 'x account_pages \<times> 's \<Rightarrow> (source_error + 'x account_pages) \<times> 's" where
  "page_round dec l [] (pages, s) = (Inr pages, s)"
| "page_round dec l (so # rest) st =
     (case next_page dec l so st of (Inl e, s1) \<Rightarrow> (Inl e, s1) | (Inr pages, s1) \<Rightarrow> page_round dec l rest (pages, s1))"

text \<open>Rounds while a server has more pages; \<open>None\<close> is a loop that does not end.\<close>

partial_function (option) page_rounds ::
    "('c \<Rightarrow> 'x AccountDetail list server_response option) \<Rightarrow> ('o, 'c, 's) Live \<Rightarrow> 'x account_pages \<times> 's \<Rightarrow> ((source_error + 'x account_pages) \<times> 's) option" where
  "page_rounds dec l st =
     (case st of
        ((accounts, offsets), s) \<Rightarrow>
          if offsets = [] then Some (Inr (accounts, offsets), s)
          else case page_round dec l offsets st of
                 (Inl e, s1) \<Rightarrow> Some (Inl e, s1)
               | (Inr pages, s1) \<Rightarrow> page_rounds dec l (pages, s1))"

definition live_CollectAccounts ::
    "('c \<Rightarrow> 'x AccountDetail list server_response option) \<Rightarrow> ('o, 'c, 's) Live \<Rightarrow> 's \<Rightarrow> ((source_error + 'x AccountDetail list) \<times> 's) option" where
  "live_CollectAccounts dec l s =
     (case live_Jsz dec l base_jsz no_filter s of
        (Inl e, s1) \<Rightarrow> Some (Inl e, s1)
      | (Inr responses, s1) \<Rightarrow>
          (case page_rounds dec l (fold first_page responses ([], []), s1) of
             None \<Rightarrow> None
           | Some (Inl e, s2) \<Rightarrow> Some (Inl e, s2)
           | Some (Inr (accounts, _), s2) \<Rightarrow> Some (Inr (sorted_accounts accounts), s2)))"

end
