(* ===== verification/Server_Props.thy ===== *)
theory Server_Props
  imports Server_Live Audit_Verdicts
begin

text \<open>
  Properties of the data sources: filters, the names of profiles, and the accounts, which live servers and
  an archive of their answers yield alike.
\<close>

subsection \<open>Filters\<close>

lemma no_filter_matches [simp]: "matchesFilter i (Some no_filter)"
  by (simp add: matchesFilter_def no_filter_def split: option.split)

text \<open>
  What a filter admits: every field it sets is a part of the field of the server, or all of it when the
  match is exact; the name may be the name or the identity; the domain is always exact; and the server has
  every tag, whatever the case and the white space around it.
\<close>

definition field_agrees :: "bool \<Rightarrow> string \<Rightarrow> string \<Rightarrow> bool" where
  "field_agrees exact want field \<longleftrightarrow> (if exact then field = want else \<exists>before after. field = before @ want @ after)"

definition admits :: "EventFilterOptions \<Rightarrow> ServerInfo \<Rightarrow> bool" where
  "admits f i \<longleftrightarrow>
     (ef_Name f = [] \<or> field_agrees (ef_ExactMatch f) (ef_Name f) (si_Name i) \<or> field_agrees (ef_ExactMatch f) (ef_Name f) (si_ID i)) \<and>
     (ef_Host f = [] \<or> field_agrees (ef_ExactMatch f) (ef_Host f) (si_Host i)) \<and>
     (ef_Cluster f = [] \<or> field_agrees (ef_ExactMatch f) (ef_Cluster f) (si_Cluster i)) \<and>
     (ef_Domain f = [] \<or> si_Domain i = ef_Domain f) \<and>
     (\<forall>t \<in> set (ef_Tags f). \<exists>t' \<in> set (si_Tags i). to_lower t' = to_lower (trim_space t))"

lemma field_match: "want \<noteq> [] \<Longrightarrow> matchField field want exact \<longleftrightarrow> field_agrees exact want field"
  by (simp add: matchField_def field_agrees_def contains_sub_iff)

lemma tags_match: "list_all (hasTag tags) ts \<longleftrightarrow> (\<forall>t \<in> set ts. \<exists>t' \<in> set tags. to_lower t' = to_lower (trim_space t))"
  by (simp add: list_all_iff list_ex_iff hasTag_def)

lemma matches_admits: "matchesFilter i (Some f) \<longleftrightarrow> (case i of None \<Rightarrow> True | Some i \<Rightarrow> admits f i)"
proof (cases i)
  case (Some j)
  show ?thesis unfolding Some matchesFilter_def admits_def tags_match
    by (cases "ef_Name f = []"; cases "ef_Host f = []"; cases "ef_Cluster f = []"; cases "ef_Domain f = []") (simp_all add: field_match)
qed (simp add: matchesFilter_def)

lemma archive_all_filtered:
  "archive_all dec r artifactTag filt =
     (case archive_all dec r artifactTag no_filter of (e, xs) \<Rightarrow> (e, filter (\<lambda>x. matchesFilter (sr_Server x) (Some filt)) xs))"
proof -
  let ?cb = "\<lambda>filt (_ :: Tag) (_ :: Tag) (cbError :: archive_error option) (resp :: 'a server_response option) results.
    case resp of None \<Rightarrow> (None :: archive_error option, results)
    | Some x \<Rightarrow> if cbError \<noteq> None \<or> \<not> matchesFilter (sr_Server x) (Some filt) then (None, results) else (None, results @ [x])"
  obtain e n xs where one: "each_server dec r artifactTag (?cb no_filter) (cluster_servers r) (0, []) = (e, n, xs)" by (rule prod_cases3)
  obtain f m ys where two: "each_server dec r artifactTag (?cb filt) (cluster_servers r) (0, []) = (f, m, ys)" by (rule prod_cases3)
  let ?sel = "filter (\<lambda>x. matchesFilter (sr_Server x) (Some filt))"
  have "e = f \<and> ys = ?sel xs"
  proof (rule each_server_rel [where R = "\<lambda>s t. t = ?sel s", OF _ _ one two])
    fix ct st err and x :: "'a server_response option" and s t e s1 f t1
    assume t: "t = ?sel s" and cb: "?cb no_filter ct st err x s = (e, s1)" "?cb filt ct st err x t = (f, t1)"
    show "e = f \<and> t1 = ?sel s1"
    proof (cases x)
      case None
      then show ?thesis using t cb by simp
    next
      case (Some y)
      then show ?thesis using cb unfolding t by (cases "err = None"; cases "matchesFilter (sr_Server y) (Some filt)") auto
    qed
  qed simp
  then show ?thesis by (simp add: archive_all_def EachClusterServerArtifact_def one two)
qed


subsection \<open>Names of profiles\<close>

lemma takeWhile_rev_suffix:
  assumes "c \<notin> set ds"
  shows "rev (takeWhile (\<lambda>x. x \<noteq> c) (rev (name @ c # ds))) = ds"
proof -
  have "takeWhile (\<lambda>x. x \<noteq> c) (rev ds @ c # rev name) = rev ds" using assms by (subst takeWhile_append2) auto
  then show ?thesis by simp
qed

lemma split_profile_suffix:
  assumes "name \<noteq> []" "CHR ''_'' \<notin> set ds"
  shows "SplitProfileName (name @ CHR ''_'' # ds) = (case atoi ds of Some n \<Rightarrow> if n \<ge> 0 then (name, n) else (name @ CHR ''_'' # ds, 0) | None \<Rightarrow> (name @ CHR ''_'' # ds, 0))"
  unfolding SplitProfileName_def takeWhile_rev_suffix [OF assms(2)] Let_def using assms(1) by (simp add: length_greater_0_conv split: option.split)

lemma atoi_itoa: "int n < 2 ^ 63 \<Longrightarrow> atoi (itoa n) = Some (int n)"
proof -
  assume n: "int n < 2 ^ 63"
  obtain c cs where c: "itoa n = c # cs" by (cases "itoa n") auto
  obtain d where "d < 10" "c = digit_char d" using itoa_digits [of c n] c by auto
  then have "(of_char c :: nat) = 48 + d" by (simp add: digit_char_def)
  then have "c \<noteq> CHR ''-''" "c \<noteq> CHR ''+''" by auto
  then show ?thesis using n digits_value_itoa [of n] by (simp add: atoi_def c)
qed

lemma itoa_no_underscore: "CHR ''_'' \<notin> set (itoa n)"
proof
  assume "CHR ''_'' \<in> set (itoa n)"
  then obtain d where "d < 10" "CHR ''_'' = digit_char d" using itoa_digits by blast
  then show False using digit_char_cases [of d] by auto
qed

text \<open>
  The name of a profile comes apart as it was put together: a name with a debug level gives both, a
  name without an underscore has level zero.
\<close>

theorem profile_name_roundtrip:
  assumes "name \<noteq> []" "int n < 2 ^ 63" "CHR ''_'' \<notin> set plain"
  shows "SplitProfileName (name @ ''_'' @ itoa n) = (name, int n) \<and> SplitProfileName plain = (plain, 0)"
proof
  have "SplitProfileName (name @ CHR ''_'' # itoa n) = (name, int n)"
    unfolding split_profile_suffix [OF assms(1) itoa_no_underscore] atoi_itoa [OF assms(2)] by simp
  then show "SplitProfileName (name @ ''_'' @ itoa n) = (name, int n)" by simp
  show "SplitProfileName plain = (plain, 0)" using assms(3) by (simp add: SplitProfileName_def Let_def)
qed

lemma profile_name_roundtrip_witness:
  "SplitProfileName (''goroutine'' @ ''_'' @ itoa 2) = (''goroutine'', int 2) \<and> SplitProfileName ''heap'' = (''heap'', 0)"
  by (rule profile_name_roundtrip) simp_all

subsection \<open>Accounts\<close>

text \<open>What is collected of account details: the accounts and the names of their streams, sorted and once each.\<close>

definition streams_of :: "'x AccountDetail list \<Rightarrow> string \<Rightarrow> string set" where
  "streams_of ds n = (\<Union>a \<in> {a \<in> set ds. ad_Name a = n}. sd_Name ` set (ad_Streams a))"

definition collected :: "'x AccountDetail list \<Rightarrow> (string \<times> string list) list" where
  "collected ds = map (\<lambda>n. (n, sorted_list_of_set (streams_of ds n))) (sorted_list_of_set (ad_Name ` set ds))"

definition account_names :: "'x AccountDetail list \<Rightarrow> (string \<times> string list) list" where
  "account_names as = map (\<lambda>a. (ad_Name a, map sd_Name (ad_Streams a))) as"

definition plain_details :: "'x AccountDetail list \<Rightarrow> bool" where
  "plain_details ds \<longleftrightarrow> list_all (\<lambda>a. distinct (map sd_Name (ad_Streams a))) ds"

lemma collected_cong: "set ds = set es \<Longrightarrow> collected ds = collected es"
  by (simp add: collected_def streams_of_def)

lemma fold_new_streams:
  "distinct (map sd_Name (fold (\<lambda>s result. if sd_Name s \<in> sd_Name ` set result then result else result @ [s]) ss rs)) \<longleftrightarrow> distinct (map sd_Name rs)"
  "sd_Name ` set (fold (\<lambda>s result. if sd_Name s \<in> sd_Name ` set result then result else result @ [s]) ss rs) = sd_Name ` set rs \<union> sd_Name ` set ss"
  by (induction ss arbitrary: rs) auto

lemma mergeStreams_names:
  "distinct (map sd_Name (mergeStreams a b))" "sd_Name ` set (mergeStreams a b) = sd_Name ` set a \<union> sd_Name ` set b"
  unfolding mergeStreams_def fold_new_streams by auto

definition merged_ok :: "'x AccountDetail list \<Rightarrow> (string, 'x AccountDetail) gomap \<Rightarrow> bool" where
  "merged_ok ds m \<longleftrightarrow>
     distinct (map fst m) \<and> fst ` set m = ad_Name ` set ds \<and>
     (\<forall>k a. map_of m k = Some a \<longrightarrow> ad_Name a = k \<and> distinct (map sd_Name (ad_Streams a)) \<and> sd_Name ` set (ad_Streams a) = streams_of ds k)"

lemma streams_of_snoc: "streams_of (ds @ [d]) k = streams_of ds k \<union> (if ad_Name d = k then sd_Name ` set (ad_Streams d) else {})"
  by (auto simp: streams_of_def)

lemma streams_of_new: "k \<notin> ad_Name ` set ds \<Longrightarrow> streams_of ds k = {}"
  by (auto simp: streams_of_def)

lemma merge_account_ok:
  assumes ok: "merged_ok ds m" and d: "distinct (map sd_Name (ad_Streams d))"
  shows "merged_ok (ds @ [d]) (merge_account d m)"
proof (cases "map_of m (ad_Name d)")
  case None
  then have new: "ad_Name d \<notin> ad_Name ` set ds" using ok by (simp add: merged_ok_def map_of_eq_None_iff)
  have m1: "merge_account d m = m @ [(ad_Name d, d)]" using None by (simp add: merge_account_def)
  have at: "map_of (m @ [(ad_Name d, d)]) k = (if k = ad_Name d then Some d else map_of m k)" for k
    using None by (simp add: map_add_def split: option.split)
  have "distinct (map fst (m @ [(ad_Name d, d)]))" "fst ` set (m @ [(ad_Name d, d)]) = ad_Name ` set (ds @ [d])"
    using ok new by (simp_all add: merged_ok_def)
  moreover have "ad_Name x = k \<and> distinct (map sd_Name (ad_Streams x)) \<and> sd_Name ` set (ad_Streams x) = streams_of (ds @ [d]) k"
    if "map_of (m @ [(ad_Name d, d)]) k = Some x" for k x
    using that ok d streams_of_new [OF new] unfolding at streams_of_snoc by (auto simp: merged_ok_def split: if_splits)
  ultimately show ?thesis unfolding m1 merged_ok_def by blast
next
  case (Some e)
  then have e: "ad_Name e = ad_Name d" "sd_Name ` set (ad_Streams e) = streams_of ds (ad_Name d)" using ok by (auto simp: merged_ok_def)
  have "ad_Name d \<in> fst ` set m" using Some by (force dest: map_of_SomeD)
  then have keys: "fst ` set m = insert (ad_Name d) (ad_Name ` set ds)" using ok by (auto simp: merged_ok_def)
  let ?e = "e\<lparr> ad_Streams := mergeStreams (ad_Streams e) (ad_Streams d) \<rparr>"
  have "map_of (AList.update (ad_Name d) ?e m) k = (if k = ad_Name d then Some ?e else map_of m k)" for k by (simp add: update_conv')
  moreover have "distinct (map fst (AList.update (ad_Name d) ?e m))" using ok by (simp add: merged_ok_def distinct_update)
  moreover have "fst ` set (AList.update (ad_Name d) ?e m) = ad_Name ` set (ds @ [d])" using keys ok by (auto simp: dom_update merged_ok_def)
  ultimately show ?thesis using ok Some e by (simp add: merged_ok_def merge_account_def streams_of_snoc mergeStreams_names)
qed

lemma mergeAccounts_ok:
  assumes "plain_details ds"
  shows "merged_ok es m \<Longrightarrow> merged_ok (es @ ds) (mergeAccounts ds m)"
  using assms
proof (induction ds arbitrary: es m)
  case (Cons d ds)
  then have "merged_ok (es @ [d]) (merge_account d m)" by (intro merge_account_ok) (simp_all add: plain_details_def)
  from Cons.IH [OF this] Cons.prems(2) show ?case by (simp add: mergeAccounts_def plain_details_def)
qed (simp add: mergeAccounts_def)

lemma merged_ok_Nil: "merged_ok [] []"
  by (simp add: merged_ok_def)

lemma map_sorted_key: "map f (sort_key f xs) = sort (map f xs)"
  by (simp add: sort_key_map)

lemma sort_distinct: "distinct xs \<Longrightarrow> sort xs = sorted_list_of_set (set xs)"
  by (simp add: sorted_list_of_set_sort_remdups distinct_remdups_id)

lemma sorted_accounts_collected:
  assumes ok: "merged_ok ds m"
  shows "account_names (sorted_accounts m) = collected ds"
proof -
  let ?as = "sort_key ad_Name (map snd m)"
  have at: "map_of m (ad_Name a) = Some a" if "a \<in> set (map snd m)" for a
  proof -
    obtain k where k: "(k, a) \<in> set m" using \<open>a \<in> set (map snd m)\<close> by auto
    then have "map_of m k = Some a" using ok by (simp add: merged_ok_def)
    then show ?thesis using ok by (simp add: merged_ok_def)
  qed
  have key: "ad_Name (snd x) = fst x" if "x \<in> set m" for x
  proof -
    have "map_of m (fst x) = Some (snd x)" using ok that by (simp add: merged_ok_def)
    then show ?thesis using ok unfolding merged_ok_def by blast
  qed
  have names: "map ad_Name (map snd m) = map fst m"
    unfolding map_map by (rule map_cong) (simp_all add: key)
  have streams: "map sd_Name (sort_key sd_Name (ad_Streams a)) = sorted_list_of_set (streams_of ds (ad_Name a))" if "a \<in> set ?as" for a
  proof -
    have a: "map_of m (ad_Name a) = Some a" using that by (intro at) simp
    have "distinct (map sd_Name (ad_Streams a)) \<and> sd_Name ` set (ad_Streams a) = streams_of ds (ad_Name a)"
      using ok a unfolding merged_ok_def by blast
    then show ?thesis by (simp add: map_sorted_key sort_distinct)
  qed
  have "account_names (sorted_accounts m) = map (\<lambda>a. (ad_Name a, sorted_list_of_set (streams_of ds (ad_Name a)))) ?as"
    using streams by (simp add: account_names_def sorted_accounts_def)
  also have "\<dots> = map (\<lambda>n. (n, sorted_list_of_set (streams_of ds n))) (map ad_Name ?as)" by simp
  also have "map ad_Name ?as = sorted_list_of_set (ad_Name ` set ds)"
    using ok unfolding map_sorted_key names by (simp add: merged_ok_def sort_distinct)
  finally show ?thesis by (simp add: collected_def)
qed

lemma collected_of_details: "plain_details ds \<Longrightarrow> account_names (sorted_accounts (mergeAccounts ds [])) = collected ds"
  using sorted_accounts_collected [OF mergeAccounts_ok [OF _ merged_ok_Nil]] by simp

subsection \<open>The accounts of live servers\<close>

text \<open>Servers that answer the requests for accounts with pages of their accounts.\<close>

type_synonym 'x servers = "(string, 'x AccountDetail list) gomap"

definition page_at :: "nat \<Rightarrow> 'a list \<Rightarrow> 'a list" where
  "page_at k xs = take pageLimit (drop k xs)"

definition first_answer :: "(string \<Rightarrow> ServerInfo) \<Rightarrow> string \<times> 'x AccountDetail list \<Rightarrow> 'x AccountDetail list server_response" where
  "first_answer info sv = \<lparr> sr_Server = Some (info (fst sv)), sr_Data = Some (page_at 0 (snd sv)), sr_Error = None \<rparr>"

definition servers_ok :: "(string \<Rightarrow> ServerInfo) \<Rightarrow> 'x servers \<Rightarrow> bool" where
  "servers_ok info servers \<longleftrightarrow>
     distinct (map fst servers) \<and>
     list_all (\<lambda>(i, ds). i \<noteq> [] \<and> si_ID (info i) = i \<and> plain_details ds) servers"

definition serves_accounts ::
    "('c \<Rightarrow> 'x AccountDetail list server_response option) \<Rightarrow> ('o, 'c, 's) Live \<Rightarrow> (string \<Rightarrow> ServerInfo) \<Rightarrow> 'x servers \<Rightarrow> bool" where
  "serves_accounts dec l info servers \<longleftrightarrow>
     (\<forall>s. \<exists>raws s1. lv_reqFn l (JszRequest base_jsz no_filter) ''$SYS.REQ.SERVER.PING.JSZ'' (lv_waitFor l) s = (Inr raws, s1) \<and>
        map dec raws = map (\<lambda>sv. Some (first_answer info sv)) servers) \<and>
     (\<forall>i ds k s. map_of servers i = Some ds \<longrightarrow>
        (\<exists>raw s1 x. lv_reqFn l (JszRequest (base_jsz\<lparr> jo_Offset := int k \<rparr>) no_filter) (jsz_subject i) 1 s = (Inr [raw], s1) \<and>
           dec raw = Some x \<and> sr_Data x = Some (page_at k ds)))"

text \<open>The state after \<open>lev i\<close> pages of server \<open>i\<close>.\<close>

definition fetched :: "'x servers \<Rightarrow> (string \<Rightarrow> nat) \<Rightarrow> 'x AccountDetail set" where
  "fetched servers lev = {d. \<exists>i ds. map_of servers i = Some ds \<and> d \<in> set (take (lev i * pageLimit) ds)}"

definition offset_at :: "'x servers \<Rightarrow> (string \<Rightarrow> nat) \<Rightarrow> string \<Rightarrow> int option" where
  "offset_at servers lev i =
     (case map_of servers i of
        Some ds \<Rightarrow> if lev i * pageLimit \<le> length ds then Some (int (lev i * pageLimit)) else None
      | None \<Rightarrow> None)"

definition pages_inv :: "'x servers \<Rightarrow> (string \<Rightarrow> nat) \<Rightarrow> 'x account_pages \<Rightarrow> bool" where
  "pages_inv servers lev st \<longleftrightarrow>
     (\<exists>D. fst st = mergeAccounts D [] \<and> plain_details D \<and> set D = fetched servers lev) \<and>
     distinct (map fst (snd st)) \<and> (\<forall>i. map_of (snd st) i = offset_at servers lev i)"

lemma mergeAccounts_append: "mergeAccounts (D @ E) m = mergeAccounts E (mergeAccounts D m)"
  by (simp add: mergeAccounts_def)

lemma plain_details_append [simp]: "plain_details (D @ E) \<longleftrightarrow> plain_details D \<and> plain_details E"
  by (simp add: plain_details_def)

lemma plain_details_page: "plain_details ds \<Longrightarrow> plain_details (page_at k ds)"
  by (auto simp: plain_details_def page_at_def list_all_iff dest: in_set_takeD in_set_dropD)

lemma page_step: "set (take (Suc n * pageLimit) ds) = set (take (n * pageLimit) ds) \<union> set (page_at (n * pageLimit) ds)"
proof -
  have "take (Suc n * pageLimit) ds = take (n * pageLimit) ds @ page_at (n * pageLimit) ds"
    by (simp add: page_at_def take_add [symmetric] add.commute)
  then show ?thesis by simp
qed

lemma full_page: "length (page_at (n * pageLimit) ds) = pageLimit \<longleftrightarrow> Suc n * pageLimit \<le> length ds"
  by (auto simp: page_at_def pageLimit_def)

lemma fetched_step:
  assumes "map_of servers i = Some ds"
  shows "fetched servers (lev(i := Suc (lev i))) = fetched servers lev \<union> set (page_at (lev i * pageLimit) ds)"
proof -
  have key: "d \<in> set (take ((lev(i := Suc (lev i))) j * pageLimit) es) \<longleftrightarrow>
      d \<in> set (take (lev j * pageLimit) es) \<or> (j = i \<and> d \<in> set (page_at (lev i * pageLimit) es))" for d j es
  proof (cases "j = i")
    case True
    then show ?thesis using page_step [of "lev i" es] by simp
  next
    case False
    then show ?thesis by simp
  qed
  have "d \<in> fetched servers (lev(i := Suc (lev i))) \<longleftrightarrow> d \<in> fetched servers lev \<or> d \<in> set (page_at (lev i * pageLimit) ds)" for d
    unfolding fetched_def mem_Collect_eq key using assms by auto
  then show ?thesis by blast
qed

lemma next_page_inv:
  assumes ok: "servers_ok info servers" and serve: "serves_accounts dec l info servers"
    and inv: "pages_inv servers lev st" and at: "map_of (snd st) i = Some k"
  shows "\<exists>st1 s1. next_page dec l (i, k) (st, s) = (Inr st1, s1) \<and> pages_inv servers (lev(i := Suc (lev i))) st1"
proof -
  obtain accounts offsets where st: "st = (accounts, offsets)" by (cases st)
  obtain ds where ds: "map_of servers i = Some ds" "k = int (lev i * pageLimit)" "lev i * pageLimit \<le> length ds"
    using inv at by (auto simp: pages_inv_def offset_at_def split: option.splits if_splits)
  obtain D where D: "accounts = mergeAccounts D []" "plain_details D" "set D = fetched servers lev" using inv by (auto simp: pages_inv_def st)
  let ?page = "page_at (lev i * pageLimit) ds"
  have plain: "plain_details ?page"
    using ok map_of_SomeD [OF ds(1)] by (intro plain_details_page) (auto simp: servers_ok_def list_all_iff)
  obtain raw s1 x where req: "lv_reqFn l (JszRequest (base_jsz\<lparr> jo_Offset := k \<rparr>) no_filter) (jsz_subject i) 1 s = (Inr [raw], s1)"
    "dec raw = Some x" "sr_Data x = Some ?page"
    using serve ds(1) unfolding serves_accounts_def ds(2) by meson
  let ?offsets = "if length ?page = pageLimit then AList.update i (k + int pageLimit) offsets else AList.delete i offsets"
  have next1: "next_page dec l (i, k) (st, s) = (Inr (mergeAccounts ?page accounts, ?offsets), s1)"
    by (simp add: next_page_def st Let_def req)
  have "mergeAccounts ?page accounts = mergeAccounts (D @ ?page) []" by (simp add: D(1) mergeAccounts_append)
  moreover have "plain_details (D @ ?page)" using D(2) plain by simp
  moreover have "set (D @ ?page) = fetched servers (lev(i := Suc (lev i)))"
    using fetched_step [OF ds(1), of lev] D(3) by simp
  moreover have "distinct (map fst ?offsets)" using inv by (auto simp: pages_inv_def st distinct_update distinct_delete)
  moreover have "map_of ?offsets j = offset_at servers (lev(i := Suc (lev i))) j" for j
  proof (cases "j = i")
    case True
    then show ?thesis unfolding full_page by (simp add: offset_at_def ds delete_conv' update_conv' add.commute)
  next
    case False
    then have "map_of ?offsets j = map_of offsets j" by (simp add: delete_conv' update_conv')
    also have "\<dots> = offset_at servers lev j" using inv by (simp add: pages_inv_def st)
    finally show ?thesis using False by (simp add: offset_at_def split: option.split)
  qed
  ultimately have "pages_inv servers (lev(i := Suc (lev i))) (mergeAccounts ?page accounts, ?offsets)"
    unfolding pages_inv_def fst_conv snd_conv by blast
  then show ?thesis using next1 by blast
qed

lemma page_round_inv:
  assumes ok: "servers_ok info servers" and serve: "serves_accounts dec l info servers"
  shows "pages_inv servers lev st \<Longrightarrow> \<forall>(i, k) \<in> set todo. map_of (snd st) i = Some k \<Longrightarrow> distinct (map fst todo) \<Longrightarrow>
    \<exists>st1 s1. page_round dec l todo (st, s) = (Inr st1, s1) \<and> pages_inv servers (\<lambda>i. if i \<in> fst ` set todo then Suc (lev i) else lev i) st1"
proof (induction todo arbitrary: lev st s)
  case (Cons x todo)
  obtain i k where x: "x = (i, k)" by (cases x)
  have at: "map_of (snd st) i = Some k" using Cons.prems(2) by (simp add: x)
  obtain st1 s1 where one: "next_page dec l (i, k) (st, s) = (Inr st1, s1)" "pages_inv servers (lev(i := Suc (lev i))) st1"
    using next_page_inv [OF ok serve Cons.prems(1) at] by blast
  have new: "i \<notin> fst ` set todo" using Cons.prems(3) by (simp add: x)
  have "map_of (snd st1) j = Some k" if "(j, k) \<in> set todo" for j k
  proof -
    have "j \<noteq> i" using new that by force
    then have "map_of (snd st1) j = map_of (snd st) j"
      using one(2) Cons.prems(1) by (simp add: pages_inv_def offset_at_def split: option.split)
    then show ?thesis using Cons.prems(2) that by auto
  qed
  then have todo: "\<forall>(i, k) \<in> set todo. map_of (snd st1) i = Some k" by blast
  obtain st2 s2 where two: "page_round dec l todo (st1, s1) = (Inr st2, s2)"
    "pages_inv servers (\<lambda>j. if j \<in> fst ` set todo then Suc ((lev(i := Suc (lev i))) j) else (lev(i := Suc (lev i))) j) st2"
    using Cons.IH [OF one(2) todo, of s1] Cons.prems(3) unfolding x list.map distinct.simps by blast
  have "(\<lambda>j. if j \<in> fst ` set todo then Suc ((lev(i := Suc (lev i))) j) else (lev(i := Suc (lev i))) j) =
    (\<lambda>j. if j \<in> fst ` set (x # todo) then Suc (lev j) else lev j)" using new by (auto simp: x fun_eq_iff)
  then show ?case using one(1) two by (simp add: x)
qed simp

lemma pages_inv_level:
  assumes inv: "pages_inv servers (\<lambda>i. if i \<in> K then Suc k else k) st"
    and K: "\<And>i. i \<notin> K \<Longrightarrow> offset_at servers (\<lambda>_. k) i = None"
  shows "pages_inv servers (\<lambda>_. Suc k) st"
proof -
  have short: "length ds < k * pageLimit" if "map_of servers i = Some ds" "i \<notin> K" for i ds
    using K [OF that(2)] that(1) by (simp add: offset_at_def split: if_splits)
  have "offset_at servers (\<lambda>i. if i \<in> K then Suc k else k) i = offset_at servers (\<lambda>_. Suc k) i" for i
    using short [of i] by (cases "i \<in> K") (auto simp: offset_at_def split: option.split)
  moreover have "take ((if i \<in> K then Suc k else k) * pageLimit) ds = take (Suc k * pageLimit) ds" if "map_of servers i = Some ds" for i ds
    using short [OF that] by (cases "i \<in> K") simp_all
  then have "fetched servers (\<lambda>i. if i \<in> K then Suc k else k) = fetched servers (\<lambda>_. Suc k)"
    unfolding fetched_def by (intro Collect_cong) (metis (no_types, lifting))
  ultimately show ?thesis using inv by (simp add: pages_inv_def)
qed

lemma page_rounds_end:
  assumes ok: "servers_ok info servers" and serve: "serves_accounts dec l info servers"
    and bound: "\<And>i ds. map_of servers i = Some ds \<Longrightarrow> length ds < (k + n) * pageLimit"
    and inv: "pages_inv servers (\<lambda>_. k) st"
  shows "\<exists>accounts m s1. page_rounds dec l (st, s) = Some (Inr (accounts, []), s1) \<and> pages_inv servers (\<lambda>_. m) (accounts, [])"
  using bound inv
proof (induction n arbitrary: k st s)
  case 0
  have "map_of (snd st) i = None" for i
    using 0 by (force simp: pages_inv_def offset_at_def split: option.split)
  then have "snd st = []" by (metis map_of_eq_empty_iff ext)
  then show ?case using 0(2) by (cases st) (auto simp: page_rounds.simps)
next
  case (Suc n)
  obtain accounts offsets where st: "st = (accounts, offsets)" by (cases st)
  show ?case
  proof (cases "offsets = []")
    case True
    then show ?thesis using Suc.prems(2) by (auto simp: page_rounds.simps st)
  next
    case False
    have dist: "distinct (map fst offsets)" using Suc.prems(2) by (simp add: pages_inv_def st)
    have cur: "\<forall>(i, k) \<in> set offsets. map_of (snd st) i = Some k" using dist by (auto simp: st)
    obtain st1 s1 where one: "page_round dec l offsets (st, s) = (Inr st1, s1)"
      "pages_inv servers (\<lambda>i. if i \<in> fst ` set offsets then Suc k else k) st1"
      using page_round_inv [OF ok serve Suc.prems(2) cur dist] by blast
    have "pages_inv servers (\<lambda>_. Suc k) st1"
    proof (rule pages_inv_level [OF one(2)])
      fix i assume "i \<notin> fst ` set offsets"
      then have "map_of offsets i = None" by (simp add: map_of_eq_None_iff)
      then show "offset_at servers (\<lambda>_. k) i = None" using Suc.prems(2) by (simp add: pages_inv_def st)
    qed
    from Suc.IH [of "Suc k", OF _ this, of s1] Suc.prems(1) obtain a m s2 where
      "page_rounds dec l (st1, s1) = Some (Inr (a, []), s2)" "pages_inv servers (\<lambda>_. m) (a, [])" by auto
    moreover have "page_rounds dec l (st, s) = page_rounds dec l (st1, s1)"
      using False one(1) by (subst page_rounds.simps) (simp add: st)
    ultimately show ?thesis by metis
  qed
qed

lemma first_pages_inv:
  assumes "servers_ok info servers"
  shows "pages_inv servers (\<lambda>_. 1) (fold first_page (map (first_answer info) servers) ([], []))"
  using assms
proof (induction servers rule: rev_induct)
  case Nil
  have "plain_details []" by (simp add: plain_details_def)
  then show ?case by (simp add: pages_inv_def fetched_def offset_at_def mergeAccounts_def exI [of _ "[]"])
next
  case (snoc x us)
  obtain i ds where x: "x = (i, ds)" by (cases x)
  have ok: "servers_ok info us" "i \<noteq> []" "si_ID (info i) = i" "plain_details ds" "i \<notin> fst ` set us"
    using snoc.prems by (auto simp: servers_ok_def x)
  obtain accounts offsets where st: "fold first_page (map (first_answer info) us) ([], []) = (accounts, offsets)" by (cases "fold first_page (map (first_answer info) us) ([], [])")
  have inv: "pages_inv us (\<lambda>_. 1) (accounts, offsets)" using snoc.IH [OF ok(1)] by (simp add: st)
  obtain D where D: "accounts = mergeAccounts D []" "plain_details D" "set D = fetched us (\<lambda>_. 1)" using inv by (auto simp: pages_inv_def)
  have new: "map_of us i = None" using ok(5) by (simp add: map_of_eq_None_iff)
  have at: "map_of (us @ [x]) j = (if j = i then Some ds else map_of us j)" for j
    using new by (simp add: x map_add_def split: option.split)
  let ?page = "page_at 0 ds"
  let ?offsets = "if length ?page = pageLimit then AList.update i (int pageLimit) offsets else offsets"
  have "mergeAccounts ?page accounts = mergeAccounts (D @ ?page) []" by (simp add: D(1) mergeAccounts_append)
  moreover have "plain_details (D @ ?page)" using D(2) plain_details_page [OF ok(4)] by simp
  moreover have "set (D @ ?page) = fetched (us @ [x]) (\<lambda>_. 1)"
  proof -
    have "d \<in> fetched (us @ [x]) (\<lambda>_. 1) \<longleftrightarrow> d \<in> fetched us (\<lambda>_. 1) \<or> d \<in> set ?page" for d
      unfolding fetched_def mem_Collect_eq at page_at_def using new by (cases "d \<in> set (take pageLimit ds)") (auto, metis option.distinct(1))
    then show ?thesis using D(3) by auto
  qed
  moreover have "distinct (map fst ?offsets)" using inv by (simp add: pages_inv_def distinct_update)
  moreover have "map_of ?offsets j = offset_at (us @ [x]) (\<lambda>_. 1) j" for j
  proof (cases "j = i")
    case True
    have "map_of offsets i = None" using inv new by (simp add: pages_inv_def offset_at_def)
    then show ?thesis using full_page [of 0 ds] unfolding offset_at_def at by (simp add: True update_conv')
  next
    case False
    then have "map_of ?offsets j = map_of offsets j" by (simp add: update_conv')
    also have "\<dots> = offset_at us (\<lambda>_. 1) j" using inv by (simp add: pages_inv_def)
    finally show ?thesis using False unfolding offset_at_def at by simp
  qed
  ultimately have "pages_inv (us @ [x]) (\<lambda>_. 1) (mergeAccounts ?page accounts, ?offsets)"
    unfolding pages_inv_def fst_conv snd_conv by blast
  moreover have "fold first_page (map (first_answer info) (us @ [x])) ([], []) = (mergeAccounts ?page accounts, ?offsets)"
    using ok(2,3) by (simp add: st x first_page_def first_answer_def)
  ultimately show ?case by simp
qed

lemma map_err_decoded:
  assumes "map dec raws = map (\<lambda>y. Some (f y)) ys"
  shows "map_err (\<lambda>raw. case dec raw of None \<Rightarrow> Inl e | Some x \<Rightarrow> Inr x) raws = Inr (map f ys)"
  using assms
proof (induction raws arbitrary: ys)
  case (Cons r raws)
  then obtain y zs where "ys = y # zs" "dec r = Some (f y)" by (cases ys) auto
  then show ?case using Cons by simp
qed simp

text \<open>
  C18. The accounts of live servers: when the servers answer with pages of their accounts, however many
  there are, collecting the accounts returns, with every account of every server once, in order, and with
  every stream any server reports for it once, in order.
\<close>

theorem live_accounts_complete:
  assumes "servers_ok info servers" "serves_accounts dec l info servers"
  shows "\<exists>as s1. live_CollectAccounts dec l s = Some (Inr as, s1) \<and> account_names as = collected (concat (map snd servers))"
proof -
  obtain raws s1 where req: "lv_reqFn l (JszRequest base_jsz no_filter) ''$SYS.REQ.SERVER.PING.JSZ'' (lv_waitFor l) s = (Inr raws, s1)"
    "map dec raws = map (\<lambda>sv. Some (first_answer info sv)) servers"
    using assms(2) unfolding serves_accounts_def by blast
  have first: "live_Jsz dec l base_jsz no_filter s = (Inr (map (first_answer info) servers), s1)"
    by (simp add: live_Jsz_def unmarshalResponses_def req(1) map_err_decoded [OF req(2)])
  have "\<exists>n. \<forall>ds \<in> snd ` set servers. length ds < (1 + n) * pageLimit"
  proof -
    have "length ds < (1 + sum_list (map (length o snd) servers)) * pageLimit" if "ds \<in> snd ` set servers" for ds
    proof -
      have "length ds \<le> sum_list (map (length o snd) servers)" using that by (intro member_le_sum_list) force+
      then show ?thesis by (simp add: pageLimit_def)
    qed
    then show ?thesis by blast
  qed
  then obtain n where n: "\<And>i ds. map_of servers i = Some ds \<Longrightarrow> length ds < (1 + n) * pageLimit" by (force dest: map_of_SomeD)
  have "\<exists>accounts m s2. page_rounds dec l (fold first_page (map (first_answer info) servers) ([], []), s1) = Some (Inr (accounts, []), s2) \<and>
    pages_inv servers (\<lambda>_. m) (accounts, [])"
    by (rule page_rounds_end [OF assms _ first_pages_inv [OF assms(1)]]) (rule n)
  then obtain accounts m s2 where
    loop: "page_rounds dec l (fold first_page (map (first_answer info) servers) ([], []), s1) = Some (Inr (accounts, []), s2)"
    "pages_inv servers (\<lambda>_. m) (accounts, [])" by blast
  obtain D where D: "accounts = mergeAccounts D []" "plain_details D" "set D = fetched servers (\<lambda>_. m)" using loop(2) by (auto simp: pages_inv_def)
  have all: "take (m * pageLimit) ds = ds" if "map_of servers i = Some ds" for i ds
  proof -
    have "offset_at servers (\<lambda>_. m) i = None" using loop(2) by (simp add: pages_inv_def)
    then show ?thesis using that by (simp add: offset_at_def split: if_splits)
  qed
  have "set D = set (concat (map snd servers))"
  proof -
    have "d \<in> fetched servers (\<lambda>_. m) \<longleftrightarrow> (\<exists>i ds. map_of servers i = Some ds \<and> d \<in> set ds)" for d
      unfolding fetched_def mem_Collect_eq using all by metis
    moreover have "map_of servers i = Some ds \<longleftrightarrow> (i, ds) \<in> set servers" for i ds
      using assms(1) by (simp add: servers_ok_def)
    ultimately show ?thesis unfolding D(3) by force
  qed
  then have "account_names (sorted_accounts accounts) = collected (concat (map snd servers))"
    unfolding D(1) collected_of_details [OF D(2)] by (rule collected_cong)
  then show ?thesis by (simp add: live_CollectAccounts_def first loop(1))
qed

text \<open>Two servers, one of them with more accounts than a page holds; the answers are their own decoding.\<close>

definition witness_accounts :: "nat \<Rightarrow> nat AccountDetail list" where
  "witness_accounts n = map (\<lambda>i. \<lparr> ad_Name = itoa i, ad_Streams = [\<lparr> sd_Name = ''S'', sd_Info = i \<rparr>] \<rparr>) [0 ..< n]"

definition witness_servers :: "nat servers" where
  "witness_servers = [(''A'', witness_accounts 3), (''B'', witness_accounts 2500)]"

definition witness_info :: "string \<Rightarrow> ServerInfo" where
  "witness_info i = (server_named i ''c'')\<lparr> si_ID := i \<rparr>"

definition witness_live :: "(unit, nat AccountDetail list server_response, nat) Live" where
  "witness_live =
     \<lparr> lv_reqFn = (\<lambda>req subj waitFor n.
         (case req of
            JszRequest opts _ \<Rightarrow>
              if subj = ''$SYS.REQ.SERVER.PING.JSZ'' then Inr (map (first_answer witness_info) witness_servers)
              else Inr [\<lparr> sr_Server = None, sr_Data = map_option (page_at (nat (jo_Offset opts)))
                           (map_of (map (\<lambda>(i, ds). (jsz_subject i, ds)) witness_servers) subj), sr_Error = None \<rparr>]
          | _ \<Rightarrow> Inr [], n + 1)),
       lv_waitFor = 2 \<rparr>"

lemma witness_servers_ok: "servers_ok witness_info witness_servers"
  by (auto simp: servers_ok_def witness_servers_def witness_info_def server_named_def plain_details_def witness_accounts_def list_all_iff)

lemma witness_serves: "serves_accounts Some witness_live witness_info witness_servers"
  unfolding serves_accounts_def
proof (intro conjI allI impI)
  fix s
  show "\<exists>raws s1. lv_reqFn witness_live (JszRequest base_jsz no_filter) ''$SYS.REQ.SERVER.PING.JSZ'' (lv_waitFor witness_live) s = (Inr raws, s1) \<and>
    map Some raws = map (\<lambda>sv. Some (first_answer witness_info sv)) witness_servers"
    by (simp add: witness_live_def)
next
  fix i ds k s assume "map_of witness_servers i = Some ds"
  then have "(i = ''A'' \<or> i = ''B'') \<and> map_of (map (\<lambda>(i, ds). (jsz_subject i, ds)) witness_servers) (jsz_subject i) = Some ds"
    by (auto simp: witness_servers_def jsz_subject_def split: if_splits)
  then show "\<exists>raw s1 x. lv_reqFn witness_live (JszRequest (base_jsz\<lparr> jo_Offset := int k \<rparr>) no_filter) (jsz_subject i) 1 s = (Inr [raw], s1) \<and>
    Some raw = Some x \<and> sr_Data x = Some (page_at k ds)"
    by (auto simp: witness_live_def jsz_subject_def)
qed

lemma live_accounts_complete_witness:
  "\<exists>as s1. live_CollectAccounts Some witness_live 0 = Some (Inr as, s1) \<and> account_names as = collected (witness_accounts 3 @ witness_accounts 2500)"
  using live_accounts_complete [OF witness_servers_ok witness_serves, of 0] by (simp add: witness_servers_def)

subsection \<open>The accounts of an archive\<close>

text \<open>An iteration over decoded artifacts that only looks at a part of them.\<close>

lemma decode_each_map: "decode_each (\<lambda>c. map_option h (dec c)) cb fs s = decode_each dec (\<lambda>x. cb (h x)) fs s"
proof (induction fs arbitrary: s)
  case (Cons f fs)
  then show ?case by (simp split: option.split prod.split)
qed simp

lemma ForEach_map: "ForEachTaggedArtifact (\<lambda>c. map_option h (dec c)) r q cb s = ForEachTaggedArtifact dec r q (\<lambda>x. cb (h x)) s"
  by (simp add: ForEachTaggedArtifact_def decode_each_map Let_def split: sum.split)

lemma each_server_map:
  "each_server (\<lambda>c. map_option h (dec c)) r tag cb pairs st = each_server dec r tag (\<lambda>ct st err x. cb ct st err (map_option h x)) pairs st"
proof (induction pairs arbitrary: st)
  case (Cons p pairs)
  obtain c s where p: "p = (c, s)" by (cases p)
  then show ?case by (simp add: p Let_def Cons.IH ForEach_map split: option.split prod.split)
qed simp

definition items_of :: "(string, 'd list server_response) gomap \<Rightarrow> 'd set" where
  "items_of seen = (\<Union>x \<in> set seen. set (the (sr_Data (snd x))))"

definition archived_ok :: "(string, 'd list server_response) gomap \<Rightarrow> (Tag \<times> Tag \<times> 'd list) list \<Rightarrow> bool" where
  "archived_ok seen xs \<longleftrightarrow> (\<forall>x \<in> set seen. sr_Data (snd x) \<noteq> None) \<and> items_of seen = set (concat (data_of xs))"

lemma update_page_items:
  assumes "\<forall>x \<in> set seen. sr_Data (snd x) \<noteq> None" "map_of seen key = Some base"
  shows "(\<forall>x \<in> set (AList.update key (update_data (\<lambda>b. b @ d) base) seen). sr_Data (snd x) \<noteq> None) \<and>
    items_of (AList.update key (update_data (\<lambda>b. b @ d) base) seen) = items_of seen \<union> set d"
  using assms by (induction seen) (auto simp: items_of_def update_data_def split: if_splits)

lemma merge_page_ok:
  assumes ok: "archived_ok seen xs" and d: "sr_Data x = Some d"
  shows "archived_ok (merge_page key (update_data (\<lambda>b. b @ d)) x seen) (xs @ [(ct, st, d)])"
proof -
  have new: "set (concat (data_of (xs @ [(ct, st, d)]))) = set (concat (data_of xs)) \<union> set d" by (simp add: data_of_def)
  show ?thesis
  proof (cases "map_of seen key")
    case None
    then show ?thesis using ok d unfolding archived_ok_def new by (simp add: merge_page_def items_of_def Un_commute)
  next
    case (Some base)
    then show ?thesis using ok update_page_items [of seen key base d] unfolding archived_ok_def new by (simp add: merge_page_def)
  qed
qed

lemma archive_Jsz_records:
  fixes dec :: "'c \<Rightarrow> 'x AccountDetail list server_response option"
  assumes "recorded (\<lambda>c. map_option sr_Data (dec c)) r TagServerJetStream name = (None, xs)"
  shows "\<exists>seen. archive_Jsz dec r [] no_filter = (None, map snd seen) \<and> archived_ok seen xs"
proof -
  let ?cb1 = "\<lambda>ct st err x. recorder name ct st err (map_option sr_Data x)"
  let ?cb2 = "\<lambda>clusterTag serverTag cbError (resp :: 'x AccountDetail list server_response option) seen.
    case resp of None \<Rightarrow> (None :: archive_error option, seen)
    | Some x \<Rightarrow> if cbError \<noteq> (None :: archive_error option) \<or> \<not> matchesFilter (sr_Server x) (Some no_filter) then (None, seen)
        else case sr_Data x of None \<Rightarrow> (None, seen)
          | Some d \<Rightarrow> (None, merge_page (serverKey clusterTag serverTag) (update_data (\<lambda>b. b @ d)) x seen)"
  obtain n where rec: "each_server dec r TagServerJetStream ?cb1 (cluster_servers r) (0, []) = (None, n, xs)"
    using assms unfolding recorded_def EachClusterServerArtifact_def each_server_map by (auto split: prod.splits)
  obtain f m seen where run: "each_server dec r TagServerJetStream ?cb2 (cluster_servers r) (0, []) = (f, m, seen)" by (rule prod_cases3)
  have "None = f \<and> archived_ok seen xs"
  proof (rule each_server_rel [where R = "\<lambda>ys t. archived_ok t ys", OF _ _ rec run])
    fix ct st err and x :: "'x AccountDetail list server_response option" and ys t e s1 g t1
    assume good: "(err = None \<and> x \<noteq> None) \<or> (\<exists>e. err = Some e \<and> is_no_matches e \<and> x = None)"
      and R: "archived_ok t ys" and cb: "?cb1 ct st err x ys = (e, s1)" "?cb2 ct st err x t = (g, t1)"
    show "e = g \<and> archived_ok t1 s1"
    proof (cases x)
      case None
      then obtain e0 where "err = Some e0" "is_no_matches e0" using good by blast
      then show ?thesis using None R cb by (simp add: recorder_def server_data_def handleArchiveError_def)
    next
      case (Some y)
      then have "err = None" using good by simp
      then show ?thesis using Some R cb merge_page_ok [OF R, of y] by (cases "sr_Data y") (auto simp: recorder_def server_data_def handleArchiveError_def)
    qed
  qed (simp add: archived_ok_def items_of_def data_of_def)
  then show ?thesis using run
    by (intro exI [of _ seen]) (simp add: archive_Jsz_def archive_merged_def EachClusterServerArtifact_def lift_archive_def)
qed

lemma fold_merge_responses:
  "\<forall>x \<in> set seen. sr_Data (snd x) \<noteq> None \<Longrightarrow>
    fold (\<lambda>x m. case sr_Data x of None \<Rightarrow> m | Some d \<Rightarrow> mergeAccounts d m) (map snd seen) m = mergeAccounts (concat (map (\<lambda>x. the (sr_Data (snd x))) seen)) m"
  by (induction seen arbitrary: m) (auto simp: mergeAccounts_def)

lemma archive_accounts:
  assumes "recorded (\<lambda>c. map_option sr_Data (dec c)) r TagServerJetStream name = (None, xs)" "plain_details (concat (data_of xs))"
  shows "\<exists>as. archive_CollectAccounts dec r = Inr as \<and> account_names as = collected (concat (data_of xs))"
proof -
  obtain seen where seen: "archive_Jsz dec r [] no_filter = (None, map snd seen)" "archived_ok seen xs"
    using archive_Jsz_records [OF assms(1)] by blast
  let ?D = "concat (map (\<lambda>x. the (sr_Data (snd x))) seen)"
  have D: "set ?D = set (concat (data_of xs))" using seen(2) by (simp add: archived_ok_def items_of_def)
  then have "plain_details ?D" using assms(2) unfolding plain_details_def list_all_iff by simp
  then have "account_names (sorted_accounts (mergeAccounts ?D [])) = collected (concat (data_of xs))"
    using collected_of_details [of ?D] collected_cong [OF D] by simp
  then show ?thesis using seen fold_merge_responses [of seen "[]"] by (simp add: archive_CollectAccounts_def archived_ok_def)
qed

end
