(* ===== verification/Gather.thy ===== *)
theory Gather
  imports Server_Live
begin

text \<open>
  Gathering an audit archive (\<open>src/audit/gather/gather.go\<close>): the servers and accounts that answer, the pages
  of every endpoint of every server, profiles, accounts and streams, each written to the archive under its
  tags. The network, the decoding of answers and what writes meet are parameters.
\<close>

subsection \<open>Configuration\<close>

record EndpointSelection =
  es_ServerEndpoints :: bool
  es_ServerProfiles :: bool
  es_AccountEndpoints :: bool
  es_Streams :: bool
  es_Consumers :: bool

text \<open>The options of the requests.\<close>

datatype gather_request =
    ConnzReq bool bool int int
  | GatewayzReq bool bool bool
  | HealthzReq bool
  | JszReq JSzOptions
  | LeafzReq bool
  | RoutezReq bool bool
  | SubszReq bool int int
  | FilterReq EventFilterOptions
  | AccountzReq EventFilterOptions
  | JszEventReq JSzOptions EventFilterOptions
  | RaftzReq string EventFilterOptions
  | IpqueueszReq string EventFilterOptions
  | ProfilezReq string int duration

record EndpointCaptureConfig =
  ep_ApiSuffix :: string
  ep_TypeTag :: Tag
  ep_UseServerPing :: bool
  ep_OptionsBuilder :: "(string \<Rightarrow> EventFilterOptions \<Rightarrow> gather_request) option"

record Configuration =
  cg_CPUProfileDuration :: duration
  cg_SubszPageSize :: int
  cg_Include :: EndpointSelection
  cg_ServerEndpointConfigs :: "EndpointCaptureConfig list"
  cg_AccountEndpointConfigs :: "EndpointCaptureConfig list"
  cg_ServerProfileNames :: "string list"
  cg_Detailed :: bool
  cg_ClusterFilter :: string

definition endpointPagingInfo :: "(string, string) gomap" where
  "endpointPagingInfo =
     [(''CONNZ'', ''data.connections''), (''SUBSZ'', ''data.subscriptions_list''), (''JSZ'', ''data.account_details'')]"

definition ProfileGoroutine1 :: string where "ProfileGoroutine1 = ''goroutine_1''"
definition ProfileGoroutine2 :: string where "ProfileGoroutine2 = ''goroutine_2''"
definition ProfileHeap :: string where "ProfileHeap = ''heap''"
definition ProfileAllocs :: string where "ProfileAllocs = ''allocs''"
definition ProfileMutex :: string where "ProfileMutex = ''mutex''"
definition ProfileThreadCreate :: string where "ProfileThreadCreate = ''threadcreate''"
definition ProfileBlock :: string where "ProfileBlock = ''block''"
definition ProfileCPU :: string where "ProfileCPU = ''cpu''"

definition ServerProfiles :: "string list" where
  "ServerProfiles = [ProfileGoroutine1, ProfileGoroutine2, ProfileHeap, ProfileAllocs, ProfileMutex, ProfileThreadCreate, ProfileBlock, ProfileCPU]"

definition second :: duration where "second = 1000000000"

definition endpoint :: "string \<Rightarrow> Tag \<Rightarrow> EndpointCaptureConfig" where
  "endpoint suf tag = \<lparr> ep_ApiSuffix = suf, ep_TypeTag = tag, ep_UseServerPing = False, ep_OptionsBuilder = None \<rparr>"

definition ping_endpoint :: "string \<Rightarrow> Tag \<Rightarrow> (string \<Rightarrow> EventFilterOptions \<Rightarrow> gather_request) \<Rightarrow> EndpointCaptureConfig" where
  "ping_endpoint suf tag builder = \<lparr> ep_ApiSuffix = suf, ep_TypeTag = tag, ep_UseServerPing = True, ep_OptionsBuilder = Some builder \<rparr>"

definition NewCaptureConfiguration :: Configuration where
  "NewCaptureConfiguration =
     \<lparr> cg_CPUProfileDuration = 5 * second, cg_SubszPageSize = 4096,
       cg_Include = \<lparr> es_ServerEndpoints = False, es_ServerProfiles = False, es_AccountEndpoints = False, es_Streams = False, es_Consumers = False \<rparr>,
       cg_ServerEndpointConfigs =
         [endpoint ''VARZ'' TagServerVars, endpoint ''EXPVARZ'' TagServerExpVars, endpoint ''CONNZ'' TagServerConnections,
          endpoint ''ROUTEZ'' TagServerRoutes, endpoint ''GATEWAYZ'' TagServerGateways, endpoint ''LEAFZ'' TagServerLeafs,
          endpoint ''SUBSZ'' TagServerSubs, endpoint ''JSZ'' TagServerJetStream, endpoint ''ACCOUNTZ'' TagServerAccounts,
          endpoint ''HEALTHZ'' TagServerHealth],
       cg_AccountEndpointConfigs =
         [endpoint ''CONNZ'' TagAccountConnections, endpoint ''LEAFZ'' TagAccountLeafs, endpoint ''SUBSZ'' TagAccountSubs,
          endpoint ''INFO'' TagAccountInfo, endpoint ''JSZ'' TagAccountJetStream, ping_endpoint ''RAFTZ'' TagAccountRaftz RaftzReq,
          ping_endpoint ''IPQUEUESZ'' TagAccountIpqueuesz IpqueueszReq],
       cg_ServerProfileNames = [ProfileGoroutine1, ProfileHeap, ProfileAllocs, ProfileMutex, ProfileThreadCreate, ProfileBlock, ProfileCPU],
       cg_Detailed = True, cg_ClusterFilter = [] \<rparr>"

subsection \<open>Pages\<close>

datatype json_value = JNull | JBool bool | JNum rat | JStr string | JArr "json_value list" | JObj "(string \<times> json_value) list"

datatype gather_error =
    UnknownProfile string
  | BadCPUDuration duration
  | BadPageSize int
  | CreateArchive
  | NoWriter
  | DiscoverServers request_error
  | DiscoverAccounts request_error
  | AddFailed string archive_error
  | StreamsFailed string request_error
  | NilAnswer string

text \<open>The walk along a path: not an object at a segment, absent, or there.\<close>

fun walk_path :: "string list \<Rightarrow> json_value \<Rightarrow> string + json_value option" where
  "walk_path [] node = Inr (Some node)"
| "walk_path (seg # segs) (JObj obj) = (case map_of obj seg of None \<Rightarrow> Inr None | Some v \<Rightarrow> walk_path segs v)"
| "walk_path (seg # segs) _ = Inl seg"

definition hasNextPage :: "string \<Rightarrow> (string \<times> json_value) list \<Rightarrow> int \<Rightarrow> string + bool" where
  "hasNextPage suf decoded limit =
     (case map_of endpointPagingInfo suf of
        None \<Rightarrow> Inr False
      | Some jsonPath \<Rightarrow>
          (case walk_path (split_on (CHR ''.'') jsonPath) (JObj decoded) of
             Inl seg \<Rightarrow> Inl seg
           | Inr None \<Rightarrow> Inr False
           | Inr (Some (JArr items)) \<Rightarrow> Inr (int (length items) \<ge> limit)
           | Inr (Some _) \<Rightarrow> Inl jsonPath))"

definition buildServerOptions :: "Configuration \<Rightarrow> string \<Rightarrow> int \<Rightarrow> int \<Rightarrow> gather_request option" where
  "buildServerOptions cfg suf offset limit =
     (if \<not> cg_Detailed cfg then None
      else if suf = ''CONNZ'' then Some (ConnzReq True True offset limit)
      else if suf = ''GATEWAYZ'' then Some (GatewayzReq True True True)
      else if suf = ''HEALTHZ'' then Some (HealthzReq True)
      else if suf = ''JSZ'' then
        Some (JszReq \<lparr> jo_Account = [], jo_Accounts = True, jo_Streams = True, jo_Consumer = es_Consumers (cg_Include cfg), jo_Config = True,
                       jo_RaftGroups = True, jo_DirectConsumer = False, jo_Offset = offset, jo_Limit = limit \<rparr>)
      else if suf = ''LEAFZ'' then Some (LeafzReq True)
      else if suf = ''ROUTEZ'' then Some (RoutezReq True True)
      else if suf = ''SUBSZ'' then Some (SubszReq True offset limit)
      else None)"

definition eventFilter :: "Configuration \<Rightarrow> EventFilterOptions" where
  "eventFilter cfg = no_filter\<lparr> ef_Cluster := cg_ClusterFilter cfg, ef_ExactMatch := True \<rparr>"

subsection \<open>The environment\<close>

text \<open>
  The stream of an account as a server reports it, with its cluster, and the answers: an error, the server
  that answers, and the data.
\<close>

record 'c gathered_stream =
  st_Name :: string
  st_ClusterName :: "string option"
  st_Encoded :: "'c option"

record accounts_answer =
  aa_Accounts :: "string list"
  aa_SystemAccount :: string

record ('c, 's) gather_env =
  ge_network :: "(gather_request, 'c, 's) network"
  ge_write :: "'s \<Rightarrow> 'c zip_fault \<times> gotime \<times> 's"
  ge_indent :: "'c \<Rightarrow> 'c option"
  ge_object :: "'c \<Rightarrow> (string \<times> json_value) list option"
  ge_answer :: "'c \<Rightarrow> unit server_response option"
  ge_accounts :: "'c \<Rightarrow> accounts_answer server_response option"
  ge_streams :: "'c \<Rightarrow> 'c gathered_stream list list server_response option"
  ge_profile :: "'c \<Rightarrow> (string \<times> 'c) server_response option"
  ge_metadata :: "'c option"
  ge_log :: 'c
  ge_encode :: "(string, Tag list) gomap \<Rightarrow> 'c option"

text \<open>The archive being written, and the world of the network.\<close>

type_synonym ('c, 's) gathering = "'c Writer \<times> 's"

definition add_raw :: "('c, 's) gather_env \<Rightarrow> 'c \<Rightarrow> string \<Rightarrow> Tag list \<Rightarrow> ('c, 's) gathering \<Rightarrow> archive_error option \<times> ('c, 's) gathering" where
  "add_raw env content extension tags g =
     (case ge_write env (snd g) of
        (fault, now, s) \<Rightarrow> (case AddRaw fault now content extension tags (fst g) of (e, w) \<Rightarrow> (e, w, s)))"

definition add_encoded :: "('c, 's) gather_env \<Rightarrow> 'c option \<Rightarrow> Tag list \<Rightarrow> ('c, 's) gathering \<Rightarrow> archive_error option \<times> ('c, 's) gathering" where
  "add_encoded env content tags g =
     (case ge_write env (snd g) of
        (fault, now, s) \<Rightarrow> (case Add fault now content tags (fst g) of (e, w) \<Rightarrow> (e, w, s)))"

text \<open>The tag of a cluster, or of none.\<close>

definition cluster_tag :: "string \<Rightarrow> Tag" where
  "cluster_tag c = (if c = [] then TagNoCluster else TagCluster c)"

subsection \<open>Server endpoints\<close>

definition page_limit :: "Configuration \<Rightarrow> string \<Rightarrow> int" where
  "page_limit cfg suf = (if suf = ''SUBSZ'' then cg_SubszPageSize cfg else 1024)"

definition endpoint_tags :: "ServerInfo \<Rightarrow> EndpointCaptureConfig \<Rightarrow> Tag list" where
  "endpoint_tags info ep = [TagServer (si_Name info), ep_TypeTag ep, cluster_tag (si_Cluster info)]"

text \<open>One page: whether the loop stops, without or with an error that ends the gathering, or goes on.\<close>

datatype page_outcome = LastPage | NextPage | PageError gather_error

definition capture_page ::
    "('c, 's) gather_env \<Rightarrow> Configuration \<Rightarrow> string \<Rightarrow> ServerInfo \<Rightarrow> EndpointCaptureConfig \<Rightarrow> int \<Rightarrow> ('c, 's) gathering \<Rightarrow> page_outcome \<times> ('c, 's) gathering" where
  "capture_page env cfg serverId info ep offset g =
     (let subject = ''$SYS.REQ.SERVER.'' @ serverId @ ''.'' @ ep_ApiSuffix ep; limit = page_limit cfg (ep_ApiSuffix ep);
          opts = buildServerOptions cfg (ep_ApiSuffix ep) offset limit
      in case DoReq (ge_network env) opts subject 1 (snd g) of
           (Some _, _, s) \<Rightarrow> (LastPage, fst g, s)
         | (None, [response], s) \<Rightarrow>
             (case ge_object env response of
                None \<Rightarrow> (LastPage, fst g, s)
              | Some decoded \<Rightarrow>
                  if (case map_of decoded ''error'' of None \<Rightarrow> False | Some v \<Rightarrow> v \<noteq> JNull) then (LastPage, fst g, s)
                  else case ge_indent env response of
                         None \<Rightarrow> (LastPage, fst g, s)
                       | Some pretty \<Rightarrow>
                           (case add_raw env pretty ''json'' (endpoint_tags info ep) (fst g, s) of
                              (Some e, g1) \<Rightarrow> (PageError (AddFailed subject e), g1)
                            | (None, g1) \<Rightarrow>
                                (if opts = None then LastPage
                                 else case hasNextPage (ep_ApiSuffix ep) decoded limit of Inr True \<Rightarrow> NextPage | _ \<Rightarrow> LastPage, g1)))
         | (None, _, s) \<Rightarrow> (LastPage, fst g, s))"

text \<open>The pages of an endpoint; \<open>None\<close> is a server that never stops.\<close>

partial_function (option) capture_pages ::
    "('c, 's) gather_env \<Rightarrow> Configuration \<Rightarrow> string \<Rightarrow> ServerInfo \<Rightarrow> EndpointCaptureConfig \<Rightarrow> int \<Rightarrow> ('c, 's) gathering \<Rightarrow> (gather_error option \<times> ('c, 's) gathering) option" where
  "capture_pages env cfg serverId info ep offset g =
     (case capture_page env cfg serverId info ep offset g of
        (LastPage, g1) \<Rightarrow> Some (None, g1)
      | (PageError e, g1) \<Rightarrow> Some (Some e, g1)
      | (NextPage, g1) \<Rightarrow> capture_pages env cfg serverId info ep (offset + page_limit cfg (ep_ApiSuffix ep)) g1)"

text \<open>A loop of steps that may not end or may fail.\<close>

fun run_each :: "('a \<Rightarrow> 'g \<Rightarrow> ('e option \<times> 'g) option) \<Rightarrow> 'a list \<Rightarrow> 'g \<Rightarrow> ('e option \<times> 'g) option" where
  "run_each f [] g = Some (None, g)"
| "run_each f (x # xs) g =
     (case f x g of None \<Rightarrow> None | Some (Some e, g1) \<Rightarrow> Some (Some e, g1) | Some (None, g1) \<Rightarrow> run_each f xs g1)"

definition captures :: "ServerInfo \<Rightarrow> EndpointCaptureConfig \<Rightarrow> bool" where
  "captures info ep \<longleftrightarrow> \<not> (ep_ApiSuffix ep = ''JSZ'' \<and> \<not> si_JetStream info)"

definition captureServerEndpoints ::
    "('c, 's) gather_env \<Rightarrow> Configuration \<Rightarrow> (string, ServerInfo) gomap \<Rightarrow> ('c, 's) gathering \<Rightarrow> (gather_error option \<times> ('c, 's) gathering) option" where
  "captureServerEndpoints env cfg servers g =
     run_each (\<lambda>((serverId, info), ep). capture_pages env cfg serverId info ep 0)
       (concat (map (\<lambda>server. map (Pair server) (filter (captures (snd server)) (cg_ServerEndpointConfigs cfg))) servers)) g"

subsection \<open>Discovery\<close>

text \<open>The callbacks follow the server of an answer without a test; \<open>None\<close> is that panic.\<close>

definition note_server :: "('c, 's) gather_env \<Rightarrow> Configuration \<Rightarrow> 'c \<Rightarrow> (string, ServerInfo) gomap option \<Rightarrow> (string, ServerInfo) gomap option" where
  "note_server env cfg b acc =
     (case acc of
        None \<Rightarrow> None
      | Some servers \<Rightarrow>
          (case ge_answer env b of
             None \<Rightarrow> Some servers
           | Some x \<Rightarrow>
               (case sr_Server x of
                  None \<Rightarrow> None
                | Some info \<Rightarrow>
                    if sr_Error x \<noteq> None then Some servers
                    else if cg_ClusterFilter cfg \<noteq> [] \<and> si_Cluster info \<noteq> cg_ClusterFilter cfg then Some servers
                    else if map_of servers (si_ID info) \<noteq> None then Some servers
                    else Some (servers @ [(si_ID info, info)]))))"

definition discoverServers ::
    "('c, 's) gather_env \<Rightarrow> Configuration \<Rightarrow> 's \<Rightarrow> (gather_error + (string, ServerInfo) gomap) \<times> 's" where
  "discoverServers env cfg s =
     (case DoReqAsync (ge_network env) None ''$SYS.REQ.SERVER.PING'' (- 1) (note_server env cfg) (Some []) s of
        (_, None, s1) \<Rightarrow> (Inl (NilAnswer ''PING''), s1)
      | (Some e, Some _, s1) \<Rightarrow> (Inl (DiscoverServers e), s1)
      | (None, Some servers, s1) \<Rightarrow> (Inr servers, s1))"

text \<open>How many servers know an account.\<close>

definition count_account :: "string \<Rightarrow> (string, int) gomap \<Rightarrow> (string, int) gomap" where
  "count_account a m = AList.update a ((case map_of m a of None \<Rightarrow> 0 | Some n \<Rightarrow> n) + 1) m"

definition note_accounts ::
    "('c, 's) gather_env \<Rightarrow> (string, ServerInfo) gomap \<Rightarrow> 'c \<Rightarrow> ((string, int) gomap \<times> string) option \<Rightarrow> ((string, int) gomap \<times> string) option" where
  "note_accounts env servers b acc =
     (case acc of
        None \<Rightarrow> None
      | Some (counts, systemAccount) \<Rightarrow>
          (case ge_accounts env b of
             None \<Rightarrow> Some (counts, systemAccount)
           | Some x \<Rightarrow>
               (case sr_Server x of
                  None \<Rightarrow> None
                | Some info \<Rightarrow>
                    if map_of servers (si_ID info) = None then Some (counts, systemAccount)
                    else if sr_Error x \<noteq> None then Some (counts, systemAccount)
                    else case sr_Data x of
                           None \<Rightarrow> None
                         | Some d \<Rightarrow>
                             Some (fold count_account (aa_Accounts d) counts,
                                   if aa_SystemAccount d \<noteq> [] \<and> systemAccount = [] then aa_SystemAccount d else systemAccount))))"

definition discoverAccounts ::
    "('c, 's) gather_env \<Rightarrow> Configuration \<Rightarrow> (string, ServerInfo) gomap \<Rightarrow> 's \<Rightarrow> (gather_error + (string, int) gomap \<times> string) \<times> 's" where
  "discoverAccounts env cfg servers s =
     (if servers = [] then (Inr ([], []), s)
      else case DoReqAsync (ge_network env) (Some (AccountzReq (eventFilter cfg))) ''$SYS.REQ.SERVER.PING.ACCOUNTZ'' (int (length servers))
                  (note_accounts env servers) (Some ([], [])) s of
             (_, None, s1) \<Rightarrow> (Inl (NilAnswer ''ACCOUNTZ''), s1)
           | (Some e, Some _, s1) \<Rightarrow> (Inl (DiscoverAccounts e), s1)
           | (None, Some res, s1) \<Rightarrow> (Inr res, s1))"

subsection \<open>Profiles\<close>

definition capture_profile ::
    "('c, 's) gather_env \<Rightarrow> Configuration \<Rightarrow> string \<Rightarrow> ServerInfo \<Rightarrow> string \<Rightarrow> ('c, 's) gathering \<Rightarrow> gather_error option \<times> ('c, 's) gathering" where
  "capture_profile env cfg serverId info profile g =
     (let (name, debug) = SplitProfileName profile;
          payload = ProfilezReq name debug (if profile = ProfileCPU then cg_CPUProfileDuration cfg else 0)
      in case DoReq (ge_network env) (Some payload) (''$SYS.REQ.SERVER.'' @ serverId @ ''.PROFILEZ'') 1 (snd g) of
           (None, [response], s) \<Rightarrow>
             (case ge_profile env response of
                None \<Rightarrow> (None, fst g, s)
              | Some x \<Rightarrow>
                  if sr_Error x \<noteq> None then (None, fst g, s)
                  else case sr_Data x of
                         None \<Rightarrow> (None, fst g, s)
                       | Some (err, content) \<Rightarrow>
                           if err \<noteq> [] then (None, fst g, s)
                           else case add_raw env content ''prof''
                                       [TagServer (si_Name info), TagServerProfile, TagProfileName profile, cluster_tag (si_Cluster info)] (fst g, s) of
                                  (Some e, g1) \<Rightarrow> (Some (AddFailed profile e), g1)
                                | (None, g1) \<Rightarrow> (None, g1))
         | (_, _, s) \<Rightarrow> (None, fst g, s))"

definition captureServerProfiles ::
    "('c, 's) gather_env \<Rightarrow> Configuration \<Rightarrow> (string, ServerInfo) gomap \<Rightarrow> ('c, 's) gathering \<Rightarrow> (gather_error option \<times> ('c, 's) gathering) option" where
  "captureServerProfiles env cfg servers g =
     run_each (\<lambda>((serverId, info), profile) g. Some (capture_profile env cfg serverId info profile g))
       (concat (map (\<lambda>server. map (Pair server) (cg_ServerProfileNames cfg)) servers)) g"

subsection \<open>Account endpoints\<close>

text \<open>The first answer of each responder that can be written.\<close>

definition note_response ::
    "('c, 's) gather_env \<Rightarrow> (string, ServerInfo) gomap \<Rightarrow> 'c \<Rightarrow> ((string \<times> string) \<times> 'c) list option \<Rightarrow> ((string \<times> string) \<times> 'c) list option" where
  "note_response env servers b acc =
     (case acc of
        None \<Rightarrow> None
      | Some responses \<Rightarrow>
          (case ge_answer env b of
             None \<Rightarrow> Some responses
           | Some x \<Rightarrow>
               (case sr_Server x of
                  None \<Rightarrow> None
                | Some info \<Rightarrow>
                    if sr_Error x \<noteq> None then Some responses
                    else if map_of servers (si_ID info) = None then Some responses
                    else case ge_indent env b of
                           None \<Rightarrow> Some responses
                         | Some pretty \<Rightarrow>
                             if map_of responses (si_Cluster info, si_Name info) \<noteq> None then Some responses
                             else Some (responses @ [((si_Cluster info, si_Name info), pretty)]))))"

definition account_request :: "Configuration \<Rightarrow> string \<Rightarrow> EndpointCaptureConfig \<Rightarrow> string \<times> gather_request option" where
  "account_request cfg accountId ep =
     (if ep_UseServerPing ep then
        (''$SYS.REQ.SERVER.PING.'' @ ep_ApiSuffix ep, map_option (\<lambda>b. b accountId (eventFilter cfg)) (ep_OptionsBuilder ep))
      else (''$SYS.REQ.ACCOUNT.'' @ accountId @ ''.'' @ ep_ApiSuffix ep, Some (FilterReq (eventFilter cfg))))"

definition store_response :: "('c, 's) gather_env \<Rightarrow> string \<Rightarrow> string \<Rightarrow> Tag \<Rightarrow> (string \<times> string) \<times> 'c \<Rightarrow> ('c, 's) gathering \<Rightarrow> (gather_error option \<times> ('c, 's) gathering) option" where
  "store_response env subject accountId typeTag response g =
     (case response of
        ((cluster, srv), content) \<Rightarrow>
          (case add_raw env content ''json'' [TagAccount accountId, TagServer srv, cluster_tag cluster, typeTag] g of
             (Some e, g1) \<Rightarrow> Some (Some (AddFailed subject e), g1)
           | (None, g1) \<Rightarrow> Some (None, g1)))"

definition capture_account ::
    "('c, 's) gather_env \<Rightarrow> Configuration \<Rightarrow> (string, ServerInfo) gomap \<Rightarrow> string \<Rightarrow> int \<Rightarrow> EndpointCaptureConfig \<Rightarrow> ('c, 's) gathering \<Rightarrow> (gather_error option \<times> ('c, 's) gathering) option" where
  "capture_account env cfg servers accountId serversCount ep g =
     (case account_request cfg accountId ep of
        (subject, opts) \<Rightarrow>
          (case DoReqAsync (ge_network env) opts subject serversCount (note_response env servers) (Some []) (snd g) of
             (_, None, s) \<Rightarrow> Some (Some (NilAnswer subject), fst g, s)
           | (Some _, Some _, s) \<Rightarrow> Some (None, fst g, s)
           | (None, Some responses, s) \<Rightarrow> run_each (store_response env subject accountId (ep_TypeTag ep)) responses (fst g, s)))"

definition captureAccountEndpoints ::
    "('c, 's) gather_env \<Rightarrow> Configuration \<Rightarrow> (string, ServerInfo) gomap \<Rightarrow> (string, int) gomap \<Rightarrow> ('c, 's) gathering \<Rightarrow> (gather_error option \<times> ('c, 's) gathering) option" where
  "captureAccountEndpoints env cfg servers counts g =
     run_each (\<lambda>((accountId, serversCount), ep). capture_account env cfg servers accountId serversCount ep)
       (concat (map (\<lambda>account. map (Pair account) (cg_AccountEndpointConfigs cfg)) counts)) g"

subsection \<open>Streams\<close>

text \<open>The answers with exactly one account, the first of each server name.\<close>

definition note_streams ::
    "('c, 's) gather_env \<Rightarrow> (string, ServerInfo) gomap \<Rightarrow> 'c \<Rightarrow> (string, 'c gathered_stream list) gomap option \<Rightarrow> (string, 'c gathered_stream list) gomap option" where
  "note_streams env servers b acc =
     (case acc of
        None \<Rightarrow> None
      | Some responses \<Rightarrow>
          (case ge_streams env b of
             None \<Rightarrow> Some responses
           | Some x \<Rightarrow>
               (case sr_Server x of
                  None \<Rightarrow> None
                | Some info \<Rightarrow>
                    if sr_Error x \<noteq> None then Some responses
                    else if map_of servers (si_ID info) = None then Some responses
                    else if map_of responses (si_Name info) \<noteq> None then Some responses
                    else case sr_Data x of
                           None \<Rightarrow> None
                         | Some [streams] \<Rightarrow> Some (responses @ [(si_Name info, streams)])
                         | Some _ \<Rightarrow> Some responses)))"

definition stream_options :: "Configuration \<Rightarrow> string \<Rightarrow> JSzOptions" where
  "stream_options cfg accountId =
     \<lparr> jo_Account = accountId, jo_Accounts = False, jo_Streams = True, jo_Consumer = es_Consumers (cg_Include cfg), jo_Config = True,
       jo_RaftGroups = True, jo_DirectConsumer = True, jo_Offset = 0, jo_Limit = 0 \<rparr>"

definition store_stream :: "('c, 's) gather_env \<Rightarrow> string \<Rightarrow> string \<times> 'c gathered_stream \<Rightarrow> ('c, 's) gathering \<Rightarrow> (gather_error option \<times> ('c, 's) gathering) option" where
  "store_stream env accountId ss g =
     (case ss of
        (srv, stream) \<Rightarrow>
          (case add_encoded env (st_Encoded stream)
                  [TagAccount accountId, TagServer srv, cluster_tag (case st_ClusterName stream of None \<Rightarrow> [] | Some c \<Rightarrow> c),
                   TagStream (st_Name stream), TagStreamInfo] g of
             (Some e, g1) \<Rightarrow> Some (Some (AddFailed (st_Name stream) e), g1)
           | (None, g1) \<Rightarrow> Some (None, g1)))"

definition captureAccountStreams ::
    "('c, 's) gather_env \<Rightarrow> Configuration \<Rightarrow> (string, ServerInfo) gomap \<Rightarrow> string \<Rightarrow> int \<Rightarrow> ('c, 's) gathering \<Rightarrow> (gather_error option \<times> ('c, 's) gathering) option" where
  "captureAccountStreams env cfg servers accountId numServers g =
     (case DoReqAsync (ge_network env) (Some (JszEventReq (stream_options cfg accountId) (eventFilter cfg))) ''$SYS.REQ.SERVER.PING.JSZ'' numServers
             (note_streams env servers) (Some []) (snd g) of
        (_, None, s) \<Rightarrow> Some (Some (NilAnswer ''JSZ''), fst g, s)
      | (Some e, Some _, s) \<Rightarrow> Some (Some (StreamsFailed accountId e), fst g, s)
      | (None, Some responses, s) \<Rightarrow>
          run_each (store_stream env accountId) (concat (map (\<lambda>(srv, streams). map (Pair srv) streams) responses)) (fst g, s))"

subsection \<open>The whole gathering\<close>

definition captureMetadata :: "('c, 's) gather_env \<Rightarrow> ('c, 's) gathering \<Rightarrow> gather_error option \<times> ('c, 's) gathering" where
  "captureMetadata env g =
     (case add_encoded env (ge_metadata env) [TagSpecial ''audit_gather_metadata''] g of
        (Some e, g1) \<Rightarrow> (Some (AddFailed ''metadata'' e), g1)
      | (None, g1) \<Rightarrow> (None, g1))"

definition skip_part :: "'g \<Rightarrow> (gather_error option \<times> 'g) option" where
  "skip_part g = Some (None, g)"

text \<open>What is captured between the opening and the closing of the archive.\<close>

definition capture_all :: "('c, 's) gather_env \<Rightarrow> Configuration \<Rightarrow> ('c, 's) gathering \<Rightarrow> (gather_error option \<times> ('c, 's) gathering) option" where
  "capture_all env cfg g =
     (let inc = cg_Include cfg
      in case discoverServers env cfg (snd g) of
           (Inl e, s) \<Rightarrow> Some (Some e, fst g, s)
         | (Inr servers, s) \<Rightarrow>
             (case discoverAccounts env cfg servers s of
                (Inl e, s1) \<Rightarrow> Some (Some e, fst g, s1)
              | (Inr (counts, systemAccount), s1) \<Rightarrow>
                  run_each (\<lambda>f. f)
                    [if es_ServerEndpoints inc then captureServerEndpoints env cfg servers else skip_part,
                     if es_ServerProfiles inc then captureServerProfiles env cfg servers else skip_part,
                     if es_AccountEndpoints inc then captureAccountEndpoints env cfg servers counts else skip_part,
                     if es_Streams inc then
                       run_each (\<lambda>(accountId, numServers). captureAccountStreams env cfg servers accountId numServers)
                         (filter (\<lambda>(accountId, _). accountId \<noteq> systemAccount) counts)
                     else skip_part,
                     \<lambda>g. Some (captureMetadata env g)]
                    (fst g, s1)))"

text \<open>
  The start of the gathering: \<open>created\<close> tells whether the file can be created, \<open>ts\<close> is the time of the
  capture. Whatever was captured, the log is added and the archive closed; errors of that are only logged.
\<close>

definition gather_start ::
    "('c, 's) gather_env \<Rightarrow> Configuration \<Rightarrow> bool \<Rightarrow> gotime \<Rightarrow> bool \<Rightarrow> bool \<Rightarrow> 's \<Rightarrow> (gather_error option \<times> ('c, 's) gathering option) option" where
  "gather_start env cfg created ts zip_fails file_fails s =
     (if \<not> created then Some (Some CreateArchive, None)
      else case capture_all env cfg (SetTime ts NewWriter, s) of
             None \<Rightarrow> None
           | Some (err, g) \<Rightarrow>
               (case add_raw env (ge_log env) ''log'' [TagSpecial ''audit_gather_log''] g of
                  (_, w, s1) \<Rightarrow>
                    (case ge_write env s1 of
                       (fault, now, s2) \<Rightarrow>
                         (case Close_writer (ge_encode env) fault zip_fails file_fails now w of
                            (_, w1) \<Rightarrow> Some (err, Some (w1, s2))))))"

text \<open>The profiles of the configuration, once each.\<close>

fun check_profiles :: "string list \<Rightarrow> string list \<Rightarrow> gather_error + string list" where
  "check_profiles [] profiles = Inr profiles"
| "check_profiles (p # ps) profiles =
     (if p \<notin> set ServerProfiles then Inl (UnknownProfile p)
      else check_profiles ps (if p \<in> set profiles then profiles else profiles @ [p]))"

definition check_configuration :: "Configuration \<Rightarrow> gather_error + Configuration" where
  "check_configuration conf =
     (let inc = cg_Include conf
      in case (if es_ServerProfiles inc then check_profiles (cg_ServerProfileNames conf) [] else Inr (cg_ServerProfileNames conf)) of
           Inl e \<Rightarrow> Inl e
         | Inr profiles \<Rightarrow>
             (let conf1 = conf\<lparr> cg_ServerProfileNames := profiles \<rparr>;
                  capturesCPU = (es_ServerProfiles inc \<and> ProfileCPU \<in> set profiles);
                  capturesSubsz = (es_ServerEndpoints inc \<and> cg_Detailed conf \<and> list_ex (\<lambda>e. ep_ApiSuffix e = ''SUBSZ'') (cg_ServerEndpointConfigs conf))
              in if capturesCPU \<and> (cg_CPUProfileDuration conf \<le> 0 \<or> cg_CPUProfileDuration conf > 15 * second) then
                   Inl (BadCPUDuration (cg_CPUProfileDuration conf))
                 else if capturesSubsz \<and> cg_SubszPageSize conf \<le> 0 then Inl (BadPageSize (cg_SubszPageSize conf))
                 else Inr conf1))"

definition Gather ::
    "('c, 's) gather_env \<Rightarrow> Configuration \<Rightarrow> bool \<Rightarrow> gotime \<Rightarrow> bool \<Rightarrow> bool \<Rightarrow> 's \<Rightarrow> (gather_error option \<times> ('c, 's) gathering option) option" where
  "Gather env conf created ts zip_fails file_fails s =
     (case check_configuration conf of
        Inl e \<Rightarrow> Some (Some e, None)
      | Inr cfg \<Rightarrow> gather_start env cfg created ts zip_fails file_fails s)"

end
