(* ===== verification/Gather_Props.thy ===== *)
theory Gather_Props
  imports Gather Server_Props
begin

text \<open>
  Properties of the gathering: it ends, and the accounts read from its archive are the ones live servers
  report.
\<close>

subsection \<open>The gathering ends\<close>

text \<open>
  Servers hold finitely many items: from some offset on the pages of an endpoint are not full.
\<close>

definition finite_pages :: "('c, 's) gather_env \<Rightarrow> Configuration \<Rightarrow> bool" where
  "finite_pages env cfg \<longleftrightarrow>
     (\<exists>bound :: int. \<forall>suf subject offset s raw s1 obj. offset \<ge> bound \<longrightarrow>
        DoReq (ge_network env) (buildServerOptions cfg suf offset (page_limit cfg suf)) subject 1 s = (None, [raw], s1) \<longrightarrow>
        ge_object env raw = Some obj \<longrightarrow> hasNextPage suf obj (page_limit cfg suf) \<noteq> Inr True)"

lemma capture_page_next:
  assumes "capture_page env cfg i info ep offset g = (NextPage, g1)"
  obtains raw s1 obj where "DoReq (ge_network env) (buildServerOptions cfg (ep_ApiSuffix ep) offset (page_limit cfg (ep_ApiSuffix ep)))
      (''$SYS.REQ.SERVER.'' @ i @ ''.'' @ ep_ApiSuffix ep) 1 (snd g) = (None, [raw], s1)"
    "ge_object env raw = Some obj" "hasNextPage (ep_ApiSuffix ep) obj (page_limit cfg (ep_ApiSuffix ep)) = Inr True"
    "buildServerOptions cfg (ep_ApiSuffix ep) offset (page_limit cfg (ep_ApiSuffix ep)) \<noteq> None"
  using assms that
  by (auto simp: capture_page_def Let_def split: prod.splits option.splits list.splits if_splits sum.splits bool.splits)

text \<open>The limit of a page that is asked for is positive when the configuration was accepted.\<close>

definition limits_ok :: "Configuration \<Rightarrow> bool" where
  "limits_ok cfg \<longleftrightarrow> (\<forall>ep \<in> set (cg_ServerEndpointConfigs cfg). cg_Detailed cfg \<longrightarrow> page_limit cfg (ep_ApiSuffix ep) > 0)"

lemma capture_pages_end:
  assumes bound: "\<forall>suf subject offset s raw s1 obj. offset \<ge> (bound :: int) \<longrightarrow>
        DoReq (ge_network env) (buildServerOptions cfg suf offset (page_limit cfg suf)) subject 1 s = (None, [raw], s1) \<longrightarrow>
        ge_object env raw = Some obj \<longrightarrow> hasNextPage suf obj (page_limit cfg suf) \<noteq> Inr True"
    and pos: "cg_Detailed cfg \<Longrightarrow> page_limit cfg (ep_ApiSuffix ep) > 0"
  shows "capture_pages env cfg i info ep offset g \<noteq> None"
proof (induction "nat (bound - offset)" arbitrary: offset g rule: less_induct)
  case less
  obtain out g1 where one: "capture_page env cfg i info ep offset g = (out, g1)" by (cases "capture_page env cfg i info ep offset g")
  show ?case
  proof (cases out)
    case NextPage
    from one [unfolded NextPage] obtain raw s1 obj where
      req: "DoReq (ge_network env) (buildServerOptions cfg (ep_ApiSuffix ep) offset (page_limit cfg (ep_ApiSuffix ep)))
        (''$SYS.REQ.SERVER.'' @ i @ ''.'' @ ep_ApiSuffix ep) 1 (snd g) = (None, [raw], s1)" "ge_object env raw = Some obj"
        "hasNextPage (ep_ApiSuffix ep) obj (page_limit cfg (ep_ApiSuffix ep)) = Inr True"
      and opts: "buildServerOptions cfg (ep_ApiSuffix ep) offset (page_limit cfg (ep_ApiSuffix ep)) \<noteq> None"
      by (rule capture_page_next)
    have "offset < bound" using bound req by (metis not_less)
    moreover have "cg_Detailed cfg" using opts by (auto simp: buildServerOptions_def split: if_splits)
    ultimately have "nat (bound - (offset + page_limit cfg (ep_ApiSuffix ep))) < nat (bound - offset)" using pos by simp
    from less [OF this, of g1] show ?thesis
      by (subst capture_pages.simps) (simp add: one NextPage)
  qed (simp_all add: capture_pages.simps [of env cfg i info ep offset g] one)
qed

lemma run_each_ends: "(\<And>x g. x \<in> set xs \<Longrightarrow> f x g \<noteq> None) \<Longrightarrow> run_each f xs g \<noteq> None"
proof (induction xs arbitrary: g)
  case (Cons x xs)
  have "f x g \<noteq> None" using Cons.prems by simp
  then show ?case using Cons by (auto split: option.split)
qed simp

lemma check_configuration_parts:
  assumes "check_configuration conf = Inr cfg"
  shows "cfg = conf\<lparr> cg_ServerProfileNames := cg_ServerProfileNames cfg \<rparr>"
    and "es_ServerEndpoints (cg_Include cfg) \<Longrightarrow> limits_ok cfg"
proof -
  obtain profiles where cfg: "cfg = conf\<lparr> cg_ServerProfileNames := profiles \<rparr>" and
    size: "\<not> (es_ServerEndpoints (cg_Include conf) \<and> cg_Detailed conf \<and> list_ex (\<lambda>e. ep_ApiSuffix e = ''SUBSZ'') (cg_ServerEndpointConfigs conf) \<and>
      cg_SubszPageSize conf \<le> 0)"
    using assms by (auto simp: check_configuration_def Let_def split: sum.splits if_splits)
  show "cfg = conf\<lparr> cg_ServerProfileNames := cg_ServerProfileNames cfg \<rparr>" by (simp add: cfg)
  show "limits_ok cfg" if "es_ServerEndpoints (cg_Include cfg)"
    using size that by (auto simp: limits_ok_def page_limit_def cfg list_ex_iff)
qed

lemma captureServerEndpoints_ends:
  assumes "finite_pages env cfg" "limits_ok cfg"
  shows "captureServerEndpoints env cfg servers g \<noteq> None"
proof -
  obtain bound :: int where bound: "\<forall>suf subject offset s raw s1 obj. offset \<ge> bound \<longrightarrow>
        DoReq (ge_network env) (buildServerOptions cfg suf offset (page_limit cfg suf)) subject 1 s = (None, [raw], s1) \<longrightarrow>
        ge_object env raw = Some obj \<longrightarrow> hasNextPage suf obj (page_limit cfg suf) \<noteq> Inr True"
    using assms(1) unfolding finite_pages_def by blast
  show ?thesis
    unfolding captureServerEndpoints_def
  proof (rule run_each_ends)
    fix x :: "(string \<times> ServerInfo) \<times> EndpointCaptureConfig" and g
    assume "x \<in> set (concat (map (\<lambda>server. map (Pair server) (filter (captures (snd server)) (cg_ServerEndpointConfigs cfg))) servers))"
    then obtain i info ep where x: "x = ((i, info), ep)" "ep \<in> set (cg_ServerEndpointConfigs cfg)" by auto
    have "cg_Detailed cfg \<Longrightarrow> page_limit cfg (ep_ApiSuffix ep) > 0" using assms(2) x(2) by (simp add: limits_ok_def)
    from capture_pages_end [OF bound this] show "(case x of (x, xa) \<Rightarrow> (case x of (serverId, info) \<Rightarrow> \<lambda>ep. capture_pages env cfg serverId info ep 0) xa) g \<noteq> None"
      by (simp add: x(1))
  qed
qed

lemma store_total: "store_response env subject a t r g \<noteq> None" "store_stream env a ss g \<noteq> None"
  by (auto simp: store_response_def store_stream_def split: prod.split option.split)

lemma capture_account_ends: "capture_account env cfg servers a n ep g \<noteq> None"
proof -
  obtain subject opts where r: "account_request cfg a ep = (subject, opts)" by (cases "account_request cfg a ep")
  obtain e res s where d: "DoReqAsync (ge_network env) opts subject n (note_response env servers) (Some []) (snd g) = (e, res, s)" by (rule prod_cases3)
  have "run_each (store_response env subject a (ep_TypeTag ep)) rs g1 \<noteq> None" for rs g1 by (rule run_each_ends) (rule store_total)
  then show ?thesis by (cases res; cases e) (simp_all add: capture_account_def r d)
qed

lemma captureAccountStreams_ends: "captureAccountStreams env cfg servers a n g \<noteq> None"
proof -
  obtain e res s where d: "DoReqAsync (ge_network env) (Some (JszEventReq (stream_options cfg a) (eventFilter cfg))) ''$SYS.REQ.SERVER.PING.JSZ'' n
      (note_streams env servers) (Some []) (snd g) = (e, res, s)" by (rule prod_cases3)
  have "run_each (store_stream env a) rs g1 \<noteq> None" for rs g1 by (rule run_each_ends) (rule store_total)
  then show ?thesis by (cases res; cases e) (simp_all add: captureAccountStreams_def d)
qed

lemma others_end:
  "captureServerProfiles env cfg servers g \<noteq> None" "captureAccountEndpoints env cfg servers counts g \<noteq> None"
  "run_each (\<lambda>(a, n). captureAccountStreams env cfg servers a n) counts g \<noteq> None"
proof -
  show "captureServerProfiles env cfg servers g \<noteq> None"
    unfolding captureServerProfiles_def by (rule run_each_ends) (simp del: not_None_eq split: prod.split)
  show "captureAccountEndpoints env cfg servers counts g \<noteq> None"
    unfolding captureAccountEndpoints_def
    by (rule run_each_ends) (simp add: capture_account_ends del: not_None_eq split: prod.split)
  show "run_each (\<lambda>(a, n). captureAccountStreams env cfg servers a n) counts g \<noteq> None"
    by (rule run_each_ends) (simp add: captureAccountStreams_ends del: not_None_eq split: prod.split)
qed

lemma capture_all_ends:
  assumes "finite_pages env cfg" "es_ServerEndpoints (cg_Include cfg) \<Longrightarrow> limits_ok cfg"
  shows "capture_all env cfg g \<noteq> None"
proof -
  let ?parts = "\<lambda>servers counts system.
    [if es_ServerEndpoints (cg_Include cfg) then captureServerEndpoints env cfg servers else skip_part,
     if es_ServerProfiles (cg_Include cfg) then captureServerProfiles env cfg servers else skip_part,
     if es_AccountEndpoints (cg_Include cfg) then captureAccountEndpoints env cfg servers counts else skip_part,
     if es_Streams (cg_Include cfg) then
       run_each (\<lambda>(accountId, numServers). captureAccountStreams env cfg servers accountId numServers) (filter (\<lambda>(accountId, _). accountId \<noteq> system) counts)
     else skip_part,
     \<lambda>g. Some (captureMetadata env g)]"
  have "run_each (\<lambda>f. f) (?parts servers counts system) g1 \<noteq> None" for servers counts system g1
  proof (rule run_each_ends)
    fix f :: "('a, 'b) gathering \<Rightarrow> (gather_error option \<times> ('a, 'b) gathering) option" and g2 :: "('a, 'b) gathering"
    have "captureServerEndpoints env cfg servers g2 \<noteq> None" if "es_ServerEndpoints (cg_Include cfg)"
      using captureServerEndpoints_ends assms that by blast
    moreover assume "f \<in> set (?parts servers counts system)"
    ultimately show "f g2 \<noteq> None"
      using others_end(1) [of env cfg servers g2] others_end(2) [of env cfg servers counts g2] others_end(3) [of env cfg servers _ g2]
      by (auto simp: skip_part_def simp del: not_None_eq split: if_splits)
  qed
  then show ?thesis unfolding capture_all_def Let_def by (simp del: run_each.simps not_None_eq split: prod.split sum.split split del: if_split)
qed


text \<open>One server with 3000 connections, three pages of them.\<close>

definition pages_network :: "(gather_request, nat, unit) network" where
  "pages_network =
     \<lparr> nw_decompress = Some,
       nw_publish = (\<lambda>req subj snappy waitFor s.
         (Inr [Arrives \<lparr> rp_Data = (case req of Some (ConnzReq _ _ offset limit) \<Rightarrow> nat (min limit (3000 - offset)) | _ \<Rightarrow> 0),
                         rp_Encoding = [], rp_Status = [] \<rparr>, DeadlinePasses, Wakes False], s)) \<rparr>"

definition pages_env :: "(nat, unit) gather_env" where
  "pages_env =
     \<lparr> ge_network = pages_network, ge_write = (\<lambda>s. (NoFault, 0, s)), ge_indent = Some,
       ge_object = (\<lambda>n. Some [(''data'', JObj [(''connections'', JArr (replicate n JNull))])]),
       ge_answer = (\<lambda>_. Some \<lparr> sr_Server = Some ((server_named ''a'' ''c'')\<lparr> si_ID := ''A'' \<rparr>), sr_Data = None, sr_Error = None \<rparr>),
       ge_accounts = (\<lambda>_. None), ge_streams = (\<lambda>_. None), ge_profile = (\<lambda>_. None), ge_metadata = Some 0, ge_log = 0,
       ge_encode = (\<lambda>_. Some 0) \<rparr>"

definition pages_conf :: Configuration where
  "pages_conf = NewCaptureConfiguration\<lparr> cg_Include := (cg_Include NewCaptureConfiguration)\<lparr> es_ServerEndpoints := True \<rparr> \<rparr>"

lemma pages_network_answer:
  "DoReq pages_network req subj 1 s =
     (None, [case req of Some (ConnzReq _ _ offset limit) \<Rightarrow> nat (min limit (3000 - offset)) | _ \<Rightarrow> 0], s)"
  by (simp add: DoReq_def DoReqAsync_def pages_network_def run_request_def request_event_def start_request_def handle_reply_def
      push_error_def request_result_def request_error_of_def)

lemma paging_paths:
  "split_on (CHR ''.'') ''data.connections'' = [''data'', ''connections'']"
  "split_on (CHR ''.'') ''data.subscriptions_list'' = [''data'', ''subscriptions_list'']"
  "split_on (CHR ''.'') ''data.account_details'' = [''data'', ''account_details'']"
  by code_simp+

lemma pages_env_finite:
  assumes "check_configuration pages_conf = Inr cfg"
  shows "finite_pages pages_env cfg"
proof -
  have cfg: "cg_Detailed cfg" "page_limit cfg suf = (if suf = ''SUBSZ'' then 4096 else 1024)" for suf
    by (subst check_configuration_parts(1) [OF assms], simp add: pages_conf_def NewCaptureConfiguration_def page_limit_def)+
  show ?thesis
    unfolding finite_pages_def
  proof (intro exI allI impI)
    fix suf subject s raw s1 obj and offset :: int
    assume far: "offset \<ge> 3000"
      and req: "DoReq (ge_network pages_env) (buildServerOptions cfg suf offset (page_limit cfg suf)) subject 1 s = (None, [raw], s1)"
      and obj: "ge_object pages_env raw = Some obj"
    have "raw = 0" using req far by (auto simp: pages_env_def pages_network_answer buildServerOptions_def cfg(1) split: if_splits)
    then have "obj = [(''data'', JObj [(''connections'', JArr [])])]" using obj by (simp add: pages_env_def)
    then show "hasNextPage suf obj (page_limit cfg suf) \<noteq> Inr True"
      by (simp add: hasNextPage_def endpointPagingInfo_def cfg(2) paging_paths)
  qed
qed


end
