(* ===== verification/Monitor_Server.thy ===== *)
theory Monitor_Server
  imports Monitor_Consumer
begin

text \<open>
  The checks of a server, of the JetStream meta group and of an account (\<open>src/monitor/server.go\<close>,
  \<open>src/monitor/meta.go\<close>, \<open>src/monitor/js_account.go\<close>). What a server answers are the records \<open>Varz\<close> and
  \<open>MetaInfo\<close> with the fields the checks read; fetching it is the argument \<open>resolver\<close>.
\<close>

record Varz =
  vz_Name :: string
  vz_JetStreamConfig :: bool
  vz_TLSRequired :: bool
  vz_AuthRequired :: bool
  vz_TLSCertNotAfter :: gotime
  vz_ClusterTLS :: gotime
  vz_GatewayTLS :: gotime
  vz_LeafNodeTLS :: gotime
  vz_MQTTTLS :: gotime
  vz_WebsocketTLS :: gotime
  vz_Now :: gotime
  vz_Start :: gotime
  vz_CPU :: rat
  vz_Mem :: int
  vz_Connections :: int
  vz_Subscriptions :: int

record CheckServerOptions =
  sv_Name :: string
  sv_CPUWarning :: int
  sv_CPUCritical :: int
  sv_MemoryWarning :: int
  sv_MemoryCritical :: int
  sv_ConnectionsWarning :: int
  sv_ConnectionsCritical :: int
  sv_SubscriptionsWarning :: int
  sv_SubscriptionsCritical :: int
  sv_UptimeWarning :: rat
  sv_UptimeCritical :: rat
  sv_AuthenticationRequired :: bool
  sv_TLSRequired :: bool
  sv_TLSExpireWarning :: string
  sv_TLSExpireCritical :: string
  sv_JetStreamRequired :: bool

definition hasTLSCertNotAfter :: "Varz \<Rightarrow> bool" where
  "hasTLSCertNotAfter vz \<longleftrightarrow>
     list_ex (\<lambda>t. \<not> IsZeroTime t)
       [vz_TLSCertNotAfter vz, vz_ClusterTLS vz, vz_GatewayTLS vz, vz_LeafNodeTLS vz, vz_MQTTTLS vz, vz_WebsocketTLS vz]"

definition duration_Truncate :: "duration \<Rightarrow> duration \<Rightarrow> duration" where
  "duration_Truncate d m = (if d \<ge> 0 then d - d mod m else d + (- d) mod m)"

definition checkTLSCertExpiry :: "string \<Rightarrow> gotime \<Rightarrow> gotime \<Rightarrow> duration \<Rightarrow> duration \<Rightarrow> Result \<Rightarrow> Result" where
  "checkTLSCertExpiry component expiry serverNow warningThreshold criticalThreshold check =
     (if IsZeroTime expiry then check
      else
        (let untilExpiry = duration_Truncate (time_Sub expiry serverNow) 1000000000;
             args = [AStr component, ADur untilExpiry, ATime expiry]
         in if untilExpiry \<le> 0 then Criticalf ''%s TLS certificate expired (expired_at=%v)'' [AStr component, ATime expiry] check
            else if criticalThreshold > 0 \<and> untilExpiry \<le> criticalThreshold then
              Criticalf ''%s TLS certificate expires in %v (expires_at=%v)'' args check
            else if warningThreshold > 0 \<and> untilExpiry \<le> warningThreshold then
              Warnf ''%s TLS certificate expires in %v (expires_at=%v)'' args check
            else Okf ''%s TLS certificate expires in %v (expires_at=%v)'' args check))"

definition server_checkVal :: "string \<Rightarrow> rat \<Rightarrow> rat \<Rightarrow> rat \<Rightarrow> bool \<Rightarrow> Result \<Rightarrow> Result" where
  "server_checkVal name crit warn v r check =
     (if crit = 0 \<and> warn = 0 then check
      else if \<not> r \<and> crit < warn then Criticalf ''%s invalid thresholds'' [AStr name] check
      else if r \<and> crit < warn then
        (if v \<le> crit then Criticalf ''%s %.2f'' [AStr name, AFloat v] check
         else if v \<le> warn then Warnf ''%s %.2f'' [AStr name, AFloat v] check
         else Okf ''%s %.2f'' [AStr name, AFloat v] check)
      else
        (if v \<ge> crit then Criticalf ''%s %.2f'' [AStr name, AFloat v] check
         else if v \<ge> warn then Warnf ''%s %.2f'' [AStr name, AFloat v] check
         else Okf ''%s %.2f'' [AStr name, AFloat v] check))"

text \<open>The early returns of the check: \<open>Inl\<close> is the result returned at once.\<close>

definition server_required :: "Varz \<Rightarrow> CheckServerOptions \<Rightarrow> Result \<Rightarrow> Result" where
  "server_required vz opts check =
     (let c1 = (if sv_JetStreamRequired opts then
                  (if vz_JetStreamConfig vz then Okf ''JetStream enabled'' [] check else Criticalf ''JetStream not enabled'' [] check)
                else check);
          c2 = (if sv_TLSRequired opts then (if vz_TLSRequired vz then Okf ''TLS required'' [] c1 else Criticalf ''TLS not required'' [] c1) else c1)
      in if sv_AuthenticationRequired opts then
           (if vz_AuthRequired vz then Okf ''Authentication required'' [] c2 else Criticalf ''Authentication not required'' [] c2)
         else c2)"

definition server_tls :: "Varz \<Rightarrow> CheckServerOptions \<Rightarrow> Result \<Rightarrow> Result + Result" where
  "server_tls vz opts check =
     (if sv_TLSExpireWarning opts = [] \<and> sv_TLSExpireCritical opts = [] then Inr check
      else if sv_TLSExpireWarning opts = [] \<or> sv_TLSExpireCritical opts = [] then
        Inl (Criticalf ''TLS certificate expiry requires both warning and critical thresholds'' [] check)
      else case ParseDuration (sv_TLSExpireWarning opts) of
             Inl e \<Rightarrow> Inl (Criticalf ''invalid TLS expire warning threshold %q: %v'' [AStr (sv_TLSExpireWarning opts), ADurErr e] check)
           | Inr warnThreshold \<Rightarrow>
               (case ParseDuration (sv_TLSExpireCritical opts) of
                  Inl e \<Rightarrow> Inl (Criticalf ''invalid TLS expire critical threshold %q: %v'' [AStr (sv_TLSExpireCritical opts), ADurErr e] check)
                | Inr critThreshold \<Rightarrow>
                    if warnThreshold > 0 \<or> critThreshold > 0 then
                      (if \<not> hasTLSCertNotAfter vz then
                         Inl (Criticalf ''TLS certificate expiry thresholds configured but no TLS certificates found'' [] check)
                       else Inr (fold (\<lambda>(component, expiry). checkTLSCertExpiry component expiry (vz_Now vz) warnThreshold critThreshold)
                         [(''server'', vz_TLSCertNotAfter vz), (''cluster'', vz_ClusterTLS vz), (''gateway'', vz_GatewayTLS vz),
                          (''leafnode'', vz_LeafNodeTLS vz), (''mqtt'', vz_MQTTTLS vz), (''websocket'', vz_WebsocketTLS vz)] check))
                    else Inr check))"

definition server_uptime :: "Varz \<Rightarrow> CheckServerOptions \<Rightarrow> Result \<Rightarrow> Result + Result" where
  "server_uptime vz opts check =
     (let up = time_Sub (vz_Now vz) (vz_Start vz)
      in if sv_UptimeWarning opts > 0 \<or> sv_UptimeCritical opts > 0 then
           (if sv_UptimeCritical opts > sv_UptimeWarning opts then Inl (Criticalf ''Up invalid thresholds'' [] check)
            else if up \<le> secondsToDuration (sv_UptimeCritical opts) then Inr (Criticalf ''Up %s'' [ADur up] check)
            else if up \<le> secondsToDuration (sv_UptimeWarning opts) then Inr (Warnf ''Up %s'' [ADur up] check)
            else Inr (Okf ''Up %s'' [ADur up] check))
         else Inr check)"

definition server_perfdata :: "Varz \<Rightarrow> CheckServerOptions \<Rightarrow> PerfDataItem list" where
  "server_perfdata vz opts =
     [(pd_item ''uptime'' (Seconds (time_Sub (vz_Now vz) (vz_Start vz))))\<lparr> pd_Warn := sv_UptimeWarning opts, pd_Crit := sv_UptimeCritical opts, pd_Unit := ''s'' \<rparr>,
      (pd_item ''cpu'' (vz_CPU vz))\<lparr> pd_Warn := to_float (sv_CPUWarning opts), pd_Crit := to_float (sv_CPUCritical opts), pd_Unit := ''%'' \<rparr>,
      (pd_item ''mem'' (to_float (vz_Mem vz)))\<lparr> pd_Warn := to_float (sv_MemoryWarning opts), pd_Crit := to_float (sv_MemoryCritical opts) \<rparr>,
      (pd_item ''connections'' (to_float (vz_Connections vz)))\<lparr> pd_Warn := to_float (sv_ConnectionsWarning opts), pd_Crit := to_float (sv_ConnectionsCritical opts) \<rparr>,
      (pd_item ''subscriptions'' (to_float (vz_Subscriptions vz)))\<lparr> pd_Warn := to_float (sv_SubscriptionsWarning opts), pd_Crit := to_float (sv_SubscriptionsCritical opts) \<rparr>]"

definition server_values :: "Varz \<Rightarrow> CheckServerOptions \<Rightarrow> Result \<Rightarrow> Result" where
  "server_values vz opts check =
     server_checkVal ''Subscriptions'' (to_float (sv_SubscriptionsCritical opts)) (to_float (sv_SubscriptionsWarning opts)) (to_float (vz_Subscriptions vz)) True
       (server_checkVal ''Connections'' (to_float (sv_ConnectionsCritical opts)) (to_float (sv_ConnectionsWarning opts)) (to_float (vz_Connections vz)) True
         (server_checkVal ''Memory'' (to_float (sv_MemoryCritical opts)) (to_float (sv_MemoryWarning opts)) (to_float (vz_Mem vz)) False
           (server_checkVal ''CPU'' (to_float (sv_CPUCritical opts)) (to_float (sv_CPUWarning opts)) (vz_CPU vz) False check)))"

definition CheckServerWithConnection :: "string + Varz option \<Rightarrow> CheckServerOptions \<Rightarrow> Result \<Rightarrow> Result" where
  "CheckServerWithConnection resolved opts check =
     (case resolved of
        Inl e \<Rightarrow> Criticalf ''varz failed: %v'' [AStr e] check
      | Inr None \<Rightarrow> Criticalf ''no data received'' [] check
      | Inr (Some vz) \<Rightarrow>
          if vz_Name vz \<noteq> sv_Name opts then Criticalf ''result from wrong server %q'' [AStr (vz_Name vz)] check
          else case server_tls vz opts (server_required vz opts check) of
                 Inl c \<Rightarrow> c
               | Inr c1 \<Rightarrow>
                   (case server_uptime vz opts c1 of
                      Inl c \<Rightarrow> c
                    | Inr c2 \<Rightarrow> server_values vz opts (Pd (server_perfdata vz opts) c2)))"

subsection \<open>The meta group\<close>

record CheckJetstreamMetaOptions =
  mo_ExpectServers :: int
  mo_LagCritical :: u64
  mo_SeenCritical :: rat

record MetaInfo =
  mi_Leader :: string
  mi_Replicas :: "PeerInfo list"

text \<open>What the resolver answers: an error it has reported, no data, no cluster information, or that.\<close>

definition CheckJetstreamMetaWithConnection ::
    "(Result \<Rightarrow> Result + MetaInfo option option) \<Rightarrow> CheckJetstreamMetaOptions \<Rightarrow> Result \<Rightarrow> Result" where
  "CheckJetstreamMetaWithConnection resolver opts check =
     (case resolver check of
        Inl c \<Rightarrow> c
      | Inr None \<Rightarrow> Criticalf ''no JSZ response received'' [] check
      | Inr (Some None) \<Rightarrow> Criticalf ''no cluster information'' [] check
      | Inr (Some (Some ci)) \<Rightarrow>
          if mi_Leader ci = [] then Criticalf ''No leader'' [] check
          else
            (let peers = int (length (mi_Replicas ci)) + 1;
                 c1 = Pd [(pd_item ''peers'' (to_float peers))\<lparr> pd_Warn := to_float (mo_ExpectServers opts), pd_Crit := to_float (mo_ExpectServers opts) \<rparr>] check;
                 c2 = (if mo_ExpectServers opts > 0 \<and> peers \<noteq> mo_ExpectServers opts then
                         Criticalf ''%d peers of expected %d'' [AInt peers, AInt (mo_ExpectServers opts)] c1 else c1);
                 notCurrent = count_if (\<lambda>p. \<not> pi_Current p) (mi_Replicas ci);
                 offline = count_if pi_Offline (mi_Replicas ci);
                 inactive = count_if (\<lambda>p. mo_SeenCritical opts > 0 \<and> pi_Active p > secondsToDuration (mo_SeenCritical opts)) (mi_Replicas ci);
                 lagged = count_if (\<lambda>p. mo_LagCritical opts > 0 \<and> pi_Lag p > mo_LagCritical opts) (mi_Replicas ci);
                 c3 = Pd [pd_item ''peer_offline'' (to_float offline), pd_item ''peer_not_current'' (to_float notCurrent),
                          pd_item ''peer_inactive'' (to_float inactive), pd_item ''peer_lagged'' (to_float lagged)] c2;
                 c4 = (if notCurrent > 0 then Criticalf ''%d not current'' [AInt notCurrent] c3 else c3);
                 c5 = (if inactive > 0 then Criticalf ''%d inactive more than %s'' [AInt inactive, ADur (secondsToDuration (mo_SeenCritical opts))] c4 else c4);
                 c6 = (if offline > 0 then Criticalf ''%d offline'' [AInt offline] c5 else c5);
                 c7 = (if lagged > 0 then Criticalf ''%d lagged more than %d ops'' [AInt lagged, AInt (uint (mo_LagCritical opts))] c6 else c6)
             in if r_Criticals c7 = [] \<and> r_Warnings c7 = [] then Okf ''%d peers led by %s'' [AInt peers, AStr (mi_Leader ci)] c7 else c7))"

subsection \<open>The account\<close>

record CheckJetStreamAccountOptions =
  ao_MemoryWarning :: int
  ao_MemoryCritical :: int
  ao_FileWarning :: int
  ao_FileCritical :: int
  ao_StreamWarning :: int
  ao_StreamCritical :: int
  ao_ConsumersWarning :: int
  ao_ConsumersCritical :: int
  ao_CheckReplicas :: bool
  ao_ReplicaSeenCritical :: rat
  ao_ReplicaLagCritical :: u64

text \<open>A percentage is \<open>float64(current) / float64(max) * 100\<close>, cut off.\<close>

definition used_percent :: "u64 \<Rightarrow> int \<Rightarrow> int" where
  "used_percent current maximum =
     (if maximum > 0 then
        truncate_int (float64 (float64 (to_float (uint current) / to_float maximum) * 100))
      else 0)"

definition account_checkVal :: "string \<Rightarrow> string \<Rightarrow> int \<Rightarrow> int \<Rightarrow> int \<Rightarrow> u64 \<Rightarrow> Result \<Rightarrow> Result" where
  "account_checkVal item unit warn crit maximum current check =
     (let pct = used_percent current maximum;
          help = (''JetStream %s resource usage'', [AStr item]);
          c1 = Pd [(pd_item item (to_float (uint current)))\<lparr> pd_Unit := unit, pd_Help := help \<rparr>] check;
          c2 = Pd [(pd_item (item @ ''_pct'') (to_float pct))\<lparr> pd_Unit := ''%'', pd_Warn := (if warn < 0 then 0 else to_float warn),
                     pd_Crit := (if crit < 0 then 0 else to_float crit), pd_Help := (''JetStream %s resource usage in percent'', [AStr item]) \<rparr>] c1
      in if warn \<noteq> - 1 \<and> crit \<noteq> - 1 \<and> warn \<ge> crit then Criticalf ''%s: invalid thresholds'' [AStr item] c2
         else if pct > 100 then Criticalf ''%s: exceed server limits'' [AStr item] c2
         else if warn \<ge> 0 \<and> crit \<ge> 0 then
           (if pct > crit then Criticalf ''%d%% %s'' [AInt pct, AStr item] c2
            else if pct > warn then Warnf ''%d%% %s'' [AInt pct, AStr item] c2
            else c2)
         else c2)"

definition checkJSAccountInfo :: "CheckJetStreamAccountOptions \<Rightarrow> JetStreamAccountStats option \<Rightarrow> Result \<Rightarrow> string option \<times> Result" where
  "checkJSAccountInfo opts info check =
     (case info of
        None \<Rightarrow> (Some ''invalid account status'', check)
      | Some i \<Rightarrow>
          (None,
           account_checkVal ''consumers'' [] (ao_ConsumersWarning opts) (ao_ConsumersCritical opts) (al_MaxConsumers (jt_Limits i)) (word_of_int (jt_Consumers i))
             (account_checkVal ''streams'' [] (ao_StreamWarning opts) (ao_StreamCritical opts) (al_MaxStreams (jt_Limits i)) (word_of_int (jt_Streams i))
               (account_checkVal ''storage'' ''B'' (ao_FileWarning opts) (ao_FileCritical opts) (al_MaxStore (jt_Limits i)) (jt_Store i)
                 (account_checkVal ''memory'' ''B'' (ao_MemoryWarning opts) (ao_MemoryCritical opts) (al_MaxMemory (jt_Limits i)) (jt_Memory i) check)))))"

text \<open>How a stream counts: one of the six kinds, or its replicas one by one, each in at most one kind.\<close>

record replica_counts =
  rk_ok :: int
  rk_noLeader :: int
  rk_missing :: int
  rk_crit :: int
  rk_lag :: int
  rk_seen :: int

definition count_replica :: "CheckJetStreamAccountOptions \<Rightarrow> PeerInfo \<Rightarrow> replica_counts \<times> bool \<Rightarrow> replica_counts \<times> bool" where
  "count_replica opts r s =
     (if pi_Offline r then ((fst s)\<lparr> rk_crit := rk_crit (fst s) + 1 \<rparr>, False)
      else if ao_ReplicaSeenCritical opts > 0 \<and> pi_Active r > secondsToDuration (ao_ReplicaSeenCritical opts) then
        ((fst s)\<lparr> rk_seen := rk_seen (fst s) + 1 \<rparr>, False)
      else if ao_ReplicaLagCritical opts > 0 \<and> pi_Lag r > ao_ReplicaLagCritical opts then
        ((fst s)\<lparr> rk_lag := rk_lag (fst s) + 1 \<rparr>, False)
      else s)"

definition count_stream :: "CheckJetStreamAccountOptions \<Rightarrow> StreamInfo option \<Rightarrow> replica_counts \<Rightarrow> replica_counts" where
  "count_stream opts info k =
     (case info of
        None \<Rightarrow> k\<lparr> rk_crit := rk_crit k + 1 \<rparr>
      | Some nfo \<Rightarrow>
          if sc_Replicas (nfo_Config nfo) = 1 then k\<lparr> rk_ok := rk_ok k + 1 \<rparr>
          else case nfo_Cluster nfo of
                 None \<Rightarrow> k\<lparr> rk_crit := rk_crit k + 1 \<rparr>
               | Some c \<Rightarrow>
                   if ci_Leader c = [] then k\<lparr> rk_noLeader := rk_noLeader k + 1 \<rparr>
                   else if int (length (ci_Replicas c)) \<noteq> sc_Replicas (nfo_Config nfo) - 1 then k\<lparr> rk_missing := rk_missing k + 1 \<rparr>
                   else (case fold (count_replica opts) (ci_Replicas c) (k, True) of
                           (k1, streamOk) \<Rightarrow> if streamOk then k1\<lparr> rk_ok := rk_ok k1 + 1 \<rparr> else k1))"

definition checkStreamClusterHealth :: "CheckJetStreamAccountOptions \<Rightarrow> StreamInfo option list \<Rightarrow> Result \<Rightarrow> Result" where
  "checkStreamClusterHealth opts infos check =
     (let k = fold (count_stream opts) infos \<lparr> rk_ok = 0, rk_noLeader = 0, rk_missing = 0, rk_crit = 0, rk_lag = 0, rk_seen = 0 \<rparr>;
          c1 = Pd [pd_item ''replicas_ok'' (to_float (rk_ok k)), pd_item ''replicas_no_leader'' (to_float (rk_noLeader k)),
                   pd_item ''replicas_missing_replicas'' (to_float (rk_missing k)),
                   (pd_item ''replicas_lagged'' (to_float (rk_lag k)))\<lparr> pd_Crit := to_float (uint (ao_ReplicaLagCritical opts)) \<rparr>,
                   (pd_item ''replicas_not_seen'' (to_float (rk_seen k)))\<lparr> pd_Crit := ao_ReplicaSeenCritical opts, pd_Unit := ''s'' \<rparr>,
                   pd_item ''replicas_fail'' (to_float (rk_crit k))] check;
          unhealthyCnt = rk_crit k + rk_missing k + rk_noLeader k + rk_seen k + rk_lag k
      in if unhealthyCnt > 0 then Criticalf ''%d unhealthy streams'' [AInt unhealthyCnt] c1 else c1)"

text \<open>The latest information of each stream, \<open>None\<close> where it cannot be had.\<close>

fun stream_infos :: "'w nats_client \<Rightarrow> Manager \<Rightarrow> Stream list \<Rightarrow> 'w \<Rightarrow> StreamInfo option list \<times> 'w" where
  "stream_infos x m [] w = ([], w)"
| "stream_infos x m (s # ss) w =
     (case LatestInformation x m s w of
        (Inl _, w1) \<Rightarrow> (case stream_infos x m ss w1 of (is, w2) \<Rightarrow> (None # is, w2))
      | (Inr (nfo, _), w1) \<Rightarrow> (case stream_infos x m ss w1 of (is, w2) \<Rightarrow> (nfo # is, w2)))"

text \<open>\<open>None\<close> when paging over the streams does not end; \<open>mgr\<close> is the manager, if there is one.\<close>

definition CheckJetStreamAccountWithConnection ::
    "'w nats_client \<Rightarrow> Manager option \<Rightarrow> (Result \<Rightarrow> 'w \<Rightarrow> (JetStreamAccountStats option \<times> Result) \<times> 'w) \<Rightarrow>
     CheckJetStreamAccountOptions \<Rightarrow> Result \<Rightarrow> 'w \<Rightarrow> (Result \<times> 'w) option" where
  "CheckJetStreamAccountWithConnection x mgr resolver opts check w =
     (case resolver check w of
        ((info, c0), w1) \<Rightarrow>
          (case checkJSAccountInfo opts info c0 of
             (Some e, c1) \<Rightarrow> Some (Criticalf ''JetStream not available: %s'' [AStr e] c1, w1)
           | (None, c1) \<Rightarrow>
               if \<not> ao_CheckReplicas opts then Some (c1, w1)
               else case mgr of
                      None \<Rightarrow> Some (Criticalf ''replica checks require a manager connection'' [] c1, w1)
                    | Some m \<Rightarrow>
                        (case Streams x m None w1 of
                           None \<Rightarrow> None
                         | Some ((_, Some e), w2) \<Rightarrow> Some (Criticalf ''JetStream not available: %s'' [AErr e] c1, w2)
                         | Some ((l, None), w2) \<Rightarrow>
                             (case stream_infos x m (sl_streams l) w2 of
                                (infos, w3) \<Rightarrow> Some (checkStreamClusterHealth opts infos c1, w3)))))"

end
