(* ===== verification/Monitor_Misc.thy ===== *)
theory Monitor_Misc
  imports Monitor_Server
begin

text \<open>
  The checks of a key-value bucket, a stream message, a request, a connection and a credential
  (\<open>src/monitor/kv.go\<close>, \<open>stream_msg.go\<close>, \<open>request.go\<close>, \<open>connection.go\<close>, \<open>credentials.go\<close>). What
  \<open>nats.go\<close>, \<open>nkeys\<close> and \<open>jwt\<close> answer and the clock are arguments; \<open>re\<close> is \<open>regexp.Compile\<close>.
\<close>

subsection \<open>Key-value buckets\<close>

datatype kv_operation = KeyValuePut | KeyValueDelete | KeyValuePurge | KeyValueOther string

record kv_status =
  ks_Values :: u64
  ks_JetStream :: "(u64 \<times> int) option"

record kv_bucket =
  kb_Status :: "string + kv_status"
  kb_Get :: "string \<Rightarrow> string option + kv_operation"

text \<open>\<open>Inl None\<close> is \<open>ErrBucketNotFound\<close> and \<open>ErrKeyNotFound\<close>, \<open>Inl (Some e)\<close> any other error.\<close>

record CheckKVBucketAndKeyOptions =
  kv_Bucket :: string
  kv_Key :: string
  kv_ValuesWarning :: int
  kv_ValuesCritical :: int

definition kv_check_key :: "kv_bucket \<Rightarrow> string \<Rightarrow> Result \<Rightarrow> Result" where
  "kv_check_key kv key check =
     (if key = [] then check
      else case kb_Get kv key of
             Inl None \<Rightarrow> Criticalf ''key %s not found'' [AStr key] check
           | Inl (Some e) \<Rightarrow> Criticalf ''key %s not loaded: %v'' [AStr key, AStr e] check
           | Inr KeyValueDelete \<Rightarrow> Criticalf ''key %v is deleted'' [AStr key] check
           | Inr KeyValuePurge \<Rightarrow> Criticalf ''key %v is purged'' [AStr key] check
           | Inr KeyValuePut \<Rightarrow> Okf ''key %s found'' [AStr key] check
           | Inr (KeyValueOther operation) \<Rightarrow> Criticalf ''unknown key operation for %s: %v'' [AStr key, AStr operation] check)"

definition kv_check_values :: "u64 \<Rightarrow> CheckKVBucketAndKeyOptions \<Rightarrow> Result \<Rightarrow> Result" where
  "kv_check_values values opts check =
     (let warn = kv_ValuesWarning opts; crit = kv_ValuesCritical opts; args = [AInt (uint values)]
      in if warn > - 1 \<or> crit > - 1 then
           (if crit < warn then
              (if crit > - 1 \<and> values \<le> word_of_int crit then Criticalf ''%d values'' args check
               else if warn > - 1 \<and> values \<le> word_of_int warn then Warnf ''%d values'' args check
               else Okf ''%d values'' args check)
            else
              (if crit > - 1 \<and> values \<ge> word_of_int crit then Criticalf ''%d values'' args check
               else if warn > - 1 \<and> values \<ge> word_of_int warn then Warnf ''%d values'' args check
               else Okf ''%d values'' args check))
         else check)"

definition CheckKVBucketAndKeyWithConnection ::
    "string option \<Rightarrow> (string \<Rightarrow> string option + kv_bucket) \<Rightarrow> CheckKVBucketAndKeyOptions \<Rightarrow> Result \<Rightarrow> Result" where
  "CheckKVBucketAndKeyWithConnection js bucket opts check =
     (case js of
        Some e \<Rightarrow> Criticalf ''connection failed: %v'' [AStr e] check
      | None \<Rightarrow>
          (case bucket (kv_Bucket opts) of
             Inl None \<Rightarrow> Criticalf ''bucket %v not found'' [AStr (kv_Bucket opts)] check
           | Inl (Some e) \<Rightarrow> Criticalf ''could not load bucket: %v'' [AStr e] check
           | Inr kv \<Rightarrow>
               (let c1 = Okf ''bucket %s'' [AStr (kv_Bucket opts)] check
                in case kb_Status kv of
                     Inl e \<Rightarrow> Criticalf ''could not obtain bucket status: %v'' [AStr e] c1
                   | Inr status \<Rightarrow>
                       (let valWarn = (if kv_ValuesWarning opts < 0 then 0 else to_float (kv_ValuesWarning opts));
                            valCrit = (if kv_ValuesCritical opts < 0 then 0 else to_float (kv_ValuesCritical opts));
                            c2 = Pd [(pd_item ''values'' (to_float (uint (ks_Values status))))\<lparr> pd_Warn := valWarn, pd_Crit := valCrit \<rparr>] c1;
                            c3 = kv_check_values (ks_Values status) opts (kv_check_key kv (kv_Key opts) c2)
                        in case ks_JetStream status of
                             None \<Rightarrow> c3
                           | Some (stored, replicas) \<Rightarrow>
                               Pd [(pd_item ''bytes'' (to_float (uint stored)))\<lparr> pd_Unit := ''B'' \<rparr>, pd_item ''replicas'' (to_float replicas)] c3))))"

subsection \<open>Stream messages\<close>

record CheckStreamMessageOptions =
  ms_StreamName :: string
  ms_Subject :: string
  ms_AgeWarning :: rat
  ms_AgeCritical :: rat
  ms_Content :: string
  ms_BodyAsTimestamp :: bool

definition time_Unix :: "int \<Rightarrow> gotime" where
  "time_Unix s = s * 1000000000"

definition check_content :: "(string \<Rightarrow> string + (bytes \<Rightarrow> bool)) \<Rightarrow> string \<Rightarrow> string \<Rightarrow> arg list \<Rightarrow> bytes \<Rightarrow> Result \<Rightarrow> Result + Result" where
  "check_content re pattern format args body check =
     (if pattern = [] then Inr check
      else case re pattern of
             Inl e \<Rightarrow> Inl (Criticalf ''content regex compile failed: %v'' [AStr e] check)
           | Inr matches \<Rightarrow> Inr (if matches body then check else Criticalf format args check))"

definition stream_message_age :: "gotime \<Rightarrow> gotime \<Rightarrow> CheckStreamMessageOptions \<Rightarrow> Result \<Rightarrow> Result" where
  "stream_message_age now ts opts check =
     (let since = time_Sub now ts
      in if ms_AgeCritical opts > 0 \<and> since > secondsToDuration (ms_AgeCritical opts) then
           Criticalf ''%v old'' [ADur (duration_Round since Millisecond)] check
         else if ms_AgeWarning opts > 0 \<and> since > secondsToDuration (ms_AgeWarning opts) then
           Warnf ''%v old'' [ADur (duration_Round since Millisecond)] check
         else check)"

definition CheckStreamMessageWithConnection ::
    "'w nats_client \<Rightarrow> Manager \<Rightarrow> (string \<Rightarrow> string + (bytes \<Rightarrow> bool)) \<Rightarrow> gotime \<Rightarrow> CheckStreamMessageOptions \<Rightarrow> Result \<Rightarrow> ('w, Result) api" where
  "CheckStreamMessageWithConnection x m re now opts check w =
     (if \<not> nc_literal x (ms_Subject opts) then (Inl (Usage ''invalid subject''), w)
      else case manager_ReadLastMessageForSubject x m (ms_StreamName opts) (ms_Subject opts) w of
             (Inl e, w1) \<Rightarrow>
               (Inr (if IsNatsError e 10037 then Criticalf ''no message found'' [] check
                     else Criticalf ''msg load failed: %v'' [AErr e] check), w1)
           | (Inr None, w1) \<Rightarrow> (Inl Panic, w1)
           | (Inr (Some msg), w1) \<Rightarrow>
               (case (if ms_BodyAsTimestamp opts then
                        (case atoi (trim_space (sm_Data msg)) of None \<Rightarrow> None | Some i \<Rightarrow> Some (time_Unix i))
                      else Some (sm_Time msg)) of
                  None \<Rightarrow> (Inr (Criticalf ''invalid timestamp body: %v'' [AStr (sm_Data msg)] check), w1)
                | Some ts \<Rightarrow>
                    (let c1 = Pd [(pd_item ''age'' (Seconds (duration_Round (time_Sub now ts) Millisecond)))\<lparr> pd_Warn := ms_AgeWarning opts,
                                     pd_Crit := ms_AgeCritical opts, pd_Unit := ''s'' \<rparr>] check;
                         c2 = Pd [(pd_item ''size'' (to_float (int (length (sm_Data msg)))))\<lparr> pd_Unit := ''B'' \<rparr>] c1;
                         c3 = stream_message_age now ts opts c2
                     in case check_content re (ms_Content opts) ''does not match regex: %s'' [AStr (ms_Content opts)] (sm_Data msg) c3 of
                          Inl c \<Rightarrow> (Inr c, w1)
                        | Inr c4 \<Rightarrow>
                            (Inr (OkIfNoWarningsOrCriticalsf ''Valid message on %s > %s'' [AStr (ms_StreamName opts), AStr (ms_Subject opts)] c4), w1))))"

subsection \<open>Requests\<close>

record CheckRequestOptions =
  rq_Subject :: string
  rq_Payload :: string
  rq_Header :: "(string, string) gomap"
  rq_HeaderMatch :: "(string, string) gomap"
  rq_ResponseMatch :: string
  rq_ResponseTimeWarn :: rat
  rq_ResponseTimeCritical :: rat

text \<open>\<open>request\<close> is how long the request took and its answer: an error, or the header lookup and the data.\<close>

definition CheckRequestWithConnection ::
    "(CheckRequestOptions \<Rightarrow> duration \<times> (string + (string \<Rightarrow> string) \<times> bytes)) \<Rightarrow> (string \<Rightarrow> string + (bytes \<Rightarrow> bool)) \<Rightarrow>
     CheckRequestOptions \<Rightarrow> Result \<Rightarrow> Result" where
  "CheckRequestWithConnection request re opts check =
     (if rq_Subject opts = [] then Criticalf ''no subject specified'' [] check
      else case request opts of
        (since, res) \<Rightarrow>
          (let c1 = Pd [(pd_item ''time'' (Seconds (duration_Round since Millisecond)))\<lparr> pd_Warn := rq_ResponseTimeWarn opts,
                          pd_Crit := rq_ResponseTimeCritical opts, pd_Unit := ''s'' \<rparr>] check
           in case res of
                Inl e \<Rightarrow> Criticalf ''could not send request: %v'' [AStr e] c1
              | Inr (header_Get, data) \<Rightarrow>
                  (case check_content re (rq_ResponseMatch opts) ''response does not match regexp'' [] data c1 of
                     Inl c \<Rightarrow> c
                   | Inr c2 \<Rightarrow>
                       (let c3 = fold (\<lambda>(k, v) c. if header_Get k \<noteq> v then Criticalf ''invalid header %q = %q'' [AStr k, AStr (header_Get k)] c else c)
                              (rq_HeaderMatch opts) c2;
                            c4 = (if rq_ResponseTimeCritical opts > 0 \<and> Seconds since > rq_ResponseTimeCritical opts then
                                    Criticalf ''response took %v'' [ADur (duration_Round since Millisecond)] c3
                                  else if rq_ResponseTimeWarn opts > 0 \<and> Seconds since > rq_ResponseTimeWarn opts then
                                    Warnf ''response took %v'' [ADur (duration_Round since Millisecond)] c3
                                  else c3)
                        in OkIfNoWarningsOrCriticalsf ''Valid response'' [] c4))))"

subsection \<open>Connections\<close>

record CheckConnectionOptions =
  cx_ConnectTimeWarning :: rat
  cx_ConnectTimeCritical :: rat
  cx_ServerRttWarning :: rat
  cx_ServerRttCritical :: rat
  cx_RequestRttWarning :: rat
  cx_RequestRttCritical :: rat

text \<open>
  What happened: the time and answer of the connection, the round trip time, and the time of the
  published message with whether it came back as it was sent.
\<close>

record connection_env =
  ce_connect :: "string + duration"
  ce_url :: string
  ce_rtt :: "string + duration"
  ce_subscribe :: "string option"
  ce_publish :: "string option"
  ce_receive :: "string + (duration \<times> bool)"

text \<open>The three time checks differ in what they report.\<close>

definition time_threshold :: "rat \<Rightarrow> rat \<Rightarrow> duration \<Rightarrow> (Result \<Rightarrow> Result) \<Rightarrow> (Result \<Rightarrow> Result) \<Rightarrow> (Result \<Rightarrow> Result) \<Rightarrow> Result \<Rightarrow> Result" where
  "time_threshold crit warn t critical warning ok check =
     (if crit \<noteq> 0 \<and> t \<ge> secondsToDuration crit then critical check
      else if warn \<noteq> 0 \<and> t \<ge> secondsToDuration warn then warning check
      else ok check)"

definition CheckConnection :: "connection_env \<Rightarrow> CheckConnectionOptions \<Rightarrow> Result \<Rightarrow> Result" where
  "CheckConnection v opts check =
     (case ce_connect v of
        Inl e \<Rightarrow> Criticalf ''connection failed: %v'' [AStr e] check
      | Inr ct \<Rightarrow>
          (let c1 = Pd [(pd_item ''connect_time'' (Seconds ct))\<lparr> pd_Warn := cx_ConnectTimeWarning opts, pd_Crit := cx_ConnectTimeCritical opts,
                          pd_Unit := ''s'' \<rparr>] check;
               c2 = time_threshold (cx_ConnectTimeCritical opts) (cx_ConnectTimeWarning opts) ct
                      (Criticalf ''connected to %s, connect time exceeded %v'' [AStr (ce_url v), AFloat (cx_ConnectTimeCritical opts)])
                      (Warnf ''connected to %s, connect time exceeded %v'' [AStr (ce_url v), AFloat (cx_ConnectTimeWarning opts)])
                      (Okf ''connected to %s in %s'' [AStr (ce_url v), ADur ct]) c1
           in case ce_rtt v of
                Inl e \<Rightarrow> Criticalf ''rtt failed: %s'' [AStr e] c2
              | Inr rtt \<Rightarrow>
                  (let c3 = Pd [(pd_item ''rtt'' (Seconds rtt))\<lparr> pd_Warn := cx_ServerRttWarning opts, pd_Crit := cx_ServerRttCritical opts,
                                  pd_Unit := ''s'' \<rparr>] c2;
                       c4 = time_threshold (cx_ServerRttCritical opts) (cx_ServerRttWarning opts) rtt
                              (Criticalf ''rtt time exceeded %v'' [AFloat (cx_ServerRttCritical opts)])
                              (Warnf ''rtt time exceeded %v'' [AFloat (cx_ServerRttWarning opts)])
                              (Okf ''rtt time %v'' [ADur rtt]) c3
                   in case (ce_subscribe v, ce_publish v, ce_receive v) of
                        (Some e, _) \<Rightarrow> Criticalf ''could not subscribe to %s: %s'' [AStr e] c4
                      | (None, Some e, _) \<Rightarrow> Criticalf ''could not publish to %s: %s'' [AStr e] c4
                      | (None, None, Inl e) \<Rightarrow> Criticalf ''did not receive from %s: %s'' [AStr e] c4
                      | (None, None, Inr (reqt, same)) \<Rightarrow>
                          (let c5 = Pd [(pd_item ''request_time'' (Seconds reqt))\<lparr> pd_Warn := cx_RequestRttWarning opts,
                                          pd_Crit := cx_RequestRttCritical opts, pd_Unit := ''s'' \<rparr>] c4;
                               c6 = (if same then c5 else Criticalf ''did not receive expected message'' [] c5)
                           in time_threshold (cx_RequestRttCritical opts) (cx_RequestRttWarning opts) reqt
                                (Criticalf ''round trip request took %f'' [AFloat (Seconds reqt)])
                                (Warnf ''round trip request took %f'' [AFloat (Seconds reqt)])
                                (Okf ''round trip took %fs'' [AFloat (Seconds reqt)]) c6))))"

subsection \<open>Credentials\<close>

record CheckCredentialOptions =
  cd_File :: string
  cd_ValidityWarning :: rat
  cd_ValidityCritical :: rat
  cd_RequiresExpiry :: bool

text \<open>
  \<open>accessible\<close> and \<open>content\<close> are the file, \<open>expires\<close> decodes its token; \<open>now\<close> is in Unix seconds.
\<close>

definition CheckCredential ::
    "(string \<Rightarrow> string + bool) \<Rightarrow> (string \<Rightarrow> string + bytes) \<Rightarrow> (bytes \<Rightarrow> string + int) \<Rightarrow> int \<Rightarrow> CheckCredentialOptions \<Rightarrow> Result \<Rightarrow> Result" where
  "CheckCredential accessible content expires now opts check =
     (case accessible (cd_File opts) of
        Inl e \<Rightarrow> Criticalf ''credential not accessible: %v'' [AStr e] check
      | Inr False \<Rightarrow> Criticalf ''credential not accessible'' [] check
      | Inr True \<Rightarrow>
          (case content (cd_File opts) of
             Inl e \<Rightarrow> Criticalf ''credential not accessible: %v'' [AStr e] check
           | Inr cb \<Rightarrow>
               (case expires cb of
                  Inl e \<Rightarrow> Criticalf ''invalid credential: %v'' [AStr e] check
                | Inr expiry \<Rightarrow>
                    (let until = expiry - now;
                         crit = secondsToDuration (cd_ValidityCritical opts);
                         warn = secondsToDuration (cd_ValidityWarning opts);
                         c1 = Pd [(pd_item ''expiry'' (to_float until))\<lparr> pd_Warn := to_float warn, pd_Crit := to_float crit, pd_Unit := ''s'' \<rparr>] check
                     in if expiry = 0 \<and> cd_RequiresExpiry opts then Criticalf ''never expires'' [] c1
                        else if cd_ValidityCritical opts > 0 \<and> until \<le> crit then Criticalf ''expires sooner than %s'' [ADur crit] c1
                        else if cd_ValidityWarning opts > 0 \<and> until \<le> warn then Warnf ''expires sooner than %s'' [ADur warn] c1
                        else if expiry = 0 then Okf ''never expires'' [] c1
                        else Okf ''expires in %s'' [ATime (time_Unix expiry)] c1))))"

end
