(* ===== verification/Monitor_Props.thy ===== *)
theory Monitor_Props
  imports Monitor_Misc
begin

text \<open>
  What the monitor checks decide: the exit code of a stream check, that a consumer that falls behind
  never gets a better verdict, how account checks count, and the options read from metadata.
\<close>

subsection \<open>Streams\<close>

lemma count_if_positive: "count_if P xs > 0 \<longleftrightarrow> (\<exists>x \<in> set xs. P x)"
  by (auto simp: count_if_def filter_empty_conv)

definition single_server :: "StreamInfo \<Rightarrow> bool" where
  "single_server si \<longleftrightarrow> nfo_Cluster si = None \<or> sc_Replicas (nfo_Config si) \<le> 1"

definition replica_bad :: "CheckStreamHealthOptions \<Rightarrow> PeerInfo \<Rightarrow> bool" where
  "replica_bad opt p \<longleftrightarrow> pi_Offline p \<or> (so_ClusterLagCritical opt > 0 \<and> pi_Lag p > so_ClusterLagCritical opt) \<or>
     (so_ClusterSeenCritical opt > 0 \<and> pi_Active p > secondsToDuration (so_ClusterSeenCritical opt))"

definition cluster_bad :: "StreamInfo \<Rightarrow> CheckStreamHealthOptions \<Rightarrow> bool" where
  "cluster_bad si opt \<longleftrightarrow>
     (if single_server si then so_ClusterExpectedPeers opt > 0
      else ci_Leader (the (nfo_Cluster si)) = [] \<or>
        int (length (ci_Replicas (the (nfo_Cluster si)))) + 1 \<noteq> so_ClusterExpectedPeers opt \<or>
        (\<exists>p \<in> set (ci_Replicas (the (nfo_Cluster si))). replica_bad opt p))"

definition origin_bad :: "CheckStreamHealthOptions \<Rightarrow> StreamSourceInfo \<Rightarrow> bool" where
  "origin_bad opt s \<longleftrightarrow> (so_SourcesLagCritical opt > 0 \<and> ssi_Lag s \<ge> so_SourcesLagCritical opt) \<or>
     (so_SourcesSeenCritical opt > 0 \<and> ssi_Active s \<ge> secondsToDuration (so_SourcesSeenCritical opt))"

definition sources_bad :: "StreamInfo \<Rightarrow> CheckStreamHealthOptions \<Rightarrow> bool" where
  "sources_bad si opt \<longleftrightarrow>
     (so_MinSources opt > 0 \<and> int (length (nfo_Sources si)) < so_MinSources opt) \<or>
     (so_MaxSources opt > 0 \<and> int (length (nfo_Sources si)) > so_MaxSources opt) \<or>
     (\<exists>s \<in> set (nfo_Sources si). origin_bad opt s)"

definition mirror_bad :: "StreamInfo \<Rightarrow> CheckStreamHealthOptions \<Rightarrow> bool" where
  "mirror_bad si opt \<longleftrightarrow> (so_SourcesLagCritical opt > 0 \<or> so_SourcesSeenCritical opt > 0) \<and> sc_Name (nfo_Config si) \<noteq> [] \<and> nfo_Sources si = [] \<and>
     (sc_Mirror (nfo_Config si) = None \<or> nfo_Mirror si = None \<or> origin_bad opt (the (nfo_Mirror si)))"

text \<open>The level of a count with two thresholds: too many, or too few when the warning is not below the critical one.\<close>

definition subjects_level :: "StreamInfo \<Rightarrow> CheckStreamHealthOptions \<Rightarrow> nat" where
  "subjects_level si opt =
     (let n = sst_NumSubjects (nfo_State si); w = so_SubjectsWarn opt; c = so_SubjectsCrit opt
      in if w \<le> 0 \<and> c \<le> 0 then 0
         else if w < c then (if n \<ge> c then 2 else if n \<ge> w then 1 else 0)
         else (if n \<le> c then 2 else if n \<le> w then 1 else 0))"

definition messages_level :: "StreamInfo \<Rightarrow> CheckStreamHealthOptions \<Rightarrow> nat" where
  "messages_level si opt =
     (let n = sst_Msgs (nfo_State si)
      in if so_MessagesCrit opt > 0 \<and> n \<le> so_MessagesCrit opt then 2 else if so_MessagesWarn opt > 0 \<and> n \<le> so_MessagesWarn opt then 1 else 0)"

lemma format_simps [simp]:
  "r_RenderFormat (Pd pd r) = r_RenderFormat r" "r_RenderFormat (Criticalf f a r) = r_RenderFormat r"
  "r_RenderFormat (Warnf f a r) = r_RenderFormat r" "r_RenderFormat (Okf f a r) = r_RenderFormat r"
  "r_RenderFormat (new_result name) = NagiosFormat"
  by (simp_all add: result_defs new_result_def)

lemma severity_max2 [simp]: "max 2 (severity r) = 2" "max (severity r) 2 = 2"
  using severity_le [of r] by simp_all

lemma u64_positive: "\<not> (n :: u64) \<le> 0 \<longleftrightarrow> n > 0" "(n :: u64) \<le> 0 \<longleftrightarrow> n = 0"
  by (simp_all add: word_gt_0)

lemma cluster_severity: "severity (streamCheckCluster si opt r) = max (if cluster_bad si opt then 2 else 0) (severity r)"
proof (cases "single_server si")
  case True
  then show ?thesis by (auto simp: streamCheckCluster_def cluster_bad_def single_server_def Let_def)
next
  case False
  then obtain c where c: "nfo_Cluster si = Some c" "\<not> sc_Replicas (nfo_Config si) \<le> 1" by (auto simp: single_server_def)
  show ?thesis
    unfolding streamCheckCluster_def cluster_bad_def Let_def
    using False c by (auto simp: single_server_def count_if_positive replica_bad_def u64_positive)
qed

lemma sources_severity: "severity (streamCheckSources si opt r) = max (if sources_bad si opt then 2 else 0) (severity r)"
proof (cases "so_SourcesLagCritical opt \<le> 0 \<and> so_SourcesSeenCritical opt \<le> 0")
  case True
  then show ?thesis by (auto simp: streamCheckSources_def sources_bad_def origin_bad_def Let_def)
next
  case False
  let ?n = "int (length (nfo_Sources si))"
  define few where "few \<longleftrightarrow> so_MinSources opt > 0 \<and> ?n < so_MinSources opt \<or> so_MaxSources opt > 0 \<and> ?n > so_MaxSources opt"
  have "sources_bad si opt \<longleftrightarrow> few \<or> (\<exists>s \<in> set (nfo_Sources si). so_SourcesLagCritical opt > 0 \<and> ssi_Lag s \<ge> so_SourcesLagCritical opt) \<or>
      (\<exists>s \<in> set (nfo_Sources si). so_SourcesSeenCritical opt > 0 \<and> ssi_Active s \<ge> secondsToDuration (so_SourcesSeenCritical opt))"
    by (auto simp: sources_bad_def origin_bad_def few_def)
  then show ?thesis using False unfolding streamCheckSources_def Let_def
    by (auto simp: count_if_positive few_def)
qed

lemma mirror_severity: "severity (streamCheckMirror si opt r) = max (if mirror_bad si opt then 2 else 0) (severity r)"
  by (cases "sc_Mirror (nfo_Config si)"; cases "nfo_Mirror si")
    (auto simp: streamCheckMirror_def mirror_bad_def origin_bad_def u64_positive word_gt_0 Let_def)

lemma subjects_severity: "severity (streamCheckSubjects si opt r) = max (subjects_level si opt) (severity r)"
  by (auto simp: streamCheckSubjects_def subjects_level_def Let_def)

lemma messages_severity: "severity (streamCheckMessages si opt r) = max (messages_level si opt) (severity r)"
  by (auto simp: streamCheckMessages_def messages_level_def u64_positive Let_def)

lemmas stream_severities = cluster_severity sources_severity mirror_severity subjects_severity messages_severity

lemma levels_le: "subjects_level si opt \<le> 2" "messages_level si opt \<le> 2"
  by (simp_all add: subjects_level_def messages_level_def Let_def)

lemma stream_formats [simp]:
  "r_RenderFormat (streamCheckCluster si opt r) = r_RenderFormat r"
  "r_RenderFormat (streamCheckMessages si opt r) = r_RenderFormat r"
  "r_RenderFormat (streamCheckSubjects si opt r) = r_RenderFormat r"
  "r_RenderFormat (streamCheckSources si opt r) = r_RenderFormat r"
  "r_RenderFormat (streamCheckMirror si opt r) = r_RenderFormat r"
  by (simp_all add: streamCheckCluster_def streamCheckMessages_def streamCheckSubjects_def streamCheckSources_def streamCheckMirror_def
      Let_def split: option.split)


text \<open>With one of the two subject thresholds left out: with the critical one alone a stream is at warning
  level whatever it holds, with the warning alone it is when it holds few, not many, subjects.\<close>

lemma lone_subject_thresholds:
  "so_SubjectsWarn opt = 0 \<Longrightarrow> so_SubjectsCrit opt > 0 \<Longrightarrow> sst_NumSubjects (nfo_State si) \<ge> 0 \<Longrightarrow> subjects_level si opt \<ge> 1"
  "so_SubjectsWarn opt > 0 \<Longrightarrow> so_SubjectsCrit opt = 0 \<Longrightarrow> sst_NumSubjects (nfo_State si) > so_SubjectsWarn opt \<Longrightarrow> subjects_level si opt = 0"
  by (simp_all add: subjects_level_def Let_def)

subsection \<open>Consumers\<close>

definition since_bad :: "gotime \<Rightarrow> gotime option \<Rightarrow> rat \<Rightarrow> bool" where
  "since_bad now t crit \<longleftrightarrow> crit > 0 \<and> (case t of None \<Rightarrow> True | Some l \<Rightarrow> time_Sub now l \<ge> secondsToDuration crit)"

definition pinned_bad :: "ConsumerInfo \<Rightarrow> bool" where
  "pinned_bad nfo \<longleftrightarrow> cn_PriorityGroups nfo = [] \<or> priority_groups nfo = [] \<or> cc_PriorityPolicy (cn_Config nfo) \<noteq> PriorityPinnedClient \<or>
     count_if (\<lambda>g. pg_PinnedClientID g \<noteq> []) (cn_PriorityGroups nfo) \<noteq> int (length (priority_groups nfo))"

definition consumer_bad :: "gotime \<Rightarrow> ConsumerInfo \<Rightarrow> CheckConsumerHealthOptions \<Rightarrow> bool" where
  "consumer_bad now nfo opt \<longleftrightarrow>
     (co_AckOutstandingCritical opt > 0 \<and> cn_NumAckPending nfo \<ge> co_AckOutstandingCritical opt) \<or>
     (co_WaitingCritical opt > 0 \<and> cn_NumWaiting nfo \<ge> co_WaitingCritical opt) \<or>
     (co_UnprocessedCritical opt > 0 \<and> cn_NumPending nfo \<ge> word_of_int (co_UnprocessedCritical opt)) \<or>
     (co_RedeliveryCritical opt > 0 \<and> cn_NumRedelivered nfo \<ge> co_RedeliveryCritical opt) \<or>
     since_bad now (sq_Last (cn_Delivered nfo)) (co_LastDeliveryCritical opt) \<or>
     since_bad now (sq_Last (cn_AckFloor nfo)) (co_LastAckCritical opt) \<or>
     (co_Pinned opt \<and> pinned_bad nfo)"

lemma consumer_severities:
  "severity (consumerCheckOutstandingAck nfo opt r) =
     max (if co_AckOutstandingCritical opt > 0 \<and> cn_NumAckPending nfo \<ge> co_AckOutstandingCritical opt then 2 else 0) (severity r)"
  "severity (consumerCheckWaiting nfo opt r) =
     max (if co_WaitingCritical opt > 0 \<and> cn_NumWaiting nfo \<ge> co_WaitingCritical opt then 2 else 0) (severity r)"
  "severity (consumerCheckUnprocessed nfo opt r) =
     max (if co_UnprocessedCritical opt > 0 \<and> cn_NumPending nfo \<ge> word_of_int (co_UnprocessedCritical opt) then 2 else 0) (severity r)"
  "severity (consumerCheckRedelivery nfo opt r) =
     max (if co_RedeliveryCritical opt > 0 \<and> cn_NumRedelivered nfo \<ge> co_RedeliveryCritical opt then 2 else 0) (severity r)"
  "severity (consumerCheckLastDelivery now nfo opt r) =
     max (if since_bad now (sq_Last (cn_Delivered nfo)) (co_LastDeliveryCritical opt) then 2 else 0) (severity r)"
  "severity (consumerCheckLastAck now nfo opt r) =
     max (if since_bad now (sq_Last (cn_AckFloor nfo)) (co_LastAckCritical opt) then 2 else 0) (severity r)"
  "severity (consumerCheckPinned nfo opt r) = max (if co_Pinned opt \<and> pinned_bad nfo then 2 else 0) (severity r)"
  by (auto simp: consumerCheckOutstandingAck_def consumerCheckWaiting_def consumerCheckUnprocessed_def consumerCheckRedelivery_def
      consumerCheckLastDelivery_def consumerCheckLastAck_def consumerCheckPinned_def since_bad_def pinned_bad_def Let_def split: option.split)

lemma merge_levels: "max (if p then 2 else 0) (max (if q then 2 else 0) (n :: nat)) = max (if p \<or> q then 2 else 0) n"
  by simp

lemma consumer_severity:
  "severity (CheckConsumerInfoHealth now nfo opt r) = max (if consumer_bad now nfo opt then 2 else 0) (severity r)"
  unfolding CheckConsumerInfoHealth_def consumer_severities consumer_bad_def merge_levels by (rule arg_cong2 [where f = max]) (auto)

lemma consumer_check_formats [simp]:
  "r_RenderFormat (consumerCheckOutstandingAck nfo opt r) = r_RenderFormat r"
  "r_RenderFormat (consumerCheckWaiting nfo opt r) = r_RenderFormat r"
  "r_RenderFormat (consumerCheckUnprocessed nfo opt r) = r_RenderFormat r"
  "r_RenderFormat (consumerCheckRedelivery nfo opt r) = r_RenderFormat r"
  "r_RenderFormat (consumerCheckLastDelivery now nfo opt r) = r_RenderFormat r"
  "r_RenderFormat (consumerCheckLastAck now nfo opt r) = r_RenderFormat r"
  "r_RenderFormat (consumerCheckPinned nfo opt r) = r_RenderFormat r"
  by (simp_all add: consumerCheckOutstandingAck_def consumerCheckWaiting_def consumerCheckUnprocessed_def
      consumerCheckRedelivery_def consumerCheckLastDelivery_def consumerCheckLastAck_def consumerCheckPinned_def Let_def split: option.split)

lemma consumer_formats [simp]: "r_RenderFormat (CheckConsumerInfoHealth now nfo opt r) = r_RenderFormat r"
  by (simp add: CheckConsumerInfoHealth_def)

text \<open>A later look at a consumer that did not catch up: no counter went down, and what was delivered and
  acknowledged last is no younger, or never was.\<close>

definition older :: "gotime \<Rightarrow> gotime option \<Rightarrow> gotime \<Rightarrow> gotime option \<Rightarrow> bool" where
  "older now t now' t' \<longleftrightarrow> (case t' of None \<Rightarrow> True | Some l' \<Rightarrow> (case t of None \<Rightarrow> False | Some l \<Rightarrow> time_Sub now l \<le> time_Sub now' l'))"

definition behind :: "gotime \<Rightarrow> ConsumerInfo \<Rightarrow> gotime \<Rightarrow> ConsumerInfo \<Rightarrow> bool" where
  "behind now a now' b \<longleftrightarrow>
     cn_NumAckPending a \<le> cn_NumAckPending b \<and> cn_NumWaiting a \<le> cn_NumWaiting b \<and> cn_NumPending a \<le> cn_NumPending b \<and>
     cn_NumRedelivered a \<le> cn_NumRedelivered b \<and> cn_PriorityGroups a = cn_PriorityGroups b \<and> cn_Config a = cn_Config b \<and>
     older now (sq_Last (cn_Delivered a)) now' (sq_Last (cn_Delivered b)) \<and> older now (sq_Last (cn_AckFloor a)) now' (sq_Last (cn_AckFloor b))"

lemma since_bad_older: "since_bad now t crit \<Longrightarrow> older now t now' t' \<Longrightarrow> since_bad now' t' crit"
  by (auto simp: since_bad_def older_def split: option.splits)

lemma consumer_bad_behind:
  assumes "behind now a now' b" "consumer_bad now a opt"
  shows "consumer_bad now' b opt"
proof -
  have p: "pinned_bad b = pinned_bad a" using assms(1) by (simp add: behind_def pinned_bad_def priority_groups_def)
  have s: "since_bad now (sq_Last (cn_Delivered a)) c \<Longrightarrow> since_bad now' (sq_Last (cn_Delivered b)) c"
    "since_bad now (sq_Last (cn_AckFloor a)) c \<Longrightarrow> since_bad now' (sq_Last (cn_AckFloor b)) c" for c
    using assms(1) since_bad_older unfolding behind_def by blast+
  have "cn_NumAckPending a \<le> cn_NumAckPending b" "cn_NumWaiting a \<le> cn_NumWaiting b" "cn_NumPending a \<le> cn_NumPending b"
    "cn_NumRedelivered a \<le> cn_NumRedelivered b" using assms(1) by (simp_all add: behind_def)
  then show ?thesis using assms(2) s p unfolding consumer_bad_def by (meson order_trans)
qed

text \<open>C36. A consumer that falls behind never gets a better exit code: not when a counter grows, nor when
  the last delivery or acknowledgement ages or is gone.\<close>

theorem consumer_verdict_monotone:
  assumes "behind now a now' b"
  shows "exitCode (prepare (CheckConsumerInfoHealth now a opt r)) \<le> exitCode (prepare (CheckConsumerInfoHealth now' b opt r))"
  using consumer_bad_behind [OF assms, of opt] by (simp add: exit_is_severity consumer_severity)

subsection \<open>Accounts\<close>

definition replica_fails :: "CheckJetStreamAccountOptions \<Rightarrow> PeerInfo \<Rightarrow> bool" where
  "replica_fails opt r \<longleftrightarrow> pi_Offline r \<or> (ao_ReplicaSeenCritical opt > 0 \<and> pi_Active r > secondsToDuration (ao_ReplicaSeenCritical opt)) \<or>
     (ao_ReplicaLagCritical opt > 0 \<and> pi_Lag r > ao_ReplicaLagCritical opt)"

definition stream_fails :: "CheckJetStreamAccountOptions \<Rightarrow> StreamInfo option \<Rightarrow> bool" where
  "stream_fails opt info \<longleftrightarrow>
     (case info of
        None \<Rightarrow> True
      | Some nfo \<Rightarrow> sc_Replicas (nfo_Config nfo) \<noteq> 1 \<and>
          (case nfo_Cluster nfo of
             None \<Rightarrow> True
           | Some c \<Rightarrow> ci_Leader c = [] \<or> int (length (ci_Replicas c)) \<noteq> sc_Replicas (nfo_Config nfo) - 1 \<or>
               (\<exists>r \<in> set (ci_Replicas c). replica_fails opt r)))"

definition unhealthy :: "replica_counts \<Rightarrow> int" where
  "unhealthy k = rk_crit k + rk_missing k + rk_noLeader k + rk_seen k + rk_lag k"

lemma count_replica_step:
  "unhealthy (fst (count_replica opt r s)) = unhealthy (fst s) + (if replica_fails opt r then 1 else 0) \<and>
   rk_ok (fst (count_replica opt r s)) = rk_ok (fst s) \<and> snd (count_replica opt r s) = (snd s \<and> \<not> replica_fails opt r)"
  by (auto simp: count_replica_def replica_fails_def unhealthy_def)

lemma count_replicas:
  "unhealthy (fst (fold (count_replica opt) rs s)) = unhealthy (fst s) + count_if (replica_fails opt) rs \<and>
   rk_ok (fst (fold (count_replica opt) rs s)) = rk_ok (fst s) \<and>
   snd (fold (count_replica opt) rs s) = (snd s \<and> (\<forall>r \<in> set rs. \<not> replica_fails opt r))"
proof (induction rs arbitrary: s)
  case (Cons r rs)
  then show ?case using count_replica_step [of opt r s] by (auto simp: count_if_def)
qed (simp add: count_if_def)

text \<open>What a stream adds to the unhealthy count: its failing replicas, or one.\<close>

definition stream_weight :: "CheckJetStreamAccountOptions \<Rightarrow> StreamInfo option \<Rightarrow> int" where
  "stream_weight opt info =
     (case info of
        Some nfo \<Rightarrow>
          (case nfo_Cluster nfo of
             Some c \<Rightarrow> if sc_Replicas (nfo_Config nfo) \<noteq> 1 \<and> ci_Leader c \<noteq> [] \<and> int (length (ci_Replicas c)) = sc_Replicas (nfo_Config nfo) - 1
               then count_if (replica_fails opt) (ci_Replicas c) else (if stream_fails opt info then 1 else 0)
           | None \<Rightarrow> if stream_fails opt info then 1 else 0)
      | None \<Rightarrow> 1)"

lemma count_stream_step:
  "unhealthy (count_stream opt info k) = unhealthy k + stream_weight opt info \<and>
   rk_ok (count_stream opt info k) = rk_ok k + (if stream_fails opt info then 0 else 1)"
proof (cases info)
  case None
  then show ?thesis by (simp add: count_stream_def stream_weight_def stream_fails_def unhealthy_def)
next
  case (Some nfo)
  show ?thesis
  proof (cases "nfo_Cluster nfo")
    case None
    then show ?thesis using Some by (auto simp: count_stream_def stream_weight_def stream_fails_def unhealthy_def)
  next
    case c: (Some c)
    obtain k1 b where k1: "fold (count_replica opt) (ci_Replicas c) (k, True) = (k1, b)" by (cases "fold (count_replica opt) (ci_Replicas c) (k, True)")
    show ?thesis using Some c k1 count_replicas [of opt "ci_Replicas c" "(k, True)"]
      by (auto simp: count_stream_def stream_weight_def stream_fails_def unhealthy_def)
  qed
qed

lemma stream_weight_positive: "stream_weight opt info \<ge> 0 \<and> (stream_weight opt info > 0 \<longleftrightarrow> stream_fails opt info)"
  by (auto simp: stream_weight_def stream_fails_def count_if_positive split: option.splits) (simp_all add: count_if_def)

lemma count_streams:
  "unhealthy (fold (count_stream opt) infos k) = unhealthy k + sum_list (map (stream_weight opt) infos) \<and>
   rk_ok (fold (count_stream opt) infos k) = rk_ok k + count_if (\<lambda>i. \<not> stream_fails opt i) infos"
proof (induction infos arbitrary: k)
  case (Cons i infos)
  then show ?case using count_stream_step [of opt i k] by (simp add: count_if_def)
qed (simp add: count_if_def)

lemma weights_positive:
  "sum_list (map (stream_weight opt) infos) \<ge> 0 \<and> (sum_list (map (stream_weight opt) infos) > 0 \<longleftrightarrow> list_ex (stream_fails opt) infos)"
proof (induction infos)
  case (Cons i infos)
  then show ?case using stream_weight_positive [of opt i] by auto
qed simp

text \<open>The replica check of an account is critical exactly when some stream cannot be looked up, has no
  leader or not its replicas, or has a failing replica; and it reports as healthy exactly the number
  of the other streams.\<close>

theorem account_replicas_verdict:
  "exitCode (prepare (checkStreamClusterHealth opt infos (new_result name))) = (if list_ex (stream_fails opt) infos then 2 else 0) \<and>
   map pd_Value (filter (\<lambda>i. pd_Name i = ''replicas_ok'') (r_PerfData (checkStreamClusterHealth opt infos (new_result name)))) =
     [to_float (count_if (\<lambda>i. \<not> stream_fails opt i) infos)]"
proof -
  let ?k = "fold (count_stream opt) infos \<lparr> rk_ok = 0, rk_noLeader = 0, rk_missing = 0, rk_crit = 0, rk_lag = 0, rk_seen = 0 \<rparr>"
  have u: "unhealthy ?k = sum_list (map (stream_weight opt) infos)" "rk_ok ?k = count_if (\<lambda>i. \<not> stream_fails opt i) infos"
    using count_streams [of opt infos] by (simp_all add: unhealthy_def [of "\<lparr> rk_ok = 0, rk_noLeader = 0, rk_missing = 0, rk_crit = 0, rk_lag = 0, rk_seen = 0 \<rparr>"])
  have "severity (checkStreamClusterHealth opt infos (new_result name)) = (if list_ex (stream_fails opt) infos then 2 else 0)"
    using weights_positive [of opt infos] unfolding checkStreamClusterHealth_def Let_def unhealthy_def [symmetric] u by simp
  moreover have "r_RenderFormat (checkStreamClusterHealth opt infos (new_result name)) = NagiosFormat"
    by (simp add: checkStreamClusterHealth_def Let_def)
  ultimately have "exitCode (prepare (checkStreamClusterHealth opt infos (new_result name))) = (if list_ex (stream_fails opt) infos then 2 else 0)"
    by (simp add: exit_is_severity)
  moreover have "map pd_Value (filter (\<lambda>i. pd_Name i = ''replicas_ok'') (r_PerfData (checkStreamClusterHealth opt infos (new_result name)))) =
      [to_float (count_if (\<lambda>i. \<not> stream_fails opt i) infos)]"
    by (simp add: checkStreamClusterHealth_def Let_def u(2) Pd_def Criticalf_def new_result_def pd_item_def)
  ultimately show ?thesis by blast
qed

subsection \<open>Options written as metadata\<close>

lemma digit_val_sign: "digit_val (digit_char d) = Some e \<Longrightarrow> digit_char d \<noteq> CHR ''-'' \<and> digit_char d \<noteq> CHR ''+''"
  by (auto simp: digit_val_def split: if_splits)

lemma atoi_format_int: "- (2 ^ 63) \<le> i \<Longrightarrow> i < 2 ^ 63 \<Longrightarrow> atoi (format_int i) = Some i"
proof -
  assume i: "- (2 ^ 63) \<le> i" "i < 2 ^ 63"
  obtain c cs where c: "itoa (nat i) = c # cs" by (cases "itoa (nat i)") auto
  then have "is_digit c" using hd_itoa_digit [of "nat i"] by simp
  then have "c \<noteq> CHR ''-''" "c \<noteq> CHR ''+''" using digit_not_unit by auto
  show ?thesis
  proof (cases "i < 0")
    case True
    then have "nat (- i) \<le> 2 ^ 63" using i by simp
    then show ?thesis using True by (simp add: atoi_def format_int_def digits_value_itoa)
  next
    case False
    then have "nat i < 2 ^ 63" using i by simp
    then show ?thesis using False c \<open>c \<noteq> CHR ''-''\<close> \<open>c \<noteq> CHR ''+''\<close> digits_value_itoa [of "nat i"]
      by (simp add: atoi_def format_int_def)
  qed
qed

definition seconds_text :: "nat \<Rightarrow> string" where
  "seconds_text n = itoa n @ ''s''"

lemma read_seconds_text: "int n \<le> 4611686018 \<Longrightarrow> read_seconds f (seconds_text n) opts = Inr (f (of_nat n) opts)"
proof -
  assume n: "int n \<le> 4611686018"
  have "ParseDuration (seconds_text n) = Inr (int n * 1000000000)"
    using written_parses [of "[(n, ''s'')]"] n
    by (simp add: seconds_text_def duration_text_def duration_total_def is_unit_def unit_value_def time_units_def long_units_def)
  then show ?thesis using n Seconds_whole [of "int n"] by (simp add: read_seconds_def)
qed

text \<open>The metadata that asks for the options, with the two times in whole seconds.\<close>

definition stream_metadata :: "CheckStreamHealthOptions \<Rightarrow> nat \<Rightarrow> nat \<Rightarrow> (string, string) gomap" where
  "stream_metadata opt seen peer_seen =
     [(MonitorMetaEnabled, if so_Enabled opt then ''true'' else ''false''),
      (StreamMonitorMetaLagCritical, format_uint (so_SourcesLagCritical opt)),
      (StreamMonitorMetaSeenCritical, seconds_text seen),
      (StreamMonitorMetaMinSources, format_int (so_MinSources opt)),
      (StreamMonitorMetaMaxSources, format_int (so_MaxSources opt)),
      (StreamMonitorMetaPeerExpect, format_int (so_ClusterExpectedPeers opt)),
      (StreamMonitorMetaPeerLagCritical, format_uint (so_ClusterLagCritical opt)),
      (StreamMonitorMetaPeerSeenCritical, seconds_text peer_seen),
      (StreamMonitorMetaMessagesWarn, format_uint (so_MessagesWarn opt)),
      (StreamMonitorMetaMessagesCritical, format_uint (so_MessagesCrit opt)),
      (StreamMonitorMetaSubjectsWarn, format_int (so_SubjectsWarn opt)),
      (StreamMonitorMetaSubjectsCritical, format_int (so_SubjectsCrit opt))]"

lemmas meta_keys = MonitorMetaEnabled_def StreamMonitorMetaLagCritical_def StreamMonitorMetaSeenCritical_def StreamMonitorMetaMinSources_def
  StreamMonitorMetaMaxSources_def StreamMonitorMetaPeerExpect_def StreamMonitorMetaPeerLagCritical_def StreamMonitorMetaPeerSeenCritical_def
  StreamMonitorMetaMessagesWarn_def StreamMonitorMetaMessagesCritical_def StreamMonitorMetaSubjectsWarn_def StreamMonitorMetaSubjectsCritical_def

definition int64 :: "int \<Rightarrow> bool" where
  "int64 i \<longleftrightarrow> - (2 ^ 63) \<le> i \<and> i < 2 ^ 63"

lemma read_int_format: "int64 i \<Longrightarrow> read_int f (format_int i) opts = Inr (f i opts)"
  by (simp add: read_int_def atoi_format_int int64_def)

lemma read_uint_format: "read_uint f (format_uint n) opts = Inr (f n opts)"
  by (simp add: read_uint_def)

lemma read_bool_text: "read_bool f (if b then ''true'' else ''false'') opts = Inr (f b opts)"
  by (simp add: read_bool_def ParseBool_def)

lemma stream_metadata_lookup:
  "map_of (stream_metadata opt a b) MonitorMetaEnabled = Some (if so_Enabled opt then ''true'' else ''false'')"
  "map_of (stream_metadata opt a b) StreamMonitorMetaLagCritical = Some (format_uint (so_SourcesLagCritical opt))"
  "map_of (stream_metadata opt a b) StreamMonitorMetaSeenCritical = Some (seconds_text a)"
  "map_of (stream_metadata opt a b) StreamMonitorMetaMinSources = Some (format_int (so_MinSources opt))"
  "map_of (stream_metadata opt a b) StreamMonitorMetaMaxSources = Some (format_int (so_MaxSources opt))"
  "map_of (stream_metadata opt a b) StreamMonitorMetaPeerExpect = Some (format_int (so_ClusterExpectedPeers opt))"
  "map_of (stream_metadata opt a b) StreamMonitorMetaPeerLagCritical = Some (format_uint (so_ClusterLagCritical opt))"
  "map_of (stream_metadata opt a b) StreamMonitorMetaPeerSeenCritical = Some (seconds_text b)"
  "map_of (stream_metadata opt a b) StreamMonitorMetaMessagesWarn = Some (format_uint (so_MessagesWarn opt))"
  "map_of (stream_metadata opt a b) StreamMonitorMetaMessagesCritical = Some (format_uint (so_MessagesCrit opt))"
  "map_of (stream_metadata opt a b) StreamMonitorMetaSubjectsWarn = Some (format_int (so_SubjectsWarn opt))"
  "map_of (stream_metadata opt a b) StreamMonitorMetaSubjectsCritical = Some (format_int (so_SubjectsCrit opt))"
  by (simp_all add: stream_metadata_def meta_keys)

text \<open>The options a stream asks for in its metadata are the ones it is checked with: every threshold,
  negative numbers and times in seconds included, is read back as written.\<close>

theorem stream_options_roundtrip:
  assumes "so_SourcesSeenCritical opt = of_nat seen" "so_ClusterSeenCritical opt = of_nat peer_seen"
    and "int seen \<le> 4611686018" "int peer_seen \<le> 4611686018"
    and "int64 (so_MinSources opt)" "int64 (so_MaxSources opt)" "int64 (so_ClusterExpectedPeers opt)" "int64 (so_SubjectsWarn opt)"
      "int64 (so_SubjectsCrit opt)"
  shows "populateStreamHealthCheckOptions (stream_metadata opt seen peer_seen) (zeroStreamOptions (so_StreamName opt)) = Inr opt"
  using assms
  by (simp add: populateStreamHealthCheckOptions_def stream_parser_def parse_meta_def stream_metadata_lookup read_bool_text read_uint_format
      read_int_format read_seconds_text zeroStreamOptions_def)

theorem stream_options_roundtrip_witness:
  "populateStreamHealthCheckOptions
     (stream_metadata ((zeroStreamOptions ''S'')\<lparr> so_SourcesSeenCritical := 90, so_MinSources := - 3, so_MessagesCrit := 10 \<rparr>) 90 0) (zeroStreamOptions ''S'') =
   Inr ((zeroStreamOptions ''S'')\<lparr> so_SourcesSeenCritical := 90, so_MinSources := - 3, so_MessagesCrit := 10 \<rparr>)"
  using stream_options_roundtrip [of "(zeroStreamOptions ''S'')\<lparr> so_SourcesSeenCritical := 90, so_MinSources := - 3, so_MessagesCrit := 10 \<rparr>" 90 0]
  by (simp add: zeroStreamOptions_def int64_def)

theorem consumer_verdict_monotone_witness:
  "exitCode (prepare (CheckConsumerInfoHealth 5 zeroConsumerInfo (zeroConsumerOptions\<lparr> co_UnprocessedCritical := 10 \<rparr>) (new_result ''c''))) \<le>
   exitCode (prepare (CheckConsumerInfoHealth 9 (zeroConsumerInfo\<lparr> cn_NumPending := 12 \<rparr>) (zeroConsumerOptions\<lparr> co_UnprocessedCritical := 10 \<rparr>) (new_result ''c'')))"
  by (rule consumer_verdict_monotone) (simp add: behind_def older_def zeroConsumerInfo_def zeroSequenceInfo_def)

subsection \<open>Certificates\<close>

lemma truncate_mono: "a \<le> b \<Longrightarrow> duration_Truncate a 1000000000 \<le> duration_Truncate b 1000000000"
proof -
  have up: "d - d mod 1000000000 = 1000000000 * (d div 1000000000)" for d :: int by (simp add: minus_mod_eq_mult_div)
  have down: "d + (- d) mod 1000000000 = - (1000000000 * ((- d) div 1000000000))" for d :: int
    using mult_div_mod_eq [of 1000000000 "- d"] by linarith
  assume "a \<le> b"
  then have "a div 1000000000 \<le> b div 1000000000" "(- b) div 1000000000 \<le> (- a) div 1000000000" by (simp_all add: zdiv_mono1)
  moreover have "a < 0 \<Longrightarrow> (- a) div 1000000000 \<ge> 0" "b \<ge> 0 \<Longrightarrow> b div 1000000000 \<ge> 0" by (simp_all add: pos_imp_zdiv_nonneg_iff)
  ultimately show ?thesis using \<open>a \<le> b\<close> unfolding duration_Truncate_def up down by auto
qed

text \<open>As time passes the verdict on a certificate never gets better, whatever the thresholds are: what
  warned goes on warning or becomes critical, and an expired one stays critical.\<close>

theorem certificate_verdict_monotone:
  assumes "now \<le> now'"
  shows "severity (checkTLSCertExpiry component expiry now warn crit r) \<le> severity (checkTLSCertExpiry component expiry now' warn crit r)"
proof -
  have "time_Sub expiry now' \<le> time_Sub expiry now" using assms by (simp add: time_Sub_def)
  then have "duration_Truncate (time_Sub expiry now') 1000000000 \<le> duration_Truncate (time_Sub expiry now) 1000000000" by (rule truncate_mono)
  then show ?thesis using severity_le [of r] by (auto simp: checkTLSCertExpiry_def Let_def)
qed

theorem certificate_verdict_monotone_witness:
  "severity (checkTLSCertExpiry ''server'' 5000000000 0 3000000000 1000000000 (new_result ''s'')) \<le>
   severity (checkTLSCertExpiry ''server'' 5000000000 4000000000 3000000000 1000000000 (new_result ''s''))"
  by (rule certificate_verdict_monotone) simp

subsection \<open>Where the checks differ from what they say\<close>

text \<open>The validity thresholds of a credential are seconds, but the seconds left are compared with their
  nanoseconds: a credential valid for thirty years is critical at a threshold of one second; and one
  that never expires is critical at any threshold.\<close>

definition credential_check :: "int \<Rightarrow> int \<Rightarrow> rat \<Rightarrow> Result" where
  "credential_check now expiry crit =
     CheckCredential (\<lambda>_. Inr True) (\<lambda>_. Inr []) (\<lambda>_. Inr expiry) now
       \<lparr> cd_File = [], cd_ValidityWarning = 0, cd_ValidityCritical = crit, cd_RequiresExpiry = False \<rparr> (new_result ''credential'')"

lemma float_seconds: "float64 1000000000 = 1000000000"
  using float64_int [of 1000000000] by simp

lemma credential_threshold_units:
  "severity (credential_check now (now + 946080000) 1) = 2"
  "now > 0 \<Longrightarrow> severity (credential_check now 0 1) = 2"
  using truncate_int_of_int [of 1000000000]
  by (simp_all add: credential_check_def CheckCredential_def secondsToDuration_def float_seconds Let_def)

text \<open>29 of 100 is 28 percent in float64 arithmetic, cut off.\<close>

lemma percent_cut_off: "used_percent 29 100 = 28"
  by code_simp

text \<open>The replica check counts failing replicas where it reports unhealthy streams.\<close>

lemma replicas_counted_as_streams:
  assumes "nfo_Cluster si = Some c" "sc_Replicas (nfo_Config si) = int (length (ci_Replicas c)) + 1" "ci_Leader c \<noteq> []"
    "ci_Replicas c \<noteq> []" "\<forall>r \<in> set (ci_Replicas c). pi_Offline r"
  shows "r_Criticals (checkStreamClusterHealth opt [Some si] (new_result name)) = [(''%d unhealthy streams'', [AInt (int (length (ci_Replicas c)))])]"
proof -
  let ?z = "\<lparr> rk_ok = 0, rk_noLeader = 0, rk_missing = 0, rk_crit = 0, rk_lag = 0, rk_seen = 0 \<rparr>"
  have all: "count_if (replica_fails opt) (ci_Replicas c) = int (length (ci_Replicas c))"
    using assms(5) by (simp add: count_if_def replica_fails_def filter_id_conv [THEN iffD2])
  have "unhealthy (fold (count_stream opt) [Some si] ?z) = int (length (ci_Replicas c))"
    using count_streams [of opt "[Some si]" ?z] assms all by (simp add: stream_weight_def unhealthy_def)
  then show ?thesis using assms(4) by (simp add: checkStreamClusterHealth_def Let_def unhealthy_def Criticalf_def Pd_def new_result_def)
qed

end
