(* ===== verification/Spec2Isabelle.thy ===== *)
theory Spec2Isabelle
  imports Api_Enums Api_Types Names MsgMeta Backup_Types Backup_Decoder Backup_SubjectState Backup_Verify
    Backup_Filter Backup_Obfuscate Backup_Edit Backup_EditSpec Backup_TwoPass Backup_EditCopies Backup_EditProps Backup_EditReport Backup_Recorder
    Api_Messages Api_Level Client Client_Streams Client_Consumers Client_Props Stream_Query Consumer_Query
    Query_Props Stream_Gaps Context_Env Context_Backends Context_Settings Context_Registry Context_Paths Context_Store
    Context_Props Context_Creds Conn_Balancer Leader_Balancer
    Audit_Tags Audit_Archive Audit_Archive_Props Audit_Checks Audit_Check_Props Audit_Server_Checks Audit_Stream_Checks Audit_Verdicts
    Server_Request Server_Archive Server_Live Server_Props Gather Gather_Props
    Float64 Durations Monitor_Result Monitor_Stream Monitor_Consumer Monitor_Server Monitor_Misc Monitor_Props
begin

text \<open>
  A verification development of jsm.go.
\<close>

end
